(* ===== verification/Prelude.thy ===== *)
theory Prelude
  imports Main "HOL-Library.AList"
begin

text \<open>
  Shared vocabulary of the development: results with errors, database tables, text keys,
  JSON values, time, and the interfaces (locales) that several services share.

  \<^item> A method body that may raise is a value of type \<open>'e + 'a\<close>: \<open>Inl\<close> is the exception,
    \<open>Inr\<close> the returned value. \<open>ebind\<close> sequences two such steps.
  \<^item> A method body that runs inside \<open>with factory() as db, db.begin():\<close> is a function of the
    database that returns \<open>'e + ('a \<times> 'd)\<close>; \<open>commit\<close> is what the context manager makes of
    it: commit on a normal return, roll back (the old database) on an exception.
  \<^item> A table is an association list in insertion order, which is primary-key order for
    auto-increment keys: \<open>tget\<close> is \<open>db.get\<close>, \<open>tmod\<close> an attribute assignment on the row that
    the ORM has in its identity map, \<open>tadd\<close> the insert of \<open>db.add\<close> with the primary-key
    constraint, \<open>trows\<close> what a query ranges over.
\<close>

named_theorems result_simps \<open>inversion of sequenced results\<close>
named_theorems result_elims \<open>stepwise inversion of a body that returned\<close>
named_theorems table_simps \<open>reads after writes of tables\<close>

section \<open>Results\<close>

definition ebind :: "'e + 'a \<Rightarrow> ('a \<Rightarrow> 'e + 'b) \<Rightarrow> 'e + 'b" where
  "ebind m f = (case m of Inl e \<Rightarrow> Inl e | Inr x \<Rightarrow> f x)"

definition some_or :: "'e \<Rightarrow> 'a option \<Rightarrow> 'e + 'a" where
  "some_or e m = (case m of None \<Rightarrow> Inl e | Some x \<Rightarrow> Inr x)"

definition require :: "bool \<Rightarrow> 'e \<Rightarrow> 'e + unit" where
  "require ok e = (if ok then Inr () else Inl e)"

fun efold :: "('a \<Rightarrow> 'd \<Rightarrow> 'e + 'd) \<Rightarrow> 'a list \<Rightarrow> 'd \<Rightarrow> 'e + 'd" where
  "efold f [] d = Inr d"
| "efold f (x # xs) d = ebind (f x d) (efold f xs)"

definition commit :: "'e + ('a \<times> 'd) \<Rightarrow> 'd \<Rightarrow> ('e + 'a) \<times> 'd" where
  "commit r d = (case r of Inl e \<Rightarrow> (Inl e, d) | Inr (x, d') \<Rightarrow> (Inr x, d'))"

lemma ebind_Inl [simp]: "ebind (Inl e) f = Inl e"
  by (simp add: ebind_def)

lemma ebind_Inr [simp]: "ebind (Inr x) f = f x"
  by (simp add: ebind_def)

lemma ebind_eq_Inr [result_simps]: "ebind m f = Inr y \<longleftrightarrow> (\<exists>x. m = Inr x \<and> f x = Inr y)"
  by (cases m) auto

lemma ebind_eq_Inl [result_simps]:
  "ebind m f = Inl e \<longleftrightarrow> m = Inl e \<or> (\<exists>x. m = Inr x \<and> f x = Inl e)"
  by (cases m) auto

lemma ebind_assoc: "ebind (ebind m f) g = ebind m (\<lambda>x. ebind (f x) g)"
  by (cases m) auto

lemma some_or_simps [simp]: "some_or e None = Inl e" "some_or e (Some x) = Inr x"
  by (simp_all add: some_or_def)

lemma some_or_eq_Inr [result_simps]: "some_or e m = Inr x \<longleftrightarrow> m = Some x"
  by (cases m) auto

lemma some_or_eq_Inl [result_simps]: "some_or e m = Inl e' \<longleftrightarrow> m = None \<and> e' = e"
  by (cases m) auto

lemma require_simps [simp]: "require True e = Inr ()" "require False e = Inl e"
  by (simp_all add: require_def)

lemma require_eq_Inr [result_simps]: "require ok e = Inr u \<longleftrightarrow> ok"
  by (cases ok) auto

lemma require_eq_Inl [result_simps]: "require ok e = Inl e' \<longleftrightarrow> \<not> ok \<and> e' = e"
  by (cases ok) auto

lemma if_raise_eq_Inr [result_simps]:
  "(if b then Inl e else m) = Inr y \<longleftrightarrow> \<not> b \<and> m = Inr y"
  by simp

text \<open>
  The same inversions as elimination rules: \<open>elim result_elims\<close> takes a body that returned
  apart statement by statement, with each intermediate database as a variable.
\<close>

lemma ebind_InrE [result_elims]:
  "ebind m f = Inr y \<Longrightarrow> (\<And>x. m = Inr x \<Longrightarrow> f x = Inr y \<Longrightarrow> P) \<Longrightarrow> P"
  by (auto simp: ebind_eq_Inr)

lemma raise_InrE [result_elims]:
  "(if b then Inl e else m) = Inr y \<Longrightarrow> (\<not> b \<Longrightarrow> m = Inr y \<Longrightarrow> P) \<Longrightarrow> P"
  by (simp split: if_splits)

lemma raise_else_InrE [result_elims]:
  "(if b then m else Inl e) = Inr y \<Longrightarrow> (b \<Longrightarrow> m = Inr y \<Longrightarrow> P) \<Longrightarrow> P"
  by (simp split: if_splits)

lemma none_InrE [result_elims]:
  "(case m of None \<Rightarrow> Inl e | Some x \<Rightarrow> f x) = Inr y \<Longrightarrow>
     (\<And>x. m = Some x \<Longrightarrow> f x = Inr y \<Longrightarrow> P) \<Longrightarrow> P"
  by (simp split: option.splits)

lemma some_or_InrE [result_elims]: "some_or e m = Inr x \<Longrightarrow> (m = Some x \<Longrightarrow> P) \<Longrightarrow> P"
  by (simp add: some_or_eq_Inr)

lemma require_InrE [result_elims]: "require b e = Inr u \<Longrightarrow> (b \<Longrightarrow> P) \<Longrightarrow> P"
  by (simp add: require_eq_Inr)

lemma Let_InrE [result_elims]:
  "Let a f = Inr y \<Longrightarrow> (\<And>x. x = a \<Longrightarrow> f x = Inr y \<Longrightarrow> P) \<Longrightarrow> P"
  by simp

lemma prod_InrE [result_elims]:
  "(case p of (a, b) \<Rightarrow> f a b) = Inr y \<Longrightarrow> (\<And>a b. p = (a, b) \<Longrightarrow> f a b = Inr y \<Longrightarrow> P) \<Longrightarrow> P"
  by (cases p) simp

lemma Inr_pairE [result_elims]: "Inr (a, b) = Inr (c, d) \<Longrightarrow> (c = a \<Longrightarrow> d = b \<Longrightarrow> P) \<Longrightarrow> P"
  by simp

lemma if_InrE:
  "(if b then l else m) = Inr y \<Longrightarrow> (b \<Longrightarrow> l = Inr y \<Longrightarrow> P) \<Longrightarrow> (\<not> b \<Longrightarrow> m = Inr y \<Longrightarrow> P) \<Longrightarrow> P"
  by (simp split: if_splits)

lemma option_InrE:
  "(case m of None \<Rightarrow> l | Some x \<Rightarrow> f x) = Inr y \<Longrightarrow> (m = None \<Longrightarrow> l = Inr y \<Longrightarrow> P) \<Longrightarrow>
     (\<And>x. m = Some x \<Longrightarrow> f x = Inr y \<Longrightarrow> P) \<Longrightarrow> P"
  by (simp split: option.splits)

lemma efold_invariant:
  assumes "efold f xs d = Inr d'" and "P d"
    and "\<And>x d d'. x \<in> set xs \<Longrightarrow> P d \<Longrightarrow> f x d = Inr d' \<Longrightarrow> P d'"
  shows "P d'"
  using assms
proof (induction xs arbitrary: d)
  case (Cons x xs)
  then obtain d1 where "f x d = Inr d1" and "efold f xs d1 = Inr d'"
    by (auto simp: result_simps)
  with Cons show ?case by (meson list.set_intros)
qed simp

lemma commit_Inr [simp]: "commit (Inr (x, d')) d = (Inr x, d')"
  by (simp add: commit_def)

lemma commit_Inl [simp]: "commit (Inl e) d = (Inl e, d)"
  by (simp add: commit_def)

lemma commit_eq_Inr: "commit r d = (Inr x, d') \<longleftrightarrow> r = Inr (x, d')"
  by (auto simp: commit_def split: sum.splits)

lemma commit_rolls_back: "commit r d = (Inl e, d') \<Longrightarrow> d' = d"
  by (auto simp: commit_def split: sum.splits)

section \<open>Tables\<close>

type_synonym ('k, 'v) table = "('k \<times> 'v) list"

definition tget :: "('k, 'v) table \<Rightarrow> 'k \<Rightarrow> 'v option" where
  "tget t = map_of t"

definition tput :: "'k \<Rightarrow> 'v \<Rightarrow> ('k, 'v) table \<Rightarrow> ('k, 'v) table" where
  "tput k v t = AList.update k v t"

definition tmod :: "'k \<Rightarrow> ('v \<Rightarrow> 'v) \<Rightarrow> ('k, 'v) table \<Rightarrow> ('k, 'v) table" where
  "tmod k f t = (case tget t k of None \<Rightarrow> t | Some v \<Rightarrow> tput k (f v) t)"

definition tadd :: "'e \<Rightarrow> 'k \<Rightarrow> 'v \<Rightarrow> ('k, 'v) table \<Rightarrow> 'e + ('k, 'v) table" where
  "tadd dup k v t = (if tget t k = None then Inr (t @ [(k, v)]) else Inl dup)"

definition tadd_ignore :: "'k \<Rightarrow> 'v \<Rightarrow> ('k, 'v) table \<Rightarrow> ('k, 'v) table" where
  \<comment> \<open>MySQL \<open>INSERT ... ON DUPLICATE KEY UPDATE id = id\<close>: an existing row is kept.\<close>
  "tadd_ignore k v t = (if tget t k = None then t @ [(k, v)] else t)"

definition trows :: "('k, 'v) table \<Rightarrow> 'v list" where
  "trows t = map snd t"

lemma tget_Nil [simp]: "tget [] k = None"
  by (simp add: tget_def)

lemma tget_Cons [simp]: "tget ((k', v) # t) k = (if k = k' then Some v else tget t k)"
  by (simp add: tget_def)

lemma tget_append: "tget (t @ u) k = (case tget t k of None \<Rightarrow> tget u k | Some v \<Rightarrow> Some v)"
  by (simp add: tget_def map_add_def split: option.splits)

lemma tget_tput [simp, table_simps]: "tget (tput k v t) k' = (if k' = k then Some v else tget t k')"
  by (simp add: tget_def tput_def update_conv')

lemma tget_tmod [simp, table_simps]:
  "tget (tmod k f t) k' = (if k' = k then map_option f (tget t k) else tget t k')"
  by (auto simp: tmod_def split: option.splits)

lemma tmod_absent [simp]: "tget t k = None \<Longrightarrow> tmod k f t = t"
  by (simp add: tmod_def)

lemma tput_twice [simp]: "tput k v (tput k w t) = tput k v t"
  by (induction t) (auto simp: tput_def)

lemma tmod_twice: "tmod k g (tmod k f t) = tmod k (\<lambda>x. g (f x)) t"
  by (cases "tget t k") (auto simp: tmod_def split: option.splits)

lemma tadd_eq_Inr [result_simps]:
  "tadd dup k v t = Inr t' \<longleftrightarrow> tget t k = None \<and> t' = t @ [(k, v)]"
  by (auto simp: tadd_def)

lemma tadd_eq_Inl [result_simps]: "tadd dup k v t = Inl e \<longleftrightarrow> tget t k \<noteq> None \<and> e = dup"
  by (auto simp: tadd_def)

lemma tget_snoc [simp, table_simps]:
  "tget t k = None \<Longrightarrow> tget (t @ [(k, v)]) k' = (if k' = k then Some v else tget t k')"
  by (auto simp: tget_append split: option.splits)

lemma tget_tadd_ignore [simp, table_simps]:
  "tget (tadd_ignore k v t) k' =
     (if k' = k then (case tget t k of None \<Rightarrow> Some v | Some w \<Rightarrow> Some w) else tget t k')"
  by (auto simp: tadd_ignore_def split: option.splits)

lemma tget_in_trows: "tget t k = Some v \<Longrightarrow> v \<in> set (trows t)"
  unfolding tget_def trows_def by (force dest: map_of_SomeD)

lemma tput_keys_absent: "k \<notin> fst ` set t \<Longrightarrow> tput k v t = t @ [(k, v)]"
  by (induction t) (auto simp: tput_def)

lemma trows_append [simp]: "trows (t @ [(k, v)]) = trows t @ [v]"
  by (simp add: trows_def)

text \<open>Distinct primary keys: every write keeps them, and then queries and lookups agree.\<close>

definition keys_ok :: "('k, 'v) table \<Rightarrow> bool" where
  "keys_ok t \<longleftrightarrow> distinct (map fst t)"

lemma keys_ok_Nil [simp]: "keys_ok []"
  by (simp add: keys_ok_def)

lemma keys_ok_tput [simp]: "keys_ok t \<Longrightarrow> keys_ok (tput k v t)"
  by (simp add: keys_ok_def tput_def distinct_update)

lemma keys_ok_tmod [simp]: "keys_ok t \<Longrightarrow> keys_ok (tmod k f t)"
  by (simp add: tmod_def split: option.splits)

lemma keys_ok_snoc [simp]: "keys_ok t \<Longrightarrow> tget t k = None \<Longrightarrow> keys_ok (t @ [(k, v)])"
  by (auto simp: keys_ok_def tget_def map_of_eq_None_iff)

lemma keys_ok_tadd_ignore [simp]: "keys_ok t \<Longrightarrow> keys_ok (tadd_ignore k v t)"
  by (simp add: tadd_ignore_def)

lemma trows_tget:
  assumes "keys_ok t"
  shows "v \<in> set (trows t) \<longleftrightarrow> (\<exists>k. tget t k = Some v)"
proof
  assume "v \<in> set (trows t)"
  then obtain k where "(k, v) \<in> set t" by (auto simp: trows_def)
  with assms have "tget t k = Some v" by (simp add: keys_ok_def tget_def)
  then show "\<exists>k. tget t k = Some v" ..
qed (auto intro: tget_in_trows)

section \<open>Time, text and JSON\<close>

text \<open>
  A \<open>datetime\<close> is a number of microseconds (the resolution of Python's \<open>datetime\<close>); one time
  zone is used throughout. \<open>seconds n\<close> is \<open>timedelta(seconds=n)\<close>.
\<close>

type_synonym time = int

definition seconds :: "int \<Rightarrow> time" where
  "seconds n = n * 1000000"

definition minutes :: "int \<Rightarrow> time" where
  "minutes n = seconds (n * 60)"

definition hours :: "int \<Rightarrow> time" where
  "hours n = minutes (n * 60)"

lemma seconds_pos [simp]: "0 < seconds n \<longleftrightarrow> 0 < n"
  by (simp add: seconds_def)

lemma seconds_nonneg [simp]: "0 \<le> seconds n \<longleftrightarrow> 0 \<le> n"
  by (simp add: seconds_def)

lemma seconds_le [simp]: "seconds m \<le> seconds n \<longleftrightarrow> m \<le> n"
  by (simp add: seconds_def)

fun show_nat :: "nat \<Rightarrow> string" where
  "show_nat n = (if n < 10 then [char_of (48 + n)] else show_nat (n div 10) @ [char_of (48 + n mod 10)])"

declare show_nat.simps [simp del]

definition show_int :: "int \<Rightarrow> string" where
  "show_int i = (if i < 0 then CHR ''-'' # show_nat (nat (- i)) else show_nat (nat i))"

fun read_digits :: "nat \<Rightarrow> string \<Rightarrow> nat option" where
  "read_digits acc [] = Some acc"
| "read_digits acc (c # cs) =
     (let n = of_char c :: nat in
      if 48 \<le> n \<and> n \<le> 57 then read_digits (acc * 10 + (n - 48)) cs else None)"

definition read_nat :: "string \<Rightarrow> nat option" where
  "read_nat cs = (if cs = [] then None else read_digits 0 cs)"

lemma read_digits_append:
  "read_digits a (xs @ ys) = (case read_digits a xs of None \<Rightarrow> None | Some b \<Rightarrow> read_digits b ys)"
  by (induction a xs rule: read_digits.induct) (auto simp: Let_def)

lemma of_char_digit: "n < 10 \<Longrightarrow> of_char (char_of (48 + n)) = (48 + n :: nat)"
  by simp

lemma show_nat_not_Nil [simp]: "show_nat n \<noteq> []"
  by (subst show_nat.simps) simp

lemma read_digits_digit: "n < 10 \<Longrightarrow> read_digits a [char_of (48 + n)] = Some (a * 10 + n)"
  using of_char_digit [of n] by (simp add: Let_def del: of_char_of)

lemma read_digits_show: "read_digits 0 (show_nat n) = Some n"
proof (induction n rule: show_nat.induct)
  case (1 n)
  show ?case
  proof (cases "n < 10")
    case True
    then show ?thesis by (subst show_nat.simps) (simp only: if_True read_digits_digit, simp)
  next
    case False
    with 1 have "read_digits 0 (show_nat (n div 10)) = Some (n div 10)" by simp
    with False show ?thesis
      by (subst show_nat.simps)
        (simp only: if_False read_digits_append option.case read_digits_digit [of "n mod 10"]
          mod_less_divisor zero_less_numeral, simp)
  qed
qed

lemma read_show_nat [simp]: "read_nat (show_nat n) = Some n"
  by (simp add: read_nat_def read_digits_show)

lemma show_nat_inj [simp]: "show_nat m = show_nat n \<longleftrightarrow> m = n"
  by (metis read_show_nat option.inject)

lemma show_nat_digits: "c \<in> set (show_nat n) \<Longrightarrow> of_char c \<in> {48..57 :: nat}"
proof (induction n rule: show_nat.induct)
  case (1 n)
  then show ?case
    by (subst (asm) show_nat.simps) (auto split: if_splits)
qed

lemma show_nat_hd: "show_nat n = c # cs \<Longrightarrow> c \<noteq> CHR ''-''"
  using show_nat_digits [of c n] by auto

lemma show_int_inj [simp]: "show_int a = show_int b \<longleftrightarrow> a = b"
proof
  assume h: "show_int a = show_int b"
  show "a = b"
  proof (cases "a < 0"; cases "b < 0")
    assume "a < 0" "\<not> b < 0"
    with h show ?thesis by (metis show_int_def show_nat_hd)
  next
    assume "\<not> a < 0" "b < 0"
    with h show ?thesis by (metis show_int_def show_nat_hd)
  qed (use h in \<open>auto simp: show_int_def\<close>)
qed simp

lemma digit_chars:
  "char_of (48 :: nat) = CHR ''0''" "char_of (49 :: nat) = CHR ''1''" "char_of (50 :: nat) = CHR ''2''"
  "char_of (51 :: nat) = CHR ''3''" "char_of (52 :: nat) = CHR ''4''" "char_of (53 :: nat) = CHR ''5''"
  "char_of (54 :: nat) = CHR ''6''" "char_of (55 :: nat) = CHR ''7''" "char_of (56 :: nat) = CHR ''8''"
  "char_of (57 :: nat) = CHR ''9''"
  by (simp_all add: char_of_def bit_iff_odd)

definition is_space :: "char \<Rightarrow> bool" where
  "is_space c \<longleftrightarrow> (let n = of_char c :: nat in 9 \<le> n \<and> n \<le> 13 \<or> 28 \<le> n \<and> n \<le> 32 \<or> n = 133 \<or> n = 160)"

definition strip :: "string \<Rightarrow> string" where
  "strip s = rev (dropWhile is_space (rev (dropWhile is_space s)))"

text \<open>
  JSON values, as the code stores them in JSON columns and hashes them. \<open>JOpaque\<close> is a Python
  object that \<open>json.dumps\<close> rejects.
\<close>

datatype json =
    JNull
  | JBool bool
  | JInt int
  | JStr string
  | JArr "json list"
  | JObj "(string \<times> json) list"
  | JOpaque

fun jget :: "json \<Rightarrow> string \<Rightarrow> json" where
  \<comment> \<open>\<open>value.get(key)\<close> on a dictionary: \<open>JNull\<close> when the key is missing\<close>
  "jget (JObj kvs) k = (case map_of kvs k of None \<Rightarrow> JNull | Some v \<Rightarrow> v)"
| "jget _ k = JNull"

fun jset :: "json \<Rightarrow> string \<Rightarrow> json \<Rightarrow> json" where
  \<comment> \<open>\<open>{**value, key: v}\<close>\<close>
  "jset (JObj kvs) k v = JObj (AList.update k v kvs)"
| "jset j k v = j"

definition jopt :: "('a \<Rightarrow> json) \<Rightarrow> 'a option \<Rightarrow> json" where
  "jopt f m = (case m of None \<Rightarrow> JNull | Some x \<Rightarrow> f x)"

fun jok :: "json \<Rightarrow> bool" where
  \<comment> \<open>\<open>json.dumps\<close> succeeds\<close>
  "jok (JArr xs) = (\<forall>x \<in> set xs. jok x)"
| "jok (JObj kvs) = (\<forall>kv \<in> set kvs. jok (snd kv))"
| "jok JOpaque = False"
| "jok _ = True"

lemma jget_jset [simp]: "jget (jset (JObj kvs) k v) k' = (if k' = k then v else jget (JObj kvs) k')"
  by (simp add: update_conv')

lemma jopt_simps [simp]: "jopt f None = JNull" "jopt f (Some x) = f x"
  by (simp_all add: jopt_def)

end
