(* ===== verification/Interfaces.thy ===== *)
theory Interfaces
  imports Prelude
begin

text \<open>
  The contracts that several services of the program rely on, each stated once as a locale with
  the consequences its clients use.

  \<^item> \<open>exclusive_lease\<close>: a row that one worker at a time may own until a deadline (model task
    leases, notification leases).
  \<^item> \<open>fenced_lease\<close>: an exclusive lease whose owner also carries an epoch, so that an owner
    displaced once stays displaced (graph task leases, approval executions, the P0 store).
  \<^item> \<open>idempotent_command\<close>: a command stored under an idempotency key, whose replays return the
    stored result and write nothing (business commands, approval results, task creation).
  \<^item> \<open>versioned_update\<close>: an update that names the version it was computed for (seller policies,
    business commands).
  Every locale is interpreted on the model's own definitions, in the theory of the provider.
\<close>

section \<open>Leases\<close>

locale exclusive_lease =
  fixes holds :: "'row \<Rightarrow> 'own \<Rightarrow> time \<Rightarrow> bool"
    and claim :: "'row \<Rightarrow> 'tok \<Rightarrow> time \<Rightarrow> ('own \<times> 'row) option"
  assumes holds_unique: "holds r p t \<Longrightarrow> holds r q t' \<Longrightarrow> p = q"
    and holds_earlier: "holds r p t \<Longrightarrow> t' \<le> t \<Longrightarrow> holds r p t'"
    and claim_excluded: "holds r p t \<Longrightarrow> claim r k t = None"
    and claim_owner: "claim r k t = Some (p, r') \<Longrightarrow> holds r' q t' \<Longrightarrow> q = p"
begin

lemma claim_expired:
  assumes "claim r k t = Some (p, r')" and "holds r q t'"
  shows "t' < t"
proof (rule ccontr)
  assume "\<not> t' < t"
  then have "holds r q t" using assms(2) by (intro holds_earlier [of r q t' t]) auto
  then have "claim r k t = None" by (rule claim_excluded)
  with assms(1) show False by simp
qed

lemma claim_displaces:
  assumes "claim r k t = Some (p, r')" and "holds r q t0" and "q \<noteq> p"
  shows "\<not> holds r' q t'"
  using assms claim_owner by blast

lemma claim_blocks_second:
  assumes "claim r k t = Some (p, r')" and "holds r' p t'"
  shows "claim r' k' t' = None"
  using assms by (intro claim_excluded)

end

locale fenced_lease = exclusive_lease holds claim
  for holds :: "'row \<Rightarrow> 'own \<Rightarrow> time \<Rightarrow> bool"
    and claim :: "'row \<Rightarrow> 'tok \<Rightarrow> time \<Rightarrow> ('own \<times> 'row) option" +
  fixes epoch :: "'row \<Rightarrow> int"
    and own_epoch :: "'own \<Rightarrow> int"
    and step :: "'row \<Rightarrow> 'row \<Rightarrow> bool"
  assumes holds_epoch: "holds r p t \<Longrightarrow> own_epoch p = epoch r"
    and claim_epoch: "claim r k t = Some (p, r') \<Longrightarrow> epoch r < epoch r' \<and> own_epoch p = epoch r'"
    and step_epoch: "step r r' \<Longrightarrow> epoch r \<le> epoch r'"
begin

lemma steps_epoch: "step\<^sup>*\<^sup>* r r' \<Longrightarrow> epoch r \<le> epoch r'"
proof (induction rule: rtranclp_induct)
  case (step y z)
  then show ?case using step_epoch [of y z] by linarith
qed simp

lemma stale_epoch_fenced:
  assumes "own_epoch p < epoch r" and "step\<^sup>*\<^sup>* r r'"
  shows "\<not> holds r' p t"
proof
  assume "holds r' p t"
  then have "own_epoch p = epoch r'" by (rule holds_epoch)
  moreover have "epoch r \<le> epoch r'" using assms(2) by (rule steps_epoch)
  ultimately show False using assms(1) by linarith
qed

lemma displaced_for_good:
  assumes "holds r q t0" and "claim r k t = Some (p, r1)" and "step\<^sup>*\<^sup>* r1 r2"
  shows "\<not> holds r2 q t2"
proof -
  have "own_epoch q < epoch r1"
    using holds_epoch [OF assms(1)] claim_epoch [OF assms(2)] by simp
  then show ?thesis using assms(3) by (rule stale_epoch_fenced)
qed

lemma claims_have_distinct_owners:
  assumes "claim r k t = Some (p, r1)" and "step\<^sup>*\<^sup>* r1 r2" and "claim r2 k' t' = Some (q, r3)"
  shows "own_epoch p < own_epoch q"
  using claim_epoch [OF assms(1)] claim_epoch [OF assms(3)] steps_epoch [OF assms(2)] by linarith

end

section \<open>Idempotent commands\<close>

fun replays :: "('env \<Rightarrow> 'd \<Rightarrow> 'e + ('r \<times> 'd)) \<Rightarrow> 'env list \<Rightarrow> 'd \<Rightarrow> ('e + 'r) list \<times> 'd" where
  \<comment> \<open>a client that sends the same command again and again, each time in its own transaction\<close>
  "replays exec [] d = ([], d)"
| "replays exec (e # es) d =
     (let (r, d1) = commit (exec e d) d; (rs, d2) = replays exec es d1 in (r # rs, d2))"

locale idempotent_command =
  fixes exec :: "'env \<Rightarrow> 'd \<Rightarrow> 'e + ('r \<times> 'd)"
    and admitted :: "'env \<Rightarrow> 'd \<Rightarrow> bool"
  assumes exec_admitted: "exec e d = Inr (r, d') \<Longrightarrow> admitted e d"
    and exec_replay: "exec e d = Inr (r, d') \<Longrightarrow> admitted e' d' \<Longrightarrow> exec e' d' = Inr (r, d')"
begin

lemma replay_fixpoint: "exec e d = Inr (r, d') \<Longrightarrow> exec e' d' = Inr (r', d'') \<Longrightarrow> r' = r \<and> d'' = d'"
proof -
  assume first: "exec e d = Inr (r, d')" and again: "exec e' d' = Inr (r', d'')"
  from again have "admitted e' d'" by (rule exec_admitted)
  with first have "exec e' d' = Inr (r, d')" by (rule exec_replay)
  with again show ?thesis by simp
qed

lemma replays_fixpoint:
  assumes "exec e d = Inr (r, d')"
  shows "snd (replays exec es d') = d' \<and> (\<forall>x \<in> set (fst (replays exec es d')). x = Inr r \<or> isl x)"
proof (induction es)
  case (Cons e1 es)
  show ?case
  proof (cases "exec e1 d'")
    case (Inl err)
    with Cons.IH show ?thesis by (auto simp: split_beta)
  next
    case (Inr p)
    obtain r1 d1 where p: "p = (r1, d1)" by (cases p)
    with Inr have "exec e1 d' = Inr (r1, d1)" by simp
    with assms have "r1 = r \<and> d1 = d'" by (rule replay_fixpoint)
    with Inr p Cons.IH show ?thesis by (auto simp: split_beta)
  qed
qed simp

end

section \<open>Versioned updates\<close>

locale versioned_update =
  fixes version :: "'d \<Rightarrow> int"
    and update :: "'q \<Rightarrow> int \<Rightarrow> 'd \<Rightarrow> 'e + ('r \<times> 'd)"
  assumes update_current: "update q v d = Inr (r, d') \<Longrightarrow> version d = v"
    and update_advances: "update q v d = Inr (r, d') \<Longrightarrow> v < version d'"
begin

lemma no_lost_update:
  assumes "update q v d = Inr (r, d1)" and "version d1 \<le> version d2"
  shows "isl (update q' v d2)"
proof (cases "update q' v d2")
  case (Inr p)
  obtain r' d' where "p = (r', d')" by (cases p)
  with Inr have "update q' v d2 = Inr (r', d')" by simp
  then have "version d2 = v" by (rule update_current)
  moreover from assms(1) have "v < version d1" by (rule update_advances)
  ultimately show ?thesis using assms(2) by linarith
qed simp

end

end
