(* ===== verification/Money.thy ===== *)
theory Money
  imports Interfaces
begin

text \<open>
  Money and price authorisation: \<open>backend/app/services/pricing_service.py\<close>.

  A Python \<open>Decimal\<close> is a sign, a coefficient and an exponent (or a special value);
  \<open>_validate_money\<close> is modelled on it, with the rounding of \<open>normalize\<close> to the 28 digits of the
  default context and the half-even rounding of \<open>quantize\<close>. A validated amount is a number of
  cents (\<open>int\<close>), as the \<open>DECIMAL(12,2)\<close> columns store it.
\<close>

section \<open>Decimal numbers\<close>

datatype decimal = Finite bool nat int | Infinite bool | NaN

type_synonym cents = int

fun ndigits :: "nat \<Rightarrow> nat" where
  "ndigits n = (if n < 10 then 1 else Suc (ndigits (n div 10)))"

declare ndigits.simps [simp del]

definition half_even :: "nat \<Rightarrow> nat \<Rightarrow> nat" where
  \<comment> \<open>\<open>c / 10 ^ k\<close> rounded half to even\<close>
  "half_even c k =
     (let q = c div 10 ^ k; r = c mod 10 ^ k in
      if 2 * r > 10 ^ k \<or> (2 * r = 10 ^ k \<and> odd q) then q + 1 else q)"

definition dec_fix :: "nat \<Rightarrow> int \<Rightarrow> nat \<times> int" where
  \<comment> \<open>rounding to the default context: 28 digits, Etiny = -1000026\<close>
  "dec_fix c e =
     (let m = max (int (ndigits c) + e - 28) (- 1000026) in
      if c \<noteq> 0 \<and> e < m then (half_even c (nat (m - e)), m) else (c, e))"

function strip_zeros :: "nat \<Rightarrow> int \<Rightarrow> int" where
  \<comment> \<open>the exponent once the trailing zeros of the coefficient are removed\<close>
  "strip_zeros c e = (if c \<noteq> 0 \<and> c mod 10 = 0 then strip_zeros (c div 10) (e + 1) else e)"
  by pat_completeness auto
termination
  by (relation "measure (\<lambda>(c, e). c)") auto

declare strip_zeros.simps [simp del]

definition normalized_exponent :: "nat \<Rightarrow> int \<Rightarrow> int" where
  \<comment> \<open>\<open>value.normalize().as_tuple().exponent\<close>\<close>
  "normalized_exponent c e =
     (let (c', e') = dec_fix c e in if c' = 0 then 0 else strip_zeros c' e')"

definition to_cents :: "nat \<Rightarrow> int \<Rightarrow> cents" where
  \<comment> \<open>\<open>value.quantize(Decimal("0.01"))\<close>, counted in hundredths\<close>
  "to_cents c e =
     (if - 2 \<le> e then int c * 10 ^ nat (e + 2) else int (half_even c (nat (- 2 - e))))"

definition exceeds_cents :: "nat \<Rightarrow> int \<Rightarrow> cents \<Rightarrow> bool" where
  \<comment> \<open>the exact comparison \<open>c * 10 ^ e > b / 100\<close>\<close>
  "exceeds_cents c e b =
     (if - 2 \<le> e then b < int c * 10 ^ nat (e + 2) else b * 10 ^ nat (- 2 - e) < int c)"

section \<open>Validated amounts\<close>

datatype pricing_error =
    NotADecimal | NotFinite | NegativeMoney | MoneyTooLarge | TooManyDecimals
  | ThresholdBelowMinimum | NotAShippingPayer | UnknownShippingCost | UnknownDiscount

datatype money_arg = DecimalArg decimal | OtherArg
  \<comment> \<open>what a caller may pass where an amount is expected\<close>

definition MAX_MONEY :: cents where
  "MAX_MONEY = 999999999999"

fun validate_money :: "money_arg \<Rightarrow> pricing_error + cents" where
  "validate_money OtherArg = Inl NotADecimal"
| "validate_money (DecimalArg (Infinite s)) = Inl NotFinite"
| "validate_money (DecimalArg NaN) = Inl NotFinite"
| "validate_money (DecimalArg (Finite s c e)) =
     (if s \<and> c \<noteq> 0 then Inl NegativeMoney
      else if exceeds_cents c e MAX_MONEY then Inl MoneyTooLarge
      else if normalized_exponent c e < - 2 then Inl TooManyDecimals
      else Inr (to_cents c e))"

definition dec_of_cents :: "cents \<Rightarrow> money_arg" where
  \<comment> \<open>a \<open>DECIMAL(12,2)\<close> column as SQLAlchemy loads it\<close>
  "dec_of_cents a = DecimalArg (Finite (a < 0) (nat \<bar>a\<bar>) (- 2))"

record pricing_policy =
  pp_minimum_net_price :: cents
  pp_auto_accept_threshold :: cents

definition mk_policy :: "money_arg \<Rightarrow> money_arg \<Rightarrow> pricing_error + pricing_policy" where
  "mk_policy minimum threshold =
     ebind (validate_money minimum) (\<lambda>m.
     ebind (validate_money threshold) (\<lambda>a.
     if a < m then Inl ThresholdBelowMinimum
     else Inr \<lparr>pp_minimum_net_price = m, pp_auto_accept_threshold = a\<rparr>))"

datatype payer = BuyerPays | SellerPays

record offer_terms =
  ot_buyer_payment :: cents
  ot_shipping_paid_by :: payer
  ot_shipping_cost :: "cents option"
  ot_seller_borne_discount :: "cents option"

definition validate_optional :: "money_arg option \<Rightarrow> pricing_error + cents option" where
  "validate_optional m =
     (case m of None \<Rightarrow> Inr None | Some v \<Rightarrow> ebind (validate_money v) (\<lambda>a. Inr (Some a)))"

definition mk_terms ::
    "money_arg \<Rightarrow> payer option \<Rightarrow> money_arg option \<Rightarrow> money_arg option \<Rightarrow> pricing_error + offer_terms" where
  \<comment> \<open>\<open>None\<close> for the payer: the argument is not a \<open>ShippingPayer\<close>\<close>
  "mk_terms payment payer cost discount =
     (case payer of None \<Rightarrow> Inl NotAShippingPayer | Some by \<Rightarrow>
      ebind (validate_money payment) (\<lambda>p.
      ebind (validate_optional cost) (\<lambda>c.
      ebind (validate_optional discount) (\<lambda>d.
      Inr \<lparr>ot_buyer_payment = p, ot_shipping_paid_by = by,
           ot_shipping_cost = c, ot_seller_borne_discount = d\<rparr>))))"

section \<open>Price zones and authorisation\<close>

datatype price_zone = AUTO_ACCEPT | APPROVAL_REQUIRED | PROHIBITED

record offer_evaluation =
  ev_net_income :: cents
  ev_zone :: price_zone

definition can_accept_automatically :: "offer_evaluation \<Rightarrow> bool" where
  "can_accept_automatically ev \<longleftrightarrow> ev_zone ev = AUTO_ACCEPT"

definition can_request_approval :: "offer_evaluation \<Rightarrow> bool" where
  "can_request_approval ev \<longleftrightarrow> ev_zone ev = APPROVAL_REQUIRED"

definition is_acceptance_prohibited :: "offer_evaluation \<Rightarrow> bool" where
  "is_acceptance_prohibited ev \<longleftrightarrow> ev_zone ev = PROHIBITED"

definition calculate_net_income :: "offer_terms \<Rightarrow> pricing_error + cents" where
  "calculate_net_income terms =
     ebind (if ot_shipping_paid_by terms = SellerPays
            then some_or UnknownShippingCost (ot_shipping_cost terms)
            else Inr 0) (\<lambda>seller_shipping_cost.
     case ot_seller_borne_discount terms of
       None \<Rightarrow> Inl UnknownDiscount
     | Some discount \<Rightarrow> Inr (ot_buyer_payment terms - seller_shipping_cost - discount))"

definition zone_of :: "cents \<Rightarrow> pricing_policy \<Rightarrow> price_zone" where
  "zone_of net policy =
     (if pp_auto_accept_threshold policy \<le> net then AUTO_ACCEPT
      else if pp_minimum_net_price policy \<le> net then APPROVAL_REQUIRED
      else PROHIBITED)"

definition evaluate_offer :: "offer_terms \<Rightarrow> pricing_policy \<Rightarrow> pricing_error + offer_evaluation" where
  "evaluate_offer terms policy =
     ebind (calculate_net_income terms) (\<lambda>net.
     Inr \<lparr>ev_net_income = net, ev_zone = zone_of net policy\<rparr>)"

type_synonym extra_terms = "(string \<times> json) list"

datatype auth_error = PricingE pricing_error | UnhashableTerm

definition additional_terms_are_authorized :: "extra_terms \<Rightarrow> auth_error + bool" where
  \<comment> \<open>A list or a dictionary as the delivery method is not hashable, so testing it for
     membership in a set raises \<open>TypeError\<close>.\<close>
  "additional_terms_are_authorized terms =
     (if terms = [] then Inr True
      else if set (map fst terms) \<noteq> {''delivery_method''} then Inr False
      else case jget (JObj terms) ''delivery_method'' of
             JStr m \<Rightarrow> Inr (m = ''shipping'' \<or> m = ''pickup'')
           | JArr xs \<Rightarrow> Inl UnhashableTerm
           | JObj kvs \<Rightarrow> Inl UnhashableTerm
           | _ \<Rightarrow> Inr False)"

record authorization =
  au_zone :: price_zone
  au_conditions_valid :: bool
  au_can_accept :: bool
  au_can_counter :: bool
  au_can_request_approval :: bool
  au_prohibited :: bool
  au_reason_code :: string

fun zone_reason :: "price_zone \<Rightarrow> string" where
  "zone_reason AUTO_ACCEPT = ''AUTO_AUTHORIZED''"
| "zone_reason APPROVAL_REQUIRED = ''SELLER_APPROVAL_REQUIRED''"
| "zone_reason PROHIBITED = ''BELOW_MINIMUM_NET_INCOME''"

definition authorize_offer :: "offer_terms \<Rightarrow> pricing_policy \<Rightarrow> extra_terms \<Rightarrow> auth_error + authorization" where
  "authorize_offer terms policy extra =
     (case evaluate_offer terms policy of
        Inl e \<Rightarrow> Inl (PricingE e)
      | Inr ev \<Rightarrow>
          ebind (additional_terms_are_authorized extra) (\<lambda>conditions_valid.
          if \<not> conditions_valid then
            Inr \<lparr>au_zone = ev_zone ev, au_conditions_valid = False, au_can_accept = False,
                 au_can_counter = False, au_can_request_approval = False, au_prohibited = True,
                 au_reason_code = ''UNSUPPORTED_ADDITIONAL_TERMS''\<rparr>
          else
            Inr \<lparr>au_zone = ev_zone ev, au_conditions_valid = True,
                 au_can_accept = can_accept_automatically ev,
                 au_can_counter = can_accept_automatically ev,
                 au_can_request_approval = can_request_approval ev,
                 au_prohibited = is_acceptance_prohibited ev,
                 au_reason_code = zone_reason (ev_zone ev)\<rparr>))"

section \<open>Validation of amounts\<close>

definition is_cents :: "nat \<Rightarrow> int \<Rightarrow> cents \<Rightarrow> bool" where
  \<comment> \<open>\<open>c * 10 ^ e = a / 100\<close>, exactly\<close>
  "is_cents c e a \<longleftrightarrow>
     (if - 2 \<le> e then a = int c * 10 ^ nat (e + 2) else a * 10 ^ nat (- 2 - e) = int c)"

lemma ndigits_pos [simp]: "0 < ndigits n"
  by (subst ndigits.simps) simp

lemma half_even_exact: "half_even (q * 10 ^ k) k = q"
  by (simp add: half_even_def)

lemma strip_zeros_nonzero_digit: "c mod 10 \<noteq> 0 \<Longrightarrow> strip_zeros c e = e"
  by (subst strip_zeros.simps) simp

lemma strip_zeros_mult10: "c \<noteq> 0 \<Longrightarrow> strip_zeros (c * 10) e = strip_zeros c (e + 1)"
  by (subst strip_zeros.simps) simp

lemma strip_zeros_ge: "e \<le> strip_zeros c e"
proof (induction c e rule: strip_zeros.induct)
  case (1 c e)
  then show ?case by (subst strip_zeros.simps) force
qed

lemma strip_zeros_mult_power: "c \<noteq> 0 \<Longrightarrow> strip_zeros (c * 10 ^ k) e = strip_zeros c (e + int k)"
proof (induction k arbitrary: e)
  case (Suc k)
  have "strip_zeros (c * 10 ^ Suc k) e = strip_zeros (c * 10 ^ k * 10) e"
    by (simp add: mult_ac)
  also have "\<dots> = strip_zeros (c * 10 ^ k) (e + 1)"
    using Suc.prems by (intro strip_zeros_mult10) simp
  finally show ?case using Suc by (simp add: add_ac)
qed simp

lemma strip_zeros_dvd: "c \<noteq> 0 \<Longrightarrow> e + int k \<le> strip_zeros c e \<Longrightarrow> 10 ^ k dvd c"
proof (induction k arbitrary: c e)
  case (Suc k)
  have "c mod 10 = 0"
  proof (rule ccontr)
    assume "c mod 10 \<noteq> 0"
    then show False using Suc.prems strip_zeros_nonzero_digit by fastforce
  qed
  then obtain q where c: "c = q * 10" by (metis mod_0_imp_dvd dvdE mult.commute)
  with Suc.prems have "q \<noteq> 0" and "e + 1 + int k \<le> strip_zeros q (e + 1)"
    by (auto simp: strip_zeros_mult10)
  then have "10 ^ k dvd q" by (rule Suc.IH)
  then show ?case using c by (simp add: mult.commute)
qed simp

lemma dec_fix_short:
  "ndigits c \<le> 28 \<Longrightarrow> - 1000026 \<le> e \<Longrightarrow> dec_fix c e = (c, e)"
proof -
  assume "ndigits c \<le> 28" and "- 1000026 \<le> e"
  then have "\<not> e < max (int (ndigits c) + e - 28) (- 1000026)" by (simp only: less_max_iff_disj) linarith
  then show ?thesis by (simp only: dec_fix_def Let_def if_False simp_thms)
qed

lemma ndigits_le: "n < 10 ^ Suc k \<Longrightarrow> ndigits n \<le> Suc k"
proof (induction k arbitrary: n)
  case 0
  then show ?case by (subst ndigits.simps) simp
next
  case (Suc k)
  then have "n div 10 < 10 ^ Suc k" by (simp add: less_mult_imp_div_less mult.commute)
  then have "ndigits (n div 10) \<le> Suc k" by (rule Suc.IH)
  then show ?case by (subst ndigits.simps) simp
qed

lemma normalized_exponent_short:
  assumes "ndigits c \<le> 28" and "- 1000026 \<le> e"
  shows "- 2 \<le> normalized_exponent c e \<longleftrightarrow> (\<exists>a. is_cents c e a)"
proof (cases "c = 0 \<or> - 2 \<le> e")
  case True
  have "c \<noteq> 0 \<Longrightarrow> - 2 \<le> strip_zeros c e"
    using True strip_zeros_ge [of e c] by auto
  moreover have "\<exists>a. is_cents c e a" using True by (auto simp: is_cents_def intro: exI [of _ 0])
  ultimately show ?thesis using assms by (simp add: normalized_exponent_def dec_fix_short)
next
  case False
  define k where "k = nat (- 2 - e)"
  have e: "e + int k = - 2" using False by (simp add: k_def)
  have "(\<exists>a. is_cents c e a) \<longleftrightarrow> 10 ^ k dvd c"
  proof
    assume "\<exists>a. is_cents c e a"
    then obtain a where "a * 10 ^ k = int c" using False by (auto simp: is_cents_def k_def)
    then have "int (10 ^ k) dvd int c" by (metis dvd_triv_right of_nat_numeral of_nat_power)
    then show "10 ^ k dvd c" by (simp only: int_dvd_int_iff)
  next
    assume "10 ^ k dvd c"
    then obtain q where "c = 10 ^ k * q" by blast
    then have "is_cents c e (int q)" using False by (simp add: is_cents_def k_def)
    then show "\<exists>a. is_cents c e a" ..
  qed
  moreover have "10 ^ k dvd c \<longleftrightarrow> - 2 \<le> strip_zeros c e"
  proof
    assume "10 ^ k dvd c"
    then obtain q where q: "c = q * 10 ^ k" by (metis dvdE mult.commute)
    with False have "q \<noteq> 0" by auto
    then show "- 2 \<le> strip_zeros c e"
      using strip_zeros_mult_power [of q k e] strip_zeros_ge [of "e + int k" q] q e by simp
  next
    assume "- 2 \<le> strip_zeros c e"
    then show "10 ^ k dvd c" using False e by (intro strip_zeros_dvd [of c e k]) auto
  qed
  ultimately show ?thesis using assms False by (simp add: normalized_exponent_def dec_fix_short)
qed

lemma to_cents_exact: "is_cents c e a \<Longrightarrow> to_cents c e = a"
proof (cases "- 2 \<le> e")
  case False
  assume "is_cents c e a"
  with False have eq: "a * 10 ^ nat (- 2 - e) = int c" by (simp add: is_cents_def)
  have "\<not> a < 0"
  proof
    assume "a < 0"
    then have "a * 10 ^ nat (- 2 - e) < 0" by (simp add: mult_neg_pos)
    with eq show False by simp
  qed
  then obtain q where q: "a = int q" by (metis nonneg_int_cases not_less)
  with eq have "int (q * 10 ^ nat (- 2 - e)) = int c" by simp
  then have "c = q * 10 ^ nat (- 2 - e)" by (simp only: of_nat_eq_iff)
  with False q show ?thesis by (simp add: to_cents_def half_even_exact)
qed (simp add: is_cents_def to_cents_def)

lemma exceeds_cents_exact: "is_cents c e a \<Longrightarrow> exceeds_cents c e b \<longleftrightarrow> b < a"
proof (cases "- 2 \<le> e")
  case False
  assume "is_cents c e a"
  with False have "int c = a * 10 ^ nat (- 2 - e)" by (simp add: is_cents_def)
  with False show ?thesis by (simp add: exceeds_cents_def)
qed (simp add: is_cents_def exceeds_cents_def)

lemma is_cents_nonneg: "is_cents c e a \<Longrightarrow> 0 \<le> a"
proof -
  assume h: "is_cents c e a"
  have "(0::int) < 10 ^ nat (- 2 - e)" by simp
  with h show ?thesis
    by (auto simp: is_cents_def zero_le_mult_iff split: if_splits)
      (metis \<open>0 < 10 ^ nat (- 2 - e)\<close> mult_neg_pos not_less of_nat_0_le_iff)
qed

lemma validate_dec_of_cents [simp]:
  "validate_money (dec_of_cents a) =
     (if a < 0 then Inl NegativeMoney else if MAX_MONEY < a then Inl MoneyTooLarge else Inr a)"
proof (cases "0 \<le> a \<and> a \<le> MAX_MONEY")
  case True
  then have "nat a < 10 ^ Suc 11" by (simp add: MAX_MONEY_def nat_less_iff)
  then have "ndigits (nat a) \<le> 28" using ndigits_le by fastforce
  moreover from True have "is_cents (nat a) (- 2) a" by (simp add: is_cents_def)
  ultimately have "\<not> normalized_exponent (nat a) (- 2) < - 2"
    using normalized_exponent_short [of "nat a" "- 2"] by fastforce
  with True show ?thesis by (simp add: dec_of_cents_def exceeds_cents_def to_cents_def)
qed (auto simp: dec_of_cents_def exceeds_cents_def)

lemma validate_money_bounds:
  assumes "validate_money (DecimalArg (Finite s c e)) = Inr a" and "ndigits c \<le> 28" and "- 1000026 \<le> e"
  shows "is_cents c e a" and "0 \<le> a" and "a \<le> MAX_MONEY"
proof -
  from assms(1) have ok: "- 2 \<le> normalized_exponent c e" and a: "a = to_cents c e"
    and small: "\<not> exceeds_cents c e MAX_MONEY"
    by (auto split: if_splits)
  from ok obtain b where b: "is_cents c e b" using normalized_exponent_short assms(2,3) by blast
  with a have "a = b" by (simp add: to_cents_exact)
  with b show "is_cents c e a" by simp
  with small show "0 \<le> a" and "a \<le> MAX_MONEY"
    by (auto simp: exceeds_cents_exact not_less dest: is_cents_nonneg)
qed

text \<open>an amount with at most 28 significant digits is accepted exactly when it is a
  non-negative number of whole cents within DECIMAL(12,2), and the stored amount is that number.\<close>

theorem validate_money_exact:
  assumes "ndigits c \<le> 28" and "- 1000026 \<le> e"
  shows "validate_money (DecimalArg (Finite s c e)) = Inr a
    \<longleftrightarrow> is_cents c e a \<and> a \<le> MAX_MONEY \<and> (s \<longrightarrow> c = 0)"
proof
  assume h: "validate_money (DecimalArg (Finite s c e)) = Inr a"
  then show "is_cents c e a \<and> a \<le> MAX_MONEY \<and> (s \<longrightarrow> c = 0)"
    using validate_money_bounds [OF h assms] by (auto split: if_splits)
next
  assume h: "is_cents c e a \<and> a \<le> MAX_MONEY \<and> (s \<longrightarrow> c = 0)"
  then have "\<not> normalized_exponent c e < - 2"
    using normalized_exponent_short [OF assms] by fastforce
  with h show "validate_money (DecimalArg (Finite s c e)) = Inr a"
    by (auto simp: exceeds_cents_exact to_cents_exact)
qed

theorem validate_money_exact_witness:
  "ndigits 1050 \<le> 28 \<and> (- 1000026 :: int) \<le> - 2 \<and>
   validate_money (DecimalArg (Finite False 1050 (- 2))) = Inr 1050"
proof -
  have n: "ndigits 1050 \<le> 28" by code_simp
  have "is_cents 1050 (- 2) 1050" by (simp add: is_cents_def)
  then show ?thesis
    using n validate_money_exact [of 1050 "- 2" False 1050] by (simp add: MAX_MONEY_def)
qed

text \<open>
  With more than 28 significant digits \<open>normalize\<close> rounds before the test on decimal places:
  the value \<open>1.00000000000000000000000000001\<close> passes and is stored as 1.00.
\<close>

theorem long_amount_accepted:
  "validate_money (DecimalArg (Finite False 100000000000000000000000000001 (- 29))) = Inr 100
   \<and> \<not> is_cents 100000000000000000000000000001 (- 29) 100"
  by (simp add: normalized_exponent_def dec_fix_def half_even_def ndigits.simps strip_zeros.simps
      exceeds_cents_def to_cents_def is_cents_def MAX_MONEY_def)

section \<open>Zones and authorisation\<close>

lemma zone_of_cases:
  assumes "pp_minimum_net_price p \<le> pp_auto_accept_threshold p"
  shows "zone_of n p = AUTO_ACCEPT \<longleftrightarrow> pp_auto_accept_threshold p \<le> n"
    and "zone_of n p = APPROVAL_REQUIRED \<longleftrightarrow>
      pp_minimum_net_price p \<le> n \<and> n < pp_auto_accept_threshold p"
    and "zone_of n p = PROHIBITED \<longleftrightarrow> n < pp_minimum_net_price p"
  using assms by (auto simp: zone_of_def)

lemma mk_policy_ordered:
  "mk_policy m a = Inr p \<Longrightarrow> pp_minimum_net_price p \<le> pp_auto_accept_threshold p"
  by (auto simp: mk_policy_def result_simps)

lemma mk_policy_stored:
  "mk_policy (dec_of_cents m) (dec_of_cents a) = Inr p \<longleftrightarrow>
     0 \<le> m \<and> m \<le> a \<and> a \<le> MAX_MONEY \<and>
     p = \<lparr>pp_minimum_net_price = m, pp_auto_accept_threshold = a\<rparr>"
  by (auto simp: mk_policy_def result_simps split: if_splits)

lemma authorize_offer_zone:
  assumes "authorize_offer t p extra = Inr au"
  shows "\<exists>n. calculate_net_income t = Inr n \<and> au_zone au = zone_of n p"
  using assms by (auto simp: authorize_offer_def evaluate_offer_def result_simps split: sum.splits if_splits)

lemma authorize_offer_flags:
  assumes "authorize_offer t p extra = Inr au"
  shows "au_can_accept au \<longleftrightarrow> au_conditions_valid au \<and> au_zone au = AUTO_ACCEPT"
    and "au_can_counter au = au_can_accept au"
    and "au_can_request_approval au \<longleftrightarrow> au_conditions_valid au \<and> au_zone au = APPROVAL_REQUIRED"
    and "au_prohibited au \<longleftrightarrow> \<not> au_conditions_valid au \<or> au_zone au = PROHIBITED"
    and "au_conditions_valid au \<longleftrightarrow> additional_terms_are_authorized extra = Inr True"
  using assms
  by (auto simp: authorize_offer_def result_simps can_accept_automatically_def
      can_request_approval_def is_acceptance_prohibited_def split: sum.splits if_splits)

text \<open>an offer is accepted automatically only when the seller's net income reaches the
  acceptance threshold, goes to the seller only between the minimum and the threshold, and exactly
  one of acceptance, approval and refusal applies.\<close>

theorem authorization_respects_policy:
  assumes "authorize_offer t p extra = Inr au"
    and "pp_minimum_net_price p \<le> pp_auto_accept_threshold p"
  shows "\<exists>net. calculate_net_income t = Inr net
    \<and> (au_can_accept au \<longleftrightarrow> au_conditions_valid au \<and> pp_auto_accept_threshold p \<le> net)
    \<and> (au_can_request_approval au \<longleftrightarrow>
         au_conditions_valid au \<and> pp_minimum_net_price p \<le> net \<and> net < pp_auto_accept_threshold p)
    \<and> (au_prohibited au \<longleftrightarrow> \<not> au_conditions_valid au \<or> net < pp_minimum_net_price p)
    \<and> (au_can_accept au \<or> au_can_request_approval au) \<noteq> au_prohibited au"
proof -
  obtain n where n: "calculate_net_income t = Inr n" and z: "au_zone au = zone_of n p"
    using authorize_offer_zone [OF assms(1)] by blast
  note flags = authorize_offer_flags [OF assms(1)]
  show ?thesis
    unfolding flags(1,3,4) z zone_of_cases [OF assms(2)] n using assms(2) by auto
qed

theorem authorization_respects_policy_witness:
  "\<exists>au. authorize_offer \<lparr>ot_buyer_payment = 90000, ot_shipping_paid_by = SellerPays,
      ot_shipping_cost = Some 1000, ot_seller_borne_discount = Some 0\<rparr>
      \<lparr>pp_minimum_net_price = 80000, pp_auto_accept_threshold = 95000\<rparr>
      [(''delivery_method'', JStr ''shipping'')] = Inr au
    \<and> au_can_request_approval au \<and> \<not> au_can_accept au"
proof -
  let ?t = "\<lparr>ot_buyer_payment = 90000, ot_shipping_paid_by = SellerPays,
      ot_shipping_cost = Some 1000, ot_seller_borne_discount = Some 0\<rparr>"
  let ?p = "\<lparr>pp_minimum_net_price = 80000, pp_auto_accept_threshold = 95000\<rparr>"
  let ?x = "[(''delivery_method'', JStr ''shipping'')]"
  obtain au where au: "authorize_offer ?t ?p ?x = Inr au"
    by (simp add: authorize_offer_def evaluate_offer_def calculate_net_income_def
        additional_terms_are_authorized_def)
  have v: "au_conditions_valid au"
    using authorize_offer_flags(5) [OF au] by (simp add: additional_terms_are_authorized_def)
  show ?thesis
    using authorization_respects_policy [OF au] au v by (auto simp: calculate_net_income_def)
qed

lemma net_income_monotone:
  assumes "calculate_net_income t = Inr n" and "ot_buyer_payment t \<le> q"
  shows "\<exists>n'. calculate_net_income (t\<lparr>ot_buyer_payment := q\<rparr>) = Inr n' \<and> n \<le> n'"
  using assms by (auto simp: calculate_net_income_def result_simps split: option.splits if_splits)

end
