(* ===== verification/Schema.thy ===== *)
theory Schema
  imports Money
begin

text \<open>
  The data the services share: exceptions (\<open>services/errors.py\<close>, \<open>runtime/contracts.py\<close>), stored
  enumerations (\<open>db/models/enums.py\<close>), the rows of the tables (\<open>db/models/*.py\<close>), the typed inputs
  (\<open>runtime/contracts.py\<close>, \<open>semantic/contracts.py\<close>) and the database itself.

  Rows hold the columns the modelled code reads or writes; \<open>created_at\<close>, \<open>updated_at\<close>, password
  hashes and observability columns are left out. Unique and check constraints that the code relies
  on appear as the errors of inserts and flushes or as the predicates \<open>task_checks\<close> and
  \<open>approvals_unique\<close>. Enumerations whose values share a name carry a prefix.
\<close>

section \<open>Exceptions\<close>

datatype service_error =
    UsernameAlreadyExists | NegotiationNotFound | ProductUnavailable | ProductNotFound
  | ProductDeletionConflict | SellerNotFound | PricingPolicyNotFound | PolicyVersionConflict
  | ApprovalNotFound | ApprovalConflict | ApprovalNotAuthorized | ApprovalNotExpired
  | InvalidNegotiationState | InvalidOfferTerms | OfferNotFound | OfferConflict
  | OfferNotAuthorized | MessageConflict | IncompleteRequest | ModelDecisionFailure
  | ModelTaskRecoveryRequired | TaskNotFound | TaskConflict | TaskLease | InvalidTask
  | NegotiationLifecycleConflict

fun error_code :: "service_error \<Rightarrow> string" where
  "error_code UsernameAlreadyExists = ''USERNAME_ALREADY_EXISTS''"
| "error_code NegotiationNotFound = ''NEGOTIATION_NOT_FOUND''"
| "error_code ProductUnavailable = ''PRODUCT_UNAVAILABLE''"
| "error_code ProductNotFound = ''PRODUCT_NOT_FOUND''"
| "error_code ProductDeletionConflict = ''PRODUCT_DELETION_CONFLICT''"
| "error_code SellerNotFound = ''SELLER_NOT_FOUND''"
| "error_code PricingPolicyNotFound = ''PRICING_POLICY_NOT_FOUND''"
| "error_code PolicyVersionConflict = ''POLICY_VERSION_CONFLICT''"
| "error_code ApprovalNotFound = ''APPROVAL_NOT_FOUND''"
| "error_code ApprovalConflict = ''APPROVAL_CONFLICT''"
| "error_code ApprovalNotAuthorized = ''APPROVAL_NOT_AUTHORIZED''"
| "error_code ApprovalNotExpired = ''APPROVAL_NOT_EXPIRED''"
| "error_code InvalidNegotiationState = ''INVALID_NEGOTIATION_STATE''"
| "error_code InvalidOfferTerms = ''INVALID_OFFER_TERMS''"
| "error_code OfferNotFound = ''OFFER_NOT_FOUND''"
| "error_code OfferConflict = ''OFFER_CONFLICT''"
| "error_code OfferNotAuthorized = ''OFFER_NOT_AUTHORIZED''"
| "error_code MessageConflict = ''MESSAGE_CONFLICT''"
| "error_code IncompleteRequest = ''INCOMPLETE_REQUEST''"
| "error_code ModelDecisionFailure = ''MODEL_DECISION_ERROR''"
| "error_code ModelTaskRecoveryRequired = ''MODEL_TASK_RECOVERY_REQUIRED''"
| "error_code TaskNotFound = ''MODEL_EXECUTION_TASK_NOT_FOUND''"
| "error_code TaskConflict = ''MODEL_EXECUTION_TASK_CONFLICT''"
| "error_code TaskLease = ''MODEL_EXECUTION_TASK_LEASE_ERROR''"
| "error_code InvalidTask = ''INVALID_MODEL_EXECUTION_TASK''"
| "error_code NegotiationLifecycleConflict = ''NEGOTIATION_LIFECYCLE_CONFLICT''"

text \<open>
  The messages of the code are Chinese sentences; a \<open>Conflict\<close> carries an English tag for its
  message. \<open>StaleOwner\<close> and \<open>BudgetExhausted\<close> are subclasses of \<open>Conflict\<close>, which like the pricing
  errors is a \<open>ValueError\<close>. \<open>AttributeExn\<close>, \<open>TypeExn\<close> and \<open>KeyExn\<close> are what Python raises on an
  attribute of \<open>None\<close>, a comparison with \<open>None\<close> and a missing key.
\<close>

datatype exn =
    Conflict string
  | StaleOwner
  | BudgetExhausted
  | PricingExn pricing_error
  | ValueExn string
  | ServiceExn service_error
  | RecoveryConflict string
  | RuntimeExn string
  | IntegrityExn
  | AttributeExn
  | TypeExn
  | KeyExn

fun is_value_error :: "exn \<Rightarrow> bool" where
  "is_value_error (Conflict m) = True"
| "is_value_error StaleOwner = True"
| "is_value_error BudgetExhausted = True"
| "is_value_error (PricingExn e) = True"
| "is_value_error (ValueExn m) = True"
| "is_value_error _ = False"

fun is_conflict :: "exn \<Rightarrow> bool" where
  "is_conflict (Conflict m) = True"
| "is_conflict StaleOwner = True"
| "is_conflict BudgetExhausted = True"
| "is_conflict _ = False"

fun auth_exn :: "auth_error \<Rightarrow> exn" where
  "auth_exn (PricingE e) = PricingExn e"
| "auth_exn UnhashableTerm = TypeExn"

definition lift_err :: "('e \<Rightarrow> exn) \<Rightarrow> 'e + 'a \<Rightarrow> exn + 'a" where
  "lift_err f m = (case m of Inl e \<Rightarrow> Inl (f e) | Inr x \<Rightarrow> Inr x)"

lemma lift_err_simps [simp]: "lift_err f (Inl e) = Inl (f e)" "lift_err f (Inr x) = Inr x"
  by (simp_all add: lift_err_def)

lemma lift_err_eq_Inr [result_simps]: "lift_err f m = Inr x \<longleftrightarrow> m = Inr x"
  by (cases m) auto

section \<open>Stored enumerations\<close>

datatype product_status = PRODUCT_DRAFT | AVAILABLE | UNAVAILABLE
datatype negotiation_style = FIRM | BALANCED | FLEXIBLE
datatype negotiation_status = ACTIVE | WAITING_APPROVAL | AGREED | CLOSED
datatype message_role = BUYER_MESSAGE | AGENT_MESSAGE | SYSTEM_MESSAGE
datatype offer_proposer = BUYER | AGENT
datatype offer_status = PROPOSED | ACCEPTED | REJECTED | WITHDRAWN
datatype approval_status = AP_PENDING | AP_APPROVED | AP_REJECTED | AP_CANCELLED | AP_EXPIRED
datatype followup_status = FU_PENDING | FU_SENT | FU_FAILED | FU_MANUAL_REQUIRED
datatype task_type = CHAT_DECISION | APPROVAL_FOLLOWUP
datatype task_status =
    T_PENDING | T_RUNNING | T_RETRY_WAIT | T_SUCCEEDED | T_FAILED | T_STALE | T_CANCELLED
datatype error_category =
    MODEL_TIMEOUT | RATE_LIMITED | NETWORK | INVALID_OUTPUT | BUSINESS_CONFLICT | INTERNAL | UNKNOWN_ERROR
datatype confirmation_source =
    AGENT_COUNTER | AUTO_ACCEPTED_BUYER_OFFER | SELLER_APPROVED_BUYER_OFFER
datatype effect_status = NOT_APPLIED | APPLIED | INVALIDATED
datatype delivery_status = ND_PENDING | ND_RUNNING | ND_PUBLISHED | ND_RETRY_WAIT | ND_MANUAL_REQUIRED
datatype outbox_status = OB_PENDING | OB_DELIVERED
datatype draft_status = DR_PENDING | DR_READY | DR_WITHDRAWN | DR_SUBMITTED
datatype call_status = CALL_RESERVED | CALL_ACCEPTED | CALL_UNKNOWN | CALL_STALE
datatype instance_state = REGISTERED | REVOKED | RELEASED

fun show_product_status :: "product_status \<Rightarrow> string" where
  "show_product_status PRODUCT_DRAFT = ''DRAFT''"
| "show_product_status AVAILABLE = ''AVAILABLE''"
| "show_product_status UNAVAILABLE = ''UNAVAILABLE''"

fun show_approval_status :: "approval_status \<Rightarrow> string" where
  "show_approval_status AP_PENDING = ''PENDING''"
| "show_approval_status AP_APPROVED = ''APPROVED''"
| "show_approval_status AP_REJECTED = ''REJECTED''"
| "show_approval_status AP_CANCELLED = ''CANCELLED''"
| "show_approval_status AP_EXPIRED = ''EXPIRED''"

fun show_payer :: "payer \<Rightarrow> string" where
  "show_payer BuyerPays = ''buyer''"
| "show_payer SellerPays = ''seller''"

definition show_cents :: "cents \<Rightarrow> string" where
  \<comment> \<open>\<open>f"{amount:.2f}"\<close>\<close>
  "show_cents a =
     (let n = nat \<bar>a\<bar> in
      (if a < 0 then ''-'' else '''') @ show_nat (n div 100) @ ''.'' @
      [char_of (48 + n mod 100 div 10), char_of (48 + n mod 10)])"

section \<open>Rows\<close>

record user =
  u_id :: string
  u_display_name :: string
  u_active :: bool

record product =
  p_id :: int
  p_seller_id :: string
  p_title :: string
  p_product_version :: int
  p_description :: string
  p_listed_price :: cents
  p_status :: product_status

record policy =
  sp_product_id :: int
  sp_minimum_net_price :: cents
  sp_auto_accept_threshold :: cents
  sp_style :: negotiation_style
  sp_max_rounds :: int
  sp_version :: int

record session =
  ns_id :: int
  ns_product_id :: int
  ns_buyer_id :: string
  ns_status :: negotiation_status
  ns_current_offer_id :: "int option"
  ns_confirmed_offer_id :: "int option"
  ns_confirmed_at :: "time option"
  ns_confirmation_request_id :: "string option"
  ns_confirmation_source :: "confirmation_source option"
  ns_round_count :: int
  ns_version :: int
  ns_graph_version :: "string option"
  ns_archived_at :: "time option"
  ns_lifecycle_checked_at :: "time option"
  ns_next_input_seq :: int
  ns_last_resolved_input_seq :: int
  ns_next_public_seq :: int

record offer =
  of_id :: int
  of_session_id :: int
  of_proposer :: offer_proposer
  of_price :: cents
  of_shipping_paid_by :: payer
  of_shipping_cost :: "cents option"
  of_seller_borne_discount :: cents
  of_terms :: extra_terms
  of_status :: offer_status
  of_expires_at :: "time option"
  of_invalid_reason :: "string option"
  of_invalidated_at :: "time option"
  of_superseded_by :: "int option"

record approval =
  ap_id :: int
  ap_session_id :: int
  ap_offer_id :: int
  ap_policy_version :: int
  ap_status :: approval_status
  ap_reason :: string
  ap_seller_comment :: "string option"
  ap_effect_status :: "effect_status option"
  ap_effect_revision :: int
  ap_invalid_reason :: "string option"
  ap_invalidated_at :: "time option"
  ap_superseded_by :: "int option"
  ap_decision_hash :: "string option"
  ap_notification_status :: "delivery_status option"
  ap_expires_at :: time
  ap_reviewed_at :: "time option"
  ap_followup_status :: "followup_status option"
  ap_followup_request_id :: "string option"

record approval_execution =
  ex_approval_id :: int
  ex_graph_version :: string
  ex_lease_token :: "string option"
  ex_lease_until :: "time option"
  ex_ownership_epoch :: int
  ex_checkpoint_ref :: "string option"
  ex_recovery_required :: bool
  ex_attempts :: int
  ex_next_retry_at :: "time option"

record receipt =
  rc_input_id :: "string option"
  rc_command_hash :: string
  rc_result :: json
  rc_before_version :: int
  rc_after_version :: int
  rc_committed_at :: time

record causal_event =
  ce_action_id :: string
  ce_sequence :: int
  ce_stage :: string
  ce_parent_id :: "string option"
  ce_evidence :: json

record offer_evidence =
  ge_offer_id :: int
  ge_terms_hash :: string
  ge_policy_version :: int
  ge_product_hash :: string

record delivery =
  nd_id :: string
  nd_input_id :: "string option"
  nd_session_id :: "int option"
  nd_approval_id :: "int option"
  nd_source_thread_id :: string
  nd_status :: delivery_status
  nd_result :: json
  nd_reply_deadline :: time
  nd_public_message_id :: "int option"
  nd_lease_token :: "string option"
  nd_lease_until :: "time option"
  nd_attempts :: int
  nd_next_retry_at :: "time option"

record outbox_event =
  ob_id :: string
  ob_delivery_id :: "string option"
  ob_approval_id :: "int option"
  ob_payload :: json
  ob_status :: outbox_status

record display_context =
  pc_id :: string
  pc_session_id :: int
  pc_buyer_id :: string
  pc_message_id :: int
  pc_public_seq :: int
  pc_offer_id :: "int option"
  pc_draft_refs :: "(string \<times> int) list option"
  pc_refresh_key :: "string option"
  pc_terms_hash :: string
  pc_business_version :: int
  pc_expires_at :: time

record display_ack =
  da_id :: string
  da_context_id :: string
  da_buyer_id :: string
  da_client_view_id :: string
  da_request_id :: string
  da_displayed_at :: time

section \<open>Typed inputs\<close>

record terms =
  tm_amount :: cents
  tm_shipping_paid_by :: payer
  tm_shipping_cost :: "cents option"
  tm_seller_discount :: "cents option"
  tm_additional_terms :: extra_terms

datatype input_kind = SUBMIT | REPLACE | CONFIRM | WITHDRAW | CLOSE | QUERY

record typed_input =
  ti_kind :: input_kind
  ti_text :: string
  ti_terms :: "terms option"
  ti_counter_terms :: "terms option"
  ti_offer_id :: "int option"
  ti_client_view_id :: string
  ti_display_receipt_id :: "string option"

definition coherent_delivery :: "terms \<Rightarrow> bool" where
  \<comment> \<open>the validator of \<open>Terms\<close>\<close>
  "coherent_delivery t \<longleftrightarrow>
     \<not> (map_of (tm_additional_terms t) ''delivery_method'' = Some (JStr ''pickup'')
        \<and> (tm_shipping_paid_by t = SellerPays \<or> tm_shipping_cost t \<notin> {None, Some 0}))"

definition terms_ok :: "terms \<Rightarrow> bool" where
  \<comment> \<open>field constraints: non-negative, at most 12 digits, two of them after the point\<close>
  "terms_ok t \<longleftrightarrow>
     0 \<le> tm_amount t \<and> tm_amount t \<le> MAX_MONEY
     \<and> (case tm_shipping_cost t of None \<Rightarrow> True | Some c \<Rightarrow> 0 \<le> c \<and> c \<le> MAX_MONEY)
     \<and> (case tm_seller_discount t of None \<Rightarrow> True | Some c \<Rightarrow> 0 \<le> c \<and> c \<le> MAX_MONEY)
     \<and> list_all (\<lambda>(k, v). case v of JStr s \<Rightarrow> True | _ \<Rightarrow> False) (tm_additional_terms t)
     \<and> coherent_delivery t"

definition typed_input_ok :: "typed_input \<Rightarrow> bool" where
  \<comment> \<open>field constraints and the validator \<open>check_kind\<close> of \<open>TypedInput\<close>\<close>
  "typed_input_ok i \<longleftrightarrow>
     length (ti_text i) \<le> 4000
     \<and> 1 \<le> length (ti_client_view_id i) \<and> length (ti_client_view_id i) \<le> 64
     \<and> (case ti_display_receipt_id i of None \<Rightarrow> True | Some r \<Rightarrow> length r \<le> 64)
     \<and> (case ti_offer_id i of None \<Rightarrow> True | Some n \<Rightarrow> 0 < n)
     \<and> (case ti_terms i of None \<Rightarrow> True | Some t \<Rightarrow> terms_ok t)
     \<and> (case ti_counter_terms i of None \<Rightarrow> True | Some t \<Rightarrow> terms_ok t)
     \<and> (ti_kind i \<in> {SUBMIT, REPLACE}) = (ti_terms i \<noteq> None)
     \<and> (ti_counter_terms i \<noteq> None \<longrightarrow> ti_kind i \<in> {SUBMIT, REPLACE})
     \<and> (ti_kind i \<in> {CONFIRM, WITHDRAW} \<longrightarrow> ti_offer_id i \<noteq> None)"

datatype chat_action = ACTION_CONFIRM | ACTION_CLOSE

record chat_input =
  ci_text :: string
  ci_client_view_id :: string
  ci_display_receipt_id :: "string option"
  ci_reply_to_message_id :: "int option"
  ci_draft_id :: "string option"
  ci_draft_version :: "int option"
  ci_action :: "chat_action option"
  ci_offer_id :: "int option"

definition chat_input_ok :: "chat_input \<Rightarrow> bool" where
  "chat_input_ok i \<longleftrightarrow>
     1 \<le> length (ci_text i) \<and> length (ci_text i) \<le> 4000
     \<and> 1 \<le> length (ci_client_view_id i) \<and> length (ci_client_view_id i) \<le> 64
     \<and> (case ci_display_receipt_id i of None \<Rightarrow> True | Some r \<Rightarrow> length r \<le> 64)
     \<and> (case ci_reply_to_message_id i of None \<Rightarrow> True | Some n \<Rightarrow> 0 < n)
     \<and> (case ci_draft_id i of None \<Rightarrow> True | Some r \<Rightarrow> length r \<le> 32)
     \<and> (case ci_draft_version i of None \<Rightarrow> True | Some n \<Rightarrow> 0 < n)
     \<and> (case ci_offer_id i of None \<Rightarrow> True | Some n \<Rightarrow> 0 < n)
     \<and> (ci_draft_id i = None) = (ci_draft_version i = None)
     \<and> (ci_action i = Some ACTION_CONFIRM \<longrightarrow>
          ci_offer_id i \<noteq> None \<and> ci_display_receipt_id i \<noteq> None \<and> ci_display_receipt_id i \<noteq> Some [])
     \<and> (ci_offer_id i \<noteq> None \<longrightarrow> ci_action i = Some ACTION_CONFIRM)"

datatype payload = Typed typed_input | Chat chat_input

fun payload_display :: "payload \<Rightarrow> string option" where
  \<comment> \<open>\<open>run.payload.get("display_receipt_id")\<close>; the empty string is falsy\<close>
  "payload_display (Typed i) = (if ti_display_receipt_id i = Some [] then None else ti_display_receipt_id i)"
| "payload_display (Chat i) = (if ci_display_receipt_id i = Some [] then None else ci_display_receipt_id i)"

fun payload_view :: "payload \<Rightarrow> string" where
  "payload_view (Typed i) = ti_client_view_id i"
| "payload_view (Chat i) = ci_client_view_id i"

type_synonym cost = int \<comment> \<open>in units of \<open>10 ^ -8\<close>, the scale of the ledger's cost columns\<close>

record run_config =
  cf_schema :: string
  cf_max_calls :: int
  cf_max_tokens :: int
  cf_max_cost :: "cost option"
  cf_active_ms :: "int option" \<comment> \<open>\<open>active_seconds\<close>, in milliseconds\<close>
  cf_model_name :: "string option"

record input_row =
  in_id :: string
  in_session_id :: int
  in_task_id :: int
  in_buyer_message_id :: int
  in_seq :: int
  in_request_id :: string
  in_payload :: payload
  in_input_hash :: string
  in_config :: run_config
  in_config_hash :: string
  in_graph_version :: string
  in_received_at :: time
  in_seen_public_message_seq :: int
  in_checkpoint_ref :: "string option"
  in_recovery_required :: bool
  in_active_ms :: int
  in_active_since :: "time option"
  in_active_until :: "time option"
  in_closing_deadline :: "time option"

record model_usage =
  us_provider :: string
  us_model_name :: string
  us_input_tokens :: "int option"
  us_output_tokens :: "int option"
  us_cached_input_tokens :: "int option"
  us_total_tokens :: "int option"
  us_input_price :: "cost option"
  us_output_price :: "cost option"
  us_cached_input_price :: "cost option"
  us_estimated_cost :: "cost option"
  us_cost_currency :: "string option"

record task =
  t_id :: int
  t_ownership_epoch :: int
  t_type :: task_type
  t_business_key :: string
  t_session_id :: int
  t_offer_id :: "int option"
  t_approval_id :: "int option"
  t_snapshot_schema_version :: int
  t_session_version :: int
  t_policy_version :: int
  t_input_snapshot :: json
  t_input_snapshot_hash :: string
  t_runtime_kind :: string
  t_runtime_checkpoint :: "json option"
  t_correlation_id :: string
  t_status :: task_status
  t_attempt_count :: int
  t_max_attempts :: int
  t_manual_retry_count :: int
  t_next_retry_at :: "time option"
  t_lease_owner :: "string option"
  t_lease_token :: "string option"
  t_lease_expires_at :: "time option"
  t_last_error_category :: "error_category option"
  t_last_error_message :: "string option"
  t_usage :: "model_usage option"
  t_result_snapshot :: "json option"
  t_started_at :: "time option"
  t_completed_at :: "time option"
  t_last_manual_action :: "string option"
  t_last_manual_actor_id :: "string option"
  t_last_manual_reason :: "string option"
  t_last_manual_at :: "time option"

definition task_checks :: "task \<Rightarrow> bool" where
  \<comment> \<open>the check constraints of \<open>model_execution_tasks\<close> on versions, counts, leases and retries\<close>
  "task_checks t \<longleftrightarrow>
     0 < t_snapshot_schema_version t \<and> 0 < t_session_version t \<and> 0 < t_policy_version t
     \<and> 0 \<le> t_attempt_count t \<and> 0 < t_max_attempts t \<and> 0 \<le> t_manual_retry_count t
     \<and> (if t_status t = T_RUNNING
        then t_lease_owner t \<noteq> None \<and> t_lease_token t \<noteq> None \<and> t_lease_expires_at t \<noteq> None
        else t_lease_owner t = None \<and> t_lease_token t = None \<and> t_lease_expires_at t = None)
     \<and> (t_status t = T_RETRY_WAIT \<longleftrightarrow> t_next_retry_at t \<noteq> None)"

record ledger_row =
  lc_id :: string
  lc_input_id :: string
  lc_step_key :: string
  lc_accepted_key :: "string option"
  lc_ownership_epoch :: int
  lc_status :: call_status
  lc_reserved_tokens :: int
  lc_actual_tokens :: "int option"
  lc_reserved_cost :: "cost option"
  lc_actual_cost :: "cost option"
  lc_value :: "json option"
  lc_value_hash :: "string option"
  lc_created_at :: time
  lc_purpose :: "string option"
  lc_model_name :: "string option"
  lc_finished_at :: "time option"
  lc_error_category :: "string option"

record message =
  ms_id :: int
  ms_source_id :: "string option"
  ms_public_seq :: "int option"
  ms_session_id :: int
  ms_role :: message_role
  ms_content :: string
  ms_request_id :: string
  ms_request_fingerprint :: "string option"
  ms_agent_outcome :: "string option"
  ms_formal_offer_id :: "int option"

section \<open>Semantic evidence\<close>

record predicate =
  pr_fact :: string
  pr_operator :: string
  pr_value :: string
  pr_source_quote :: string

record candidate =
  cd_amount :: "cents option"
  cd_delivery :: "string option"
  cd_payer :: "payer option"
  cd_region :: "string option"
  cd_conditions :: "predicate list"
  cd_commitments :: "string list"

record fact_row =
  pf_id :: string
  pf_product_id :: int
  pf_attribute :: string
  pf_value :: json
  pf_version :: int

record shipping_rule =
  sr_id :: string
  sr_product_id :: int
  sr_region :: string
  sr_delivery :: string
  sr_shipping_cost :: cents
  sr_discount :: cents
  sr_version :: int
  sr_active :: bool
  sr_expires_at :: time

record quote_snapshot =
  qs_rule_id :: "string option"
  qs_rule_version :: "int option"
  qs_shipping_cost :: cents
  qs_discount :: cents
  qs_delivery_fact_version :: "int option"

record cost_quote =
  cq_id :: string
  cq_product_id :: int
  cq_scope :: "string option \<times> string option \<times> payer"
  cq_snapshot :: quote_snapshot
  cq_created_at :: time
  cq_expires_at :: time

record evaluation =
  el_predicate_id :: string
  el_fact :: string
  el_fact_version :: "int option"
  el_expected_value :: string
  el_operator :: string
  el_result :: string

record offer_basis =
  ob_offer_id :: int
  ob_cost_quote_id :: string
  ob_candidate :: candidate
  ob_evaluations :: "evaluation list"

record draft =
  dr_id :: string
  dr_session_id :: int
  dr_input_id :: string
  dr_version :: int
  dr_candidate :: candidate
  dr_source_messages :: "int list"
  dr_alternative_group :: "string option"
  dr_missing :: "string list"
  dr_business_version :: int
  dr_related_offer_id :: "int option"
  dr_status :: draft_status
  dr_expires_at :: time

record semantic_turn =
  st_input_id :: string
  st_command :: typed_input
  st_results :: "(string \<times> string) list" \<comment> \<open>the id and the status of each result\<close>
  st_draft_ids :: "string list"
  st_selected_draft_id :: "string option"

record verification_item =
  vi_id :: string
  vi_draft_id :: string
  vi_product_id :: int
  vi_status :: string
  vi_reasons :: "string list"
  vi_notified_version :: "int option"

record recovery_action =
  ra_session_id :: int
  ra_actor_id :: string
  ra_target :: string
  ra_action :: string
  ra_reason :: string
  ra_created_at :: time

record execution_instance =
  gi_id :: string
  gi_input_id :: string
  gi_lease_token :: "string option"
  gi_ownership_epoch :: "int option"
  gi_pg_pid :: int
  gi_pg_backend_start :: string
  gi_application_name :: string
  gi_registered_at :: time
  gi_checked_at :: "time option"
  gi_state :: instance_state
  gi_error_category :: "string option"

section \<open>The database\<close>

record db =
  d_users :: "(string, user) table"
  d_products :: "(int, product) table"
  d_policies :: "(int, policy) table" \<comment> \<open>by product, which is unique\<close>
  d_sessions :: "(int, session) table"
  d_offers :: "(int, offer) table"
  d_approvals :: "(int, approval) table"
  d_executions :: "(int, approval_execution) table"
  d_receipts :: "(string, receipt) table"
  d_causal :: "(string, causal_event) table"
  d_evidence :: "(int, offer_evidence) table"
  d_deliveries :: "(string, delivery) table"
  d_outbox :: "(string, outbox_event) table"
  d_contexts :: "(string, display_context) table"
  d_acks :: "(string, display_ack) table"
  d_inputs :: "(string, input_row) table"
  d_tasks :: "(int, task) table"
  d_ledger :: "(string, ledger_row) table"
  d_messages :: "(int, message) table"
  d_facts :: "(string, fact_row) table"
  d_rules :: "(string, shipping_rule) table"
  d_quotes :: "(string, cost_quote) table"
  d_bases :: "(int, offer_basis) table"
  d_drafts :: "(string, draft) table"
  d_turns :: "(string, semantic_turn) table"
  d_verifications :: "(string, verification_item) table"
  d_recovery :: "(string, recovery_action) table"
  d_instances :: "(string, execution_instance) table"
  d_next_product :: int \<comment> \<open>the auto-increment counters\<close>
  d_next_session :: int
  d_next_offer :: int
  d_next_approval :: int
  d_next_task :: int
  d_next_message :: int

definition empty_db :: db where
  "empty_db = \<lparr>d_users = [], d_products = [], d_policies = [], d_sessions = [], d_offers = [],
     d_approvals = [], d_executions = [], d_receipts = [], d_causal = [], d_evidence = [],
     d_deliveries = [], d_outbox = [], d_contexts = [], d_acks = [], d_inputs = [], d_tasks = [],
     d_ledger = [], d_messages = [], d_facts = [], d_rules = [], d_quotes = [], d_bases = [],
     d_drafts = [], d_turns = [], d_verifications = [], d_recovery = [], d_instances = [],
     d_next_product = 1, d_next_session = 1, d_next_offer = 1, d_next_approval = 1,
     d_next_task = 1, d_next_message = 1\<rparr>"

abbreviation get_user where "get_user d k \<equiv> tget (d_users d) k"
abbreviation get_product where "get_product d k \<equiv> tget (d_products d) k"
abbreviation get_policy where "get_policy d k \<equiv> tget (d_policies d) k"
abbreviation get_session where "get_session d k \<equiv> tget (d_sessions d) k"
abbreviation get_offer where "get_offer d k \<equiv> tget (d_offers d) k"
abbreviation get_approval where "get_approval d k \<equiv> tget (d_approvals d) k"
abbreviation get_receipt where "get_receipt d k \<equiv> tget (d_receipts d) k"
abbreviation get_delivery where "get_delivery d k \<equiv> tget (d_deliveries d) k"
abbreviation get_input where "get_input d k \<equiv> tget (d_inputs d) k"
abbreviation get_task where "get_task d k \<equiv> tget (d_tasks d) k"
abbreviation get_draft where "get_draft d k \<equiv> tget (d_drafts d) k"

abbreviation mod_session :: "int \<Rightarrow> (session \<Rightarrow> session) \<Rightarrow> db \<Rightarrow> db" where
  "mod_session k f \<equiv> d_sessions_update (tmod k f)"
abbreviation mod_offer :: "int \<Rightarrow> (offer \<Rightarrow> offer) \<Rightarrow> db \<Rightarrow> db" where
  "mod_offer k f \<equiv> d_offers_update (tmod k f)"
abbreviation mod_approval :: "int \<Rightarrow> (approval \<Rightarrow> approval) \<Rightarrow> db \<Rightarrow> db" where
  "mod_approval k f \<equiv> d_approvals_update (tmod k f)"
abbreviation mod_delivery :: "string \<Rightarrow> (delivery \<Rightarrow> delivery) \<Rightarrow> db \<Rightarrow> db" where
  "mod_delivery k f \<equiv> d_deliveries_update (tmod k f)"
abbreviation mod_outbox :: "string \<Rightarrow> (outbox_event \<Rightarrow> outbox_event) \<Rightarrow> db \<Rightarrow> db" where
  "mod_outbox k f \<equiv> d_outbox_update (tmod k f)"
abbreviation mod_task :: "int \<Rightarrow> (task \<Rightarrow> task) \<Rightarrow> db \<Rightarrow> db" where
  "mod_task k f \<equiv> d_tasks_update (tmod k f)"
abbreviation mod_input :: "string \<Rightarrow> (input_row \<Rightarrow> input_row) \<Rightarrow> db \<Rightarrow> db" where
  "mod_input k f \<equiv> d_inputs_update (tmod k f)"
abbreviation mod_execution :: "int \<Rightarrow> (approval_execution \<Rightarrow> approval_execution) \<Rightarrow> db \<Rightarrow> db" where
  "mod_execution k f \<equiv> d_executions_update (tmod k f)"
abbreviation mod_draft :: "string \<Rightarrow> (draft \<Rightarrow> draft) \<Rightarrow> db \<Rightarrow> db" where
  "mod_draft k f \<equiv> d_drafts_update (tmod k f)"

definition approvals_unique :: "db \<Rightarrow> bool" where
  \<comment> \<open>the unique constraints on \<open>offer_id\<close>, \<open>pending_session_id\<close> and \<open>followup_request_id\<close>\<close>
  "approvals_unique d \<longleftrightarrow>
     distinct (map ap_offer_id (trows (d_approvals d)))
     \<and> distinct (map ap_session_id (filter (\<lambda>a. ap_status a = AP_PENDING) (trows (d_approvals d))))
     \<and> distinct (List.map_filter ap_followup_request_id (trows (d_approvals d)))"

definition flush_approvals :: "db \<Rightarrow> exn + db" where
  "flush_approvals d = (if approvals_unique d then Inr d else Inl IntegrityExn)"

lemma flush_approvals_eq_Inr [result_simps]: "flush_approvals d = Inr d' \<longleftrightarrow> approvals_unique d \<and> d' = d"
  by (auto simp: flush_approvals_def)

end
