(* ===== verification/Negotiation.thy ===== *)
theory Negotiation
  imports Schema
begin

text \<open>
  \<open>backend/app/services/negotiation_service.py\<close> and \<open>runtime_boundary.py\<close>: sessions, formal offers
  and their authorisation at the moment of every write. The service is the entry of the earlier
  runtime; its helpers are shared with the graph runtime (theories \<open>Business\<close>, \<open>Graph_Approval\<close>).

  A public method is \<open>commit\<close> of the transaction body modelled here. \<open>now\<close> is the reading of the
  clock that the body compares deadlines with.
\<close>

section \<open>Helpers\<close>

definition require_legacy_runtime :: "session \<Rightarrow> exn + unit" where
  "require_legacy_runtime n =
     (if ns_graph_version n \<noteq> None then Inl (ServiceExn NegotiationLifecycleConflict) else Inr ())"

definition get_negotiation :: "db \<Rightarrow> int \<Rightarrow> string \<Rightarrow> bool \<Rightarrow> exn + session" where
  "get_negotiation d sid buyer for_update =
     (case get_session d sid of
        None \<Rightarrow> Inl (ServiceExn NegotiationNotFound)
      | Some n \<Rightarrow>
          if ns_buyer_id n \<noteq> buyer then Inl (ServiceExn NegotiationNotFound)
          else if for_update then ebind (require_legacy_runtime n) (\<lambda>_. Inr n)
          else Inr n)"

definition policy_for :: "db \<Rightarrow> int \<Rightarrow> exn + policy" where
  "policy_for d pid = some_or (ServiceExn PricingPolicyNotFound) (get_policy d pid)"

definition require_negotiable :: "db \<Rightarrow> session \<Rightarrow> exn + unit" where
  "require_negotiable d n =
     (if ns_status n \<noteq> ACTIVE then Inl (ServiceExn InvalidNegotiationState)
      else case get_product d (ns_product_id n) of
             None \<Rightarrow> Inl (ServiceExn ProductUnavailable)
           | Some p \<Rightarrow> if p_status p \<noteq> AVAILABLE then Inl (ServiceExn ProductUnavailable) else Inr ())"

definition stored_policy :: "policy \<Rightarrow> pricing_error + pricing_policy" where
  "stored_policy pol =
     mk_policy (dec_of_cents (sp_minimum_net_price pol)) (dec_of_cents (sp_auto_accept_threshold pol))"

definition authorize_terms :: "offer_terms \<Rightarrow> policy \<Rightarrow> extra_terms \<Rightarrow> exn + authorization" where
  "authorize_terms terms pol extra =
     (case stored_policy pol of
        Inl e \<Rightarrow> Inl (ServiceExn InvalidOfferTerms)
      | Inr p \<Rightarrow>
          (case authorize_offer terms p extra of
             Inl (PricingE e) \<Rightarrow> Inl (ServiceExn InvalidOfferTerms)
           | Inl UnhashableTerm \<Rightarrow> Inl TypeExn
           | Inr au \<Rightarrow> Inr au))"

definition terms_from_offer :: "offer \<Rightarrow> pricing_error + offer_terms" where
  "terms_from_offer off =
     mk_terms (dec_of_cents (of_price off)) (Some (of_shipping_paid_by off))
       (map_option dec_of_cents (of_shipping_cost off))
       (Some (dec_of_cents (of_seller_borne_discount off)))"

definition authorize_stored_offer :: "offer \<Rightarrow> policy \<Rightarrow> exn + authorization" where
  "authorize_stored_offer off pol =
     ebind (lift_err PricingExn (terms_from_offer off)) (\<lambda>t.
     authorize_terms t pol (of_terms off))"

definition is_expired :: "time option \<Rightarrow> time \<Rightarrow> bool" where
  "is_expired expires now = (case expires of None \<Rightarrow> False | Some e \<Rightarrow> e \<le> now)"

definition validate_expiration :: "time option \<Rightarrow> time \<Rightarrow> exn + unit" where
  "validate_expiration expires now =
     (if is_expired expires now then Inl (ServiceExn InvalidOfferTerms) else Inr ())"

definition validated_additional_terms :: "extra_terms option \<Rightarrow> exn + extra_terms" where
  "validated_additional_terms extra =
     (let stored = (case extra of None \<Rightarrow> [] | Some kvs \<Rightarrow> kvs) in
      if jok (JObj stored) then Inr stored else Inl (ServiceExn InvalidOfferTerms))"

definition supersede_current_offer :: "session \<Rightarrow> offer_proposer \<Rightarrow> db \<Rightarrow> db" where
  "supersede_current_offer n incoming d =
     (case ns_current_offer_id n of
        None \<Rightarrow> d
      | Some oid \<Rightarrow>
          (case get_offer d oid of
             None \<Rightarrow> d
           | Some cur \<Rightarrow>
               if of_status cur \<noteq> PROPOSED then d
               else mod_offer oid (\<lambda>x. x\<lparr>of_status :=
                      (if of_proposer cur = incoming then WITHDRAWN else REJECTED)\<rparr>) d))"

definition current_offer :: "db \<Rightarrow> session \<Rightarrow> offer option" where
  "current_offer d n = (case ns_current_offer_id n of None \<Rightarrow> None | Some oid \<Rightarrow> get_offer d oid)"

definition new_offer ::
    "int \<Rightarrow> offer_proposer \<Rightarrow> offer_terms \<Rightarrow> extra_terms \<Rightarrow> time option \<Rightarrow> exn + offer" where
  "new_offer sid proposer t extra expires =
     (case ot_seller_borne_discount t of
        None \<Rightarrow> Inl (ServiceExn InvalidOfferTerms)
      | Some discount \<Rightarrow> Inr
          \<lparr>of_id = 0, of_session_id = sid, of_proposer = proposer, of_price = ot_buyer_payment t,
           of_shipping_paid_by = ot_shipping_paid_by t, of_shipping_cost = ot_shipping_cost t,
           of_seller_borne_discount = discount, of_terms = extra, of_status = PROPOSED,
           of_expires_at = expires, of_invalid_reason = None, of_invalidated_at = None,
           of_superseded_by = None\<rparr>)"

definition add_offer :: "offer \<Rightarrow> db \<Rightarrow> int \<times> db" where
  \<comment> \<open>\<open>db.add(offer); db.flush()\<close>: the database assigns the next identifier\<close>
  "add_offer off d =
     (let k = d_next_offer d in
      (k, d\<lparr>d_offers := tput k (off\<lparr>of_id := k\<rparr>) (d_offers d), d_next_offer := k + 1\<rparr>))"

definition newest :: "('r \<Rightarrow> bool) \<Rightarrow> ('k, 'r) table \<Rightarrow> 'r option" where
  \<comment> \<open>\<open>where p order_by id desc limit 1\<close>; rows are stored in the order of their identifiers\<close>
  "newest p t = (case filter p (trows t) of [] \<Rightarrow> None | x # xs \<Rightarrow> Some (last (x # xs)))"

section \<open>Operations\<close>

definition create_or_get_active_session ::
    "int \<Rightarrow> string \<Rightarrow> string option \<Rightarrow> db \<Rightarrow> exn + (int \<times> bool) \<times> db" where
  "create_or_get_active_session pid buyer graph_version d =
     (case get_user d buyer of
        None \<Rightarrow> Inl (ServiceExn NegotiationLifecycleConflict)
      | Some u \<Rightarrow>
      if \<not> u_active u then Inl (ServiceExn NegotiationLifecycleConflict)
      else case get_product d pid of
        None \<Rightarrow> Inl (ServiceExn ProductUnavailable)
      | Some p \<Rightarrow>
      if p_status p \<noteq> AVAILABLE then Inl (ServiceExn ProductUnavailable)
      else if p_seller_id p = buyer then Inl (ServiceExn NegotiationLifecycleConflict)
      else ebind (policy_for d pid) (\<lambda>_.
      case newest (\<lambda>n. ns_product_id n = pid \<and> ns_buyer_id n = buyer
                     \<and> ns_status n \<in> {ACTIVE, WAITING_APPROVAL}) (d_sessions d) of
        Some n \<Rightarrow> Inr ((ns_id n, False), d)
      | None \<Rightarrow>
          let k = d_next_session d;
              n = \<lparr>ns_id = k, ns_product_id = pid, ns_buyer_id = buyer, ns_status = ACTIVE,
                   ns_current_offer_id = None, ns_confirmed_offer_id = None, ns_confirmed_at = None,
                   ns_confirmation_request_id = None, ns_confirmation_source = None,
                   ns_round_count = 0, ns_version = 1, ns_graph_version = graph_version,
                   ns_archived_at = None, ns_lifecycle_checked_at = None, ns_next_input_seq = 1,
                   ns_last_resolved_input_seq = 0, ns_next_public_seq = 1\<rparr>
          in Inr ((k, True), d\<lparr>d_sessions := tput k n (d_sessions d), d_next_session := k + 1\<rparr>)))"

record negotiation_state =
  st_id :: int
  st_product_id :: int
  st_status :: negotiation_status
  st_current_offer_id :: "int option"
  st_confirmed_offer_id :: "int option"
  st_confirmed_at :: "time option"
  st_confirmation_source :: "confirmation_source option"
  st_round_count :: int
  st_version :: int
  st_policy_version :: int
  st_negotiation_style :: negotiation_style
  st_max_rounds :: int
  st_recent_offers :: "offer list"

definition get_state :: "int \<Rightarrow> string \<Rightarrow> db \<Rightarrow> exn + negotiation_state" where
  "get_state sid buyer d =
     ebind (get_negotiation d sid buyer False) (\<lambda>n.
     ebind (policy_for d (ns_product_id n)) (\<lambda>pol.
     let offers = filter (\<lambda>x. of_session_id x = ns_id n) (trows (d_offers d)) in
     Inr \<lparr>st_id = ns_id n, st_product_id = ns_product_id n, st_status = ns_status n,
          st_current_offer_id = ns_current_offer_id n,
          st_confirmed_offer_id = ns_confirmed_offer_id n, st_confirmed_at = ns_confirmed_at n,
          st_confirmation_source = ns_confirmation_source n, st_round_count = ns_round_count n,
          st_version = ns_version n, st_policy_version = sp_version pol,
          st_negotiation_style = sp_style pol, st_max_rounds = sp_max_rounds pol,
          st_recent_offers = rev (take 10 (rev offers))\<rparr>))"

definition preview_offer ::
    "int \<Rightarrow> string \<Rightarrow> offer_terms \<Rightarrow> extra_terms option \<Rightarrow> db \<Rightarrow> exn + authorization" where
  \<comment> \<open>\<open>NegotiationService.evaluate_offer\<close>\<close>
  "preview_offer sid buyer t extra d =
     ebind (get_negotiation d sid buyer False) (\<lambda>n.
     ebind (require_negotiable d n) (\<lambda>_.
     ebind (policy_for d (ns_product_id n)) (\<lambda>pol.
     authorize_terms t pol (case extra of None \<Rightarrow> [] | Some kvs \<Rightarrow> kvs))))"

definition record_buyer_offer ::
    "time \<Rightarrow> int \<Rightarrow> string \<Rightarrow> offer_terms \<Rightarrow> extra_terms option \<Rightarrow> time option \<Rightarrow> db \<Rightarrow> exn + offer \<times> db" where
  \<comment> \<open>\<open>record_buyer_offer_in_transaction\<close>\<close>
  "record_buyer_offer now sid buyer t extra expires d =
     ebind (validated_additional_terms extra) (\<lambda>stored.
     ebind (validate_expiration expires now) (\<lambda>_.
     ebind (get_negotiation d sid buyer True) (\<lambda>n.
     ebind (require_negotiable d n) (\<lambda>_.
     ebind (policy_for d (ns_product_id n)) (\<lambda>pol.
     if sp_max_rounds pol \<le> ns_round_count n then Inl (ServiceExn InvalidNegotiationState)
     else
     ebind (authorize_terms t pol stored) (\<lambda>_.
     ebind (new_offer sid BUYER t stored expires) (\<lambda>off.
     let d1 = supersede_current_offer n BUYER d;
         (k, d2) = add_offer off d1;
         d3 = mod_session sid (\<lambda>s. s\<lparr>ns_current_offer_id := Some k,
                ns_round_count := ns_round_count s + 1, ns_version := ns_version s + 1\<rparr>) d2
     in Inr (off\<lparr>of_id := k\<rparr>, d3))))))))"

definition submit_counter_offer ::
    "time \<Rightarrow> int \<Rightarrow> string \<Rightarrow> offer_terms \<Rightarrow> extra_terms option \<Rightarrow> time option \<Rightarrow> int option \<Rightarrow>
     db \<Rightarrow> exn + offer \<times> db" where
  "submit_counter_offer now sid buyer t extra expires responding_to d =
     ebind (validated_additional_terms extra) (\<lambda>stored.
     ebind (validate_expiration expires now) (\<lambda>_.
     ebind (get_negotiation d sid buyer True) (\<lambda>n.
     ebind (require_negotiable d n) (\<lambda>_.
     ebind (policy_for d (ns_product_id n)) (\<lambda>pol.
     let cur = current_offer d n in
     if sp_max_rounds pol \<le> ns_round_count n \<and>
        (case (responding_to, cur) of
           (Some r, Some c) \<Rightarrow> of_id c \<noteq> r \<or> of_proposer c \<noteq> BUYER
         | _ \<Rightarrow> True)
     then Inl (ServiceExn InvalidNegotiationState)
     else
     ebind (authorize_terms t pol stored) (\<lambda>au.
     if \<not> au_can_counter au then Inl (ServiceExn OfferNotAuthorized)
     else if (case cur of None \<Rightarrow> False | Some c \<Rightarrow> of_status c = ACCEPTED)
     then Inl (ServiceExn OfferConflict)
     else
     ebind (new_offer sid AGENT t stored expires) (\<lambda>off.
     let d1 = supersede_current_offer n AGENT d;
         (k, d2) = add_offer off d1;
         d3 = mod_session sid (\<lambda>s. s\<lparr>ns_current_offer_id := Some k,
                ns_version := ns_version s + 1\<rparr>) d2
     in Inr (off\<lparr>of_id := k\<rparr>, d3))))))))"

definition accept_offer :: "time \<Rightarrow> int \<Rightarrow> string \<Rightarrow> int \<Rightarrow> db \<Rightarrow> exn + offer \<times> db" where
  "accept_offer now sid buyer oid d =
     ebind (get_negotiation d sid buyer True) (\<lambda>n.
     ebind (require_negotiable d n) (\<lambda>_.
     if ns_current_offer_id n \<noteq> Some oid then Inl (ServiceExn OfferConflict)
     else case get_offer d oid of
       None \<Rightarrow> Inl (ServiceExn OfferNotFound)
     | Some off \<Rightarrow>
     if of_session_id off \<noteq> sid then Inl (ServiceExn OfferNotFound)
     else if of_proposer off \<noteq> BUYER then Inl (ServiceExn OfferConflict)
     else if of_status off \<noteq> PROPOSED then Inl (ServiceExn OfferConflict)
     else if is_expired (of_expires_at off) now then Inl (ServiceExn OfferConflict)
     else
     ebind (policy_for d (ns_product_id n)) (\<lambda>pol.
     ebind (authorize_stored_offer off pol) (\<lambda>au.
     if \<not> au_can_accept au then Inl (ServiceExn OfferNotAuthorized)
     else Inr (off\<lparr>of_status := ACCEPTED\<rparr>,
            mod_session sid (\<lambda>s. s\<lparr>ns_version := ns_version s + 1\<rparr>)
              (mod_offer oid (\<lambda>x. x\<lparr>of_status := ACCEPTED\<rparr>) d))))))"

section \<open>Invariant of offers and sessions\<close>

text \<open>
  Rows are stored under their identifiers, the current offer of a session belongs to it, and an
  offer that is still open (PROPOSED) is the current offer of its session. Every service of the
  program keeps this, also the ones of the graph runtime.
\<close>

definition offers_stored :: "db \<Rightarrow> bool" where
  "offers_stored d \<longleftrightarrow> (\<forall>k off. get_offer d k = Some off \<longrightarrow> of_id off = k \<and> k < d_next_offer d)"

definition sessions_stored :: "db \<Rightarrow> bool" where
  "sessions_stored d \<longleftrightarrow>
     (\<forall>k n. get_session d k = Some n \<longrightarrow> ns_id n = k \<and> k < d_next_session d \<and>
        (\<forall>oid. ns_current_offer_id n = Some oid \<longrightarrow>
           (\<exists>off. get_offer d oid = Some off \<and> of_session_id off = k)))"

definition open_is_current :: "db \<Rightarrow> bool" where
  "open_is_current d \<longleftrightarrow>
     (\<forall>k off. get_offer d k = Some off \<longrightarrow> of_status off = PROPOSED \<longrightarrow>
        (\<exists>n. get_session d (of_session_id off) = Some n \<and> ns_current_offer_id n = Some k))"

definition offer_inv :: "db \<Rightarrow> bool" where
  "offer_inv d \<longleftrightarrow> offers_stored d \<and> sessions_stored d \<and> open_is_current d"

definition none_open :: "db \<Rightarrow> int \<Rightarrow> bool" where
  "none_open d sid \<longleftrightarrow>
     (\<forall>k off. get_offer d k = Some off \<longrightarrow> of_session_id off = sid \<longrightarrow> of_status off \<noteq> PROPOSED)"

lemmas offer_inv_defs = offer_inv_def offers_stored_def sessions_stored_def open_is_current_def

lemma offer_inv_offerD: "offer_inv d \<Longrightarrow> get_offer d k = Some off \<Longrightarrow> of_id off = k \<and> k < d_next_offer d"
  by (simp add: offer_inv_defs)

lemma offer_inv_sessionD: "offer_inv d \<Longrightarrow> get_session d k = Some n \<Longrightarrow> ns_id n = k \<and> k < d_next_session d"
  by (simp add: offer_inv_defs)

lemma offer_inv_currentD:
  "offer_inv d \<Longrightarrow> get_session d k = Some n \<Longrightarrow> ns_current_offer_id n = Some oid \<Longrightarrow>
   \<exists>off. get_offer d oid = Some off \<and> of_session_id off = k"
  by (simp add: offer_inv_defs)

lemma offer_inv_openD:
  "offer_inv d \<Longrightarrow> get_offer d k = Some off \<Longrightarrow> of_status off = PROPOSED \<Longrightarrow>
   \<exists>n. get_session d (of_session_id off) = Some n \<and> ns_current_offer_id n = Some k"
  by (simp add: offer_inv_defs)

text \<open>The writes the services are made of.\<close>

lemma offer_inv_other:
  assumes "offer_inv d" and "d_offers d' = d_offers d" and "d_sessions d' = d_sessions d"
    and "d_next_offer d' = d_next_offer d" and "d_next_session d' = d_next_session d"
  shows "offer_inv d'"
  using assms by (simp add: offer_inv_defs)

lemma none_open_other: "d_offers d' = d_offers d \<Longrightarrow> none_open d' sid = none_open d sid"
  by (simp add: none_open_def)

lemma offer_inv_mod_session:
  assumes "offer_inv d"
    and "\<And>n. ns_id (f n) = ns_id n" and "\<And>n. ns_current_offer_id (f n) = ns_current_offer_id n"
  shows "offer_inv (mod_session sid f d)"
  using assms
  by (auto simp: offer_inv_defs split: if_splits) (metis option.simps(9))+

lemma offer_inv_close_offer:
  assumes "offer_inv d"
    and "\<And>x. of_id (f x) = of_id x \<and> of_session_id (f x) = of_session_id x"
    and "\<And>x. of_status (f x) = PROPOSED \<Longrightarrow> of_status x = PROPOSED"
  shows "offer_inv (mod_offer oid f d)"
  using assms
  by (auto simp: offer_inv_defs split: if_splits) (metis option.simps(9))+

lemma offer_inv_clear_current:
  assumes "offer_inv d" and "none_open d sid"
    and "\<And>n. ns_id (f n) = ns_id n \<and> ns_current_offer_id (f n) = None"
  shows "offer_inv (mod_session sid f d)"
  using assms
  by (auto simp: offer_inv_defs none_open_def split: if_splits)

lemma offer_inv_add_current:
  assumes "offer_inv d" and "none_open d sid" and "get_session d sid = Some n" and "of_session_id off = sid"
    and "add_offer off d = (k, d1)"
    and "\<And>n. ns_id (f n) = ns_id n \<and> ns_current_offer_id (f n) = Some k"
  shows "offer_inv (mod_session sid f d1)"
proof -
  have k: "k = d_next_offer d" and d1: "d_offers d1 = tput k (off\<lparr>of_id := k\<rparr>) (d_offers d)"
    "d_next_offer d1 = k + 1" "d_sessions d1 = d_sessions d" "d_next_session d1 = d_next_session d"
    using assms(5) by (auto simp: add_offer_def Let_def)
  have fresh: "get_offer d k = None"
    using assms(1) k by (cases "get_offer d k") (auto dest: offer_inv_offerD)
  have "offers_stored (mod_session sid f d1)"
    using assms(1) k by (fastforce simp: offers_stored_def offer_inv_def d1)
  moreover have "sessions_stored (mod_session sid f d1)"
    using assms(1,4,6) fresh
    by (auto simp: sessions_stored_def offer_inv_def d1 split: if_splits) (metis option.distinct(1))+
  moreover have "open_is_current (mod_session sid f d1)"
    using assms(1,2,3,4,6)
    by (auto simp: open_is_current_def offer_inv_def none_open_def d1 split: if_splits)
  ultimately show ?thesis by (simp add: offer_inv_def)
qed

lemma offer_inv_add_closed:
  assumes "offer_inv d" and "of_status off \<noteq> PROPOSED"
    and "add_offer off d = (k, d1)"
  shows "offer_inv d1"
  using assms(1,2) assms(3) [symmetric]
  by (auto simp: offer_inv_defs add_offer_def Let_def) (smt (verit) option.inject)+

lemma none_open_mod_offer:
  assumes "none_open d sid" and "\<And>x. of_session_id (f x) = of_session_id x"
    and "\<And>x. of_status (f x) = PROPOSED \<Longrightarrow> of_status x = PROPOSED"
  shows "none_open (mod_offer oid f d) sid"
  using assms(1) unfolding none_open_def by (auto simp: assms(2) split: if_splits dest!: assms(3))

lemma offer_inv_supersede:
  assumes "offer_inv d" and "get_session d sid = Some n"
  shows "offer_inv (supersede_current_offer n who d)" and "none_open (supersede_current_offer n who d) sid"
proof -
  show "offer_inv (supersede_current_offer n who d)"
    using assms(1) by (auto simp: supersede_current_offer_def intro!: offer_inv_close_offer split: option.splits)
  show "none_open (supersede_current_offer n who d) sid"
    using assms
    by (auto simp: supersede_current_offer_def none_open_def split: option.splits if_splits
        dest: offer_inv_openD)
qed

lemma supersede_frame [simp]:
  "d_sessions (supersede_current_offer n who d) = d_sessions d"
  "d_next_offer (supersede_current_offer n who d) = d_next_offer d"
  "d_approvals (supersede_current_offer n who d) = d_approvals d"
  by (auto simp: supersede_current_offer_def split: option.splits)

section \<open>What each operation guarantees\<close>

lemma get_negotiation_Inr [result_simps]:
  "get_negotiation d sid buyer fu = Inr n \<longleftrightarrow>
     get_session d sid = Some n \<and> ns_buyer_id n = buyer \<and> (fu \<longrightarrow> ns_graph_version n = None)"
  by (auto simp: get_negotiation_def require_legacy_runtime_def result_simps split: option.splits)

lemma policy_for_Inr [result_simps]: "policy_for d pid = Inr pol \<longleftrightarrow> get_policy d pid = Some pol"
  by (simp add: policy_for_def result_simps)

lemma require_negotiable_Inr [result_simps]:
  "require_negotiable d n = Inr u \<longleftrightarrow> ns_status n = ACTIVE \<and>
     (\<exists>p. get_product d (ns_product_id n) = Some p \<and> p_status p = AVAILABLE)"
  by (auto simp: require_negotiable_def split: option.splits if_splits)

lemma validate_expiration_Inr [result_simps]:
  "validate_expiration e now = Inr u \<longleftrightarrow> \<not> is_expired e now"
  by (simp add: validate_expiration_def)

lemma new_offer_Inr [result_simps]:
  "new_offer sid who t extra expires = Inr off \<longleftrightarrow>
     (\<exists>c. ot_seller_borne_discount t = Some c \<and> off =
        \<lparr>of_id = 0, of_session_id = sid, of_proposer = who, of_price = ot_buyer_payment t,
         of_shipping_paid_by = ot_shipping_paid_by t, of_shipping_cost = ot_shipping_cost t,
         of_seller_borne_discount = c, of_terms = extra, of_status = PROPOSED,
         of_expires_at = expires, of_invalid_reason = None, of_invalidated_at = None,
         of_superseded_by = None\<rparr>)"
  by (auto simp: new_offer_def split: option.splits)

lemma stored_policy_ordered:
  "stored_policy pol = Inr p \<Longrightarrow> pp_minimum_net_price p = sp_minimum_net_price pol
     \<and> pp_auto_accept_threshold p = sp_auto_accept_threshold pol
     \<and> pp_minimum_net_price p \<le> pp_auto_accept_threshold p"
  by (auto simp: stored_policy_def mk_policy_stored)

lemma authorize_terms_Inr:
  "authorize_terms t pol extra = Inr au \<longleftrightarrow>
     (\<exists>p. stored_policy pol = Inr p \<and> authorize_offer t p extra = Inr au)"
  by (auto simp: authorize_terms_def split: sum.splits auth_error.splits)

lemma authorize_terms_net:
  assumes "authorize_terms t pol extra = Inr au"
  obtains net where "calculate_net_income t = Inr net"
    and "au_can_accept au \<longleftrightarrow> au_conditions_valid au \<and> sp_auto_accept_threshold pol \<le> net"
    and "au_can_request_approval au \<longleftrightarrow> au_conditions_valid au \<and>
           sp_minimum_net_price pol \<le> net \<and> net < sp_auto_accept_threshold pol"
    and "au_prohibited au \<longleftrightarrow> \<not> au_conditions_valid au \<or> net < sp_minimum_net_price pol"
proof -
  obtain p where p: "stored_policy pol = Inr p" and au: "authorize_offer t p extra = Inr au"
    using assms by (auto simp: authorize_terms_Inr)
  note eqs = stored_policy_ordered [OF p]
  obtain net where net: "calculate_net_income t = Inr net" and z: "au_zone au = zone_of net p"
    using authorize_offer_zone [OF au] by blast
  note zc = zone_of_cases [of p net]
  show thesis
    by (rule that [OF net]) (use eqs z zc authorize_offer_flags [OF au] in auto)
qed

lemma terms_from_offer_Inr:
  assumes "terms_from_offer off = Inr t"
  shows "ot_buyer_payment t = of_price off" and "ot_shipping_paid_by t = of_shipping_paid_by off"
    and "ot_shipping_cost t = of_shipping_cost off"
    and "ot_seller_borne_discount t = Some (of_seller_borne_discount off)"
  using assms
  by (auto simp: terms_from_offer_def mk_terms_def validate_optional_def result_simps
      split: option.splits if_splits)

definition offer_net_income :: "offer \<Rightarrow> cents" where
  \<comment> \<open>what the seller keeps of a stored offer: the specification of the price rules\<close>
  "offer_net_income off =
     of_price off - (if of_shipping_paid_by off = SellerPays then the (of_shipping_cost off) else 0)
       - of_seller_borne_discount off"

lemma net_income_of_stored:
  assumes "terms_from_offer off = Inr t" and "calculate_net_income t = Inr net"
  shows "net = offer_net_income off"
  using assms terms_from_offer_Inr [OF assms(1)]
  by (auto simp: calculate_net_income_def offer_net_income_def result_simps split: if_splits)

lemma authorize_stored_net:
  assumes "authorize_stored_offer off pol = Inr au"
  shows "au_can_accept au \<Longrightarrow> sp_auto_accept_threshold pol \<le> offer_net_income off"
    and "au_can_request_approval au \<Longrightarrow>
      sp_minimum_net_price pol \<le> offer_net_income off \<and> offer_net_income off < sp_auto_accept_threshold pol"
proof -
  obtain t where t: "terms_from_offer off = Inr t" and au: "authorize_terms t pol (of_terms off) = Inr au"
    using assms by (auto simp: authorize_stored_offer_def result_simps)
  obtain net where "calculate_net_income t = Inr net"
    and acc: "au_can_accept au \<longleftrightarrow> au_conditions_valid au \<and> sp_auto_accept_threshold pol \<le> net"
    and req: "au_can_request_approval au \<longleftrightarrow> au_conditions_valid au \<and>
           sp_minimum_net_price pol \<le> net \<and> net < sp_auto_accept_threshold pol"
    using authorize_terms_net [OF au] by metis
  then have "net = offer_net_income off" using net_income_of_stored [OF t] by simp
  then show "au_can_accept au \<Longrightarrow> sp_auto_accept_threshold pol \<le> offer_net_income off"
    and "au_can_request_approval au \<Longrightarrow>
      sp_minimum_net_price pol \<le> offer_net_income off \<and> offer_net_income off < sp_auto_accept_threshold pol"
    using acc req by auto
qed

lemma add_offer_get:
  assumes "add_offer off d = (k, d')"
  shows "get_offer d' j = (if j = k then Some (off\<lparr>of_id := k\<rparr>) else get_offer d j)"
    and "d_sessions d' = d_sessions d" and "d_approvals d' = d_approvals d"
    and "k = d_next_offer d" and "d_next_offer d' = k + 1"
  using assms by (auto simp: add_offer_def Let_def)

lemma record_buyer_offer_cases:
  assumes "record_buyer_offer now sid buyer t extra expires d = Inr (off, d')"
  obtains n pol au off0 k d2 where "get_session d sid = Some n" and "ns_buyer_id n = buyer"
    and "ns_graph_version n = None" and "ns_status n = ACTIVE"
    and "get_policy d (ns_product_id n) = Some pol" and "ns_round_count n < sp_max_rounds pol"
    and "authorize_terms t pol (of_terms off) = Inr au" and "\<not> is_expired expires now"
    and "of_session_id off0 = sid" and "of_proposer off0 = BUYER" and "of_status off0 = PROPOSED"
    and "off = off0\<lparr>of_id := k\<rparr>" and "add_offer off0 (supersede_current_offer n BUYER d) = (k, d2)"
    and "d' = mod_session sid (\<lambda>s. s\<lparr>ns_current_offer_id := Some k,
                ns_round_count := ns_round_count s + 1, ns_version := ns_version s + 1\<rparr>) d2"
  using assms unfolding record_buyer_offer_def
  by (elim result_elims) (rule that, auto simp: result_simps)

lemma submit_counter_offer_cases:
  assumes "submit_counter_offer now sid buyer t extra expires resp d = Inr (off, d')"
  obtains n pol au off0 k d2 where "get_session d sid = Some n" and "ns_buyer_id n = buyer"
    and "ns_graph_version n = None" and "ns_status n = ACTIVE"
    and "get_policy d (ns_product_id n) = Some pol"
    and "authorize_terms t pol (of_terms off) = Inr au" and "au_can_counter au"
    and "of_session_id off0 = sid" and "of_proposer off0 = AGENT" and "of_status off0 = PROPOSED"
    and "of_price off0 = ot_buyer_payment t"
    and "off = off0\<lparr>of_id := k\<rparr>" and "add_offer off0 (supersede_current_offer n AGENT d) = (k, d2)"
    and "d' = mod_session sid (\<lambda>s. s\<lparr>ns_current_offer_id := Some k, ns_version := ns_version s + 1\<rparr>) d2"
  using assms unfolding submit_counter_offer_def
  by (elim result_elims) (rule that, auto simp: result_simps)

lemma record_buyer_offer_inv:
  assumes "record_buyer_offer now sid buyer t extra expires d = Inr (off, d')" and "offer_inv d"
  shows "offer_inv d'"
  using assms(1)
proof (cases rule: record_buyer_offer_cases)
  case (1 n pol au off0 k d2)
  with offer_inv_supersede [OF assms(2), of sid n BUYER] show ?thesis
    by (auto intro!: offer_inv_add_current [where d = "supersede_current_offer n BUYER d"])
qed

lemma submit_counter_offer_inv:
  assumes "submit_counter_offer now sid buyer t extra expires resp d = Inr (off, d')" and "offer_inv d"
  shows "offer_inv d'"
  using assms(1)
proof (cases rule: submit_counter_offer_cases)
  case (1 n pol au off0 k d2)
  with offer_inv_supersede [OF assms(2), of sid n AGENT] show ?thesis
    by (auto intro!: offer_inv_add_current [where d = "supersede_current_offer n AGENT d"])
qed

lemma accept_offer_cases:
  assumes "accept_offer now sid buyer oid d = Inr (off', d')"
  obtains n off pol au where "get_session d sid = Some n" and "ns_buyer_id n = buyer"
    and "ns_graph_version n = None" and "ns_status n = ACTIVE" and "ns_current_offer_id n = Some oid"
    and "get_offer d oid = Some off" and "of_session_id off = sid" and "of_proposer off = BUYER"
    and "of_status off = PROPOSED" and "\<not> is_expired (of_expires_at off) now"
    and "get_policy d (ns_product_id n) = Some pol" and "authorize_stored_offer off pol = Inr au"
    and "au_can_accept au" and "off' = off\<lparr>of_status := ACCEPTED\<rparr>"
    and "d' = mod_session sid (\<lambda>s. s\<lparr>ns_version := ns_version s + 1\<rparr>)
              (mod_offer oid (\<lambda>x. x\<lparr>of_status := ACCEPTED\<rparr>) d)"
  using assms unfolding accept_offer_def
  by (elim result_elims) (rule that, auto simp: result_simps)

lemma accept_offer_inv:
  assumes "accept_offer now sid buyer oid d = Inr (off', d')" and "offer_inv d"
  shows "offer_inv d'"
  using assms(1)
  by (cases rule: accept_offer_cases)
    (auto intro!: offer_inv_mod_session offer_inv_close_offer assms(2))

section \<open>Properties\<close>

lemma only_new_offer_open:
  assumes "none_open d sid" and "add_offer off d = (k, d1)" and "of_status off = PROPOSED"
    and "of_session_id off = sid"
  shows "(\<exists>x. get_offer (mod_session sid f d1) j = Some x \<and> of_session_id x = sid \<and> of_status x = PROPOSED)
           \<longleftrightarrow> j = k"
  using assms(1,3,4) by (auto simp: none_open_def add_offer_get(1) [OF assms(2)])

definition open_offers_are :: "db \<Rightarrow> int \<Rightarrow> int set \<Rightarrow> bool" where
  \<comment> \<open>the open offers of a negotiation are those in the set\<close>
  "open_offers_are d sid ks \<longleftrightarrow>
     (\<forall>j. (\<exists>x. get_offer d j = Some x \<and> of_session_id x = sid \<and> of_status x = PROPOSED) \<longleftrightarrow> j \<in> ks)"

text \<open>
  A buyer offer is recorded only in an active negotiation below the round limit of the seller's
  policy. Afterwards the round count is one higher and within the limit, the recorded offer is the
  current one and is new, it is the only open offer of the negotiation (the previous one was
  withdrawn or rejected), and the store of offers and sessions stays consistent.
\<close>

theorem record_buyer_offer_sound:
  assumes "record_buyer_offer now sid buyer t extra expires d = Inr (off, d')" and "offer_inv d"
  shows "offer_inv d' \<and> open_offers_are d' sid {of_id off}
    \<and> get_offer d (of_id off) = None \<and> get_offer d' (of_id off) = Some off \<and> of_proposer off = BUYER
    \<and> (\<exists>n n' pol. get_session d sid = Some n \<and> ns_status n = ACTIVE \<and> ns_buyer_id n = buyer
           \<and> get_session d' sid = Some n' \<and> get_policy d (ns_product_id n) = Some pol
           \<and> ns_round_count n' = ns_round_count n + 1 \<and> ns_round_count n' \<le> sp_max_rounds pol
           \<and> ns_current_offer_id n' = Some (of_id off) \<and> ns_version n' = ns_version n + 1)"
  using assms(1)
proof (cases rule: record_buyer_offer_cases)
  case (1 n pol au off0 k d2)
  note add = add_offer_get [OF 1(13)]
  have fresh: "get_offer d k = None"
    using assms(2) add(4) by (cases "get_offer d k") (auto dest: offer_inv_offerD)
  have sess: "get_session d' sid = Some (n\<lparr>ns_current_offer_id := Some k,
                ns_round_count := ns_round_count n + 1, ns_version := ns_version n + 1\<rparr>)"
    by (simp add: 1(1,14) add)
  have "open_offers_are d' sid {k}"
    using only_new_offer_open [OF offer_inv_supersede(2) [OF assms(2) 1(1)] 1(13) 1(11) 1(9)]
    by (simp add: open_offers_are_def 1(14))
  moreover have "offer_inv d'" using assms by (rule record_buyer_offer_inv)
  ultimately show ?thesis
    using 1(1-6) 1(9-12) fresh sess by (simp add: 1(14) add)
qed

text \<open>
  The agent accepts an offer automatically only when it is the buyer's own current offer, open
  and unexpired, in an active negotiation, and when the seller keeps at least the auto-accept
  threshold of the current policy. The offer becomes ACCEPTED and no other offer changes.
\<close>

theorem accept_offer_sound:
  assumes "accept_offer now sid buyer oid d = Inr (off', d')" and "offer_inv d"
  shows "offer_inv d' \<and> (\<exists>n off pol. get_session d sid = Some n \<and> ns_status n = ACTIVE
           \<and> ns_buyer_id n = buyer \<and> ns_current_offer_id n = Some oid \<and> get_offer d oid = Some off
           \<and> of_proposer off = BUYER \<and> of_status off = PROPOSED \<and> \<not> is_expired (of_expires_at off) now
           \<and> get_policy d (ns_product_id n) = Some pol
           \<and> sp_auto_accept_threshold pol \<le> offer_net_income off
           \<and> off' = off\<lparr>of_status := ACCEPTED\<rparr>)
    \<and> (\<forall>j. get_offer d' j = (if j = oid then Some off' else get_offer d j))"
  using assms(1)
proof (cases rule: accept_offer_cases)
  case (1 n off pol au)
  have "offer_inv d'" using assms by (rule accept_offer_inv)
  moreover have "sp_auto_accept_threshold pol \<le> offer_net_income off"
    using 1(12,13) by (rule authorize_stored_net)
  ultimately show ?thesis using 1 by simp
qed

text \<open>A negotiation on which the properties are exercised.\<close>

definition sample_terms :: "cents \<Rightarrow> offer_terms" where
  "sample_terms price = \<lparr>ot_buyer_payment = price, ot_shipping_paid_by = BuyerPays,
     ot_shipping_cost = None, ot_seller_borne_discount = Some 0\<rparr>"

lemma sample_terms_sel [simp]:
  "ot_buyer_payment (sample_terms p) = p" "ot_shipping_paid_by (sample_terms p) = BuyerPays"
  "ot_shipping_cost (sample_terms p) = None" "ot_seller_borne_discount (sample_terms p) = Some 0"
  by (simp_all add: sample_terms_def)

definition sample_policy :: policy where
  "sample_policy = \<lparr>sp_product_id = 1, sp_minimum_net_price = 10000,
     sp_auto_accept_threshold = 15000, sp_style = BALANCED, sp_max_rounds = 5, sp_version = 1\<rparr>"

lemma sample_policy_sel [simp]:
  "sp_minimum_net_price sample_policy = 10000" "sp_auto_accept_threshold sample_policy = 15000"
  "sp_max_rounds sample_policy = 5" "sp_version sample_policy = 1"
  by (simp_all add: sample_policy_def)

definition sample_db :: db where
  "sample_db = empty_db\<lparr>
     d_users := [(''seller'', \<lparr>u_id = ''seller'', u_display_name = ''S'', u_active = True\<rparr>),
                 (''buyer'', \<lparr>u_id = ''buyer'', u_display_name = ''B'', u_active = True\<rparr>)],
     d_products := [(1, \<lparr>p_id = 1, p_seller_id = ''seller'', p_title = ''bike'', p_product_version = 1,
        p_description = ''used'', p_listed_price = 20000, p_status = AVAILABLE\<rparr>)],
     d_policies := [(1, sample_policy)],
     d_next_product := 2\<rparr>"

definition after :: "('d \<Rightarrow> 'e + ('a \<times> 'd)) \<Rightarrow> 'd \<Rightarrow> 'd" where
  "after body d = snd (commit (body d) d)"

definition sample_session :: db where
  "sample_session = after (create_or_get_active_session 1 ''buyer'' None) sample_db"

lemma sample_session_eq:
  "sample_session = sample_db\<lparr>d_sessions := [(1, \<lparr>ns_id = 1, ns_product_id = 1, ns_buyer_id = ''buyer'',
      ns_status = ACTIVE, ns_current_offer_id = None, ns_confirmed_offer_id = None,
      ns_confirmed_at = None, ns_confirmation_request_id = None, ns_confirmation_source = None,
      ns_round_count = 0, ns_version = 1, ns_graph_version = None, ns_archived_at = None,
      ns_lifecycle_checked_at = None, ns_next_input_seq = 1, ns_last_resolved_input_seq = 0,
      ns_next_public_seq = 1\<rparr>)], d_next_session := 2\<rparr>"
  by (simp add: sample_session_def after_def sample_db_def empty_db_def create_or_get_active_session_def
      policy_for_def newest_def trows_def tput_def)

lemma sample_session_inv: "offer_inv sample_session"
  by (simp add: sample_session_eq sample_db_def empty_db_def offer_inv_defs)

definition sample_offer :: "cents \<Rightarrow> offer_status \<Rightarrow> offer" where
  "sample_offer price st = \<lparr>of_id = 1, of_session_id = 1, of_proposer = BUYER, of_price = price,
     of_shipping_paid_by = BuyerPays, of_shipping_cost = None, of_seller_borne_discount = 0,
     of_terms = [], of_status = st, of_expires_at = None, of_invalid_reason = None,
     of_invalidated_at = None, of_superseded_by = None\<rparr>"

definition sample_offered :: "cents \<Rightarrow> db" where
  \<comment> \<open>the negotiation after a first offer of the buyer\<close>
  "sample_offered price = sample_session\<lparr>d_offers := [(1, sample_offer price PROPOSED)],
     d_next_offer := 2, d_sessions := tmod 1 (\<lambda>s. s\<lparr>ns_current_offer_id := Some 1,
                ns_round_count := 1, ns_version := 2\<rparr>) (d_sessions sample_session)\<rparr>"

definition sample_authorization :: "cents \<Rightarrow> authorization" where
  "sample_authorization price =
     (let z = zone_of price \<lparr>pp_minimum_net_price = 10000, pp_auto_accept_threshold = 15000\<rparr> in
      \<lparr>au_zone = z, au_conditions_valid = True, au_can_accept = (z = AUTO_ACCEPT),
       au_can_counter = (z = AUTO_ACCEPT), au_can_request_approval = (z = APPROVAL_REQUIRED),
       au_prohibited = (z = PROHIBITED), au_reason_code = zone_reason z\<rparr>)"

lemma sample_authorized:
  "authorize_terms (sample_terms price) sample_policy [] = Inr (sample_authorization price)"
  by (simp add: authorize_terms_def stored_policy_def mk_policy_def authorize_offer_def
      evaluate_offer_def calculate_net_income_def additional_terms_are_authorized_def MAX_MONEY_def
      can_accept_automatically_def can_request_approval_def is_acceptance_prohibited_def
      sample_authorization_def Let_def)

lemma sample_record:
  "record_buyer_offer 0 1 ''buyer'' (sample_terms price) None None sample_session
     = Inr (sample_offer price PROPOSED, sample_offered price)"
  by (simp add: record_buyer_offer_def validated_additional_terms_def validate_expiration_def
      is_expired_def get_negotiation_def require_legacy_runtime_def require_negotiable_def policy_for_def
      sample_session_eq sample_db_def empty_db_def sample_authorized new_offer_def add_offer_def
      supersede_current_offer_def sample_offered_def tmod_def tput_def sample_offer_def)

lemma sample_offered_inv: "offer_inv (sample_offered price)"
  by (rule record_buyer_offer_inv [OF sample_record sample_session_inv])

theorem record_buyer_offer_sound_witness:
  "offer_inv (sample_offered 16000) \<and> open_offers_are (sample_offered 16000) 1 {1}"
  using record_buyer_offer_sound [OF sample_record sample_session_inv] by (simp add: sample_offer_def)

lemma sample_authorized_stored:
  assumes "0 \<le> price" and "price \<le> MAX_MONEY"
  shows "authorize_stored_offer (sample_offer price st) sample_policy = Inr (sample_authorization price)"
proof -
  have "terms_from_offer (sample_offer price st) = Inr (sample_terms price)"
    using assms
    by (simp add: terms_from_offer_def mk_terms_def sample_offer_def sample_terms_def validate_optional_def
        MAX_MONEY_def)
  moreover have "of_terms (sample_offer price st) = []" by (simp add: sample_offer_def)
  ultimately show ?thesis by (simp add: authorize_stored_offer_def sample_authorized)
qed

lemma sample_offer_sel [simp]:
  "of_id (sample_offer p st) = 1" "of_session_id (sample_offer p st) = 1"
  "of_proposer (sample_offer p st) = BUYER" "of_status (sample_offer p st) = st"
  "of_expires_at (sample_offer p st) = None" "(sample_offer p st)\<lparr>of_status := st'\<rparr> = sample_offer p st'"
  by (simp_all add: sample_offer_def)

lemma sample_accept:
  "\<exists>d'. accept_offer 0 1 ''buyer'' 1 (sample_offered 16000) = Inr (sample_offer 16000 ACCEPTED, d')"
proof -
  have "au_can_accept (sample_authorization 16000)"
    by (simp add: sample_authorization_def zone_of_def)
  moreover have "authorize_stored_offer (sample_offer 16000 PROPOSED) sample_policy
      = Inr (sample_authorization 16000)"
    by (rule sample_authorized_stored) (simp_all add: MAX_MONEY_def)
  ultimately show ?thesis
    by (simp add: accept_offer_def sample_offered_def is_expired_def get_negotiation_def
        require_legacy_runtime_def require_negotiable_def policy_for_def sample_session_eq sample_db_def
        empty_db_def)
qed

theorem accept_offer_sound_witness:
  "\<exists>d'. offer_inv d' \<and> get_offer d' 1 = Some (sample_offer 16000 ACCEPTED)"
proof -
  obtain d' where "accept_offer 0 1 ''buyer'' 1 (sample_offered 16000)
      = Inr (sample_offer 16000 ACCEPTED, d')"
    using sample_accept by blast
  from accept_offer_sound [OF this sample_offered_inv] show ?thesis by auto
qed

end
