(* ===== verification/Approval.thy ===== *)
theory Approval
  imports Negotiation
begin

text \<open>
  \<open>backend/app/services/approval_service.py\<close>: the seller's approval of an offer in the earlier
  runtime. An approval is PENDING until it is reviewed, cancelled or expires; while it is pending its
  negotiation is WAITING_APPROVAL.

  A body is a transaction on the database, and its public method \<open>commit\<close> of it. The readings of
  the clock are arguments: \<open>now0\<close> the reading before the transaction starts, \<open>now\<close> the first one
  inside, further ones where the code reads again. The text that is shown to the seller is left out of the
  joined snapshot, which is modelled as the tuple of the rows it is made of.
\<close>

section \<open>Helpers\<close>

definition as_database_datetime :: "time \<Rightarrow> time" where
  \<comment> \<open>\<open>replace(microsecond=0)\<close>\<close>
  "as_database_datetime t = t - t mod 1000000"

definition is_due :: "time \<Rightarrow> time \<Rightarrow> bool" where
  "is_due t now \<longleftrightarrow> as_database_datetime t \<le> now"

definition is_alnum :: "char \<Rightarrow> bool" where
  "is_alnum c \<longleftrightarrow> (let n = of_char c :: nat in
     48 \<le> n \<and> n \<le> 57 \<or> 65 \<le> n \<and> n \<le> 90 \<or> 97 \<le> n \<and> n \<le> 122)"

fun request_id_pattern :: "string \<Rightarrow> bool" where
  "request_id_pattern [] = False"
| "request_id_pattern (c # cs) =
     (is_alnum c \<and> list_all (\<lambda>x. is_alnum x \<or> x \<in> set ''._:-'') cs)"

definition validated_reason :: "string \<Rightarrow> exn + string" where
  "validated_reason reason =
     (let stored = strip reason in
      if 1 \<le> length stored \<and> length stored \<le> 2000 then Inr stored
      else Inl (ServiceExn ApprovalConflict))"

definition validated_request_id :: "string \<Rightarrow> exn + string" where
  "validated_request_id rid =
     (let stored = strip rid in
      if 1 \<le> length stored \<and> length stored \<le> 64 \<and> request_id_pattern stored then Inr stored
      else Inl (ServiceExn ApprovalConflict))"

definition validated_comment :: "string option \<Rightarrow> exn + string option" where
  "validated_comment c =
     (case c of None \<Rightarrow> Inr None
      | Some s \<Rightarrow>
          let stored = strip s in
          if 2000 < length stored then Inl (ServiceExn ApprovalConflict)
          else Inr (if stored = [] then None else Some stored))"

definition get_buyer_negotiation :: "db \<Rightarrow> int \<Rightarrow> string \<Rightarrow> bool \<Rightarrow> exn + session" where
  "get_buyer_negotiation d sid buyer for_update =
     (case get_session d sid of
        None \<Rightarrow> Inl (ServiceExn NegotiationNotFound)
      | Some n \<Rightarrow>
          if ns_buyer_id n \<noteq> buyer then Inl (ServiceExn NegotiationNotFound)
          else if for_update then ebind (require_legacy_runtime n) (\<lambda>_. Inr n)
          else Inr n)"

definition get_pending :: "db \<Rightarrow> int \<Rightarrow> approval option" where
  "get_pending d sid =
     find (\<lambda>a. ap_session_id a = sid \<and> ap_status a = AP_PENDING) (trows (d_approvals d))"

definition approval_of_session :: "db \<Rightarrow> int \<Rightarrow> int \<Rightarrow> exn + approval" where
  \<comment> \<open>\<open>_get_approval\<close>\<close>
  "approval_of_session d aid sid =
     (case get_approval d aid of
        None \<Rightarrow> Inl (ServiceExn ApprovalNotFound)
      | Some a \<Rightarrow> if ap_session_id a \<noteq> sid then Inl (ServiceExn ApprovalNotFound) else Inr a)"

definition validate_offer :: "offer \<Rightarrow> time \<Rightarrow> time \<Rightarrow> exn + unit" where
  "validate_offer off approval_expires now =
     (if of_proposer off \<noteq> BUYER then Inl (ServiceExn ApprovalNotAuthorized)
      else if of_status off \<noteq> PROPOSED then Inl (ServiceExn ApprovalConflict)
      else case of_expires_at off of
             None \<Rightarrow> Inr ()
           | Some e \<Rightarrow>
               if is_due (as_database_datetime e) now then Inl (ServiceExn ApprovalConflict)
               else if as_database_datetime e < approval_expires then Inl (ServiceExn ApprovalConflict)
               else Inr ())"

definition restore_active :: "int \<Rightarrow> db \<Rightarrow> db" where
  "restore_active sid =
     mod_session sid (\<lambda>n. if ns_status n = WAITING_APPROVAL
                          then n\<lparr>ns_status := ACTIVE, ns_version := ns_version n + 1\<rparr> else n)"

definition expire_approval :: "int \<Rightarrow> int \<Rightarrow> db \<Rightarrow> db" where
  \<comment> \<open>\<open>_expire\<close>\<close>
  "expire_approval sid aid d =
     restore_active sid (mod_approval aid (\<lambda>a. a\<lparr>ap_status := AP_EXPIRED\<rparr>) d)"

definition get_owned_context ::
    "db \<Rightarrow> string \<Rightarrow> int \<Rightarrow> bool \<Rightarrow> exn + session \<times> approval \<times> product \<times> offer" where
  "get_owned_context d seller aid for_update =
     (case get_approval d aid of
        None \<Rightarrow> Inl (ServiceExn ApprovalNotFound)
      | Some a \<Rightarrow>
      case get_session d (ap_session_id a) of
        None \<Rightarrow> Inl (ServiceExn ApprovalNotFound)
      | Some n \<Rightarrow>
      case get_product d (ns_product_id n) of
        None \<Rightarrow> Inl (ServiceExn ApprovalNotFound)
      | Some p \<Rightarrow>
      if p_seller_id p \<noteq> seller then Inl (ServiceExn ApprovalNotFound)
      else ebind (if for_update then require_legacy_runtime n else Inr ()) (\<lambda>_.
      case get_offer d (ap_offer_id a) of
        None \<Rightarrow> Inl (ServiceExn ApprovalNotFound)
      | Some off \<Rightarrow>
          if of_session_id off \<noteq> ns_id n then Inl (ServiceExn ApprovalNotFound)
          else Inr (n, a, p, off)))"

section \<open>Operations\<close>

definition create_request ::
    "time \<Rightarrow> time \<Rightarrow> int \<Rightarrow> string \<Rightarrow> int \<Rightarrow> int \<Rightarrow> string \<Rightarrow> time \<Rightarrow> db \<Rightarrow> exn + approval \<times> db" where
  "create_request now0 now sid buyer oid expected_version reason expires d =
     ebind (validated_reason reason) (\<lambda>stored_reason.
     let stored_expiration = as_database_datetime expires in
     if is_due stored_expiration now0 then Inl (ServiceExn ApprovalConflict)
     else
     ebind (get_buyer_negotiation d sid buyer True) (\<lambda>n.
     case get_pending d sid of
       Some pending \<Rightarrow>
         if is_due (ap_expires_at pending) now then Inl (ServiceExn ApprovalConflict)
         else if ns_status n = WAITING_APPROVAL \<and> ap_offer_id pending = oid
                 \<and> ap_policy_version pending = expected_version
         then Inr (pending, d)
         else Inl (ServiceExn ApprovalConflict)
     | None \<Rightarrow>
     if ns_status n \<noteq> ACTIVE then Inl (ServiceExn InvalidNegotiationState)
     else case get_product d (ns_product_id n) of
       None \<Rightarrow> Inl (ServiceExn ProductUnavailable)
     | Some p \<Rightarrow>
     if p_status p \<noteq> AVAILABLE then Inl (ServiceExn ProductUnavailable)
     else if ns_current_offer_id n \<noteq> Some oid then Inl (ServiceExn ApprovalConflict)
     else case get_offer d oid of
       None \<Rightarrow> Inl (ServiceExn ApprovalNotFound)
     | Some off \<Rightarrow>
     if of_session_id off \<noteq> ns_id n then Inl (ServiceExn ApprovalNotFound)
     else
     ebind (validate_offer off stored_expiration now) (\<lambda>_.
     ebind (policy_for d (ns_product_id n)) (\<lambda>pol.
     if sp_version pol \<noteq> expected_version then Inl (ServiceExn ApprovalConflict)
     else
     ebind (authorize_stored_offer off pol) (\<lambda>au.
     if \<not> au_can_request_approval au then Inl (ServiceExn ApprovalNotAuthorized)
     else
     let k = d_next_approval d;
         a = \<lparr>ap_id = k, ap_session_id = ns_id n, ap_offer_id = of_id off,
              ap_policy_version = sp_version pol, ap_status = AP_PENDING, ap_reason = stored_reason,
              ap_seller_comment = None, ap_effect_status = None, ap_effect_revision = 0,
              ap_invalid_reason = None, ap_invalidated_at = None, ap_superseded_by = None,
              ap_decision_hash = None, ap_notification_status = None,
              ap_expires_at = stored_expiration, ap_reviewed_at = None, ap_followup_status = None,
              ap_followup_request_id = None\<rparr>;
         d1 = d\<lparr>d_approvals := tput k a (d_approvals d), d_next_approval := k + 1\<rparr>;
         d2 = mod_session sid (\<lambda>s. s\<lparr>ns_status := WAITING_APPROVAL,
                                     ns_version := ns_version s + 1\<rparr>) d1
     in if approvals_unique d2 then Inr (a, d2) else Inl (ServiceExn ApprovalConflict))))))"

definition get_request :: "int \<Rightarrow> string \<Rightarrow> int \<Rightarrow> db \<Rightarrow> exn + approval" where
  "get_request sid buyer aid d =
     ebind (get_buyer_negotiation d sid buyer False) (\<lambda>_. approval_of_session d aid sid)"

definition list_for_session :: "int \<Rightarrow> string \<Rightarrow> db \<Rightarrow> exn + approval list" where
  "list_for_session sid buyer d =
     ebind (get_buyer_negotiation d sid buyer False) (\<lambda>_.
     Inr (filter (\<lambda>a. ap_session_id a = sid) (trows (d_approvals d))))"

definition cancel_request :: "time \<Rightarrow> int \<Rightarrow> string \<Rightarrow> int \<Rightarrow> db \<Rightarrow> exn + approval \<times> db" where
  "cancel_request now sid buyer aid d =
     ebind (get_buyer_negotiation d sid buyer True) (\<lambda>n.
     ebind (approval_of_session d aid sid) (\<lambda>a.
     if ap_status a = AP_CANCELLED then Inr (a, d)
     else if ap_status a \<noteq> AP_PENDING then Inl (ServiceExn ApprovalConflict)
     else if is_due (ap_expires_at a) now
     then Inr (a\<lparr>ap_status := AP_EXPIRED\<rparr>, expire_approval sid aid d)
     else Inr (a\<lparr>ap_status := AP_CANCELLED\<rparr>,
               restore_active sid (mod_approval aid (\<lambda>x. x\<lparr>ap_status := AP_CANCELLED\<rparr>) d))))"

definition cancel_pending_for_new_offer :: "time \<Rightarrow> int \<Rightarrow> string \<Rightarrow> db \<Rightarrow> exn + approval option \<times> db" where
  "cancel_pending_for_new_offer now sid buyer d =
     ebind (get_buyer_negotiation d sid buyer True) (\<lambda>n.
     case get_pending d sid of
       None \<Rightarrow>
         if ns_status n = WAITING_APPROVAL then Inl (ServiceExn ApprovalConflict) else Inr (None, d)
     | Some a \<Rightarrow>
         if is_due (ap_expires_at a) now
         then Inr (Some (a\<lparr>ap_status := AP_EXPIRED\<rparr>), expire_approval sid (ap_id a) d)
         else Inr (Some (a\<lparr>ap_status := AP_CANCELLED\<rparr>),
                restore_active sid (mod_approval (ap_id a) (\<lambda>x. x\<lparr>ap_status := AP_CANCELLED\<rparr>) d)))"

definition expire_request :: "time \<Rightarrow> int \<Rightarrow> db \<Rightarrow> exn + approval \<times> db" where
  \<comment> \<open>\<open>now\<close> is the \<open>comparison_time\<close>, already cut to whole seconds\<close>
  "expire_request now aid d =
     (case get_approval d aid of
        None \<Rightarrow> Inl (ServiceExn ApprovalNotFound)
      | Some a \<Rightarrow>
      case get_session d (ap_session_id a) of
        None \<Rightarrow> Inl (ServiceExn ApprovalNotFound)
      | Some n \<Rightarrow>
      ebind (require_legacy_runtime n) (\<lambda>_.
      if ap_status a = AP_EXPIRED then Inr (a, d)
      else if ap_status a \<noteq> AP_PENDING then Inl (ServiceExn ApprovalConflict)
      else if now < ap_expires_at a then Inl (ServiceExn ApprovalNotExpired)
      else Inr (a\<lparr>ap_status := AP_EXPIRED\<rparr>, expire_approval (ap_session_id a) aid d)))"

definition due_pending :: "time \<Rightarrow> db \<Rightarrow> approval list" where
  \<comment> \<open>the selection of \<open>expire_due_requests\<close>\<close>
  "due_pending now d =
     filter (\<lambda>a. ap_status a = AP_PENDING \<and> ap_expires_at a \<le> now
                 \<and> (case get_session d (ap_session_id a) of
                      None \<Rightarrow> False | Some n \<Rightarrow> ns_graph_version n = None))
       (trows (d_approvals d))"

fun expire_each :: "time \<Rightarrow> int list \<Rightarrow> db \<Rightarrow> (exn + approval list) \<times> db" where
  "expire_each now [] d = (Inr [], d)"
| "expire_each now (k # ks) d =
     (case commit (expire_request now k d) d of
        (Inr a, d1) \<Rightarrow>
          (case expire_each now ks d1 of
             (Inr as, d2) \<Rightarrow> (Inr (a # as), d2)
           | (Inl e, d2) \<Rightarrow> (Inl e, d2))
      | (Inl e, d1) \<Rightarrow>
          if e = ServiceExn ApprovalConflict \<or> e = ServiceExn ApprovalNotFound
          then expire_each now ks d1 else (Inl e, d1))"

definition expire_due_requests :: "time \<Rightarrow> nat \<Rightarrow> db \<Rightarrow> (exn + approval list) \<times> db" where
  "expire_due_requests now limit d =
     (if \<not> (1 \<le> limit \<and> limit \<le> 1000) then (Inl (ValueExn ''limit''), d)
      else let t = as_database_datetime now in
           expire_each t (map ap_id (take limit (due_pending t d))) d)"

fun expire_owned :: "time \<Rightarrow> (int \<times> int) list \<Rightarrow> db \<Rightarrow> db" where
  \<comment> \<open>the loop of \<open>_expire_due_owned\<close>\<close>
  "expire_owned now [] d = d"
| "expire_owned now ((aid, sid) # items) d =
     (case (get_session d sid, get_approval d aid) of
        (Some n, Some a) \<Rightarrow>
          if ap_status a \<noteq> AP_PENDING \<or> \<not> is_due (ap_expires_at a) now then expire_owned now items d
          else expire_owned now items (expire_approval sid aid d)
      | _ \<Rightarrow> expire_owned now items d)"

definition owned_by :: "string \<Rightarrow> db \<Rightarrow> approval \<Rightarrow> bool" where
  "owned_by seller d a =
     (case get_session d (ap_session_id a) of
        None \<Rightarrow> False
      | Some n \<Rightarrow> (case get_product d (ns_product_id n) of
                     None \<Rightarrow> False | Some p \<Rightarrow> p_seller_id p = seller))"

definition expire_due_owned :: "time \<Rightarrow> time \<Rightarrow> string \<Rightarrow> db \<Rightarrow> db" where
  "expire_due_owned now now' seller d =
     expire_owned now' (map (\<lambda>a. (ap_id a, ap_session_id a)) (filter (owned_by seller d) (due_pending now d))) d"

type_synonym seller_approval_snapshot = "session \<times> approval \<times> product \<times> offer"

definition seller_row :: "db \<Rightarrow> approval \<Rightarrow> seller_approval_snapshot option" where
  "seller_row d a =
     (case get_session d (ap_session_id a) of
        None \<Rightarrow> None
      | Some n \<Rightarrow>
      case get_product d (ns_product_id n) of
        None \<Rightarrow> None
      | Some p \<Rightarrow>
      case get_offer d (ap_offer_id a) of
        None \<Rightarrow> None
      | Some off \<Rightarrow> Some (n, a, p, off))"

definition list_for_seller ::
    "time \<Rightarrow> time \<Rightarrow> string \<Rightarrow> approval_status option \<Rightarrow> nat \<Rightarrow> db \<Rightarrow> exn + seller_approval_snapshot list \<times> db" where
  "list_for_seller now now' seller status limit d =
     (if \<not> (1 \<le> limit \<and> limit \<le> 500) then Inl (ValueExn ''limit'')
      else
      let d1 = expire_due_owned now now' seller d;
          wanted = filter (\<lambda>a. owned_by seller d1 a \<and> (status = None \<or> status = Some (ap_status a)))
                     (rev (trows (d_approvals d1)))
      in Inr (take limit (List.map_filter (seller_row d1) wanted), d1))"

definition get_for_seller :: "time \<Rightarrow> time \<Rightarrow> string \<Rightarrow> int \<Rightarrow> db \<Rightarrow> (exn + seller_approval_snapshot) \<times> db" where
  \<comment> \<open>\<open>now\<close> is read by \<open>_is_due\<close>, \<open>now'\<close> by \<open>expire_request\<close>\<close>
  "get_for_seller now now' seller aid d =
     (case get_owned_context d seller aid False of
        Inl e \<Rightarrow> (Inl e, d)
      | Inr (n, a, p, off) \<Rightarrow>
          if \<not> (ns_graph_version n = None \<and> ap_status a = AP_PENDING \<and> is_due (ap_expires_at a) now)
          then (Inr (n, a, p, off), d)
          else
          (case commit (expire_request (as_database_datetime now') aid d) d of
             (Inl e, d1) \<Rightarrow>
               if e = ServiceExn ApprovalConflict \<or> e = ServiceExn ApprovalNotExpired
               then (get_owned_context d1 seller aid False, d1)
               else (Inl e, d1)
           | (Inr x, d1) \<Rightarrow> (get_owned_context d1 seller aid False, d1)))"

definition review_conflict ::
    "time \<Rightarrow> time \<Rightarrow> session \<Rightarrow> approval \<Rightarrow> product \<Rightarrow> offer \<Rightarrow> policy option \<Rightarrow> exn + string option" where
  "review_conflict now now' n a p off pol =
     (if is_due (ap_expires_at a) now then Inr (Some ''approval expired'')
      else if ns_status n \<noteq> WAITING_APPROVAL then Inr (Some ''not waiting'')
      else if p_status p \<noteq> AVAILABLE then Inr (Some ''product unavailable'')
      else if ns_current_offer_id n \<noteq> Some (of_id off) then Inr (Some ''offer superseded'')
      else if of_proposer off \<noteq> BUYER then Inr (Some ''not a buyer offer'')
      else if of_status off \<noteq> PROPOSED then Inr (Some ''offer handled'')
      else if (case of_expires_at off of None \<Rightarrow> False | Some e \<Rightarrow> is_due e now') then Inr (Some ''offer expired'')
      else case pol of
        None \<Rightarrow> Inr (Some ''policy changed'')
      | Some pl \<Rightarrow>
      if sp_version pl \<noteq> ap_policy_version a then Inr (Some ''policy changed'')
      else ebind (authorize_stored_offer off pl) (\<lambda>au.
        Inr (if au_can_request_approval au then None else Some ''outside approval zone'')))"

definition store_review ::
    "time \<Rightarrow> approval_status \<Rightarrow> string option \<Rightarrow> string \<Rightarrow> session \<Rightarrow> int \<Rightarrow> offer \<Rightarrow> db \<Rightarrow> db" where
  \<comment> \<open>the branch of \<open>_review_request\<close> without a conflict\<close>
  "store_review now target stored_comment rid n aid off d =
     (let d1 = mod_approval aid (\<lambda>x. x\<lparr>ap_status := target, ap_seller_comment := stored_comment,
                 ap_reviewed_at := Some now, ap_followup_status := Some FU_PENDING,
                 ap_followup_request_id := Some rid\<rparr>) d
      in if target = AP_REJECTED
         then restore_active (ns_id n) (mod_offer (of_id off) (\<lambda>x. x\<lparr>of_status := REJECTED\<rparr>) d1)
         else mod_session (ns_id n) (\<lambda>s. s\<lparr>ns_version := ns_version s + 1\<rparr>) d1)"

definition review_body ::
    "time \<times> time \<times> time \<Rightarrow> string \<Rightarrow> int \<Rightarrow> string \<Rightarrow> string option \<Rightarrow> approval_status \<Rightarrow>
     db \<Rightarrow> exn + (string option \<times> seller_approval_snapshot) \<times> db" where
  \<comment> \<open>the transaction of \<open>_review_request\<close>, with its \<open>conflict_message\<close>\<close>
  "review_body clock seller aid rid stored_comment target d =
     (let (now, now', now'') = clock in
      ebind (get_owned_context d seller aid True) (\<lambda>ctx.
      let (n, a, p, off) = ctx in
      if ap_status a = target \<and> ap_followup_request_id a = Some rid then Inr ((None, ctx), d)
      else if ap_status a \<noteq> AP_PENDING then Inl (ServiceExn ApprovalConflict)
      else
      ebind (review_conflict now now' n a p off (get_policy d (p_id p))) (\<lambda>conflict.
      ebind (case conflict of
          Some m \<Rightarrow> Inr (restore_active (ns_id n) (mod_approval aid (\<lambda>x. x\<lparr>ap_status := AP_EXPIRED\<rparr>) d))
        | None \<Rightarrow>
            let d1 = store_review now'' target stored_comment rid n aid off d
            in if approvals_unique d1 then Inr d1 else Inl (ServiceExn ApprovalConflict)) (\<lambda>d'.
      ebind (get_owned_context d' seller aid False) (\<lambda>ctx'. Inr ((conflict, ctx'), d'))))))"

definition review_request ::
    "time \<times> time \<times> time \<Rightarrow> string \<Rightarrow> int \<Rightarrow> string \<Rightarrow> string option \<Rightarrow> approval_status \<Rightarrow>
     db \<Rightarrow> (exn + seller_approval_snapshot) \<times> db" where
  \<comment> \<open>\<open>_review_request\<close>: the conflict is raised after the transaction has been committed\<close>
  "review_request clock seller aid rid comment target d =
     (case ebind (validated_request_id rid) (\<lambda>r. ebind (validated_comment comment) (\<lambda>c. Inr (r, c))) of
        Inl e \<Rightarrow> (Inl e, d)
      | Inr (stored_rid, stored_comment) \<Rightarrow>
          (case commit (review_body clock seller aid stored_rid stored_comment target d) d of
             (Inl e, d') \<Rightarrow> (Inl e, d')
           | (Inr (Some m, ctx), d') \<Rightarrow> (Inl (ServiceExn ApprovalConflict), d')
           | (Inr (None, ctx), d') \<Rightarrow> (Inr ctx, d')))"

definition approve_request where
  "approve_request clock seller aid rid comment = review_request clock seller aid rid comment AP_APPROVED"

definition reject_request where
  "reject_request clock seller aid rid comment = review_request clock seller aid rid comment AP_REJECTED"

section \<open>Inversion of the operations\<close>

lemma get_buyer_negotiation_Inr [result_simps]:
  "get_buyer_negotiation d sid buyer fu = Inr n \<longleftrightarrow>
     get_session d sid = Some n \<and> ns_buyer_id n = buyer \<and> (fu \<longrightarrow> ns_graph_version n = None)"
  by (auto simp: get_buyer_negotiation_def require_legacy_runtime_def result_simps split: option.splits)

lemma require_legacy_Inr [result_simps]:
  "require_legacy_runtime n = Inr u \<longleftrightarrow> ns_graph_version n = None"
  by (auto simp: require_legacy_runtime_def)

lemma approval_of_session_Inr [result_simps]:
  "approval_of_session d aid sid = Inr a \<longleftrightarrow> get_approval d aid = Some a \<and> ap_session_id a = sid"
  by (auto simp: approval_of_session_def split: option.splits if_splits)

lemma get_owned_context_Inr [result_simps]:
  "get_owned_context d seller aid fu = Inr (n, a, p, off) \<longleftrightarrow>
     get_approval d aid = Some a \<and> get_session d (ap_session_id a) = Some n
     \<and> get_product d (ns_product_id n) = Some p \<and> p_seller_id p = seller
     \<and> (fu \<longrightarrow> ns_graph_version n = None)
     \<and> get_offer d (ap_offer_id a) = Some off \<and> of_session_id off = ns_id n"
  by (auto simp: get_owned_context_def result_simps split: option.splits if_splits)

lemma validate_offer_Inr [result_simps]:
  "validate_offer off e now = Inr u \<longleftrightarrow> of_proposer off = BUYER \<and> of_status off = PROPOSED \<and>
     (\<forall>x. of_expires_at off = Some x \<longrightarrow> \<not> is_due (as_database_datetime x) now \<and> e \<le> as_database_datetime x)"
  by (auto simp: validate_offer_def split: option.splits)

lemma create_request_cases:
  assumes step: "create_request now0 now sid buyer oid v reason expires d = Inr (a, d')"
  obtains (again) n where "get_session d sid = Some n" and "get_pending d sid = Some a" and "d' = d"
      and "ap_offer_id a = oid" and "ap_policy_version a = v" and "\<not> is_due (ap_expires_at a) now"
  | (created) n p off pol au where "get_session d sid = Some n" and "ns_graph_version n = None"
      and "get_pending d sid = None" and "ns_status n = ACTIVE"
      and "get_product d (ns_product_id n) = Some p" and "p_status p = AVAILABLE"
      and "ns_current_offer_id n = Some oid" and "get_offer d oid = Some off"
      and "of_session_id off = ns_id n" and "of_proposer off = BUYER" and "of_status off = PROPOSED"
      and "get_policy d (ns_product_id n) = Some pol" and "sp_version pol = v"
      and "authorize_stored_offer off pol = Inr au" and "au_can_request_approval au"
      and "ap_id a = d_next_approval d" and "ap_session_id a = ns_id n" and "ap_offer_id a = of_id off"
      and "ap_policy_version a = v" and "ap_status a = AP_PENDING"
      and "ap_expires_at a = as_database_datetime expires" and "\<not> is_due (ap_expires_at a) now0"
      and "approvals_unique d'"
      and "d' = mod_session sid (\<lambda>s. s\<lparr>ns_status := WAITING_APPROVAL, ns_version := ns_version s + 1\<rparr>)
             (d\<lparr>d_approvals := tput (d_next_approval d) a (d_approvals d),
                d_next_approval := d_next_approval d + 1\<rparr>)"
proof -
  from step show thesis
  unfolding create_request_def
  apply (elim result_elims option_InrE)
   apply (rule created; simp add: result_simps split: if_splits)
  apply (rule again; simp add: result_simps split: if_splits)
  done
qed

lemma cancel_request_cases:
  assumes step: "cancel_request now sid buyer aid d = Inr (a', d')"
  obtains (same) "d' = d"
  | (closed) n a st where "get_session d sid = Some n" and "ns_graph_version n = None"
      and "get_approval d aid = Some a" and "ap_session_id a = sid" and "ap_status a = AP_PENDING"
      and "st = (if is_due (ap_expires_at a) now then AP_EXPIRED else AP_CANCELLED)"
      and "a' = a\<lparr>ap_status := st\<rparr>"
      and "d' = restore_active sid (mod_approval aid (\<lambda>x. x\<lparr>ap_status := st\<rparr>) d)"
proof -
  from step show thesis
  unfolding cancel_request_def expire_approval_def
  apply (elim result_elims if_InrE)
    apply (rule same; simp)
  subgoal for n a by (rule closed [of n a AP_EXPIRED]) (simp_all add: result_simps)
  subgoal for n a by (rule closed [of n a AP_CANCELLED]) (simp_all add: result_simps)
  done
qed

lemma cancel_pending_cases:
  assumes step: "cancel_pending_for_new_offer now sid buyer d = Inr (r, d')"
  obtains (same) "d' = d" and "r = None"
  | (closed) n a st where "get_session d sid = Some n" and "ns_graph_version n = None"
      and "get_pending d sid = Some a" and "st \<noteq> AP_PENDING"
      and "d' = restore_active sid (mod_approval (ap_id a) (\<lambda>x. x\<lparr>ap_status := st\<rparr>) d)"
proof -
  from step show thesis
  unfolding cancel_pending_for_new_offer_def expire_approval_def
  apply (elim result_elims option_InrE if_InrE)
    apply (rule same; simp)
  subgoal for n a by (rule closed [of n a AP_EXPIRED]) (simp_all add: result_simps)
  subgoal for n a by (rule closed [of n a AP_CANCELLED]) (simp_all add: result_simps)
  done
qed

lemma expire_request_cases:
  assumes step: "expire_request now aid d = Inr (a', d')"
  obtains (same) "d' = d" and "get_approval d aid = Some a'" and "ap_status a' = AP_EXPIRED"
  | (closed) n a where "get_session d (ap_session_id a) = Some n" and "ns_graph_version n = None"
      and "get_approval d aid = Some a" and "ap_status a = AP_PENDING" and "ap_expires_at a \<le> now"
      and "a' = a\<lparr>ap_status := AP_EXPIRED\<rparr>"
      and "d' = restore_active (ap_session_id a) (mod_approval aid (\<lambda>x. x\<lparr>ap_status := AP_EXPIRED\<rparr>) d)"
proof -
  from step show thesis
  unfolding expire_request_def expire_approval_def
    apply (elim result_elims if_InrE)
    subgoal by (rule same) simp_all
    subgoal for a n by (rule closed [of a n]) (simp_all add: result_simps)
    done
qed

lemma review_conflict_None:
  assumes step: "review_conflict now now' n a p off pol = Inr None"
  obtains pl au where "\<not> is_due (ap_expires_at a) now" and "ns_status n = WAITING_APPROVAL"
    and "p_status p = AVAILABLE" and "ns_current_offer_id n = Some (of_id off)"
    and "of_proposer off = BUYER" and "of_status off = PROPOSED"
    and "\<And>e. of_expires_at off = Some e \<Longrightarrow> \<not> is_due e now'"
    and "pol = Some pl" and "sp_version pl = ap_policy_version a"
    and "authorize_stored_offer off pl = Inr au" and "au_can_request_approval au"
proof -
  from step show thesis
  unfolding review_conflict_def
    by (auto simp: result_simps intro: that split: if_splits option.splits)
qed

lemma review_body_cases:
  assumes step: "review_body (now, now', now'') seller aid rid c target d = Inr ((conflict, ctx'), d')"
  obtains (again) "d' = d" and "conflict = None" and "get_owned_context d seller aid True = Inr ctx'"
      and "ap_status (fst (snd ctx')) = target" and "ap_followup_request_id (fst (snd ctx')) = Some rid"
  | (expired) n a p off m where "get_owned_context d seller aid True = Inr (n, a, p, off)"
      and "ap_status a = AP_PENDING" and "conflict = Some m"
      and "review_conflict now now' n a p off (get_policy d (p_id p)) = Inr (Some m)"
      and "d' = restore_active (ns_id n) (mod_approval aid (\<lambda>x. x\<lparr>ap_status := AP_EXPIRED\<rparr>) d)"
      and "get_owned_context d' seller aid False = Inr ctx'"
  | (reviewed) n a p off where "get_owned_context d seller aid True = Inr (n, a, p, off)"
      and "ap_status a = AP_PENDING" and "conflict = None"
      and "review_conflict now now' n a p off (get_policy d (p_id p)) = Inr None"
      and "d' = store_review now'' target c rid n aid off d" and "approvals_unique d'"
      and "get_owned_context d' seller aid False = Inr ctx'"
proof -
  let ?upd = "\<lambda>c0 n a p off. case c0 of
          Some m \<Rightarrow> Inr (restore_active (ns_id n) (mod_approval aid (\<lambda>x. x\<lparr>ap_status := AP_EXPIRED\<rparr>) d))
        | None \<Rightarrow>
            let d1 = store_review now'' target c rid n aid off d
            in if approvals_unique d1 then Inr d1 else Inl (ServiceExn ApprovalConflict)"
  obtain n a p off where ctx: "get_owned_context d seller aid True = Inr (n, a, p, off)"
    using step unfolding review_body_def by (auto simp: ebind_eq_Inr)
  show thesis
  proof (cases "ap_status a = target \<and> ap_followup_request_id a = Some rid")
    case True
    with step ctx show ?thesis by (intro again) (auto simp: review_body_def)
  next
    case False
    with step ctx obtain c0 where pending: "ap_status a = AP_PENDING"
      and c0: "review_conflict now now' n a p off (get_policy d (p_id p)) = Inr c0"
      and upd: "?upd c0 n a p off = Inr d'" and c: "conflict = c0"
      and "get_owned_context d' seller aid False = Inr ctx'"
      unfolding review_body_def by (auto simp: ebind_eq_Inr split: if_splits)
    with ctx show ?thesis
      by (cases c0) (auto intro: expired reviewed simp: Let_def split: if_splits)
  qed
qed

section \<open>The approval invariant\<close>

text \<open>
  A pending approval of the earlier runtime belongs to a negotiation that waits for it, whose current
  offer is the buyer's open offer the approval is about; a negotiation has at most one of them.
\<close>

definition awaited :: "db \<Rightarrow> approval \<Rightarrow> bool" where
  "awaited d a \<longleftrightarrow> (\<exists>n. get_session d (ap_session_id a) = Some n \<and>
     (ns_graph_version n = None \<longrightarrow> ns_status n = WAITING_APPROVAL \<and>
        ns_current_offer_id n = Some (ap_offer_id a) \<and>
        (\<exists>off. get_offer d (ap_offer_id a) = Some off \<and> of_session_id off = ap_session_id a \<and>
           of_proposer off = BUYER \<and> of_status off = PROPOSED)))"

definition approvals_stored :: "db \<Rightarrow> bool" where
  "approvals_stored d \<longleftrightarrow> keys_ok (d_approvals d) \<and>
     (\<forall>k a. get_approval d k = Some a \<longrightarrow> ap_id a = k \<and> k < d_next_approval d)"

definition pending_awaited :: "db \<Rightarrow> bool" where
  "pending_awaited d \<longleftrightarrow>
     (\<forall>k a. get_approval d k = Some a \<longrightarrow> ap_status a = AP_PENDING \<longrightarrow> awaited d a)"

definition one_pending :: "db \<Rightarrow> bool" where
  "one_pending d \<longleftrightarrow>
     (\<forall>j k a b. get_approval d j = Some a \<longrightarrow> get_approval d k = Some b \<longrightarrow> ap_status a = AP_PENDING \<longrightarrow>
        ap_status b = AP_PENDING \<longrightarrow> ap_session_id a = ap_session_id b \<longrightarrow> j = k)"

definition approval_inv :: "db \<Rightarrow> bool" where
  "approval_inv d \<longleftrightarrow> approvals_stored d \<and> pending_awaited d \<and> one_pending d"

lemma approval_inv_idD: "approval_inv d \<Longrightarrow> get_approval d k = Some a \<Longrightarrow> ap_id a = k \<and> k < d_next_approval d"
  by (simp add: approval_inv_def approvals_stored_def)

lemma approval_inv_awaitedD:
  "approval_inv d \<Longrightarrow> get_approval d k = Some a \<Longrightarrow> ap_status a = AP_PENDING \<Longrightarrow> awaited d a"
  by (simp add: approval_inv_def pending_awaited_def)

lemma approval_inv_oneD:
  "approval_inv d \<Longrightarrow> get_approval d j = Some a \<Longrightarrow> get_approval d k = Some b \<Longrightarrow> ap_status a = AP_PENDING \<Longrightarrow>
   ap_status b = AP_PENDING \<Longrightarrow> ap_session_id a = ap_session_id b \<Longrightarrow> j = k"
  by (auto simp: approval_inv_def one_pending_def)

lemma get_pending_Some:
  assumes "approval_inv d" and "get_pending d sid = Some a"
  shows "get_approval d (ap_id a) = Some a \<and> ap_session_id a = sid \<and> ap_status a = AP_PENDING"
proof -
  from assms(2) have "a \<in> set (trows (d_approvals d))" and p: "ap_session_id a = sid \<and> ap_status a = AP_PENDING"
    by (auto simp: get_pending_def find_Some_iff)
  then obtain k where "get_approval d k = Some a"
    using assms(1) by (auto simp: trows_tget approval_inv_def approvals_stored_def)
  with p assms(1) show ?thesis by (auto dest: approval_inv_idD)
qed

lemma get_pending_None:
  assumes "get_pending d sid = None" and "get_approval d k = Some a" and "ap_status a = AP_PENDING"
  shows "ap_session_id a \<noteq> sid"
  using assms tget_in_trows [OF assms(2)] by (auto simp: get_pending_def find_None_iff)

text \<open>
  Every operation changes one negotiation: sessions and offers of the others stay, and a pending
  approval afterwards is an untouched one of another negotiation or the new one.
\<close>

definition only_session :: "int \<Rightarrow> db \<Rightarrow> db \<Rightarrow> bool" where
  "only_session sid d d' \<longleftrightarrow>
     (\<forall>j. j \<noteq> sid \<longrightarrow> get_session d j \<noteq> None \<longrightarrow> get_session d' j = get_session d j) \<and>
     (\<forall>j off. get_offer d j = Some off \<longrightarrow> of_session_id off \<noteq> sid \<longrightarrow> get_offer d' j = Some off)"

lemma awaited_frame:
  "awaited d a \<Longrightarrow> only_session sid d d' \<Longrightarrow> ap_session_id a \<noteq> sid \<Longrightarrow> awaited d' a"
  unfolding awaited_def only_session_def by (metis option.distinct(1))

lemma approval_inv_change:
  assumes "approval_inv d" and "only_session sid d d'" and "approvals_stored d'"
    and "\<And>k a. get_approval d' k = Some a \<Longrightarrow> ap_status a = AP_PENDING \<Longrightarrow>
       get_approval d k = Some a \<and> ap_session_id a \<noteq> sid
       \<or> k = k0 \<and> ap_session_id a = sid \<and> awaited d' a"
  shows "approval_inv d'"
proof -
  have "pending_awaited d'"
    unfolding pending_awaited_def using assms(1,2,4) by (meson approval_inv_awaitedD awaited_frame)
  moreover have "one_pending d'"
    unfolding one_pending_def by (metis approval_inv_oneD [OF assms(1)] assms(4))
  ultimately show ?thesis using assms(3) by (simp add: approval_inv_def)
qed

lemma approvals_stored_other:
  "approvals_stored d \<Longrightarrow> d_approvals d' = d_approvals d \<Longrightarrow> d_next_approval d' = d_next_approval d \<Longrightarrow>
   approvals_stored d'"
  by (simp add: approvals_stored_def)

lemma approvals_stored_mod:
  "approvals_stored d \<Longrightarrow> (\<And>a. ap_id (f a) = ap_id a) \<Longrightarrow> approvals_stored (mod_approval k f d)"
  by (auto simp: approvals_stored_def split: if_splits)

lemma not_awaited:
  assumes "approval_inv d" and "get_session d sid = Some n" and "ns_graph_version n = None"
    and "ns_status n \<noteq> WAITING_APPROVAL" and "get_approval d k = Some a" and "ap_status a = AP_PENDING"
  shows "ap_session_id a \<noteq> sid"
  using approval_inv_awaitedD [OF assms(1,5,6)] assms(2-4) by (auto simp: awaited_def)

lemma restore_active_frame [simp]:
  "d_approvals (restore_active sid d) = d_approvals d" "d_offers (restore_active sid d) = d_offers d"
  "d_next_approval (restore_active sid d) = d_next_approval d"
  "d_next_offer (restore_active sid d) = d_next_offer d"
  "d_products (restore_active sid d) = d_products d" "d_policies (restore_active sid d) = d_policies d"
  by (simp_all add: restore_active_def)

lemma approval_inv_close:
  assumes "approval_inv d" and "get_approval d k = Some a" and "ap_status a = AP_PENDING"
    and "\<And>x. ap_id (f x) = ap_id x" and "\<And>x. ap_status (f x) \<noteq> AP_PENDING"
    and "d_approvals d' = tmod k f (d_approvals d)" and "d_next_approval d' = d_next_approval d"
    and "only_session (ap_session_id a) d d'"
  shows "approval_inv d'"
proof (rule approval_inv_change [OF assms(1,8)])
  have "approvals_stored (mod_approval k f d)"
    using assms(1,4) by (intro approvals_stored_mod) (auto simp: approval_inv_def)
  then show "approvals_stored d'" using assms(6,7) by (simp add: approvals_stored_def)
next
  fix j b assume b: "get_approval d' j = Some b" "ap_status b = AP_PENDING"
  then have j: "j \<noteq> k" and old: "get_approval d j = Some b"
    using assms(5,6) by (auto split: if_splits)
  then have "ap_session_id b \<noteq> ap_session_id a"
    using approval_inv_oneD [OF assms(1) old assms(2) b(2) assms(3)] by blast
  with old show "get_approval d j = Some b \<and> ap_session_id b \<noteq> ap_session_id a
      \<or> j = 0 \<and> ap_session_id b = ap_session_id a \<and> awaited d' b" by simp
qed

lemma restore_offer_inv:
  "offer_inv d \<Longrightarrow> offer_inv (restore_active sid d)"
  unfolding restore_active_def by (rule offer_inv_mod_session) simp_all

lemma closed_invs:
  assumes "offer_inv d" and "approval_inv d" and "get_approval d k = Some a" and "ap_status a = AP_PENDING"
    and "sid = ap_session_id a" and "st \<noteq> AP_PENDING"
    and "d' = restore_active sid (mod_approval k (\<lambda>x. x\<lparr>ap_status := st\<rparr>) d)"
  shows "offer_inv d' \<and> approval_inv d'"
proof
  show "offer_inv d'"
    unfolding assms(7) by (rule restore_offer_inv, rule offer_inv_other [OF assms(1)]) simp_all
  show "approval_inv d'"
    by (rule approval_inv_close [OF assms(2-4), of "\<lambda>x. x\<lparr>ap_status := st\<rparr>"])
      (simp_all add: assms(5-7) only_session_def restore_active_def)
qed

section \<open>Every operation keeps the invariants and the history of approvals\<close>

definition legacy_inv :: "db \<Rightarrow> bool" where
  "legacy_inv d \<longleftrightarrow> offer_inv d \<and> approval_inv d"

definition approval_later :: "approval \<Rightarrow> approval \<Rightarrow> bool" where
  \<comment> \<open>what an approval is about never changes, and a decided one is final\<close>
  "approval_later a a' \<longleftrightarrow> ap_session_id a' = ap_session_id a
     \<and> ap_offer_id a' = ap_offer_id a \<and> ap_policy_version a' = ap_policy_version a
     \<and> ap_reason a' = ap_reason a \<and> ap_expires_at a' = ap_expires_at a
     \<and> (ap_status a \<noteq> AP_PENDING \<longrightarrow> a' = a)"

definition approval_history :: "db \<Rightarrow> db \<Rightarrow> bool" where
  "approval_history d d' \<longleftrightarrow>
     (\<forall>k a. get_approval d k = Some a \<longrightarrow> (\<exists>a'. get_approval d' k = Some a' \<and> approval_later a a'))"

definition keeps :: "db \<Rightarrow> db \<Rightarrow> bool" where
  "keeps d d' \<longleftrightarrow> (legacy_inv d \<longrightarrow> legacy_inv d' \<and> approval_history d d')"

lemma approval_history_same: "d_approvals d' = d_approvals d \<Longrightarrow> approval_history d d'"
  by (simp add: approval_history_def approval_later_def)

lemma approval_later_trans: "approval_later a b \<Longrightarrow> approval_later b c \<Longrightarrow> approval_later a c"
  by (auto simp: approval_later_def)

lemma approval_history_trans: "approval_history d d' \<Longrightarrow> approval_history d' d'' \<Longrightarrow> approval_history d d''"
  unfolding approval_history_def using approval_later_trans by blast

lemma keeps_refl [simp]: "keeps d d"
  by (simp add: keeps_def approval_history_same)

lemma keeps_trans: "keeps d d' \<Longrightarrow> keeps d' d'' \<Longrightarrow> keeps d d''"
  unfolding keeps_def using approval_history_trans by blast

lemma approval_history_close:
  assumes "get_approval d k = Some a" and "ap_status a = AP_PENDING"
    and "d_approvals d' = tmod k f (d_approvals d)"
    and "\<And>x. ap_session_id (f x) = ap_session_id x \<and> ap_offer_id (f x) = ap_offer_id x
          \<and> ap_policy_version (f x) = ap_policy_version x \<and> ap_reason (f x) = ap_reason x
          \<and> ap_expires_at (f x) = ap_expires_at x"
  shows "approval_history d d'"
  using assms by (auto simp: approval_history_def approval_later_def)

lemma keeps_close:
  assumes "get_approval d k = Some a" and "ap_status a = AP_PENDING"
    and "sid = ap_session_id a" and "st \<noteq> AP_PENDING"
    and "d' = restore_active sid (mod_approval k (\<lambda>x. x\<lparr>ap_status := st\<rparr>) d)"
  shows "keeps d d'"
proof -
  have "approval_history d d'"
    using assms(1,2) by (rule approval_history_close [where f = "\<lambda>x. x\<lparr>ap_status := st\<rparr>"]) (simp_all add: assms(5))
  moreover have "legacy_inv d'" if "legacy_inv d"
    using that closed_invs [OF _ _ assms] by (auto simp: legacy_inv_def)
  ultimately show ?thesis by (simp add: keeps_def)
qed

lemma keeps_not_awaited:
  assumes "offer_inv d \<Longrightarrow> offer_inv d'" and "get_session d sid = Some n"
    and "ns_graph_version n = None" and "ns_status n \<noteq> WAITING_APPROVAL"
    and "offer_inv d \<Longrightarrow> only_session sid d d'" and "d_approvals d' = d_approvals d"
    and "d_next_approval d' = d_next_approval d"
  shows "keeps d d'"
proof -
  have "approval_inv d'" if "offer_inv d" "approval_inv d"
  proof (rule approval_inv_change [OF that(2) assms(5) [OF that(1)]])
    show "approvals_stored d'"
      using that(2) assms(6,7) by (simp add: approval_inv_def approvals_stored_def)
    show "get_approval d k = Some a \<and> ap_session_id a \<noteq> sid
        \<or> k = 0 \<and> ap_session_id a = sid \<and> awaited d' a"
      if "get_approval d' k = Some a" "ap_status a = AP_PENDING" for k a
      using that not_awaited [OF \<open>approval_inv d\<close> assms(2-4)] assms(6) by simp
  qed
  then show ?thesis
    using assms(1,6) by (simp add: keeps_def legacy_inv_def approval_history_same)
qed

lemma supersede_only:
  assumes "offer_inv d" and "get_session d sid = Some n"
  shows "only_session sid d (supersede_current_offer n who d)"
  using offer_inv_currentD [OF assms]
  by (auto simp: supersede_current_offer_def only_session_def split: option.splits)

lemma add_offer_only:
  assumes "offer_inv d" and "add_offer off d = (k, d1)"
  shows "only_session sid d d1"
  using offer_inv_offerD [OF assms(1)] by (auto simp: only_session_def add_offer_get [OF assms(2)])

lemma only_session_trans:
  "only_session sid d d1 \<Longrightarrow> only_session sid d1 d2 \<Longrightarrow> only_session sid d d2"
  unfolding only_session_def by metis

lemma only_session_mod [simp]: "only_session sid d (mod_session sid f d)"
  by (simp add: only_session_def)

lemma new_offer_only:
  assumes "offer_inv d" and "get_session d sid = Some n"
    and "add_offer off (supersede_current_offer n who d) = (k, d2)"
  shows "only_session sid d (mod_session sid f d2)"
  using supersede_only [OF assms(1,2)] add_offer_only [OF offer_inv_supersede(1) [OF assms(1,2)] assms(3)]
  by (blast intro: only_session_trans only_session_mod)

lemma supersede_next_approval [simp]:
  "d_next_approval (supersede_current_offer n who d) = d_next_approval d"
  by (auto simp: supersede_current_offer_def split: option.splits)

lemma add_offer_next_approval: "add_offer off d = (k, d1) \<Longrightarrow> d_next_approval d1 = d_next_approval d"
  by (auto simp: add_offer_def Let_def)

lemma record_keeps:
  assumes "record_buyer_offer now sid buyer t extra expires d = Inr (off, d')"
  shows "keeps d d'"
  using assms
proof (cases rule: record_buyer_offer_cases)
  case (1 n pol au off0 k d2)
  note add = add_offer_get [OF 1(13)] add_offer_next_approval [OF 1(13)]
  show ?thesis
    using 1(4)
    by (intro keeps_not_awaited [OF record_buyer_offer_inv [OF assms] 1(1,3)])
      (simp_all add: 1(14) add new_offer_only [OF _ 1(1,13)])
qed

lemma counter_keeps:
  assumes "submit_counter_offer now sid buyer t extra expires resp d = Inr (off, d')"
  shows "keeps d d'"
  using assms
proof (cases rule: submit_counter_offer_cases)
  case (1 n pol au off0 k d2)
  note add = add_offer_get [OF 1(13)] add_offer_next_approval [OF 1(13)]
  show ?thesis
    using 1(4)
    by (intro keeps_not_awaited [OF submit_counter_offer_inv [OF assms] 1(1,3)])
      (simp_all add: 1(14) add new_offer_only [OF _ 1(1,13)])
qed

lemma accept_keeps:
  assumes "accept_offer now sid buyer oid d = Inr (off', d')"
  shows "keeps d d'"
  using assms
proof (cases rule: accept_offer_cases)
  case (1 n off pol au)
  show ?thesis
  proof (rule keeps_not_awaited [OF accept_offer_inv [OF assms] 1(1,3)])
    show "only_session sid d d'"
      unfolding 1(15) using 1(6,7) by (auto simp: only_session_def)
  qed (simp_all add: 1(4,15))
qed

lemma open_session_cases:
  assumes step: "create_or_get_active_session pid buyer gv d = Inr ((sid, fresh), d')"
  obtains (existing) "d' = d" and "\<not> fresh"
  | (opened) n where "fresh" and "sid = d_next_session d" and "ns_id n = sid" and "ns_status n = ACTIVE"
      and "ns_current_offer_id n = None"
      and "d' = d\<lparr>d_sessions := tput sid n (d_sessions d), d_next_session := sid + 1\<rparr>"
proof -
  from step show thesis
    unfolding create_or_get_active_session_def
    apply (elim result_elims option_InrE)
    subgoal by (rule opened) auto
    subgoal by (rule existing) auto
    done
qed

lemma open_session_keeps:
  assumes "create_or_get_active_session pid buyer gv d = Inr ((sid, fresh), d')"
  shows "keeps d d'"
  using assms
proof (cases rule: open_session_cases)
  case (opened n)
  have "offer_inv d'" if inv: "offer_inv d"
  proof -
    have fresh: "get_session d sid = None"
      using inv opened(2) by (cases "get_session d sid") (auto dest: offer_inv_sessionD)
    have "sessions_stored d'"
      using inv opened(2,3,5) by (fastforce simp: sessions_stored_def offer_inv_def opened(6))
    moreover have "open_is_current d'"
      unfolding open_is_current_def
    proof (intro allI impI)
      fix k off assume k: "get_offer d' k = Some off" "of_status off = PROPOSED"
      then obtain m where m: "get_session d (of_session_id off) = Some m" "ns_current_offer_id m = Some k"
        using offer_inv_openD [OF inv, of k off] by (auto simp: opened(6))
      moreover from m(1) fresh have "of_session_id off \<noteq> sid" by auto
      ultimately show "\<exists>n. get_session d' (of_session_id off) = Some n \<and> ns_current_offer_id n = Some k"
        by (simp add: opened(6))
    qed
    ultimately show ?thesis using inv by (simp add: offer_inv_def offers_stored_def opened(6))
  qed
  moreover have "approval_inv d'" if o: "offer_inv d" and inv: "approval_inv d"
  proof (rule approval_inv_change [OF inv])
    show "only_session sid d d'" by (simp add: only_session_def opened(6))
    show "approvals_stored d'" using inv by (simp add: approval_inv_def approvals_stored_def opened(6))
    fix k a assume a: "get_approval d' k = Some a" "ap_status a = AP_PENDING"
    then have old: "get_approval d k = Some a" by (simp add: opened(6))
    then obtain m where "get_session d (ap_session_id a) = Some m"
      using approval_inv_awaitedD [OF inv _ a(2)] by (auto simp: awaited_def)
    then have "ap_session_id a \<noteq> sid" using o opened(2) by (auto dest: offer_inv_sessionD)
    with old show "get_approval d k = Some a \<and> ap_session_id a \<noteq> sid
        \<or> k = 0 \<and> ap_session_id a = sid \<and> awaited d' a" by simp
  qed
  ultimately show ?thesis
    by (simp add: keeps_def legacy_inv_def approval_history_same opened(6))
qed simp

lemma create_request_keeps:
  assumes "create_request now0 now sid buyer oid v reason expires d = Inr (a, d')"
  shows "keeps d d'"
  using assms
proof (cases rule: create_request_cases)
  case (created n p off pol au)
  have o: "offer_inv d'" if "offer_inv d"
    unfolding created(24)
    by (intro offer_inv_mod_session, rule offer_inv_other [OF that]) simp_all
  have a: "approval_inv d'" if "offer_inv d" and inv: "approval_inv d"
  proof (rule approval_inv_change [OF inv])
    note ids = offer_inv_sessionD [OF that(1) created(1)] offer_inv_offerD [OF that(1) created(8)]
    show "only_session sid d d'" by (simp add: only_session_def created(24))
    have "get_approval d (d_next_approval d) = None"
      using approval_inv_idD [OF inv] by (cases "get_approval d (d_next_approval d)") auto
    then show "approvals_stored d'"
      using inv created(16) approval_inv_idD [OF inv]
      by (fastforce simp: approval_inv_def approvals_stored_def created(24))
    fix k b assume "get_approval d' k = Some b" "ap_status b = AP_PENDING"
    then show "get_approval d k = Some b \<and> ap_session_id b \<noteq> sid
        \<or> k = d_next_approval d \<and> ap_session_id b = sid \<and> awaited d' b"
      using get_pending_None [OF created(3)] created(1,2,7-11) created(17,18) ids
      by (auto simp: created(24) awaited_def split: if_splits)
  qed
  have "approval_history d d'" if inv: "approval_inv d"
    unfolding approval_history_def
  proof (intro allI impI)
    fix k b assume b: "get_approval d k = Some b"
    then have "k \<noteq> d_next_approval d" using approval_inv_idD [OF inv] by fastforce
    with b show "\<exists>b'. get_approval d' k = Some b' \<and> approval_later b b'"
      by (simp add: created(24) approval_later_def)
  qed
  with o a show ?thesis by (simp add: keeps_def legacy_inv_def)
qed simp

lemma cancel_request_keeps:
  "cancel_request now sid buyer aid d = Inr (a, d') \<Longrightarrow> keeps d d'"
  by (erule cancel_request_cases) (auto intro: keeps_close)

lemma expire_request_keeps:
  "expire_request now aid d = Inr (a, d') \<Longrightarrow> keeps d d'"
  by (erule expire_request_cases) (auto intro: keeps_close)

lemma cancel_pending_keeps:
  assumes "cancel_pending_for_new_offer now sid buyer d = Inr (r, d')"
  shows "keeps d d'"
  using assms
proof (cases rule: cancel_pending_cases)
  case (closed n a st)
  show ?thesis
  proof (cases "legacy_inv d")
    case True
    then have "get_approval d (ap_id a) = Some a \<and> ap_session_id a = sid \<and> ap_status a = AP_PENDING"
      using get_pending_Some [OF _ closed(3)] by (simp add: legacy_inv_def)
    with closed(4,5) show ?thesis by (auto intro: keeps_close)
  qed (simp add: keeps_def)
qed simp

lemma commit_keeps:
  assumes "\<And>x d'. body = Inr (x, d') \<Longrightarrow> keeps d d'"
  shows "keeps d (snd (commit body d))"
  using assms by (cases body) (auto simp: split_beta)

lemma expire_each_keeps: "keeps d (snd (expire_each now ks d))"
proof (induction ks arbitrary: d)
  case (Cons k ks)
  have first: "keeps d (snd (commit (expire_request now k d) d))"
    by (rule commit_keeps) (rule expire_request_keeps)
  have rest: "keeps d (snd (expire_each now ks d1))"
    if "commit (expire_request now k d) d = (r, d1)" for r d1
    using first that Cons.IH [of d1] by (auto intro: keeps_trans)
  then show ?case
    using first by (auto split: prod.splits sum.splits)
qed simp

lemma expire_approval_keeps:
  "get_approval d aid = Some a \<Longrightarrow> ap_status a = AP_PENDING \<Longrightarrow> sid = ap_session_id a \<Longrightarrow>
   keeps d (expire_approval sid aid d)"
  by (rule keeps_close [where st = AP_EXPIRED]) (simp_all add: expire_approval_def)

definition sessions_match :: "(int \<times> int) list \<Rightarrow> db \<Rightarrow> bool" where
  "sessions_match items d \<longleftrightarrow>
     (\<forall>aid sid a. (aid, sid) \<in> set items \<longrightarrow> get_approval d aid = Some a \<longrightarrow> ap_session_id a = sid)"

lemma sessions_match_expire: "sessions_match items d \<Longrightarrow> sessions_match items (expire_approval sid k d)"
  unfolding sessions_match_def expire_approval_def by (auto split: if_splits)

lemma expire_owned_keeps: "sessions_match items d \<Longrightarrow> keeps d (expire_owned now items d)"
proof (induction items arbitrary: d)
  case (Cons item items)
  obtain aid sid where item: "item = (aid, sid)" by (cases item)
  have items: "sessions_match items d"
    using Cons.prems unfolding sessions_match_def by auto
  note rest = Cons.IH [OF items] Cons.IH [OF sessions_match_expire [OF items, of sid aid]]
  show ?case
  proof (cases "\<exists>n a. get_session d sid = Some n \<and> get_approval d aid = Some a
      \<and> ap_status a = AP_PENDING \<and> is_due (ap_expires_at a) now")
    case True
    then obtain n a where h: "get_session d sid = Some n" "get_approval d aid = Some a"
      "ap_status a = AP_PENDING" "is_due (ap_expires_at a) now" by blast
    have "sid = ap_session_id a" using Cons.prems item h(2) unfolding sessions_match_def by auto
    then have "keeps d (expire_approval sid aid d)" by (rule expire_approval_keeps [OF h(2,3)])
    with rest(2) h show ?thesis by (auto simp: item intro: keeps_trans)
  next
    case False
    with rest(1) show ?thesis by (auto simp: item split: option.splits)
  qed
qed simp

lemma due_pending_match:
  assumes "approvals_stored d"
  shows "sessions_match (map (\<lambda>a. (ap_id a, ap_session_id a)) (filter p (due_pending now d))) d"
proof -
  have "get_approval d (ap_id a) = Some a" if "a \<in> set (due_pending now d)" for a
  proof -
    have "a \<in> set (trows (d_approvals d))" using that by (simp add: due_pending_def)
    then obtain k where "get_approval d k = Some a"
      using assms by (auto simp: trows_tget approvals_stored_def)
    with assms show ?thesis by (auto simp: approvals_stored_def)
  qed
  then show ?thesis unfolding sessions_match_def by auto
qed

lemma expire_due_owned_keeps: "keeps d (expire_due_owned now now' seller d)"
proof (cases "legacy_inv d")
  case True
  then show ?thesis
    unfolding expire_due_owned_def
    by (intro expire_owned_keeps due_pending_match) (simp add: legacy_inv_def approval_inv_def)
qed (simp add: keeps_def)

lemma list_for_seller_keeps:
  "list_for_seller now now' seller status limit d = Inr (rows, d') \<Longrightarrow> keeps d d'"
  unfolding list_for_seller_def by (elim result_elims) (simp add: expire_due_owned_keeps)

lemma get_for_seller_keeps: "keeps d (snd (get_for_seller now now' seller aid d))"
proof -
  let ?r = "commit (expire_request (as_database_datetime now') aid d) d"
  have "keeps d (snd ?r)" by (rule commit_keeps) (rule expire_request_keeps)
  then show ?thesis
    by (auto simp: get_for_seller_def split: sum.splits prod.splits)
qed

lemma expire_due_requests_keeps: "keeps d (snd (expire_due_requests now limit d))"
  by (simp add: expire_due_requests_def expire_each_keeps Let_def)

lemma store_review_frame:
  "d_approvals (store_review now target c rid n aid off d) =
     tmod aid (\<lambda>x. x\<lparr>ap_status := target, ap_seller_comment := c, ap_reviewed_at := Some now,
       ap_followup_status := Some FU_PENDING, ap_followup_request_id := Some rid\<rparr>) (d_approvals d)"
  "d_next_approval (store_review now target c rid n aid off d) = d_next_approval d"
  by (simp_all add: store_review_def Let_def)

lemma store_review_offers:
  assumes "offer_inv d"
  shows "offer_inv (store_review now target c rid n aid off d)"
proof (cases "target = AP_REJECTED")
  case True
  show ?thesis
    unfolding store_review_def Let_def if_P [OF True]
    by (intro restore_offer_inv offer_inv_close_offer, rule offer_inv_other [OF assms]) simp_all
next
  case False
  show ?thesis
    unfolding store_review_def Let_def if_not_P [OF False]
    by (intro offer_inv_mod_session, rule offer_inv_other [OF assms]) simp_all
qed

lemma store_review_only:
  "get_offer d (of_id off) = Some off \<Longrightarrow> of_session_id off = ns_id n \<Longrightarrow>
   only_session (ns_id n) d (store_review now target c rid n aid off d)"
  by (auto simp: store_review_def only_session_def Let_def restore_active_def)

lemma owned_rows:
  assumes "legacy_inv d" and "get_owned_context d seller aid fu = Inr (n, a, p, off)"
  shows "get_approval d aid = Some a" and "ap_id a = aid" and "ns_id n = ap_session_id a"
    and "get_session d (ns_id n) = Some n" and "of_session_id off = ns_id n"
    and "of_id off = ap_offer_id a" and "get_offer d (of_id off) = Some off"
proof -
  note rows = assms(2) [unfolded get_owned_context_Inr]
  have o: "offer_inv d" and ai: "approval_inv d" using assms(1) by (simp_all add: legacy_inv_def)
  show a: "get_approval d aid = Some a" and "of_session_id off = ns_id n" using rows by blast+
  show "ap_id a = aid" using approval_inv_idD [OF ai a] by simp
  have n: "get_session d (ap_session_id a) = Some n" using rows by blast
  show i: "ns_id n = ap_session_id a" using offer_inv_sessionD [OF o n] by simp
  show "get_session d (ns_id n) = Some n" using n i by simp
  have off: "get_offer d (ap_offer_id a) = Some off" using rows by blast
  show j: "of_id off = ap_offer_id a" using offer_inv_offerD [OF o off] by simp
  show "get_offer d (of_id off) = Some off" using off j by simp
qed

lemma review_body_keeps:
  assumes "review_body (now, now', now'') seller aid rid c target d = Inr (r, d')" and "target \<noteq> AP_PENDING"
  shows "keeps d d'"
proof (cases "legacy_inv d")
  case inv: True
  obtain conflict ctx where r: "r = (conflict, ctx)" by (cases r)
  show ?thesis
    using assms(1) unfolding r
  proof (cases rule: review_body_cases)
    case (expired n a p off m)
    note rows = owned_rows [OF inv expired(1)]
    show ?thesis by (rule keeps_close [OF rows(1) expired(2) rows(3) _ expired(5)]) simp
  next
    case (reviewed n a p off)
    note row = owned_rows [OF inv reviewed(1)]
    let ?f = "\<lambda>x. x\<lparr>ap_status := target, ap_seller_comment := c, ap_reviewed_at := Some now'',
       ap_followup_status := Some FU_PENDING, ap_followup_request_id := Some rid\<rparr>"
    have approvals: "d_approvals d' = tmod aid ?f (d_approvals d)" "d_next_approval d' = d_next_approval d"
      unfolding reviewed(5) store_review_frame by (rule refl)+
    have o: "offer_inv d" and ai: "approval_inv d" using inv by (simp_all add: legacy_inv_def)
    have "only_session (ap_session_id a) d d'"
      using store_review_only [OF row(7,5)] unfolding reviewed(5) row(3) .
    then have "approval_inv d'"
      using assms(2) by (intro approval_inv_close [OF ai row(1) reviewed(2) _ _ approvals]) simp_all
    moreover have "offer_inv d'" unfolding reviewed(5) by (rule store_review_offers [OF o])
    moreover have "approval_history d d'"
      by (rule approval_history_close [OF row(1) reviewed(2) approvals(1)]) simp
    ultimately show ?thesis by (simp add: keeps_def legacy_inv_def)
  qed simp
qed (simp add: keeps_def)

definition publish_review :: "(exn + (string option \<times> seller_approval_snapshot)) \<times> db \<Rightarrow> (exn + seller_approval_snapshot) \<times> db" where
  "publish_review r =
     (case r of
        (Inl e, d') \<Rightarrow> (Inl e, d')
      | (Inr (Some m, ctx), d') \<Rightarrow> (Inl (ServiceExn ApprovalConflict), d')
      | (Inr (None, ctx), d') \<Rightarrow> (Inr ctx, d'))"

lemma publish_review_db [simp]: "snd (publish_review r) = snd r"
  by (simp add: publish_review_def split: prod.splits sum.splits option.splits)

lemma review_request_eq:
  "review_request clock seller aid rid comment target d =
     (case ebind (validated_request_id rid) (\<lambda>r. ebind (validated_comment comment) (\<lambda>c. Inr (r, c))) of
        Inl e \<Rightarrow> (Inl e, d)
      | Inr (r, c) \<Rightarrow> publish_review (commit (review_body clock seller aid r c target d) d))"
  unfolding review_request_def publish_review_def ..

lemma review_request_db:
  "snd (review_request clock seller aid rid comment target d) = d \<or>
   (\<exists>r c. snd (review_request clock seller aid rid comment target d)
           = snd (commit (review_body clock seller aid r c target d) d))"
proof (cases "ebind (validated_request_id rid) (\<lambda>r. ebind (validated_comment comment) (\<lambda>c. Inr (r, c)))")
  case (Inr p)
  obtain r c where p: "p = (r, c)" by (cases p)
  have "snd (review_request clock seller aid rid comment target d)
      = snd (commit (review_body clock seller aid r c target d) d)"
    unfolding review_request_eq Inr p by simp
  then show ?thesis by blast
qed (simp add: review_request_eq)

lemma review_request_keeps:
  assumes "target \<noteq> AP_PENDING"
  shows "keeps d (snd (review_request clock seller aid rid comment target d))"
proof -
  obtain t1 t2 t3 where clock: "clock = (t1, t2, t3)" by (cases clock)
  have "keeps d (snd (commit (review_body clock seller aid r c target d) d))" for r c
  proof (rule commit_keeps)
    fix x d' assume "review_body clock seller aid r c target d = Inr (x, d')"
    then show "keeps d d'" unfolding clock using assms by (rule review_body_keeps)
  qed
  then show ?thesis
    using review_request_db [of clock seller aid rid comment target d] by auto
qed

section \<open>Runs of the earlier runtime\<close>

text \<open>
  A step is one committed call of a service, in any order and with any arguments, or a change of
  products, policies and users by other parts of the program.
\<close>

inductive legacy_step :: "db \<Rightarrow> db \<Rightarrow> bool" where
  opens: "create_or_get_active_session pid buyer gv d = Inr ((sid, fresh), d') \<Longrightarrow> legacy_step d d'"
| offers: "record_buyer_offer now sid buyer t extra expires d = Inr (off, d') \<Longrightarrow> legacy_step d d'"
| counters: "submit_counter_offer now sid buyer t extra expires resp d = Inr (off, d') \<Longrightarrow> legacy_step d d'"
| accepts: "accept_offer now sid buyer oid d = Inr (off, d') \<Longrightarrow> legacy_step d d'"
| requests: "create_request now0 now sid buyer oid v reason expires d = Inr (a, d') \<Longrightarrow> legacy_step d d'"
| cancels: "cancel_request now sid buyer aid d = Inr (a, d') \<Longrightarrow> legacy_step d d'"
| makes_way: "cancel_pending_for_new_offer now sid buyer d = Inr (r, d') \<Longrightarrow> legacy_step d d'"
| expires_one: "expire_request now aid d = Inr (a, d') \<Longrightarrow> legacy_step d d'"
| expires_due: "expire_due_requests now limit d = (r, d') \<Longrightarrow> legacy_step d d'"
| lists: "list_for_seller now now' seller status limit d = Inr (rows, d') \<Longrightarrow> legacy_step d d'"
| shows_one: "get_for_seller now now' seller aid d = (r1, d') \<Longrightarrow> legacy_step d d'"
| approves: "approve_request clock seller aid rid comment d = (r1, d') \<Longrightarrow> legacy_step d d'"
| rejects: "reject_request clock seller aid rid comment d = (r1, d') \<Longrightarrow> legacy_step d d'"
| seller_edits: "legacy_step d (d\<lparr>d_products := ps, d_policies := pls, d_users := us\<rparr>)"

lemma legacy_inv_other:
  assumes "d_offers d' = d_offers d" and "d_sessions d' = d_sessions d" and "d_approvals d' = d_approvals d"
    and "d_next_offer d' = d_next_offer d" and "d_next_session d' = d_next_session d"
    and "d_next_approval d' = d_next_approval d"
  shows "legacy_inv d' = legacy_inv d"
  using assms
  by (simp add: legacy_inv_def offer_inv_defs approval_inv_def approvals_stored_def pending_awaited_def
      one_pending_def awaited_def)

lemma keeps_other:
  assumes "d_offers d' = d_offers d" and "d_sessions d' = d_sessions d" and "d_approvals d' = d_approvals d"
    and "d_next_offer d' = d_next_offer d" and "d_next_session d' = d_next_session d"
    and "d_next_approval d' = d_next_approval d"
  shows "keeps d d'"
  using legacy_inv_other [OF assms] approval_history_same [OF assms(3)] by (simp add: keeps_def)

lemma legacy_step_keeps: "legacy_step d d' \<Longrightarrow> keeps d d'"
proof (induction rule: legacy_step.induct)
  case (expires_due now limit d r d')
  then show ?case using expire_due_requests_keeps [of d now limit] by simp
next
  case (shows_one now now' seller aid d r1 d')
  then show ?case using get_for_seller_keeps [of d now now' seller aid] by simp
next
  case (approves clock seller aid rid comment d r1 d')
  then show ?case
    using review_request_keeps [of AP_APPROVED d clock seller aid rid comment]
    by (simp add: approve_request_def)
next
  case (rejects clock seller aid rid comment d r1 d')
  then show ?case
    using review_request_keeps [of AP_REJECTED d clock seller aid rid comment]
    by (simp add: reject_request_def)
next
  case (seller_edits d ps pls us)
  show ?case by (rule keeps_other) simp_all
qed (rule open_session_keeps record_keeps counter_keeps accept_keeps create_request_keeps
      cancel_request_keeps cancel_pending_keeps expire_request_keeps list_for_seller_keeps; assumption)+

lemma legacy_run_keeps: "legacy_step\<^sup>*\<^sup>* d d' \<Longrightarrow> keeps d d'"
  by (induction rule: rtranclp_induct) (auto intro: keeps_trans legacy_step_keeps)

text \<open>
  C9: On every run of the negotiation and approval services, in any order of their operations: a
  pending approval always belongs to a waiting negotiation whose current offer is the buyer's open offer
  the approval is about, no negotiation has two pending approvals, at most one offer is open per
  negotiation and it is the current one, and an approval, once reviewed, cancelled or expired, never
  changes again and is never deleted.
\<close>

theorem legacy_run_invariant:
  assumes "legacy_step\<^sup>*\<^sup>* d d'" and "legacy_inv d"
  shows "legacy_inv d' \<and> approval_history d d'"
  using legacy_run_keeps [OF assms(1)] assms(2) by (simp add: keeps_def)

text \<open>
  A seller's approval is requested only for the current, open, unexpired offer of the buyer in an
  active negotiation, priced in the approval zone of the policy version the caller evaluated; the
  negotiation then waits. A repeated request for the same offer returns the pending approval unchanged.
\<close>

theorem create_request_sound:
  assumes "create_request now0 now sid buyer oid v reason expires d = Inr (a, d')" and "legacy_inv d"
  shows "ap_status a = AP_PENDING \<and> ap_offer_id a = oid \<and> ap_policy_version a = v
    \<and> get_approval d' (ap_id a) = Some a
    \<and> (d' = d \<or>
       (\<exists>n off pol. get_session d sid = Some n \<and> ns_status n = ACTIVE
         \<and> ns_current_offer_id n = Some oid \<and> get_offer d oid = Some off
         \<and> of_proposer off = BUYER \<and> of_status off = PROPOSED
         \<and> get_policy d (ns_product_id n) = Some pol \<and> sp_version pol = v
         \<and> sp_minimum_net_price pol \<le> offer_net_income off
         \<and> offer_net_income off < sp_auto_accept_threshold pol
         \<and> get_session d' sid = Some (n\<lparr>ns_status := WAITING_APPROVAL, ns_version := ns_version n + 1\<rparr>)))"
  using assms(1)
proof (cases rule: create_request_cases)
  case (again n)
  have "approval_inv d" using assms(2) by (simp add: legacy_inv_def)
  from get_pending_Some [OF this again(2)] again(3-5) show ?thesis by simp
next
  case (created n p off pol au)
  have "offer_inv d" using assms(2) by (simp add: legacy_inv_def)
  then have i: "of_id off = oid" using created(8) by (auto dest: offer_inv_offerD)
  note price = authorize_stored_net(2) [OF created(14,15)]
  have "get_session d' sid = Some (n\<lparr>ns_status := WAITING_APPROVAL, ns_version := ns_version n + 1\<rparr>)"
    by (simp add: created(1,24))
  then show ?thesis
    using created(1,4,7,8,10-13) created(16-20) price i by (auto simp: created(24))
qed

text \<open>
  A seller's decision takes effect only while the approval is pending and unexpired, the
  negotiation waits, the product is available, the offer is still the buyer's current open one, and the
  policy version and the price zone are those the approval was requested for. Approving alone makes no
  deal: the offer stays open; rejecting closes the offer and reopens the negotiation.
\<close>

theorem review_request_sound:
  assumes "review_request (now, now', now'') seller aid rid comment target d = (Inr ctx, d')"
    and "legacy_inv d" and "get_approval d aid = Some a" and "ap_status a = AP_PENDING"
    and "target = AP_APPROVED \<or> target = AP_REJECTED"
  shows "\<not> is_due (ap_expires_at a) now \<and> (\<exists>n p off pol a'. get_session d (ap_session_id a) = Some n
      \<and> ns_status n = WAITING_APPROVAL \<and> get_product d (ns_product_id n) = Some p
      \<and> p_status p = AVAILABLE \<and> p_seller_id p = seller
      \<and> ns_current_offer_id n = Some (ap_offer_id a) \<and> get_offer d (ap_offer_id a) = Some off
      \<and> of_status off = PROPOSED \<and> get_policy d (p_id p) = Some pol
      \<and> sp_version pol = ap_policy_version a
      \<and> sp_minimum_net_price pol \<le> offer_net_income off
      \<and> offer_net_income off < sp_auto_accept_threshold pol
      \<and> get_approval d' aid = Some a' \<and> ap_status a' = target \<and> ap_reviewed_at a' = Some now''
      \<and> get_offer d' (ap_offer_id a) =
           Some (off\<lparr>of_status := if target = AP_REJECTED then REJECTED else PROPOSED\<rparr>)
      \<and> map_option ns_status (get_session d' (ap_session_id a)) =
           Some (if target = AP_REJECTED then ACTIVE else WAITING_APPROVAL))"
proof -
  obtain r c where body: "review_body (now, now', now'') seller aid r c target d = Inr ((None, ctx), d')"
    using assms(1) unfolding review_request_eq
    by (auto simp: publish_review_def commit_eq_Inr split: sum.splits prod.splits option.splits)
  then show ?thesis
  proof (cases rule: review_body_cases)
    case again
    have "fst (snd ctx) = a"
      using again(3) assms(3) by (cases ctx) (simp add: get_owned_context_Inr)
    with again(4) assms(4,5) show ?thesis by auto
  next
    case (reviewed n a0 p off)
    note rows = owned_rows [OF assms(2) reviewed(1)] and ctx = reviewed(1) [unfolded get_owned_context_Inr]
    have a0: "a0 = a" using rows(1) assms(3) by simp
    from reviewed(4) show ?thesis
    proof (rule review_conflict_None)
      fix pl au
      assume chk: "\<not> is_due (ap_expires_at a0) now" "ns_status n = WAITING_APPROVAL" "p_status p = AVAILABLE"
        "ns_current_offer_id n = Some (of_id off)" "of_status off = PROPOSED"
        "get_policy d (p_id p) = Some pl" "sp_version pl = ap_policy_version a0"
        and au: "authorize_stored_offer off pl = Inr au" "au_can_request_approval au"
      note price = authorize_stored_net(2) [OF au]
      have offer: "get_offer d' (ap_offer_id a) =
           Some (off\<lparr>of_status := if target = AP_REJECTED then REJECTED else PROPOSED\<rparr>)"
        using rows(6,7) chk(5) a0 by (simp add: reviewed(5) store_review_def Let_def)
      have sess: "map_option ns_status (get_session d' (ap_session_id a)) =
           Some (if target = AP_REJECTED then ACTIVE else WAITING_APPROVAL)"
        using rows(3,4) chk(2) a0 by (simp add: reviewed(5) store_review_def Let_def restore_active_def)
      have appr: "get_approval d' aid = Some (a\<lparr>ap_status := target, ap_seller_comment := c,
          ap_reviewed_at := Some now'', ap_followup_status := Some FU_PENDING,
          ap_followup_request_id := Some r\<rparr>)"
        using rows(1,2) a0 by (simp add: reviewed(5) store_review_frame)
      show ?thesis
        using chk price offer sess appr rows(3,4,6,7) ctx a0 by auto
    qed
  qed simp
qed

section \<open>Reviews are idempotent\<close>

definition review_exec ::
    "int \<Rightarrow> string \<Rightarrow> approval_status \<Rightarrow> (time \<times> time \<times> time) \<times> string \<times> string option \<Rightarrow> db \<Rightarrow>
     exn + seller_approval_snapshot \<times> db" where
  \<comment> \<open>a review that reports no conflict, as a command under its request identifier\<close>
  "review_exec aid rid target env d =
     (case env of (clock, seller, comment) \<Rightarrow>
        (case review_body clock seller aid rid comment target d of
           Inl e \<Rightarrow> Inl e
         | Inr ((Some m, ctx), d') \<Rightarrow> Inl (ServiceExn ApprovalConflict)
         | Inr ((None, ctx), d') \<Rightarrow> Inr (ctx, d')))"

lemma review_exec_Inr:
  "review_exec aid rid target (clock, seller, comment) d = Inr (ctx, d') \<longleftrightarrow>
     review_body clock seller aid rid comment target d = Inr ((None, ctx), d')"
  by (auto simp: review_exec_def split: sum.splits option.splits)

definition review_admitted :: "int \<Rightarrow> (time \<times> time \<times> time) \<times> string \<times> string option \<Rightarrow> db \<Rightarrow> bool" where
  "review_admitted aid env d \<longleftrightarrow> \<not> isl (get_owned_context d (fst (snd env)) aid True)"

lemma review_body_result:
  assumes "review_body clock seller aid rid comment target d = Inr ((None, ctx), d')"
  shows "get_owned_context d' seller aid True = Inr ctx"
    and "ap_status (fst (snd ctx)) = target" and "ap_followup_request_id (fst (snd ctx)) = Some rid"
    and "\<not> isl (get_owned_context d seller aid True)"
proof -
  obtain t1 t2 t3 where clock: "clock = (t1, t2, t3)" by (cases clock)
  note body = assms [unfolded clock]
  obtain n' a' p' off' where ctx: "ctx = (n', a', p', off')" by (cases ctx)
  from body have "get_owned_context d' seller aid True = Inr ctx \<and> ap_status (fst (snd ctx)) = target
      \<and> ap_followup_request_id (fst (snd ctx)) = Some rid \<and> \<not> isl (get_owned_context d seller aid True)"
  proof (cases rule: review_body_cases)
    case (reviewed n a p off)
    note old = reviewed(1) [unfolded get_owned_context_Inr]
    note new = reviewed(7) [unfolded ctx get_owned_context_Inr]
    have a: "get_approval d aid = Some a" using old by blast
    have a': "a' = a\<lparr>ap_status := target, ap_seller_comment := comment,
        ap_reviewed_at := Some t3, ap_followup_status := Some FU_PENDING, ap_followup_request_id := Some rid\<rparr>"
      using new a by (simp add: reviewed(5) store_review_frame)
    have legacy: "\<forall>j m. get_session d j = Some m \<longrightarrow> get_session d' j = Some m
        \<or> (\<exists>m'. get_session d' j = Some m' \<and> ns_graph_version m' = ns_graph_version m)"
      by (auto simp: reviewed(5) store_review_def Let_def restore_active_def)
    have n: "get_session d (ap_session_id a') = Some n" and g: "ns_graph_version n = None"
      using old a' by simp_all
    have "get_session d' (ap_session_id a') = Some n'" using new by blast
    then have "ns_graph_version n' = None" using legacy n g by force
    with new have "get_owned_context d' seller aid True = Inr ctx"
      unfolding ctx get_owned_context_Inr by blast
    then show ?thesis using a' by (simp add: ctx reviewed(1))
  qed auto
  then show "get_owned_context d' seller aid True = Inr ctx"
    and "ap_status (fst (snd ctx)) = target" and "ap_followup_request_id (fst (snd ctx)) = Some rid"
    and "\<not> isl (get_owned_context d seller aid True)" by blast+
qed

lemma owned_context_unique:
  assumes "get_owned_context d seller aid fu = Inr ctx" and "get_owned_context d seller' aid fu' = Inr ctx'"
  shows "ctx' = ctx"
proof -
  obtain n a p off n' a' p' off' where "ctx = (n, a, p, off)" "ctx' = (n', a', p', off')"
    by (cases ctx, cases ctx')
  with assms show ?thesis by (simp add: get_owned_context_Inr)
qed

interpretation review: idempotent_command "review_exec aid rid target" "review_admitted aid"
  for aid rid target
proof
  fix e d r d'
  assume step: "review_exec aid rid target e d = Inr (r, d')"
  obtain clock seller comment where e: "e = (clock, seller, comment)" by (cases e)
  note body = step [unfolded e review_exec_Inr]
  show "review_admitted aid e d"
    using review_body_result(4) [OF body] by (simp add: review_admitted_def e)
  fix e' assume adm: "review_admitted aid e' d'"
  obtain clock' seller' comment' where e': "e' = (clock', seller', comment')" by (cases e')
  obtain ctx where "get_owned_context d' seller' aid True = Inr ctx"
    using adm by (cases "get_owned_context d' seller' aid True") (auto simp: review_admitted_def e')
  moreover from this have "ctx = r"
    by (rule owned_context_unique [OF review_body_result(1) [OF body]])
  ultimately have again: "get_owned_context d' seller' aid True = Inr r" by simp
  obtain t1 t2 t3 where clock': "clock' = (t1, t2, t3)" by (cases clock')
  obtain n a p off where r: "r = (n, a, p, off)" by (cases r)
  have "review_body clock' seller' aid rid comment' target d' = Inr ((None, r), d')"
    using again review_body_result(2,3) [OF body] unfolding review_body_def clock' r by simp
  then show "review_exec aid rid target e' d' = Inr (r, d')" by (simp add: e' review_exec_Inr)
qed

text \<open>
  A review that was stored under a request identifier is stored once: repeated with the same
  identifier and decision, by whoever may read the approval, it returns the stored result and changes
  nothing, however often it is repeated.
\<close>

theorem review_replays:
  assumes "review_exec aid rid target env d = Inr (ctx, d')"
  shows "snd (replays (review_exec aid rid target) envs d') = d'
    \<and> (\<forall>x \<in> set (fst (replays (review_exec aid rid target) envs d')). x = Inr ctx \<or> isl x)"
  using assms by (rule review.replays_fixpoint)

section \<open>The properties on a negotiation\<close>

definition sample_approval :: "approval_status \<Rightarrow> approval" where
  "sample_approval st = \<lparr>ap_id = 1, ap_session_id = 1, ap_offer_id = 1, ap_policy_version = 1,
     ap_status = st, ap_reason = ''ok'', ap_seller_comment = None, ap_effect_status = None,
     ap_effect_revision = 0, ap_invalid_reason = None, ap_invalidated_at = None,
     ap_superseded_by = None, ap_decision_hash = None, ap_notification_status = None,
     ap_expires_at = seconds 60, ap_reviewed_at = None, ap_followup_status = None,
     ap_followup_request_id = None\<rparr>"

definition sample_waiting :: db where
  \<comment> \<open>the offer of 120.00 waits for the seller\<close>
  "sample_waiting = (sample_offered 12000)\<lparr>d_approvals := [(1, sample_approval AP_PENDING)],
     d_next_approval := 2, d_sessions := tmod 1 (\<lambda>s. s\<lparr>ns_status := WAITING_APPROVAL,
        ns_version := 3\<rparr>) (d_sessions (sample_offered 12000))\<rparr>"

lemma sample_waiting_authorized:
  "\<exists>au. authorize_stored_offer (sample_offer 12000 PROPOSED) sample_policy = Inr au
     \<and> au_can_request_approval au"
  by (rule exI [of _ "sample_authorization 12000"])
    (simp add: sample_authorized_stored MAX_MONEY_def sample_authorization_def zone_of_def)

lemma sample_due: "\<not> is_due (seconds 60) 0" "as_database_datetime (seconds 60) = seconds 60"
  by (simp_all add: is_due_def as_database_datetime_def seconds_def)

lemma sample_reason: "validated_reason ''ok'' = Inr ''ok''"
  by (simp add: validated_reason_def strip_def is_space_def Let_def)

lemma sample_request:
  "create_request 0 0 1 ''buyer'' 1 1 ''ok'' (seconds 60) (sample_offered 12000)
     = Inr (sample_approval AP_PENDING, sample_waiting)"
  using sample_waiting_authorized
  by (auto simp add: create_request_def sample_reason sample_due get_buyer_negotiation_def require_legacy_runtime_def
      get_pending_def validate_offer_def policy_for_def sample_offered_def
      sample_session_eq sample_db_def empty_db_def trows_def approvals_unique_def tput_def
      sample_waiting_def sample_approval_def tmod_def map_filter_def Let_def)

lemma sample_offered_legacy: "legacy_inv (sample_offered price)"
  using sample_offered_inv
  by (simp add: legacy_inv_def approval_inv_def approvals_stored_def pending_awaited_def one_pending_def
      sample_offered_def sample_session_eq sample_db_def empty_db_def)

lemma sample_waiting_legacy: "legacy_inv sample_waiting"
  using create_request_keeps [OF sample_request] sample_offered_legacy by (simp add: keeps_def)

theorem legacy_run_invariant_witness:
  "legacy_inv sample_waiting \<and> approval_history (sample_offered 12000) sample_waiting"
proof (rule legacy_run_invariant [OF _ sample_offered_legacy])
  have "legacy_step (sample_offered 12000) sample_waiting"
    by (rule legacy_step.requests [OF sample_request])
  then show "legacy_step\<^sup>*\<^sup>* (sample_offered 12000) sample_waiting" by (rule r_into_rtranclp)
qed

theorem create_request_sound_witness:
  "get_approval sample_waiting 1 = Some (sample_approval AP_PENDING)
   \<and> ap_status (sample_approval AP_PENDING) = AP_PENDING"
  using create_request_sound [OF sample_request sample_offered_legacy] by (simp add: sample_approval_def)

lemma sample_review:
  "\<exists>ctx d'. review_request (0, 0, 0) ''seller'' 1 ''r1'' None AP_REJECTED sample_waiting = (Inr ctx, d')"
  using sample_waiting_authorized
  by (auto simp: review_request_def validated_request_id_def strip_def is_space_def is_alnum_def
      validated_comment_def review_body_def get_owned_context_def require_legacy_runtime_def
      review_conflict_def sample_waiting_def sample_approval_def sample_offered_def sample_session_eq
      sample_db_def empty_db_def sample_due store_review_def restore_active_def approvals_unique_def
      trows_def tmod_def tput_def map_filter_def Let_def)

theorem review_request_sound_witness:
  "\<exists>ctx d'. review_request (0, 0, 0) ''seller'' 1 ''r1'' None AP_REJECTED sample_waiting = (Inr ctx, d')
     \<and> map_option ns_status (get_session d' 1) = Some ACTIVE"
proof -
  obtain ctx d' where r: "review_request (0, 0, 0) ''seller'' 1 ''r1'' None AP_REJECTED sample_waiting = (Inr ctx, d')"
    using sample_review by blast
  have "get_approval sample_waiting 1 = Some (sample_approval AP_PENDING)" by (simp add: sample_waiting_def)
  from review_request_sound [OF r sample_waiting_legacy this]
  have "map_option ns_status (get_session d' 1) = Some ACTIVE"
    by (auto simp: sample_approval_def)
  with r show ?thesis by blast
qed

theorem review_replays_witness:
  "\<exists>d'. snd (replays (review_exec 1 ''r1'' AP_REJECTED) [((5, 5, 5), ''seller'', Some ''x'')] d') = d'
     \<and> get_approval d' 1 \<noteq> get_approval sample_waiting 1"
proof -
  obtain ctx d' where r: "review_exec 1 ''r1'' AP_REJECTED ((0, 0, 0), ''seller'', None) sample_waiting = Inr (ctx, d')"
    and "get_approval d' 1 \<noteq> get_approval sample_waiting 1"
    using sample_waiting_authorized
    by (auto simp: review_exec_def review_body_def get_owned_context_def require_legacy_runtime_def
      review_conflict_def sample_waiting_def sample_approval_def sample_offered_def sample_session_eq
      sample_db_def empty_db_def sample_due store_review_def restore_active_def approvals_unique_def
      trows_def tmod_def tput_def map_filter_def Let_def)
  with review_replays [OF r] show ?thesis by blast
qed

end
