(* ===== verification/Evidence.thy ===== *)
theory Evidence
  imports Schema Complex_Main
begin

text \<open>
  \<open>backend/app/semantic/evidence.py\<close>: facts confirmed by the seller, the evaluation of a candidate offer
  against them, and the immutable quotation of shipping costs. \<open>assess\<close> is what decides whether a
  candidate may become a formal offer.

  \<open>Decimal(text)\<close> is modelled by \<open>parse_decimal\<close> for texts over ASCII digits. The public answers
  and refusals, which match Chinese text with regular expressions, are not modelled.
\<close>

section \<open>Decimal texts\<close>

definition lower :: "char \<Rightarrow> char" where
  "lower c = (let n = of_char c :: nat in if 65 \<le> n \<and> n \<le> 90 then char_of (n + 32) else c)"

definition is_digit :: "char \<Rightarrow> bool" where
  "is_digit c \<longleftrightarrow> (let n = of_char c :: nat in 48 \<le> n \<and> n \<le> 57)"

fun scan_digits :: "nat \<Rightarrow> nat \<Rightarrow> string \<Rightarrow> nat \<times> nat \<times> string" where
  \<comment> \<open>value and number of the digits read, and the rest\<close>
  "scan_digits v n [] = (v, n, [])"
| "scan_digits v n (c # cs) =
     (if is_digit c then scan_digits (v * 10 + (of_char c - 48)) (n + 1) cs else (v, n, c # cs))"

fun take_sign :: "string \<Rightarrow> bool \<times> string" where
  "take_sign (CHR ''-'' # cs) = (True, cs)"
| "take_sign (CHR ''+'' # cs) = (False, cs)"
| "take_sign cs = (False, cs)"

fun parse_exponent :: "string \<Rightarrow> int option" where
  "parse_exponent [] = Some 0"
| "parse_exponent (c # cs) =
     (if lower c \<noteq> CHR ''e'' then None
      else case take_sign cs of (neg, ds) \<Rightarrow>
        (case scan_digits 0 0 ds of (v, n, rest) \<Rightarrow>
           if n = 0 \<or> rest \<noteq> [] then None else Some (if neg then - int v else int v)))"

definition parse_number :: "bool \<Rightarrow> string \<Rightarrow> decimal option" where
  "parse_number neg cs =
     (case scan_digits 0 0 cs of (a, n, rest) \<Rightarrow>
      case (case rest of
              CHR ''.'' # ds \<Rightarrow> scan_digits a 0 ds
            | _ \<Rightarrow> (a, 0, rest)) of (b, m, rest') \<Rightarrow>
      if n + m = 0 then None
      else case parse_exponent rest' of
             None \<Rightarrow> None
           | Some e \<Rightarrow> Some (Finite neg b (e - int m)))"

definition parse_decimal :: "string \<Rightarrow> decimal option" where
  \<comment> \<open>\<open>Decimal(text)\<close>; \<open>None\<close> is \<open>InvalidOperation\<close>\<close>
  "parse_decimal s =
     (let t = filter (\<lambda>c. c \<noteq> CHR ''_'') (strip s);
          (neg, cs) = take_sign t;
          word = map lower cs
      in if word = ''inf'' \<or> word = ''infinity'' then Some (Infinite neg)
         else if take 3 word = ''nan'' \<and> list_all is_digit (drop 3 word)
                 \<or> take 4 word = ''snan'' \<and> list_all is_digit (drop 4 word) then Some NaN
         else parse_number neg cs)"

definition dec_le :: "decimal \<Rightarrow> decimal \<Rightarrow> bool" where
  \<comment> \<open>the exact comparison of finite numbers\<close>
  "dec_le a b =
     (case (a, b) of
        (Finite s c e, Finite s' c' e') \<Rightarrow>
          (let m = min e e';
               x = int c * 10 ^ nat (e - m); y = int c' * 10 ^ nat (e' - m)
           in (if s then - x else x) \<le> (if s' then - y else y))
      | (Infinite s, Infinite s') \<Rightarrow> s \<or> \<not> s'
      | (Infinite s, Finite _ _ _) \<Rightarrow> s
      | (Finite _ _ _, Infinite s') \<Rightarrow> \<not> s'
      | _ \<Rightarrow> False)"

definition dec_nat :: "nat \<Rightarrow> decimal" where
  "dec_nat n = Finite False n 0"

definition percentage :: "decimal \<Rightarrow> bool" where
  \<comment> \<open>\<open>number.is_finite() and 0 <= number <= 100\<close>\<close>
  "percentage x = (case x of Finite s c e \<Rightarrow> dec_le (dec_nat 0) x \<and> dec_le x (dec_nat 100) | _ \<Rightarrow> False)"

definition whole_cents :: "decimal \<Rightarrow> bool" where
  \<comment> \<open>\<open>number % Decimal("0.01") == 0\<close> for a number between 0 and 100\<close>
  "whole_cents x =
     (case x of Finite s c e \<Rightarrow> - 2 \<le> e \<or> c mod 10 ^ nat (- 2 - e) = 0 | _ \<Rightarrow> False)"

definition show_decimal2 :: "decimal \<Rightarrow> string" where
  \<comment> \<open>\<open>f"{number:.2f}"\<close> for a number of whole cents\<close>
  "show_decimal2 x =
     (case x of
        Finite s c e \<Rightarrow>
          let n = (if - 2 \<le> e then c * 10 ^ nat (e + 2) else c div 10 ^ nat (- 2 - e)) in
          (if s then ''-'' else '''') @ show_nat (n div 100) @ ''.'' @
            [char_of (48 + n mod 100 div 10), char_of (48 + n mod 10)]
      | _ \<Rightarrow> [])"

section \<open>Facts\<close>

definition fact_kind :: "string \<Rightarrow> (string \<times> string) option" where
  "fact_kind a =
     map_of [(''battery_health_pct'', (''decimal'', ''percent'')), (''repair_history'', (''enum'', ''none'')),
             (''allowed_delivery_methods'', (''set'', ''none''))] a"

fun py_str :: "json \<Rightarrow> string option" where
  \<comment> \<open>\<open>str(value)\<close>, as far as it can be the text of a number\<close>
  "py_str (JStr s) = Some s"
| "py_str (JInt i) = Some (show_int i)"
| "py_str _ = None"

fun delivery_method :: "json \<Rightarrow> bool" where
  "delivery_method (JStr s) = (s = ''shipping'' \<or> s = ''pickup'')"
| "delivery_method _ = False"

definition normalized_value :: "string \<Rightarrow> json \<Rightarrow> exn + json" where
  "normalized_value a v =
     (if a = ''battery_health_pct'' then
        (if v = JNull then Inr JNull
         else case py_str v of
           None \<Rightarrow> Inl (Conflict ''battery health'')
         | Some s \<Rightarrow>
           (case parse_decimal s of
              None \<Rightarrow> Inl (Conflict ''battery health'')
            | Some x \<Rightarrow>
                if percentage x \<and> whole_cents x then Inr (JStr (show_decimal2 x))
                else Inl (Conflict ''battery health'')))
      else if a = ''repair_history'' then
        (if v \<in> {JStr ''YES'', JStr ''NO'', JStr ''UNKNOWN''} then Inr v
         else Inl (Conflict ''repair history''))
      else
        (case v of
           JArr xs \<Rightarrow>
             if xs = [] \<or> list_ex (\<lambda>x. \<not> delivery_method x) xs \<or> \<not> distinct xs
             then Inl (Conflict ''delivery methods'') else Inr v
         | _ \<Rightarrow> Inl (Conflict ''delivery methods'')))"

definition normalize_fact :: "string \<Rightarrow> json \<Rightarrow> exn + json" where
  "normalize_fact a v =
     (case fact_kind a of
        None \<Rightarrow> Inl (Conflict ''unsupported attribute'')
      | Some (kind, unit) \<Rightarrow>
          ebind (normalized_value a v) (\<lambda>w.
          Inr (JObj [(''type'', JStr kind), (''unit'', JStr unit), (''value'', w)])))"

definition facts_for :: "db \<Rightarrow> int \<Rightarrow> string \<Rightarrow> fact_row option" where
  \<comment> \<open>the latest version of each attribute\<close>
  "facts_for d pid a =
     (case filter (\<lambda>f. pf_product_id f = pid \<and> pf_attribute f = a) (sort_key pf_version (trows (d_facts d))) of
        [] \<Rightarrow> None
      | f # fs \<Rightarrow> Some (last (f # fs)))"

definition fact_value :: "fact_row \<Rightarrow> exn + json" where
  \<comment> \<open>\<open>fact.value["value"]\<close>\<close>
  "fact_value f =
     (case pf_value f of
        JObj kvs \<Rightarrow> some_or KeyExn (map_of kvs ''value'')
      | _ \<Rightarrow> Inl TypeExn)"

fun truthy :: "json \<Rightarrow> bool" where
  "truthy JNull = False"
| "truthy (JBool b) = b"
| "truthy (JInt i) = (i \<noteq> 0)"
| "truthy (JStr s) = (s \<noteq> [])"
| "truthy (JArr xs) = (xs \<noteq> [])"
| "truthy (JObj kvs) = (kvs \<noteq> [])"
| "truthy JOpaque = True"

fun substring :: "string \<Rightarrow> string \<Rightarrow> bool" where
  "substring s [] = (s = [])"
| "substring s (c # cs) = (take (length s) (c # cs) = s \<or> substring s cs)"

fun contains :: "string \<Rightarrow> json \<Rightarrow> exn + bool" where
  \<comment> \<open>\<open>text in value\<close>\<close>
  "contains s (JArr xs) = Inr (JStr s \<in> set xs)"
| "contains s (JStr t) = Inr (substring s t)"
| "contains s (JObj kvs) = Inr (s \<in> fst ` set kvs)"
| "contains s _ = Inl TypeExn"

fun parse_fact_number :: "json \<Rightarrow> decimal option" where
  \<comment> \<open>\<open>Decimal(value)\<close> of a stored value\<close>
  "parse_fact_number (JStr s) = parse_decimal s"
| "parse_fact_number (JInt i) = Some (Finite (i < 0) (nat \<bar>i\<bar>) 0)"
| "parse_fact_number (JBool b) = Some (Finite False (if b then 1 else 0) 0)"
| "parse_fact_number _ = None"

definition satisfied :: "bool \<Rightarrow> string" where
  "satisfied b = (if b then ''SATISFIED'' else ''UNSATISFIED'')"

definition battery_result :: "string \<Rightarrow> string \<Rightarrow> json \<Rightarrow> string" where
  "battery_result op expected value =
     (case parse_decimal expected of
        None \<Rightarrow> ''UNSUPPORTED''
      | Some e \<Rightarrow>
          if \<not> percentage e then ''UNSUPPORTED''
          else if value = JNull then ''UNKNOWN''
          else case parse_fact_number value of
                 None \<Rightarrow> ''UNSUPPORTED''
               | Some NaN \<Rightarrow> ''UNSUPPORTED''
               | Some a \<Rightarrow> satisfied
                   (if op = ''>='' then dec_le e a else if op = ''<='' then dec_le a e
                    else dec_le a e \<and> dec_le e a))"

definition repair_result :: "string \<Rightarrow> json \<Rightarrow> string" where
  "repair_result expected value =
     (if expected \<noteq> ''YES'' \<and> expected \<noteq> ''NO'' then ''UNSUPPORTED''
      else case value of
             JArr xs \<Rightarrow> ''UNSUPPORTED''
           | JObj kvs \<Rightarrow> ''UNSUPPORTED''
           | _ \<Rightarrow> if value = JStr ''YES'' \<or> value = JStr ''NO'' then satisfied (value = JStr expected)
                  else ''UNKNOWN'')"

definition delivery_result :: "string \<Rightarrow> json \<Rightarrow> string" where
  "delivery_result expected value =
     (if expected \<noteq> ''shipping'' \<and> expected \<noteq> ''pickup'' then ''UNSUPPORTED''
      else if \<not> truthy value then ''UNKNOWN''
      else case contains expected value of Inl e \<Rightarrow> ''UNSUPPORTED'' | Inr b \<Rightarrow> satisfied b)"

definition evaluate :: "predicate \<Rightarrow> (string \<Rightarrow> fact_row option) \<Rightarrow> nat \<Rightarrow> exn + evaluation" where
  "evaluate p facts index =
     (let fact = facts (pr_fact p) in
      ebind (case fact of None \<Rightarrow> Inr JNull | Some f \<Rightarrow> fact_value f) (\<lambda>value.
      Inr \<lparr>el_predicate_id = show_nat index, el_fact = pr_fact p,
           el_fact_version = map_option pf_version fact, el_expected_value = pr_value p,
           el_operator = pr_operator p,
           el_result =
             (if pr_fact p = ''battery_health_pct'' \<and> pr_operator p \<in> {''>='', ''<='', ''==''}
              then battery_result (pr_operator p) (pr_value p) value
              else if pr_fact p = ''repair_history'' \<and> pr_operator p = ''==''
              then repair_result (pr_value p) value
              else if pr_fact p = ''allowed_delivery_methods'' \<and> pr_operator p = ''contains''
              then delivery_result (pr_value p) value
              else ''UNSUPPORTED'')\<rparr>))"

fun evaluate_all :: "predicate list \<Rightarrow> (string \<Rightarrow> fact_row option) \<Rightarrow> nat \<Rightarrow> exn + evaluation list" where
  "evaluate_all [] facts i = Inr []"
| "evaluate_all (p # ps) facts i =
     ebind (evaluate p facts i) (\<lambda>e. ebind (evaluate_all ps facts (i + 1)) (\<lambda>es. Inr (e # es)))"

section \<open>Assessment\<close>

definition active_rules :: "db \<Rightarrow> int \<Rightarrow> string \<Rightarrow> time \<Rightarrow> shipping_rule list" where
  "active_rules d pid region now =
     filter (\<lambda>r. sr_product_id r = pid \<and> sr_region r = region \<and> sr_delivery r = ''shipping''
                 \<and> sr_active r \<and> now < sr_expires_at r) (trows (d_rules d))"

definition missing_fields :: "candidate \<Rightarrow> string list" where
  "missing_fields c =
     (if cd_amount c = None then [''amount''] else []) @
     (if cd_delivery c = None then [''delivery''] else []) @
     (if cd_payer c = None \<and> cd_delivery c \<noteq> Some ''pickup'' then [''payer''] else [])"

definition missing_conditions :: "evaluation list \<Rightarrow> string list" where
  "missing_conditions es =
     map (\<lambda>e. ''condition:'' @ el_fact e @ '':'' @ el_result e) (filter (\<lambda>e. el_result e \<noteq> ''SATISFIED'') es)"

definition missing_delivery :: "candidate \<Rightarrow> fact_row option \<Rightarrow> exn + string list" where
  "missing_delivery c allowed =
     (case cd_delivery c of
        None \<Rightarrow> Inr []
      | Some m \<Rightarrow>
          if m = [] then Inr []
          else case allowed of
            None \<Rightarrow> Inr [''fact:allowed_delivery_methods'']
          | Some f \<Rightarrow>
              ebind (fact_value f) (\<lambda>v. ebind (contains m v) (\<lambda>b.
              Inr (if b then [] else [''delivery_not_allowed'']))))"

definition cost_rule :: "db \<Rightarrow> int \<Rightarrow> candidate \<Rightarrow> time \<Rightarrow> string list \<times> shipping_rule option" where
  "cost_rule d pid c now =
     (if cd_delivery c = Some ''shipping'' \<and> cd_payer c = Some SellerPays then
        (case cd_region c of
           None \<Rightarrow> ([''region''], None)
         | Some r \<Rightarrow>
             if r = [] then ([''region''], None)
             else case active_rules d pid r now of
               [] \<Rightarrow> ([''cost_unknown''], None)
             | [x] \<Rightarrow> ([], Some x)
             | _ \<Rightarrow> ([''cost_ambiguous''], None))
      else ([], None))"

type_synonym assessment = "string list \<times> evaluation list \<times> quote_snapshot \<times> time"

definition assess :: "db \<Rightarrow> int \<Rightarrow> candidate \<Rightarrow> time \<Rightarrow> exn + assessment" where
  "assess d pid c now =
     (let facts = facts_for d pid; allowed = facts ''allowed_delivery_methods'' in
      ebind (evaluate_all (cd_conditions c) facts 0) (\<lambda>evaluations.
      ebind (missing_delivery c allowed) (\<lambda>delivery.
      let (cost, rule) = cost_rule d pid c now;
          missing = missing_fields c @ missing_conditions evaluations @ delivery @
            (if cd_commitments c \<noteq> [] then [''unsupported_commitment''] else []) @
            (if cd_delivery c = Some ''pickup'' \<and> cd_payer c = Some SellerPays
             then [''inconsistent_delivery''] else []) @ cost;
          snapshot = \<lparr>qs_rule_id = map_option sr_id rule, qs_rule_version = map_option sr_version rule,
            qs_shipping_cost = (case rule of None \<Rightarrow> 0 | Some r \<Rightarrow> sr_shipping_cost r),
            qs_discount = (case rule of None \<Rightarrow> 0 | Some r \<Rightarrow> sr_discount r),
            qs_delivery_fact_version = map_option pf_version allowed\<rparr>;
          expiry = (case rule of None \<Rightarrow> now + hours 24 | Some r \<Rightarrow> min (now + hours 24) (sr_expires_at r))
      in Inr (missing, evaluations, snapshot, expiry))))"

definition candidate_payer :: "candidate \<Rightarrow> payer" where
  \<comment> \<open>\<open>candidate.payer or "buyer"\<close>\<close>
  "candidate_payer c = (case cd_payer c of None \<Rightarrow> BuyerPays | Some p \<Rightarrow> p)"

definition quoted_terms :: "candidate \<Rightarrow> quote_snapshot \<Rightarrow> exn + terms" where
  "quoted_terms c snap =
     (case (cd_amount c, cd_delivery c) of
        (Some a, Some m) \<Rightarrow>
          (let t = \<lparr>tm_amount = a, tm_shipping_paid_by = candidate_payer c,
                    tm_shipping_cost = Some (qs_shipping_cost snap),
                    tm_seller_discount = Some (qs_discount snap),
                    tm_additional_terms = [(''delivery_method'', JStr m)]\<rparr>
           in if terms_ok t then Inr t else Inl (ValueExn ''terms''))
      | _ \<Rightarrow> Inl (ValueExn ''terms''))"

definition quote_in_transaction ::
    "string \<Rightarrow> int \<Rightarrow> candidate \<Rightarrow> time \<Rightarrow> db \<Rightarrow> exn + (cost_quote \<times> terms \<times> evaluation list) \<times> db" where
  \<comment> \<open>\<open>qid\<close> is the fresh identifier \<open>uuid4().hex\<close>\<close>
  "quote_in_transaction qid pid c now d =
     ebind (assess d pid c now) (\<lambda>(missing, evaluations, snapshot, expiry).
     if missing \<noteq> [] then Inl (Conflict ''evidence missing'')
     else
     let q = \<lparr>cq_id = qid, cq_product_id = pid,
              cq_scope = (cd_region c, cd_delivery c, candidate_payer c),
              cq_snapshot = snapshot, cq_created_at = now, cq_expires_at = expiry\<rparr> in
     ebind (tadd IntegrityExn qid q (d_quotes d)) (\<lambda>quotes.
     ebind (quoted_terms c snapshot) (\<lambda>t.
     Inr ((q, t, evaluations), d\<lparr>d_quotes := quotes\<rparr>))))"

definition valid_basis :: "db \<Rightarrow> int \<Rightarrow> int \<Rightarrow> time \<Rightarrow> exn + bool" where
  "valid_basis d pid oid now =
     (case tget (d_bases d) oid of
        None \<Rightarrow> Inr False
      | Some b \<Rightarrow>
      case tget (d_quotes d) (ob_cost_quote_id b) of
        None \<Rightarrow> Inr False
      | Some q \<Rightarrow>
      if cq_product_id q \<noteq> pid \<or> cq_expires_at q \<le> now then Inr False
      else ebind (assess d pid (ob_candidate b) now) (\<lambda>(missing, evaluations, snapshot, expiry).
        Inr (missing = [] \<and> snapshot = cq_snapshot q \<and> evaluations = ob_evaluations b)))"

definition candidate_ok :: "candidate \<Rightarrow> bool" where
  \<comment> \<open>the field constraints of \<open>Candidate\<close> and \<open>Predicate\<close>\<close>
  "candidate_ok c \<longleftrightarrow>
     (case cd_amount c of None \<Rightarrow> True | Some a \<Rightarrow> 0 < a \<and> a \<le> MAX_MONEY)
     \<and> cd_delivery c \<in> {None, Some ''pickup'', Some ''shipping''}
     \<and> (case cd_region c of None \<Rightarrow> True | Some r \<Rightarrow> 1 \<le> length r \<and> length r \<le> 80)
     \<and> length (cd_conditions c) \<le> 8 \<and> length (cd_commitments c) \<le> 8
     \<and> list_all (\<lambda>p. pr_fact p \<in> {''battery_health_pct'', ''repair_history'',
                                 ''allowed_delivery_methods'', ''unsupported''}
          \<and> pr_operator p \<in> {''>='', ''<='', ''=='', ''contains''}
          \<and> 1 \<le> length (pr_value p) \<and> length (pr_value p) \<le> 100
          \<and> 1 \<le> length (pr_source_quote p) \<and> length (pr_source_quote p) \<le> 500) (cd_conditions c)"

section \<open>What an assessment without gaps means\<close>

text \<open>The specification: everything the candidate rests on is confirmed by the seller.\<close>

definition supported :: "db \<Rightarrow> int \<Rightarrow> candidate \<Rightarrow> time \<Rightarrow> quote_snapshot \<Rightarrow> bool" where
  "supported d pid c now snap \<longleftrightarrow>
     cd_amount c \<noteq> None \<and> cd_commitments c = []
     \<and> (\<exists>m f v. cd_delivery c = Some m \<and> facts_for d pid ''allowed_delivery_methods'' = Some f
          \<and> fact_value f = Inr v \<and> contains m v = Inr True
          \<and> qs_delivery_fact_version snap = Some (pf_version f))
     \<and> (cd_payer c = None \<longrightarrow> cd_delivery c = Some ''pickup'')
     \<and> \<not> (cd_delivery c = Some ''pickup'' \<and> cd_payer c = Some SellerPays)
     \<and> (\<forall>i < length (cd_conditions c). \<exists>e. evaluate (cd_conditions c ! i) (facts_for d pid) i = Inr e
          \<and> el_result e = ''SATISFIED'')
     \<and> (if cd_delivery c = Some ''shipping'' \<and> cd_payer c = Some SellerPays
        then \<exists>region r. cd_region c = Some region \<and> region \<noteq> [] \<and> active_rules d pid region now = [r]
          \<and> qs_rule_id snap = Some (sr_id r) \<and> qs_rule_version snap = Some (sr_version r)
          \<and> qs_shipping_cost snap = sr_shipping_cost r \<and> qs_discount snap = sr_discount r
        else qs_rule_id snap = None \<and> qs_rule_version snap = None
          \<and> qs_shipping_cost snap = 0 \<and> qs_discount snap = 0)"

lemma evaluate_all_Inr:
  "evaluate_all ps facts k = Inr es \<longleftrightarrow>
     length es = length ps \<and> (\<forall>i < length ps. evaluate (ps ! i) facts (k + i) = Inr (es ! i))"
proof (induction ps arbitrary: k es)
  case (Cons p ps)
  show ?case
  proof (cases es)
    case (Cons e es')
    then show ?thesis
      by (auto simp: result_simps Cons.IH less_Suc_eq_0_disj)
  qed (simp add: result_simps)
qed auto

lemma evaluate_all_satisfied:
  "(\<exists>es. evaluate_all ps facts k = Inr es \<and> missing_conditions es = []) \<longleftrightarrow>
   (\<forall>i < length ps. \<exists>e. evaluate (ps ! i) facts (k + i) = Inr e \<and> el_result e = ''SATISFIED'')"
proof
  assume h: "\<forall>i < length ps. \<exists>e. evaluate (ps ! i) facts (k + i) = Inr e \<and> el_result e = ''SATISFIED''"
  then obtain e where e: "\<forall>i < length ps. evaluate (ps ! i) facts (k + i) = Inr (e i) \<and> el_result (e i) = ''SATISFIED''"
    by metis
  let ?es = "map e [0..<length ps]"
  have "evaluate_all ps facts k = Inr ?es" using e by (simp add: evaluate_all_Inr)
  moreover have "missing_conditions ?es = []" using e by (auto simp: missing_conditions_def)
  ultimately show "\<exists>es. evaluate_all ps facts k = Inr es \<and> missing_conditions es = []" by blast
next
  assume "\<exists>es. evaluate_all ps facts k = Inr es \<and> missing_conditions es = []"
  then obtain es where "length es = length ps" and "\<forall>i < length ps. evaluate (ps ! i) facts (k + i) = Inr (es ! i)"
    and "\<forall>e \<in> set es. el_result e = ''SATISFIED''"
    by (auto simp: evaluate_all_Inr missing_conditions_def filter_empty_conv)
  then show "\<forall>i < length ps. \<exists>e. evaluate (ps ! i) facts (k + i) = Inr e \<and> el_result e = ''SATISFIED''"
    by (metis nth_mem)
qed

lemma missing_delivery_Nil:
  "candidate_ok c \<Longrightarrow> missing_delivery c allowed = Inr [] \<longleftrightarrow>
     cd_delivery c = None \<or>
     (\<exists>m f v. cd_delivery c = Some m \<and> allowed = Some f \<and> fact_value f = Inr v \<and> contains m v = Inr True)"
  by (auto simp: missing_delivery_def candidate_ok_def result_simps split: option.splits)

lemma cost_rule_Nil:
  assumes "candidate_ok c"
  shows "cost_rule d pid c now = ([], rule) \<longleftrightarrow>
     (if cd_delivery c = Some ''shipping'' \<and> cd_payer c = Some SellerPays
      then \<exists>region r. cd_region c = Some region \<and> region \<noteq> [] \<and> active_rules d pid region now = [r] \<and> rule = Some r
      else rule = None)"
  by (auto simp: cost_rule_def split: option.splits list.splits)

lemma missing_fields_Nil:
  "missing_fields c = [] \<longleftrightarrow>
     cd_amount c \<noteq> None \<and> cd_delivery c \<noteq> None \<and> (cd_payer c = None \<longrightarrow> cd_delivery c = Some ''pickup'')"
  by (auto simp: missing_fields_def)

lemma assess_Inr:
  "assess d pid c now = Inr (missing, es, snap, expiry) \<longleftrightarrow>
     evaluate_all (cd_conditions c) (facts_for d pid) 0 = Inr es \<and>
     (\<exists>delivery cost rule. missing_delivery c (facts_for d pid ''allowed_delivery_methods'') = Inr delivery
        \<and> cost_rule d pid c now = (cost, rule)
        \<and> missing = missing_fields c @ missing_conditions es @ delivery @
            (if cd_commitments c \<noteq> [] then [''unsupported_commitment''] else []) @
            (if cd_delivery c = Some ''pickup'' \<and> cd_payer c = Some SellerPays
             then [''inconsistent_delivery''] else []) @ cost
        \<and> snap = \<lparr>qs_rule_id = map_option sr_id rule, qs_rule_version = map_option sr_version rule,
            qs_shipping_cost = (case rule of None \<Rightarrow> 0 | Some r \<Rightarrow> sr_shipping_cost r),
            qs_discount = (case rule of None \<Rightarrow> 0 | Some r \<Rightarrow> sr_discount r),
            qs_delivery_fact_version =
              map_option pf_version (facts_for d pid ''allowed_delivery_methods'')\<rparr>
        \<and> expiry = (case rule of None \<Rightarrow> now + hours 24 | Some r \<Rightarrow> min (now + hours 24) (sr_expires_at r)))"
  by (cases "cost_rule d pid c now") (auto simp: assess_def Let_def result_simps)

lemma assess_complete:
  "assess d pid c now = Inr ([], es, snap, expiry) \<longleftrightarrow>
     evaluate_all (cd_conditions c) (facts_for d pid) 0 = Inr es \<and> missing_conditions es = []
     \<and> missing_fields c = [] \<and> missing_delivery c (facts_for d pid ''allowed_delivery_methods'') = Inr []
     \<and> cd_commitments c = [] \<and> \<not> (cd_delivery c = Some ''pickup'' \<and> cd_payer c = Some SellerPays)
     \<and> (\<exists>rule. cost_rule d pid c now = ([], rule)
        \<and> snap = \<lparr>qs_rule_id = map_option sr_id rule, qs_rule_version = map_option sr_version rule,
            qs_shipping_cost = (case rule of None \<Rightarrow> 0 | Some r \<Rightarrow> sr_shipping_cost r),
            qs_discount = (case rule of None \<Rightarrow> 0 | Some r \<Rightarrow> sr_discount r),
            qs_delivery_fact_version =
              map_option pf_version (facts_for d pid ''allowed_delivery_methods'')\<rparr>
        \<and> expiry = (case rule of None \<Rightarrow> now + hours 24 | Some r \<Rightarrow> min (now + hours 24) (sr_expires_at r)))"
  unfolding assess_Inr by (auto split: if_splits)

text \<open>
  A candidate is assessed without gaps exactly when its amount is known, every condition on the
  product is satisfied by the seller's confirmed facts, the seller allows the delivery method, nothing
  outside the supported terms is asked for, and a seller-paid shipment is covered by exactly one
  active, unexpired cost rule for its region, whose costs are those of the quotation.
\<close>

theorem assess_supported:
  assumes "candidate_ok c"
  shows "(\<exists>es expiry. assess d pid c now = Inr ([], es, snap, expiry)) \<longleftrightarrow> supported d pid c now snap"
proof
  assume "\<exists>es expiry. assess d pid c now = Inr ([], es, snap, expiry)"
  then obtain es expiry where a: "assess d pid c now = Inr ([], es, snap, expiry)" by blast
  note parts = a [unfolded assess_complete]
  have conds: "\<forall>i < length (cd_conditions c). \<exists>e. evaluate (cd_conditions c ! i) (facts_for d pid) i = Inr e
      \<and> el_result e = ''SATISFIED''"
    using evaluate_all_satisfied [of "cd_conditions c" "facts_for d pid" 0] parts by auto
  obtain rule where rule: "cost_rule d pid c now = ([], rule)" and
    snap: "snap = \<lparr>qs_rule_id = map_option sr_id rule, qs_rule_version = map_option sr_version rule,
            qs_shipping_cost = (case rule of None \<Rightarrow> 0 | Some r \<Rightarrow> sr_shipping_cost r),
            qs_discount = (case rule of None \<Rightarrow> 0 | Some r \<Rightarrow> sr_discount r),
            qs_delivery_fact_version =
              map_option pf_version (facts_for d pid ''allowed_delivery_methods'')\<rparr>"
    using parts by blast
  show "supported d pid c now snap"
    using parts conds rule [unfolded cost_rule_Nil [OF assms]]
    unfolding supported_def missing_fields_Nil missing_delivery_Nil [OF assms] snap
    by (auto split: if_splits)
next
  assume h: "supported d pid c now snap"
  then obtain es where es: "evaluate_all (cd_conditions c) (facts_for d pid) 0 = Inr es" "missing_conditions es = []"
    using evaluate_all_satisfied [of "cd_conditions c" "facts_for d pid" 0] by (auto simp: supported_def)
  let ?paid = "cd_delivery c = Some ''shipping'' \<and> cd_payer c = Some SellerPays"
  obtain rule where rule: "cost_rule d pid c now = ([], rule)" and
    snap: "qs_rule_id snap = map_option sr_id rule" "qs_rule_version snap = map_option sr_version rule"
      "qs_shipping_cost snap = (case rule of None \<Rightarrow> 0 | Some r \<Rightarrow> sr_shipping_cost r)"
      "qs_discount snap = (case rule of None \<Rightarrow> 0 | Some r \<Rightarrow> sr_discount r)"
  proof (cases ?paid)
    case True
    with h obtain region r where "cd_region c = Some region" "region \<noteq> []" "active_rules d pid region now = [r]"
      and "qs_rule_id snap = Some (sr_id r)" "qs_rule_version snap = Some (sr_version r)"
        "qs_shipping_cost snap = sr_shipping_cost r" "qs_discount snap = sr_discount r"
      by (auto simp: supported_def)
    with True show ?thesis by (intro that [of "Some r"]) (auto simp: cost_rule_def)
  next
    case False
    with h show ?thesis by (intro that [of None]) (auto simp: cost_rule_def supported_def)
  qed
  have "missing_fields c = []" and del: "missing_delivery c (facts_for d pid ''allowed_delivery_methods'') = Inr []"
    using h by (auto simp: supported_def missing_fields_Nil missing_delivery_Nil [OF assms])
  moreover have "qs_delivery_fact_version snap = map_option pf_version (facts_for d pid ''allowed_delivery_methods'')"
    using h by (auto simp: supported_def)
  ultimately show "\<exists>es expiry. assess d pid c now = Inr ([], es, snap, expiry)"
    using es rule snap h unfolding assess_complete
    by (intro exI [of _ es] exI) (auto simp: supported_def)
qed

lemma active_rules_later:
  assumes "active_rules d pid region now = [r]" and "now \<le> now'" and "now' < sr_expires_at r"
    and "d_rules d' = d_rules d"
  shows "active_rules d' pid region now' = [r]"
proof -
  have "active_rules d' pid region now' = filter (\<lambda>r. now' < sr_expires_at r) (active_rules d pid region now)"
    using assms(2) unfolding active_rules_def assms(4) filter_filter by (intro filter_cong) auto
  with assms(1,3) show ?thesis by simp
qed

lemma facts_for_cong: "d_facts d' = d_facts d \<Longrightarrow> facts_for d' pid = facts_for d pid"
  by (simp add: facts_for_def fun_eq_iff)

lemma assess_later:
  assumes "assess d pid c now = Inr ([], es, snap, expiry)" and "now \<le> now'" and "now' < expiry"
    and "d_rules d' = d_rules d" and "d_facts d' = d_facts d"
  shows "\<exists>expiry'. assess d' pid c now' = Inr ([], es, snap, expiry')"
proof -
  note parts = assms(1) [unfolded assess_complete]
  obtain rule where rule: "cost_rule d pid c now = ([], rule)"
    and expiry: "expiry = (case rule of None \<Rightarrow> now + hours 24 | Some r \<Rightarrow> min (now + hours 24) (sr_expires_at r))"
    using parts by blast
  have "cost_rule d' pid c now' = ([], rule)"
  proof (cases "cd_delivery c = Some ''shipping'' \<and> cd_payer c = Some SellerPays")
    case True
    then obtain region r where r: "cd_region c = Some region" "region \<noteq> []" "active_rules d pid region now = [r]"
      "rule = Some r"
      using rule by (auto simp: cost_rule_def split: option.splits list.splits if_splits)
    then have "now' < sr_expires_at r" using assms(3) expiry by simp
    from active_rules_later [OF r(3) assms(2) this assms(4)] True r show ?thesis
      by (simp add: cost_rule_def)
  next
    case False
    with rule show ?thesis by (auto simp: cost_rule_def)
  qed
  then show ?thesis
    using parts rule unfolding assess_complete facts_for_cong [OF assms(5)]
    by auto
qed

text \<open>
  C38: A quotation that was made stays a valid basis of the offer submitted with it for its whole
  lifetime, as long as the seller changes no fact and no cost rule.
\<close>

theorem quoted_basis_valid:
  assumes "quote_in_transaction qid pid c now d = Inr ((q, t, es), d1)"
    and "tget (d_bases d2) oid = Some \<lparr>ob_offer_id = oid, ob_cost_quote_id = qid, ob_candidate = c,
           ob_evaluations = es\<rparr>"
    and "tget (d_quotes d2) qid = Some q"
    and "d_rules d2 = d_rules d" and "d_facts d2 = d_facts d"
    and "now \<le> now'" and "now' < cq_expires_at q"
  shows "valid_basis d2 pid oid now' = Inr True"
proof -
  from assms(1) obtain snap expiry where a: "assess d pid c now = Inr ([], es, snap, expiry)"
    and q: "cq_expires_at q = expiry" "cq_snapshot q = snap" "cq_product_id q = pid"
    unfolding quote_in_transaction_def by (elim result_elims) auto
  obtain expiry' where "assess d2 pid c now' = Inr ([], es, snap, expiry')"
    using assess_later [OF a assms(6)] assms(4,5,7) q(1) by auto
  then show ?thesis using assms(2,3,7) q by (simp add: valid_basis_def)
qed

text \<open>
  An offer's basis is found valid only while its quotation is unexpired and belongs to the product,
  every premise of the candidate still evaluates, against the seller's current facts, exactly as when
  it was quoted, and the costs are still those of the current cost rule.
\<close>

theorem valid_basis_sound:
  assumes "valid_basis d pid oid now = Inr True"
    and "\<And>b. tget (d_bases d) oid = Some b \<Longrightarrow> candidate_ok (ob_candidate b)"
  shows "\<exists>b q. tget (d_bases d) oid = Some b \<and> tget (d_quotes d) (ob_cost_quote_id b) = Some q
    \<and> cq_product_id q = pid \<and> now < cq_expires_at q
    \<and> supported d pid (ob_candidate b) now (cq_snapshot q)
    \<and> evaluate_all (cd_conditions (ob_candidate b)) (facts_for d pid) 0 = Inr (ob_evaluations b)"
proof -
  obtain b q where b: "tget (d_bases d) oid = Some b" and q: "tget (d_quotes d) (ob_cost_quote_id b) = Some q"
    and t: "cq_product_id q = pid" "now < cq_expires_at q"
    and a: "ebind (assess d pid (ob_candidate b) now) (\<lambda>(missing, evaluations, snapshot, expiry).
        Inr (missing = [] \<and> snapshot = cq_snapshot q \<and> evaluations = ob_evaluations b)) = Inr True"
    using assms(1) by (auto simp: valid_basis_def split: option.splits if_splits)
  from a obtain expiry where "assess d pid (ob_candidate b) now = Inr ([], ob_evaluations b, cq_snapshot q, expiry)"
    by (elim result_elims) auto
  moreover from this have "supported d pid (ob_candidate b) now (cq_snapshot q)"
    using assess_supported [OF assms(2) [OF b]] by blast
  ultimately show ?thesis using b q t by (auto simp: assess_complete)
qed

section \<open>Normal forms of facts\<close>

lemma digit_char: "n < 10 \<Longrightarrow> is_digit (char_of (48 + n :: nat))"
  by (simp add: is_digit_def Let_def)

lemma scan_digits_append:
  "read_digits v ds = Some w \<Longrightarrow> scan_digits v n (ds @ rest) = scan_digits w (n + length ds) rest"
  by (induction v ds arbitrary: n rule: read_digits.induct) (auto simp: is_digit_def Let_def split: if_splits)

lemma two_digits:
  "scan_digits a 0 [char_of (48 + p mod 10 :: nat), char_of (48 + q mod 10 :: nat)]
     = ((a * 10 + p mod 10) * 10 + q mod 10, 2, [])"
proof -
  have "48 + p mod 10 < 256" and "48 + q mod 10 < (256 :: nat)" by simp_all
  then show ?thesis using digit_char [of "p mod 10"] digit_char [of "q mod 10"] by simp
qed

definition show_hundredths :: "nat \<Rightarrow> string" where
  "show_hundredths n = show_nat (n div 100) @ ''.'' @ [char_of (48 + n mod 100 div 10), char_of (48 + n mod 10)]"

lemma parse_number_hundredths: "parse_number neg (show_hundredths n) = Some (Finite neg n (- 2))"
proof -
  have "scan_digits 0 0 (show_hundredths n) = (n div 100, length (show_nat (n div 100)), drop (length (show_nat (n div 100))) (show_hundredths n))"
    unfolding show_hundredths_def
    using scan_digits_append [OF read_digits_show, of 0]
    by (simp add: is_digit_def Let_def)
  moreover have "scan_digits (n div 100) 0 [char_of (48 + n mod 100 div 10), char_of (48 + n mod 10)] = (n, 2, [])"
  proof -
    have d: "n mod 100 div 10 mod 10 = n mod 100 div 10" by simp
    have "n mod 100 mod 10 = n mod 10" by (simp add: mod_mod_cancel)
    then have "n mod 100 div 10 * 10 + n mod 10 = n mod 100" using div_mult_mod_eq [of "n mod 100" 10] by simp
    moreover have "(w * 10 + x) * 10 + y = m" if "x * 10 + y = z" "w * 100 + z = m" for w x y z m :: nat
      using that by simp
    ultimately have e: "(n div 100 * 10 + n mod 100 div 10) * 10 + n mod 10 = n"
      using div_mult_mod_eq [of n 100] by blast
    show ?thesis using two_digits [of "n div 100" "n mod 100 div 10" n] unfolding d e .
  qed
  moreover have "drop (length (show_nat (n div 100))) (show_hundredths n) =
      CHR ''.'' # [char_of (48 + n mod 100 div 10), char_of (48 + n mod 10)]"
    by (simp add: show_hundredths_def)
  ultimately show ?thesis unfolding parse_number_def by simp
qed

definition dec_val :: "bool \<Rightarrow> nat \<Rightarrow> int \<Rightarrow> real" where
  "dec_val s c e = (if s then - 1 else 1) * of_nat c * 10 powi e"

lemma dec_val_scaled:
  assumes "m \<le> e"
  shows "real_of_int ((if s then - 1 else 1) * (int c * 10 ^ nat (e - m))) = dec_val s c e * 10 powi (- m)"
proof -
  have "(10 :: real) ^ nat (e - m) = 10 powi (e - m)" using assms by (simp add: power_int_def)
  also have "\<dots> = 10 powi e * 10 powi (- m)" by (simp add: power_int_add [symmetric])
  finally show ?thesis by (simp add: dec_val_def)
qed

lemma dec_le_val: "dec_le (Finite s c e) (Finite s' c' e') \<longleftrightarrow> dec_val s c e \<le> dec_val s' c' e'"
proof -
  define m where "m = min e e'"
  let ?x = "(if s then - 1 else 1) * (int c * 10 ^ nat (e - m))"
  let ?y = "(if s' then - 1 else 1) * (int c' * 10 ^ nat (e' - m))"
  have "dec_le (Finite s c e) (Finite s' c' e') \<longleftrightarrow> ?x \<le> ?y"
    by (simp add: dec_le_def m_def Let_def)
  also have "\<dots> \<longleftrightarrow> real_of_int ?x \<le> real_of_int ?y" by (simp only: of_int_le_iff)
  also have "\<dots> \<longleftrightarrow> dec_val s c e \<le> dec_val s' c' e'"
    unfolding dec_val_scaled [of m e s c, OF min.cobounded1 [of e e', folded m_def]]
      dec_val_scaled [of m e' s' c', OF min.cobounded2 [of e e', folded m_def]]
    by (simp add: zero_less_power_int)
  finally show ?thesis .
qed

definition hundredths :: "nat \<Rightarrow> int \<Rightarrow> nat" where
  "hundredths c e = (if - 2 \<le> e then c * 10 ^ nat (e + 2) else c div 10 ^ nat (- 2 - e))"

lemma hundredths_val:
  assumes "whole_cents (Finite s c e)"
  shows "dec_val s (hundredths c e) (- 2) = dec_val s c e"
proof (cases "- 2 \<le> e")
  case True
  then have "(10 :: real) ^ nat (e + 2) = 10 powi (e + 2)" by (simp add: power_int_def)
  moreover have "(10 :: real) powi (e + 2) * 10 powi (- 2) = 10 powi e"
    using power_int_add [of "10 :: real" "e + 2" "- 2"] by simp
  ultimately have "(10 :: real) ^ nat (e + 2) * 10 powi (- 2) = 10 powi e" by simp
  with True show ?thesis by (simp add: dec_val_def hundredths_def)
next
  case False
  let ?k = "nat (- 2 - e)"
  have "c mod 10 ^ ?k = 0" using assms False by (simp add: whole_cents_def)
  then have "c = c div 10 ^ ?k * 10 ^ ?k" by (metis add.right_neutral div_mult_mod_eq)
  then have "real c = real (c div 10 ^ ?k) * 10 ^ ?k"
    by (metis of_nat_mult of_nat_numeral of_nat_power)
  moreover have "(10 :: real) ^ ?k * 10 powi e = 10 powi (- 2)"
  proof -
    have "(10 :: real) ^ ?k = 10 powi (- 2 - e)" using False by (simp add: power_int_def)
    then show ?thesis using power_int_add [of "10 :: real" "- 2 - e" e] by simp
  qed
  ultimately have "real c * 10 powi e = real (c div 10 ^ ?k) * 10 powi (- 2)"
    by (simp add: mult.assoc)
  with False show ?thesis by (simp add: dec_val_def hundredths_def)
qed

lemma percentage_hundredths:
  assumes "whole_cents (Finite s c e)" and "percentage (Finite s c e)"
  shows "percentage (Finite s (hundredths c e) (- 2))"
  using assms(2) by (simp add: percentage_def dec_nat_def dec_le_val hundredths_val [OF assms(1)])

lemma show_decimal2_hundredths:
  "show_decimal2 (Finite s c e) = (if s then ''-'' else '''') @ show_hundredths (hundredths c e)"
  by (simp add: show_decimal2_def show_hundredths_def hundredths_def Let_def)

lemma show_hundredths_chars:
  assumes "c \<in> set (show_hundredths n)"
  shows "of_char c = (46 :: nat) \<or> 48 \<le> (of_char c :: nat) \<and> (of_char c :: nat) \<le> 57"
proof -
  have k: "of_char (char_of (48 + k :: nat)) = 48 + k" if "k < 10" for k using that by simp
  have "n mod 100 div 10 < 10" "n mod 10 < 10" by (simp_all add: less_mult_imp_div_less)
  note digits = k [OF this(1)] k [OF this(2)]
  from assms consider "c \<in> set (show_nat (n div 100))" | "c = CHR ''.''"
    | "c = char_of (48 + n mod 100 div 10)" | "c = char_of (48 + n mod 10)"
    unfolding show_hundredths_def by auto
  then show ?thesis
  proof cases
    case 1
    then show ?thesis using show_nat_digits [of c "n div 100"] by simp
  next
    case 3
    then show ?thesis unfolding 3 digits(1) using \<open>n mod 100 div 10 < 10\<close> by linarith
  next
    case 4
    then show ?thesis unfolding 4 digits(2) using \<open>n mod 10 < 10\<close> by linarith
  qed simp
qed

lemma show_hundredths_plain:
  assumes "c \<in> set (show_hundredths n)"
  shows "\<not> is_space c" and "c \<noteq> CHR ''_''" and "c \<noteq> CHR ''-''" and "c \<noteq> CHR ''+''"
    and "lower c = c" and "c \<noteq> CHR ''i''" and "c \<noteq> CHR ''n''" and "c \<noteq> CHR ''s''"
  using show_hundredths_chars [OF assms] by (auto simp: is_space_def lower_def Let_def)

lemma show_hundredths_Cons: "\<exists>c cs. show_hundredths n = c # cs"
  by (cases "show_hundredths n") (auto simp: show_hundredths_def)

lemma strip_plain: "(\<And>c. c \<in> set s \<Longrightarrow> \<not> is_space c) \<Longrightarrow> strip s = s"
proof -
  assume h: "\<And>c. c \<in> set s \<Longrightarrow> \<not> is_space c"
  have "dropWhile is_space t = t" if "\<And>c. c \<in> set t \<Longrightarrow> \<not> is_space c" for t
    using that by (cases t) auto
  from this [of s] this [of "rev s"] h show "strip s = s" by (simp add: strip_def)
qed

lemma parse_hundredths:
  "parse_decimal ((if s then ''-'' else '''') @ show_hundredths n) = Some (Finite s n (- 2))"
proof -
  let ?h = "show_hundredths n"
  let ?t = "(if s then ''-'' else '''') @ ?h"
  obtain c cs where h: "?h = c # cs" using show_hundredths_Cons by blast
  note plain = show_hundredths_plain [of _ n]
  have "strip ?t = ?t" using plain(1) by (intro strip_plain) (auto simp: is_space_def Let_def split: if_splits)
  moreover have "filter (\<lambda>c. c \<noteq> CHR ''_'') ?t = ?t" using plain(2) by (auto simp: filter_id_conv)
  moreover have "take_sign ?t = (s, ?h)"
  proof (cases s)
    case False
    then show ?thesis using plain(3,4) [of c] h by (cases "(c # cs)" rule: take_sign.cases) auto
  qed simp
  moreover have "map lower ?h = ?h" using plain(5) by (auto intro: map_idI)
  moreover have "?h \<noteq> ''inf''" "?h \<noteq> ''infinity''" "take 3 ?h \<noteq> ''nan''" "take 4 ?h \<noteq> ''snan''"
    using plain(6,7,8) [of c] h by auto
  ultimately show ?thesis
    unfolding parse_decimal_def by (simp add: parse_number_hundredths)
qed

lemma normalized_battery:
  assumes "normalized_value ''battery_health_pct'' v = Inr w" and "w \<noteq> JNull"
  obtains s n where "w = JStr ((if s then ''-'' else '''') @ show_hundredths n)"
    and "percentage (Finite s n (- 2))"
proof -
  from assms obtain x where w: "w = JStr (show_decimal2 x)" and p: "percentage x" "whole_cents x"
    by (auto simp: normalized_value_def split: if_splits option.splits)
  then obtain s c e where x: "x = Finite s c e" by (cases x) (auto simp: percentage_def)
  show thesis
  proof (rule that)
    show "w = JStr ((if s then ''-'' else '''') @ show_hundredths (hundredths c e))"
      unfolding w x show_decimal2_hundredths ..
    show "percentage (Finite s (hundredths c e) (- 2))"
      using p unfolding x by (intro percentage_hundredths)
  qed
qed

lemma normalized_value_idem: "normalized_value a v = Inr w \<Longrightarrow> normalized_value a w = Inr w"
proof (cases "a = ''battery_health_pct''")
  case True
  assume h: "normalized_value a v = Inr w"
  show ?thesis
  proof (cases "w = JNull")
    case True
    with \<open>a = ''battery_health_pct''\<close> show ?thesis by (simp add: normalized_value_def)
  next
    case False
    with h True obtain s n where w: "w = JStr ((if s then ''-'' else '''') @ show_hundredths n)"
      and p: "percentage (Finite s n (- 2))"
      using normalized_battery by blast
    have "show_decimal2 (Finite s n (- 2)) = (if s then ''-'' else '''') @ show_hundredths n"
      unfolding show_decimal2_hundredths by (simp add: hundredths_def)
    moreover have "whole_cents (Finite s n (- 2))" by (simp add: whole_cents_def)
    ultimately show ?thesis
      unfolding True w normalized_value_def using parse_hundredths [of s n] p
      by simp
  qed
next
  case False
  assume "normalized_value a v = Inr w"
  with False show ?thesis
    by (auto simp: normalized_value_def split: if_splits json.splits)
qed

text \<open>
  What the store of facts accepts is in normal form: a fact that was normalised is accepted again
  and stored as the very same value, so two equal facts have equal evidence.
\<close>

theorem normalize_fact_idempotent:
  assumes "normalize_fact a v = Inr j"
  shows "normalize_fact a (jget j ''value'') = Inr j"
proof -
  obtain kind unit w where k: "fact_kind a = Some (kind, unit)" and w: "normalized_value a v = Inr w"
    and j: "j = JObj [(''type'', JStr kind), (''unit'', JStr unit), (''value'', w)]"
    using assms by (auto simp: normalize_fact_def result_simps split: option.splits)
  have "normalized_value a w = Inr w" using w by (rule normalized_value_idem)
  with k j show ?thesis by (simp add: normalize_fact_def)
qed

section \<open>The properties on a product\<close>

definition sample_facts_db :: db where
  "sample_facts_db = empty_db\<lparr>
     d_facts := [(''f1'', \<lparr>pf_id = ''f1'', pf_product_id = 1, pf_attribute = ''battery_health_pct'',
                    pf_value = JObj [(''type'', JStr ''decimal''), (''unit'', JStr ''percent''),
                      (''value'', JStr ''87.50'')], pf_version = 1\<rparr>),
                 (''f2'', \<lparr>pf_id = ''f2'', pf_product_id = 1, pf_attribute = ''allowed_delivery_methods'',
                    pf_value = JObj [(''type'', JStr ''set''), (''unit'', JStr ''none''),
                      (''value'', JArr [JStr ''shipping''])], pf_version = 1\<rparr>)],
     d_rules := [(''r1'', \<lparr>sr_id = ''r1'', sr_product_id = 1, sr_region = ''A'', sr_delivery = ''shipping'',
                    sr_shipping_cost = 1200, sr_discount = 0, sr_version = 3, sr_active = True,
                    sr_expires_at = hours 48\<rparr>)]\<rparr>"

definition sample_candidate :: candidate where
  "sample_candidate = \<lparr>cd_amount = Some 12000, cd_delivery = Some ''shipping'', cd_payer = Some SellerPays,
     cd_region = Some ''A'', cd_conditions = [\<lparr>pr_fact = ''battery_health_pct'', pr_operator = ''>='',
       pr_value = ''85'', pr_source_quote = ''q''\<rparr>], cd_commitments = []\<rparr>"

definition sample_snapshot :: quote_snapshot where
  "sample_snapshot = \<lparr>qs_rule_id = Some ''r1'', qs_rule_version = Some 3, qs_shipping_cost = 1200,
     qs_discount = 0, qs_delivery_fact_version = Some 1\<rparr>"

definition sample_evaluation :: evaluation where
  "sample_evaluation = \<lparr>el_predicate_id = ''0'', el_fact = ''battery_health_pct'', el_fact_version = Some 1,
     el_expected_value = ''85'', el_operator = ''>='', el_result = ''SATISFIED''\<rparr>"

lemma sample_candidate_ok: "candidate_ok sample_candidate"
  by (simp add: candidate_ok_def sample_candidate_def MAX_MONEY_def)

lemma sample_numbers:
  "parse_decimal ''85'' = Some (Finite False 85 0)" "parse_decimal ''87.50'' = Some (Finite False 8750 (- 2))"
  by (simp_all add: parse_decimal_def parse_number_def strip_def is_space_def lower_def is_digit_def Let_def)

lemma sample_assess:
  "assess sample_facts_db 1 sample_candidate 0 = Inr ([], [sample_evaluation], sample_snapshot, hours 24)"
  by (simp add: assess_def sample_facts_db_def empty_db_def sample_candidate_def facts_for_def trows_def
      evaluate_def fact_value_def battery_result_def sample_numbers percentage_def dec_le_def dec_nat_def
      satisfied_def show_nat.simps digit_chars missing_delivery_def cost_rule_def active_rules_def missing_fields_def
      missing_conditions_def sample_snapshot_def sample_evaluation_def hours_def minutes_def seconds_def Let_def)

theorem assess_supported_witness: "supported sample_facts_db 1 sample_candidate 0 sample_snapshot"
  using assess_supported [OF sample_candidate_ok, of sample_facts_db 1 0 sample_snapshot] sample_assess
  by blast

definition sample_quote :: cost_quote where
  "sample_quote = \<lparr>cq_id = ''q1'', cq_product_id = 1, cq_scope = (Some ''A'', Some ''shipping'', SellerPays),
     cq_snapshot = sample_snapshot, cq_created_at = 0, cq_expires_at = hours 24\<rparr>"

definition sample_quoted :: db where
  "sample_quoted = sample_facts_db\<lparr>d_quotes := [(''q1'', sample_quote)],
     d_bases := [(7, \<lparr>ob_offer_id = 7, ob_cost_quote_id = ''q1'', ob_candidate = sample_candidate,
        ob_evaluations = [sample_evaluation]\<rparr>)]\<rparr>"

lemma sample_quote_made:
  "\<exists>t d1. quote_in_transaction ''q1'' 1 sample_candidate 0 sample_facts_db
     = Inr ((sample_quote, t, [sample_evaluation]), d1)"
  unfolding quote_in_transaction_def sample_assess
  by (simp add: tadd_def sample_facts_db_def empty_db_def
      quoted_terms_def sample_candidate_def terms_ok_def coherent_delivery_def candidate_payer_def
      sample_snapshot_def MAX_MONEY_def sample_quote_def Let_def)

lemma sample_quoted_valid: "valid_basis sample_quoted 1 7 (hours 1) = Inr True"
proof -
  obtain expiry where "assess sample_quoted 1 sample_candidate (hours 1)
      = Inr ([], [sample_evaluation], sample_snapshot, expiry)"
    using assess_later [OF sample_assess, of "hours 1" sample_quoted]
    by (auto simp: sample_quoted_def hours_def minutes_def seconds_def)
  then show ?thesis
    by (simp add: valid_basis_def sample_quoted_def sample_quote_def hours_def minutes_def seconds_def)
qed

theorem quoted_basis_valid_witness: "valid_basis sample_quoted 1 7 (hours 2) = Inr True"
proof -
  obtain t d1 where "quote_in_transaction ''q1'' 1 sample_candidate 0 sample_facts_db
     = Inr ((sample_quote, t, [sample_evaluation]), d1)"
    using sample_quote_made by blast
  then show ?thesis
    by (rule quoted_basis_valid)
      (simp_all add: sample_quoted_def sample_quote_def hours_def minutes_def seconds_def)
qed

theorem valid_basis_sound_witness: "supported sample_quoted 1 sample_candidate (hours 1) sample_snapshot"
proof -
  have "candidate_ok (ob_candidate b)" if "tget (d_bases sample_quoted) 7 = Some b" for b
    using that sample_candidate_ok by (auto simp: sample_quoted_def)
  from valid_basis_sound [OF sample_quoted_valid this] show ?thesis
    by (auto simp: sample_quoted_def sample_quote_def)
qed

theorem normalize_fact_idempotent_witness:
  "normalize_fact ''battery_health_pct'' (JStr ''87.50'')
     = Inr (JObj [(''type'', JStr ''decimal''), (''unit'', JStr ''percent''), (''value'', JStr ''87.50'')])"
proof -
  have "normalize_fact ''battery_health_pct'' (JStr '' 87.5 '')
     = Inr (JObj [(''type'', JStr ''decimal''), (''unit'', JStr ''percent''), (''value'', JStr ''87.50'')])"
    by (simp add: normalize_fact_def fact_kind_def normalized_value_def parse_decimal_def parse_number_def
        strip_def is_space_def lower_def is_digit_def percentage_def dec_le_def dec_nat_def whole_cents_def
        show_decimal2_def show_nat.simps digit_chars Let_def)
  from normalize_fact_idempotent [OF this] show ?thesis by simp
qed

end
