(* ===== verification/Lifecycle.thy ===== *)
theory Lifecycle
  imports Approval
begin

text \<open>
  \<open>backend/app/services/approval_lifecycle.py\<close>: the writes on approvals, offers and their events that the
  graph runtime composes. The caller owns the transaction; rows are named by their identifiers and
  every function returns the database after its writes, or the exception that aborts the transaction.

  \<open>H\<close> is the digest: SHA-256 of the canonical JSON text of a value.
\<close>

section \<open>Operations\<close>

definition approval_key :: "int \<Rightarrow> string \<Rightarrow> string" where
  "approval_key aid suffix = ''approval:'' @ show_int aid @ '':'' @ suffix"

definition approval_thread :: "int \<Rightarrow> string" where
  "approval_thread aid = approval_key aid ''v1''"

definition event_in_transaction :: "int \<Rightarrow> string \<Rightarrow> string \<Rightarrow> db \<Rightarrow> db" where
  "event_in_transaction aid suffix kind =
     (let key = approval_key aid suffix in
      d_outbox_update (tadd_ignore key
        \<lparr>ob_id = key, ob_delivery_id = None, ob_approval_id = Some aid,
         ob_payload = JObj [(''schema'', JInt 1), (''approval_id'', JInt aid), (''kind'', JStr kind)],
         ob_status = OB_PENDING\<rparr>))"

definition start_approval :: "int \<Rightarrow> db \<Rightarrow> exn + db" where
  "start_approval aid d =
     (let d1 = mod_approval aid (\<lambda>a. a\<lparr>ap_effect_status := Some NOT_APPLIED, ap_effect_revision := 0\<rparr>) d in
      ebind (tadd IntegrityExn aid
        \<lparr>ex_approval_id = aid, ex_graph_version = ''approval-v1'', ex_lease_token = None,
         ex_lease_until = None, ex_ownership_epoch = 0, ex_checkpoint_ref = None,
         ex_recovery_required = False, ex_attempts = 0, ex_next_retry_at = None\<rparr>
        (d_executions d1)) (\<lambda>es.
      Inr (event_in_transaction aid ''requested'' ''REQUESTED'' (d1\<lparr>d_executions := es\<rparr>))))"

definition notice_key :: "approval \<Rightarrow> string" where
  "notice_key a = approval_key (ap_id a) (''result:'' @ show_int (ap_effect_revision a))"

definition effect_notice :: "int \<Rightarrow> int \<Rightarrow> string \<Rightarrow> time \<Rightarrow> db \<Rightarrow> exn + db" where
  "effect_notice sid aid outcome now d =
     (case (get_session d sid, get_approval d aid) of
        (Some n, Some a) \<Rightarrow>
          let source = notice_key a;
              row = \<lparr>nd_id = source, nd_input_id = None, nd_session_id = Some (ns_id n),
                     nd_approval_id = Some aid, nd_source_thread_id = approval_thread aid,
                     nd_status = ND_PENDING,
                     nd_result = JObj [(''outcome'', JStr outcome), (''offer_id'', JInt (ap_offer_id a)),
                       (''approval_id'', JInt aid), (''effect_revision'', JInt (ap_effect_revision a)),
                       (''business_version'', JInt (ns_version n)),
                       (''invalid_reason'', jopt JStr (ap_invalid_reason a))],
                     nd_reply_deadline = now, nd_public_message_id = None, nd_lease_token = None,
                     nd_lease_until = None, nd_attempts = 0, nd_next_retry_at = None\<rparr>;
              d1 = d_deliveries_update (tadd_ignore source row) d;
              d2 = d_outbox_update (tadd_ignore source
                     \<lparr>ob_id = source, ob_delivery_id = Some source, ob_approval_id = None,
                      ob_payload = JObj [(''schema'', JInt 1), (''delivery_id'', JStr source)],
                      ob_status = OB_PENDING\<rparr>) d1
          in ebind (some_or AttributeExn (get_delivery d2 source)) (\<lambda>del.
             Inr (mod_approval aid (\<lambda>x. x\<lparr>ap_notification_status := Some (nd_status del)\<rparr>) d2))
      | _ \<Rightarrow> Inl AttributeExn)"

definition invalidate_approval ::
    "(json \<Rightarrow> string) \<Rightarrow> time \<Rightarrow> string \<Rightarrow> int \<Rightarrow> bool \<Rightarrow> (int \<times> int) option \<Rightarrow> int \<Rightarrow> db \<Rightarrow> exn + db" where
  \<comment> \<open>\<open>versions\<close> are \<open>before_version\<close> and \<open>after_version\<close>; \<open>None\<close>: those of the session\<close>
  "invalidate_approval H now reason sid expired versions aid d =
     (case (get_session d sid, get_approval d aid) of
        (Some n, Some a) \<Rightarrow>
          if ap_effect_status a = Some INVALIDATED then Inr d
          else
          let revision = ap_effect_revision a + 1;
              d1 = mod_approval aid (\<lambda>x. x\<lparr>
                     ap_status := (if ap_status x = AP_PENDING
                                   then (if expired then AP_EXPIRED else AP_CANCELLED) else ap_status x),
                     ap_effect_status := Some INVALIDATED, ap_effect_revision := revision,
                     ap_invalid_reason := Some reason, ap_invalidated_at := Some now\<rparr>) d;
              (before, after) = (case versions of None \<Rightarrow> (ns_version n, ns_version n) | Some p \<Rightarrow> p)
          in
          ebind (tadd IntegrityExn (approval_key aid (''invalidate:'' @ show_int revision))
            \<lparr>rc_input_id = None,
             rc_command_hash = H (JArr [JInt aid, JInt revision, JStr reason]),
             rc_result = JObj [(''outcome'', JStr ''APPROVAL_INVALIDATED''), (''approval_id'', JInt aid),
               (''offer_id'', JInt (ap_offer_id a)), (''invalid_reason'', JStr reason)],
             rc_before_version = before, rc_after_version = after, rc_committed_at = now\<rparr>
            (d_receipts d1)) (\<lambda>rs.
          effect_notice sid aid ''APPROVAL_INVALIDATED'' now
            (event_in_transaction aid (''invalidated:'' @ show_int revision) ''INVALIDATED''
              (d1\<lparr>d_receipts := rs\<rparr>)))
      | _ \<Rightarrow> Inl AttributeExn)"

definition approvals_of_offer :: "db \<Rightarrow> int \<Rightarrow> int list" where
  "approvals_of_offer d oid = map ap_id (filter (\<lambda>a. ap_offer_id a = oid) (trows (d_approvals d)))"

definition close_offer :: "int \<Rightarrow> time \<Rightarrow> string \<Rightarrow> db \<Rightarrow> db" where
  \<comment> \<open>the writes of \<open>invalidate_offer\<close> on the offer itself\<close>
  "close_offer oid now reason =
     mod_offer oid (\<lambda>x. x\<lparr>of_status := (if of_proposer x = BUYER then WITHDRAWN else REJECTED),
                          of_invalid_reason := Some reason, of_invalidated_at := Some now\<rparr>)"

definition drop_current :: "int \<Rightarrow> int \<Rightarrow> db \<Rightarrow> db" where
  \<comment> \<open>its writes on the session, when the offer is the current one\<close>
  "drop_current sid oid =
     mod_session sid (\<lambda>n. if ns_current_offer_id n = Some oid
       then n\<lparr>ns_current_offer_id := None,
               ns_status := (if ns_status n = WAITING_APPROVAL then ACTIVE else ns_status n)\<rparr>
       else n)"

definition invalidate_offer ::
    "(json \<Rightarrow> string) \<Rightarrow> time \<Rightarrow> string \<Rightarrow> int \<Rightarrow> offer option \<Rightarrow> db \<Rightarrow> exn + db" where
  "invalidate_offer H now reason sid off d =
     (case off of
        None \<Rightarrow> Inr d
      | Some x \<Rightarrow>
          if of_status x \<notin> {PROPOSED, ACCEPTED} then Inr d
          else
          ebind (some_or AttributeExn (get_session d sid)) (\<lambda>n.
          let d1 = drop_current sid (of_id x) (close_offer (of_id x) now reason d);
              versions = (ns_version n,
                ns_version n + (if ns_current_offer_id n = Some (of_id x) then 1 else 0))
          in
          ebind (efold (invalidate_approval H now reason sid False (Some versions))
                  (approvals_of_offer d1 (of_id x)) d1) flush_approvals))"

definition supersede :: "offer option \<Rightarrow> int \<Rightarrow> db \<Rightarrow> db" where
  "supersede old new_id d =
     (case old of
        None \<Rightarrow> d
      | Some o1 \<Rightarrow>
          (case get_offer d (of_id o1) of
             None \<Rightarrow> d
           | Some cur \<Rightarrow>
               if of_invalid_reason cur \<noteq> Some ''REPLACED'' then d
               else fold (\<lambda>aid. mod_approval aid (\<lambda>a. a\<lparr>ap_superseded_by := Some new_id\<rparr>))
                      (approvals_of_offer d (of_id o1))
                      (mod_offer (of_id o1) (\<lambda>x. x\<lparr>of_superseded_by := Some new_id\<rparr>) d)))"

definition close_drafts :: "int \<Rightarrow> db \<Rightarrow> db" where
  "close_drafts sid =
     d_drafts_update (map (\<lambda>(k, r).
       (k, if dr_session_id r = sid \<and> dr_status r \<in> {DR_PENDING, DR_READY}
           then r\<lparr>dr_status := DR_WITHDRAWN\<rparr> else r)))"

datatype public_approval =
    NoApproval | ApprovalInvalid | DeadlinePassed | AwaitingSeller | ApprovedNotApplied | ApprovedApplied
  | ApprovalRejected | ApprovalCancelled | ApprovalExpired
  \<comment> \<open>the sentence shown to the buyer\<close>

definition public_approval_status :: "db \<Rightarrow> int \<Rightarrow> time \<Rightarrow> public_approval" where
  "public_approval_status d sid now =
     (case newest (\<lambda>a. ap_session_id a = sid) (d_approvals d) of
        None \<Rightarrow> NoApproval
      | Some a \<Rightarrow>
          if ap_effect_status a = Some INVALIDATED then ApprovalInvalid
          else case ap_status a of
            AP_PENDING \<Rightarrow> if ap_expires_at a \<le> now then DeadlinePassed else AwaitingSeller
          | AP_APPROVED \<Rightarrow>
              if ap_effect_status a = Some NOT_APPLIED then ApprovedNotApplied else ApprovedApplied
          | AP_REJECTED \<Rightarrow> ApprovalRejected
          | AP_CANCELLED \<Rightarrow> ApprovalCancelled
          | AP_EXPIRED \<Rightarrow> ApprovalExpired)"

section \<open>What the operations may change\<close>

definition effects_only :: "db \<Rightarrow> db \<Rightarrow> bool" where
  \<comment> \<open>only approvals, receipts, deliveries and events differ\<close>
  "effects_only d d' \<longleftrightarrow>
     d_users d' = d_users d \<and> d_products d' = d_products d \<and> d_policies d' = d_policies d
     \<and> d_sessions d' = d_sessions d \<and> d_offers d' = d_offers d \<and> d_executions d' = d_executions d
     \<and> d_causal d' = d_causal d \<and> d_evidence d' = d_evidence d \<and> d_contexts d' = d_contexts d
     \<and> d_acks d' = d_acks d \<and> d_inputs d' = d_inputs d \<and> d_tasks d' = d_tasks d
     \<and> d_ledger d' = d_ledger d \<and> d_messages d' = d_messages d \<and> d_facts d' = d_facts d
     \<and> d_rules d' = d_rules d \<and> d_quotes d' = d_quotes d \<and> d_bases d' = d_bases d
     \<and> d_drafts d' = d_drafts d \<and> d_turns d' = d_turns d \<and> d_next_offer d' = d_next_offer d
     \<and> d_next_session d' = d_next_session d \<and> d_next_approval d' = d_next_approval d"

lemma effects_only_refl [simp]: "effects_only d d"
  by (simp add: effects_only_def)

lemma effects_only_trans: "effects_only d d' \<Longrightarrow> effects_only d' d'' \<Longrightarrow> effects_only d d''"
  by (simp add: effects_only_def)

lemma effects_onlyD [dest]:
  assumes "effects_only d d'"
  shows "d_offers d' = d_offers d" and "d_sessions d' = d_sessions d" and "d_next_offer d' = d_next_offer d"
    and "d_next_session d' = d_next_session d" and "d_next_approval d' = d_next_approval d"
    and "d_policies d' = d_policies d" and "d_products d' = d_products d" and "d_evidence d' = d_evidence d"
  using assms by (simp_all add: effects_only_def)

text \<open>
  The life of an approval in the graph runtime: what it is about is fixed, its deadline is never extended, a decision is never erased, an
  invalidated approval stays invalidated, and each effect has its own revision.
\<close>

definition decided :: "approval \<Rightarrow> bool" where
  "decided a \<longleftrightarrow> ap_status a = AP_APPROVED \<or> ap_status a = AP_REJECTED"

definition graph_later :: "approval \<Rightarrow> approval \<Rightarrow> bool" where
  "graph_later a a' \<longleftrightarrow>
     ap_id a' = ap_id a \<and> ap_session_id a' = ap_session_id a \<and> ap_offer_id a' = ap_offer_id a
     \<and> ap_policy_version a' = ap_policy_version a \<and> ap_expires_at a' \<le> ap_expires_at a
     \<and> (decided a \<longrightarrow> ap_status a' = ap_status a \<and> ap_reviewed_at a' = ap_reviewed_at a
          \<and> ap_seller_comment a' = ap_seller_comment a)
     \<and> (ap_status a \<noteq> AP_PENDING \<longrightarrow> ap_status a' = ap_status a)
     \<and> (ap_effect_status a = Some INVALIDATED \<longrightarrow> ap_effect_status a' = Some INVALIDATED
          \<and> ap_effect_revision a' = ap_effect_revision a)
     \<and> ap_effect_revision a \<le> ap_effect_revision a'"

lemma graph_later_refl [simp]: "graph_later a a"
  by (simp add: graph_later_def)

lemma graph_later_trans: "graph_later a b \<Longrightarrow> graph_later b c \<Longrightarrow> graph_later a c"
  unfolding graph_later_def decided_def by auto

definition approvals_later :: "db \<Rightarrow> db \<Rightarrow> bool" where
  "approvals_later d d' \<longleftrightarrow>
     (\<forall>k a. get_approval d k = Some a \<longrightarrow> (\<exists>a'. get_approval d' k = Some a' \<and> graph_later a a'))"

lemma approvals_later_same: "d_approvals d' = d_approvals d \<Longrightarrow> approvals_later d d'"
  by (simp add: approvals_later_def)

lemma approvals_later_trans: "approvals_later d d' \<Longrightarrow> approvals_later d' d'' \<Longrightarrow> approvals_later d d''"
  unfolding approvals_later_def using graph_later_trans by blast

lemma approvals_later_mod:
  assumes "\<And>a. get_approval d k = Some a \<Longrightarrow> graph_later a (f a)"
    and "d_approvals d' = tmod k f (d_approvals d)"
  shows "approvals_later d d'"
  using assms by (auto simp: approvals_later_def)

lemma event_frame [simp]:
  "d_approvals (event_in_transaction aid suffix kind d) = d_approvals d"
  "d_receipts (event_in_transaction aid suffix kind d) = d_receipts d"
  "effects_only d (event_in_transaction aid suffix kind d)"
  by (simp_all add: event_in_transaction_def effects_only_def Let_def)

lemma effect_notice_frame:
  assumes "effect_notice sid aid outcome now d = Inr d'"
  shows "effects_only d d'" and "d_receipts d' = d_receipts d"
    and "\<exists>s. d_approvals d' = tmod aid (\<lambda>x. x\<lparr>ap_notification_status := Some s\<rparr>) (d_approvals d)"
proof -
  obtain n a where rows: "get_session d sid = Some n" "get_approval d aid = Some a"
    using assms by (auto simp: effect_notice_def split: option.splits)
  show "effects_only d d'" and "d_receipts d' = d_receipts d"
    and "\<exists>s. d_approvals d' = tmod aid (\<lambda>x. x\<lparr>ap_notification_status := Some s\<rparr>) (d_approvals d)"
    using assms rows unfolding effect_notice_def
    by (auto simp: Let_def result_simps effects_only_def)
qed

lemma invalidate_approval_cases:
  assumes step: "invalidate_approval H now reason sid expired versions aid d = Inr d'"
  obtains (already) a where "get_approval d aid = Some a" and "ap_effect_status a = Some INVALIDATED" and "d' = d"
  | (invalidated) n a s rk r where "get_session d sid = Some n" and "get_approval d aid = Some a"
      and "ap_effect_status a \<noteq> Some INVALIDATED" and "effects_only d d'"
      and "d_approvals d' = tmod aid (\<lambda>x. x\<lparr>ap_status := (if ap_status x = AP_PENDING
              then (if expired then AP_EXPIRED else AP_CANCELLED) else ap_status x),
            ap_effect_status := Some INVALIDATED, ap_effect_revision := ap_effect_revision a + 1,
            ap_invalid_reason := Some reason, ap_invalidated_at := Some now,
            ap_notification_status := Some s\<rparr>) (d_approvals d)"
      and "rk = approval_key aid (''invalidate:'' @ show_int (ap_effect_revision a + 1))"
      and "get_receipt d rk = None" and "d_receipts d' = d_receipts d @ [(rk, r)]"
proof -
  obtain n a where rows: "get_session d sid = Some n" "get_approval d aid = Some a"
    using step by (auto simp: invalidate_approval_def split: option.splits)
  show thesis
  proof (cases "ap_effect_status a = Some INVALIDATED")
    case True
    with step rows show ?thesis by (intro already) (auto simp: invalidate_approval_def)
  next
    case False
    let ?rk = "approval_key aid (''invalidate:'' @ show_int (ap_effect_revision a + 1))"
    let ?f = "\<lambda>x. x\<lparr>ap_status := (if ap_status x = AP_PENDING
              then (if expired then AP_EXPIRED else AP_CANCELLED) else ap_status x),
            ap_effect_status := Some INVALIDATED, ap_effect_revision := ap_effect_revision a + 1,
            ap_invalid_reason := Some reason, ap_invalidated_at := Some now\<rparr>"
    from step rows False obtain r where fresh: "get_receipt d ?rk = None"
      and notice: "effect_notice sid aid ''APPROVAL_INVALIDATED'' now
            (event_in_transaction aid (''invalidated:'' @ show_int (ap_effect_revision a + 1)) ''INVALIDATED''
              ((mod_approval aid ?f d)\<lparr>d_receipts := d_receipts d @ [(?rk, r)]\<rparr>)) = Inr d'"
      by (auto simp: invalidate_approval_def Let_def split_beta result_simps)
    from effect_notice_frame [OF notice] obtain s where
      frame: "effects_only (event_in_transaction aid (''invalidated:'' @ show_int (ap_effect_revision a + 1)) ''INVALIDATED''
              ((mod_approval aid ?f d)\<lparr>d_receipts := d_receipts d @ [(?rk, r)]\<rparr>)) d'"
      and rc: "d_receipts d' = d_receipts d @ [(?rk, r)]"
      and ap: "d_approvals d' = tmod aid (\<lambda>x. x\<lparr>ap_notification_status := Some s\<rparr>) (tmod aid ?f (d_approvals d))"
      by auto
    have "effects_only d (event_in_transaction aid (''invalidated:'' @ show_int (ap_effect_revision a + 1)) ''INVALIDATED''
              ((mod_approval aid ?f d)\<lparr>d_receipts := d_receipts d @ [(?rk, r)]\<rparr>))"
      by (rule effects_only_trans [OF _ event_frame(3)]) (simp add: effects_only_def)
    then have eff: "effects_only d d'" using frame by (rule effects_only_trans)
    show ?thesis
      by (rule invalidated [OF rows False eff _ refl fresh rc]) (simp add: ap tmod_twice)
  qed
qed

lemma invalidate_approval_effect:
  assumes "invalidate_approval H now reason sid expired versions aid d = Inr d'"
  shows "effects_only d d'" and "approvals_later d d'"
    and "\<exists>a. get_approval d' aid = Some a \<and> ap_effect_status a = Some INVALIDATED"
    and "k \<noteq> aid \<Longrightarrow> get_approval d' k = get_approval d k"
proof -
  from assms have "effects_only d d' \<and> approvals_later d d'
      \<and> (\<exists>a. get_approval d' aid = Some a \<and> ap_effect_status a = Some INVALIDATED)
      \<and> (k \<noteq> aid \<longrightarrow> get_approval d' k = get_approval d k)"
  proof (cases rule: invalidate_approval_cases)
    case (invalidated n a s rk r)
    have "approvals_later d d'"
      by (rule approvals_later_mod [OF _ invalidated(5)])
        (use invalidated(2,3) in \<open>auto simp: graph_later_def decided_def\<close>)
    with invalidated(2,4,5) show ?thesis by simp
  qed (simp add: approvals_later_same)
  then show "effects_only d d'" and "approvals_later d d'"
    and "\<exists>a. get_approval d' aid = Some a \<and> ap_effect_status a = Some INVALIDATED"
    and "k \<noteq> aid \<Longrightarrow> get_approval d' k = get_approval d k" by blast+
qed

lemma invalidated_stays:
  assumes "approvals_later d d'" and "get_approval d aid = Some a" and "ap_effect_status a = Some INVALIDATED"
  shows "\<exists>a'. get_approval d' aid = Some a' \<and> ap_effect_status a' = Some INVALIDATED"
  using assms by (auto simp: approvals_later_def graph_later_def)

lemma invalidate_approvals_effect:
  assumes "efold (invalidate_approval H now reason sid expired versions) aids d = Inr d'"
  shows "effects_only d d' \<and> approvals_later d d'
    \<and> (\<forall>aid \<in> set aids. \<exists>a. get_approval d' aid = Some a \<and> ap_effect_status a = Some INVALIDATED)
    \<and> (\<forall>k. k \<notin> set aids \<longrightarrow> get_approval d' k = get_approval d k)"
  using assms
proof (induction aids arbitrary: d)
  case Nil
  then show ?case by (simp add: approvals_later_same)
next
  case (Cons aid aids)
  then obtain d1 where one: "invalidate_approval H now reason sid expired versions aid d = Inr d1"
    and rest: "efold (invalidate_approval H now reason sid expired versions) aids d1 = Inr d'"
    by (auto simp: result_simps)
  note eff = invalidate_approval_effect [OF one] and ih = Cons.IH [OF rest]
  from ih have later: "approvals_later d1 d'" by blast
  from eff(3) later have "\<exists>a. get_approval d' aid = Some a \<and> ap_effect_status a = Some INVALIDATED"
    using invalidated_stays by blast
  moreover have "get_approval d' k = get_approval d k" if "k \<notin> set (aid # aids)" for k
    using that ih eff(4) [of k] by simp
  ultimately show ?case
    using ih eff(1,2) effects_only_trans approvals_later_trans by auto
qed

lemma close_offer_inv: "offer_inv d \<Longrightarrow> offer_inv (close_offer oid now reason d)"
  unfolding close_offer_def by (rule offer_inv_close_offer) (auto split: if_splits)

lemma close_offer_frame [simp]:
  "d_sessions (close_offer oid now reason d) = d_sessions d"
  "d_approvals (close_offer oid now reason d) = d_approvals d"
  "d_sessions (drop_current sid oid d) = tmod sid (\<lambda>n. if ns_current_offer_id n = Some oid
       then n\<lparr>ns_current_offer_id := None,
               ns_status := (if ns_status n = WAITING_APPROVAL then ACTIVE else ns_status n)\<rparr>
       else n) (d_sessions d)"
  "d_offers (drop_current sid oid d) = d_offers d"
  "d_approvals (drop_current sid oid d) = d_approvals d"
  by (simp_all add: close_offer_def drop_current_def)

lemma sessions_stored_mod:
  assumes "sessions_stored d" and "\<And>n. ns_id (f n) = ns_id n"
    and "\<And>n. ns_current_offer_id (f n) = ns_current_offer_id n \<or> ns_current_offer_id (f n) = None"
  shows "sessions_stored (mod_session sid f d)"
  unfolding sessions_stored_def
proof (intro allI impI)
  fix k m assume "get_session (mod_session sid f d) k = Some m"
  then obtain n where n: "get_session d k = Some n" and m: "m = n \<or> m = f n"
    by (auto split: if_splits)
  from assms(1) n have "ns_id n = k \<and> k < d_next_session d \<and>
      (\<forall>oid. ns_current_offer_id n = Some oid \<longrightarrow> (\<exists>off. get_offer d oid = Some off \<and> of_session_id off = k))"
    by (simp add: sessions_stored_def)
  with m assms(2) [of n] assms(3) [of n]
  show "ns_id m = k \<and> k < d_next_session (mod_session sid f d) \<and>
      (\<forall>oid. ns_current_offer_id m = Some oid \<longrightarrow>
        (\<exists>off. get_offer (mod_session sid f d) oid = Some off \<and> of_session_id off = k))"
    by auto
qed

lemma close_current_inv:
  assumes inv: "offer_inv (mod_offer oid g d)"
    and shut: "\<And>off. get_offer (mod_offer oid g d) oid = Some off \<Longrightarrow> of_status off \<noteq> PROPOSED"
    and f: "\<And>n. ns_id (f n) = ns_id n" "\<And>n. ns_current_offer_id n = Some oid \<Longrightarrow> ns_current_offer_id (f n) = None"
      "\<And>n. ns_current_offer_id n \<noteq> Some oid \<Longrightarrow> f n = n"
  shows "offer_inv (mod_session sid f (mod_offer oid g d))"
proof -
  let ?d = "mod_offer oid g d"
  have cur: "ns_current_offer_id (f n) = ns_current_offer_id n \<or> ns_current_offer_id (f n) = None" for n
    using f(2,3) [of n] by (cases "ns_current_offer_id n = Some oid") auto
  have "offers_stored (mod_session sid f ?d)"
    using inv by (simp add: offer_inv_def offers_stored_def)
  moreover have "sessions_stored (mod_session sid f ?d)"
    using inv f(1) cur unfolding offer_inv_def by (intro sessions_stored_mod) auto
  moreover have "open_is_current (mod_session sid f ?d)"
    unfolding open_is_current_def
  proof (intro allI impI)
    fix k off assume k: "get_offer (mod_session sid f ?d) k = Some off" "of_status off = PROPOSED"
    then obtain n where n: "get_session ?d (of_session_id off) = Some n" "ns_current_offer_id n = Some k"
      using offer_inv_openD [OF inv, of k off] by auto
    have "k \<noteq> oid" using k shut by auto
    then have "get_session (mod_session sid f ?d) (of_session_id off) = Some n"
      using n f(3) [of n] by (cases "of_session_id off = sid") simp_all
    with n(2) show "\<exists>n. get_session (mod_session sid f ?d) (of_session_id off) = Some n
        \<and> ns_current_offer_id n = Some k" by blast
  qed
  ultimately show ?thesis by (simp add: offer_inv_def)
qed

lemma close_drop_inv:
  assumes "offer_inv d"
  shows "offer_inv (drop_current sid oid (close_offer oid now reason d))"
  using close_offer_inv [OF assms, of oid now reason] unfolding drop_current_def close_offer_def
  by (rule close_current_inv) (auto split: if_splits)

lemma invalidate_offer_effect:
  assumes "invalidate_offer H now reason sid (Some x) d = Inr d'" and "of_status x \<in> {PROPOSED, ACCEPTED}"
  shows "d_offers d' = d_offers (close_offer (of_id x) now reason d)"
    and "d_sessions d' = d_sessions (drop_current sid (of_id x) d)"
    and "effects_only (drop_current sid (of_id x) (close_offer (of_id x) now reason d)) d'"
    and "approvals_later d d'"
    and "aid \<in> set (approvals_of_offer d (of_id x)) \<Longrightarrow>
          \<exists>a. get_approval d' aid = Some a \<and> ap_effect_status a = Some INVALIDATED"
    and "aid \<notin> set (approvals_of_offer d (of_id x)) \<Longrightarrow> get_approval d' aid = get_approval d aid"
proof -
  let ?d1 = "drop_current sid (of_id x) (close_offer (of_id x) now reason d)"
  obtain versions where "efold (invalidate_approval H now reason sid False (Some versions))
      (approvals_of_offer ?d1 (of_id x)) ?d1 = Inr d'"
    using assms unfolding invalidate_offer_def by (auto simp: Let_def result_simps)
  moreover have same: "approvals_of_offer ?d1 (of_id x) = approvals_of_offer d (of_id x)"
    by (simp add: approvals_of_offer_def)
  ultimately have eff: "effects_only ?d1 d' \<and> approvals_later ?d1 d'
    \<and> (\<forall>aid \<in> set (approvals_of_offer d (of_id x)).
         \<exists>a. get_approval d' aid = Some a \<and> ap_effect_status a = Some INVALIDATED)
    \<and> (\<forall>k. k \<notin> set (approvals_of_offer d (of_id x)) \<longrightarrow> get_approval d' k = get_approval ?d1 k)"
    using invalidate_approvals_effect by simp
  then show "d_offers d' = d_offers (close_offer (of_id x) now reason d)"
    and "d_sessions d' = d_sessions (drop_current sid (of_id x) d)"
    and "effects_only ?d1 d'"
    and "aid \<in> set (approvals_of_offer d (of_id x)) \<Longrightarrow>
          \<exists>a. get_approval d' aid = Some a \<and> ap_effect_status a = Some INVALIDATED"
    and "aid \<notin> set (approvals_of_offer d (of_id x)) \<Longrightarrow> get_approval d' aid = get_approval d aid"
    by (auto simp: effects_only_def)
  have "approvals_later d ?d1" by (rule approvals_later_same) simp
  with eff show "approvals_later d d'" using approvals_later_trans by blast
qed

lemma offer_inv_effects: "offer_inv d \<Longrightarrow> effects_only d d' \<Longrightarrow> offer_inv d'"
  by (rule offer_inv_other) (auto simp: effects_only_def)

lemma invalidate_offer_inv:
  assumes "invalidate_offer H now reason sid off d = Inr d'" and "offer_inv d"
  shows "offer_inv d'" and "approvals_later d d'"
proof -
  have "offer_inv d' \<and> approvals_later d d'"
  proof (cases off)
    case None
    with assms show ?thesis by (simp add: invalidate_offer_def approvals_later_same)
  next
    case (Some x)
    show ?thesis
    proof (cases "of_status x \<in> {PROPOSED, ACCEPTED}")
      case False
      with assms Some show ?thesis by (auto simp: invalidate_offer_def approvals_later_same)
    next
      case True
      note eff = invalidate_offer_effect [OF assms(1) [unfolded Some] True]
      from offer_inv_effects [OF close_drop_inv [OF assms(2)] eff(3)] eff(4) show ?thesis by blast
    qed
  qed
  then show "offer_inv d'" and "approvals_later d d'" by blast+
qed

end
