(* ===== verification/Business.thy ===== *)
theory Business
  imports Lifecycle Evidence
begin

text \<open>
  \<open>backend/app/services/graph_business_operations.py\<close>: the business operations of the graph runtime, each
  inside the caller's transaction: resolving a buyer offer (automatic acceptance, approval, rejection
  or counter offer), confirming the displayed offer, withdrawing and closing.

  \<open>audit\<close> is the caller's hook \<open>audit_authorized\<close>, which appends a causal event before the first
  business write; the fault-injection hook of the tests is left out.
\<close>

section \<open>Evidence of an offer\<close>

definition product_hash :: "(json \<Rightarrow> string) \<Rightarrow> product \<Rightarrow> string" where
  "product_hash H p = H (JObj [(''title'', JStr (p_title p)), (''description'', JStr (p_description p)),
     (''price'', JStr (show_cents (p_listed_price p))), (''status'', JStr (show_product_status (p_status p)))])"

definition terms_hash :: "(json \<Rightarrow> string) \<Rightarrow> offer \<Rightarrow> string" where
  "terms_hash H off = H (JObj [(''amount'', JStr (show_cents (of_price off))),
     (''payer'', JStr (show_payer (of_shipping_paid_by off))),
     (''shipping_cost'', jopt (\<lambda>c. JStr (show_cents c)) (of_shipping_cost off)),
     (''discount'', JStr (show_cents (of_seller_borne_discount off))),
     (''terms'', JObj (of_terms off))])"

definition pricing_terms :: "terms \<Rightarrow> exn + offer_terms" where
  "pricing_terms t =
     lift_err PricingExn (mk_terms (dec_of_cents (tm_amount t)) (Some (tm_shipping_paid_by t))
       (map_option dec_of_cents (tm_shipping_cost t)) (map_option dec_of_cents (tm_seller_discount t)))"

definition authorize_with :: "offer_terms \<Rightarrow> policy \<Rightarrow> extra_terms \<Rightarrow> exn + authorization" where
  "authorize_with t pol extra =
     ebind (lift_err PricingExn (stored_policy pol)) (\<lambda>p. lift_err auth_exn (authorize_offer t p extra))"

definition authorized :: "terms \<Rightarrow> policy \<Rightarrow> exn + authorization" where
  "authorized t pol = ebind (pricing_terms t) (\<lambda>ot. authorize_with ot pol (tm_additional_terms t))"

definition offer_authorization :: "offer \<Rightarrow> policy \<Rightarrow> exn + authorization" where
  \<comment> \<open>the same for a stored offer\<close>
  "offer_authorization off pol =
     ebind (lift_err PricingExn (terms_from_offer off)) (\<lambda>t. authorize_with t pol (of_terms off))"

definition approval_of_offer :: "db \<Rightarrow> int \<Rightarrow> approval option" where
  "approval_of_offer d oid = find (\<lambda>a. ap_offer_id a = oid) (trows (d_approvals d))"

definition is_semantic :: "session \<Rightarrow> bool" where
  "is_semantic n \<longleftrightarrow> ns_graph_version n = Some ''negotiation-v2'' \<or> ns_graph_version n = Some ''negotiation-v3''"

definition unexpired :: "offer \<Rightarrow> time \<Rightarrow> bool" where
  "unexpired off now \<longleftrightarrow> (case of_expires_at off of None \<Rightarrow> False | Some e \<Rightarrow> now < e)"

definition basis_valid ::
    "(json \<Rightarrow> string) \<Rightarrow> db \<Rightarrow> session \<Rightarrow> product \<Rightarrow> policy \<Rightarrow> offer option \<Rightarrow> time \<Rightarrow> exn + bool" where
  "basis_valid H d n p pol offer now =
     (case offer of
        None \<Rightarrow> Inr False
      | Some off \<Rightarrow>
      if of_session_id off \<noteq> ns_id n \<or> ns_current_offer_id n \<noteq> Some (of_id off)
         \<or> ns_status n \<notin> {ACTIVE, WAITING_APPROVAL} \<or> p_status p \<noteq> AVAILABLE
         \<or> of_status off \<notin> {PROPOSED, ACCEPTED} \<or> \<not> unexpired off now
      then Inr False
      else
      ebind (if is_semantic n then valid_basis d (p_id p) (of_id off) now else Inr True) (\<lambda>semantic.
      if \<not> semantic then Inr False
      else case offer_authorization off pol of
        Inl e \<Rightarrow> if is_value_error e then Inr False else Inl e
      | Inr au \<Rightarrow>
          if of_proposer off = AGENT \<and> \<not> au_can_counter au then Inr False
          else if of_status off = ACCEPTED \<and> \<not> au_can_accept au
                  \<and> approval_of_offer d (of_id off) = None then Inr False
          else Inr (case tget (d_evidence d) (of_id off) of
                      None \<Rightarrow> False
                    | Some proof \<Rightarrow> \<not> au_prohibited au \<and> au_conditions_valid au
                        \<and> ge_policy_version proof = sp_version pol
                        \<and> ge_product_hash proof = product_hash H p
                        \<and> ge_terms_hash proof = terms_hash H off)))"

definition valid_offer ::
    "(json \<Rightarrow> string) \<Rightarrow> db \<Rightarrow> session \<Rightarrow> product \<Rightarrow> policy \<Rightarrow> offer option \<Rightarrow> time \<Rightarrow> exn + bool" where
  "valid_offer H d n p pol offer now =
     (if ns_status n \<noteq> ACTIVE then Inr False
      else ebind (basis_valid H d n p pol offer now) (\<lambda>ok.
      if \<not> ok then Inr False
      else case offer of
        None \<Rightarrow> Inl AttributeExn
      | Some off \<Rightarrow>
      ebind (offer_authorization off pol) (\<lambda>au.
      if of_proposer off = AGENT then Inr (of_status off = PROPOSED \<and> au_can_counter au)
      else if of_status off \<noteq> ACCEPTED then Inr False
      else case approval_of_offer d (of_id off) of
        None \<Rightarrow> Inr (au_can_accept au)
      | Some a \<Rightarrow> Inr (ap_status a = AP_APPROVED \<and> ap_effect_status a = Some APPLIED
          \<and> ap_policy_version a = sp_version pol
          \<and> (case ap_reviewed_at a of None \<Rightarrow> False | Some r \<Rightarrow> r < ap_expires_at a)))))"

definition confirmation_expiry :: "db \<Rightarrow> offer \<Rightarrow> time \<Rightarrow> exn + time" where
  "confirmation_expiry d off now =
     (case of_expires_at off of
        None \<Rightarrow> Inl TypeExn
      | Some e \<Rightarrow>
          let expiry = min e (now + minutes 30) in
          (case tget (d_bases d) (of_id off) of
             None \<Rightarrow> Inr expiry
           | Some b \<Rightarrow>
               (case tget (d_quotes d) (ob_cost_quote_id b) of
                  None \<Rightarrow> Inl AttributeExn
                | Some q \<Rightarrow> Inr (min expiry (cq_expires_at q)))))"

section \<open>Resolving a buyer offer\<close>

definition new_offer_in_transaction ::
    "(json \<Rightarrow> string) \<Rightarrow> session \<Rightarrow> product \<Rightarrow> policy \<Rightarrow> terms \<Rightarrow> offer_proposer \<Rightarrow> time \<Rightarrow> db \<Rightarrow> exn + int \<times> db" where
  "new_offer_in_transaction H n p pol t who now d =
     ebind (pricing_terms t) (\<lambda>ot.
     ebind (new_offer (ns_id n) who ot (tm_additional_terms t) (Some (now + hours 24))) (\<lambda>off.
     let (k, d1) = add_offer off d in
     ebind (tadd IntegrityExn k
       \<lparr>ge_offer_id = k, ge_terms_hash = terms_hash H off, ge_policy_version = sp_version pol,
        ge_product_hash = product_hash H p\<rparr> (d_evidence d1)) (\<lambda>es.
     Inr (k, d1\<lparr>d_evidence := es\<rparr>))))"

definition reusable_offer ::
    "(json \<Rightarrow> string) \<Rightarrow> db \<Rightarrow> session \<Rightarrow> product \<Rightarrow> policy \<Rightarrow> offer \<Rightarrow> offer \<Rightarrow> candidate option \<Rightarrow> time \<Rightarrow> exn + bool" where
  \<comment> \<open>the same valid proposal of the buyer is not counted again\<close>
  "reusable_offer H d n p pol cur cand semantic now =
     (if of_proposer cur = BUYER \<and> of_status cur \<in> {PROPOSED, ACCEPTED}
      then (case of_expires_at cur of
              None \<Rightarrow> Inl TypeExn
            | Some e \<Rightarrow>
                if now < e \<and> terms_hash H cur = terms_hash H cand
                then ebind (case semantic of
                       None \<Rightarrow> Inr (\<not> is_semantic n)
                     | Some c \<Rightarrow>
                         (case tget (d_bases d) (of_id cur) of
                            None \<Rightarrow> Inr False
                          | Some b \<Rightarrow> if ob_candidate b \<noteq> c then Inr False
                                     else valid_basis d (p_id p) (of_id cur) now)) (\<lambda>same.
                     Inr (case tget (d_evidence d) (of_id cur) of
                            None \<Rightarrow> False
                          | Some proof \<Rightarrow> ge_policy_version proof = sp_version pol
                              \<and> ge_product_hash proof = product_hash H p \<and> same))
                else Inr False)
      else Inr False)"

definition result_json :: "string \<Rightarrow> int \<Rightarrow> int option \<Rightarrow> bool \<Rightarrow> json" where
  "result_json outcome oid aid reused =
     JObj [(''outcome'', JStr outcome), (''offer_id'', JInt oid), (''approval_id'', jopt JInt aid),
           (''reused'', JBool reused)]"

definition set_offer_status :: "int \<Rightarrow> offer_status \<Rightarrow> db \<Rightarrow> db" where
  "set_offer_status oid st = mod_offer oid (\<lambda>x. x\<lparr>of_status := st\<rparr>)"

definition set_current :: "int \<Rightarrow> int option \<Rightarrow> db \<Rightarrow> db" where
  "set_current sid oid = mod_session sid (\<lambda>n. n\<lparr>ns_current_offer_id := oid\<rparr>)"

definition request_graph_approval :: "int \<Rightarrow> int \<Rightarrow> policy \<Rightarrow> time \<Rightarrow> db \<Rightarrow> exn + int \<times> db" where
  \<comment> \<open>the approval branch: a pending approval that expires with its offer, 30 minutes at most\<close>
  "request_graph_approval sid oid pol now d =
     (let k = d_next_approval d;
          a = \<lparr>ap_id = k, ap_session_id = sid, ap_offer_id = oid, ap_policy_version = sp_version pol,
               ap_status = AP_PENDING, ap_reason = ''buyer offer needs the seller'',
               ap_seller_comment = None, ap_effect_status = None, ap_effect_revision = 0,
               ap_invalid_reason = None, ap_invalidated_at = None, ap_superseded_by = None,
               ap_decision_hash = None, ap_notification_status = None,
               ap_expires_at = min (now + minutes 30) (now + hours 24), ap_reviewed_at = None,
               ap_followup_status = None, ap_followup_request_id = None\<rparr>;
          d1 = mod_session sid (\<lambda>n. n\<lparr>ns_current_offer_id := Some oid, ns_status := WAITING_APPROVAL\<rparr>)
                 (d\<lparr>d_approvals := tput k a (d_approvals d), d_next_approval := k + 1\<rparr>)
      in ebind (flush_approvals d1) (\<lambda>d2. ebind (start_approval k d2) (\<lambda>d3. Inr (k, d3))))"

definition settle_offer ::
    "(json \<Rightarrow> string) \<Rightarrow> session \<Rightarrow> product \<Rightarrow> policy \<Rightarrow> typed_input \<Rightarrow> authorization \<Rightarrow> int \<Rightarrow> time \<Rightarrow> db \<Rightarrow>
     exn + json \<times> db" where
  \<comment> \<open>the decision on the new buyer offer \<open>k\<close>\<close>
  "settle_offer H n p pol inp au k now d =
     (if au_can_accept au then
        Inr (result_json ''OFFER_ACCEPTED'' k None False,
             set_current (ns_id n) (Some k) (set_offer_status k ACCEPTED d))
      else if au_can_request_approval au then
        ebind (request_graph_approval (ns_id n) k pol now d) (\<lambda>(aid, d1).
        Inr (result_json ''WAITING_APPROVAL'' k (Some aid) False, d1))
      else
        let d1 = set_offer_status k REJECTED d in
        (case ti_counter_terms inp of
           None \<Rightarrow> Inr (result_json ''OFFER_REJECTED'' k None False, d1)
         | Some ct \<Rightarrow>
             ebind (new_offer_in_transaction H n p pol ct AGENT now d1) (\<lambda>(c, d2).
             Inr (jset (result_json ''COUNTER_OFFERED'' c None False) ''buyer_offer_id'' (JInt k),
                  set_current (ns_id n) (Some c) d2))))"

definition place_offer ::
    "(json \<Rightarrow> string) \<Rightarrow> session \<Rightarrow> product \<Rightarrow> policy \<Rightarrow> typed_input \<Rightarrow> terms \<Rightarrow> authorization \<Rightarrow> offer option \<Rightarrow>
     time \<Rightarrow> db \<Rightarrow> exn + json \<times> db" where
  \<comment> \<open>from the closing of the previous offer on\<close>
  "place_offer H n p pol inp t au cur now d =
     (let rejected = au_prohibited au \<and> ti_counter_terms inp = None in
      ebind (if rejected then Inr d else invalidate_offer H now ''REPLACED'' (ns_id n) cur d) (\<lambda>d1.
      ebind (new_offer_in_transaction H n p pol t BUYER now d1) (\<lambda>(k, d2).
      let d3 = (if rejected then d2 else supersede cur k d2);
          d4 = mod_session (ns_id n) (\<lambda>s. s\<lparr>ns_round_count := ns_round_count s + 1,
                                             ns_version := ns_version s + 1\<rparr>) d3
      in settle_offer H n p pol inp au k now d4)))"

definition resolve_offer_in_transaction ::
    "(json \<Rightarrow> string) \<Rightarrow> (db \<Rightarrow> exn + db) \<Rightarrow> session \<Rightarrow> product \<Rightarrow> policy \<Rightarrow> typed_input \<Rightarrow> time \<Rightarrow>
     candidate option \<Rightarrow> db \<Rightarrow> exn + json \<times> db" where
  "resolve_offer_in_transaction H audit n p pol inp now semantic d =
     (if p_status p \<noteq> AVAILABLE then Inl (Conflict ''product unavailable'')
      else case ti_terms inp of
        None \<Rightarrow> Inl AttributeExn
      | Some t \<Rightarrow>
      ebind (authorized t pol) (\<lambda>au.
      if \<not> au_conditions_valid au then Inl (Conflict ''unsupported terms'')
      else
      let cur = current_offer d n in
      if ti_kind inp = REPLACE \<and> (case cur of None \<Rightarrow> True | Some c \<Rightarrow> ti_offer_id inp \<noteq> Some (of_id c))
      then Inl (Conflict ''not the current offer'')
      else
      ebind (pricing_terms t) (\<lambda>ot.
      ebind (new_offer (ns_id n) BUYER ot (tm_additional_terms t) None) (\<lambda>cand.
      ebind (case cur of
               None \<Rightarrow> Inr False
             | Some c \<Rightarrow> reusable_offer H d n p pol c cand semantic now) (\<lambda>reuse.
      if reuse then
        (case cur of
           None \<Rightarrow> Inl AttributeExn
         | Some c \<Rightarrow>
             ebind (audit d) (\<lambda>d1.
             Inr (result_json (if of_status c = ACCEPTED then ''OFFER_ACCEPTED'' else ''WAITING_APPROVAL'')
                    (of_id c) (map_option ap_id (approval_of_offer d1 (of_id c))) True, d1)))
      else if sp_max_rounds pol \<le> ns_round_count n then Inl (Conflict ''too many rounds'')
      else
      ebind (case ti_counter_terms inp of
               None \<Rightarrow> Inr True
             | Some ct \<Rightarrow> ebind (authorized ct pol) (\<lambda>cau. Inr (au_can_counter cau))) (\<lambda>counter_ok.
      if \<not> counter_ok then Inl (Conflict ''counter offer not authorised'')
      else ebind (audit d) (\<lambda>d1. place_offer H n p pol inp t au cur now d1)))))))"

section \<open>Confirming, withdrawing, closing\<close>

definition displayed_offer ::
    "(json \<Rightarrow> string) \<Rightarrow> db \<Rightarrow> session \<Rightarrow> offer \<Rightarrow> typed_input \<Rightarrow> input_row \<Rightarrow> time \<Rightarrow> bool" where
  \<comment> \<open>the buyer had seen exactly this offer, before the input was received\<close>
  "displayed_offer H d n off inp run now \<longleftrightarrow>
     (case payload_display (in_payload run) of
        None \<Rightarrow> False
      | Some rid \<Rightarrow>
      case tget (d_acks d) rid of
        None \<Rightarrow> False
      | Some ack \<Rightarrow>
      case tget (d_contexts d) (da_context_id ack) of
        None \<Rightarrow> False
      | Some ctx \<Rightarrow>
          da_buyer_id ack = ns_buyer_id n \<and> pc_buyer_id ctx = ns_buyer_id n
          \<and> da_client_view_id ack = ti_client_view_id inp \<and> pc_session_id ctx = ns_id n
          \<and> pc_offer_id ctx = Some (of_id off) \<and> pc_business_version ctx = ns_version n
          \<and> pc_terms_hash ctx = terms_hash H off \<and> da_displayed_at ack \<le> in_received_at run
          \<and> pc_public_seq ctx \<le> in_seen_public_message_seq run \<and> now < pc_expires_at ctx)"

definition confirm_in_transaction ::
    "(json \<Rightarrow> string) \<Rightarrow> (db \<Rightarrow> exn + db) \<Rightarrow> session \<Rightarrow> product \<Rightarrow> policy \<Rightarrow> typed_input \<Rightarrow> input_row \<Rightarrow> time \<Rightarrow>
     db \<Rightarrow> exn + json \<times> db" where
  "confirm_in_transaction H audit n p pol inp run now d =
     (let offer = (case ti_offer_id inp of None \<Rightarrow> None | Some k \<Rightarrow> get_offer d k) in
      ebind (valid_offer H d n p pol offer now) (\<lambda>ok.
      case offer of
        None \<Rightarrow> Inl (Conflict ''no displayed valid offer'')
      | Some off \<Rightarrow>
      if \<not> ok \<or> \<not> displayed_offer H d n off inp run now then Inl (Conflict ''no displayed valid offer'')
      else
      ebind (audit d) (\<lambda>d1.
      let source = (case approval_of_offer d1 (of_id off) of
                      Some a \<Rightarrow> if ap_effect_status a = Some APPLIED then SELLER_APPROVED_BUYER_OFFER
                               else if of_proposer off = AGENT then AGENT_COUNTER
                               else AUTO_ACCEPTED_BUYER_OFFER
                    | None \<Rightarrow> if of_proposer off = AGENT then AGENT_COUNTER else AUTO_ACCEPTED_BUYER_OFFER);
          d2 = mod_session (ns_id n) (\<lambda>s. s\<lparr>ns_status := AGREED, ns_confirmed_offer_id := Some (of_id off),
                 ns_confirmed_at := Some now, ns_confirmation_request_id := Some (in_id run),
                 ns_confirmation_source := Some source, ns_version := ns_version s + 1\<rparr>) d1
      in Inr (JObj [(''outcome'', JStr ''INTENT_CONFIRMED''), (''offer_id'', JInt (of_id off))],
              set_offer_status (of_id off) ACCEPTED d2))))"

definition lifecycle_in_transaction ::
    "(json \<Rightarrow> string) \<Rightarrow> (db \<Rightarrow> exn + db) \<Rightarrow> session \<Rightarrow> typed_input \<Rightarrow> time \<Rightarrow> db \<Rightarrow> exn + json \<times> db" where
  "lifecycle_in_transaction H audit n inp now d =
     (let cur = current_offer d n; closing = (ti_kind inp = CLOSE) in
      if ti_kind inp = WITHDRAW \<and>
         (case cur of None \<Rightarrow> True
          | Some c \<Rightarrow> ti_offer_id inp \<noteq> Some (of_id c) \<or> of_proposer c \<noteq> BUYER
                     \<or> of_status c \<notin> {PROPOSED, ACCEPTED})
      then Inl (Conflict ''not the current offer'')
      else
      ebind (audit d) (\<lambda>d1.
      ebind (invalidate_offer H now (if closing then ''CLOSED'' else ''WITHDRAWN'') (ns_id n) cur d1) (\<lambda>d2.
      let d3 = (if closing then close_drafts (ns_id n) d2 else d2);
          d4 = mod_session (ns_id n) (\<lambda>s. s\<lparr>ns_current_offer_id := None,
                 ns_status := (if closing then CLOSED else ACTIVE), ns_version := ns_version s + 1\<rparr>) d3
      in Inr (JObj [(''outcome'', JStr (if closing then ''SESSION_CLOSED'' else ''OFFER_WITHDRAWN'')),
                    (''offer_id'', jopt (\<lambda>c. JInt (of_id c)) cur)], d4))))"

section \<open>Prices of authorised offers\<close>

lemma authorize_with_Inr: "authorize_with t pol extra = Inr au \<longleftrightarrow> authorize_terms t pol extra = Inr au"
  by (auto simp: authorize_with_def authorize_terms_Inr result_simps)

lemma offer_authorization_Inr:
  "offer_authorization off pol = Inr au \<longleftrightarrow> authorize_stored_offer off pol = Inr au"
  by (auto simp: offer_authorization_def authorize_stored_offer_def authorize_with_Inr result_simps)

lemma authorized_net:
  assumes "authorized t pol = Inr au" and "pricing_terms t = Inr ot"
    and "new_offer sid who ot extra expires = Inr off"
  shows "au_can_accept au \<longleftrightarrow> au_conditions_valid au \<and> sp_auto_accept_threshold pol \<le> offer_net_income off"
    and "au_can_request_approval au \<longleftrightarrow> au_conditions_valid au \<and>
           sp_minimum_net_price pol \<le> offer_net_income off \<and> offer_net_income off < sp_auto_accept_threshold pol"
    and "au_prohibited au \<longleftrightarrow> \<not> au_conditions_valid au \<or> offer_net_income off < sp_minimum_net_price pol"
    and "au_can_counter au = au_can_accept au"
    and "sp_minimum_net_price pol \<le> sp_auto_accept_threshold pol"
proof -
  have at: "authorize_terms ot pol (tm_additional_terms t) = Inr au"
    using assms(1,2) by (simp add: authorized_def authorize_with_Inr)
  obtain net where net: "calculate_net_income ot = Inr net"
    and flags: "au_can_accept au \<longleftrightarrow> au_conditions_valid au \<and> sp_auto_accept_threshold pol \<le> net"
      "au_can_request_approval au \<longleftrightarrow> au_conditions_valid au \<and>
           sp_minimum_net_price pol \<le> net \<and> net < sp_auto_accept_threshold pol"
      "au_prohibited au \<longleftrightarrow> \<not> au_conditions_valid au \<or> net < sp_minimum_net_price pol"
    using authorize_terms_net [OF at] by metis
  have "net = offer_net_income off"
    using net assms(3)
    by (auto simp: new_offer_Inr calculate_net_income_def offer_net_income_def result_simps split: if_splits)
  with flags show "au_can_accept au \<longleftrightarrow> au_conditions_valid au \<and> sp_auto_accept_threshold pol \<le> offer_net_income off"
    and "au_can_request_approval au \<longleftrightarrow> au_conditions_valid au \<and>
           sp_minimum_net_price pol \<le> offer_net_income off \<and> offer_net_income off < sp_auto_accept_threshold pol"
    and "au_prohibited au \<longleftrightarrow> \<not> au_conditions_valid au \<or> offer_net_income off < sp_minimum_net_price pol"
    by simp_all
  obtain p where "authorize_offer ot p (tm_additional_terms t) = Inr au"
    and "stored_policy pol = Inr p"
    using at by (auto simp: authorize_terms_Inr)
  then show "sp_minimum_net_price pol \<le> sp_auto_accept_threshold pol"
    using stored_policy_ordered [of pol p] by simp
  show "au_can_counter au = au_can_accept au"
    using authorize_offer_flags(1,2) \<open>authorize_offer ot p (tm_additional_terms t) = Inr au\<close> by blast
qed

lemma offer_authorization_net:
  assumes "offer_authorization off pol = Inr au"
  shows "au_can_accept au \<Longrightarrow> sp_auto_accept_threshold pol \<le> offer_net_income off"
    and "au_can_counter au = au_can_accept au"
    and "\<not> au_prohibited au \<Longrightarrow> sp_minimum_net_price pol \<le> offer_net_income off"
    and "\<not> au_prohibited au \<Longrightarrow> \<not> au_can_accept au \<Longrightarrow> offer_net_income off < sp_auto_accept_threshold pol"
proof -
  obtain t where t: "terms_from_offer off = Inr t" and at: "authorize_terms t pol (of_terms off) = Inr au"
    using assms by (auto simp: offer_authorization_def authorize_with_Inr result_simps)
  obtain net where net: "calculate_net_income t = Inr net"
    and flags: "au_can_accept au \<longleftrightarrow> au_conditions_valid au \<and> sp_auto_accept_threshold pol \<le> net"
      "au_prohibited au \<longleftrightarrow> \<not> au_conditions_valid au \<or> net < sp_minimum_net_price pol"
    using authorize_terms_net [OF at] by metis
  have "net = offer_net_income off" using net_income_of_stored [OF t net] .
  with flags show "au_can_accept au \<Longrightarrow> sp_auto_accept_threshold pol \<le> offer_net_income off"
    and "\<not> au_prohibited au \<Longrightarrow> sp_minimum_net_price pol \<le> offer_net_income off"
    and "\<not> au_prohibited au \<Longrightarrow> \<not> au_can_accept au \<Longrightarrow> offer_net_income off < sp_auto_accept_threshold pol"
    by auto
  obtain p where "authorize_offer t p (of_terms off) = Inr au"
    using at by (auto simp: authorize_terms_Inr)
  then show "au_can_counter au = au_can_accept au" using authorize_offer_flags(2) authorize_offer_flags(1) by blast
qed

section \<open>Confirmation\<close>

definition audits_only :: "(db \<Rightarrow> exn + db) \<Rightarrow> bool" where
  \<comment> \<open>the hook only appends causal events\<close>
  "audits_only audit \<longleftrightarrow> (\<forall>d d'. audit d = Inr d' \<longrightarrow> (\<exists>es. d' = d\<lparr>d_causal := es\<rparr>))"

lemma audits_onlyD: "audits_only audit \<Longrightarrow> audit d = Inr d' \<Longrightarrow> \<exists>es. d' = d\<lparr>d_causal := es\<rparr>"
  by (simp add: audits_only_def)

lemma basis_valid_True:
  assumes "basis_valid H d n p pol offer now = Inr True"
  obtains off au proof0 where "offer = Some off" and "of_session_id off = ns_id n"
    and "ns_current_offer_id n = Some (of_id off)" and "ns_status n \<in> {ACTIVE, WAITING_APPROVAL}"
    and "p_status p = AVAILABLE" and "of_status off \<in> {PROPOSED, ACCEPTED}" and "unexpired off now"
    and "is_semantic n \<Longrightarrow> valid_basis d (p_id p) (of_id off) now = Inr True"
    and "offer_authorization off pol = Inr au" and "of_proposer off = AGENT \<Longrightarrow> au_can_counter au"
    and "of_status off = ACCEPTED \<Longrightarrow> au_can_accept au \<or> approval_of_offer d (of_id off) \<noteq> None"
    and "\<not> au_prohibited au" and "au_conditions_valid au" and "tget (d_evidence d) (of_id off) = Some proof0"
    and "ge_policy_version proof0 = sp_version pol" and "ge_product_hash proof0 = product_hash H p"
    and "ge_terms_hash proof0 = terms_hash H off"
proof -
  obtain off where off: "offer = Some off" using assms by (cases offer) (auto simp: basis_valid_def)
  have g: "\<not> (of_session_id off \<noteq> ns_id n \<or> ns_current_offer_id n \<noteq> Some (of_id off)
         \<or> ns_status n \<notin> {ACTIVE, WAITING_APPROVAL} \<or> p_status p \<noteq> AVAILABLE
         \<or> of_status off \<notin> {PROPOSED, ACCEPTED} \<or> \<not> unexpired off now)"
    using assms unfolding basis_valid_def off by (simp split: if_splits)
  obtain sem where sem: "(if is_semantic n then valid_basis d (p_id p) (of_id off) now else Inr True) = Inr sem"
    and rest: "(if \<not> sem then Inr False
      else case offer_authorization off pol of
        Inl e \<Rightarrow> if is_value_error e then Inr False else Inl e
      | Inr au \<Rightarrow>
          if of_proposer off = AGENT \<and> \<not> au_can_counter au then Inr False
          else if of_status off = ACCEPTED \<and> \<not> au_can_accept au
                  \<and> approval_of_offer d (of_id off) = None then Inr False
          else Inr (case tget (d_evidence d) (of_id off) of
                      None \<Rightarrow> False
                    | Some proof \<Rightarrow> \<not> au_prohibited au \<and> au_conditions_valid au
                        \<and> ge_policy_version proof = sp_version pol
                        \<and> ge_product_hash proof = product_hash H p
                        \<and> ge_terms_hash proof = terms_hash H off)) = Inr True"
    using assms g unfolding basis_valid_def off by (auto simp: ebind_eq_Inr)
  from rest obtain au where sem': "sem" and au: "offer_authorization off pol = Inr au"
    and c: "\<not> (of_proposer off = AGENT \<and> \<not> au_can_counter au)"
      "\<not> (of_status off = ACCEPTED \<and> \<not> au_can_accept au \<and> approval_of_offer d (of_id off) = None)"
    and e: "case tget (d_evidence d) (of_id off) of
                      None \<Rightarrow> False
                    | Some proof \<Rightarrow> \<not> au_prohibited au \<and> au_conditions_valid au
                        \<and> ge_policy_version proof = sp_version pol
                        \<and> ge_product_hash proof = product_hash H p
                        \<and> ge_terms_hash proof = terms_hash H off"
    by (auto split: if_splits sum.splits)
  from e obtain pr where pr: "tget (d_evidence d) (of_id off) = Some pr" "\<not> au_prohibited au"
    "au_conditions_valid au" "ge_policy_version pr = sp_version pol" "ge_product_hash pr = product_hash H p"
    "ge_terms_hash pr = terms_hash H off"
    by (auto split: option.splits)
  show thesis
    by (rule that [OF off _ _ _ _ _ _ _ au _ _ pr(2,3,1,4-6)]) (use g c sem sem' in auto)
qed

definition seller_granted :: "approval \<Rightarrow> policy \<Rightarrow> bool" where
  \<comment> \<open>the seller approved in time, under this policy version, and the approval was applied\<close>
  "seller_granted a pol \<longleftrightarrow> ap_status a = AP_APPROVED \<and> ap_effect_status a = Some APPLIED
     \<and> ap_policy_version a = sp_version pol
     \<and> (\<exists>r. ap_reviewed_at a = Some r \<and> r < ap_expires_at a)"

lemma valid_offer_True:
  assumes "valid_offer H d n p pol offer now = Inr True"
  obtains off au where "offer = Some off" and "ns_status n = ACTIVE"
    and "basis_valid H d n p pol offer now = Inr True"
    and "sp_minimum_net_price pol \<le> offer_net_income off"
    and "offer_net_income off < sp_auto_accept_threshold pol \<Longrightarrow> of_proposer off = BUYER \<and>
           (\<exists>a. approval_of_offer d (of_id off) = Some a \<and> seller_granted a pol)"
    and "of_proposer off = AGENT \<Longrightarrow> of_status off = PROPOSED"
    and "of_proposer off = BUYER \<Longrightarrow> of_status off = ACCEPTED"
proof -
  have st: "ns_status n = ACTIVE" and b: "basis_valid H d n p pol offer now = Inr True"
    using assms unfolding valid_offer_def by (auto simp: ebind_eq_Inr split: if_splits)
  from b obtain off au0 where off: "offer = Some off" and au0: "offer_authorization off pol = Inr au0"
    and np: "\<not> au_prohibited au0"
    by (rule basis_valid_True)
  note net = offer_authorization_net [OF au0]
  have rest: "(if of_proposer off = AGENT then Inr (of_status off = PROPOSED \<and> au_can_counter au0)
      else if of_status off \<noteq> ACCEPTED then Inr False
      else case approval_of_offer d (of_id off) of
        None \<Rightarrow> Inr (au_can_accept au0)
      | Some a \<Rightarrow> Inr (ap_status a = AP_APPROVED \<and> ap_effect_status a = Some APPLIED
          \<and> ap_policy_version a = sp_version pol
          \<and> (case ap_reviewed_at a of None \<Rightarrow> False | Some r \<Rightarrow> r < ap_expires_at a))) = (Inr True :: exn + bool)"
    using assms st b au0 unfolding valid_offer_def off by (simp split del: if_split)
  show thesis
  proof (rule that [OF off st b net(3) [OF np]])
    assume low: "offer_net_income off < sp_auto_accept_threshold pol"
    then have "\<not> au_can_accept au0" "\<not> au_can_counter au0" using net(1,2) by auto
    with rest show "of_proposer off = BUYER \<and>
           (\<exists>a. approval_of_offer d (of_id off) = Some a \<and> seller_granted a pol)"
      by (cases "of_proposer off")
        (auto simp: seller_granted_def split: if_splits option.splits)
  next
    assume "of_proposer off = AGENT"
    with rest show "of_status off = PROPOSED" by simp
  next
    assume "of_proposer off = BUYER"
    with rest show "of_status off = ACCEPTED" by (simp split: if_splits)
  qed
qed

lemma confirm_cases:
  assumes step: "confirm_in_transaction H audit n p pol inp run now d = Inr (res, d')"
  obtains k off d1 source where "ti_offer_id inp = Some k" and "get_offer d k = Some off"
    and "valid_offer H d n p pol (Some off) now = Inr True" and "displayed_offer H d n off inp run now"
    and "audit d = Inr d1"
    and "d' = set_offer_status (of_id off) ACCEPTED
          (mod_session (ns_id n) (\<lambda>s. s\<lparr>ns_status := AGREED, ns_confirmed_offer_id := Some (of_id off),
                 ns_confirmed_at := Some now, ns_confirmation_request_id := Some (in_id run),
                 ns_confirmation_source := Some source, ns_version := ns_version s + 1\<rparr>) d1)"
    and "source = SELLER_APPROVED_BUYER_OFFER \<longleftrightarrow>
          (\<exists>a. approval_of_offer d1 (of_id off) = Some a \<and> ap_effect_status a = Some APPLIED)"
    and "res = JObj [(''outcome'', JStr ''INTENT_CONFIRMED''), (''offer_id'', JInt (of_id off))]"
proof -
  from step show thesis
    unfolding confirm_in_transaction_def
    apply (elim result_elims)
    subgoal for offer ok off d1 source
      by (rule that [of "the (ti_offer_id inp)" off d1 source])
        (auto split: option.splits if_splits)
    done
qed

text \<open>
  C1: A deal is confirmed only on the current, unexpired offer of an active negotiation, which the same
  buyer had been shown, with exactly these terms, before sending the confirmation. The seller never
  keeps less than the minimum net price, and keeps less than the auto-accept threshold only with an
  approval the seller gave in time under the same policy version. The negotiation becomes AGREED
  on that offer.
\<close>

theorem confirm_sound:
  assumes "confirm_in_transaction H audit n p pol inp run now d = Inr (res, d')"
    and "audits_only audit" and "get_session d (ns_id n) = Some n" and "offer_inv d"
  shows "\<exists>off. get_offer d (of_id off) = Some off \<and> ti_offer_id inp = Some (of_id off)
    \<and> ns_status n = ACTIVE \<and> ns_current_offer_id n = Some (of_id off) \<and> unexpired off now
    \<and> displayed_offer H d n off inp run now
    \<and> sp_minimum_net_price pol \<le> offer_net_income off
    \<and> (offer_net_income off < sp_auto_accept_threshold pol \<longrightarrow>
         (\<exists>a. approval_of_offer d (of_id off) = Some a \<and> seller_granted a pol))
    \<and> get_offer d' (of_id off) = Some (off\<lparr>of_status := ACCEPTED\<rparr>)
    \<and> (\<exists>n'. get_session d' (ns_id n) = Some n' \<and> ns_status n' = AGREED
         \<and> ns_confirmed_offer_id n' = Some (of_id off) \<and> ns_version n' = ns_version n + 1)"
  using assms(1)
proof (cases rule: confirm_cases)
  case (1 k off d1 source)
  have i: "of_id off = k" using offer_inv_offerD [OF assms(4) 1(2)] by simp
  obtain es where d1: "d1 = d\<lparr>d_causal := es\<rparr>" using audits_onlyD [OF assms(2) 1(5)] by blast
  from 1(3) obtain au where v: "ns_status n = ACTIVE" "basis_valid H d n p pol (Some off) now = Inr True"
    "sp_minimum_net_price pol \<le> offer_net_income off"
    and granted: "offer_net_income off < sp_auto_accept_threshold pol \<Longrightarrow> of_proposer off = BUYER \<and>
           (\<exists>a. approval_of_offer d (of_id off) = Some a \<and> seller_granted a pol)"
    by (rule valid_offer_True) simp
  from v(2) have b: "ns_current_offer_id n = Some (of_id off)" "unexpired off now"
    by (auto elim!: basis_valid_True)
  have o: "get_offer d' (of_id off) = Some (off\<lparr>of_status := ACCEPTED\<rparr>)"
    using 1(2) i by (simp add: 1(6) set_offer_status_def d1)
  have s: "get_session d' (ns_id n) = Some (n\<lparr>ns_status := AGREED, ns_confirmed_offer_id := Some (of_id off),
                 ns_confirmed_at := Some now, ns_confirmation_request_id := Some (in_id run),
                 ns_confirmation_source := Some source, ns_version := ns_version n + 1\<rparr>)"
    using assms(3) by (simp add: 1(6) set_offer_status_def d1)
  show ?thesis
    using 1(1,2,4) i v(1,3) b granted o s by (intro exI [of _ off]) auto
qed

end
