(* ===== verification/Resolution.thy ===== *)
theory Resolution
  imports Business
begin

text \<open>
  What the business operations of the graph runtime guarantee: resolving a buyer offer, withdrawing and
  closing. \<open>resolve_offer_sound\<close> and \<open>lifecycle_sound\<close> rest on the effects of the single writes;
  the last sections run the operations on a small negotiation.
\<close>

section \<open>The invariant of offers across a resolution\<close>

text \<open>
  While a new offer \<open>k\<close> is being settled it may be open without being current. \<open>offer_inv_but k S\<close>
  is the invariant for all other offers, and says that the sessions in \<open>S\<close> have no other open offer.
\<close>

definition open_but :: "int \<Rightarrow> int set \<Rightarrow> db \<Rightarrow> bool" where
  "open_but k S d \<longleftrightarrow>
     (\<forall>j off. get_offer d j = Some off \<longrightarrow> of_status off = PROPOSED \<longrightarrow> j \<noteq> k \<longrightarrow>
        of_session_id off \<notin> S \<and>
        (\<exists>n. get_session d (of_session_id off) = Some n \<and> ns_current_offer_id n = Some j))"

definition offer_inv_but :: "int \<Rightarrow> int set \<Rightarrow> db \<Rightarrow> bool" where
  "offer_inv_but k S d \<longleftrightarrow> offers_stored d \<and> sessions_stored d \<and> open_but k S d"

lemma but_start: "offer_inv d \<Longrightarrow> \<forall>sid \<in> S. none_open d sid \<Longrightarrow> offer_inv_but k S d"
  by (auto simp: offer_inv_but_def offer_inv_def open_but_def open_is_current_def none_open_def)

lemma but_other:
  assumes "offer_inv_but k S d" and "d_offers d' = d_offers d" and "d_sessions d' = d_sessions d"
    and "d_next_offer d' = d_next_offer d" and "d_next_session d' = d_next_session d"
  shows "offer_inv_but k S d'"
  using assms by (simp add: offer_inv_but_def offers_stored_def sessions_stored_def open_but_def)

lemma but_insert:
  assumes "offer_inv_but k S d" and "k = d_next_offer d" and "of_id off = k"
    and "d_offers d' = tput k off (d_offers d)" and "d_sessions d' = d_sessions d"
    and "d_next_offer d' = k + 1" and "d_next_session d' = d_next_session d"
  shows "offer_inv_but k S d'"
proof -
  have fresh: "get_offer d k = None"
    using assms(1,2) by (cases "get_offer d k") (auto simp: offer_inv_but_def offers_stored_def)
  have "offers_stored d'"
    using assms(1-3) by (fastforce simp: offer_inv_but_def offers_stored_def assms(4,6))
  moreover have "sessions_stored d'"
    unfolding sessions_stored_def
  proof (intro allI impI)
    fix j n assume "get_session d' j = Some n"
    then have n: "get_session d j = Some n" by (simp add: assms(5))
    with assms(1) have i: "ns_id n = j \<and> j < d_next_session d"
      and c: "\<And>oid. ns_current_offer_id n = Some oid \<Longrightarrow> \<exists>off. get_offer d oid = Some off \<and> of_session_id off = j"
      by (auto simp: offer_inv_but_def sessions_stored_def)
    have "\<exists>off. get_offer d' oid = Some off \<and> of_session_id off = j" if "ns_current_offer_id n = Some oid" for oid
      using c [OF that] fresh by (cases "oid = k") (auto simp: assms(4))
    with i show "ns_id n = j \<and> j < d_next_session d' \<and>
        (\<forall>oid. ns_current_offer_id n = Some oid \<longrightarrow> (\<exists>off. get_offer d' oid = Some off \<and> of_session_id off = j))"
      by (simp add: assms(7))
  qed
  moreover have "open_but k S d'"
    using assms(1) by (simp add: offer_inv_but_def open_but_def assms(4,5))
  ultimately show ?thesis by (simp add: offer_inv_but_def)
qed

lemma but_mod_session:
  assumes "offer_inv_but k S d" and "\<And>n. ns_id (f n) = ns_id n"
    and "\<And>n. ns_current_offer_id (f n) = ns_current_offer_id n"
  shows "offer_inv_but k S (mod_session sid f d)"
proof -
  have "sessions_stored (mod_session sid f d)"
    using assms by (intro sessions_stored_mod) (auto simp: offer_inv_but_def)
  moreover have "open_but k S (mod_session sid f d)"
    unfolding open_but_def
  proof (intro allI impI)
    fix j off assume h: "get_offer (mod_session sid f d) j = Some off" "of_status off = PROPOSED" "j \<noteq> k"
    with assms(1) obtain n where "of_session_id off \<notin> S" "get_session d (of_session_id off) = Some n"
      "ns_current_offer_id n = Some j"
      by (auto simp: offer_inv_but_def open_but_def)
    then show "of_session_id off \<notin> S \<and>
        (\<exists>n. get_session (mod_session sid f d) (of_session_id off) = Some n \<and> ns_current_offer_id n = Some j)"
      using assms(3) by (cases "of_session_id off = sid") auto
  qed
  ultimately show ?thesis using assms(1) by (simp add: offer_inv_but_def offers_stored_def)
qed

lemma offers_frame_mod:
  assumes "offers_stored d" and "sessions_stored d"
    and "\<And>x. of_id (f x) = of_id x \<and> of_session_id (f x) = of_session_id x"
  shows "offers_stored (mod_offer oid f d)" and "sessions_stored (mod_offer oid f d)"
proof -
  show "offers_stored (mod_offer oid f d)"
    using assms(1,3) by (auto simp: offers_stored_def split: if_splits)
  show "sessions_stored (mod_offer oid f d)"
    unfolding sessions_stored_def
  proof (intro allI impI)
    fix j n assume "get_session (mod_offer oid f d) j = Some n"
    then have n: "get_session d j = Some n" by simp
    with assms(2) have i: "ns_id n = j \<and> j < d_next_session d"
      and c: "\<And>k. ns_current_offer_id n = Some k \<Longrightarrow> \<exists>off. get_offer d k = Some off \<and> of_session_id off = j"
      by (auto simp: sessions_stored_def)
    have "\<exists>off. get_offer (mod_offer oid f d) k = Some off \<and> of_session_id off = j"
      if "ns_current_offer_id n = Some k" for k
      using c [OF that] assms(3) by (cases "k = oid") auto
    with i show "ns_id n = j \<and> j < d_next_session (mod_offer oid f d) \<and>
        (\<forall>k. ns_current_offer_id n = Some k \<longrightarrow>
           (\<exists>off. get_offer (mod_offer oid f d) k = Some off \<and> of_session_id off = j))"
      by simp
  qed
qed

lemma but_mod_offer:
  assumes "offer_inv_but k S d" and "\<And>x. of_id (f x) = of_id x \<and> of_session_id (f x) = of_session_id x"
    and "\<And>x. of_status (f x) = PROPOSED \<Longrightarrow> of_status x = PROPOSED"
  shows "offer_inv_but k S (mod_offer oid f d)"
proof -
  have "open_but k S (mod_offer oid f d)"
    unfolding open_but_def
  proof (intro allI impI)
    fix j off assume h: "get_offer (mod_offer oid f d) j = Some off" "of_status off = PROPOSED" "j \<noteq> k"
    then obtain x where x: "get_offer d j = Some x" "of_session_id off = of_session_id x" "of_status x = PROPOSED"
      using assms(2,3) by (auto split: if_splits)
    with assms(1) h(3) show "of_session_id off \<notin> S \<and>
        (\<exists>n. get_session (mod_offer oid f d) (of_session_id off) = Some n \<and> ns_current_offer_id n = Some j)"
      by (auto simp: offer_inv_but_def open_but_def)
  qed
  then show ?thesis
    using assms(1,2) offers_frame_mod by (simp add: offer_inv_but_def)
qed

lemma but_settled:
  assumes "offer_inv_but k S d" and "get_offer d k = Some off" and "of_status off \<noteq> PROPOSED"
  shows "offer_inv d" and "offer_inv_but j S d"
proof -
  have "j \<noteq> k" if "get_offer d j = Some x" "of_status x = PROPOSED" for j x
    using assms(2,3) that by auto
  with assms(1) show "offer_inv d" and "offer_inv_but j S d"
    by (auto simp: offer_inv_but_def offer_inv_def open_but_def open_is_current_def)
qed

lemma but_make_current:
  assumes "offer_inv_but k {sid} d" and "get_offer d k = Some off" and "of_session_id off = sid"
    and "get_session d sid = Some n" and "\<And>n. ns_id (f n) = ns_id n \<and> ns_current_offer_id (f n) = Some k"
  shows "offer_inv (mod_session sid f d)"
proof -
  have "sessions_stored (mod_session sid f d)"
    unfolding sessions_stored_def
  proof (intro allI impI)
    fix j m assume m: "get_session (mod_session sid f d) j = Some m"
    show "ns_id m = j \<and> j < d_next_session (mod_session sid f d) \<and>
        (\<forall>oid. ns_current_offer_id m = Some oid \<longrightarrow>
           (\<exists>off. get_offer (mod_session sid f d) oid = Some off \<and> of_session_id off = j))"
    proof (cases "j = sid")
      case True
      with m assms(4) have "m = f n" by simp
      moreover have "ns_id n = sid \<and> sid < d_next_session d"
        using assms(1,4) by (simp add: offer_inv_but_def sessions_stored_def)
      ultimately show ?thesis using assms(2,3,5) True by simp
    next
      case False
      with m assms(1) show ?thesis by (simp add: offer_inv_but_def sessions_stored_def)
    qed
  qed
  moreover have "open_is_current (mod_session sid f d)"
    unfolding open_is_current_def
  proof (intro allI impI)
    fix j x assume x: "get_offer (mod_session sid f d) j = Some x" "of_status x = PROPOSED"
    show "\<exists>m. get_session (mod_session sid f d) (of_session_id x) = Some m \<and> ns_current_offer_id m = Some j"
    proof (cases "j = k")
      case True
      with x assms(2-5) show ?thesis by simp
    next
      case False
      with x assms(1) obtain m where "of_session_id x \<noteq> sid" "get_session d (of_session_id x) = Some m"
        "ns_current_offer_id m = Some j"
        by (auto simp: offer_inv_but_def open_but_def)
      then show ?thesis by simp
    qed
  qed
  ultimately show ?thesis
    using assms(1) by (simp add: offer_inv_but_def offer_inv_def offers_stored_def)
qed

section \<open>Resolving a buyer offer: lemmas on the parts\<close>

definition graph_inv :: "db \<Rightarrow> bool" where
  "graph_inv d \<longleftrightarrow> offer_inv d \<and> approvals_stored d"

lemma new_offer_tx_cases:
  assumes step: "new_offer_in_transaction H n p pol t who now d = Inr (k, d')"
  obtains ot off es where "pricing_terms t = Inr ot"
    and "new_offer (ns_id n) who ot (tm_additional_terms t) (Some (now + hours 24)) = Inr off"
    and "k = d_next_offer d" and "tget es k = Some \<lparr>ge_offer_id = k, ge_terms_hash = terms_hash H off,
          ge_policy_version = sp_version pol, ge_product_hash = product_hash H p\<rparr>"
    and "d' = d\<lparr>d_offers := tput k (off\<lparr>of_id := k\<rparr>) (d_offers d), d_next_offer := k + 1, d_evidence := es\<rparr>"
proof -
  from step show thesis
    unfolding new_offer_in_transaction_def
    apply (elim result_elims)
    subgoal for ot off x k0 d1 es
      by (rule that [of ot off es]) (auto simp: add_offer_def Let_def result_simps)
    done
qed

lemma new_offer_fields:
  "new_offer sid who ot extra expires = Inr off \<Longrightarrow> of_session_id off = sid \<and> of_proposer off = who
     \<and> of_status off = PROPOSED \<and> of_expires_at off = expires \<and> of_price off = ot_buyer_payment ot"
  by (auto simp: new_offer_Inr)

lemma set_offer_frame [simp]:
  "d_offers (set_offer_status k st d) = tmod k (\<lambda>x. x\<lparr>of_status := st\<rparr>) (d_offers d)"
  "d_sessions (set_offer_status k st d) = d_sessions d"
  "d_approvals (set_offer_status k st d) = d_approvals d"
  "d_next_offer (set_offer_status k st d) = d_next_offer d"
  "d_next_approval (set_offer_status k st d) = d_next_approval d"
  "d_sessions (set_current sid c d) = tmod sid (\<lambda>n. n\<lparr>ns_current_offer_id := c\<rparr>) (d_sessions d)"
  "d_offers (set_current sid c d) = d_offers d"
  "d_approvals (set_current sid c d) = d_approvals d"
  "d_next_approval (set_current sid c d) = d_next_approval d"
  by (simp_all add: set_offer_status_def set_current_def)

lemma start_approval_frame:
  assumes "start_approval aid d = Inr d'"
  shows "d_approvals d' = tmod aid (\<lambda>a. a\<lparr>ap_effect_status := Some NOT_APPLIED, ap_effect_revision := 0\<rparr>) (d_approvals d)"
    and "d_offers d' = d_offers d" and "d_sessions d' = d_sessions d" and "d_next_offer d' = d_next_offer d"
    and "d_next_session d' = d_next_session d" and "d_next_approval d' = d_next_approval d"
  using assms
  by (auto simp: start_approval_def Let_def result_simps event_in_transaction_def)

lemma request_graph_approval_effect:
  assumes "request_graph_approval sid oid pol now d = Inr (aid, d')" and "approvals_stored d"
  shows "aid = d_next_approval d" and "d_offers d' = d_offers d" and "d_next_offer d' = d_next_offer d"
    and "d_next_session d' = d_next_session d"
    and "d_sessions d' = tmod sid (\<lambda>n. n\<lparr>ns_current_offer_id := Some oid, ns_status := WAITING_APPROVAL\<rparr>) (d_sessions d)"
    and "\<exists>a. get_approval d' aid = Some a \<and> ap_id a = aid \<and> ap_session_id a = sid \<and> ap_offer_id a = oid
          \<and> ap_status a = AP_PENDING \<and> ap_effect_status a = Some NOT_APPLIED \<and> ap_policy_version a = sp_version pol
          \<and> ap_expires_at a \<le> now + minutes 30"
    and "k \<noteq> aid \<Longrightarrow> get_approval d' k = get_approval d k"
    and "approvals_stored d'" and "approvals_later d d'"
proof -
  from assms(1) have a: "aid = d_next_approval d"
    unfolding request_graph_approval_def Let_def by (elim result_elims) simp
  define row where "row = \<lparr>ap_id = aid, ap_session_id = sid, ap_offer_id = oid, ap_policy_version = sp_version pol,
               ap_status = AP_PENDING, ap_reason = ''buyer offer needs the seller'',
               ap_seller_comment = None, ap_effect_status = None, ap_effect_revision = 0,
               ap_invalid_reason = None, ap_invalidated_at = None, ap_superseded_by = None,
               ap_decision_hash = None, ap_notification_status = None,
               ap_expires_at = min (now + minutes 30) (now + hours 24), ap_reviewed_at = None,
               ap_followup_status = None, ap_followup_request_id = None\<rparr>"
  define d1 where "d1 = mod_session sid (\<lambda>n. n\<lparr>ns_current_offer_id := Some oid, ns_status := WAITING_APPROVAL\<rparr>)
                 (d\<lparr>d_approvals := tput aid row (d_approvals d), d_next_approval := aid + 1\<rparr>)"
  have row: "ap_id row = aid" "ap_session_id row = sid" "ap_offer_id row = oid"
      "ap_status row = AP_PENDING" "ap_policy_version row = sp_version pol" "ap_expires_at row \<le> now + minutes 30"
    by (simp_all add: row_def)
  have st: "start_approval aid d1 = Inr d'"
    using assms(1) a unfolding request_graph_approval_def Let_def d1_def row_def
    by (elim result_elims) (simp add: result_simps)
  note fr = start_approval_frame [OF st]
  show "aid = d_next_approval d" by (rule a)
  show "d_offers d' = d_offers d" "d_next_offer d' = d_next_offer d" "d_next_session d' = d_next_session d"
    "d_sessions d' = tmod sid (\<lambda>n. n\<lparr>ns_current_offer_id := Some oid, ns_status := WAITING_APPROVAL\<rparr>) (d_sessions d)"
    using fr by (simp_all add: d1_def)
  show "\<exists>a. get_approval d' aid = Some a \<and> ap_id a = aid \<and> ap_session_id a = sid \<and> ap_offer_id a = oid
          \<and> ap_status a = AP_PENDING \<and> ap_effect_status a = Some NOT_APPLIED \<and> ap_policy_version a = sp_version pol
          \<and> ap_expires_at a \<le> now + minutes 30"
    using fr(1) row by (simp add: d1_def)
  show other: "get_approval d' k = get_approval d k" if "k \<noteq> aid" for k
    using that fr(1) by (simp add: d1_def)
  have fresh: "get_approval d aid = None"
    using assms(2) a by (cases "get_approval d aid") (auto simp: approvals_stored_def)
  show "approvals_later d d'"
    unfolding approvals_later_def
  proof (intro allI impI)
    fix k b assume "get_approval d k = Some b"
    moreover from this fresh have "k \<noteq> aid" by auto
    ultimately show "\<exists>a'. get_approval d' k = Some a' \<and> graph_later b a'" using other by simp
  qed
  have s1: "approvals_stored d1"
    using assms(2) row(1) a by (fastforce simp: approvals_stored_def d1_def)
  from approvals_stored_mod [OF s1, of "\<lambda>a. a\<lparr>ap_effect_status := Some NOT_APPLIED, ap_effect_revision := 0\<rparr>" aid]
  show "approvals_stored d'" using fr(1,6) by (simp add: approvals_stored_def)
qed

lemma fold_mod_approval:
  assumes "approvals_stored d" and "\<And>a. ap_id (f a) = ap_id a" and "\<And>a. graph_later a (f a)"
  shows "approvals_stored (fold (\<lambda>aid. mod_approval aid f) aids d)
    \<and> approvals_later d (fold (\<lambda>aid. mod_approval aid f) aids d)
    \<and> d_offers (fold (\<lambda>aid. mod_approval aid f) aids d) = d_offers d
    \<and> d_sessions (fold (\<lambda>aid. mod_approval aid f) aids d) = d_sessions d
    \<and> d_next_offer (fold (\<lambda>aid. mod_approval aid f) aids d) = d_next_offer d
    \<and> d_next_session (fold (\<lambda>aid. mod_approval aid f) aids d) = d_next_session d
    \<and> d_next_approval (fold (\<lambda>aid. mod_approval aid f) aids d) = d_next_approval d"
  using assms(1)
proof (induction aids arbitrary: d)
  case Nil
  then show ?case by (simp add: approvals_later_same)
next
  case (Cons aid aids)
  have "approvals_stored (mod_approval aid f d)" using Cons.prems assms(2) by (rule approvals_stored_mod)
  from Cons.IH [OF this] have ih: "approvals_stored (fold (\<lambda>aid. mod_approval aid f) aids (mod_approval aid f d))
    \<and> approvals_later (mod_approval aid f d) (fold (\<lambda>aid. mod_approval aid f) aids (mod_approval aid f d))" by blast
  moreover have "approvals_later d (mod_approval aid f d)"
    by (rule approvals_later_mod [of _ aid f]) (simp_all add: assms(3))
  ultimately show ?case
    using Cons.IH [OF \<open>approvals_stored (mod_approval aid f d)\<close>] approvals_later_trans by fastforce
qed

lemma supersede_effect:
  assumes "approvals_stored d" and "offer_inv_but k S d"
  shows "approvals_stored (supersede old j d)" and "approvals_later d (supersede old j d)"
    and "offer_inv_but k S (supersede old j d)" and "d_sessions (supersede old j d) = d_sessions d"
    and "d_next_approval (supersede old j d) = d_next_approval d"
    and "map_option of_status (get_offer (supersede old j d) i) = map_option of_status (get_offer d i)"
    and "map_option offer_net_income (get_offer (supersede old j d) i) = map_option offer_net_income (get_offer d i)"
    and "map_option of_proposer (get_offer (supersede old j d) i) = map_option of_proposer (get_offer d i)"
    and "map_option of_session_id (get_offer (supersede old j d) i) = map_option of_session_id (get_offer d i)"
    and "d_next_offer (supersede old j d) = d_next_offer d"
proof -
  let ?f = "\<lambda>a. a\<lparr>ap_superseded_by := Some j\<rparr>"
  have f: "\<And>a. ap_id (?f a) = ap_id a" "\<And>a. graph_later a (?f a)"
    by (simp_all add: graph_later_def decided_def)
  have "supersede old j d = d \<or>
      (\<exists>o1 :: offer. supersede old j d = fold (\<lambda>aid. mod_approval aid ?f) (approvals_of_offer d (of_id o1))
                      (mod_offer (of_id o1) (\<lambda>x. x\<lparr>of_superseded_by := Some j\<rparr>) d))"
    unfolding supersede_def by (auto split: option.splits)
  then consider "supersede old j d = d"
    | o1 :: offer where "supersede old j d = fold (\<lambda>aid. mod_approval aid ?f) (approvals_of_offer d (of_id o1))
                      (mod_offer (of_id o1) (\<lambda>x. x\<lparr>of_superseded_by := Some j\<rparr>) d)"
    by blast
  then have "approvals_stored (supersede old j d) \<and> approvals_later d (supersede old j d)
    \<and> offer_inv_but k S (supersede old j d) \<and> d_sessions (supersede old j d) = d_sessions d
    \<and> d_next_approval (supersede old j d) = d_next_approval d
    \<and> map_option of_status (get_offer (supersede old j d) i) = map_option of_status (get_offer d i)
    \<and> map_option offer_net_income (get_offer (supersede old j d) i) = map_option offer_net_income (get_offer d i)
    \<and> map_option of_proposer (get_offer (supersede old j d) i) = map_option of_proposer (get_offer d i)
    \<and> map_option of_session_id (get_offer (supersede old j d) i) = map_option of_session_id (get_offer d i)
    \<and> d_next_offer (supersede old j d) = d_next_offer d"
  proof cases
    case 1
    with assms show ?thesis by (simp add: approvals_later_same)
  next
    case (2 o1)
    let ?d1 = "mod_offer (of_id o1) (\<lambda>x. x\<lparr>of_superseded_by := Some j\<rparr>) d"
    have "approvals_stored ?d1" using assms(1) by (simp add: approvals_stored_def)
    note fold = fold_mod_approval [OF this f, of "approvals_of_offer d (of_id o1)", folded 2]
    have b: "offer_inv_but k S ?d1" using assms(2) by (rule but_mod_offer) simp_all
    have "approvals_later d ?d1" by (rule approvals_later_same) simp
    moreover have "offer_inv_but k S (supersede old j d)"
      using b by (rule but_other) (use fold in simp_all)
    moreover have "offer_net_income (x\<lparr>of_superseded_by := Some j\<rparr>) = offer_net_income x" for x
      by (simp add: offer_net_income_def)
    ultimately show ?thesis
      using fold approvals_later_trans by (auto simp: option.map_comp comp_def)
  qed
  then show "approvals_stored (supersede old j d)" and "approvals_later d (supersede old j d)"
    and "offer_inv_but k S (supersede old j d)" and "d_sessions (supersede old j d) = d_sessions d"
    and "d_next_approval (supersede old j d) = d_next_approval d"
    and "map_option of_status (get_offer (supersede old j d) i) = map_option of_status (get_offer d i)"
    and "map_option offer_net_income (get_offer (supersede old j d) i) = map_option offer_net_income (get_offer d i)"
    and "map_option of_proposer (get_offer (supersede old j d) i) = map_option of_proposer (get_offer d i)"
    and "map_option of_session_id (get_offer (supersede old j d) i) = map_option of_session_id (get_offer d i)"
    and "d_next_offer (supersede old j d) = d_next_offer d" by blast+
qed

definition current_of :: "db \<Rightarrow> int \<Rightarrow> int option" where
  "current_of d sid = Option.bind (get_session d sid) ns_current_offer_id"

definition settled_as ::
    "session \<Rightarrow> policy \<Rightarrow> typed_input \<Rightarrow> authorization \<Rightarrow> int \<Rightarrow> offer \<Rightarrow> db \<Rightarrow> json \<Rightarrow> db \<Rightarrow> bool" where
  \<comment> \<open>what becomes of the new buyer offer \<open>off\<close>, stored under \<open>k\<close>\<close>
  "settled_as n pol inp au k off d res d' \<longleftrightarrow>
     (if au_can_accept au then
        res = result_json ''OFFER_ACCEPTED'' k None False
        \<and> get_offer d' k = Some (off\<lparr>of_status := ACCEPTED\<rparr>) \<and> current_of d' (ns_id n) = Some k
      else if au_can_request_approval au then
        (\<exists>aid a. res = result_json ''WAITING_APPROVAL'' k (Some aid) False
           \<and> get_approval d aid = None \<and> get_approval d' aid = Some a \<and> ap_offer_id a = k
           \<and> ap_status a = AP_PENDING \<and> ap_effect_status a = Some NOT_APPLIED
           \<and> ap_policy_version a = sp_version pol)
        \<and> get_offer d' k = Some off \<and> current_of d' (ns_id n) = Some k
        \<and> map_option ns_status (get_session d' (ns_id n)) = Some WAITING_APPROVAL
      else
        get_offer d' k = Some (off\<lparr>of_status := REJECTED\<rparr>)
        \<and> (case ti_counter_terms inp of
             None \<Rightarrow> res = result_json ''OFFER_REJECTED'' k None False
               \<and> d_sessions d' = d_sessions d \<and> d_approvals d' = d_approvals d
               \<and> (\<forall>j. j \<noteq> k \<longrightarrow> get_offer d' j = get_offer d j)
           | Some ct \<Rightarrow> (\<exists>c x. jget res ''outcome'' = JStr ''COUNTER_OFFERED'' \<and> jget res ''offer_id'' = JInt c
               \<and> get_offer d' c = Some x \<and> of_proposer x = AGENT \<and> of_status x = PROPOSED
               \<and> of_session_id x = ns_id n \<and> sp_auto_accept_threshold pol \<le> offer_net_income x
               \<and> current_of d' (ns_id n) = Some c)))"

lemma offer_net_income_status [simp]:
  "offer_net_income (off\<lparr>of_status := st\<rparr>) = offer_net_income off"
  "offer_net_income (off\<lparr>of_id := i\<rparr>) = offer_net_income off"
  by (simp_all add: offer_net_income_def)

lemma settle_effect:
  assumes step: "settle_offer H n p pol inp au k now d = Inr (res, d')"
    and stored: "approvals_stored d" and inv: "offer_inv_but k S d"
    and off: "get_offer d k = Some off" "of_session_id off = ns_id n"
    and m: "get_session d (ns_id n) = Some m"
    and S: "ns_id n \<in> S \<or> au_prohibited au \<and> ti_counter_terms inp = None"
    and flags: "au_prohibited au \<longleftrightarrow> \<not> au_can_accept au \<and> \<not> au_can_request_approval au"
    and counter: "\<And>ct. ti_counter_terms inp = Some ct \<Longrightarrow> \<exists>cau. authorized ct pol = Inr cau \<and> au_can_counter cau"
  shows "offer_inv d' \<and> approvals_stored d' \<and> approvals_later d d' \<and> settled_as n pol inp au k off d res d'
    \<and> (\<exists>m'. get_session d' (ns_id n) = Some m' \<and> ns_round_count m' = ns_round_count m
          \<and> ns_version m' = ns_version m)"
proof -
  have sub: "offer_inv_but k {ns_id n} d" if "ns_id n \<in> S"
    using inv that unfolding offer_inv_but_def open_but_def by (metis singletonD)
  consider (accept) "au_can_accept au" | (ask) "\<not> au_can_accept au" "au_can_request_approval au"
    | (reject) "\<not> au_can_accept au" "\<not> au_can_request_approval au" "ti_counter_terms inp = None"
    | (counter) ct where "\<not> au_can_accept au" "\<not> au_can_request_approval au" "ti_counter_terms inp = Some ct"
    by (cases "ti_counter_terms inp") blast+
  then show ?thesis
  proof cases
    case accept
    then have d': "d' = set_current (ns_id n) (Some k) (set_offer_status k ACCEPTED d)"
      and res: "res = result_json ''OFFER_ACCEPTED'' k None False"
      using step by (simp_all add: settle_offer_def)
    have "ns_id n \<in> S" using S flags accept by blast
    then have "offer_inv_but k {ns_id n} (set_offer_status k ACCEPTED d)"
      unfolding set_offer_status_def by (intro but_mod_offer [OF sub]) simp_all
    then have "offer_inv d'"
      unfolding d' set_current_def
      by (rule but_make_current [where off = "off\<lparr>of_status := ACCEPTED\<rparr>" and n = m]) (simp_all add: off m)
    moreover have "approvals_stored d'" using stored by (simp add: approvals_stored_def d')
    moreover have "approvals_later d d'" by (rule approvals_later_same) (simp add: d')
    ultimately show ?thesis
      using accept by (simp add: settled_as_def res d' off m current_of_def)
  next
    case ask
    then obtain aid where ask': "request_graph_approval (ns_id n) k pol now d = Inr (aid, d')"
      and res: "res = result_json ''WAITING_APPROVAL'' k (Some aid) False"
      using step by (auto simp: settle_offer_def result_simps)
    note eff = request_graph_approval_effect [OF ask' stored]
    have "ns_id n \<in> S" using S flags ask by blast
    have "offer_inv (mod_session (ns_id n) (\<lambda>n. n\<lparr>ns_current_offer_id := Some k, ns_status := WAITING_APPROVAL\<rparr>) d)"
      by (rule but_make_current [OF sub [OF \<open>ns_id n \<in> S\<close>] off m]) simp
    then have "offer_inv d'" by (rule offer_inv_other) (simp_all add: eff)
    moreover have "get_approval d aid = None"
      using stored eff(1) by (cases "get_approval d aid") (auto simp: approvals_stored_def)
    ultimately show ?thesis
      using ask eff(6,8,9) off m by (auto simp: settled_as_def res eff(2,5) current_of_def)
  next
    case reject
    then have d': "d' = set_offer_status k REJECTED d" and res: "res = result_json ''OFFER_REJECTED'' k None False"
      using step by (simp_all add: settle_offer_def)
    have "offer_inv_but k S d'"
      unfolding d' set_offer_status_def by (intro but_mod_offer [OF inv]) simp_all
    then have "offer_inv d'"
      by (rule but_settled(1) [where off = "off\<lparr>of_status := REJECTED\<rparr>"]) (simp_all add: d' off)
    moreover have "approvals_stored d'" using stored by (simp add: approvals_stored_def d')
    moreover have "approvals_later d d'" by (rule approvals_later_same) (simp add: d')
    ultimately show ?thesis
      using reject by (simp add: settled_as_def res d' off m)
  next
    case counter
    let ?d1 = "set_offer_status k REJECTED d"
    obtain c d2 where new: "new_offer_in_transaction H n p pol ct AGENT now ?d1 = Inr (c, d2)"
      and res: "res = jset (result_json ''COUNTER_OFFERED'' c None False) ''buyer_offer_id'' (JInt k)"
      and d': "d' = set_current (ns_id n) (Some c) d2"
      using step counter by (auto simp: settle_offer_def result_simps Let_def)
    from new obtain ot x es where ot: "pricing_terms ct = Inr ot"
      and x: "new_offer (ns_id n) AGENT ot (tm_additional_terms ct) (Some (now + hours 24)) = Inr x"
      and c: "c = d_next_offer ?d1"
      and d2: "d2 = ?d1\<lparr>d_offers := tput c (x\<lparr>of_id := c\<rparr>) (d_offers ?d1), d_next_offer := c + 1, d_evidence := es\<rparr>"
      by (rule new_offer_tx_cases)
    note xf = new_offer_fields [OF x]
    obtain cau where "authorized ct pol = Inr cau" "au_can_counter cau" using assms(9) counter(3) by blast
    then have net: "sp_auto_accept_threshold pol \<le> offer_net_income x"
      using authorized_net(1,4) [OF _ ot x] by blast
    have "ns_id n \<in> S" using S counter(3) by auto
    then have "offer_inv_but k {ns_id n} ?d1"
      unfolding set_offer_status_def by (intro but_mod_offer [OF sub]) simp_all
    then have "offer_inv_but c {ns_id n} ?d1"
      by (rule but_settled(2) [where off = "off\<lparr>of_status := REJECTED\<rparr>"]) (simp_all add: off)
    then have b: "offer_inv_but c {ns_id n} d2"
      by (rule but_insert [OF _ c, where off = "x\<lparr>of_id := c\<rparr>"]) (simp_all add: d2)
    have "offer_inv d'"
      unfolding d' set_current_def
      by (rule but_make_current [OF b, where off = "x\<lparr>of_id := c\<rparr>" and n = m]) (simp_all add: d2 xf m)
    moreover have "approvals_stored d'" using stored by (simp add: approvals_stored_def d' d2)
    moreover have "approvals_later d d'" by (rule approvals_later_same) (simp add: d' d2)
    moreover have "c \<noteq> k"
      using inv off by (auto simp: c offer_inv_but_def offers_stored_def)
    ultimately show ?thesis
      using counter xf net
      by (simp add: settled_as_def res d' d2 off m current_of_def result_json_def)
  qed
qed

lemma invalidate_none_open:
  assumes "invalidate_offer H now reason sid (current_offer d n) d = Inr d'" and "offer_inv d"
    and "get_session d sid = Some n"
  shows "none_open d' sid" and "\<exists>m. get_session d' sid = Some m \<and> ns_round_count m = ns_round_count n
      \<and> ns_version m = ns_version n"
    and "d_next_approval d' = d_next_approval d"
proof -
  have "none_open d' sid \<and> (\<exists>m. get_session d' sid = Some m \<and> ns_round_count m = ns_round_count n
      \<and> ns_version m = ns_version n) \<and> d_next_approval d' = d_next_approval d"
  proof (cases "current_offer d n")
    case None
    have "ns_current_offer_id n = None"
    proof (cases "ns_current_offer_id n")
      case (Some oid)
      with None offer_inv_currentD [OF assms(2,3) Some] show ?thesis by (simp add: current_offer_def)
    qed
    then have "none_open d sid"
      using assms(2,3) by (auto simp: none_open_def dest: offer_inv_openD)
    with None assms(1,3) show ?thesis by (simp add: invalidate_offer_def)
  next
    case (Some x)
    then obtain oid where oid: "ns_current_offer_id n = Some oid" "get_offer d oid = Some x"
      by (auto simp: current_offer_def split: option.splits)
    have only: "j = oid" if "get_offer d j = Some y" "of_session_id y = sid" "of_status y = PROPOSED" for j y
      using offer_inv_openD [OF assms(2) that(1,3)] that(2) assms(3) oid(1) by simp
    show ?thesis
    proof (cases "of_status x \<in> {PROPOSED, ACCEPTED}")
      case False
      then have "none_open d sid" using only oid(2) by (auto simp: none_open_def)
      moreover have "d' = d" using assms(1) Some False by (simp add: invalidate_offer_def)
      ultimately show ?thesis using assms(3) by simp
    next
      case True
      note eff = invalidate_offer_effect [OF assms(1) [unfolded Some] True]
      have i: "of_id x = oid" using offer_inv_offerD [OF assms(2) oid(2)] by simp
      have "none_open d' sid"
        unfolding none_open_def
      proof (intro allI impI)
        fix j y assume y: "get_offer d' j = Some y" "of_session_id y = sid"
        show "of_status y \<noteq> PROPOSED"
        proof (cases "j = oid")
          case True
          with y eff(1) i show ?thesis by (auto simp: close_offer_def split: if_splits)
        next
          case False
          with y eff(1) i have "get_offer d j = Some y" by (simp add: close_offer_def)
          with only y(2) False show ?thesis by blast
        qed
      qed
      moreover have "d_next_approval d' = d_next_approval d"
        using effects_onlyD(5) [OF eff(3)] by (simp add: drop_current_def close_offer_def)
      moreover have "\<exists>m. get_session d' sid = Some m \<and> ns_round_count m = ns_round_count n
          \<and> ns_version m = ns_version n"
        using eff(2) assms(3) by simp
      ultimately show ?thesis by blast
    qed
  qed
  then show "none_open d' sid" and "\<exists>m. get_session d' sid = Some m \<and> ns_round_count m = ns_round_count n
      \<and> ns_version m = ns_version n"
    and "d_next_approval d' = d_next_approval d" by blast+
qed

lemma invalidate_approval_stored:
  assumes "approvals_stored d" and "invalidate_approval H now reason sid e v aid d = Inr d'"
  shows "approvals_stored d'"
  using assms(2)
proof (cases rule: invalidate_approval_cases)
  case (invalidated n a s rk r)
  have n: "d_next_approval d' = d_next_approval d" using effects_onlyD(5) [OF invalidated(4)] .
  from approvals_stored_mod [OF assms(1), of "\<lambda>x. x\<lparr>ap_status := (if ap_status x = AP_PENDING
              then (if e then AP_EXPIRED else AP_CANCELLED) else ap_status x),
            ap_effect_status := Some INVALIDATED, ap_effect_revision := ap_effect_revision a + 1,
            ap_invalid_reason := Some reason, ap_invalidated_at := Some now,
            ap_notification_status := Some s\<rparr>" aid] show ?thesis
    using invalidated(5) n by (simp add: approvals_stored_def)
qed (use assms(1) in simp)

lemma invalidate_stored:
  assumes "invalidate_offer H now reason sid off d = Inr d'" and "approvals_stored d"
  shows "approvals_stored d'"
proof -
  show ?thesis
  proof (cases off)
    case None
    with assms show ?thesis by (simp add: invalidate_offer_def)
  next
    case (Some x)
    show ?thesis
    proof (cases "of_status x \<in> {PROPOSED, ACCEPTED}")
      case False
      with assms Some show ?thesis by (auto simp: invalidate_offer_def)
    next
      case True
      then obtain versions where "efold (invalidate_approval H now reason sid False (Some versions))
          (approvals_of_offer (drop_current sid (of_id x) (close_offer (of_id x) now reason d)) (of_id x))
          (drop_current sid (of_id x) (close_offer (of_id x) now reason d)) = Inr d'"
        using assms(1) Some unfolding invalidate_offer_def by (auto simp: Let_def result_simps)
      then show ?thesis
      proof (rule efold_invariant)
        show "approvals_stored (drop_current sid (of_id x) (close_offer (of_id x) now reason d))"
          using assms(2) by (simp add: approvals_stored_def drop_current_def close_offer_def)
      qed (rule invalidate_approval_stored)
    qed
  qed
qed

lemma place_effect:
  assumes step: "place_offer H n p pol inp t au (current_offer d n) now d = Inr (res, d')"
    and inv: "offer_inv d" and stored: "approvals_stored d" and n: "get_session d (ns_id n) = Some n"
    and au: "authorized t pol = Inr au" "au_conditions_valid au"
    and counter: "\<And>ct. ti_counter_terms inp = Some ct \<Longrightarrow> \<exists>cau. authorized ct pol = Inr cau \<and> au_can_counter cau"
  shows "offer_inv d' \<and> approvals_stored d' \<and> approvals_later d d'
    \<and> (\<exists>m. get_session d' (ns_id n) = Some m \<and> ns_round_count m = ns_round_count n + 1
         \<and> ns_version m = ns_version n + 1)
    \<and> (\<exists>k off d4. get_offer d k = None \<and> of_session_id off = ns_id n \<and> of_proposer off = BUYER
         \<and> of_status off = PROPOSED \<and> get_offer d4 k = Some off
         \<and> settled_as n pol inp au k off d4 res d'
         \<and> (au_can_accept au \<longleftrightarrow> sp_auto_accept_threshold pol \<le> offer_net_income off)
         \<and> (au_can_request_approval au \<longleftrightarrow> sp_minimum_net_price pol \<le> offer_net_income off
              \<and> offer_net_income off < sp_auto_accept_threshold pol)
         \<and> (au_prohibited au \<and> ti_counter_terms inp = None \<longrightarrow> d_approvals d4 = d_approvals d
              \<and> (\<forall>j. j \<noteq> k \<longrightarrow> get_offer d4 j = get_offer d j)
              \<and> current_of d4 (ns_id n) = ns_current_offer_id n))"
proof -
  let ?rej = "au_prohibited au \<and> ti_counter_terms inp = None"
  let ?cur = "current_offer d n"
  let ?S = "if ?rej then {} else {ns_id n}"
  obtain d1 k d2 where d1: "(if ?rej then Inr d else invalidate_offer H now ''REPLACED'' (ns_id n) ?cur d) = Inr d1"
    and new: "new_offer_in_transaction H n p pol t BUYER now d1 = Inr (k, d2)"
    and settle: "settle_offer H n p pol inp au k now
        (mod_session (ns_id n) (\<lambda>s. s\<lparr>ns_round_count := ns_round_count s + 1, ns_version := ns_version s + 1\<rparr>)
          (if ?rej then d2 else supersede ?cur k d2)) = Inr (res, d')"
    using step unfolding place_offer_def Let_def by (elim result_elims) simp
  have one: "offer_inv d1 \<and> approvals_stored d1 \<and> approvals_later d d1 \<and> offer_inv_but k ?S d1
      \<and> (\<exists>m. get_session d1 (ns_id n) = Some m \<and> ns_round_count m = ns_round_count n \<and> ns_version m = ns_version n)
      \<and> d_next_offer d1 = d_next_offer d"
  proof (cases ?rej)
    case True
    with d1 inv stored n show ?thesis by (simp add: approvals_later_same but_start)
  next
    case False
    then have i: "invalidate_offer H now ''REPLACED'' (ns_id n) ?cur d = Inr d1" using d1 by auto
    note none = invalidate_none_open [OF i inv n]
    have nx: "d_next_offer d1 = d_next_offer d"
    proof (cases "?cur")
      case None
      with i show ?thesis by (simp add: invalidate_offer_def)
    next
      case (Some x)
      show ?thesis
      proof (cases "of_status x \<in> {PROPOSED, ACCEPTED}")
        case False
        with i Some show ?thesis by (auto simp: invalidate_offer_def)
      next
        case True
        from effects_onlyD(3) [OF invalidate_offer_effect(3) [OF i [unfolded Some] True]]
        show ?thesis by (simp add: drop_current_def close_offer_def)
      qed
    qed
    from invalidate_offer_inv [OF i inv] invalidate_stored [OF i stored] none False nx
    show ?thesis by (auto intro: but_start)
  qed
  from new obtain ot off es where ot: "pricing_terms t = Inr ot"
    and off: "new_offer (ns_id n) BUYER ot (tm_additional_terms t) (Some (now + hours 24)) = Inr off"
    and k: "k = d_next_offer d1"
    and d2: "d2 = d1\<lparr>d_offers := tput k (off\<lparr>of_id := k\<rparr>) (d_offers d1), d_next_offer := k + 1, d_evidence := es\<rparr>"
    by (rule new_offer_tx_cases)
  note f = new_offer_fields [OF off] and net = authorized_net [OF au(1) ot off]
  have b1: "offer_inv_but k ?S d1" and s1: "approvals_stored d1" and l1: "approvals_later d d1"
    and nx1: "d_next_offer d1 = d_next_offer d" using one by blast+
  have b2: "offer_inv_but k ?S d2"
    by (rule but_insert [OF b1 k, where off = "off\<lparr>of_id := k\<rparr>"]) (simp_all add: d2)
  have s2: "approvals_stored d2" "approvals_later d1 d2"
    using s1 by (simp_all add: approvals_stored_def approvals_later_same d2)
  define d3 where "d3 = (if ?rej then d2 else supersede ?cur k d2)"
  have d3T: "?rej \<Longrightarrow> d3 = d2" and d3F: "\<not> ?rej \<Longrightarrow> d3 = supersede ?cur k d2"
    unfolding d3_def by (simp_all only: if_True if_False simp_thms)
  note sup = supersede_effect [OF s2(1) b2, of ?cur k]
  have three: "approvals_stored d3" "approvals_later d2 d3" "offer_inv_but k ?S d3" "d_sessions d3 = d_sessions d2"
    using s2(1) b2 d3T d3F sup(1-4) by (cases ?rej; simp only: approvals_later_same)+
  have "map_option of_status (get_offer d3 k) = Some PROPOSED \<and> map_option of_proposer (get_offer d3 k) = Some BUYER
      \<and> map_option of_session_id (get_offer d3 k) = Some (ns_id n)
      \<and> map_option offer_net_income (get_offer d3 k) = Some (offer_net_income off)"
  proof (cases ?rej)
    case True
    show ?thesis unfolding d3T [OF True] using f by (simp add: d2)
  next
    case False
    show ?thesis unfolding d3F [OF False] using sup(6-9) [of k] f by (simp add: d2)
  qed
  then obtain off3 where off3: "get_offer d3 k = Some off3" "of_status off3 = PROPOSED" "of_proposer off3 = BUYER"
    "of_session_id off3 = ns_id n" "offer_net_income off3 = offer_net_income off"
    by auto
  define d4 where "d4 = mod_session (ns_id n) (\<lambda>s. s\<lparr>ns_round_count := ns_round_count s + 1,
      ns_version := ns_version s + 1\<rparr>) d3"
  from one obtain m where m: "get_session d1 (ns_id n) = Some m" "ns_round_count m = ns_round_count n"
    "ns_version m = ns_version n" by blast
  have s4: "approvals_stored d4" "approvals_later d3 d4" "get_offer d4 k = Some off3"
    using three(1) off3(1) by (simp_all add: d4_def approvals_stored_def approvals_later_same)
  have b4: "offer_inv_but k ?S d4"
    unfolding d4_def by (rule but_mod_session [OF three(3)]) simp_all
  have "d_sessions d2 = d_sessions d1" by (simp add: d2)
  then have m4: "get_session d4 (ns_id n) = Some (m\<lparr>ns_round_count := ns_round_count m + 1, ns_version := ns_version m + 1\<rparr>)"
    using three(4) m by (simp add: d4_def)
  have flags: "au_prohibited au \<longleftrightarrow> \<not> au_can_accept au \<and> \<not> au_can_request_approval au"
    using net(1-3,5) au(2) by auto
  have res: "offer_inv d' \<and> approvals_stored d' \<and> approvals_later d4 d' \<and> settled_as n pol inp au k off3 d4 res d'
    \<and> (\<exists>m'. get_session d' (ns_id n) = Some m' \<and> ns_round_count m' = ns_round_count m + 1
          \<and> ns_version m' = ns_version m + 1)"
    using settle_effect [OF settle [folded d3_def, folded d4_def] s4(1) b4 s4(3) off3(4) m4 _ flags counter] by auto
  have "approvals_later d d'"
    using l1 s2(2) three(2) s4(2) res approvals_later_trans by blast
  moreover have fresh: "get_offer d k = None"
    using inv k nx1 by (cases "get_offer d k") (auto dest: offer_inv_offerD)
  have kept: "?rej \<longrightarrow> d_approvals d4 = d_approvals d \<and> (\<forall>j. j \<noteq> k \<longrightarrow> get_offer d4 j = get_offer d j)
              \<and> current_of d4 (ns_id n) = ns_current_offer_id n"
  proof
    assume ?rej
    then have "d3 = d2" and "d1 = d" using d3T d1 by simp_all
    then show "d_approvals d4 = d_approvals d \<and> (\<forall>j. j \<noteq> k \<longrightarrow> get_offer d4 j = get_offer d j)
              \<and> current_of d4 (ns_id n) = ns_current_offer_id n"
      using n by (simp add: d4_def d2 current_of_def)
  qed
  have "get_offer d k = None \<and> of_session_id off3 = ns_id n \<and> of_proposer off3 = BUYER
         \<and> of_status off3 = PROPOSED \<and> get_offer d4 k = Some off3
         \<and> settled_as n pol inp au k off3 d4 res d'
         \<and> (au_can_accept au \<longleftrightarrow> sp_auto_accept_threshold pol \<le> offer_net_income off3)
         \<and> (au_can_request_approval au \<longleftrightarrow> sp_minimum_net_price pol \<le> offer_net_income off3
              \<and> offer_net_income off3 < sp_auto_accept_threshold pol)"
    using res off3 s4(3) net(1,2) au(2) fresh by simp
  with kept have "\<exists>k off d4. get_offer d k = None \<and> of_session_id off = ns_id n \<and> of_proposer off = BUYER
         \<and> of_status off = PROPOSED \<and> get_offer d4 k = Some off
         \<and> settled_as n pol inp au k off d4 res d'
         \<and> (au_can_accept au \<longleftrightarrow> sp_auto_accept_threshold pol \<le> offer_net_income off)
         \<and> (au_can_request_approval au \<longleftrightarrow> sp_minimum_net_price pol \<le> offer_net_income off
              \<and> offer_net_income off < sp_auto_accept_threshold pol)
         \<and> (?rej \<longrightarrow> d_approvals d4 = d_approvals d
              \<and> (\<forall>j. j \<noteq> k \<longrightarrow> get_offer d4 j = get_offer d j)
              \<and> current_of d4 (ns_id n) = ns_current_offer_id n)"
    by (intro exI [of _ k] exI [of _ off3] exI [of _ d4]) blast
  moreover have "\<exists>m'. get_session d' (ns_id n) = Some m' \<and> ns_round_count m' = ns_round_count n + 1
         \<and> ns_version m' = ns_version n + 1"
    using res m(2,3) by auto
  ultimately show ?thesis using res by blast
qed

section \<open>Resolving a buyer offer: what it guarantees\<close>

definition resolved_by_price :: "session \<Rightarrow> policy \<Rightarrow> typed_input \<Rightarrow> db \<Rightarrow> json \<Rightarrow> db \<Rightarrow> bool" where
  \<comment> \<open>the new buyer offer is decided by what the seller would keep of it\<close>
  "resolved_by_price n pol inp d res d' \<longleftrightarrow>
     (\<exists>k off. get_offer d k = None \<and> of_session_id off = ns_id n \<and> of_proposer off = BUYER
        \<and> of_status off = PROPOSED \<and>
        (if sp_auto_accept_threshold pol \<le> offer_net_income off then
           res = result_json ''OFFER_ACCEPTED'' k None False
           \<and> get_offer d' k = Some (off\<lparr>of_status := ACCEPTED\<rparr>) \<and> current_of d' (ns_id n) = Some k
         else if sp_minimum_net_price pol \<le> offer_net_income off then
           (\<exists>aid a. res = result_json ''WAITING_APPROVAL'' k (Some aid) False
              \<and> get_approval d' aid = Some a \<and> ap_offer_id a = k
              \<and> ap_status a = AP_PENDING \<and> ap_effect_status a = Some NOT_APPLIED
              \<and> ap_policy_version a = sp_version pol)
           \<and> get_offer d' k = Some off \<and> current_of d' (ns_id n) = Some k
           \<and> map_option ns_status (get_session d' (ns_id n)) = Some WAITING_APPROVAL
         else
           get_offer d' k = Some (off\<lparr>of_status := REJECTED\<rparr>)
           \<and> (case ti_counter_terms inp of
                None \<Rightarrow> res = result_json ''OFFER_REJECTED'' k None False
                  \<and> d_approvals d' = d_approvals d \<and> (\<forall>j. j \<noteq> k \<longrightarrow> get_offer d' j = get_offer d j)
                  \<and> current_of d' (ns_id n) = ns_current_offer_id n
              | Some ct \<Rightarrow> (\<exists>c x. jget res ''outcome'' = JStr ''COUNTER_OFFERED'' \<and> jget res ''offer_id'' = JInt c
                  \<and> get_offer d' c = Some x \<and> of_proposer x = AGENT \<and> of_status x = PROPOSED
                  \<and> of_session_id x = ns_id n \<and> sp_auto_accept_threshold pol \<le> offer_net_income x
                  \<and> current_of d' (ns_id n) = Some c))))"

lemma settled_by_price:
  assumes "settled_as n pol inp au k off d4 res d'" and "get_offer d k = None"
    and "of_session_id off = ns_id n" and "of_proposer off = BUYER" and "of_status off = PROPOSED"
    and "au_can_accept au \<longleftrightarrow> sp_auto_accept_threshold pol \<le> offer_net_income off"
    and "au_can_request_approval au \<longleftrightarrow> sp_minimum_net_price pol \<le> offer_net_income off
          \<and> offer_net_income off < sp_auto_accept_threshold pol"
    and "\<not> au_can_accept au \<Longrightarrow> \<not> au_can_request_approval au \<Longrightarrow> ti_counter_terms inp = None \<Longrightarrow>
          d_approvals d4 = d_approvals d \<and> (\<forall>j. j \<noteq> k \<longrightarrow> get_offer d4 j = get_offer d j)
          \<and> current_of d4 (ns_id n) = ns_current_offer_id n"
  shows "resolved_by_price n pol inp d res d'"
proof -
  have keep: "current_of d' (ns_id n) = current_of d4 (ns_id n)" if "d_sessions d' = d_sessions d4"
    using that by (simp add: current_of_def)
  consider (a) "au_can_accept au" | (b) "\<not> au_can_accept au" "au_can_request_approval au"
    | (c) "\<not> au_can_accept au" "\<not> au_can_request_approval au" by blast
  then show ?thesis
  proof cases
    case a
    with assms(1-6) show ?thesis unfolding resolved_by_price_def settled_as_def
      by (intro exI [of _ k] exI [of _ off]) simp
  next
    case b
    have mid: "\<not> sp_auto_accept_threshold pol \<le> offer_net_income off"
      "sp_minimum_net_price pol \<le> offer_net_income off"
      using b assms(7) by simp_all
    show ?thesis unfolding resolved_by_price_def
      using assms(1) [unfolded settled_as_def if_not_P [OF b(1)] if_P [OF b(2)]] assms(2-5)
      by (intro exI [of _ k] exI [of _ off]) (simp only: mid if_False if_True simp_thms, blast)
  next
    case c
    note kept = assms(8) [OF c]
    have low: "\<not> sp_auto_accept_threshold pol \<le> offer_net_income off"
      "\<not> sp_minimum_net_price pol \<le> offer_net_income off"
      using c assms(6,7) by auto
    have s: "get_offer d' k = Some (off\<lparr>of_status := REJECTED\<rparr>)
        \<and> (case ti_counter_terms inp of
             None \<Rightarrow> res = result_json ''OFFER_REJECTED'' k None False
               \<and> d_sessions d' = d_sessions d4 \<and> d_approvals d' = d_approvals d4
               \<and> (\<forall>j. j \<noteq> k \<longrightarrow> get_offer d' j = get_offer d4 j)
           | Some ct \<Rightarrow> (\<exists>c x. jget res ''outcome'' = JStr ''COUNTER_OFFERED'' \<and> jget res ''offer_id'' = JInt c
               \<and> get_offer d' c = Some x \<and> of_proposer x = AGENT \<and> of_status x = PROPOSED
               \<and> of_session_id x = ns_id n \<and> sp_auto_accept_threshold pol \<le> offer_net_income x
               \<and> current_of d' (ns_id n) = Some c))"
      using assms(1) c unfolding settled_as_def by simp
    show ?thesis
      unfolding resolved_by_price_def
    proof (intro exI [of _ k] exI [of _ off] conjI assms(2-5))
      show "if sp_auto_accept_threshold pol \<le> offer_net_income off then
           res = result_json ''OFFER_ACCEPTED'' k None False
           \<and> get_offer d' k = Some (off\<lparr>of_status := ACCEPTED\<rparr>) \<and> current_of d' (ns_id n) = Some k
         else if sp_minimum_net_price pol \<le> offer_net_income off then
           (\<exists>aid a. res = result_json ''WAITING_APPROVAL'' k (Some aid) False
              \<and> get_approval d' aid = Some a \<and> ap_offer_id a = k
              \<and> ap_status a = AP_PENDING \<and> ap_effect_status a = Some NOT_APPLIED
              \<and> ap_policy_version a = sp_version pol)
           \<and> get_offer d' k = Some off \<and> current_of d' (ns_id n) = Some k
           \<and> map_option ns_status (get_session d' (ns_id n)) = Some WAITING_APPROVAL
         else
           get_offer d' k = Some (off\<lparr>of_status := REJECTED\<rparr>)
           \<and> (case ti_counter_terms inp of
                None \<Rightarrow> res = result_json ''OFFER_REJECTED'' k None False
                  \<and> d_approvals d' = d_approvals d \<and> (\<forall>j. j \<noteq> k \<longrightarrow> get_offer d' j = get_offer d j)
                  \<and> current_of d' (ns_id n) = ns_current_offer_id n
              | Some ct \<Rightarrow> (\<exists>c x. jget res ''outcome'' = JStr ''COUNTER_OFFERED'' \<and> jget res ''offer_id'' = JInt c
                  \<and> get_offer d' c = Some x \<and> of_proposer x = AGENT \<and> of_status x = PROPOSED
                  \<and> of_session_id x = ns_id n \<and> sp_auto_accept_threshold pol \<le> offer_net_income x
                  \<and> current_of d' (ns_id n) = Some c))"
      proof (cases "ti_counter_terms inp")
        case None
        with s kept keep show ?thesis by (simp add: low)
      next
        case (Some ct)
        with s show ?thesis by (simp add: low)
      qed
    qed
  qed
qed

lemma resolve_cases:
  assumes step: "resolve_offer_in_transaction H audit n p pol inp now sem d = Inr (res, d')"
  obtains (reused) c where "current_offer d n = Some c" and "audit d = Inr d'"
      and "jget res ''reused'' = JBool True" and "jget res ''offer_id'' = JInt (of_id c)"
  | (placed) t au d1 where "ti_terms inp = Some t" and "p_status p = AVAILABLE"
      and "authorized t pol = Inr au" and "au_conditions_valid au" and "ns_round_count n < sp_max_rounds pol"
      and "\<And>ct. ti_counter_terms inp = Some ct \<Longrightarrow> \<exists>cau. authorized ct pol = Inr cau \<and> au_can_counter cau"
      and "audit d = Inr d1" and "place_offer H n p pol inp t au (current_offer d n) now d1 = Inr (res, d')"
proof -
  from step show thesis
    unfolding resolve_offer_in_transaction_def
    apply (elim result_elims)
    apply (erule if_InrE)
    subgoal for t au cur ot cand reuse
      by (elim result_elims) (rule reused, auto simp: result_json_def)
    subgoal for t au cur ot cand reuse
      apply (elim result_elims)
      subgoal for ok d1
        by (rule placed [of t au d1]) (auto simp: result_simps not_le)
      done
    done
qed

lemma resolve_offer_effect:
  assumes "resolve_offer_in_transaction H audit n p pol inp now sem d = Inr (res, d')"
    and "audits_only audit" and "get_session d (ns_id n) = Some n" and "graph_inv d"
  shows "graph_inv d' \<and> approvals_later d d' \<and>
    (jget res ''reused'' = JBool True \<and> d_offers d' = d_offers d \<and> d_sessions d' = d_sessions d
       \<and> d_approvals d' = d_approvals d
     \<or> resolved_by_price n pol inp d res d' \<and> p_status p = AVAILABLE
       \<and> ns_round_count n < sp_max_rounds pol
       \<and> (\<exists>m. get_session d' (ns_id n) = Some m \<and> ns_round_count m = ns_round_count n + 1
            \<and> ns_version m = ns_version n + 1))"
  using assms(1)
proof (cases rule: resolve_cases)
  case (reused c)
  obtain es where d': "d' = d\<lparr>d_causal := es\<rparr>" using audits_onlyD [OF assms(2) reused(2)] by blast
  have "offer_inv d'" by (rule offer_inv_other [of d]) (use assms(4) in \<open>simp_all add: d' graph_inv_def\<close>)
  moreover have "approvals_stored d'" using assms(4) by (simp add: d' graph_inv_def approvals_stored_def)
  ultimately show ?thesis
    using reused(3) by (simp add: graph_inv_def d' approvals_later_same)
next
  case (placed t au d1)
  obtain es where d1: "d1 = d\<lparr>d_causal := es\<rparr>" using audits_onlyD [OF assms(2) placed(7)] by blast
  have inv1: "offer_inv d1" by (rule offer_inv_other [of d]) (use assms(4) in \<open>simp_all add: d1 graph_inv_def\<close>)
  have st1: "approvals_stored d1" using assms(4) by (simp add: d1 graph_inv_def approvals_stored_def)
  have n1: "get_session d1 (ns_id n) = Some n" using assms(3) by (simp add: d1)
  have cur: "current_offer d n = current_offer d1 n" by (simp add: current_offer_def d1 cong: option.case_cong)
  note eff = place_effect [OF placed(8) [unfolded cur] inv1 st1 n1 placed(3,4,6)]
  from eff obtain k off d4 where new: "get_offer d1 k = None" "of_session_id off = ns_id n" "of_proposer off = BUYER"
    "of_status off = PROPOSED" and set: "settled_as n pol inp au k off d4 res d'"
    and zone: "au_can_accept au \<longleftrightarrow> sp_auto_accept_threshold pol \<le> offer_net_income off"
      "au_can_request_approval au \<longleftrightarrow> sp_minimum_net_price pol \<le> offer_net_income off
              \<and> offer_net_income off < sp_auto_accept_threshold pol"
    and kept: "au_prohibited au \<and> ti_counter_terms inp = None \<longrightarrow> d_approvals d4 = d_approvals d1
              \<and> (\<forall>j. j \<noteq> k \<longrightarrow> get_offer d4 j = get_offer d1 j)
              \<and> current_of d4 (ns_id n) = ns_current_offer_id n"
    by blast
  have "au_prohibited au" if "\<not> au_can_accept au" "\<not> au_can_request_approval au"
  proof -
    obtain ot where ot: "pricing_terms t = Inr ot" and w: "authorize_with ot pol (tm_additional_terms t) = Inr au"
      using placed(3) by (auto simp: authorized_def result_simps)
    obtain net where "au_prohibited au \<longleftrightarrow> \<not> au_conditions_valid au \<or> net < sp_minimum_net_price pol"
      "au_can_accept au \<longleftrightarrow> au_conditions_valid au \<and> sp_auto_accept_threshold pol \<le> net"
      "au_can_request_approval au \<longleftrightarrow> au_conditions_valid au \<and>
           sp_minimum_net_price pol \<le> net \<and> net < sp_auto_accept_threshold pol"
      using authorize_terms_net [OF w [unfolded authorize_with_Inr]] by metis
    with that placed(4) show ?thesis by auto
  qed
  then have "resolved_by_price n pol inp d1 res d'"
    using settled_by_price [OF set new zone] kept by blast
  moreover have "get_offer d1 = get_offer d" and "d_approvals d1 = d_approvals d"
    by (simp_all add: d1 fun_eq_iff)
  ultimately have decided: "resolved_by_price n pol inp d res d'" by (simp only: resolved_by_price_def)
  have later: "approvals_later d d'" using eff by (simp add: approvals_later_def d1)
  have inv': "graph_inv d'" using eff by (simp add: graph_inv_def)
  have counted: "\<exists>m. get_session d' (ns_id n) = Some m \<and> ns_round_count m = ns_round_count n + 1
         \<and> ns_version m = ns_version n + 1"
    using eff by blast
  show ?thesis by (intro conjI disjI2 inv' later decided placed(2,5) counted)
qed

text \<open>
  C2: A formal offer of the buyer is decided by what the seller would keep of it: from the auto-accept
  threshold on it is accepted, from the minimum price on it waits for a pending approval of the
  seller, below it is rejected, leaving the previous offer and its approval untouched, or answered
  by a counter offer that reaches the threshold. Each fresh offer counts one round, within the limit of the
  policy. At no time are two offers of a negotiation open, and no decision of the seller is erased.
\<close>

theorem resolve_offer_sound:
  assumes "resolve_offer_in_transaction H audit n p pol inp now sem d = Inr (res, d')"
    and "audits_only audit" and "get_session d (ns_id n) = Some n" and "graph_inv d"
  shows "graph_inv d' \<and> approvals_later d d' \<and>
    (jget res ''reused'' = JBool True \<and> d_offers d' = d_offers d \<and> d_sessions d' = d_sessions d
       \<and> d_approvals d' = d_approvals d
     \<or> resolved_by_price n pol inp d res d' \<and> p_status p = AVAILABLE
       \<and> ns_round_count n < sp_max_rounds pol
       \<and> (\<exists>m. get_session d' (ns_id n) = Some m \<and> ns_round_count m = ns_round_count n + 1
            \<and> ns_version m = ns_version n + 1))"
  by (rule resolve_offer_effect [OF assms])

section \<open>Withdrawing and closing\<close>

lemma close_drafts_get:
  "get_draft (close_drafts sid d) k = map_option (\<lambda>r. if dr_session_id r = sid \<and> dr_status r \<in> {DR_PENDING, DR_READY}
           then r\<lparr>dr_status := DR_WITHDRAWN\<rparr> else r) (get_draft d k)"
proof -
  have "map_of (map (\<lambda>(k, r). (k, f r)) t) k = map_option f (map_of t k)" for f :: "draft \<Rightarrow> draft" and t
    by (induction t) auto
  then show ?thesis by (simp add: close_drafts_def tget_def)
qed

lemma close_drafts_frame [simp]:
  "d_offers (close_drafts sid d) = d_offers d" "d_sessions (close_drafts sid d) = d_sessions d"
  "d_approvals (close_drafts sid d) = d_approvals d" "d_next_offer (close_drafts sid d) = d_next_offer d"
  "d_next_session (close_drafts sid d) = d_next_session d"
  "d_next_approval (close_drafts sid d) = d_next_approval d"
  by (simp_all add: close_drafts_def)

definition offer_invalidated :: "db \<Rightarrow> offer \<Rightarrow> string \<Rightarrow> db \<Rightarrow> bool" where
  \<comment> \<open>the offer is closed for this reason, and every approval of it is invalidated\<close>
  "offer_invalidated d x reason d' \<longleftrightarrow>
     (\<exists>y. get_offer d' (of_id x) = Some y \<and> of_status y = (if of_proposer x = BUYER then WITHDRAWN else REJECTED)
        \<and> of_invalid_reason y = Some reason)
     \<and> (\<forall>k a. get_approval d k = Some a \<longrightarrow> ap_offer_id a = of_id x \<longrightarrow>
          (\<exists>a'. get_approval d' k = Some a' \<and> ap_effect_status a' = Some INVALIDATED))"

lemma invalidate_offer_sound:
  assumes "invalidate_offer H now reason sid (current_offer d n) d = Inr d'" and "graph_inv d"
    and "current_offer d n = Some x" and "of_status x \<in> {PROPOSED, ACCEPTED}"
  shows "offer_invalidated d x reason d'"
proof -
  note eff = invalidate_offer_effect [OF assms(1) [unfolded assms(3)] assms(4)]
  have inv: "offer_inv d" and stored: "approvals_stored d" using assms(2) by (simp_all add: graph_inv_def)
  from assms(3) obtain k where k: "get_offer d k = Some x" by (auto simp: current_offer_def split: option.splits)
  then have i: "of_id x = k" using offer_inv_offerD [OF inv] by blast
  have "k \<in> set (approvals_of_offer d (of_id x))" if "get_approval d k = Some a" "ap_offer_id a = of_id x" for k a
  proof -
    have "ap_id a = k" using stored that(1) by (simp add: approvals_stored_def)
    moreover have "a \<in> set (trows (d_approvals d))" using that(1) by (rule tget_in_trows)
    ultimately show ?thesis using that(2) unfolding approvals_of_offer_def by auto
  qed
  then have "\<forall>k a. get_approval d k = Some a \<longrightarrow> ap_offer_id a = of_id x \<longrightarrow>
          (\<exists>a'. get_approval d' k = Some a' \<and> ap_effect_status a' = Some INVALIDATED)"
    using eff(5) by blast
  moreover have "get_offer d' k = Some (x\<lparr>of_status := (if of_proposer x = BUYER then WITHDRAWN else REJECTED),
                          of_invalid_reason := Some reason, of_invalidated_at := Some now\<rparr>)"
    using eff(1) k i by (simp add: close_offer_def)
  ultimately show ?thesis by (simp add: offer_invalidated_def i)
qed

lemma lifecycle_cases:
  assumes step: "lifecycle_in_transaction H audit n inp now d = Inr (res, d')"
  obtains d1 d2 closing where "closing = (ti_kind inp = CLOSE)" and "audit d = Inr d1"
    and "invalidate_offer H now (if closing then ''CLOSED'' else ''WITHDRAWN'') (ns_id n) (current_offer d n) d1 = Inr d2"
    and "d' = mod_session (ns_id n) (\<lambda>s. s\<lparr>ns_current_offer_id := None,
                 ns_status := (if closing then CLOSED else ACTIVE), ns_version := ns_version s + 1\<rparr>)
          (if closing then close_drafts (ns_id n) d2 else d2)"
    and "ti_kind inp = WITHDRAW \<Longrightarrow> \<exists>c. current_offer d n = Some c \<and> ti_offer_id inp = Some (of_id c)
           \<and> of_proposer c = BUYER \<and> of_status c \<in> {PROPOSED, ACCEPTED}"
proof -
  from step show thesis
    unfolding lifecycle_in_transaction_def
    by (elim result_elims) (rule that, auto split: option.splits)
qed

lemma lifecycle_effect:
  assumes "lifecycle_in_transaction H audit n inp now d = Inr (res, d')"
    and "audits_only audit" and "get_session d (ns_id n) = Some n" and "graph_inv d"
  shows "graph_inv d' \<and> approvals_later d d' \<and> none_open d' (ns_id n)
    \<and> (\<exists>m. get_session d' (ns_id n) = Some m \<and> ns_current_offer_id m = None
         \<and> ns_status m = (if ti_kind inp = CLOSE then CLOSED else ACTIVE) \<and> ns_version m = ns_version n + 1)
    \<and> (\<forall>x. current_offer d n = Some x \<and> of_status x \<in> {PROPOSED, ACCEPTED} \<longrightarrow>
         offer_invalidated d x (if ti_kind inp = CLOSE then ''CLOSED'' else ''WITHDRAWN'') d')
    \<and> (ti_kind inp = CLOSE \<longrightarrow> (\<forall>k r. get_draft d' k = Some r \<and> dr_session_id r = ns_id n \<longrightarrow>
         dr_status r \<notin> {DR_PENDING, DR_READY}))
    \<and> (ti_kind inp = WITHDRAW \<longrightarrow> (\<exists>c. current_offer d n = Some c \<and> ti_offer_id inp = Some (of_id c)
         \<and> of_proposer c = BUYER))"
  using assms(1)
proof (cases rule: lifecycle_cases)
  case (1 d1 d2 closing)
  obtain es where d1: "d1 = d\<lparr>d_causal := es\<rparr>" using audits_onlyD [OF assms(2) 1(2)] by blast
  have cur: "current_offer d n = current_offer d1 n" by (simp add: current_offer_def d1 cong: option.case_cong)
  have inv1: "graph_inv d1"
    using assms(4) offer_inv_other [of d d1] by (simp add: d1 graph_inv_def approvals_stored_def)
  have n1: "get_session d1 (ns_id n) = Some n" using assms(3) by (simp add: d1)
  note step = 1(3) [unfolded cur]
  have o1: "offer_inv d1" and a1: "approvals_stored d1" using inv1 by (simp_all add: graph_inv_def)
  note none = invalidate_none_open [OF step o1 n1] and keep = invalidate_offer_inv [OF step o1]
    and stored = invalidate_stored [OF step a1]
  define d3 where "d3 = (if closing then close_drafts (ns_id n) d2 else d2)"
  have same: "d_offers d3 = d_offers d2" "d_sessions d3 = d_sessions d2" "d_approvals d3 = d_approvals d2"
    "d_next_offer d3 = d_next_offer d2" "d_next_session d3 = d_next_session d2"
    "d_next_approval d3 = d_next_approval d2"
    by (simp_all add: d3_def)
  have frame: "d_offers d' = d_offers d2" "d_approvals d' = d_approvals d2" "d_next_approval d' = d_next_approval d2"
    using same by (simp_all add: 1(4) d3_def [symmetric])
  have inv3: "offer_inv d3" by (rule offer_inv_other [OF keep(1)]) (use same in simp_all)
  have none': "none_open d' (ns_id n)" using none(1) frame(1) by (simp add: none_open_def)
  have "open_is_current d'"
    unfolding open_is_current_def
  proof (intro allI impI)
    fix k off assume k: "get_offer d' k = Some off" "of_status off = PROPOSED"
    then have "of_session_id off \<noteq> ns_id n" using none' by (auto simp: none_open_def)
    with offer_inv_openD [OF inv3, of k off] k same frame
    show "\<exists>m. get_session d' (of_session_id off) = Some m \<and> ns_current_offer_id m = Some k"
      by (simp add: 1(4) d3_def [symmetric])
  qed
  moreover have "sessions_stored d'"
    unfolding 1(4) d3_def [symmetric] by (rule sessions_stored_mod) (use inv3 in \<open>simp_all add: offer_inv_def\<close>)
  moreover have "offers_stored d'"
    using inv3 unfolding 1(4) d3_def [symmetric] by (simp add: offer_inv_def offers_stored_def)
  moreover have "approvals_stored d'" using stored frame by (simp add: approvals_stored_def)
  ultimately have inv': "graph_inv d'" by (simp add: graph_inv_def offer_inv_def)
  have later: "approvals_later d d'" using keep(2) frame(2) by (simp add: approvals_later_def d1)
  have sess: "\<exists>m. get_session d' (ns_id n) = Some m \<and> ns_current_offer_id m = None
         \<and> ns_status m = (if ti_kind inp = CLOSE then CLOSED else ACTIVE) \<and> ns_version m = ns_version n + 1"
    using none(2) same(2) 1(1) by (auto simp: 1(4) d3_def [symmetric])
  have closed: "offer_invalidated d x (if ti_kind inp = CLOSE then ''CLOSED'' else ''WITHDRAWN'') d'"
    if "current_offer d n = Some x \<and> of_status x \<in> {PROPOSED, ACCEPTED}" for x
    using invalidate_offer_sound [OF step inv1, of x] that 1(1) frame
    by (simp add: offer_invalidated_def cur d1)
  have drafts: "dr_status r \<notin> {DR_PENDING, DR_READY}"
    if "ti_kind inp = CLOSE" "get_draft d' k = Some r" "dr_session_id r = ns_id n" for k r
  proof -
    have "get_draft d' k = get_draft (close_drafts (ns_id n) d2) k" using that(1) by (simp add: 1(1,4))
    with that(2) obtain r0 where "r = (if dr_session_id r0 = ns_id n \<and> dr_status r0 \<in> {DR_PENDING, DR_READY}
           then r0\<lparr>dr_status := DR_WITHDRAWN\<rparr> else r0)"
      by (auto simp: close_drafts_get)
    with that(3) show ?thesis by (cases "dr_session_id r0 = ns_id n") (auto split: if_splits)
  qed
  show ?thesis using inv' later none' sess closed drafts 1(5) by blast
qed

text \<open>
  C3: Withdrawing or closing leaves the negotiation without a current and without an open offer; the
  offer that was current is closed for the stated reason, its approvals are invalidated but no
  decision of the seller is erased, and closing withdraws the drafts. Only the buyer's own current offer can be withdrawn.
\<close>

theorem lifecycle_sound:
  assumes "lifecycle_in_transaction H audit n inp now d = Inr (res, d')"
    and "audits_only audit" and "get_session d (ns_id n) = Some n" and "graph_inv d"
  shows "graph_inv d' \<and> approvals_later d d' \<and> none_open d' (ns_id n)
    \<and> (\<exists>m. get_session d' (ns_id n) = Some m \<and> ns_current_offer_id m = None
         \<and> ns_status m = (if ti_kind inp = CLOSE then CLOSED else ACTIVE) \<and> ns_version m = ns_version n + 1)
    \<and> (\<forall>x. current_offer d n = Some x \<and> of_status x \<in> {PROPOSED, ACCEPTED} \<longrightarrow>
         offer_invalidated d x (if ti_kind inp = CLOSE then ''CLOSED'' else ''WITHDRAWN'') d')
    \<and> (ti_kind inp = CLOSE \<longrightarrow> (\<forall>k r. get_draft d' k = Some r \<and> dr_session_id r = ns_id n \<longrightarrow>
         dr_status r \<notin> {DR_PENDING, DR_READY}))
    \<and> (ti_kind inp = WITHDRAW \<longrightarrow> (\<exists>c. current_offer d n = Some c \<and> ti_offer_id inp = Some (of_id c)
         \<and> of_proposer c = BUYER))"
  by (rule lifecycle_effect [OF assms])

section \<open>A negotiation of the graph runtime\<close>

definition sample_graph_session :: session where
  "sample_graph_session = \<lparr>ns_id = 1, ns_product_id = 1, ns_buyer_id = ''buyer'',
      ns_status = ACTIVE, ns_current_offer_id = None, ns_confirmed_offer_id = None,
      ns_confirmed_at = None, ns_confirmation_request_id = None, ns_confirmation_source = None,
      ns_round_count = 0, ns_version = 1, ns_graph_version = Some ''negotiation-v1'', ns_archived_at = None,
      ns_lifecycle_checked_at = None, ns_next_input_seq = 2, ns_last_resolved_input_seq = 0,
      ns_next_public_seq = 2\<rparr>"

definition sample_product :: product where
  "sample_product = \<lparr>p_id = 1, p_seller_id = ''seller'', p_title = ''bike'', p_product_version = 1,
        p_description = ''used'', p_listed_price = 20000, p_status = AVAILABLE\<rparr>"

definition sample_graph :: db where
  "sample_graph = sample_db\<lparr>d_sessions := [(1, sample_graph_session)], d_next_session := 2\<rparr>"

definition sample_digest :: "json \<Rightarrow> string" where
  "sample_digest j = ''digest''"

definition submit_of :: "cents \<Rightarrow> typed_input" where
  "submit_of price = \<lparr>ti_kind = SUBMIT, ti_text = ''offer'',
     ti_terms = Some \<lparr>tm_amount = price, tm_shipping_paid_by = BuyerPays, tm_shipping_cost = None,
                      tm_seller_discount = Some 0, tm_additional_terms = []\<rparr>,
     ti_counter_terms = None, ti_offer_id = None, ti_client_view_id = ''view'',
     ti_display_receipt_id = None\<rparr>"

definition graph_offer :: "cents \<Rightarrow> offer_status \<Rightarrow> offer" where
  "graph_offer price st = (sample_offer price st)\<lparr>of_expires_at := Some (hours 24)\<rparr>"

definition sample_resolved :: db where
  "sample_resolved = sample_graph\<lparr>
     d_offers := [(1, graph_offer 16000 ACCEPTED)], d_next_offer := 2,
     d_evidence := [(1, \<lparr>ge_offer_id = 1, ge_terms_hash = ''digest'', ge_policy_version = 1,
                         ge_product_hash = ''digest''\<rparr>)],
     d_sessions := [(1, sample_graph_session\<lparr>ns_current_offer_id := Some 1, ns_round_count := 1,
                         ns_version := 2\<rparr>)]\<rparr>"

lemma sample_graph_inv: "graph_inv sample_graph"
  by (simp add: graph_inv_def sample_graph_def sample_graph_session_def sample_db_def empty_db_def
      offer_inv_defs approvals_stored_def)

lemma sample_pricing:
  "pricing_terms \<lparr>tm_amount = 16000, tm_shipping_paid_by = BuyerPays, tm_shipping_cost = None,
                   tm_seller_discount = Some 0, tm_additional_terms = extra\<rparr> = Inr (sample_terms 16000)"
  by (simp add: pricing_terms_def mk_terms_def validate_optional_def MAX_MONEY_def sample_terms_def)

lemma sample_authorized_with:
  "authorize_with (sample_terms price) sample_policy [] = Inr (sample_authorization price)"
  by (simp add: authorize_with_Inr sample_authorized)

lemma sample_resolve:
  "resolve_offer_in_transaction sample_digest Inr sample_graph_session sample_product sample_policy
     (submit_of 16000) 0 None sample_graph
   = Inr (result_json ''OFFER_ACCEPTED'' 1 None False, sample_resolved)"
  by (simp add: resolve_offer_in_transaction_def submit_of_def sample_product_def sample_graph_session_def
      authorized_def sample_pricing sample_authorized_with sample_authorization_def zone_of_def
      current_offer_def new_offer_def place_offer_def invalidate_offer_def new_offer_in_transaction_def
      add_offer_def sample_graph_def sample_db_def empty_db_def tadd_def terms_hash_def sample_digest_def
      product_hash_def supersede_def settle_offer_def set_current_def set_offer_status_def tmod_def tput_def
      sample_resolved_def graph_offer_def sample_offer_def)

lemma audits_only_Inr [simp]: "audits_only Inr"
  unfolding audits_only_def by (intro allI impI, rule_tac x = "d_causal d'" in exI) simp

theorem resolve_offer_sound_witness:
  "graph_inv sample_resolved \<and> resolved_by_price sample_graph_session sample_policy (submit_of 16000)
     sample_graph (result_json ''OFFER_ACCEPTED'' 1 None False) sample_resolved"
proof -
  have "get_session sample_graph (ns_id sample_graph_session) = Some sample_graph_session"
    by (simp add: sample_graph_def sample_graph_session_def)
  then have "graph_inv sample_resolved \<and> (jget (result_json ''OFFER_ACCEPTED'' 1 None False) ''reused'' = JBool True
      \<or> resolved_by_price sample_graph_session sample_policy (submit_of 16000)
     sample_graph (result_json ''OFFER_ACCEPTED'' 1 None False) sample_resolved)"
    using resolve_offer_sound [OF sample_resolve audits_only_Inr _ sample_graph_inv] by blast
  then show ?thesis by (simp add: result_json_def)
qed

section \<open>Confirming it\<close>

definition confirm_of :: "int \<Rightarrow> typed_input" where
  "confirm_of k = \<lparr>ti_kind = CONFIRM, ti_text = ''deal'', ti_terms = None, ti_counter_terms = None,
     ti_offer_id = Some k, ti_client_view_id = ''view'', ti_display_receipt_id = Some ''ack''\<rparr>"

definition sample_config :: run_config where
  "sample_config = \<lparr>cf_schema = ''run-v1'', cf_max_calls = 8, cf_max_tokens = 32000, cf_max_cost = None,
     cf_active_ms = None, cf_model_name = None\<rparr>"

definition sample_run :: input_row where
  "sample_run = \<lparr>in_id = ''input'', in_session_id = 1, in_task_id = 1, in_buyer_message_id = 1, in_seq = 1,
     in_request_id = ''request'', in_payload = Typed (confirm_of 1), in_input_hash = ''digest'',
     in_config = sample_config, in_config_hash = ''digest'', in_graph_version = ''negotiation-v1'',
     in_received_at = 20, in_seen_public_message_seq = 5, in_checkpoint_ref = None,
     in_recovery_required = False, in_active_ms = 0, in_active_since = None, in_active_until = None,
     in_closing_deadline = None\<rparr>"

definition sample_displayed :: db where
  \<comment> \<open>the buyer was shown the accepted offer at time 10\<close>
  "sample_displayed = sample_resolved\<lparr>
     d_contexts := [(''ctx'', \<lparr>pc_id = ''ctx'', pc_session_id = 1, pc_buyer_id = ''buyer'', pc_message_id = 2,
        pc_public_seq = 4, pc_offer_id = Some 1, pc_draft_refs = None, pc_refresh_key = None,
        pc_terms_hash = ''digest'', pc_business_version = 2, pc_expires_at = minutes 30\<rparr>)],
     d_acks := [(''ack'', \<lparr>da_id = ''ack'', da_context_id = ''ctx'', da_buyer_id = ''buyer'',
        da_client_view_id = ''view'', da_request_id = ''shown'', da_displayed_at = 10\<rparr>)]\<rparr>"

abbreviation "sample_graph_session' \<equiv>
  sample_graph_session\<lparr>ns_current_offer_id := Some 1, ns_round_count := 1, ns_version := 2\<rparr>"

lemma sample_displayed_inv: "offer_inv sample_displayed"
  by (simp add: sample_displayed_def sample_resolved_def sample_graph_def sample_graph_session_def
      sample_db_def empty_db_def graph_offer_def sample_offer_def offer_inv_defs)

lemma graph_offer_authorized: "offer_authorization (graph_offer 16000 st) sample_policy = Inr (sample_authorization 16000)"
proof -
  have "terms_from_offer (graph_offer 16000 st) = Inr (sample_terms 16000)"
    by (simp add: graph_offer_def terms_from_offer_def mk_terms_def sample_offer_def sample_terms_def
        validate_optional_def MAX_MONEY_def)
  then show ?thesis by (simp add: offer_authorization_def sample_authorized_with graph_offer_def sample_offer_def)
qed

lemma sample_valid:
  "valid_offer sample_digest sample_displayed sample_graph_session' sample_product sample_policy
     (Some (graph_offer 16000 ACCEPTED)) 30 = Inr True"
proof -
  have "sample_authorization 16000 = \<lparr>au_zone = AUTO_ACCEPT, au_conditions_valid = True, au_can_accept = True,
       au_can_counter = True, au_can_request_approval = False, au_prohibited = False,
       au_reason_code = zone_reason AUTO_ACCEPT\<rparr>"
    by (simp add: sample_authorization_def zone_of_def Let_def)
  note au = graph_offer_authorized [of ACCEPTED, unfolded this]
  have row: "get_offer sample_displayed 1 = Some (graph_offer 16000 ACCEPTED)"
    "approval_of_offer sample_displayed 1 = None"
    "tget (d_evidence sample_displayed) 1 = Some \<lparr>ge_offer_id = 1, ge_terms_hash = ''digest'',
       ge_policy_version = 1, ge_product_hash = ''digest''\<rparr>"
    by (simp_all add: sample_displayed_def sample_resolved_def sample_graph_def sample_db_def empty_db_def
        approval_of_offer_def trows_def)
  have off: "of_id (graph_offer 16000 ACCEPTED) = 1" "of_session_id (graph_offer 16000 ACCEPTED) = 1"
    "of_proposer (graph_offer 16000 ACCEPTED) = BUYER" "of_status (graph_offer 16000 ACCEPTED) = ACCEPTED"
    "unexpired (graph_offer 16000 ACCEPTED) 30"
    by (simp_all add: graph_offer_def unexpired_def hours_def minutes_def seconds_def)
  have basis: "basis_valid sample_digest sample_displayed sample_graph_session' sample_product sample_policy
     (Some (graph_offer 16000 ACCEPTED)) 30 = Inr True"
    by (simp add: basis_valid_def au row off is_semantic_def sample_graph_session_def sample_product_def
        product_hash_def terms_hash_def sample_digest_def)
  have "ns_status sample_graph_session' = ACTIVE" by (simp add: sample_graph_session_def)
  then show ?thesis unfolding valid_offer_def by (simp add: basis au row off)
qed

lemma sample_shown:
  "displayed_offer sample_digest sample_displayed sample_graph_session' (graph_offer 16000 ACCEPTED) (confirm_of 1)
     sample_run 30"
  by (simp add: displayed_offer_def sample_run_def confirm_of_def sample_displayed_def sample_graph_session_def
      graph_offer_def sample_offer_def terms_hash_def sample_digest_def minutes_def seconds_def)

lemma sample_confirm:
  "\<exists>res d'. confirm_in_transaction sample_digest Inr sample_graph_session' sample_product sample_policy
     (confirm_of 1) sample_run 30 sample_displayed = Inr (res, d')"
proof -
  have "get_offer sample_displayed 1 = Some (graph_offer 16000 ACCEPTED)" "ti_offer_id (confirm_of 1) = Some 1"
    by (simp_all add: sample_displayed_def sample_resolved_def confirm_of_def)
  then show ?thesis by (simp add: confirm_in_transaction_def sample_valid sample_shown Let_def)
qed

theorem confirm_sound_witness:
  "\<exists>(d' :: db) n. get_session d' 1 = Some n \<and> ns_status n = AGREED"
proof -
  obtain res d' where step: "confirm_in_transaction sample_digest Inr sample_graph_session' sample_product sample_policy
     (confirm_of 1) sample_run 30 sample_displayed = Inr (res, d')"
    using sample_confirm by blast
  have "get_session sample_displayed (ns_id sample_graph_session') = Some sample_graph_session'"
    by (simp add: sample_displayed_def sample_resolved_def sample_graph_session_def)
  from confirm_sound [OF step audits_only_Inr this sample_displayed_inv]
  obtain n' where "get_session d' (ns_id sample_graph_session') = Some n'" and "ns_status n' = AGREED"
    by blast
  then have "get_session d' 1 = Some n' \<and> ns_status n' = AGREED" by (simp add: sample_graph_session_def)
  then show ?thesis by blast
qed

section \<open>Closing it\<close>

definition close_input :: typed_input where
  "close_input = \<lparr>ti_kind = CLOSE, ti_text = ''bye'', ti_terms = None, ti_counter_terms = None,
     ti_offer_id = None, ti_client_view_id = ''view'', ti_display_receipt_id = None\<rparr>"

lemma sample_current: "current_offer sample_displayed sample_graph_session' = Some (graph_offer 16000 ACCEPTED)"
  by (simp add: current_offer_def sample_displayed_def sample_resolved_def)

lemma sample_invalidate:
  "\<exists>d'. invalidate_offer sample_digest 40 ''CLOSED'' 1 (Some (graph_offer 16000 ACCEPTED)) sample_displayed = Inr d'"
  by (simp add: invalidate_offer_def graph_offer_def sample_displayed_def sample_resolved_def Let_def
      approvals_of_offer_def drop_current_def close_offer_def sample_graph_def sample_db_def empty_db_def
      trows_def flush_approvals_def approvals_unique_def List.map_filter_def)

lemma sample_close:
  "\<exists>res d'. lifecycle_in_transaction sample_digest Inr sample_graph_session' close_input 40 sample_displayed
     = Inr (res, d')"
proof -
  obtain d' where "invalidate_offer sample_digest 40 ''CLOSED'' 1 (Some (graph_offer 16000 ACCEPTED))
      sample_displayed = Inr d'"
    using sample_invalidate by blast
  moreover have "ns_id sample_graph_session' = 1" by (simp add: sample_graph_session_def)
  ultimately show ?thesis
    by (simp add: lifecycle_in_transaction_def sample_current close_input_def Let_def)
qed

theorem lifecycle_sound_witness:
  "\<exists>d' (m :: session). get_session d' 1 = Some m \<and> ns_status m = CLOSED \<and> graph_inv d' \<and> none_open d' 1"
proof -
  obtain res d' where step: "lifecycle_in_transaction sample_digest Inr sample_graph_session' close_input 40
      sample_displayed = Inr (res, d')"
    using sample_close by blast
  have n: "get_session sample_displayed (ns_id sample_graph_session') = Some sample_graph_session'"
    by (simp add: sample_displayed_def sample_resolved_def sample_graph_session_def)
  have inv: "graph_inv sample_displayed"
    using sample_displayed_inv
    by (simp add: graph_inv_def approvals_stored_def sample_displayed_def sample_resolved_def sample_graph_def
        sample_db_def empty_db_def)
  have i: "ns_id sample_graph_session' = 1" "ti_kind close_input = CLOSE"
    by (simp_all add: sample_graph_session_def close_input_def)
  from lifecycle_sound [OF step audits_only_Inr n inv] obtain m where
    "get_session d' 1 = Some m" "ns_status m = CLOSED" "graph_inv d'" "none_open d' 1"
    by (auto simp: i)
  then show ?thesis by blast
qed

end
