(* ===== verification/Queue.thy ===== *)
theory Queue
  imports Interfaces Schema
begin

text \<open>
  The input queue of the graph runtime: \<open>backend/app/runtime/activity.py\<close> (charged execution time),
  \<open>runtime/input_queue.py\<close> (the queue of a session and the lease on its head), and the transactions of
  \<open>runtime/operations.py\<close> and \<open>runtime/supervisor.py\<close> that take the lease away.

  Each \<open>self.clock()\<close> of a transaction is a parameter of its own; identifiers from \<open>uuid4\<close> are parameters.
  \<open>H\<close> is the digest; the digest of the submitted payload is the parameter \<open>fp\<close>. Locks, statement time limits and
  the termination of PostgreSQL connections are not modelled.
\<close>

section \<open>Charged time\<close>

text \<open>
  \<open>int(duration.total_seconds() * 1000)\<close>: both operations round to the nearest double, half to even.
  \<open>fl n d\<close> is the double nearest to \<open>n / d\<close> as a numerator and a power of two, for quotients below
  \<open>2 ^ 53\<close> (durations of up to 285 years); 1.001 s are charged as 1000 ms.
\<close>

definition round_half_even :: "nat \<Rightarrow> nat \<Rightarrow> nat" where
  "round_half_even n d =
     (let q = n div d; r = n mod d in if 2 * r < d \<or> 2 * r = d \<and> even q then q else q + 1)"

function fl :: "nat \<Rightarrow> nat \<Rightarrow> nat \<times> nat" where
  "fl n d =
     (if n = 0 \<or> 2 ^ 52 * d \<le> n then (round_half_even n d, 0)
      else let (m, s) = fl (2 * n) d in (m, s + 1))"
  by auto
termination
  by (relation "measure (\<lambda>(n, d). 2 ^ 52 * d - n)") auto

declare fl.simps [simp del]

definition elapsed_ms :: "time \<Rightarrow> int" where
  "elapsed_ms us =
     (if us \<le> 0 then 0
      else let (m, s) = fl (nat us) 1000000; (m', s') = fl (m * 1000) (2 ^ s) in int (m' div 2 ^ s'))"

definition millis :: "int \<Rightarrow> time" where
  "millis n = n * 1000"

definition used_ms :: "input_row \<Rightarrow> time \<Rightarrow> int" where
  "used_ms run now = in_active_ms run +
     (case (in_active_since run, in_active_until run) of
        (Some since, Some until) \<Rightarrow> max 0 (elapsed_ms (min now until - since))
      | _ \<Rightarrow> 0)"

definition active_limit_ms :: "run_config \<Rightarrow> int" where
  \<comment> \<open>\<open>config.get("active_seconds", 120)\<close>\<close>
  "active_limit_ms c = (case cf_active_ms c of None \<Rightarrow> 120000 | Some a \<Rightarrow> a)"

definition remaining_ms :: "input_row \<Rightarrow> time \<Rightarrow> int" where
  "remaining_ms run now = max 0 (active_limit_ms (in_config run) - used_ms run now)"

definition settle :: "time \<Rightarrow> input_row \<Rightarrow> input_row" where
  "settle now run =
     (let closing =
        (case in_active_since run of
           None \<Rightarrow> in_closing_deadline run
         | Some since \<Rightarrow>
             if in_closing_deadline run = None \<and> remaining_ms run now \<le> 0
             then Some (since + millis (max 0 (active_limit_ms (in_config run) - in_active_ms run)) + seconds 15)
             else in_closing_deadline run)
      in run\<lparr>in_closing_deadline := closing, in_active_ms := used_ms run now,
              in_active_since := None, in_active_until := None\<rparr>)"

definition reply_key :: "string \<Rightarrow> string" where
  "reply_key rid = ''turn:'' @ rid @ '':reply''"

definition model_timeout :: "db \<Rightarrow> input_row \<Rightarrow> time \<Rightarrow> exn + time" where
  "model_timeout d run now =
     (let budget = min (seconds 45) (millis (remaining_ms run now));
          left = (case get_delivery d (reply_key (in_id run)) of
                    None \<Rightarrow> budget
                  | Some del \<Rightarrow> min budget (nd_reply_deadline del - now))
      in if in_closing_deadline run \<noteq> None \<or> left \<le> 0 then Inl BudgetExhausted else Inr left)"

definition lease_deadline :: "db \<Rightarrow> time \<Rightarrow> time \<Rightarrow> input_row \<Rightarrow> time \<times> input_row" where
  \<comment> \<open>the deadline, and the run with its closing deadline frozen\<close>
  "lease_deadline d now lease run =
     (case in_closing_deadline run of
        Some c \<Rightarrow> (min (now + lease) c, run)
      | None \<Rightarrow>
          let budget = now + millis (remaining_ms run now);
              deadline = (case get_delivery d (reply_key (in_id run)) of
                            None \<Rightarrow> budget
                          | Some del \<Rightarrow> min budget (nd_reply_deadline del))
          in if deadline \<le> now
             then (min (now + lease) (deadline + seconds 15),
                   run\<lparr>in_closing_deadline := Some (deadline + seconds 15)\<rparr>)
             else (min (now + lease) (deadline + seconds 15), run))"

section \<open>Sessions, owners and rows\<close>

definition owned_session :: "db \<Rightarrow> int \<Rightarrow> string \<Rightarrow> exn + session" where
  "owned_session d sid buyer =
     (case get_session d sid of
        None \<Rightarrow> Inl (Conflict ''no such session'')
      | Some n \<Rightarrow> if ns_buyer_id n = buyer then Inr n else Inl (Conflict ''no such session''))"

type_synonym owner = "string \<times> int"

definition owns :: "task \<Rightarrow> owner \<Rightarrow> time \<Rightarrow> exn + bool" where
  \<comment> \<open>the condition of \<open>lock_owner\<close>\<close>
  "owns t owner now =
     (if t_runtime_kind t \<noteq> ''LANGGRAPH'' \<or> t_status t \<noteq> T_RUNNING
         \<or> t_lease_token t \<noteq> Some (fst owner) \<or> t_ownership_epoch t \<noteq> snd owner
      then Inr False
      else case t_lease_expires_at t of
        None \<Rightarrow> Inl TypeExn
      | Some e \<Rightarrow> Inr (now < e))"

definition lock_owner :: "string \<Rightarrow> owner \<Rightarrow> time \<Rightarrow> db \<Rightarrow> exn + input_row \<times> task" where
  "lock_owner rid owner now d =
     (case get_input d rid of
        None \<Rightarrow> Inl (Conflict ''no such run'')
      | Some run \<Rightarrow>
      case get_task d (in_task_id run) of
        None \<Rightarrow> Inl AttributeExn
      | Some t \<Rightarrow>
      ebind (owns t owner now) (\<lambda>ok. if ok then Inr (run, t) else Inl StaleOwner))"

definition store_run :: "string \<Rightarrow> input_row \<Rightarrow> task \<Rightarrow> db \<Rightarrow> exn + db" where
  \<comment> \<open>the flush of both rows; the check constraints of the task are enforced\<close>
  "store_run rid run t d =
     (if task_checks t
      then Inr (d\<lparr>d_inputs := tput rid run (d_inputs d), d_tasks := tput (in_task_id run) t (d_tasks d)\<rparr>)
      else Inl IntegrityExn)"

definition drop_lease :: "task \<Rightarrow> task" where
  "drop_lease t = t\<lparr>t_lease_token := None, t_lease_owner := None, t_lease_expires_at := None\<rparr>"

section \<open>Enqueueing\<close>

definition graph_versions :: "string list" where
  "graph_versions = [''negotiation-v1'', ''negotiation-v2'', ''negotiation-v3'']"

definition enroll :: "int \<Rightarrow> string \<Rightarrow> string \<Rightarrow> db \<Rightarrow> exn + (unit \<times> db)" where
  "enroll sid buyer version d =
     ebind (owned_session d sid buyer) (\<lambda>n.
     if ns_graph_version n = Some version then Inr ((), d)
     else if ns_graph_version n \<noteq> None then Inl (Conflict ''graph version already bound'')
     else if list_ex (\<lambda>m. ms_session_id m = sid) (trows (d_messages d))
          \<or> list_ex (\<lambda>x. of_session_id x = sid) (trows (d_offers d))
          \<or> list_ex (\<lambda>t. t_session_id t = sid) (trows (d_tasks d))
     then Inl (Conflict ''session not empty'')
     else if version \<notin> set graph_versions then Inl (Conflict ''unsupported graph version'')
     else Inr ((), mod_session sid (\<lambda>s. s\<lparr>ns_graph_version := Some version\<rparr>) d))"

definition usable_draft :: "draft option \<Rightarrow> session \<Rightarrow> time \<Rightarrow> int option \<Rightarrow> bool" where
  "usable_draft dr n now version \<longleftrightarrow>
     (case dr of
        None \<Rightarrow> False
      | Some r \<Rightarrow> dr_session_id r = ns_id n \<and> Some (dr_version r) = version
          \<and> dr_status r \<in> {DR_PENDING, DR_READY} \<and> now < dr_expires_at r
          \<and> dr_business_version r = ns_version n)"

definition validate_references :: "db \<Rightarrow> session \<Rightarrow> chat_input \<Rightarrow> time \<Rightarrow> exn + unit" where
  "validate_references d n p now =
     ebind (case ci_reply_to_message_id p of
              None \<Rightarrow> Inr ()
            | Some k \<Rightarrow> require (case tget (d_messages d) k of
                                  None \<Rightarrow> False
                                | Some m \<Rightarrow> ms_session_id m = ns_id n)
                          (Conflict ''message of another session'')) (\<lambda>_.
     case ci_draft_id p of
       None \<Rightarrow> Inr ()
     | Some k \<Rightarrow> if k = [] then Inr ()
                 else require (usable_draft (get_draft d k) n now (ci_draft_version p))
                        (Conflict ''draft not usable''))"

definition seen_display :: "db \<Rightarrow> int \<Rightarrow> string \<Rightarrow> payload \<Rightarrow> time \<Rightarrow> exn + int" where
  \<comment> \<open>the public sequence number of the displayed context the payload refers to\<close>
  "seen_display d sid buyer p now =
     (case payload_display p of
        None \<Rightarrow> Inr 0
      | Some rid \<Rightarrow>
          (case tget (d_acks d) rid of
             None \<Rightarrow> Inl (Conflict ''invalid display receipt'')
           | Some ack \<Rightarrow>
          case tget (d_contexts d) (da_context_id ack) of
             None \<Rightarrow> Inl (Conflict ''invalid display receipt'')
           | Some ctx \<Rightarrow>
               if da_buyer_id ack \<noteq> buyer \<or> da_client_view_id ack \<noteq> payload_view p
                  \<or> pc_session_id ctx \<noteq> sid \<or> pc_buyer_id ctx \<noteq> buyer
                  \<or> now < da_displayed_at ack \<or> pc_expires_at ctx \<le> now
               then Inl (Conflict ''invalid display receipt'')
               else Inr (pc_public_seq ctx)))"

fun is_chat :: "payload \<Rightarrow> bool" where
  "is_chat (Chat p) = True"
| "is_chat (Typed p) = False"

fun payload_ok :: "payload \<Rightarrow> bool" where
  "payload_ok (Chat p) = chat_input_ok p"
| "payload_ok (Typed p) = typed_input_ok p"

fun show_kind :: "input_kind \<Rightarrow> string" where
  "show_kind SUBMIT = ''SUBMIT''" | "show_kind REPLACE = ''REPLACE''" | "show_kind CONFIRM = ''CONFIRM''"
| "show_kind WITHDRAW = ''WITHDRAW''" | "show_kind CLOSE = ''CLOSE''" | "show_kind QUERY = ''QUERY''"

fun payload_content :: "payload \<Rightarrow> string" where
  "payload_content (Chat p) = (if ci_text p = [] then ''CHAT'' else ci_text p)"
| "payload_content (Typed p) = (if ti_text p = [] then show_kind (ti_kind p) else ti_text p)"

definition base_config :: run_config where
  "base_config = \<lparr>cf_schema = ''p1-v1'', cf_max_calls = 10, cf_max_tokens = 180000, cf_max_cost = None,
     cf_active_ms = None, cf_model_name = None\<rparr>"

definition default_config :: "payload \<Rightarrow> session \<Rightarrow> string \<Rightarrow> run_config" where
  \<comment> \<open>prompt versions, which nothing here reads, are left out\<close>
  "default_config p n model =
     (if \<not> is_chat p then base_config
      else if ns_graph_version n = Some ''negotiation-v3'' then
        \<lparr>cf_schema = ''p4-v1'', cf_max_calls = 10, cf_max_tokens = 180000, cf_max_cost = None,
         cf_active_ms = Some 120000, cf_model_name = Some model\<rparr>
      else
        \<lparr>cf_schema = ''p2-v1'', cf_max_calls = 2, cf_max_tokens = 50000, cf_max_cost = Some 20000000,
         cf_active_ms = None, cf_model_name = Some model\<rparr>)"

definition config_ok :: "payload \<Rightarrow> session \<Rightarrow> run_config \<Rightarrow> bool" where
  "config_ok p n c \<longleftrightarrow>
     cf_schema c = (if ns_graph_version n = Some ''negotiation-v3'' then ''p4-v1''
                    else if is_chat p then ''p2-v1'' else ''p1-v1'')
     \<and> 0 \<le> cf_max_calls c \<and> 0 \<le> cf_max_tokens c
     \<and> 0 < active_limit_ms c \<and> active_limit_ms c \<le> 120000"

definition config_json :: "run_config \<Rightarrow> json" where
  "config_json c = JObj [(''schema'', JStr (cf_schema c)), (''max_calls'', JInt (cf_max_calls c)),
     (''max_tokens'', JInt (cf_max_tokens c)), (''max_cost'', jopt JInt (cf_max_cost c)),
     (''active_seconds'', jopt JInt (cf_active_ms c)), (''model_name'', jopt JStr (cf_model_name c))]"

definition new_graph_task :: "int \<Rightarrow> string \<Rightarrow> string \<Rightarrow> string \<Rightarrow> session \<Rightarrow> policy \<Rightarrow> task" where
  "new_graph_task tid rid corr fp n pol =
     \<lparr>t_id = tid, t_ownership_epoch = 0, t_type = CHAT_DECISION, t_business_key = ''graph:'' @ rid,
      t_session_id = ns_id n, t_offer_id = None, t_approval_id = None, t_snapshot_schema_version = 1,
      t_session_version = ns_version n, t_policy_version = sp_version pol,
      t_input_snapshot = JObj [(''run_id'', JStr rid)], t_input_snapshot_hash = fp,
      t_runtime_kind = ''LANGGRAPH'', t_runtime_checkpoint = None, t_correlation_id = corr,
      t_status = T_PENDING, t_attempt_count = 0, t_max_attempts = 3, t_manual_retry_count = 0,
      t_next_retry_at = None, t_lease_owner = None, t_lease_token = None, t_lease_expires_at = None,
      t_last_error_category = None, t_last_error_message = None, t_usage = None, t_result_snapshot = None,
      t_started_at = None, t_completed_at = None, t_last_manual_action = None,
      t_last_manual_actor_id = None, t_last_manual_reason = None, t_last_manual_at = None\<rparr>"

definition insert_input ::
    "(json \<Rightarrow> string) \<Rightarrow> string \<Rightarrow> string \<Rightarrow> string \<Rightarrow> string \<Rightarrow> payload \<Rightarrow> run_config \<Rightarrow> int \<Rightarrow> time \<Rightarrow>
     session \<Rightarrow> policy \<Rightarrow> db \<Rightarrow> exn + db" where
  \<comment> \<open>the buyer's message, the task and the input, numbered by the session\<close>
  "insert_input H rid corr fp request p c seen now n pol d =
     (let mid = d_next_message d; tid = d_next_task d;
          m = \<lparr>ms_id = mid, ms_source_id = None, ms_public_seq = None, ms_session_id = ns_id n,
               ms_role = BUYER_MESSAGE, ms_content = payload_content p,
               ms_request_id = ''graph-input:'' @ rid, ms_request_fingerprint = Some fp,
               ms_agent_outcome = None, ms_formal_offer_id = None\<rparr>;
          run = \<lparr>in_id = rid, in_session_id = ns_id n, in_task_id = tid, in_buyer_message_id = mid,
                 in_seq = ns_next_input_seq n, in_request_id = request, in_payload = p, in_input_hash = fp,
                 in_config = c, in_config_hash = H (config_json c),
                 in_graph_version = (case ns_graph_version n of None \<Rightarrow> [] | Some v \<Rightarrow> v),
                 in_received_at = now, in_seen_public_message_seq = seen, in_checkpoint_ref = None,
                 in_recovery_required = False, in_active_ms = 0, in_active_since = None,
                 in_active_until = None, in_closing_deadline = None\<rparr>;
          t = new_graph_task tid rid corr fp n pol
      in ebind (tadd IntegrityExn mid m (d_messages d)) (\<lambda>ms.
         ebind (tadd IntegrityExn tid t (d_tasks d)) (\<lambda>ts.
         ebind (tadd IntegrityExn rid run (d_inputs d)) (\<lambda>rs.
         if \<not> task_checks t then Inl IntegrityExn
         else Inr (mod_session (ns_id n) (\<lambda>s. s\<lparr>ns_next_input_seq := ns_next_input_seq s + 1\<rparr>)
           (d\<lparr>d_messages := ms, d_tasks := ts, d_inputs := rs, d_next_message := mid + 1,
              d_next_task := tid + 1\<rparr>))))))"

definition input_of_request :: "db \<Rightarrow> int \<Rightarrow> string \<Rightarrow> input_row option" where
  "input_of_request d sid request =
     find (\<lambda>r. in_session_id r = sid \<and> in_request_id r = request) (trows (d_inputs d))"

definition enqueue ::
    "(json \<Rightarrow> string) \<Rightarrow> string \<Rightarrow> string \<Rightarrow> string \<Rightarrow> string \<Rightarrow> time \<Rightarrow> int \<Rightarrow> string \<Rightarrow> string \<Rightarrow> payload \<Rightarrow>
     run_config option \<Rightarrow> db \<Rightarrow> exn + (string \<times> db)" where
  \<comment> \<open>\<open>rid\<close>, \<open>corr\<close>: fresh identifiers; \<open>fp\<close>: digest of the payload; \<open>model\<close>: the configured model's name\<close>
  "enqueue H rid corr fp model now sid buyer request p config d =
     (if request = [] \<or> 64 < length request then Inl (Conflict ''invalid request identifier'')
      else if \<not> payload_ok p then Inl (ValueExn ''invalid payload'')
      else
      ebind (owned_session d sid buyer) (\<lambda>n.
      if ns_archived_at n \<noteq> None then Inl (Conflict ''session archived'')
      else if (case ns_graph_version n of None \<Rightarrow> True
               | Some v \<Rightarrow> v \<notin> set (if is_chat p then tl graph_versions else [hd graph_versions]))
      then Inl (Conflict ''graph version not enabled'')
      else
      case input_of_request d sid request of
        Some old \<Rightarrow> if in_input_hash old \<noteq> fp then Inl (Conflict ''another payload under this request'')
                    else Inr (in_id old, d)
      | None \<Rightarrow>
      if 20 < ns_next_input_seq n - ns_last_resolved_input_seq n then Inl (Conflict ''too many open inputs'')
      else
      ebind (case p of Chat q \<Rightarrow> validate_references d n q now | Typed q \<Rightarrow> Inr ()) (\<lambda>_.
      ebind (seen_display d sid buyer p now) (\<lambda>seen.
      let c = (case config of None \<Rightarrow> default_config p n model | Some c \<Rightarrow> c) in
      if \<not> config_ok p n c then Inl (Conflict ''invalid run configuration'')
      else
      ebind (some_or AttributeExn (get_policy d (ns_product_id n))) (\<lambda>pol.
      ebind (insert_input H rid corr fp request p c seen now n pol d) (\<lambda>d1. Inr (rid, d1)))))))"

section \<open>The lease on the head of the queue\<close>

definition due :: "task \<Rightarrow> time \<Rightarrow> bool" where
  \<comment> \<open>not finished, not leased, not waiting for a retry\<close>
  "due t now \<longleftrightarrow>
     t_status t \<notin> {T_SUCCEEDED, T_FAILED, T_STALE, T_CANCELLED}
     \<and> (case t_lease_expires_at t of None \<Rightarrow> True | Some e \<Rightarrow> e \<le> now)
     \<and> (case t_next_retry_at t of None \<Rightarrow> True | Some r \<Rightarrow> r \<le> now)"

definition cleanup_only :: "db \<Rightarrow> string \<Rightarrow> task \<Rightarrow> bool" where
  "cleanup_only d rid t \<longleftrightarrow>
     t_last_manual_action t = Some ''TERMINATE''
     \<or> (case get_delivery d (reply_key rid) of None \<Rightarrow> False | Some del \<Rightarrow> nd_status del = ND_PUBLISHED)"

definition grant :: "string \<Rightarrow> string \<Rightarrow> time \<Rightarrow> time \<Rightarrow> input_row \<Rightarrow> task \<Rightarrow> db \<Rightarrow> exn + (owner option \<times> db)" where
  \<comment> \<open>the lease until \<open>deadline\<close>, unless the time or the attempts are used up\<close>
  "grant rid token now deadline run t d =
     (if deadline \<le> now then
        ebind (store_run rid (run\<lparr>in_recovery_required := True\<rparr>) (drop_lease (t\<lparr>t_status := T_FAILED\<rparr>)) d) (\<lambda>d1.
        Inr (None, d1))
      else if t_max_attempts t \<le> t_attempt_count t then
        ebind (store_run rid (run\<lparr>in_recovery_required := True\<rparr>)
                (drop_lease (t\<lparr>t_status := T_FAILED, t_next_retry_at := None\<rparr>)) d) (\<lambda>d1.
        Inr (None, d1))
      else
        ebind (store_run rid (run\<lparr>in_active_since := Some now, in_active_until := Some deadline\<rparr>)
                (t\<lparr>t_ownership_epoch := t_ownership_epoch t + 1, t_lease_token := Some token,
                   t_lease_owner := Some (''graph:'' @ rid), t_lease_expires_at := Some deadline,
                   t_status := T_RUNNING, t_next_retry_at := None,
                   t_attempt_count := t_attempt_count t + 1\<rparr>) d) (\<lambda>d1.
        Inr (Some (token, t_ownership_epoch t + 1), d1)))"

definition claim :: "string \<Rightarrow> string \<Rightarrow> time \<Rightarrow> time \<Rightarrow> db \<Rightarrow> exn + (owner option \<times> db)" where
  "claim rid token lease now d =
     ebind (some_or AttributeExn (get_input d rid)) (\<lambda>run.
     ebind (some_or AttributeExn (get_session d (in_session_id run))) (\<lambda>n.
     if in_seq run \<noteq> ns_last_resolved_input_seq n + 1 \<or> ns_archived_at n \<noteq> None \<or> in_recovery_required run
     then Inr (None, d)
     else
     ebind (some_or AttributeExn (get_task d (in_task_id run))) (\<lambda>t.
     if \<not> due t now then Inr (None, d)
     else
     let (granted, run1) = lease_deadline d now lease (settle now run)
     in grant rid token now (if cleanup_only d rid t then now + seconds 15 else granted) run1 t d)))"

definition release :: "string \<Rightarrow> owner \<Rightarrow> bool \<Rightarrow> time \<Rightarrow> time \<Rightarrow> time \<Rightarrow> db \<Rightarrow> exn + (unit \<times> db)" where
  "release rid owner recovery now1 now2 now3 d =
     ebind (lock_owner rid owner now1 d) (\<lambda>(run, t).
     ebind (store_run rid ((settle now2 run)\<lparr>in_recovery_required := recovery\<rparr>)
             (drop_lease (t\<lparr>t_status := T_RETRY_WAIT, t_next_retry_at := Some (now3 + seconds 1)\<rparr>)) d) (\<lambda>d1.
     Inr ((), d1)))"

definition heartbeat :: "string \<Rightarrow> owner \<Rightarrow> time \<Rightarrow> time \<Rightarrow> time \<Rightarrow> db \<Rightarrow> exn + (unit \<times> db)" where
  "heartbeat rid owner now1 now2 now3 d =
     ebind (lock_owner rid owner now1 d) (\<lambda>(run, t).
     let (deadline, run1) = lease_deadline d now2 (seconds 30) run in
     if deadline \<le> now3 then Inl StaleOwner
     else
     ebind (store_run rid (run1\<lparr>in_active_until := Some deadline\<rparr>) (t\<lparr>t_lease_expires_at := Some deadline\<rparr>) d) (\<lambda>d1.
     Inr ((), d1)))"

record final_values =
  fv_run_id :: "string option"
  fv_input_seq :: "int option"
  fv_input_hash :: "string option"
  fv_config_hash :: "string option"
  fv_graph_version :: "string option"
  fv_published_message_id :: "int option"

definition finalize ::
    "string \<Rightarrow> owner \<Rightarrow> final_values \<Rightarrow> bool \<Rightarrow> time \<Rightarrow> time \<Rightarrow> time \<Rightarrow> db \<Rightarrow> exn + (unit \<times> db)" where
  "finalize rid owner v pending now1 now2 now3 d =
     ebind (lock_owner rid owner now1 d) (\<lambda>(run, t).
     if pending \<or> fv_run_id v \<noteq> Some rid \<or> fv_input_seq v \<noteq> Some (in_seq run)
        \<or> fv_input_hash v \<noteq> Some (in_input_hash run) \<or> fv_config_hash v \<noteq> Some (in_config_hash run)
        \<or> fv_graph_version v \<noteq> Some (in_graph_version run)
     then Inl (Conflict ''final state of another input'')
     else
     case get_delivery d (reply_key rid) of
       None \<Rightarrow> Inl (Conflict ''no public result'')
     | Some del \<Rightarrow>
     if nd_status del \<noteq> ND_PUBLISHED \<or> nd_public_message_id del \<noteq> fv_published_message_id v
     then Inl (Conflict ''no public result'')
     else
     ebind (some_or AttributeExn (get_session d (in_session_id run))) (\<lambda>n.
     if ns_last_resolved_input_seq n + 1 \<noteq> in_seq run then Inl (Conflict ''not the head of the queue'')
     else
     ebind (store_run rid (settle now2 run)
             (drop_lease (t\<lparr>t_status := T_SUCCEEDED, t_completed_at := Some now3,
                t_result_snapshot := Some (JObj [(''public_message_id'', jopt JInt (nd_public_message_id del))])\<rparr>))
             (mod_session (in_session_id run) (\<lambda>s. s\<lparr>ns_last_resolved_input_seq := in_seq run\<rparr>) d)) (\<lambda>d1.
     Inr ((), d1))))"

section \<open>Taking the lease away\<close>

definition revoke_lease :: "string \<Rightarrow> time \<Rightarrow> time \<Rightarrow> input_row \<Rightarrow> task \<Rightarrow> db \<Rightarrow> exn + db" where
  \<comment> \<open>the epoch is advanced, so the former owner cannot write any more\<close>
  "revoke_lease rid now retry run t =
     store_run rid (settle now run)
       (drop_lease (t\<lparr>t_ownership_epoch := t_ownership_epoch t + 1, t_status := T_RETRY_WAIT,
                     t_next_retry_at := Some retry\<rparr>))"

definition register_instance :: "string \<Rightarrow> string \<Rightarrow> int \<times> string \<times> string \<Rightarrow> time \<Rightarrow> db \<Rightarrow> exn + (unit \<times> db)" where
  "register_instance rid iid target now d =
     ebind (tadd IntegrityExn iid
       \<lparr>gi_id = iid, gi_input_id = rid, gi_lease_token = None, gi_ownership_epoch = None,
        gi_pg_pid = fst target, gi_pg_backend_start = fst (snd target),
        gi_application_name = snd (snd target), gi_registered_at = now, gi_checked_at = None,
        gi_state = REGISTERED, gi_error_category = None\<rparr> (d_instances d)) (\<lambda>is.
     Inr ((), d\<lparr>d_instances := is\<rparr>))"

definition attach_owner :: "string \<Rightarrow> string \<Rightarrow> owner \<Rightarrow> time \<Rightarrow> db \<Rightarrow> exn + (unit \<times> db)" where
  "attach_owner rid iid owner now d =
     ebind (lock_owner rid owner now d) (\<lambda>_.
     case tget (d_instances d) iid of
       None \<Rightarrow> Inl AttributeExn
     | Some row \<Rightarrow>
         if gi_state row \<noteq> REGISTERED then Inl (RuntimeExn ''registration already revoked'')
         else Inr ((), d\<lparr>d_instances := tput iid (row\<lparr>gi_lease_token := Some (fst owner),
                              gi_ownership_epoch := Some (snd owner)\<rparr>) (d_instances d)\<rparr>))"

definition same_owner :: "execution_instance \<Rightarrow> task \<Rightarrow> bool" where
  "same_owner row t \<longleftrightarrow> gi_lease_token row = t_lease_token t
     \<and> gi_ownership_epoch row = Some (t_ownership_epoch t) \<and> gi_lease_token row \<noteq> None"

definition keeps_instance :: "execution_instance \<Rightarrow> input_row \<Rightarrow> task \<Rightarrow> time \<Rightarrow> bool" where
  \<comment> \<open>a registered instance that is still starting or still owns a live lease\<close>
  "keeps_instance row run t now \<longleftrightarrow>
     (let active = (case t_lease_expires_at t of None \<Rightarrow> False | Some e \<Rightarrow> now < e);
          overdue = ((case in_closing_deadline run of None \<Rightarrow> False | Some c \<Rightarrow> c \<le> now)
                     \<or> gi_registered_at row + seconds 150 \<le> now)
      in gi_state row = REGISTERED
         \<and> (gi_lease_token row = None \<and> now < gi_registered_at row + seconds 30
            \<or> same_owner row t \<and> active \<and> \<not> overdue))"

definition revoke_instance ::
    "string \<Rightarrow> bool \<Rightarrow> time \<Rightarrow> db \<Rightarrow> exn + ((int \<times> string \<times> string) option \<times> db)" where
  \<comment> \<open>the first transaction of \<open>cleanup_instance\<close>; \<open>None\<close>: nothing to clean up\<close>
  "revoke_instance iid force now d =
     (case tget (d_instances d) iid of
        None \<Rightarrow> Inr (None, d)
      | Some row \<Rightarrow>
      if gi_state row = RELEASED then Inr (None, d)
      else
      ebind (some_or AttributeExn (get_input d (gi_input_id row))) (\<lambda>run.
      ebind (some_or AttributeExn (get_task d (in_task_id run))) (\<lambda>t.
      if \<not> force \<and> keeps_instance row run t now then Inr (None, d)
      else
      ebind (if same_owner row t \<and> t_status t = T_RUNNING then revoke_lease (gi_input_id row) now now run t d else Inr d) (\<lambda>d1.
      Inr (Some (gi_pg_pid row, gi_pg_backend_start row, gi_application_name row),
           d1\<lparr>d_instances := tput iid (row\<lparr>gi_state := REVOKED, gi_checked_at := Some now\<rparr>) (d_instances d1)\<rparr>)))))"

definition cleanup_instance ::
    "(int \<times> string \<times> string \<Rightarrow> string option) \<Rightarrow> string \<Rightarrow> bool \<Rightarrow> time \<Rightarrow> time \<Rightarrow> db \<Rightarrow> (exn + bool) \<times> db" where
  \<comment> \<open>\<open>terminate\<close>: ends the PostgreSQL session; \<open>None\<close> once it is verified gone, else the error's class\<close>
  "cleanup_instance terminate iid force now now2 d =
     (case revoke_instance iid force now d of
        Inl e \<Rightarrow> (Inl e, d)
      | Inr (None, d1) \<Rightarrow> (Inr False, d1)
      | Inr (Some target, d1) \<Rightarrow>
          (case terminate target of
             Some err \<Rightarrow> (Inl (RuntimeExn ''checkpoint_cleanup_failed''),
               d_instances_update (tmod iid (\<lambda>r. r\<lparr>gi_error_category := Some (take 64 err)\<rparr>)) d1)
           | None \<Rightarrow> (Inr True,
               d_instances_update (tmod iid (\<lambda>r. r\<lparr>gi_state := RELEASED, gi_checked_at := Some now2,
                 gi_error_category := None\<rparr>)) d1)))"

definition sweep_ids :: "db \<Rightarrow> nat \<Rightarrow> string list" where
  \<comment> \<open>unreleased instances, never checked ones first, then by the last check\<close>
  "sweep_ids d limit =
     (let rows = sort_key gi_registered_at (filter (\<lambda>r. gi_state r \<noteq> RELEASED) (trows (d_instances d)));
          new = filter (\<lambda>r. gi_checked_at r = None) rows;
          old = sort_key (\<lambda>r. the (gi_checked_at r)) (filter (\<lambda>r. gi_checked_at r \<noteq> None) rows)
      in take limit (map gi_id (new @ old)))"

fun sweep_each ::
    "(int \<times> string \<times> string \<Rightarrow> string option) \<Rightarrow> (string \<Rightarrow> time \<times> time) \<Rightarrow> string list \<Rightarrow> db \<Rightarrow> (int \<times> int) \<times> db" where
  "sweep_each terminate clock [] d = ((0, 0), d)"
| "sweep_each terminate clock (i # is) d =
     (let (r, d1) = cleanup_instance terminate i False (fst (clock i)) (snd (clock i)) d;
          ((released, failed), d2) = sweep_each terminate clock is d1
      in (case r of
            Inl e \<Rightarrow> ((released, failed + 1), d2)
          | Inr b \<Rightarrow> ((released + (if b then 1 else 0), failed), d2)))"

definition sweep ::
    "(int \<times> string \<times> string \<Rightarrow> string option) \<Rightarrow> (string \<Rightarrow> time \<times> time) \<Rightarrow> nat \<Rightarrow> db \<Rightarrow> (int \<times> int) \<times> db" where
  "sweep terminate clock limit d = sweep_each terminate clock (sweep_ids d limit) d"

definition supervised_deadline :: "db \<Rightarrow> input_row \<Rightarrow> time option" where
  "supervised_deadline d run =
     (let own = (case in_closing_deadline run of
                   Some c \<Rightarrow> Some c
                 | None \<Rightarrow> map_option (\<lambda>since. since
                     + millis (max 0 (active_limit_ms (in_config run) - in_active_ms run)) + seconds 15)
                     (in_active_since run))
      in case get_delivery d (reply_key (in_id run)) of
           None \<Rightarrow> own
         | Some del \<Rightarrow>
             let reply = nd_reply_deadline del + seconds 15 in
             (case own of None \<Rightarrow> Some reply | Some o1 \<Rightarrow> Some (min o1 reply)))"

definition supervised_expired :: "db \<Rightarrow> input_row \<Rightarrow> task \<Rightarrow> time \<Rightarrow> bool" where
  "supervised_expired d run t now \<longleftrightarrow>
     (case supervised_deadline d run of None \<Rightarrow> False | Some x \<Rightarrow> x \<le> now)
     \<or> t_status t = T_RUNNING \<and> (case t_lease_expires_at t of None \<Rightarrow> False | Some e \<Rightarrow> e \<le> now)"

definition supervisor_revoke :: "string \<Rightarrow> string \<Rightarrow> time \<Rightarrow> time \<Rightarrow> db \<Rightarrow> exn + (unit \<times> db)" where
  \<comment> \<open>the transaction of \<open>run_supervised\<close> before the child process is killed\<close>
  "supervisor_revoke rid iid now1 now2 d =
     ebind (some_or AttributeExn (get_input d rid)) (\<lambda>run.
     ebind (some_or AttributeExn (get_task d (in_task_id run))) (\<lambda>t.
     case tget (d_instances d) iid of
       None \<Rightarrow> Inr ((), d)
     | Some row \<Rightarrow>
         if t_status t = T_RUNNING \<and> t_lease_token t = gi_lease_token row
            \<and> Some (t_ownership_epoch t) = gi_ownership_epoch row
         then ebind (revoke_lease rid now1 now2 run t d) (\<lambda>d1. Inr ((), d1))
         else Inr ((), d)))"

end
