(* ===== verification/Queue_Spec.thy ===== *)
theory Queue_Spec
  imports Queue
begin

text \<open>
  The contract of the input queue as an abstract state machine, the proof that every transaction of
  \<open>Queue\<close> refines it, and the leases on runs as an instance of \<open>fenced_lease\<close>.
\<close>

section \<open>The abstract queue\<close>

text \<open>
  The contract of the queue, without payloads, time or tokens: a session numbers its inputs and resolves them
  in that order; each input has a task with a status and an ownership epoch.
\<close>

record queue_view =
  qv_queues :: "int \<Rightarrow> (int \<times> int \<times> int) option" \<comment> \<open>id, next number, last resolved number\<close>
  qv_inputs :: "string \<Rightarrow> (string \<times> int \<times> int \<times> int) option" \<comment> \<open>id, session, task, number\<close>
  qv_tasks :: "int \<Rightarrow> (int \<times> task_status \<times> int) option" \<comment> \<open>id, status, epoch\<close>

definition view :: "db \<Rightarrow> queue_view" where
  "view d = \<lparr>qv_queues = (\<lambda>k. map_option (\<lambda>n. (ns_id n, ns_next_input_seq n, ns_last_resolved_input_seq n)) (get_session d k)),
     qv_inputs = (\<lambda>k. map_option (\<lambda>r. (in_id r, in_session_id r, in_task_id r, in_seq r)) (get_input d k)),
     qv_tasks = (\<lambda>k. map_option (\<lambda>t. (t_id t, t_status t, t_ownership_epoch t)) (get_task d k))\<rparr>"

inductive qstep :: "queue_view \<Rightarrow> queue_view \<Rightarrow> bool" where
  quiet: "qstep v v"
| added: "qv_queues v sid = Some (sid, nx, la) \<Longrightarrow> nx - la \<le> 20 \<Longrightarrow> qv_inputs v rid = None \<Longrightarrow>
     qv_tasks v tid = None \<Longrightarrow>
     qstep v (v\<lparr>qv_queues := (qv_queues v)(sid \<mapsto> (sid, nx + 1, la)),
                qv_inputs := (qv_inputs v)(rid \<mapsto> (rid, sid, tid, nx)),
                qv_tasks := (qv_tasks v)(tid \<mapsto> (tid, T_PENDING, 0))\<rparr>)"
| leased: "qv_inputs v rid = Some (rid, sid, tid, s) \<Longrightarrow> qv_queues v sid = Some (sid, nx, la) \<Longrightarrow>
     qv_tasks v tid = Some (tid, st, ep) \<Longrightarrow> st \<noteq> T_SUCCEEDED \<Longrightarrow> st' \<noteq> T_SUCCEEDED \<Longrightarrow>
     st' = T_RUNNING \<longrightarrow> st = T_RUNNING \<or> s = la + 1 \<Longrightarrow> ep \<le> ep' \<Longrightarrow>
     qstep v (v\<lparr>qv_tasks := (qv_tasks v)(tid \<mapsto> (tid, st', ep'))\<rparr>)"
| resolved: "qv_inputs v rid = Some (rid, sid, tid, la + 1) \<Longrightarrow> qv_queues v sid = Some (sid, nx, la) \<Longrightarrow>
     qv_tasks v tid = Some (tid, T_RUNNING, ep) \<Longrightarrow>
     qstep v (v\<lparr>qv_queues := (qv_queues v)(sid \<mapsto> (sid, nx, la + 1)),
                qv_tasks := (qv_tasks v)(tid \<mapsto> (tid, T_SUCCEEDED, ep))\<rparr>)"

definition queues_bounded :: "queue_view \<Rightarrow> bool" where
  "queues_bounded v \<longleftrightarrow>
     (\<forall>k i nx la. qv_queues v k = Some (i, nx, la) \<longrightarrow> i = k \<and> 0 \<le> la \<and> la < nx \<and> nx \<le> la + 21)"

definition inputs_placed :: "queue_view \<Rightarrow> bool" where
  \<comment> \<open>every input has its task, is at the head while it runs and is done once resolved\<close>
  "inputs_placed v \<longleftrightarrow>
     (\<forall>k i sid tid s. qv_inputs v k = Some (i, sid, tid, s) \<longrightarrow> i = k \<and> 1 \<le> s
        \<and> (\<exists>nx la st ep. qv_queues v sid = Some (sid, nx, la) \<and> qv_tasks v tid = Some (tid, st, ep)
             \<and> s < nx \<and> 0 \<le> ep \<and> (st = T_RUNNING \<longrightarrow> s = la + 1) \<and> (s \<le> la \<longrightarrow> st = T_SUCCEEDED)))"

definition numbers_unique :: "queue_view \<Rightarrow> bool" where
  "numbers_unique v \<longleftrightarrow>
     (\<forall>k i k' i' sid tid tid' s. qv_inputs v k = Some (i, sid, tid, s) \<longrightarrow>
        qv_inputs v k' = Some (i', sid, tid', s) \<longrightarrow> k = k')"

definition tasks_unique :: "queue_view \<Rightarrow> bool" where
  "tasks_unique v \<longleftrightarrow>
     (\<forall>k i k' i' sid sid' tid s s'. qv_inputs v k = Some (i, sid, tid, s) \<longrightarrow>
        qv_inputs v k' = Some (i', sid', tid, s') \<longrightarrow> k = k')"

definition no_gaps :: "queue_view \<Rightarrow> bool" where
  "no_gaps v \<longleftrightarrow>
     (\<forall>k i nx la s. qv_queues v k = Some (i, nx, la) \<longrightarrow> 1 \<le> s \<longrightarrow> s < nx \<longrightarrow>
        (\<exists>rid tid. qv_inputs v rid = Some (rid, k, tid, s)))"

definition queue_ok :: "queue_view \<Rightarrow> bool" where
  "queue_ok v \<longleftrightarrow> queues_bounded v \<and> inputs_placed v \<and> numbers_unique v \<and> tasks_unique v \<and> no_gaps v"

lemma queue_okD:
  assumes "queue_ok v"
  shows "qv_queues v k = Some (i, nx, la) \<Longrightarrow> i = k \<and> 0 \<le> la \<and> la < nx \<and> nx \<le> la + 21"
    and "qv_inputs v r = Some (j, sid, tid, s) \<Longrightarrow> j = r \<and> 1 \<le> s
          \<and> (\<exists>nx la st ep. qv_queues v sid = Some (sid, nx, la) \<and> qv_tasks v tid = Some (tid, st, ep)
               \<and> s < nx \<and> 0 \<le> ep \<and> (st = T_RUNNING \<longrightarrow> s = la + 1) \<and> (s \<le> la \<longrightarrow> st = T_SUCCEEDED))"
    and "qv_inputs v r = Some (j, sid, tid, s) \<Longrightarrow> qv_inputs v r' = Some (j', sid, tid', s) \<Longrightarrow> r = r'"
    and "qv_inputs v r = Some (j, sid, tid, s) \<Longrightarrow> qv_inputs v r' = Some (j', sid', tid, s') \<Longrightarrow> r = r'"
    and "qv_queues v k = Some (i, nx, la) \<Longrightarrow> 1 \<le> s \<Longrightarrow> s < nx \<Longrightarrow> \<exists>rid tid. qv_inputs v rid = Some (rid, k, tid, s)"
proof -
  have q: "queues_bounded v" "inputs_placed v" "numbers_unique v" "tasks_unique v" "no_gaps v"
    using assms by (simp_all add: queue_ok_def)
  show "qv_queues v k = Some (i, nx, la) \<Longrightarrow> i = k \<and> 0 \<le> la \<and> la < nx \<and> nx \<le> la + 21"
    using q(1) by (simp add: queues_bounded_def)
  show "qv_inputs v r = Some (j, sid, tid, s) \<Longrightarrow> j = r \<and> 1 \<le> s
          \<and> (\<exists>nx la st ep. qv_queues v sid = Some (sid, nx, la) \<and> qv_tasks v tid = Some (tid, st, ep)
               \<and> s < nx \<and> 0 \<le> ep \<and> (st = T_RUNNING \<longrightarrow> s = la + 1) \<and> (s \<le> la \<longrightarrow> st = T_SUCCEEDED))"
    using q(2) by (simp only: inputs_placed_def)
  show "qv_inputs v r = Some (j, sid, tid, s) \<Longrightarrow> qv_inputs v r' = Some (j', sid, tid', s) \<Longrightarrow> r = r'"
    using q(3) unfolding numbers_unique_def by blast
  show "qv_inputs v r = Some (j, sid, tid, s) \<Longrightarrow> qv_inputs v r' = Some (j', sid', tid, s') \<Longrightarrow> r = r'"
    using q(4) unfolding tasks_unique_def by blast
  show "qv_queues v k = Some (i, nx, la) \<Longrightarrow> 1 \<le> s \<Longrightarrow> s < nx \<Longrightarrow> \<exists>rid tid. qv_inputs v rid = Some (rid, k, tid, s)"
    using q(5) unfolding no_gaps_def by blast
qed

lemma queue_okI:
  assumes "\<And>k i nx la. qv_queues v k = Some (i, nx, la) \<Longrightarrow> i = k \<and> 0 \<le> la \<and> la < nx \<and> nx \<le> la + 21"
    and "\<And>r j sid tid s. qv_inputs v r = Some (j, sid, tid, s) \<Longrightarrow> j = r \<and> 1 \<le> s
          \<and> (\<exists>nx la st ep. qv_queues v sid = Some (sid, nx, la) \<and> qv_tasks v tid = Some (tid, st, ep)
               \<and> s < nx \<and> 0 \<le> ep \<and> (st = T_RUNNING \<longrightarrow> s = la + 1) \<and> (s \<le> la \<longrightarrow> st = T_SUCCEEDED))"
    and "\<And>r j sid tid s r' j' tid'. qv_inputs v r = Some (j, sid, tid, s) \<Longrightarrow>
          qv_inputs v r' = Some (j', sid, tid', s) \<Longrightarrow> r = r'"
    and "\<And>r j sid tid s r' j' sid' s'. qv_inputs v r = Some (j, sid, tid, s) \<Longrightarrow>
          qv_inputs v r' = Some (j', sid', tid, s') \<Longrightarrow> r = r'"
    and "\<And>k i nx la s. qv_queues v k = Some (i, nx, la) \<Longrightarrow> 1 \<le> s \<Longrightarrow> s < nx \<Longrightarrow>
          \<exists>rid tid. qv_inputs v rid = Some (rid, k, tid, s)"
  shows "queue_ok v"
proof -
  have "queues_bounded v" unfolding queues_bounded_def using assms(1) by blast
  moreover have "inputs_placed v" unfolding inputs_placed_def using assms(2) by simp
  moreover have "numbers_unique v" unfolding numbers_unique_def using assms(3) by blast
  moreover have "tasks_unique v" unfolding tasks_unique_def using assms(4) by blast
  moreover have "no_gaps v" unfolding no_gaps_def using assms(5) by blast
  ultimately show ?thesis by (simp add: queue_ok_def)
qed

lemma qstep_ok_added:
  assumes "queue_ok v" and "qv_queues v sid = Some (sid, nx, la)" and "nx - la \<le> 20" and "qv_inputs v rid = None"
    and "qv_tasks v tid = None"
  shows "queue_ok (v\<lparr>qv_queues := (qv_queues v)(sid \<mapsto> (sid, nx + 1, la)),
                qv_inputs := (qv_inputs v)(rid \<mapsto> (rid, sid, tid, nx)),
                qv_tasks := (qv_tasks v)(tid \<mapsto> (tid, T_PENDING, 0))\<rparr>)" (is "queue_ok ?v")
proof -
  note ok = queue_okD [OF assms(1)]
  have bound: "0 \<le> la \<and> la < nx" using ok(1) [OF assms(2)] by simp
  have seq: "s < nx" if "qv_inputs v r = Some (j, sid, tid', s)" for r j tid' s
    using ok(2) [OF that] assms(2) by auto
  have task: "tid' \<noteq> tid" if "qv_inputs v r = Some (j, sid', tid', s)" for r j sid' tid' s
    using ok(2) [OF that] assms(5) by auto
  show ?thesis
  proof (rule queue_okI)
    show "i = k \<and> 0 \<le> l \<and> l < x \<and> x \<le> l + 21" if "qv_queues ?v k = Some (i, x, l)" for k i x l
      using that ok(1) assms(3) bound by (auto split: if_splits)
    show "j = r \<and> 1 \<le> s
          \<and> (\<exists>nx la st ep. qv_queues ?v sid' = Some (sid', nx, la) \<and> qv_tasks ?v tid' = Some (tid', st, ep)
               \<and> s < nx \<and> 0 \<le> ep \<and> (st = T_RUNNING \<longrightarrow> s = la + 1) \<and> (s \<le> la \<longrightarrow> st = T_SUCCEEDED))"
      if r: "qv_inputs ?v r = Some (j, sid', tid', s)" for r j sid' tid' s
    proof (cases "r = rid")
      case True
      with r bound show ?thesis by auto
    next
      case False
      with r have old: "qv_inputs v r = Some (j, sid', tid', s)" by simp
      from ok(2) [OF old] obtain nx' la' st ep where
        "j = r \<and> 1 \<le> s \<and> qv_queues v sid' = Some (sid', nx', la') \<and> qv_tasks v tid' = Some (tid', st, ep)
               \<and> s < nx' \<and> 0 \<le> ep \<and> (st = T_RUNNING \<longrightarrow> s = la' + 1) \<and> (s \<le> la' \<longrightarrow> st = T_SUCCEEDED)"
        by blast
      with task [OF old] assms(2) show ?thesis by (cases "sid' = sid") auto
    qed
    show "r = r'" if "qv_inputs ?v r = Some (j, sid', tid1, s)" "qv_inputs ?v r' = Some (j', sid', tid2, s)"
      for r j sid' tid1 s r' j' tid2
      using that ok(3) seq by (fastforce split: if_splits)
    show "r = r'" if "qv_inputs ?v r = Some (j, sid1, tid', s)" "qv_inputs ?v r' = Some (j', sid2, tid', s')"
      for r j sid1 tid' s r' j' sid2 s'
      using that ok(4) task by (fastforce split: if_splits)
    show "\<exists>rid tid. qv_inputs ?v rid = Some (rid, k, tid, s)"
      if q: "qv_queues ?v k = Some (i, x, l)" "1 \<le> s" "s < x" for k i x l s
    proof (cases "k = sid \<and> s = nx")
      case True
      then show ?thesis by auto
    next
      case False
      then obtain x' l' i' where "qv_queues v k = Some (i', x', l')" "s < x'"
        using q assms(2) by (cases "k = sid") auto
      then obtain r tid' where r: "qv_inputs v r = Some (r, k, tid', s)" using ok(5) q(2) by blast
      then have "r \<noteq> rid" using assms(4) by auto
      with r show ?thesis by auto
    qed
  qed
qed

lemma qstep_ok_task:
  assumes "queue_ok v" and "qv_inputs v rid = Some (rid, sid, tid, s)" and "qv_queues v sid = Some (sid, nx, la)"
    and "0 \<le> ep" and "st' = T_RUNNING \<longrightarrow> s = la' + 1" and "s \<le> la' \<longrightarrow> st' = T_SUCCEEDED"
    and "la \<le> la'" and "la' < nx" and "la' \<noteq> la \<longrightarrow> la' = s \<and> s = la + 1"
  shows "queue_ok (v\<lparr>qv_queues := (qv_queues v)(sid \<mapsto> (sid, nx, la')),
                     qv_tasks := (qv_tasks v)(tid \<mapsto> (tid, st', ep))\<rparr>)" (is "queue_ok ?v")
proof -
  note ok = queue_okD [OF assms(1)]
  have bound: "0 \<le> la \<and> la < nx \<and> nx \<le> la + 21" using ok(1) [OF assms(3)] by simp
  have other: "tid' \<noteq> tid" if "qv_inputs v r = Some (j, sid', tid', s')" "r \<noteq> rid" for r j sid' tid' s'
    using ok(4) [OF that(1)] assms(2) that(2) by blast
  have seq: "s' \<noteq> s" if "qv_inputs v r = Some (j, sid, tid', s')" "r \<noteq> rid" for r j tid' s'
    using ok(3) [OF that(1)] assms(2) that(2) by blast
  show ?thesis
  proof (rule queue_okI)
    show "i = k \<and> 0 \<le> l \<and> l < x \<and> x \<le> l + 21" if "qv_queues ?v k = Some (i, x, l)" for k i x l
      using that ok(1) assms(7,8) bound by (auto split: if_splits)
    show "j = r \<and> 1 \<le> s'
          \<and> (\<exists>nx la st ep. qv_queues ?v sid' = Some (sid', nx, la) \<and> qv_tasks ?v tid' = Some (tid', st, ep)
               \<and> s' < nx \<and> 0 \<le> ep \<and> (st = T_RUNNING \<longrightarrow> s' = la + 1) \<and> (s' \<le> la \<longrightarrow> st = T_SUCCEEDED))"
      if r: "qv_inputs ?v r = Some (j, sid', tid', s')" for r j sid' tid' s'
    proof (cases "r = rid")
      case True
      with r assms(2) have "j = r" "sid' = sid" "tid' = tid" "s' = s" by simp_all
      moreover have "1 \<le> s \<and> s < nx" using ok(2) [OF assms(2)] assms(3) by auto
      ultimately show ?thesis using assms(4-6) by auto
    next
      case False
      from r have old: "qv_inputs v r = Some (j, sid', tid', s')" by simp
      from ok(2) [OF old] obtain nx' l st e where
        row: "j = r \<and> 1 \<le> s' \<and> qv_queues v sid' = Some (sid', nx', l) \<and> qv_tasks v tid' = Some (tid', st, e)
               \<and> s' < nx' \<and> 0 \<le> e \<and> (st = T_RUNNING \<longrightarrow> s' = l + 1) \<and> (s' \<le> l \<longrightarrow> st = T_SUCCEEDED)"
        by blast
      show ?thesis
      proof (cases "sid' = sid")
        case True
        then have "s' \<noteq> s" using seq [of r j tid' s'] old False by blast
        with row True assms(3,9) other [OF old False] show ?thesis by (cases "la' = la") auto
      next
        case False2: False
        with row other [OF old False] show ?thesis by auto
      qed
    qed
    show "r = r'" if "qv_inputs ?v r = Some (j, sid', tid1, s1)" "qv_inputs ?v r' = Some (j', sid', tid2, s1)"
      for r j sid' tid1 s1 r' j' tid2
      using that ok(3) by simp
    show "r = r'" if "qv_inputs ?v r = Some (j, sid1, tid', s1)" "qv_inputs ?v r' = Some (j', sid2, tid', s2)"
      for r j sid1 tid' s1 r' j' sid2 s2
      using that ok(4) by simp
    show "\<exists>rid tid. qv_inputs ?v rid = Some (rid, k, tid, s1)"
      if "qv_queues ?v k = Some (i, x, l)" "1 \<le> s1" "s1 < x" for k i x l s1
      using that ok(5) assms(3) by (cases "k = sid") auto
  qed
qed

lemma qstep_ok: "qstep v v' \<Longrightarrow> queue_ok v \<Longrightarrow> queue_ok v'"
proof (induction rule: qstep.induct)
  case (added v sid nx la rid tid)
  then show ?case by (intro qstep_ok_added)
next
  case (leased v rid sid tid s nx la st ep st' ep')
  note row = queue_okD(2) [OF leased.prems leased.hyps(1)]
  have "queue_ok (v\<lparr>qv_queues := (qv_queues v)(sid \<mapsto> (sid, nx, la)),
                     qv_tasks := (qv_tasks v)(tid \<mapsto> (tid, st', ep'))\<rparr>)"
    using leased row queue_okD(1) [OF leased.prems leased.hyps(2)]
    by (intro qstep_ok_task [where s = s and la = la and rid = rid]) auto
  moreover have "(qv_queues v)(sid \<mapsto> (sid, nx, la)) = qv_queues v" using leased.hyps(2) by auto
  ultimately show ?case by simp
next
  case (resolved v rid sid tid la nx ep)
  note row = queue_okD(2) [OF resolved.prems resolved.hyps(1)]
  show ?case
    using resolved row by (intro qstep_ok_task [where s = "la + 1" and la = la and rid = rid]) auto
qed

lemma qsteps_ok: "qstep\<^sup>*\<^sup>* v v' \<Longrightarrow> queue_ok v \<Longrightarrow> queue_ok v'"
  by (induction rule: rtranclp_induct) (auto intro: qstep_ok)

section \<open>The transactions refine it\<close>

lemma view_sel [simp]:
  "qv_queues (view d) k = map_option (\<lambda>n. (ns_id n, ns_next_input_seq n, ns_last_resolved_input_seq n)) (get_session d k)"
  "qv_inputs (view d) r = map_option (\<lambda>r. (in_id r, in_session_id r, in_task_id r, in_seq r)) (get_input d r)"
  "qv_tasks (view d) t = map_option (\<lambda>t. (t_id t, t_status t, t_ownership_epoch t)) (get_task d t)"
  by (simp_all add: view_def)

lemma view_eqI:
  assumes "\<And>k. qv_queues v k = qv_queues w k" and "\<And>k. qv_inputs v k = qv_inputs w k"
    and "\<And>k. qv_tasks v k = qv_tasks w k"
  shows "v = (w :: queue_view)"
  using assms by (intro queue_view.equality) auto

lemma view_same:
  "d_sessions d' = d_sessions d \<Longrightarrow> d_inputs d' = d_inputs d \<Longrightarrow> d_tasks d' = d_tasks d \<Longrightarrow> view d' = view d"
  by (simp add: view_def)

lemma view_mod_session:
  assumes "\<And>n. ns_id (f n) = ns_id n" and "\<And>n. ns_next_input_seq (f n) = ns_next_input_seq n"
    and "\<And>n. ns_last_resolved_input_seq (f n) = ns_last_resolved_input_seq n"
  shows "view (mod_session sid f d) = view d"
proof (rule view_eqI)
  show "qv_queues (view (mod_session sid f d)) k = qv_queues (view d) k" for k
    by (cases "get_session d sid") (auto simp: assms)
qed simp_all

definition queue_inv :: "db \<Rightarrow> bool" where
  "queue_inv d \<longleftrightarrow> queue_ok (view d)"

definition same_place :: "input_row \<Rightarrow> input_row \<Rightarrow> bool" where
  "same_place r r' \<longleftrightarrow> in_id r' = in_id r \<and> in_session_id r' = in_session_id r
     \<and> in_task_id r' = in_task_id r \<and> in_seq r' = in_seq r"

lemma settle_place [simp]:
  "in_id (settle now r) = in_id r" "in_session_id (settle now r) = in_session_id r"
  "in_task_id (settle now r) = in_task_id r" "in_seq (settle now r) = in_seq r"
  by (simp_all add: settle_def Let_def)

lemma lease_deadline_place:
  assumes "lease_deadline d now lease r = (x, r')"
  shows "same_place r r'"
  using assms by (auto simp: lease_deadline_def Let_def same_place_def split: option.splits if_splits)

lemma drop_lease_sel [simp]:
  "t_id (drop_lease t) = t_id t" "t_status (drop_lease t) = t_status t"
  "t_ownership_epoch (drop_lease t) = t_ownership_epoch t"
  by (simp_all add: drop_lease_def)

text \<open>The rows of a run in a database that satisfies the invariant.\<close>

lemma queue_inv_rows:
  assumes "queue_inv d" and "get_input d rid = Some r"
  obtains n t where "in_id r = rid" and "get_session d (in_session_id r) = Some n" and "ns_id n = in_session_id r"
    and "get_task d (in_task_id r) = Some t" and "t_id t = in_task_id r" and "1 \<le> in_seq r"
    and "in_seq r < ns_next_input_seq n" and "0 \<le> t_ownership_epoch t"
    and "t_status t = T_RUNNING \<Longrightarrow> in_seq r = ns_last_resolved_input_seq n + 1"
    and "in_seq r \<le> ns_last_resolved_input_seq n \<Longrightarrow> t_status t = T_SUCCEEDED"
proof -
  have "qv_inputs (view d) rid = Some (in_id r, in_session_id r, in_task_id r, in_seq r)" using assms(2) by simp
  from queue_okD(2) [OF assms(1) [unfolded queue_inv_def] this] obtain nx la st ep where
    r: "in_id r = rid" "1 \<le> in_seq r" and q: "qv_queues (view d) (in_session_id r) = Some (in_session_id r, nx, la)"
    and t: "qv_tasks (view d) (in_task_id r) = Some (in_task_id r, st, ep)"
    and c: "in_seq r < nx" "0 \<le> ep" "st = T_RUNNING \<longrightarrow> in_seq r = la + 1" "in_seq r \<le> la \<longrightarrow> st = T_SUCCEEDED"
    by blast
  from q t show thesis by (auto intro!: that r(1,2)) (use c in auto)
qed

lemma view_store_run:
  assumes "store_run rid r' t' d = Inr d'" and "get_input d rid = Some r" and "same_place r r'" and "in_task_id r = tid"
    and "t_id t' = tid"
  shows "view d' = (view d)\<lparr>qv_tasks := (qv_tasks (view d))(tid \<mapsto> (tid, t_status t', t_ownership_epoch t'))\<rparr>"
proof -
  have d': "d' = d\<lparr>d_inputs := tput rid r' (d_inputs d), d_tasks := tput tid t' (d_tasks d)\<rparr>"
    using assms by (simp add: store_run_def same_place_def split: if_splits)
  show ?thesis
    by (rule view_eqI) (use assms(2-5) in \<open>auto simp: d' same_place_def\<close>)
qed

text \<open>Every write on the lease of a run is an abstract \<open>leased\<close> step.\<close>

lemma store_run_leased:
  assumes "queue_inv d" and "get_input d rid = Some r" and "get_task d (in_task_id r) = Some t"
    and "get_session d (in_session_id r) = Some n"
    and "store_run rid r' t' d = Inr d'" and "same_place r r'" and "t_id t' = t_id t"
    and "t_status t \<noteq> T_SUCCEEDED" and "t_status t' \<noteq> T_SUCCEEDED"
    and "t_status t' = T_RUNNING \<Longrightarrow> t_status t = T_RUNNING \<or> in_seq r = ns_last_resolved_input_seq n + 1"
    and "t_ownership_epoch t \<le> t_ownership_epoch t'"
  shows "qstep (view d) (view d')"
proof -
  obtain n' s where row: "in_id r = rid" "ns_id n' = in_session_id r" "get_session d (in_session_id r) = Some n'"
    "get_task d (in_task_id r) = Some s" "t_id s = in_task_id r"
    using queue_inv_rows [OF assms(1,2)] by blast
  with assms(3,4) have n: "ns_id n = in_session_id r" and t: "t_id t = in_task_id r" by simp_all
  have v: "view d' = (view d)\<lparr>qv_tasks := (qv_tasks (view d))(in_task_id r \<mapsto>
              (in_task_id r, t_status t', t_ownership_epoch t'))\<rparr>"
    by (rule view_store_run [OF assms(5,2,6)]) (simp_all add: assms(7) t)
  show ?thesis
    unfolding v
    by (rule qstep.leased [where sid = "in_session_id r" and s = "in_seq r" and rid = rid and st = "t_status t"
          and ep = "t_ownership_epoch t" and nx = "ns_next_input_seq n" and la = "ns_last_resolved_input_seq n"])
      (use assms(2-4,8-11) row n t in auto)
qed

lemma owns_True:
  "owns t owner now = Inr True \<longleftrightarrow> t_runtime_kind t = ''LANGGRAPH'' \<and> t_status t = T_RUNNING
     \<and> t_lease_token t = Some (fst owner) \<and> t_ownership_epoch t = snd owner
     \<and> (\<exists>e. t_lease_expires_at t = Some e \<and> now < e)"
  by (auto simp: owns_def split: option.splits)

lemma lock_owner_Inr [result_simps]:
  "lock_owner rid owner now d = Inr (run, t) \<longleftrightarrow>
     get_input d rid = Some run \<and> get_task d (in_task_id run) = Some t \<and> owns t owner now = Inr True"
proof (cases "get_input d rid")
  case (Some r)
  show ?thesis
  proof (cases "get_task d (in_task_id r)")
    case None
    with Some show ?thesis by (auto simp: lock_owner_def)
  next
    case t: (Some t0)
    show ?thesis
    proof (cases "owns t0 owner now")
      case (Inr ok)
      with Some t show ?thesis by (cases ok) (auto simp: lock_owner_def)
    qed (use Some t in \<open>auto simp: lock_owner_def\<close>)
  qed
qed (simp add: lock_owner_def)

definition granted_task :: "string \<Rightarrow> string \<Rightarrow> time \<Rightarrow> task \<Rightarrow> task" where
  "granted_task rid token e t = t\<lparr>t_ownership_epoch := t_ownership_epoch t + 1, t_lease_token := Some token,
     t_lease_owner := Some (''graph:'' @ rid), t_lease_expires_at := Some e,
     t_status := T_RUNNING, t_next_retry_at := None, t_attempt_count := t_attempt_count t + 1\<rparr>"

lemma granted_task_sel [simp]:
  "t_id (granted_task rid token e t) = t_id t" "t_status (granted_task rid token e t) = T_RUNNING"
  "t_ownership_epoch (granted_task rid token e t) = t_ownership_epoch t + 1"
  "t_lease_token (granted_task rid token e t) = Some token"
  "t_lease_expires_at (granted_task rid token e t) = Some e"
  "t_attempt_count (granted_task rid token e t) = t_attempt_count t + 1"
  "t_max_attempts (granted_task rid token e t) = t_max_attempts t"
  "t_runtime_kind (granted_task rid token e t) = t_runtime_kind t"
  by (simp_all add: granted_task_def)

lemma grant_cases:
  assumes step: "grant rid token now e run t d = Inr (res, d')"
  obtains (given_up) r' t' where "res = None" and "same_place run r'" and "t_id t' = t_id t"
      and "t_status t' = T_FAILED" and "t_ownership_epoch t' = t_ownership_epoch t" and "store_run rid r' t' d = Inr d'"
  | (granted) r' where "res = Some (token, t_ownership_epoch t + 1)" and "t_attempt_count t < t_max_attempts t"
      and "now < e" and "same_place run r'" and "in_active_since r' = Some now" and "in_active_until r' = Some e"
      and "store_run rid r' (granted_task rid token e t) d = Inr d'"
proof -
  from step show thesis
    unfolding grant_def granted_task_def [symmetric]
    apply (elim if_InrE result_elims)
    subgoal by (rule given_up) (auto simp: same_place_def)
    subgoal by (rule given_up) (auto simp: same_place_def)
    subgoal by (rule granted) (auto simp: same_place_def)
    done
qed

lemma claim_cases:
  assumes step: "claim rid token lease now d = Inr (res, d')"
  obtains (idle) "res = None" and "d' = d"
  | (due) run n t x r e where "get_input d rid = Some run"
      and "get_session d (in_session_id run) = Some n"
      and "in_seq run = ns_last_resolved_input_seq n + 1" and "ns_archived_at n = None"
      and "\<not> in_recovery_required run" and "get_task d (in_task_id run) = Some t" and "due t now"
      and "same_place run r" and "lease_deadline d now lease (settle now run) = (x, r)"
      and "e = (if cleanup_only d rid t then now + seconds 15 else x)"
      and "grant rid token now e r t d = Inr (res, d')"
proof -
  from step show thesis
    unfolding claim_def
    apply (elim result_elims)
    apply (erule if_InrE)
    subgoal by (elim result_elims) (rule idle)
    apply (elim result_elims)
    apply (erule if_InrE)
    subgoal by (elim result_elims) (rule idle)
    apply (elim result_elims)
    subgoal for run n t g x r'
      by (rule due [of run n t r' x]) (use lease_deadline_place [of d now lease "settle now run" x r']
            in \<open>auto simp: same_place_def\<close>)
    done
qed

lemma claim_refines:
  assumes "claim rid token lease now d = Inr (res, d')" and "queue_inv d"
  shows "qstep (view d) (view d')"
  using assms(1)
proof (cases rule: claim_cases)
  case idle
  then show ?thesis by (simp add: qstep.quiet)
next
  case (due run n t x r e)
  have alive: "t_status t \<noteq> T_SUCCEEDED" using due(7) by (simp add: due_def)
  from due(11) show ?thesis
  proof (cases rule: grant_cases)
    case (given_up r' t')
    have "same_place run r'" using due(8) given_up(2) by (simp add: same_place_def)
    then show ?thesis
      by (rule store_run_leased [OF assms(2) due(1,6,2) given_up(6)]) (use alive given_up(3-5) in simp_all)
  next
    case (granted r')
    have "same_place run r'" using due(8) granted(4) by (simp add: same_place_def)
    then show ?thesis
      by (rule store_run_leased [OF assms(2) due(1,6,2) granted(7)]) (use alive due(3) in simp_all)
  qed
qed

lemma owner_write_refines:
  assumes "queue_inv d" and "get_input d rid = Some r" and "get_task d (in_task_id r) = Some t"
    and "t_status t = T_RUNNING" and "store_run rid r' t' d = Inr d'" and "same_place r r'" and "t_id t' = t_id t"
    and "t_status t' \<noteq> T_SUCCEEDED" and "t_ownership_epoch t \<le> t_ownership_epoch t'"
  shows "qstep (view d) (view d')"
proof -
  obtain n where n: "get_session d (in_session_id r) = Some n" using queue_inv_rows [OF assms(1,2)] by blast
  show ?thesis
    by (rule store_run_leased [OF assms(1-3) n assms(5-7)]) (use assms(4,8,9) in simp_all)
qed

lemma release_refines:
  assumes "release rid owner recovery t1 t2 t3 d = Inr (u, d')" and "queue_inv d"
  shows "qstep (view d) (view d')"
proof -
  obtain run t where o: "get_input d rid = Some run" "get_task d (in_task_id run) = Some t" "owns t owner t1 = Inr True"
    and st: "store_run rid ((settle t2 run)\<lparr>in_recovery_required := recovery\<rparr>)
             (drop_lease (t\<lparr>t_status := T_RETRY_WAIT, t_next_retry_at := Some (t3 + seconds 1)\<rparr>)) d = Inr d'"
    using assms(1) by (auto simp: release_def ebind_eq_Inr lock_owner_Inr)
  show ?thesis
    by (rule owner_write_refines [OF assms(2) o(1,2) _ st]) (use o(3) in \<open>simp_all add: same_place_def owns_True\<close>)
qed

lemma heartbeat_refines:
  assumes "heartbeat rid owner t1 t2 t3 d = Inr (u, d')" and "queue_inv d"
  shows "qstep (view d) (view d')"
proof -
  obtain run t where o: "get_input d rid = Some run" "get_task d (in_task_id run) = Some t" "owns t owner t1 = Inr True"
    and rest: "(case lease_deadline d t2 (seconds 30) run of (e, r1) \<Rightarrow>
       if e \<le> t3 then Inl StaleOwner
       else ebind (store_run rid (r1\<lparr>in_active_until := Some e\<rparr>) (t\<lparr>t_lease_expires_at := Some e\<rparr>) d) (\<lambda>d1. Inr ((), d1)))
       = Inr (u, d')"
    using assms(1) by (auto simp: heartbeat_def ebind_eq_Inr lock_owner_Inr)
  obtain e r1 where l: "lease_deadline d t2 (seconds 30) run = (e, r1)" by fastforce
  with rest have st: "store_run rid (r1\<lparr>in_active_until := Some e\<rparr>) (t\<lparr>t_lease_expires_at := Some e\<rparr>) d = Inr d'"
    by (simp add: ebind_eq_Inr split: if_splits)
  show ?thesis
    by (rule owner_write_refines [OF assms(2) o(1,2) _ st])
      (use o(3) lease_deadline_place [OF l] in \<open>simp_all add: same_place_def owns_True\<close>)
qed

lemma finalize_cases:
  assumes step: "finalize rid owner v pending t1 t2 t3 d = Inr (u, d')"
  obtains run t n del where "get_input d rid = Some run" and "get_task d (in_task_id run) = Some t"
    and "owns t owner t1 = Inr True" and "get_session d (in_session_id run) = Some n"
    and "ns_last_resolved_input_seq n + 1 = in_seq run" and "get_delivery d (reply_key rid) = Some del"
    and "nd_status del = ND_PUBLISHED" and "fv_published_message_id v = nd_public_message_id del"
    and "fv_input_hash v = Some (in_input_hash run)"
    and "store_run rid (settle t2 run)
             (drop_lease (t\<lparr>t_status := T_SUCCEEDED, t_completed_at := Some t3,
                t_result_snapshot := Some (JObj [(''public_message_id'', jopt JInt (nd_public_message_id del))])\<rparr>))
             (mod_session (in_session_id run) (\<lambda>s. s\<lparr>ns_last_resolved_input_seq := in_seq run\<rparr>) d) = Inr d'"
proof -
  obtain run t where o: "get_input d rid = Some run" "get_task d (in_task_id run) = Some t" "owns t owner t1 = Inr True"
    using step by (auto simp: finalize_def ebind_eq_Inr lock_owner_Inr)
  then have "lock_owner rid owner t1 d = Inr (run, t)" by (simp add: lock_owner_Inr)
  with step show thesis
    unfolding finalize_def
    apply (elim result_elims)
    apply (simp only: sum.inject prod.inject)
    apply (elim conjE)
    apply (rule that)
             apply (use o in auto)
    done
qed

lemma finalize_refines:
  assumes "finalize rid owner v pending t1 t2 t3 d = Inr (u, d')" and "queue_inv d"
  shows "qstep (view d) (view d')"
  using assms(1)
proof (cases rule: finalize_cases)
  case (1 run t n del)
  let ?d = "mod_session (in_session_id run) (\<lambda>s. s\<lparr>ns_last_resolved_input_seq := in_seq run\<rparr>) d"
  let ?t = "drop_lease (t\<lparr>t_status := T_SUCCEEDED, t_completed_at := Some t3,
                t_result_snapshot := Some (JObj [(''public_message_id'', jopt JInt (nd_public_message_id del))])\<rparr>)"
  obtain n' s where row: "in_id run = rid" "ns_id n' = in_session_id run" "get_session d (in_session_id run) = Some n'"
    "get_task d (in_task_id run) = Some s" "t_id s = in_task_id run"
    using queue_inv_rows [OF assms(2) 1(1)] by blast
  have v1: "view d' = (view ?d)\<lparr>qv_tasks := (qv_tasks (view ?d))(in_task_id run \<mapsto>
      (in_task_id run, t_status ?t, t_ownership_epoch ?t))\<rparr>"
    by (rule view_store_run [OF 1(10), of run]) (use 1(1,2) row in \<open>simp_all add: same_place_def\<close>)
  have v2: "view ?d = (view d)\<lparr>qv_queues := (qv_queues (view d))(in_session_id run \<mapsto>
      (in_session_id run, ns_next_input_seq n, ns_last_resolved_input_seq n + 1))\<rparr>"
    by (rule view_eqI) (use 1(4,5) row in auto)
  have "view d' = (view d)\<lparr>qv_queues := (qv_queues (view d))(in_session_id run \<mapsto>
      (in_session_id run, ns_next_input_seq n, ns_last_resolved_input_seq n + 1)),
      qv_tasks := (qv_tasks (view d))(in_task_id run \<mapsto> (in_task_id run, T_SUCCEEDED, t_ownership_epoch t))\<rparr>"
    unfolding v1 v2 by simp
  moreover have "qstep (view d) \<dots>"
    by (rule qstep.resolved [where rid = rid]) (use 1(1-5) row in \<open>auto simp: owns_True\<close>)
  ultimately show ?thesis by simp
qed

lemma enqueue_cases:
  assumes step: "enqueue H rid corr fp model now sid buyer request p config d = Inr (k, d')"
  obtains (replayed) old where "input_of_request d sid request = Some old" and "in_input_hash old = fp"
      and "k = in_id old" and "d' = d"
  | (fresh) n c seen pol where "input_of_request d sid request = None" and "k = rid"
      and "get_session d sid = Some n" and "ns_buyer_id n = buyer" and "ns_archived_at n = None"
      and "ns_next_input_seq n - ns_last_resolved_input_seq n \<le> 20" and "config_ok p n c"
      and "get_policy d (ns_product_id n) = Some pol"
      and "insert_input H rid corr fp request p c seen now n pol d = Inr d'"
proof -
  from step obtain n where n: "owned_session d sid buyer = Inr n" and arch: "ns_archived_at n = None"
    and rest: "(case input_of_request d sid request of
        Some old \<Rightarrow> if in_input_hash old \<noteq> fp then Inl (Conflict ''another payload under this request'')
                    else Inr (in_id old, d)
      | None \<Rightarrow>
      if 20 < ns_next_input_seq n - ns_last_resolved_input_seq n then Inl (Conflict ''too many open inputs'')
      else
      ebind (case p of Chat q \<Rightarrow> validate_references d n q now | Typed q \<Rightarrow> Inr ()) (\<lambda>_.
      ebind (seen_display d sid buyer p now) (\<lambda>seen.
      let c = (case config of None \<Rightarrow> default_config p n model | Some c \<Rightarrow> c) in
      if \<not> config_ok p n c then Inl (Conflict ''invalid run configuration'')
      else
      ebind (some_or AttributeExn (get_policy d (ns_product_id n))) (\<lambda>pol.
      ebind (insert_input H rid corr fp request p c seen now n pol d) (\<lambda>d1. Inr (rid, d1)))))) = Inr (k, d')"
    unfolding enqueue_def by (elim result_elims) simp
  have own: "get_session d sid = Some n" "ns_buyer_id n = buyer"
    using n by (auto simp: owned_session_def split: option.splits if_splits)
  show thesis
  proof (cases "input_of_request d sid request")
    case (Some old)
    with rest show ?thesis by (intro replayed) (auto split: if_splits)
  next
    case None
    note rest = rest [unfolded None option.case]
    show ?thesis
      using rest
      apply (elim result_elims)
      subgoal by (rule fresh [OF None _ own arch]) auto
      done
  qed
qed

lemma insert_input_Inr:
  assumes "insert_input H rid corr fp request p c seen now n pol d = Inr d'"
  shows "get_input d rid = None" and "get_task d (d_next_task d) = None"
    and "d_sessions d' = tmod (ns_id n) (\<lambda>s. s\<lparr>ns_next_input_seq := ns_next_input_seq s + 1\<rparr>) (d_sessions d)"
    and "d_tasks d' = d_tasks d @ [(d_next_task d, new_graph_task (d_next_task d) rid corr fp n pol)]"
    and "\<exists>r. d_inputs d' = d_inputs d @ [(rid, r)] \<and> in_id r = rid \<and> in_session_id r = ns_id n
           \<and> in_task_id r = d_next_task d \<and> in_seq r = ns_next_input_seq n \<and> in_request_id r = request
           \<and> in_input_hash r = fp \<and> in_payload r = p \<and> in_config r = c"
  using assms unfolding insert_input_def by (auto simp: Let_def result_simps split: if_splits)

lemma new_graph_task_sel [simp]:
  "t_id (new_graph_task tid rid corr fp n pol) = tid" "t_status (new_graph_task tid rid corr fp n pol) = T_PENDING"
  "t_ownership_epoch (new_graph_task tid rid corr fp n pol) = 0"
  by (simp_all add: new_graph_task_def)

lemma enqueue_refines:
  assumes "enqueue H rid corr fp model now sid buyer request p config d = Inr (k, d')" and "queue_inv d"
  shows "qstep (view d) (view d')"
  using assms(1)
proof (cases rule: enqueue_cases)
  case replayed
  then show ?thesis by (simp add: qstep.quiet)
next
  case (fresh n c seen pol)
  note ins = insert_input_Inr [OF fresh(9)]
  obtain r where r: "d_inputs d' = d_inputs d @ [(rid, r)]" "in_id r = rid" "in_session_id r = ns_id n"
    "in_task_id r = d_next_task d" "in_seq r = ns_next_input_seq n"
    using ins(5) by blast
  have "ns_id n = sid"
    using queue_okD(1) [OF assms(2) [unfolded queue_inv_def], of sid "ns_id n"] fresh(3) by simp
  then have "view d' = (view d)\<lparr>qv_queues := (qv_queues (view d))(sid \<mapsto>
        (sid, ns_next_input_seq n + 1, ns_last_resolved_input_seq n)),
      qv_inputs := (qv_inputs (view d))(rid \<mapsto> (rid, sid, d_next_task d, ns_next_input_seq n)),
      qv_tasks := (qv_tasks (view d))(d_next_task d \<mapsto> (d_next_task d, T_PENDING, 0))\<rparr>"
    by (intro view_eqI) (use fresh(3) ins(1-4) r in auto)
  moreover have "qstep (view d) \<dots>"
    by (rule qstep.added) (use fresh(3,6) ins(1,2) \<open>ns_id n = sid\<close> in auto)
  ultimately show ?thesis by simp
qed

lemma enroll_refines:
  assumes "enroll sid buyer version d = Inr (u, d')"
  shows "qstep (view d) (view d')"
proof -
  have "d' = d \<or> d' = mod_session sid (\<lambda>s. s\<lparr>ns_graph_version := Some version\<rparr>) d"
    using assms by (auto simp: enroll_def result_simps split: if_splits)
  then have "view d' = view d" by (auto simp: view_mod_session)
  then show ?thesis by (simp add: qstep.quiet)
qed

lemma revoke_lease_refines:
  assumes "revoke_lease rid now retry r t d = Inr d'" and "queue_inv d" and "get_input d rid = Some r"
    and "get_task d (in_task_id r) = Some t" and "t_status t = T_RUNNING"
  shows "qstep (view d) (view d')"
  by (rule owner_write_refines [OF assms(2-5) assms(1) [unfolded revoke_lease_def]]) (simp_all add: same_place_def)

lemma instances_same: "view (d\<lparr>d_instances := is\<rparr>) = view d" "view (d_instances_update f d) = view d"
  by (simp_all add: view_def)

lemma register_refines: "register_instance rid iid target now d = Inr (u, d') \<Longrightarrow> qstep (view d) (view d')"
  by (auto simp: register_instance_def result_simps instances_same intro: qstep.quiet)

lemma attach_refines: "attach_owner rid iid owner now d = Inr (u, d') \<Longrightarrow> qstep (view d) (view d')"
  by (auto simp: attach_owner_def ebind_eq_Inr instances_same split: option.splits if_splits intro: qstep.quiet)

lemma supervisor_refines:
  assumes "supervisor_revoke rid iid t1 t2 d = Inr (u, d')" and "queue_inv d"
  shows "qstep (view d) (view d')"
proof -
  obtain r t where row: "get_input d rid = Some r" "get_task d (in_task_id r) = Some t"
    and c: "d' = d \<or> t_status t = T_RUNNING \<and> revoke_lease rid t1 t2 r t d = Inr d'"
    using assms(1) unfolding supervisor_revoke_def
    by (auto simp: ebind_eq_Inr some_or_eq_Inr split: option.splits if_splits)
  from c show ?thesis using revoke_lease_refines [OF _ assms(2) row] by (auto intro: qstep.quiet)
qed

lemma revoke_instance_refines:
  assumes "revoke_instance iid force now d = Inr (res, d')" and "queue_inv d"
  shows "qstep (view d) (view d')"
proof -
  have "d' = d \<or> (\<exists>r t d1 is. get_input d (gi_input_id (the (tget (d_instances d) iid))) = Some r
      \<and> get_task d (in_task_id r) = Some t
      \<and> (d1 = d \<or> t_status t = T_RUNNING \<and> revoke_lease (gi_input_id (the (tget (d_instances d) iid))) now now r t d = Inr d1) \<and> d' = d1\<lparr>d_instances := is\<rparr>)"
    using assms(1) unfolding revoke_instance_def
    by (auto simp: ebind_eq_Inr some_or_eq_Inr split: option.splits if_splits)
  then show ?thesis
    using revoke_lease_refines [OF _ assms(2)] by (auto simp: instances_same intro: qstep.quiet)
qed

lemma cleanup_refines:
  assumes "cleanup_instance pg iid force t1 t2 d = (res, d')" and "queue_inv d"
  shows "qstep (view d) (view d')"
proof (cases "revoke_instance iid force t1 d")
  case (Inl e)
  with assms(1) show ?thesis by (auto simp: cleanup_instance_def intro: qstep.quiet)
next
  case (Inr r)
  obtain x d1 where r: "r = (x, d1)" by (cases r)
  have "qstep (view d) (view d1)" using revoke_instance_refines [OF _ assms(2)] Inr r by blast
  moreover have "view d' = view d1"
    using assms(1) Inr r by (auto simp: cleanup_instance_def instances_same split: option.splits)
  ultimately show ?thesis by simp
qed

section \<open>Runs of the queue\<close>

inductive queue_step :: "db \<Rightarrow> db \<Rightarrow> bool" where
  enroll: "enroll sid buyer version d = Inr (u, d') \<Longrightarrow> queue_step d d'"
| enqueue: "enqueue H rid corr fp model now sid buyer request p config d = Inr (k, d') \<Longrightarrow> queue_step d d'"
| claim: "claim rid token lease now d = Inr (res, d') \<Longrightarrow> queue_step d d'"
| release: "release rid owner recovery t1 t2 t3 d = Inr (u, d') \<Longrightarrow> queue_step d d'"
| heartbeat: "heartbeat rid owner t1 t2 t3 d = Inr (u, d') \<Longrightarrow> queue_step d d'"
| finalize: "finalize rid owner v pending t1 t2 t3 d = Inr (u, d') \<Longrightarrow> queue_step d d'"
| register: "register_instance rid iid target now d = Inr (u, d') \<Longrightarrow> queue_step d d'"
| attach: "attach_owner rid iid owner now d = Inr (u, d') \<Longrightarrow> queue_step d d'"
| cleanup: "cleanup_instance pg iid force t1 t2 d = (r, d') \<Longrightarrow> queue_step d d'"
| supervise: "supervisor_revoke rid iid t1 t2 d = Inr (u, d') \<Longrightarrow> queue_step d d'"
| elsewhere: "view d' = view d \<Longrightarrow> queue_step d d'"
  \<comment> \<open>the other services, which number no inputs and leave the tasks of runs alone\<close>

lemma queue_step_refines: "queue_step d d' \<Longrightarrow> queue_inv d \<Longrightarrow> qstep (view d) (view d')"
proof (induction rule: queue_step.induct)
  case (elsewhere d' d)
  then show ?case by (simp add: qstep.quiet)
qed (erule enroll_refines register_refines attach_refines
      | erule (1) enqueue_refines claim_refines release_refines heartbeat_refines finalize_refines
          cleanup_refines supervisor_refines)+

lemma queue_steps_refine:
  "queue_step\<^sup>*\<^sup>* d d' \<Longrightarrow> queue_inv d \<Longrightarrow> qstep\<^sup>*\<^sup>* (view d) (view d') \<and> queue_inv d'"
proof (induction rule: rtranclp_induct)
  case (step y z)
  then have "qstep\<^sup>*\<^sup>* (view d) (view y)" and inv: "queue_inv y" by simp_all
  moreover have "qstep (view y) (view z)" using step.hyps(2) inv by (rule queue_step_refines)
  ultimately show ?case using qstep_ok inv by (auto simp: queue_inv_def)
qed simp

definition running :: "db \<Rightarrow> string \<Rightarrow> input_row \<Rightarrow> bool" where
  "running d rid r \<longleftrightarrow> get_input d rid = Some r
     \<and> (\<exists>t. get_task d (in_task_id r) = Some t \<and> t_status t = T_RUNNING)"

definition queue_sound :: "db \<Rightarrow> bool" where
  "queue_sound d \<longleftrightarrow>
     (\<forall>a r n. running d a r \<and> get_session d (in_session_id r) = Some n \<longrightarrow>
        in_seq r = ns_last_resolved_input_seq n + 1)
     \<and> (\<forall>a r b r'. running d a r \<and> running d b r' \<and> in_session_id r' = in_session_id r \<longrightarrow> b = a)
     \<and> (\<forall>sid n. get_session d sid = Some n \<longrightarrow> ns_next_input_seq n - ns_last_resolved_input_seq n \<le> 21)
     \<and> (\<forall>sid n s. get_session d sid = Some n \<and> 1 \<le> s \<and> s < ns_next_input_seq n \<longrightarrow>
          (\<exists>k x t. get_input d k = Some x \<and> in_session_id x = sid \<and> in_seq x = s
             \<and> get_task d (in_task_id x) = Some t
             \<and> (s \<le> ns_last_resolved_input_seq n \<longrightarrow> t_status t = T_SUCCEEDED)))"

lemma running_head:
  assumes "queue_inv d" and "running d k x" and "get_session d (in_session_id x) = Some m"
  shows "in_seq x = ns_last_resolved_input_seq m + 1"
proof -
  obtain t where t: "get_task d (in_task_id x) = Some t" "t_status t = T_RUNNING" and x: "get_input d k = Some x"
    using assms(2) by (auto simp: running_def)
  from queue_inv_rows [OF assms(1) x] assms(3) t show ?thesis by (metis option.inject)
qed

lemma running_unique:
  assumes "queue_inv d" and "running d a r" and "running d b r'" and "in_session_id r' = in_session_id r"
  shows "b = a"
proof -
  have in1: "get_input d a = Some r" and in2: "get_input d b = Some r'" using assms by (simp_all add: running_def)
  obtain m where "get_session d (in_session_id r) = Some m" using queue_inv_rows [OF assms(1) in1] by blast
  then have "in_seq r' = in_seq r" using running_head [OF assms(1)] assms(2-4) by metis
  with assms(4) in1 in2 show ?thesis
    using queue_okD(3) [OF assms(1) [unfolded queue_inv_def], of b "in_id r'" "in_session_id r" "in_task_id r'"
        "in_seq r" a "in_id r" "in_task_id r"] by simp
qed

lemma queue_numbered:
  assumes "queue_inv d" and "get_session d sid = Some n" and "1 \<le> s" and "s < ns_next_input_seq n"
  shows "\<exists>k x t. get_input d k = Some x \<and> in_session_id x = sid \<and> in_seq x = s
             \<and> get_task d (in_task_id x) = Some t
             \<and> (s \<le> ns_last_resolved_input_seq n \<longrightarrow> t_status t = T_SUCCEEDED)"
proof -
  obtain k tid where "qv_inputs (view d) k = Some (k, sid, tid, s)"
    using queue_okD(5) [OF assms(1) [unfolded queue_inv_def], of sid "ns_id n" "ns_next_input_seq n"
        "ns_last_resolved_input_seq n" s] assms(2-4) by auto
  then obtain x where x: "get_input d k = Some x" "in_session_id x = sid" "in_seq x = s" by auto
  from queue_inv_rows [OF assms(1) x(1)] obtain m t where "get_session d (in_session_id x) = Some m"
    and "get_task d (in_task_id x) = Some t" and "in_seq x \<le> ns_last_resolved_input_seq m \<longrightarrow> t_status t = T_SUCCEEDED"
    by metis
  with x assms(2) show ?thesis by (intro exI [of _ k] exI [of _ x] exI [of _ t]) simp
qed

lemma queue_inv_sound:
  assumes inv: "queue_inv d"
  shows "queue_sound d"
proof -
  have bound: "ns_next_input_seq n - ns_last_resolved_input_seq n \<le> 21" if "get_session d sid = Some n" for sid n
    using queue_okD(1) [OF inv [unfolded queue_inv_def], of sid "ns_id n" "ns_next_input_seq n"
        "ns_last_resolved_input_seq n"] that by simp
  show ?thesis
    unfolding queue_sound_def
    by (intro conjI allI impI; (elim conjE)?)
      (erule (1) running_head [OF inv] | erule (2) running_unique [OF inv] | erule (2) queue_numbered [OF inv]
       | erule bound)+
qed

text \<open>
  C8: The transactions of the queue refine an abstract queue: on every run, inputs are numbered without gaps,
  at most 20 are unresolved, at most one input of a negotiation is being executed, it is the oldest
  unresolved one, and inputs are resolved in order.
\<close>

theorem queue_runs_sound:
  assumes "queue_step\<^sup>*\<^sup>* d d'" and "queue_inv d"
  shows "qstep\<^sup>*\<^sup>* (view d) (view d') \<and> queue_inv d' \<and> queue_sound d'"
  using queue_steps_refine [OF assms] queue_inv_sound by blast

section \<open>Fencing\<close>

definition holds_run :: "string \<Rightarrow> db \<Rightarrow> owner \<Rightarrow> time \<Rightarrow> bool" where
  "holds_run rid d p now \<longleftrightarrow> (\<exists>row. lock_owner rid p now d = Inr row)"

definition claim_run :: "string \<Rightarrow> db \<Rightarrow> string \<times> time \<Rightarrow> time \<Rightarrow> (owner \<times> db) option" where
  "claim_run rid d k now =
     (case claim rid (fst k) (snd k) now d of
        Inr (Some p, d') \<Rightarrow> Some (p, d')
      | _ \<Rightarrow> None)"

definition run_epoch :: "string \<Rightarrow> db \<Rightarrow> int" where
  "run_epoch rid d =
     (case get_input d rid of
        None \<Rightarrow> 0
      | Some r \<Rightarrow> (case get_task d (in_task_id r) of None \<Rightarrow> 0 | Some t \<Rightarrow> t_ownership_epoch t))"

lemma holds_run_iff:
  "holds_run rid d p now \<longleftrightarrow> (\<exists>r t. get_input d rid = Some r \<and> get_task d (in_task_id r) = Some t \<and> owns t p now = Inr True)"
  by (auto simp: holds_run_def lock_owner_Inr)

lemma claim_run_cases:
  assumes "claim_run rid d k now = Some (p, d')"
  obtains run t r' e where "get_input d rid = Some run" and "get_task d (in_task_id run) = Some t" and "due t now"
    and "p = (fst k, t_ownership_epoch t + 1)" and "in_task_id r' = in_task_id run"
    and "store_run rid r' (granted_task rid (fst k) e t) d = Inr d'"
proof -
  have c: "claim rid (fst k) (snd k) now d = Inr (Some p, d')"
    using assms by (auto simp: claim_run_def split: sum.splits option.splits)
  then show thesis
  proof (cases rule: claim_cases)
    case (due run n t x r e)
    from due(11) show ?thesis
    proof (cases rule: grant_cases)
      case (granted r')
      show ?thesis
        by (rule that [OF due(1,6,7) _ _ granted(7)]) (use granted(1,4) due(8) in \<open>simp_all add: same_place_def\<close>)
    qed simp
  qed simp
qed

lemma store_run_rows:
  assumes "store_run rid r' t' d = Inr d'" and "in_task_id r' = tid"
  shows "get_input d' rid = Some r'" and "get_task d' tid = Some t'"
  using assms by (auto simp: store_run_def split: if_splits)

lemma qstep_epoch:
  assumes "qstep v v'" and "queue_ok v" and "qv_inputs v rid = Some (j, sid, tid, s)" and "qv_tasks v tid = Some (i, st, ep)"
  shows "qv_inputs v' rid = Some (j, sid, tid, s) \<and> (\<exists>i' st' ep'. qv_tasks v' tid = Some (i', st', ep') \<and> ep \<le> ep')"
  using assms by (induction rule: qstep.induct) auto

lemma queue_step_epoch:
  assumes "queue_step d d'" and "queue_inv d"
  shows "run_epoch rid d \<le> run_epoch rid d'"
proof (cases "get_input d rid")
  case (Some r)
  obtain t where t: "get_task d (in_task_id r) = Some t" using queue_inv_rows [OF assms(2) Some] by blast
  from qstep_epoch [OF queue_step_refines [OF assms] assms(2) [unfolded queue_inv_def], of rid "in_id r"
      "in_session_id r" "in_task_id r" "in_seq r" "t_id t" "t_status t" "t_ownership_epoch t"]
  show ?thesis using Some t by (auto simp: run_epoch_def)
next
  case None
  have "queue_inv d'" using queue_step_refines [OF assms] assms(2) qstep_ok by (simp add: queue_inv_def)
  then have "0 \<le> run_epoch rid d'"
  proof (cases "get_input d' rid")
    case (Some r)
    then obtain t where "get_task d' (in_task_id r) = Some t" "0 \<le> t_ownership_epoch t"
      using queue_inv_rows [OF \<open>queue_inv d'\<close> Some] by blast
    with Some show ?thesis by (simp add: run_epoch_def)
  qed (simp add: run_epoch_def)
  with None show ?thesis by (simp add: run_epoch_def)
qed

interpretation run: fenced_lease "holds_run rid" "claim_run rid" "run_epoch rid" snd
  "\<lambda>d d'. queue_step d d' \<and> queue_inv d" for rid
proof unfold_locales
  show "p = q" if "holds_run rid d p t" "holds_run rid d q t'" for d p t q t'
    using that by (cases p; cases q) (auto simp: holds_run_iff owns_True)
  show "holds_run rid d p t'" if "holds_run rid d p t" "t' \<le> t" for d p t t'
    using that by (fastforce simp: holds_run_iff owns_True)
  show "claim_run rid d k t = None" if "holds_run rid d p t" for d p t k
  proof (rule ccontr)
    assume "claim_run rid d k t \<noteq> None"
    then obtain q d' where "claim_run rid d k t = Some (q, d')" by auto
    then show False
      by (rule claim_run_cases) (use that in \<open>auto simp: holds_run_iff owns_True due_def\<close>)
  qed
  show "q = p" if "claim_run rid d k t = Some (p, d')" "holds_run rid d' q t'" for d k t p d' q t'
    using that(1)
  proof (rule claim_run_cases)
    fix run u r' e assume c: "p = (fst k, t_ownership_epoch u + 1)" "in_task_id r' = in_task_id run"
      "store_run rid r' (granted_task rid (fst k) e u) d = Inr d'"
    from store_run_rows [OF c(3,2)] that(2) c(1,2) show "q = p"
      by (cases q) (auto simp: holds_run_iff owns_True)
  qed
  show "snd p = run_epoch rid d" if "holds_run rid d p t" for d p t
    using that by (auto simp: holds_run_iff owns_True run_epoch_def)
  show "run_epoch rid d < run_epoch rid d' \<and> snd p = run_epoch rid d'"
    if "claim_run rid d k t = Some (p, d')" for d k t p d'
    using that
  proof (rule claim_run_cases)
    fix run u r' e assume r: "get_input d rid = Some run" "get_task d (in_task_id run) = Some u"
      and c: "p = (fst k, t_ownership_epoch u + 1)" "in_task_id r' = in_task_id run"
      "store_run rid r' (granted_task rid (fst k) e u) d = Inr d'"
    from store_run_rows [OF c(3,2)] r c(1,2) show ?thesis by (simp add: run_epoch_def)
  qed
  show "run_epoch rid d \<le> run_epoch rid d'" if "queue_step d d' \<and> queue_inv d" for d d'
    using that queue_step_epoch by blast
qed

interpretation run_lease: exclusive_lease "holds_run rid" "claim_run rid" for rid
  by (rule run.exclusive_lease_axioms)

lemma queue_steps_inv: "queue_step\<^sup>*\<^sup>* d d' \<Longrightarrow> queue_inv d \<Longrightarrow> (\<lambda>d d'. queue_step d d' \<and> queue_inv d)\<^sup>*\<^sup>* d d'"
proof (induction rule: rtranclp_induct)
  case (step y z)
  then have "(\<lambda>d d'. queue_step d d' \<and> queue_inv d) y z" using queue_steps_refine by blast
  with step show ?case by (auto intro: rtranclp.rtrancl_into_rtrancl)
qed simp

lemma owner_needed:
  assumes "\<not> holds_run rid d q now"
  shows "isl (release rid q recovery now t2 t3 d)" and "isl (heartbeat rid q now t2 t3 d)"
    and "isl (finalize rid q v pending now t2 t3 d)" and "isl (attach_owner rid iid q now d)"
proof -
  obtain e where "lock_owner rid q now d = Inl e"
    using assms by (cases "lock_owner rid q now d") (auto simp: holds_run_def)
  then show "isl (release rid q recovery now t2 t3 d)" and "isl (heartbeat rid q now t2 t3 d)"
    and "isl (finalize rid q v pending now t2 t3 d)" and "isl (attach_owner rid iid q now d)"
    by (simp_all add: release_def heartbeat_def finalize_def attach_owner_def)
qed

text \<open>
  C17: Once an execution has claimed a run, an owner that held its lease before can never again release, prolong or
  finish it, whatever transactions of the queue come in between and whatever the clocks show.
\<close>

theorem displaced_owner_fenced:
  assumes "lock_owner rid q t0 d = Inr row" and "claim rid token lease t d = Inr (Some p, d1)"
    and "queue_step\<^sup>*\<^sup>* d1 d2" and "queue_inv d"
  shows "isl (lock_owner rid q now d2) \<and> isl (release rid q recovery now t2 t3 d2)
    \<and> isl (heartbeat rid q now t2 t3 d2) \<and> isl (finalize rid q v pending now t2 t3 d2)"
proof -
  have h: "holds_run rid d q t0" using assms(1) by (auto simp: holds_run_def)
  have c: "claim_run rid d (token, lease) t = Some (p, d1)" using assms(2) by (simp add: claim_run_def)
  have "queue_inv d1" using queue_steps_refine [of d d1] queue_step.claim [OF assms(2)] assms(4) by blast
  then have "\<not> holds_run rid d2 q now"
    using run.displaced_for_good [OF h c queue_steps_inv [OF assms(3)]] by blast
  with owner_needed [OF this] show ?thesis
    by (cases "lock_owner rid q now d2") (auto simp: holds_run_def)
qed

lemma settle_closing:
  assumes "in_closing_deadline run = Some c"
  shows "in_closing_deadline (settle now run) = Some c"
  using assms by (auto simp: settle_def Let_def split: option.splits)

lemma lease_deadline_bounds:
  assumes "lease_deadline d now lease r = (x, r')"
  shows "x \<le> now + lease" and "in_closing_deadline r = Some c \<Longrightarrow> x \<le> c"
    and "in_closing_deadline r = None \<Longrightarrow> x \<le> now + millis (remaining_ms r now) + seconds 15"
    and "get_delivery d (reply_key (in_id r)) = Some del \<Longrightarrow> in_closing_deadline r = None \<Longrightarrow>
           x \<le> nd_reply_deadline del + seconds 15"
  using assms by (auto simp: lease_deadline_def Let_def split: option.splits if_splits)

text \<open>
  A claim grants only the head of the queue, for at most the lease asked for, never past the frozen closing
  deadline or 15 s beyond the remaining execution time and the reply deadline (clean-up after the reply, without
  a model, gets 15 s), and never more attempts than allowed; each claim has an epoch of its own.
\<close>

theorem claim_bounded:
  assumes "claim rid token lease now d = Inr (Some p, d')"
  shows "\<exists>run n t t' e. get_input d rid = Some run \<and> get_session d (in_session_id run) = Some n
    \<and> in_seq run = ns_last_resolved_input_seq n + 1 \<and> ns_archived_at n = None \<and> \<not> in_recovery_required run
    \<and> get_task d (in_task_id run) = Some t \<and> due t now
    \<and> get_task d' (in_task_id run) = Some t' \<and> t_lease_expires_at t' = Some e \<and> now < e
    \<and> (if cleanup_only d rid t then e = now + seconds 15
       else e \<le> now + lease
         \<and> (\<forall>c. in_closing_deadline run = Some c \<longrightarrow> e \<le> c)
         \<and> (in_closing_deadline (settle now run) = None \<longrightarrow>
              e \<le> now + millis (remaining_ms (settle now run) now) + seconds 15
              \<and> (\<forall>del. get_delivery d (reply_key (in_id run)) = Some del \<longrightarrow> e \<le> nd_reply_deadline del + seconds 15)))
    \<and> p = (token, t_ownership_epoch t + 1) \<and> t_ownership_epoch t' = t_ownership_epoch t + 1
    \<and> t_attempt_count t' \<le> t_max_attempts t'"
  using assms
proof (cases rule: claim_cases)
  case (due run n t x r e)
  from due(11) show ?thesis
  proof (cases rule: grant_cases)
    case (granted r')
    have row: "get_task d' (in_task_id run) = Some (granted_task rid token e t)"
      using store_run_rows(2) [OF granted(7)] granted(4) due(8) by (simp add: same_place_def)
    have small: "if cleanup_only d rid t then e = now + seconds 15
       else e \<le> now + lease
         \<and> (\<forall>c. in_closing_deadline run = Some c \<longrightarrow> e \<le> c)
         \<and> (in_closing_deadline (settle now run) = None \<longrightarrow>
              e \<le> now + millis (remaining_ms (settle now run) now) + seconds 15
              \<and> (\<forall>del. get_delivery d (reply_key (in_id run)) = Some del \<longrightarrow> e \<le> nd_reply_deadline del + seconds 15))"
      using lease_deadline_bounds [OF due(9)] due(10) settle_closing [of run _ now] by auto
    show ?thesis
      by (rule exI [of _ run], rule exI [of _ n], rule exI [of _ t], rule exI [of _ "granted_task rid token e t"],
          rule exI [of _ e]) (use due(1-7) row small granted(1-3) in simp)
  qed simp
qed simp

text \<open>
  C37: When a run whose retry is due has outlived its closing deadline, the claim that should give it up violates the
  check constraint on retry times, because it keeps \<open>next_retry_at\<close>: it aborts and changes nothing.
\<close>

theorem overdue_retry_not_given_up:
  assumes "get_input d rid = Some run" and "get_session d (in_session_id run) = Some n"
    and "in_seq run = ns_last_resolved_input_seq n + 1" and "ns_archived_at n = None"
    and "\<not> in_recovery_required run" and "get_task d (in_task_id run) = Some t" and "task_checks t"
    and "t_status t = T_RETRY_WAIT" and "t_next_retry_at t = Some r" and "r \<le> now"
    and "in_closing_deadline run = Some c" and "c \<le> now" and "\<not> cleanup_only d rid t"
  shows "claim rid token lease now d = Inl IntegrityExn"
proof -
  have "due t now" using assms(7-10) by (simp add: due_def task_checks_def)
  obtain x r' where l: "lease_deadline d now lease (settle now run) = (x, r')" by fastforce
  have "x \<le> now"
    using lease_deadline_bounds(2) [OF l settle_closing [OF assms(11)]] assms(12) by simp
  moreover have "\<not> task_checks (drop_lease (t\<lparr>t_status := T_FAILED\<rparr>))"
    using assms(9) by (simp add: task_checks_def drop_lease_def)
  ultimately have "grant rid token now x r' t d = Inl IntegrityExn" by (simp add: grant_def store_run_def)
  with assms(1-6,13) l \<open>due t now\<close> show ?thesis by (simp add: claim_def)
qed

section \<open>Repeated requests\<close>

lemma find_snoc_absent: "find P xs = None \<Longrightarrow> find P (xs @ [x]) = (if P x then Some x else None)"
  by (induction xs) auto

lemma owned_session_Inr: "owned_session d sid buyer = Inr n \<longleftrightarrow> get_session d sid = Some n \<and> ns_buyer_id n = buyer"
  by (auto simp: owned_session_def split: option.splits)

definition admits :: "int \<Rightarrow> string \<Rightarrow> string \<Rightarrow> payload \<Rightarrow> db \<Rightarrow> bool" where
  \<comment> \<open>the checks of \<open>enqueue\<close> before it looks for an earlier input of the request\<close>
  "admits sid buyer request p d \<longleftrightarrow>
     request \<noteq> [] \<and> length request \<le> 64 \<and> payload_ok p
     \<and> (\<exists>n. owned_session d sid buyer = Inr n \<and> ns_archived_at n = None
          \<and> (\<exists>v. ns_graph_version n = Some v \<and> v \<in> set (if is_chat p then tl graph_versions else [hd graph_versions])))"

lemma enqueue_admits: "enqueue H rid corr fp model now sid buyer request p config d = Inr (k, d') \<Longrightarrow> admits sid buyer request p d"
  unfolding enqueue_def admits_def
  by (elim result_elims) (auto split: option.splits)

lemma enqueue_replay:
  assumes "admits sid buyer request p d" and "input_of_request d sid request = Some old" and "in_input_hash old = fp"
  shows "enqueue H rid corr fp model now sid buyer request p config d = Inr (in_id old, d)"
proof -
  obtain n v where n: "owned_session d sid buyer = Inr n" "ns_archived_at n = None" "ns_graph_version n = Some v"
    "v \<in> set (if is_chat p then tl graph_versions else [hd graph_versions])"
    and r: "request \<noteq> []" "\<not> 64 < length request" "payload_ok p"
    using assms(1) by (auto simp: admits_def)
  have "\<not> (case ns_graph_version n of None \<Rightarrow> True
           | Some v \<Rightarrow> v \<notin> set (if is_chat p then tl graph_versions else [hd graph_versions]))"
    using n(3,4) by (simp only: option.case) blast
  then show ?thesis unfolding enqueue_def using n(1,2) r assms(2,3) by simp
qed

lemma enqueue_stored:
  assumes "enqueue H rid corr fp model now sid buyer request p config d = Inr (k, d')" and "queue_inv d"
  shows "\<exists>old. input_of_request d' sid request = Some old \<and> in_input_hash old = fp \<and> in_id old = k"
  using assms(1)
proof (cases rule: enqueue_cases)
  case (replayed old)
  then show ?thesis by simp
next
  case (fresh n c seen pol)
  obtain r where r: "d_inputs d' = d_inputs d @ [(rid, r)]" "in_id r = rid" "in_session_id r = ns_id n"
    "in_request_id r = request" "in_input_hash r = fp"
    using insert_input_Inr(5) [OF fresh(9)] by blast
  have "ns_id n = sid"
    using queue_okD(1) [OF assms(2) [unfolded queue_inv_def], of sid "ns_id n"] fresh(3) by simp
  with fresh(1,2) r show ?thesis by (simp add: input_of_request_def find_snoc_absent)
qed

lemma enqueue_session:
  assumes "enqueue H rid corr fp model now sid buyer request p config d = Inr (k, d')" and "get_session d sid = Some n"
  shows "\<exists>x. get_session d' sid = Some (n\<lparr>ns_next_input_seq := x\<rparr>)"
  using assms(1)
proof (cases rule: enqueue_cases)
  case replayed
  with assms(2) have "get_session d' sid = Some (n\<lparr>ns_next_input_seq := ns_next_input_seq n\<rparr>)" by simp
  then show ?thesis by blast
next
  case (fresh m c seen pol)
  have "get_session d' sid = Some (n\<lparr>ns_next_input_seq := ns_next_input_seq n + 1\<rparr>) \<or>
    get_session d' sid = Some (n\<lparr>ns_next_input_seq := ns_next_input_seq n\<rparr>)"
    using insert_input_Inr(3) [OF fresh(9)] assms(2) by auto
  then show ?thesis by blast
qed

lemma enqueue_still_admits:
  assumes "enqueue H rid corr fp model now sid buyer request p config d = Inr (k, d')"
  shows "admits sid buyer request p d'"
proof -
  obtain n v where n: "get_session d sid = Some n" "ns_buyer_id n = buyer" "ns_archived_at n = None"
    "ns_graph_version n = Some v" "v \<in> set (if is_chat p then tl graph_versions else [hd graph_versions])"
    and r: "request \<noteq> []" "length request \<le> 64" "payload_ok p"
    using enqueue_admits [OF assms] unfolding admits_def by (elim conjE exE) (simp add: owned_session_Inr)
  obtain x where "get_session d' sid = Some (n\<lparr>ns_next_input_seq := x\<rparr>)"
    using enqueue_session [OF assms n(1)] by blast
  then have "owned_session d' sid buyer = Inr (n\<lparr>ns_next_input_seq := x\<rparr>)" using n(2) by (simp add: owned_session_Inr)
  with n(3-5) r show ?thesis
    unfolding admits_def by (intro conjI exI [of _ "n\<lparr>ns_next_input_seq := x\<rparr>"] exI [of _ v]) simp_all
qed

text \<open>
  What varies between two sendings: fresh identifiers and the clock. The invariant is part of the command, since
  its laws hold in databases that satisfy it.
\<close>

type_synonym sending = "string \<times> string \<times> time"

definition send ::
    "(json \<Rightarrow> string) \<Rightarrow> string \<Rightarrow> string \<Rightarrow> int \<Rightarrow> string \<Rightarrow> string \<Rightarrow> payload \<Rightarrow> run_config option \<Rightarrow>
     sending \<Rightarrow> db \<Rightarrow> exn + (string \<times> db)" where
  "send H fp model sid buyer request p config e =
     enqueue H (fst e) (fst (snd e)) fp model (snd (snd e)) sid buyer request p config"

text \<open>
  Sending a request again, any number of times and under any clock and identifiers, returns the input that was
  stored for it and changes nothing; the buyer's input is numbered once.
\<close>

theorem enqueue_replays:
  assumes "send H fp model sid buyer request p config e d = Inr (k, d')" and "queue_inv d"
  shows "replays (send H fp model sid buyer request p config) es d' = (replicate (length es) (Inr k), d')"
proof -
  obtain old where old: "input_of_request d' sid request = Some old" "in_input_hash old = fp" "in_id old = k"
    using enqueue_stored [OF assms(1) [unfolded send_def] assms(2)] by blast
  have "send H fp model sid buyer request p config e' d' = Inr (k, d')" for e'
    unfolding send_def old(3) [symmetric]
    by (rule enqueue_replay [OF enqueue_still_admits [OF assms(1) [unfolded send_def]] old(1,2)])
  then show ?thesis by (induction es) simp_all
qed

section \<open>Progress\<close>

lemma granted_checks: "task_checks t \<Longrightarrow> task_checks (granted_task rid token e t)"
  by (auto simp: task_checks_def granted_task_def split: if_splits)

text \<open>
  C36: The queue makes progress: if a negotiation has an unresolved input, its oldest one exists, and a claim of it is
  granted whenever it is due, not under recovery, the negotiation is not archived, and attempts and time are left.
\<close>

theorem head_claimable:
  assumes "queue_inv d" and "get_session d sid = Some n" and "ns_last_resolved_input_seq n + 1 < ns_next_input_seq n"
  shows "\<exists>rid run t. get_input d rid = Some run \<and> in_session_id run = sid
    \<and> in_seq run = ns_last_resolved_input_seq n + 1 \<and> get_task d (in_task_id run) = Some t
    \<and> (\<forall>token lease now. task_checks t \<and> due t now \<and> t_attempt_count t < t_max_attempts t
         \<and> \<not> in_recovery_required run \<and> ns_archived_at n = None
         \<and> now < fst (lease_deadline d now lease (settle now run)) \<longrightarrow>
         (\<exists>d'. claim rid token lease now d = Inr (Some (token, t_ownership_epoch t + 1), d')))"
proof -
  have "0 \<le> ns_last_resolved_input_seq n"
    using queue_okD(1) [OF assms(1) [unfolded queue_inv_def], of sid "ns_id n"] assms(2) by simp
  then obtain rid run t where r: "get_input d rid = Some run" "in_session_id run = sid"
    "in_seq run = ns_last_resolved_input_seq n + 1" "get_task d (in_task_id run) = Some t"
    using queue_numbered [OF assms(1,2), of "ns_last_resolved_input_seq n + 1"] assms(3) by auto
  have "\<exists>d'. claim rid token lease now d = Inr (Some (token, t_ownership_epoch t + 1), d')"
    if h: "task_checks t" "due t now" "t_attempt_count t < t_max_attempts t" "\<not> in_recovery_required run"
      "ns_archived_at n = None" "now < fst (lease_deadline d now lease (settle now run))" for token lease now
  proof -
    obtain x r1 where l: "lease_deadline d now lease (settle now run) = (x, r1)" by fastforce
    define e where "e = (if cleanup_only d rid t then now + seconds 15 else x)"
    have "now < e" using h(6) l by (simp add: seconds_def e_def)
    then have "\<exists>d'. grant rid token now e r1 t d = Inr (Some (token, t_ownership_epoch t + 1), d')"
      using h(3) granted_checks [OF h(1), of rid token e]
      unfolding grant_def granted_task_def [symmetric] by (simp add: store_run_def)
    with r assms(2) h(2,4,5) l show ?thesis by (simp add: claim_def e_def)
  qed
  with r show ?thesis by blast
qed

section \<open>A queue\<close>

definition queued_session :: session where
  "queued_session = \<lparr>ns_id = 1, ns_product_id = 1, ns_buyer_id = ''buyer'', ns_status = ACTIVE,
     ns_current_offer_id = None, ns_confirmed_offer_id = None, ns_confirmed_at = None,
     ns_confirmation_request_id = None, ns_confirmation_source = None, ns_round_count = 0, ns_version = 1,
     ns_graph_version = Some ''negotiation-v1'', ns_archived_at = None, ns_lifecycle_checked_at = None,
     ns_next_input_seq = 1, ns_last_resolved_input_seq = 0, ns_next_public_seq = 1\<rparr>"

definition queue_start :: db where
  "queue_start = empty_db\<lparr>d_sessions := [(1, queued_session)],
     d_policies := [(1, \<lparr>sp_product_id = 1, sp_minimum_net_price = 10000, sp_auto_accept_threshold = 15000,
                         sp_style = BALANCED, sp_max_rounds = 5, sp_version = 1\<rparr>)]\<rparr>"

definition queue_query :: payload where
  "queue_query = Typed \<lparr>ti_kind = QUERY, ti_text = ''info'', ti_terms = None, ti_counter_terms = None,
     ti_offer_id = None, ti_client_view_id = ''view'', ti_display_receipt_id = None\<rparr>"

definition queued :: db where
  \<comment> \<open>after one input\<close>
  "queued = snd (commit (enqueue (\<lambda>j. ''digest'') ''run'' ''corr'' ''fp'' ''model'' 0 1 ''buyer'' ''req'' queue_query None
     queue_start) queue_start)"

definition claimed :: db where
  \<comment> \<open>after a first worker claimed it at time 10\<close>
  "claimed = snd (commit (claim ''run'' ''first'' (seconds 30) 10 queued) queued)"

lemma queue_start_inv: "queue_inv queue_start"
  unfolding queue_inv_def
  by (rule queue_okI) (auto simp: queue_start_def queued_session_def empty_db_def split: if_splits)

definition queued_run :: input_row where
  "queued_run = \<lparr>in_id = ''run'', in_session_id = 1, in_task_id = 1, in_buyer_message_id = 1, in_seq = 1,
     in_request_id = ''req'', in_payload = queue_query, in_input_hash = ''fp'', in_config = base_config,
     in_config_hash = ''digest'', in_graph_version = ''negotiation-v1'', in_received_at = 0,
     in_seen_public_message_seq = 0, in_checkpoint_ref = None, in_recovery_required = False, in_active_ms = 0,
     in_active_since = None, in_active_until = None, in_closing_deadline = None\<rparr>"

definition queued_task :: task where
  "queued_task = new_graph_task 1 ''run'' ''corr'' ''fp'' queued_session
     \<lparr>sp_product_id = 1, sp_minimum_net_price = 10000, sp_auto_accept_threshold = 15000,
      sp_style = BALANCED, sp_max_rounds = 5, sp_version = 1\<rparr>"

lemma queued_task_checks: "task_checks queued_task"
  by (simp add: queued_task_def new_graph_task_def task_checks_def queued_session_def)

lemma queued_step: "\<exists>d'. enqueue (\<lambda>j. ''digest'') ''run'' ''corr'' ''fp'' ''model'' 0 1 ''buyer'' ''req'' queue_query None queue_start
    = Inr (''run'', d') \<and> get_input d' ''run'' = Some queued_run \<and> get_task d' 1 = Some queued_task
      \<and> get_session d' 1 = Some (queued_session\<lparr>ns_next_input_seq := 2\<rparr>) \<and> d_deliveries d' = []"
  using queued_task_checks
  by (simp add: enqueue_def queue_start_def queued_session_def empty_db_def queue_query_def
      typed_input_ok_def owned_session_def graph_versions_def input_of_request_def trows_def seen_display_def
      default_config_def base_config_def config_ok_def active_limit_ms_def insert_input_def tadd_def Let_def
      queued_run_def queued_task_def)

lemma queued_eq: "enqueue (\<lambda>j. ''digest'') ''run'' ''corr'' ''fp'' ''model'' 0 1 ''buyer'' ''req'' queue_query None queue_start
    = Inr (''run'', queued)"
  and queued_rows [simp]: "get_input queued ''run'' = Some queued_run" "get_task queued 1 = Some queued_task"
    "get_session queued 1 = Some (queued_session\<lparr>ns_next_input_seq := 2\<rparr>)" "d_deliveries queued = []"
  using queued_step by (auto simp: queued_def)

lemma queued_inv: "queue_inv queued"
  using qstep_ok [OF enqueue_refines [OF queued_eq queue_start_inv]] queue_start_inv by (simp add: queue_inv_def)

lemma half_minute: "\<not> seconds 30 \<le> 0"
  by (simp add: seconds_def)

lemma queue_times:
  "settle 10 queued_run = queued_run"
  "lease_deadline queued 10 (seconds 30) queued_run = (10 + seconds 30, queued_run)"
  "due queued_task 10" "\<not> cleanup_only queued ''run'' queued_task"
  by (simp_all add: settle_def queued_run_def used_ms_def Let_def lease_deadline_def remaining_ms_def
      active_limit_ms_def base_config_def seconds_def millis_def due_def cleanup_only_def queued_task_def
      new_graph_task_def)

lemma queued_sel [simp]:
  "in_task_id queued_run = 1" "in_session_id queued_run = 1" "in_seq queued_run = 1"
  "\<not> in_recovery_required queued_run" "ns_archived_at (queued_session\<lparr>ns_next_input_seq := 2\<rparr>) = None"
  "ns_last_resolved_input_seq (queued_session\<lparr>ns_next_input_seq := 2\<rparr>) = 0"
  "t_attempt_count queued_task = 0" "t_max_attempts queued_task = 3" "t_ownership_epoch queued_task = 0"
  "t_last_manual_action queued_task = None" "t_runtime_kind queued_task = ''LANGGRAPH''"
  by (simp_all add: queued_run_def queued_session_def queued_task_def new_graph_task_def)

abbreviation "first_task \<equiv> granted_task ''run'' ''first'' (10 + seconds 30) queued_task"
abbreviation "first_run \<equiv> queued_run\<lparr>in_active_since := Some 10, in_active_until := Some (10 + seconds 30)\<rparr>"

lemma claimed_step:
  "\<exists>d'. claim ''run'' ''first'' (seconds 30) 10 queued = Inr (Some (''first'', 1), d')
     \<and> get_input d' ''run'' = Some first_run \<and> get_task d' 1 = Some first_task
     \<and> get_session d' 1 = get_session queued 1 \<and> d_deliveries d' = []"
proof -
  have "\<exists>d'. grant ''run'' ''first'' 10 (10 + seconds 30) queued_run queued_task queued = Inr (Some (''first'', 1), d')
     \<and> get_input d' ''run'' = Some first_run \<and> get_task d' 1 = Some first_task
     \<and> get_session d' 1 = get_session queued 1 \<and> d_deliveries d' = []"
    using granted_checks [OF queued_task_checks, of "''run''" "''first''" "10 + seconds 30"] half_minute
    unfolding grant_def granted_task_def [symmetric] by (simp add: store_run_def)
  then show ?thesis by (simp add: claim_def queue_times)
qed

lemma claimed_eq: "claim ''run'' ''first'' (seconds 30) 10 queued = Inr (Some (''first'', 1), claimed)"
  and claimed_rows [simp]: "get_input claimed ''run'' = Some first_run" "get_task claimed 1 = Some first_task"
    "get_session claimed 1 = Some (queued_session\<lparr>ns_next_input_seq := 2\<rparr>)" "d_deliveries claimed = []"
  using claimed_step by (auto simp: claimed_def)

lemma claimed_inv: "queue_inv claimed"
  using qstep_ok [OF claim_refines [OF claimed_eq queued_inv]] queued_inv by (simp add: queue_inv_def)

lemma claimed_late:
  "settle (10 + seconds 30) first_run = queued_run\<lparr>in_active_ms := 30000\<rparr>"
  "lease_deadline claimed (10 + seconds 30) (seconds 30) (queued_run\<lparr>in_active_ms := 30000\<rparr>)
     = (10 + seconds 60, queued_run\<lparr>in_active_ms := 30000\<rparr>)"
  by (simp_all add: settle_def queued_run_def used_ms_def Let_def lease_deadline_def remaining_ms_def
      active_limit_ms_def base_config_def seconds_def millis_def elapsed_ms_def fl.simps round_half_even_def)

lemma takeover:
  "\<exists>d'. claim ''run'' ''second'' (seconds 30) (10 + seconds 30) claimed = Inr (Some (''second'', 2), d')"
proof -
  let ?now = "10 + seconds 30"
  have t: "due first_task ?now" "\<not> cleanup_only claimed ''run'' first_task"
    by (simp_all add: due_def cleanup_only_def granted_task_def)
  have "\<not> 10 + seconds 60 \<le> ?now" by (simp add: seconds_def)
  then have "\<exists>d'. grant ''run'' ''second'' ?now (10 + seconds 60) (queued_run\<lparr>in_active_ms := 30000\<rparr>) first_task claimed
      = Inr (Some (''second'', 2), d')"
    using granted_checks [OF granted_checks [OF queued_task_checks, of "''run''" "''first''" ?now],
        of "''run''" "''second''" "10 + seconds 60"]
    unfolding grant_def granted_task_def [symmetric]
    by (simp add: store_run_def)
  then show ?thesis using t by (simp add: claim_def claimed_late)
qed

theorem queue_runs_sound_witness: "queue_sound claimed"
proof -
  have "queue_step queue_start queued" by (rule queue_step.enqueue [OF queued_eq])
  moreover have "queue_step queued claimed" by (rule queue_step.claim [OF claimed_eq])
  ultimately have "queue_step\<^sup>*\<^sup>* queue_start claimed" by (meson rtranclp.simps)
  with queue_start_inv show ?thesis using queue_runs_sound by blast
qed

theorem displaced_owner_fenced_witness:
  "\<exists>d2. get_session d2 1 \<noteq> None \<and> isl (heartbeat ''run'' (''first'', 1) 11 11 11 d2)"
proof -
  have own: "lock_owner ''run'' (''first'', 1) 11 claimed = Inr (first_run, first_task)"
    by (simp add: lock_owner_Inr owns_True seconds_def)
  obtain d2 where d2: "claim ''run'' ''second'' (seconds 30) (10 + seconds 30) claimed = Inr (Some (''second'', 2), d2)"
    using takeover by blast
  have "queue_step claimed d2" by (rule queue_step.claim [OF d2])
  have "isl (heartbeat ''run'' (''first'', 1) 11 11 11 d2)"
    using displaced_owner_fenced [OF own d2 rtranclp.rtrancl_refl claimed_inv] by blast
  moreover have "get_session d2 1 \<noteq> None"
    using d2
  proof (cases rule: claim_cases)
    case (due run n t x r e)
    from due(11) show ?thesis
      by (cases rule: grant_cases) (auto simp: store_run_def split: if_splits)
  qed simp
  ultimately show ?thesis by blast
qed

theorem claim_bounded_witness:
  "\<exists>t e. get_task claimed 1 = Some t \<and> t_lease_expires_at t = Some e \<and> 10 < e \<and> e \<le> 10 + seconds 30"
  using claim_bounded [OF claimed_eq] by (auto simp: queue_times(4))

theorem enqueue_replays_witness:
  "replays (send (\<lambda>j. ''digest'') ''fp'' ''model'' 1 ''buyer'' ''req'' queue_query None)
     [(''other'', ''corr2'', 99), (''third'', ''corr3'', 5)] queued = ([Inr ''run'', Inr ''run''], queued)"
proof -
  have "send (\<lambda>j. ''digest'') ''fp'' ''model'' 1 ''buyer'' ''req'' queue_query None (''run'', ''corr'', 0) queue_start
      = Inr (''run'', queued)"
    using queued_eq by (simp add: send_def)
  from enqueue_replays [OF this queue_start_inv, of "[(''other'', ''corr2'', 99), (''third'', ''corr3'', 5)]"]
  show ?thesis by (simp only: list.size replicate_Suc replicate_0 add_0 add_Suc)
qed

theorem head_claimable_witness:
  "\<exists>rid run. get_input queued rid = Some run \<and> in_session_id run = 1 \<and> in_seq run = 1"
  using head_claimable [OF queued_inv queued_rows(3)] by (auto simp: queued_session_def)

definition overdue_task :: task where
  "overdue_task = queued_task\<lparr>t_status := T_RETRY_WAIT, t_next_retry_at := Some 5\<rparr>"

definition overdue :: db where
  \<comment> \<open>released while its closing deadline passed\<close>
  "overdue = queued\<lparr>d_inputs := tput ''run'' (queued_run\<lparr>in_closing_deadline := Some 7\<rparr>) (d_inputs queued),
     d_tasks := tput 1 overdue_task (d_tasks queued)\<rparr>"

theorem overdue_retry_not_given_up_witness:
  "claim ''run'' ''late'' (seconds 30) 9 overdue = Inl IntegrityExn"
  by (rule overdue_retry_not_given_up [where r = 5 and c = 7 and t = overdue_task
        and run = "queued_run\<lparr>in_closing_deadline := Some 7\<rparr>" and n = "queued_session\<lparr>ns_next_input_seq := 2\<rparr>"])
    (use queued_task_checks in \<open>simp_all add: overdue_def overdue_task_def cleanup_only_def task_checks_def
       queued_task_def new_graph_task_def\<close>)

end
