(* ===== verification/Command.thy ===== *)
theory Command
  imports Resolution Queue
begin

text \<open>
  \<open>backend/app/services/business_command_service.py\<close> and \<open>services/causal_audit.py\<close>: one transaction per
  command of an owned run, whose receipt, causal events, notification and outbox event are committed with
  the business change.

  \<open>H\<close> is the digest, \<open>qid\<close> and \<open>vid\<close> are fresh identifiers; the fault-injection hook of the tests is left out.
\<close>

section \<open>Causal events\<close>

fun stage_name :: "int \<Rightarrow> string" where
  "stage_name k =
     (if k = 1 then ''evidence_resolved'' else if k = 2 then ''authorization_checked''
      else if k = 3 then ''action_committed'' else ''result_published'')"

definition event_key :: "string \<Rightarrow> int \<Rightarrow> string" where
  "event_key action k = action @ '':'' @ show_int k"

definition causal_row :: "string \<Rightarrow> int \<Rightarrow> json \<Rightarrow> causal_event" where
  "causal_row action k evidence =
     \<lparr>ce_action_id = action, ce_sequence = k, ce_stage = stage_name k,
      ce_parent_id = (if 1 < k then Some (event_key action (k - 1)) else None), ce_evidence = evidence\<rparr>"

definition append_event :: "string \<Rightarrow> int \<Rightarrow> json \<Rightarrow> db \<Rightarrow> exn + db" where
  "append_event action k evidence d =
     ebind (tadd IntegrityExn (event_key action k) (causal_row action k evidence) (d_causal d)) (\<lambda>es.
     Inr (d\<lparr>d_causal := es\<rparr>))"

definition command_terms_hash :: "(json \<Rightarrow> string) \<Rightarrow> terms \<Rightarrow> string" where
  "command_terms_hash H t = H (JObj [(''amount'', JStr (show_cents (tm_amount t))),
     (''payer'', JStr (show_payer (tm_shipping_paid_by t))),
     (''shipping_cost'', jopt (\<lambda>c. JStr (show_cents c)) (tm_shipping_cost t)),
     (''discount'', jopt (\<lambda>c. JStr (show_cents c)) (tm_seller_discount t)),
     (''terms'', JObj (tm_additional_terms t))])"

definition predicate_json :: "predicate \<Rightarrow> json" where
  "predicate_json p = JObj [(''fact'', JStr (pr_fact p)), (''operator'', JStr (pr_operator p)),
     (''value'', JStr (pr_value p)), (''source_quote'', JStr (pr_source_quote p))]"

definition evaluation_json :: "evaluation \<Rightarrow> json" where
  "evaluation_json e = JObj [(''predicate_id'', JStr (el_predicate_id e)), (''fact'', JStr (el_fact e)),
     (''fact_version'', jopt JInt (el_fact_version e)), (''expected_value'', JStr (el_expected_value e)),
     (''operator'', JStr (el_operator e)), (''result'', JStr (el_result e))]"

definition snapshot_json :: "quote_snapshot \<Rightarrow> json" where
  "snapshot_json s = JObj [(''rule_id'', jopt JStr (qs_rule_id s)), (''rule_version'', jopt JInt (qs_rule_version s)),
     (''shipping_cost'', JStr (show_cents (qs_shipping_cost s))), (''discount'', JStr (show_cents (qs_discount s))),
     (''delivery_fact_version'', jopt JInt (qs_delivery_fact_version s))]"

definition conditions_hash :: "(json \<Rightarrow> string) \<Rightarrow> candidate option \<Rightarrow> string" where
  "conditions_hash H c =
     H (JArr [JArr (case c of None \<Rightarrow> [] | Some x \<Rightarrow> map predicate_json (cd_conditions x)),
              JArr (case c of None \<Rightarrow> [] | Some x \<Rightarrow> map JStr (cd_commitments x))])"

type_synonym quoted = "cost_quote \<times> evaluation list"

definition basis_evidence :: "db \<Rightarrow> offer option \<Rightarrow> candidate option \<Rightarrow> quoted option \<Rightarrow> candidate option \<times> json \<times> string option \<times> json" where
  \<comment> \<open>candidate, snapshot, identifier of the quotation and evaluations the command rests on\<close>
  "basis_evidence d off cand quoted =
     (case (case off of None \<Rightarrow> None | Some x \<Rightarrow> tget (d_bases d) (of_id x)) of
        Some b \<Rightarrow>
          if cand = None then
            (let q = tget (d_quotes d) (ob_cost_quote_id b) in
             (Some (ob_candidate b), jopt (\<lambda>x. snapshot_json (cq_snapshot x)) q, map_option cq_id q,
              JArr (map evaluation_json (ob_evaluations b))))
          else (cand, jopt (\<lambda>(x, _). snapshot_json (cq_snapshot x)) quoted, map_option (\<lambda>(x, _). cq_id x) quoted,
                jopt (\<lambda>(_, es). JArr (map evaluation_json es)) quoted)
      | None \<Rightarrow> (cand, jopt (\<lambda>(x, _). snapshot_json (cq_snapshot x)) quoted, map_option (\<lambda>(x, _). cq_id x) quoted,
                jopt (\<lambda>(_, es). JArr (map evaluation_json es)) quoted))"

definition action_key :: "string \<Rightarrow> string" where
  "action_key rid = ''turn:'' @ rid @ '':action''"

definition input_basis ::
    "(json \<Rightarrow> string) \<Rightarrow> db \<Rightarrow> input_row \<Rightarrow> session \<Rightarrow> product \<Rightarrow> policy \<Rightarrow> typed_input \<Rightarrow> candidate option \<Rightarrow>
     quoted option \<Rightarrow> json" where
  "input_basis H d run n p pol inp cand quoted =
     (let off = (case ti_offer_id inp of None \<Rightarrow> None | Some k \<Rightarrow> get_offer d k);
          prf = (case off of None \<Rightarrow> None | Some x \<Rightarrow> tget (d_evidence d) (of_id x));
          (c, snap, qid, evals) = basis_evidence d off cand quoted
      in JObj [(''schema'', JInt 1), (''logical_action_id'', JStr (action_key (in_id run))),
          (''session_id'', JInt (ns_id n)), (''input_id'', JStr (in_id run)), (''input_seq'', JInt (in_seq run)),
          (''command'', JStr (show_kind (ti_kind inp))), (''proposal_id'', JStr (''input:'' @ in_id run)),
          (''object_offer_id'', jopt (\<lambda>x. JInt (of_id x)) off),
          (''terms_hash'', JStr (case ti_terms inp of
             Some t \<Rightarrow> command_terms_hash H t
           | None \<Rightarrow> (case off of Some x \<Rightarrow> terms_hash H x | None \<Rightarrow> H JNull))),
          (''counter_terms_hash'', jopt (\<lambda>t. JStr (command_terms_hash H t)) (ti_counter_terms inp)),
          (''conditions_hash'', JStr (conditions_hash H c)),
          (''evidence_hash'', JStr (H (JArr [snap, evals, jopt (\<lambda>x. JStr (ge_product_hash x)) prf]))),
          (''evidence_versions'', JObj [(''product'', JInt (p_product_version p)), (''policy'', JInt (sp_version pol)),
             (''cost_quote'', jopt JStr qid)]),
          (''before_version'', JInt (ns_version n)),
          (''display_evidence_hash'',
             if ti_kind inp = CONFIRM
             then JStr (H (JArr [jopt JStr (payload_display (in_payload run)), JInt (in_seen_public_message_seq run)]))
             else JNull)])"

fun jint :: "json \<Rightarrow> int option" where
  "jint (JInt i) = Some i"
| "jint _ = None"

fun jobj_append :: "json \<Rightarrow> (string \<times> json) list \<Rightarrow> json" where
  \<comment> \<open>\<open>{**evidence, ...}\<close> with new keys\<close>
  "jobj_append (JObj kvs) kvs2 = JObj (kvs @ kvs2)"
| "jobj_append j kvs2 = j"

definition committed_event :: "(json \<Rightarrow> string) \<Rightarrow> string \<Rightarrow> json \<Rightarrow> json \<Rightarrow> int \<Rightarrow> db \<Rightarrow> exn + db" where
  "committed_event H action evidence result version d =
     (let off = (case jint (jget result ''offer_id'') of None \<Rightarrow> None | Some k \<Rightarrow> get_offer d k);
          b = (case off of None \<Rightarrow> None | Some x \<Rightarrow> tget (d_bases d) (of_id x))
      in append_event action 3
           (jobj_append evidence
             [(''offer_id'', jget result ''offer_id''), (''after_version'', JInt version),
              (''result_hash'', JStr (H result)), (''offer_terms_hash'', jopt (\<lambda>x. JStr (terms_hash H x)) off),
              (''offer_conditions_hash'', JStr (conditions_hash H (map_option ob_candidate b)))]) d)"

definition published_event :: "input_row option \<Rightarrow> int \<Rightarrow> db \<Rightarrow> exn + db" where
  \<comment> \<open>\<open>causal_audit.published\<close>: the fourth event, once the result is public\<close>
  "published_event run mid d =
     (case run of
        None \<Rightarrow> Inr d
      | Some r \<Rightarrow>
      let action = action_key (in_id r) in
      (case (get_receipt d action, tget (d_causal d) (event_key action 3)) of
         (Some _, Some previous) \<Rightarrow>
           append_event action 4 (jobj_append (ce_evidence previous) [(''message_id'', JInt mid)]) d
       | _ \<Rightarrow> Inr d))"

section \<open>Executing a command\<close>

definition command_delivery :: "input_row \<Rightarrow> json \<Rightarrow> time \<Rightarrow> delivery" where
  "command_delivery run result now =
     \<lparr>nd_id = reply_key (in_id run), nd_input_id = Some (in_id run), nd_session_id = None, nd_approval_id = None,
      nd_source_thread_id = ''negotiation:'' @ show_int (in_session_id run) @ '':v1'',
      nd_status = ND_PENDING, nd_result = result, nd_reply_deadline = now + seconds 45,
      nd_public_message_id = None, nd_lease_token = None, nd_lease_until = None, nd_attempts = 0,
      nd_next_retry_at = None\<rparr>"

definition notification_in_transaction :: "input_row \<Rightarrow> json \<Rightarrow> time \<Rightarrow> db \<Rightarrow> exn + db" where
  "notification_in_transaction run result now d =
     (let source = reply_key (in_id run) in
      if list_ex (\<lambda>x. nd_input_id x = Some (in_id run)) (trows (d_deliveries d)) then Inl IntegrityExn
      else
      ebind (tadd IntegrityExn source (command_delivery run result now) (d_deliveries d)) (\<lambda>ds.
      Inr (d\<lparr>d_deliveries := ds\<rparr>)))"

definition delivery_event :: "string \<Rightarrow> outbox_event" where
  "delivery_event source =
     \<lparr>ob_id = source, ob_delivery_id = Some source, ob_approval_id = None,
      ob_payload = JObj [(''schema'', JInt 1), (''delivery_id'', JStr source)], ob_status = OB_PENDING\<rparr>"

definition outbox_in_transaction :: "string \<Rightarrow> db \<Rightarrow> exn + db" where
  "outbox_in_transaction source d =
     ebind (tadd IntegrityExn source (delivery_event source) (d_outbox d)) (\<lambda>os.
     Inr (d\<lparr>d_outbox := os\<rparr>))"

definition load_command :: "db \<Rightarrow> input_row \<Rightarrow> exn + typed_input" where
  "load_command d run =
     ebind (case in_payload run of
              Chat c \<Rightarrow> (case tget (d_turns d) (in_id run) of
                          None \<Rightarrow> Inl (Conflict ''no semantic plan'')
                        | Some turn \<Rightarrow> Inr (st_command turn))
            | Typed inp \<Rightarrow> Inr inp) (\<lambda>inp.
     if typed_input_ok inp then Inr inp else Inl (ValueExn ''invalid command''))"

record chat_basis =
  cb_draft_id :: string
  cb_candidate :: candidate
  cb_quote :: cost_quote
  cb_evaluations :: "evaluation list"

definition quote_draft ::
    "string \<Rightarrow> input_row \<Rightarrow> session \<Rightarrow> product \<Rightarrow> typed_input \<Rightarrow> time \<Rightarrow> db \<Rightarrow>
     exn + (chat_basis option \<times> typed_input) \<times> db" where
  \<comment> \<open>an offer planned from a chat message gets its terms from a new quotation\<close>
  "quote_draft qid run n p inp now d =
     (if \<not> is_chat (in_payload run) \<or> ti_kind inp \<notin> {SUBMIT, REPLACE} then Inr ((None, inp), d)
      else
      ebind (some_or AttributeExn (tget (d_turns d) (in_id run))) (\<lambda>turn.
      case (case st_selected_draft_id turn of None \<Rightarrow> None | Some k \<Rightarrow> get_draft d k) of
        None \<Rightarrow> Inl (Conflict ''draft version changed'')
      | Some dr \<Rightarrow>
          if dr_business_version dr \<noteq> ns_version n then Inl (Conflict ''draft version changed'')
          else if \<not> candidate_ok (dr_candidate dr) then Inl (ValueExn ''invalid candidate'')
          else
          ebind (quote_in_transaction qid (p_id p) (dr_candidate dr) now d) (\<lambda>((q, t, evals), d1).
          Inr ((Some \<lparr>cb_draft_id = dr_id dr, cb_candidate = dr_candidate dr, cb_quote = q,
                      cb_evaluations = evals\<rparr>, inp\<lparr>ti_terms := Some t\<rparr>), d1))))"

definition record_basis :: "chat_basis option \<Rightarrow> json \<Rightarrow> db \<Rightarrow> exn + db" where
  \<comment> \<open>ties the quotation to the resulting offer; an approval does not outlive it\<close>
  "record_basis basis result d =
     (case basis of
        None \<Rightarrow> Inr d
      | Some cb \<Rightarrow>
      ebind (some_or KeyExn (jint (jget result ''offer_id''))) (\<lambda>oid.
      let d1 = (if tget (d_bases d) oid = None
                then d\<lparr>d_bases := tput oid \<lparr>ob_offer_id = oid, ob_cost_quote_id = cq_id (cb_quote cb),
                         ob_candidate = cb_candidate cb, ob_evaluations = cb_evaluations cb\<rparr> (d_bases d)\<rparr>
                else d);
          d2 = mod_draft (cb_draft_id cb) (\<lambda>r. r\<lparr>dr_status := DR_SUBMITTED\<rparr>) d1
      in case jint (jget result ''approval_id'') of
           None \<Rightarrow> Inr d2
         | Some aid \<Rightarrow>
             if get_approval d2 aid = None then Inl AttributeExn
             else Inr (mod_approval aid (\<lambda>a. a\<lparr>ap_expires_at := min (ap_expires_at a) (cq_expires_at (cb_quote cb))\<rparr>) d2)))"

definition dispatch ::
    "(json \<Rightarrow> string) \<Rightarrow> (db \<Rightarrow> exn + db) \<Rightarrow> input_row \<Rightarrow> session \<Rightarrow> product \<Rightarrow> policy \<Rightarrow> typed_input \<Rightarrow>
     chat_basis option \<Rightarrow> time \<Rightarrow> db \<Rightarrow> exn + json \<times> db" where
  "dispatch H audit run n p pol inp basis now d =
     (case ti_kind inp of
        CONFIRM \<Rightarrow> confirm_in_transaction H audit n p pol inp run now d
      | WITHDRAW \<Rightarrow> lifecycle_in_transaction H audit n inp now d
      | CLOSE \<Rightarrow> lifecycle_in_transaction H audit n inp now d
      | QUERY \<Rightarrow> Inl (Conflict ''not a business command'')
      | _ \<Rightarrow>
          ebind (resolve_offer_in_transaction H audit n p pol inp now (map_option cb_candidate basis) d) (\<lambda>(r, d1).
          ebind (record_basis basis r d1) (\<lambda>d2. Inr (r, d2))))"

definition command_hash :: "(json \<Rightarrow> string) \<Rightarrow> input_row \<Rightarrow> int \<Rightarrow> string" where
  "command_hash H run expected =
     H (JObj [(''input_hash'', JStr (in_input_hash run)), (''expected_version'', JInt expected)])"

definition command_receipt :: "(json \<Rightarrow> string) \<Rightarrow> string \<Rightarrow> input_row \<Rightarrow> int \<Rightarrow> json \<Rightarrow> int \<Rightarrow> time \<Rightarrow> receipt" where
  "command_receipt H rid run expected result version now =
     \<lparr>rc_input_id = Some rid, rc_command_hash = command_hash H run expected, rc_result = result,
      rc_before_version = expected, rc_after_version = version, rc_committed_at = now\<rparr>"

definition store_receipt ::
    "(json \<Rightarrow> string) \<Rightarrow> string \<Rightarrow> input_row \<Rightarrow> int \<Rightarrow> json \<Rightarrow> json \<Rightarrow> time \<Rightarrow> db \<Rightarrow> exn + json \<times> db" where
  \<comment> \<open>the result with its version, the receipt, the third causal event, the notification and its outbox event\<close>
  "store_receipt H rid run expected evidence result0 now d =
     ebind (some_or AttributeExn (get_session d (in_session_id run))) (\<lambda>n.
     let key = action_key rid;
         result = jset result0 ''business_version'' (JInt (ns_version n)) in
     if list_ex (\<lambda>r. rc_input_id r = Some rid) (trows (d_receipts d)) then Inl IntegrityExn
     else
     ebind (tadd IntegrityExn key (command_receipt H rid run expected result (ns_version n) now)
       (d_receipts d)) (\<lambda>rs.
     ebind (committed_event H key evidence result (ns_version n) (d\<lparr>d_receipts := rs\<rparr>)) (\<lambda>d1.
     ebind (notification_in_transaction run result now d1) (\<lambda>d2.
     ebind (outbox_in_transaction (reply_key (in_id run)) d2) (\<lambda>d3.
     Inr (result, d3))))))"

definition execute_fresh ::
    "(json \<Rightarrow> string) \<Rightarrow> string \<Rightarrow> string \<Rightarrow> input_row \<Rightarrow> session \<Rightarrow> int \<Rightarrow> time \<Rightarrow> db \<Rightarrow> exn + json \<times> db" where
  \<comment> \<open>a command without a receipt yet\<close>
  "execute_fresh H qid rid run n expected now d =
     (if ns_version n \<noteq> expected then Inl (Conflict ''business version changed'')
      else
      ebind (some_or AttributeExn (get_product d (ns_product_id n))) (\<lambda>p.
      ebind (load_command d run) (\<lambda>inp0.
      ebind (quote_draft qid run n p inp0 now d) (\<lambda>((basis, inp), d1).
      if ns_status n \<in> {AGREED, CLOSED} then Inl (Conflict ''session has ended'')
      else
      ebind (some_or AttributeExn (get_policy d (p_id p))) (\<lambda>pol.
      let evidence = input_basis H d1 run n p pol inp (map_option cb_candidate basis)
                       (map_option (\<lambda>b. (cb_quote b, cb_evaluations b)) basis);
          key = action_key rid
      in
      ebind (append_event key 1 evidence d1) (\<lambda>d2.
      ebind (dispatch H (append_event key 2 evidence) run n p pol inp basis now d2) (\<lambda>(r, d3).
      store_receipt H rid run expected evidence r now d3)))))))"

definition execute ::
    "(json \<Rightarrow> string) \<Rightarrow> string \<Rightarrow> string \<Rightarrow> owner \<Rightarrow> int \<Rightarrow> time \<Rightarrow> db \<Rightarrow> exn + json \<times> db" where
  "execute H qid rid owner expected now d =
     ebind (lock_owner rid owner now d) (\<lambda>(run, t).
     ebind (some_or AttributeExn (get_session d (in_session_id run))) (\<lambda>n.
     case get_receipt d (action_key rid) of
       Some r \<Rightarrow> if rc_command_hash r \<noteq> command_hash H run expected
                 then Inl (Conflict ''another command under this key'')
                 else Inr (rc_result r, d)
     | None \<Rightarrow> execute_fresh H qid rid run n expected now d))"

section \<open>Ending a run without a business change\<close>

definition reopen_draft :: "string \<Rightarrow> input_row \<Rightarrow> session \<Rightarrow> product option \<Rightarrow> time \<Rightarrow> db \<Rightarrow> exn + db" where
  \<comment> \<open>what the plan's draft still lacks is put to the seller\<close>
  "reopen_draft vid run n prd now d =
     (case (case tget (d_turns d) (in_id run) of
              None \<Rightarrow> None
            | Some turn \<Rightarrow> (case st_selected_draft_id turn of None \<Rightarrow> None | Some k \<Rightarrow> get_draft d k)) of
        None \<Rightarrow> Inr d
      | Some dr \<Rightarrow>
      if dr_business_version dr \<noteq> ns_version n then Inr d
      else if \<not> candidate_ok (dr_candidate dr) then Inl (ValueExn ''invalid candidate'')
      else
      ebind (some_or AttributeExn prd) (\<lambda>p.
      ebind (assess d (p_id p) (dr_candidate dr) now) (\<lambda>(missing, _, _, _).
      let d1 = mod_draft (dr_id dr) (\<lambda>r. r\<lparr>dr_missing := missing\<rparr>) d in
      if missing = [] then Inr d1
      else
      let d2 = mod_draft (dr_id dr) (\<lambda>r. r\<lparr>dr_status := DR_PENDING\<rparr>) d1 in
      Inr (case find (\<lambda>v. vi_draft_id v = dr_id dr) (trows (d_verifications d2)) of
             Some v \<Rightarrow> d2\<lparr>d_verifications := tmod (vi_id v) (\<lambda>x. x\<lparr>vi_status := ''OPEN'', vi_reasons := missing\<rparr>)
                                                 (d_verifications d2)\<rparr>
           | None \<Rightarrow> d2\<lparr>d_verifications := tput vid \<lparr>vi_id = vid, vi_draft_id = dr_id dr, vi_product_id = p_id p,
                          vi_status = ''OPEN'', vi_reasons = missing, vi_notified_version = None\<rparr> (d_verifications d2)\<rparr>))))"

definition query_result :: "(string \<Rightarrow> bool) \<Rightarrow> db \<Rightarrow> input_row \<Rightarrow> session \<Rightarrow> product option \<Rightarrow> exn + json" where
  \<comment> \<open>\<open>why\<close>: the search for a Chinese word asking for reasons\<close>
  "query_result why d run n prd =
     ebind (some_or AttributeExn prd) (\<lambda>p.
     let base = JObj [(''outcome'', JStr ''PRODUCT_INFO''), (''title'', JStr (p_title p)),
                      (''description'', JStr (p_description p))] in
     case in_payload run of
       Chat c \<Rightarrow> Inr base
     | Typed inp \<Rightarrow>
         if ti_kind inp = QUERY \<and> why (ti_text inp) then
           (case newest (\<lambda>x. of_session_id x = ns_id n \<and> of_status x = REJECTED) (d_offers d) of
              None \<Rightarrow> Inr base
            | Some x \<Rightarrow> Inr (jset base ''public_answer'' (JStr (''rejected at '' @ show_cents (of_price x)))))
         else Inr base)"

definition abort_or_query ::
    "(string \<Rightarrow> bool) \<Rightarrow> string \<Rightarrow> string \<Rightarrow> owner \<Rightarrow> string option \<Rightarrow> time \<times> time \<times> time \<Rightarrow> db \<Rightarrow> exn + json \<times> db" where
  "abort_or_query why vid rid owner reason clock d =
     (let (now1, now2, now3) = clock; given = (case reason of None \<Rightarrow> None | Some r \<Rightarrow> if r = [] then None else Some r) in
      ebind (lock_owner rid owner now1 d) (\<lambda>(run, t).
      ebind (some_or AttributeExn (get_session d (in_session_id run))) (\<lambda>n.
      case get_delivery d (reply_key rid) of
        Some del \<Rightarrow> Inr (nd_result del, d)
      | None \<Rightarrow>
      let prd = get_product d (ns_product_id n) in
      ebind (if given \<noteq> None \<and> is_chat (in_payload run) then reopen_draft vid run n prd now2 d else Inr d) (\<lambda>d1.
      ebind (case given of
               Some r \<Rightarrow> Inr (JObj [(''outcome'', JStr ''NOT_EXECUTED''), (''reason'', JStr r)])
             | None \<Rightarrow> query_result why d1 run n prd) (\<lambda>result.
      ebind (notification_in_transaction run result now3 d1) (\<lambda>d2.
      ebind (outbox_in_transaction (reply_key rid) d2) (\<lambda>d3.
      Inr (result, d3))))))))"

end
