(* ===== verification/Command_Spec.thy ===== *)
theory Command_Spec
  imports Command Queue_Spec
begin

text \<open>
  What the commands of a run guarantee: they leave the queue and the audit trail of others alone, they keep
  the invariants of offers and approvals, they are executed once, and each leaves a receipt, an ordered
  chain of causal events, a notification and its outbox event.
\<close>

section \<open>What business writes leave alone\<close>

definition business_frame :: "db \<Rightarrow> db \<Rightarrow> bool" where
  "business_frame d d' \<longleftrightarrow>
     d_products d' = d_products d \<and> d_policies d' = d_policies d \<and> d_causal d' = d_causal d
     \<and> d_inputs d' = d_inputs d \<and> d_tasks d' = d_tasks d \<and> d_messages d' = d_messages d
     \<and> d_quotes d' = d_quotes d \<and> d_facts d' = d_facts d \<and> d_rules d' = d_rules d
     \<and> d_turns d' = d_turns d \<and> d_contexts d' = d_contexts d \<and> d_acks d' = d_acks d
     \<and> view d' = view d
     \<and> (\<forall>k x. tget (d_executions d) k = Some x \<longrightarrow> tget (d_executions d') k = Some x)"

lemma business_frame_refl [simp]: "business_frame d d"
  by (simp add: business_frame_def)

lemma business_frame_trans [trans]: "business_frame d d' \<Longrightarrow> business_frame d' d'' \<Longrightarrow> business_frame d d''"
  by (simp add: business_frame_def)

lemma business_frame_effects: "effects_only d d' \<Longrightarrow> business_frame d d'"
  using view_same [of d' d] by (simp add: effects_only_def business_frame_def)

lemma business_frame_session:
  assumes "\<And>n. ns_id (f n) = ns_id n" and "\<And>n. ns_next_input_seq (f n) = ns_next_input_seq n"
    and "\<And>n. ns_last_resolved_input_seq (f n) = ns_last_resolved_input_seq n"
  shows "business_frame d (mod_session sid f d)"
proof -
  have "view (mod_session sid f d) = view d" by (rule view_mod_session) (fact assms)+
  then show ?thesis by (simp add: business_frame_def)
qed

lemma business_frame_other [simp]:
  "business_frame d (d_offers_update f d)" "business_frame d (d_approvals_update g d)"
  "business_frame d (d_drafts_update h d)" "business_frame d (d_evidence_update i d)"
  "business_frame d (d_next_offer_update j d)" "business_frame d (d_next_approval_update j d)"
  "business_frame d (d_bases_update l d)"
  "business_frame d (d_outbox_update m d)"
  by (simp_all add: business_frame_def view_def)

lemma close_offer_business: "business_frame d (close_offer oid now reason d)"
  by (simp add: close_offer_def)

lemma drop_current_business: "business_frame d (drop_current sid oid d)"
  unfolding drop_current_def by (rule business_frame_session) auto

lemma invalidate_offer_business:
  assumes "invalidate_offer H now reason sid off d = Inr d'"
  shows "business_frame d d'"
proof (cases off)
  case None
  with assms show ?thesis by (simp add: invalidate_offer_def)
next
  case (Some x)
  show ?thesis
  proof (cases "of_status x \<in> {PROPOSED, ACCEPTED}")
    case False
    with assms Some show ?thesis by (auto simp: invalidate_offer_def)
  next
    case True
    have "business_frame d (drop_current sid (of_id x) (close_offer (of_id x) now reason d))"
      by (rule business_frame_trans [OF close_offer_business drop_current_business])
    also have "business_frame \<dots> d'"
      by (rule business_frame_effects [OF invalidate_offer_effect(3) [OF assms [unfolded Some] True]])
    finally show ?thesis .
  qed
qed

lemma new_offer_business:
  assumes "new_offer_in_transaction H n p pol t who now d = Inr (k, d')"
  shows "business_frame d d'"
  using assms by (cases rule: new_offer_tx_cases) (simp add: business_frame_def view_def)

lemma supersede_business: "business_frame d (supersede old k d)"
proof -
  have "business_frame d (fold (\<lambda>aid. mod_approval aid f) aids d)" for f aids d
    by (induction aids arbitrary: d) (auto intro: business_frame_trans business_frame_other)
  then have "business_frame d (fold (\<lambda>aid. mod_approval aid f) aids (mod_offer oid g d))" for f aids oid g
    using business_frame_trans [OF business_frame_other(1)] by blast
  then show ?thesis by (simp add: supersede_def split: option.split)
qed

lemma request_approval_business:
  assumes "request_graph_approval sid oid pol now d = Inr (aid, d')"
  shows "business_frame d d'"
proof -
  obtain ap nx where st: "start_approval aid (mod_session sid (\<lambda>n. n\<lparr>ns_current_offer_id := Some oid,
         ns_status := WAITING_APPROVAL\<rparr>) (d\<lparr>d_approvals := ap, d_next_approval := nx\<rparr>)) = Inr d'"
    using assms unfolding request_graph_approval_def Let_def
    by (elim result_elims) (simp only: flush_approvals_eq_Inr)
  have "business_frame d (d\<lparr>d_approvals := ap, d_next_approval := nx\<rparr>)"
    by (simp add: business_frame_def view_def)
  also have "business_frame \<dots> (mod_session sid (\<lambda>n. n\<lparr>ns_current_offer_id := Some oid,
         ns_status := WAITING_APPROVAL\<rparr>) (d\<lparr>d_approvals := ap, d_next_approval := nx\<rparr>))"
    by (rule business_frame_session) simp_all
  also have "business_frame \<dots> d'"
    using st unfolding start_approval_def Let_def event_in_transaction_def
    by (elim result_elims) (auto simp: business_frame_def view_def tadd_eq_Inr)
  finally show ?thesis .
qed

lemma settle_offer_business:
  assumes "settle_offer H n p pol inp au k now d = Inr (res, d')"
  shows "business_frame d d'"
proof -
  have cur: "business_frame e (set_current sid c e)" for sid c e
    unfolding set_current_def by (rule business_frame_session) auto
  have st: "business_frame e (set_offer_status j s e)" for j s e
    by (simp add: set_offer_status_def)
  from assms show ?thesis
    unfolding settle_offer_def Let_def
    apply (elim if_InrE result_elims option_InrE)
    subgoal by (auto intro: business_frame_trans [OF st cur])
    subgoal by (auto dest: request_approval_business)
    subgoal by (auto intro: st)
    subgoal by (auto intro: business_frame_trans [OF business_frame_trans [OF st new_offer_business] cur])
    done
qed

lemma place_offer_business:
  assumes "place_offer H n p pol inp t au cur now d = Inr (res, d')"
  shows "business_frame d d'"
proof -
  let ?rej = "au_prohibited au \<and> ti_counter_terms inp = None"
  obtain d1 k d2 where d1: "(if ?rej then Inr d else invalidate_offer H now ''REPLACED'' (ns_id n) cur d) = Inr d1"
    and new: "new_offer_in_transaction H n p pol t BUYER now d1 = Inr (k, d2)"
    and settle: "settle_offer H n p pol inp au k now
        (mod_session (ns_id n) (\<lambda>s. s\<lparr>ns_round_count := ns_round_count s + 1, ns_version := ns_version s + 1\<rparr>)
          (if ?rej then d2 else supersede cur k d2)) = Inr (res, d')"
    using assms unfolding place_offer_def Let_def by (elim result_elims) simp
  have "business_frame d d1" using d1 invalidate_offer_business by (cases ?rej) auto
  also have "business_frame d1 d2" by (rule new_offer_business [OF new])
  also have "business_frame d2 (if ?rej then d2 else supersede cur k d2)" using supersede_business by simp
  also have "business_frame \<dots> (mod_session (ns_id n) (\<lambda>s. s\<lparr>ns_round_count := ns_round_count s + 1,
      ns_version := ns_version s + 1\<rparr>) (if ?rej then d2 else supersede cur k d2))"
    by (rule business_frame_session) simp_all
  also have "business_frame \<dots> d'" by (rule settle_offer_business [OF settle])
  finally show ?thesis .
qed

text \<open>Every branch of a command calls the audit hook first and then only writes what it may.\<close>

lemma dispatch_business:
  assumes "dispatch H audit run n p pol inp basis now d = Inr (r, d')"
  shows "\<exists>d1. audit d = Inr d1 \<and> business_frame d1 d'"
proof -
  have resolve: "\<exists>d1. audit d = Inr d1 \<and> business_frame d1 d2"
    if "resolve_offer_in_transaction H audit n p pol inp now sem d = Inr (res, d2)" for sem res d2
    using that by (cases rule: resolve_cases) (auto dest: place_offer_business)
  have confirm: "\<exists>d1. audit d = Inr d1 \<and> business_frame d1 d2"
    if "confirm_in_transaction H audit n p pol inp run now d = Inr (res, d2)" for res d2
    using that
  proof (cases rule: confirm_cases)
    case (1 k off d1 source)
    have "business_frame d1 d2"
      unfolding 1(6) set_offer_status_def
      by (rule business_frame_trans [OF business_frame_session business_frame_other(1)]) simp_all
    with 1(5) show ?thesis by blast
  qed
  have close: "\<exists>d1. audit d = Inr d1 \<and> business_frame d1 d2"
    if "lifecycle_in_transaction H audit n inp now d = Inr (res, d2)" for res d2
    using that
  proof (cases rule: lifecycle_cases)
    case (1 d1 d3 closing)
    have "business_frame d1 d3" by (rule invalidate_offer_business [OF 1(3)])
    also have "business_frame d3 (if closing then close_drafts (ns_id n) d3 else d3)" by (simp add: close_drafts_def)
    also have "business_frame \<dots> d2" unfolding 1(4) by (rule business_frame_session) simp_all
    finally show ?thesis using 1(2) by blast
  qed
  have basis: "business_frame d1 d2" if "record_basis basis res d1 = Inr d2" for res d1 d2
    using that unfolding record_basis_def Let_def
    by (elim option_InrE result_elims) (auto simp: business_frame_def view_def split: if_splits)
  show ?thesis
    using assms unfolding dispatch_def
    by (cases "ti_kind inp")
      (auto simp: ebind_eq_Inr dest!: resolve confirm close basis intro: business_frame_trans)
qed


section \<open>The parts of a command\<close>

lemma append_event_Inr:
  "append_event action k evidence d = Inr d' \<longleftrightarrow>
     tget (d_causal d) (event_key action k) = None \<and>
     d' = d\<lparr>d_causal := d_causal d @ [(event_key action k, causal_row action k evidence)]\<rparr>"
  by (auto simp: append_event_def ebind_eq_Inr tadd_eq_Inr)

lemma committed_event_Inr:
  assumes "committed_event H action evidence result v d = Inr d'"
  shows "\<exists>ev. tget (d_causal d) (event_key action 3) = None \<and>
     d' = d\<lparr>d_causal := d_causal d @ [(event_key action 3, causal_row action 3 ev)]\<rparr>"
  using assms unfolding committed_event_def Let_def append_event_Inr by blast

lemma notification_Inr:
  assumes "notification_in_transaction run result now d = Inr d'"
  shows "tget (d_deliveries d) (reply_key (in_id run)) = None \<and>
     d' = d\<lparr>d_deliveries := d_deliveries d @ [(reply_key (in_id run), command_delivery run result now)]\<rparr>"
  using assms unfolding notification_in_transaction_def Let_def
  by (elim result_elims) (simp add: tadd_eq_Inr)

lemma outbox_Inr:
  assumes "outbox_in_transaction source d = Inr d'"
  shows "tget (d_outbox d) source = None \<and> d' = d\<lparr>d_outbox := d_outbox d @ [(source, delivery_event source)]\<rparr>"
  using assms unfolding outbox_in_transaction_def by (elim result_elims) (simp add: tadd_eq_Inr)

lemma store_receipt_cases:
  assumes step: "store_receipt H rid run expected evidence r0 now d = Inr (res, d')"
  obtains n ev where "get_session d (in_session_id run) = Some n"
    and "res = jset r0 ''business_version'' (JInt (ns_version n))"
    and "get_receipt d (action_key rid) = None"
    and "tget (d_causal d) (event_key (action_key rid) 3) = None"
    and "tget (d_deliveries d) (reply_key (in_id run)) = None" and "tget (d_outbox d) (reply_key (in_id run)) = None"
    and "d' = d\<lparr>d_receipts := d_receipts d @ [(action_key rid,
                 command_receipt H rid run expected res (ns_version n) now)],
           d_causal := d_causal d @ [(event_key (action_key rid) 3,
                 causal_row (action_key rid) 3 ev)],
           d_deliveries := d_deliveries d @ [(reply_key (in_id run), command_delivery run res now)],
           d_outbox := d_outbox d @ [(reply_key (in_id run), delivery_event (reply_key (in_id run)))]\<rparr>"
proof -
  let ?key = "action_key rid"
  obtain n rs d1 d2 where n: "get_session d (in_session_id run) = Some n"
    and res: "res = jset r0 ''business_version'' (JInt (ns_version n))"
    and rs: "tadd IntegrityExn ?key (command_receipt H rid run expected res (ns_version n) now) (d_receipts d) = Inr rs"
    and c: "committed_event H ?key evidence res (ns_version n) (d\<lparr>d_receipts := rs\<rparr>) = Inr d1"
    and nt: "notification_in_transaction run res now d1 = Inr d2"
    and ob: "outbox_in_transaction (reply_key (in_id run)) d2 = Inr d'"
    using step unfolding store_receipt_def Let_def by (elim result_elims) simp
  from committed_event_Inr [OF c] obtain ev where
    c': "tget (d_causal d) (event_key ?key 3) = None"
      "d1 = d\<lparr>d_receipts := rs, d_causal := d_causal d @ [(event_key ?key 3, causal_row ?key 3 ev)]\<rparr>"
    by auto
  note nt' = notification_Inr [OF nt] and ob' = outbox_Inr [OF ob]
  show thesis
    by (rule that [OF n res, of ev]) (use rs c' nt' ob' in \<open>simp_all add: tadd_eq_Inr\<close>)
qed

definition only_quotes :: "db \<Rightarrow> db \<Rightarrow> bool" where
  "only_quotes d d' \<longleftrightarrow> (\<exists>qs. d' = d\<lparr>d_quotes := qs\<rparr>)"

lemma only_quotes_refl [simp]: "only_quotes d d"
  unfolding only_quotes_def by (rule exI [of _ "d_quotes d"]) simp

lemma quote_draft_quotes:
  assumes "quote_draft qid run n p inp now d = Inr (x, d1)"
  shows "only_quotes d d1"
proof -
  have q: "only_quotes d e" if "quote_in_transaction qid pid c now d = Inr (y, e)" for pid c y e
    using that unfolding quote_in_transaction_def Let_def
    by (elim result_elims) (auto simp: only_quotes_def)
  show ?thesis
    using assms unfolding quote_draft_def
    by (elim if_InrE result_elims option_InrE) (auto dest: q)
qed

lemma audits_only_append [simp]: "audits_only (append_event action k evidence)"
  by (auto simp: audits_only_def append_event_Inr)

lemma execute_fresh_cases:
  assumes step: "execute_fresh H qid rid run n expected now d = Inr (res, d')"
  obtains p pol inp basis evidence d1 d2 d3 r where "ns_version n = expected" and "ns_status n \<notin> {AGREED, CLOSED}"
    and "get_product d (ns_product_id n) = Some p" and "get_policy d (p_id p) = Some pol"
    and "only_quotes d d1" and "append_event (action_key rid) 1 evidence d1 = Inr d2"
    and "dispatch H (append_event (action_key rid) 2 evidence) run n p pol inp basis now d2 = Inr (r, d3)"
    and "store_receipt H rid run expected evidence r now d3 = Inr (res, d')"
proof -
  let ?key = "action_key rid"
  obtain p inp0 basis inp d1 where v: "ns_version n = expected"
    and p: "get_product d (ns_product_id n) = Some p"
    and q: "quote_draft qid run n p inp0 now d = Inr ((basis, inp), d1)"
    and st: "ns_status n \<notin> {AGREED, CLOSED}"
    and rest: "ebind (some_or AttributeExn (get_policy d (p_id p))) (\<lambda>pol.
      let evidence = input_basis H d1 run n p pol inp (map_option cb_candidate basis)
                       (map_option (\<lambda>b. (cb_quote b, cb_evaluations b)) basis)
      in ebind (append_event ?key 1 evidence d1) (\<lambda>d2.
      ebind (dispatch H (append_event ?key 2 evidence) run n p pol inp basis now d2) (\<lambda>(r, d3).
      store_receipt H rid run expected evidence r now d3))) = Inr (res, d')"
    using step unfolding execute_fresh_def Let_def
    by (elim ebind_InrE raise_InrE some_or_InrE) (auto split: prod.splits if_splits)
  obtain pol evidence d2 r d3 where pol: "get_policy d (p_id p) = Some pol"
    and e1: "append_event ?key 1 evidence d1 = Inr d2"
    and di: "dispatch H (append_event ?key 2 evidence) run n p pol inp basis now d2 = Inr (r, d3)"
    and sr: "store_receipt H rid run expected evidence r now d3 = Inr (res, d')"
    using rest unfolding Let_def by (elim result_elims) simp
  show thesis by (rule that [OF v st p pol quote_draft_quotes [OF q] e1 di sr])
qed

section \<open>Commands keep the invariants\<close>

lemma confirm_inv:
  assumes "confirm_in_transaction H audit n p pol inp run now d = Inr (res, d')"
    and "audits_only audit" and "get_session d (ns_id n) = Some n" and "graph_inv d"
  shows "graph_inv d' \<and> approvals_later d d'
    \<and> (\<exists>m. get_session d' (ns_id n) = Some m \<and> ns_version m = ns_version n + 1)"
  using assms(1)
proof (cases rule: confirm_cases)
  case (1 k off d1 source)
  obtain es where d1: "d1 = d\<lparr>d_causal := es\<rparr>" using audits_onlyD [OF assms(2) 1(5)] by blast
  define f :: "session \<Rightarrow> session" where "f = (\<lambda>s. s\<lparr>ns_status := AGREED, ns_confirmed_offer_id := Some (of_id off),
                 ns_confirmed_at := Some now, ns_confirmation_request_id := Some (in_id run),
                 ns_confirmation_source := Some source, ns_version := ns_version s + 1\<rparr>)"
  have d': "d' = set_offer_status (of_id off) ACCEPTED (mod_session (ns_id n) f d1)"
    by (simp add: 1(6) f_def)
  have "offer_inv d1" by (rule offer_inv_other [of d]) (use assms(4) in \<open>simp_all add: d1 graph_inv_def\<close>)
  then have "offer_inv (mod_session (ns_id n) f d1)"
    by (rule offer_inv_mod_session) (simp_all add: f_def)
  then have "offer_inv d'" unfolding d' set_offer_status_def by (rule offer_inv_close_offer) auto
  moreover have "approvals_stored d'" using assms(4) by (simp add: d' d1 graph_inv_def approvals_stored_def set_offer_status_def)
  moreover have "approvals_later d d'" by (rule approvals_later_same) (simp add: d' d1)
  ultimately show ?thesis using assms(3) by (simp add: graph_inv_def d' d1 f_def)
qed

lemma graph_inv_approvals:
  assumes "graph_inv d" and "d_offers d' = d_offers d" and "d_sessions d' = d_sessions d"
    and "d_next_offer d' = d_next_offer d" and "d_next_session d' = d_next_session d"
    and "d_next_approval d' = d_next_approval d"
    and "d_approvals d' = d_approvals d \<or> (\<exists>k f. d_approvals d' = tmod k f (d_approvals d)
           \<and> (\<forall>a. ap_id (f a) = ap_id a))"
  shows "graph_inv d'"
proof -
  have "approvals_stored d'"
    using assms(1,6,7) by (auto simp: graph_inv_def approvals_stored_def split: if_splits)
  then show ?thesis using assms(1-5) offer_inv_other [of d d'] by (simp add: graph_inv_def)
qed

lemma record_basis_effect:
  assumes "record_basis basis r d = Inr d'" and "graph_inv d"
  shows "graph_inv d' \<and> approvals_later d d' \<and> d_sessions d' = d_sessions d \<and> d_offers d' = d_offers d"
proof (cases basis)
  case None
  with assms show ?thesis by (simp add: record_basis_def approvals_later_same)
next
  case (Some cb)
  define f :: "approval \<Rightarrow> approval" where
    "f = (\<lambda>a. a\<lparr>ap_expires_at := min (ap_expires_at a) (cq_expires_at (cb_quote cb))\<rparr>)"
  define base where "base oid = mod_draft (cb_draft_id cb) (\<lambda>r. r\<lparr>dr_status := DR_SUBMITTED\<rparr>)
             (if tget (d_bases d) oid = None
                then d\<lparr>d_bases := tput oid \<lparr>ob_offer_id = oid, ob_cost_quote_id = cq_id (cb_quote cb),
                         ob_candidate = cb_candidate cb, ob_evaluations = cb_evaluations cb\<rparr> (d_bases d)\<rparr>
                else d)" for oid
  obtain oid where step: "(case jint (jget r ''approval_id'') of
           None \<Rightarrow> Inr (base oid)
         | Some aid \<Rightarrow> if get_approval (base oid) aid = None then Inl AttributeExn
             else Inr (mod_approval aid f (base oid))) = Inr d'"
    using assms(1) unfolding record_basis_def Some option.case Let_def f_def base_def by (elim ebind_InrE)
  have base: "d_offers (base oid) = d_offers d" "d_sessions (base oid) = d_sessions d"
    "d_next_offer (base oid) = d_next_offer d" "d_next_session (base oid) = d_next_session d"
    "d_next_approval (base oid) = d_next_approval d" "d_approvals (base oid) = d_approvals d"
    by (simp_all add: base_def)
  have frame: "d_offers d' = d_offers d" "d_sessions d' = d_sessions d" "d_next_offer d' = d_next_offer d"
    "d_next_session d' = d_next_session d" "d_next_approval d' = d_next_approval d"
    "d_approvals d' = d_approvals d \<or> (\<exists>k. d_approvals d' = tmod k f (d_approvals d))"
    using step base by (auto split: option.splits if_splits)
  have "\<forall>a. ap_id (f a) = ap_id a" by (simp add: f_def)
  with frame(6) have "graph_inv d'" by (intro graph_inv_approvals [OF assms(2) frame(1-5)]) blast
  moreover have "approvals_later d d'" using frame(6)
  proof (elim disjE exE)
    fix k assume "d_approvals d' = tmod k f (d_approvals d)"
    then show ?thesis by (intro approvals_later_mod [of d k f]) (simp_all add: f_def graph_later_def)
  qed (rule approvals_later_same)
  ultimately show ?thesis using frame by simp
qed

lemma dispatch_effect:
  assumes "dispatch H audit run n p pol inp basis now d = Inr (r, d')"
    and "audits_only audit" and "get_session d (ns_id n) = Some n" and "graph_inv d"
  shows "graph_inv d' \<and> approvals_later d d'
    \<and> (\<exists>m. get_session d' (ns_id n) = Some m \<and> ns_version m \<in> {ns_version n, ns_version n + 1})"
proof -
  have offer: "graph_inv d2 \<and> approvals_later d d2
      \<and> (\<exists>m. get_session d2 (ns_id n) = Some m \<and> ns_version m \<in> {ns_version n, ns_version n + 1})"
    if "resolve_offer_in_transaction H audit n p pol inp now sem d = Inr (res, d1)"
      and "record_basis basis res d1 = Inr d2" for sem res d1 d2
  proof -
    note one = resolve_offer_effect [OF that(1) assms(2-4)]
    then have inv1: "graph_inv d1" by blast
    note two = record_basis_effect [OF that(2) inv1]
    have "\<exists>m. get_session d1 (ns_id n) = Some m \<and> ns_version m \<in> {ns_version n, ns_version n + 1}"
      using one assms(3) by auto
    with one two show ?thesis using approvals_later_trans by auto
  qed
  have close: "?thesis" if "lifecycle_in_transaction H audit n inp now d = Inr (r, d')"
    using lifecycle_effect [OF that assms(2-4)] by auto
  have confirm: "?thesis" if "confirm_in_transaction H audit n p pol inp run now d = Inr (r, d')"
    using confirm_inv [OF that assms(2-4)] by auto
  show ?thesis
    using assms(1) close confirm unfolding dispatch_def
    by (cases "ti_kind inp") (auto simp: ebind_eq_Inr dest: offer)
qed

lemma dispatch_object:
  assumes "dispatch H audit run n p pol inp basis now d = Inr (r, d')"
  shows "\<exists>kvs. r = JObj kvs"
proof -
  have settle: "\<exists>kvs. res = JObj kvs" if "settle_offer H n p pol inp au k now e = Inr (res, e')" for au k e res e'
    using that unfolding settle_offer_def Let_def result_json_def
    by (elim if_InrE result_elims option_InrE) auto
  have place: "\<exists>kvs. res = JObj kvs" if "place_offer H n p pol inp t au cur now e = Inr (res, e')" for t au cur e res e'
    using that unfolding place_offer_def Let_def by (elim result_elims) (auto dest: settle)
  have resolve: "\<exists>kvs. res = JObj kvs"
    if "resolve_offer_in_transaction H audit n p pol inp now sem d = Inr (res, e')" for sem res e'
    using that unfolding resolve_offer_in_transaction_def Let_def result_json_def
    by (elim if_InrE result_elims option_InrE) (auto dest: place)
  have confirm: "\<exists>kvs. res = JObj kvs"
    if "confirm_in_transaction H audit n p pol inp run now d = Inr (res, e')" for res e'
    using that by (cases rule: confirm_cases) simp
  have close: "\<exists>kvs. res = JObj kvs"
    if "lifecycle_in_transaction H audit n inp now d = Inr (res, e')" for res e'
    using that unfolding lifecycle_in_transaction_def Let_def by (elim result_elims) auto
  show ?thesis
    using assms unfolding dispatch_def
    by (cases "ti_kind inp") (auto simp: ebind_eq_Inr dest: resolve confirm close)
qed

section \<open>What a committed command leaves behind\<close>

definition command_recorded :: "(json \<Rightarrow> string) \<Rightarrow> string \<Rightarrow> input_row \<Rightarrow> int \<Rightarrow> json \<Rightarrow> int \<Rightarrow> time \<Rightarrow> db \<Rightarrow> bool" where
  \<comment> \<open>the receipt, the chain of causal events, the notification and the outbox event of the command\<close>
  "command_recorded H rid run expected res version now d \<longleftrightarrow>
     get_receipt d (action_key rid) = Some (command_receipt H rid run expected res version now)
     \<and> (\<forall>k \<in> {1, 2, 3}. \<exists>ev. tget (d_causal d) (event_key (action_key rid) k)
          = Some (causal_row (action_key rid) k ev))
     \<and> tget (d_deliveries d) (reply_key (in_id run)) = Some (command_delivery run res now)
     \<and> tget (d_outbox d) (reply_key (in_id run)) = Some (delivery_event (reply_key (in_id run)))
     \<and> jget res ''business_version'' = JInt version"

lemma event_key_inj [simp]: "event_key a j = event_key a k \<longleftrightarrow> j = k"
  by (simp add: event_key_def)

lemma execute_fresh_effect:
  assumes step: "execute_fresh H qid rid run n expected now d = Inr (res, d')"
    and n: "get_session d (in_session_id run) = Some n" and inv: "graph_inv d"
  shows "ns_version n = expected \<and> ns_status n \<notin> {AGREED, CLOSED} \<and> graph_inv d' \<and> approvals_later d d'
    \<and> view d' = view d \<and> d_inputs d' = d_inputs d \<and> d_tasks d' = d_tasks d
    \<and> (\<forall>k x. tget (d_executions d) k = Some x \<longrightarrow> tget (d_executions d') k = Some x)
    \<and> (\<exists>m. get_session d' (in_session_id run) = Some m \<and> ns_version m \<in> {expected, expected + 1}
         \<and> command_recorded H rid run expected res (ns_version m) now d')"
  using step
proof (cases rule: execute_fresh_cases)
  case (1 p pol inp basis evidence d1 d2 d3 r)
  let ?key = "action_key rid"
  have sid: "ns_id n = in_session_id run"
    using inv n by (simp add: graph_inv_def offer_inv_def sessions_stored_def)
  obtain qs where d1: "d1 = d\<lparr>d_quotes := qs\<rparr>" using 1(5) by (auto simp: only_quotes_def)
  have d2: "tget (d_causal d1) (event_key ?key 1) = None"
    "d2 = d1\<lparr>d_causal := d_causal d1 @ [(event_key ?key 1, causal_row ?key 1 evidence)]\<rparr>"
    using 1(6) by (simp_all add: append_event_Inr)
  have inv2: "graph_inv d2" by (rule graph_inv_approvals [OF inv]) (simp_all add: d1 d2)
  have n2: "get_session d2 (ns_id n) = Some n" using n sid by (simp add: d1 d2)
  obtain d2' where a2: "append_event ?key 2 evidence d2 = Inr d2'" and fr: "business_frame d2' d3"
    using dispatch_business [OF 1(7)] by blast
  have d2': "tget (d_causal d2) (event_key ?key 2) = None"
    "d2' = d2\<lparr>d_causal := d_causal d2 @ [(event_key ?key 2, causal_row ?key 2 evidence)]\<rparr>"
    using a2 by (simp_all add: append_event_Inr)
  from dispatch_effect [OF 1(7) audits_only_append n2 inv2] obtain m where
    inv3: "graph_inv d3" and later: "approvals_later d2 d3"
    and m: "get_session d3 (in_session_id run) = Some m" "ns_version m \<in> {ns_version n, ns_version n + 1}"
    by (auto simp: sid)
  have v: "view d3 = view d" "d_inputs d3 = d_inputs d" "d_tasks d3 = d_tasks d"
    "d_causal d3 = d_causal d1 @ [(event_key ?key 1, causal_row ?key 1 evidence)]
        @ [(event_key ?key 2, causal_row ?key 2 evidence)]"
    using fr view_same [of d2' d] by (simp_all add: business_frame_def d2' d2 d1)
  have ex: "\<forall>k x. tget (d_executions d) k = Some x \<longrightarrow> tget (d_executions d3) k = Some x"
    using fr by (simp add: business_frame_def d2' d2 d1)
  obtain kvs where r: "r = JObj kvs" using dispatch_object [OF 1(7)] by blast
  from 1(8) show ?thesis
  proof (cases rule: store_receipt_cases)
    case (1 m' ev)
    with m(1) have m': "m' = m" by simp
    have none: "tget (d_causal d1) (event_key ?key 1) = None" "tget (d_causal d1) (event_key ?key 2) = None"
      "tget (d_causal d1) (event_key ?key 3) = None"
      using d2(1) d2'(1) 1(4) by (simp_all add: d2(2) v(4) tget_append split: option.splits)
    have "d_causal d' = d_causal d1 @ [(event_key ?key 1, causal_row ?key 1 evidence),
        (event_key ?key 2, causal_row ?key 2 evidence), (event_key ?key 3, causal_row ?key 3 ev)]"
      by (simp add: 1(7) v(4))
    then have chain: "\<forall>k \<in> {1, 2, 3}. \<exists>ev. tget (d_causal d') (event_key ?key k) = Some (causal_row ?key k ev)"
      using none by (auto simp: tget_append)
    have "command_recorded H rid run expected res (ns_version m) now d'"
      unfolding command_recorded_def
      using 1(3,5,6) chain by (simp add: 1(7) 1(2) m' r del: jset.simps)
    moreover have "graph_inv d'" by (rule graph_inv_approvals [OF inv3]) (simp_all add: 1(7))
    moreover have "view d' = view d" using v(1) view_same [of d' d3] by (simp add: 1(7))
    moreover have "approvals_later d d'" using later by (simp add: approvals_later_def 1(7) d1 d2(2))
    ultimately show ?thesis
      using \<open>ns_version n = expected\<close> \<open>ns_status n \<notin> {AGREED, CLOSED}\<close> m v(2,3) ex by (simp add: 1(7))
  qed
qed

section \<open>Commands run once\<close>

lemma execute_cases:
  assumes step: "execute H qid rid owner expected now d = Inr (res, d')"
  obtains (replayed) run t n rc where "lock_owner rid owner now d = Inr (run, t)"
      and "get_session d (in_session_id run) = Some n" and "get_receipt d (action_key rid) = Some rc"
      and "rc_command_hash rc = command_hash H run expected" and "res = rc_result rc" and "d' = d"
  | (fresh) run t n where "lock_owner rid owner now d = Inr (run, t)"
      and "get_session d (in_session_id run) = Some n" and "get_receipt d (action_key rid) = None"
      and "execute_fresh H qid rid run n expected now d = Inr (res, d')"
proof -
  obtain run t n where l: "lock_owner rid owner now d = Inr (run, t)" "get_session d (in_session_id run) = Some n"
    and rest: "(case get_receipt d (action_key rid) of
       Some r \<Rightarrow> if rc_command_hash r \<noteq> command_hash H run expected
                 then Inl (Conflict ''another command under this key'')
                 else Inr (rc_result r, d)
     | None \<Rightarrow> execute_fresh H qid rid run n expected now d) = Inr (res, d')"
    using step unfolding execute_def by (elim ebind_InrE prod_InrE some_or_InrE) blast
  show thesis
  proof (cases "get_receipt d (action_key rid)")
    case None
    with rest show thesis by (intro fresh [OF l]) simp_all
  next
    case (Some rc)
    with rest show thesis by (intro replayed [OF l]) (auto split: if_splits)
  qed
qed

definition command_admitted :: "string \<Rightarrow> owner \<times> time \<times> string \<Rightarrow> db \<Rightarrow> bool" where
  \<comment> \<open>the caller owns the run and its session exists\<close>
  "command_admitted rid e d \<longleftrightarrow> (\<exists>run t n. lock_owner rid (fst e) (fst (snd e)) d = Inr (run, t)
     \<and> get_session d (in_session_id run) = Some n)"

definition attempt ::
    "(json \<Rightarrow> string) \<Rightarrow> string \<Rightarrow> int \<Rightarrow> owner \<times> time \<times> string \<Rightarrow> db \<Rightarrow> exn + json \<times> db" where
  \<comment> \<open>one attempt at the command: the owner, the clock and the identifier of a new quotation\<close>
  "attempt H rid expected e d = (case e of (owner, now, qid) \<Rightarrow> execute H qid rid owner expected now d)"

lemma fresh_receipt:
  assumes step: "execute_fresh H qid rid run n expected now d = Inr (res, d')"
  shows "d_inputs d' = d_inputs d
     \<and> (\<exists>rc. get_receipt d' (action_key rid) = Some rc \<and> rc_command_hash rc = command_hash H run expected \<and> rc_result rc = res)"
  using step
proof (cases rule: execute_fresh_cases)
  case (1 p pol inp basis evidence d1 d2 d3 r)
  obtain d2' where "append_event (action_key rid) 2 evidence d2 = Inr d2'" and fr: "business_frame d2' d3"
    using dispatch_business [OF 1(7)] by blast
  then have "d_inputs d3 = d_inputs d"
    using 1(5,6) by (auto simp: append_event_Inr business_frame_def only_quotes_def)
  from 1(8) show ?thesis
  proof (cases rule: store_receipt_cases)
    case (1 m ev)
    then show ?thesis using \<open>d_inputs d3 = d_inputs d\<close> by (simp add: command_receipt_def)
  qed
qed

interpretation command: idempotent_command "attempt H rid expected" "command_admitted rid"
proof
  fix e d r d'
  assume step: "attempt H rid expected e d = Inr (r, d')"
  obtain owner now qid where e: "e = (owner, now, qid)" by (cases e)
  have exe: "execute H qid rid owner expected now d = Inr (r, d')" using step by (simp add: attempt_def e)
  then show "command_admitted rid e d" by (cases rule: execute_cases) (auto simp: command_admitted_def e)
  fix e' assume adm: "command_admitted rid e' d'"
  obtain owner' now' qid' where e': "e' = (owner', now', qid')" by (cases e')
  obtain run rc where run: "get_input d' rid = Some run"
    and rc: "get_receipt d' (action_key rid) = Some rc" "rc_command_hash rc = command_hash H run expected" "rc_result rc = r"
    using exe
  proof (cases rule: execute_cases)
    case (replayed run t n rc)
    then show ?thesis using that [of run rc] by (simp add: lock_owner_Inr)
  next
    case (fresh run t n)
    with fresh_receipt [OF fresh(4)] that [of run] show ?thesis by (auto simp: lock_owner_Inr)
  qed
  obtain t n where "lock_owner rid owner' now' d' = Inr (run, t)" and "get_session d' (in_session_id run) = Some n"
    using adm run by (auto simp: command_admitted_def e' lock_owner_Inr)
  then show "attempt H rid expected e' d' = Inr (r, d')"
    using rc by (simp add: attempt_def e' execute_def)
qed

text \<open>
  Attempts that follow one another directly end in the state of the first: the consequence of the contract, which
  \<open>Command_Runs\<close> extends to runs of other transactions in between.
\<close>

lemma repeated_command:
  assumes "attempt H rid expected e d = Inr (res, d')"
  shows "snd (replays (attempt H rid expected) es d') = d'
    \<and> (\<forall>x \<in> set (fst (replays (attempt H rid expected) es d')). x = Inr res \<or> isl x)"
  by (rule command.replays_fixpoint [OF assms])

text \<open>
  C4: A command that is executed for the first time runs under the owner of the run, on a session that
  is still open and has exactly the version the plan was made for. It keeps the invariants of offers and approvals and
  erases no decision of the seller, it leaves the queue alone, advances the version by at most one, and leaves a receipt with the
  result, three causal events in order, a pending notification due in 45 seconds and its outbox event.
\<close>

theorem execute_sound:
  assumes "execute H qid rid owner expected now d = Inr (res, d')"
    and "get_receipt d (action_key rid) = None" and "graph_inv d"
  shows "\<exists>run t n m. lock_owner rid owner now d = Inr (run, t) \<and> get_session d (in_session_id run) = Some n
    \<and> ns_version n = expected \<and> ns_status n \<notin> {AGREED, CLOSED}
    \<and> graph_inv d' \<and> approvals_later d d' \<and> queue_step d d'
    \<and> get_session d' (in_session_id run) = Some m \<and> ns_version m \<in> {expected, expected + 1}
    \<and> command_recorded H rid run expected res (ns_version m) now d'"
  using assms(1)
proof (cases rule: execute_cases)
  case (fresh run t n)
  from execute_fresh_effect [OF fresh(4,2) assms(3)] fresh(1,2) show ?thesis
    using queue_step.elsewhere [of d' d] by blast
qed (use assms(2) in simp)

section \<open>Closing a negotiation, as a command\<close>

definition close_run :: input_row where
  "close_run = sample_run\<lparr>in_payload := Typed close_input\<rparr>"

definition close_task :: task where
  "close_task = queued_task\<lparr>t_status := T_RUNNING, t_lease_token := Some ''token'', t_ownership_epoch := 1,
     t_lease_expires_at := Some (seconds 60)\<rparr>"

definition close_start :: db where
  "close_start = sample_graph\<lparr>d_inputs := [(''input'', close_run)], d_tasks := [(1, close_task)]\<rparr>"

lemma close_start_inv: "graph_inv close_start"
  by (rule graph_inv_approvals [OF sample_graph_inv]) (simp_all add: close_start_def)

lemma close_owned: "lock_owner ''input'' (''token'', 1) 30 close_start = Inr (close_run, close_task)"
  by (simp add: lock_owner_Inr owns_True close_start_def close_run_def sample_run_def close_task_def queued_task_def
      new_graph_task_def seconds_def)

definition close_causal :: "json \<Rightarrow> int list \<Rightarrow> db" where
  "close_causal ev ks = close_start\<lparr>d_causal := map (\<lambda>k. (event_key (action_key ''input'') k,
     causal_row (action_key ''input'') k ev)) ks\<rparr>"

lemma close_rows:
  "get_session close_start (in_session_id close_run) = Some sample_graph_session"
  "get_receipt close_start (action_key ''input'') = None"
  "get_product close_start (ns_product_id sample_graph_session) = Some sample_product"
  "get_policy close_start (p_id sample_product) = Some sample_policy"
  "load_command close_start close_run = Inr close_input"
  "quote_draft qid close_run sample_graph_session sample_product close_input 30 close_start
     = Inr ((None, close_input), close_start)"
  "ns_version sample_graph_session = 1" "ns_status sample_graph_session = ACTIVE"
  "current_offer d sample_graph_session = None" "ns_id sample_graph_session = 1"
  by (simp_all add: close_start_def sample_graph_def sample_db_def empty_db_def close_run_def sample_run_def
      sample_graph_session_def sample_product_def load_command_def quote_draft_def close_input_def
      typed_input_ok_def current_offer_def)

lemma close_events:
  "append_event (action_key ''input'') 1 ev close_start = Inr (close_causal ev [1])"
  "append_event (action_key ''input'') 2 ev (close_causal ev [1]) = Inr (close_causal ev [1, 2])"
  "d_causal (close_causal ev ks) = map (\<lambda>k. (event_key (action_key ''input'') k,
     causal_row (action_key ''input'') k ev)) ks"
  by (simp_all add: append_event_Inr close_causal_def close_start_def sample_graph_def sample_db_def empty_db_def)

definition closed_session :: session where
  "closed_session = sample_graph_session\<lparr>ns_status := CLOSED, ns_version := 2\<rparr>"

lemma close_dispatched:
  "\<exists>r d'. dispatch sample_digest (append_event (action_key ''input'') 2 ev) close_run sample_graph_session
     sample_product sample_policy close_input None 30 (close_causal ev [1]) = Inr (r, d')
     \<and> d_causal d' = d_causal (close_causal ev [1, 2]) \<and> d_receipts d' = [] \<and> d_deliveries d' = []
     \<and> d_outbox d' = [] \<and> get_session d' 1 = Some closed_session
     \<and> d_inputs d' = d_inputs close_start \<and> d_tasks d' = d_tasks close_start"
proof -
  have "ti_kind close_input = CLOSE" by (simp add: close_input_def)
  then show ?thesis
    by (simp add: dispatch_def lifecycle_in_transaction_def close_rows Let_def close_events invalidate_offer_def
        close_drafts_def)
      (simp add: close_causal_def close_start_def sample_graph_def sample_db_def empty_db_def closed_session_def
        sample_graph_session_def)
qed

lemma close_runs:
  "\<exists>res d'. execute sample_digest ''quote'' ''input'' (''token'', 1) 1 30 close_start = Inr (res, d')
     \<and> get_session d' 1 = Some closed_session \<and> d_inputs d' = d_inputs close_start \<and> d_tasks d' = d_tasks close_start
     \<and> d_deliveries d' = [(reply_key ''input'', command_delivery close_run res 30)]"
proof -
  define ev where "ev = input_basis sample_digest close_start close_run sample_graph_session sample_product
     sample_policy close_input None None"
  obtain r d' where di: "dispatch sample_digest (append_event (action_key ''input'') 2 ev) close_run
      sample_graph_session sample_product sample_policy close_input None 30 (close_causal ev [1]) = Inr (r, d')"
    and d': "d_causal d' = d_causal (close_causal ev [1, 2])" "d_receipts d' = []" "d_deliveries d' = []"
      "d_outbox d' = []" "get_session d' 1 = Some closed_session"
      "d_inputs d' = d_inputs close_start" "d_tasks d' = d_tasks close_start"
    using close_dispatched by blast
  obtain m where m: "get_session d' (in_session_id close_run) = Some m"
    using d'(5) by (auto simp: close_run_def sample_run_def)
  have c: "\<exists>d''. committed_event H (action_key ''input'') ev res v (d'\<lparr>d_receipts := rs\<rparr>) = Inr d''
      \<and> d_deliveries d'' = [] \<and> d_outbox d'' = []" for H res v rs
    by (simp add: committed_event_def Let_def append_event_Inr d' close_events)
  define rs where "rs = d_receipts d' @ [(action_key ''input'', command_receipt sample_digest ''input'' close_run 1
      (jset r ''business_version'' (JInt (ns_version m))) (ns_version m) 30)]"
  obtain d2 where d2: "committed_event sample_digest (action_key ''input'') ev (jset r ''business_version'' (JInt (ns_version m)))
      (ns_version m) (d'\<lparr>d_receipts := rs\<rparr>) = Inr d2" "d_deliveries d2 = []" "d_outbox d2 = []"
    using c by blast
  have "tadd IntegrityExn (action_key ''input'') (command_receipt sample_digest ''input'' close_run 1
      (jset r ''business_version'' (JInt (ns_version m))) (ns_version m) 30) (d_receipts d') = Inr rs"
    by (simp add: tadd_eq_Inr d'(2) rs_def)
  then have "\<exists>res d''. store_receipt sample_digest ''input'' close_run 1 ev r 30 d' = Inr (res, d'')"
    by (simp add: store_receipt_def Let_def m d2 notification_in_transaction_def outbox_in_transaction_def)
      (simp add: d' d2 trows_def tadd_def)
  then obtain res d'' where sr: "store_receipt sample_digest ''input'' close_run 1 ev r 30 d' = Inr (res, d'')" by blast
  then have "get_session d'' 1 = Some closed_session \<and> d_inputs d'' = d_inputs close_start \<and> d_tasks d'' = d_tasks close_start
     \<and> d_deliveries d'' = [(reply_key ''input'', command_delivery close_run res 30)]"
    by (cases rule: store_receipt_cases) (simp add: d', simp add: close_run_def sample_run_def)
  moreover from sr have "execute sample_digest ''quote'' ''input'' (''token'', 1) 1 30 close_start = Inr (res, d'')"
    by (simp add: execute_def close_owned close_rows execute_fresh_def ev_def [symmetric] close_events di)
  ultimately show ?thesis by blast
qed

theorem execute_sound_witness:
  "\<exists>(d' :: db) m. get_session d' 1 = Some m \<and> ns_version m \<in> {1, 2} \<and> queue_step close_start d'"
proof -
  obtain res d' where "execute sample_digest ''quote'' ''input'' (''token'', 1) 1 30 close_start = Inr (res, d')"
    using close_runs by blast
  from execute_sound [OF this close_rows(2) close_start_inv] obtain run t m where
    "lock_owner ''input'' (''token'', 1) 30 close_start = Inr (run, t)" "queue_step close_start d'"
    "get_session d' (in_session_id run) = Some m" "ns_version m \<in> {1, 2}"
    by auto
  then have "get_session d' 1 = Some m \<and> ns_version m \<in> {1, 2} \<and> queue_step close_start d'"
    by (auto simp: close_owned) (auto simp: close_run_def sample_run_def)
  then show ?thesis by blast
qed

end
