(* ===== verification/Products.thy ===== *)
theory Products
  imports Schema Interfaces
begin

text \<open>
  \<open>backend/app/services/product_service.py\<close>: the catalogue. A seller creates, edits and deletes the own
  products and their private policies; buyers read the public part of available products.

  The check constraints of \<open>db/models/product.py\<close> and \<open>policy.py\<close> are \<open>product_checks\<close> and
  \<open>policy_checks\<close>, enforced at each flush; prices are whole cents, as \<open>Numeric(12, 2)\<close> stores them.
\<close>

section \<open>Views\<close>

record product_info =
  pi_id :: int
  pi_title :: string
  pi_description :: string
  pi_listed_price :: cents
  pi_status :: product_status

record public_info = product_info +
  pb_seller_id :: string
  pb_display_name :: string

record policy_info =
  pl_minimum_net_price :: cents
  pl_auto_accept_threshold :: cents
  pl_style :: negotiation_style
  pl_max_rounds :: int
  pl_version :: int

record seller_info = product_info +
  si_policy :: policy_info

record create_data =
  cr_title :: string
  cr_description :: string
  cr_listed_price :: cents
  cr_status :: product_status
  cr_minimum_net_price :: cents
  cr_auto_accept_threshold :: cents
  cr_style :: negotiation_style
  cr_max_rounds :: int

record update_data =
  up_title :: string
  up_description :: string
  up_listed_price :: cents
  up_status :: product_status

record policy_data =
  pd_minimum_net_price :: cents
  pd_auto_accept_threshold :: cents
  pd_style :: negotiation_style
  pd_max_rounds :: int

definition product_checks :: "product \<Rightarrow> bool" where
  "product_checks p \<longleftrightarrow> 0 \<le> p_listed_price p"

definition policy_checks :: "policy \<Rightarrow> bool" where
  "policy_checks s \<longleftrightarrow> 0 \<le> sp_minimum_net_price s \<and> sp_minimum_net_price s \<le> sp_auto_accept_threshold s
     \<and> 0 < sp_max_rounds s \<and> 0 < sp_version s"

definition public_snapshot :: "product \<Rightarrow> product_info" where
  "public_snapshot p = \<lparr>pi_id = p_id p, pi_title = p_title p, pi_description = p_description p,
     pi_listed_price = p_listed_price p, pi_status = p_status p\<rparr>"

definition catalog_snapshot :: "db \<Rightarrow> product \<Rightarrow> exn + public_info" where
  "catalog_snapshot d p =
     (let i = public_snapshot p in
      ebind (some_or AttributeExn (get_user d (p_seller_id p))) (\<lambda>u.
      Inr \<lparr>pi_id = pi_id i, pi_title = pi_title i, pi_description = pi_description i,
           pi_listed_price = pi_listed_price i, pi_status = pi_status i,
           pb_seller_id = u_id u, pb_display_name = u_display_name u\<rparr>))"

definition seller_snapshot :: "db \<Rightarrow> product \<Rightarrow> exn + seller_info" where
  "seller_snapshot d p =
     ebind (some_or (ServiceExn PricingPolicyNotFound) (get_policy d (p_id p))) (\<lambda>s.
     let i = public_snapshot p in
     Inr \<lparr>pi_id = pi_id i, pi_title = pi_title i, pi_description = pi_description i,
          pi_listed_price = pi_listed_price i, pi_status = pi_status i,
          si_policy = \<lparr>pl_minimum_net_price = sp_minimum_net_price s,
            pl_auto_accept_threshold = sp_auto_accept_threshold s, pl_style = sp_style s,
            pl_max_rounds = sp_max_rounds s, pl_version = sp_version s\<rparr>\<rparr>)"

section \<open>Reading\<close>

fun emap :: "('a \<Rightarrow> exn + 'b) \<Rightarrow> 'a list \<Rightarrow> exn + 'b list" where
  "emap f [] = Inr []"
| "emap f (x # xs) = ebind (f x) (\<lambda>y. ebind (emap f xs) (\<lambda>ys. Inr (y # ys)))"

definition list_public :: "string option \<Rightarrow> nat \<Rightarrow> nat \<Rightarrow> db \<Rightarrow> exn + public_info list" where
  "list_public seller offset limit d =
     emap (catalog_snapshot d) (take limit (drop offset (sort_key p_id
       (filter (\<lambda>p. p_status p = AVAILABLE \<and> (seller = None \<or> seller = Some (p_seller_id p)))
         (trows (d_products d))))))"

definition get_public :: "int \<Rightarrow> db \<Rightarrow> exn + public_info" where
  "get_public pid d =
     (case get_product d pid of
        None \<Rightarrow> Inl (ServiceExn ProductNotFound)
      | Some p \<Rightarrow> if p_status p \<noteq> AVAILABLE then Inl (ServiceExn ProductNotFound) else catalog_snapshot d p)"

definition get_for_negotiation :: "int \<Rightarrow> string \<Rightarrow> db \<Rightarrow> exn + product_info" where
  "get_for_negotiation sid buyer d =
     (case get_session d sid of
        None \<Rightarrow> Inl (ServiceExn NegotiationNotFound)
      | Some n \<Rightarrow>
          if ns_buyer_id n \<noteq> buyer then Inl (ServiceExn NegotiationNotFound)
          else ebind (some_or (ServiceExn NegotiationNotFound) (get_product d (ns_product_id n))) (\<lambda>p.
               Inr (public_snapshot p)))"

definition owned_row :: "db \<Rightarrow> int \<Rightarrow> string \<Rightarrow> exn + product" where
  "owned_row d pid seller =
     (case get_product d pid of
        None \<Rightarrow> Inl (ServiceExn ProductNotFound)
      | Some p \<Rightarrow> if p_seller_id p \<noteq> seller then Inl (ServiceExn ProductNotFound) else Inr p)"

definition list_owned :: "string \<Rightarrow> db \<Rightarrow> exn + seller_info list" where
  "list_owned seller d =
     emap (seller_snapshot d) (sort_key p_id (filter (\<lambda>p. p_seller_id p = seller) (trows (d_products d))))"

definition get_owned_detail :: "int \<Rightarrow> string \<Rightarrow> db \<Rightarrow> exn + seller_info" where
  "get_owned_detail pid seller d = ebind (owned_row d pid seller) (seller_snapshot d)"

definition get_owned_product :: "int \<Rightarrow> string \<Rightarrow> db \<Rightarrow> exn + product_info" where
  "get_owned_product pid seller d =
     ebind (get_owned_detail pid seller d) (\<lambda>i.
     Inr \<lparr>pi_id = pi_id i, pi_title = pi_title i, pi_description = pi_description i,
          pi_listed_price = pi_listed_price i, pi_status = pi_status i\<rparr>)"

section \<open>Writing\<close>

definition flush_product :: "int \<Rightarrow> db \<Rightarrow> exn + db" where
  "flush_product pid d =
     (if (case get_product d pid of None \<Rightarrow> True | Some p \<Rightarrow> product_checks p)
         \<and> (case get_policy d pid of None \<Rightarrow> True | Some s \<Rightarrow> policy_checks s)
      then Inr d else Inl IntegrityExn)"

definition create_for_seller :: "string \<Rightarrow> create_data \<Rightarrow> db \<Rightarrow> exn + seller_info \<times> db" where
  "create_for_seller seller c d =
     (let pid = d_next_product d;
          p = \<lparr>p_id = pid, p_seller_id = seller, p_title = cr_title c, p_product_version = 1,
               p_description = cr_description c, p_listed_price = cr_listed_price c, p_status = cr_status c\<rparr>;
          s = \<lparr>sp_product_id = pid, sp_minimum_net_price = cr_minimum_net_price c,
               sp_auto_accept_threshold = cr_auto_accept_threshold c, sp_style = cr_style c,
               sp_max_rounds = cr_max_rounds c, sp_version = 1\<rparr>
      in if get_user d seller = None then Inl IntegrityExn
      else
      ebind (flush_product pid (d\<lparr>d_products := tput pid p (d_products d), d_policies := tput pid s (d_policies d),
                                  d_next_product := pid + 1\<rparr>)) (\<lambda>d1.
      ebind (seller_snapshot d1 p) (\<lambda>i. Inr (i, d1))))"

definition update_owned_product :: "int \<Rightarrow> string \<Rightarrow> update_data \<Rightarrow> db \<Rightarrow> exn + seller_info \<times> db" where
  "update_owned_product pid seller u d =
     ebind (owned_row d pid seller) (\<lambda>p.
     let p' = p\<lparr>p_title := up_title u, p_description := up_description u,
                p_listed_price := up_listed_price u, p_status := up_status u\<rparr> in
     ebind (flush_product pid (d\<lparr>d_products := tput pid p' (d_products d)\<rparr>)) (\<lambda>d1.
     ebind (seller_snapshot d1 p') (\<lambda>i. Inr (i, d1))))"

definition tdrop :: "('v \<Rightarrow> bool) \<Rightarrow> ('k, 'v) table \<Rightarrow> ('k, 'v) table" where
  \<comment> \<open>\<open>delete(model).where(P)\<close>\<close>
  "tdrop P t = filter (\<lambda>kv. \<not> P (snd kv)) t"

definition referenced :: "db \<Rightarrow> int \<Rightarrow> bool" where
  \<comment> \<open>rows of other tables whose foreign key keeps the product\<close>
  "referenced d pid \<longleftrightarrow>
     list_ex (\<lambda>q. cq_product_id q = pid) (trows (d_quotes d))
     \<or> list_ex (\<lambda>v. vi_product_id v = pid) (trows (d_verifications d))"

definition delete_owned_product :: "int \<Rightarrow> string \<Rightarrow> db \<Rightarrow> exn + unit \<times> db" where
  "delete_owned_product pid seller d =
     ebind (owned_row d pid seller) (\<lambda>p.
     if p_status p = AVAILABLE then Inl (ServiceExn ProductDeletionConflict)
     else if list_ex (\<lambda>n. ns_product_id n = p_id p) (trows (d_sessions d))
     then Inl (ServiceExn ProductDeletionConflict)
     else if referenced d (p_id p) then Inl IntegrityExn
     else Inr ((), d\<lparr>d_facts := tdrop (\<lambda>f. pf_product_id f = p_id p) (d_facts d),
                     d_rules := tdrop (\<lambda>r. sr_product_id r = p_id p) (d_rules d),
                     d_policies := tdrop (\<lambda>s. sp_product_id s = p_id p) (d_policies d),
                     d_products := tdrop (\<lambda>q. p_id q = p_id p) (d_products d)\<rparr>))"

definition update_owned_policy :: "int \<Rightarrow> string \<Rightarrow> policy_data \<Rightarrow> int \<Rightarrow> db \<Rightarrow> exn + seller_info \<times> db" where
  "update_owned_policy pid seller c expected d =
     ebind (owned_row d pid seller) (\<lambda>p.
     case get_policy d pid of
       None \<Rightarrow> Inl (ServiceExn PricingPolicyNotFound)
     | Some s \<Rightarrow>
         if sp_version s \<noteq> expected then Inl (ServiceExn PolicyVersionConflict)
         else
         let s' = s\<lparr>sp_minimum_net_price := pd_minimum_net_price c,
                    sp_auto_accept_threshold := pd_auto_accept_threshold c, sp_style := pd_style c,
                    sp_max_rounds := pd_max_rounds c, sp_version := sp_version s + 1\<rparr> in
         ebind (flush_product pid (d\<lparr>d_policies := tput pid s' (d_policies d)\<rparr>)) (\<lambda>d1.
         ebind (seller_snapshot d1 p) (\<lambda>i. Inr (i, d1))))"

end
