(* ===== verification/Maintenance.thy ===== *)
theory Maintenance
  imports Products Command
begin

text \<open>
  \<open>backend/app/semantic/maintenance.py\<close>: the seller's evidence. A confirmed fact or shipping rule takes
  the next version of the product; the drafts that waited for it are then assessed again, one
  transaction each, and the buyer of a draft that became ready is told once per version.

  \<open>AgentMessageService.project\<close>, which copies the message into the transcript of the language model,
  is left out; \<open>cid\<close> and \<open>fid\<close> stand for \<open>uuid4().hex\<close>.
\<close>

record rule_data =
  rl_rule_id :: "string option"
  rl_region :: string
  rl_shipping_cost :: cents
  rl_discount :: cents
  rl_active :: bool
  rl_expires_at :: time
  rl_expected_version :: int

definition owned_product :: "db \<Rightarrow> int \<Rightarrow> string \<Rightarrow> int option \<Rightarrow> exn + product" where
  "owned_product d pid seller expected =
     (case get_product d pid of
        None \<Rightarrow> Inl (Conflict ''no such product'')
      | Some p \<Rightarrow>
          if p_seller_id p \<noteq> seller then Inl (Conflict ''no such product'')
          else if expected \<noteq> None \<and> expected \<noteq> Some (p_product_version p)
          then Inl (Conflict ''product was updated'')
          else Inr p)"

definition advance_product :: "int \<Rightarrow> db \<Rightarrow> db" where
  "advance_product pid d =
     d\<lparr>d_products := tmod pid (\<lambda>p. p\<lparr>p_product_version := p_product_version p + 1\<rparr>) (d_products d)\<rparr>"

definition set_fact_transaction ::
    "string \<Rightarrow> int \<Rightarrow> string \<Rightarrow> string \<Rightarrow> json \<Rightarrow> int option \<Rightarrow> db \<Rightarrow> exn + unit \<times> db" where
  "set_fact_transaction fid pid seller a normalized expected d =
     ebind (owned_product d pid seller expected) (\<lambda>p.
     if list_ex (\<lambda>f. pf_product_id f = pid \<and> pf_attribute f = a \<and> pf_version f = p_product_version p + 1)
          (trows (d_facts d)) then Inl IntegrityExn
     else
     ebind (tadd IntegrityExn fid \<lparr>pf_id = fid, pf_product_id = pid, pf_attribute = a, pf_value = normalized,
                                  pf_version = p_product_version p + 1\<rparr> (d_facts d)) (\<lambda>fs.
     Inr ((), advance_product pid (d\<lparr>d_facts := fs\<rparr>))))"

definition set_rule_transaction :: "string \<Rightarrow> int \<Rightarrow> string \<Rightarrow> rule_data \<Rightarrow> time \<Rightarrow> db \<Rightarrow> exn + unit \<times> db" where
  "set_rule_transaction rid pid seller c now d =
     ebind (owned_product d pid seller (Some (rl_expected_version c))) (\<lambda>p.
     if rl_expires_at c \<le> now \<and> rl_active c then Inl (Conflict ''an active rule expires in the future'')
     else
     let given = (case rl_rule_id c of None \<Rightarrow> None | Some k \<Rightarrow> if k = [] then None else Some k);
         rule = (case given of None \<Rightarrow> None | Some k \<Rightarrow> tget (d_rules d) k)
     in if given \<noteq> None \<and> (case rule of None \<Rightarrow> True | Some r \<Rightarrow> sr_product_id r \<noteq> pid)
     then Inl (Conflict ''no such rule'')
     else
     let key = (case rule of None \<Rightarrow> rid | Some r \<Rightarrow> sr_id r) in
     if rule = None \<and> tget (d_rules d) key \<noteq> None then Inl IntegrityExn
     else
     Inr ((), advance_product pid (d\<lparr>d_rules := tput key
       \<lparr>sr_id = key, sr_product_id = pid, sr_region = rl_region c,
        sr_delivery = (case rule of None \<Rightarrow> ''shipping'' | Some r \<Rightarrow> sr_delivery r),
        sr_shipping_cost = rl_shipping_cost c, sr_discount = rl_discount c,
        sr_version = p_product_version p + 1, sr_active = rl_active c, sr_expires_at = rl_expires_at c\<rparr>
       (d_rules d)\<rparr>)))"

section \<open>Drafts that waited\<close>

definition ready_source :: "draft \<Rightarrow> product \<Rightarrow> string" where
  "ready_source dr p = ''draft-ready:'' @ dr_id dr @ '':'' @ show_int (p_product_version p)"

definition tell_buyer :: "string \<Rightarrow> draft \<Rightarrow> session \<Rightarrow> product \<Rightarrow> time \<Rightarrow> db \<Rightarrow> exn + db" where
  \<comment> \<open>a public message and the display context of the draft\<close>
  "tell_buyer cid dr n p now d =
     (let source = ready_source dr p; mid = d_next_message d in
      if list_ex (\<lambda>m. ms_source_id m = Some source \<or> ms_session_id m = ns_id n \<and> ms_request_id m = source)
           (trows (d_messages d)) then Inl IntegrityExn
      else
      ebind (tadd IntegrityExn mid
        \<lparr>ms_id = mid, ms_source_id = Some source, ms_public_seq = Some (ns_next_public_seq n),
         ms_session_id = ns_id n, ms_role = SYSTEM_MESSAGE, ms_content = ''draft ready'', ms_request_id = source,
         ms_request_fingerprint = None, ms_agent_outcome = None, ms_formal_offer_id = None\<rparr> (d_messages d)) (\<lambda>ms.
      ebind (tadd IntegrityExn cid
        \<lparr>pc_id = cid, pc_session_id = ns_id n, pc_buyer_id = ns_buyer_id n, pc_message_id = mid,
         pc_public_seq = ns_next_public_seq n, pc_offer_id = None,
         pc_draft_refs = Some [(dr_id dr, dr_version dr)], pc_refresh_key = None, pc_terms_hash = ''drafts-v1'',
         pc_business_version = ns_version n, pc_expires_at = min (dr_expires_at dr) (now + minutes 30)\<rparr>
        (d_contexts d)) (\<lambda>cs.
      Inr (mod_session (ns_id n) (\<lambda>s. s\<lparr>ns_next_public_seq := ns_next_public_seq s + 1\<rparr>)
        (d\<lparr>d_messages := ms, d_next_message := mid + 1, d_contexts := cs\<rparr>)))))"

abbreviation mod_item :: "string \<Rightarrow> (verification_item \<Rightarrow> verification_item) \<Rightarrow> db \<Rightarrow> db" where
  "mod_item k f \<equiv> d_verifications_update (tmod k f)"

definition recheck_item :: "int \<Rightarrow> string \<Rightarrow> string \<Rightarrow> string \<Rightarrow> time \<Rightarrow> db \<Rightarrow> exn + unit \<times> db" where
  "recheck_item pid seller cid key now d =
     ebind (some_or AttributeExn (tget (d_verifications d) key)) (\<lambda>item.
     ebind (some_or AttributeExn (get_draft d (vi_draft_id item))) (\<lambda>dr.
     ebind (some_or AttributeExn (get_session d (dr_session_id dr))) (\<lambda>n.
     ebind (owned_product d pid seller None) (\<lambda>p.
     if \<not> usable_draft (Some dr) n now (Some (dr_version dr)) then
       Inr ((), mod_item key (\<lambda>v. v\<lparr>vi_status := ''STALE''\<rparr>) d)
     else if \<not> candidate_ok (dr_candidate dr) then Inl (ValueExn ''invalid candidate'')
     else
     ebind (assess d pid (dr_candidate dr) now) (\<lambda>(missing, _, _, _).
     let d1 = mod_item key (\<lambda>v. v\<lparr>vi_reasons := missing,
                  vi_status := (if missing = [] then ''READY'' else ''OPEN'')\<rparr>)
              (mod_draft (dr_id dr) (\<lambda>r. r\<lparr>dr_missing := missing,
                  dr_status := (if missing = [] then DR_READY else DR_PENDING)\<rparr>) d)
     in if missing \<noteq> [] \<or> vi_notified_version item = Some (p_product_version p) then Inr ((), d1)
     else
     ebind (tell_buyer cid dr n p now d1) (\<lambda>d2.
     Inr ((), mod_item key (\<lambda>v. v\<lparr>vi_notified_version := Some (p_product_version p)\<rparr>) d2)))))))"

fun recheck_each :: "int \<Rightarrow> string \<Rightarrow> (string \<times> time \<times> string) list \<Rightarrow> db \<Rightarrow> (exn + unit) \<times> db" where
  \<comment> \<open>a transaction per item; the first exception ends the loop\<close>
  "recheck_each pid seller [] d = (Inr (), d)"
| "recheck_each pid seller ((cid, now, key) # rest) d =
     (case commit (recheck_item pid seller cid key now d) d of
        (Inl e, d1) \<Rightarrow> (Inl e, d1)
      | (Inr u, d1) \<Rightarrow> recheck_each pid seller rest d1)"

definition waiting_items :: "int \<Rightarrow> db \<Rightarrow> string list" where
  "waiting_items pid d =
     map vi_id (filter (\<lambda>v. vi_product_id v = pid \<and> vi_status v \<in> {''OPEN'', ''READY''}) (trows (d_verifications d)))"

definition recheck :: "int \<Rightarrow> string \<Rightarrow> (string \<Rightarrow> string \<times> time) \<Rightarrow> db \<Rightarrow> (exn + unit) \<times> db" where
  \<comment> \<open>\<open>fresh\<close>: the context identifier and the clock reading of each item\<close>
  "recheck pid seller fresh d =
     (case owned_product d pid seller None of
        Inl e \<Rightarrow> (Inl e, d)
      | Inr p \<Rightarrow> recheck_each pid seller
          (map (\<lambda>k. (fst (fresh k), snd (fresh k), k)) (waiting_items pid d)) d)"

section \<open>The seller's operations\<close>

record evidence_view =
  ev_product_version :: int
  ev_facts :: "fact_row list"
  ev_rules :: "shipping_rule list"
  ev_items :: "verification_item list"

definition current_facts :: "db \<Rightarrow> int \<Rightarrow> fact_row list" where
  \<comment> \<open>the values of the dictionary \<open>facts_for\<close>\<close>
  "current_facts d pid =
     List.map_filter (facts_for d pid) (remdups (map pf_attribute (filter (\<lambda>f. pf_product_id f = pid)
       (sort_key pf_version (trows (d_facts d))))))"

definition inspect :: "int \<Rightarrow> string \<Rightarrow> db \<Rightarrow> exn + evidence_view" where
  "inspect pid seller d =
     ebind (owned_product d pid seller None) (\<lambda>p.
     Inr \<lparr>ev_product_version = p_product_version p, ev_facts = current_facts d pid,
          ev_rules = filter (\<lambda>r. sr_product_id r = pid) (trows (d_rules d)),
          ev_items = filter (\<lambda>v. vi_product_id v = pid) (trows (d_verifications d))\<rparr>)"

definition rechecked :: "int \<Rightarrow> string \<Rightarrow> (string \<Rightarrow> string \<times> time) \<Rightarrow> (exn + unit) \<times> db \<Rightarrow> (exn + evidence_view) \<times> db" where
  "rechecked pid seller fresh step =
     (case step of
        (Inl e, d1) \<Rightarrow> (Inl e, d1)
      | (Inr u, d1) \<Rightarrow>
          (case recheck pid seller fresh d1 of
             (Inl e, d2) \<Rightarrow> (Inl e, d2)
           | (Inr u, d2) \<Rightarrow> (inspect pid seller d2, d2)))"

definition set_fact ::
    "string \<Rightarrow> (string \<Rightarrow> string \<times> time) \<Rightarrow> int \<Rightarrow> string \<Rightarrow> string \<Rightarrow> json \<Rightarrow> int option \<Rightarrow> db \<Rightarrow>
     (exn + evidence_view) \<times> db" where
  "set_fact fid fresh pid seller a v expected d =
     (case normalize_fact a v of
        Inl e \<Rightarrow> (Inl e, d)
      | Inr normalized \<Rightarrow>
          rechecked pid seller fresh (commit (set_fact_transaction fid pid seller a normalized expected d) d))"

definition set_rule ::
    "string \<Rightarrow> (string \<Rightarrow> string \<times> time) \<Rightarrow> int \<Rightarrow> string \<Rightarrow> rule_data \<Rightarrow> time \<Rightarrow> db \<Rightarrow> (exn + evidence_view) \<times> db" where
  "set_rule rid fresh pid seller c now d =
     rechecked pid seller fresh (commit (set_rule_transaction rid pid seller c now d) d)"

end
