(* ===== verification/Catalogue_Spec.thy ===== *)
theory Catalogue_Spec
  imports Maintenance "HOL-Library.Multiset"
begin

text \<open>
  What the catalogue guarantees: every product keeps a policy that satisfies its constraints and every
  negotiation its product; a policy update names the version it was made for; buyers learn nothing private;
  new evidence outdates the quotations that rest on the old one.
\<close>

section \<open>The invariant\<close>

definition product_stored :: "db \<Rightarrow> int \<Rightarrow> product \<Rightarrow> bool" where
  "product_stored d k p \<longleftrightarrow> p_id p = k \<and> k < d_next_product d \<and> product_checks p
     \<and> get_user d (p_seller_id p) \<noteq> None
     \<and> (\<exists>s. get_policy d k = Some s \<and> sp_product_id s = k \<and> policy_checks s)"

definition catalog_ok :: "db \<Rightarrow> bool" where
  "catalog_ok d \<longleftrightarrow> keys_ok (d_products d) \<and> keys_ok (d_policies d) \<and> keys_ok (d_sessions d)
     \<and> (\<forall>k p. get_product d k = Some p \<longrightarrow> product_stored d k p)
     \<and> (\<forall>k s. get_policy d k = Some s \<longrightarrow> sp_product_id s = k \<and> get_product d k \<noteq> None)
     \<and> (\<forall>k n. get_session d k = Some n \<longrightarrow> get_product d (ns_product_id n) \<noteq> None)"

lemma tget_tdrop:
  assumes "\<And>v. tget t k = Some v \<Longrightarrow> P v \<longleftrightarrow> gone k" and "keys_ok t"
  shows "tget (tdrop P t) k = (if gone k then None else tget t k)"
proof -
  have "tget (tdrop P t) k = (case tget t k of None \<Rightarrow> None | Some v \<Rightarrow> if P v then None else Some v)"
    using assms(2)
    by (induction t) (auto simp: tdrop_def keys_ok_def tget_def map_of_eq_None_iff image_iff split: option.splits)
  with assms(1) show ?thesis by (auto split: option.splits)
qed

lemma keys_ok_tdrop [simp]: "keys_ok t \<Longrightarrow> keys_ok (tdrop P t)"
  unfolding keys_ok_def tdrop_def by (rule distinct_map_filter)

lemma owned_row_Inr [result_simps]: "owned_row d pid seller = Inr p \<longleftrightarrow> get_product d pid = Some p \<and> p_seller_id p = seller"
  by (auto simp: owned_row_def split: option.splits)

lemma owned_product_Inr [result_simps]:
  "owned_product d pid seller expected = Inr p \<longleftrightarrow> get_product d pid = Some p \<and> p_seller_id p = seller
     \<and> (expected = None \<or> expected = Some (p_product_version p))"
  by (auto simp: owned_product_def split: option.splits)

lemma flush_product_Inr [result_simps]:
  "flush_product pid d = Inr d' \<longleftrightarrow> d' = d \<and> (\<forall>p. get_product d pid = Some p \<longrightarrow> product_checks p)
     \<and> (\<forall>s. get_policy d pid = Some s \<longrightarrow> policy_checks s)"
  by (auto simp: flush_product_def split: option.splits)

inductive catalog_step :: "db \<Rightarrow> db \<Rightarrow> bool" where
  create: "create_for_seller seller c d = Inr (i, d') \<Longrightarrow> catalog_step d d'"
| update: "update_owned_product pid seller u d = Inr (i, d') \<Longrightarrow> catalog_step d d'"
| delete: "delete_owned_product pid seller d = Inr (u, d') \<Longrightarrow> catalog_step d d'"
| policy: "update_owned_policy pid seller pd v d = Inr (i, d') \<Longrightarrow> catalog_step d d'"
| fact: "set_fact_transaction fid pid seller a w v d = Inr (u, d') \<Longrightarrow> catalog_step d d'"
| rule: "set_rule_transaction rid pid seller r now d = Inr (u, d') \<Longrightarrow> catalog_step d d'"
| item: "recheck_item pid seller cid key now d = Inr (u, d') \<Longrightarrow> catalog_step d d'"

lemma create_cases:
  assumes step: "create_for_seller seller c d = Inr (i, d')"
  obtains p s where "get_user d seller \<noteq> None" and "p_id p = d_next_product d" and "p_seller_id p = seller"
    and "sp_product_id s = d_next_product d" and "product_checks p" and "policy_checks s"
    and "d' = d\<lparr>d_products := tput (d_next_product d) p (d_products d),
               d_policies := tput (d_next_product d) s (d_policies d), d_next_product := d_next_product d + 1\<rparr>"
proof -
  from step show thesis
    unfolding create_for_seller_def Let_def
    by (elim result_elims) (rule that, assumption, auto simp: flush_product_Inr)
qed

lemma update_cases:
  assumes step: "update_owned_product pid seller u d = Inr (i, d')"
  obtains p p' where "get_product d pid = Some p" and "p_seller_id p = seller" and "p_id p' = p_id p"
    and "p_seller_id p' = seller" and "p_product_version p' = p_product_version p" and "product_checks p'"
    and "d' = d\<lparr>d_products := tput pid p' (d_products d)\<rparr>"
proof -
  from step show thesis
    unfolding update_owned_product_def Let_def
    by (elim result_elims) (rule that, auto simp: flush_product_Inr owned_row_Inr)
qed

lemma delete_cases:
  assumes step: "delete_owned_product pid seller d = Inr (u, d')"
  obtains p where "get_product d pid = Some p" and "p_seller_id p = seller" and "p_status p \<noteq> AVAILABLE"
    and "\<And>n. n \<in> set (trows (d_sessions d)) \<Longrightarrow> ns_product_id n \<noteq> p_id p" and "\<not> referenced d (p_id p)"
    and "d' = d\<lparr>d_facts := tdrop (\<lambda>f. pf_product_id f = p_id p) (d_facts d),
                     d_rules := tdrop (\<lambda>r. sr_product_id r = p_id p) (d_rules d),
                     d_policies := tdrop (\<lambda>s. sp_product_id s = p_id p) (d_policies d),
                     d_products := tdrop (\<lambda>q. p_id q = p_id p) (d_products d)\<rparr>"
proof -
  from step show thesis
    unfolding delete_owned_product_def
    by (elim result_elims) (rule that, auto simp: owned_row_Inr list_ex_iff)
qed

lemma policy_cases:
  assumes step: "update_owned_policy pid seller pd v d = Inr (i, d')"
  obtains p s s' where "get_product d pid = Some p" and "p_seller_id p = seller"
    and "get_policy d pid = Some s" and "sp_version s = v" and "sp_product_id s' = sp_product_id s"
    and "sp_version s' = v + 1" and "policy_checks s'"
    and "d' = d\<lparr>d_policies := tput pid s' (d_policies d)\<rparr>"
proof -
  from step show thesis
    unfolding update_owned_policy_def Let_def
    by (elim result_elims) (rule that, auto simp: flush_product_Inr owned_row_Inr)
qed

lemma set_fact_cases:
  assumes step: "set_fact_transaction fid pid seller a w v d = Inr (u, d')"
  obtains p where "get_product d pid = Some p" and "p_seller_id p = seller"
    and "v = None \<or> v = Some (p_product_version p)" and "tget (d_facts d) fid = None"
    and "d' = advance_product pid (d\<lparr>d_facts := d_facts d @ [(fid, \<lparr>pf_id = fid, pf_product_id = pid,
           pf_attribute = a, pf_value = w, pf_version = p_product_version p + 1\<rparr>)]\<rparr>)"
proof -
  from step show thesis
    unfolding set_fact_transaction_def
    by (elim result_elims) (rule that, auto simp: owned_product_Inr tadd_eq_Inr)
qed

lemma set_rule_cases:
  assumes step: "set_rule_transaction rid pid seller c now d = Inr (u, d')"
  obtains p rs where "get_product d pid = Some p" and "p_seller_id p = seller"
    and "rl_expected_version c = p_product_version p"
    and "d' = advance_product pid (d\<lparr>d_rules := rs\<rparr>)"
proof -
  from step show thesis
    unfolding set_rule_transaction_def Let_def
    by (elim result_elims) (rule that, auto simp: owned_product_Inr)
qed

definition rechecks_only :: "db \<Rightarrow> db \<Rightarrow> bool" where
  \<comment> \<open>a recheck writes drafts, verification items, messages, contexts and public numbers only\<close>
  "rechecks_only d d' \<longleftrightarrow> d_users d' = d_users d \<and> d_products d' = d_products d \<and> d_policies d' = d_policies d
     \<and> d_next_product d' = d_next_product d \<and> d_facts d' = d_facts d \<and> d_rules d' = d_rules d
     \<and> d_offers d' = d_offers d \<and> d_bases d' = d_bases d \<and> d_quotes d' = d_quotes d
     \<and> (d_sessions d' = d_sessions d \<or> (\<exists>k. d_sessions d' =
          tmod k (\<lambda>s. s\<lparr>ns_next_public_seq := ns_next_public_seq s + 1\<rparr>) (d_sessions d)))"

lemma tell_buyer_cases:
  assumes step: "tell_buyer cid dr n p now d = Inr d'"
  obtains ms cs where "d' = mod_session (ns_id n) (\<lambda>s. s\<lparr>ns_next_public_seq := ns_next_public_seq s + 1\<rparr>)
        (d\<lparr>d_messages := ms, d_next_message := d_next_message d + 1, d_contexts := cs\<rparr>)"
proof -
  from step show thesis
    unfolding tell_buyer_def Let_def by (elim result_elims) (simp only: sum.inject, rule that, erule sym)
qed

lemma recheck_item_only:
  assumes step: "recheck_item pid seller cid key now d = Inr (u, d')"
  shows "rechecks_only d d'"
proof -
  from step show ?thesis
    unfolding recheck_item_def Let_def
    apply (elim result_elims if_InrE)
      apply (simp add: rechecks_only_def)
     apply (simp add: rechecks_only_def)
    apply (elim result_elims tell_buyer_cases)
    apply (auto simp: rechecks_only_def)
    done
qed

lemma catalog_ok_kept:
  assumes "catalog_ok d" and "d_users d' = d_users d" and "d_policies d' = d_policies d"
    and "d_next_product d' = d_next_product d" and "d_products d' = d_products d \<or> d_products d' = tmod pid f (d_products d)"
    and "\<And>p. p_id (f p) = p_id p \<and> p_seller_id (f p) = p_seller_id p \<and> p_listed_price (f p) = p_listed_price p"
    and "d_sessions d' = d_sessions d \<or> (\<exists>k g. d_sessions d' = tmod k g (d_sessions d)
           \<and> (\<forall>n. ns_product_id (g n) = ns_product_id n))"
  shows "catalog_ok d'"
proof -
  have prod: "product_stored d' k p'" if p': "get_product d' k = Some p'" for k p'
  proof -
    obtain p where "get_product d k = Some p" and "p' = p \<or> p' = f p"
      using p' assms(5) by (auto split: if_splits)
    with assms(1) assms(6) [of p] show ?thesis
      by (auto simp: catalog_ok_def product_stored_def product_checks_def assms(2-4))
  qed
  have "get_product d' (ns_product_id n') \<noteq> None" if n': "get_session d' k = Some n'" for k n'
  proof -
    obtain n where "get_session d k = Some n" and "ns_product_id n' = ns_product_id n"
      using n' assms(7) by (auto split: if_splits)
    with assms(1,5) show ?thesis by (auto simp: catalog_ok_def)
  qed
  moreover have "keys_ok (d_sessions d')" using assms(1,7) by (auto simp: catalog_ok_def)
  ultimately show ?thesis
    using assms(1,5) prod by (auto simp: catalog_ok_def assms(3))
qed

lemma catalog_step_ok: "catalog_step d d' \<Longrightarrow> catalog_ok d \<Longrightarrow> catalog_ok d'"
proof (induction rule: catalog_step.induct)
  case (create seller c d i d')
  from create.hyps show ?case
  proof (cases rule: create_cases)
    case (1 p s)
    have fresh: "get_product d (d_next_product d) = None" "\<And>k. k = d_next_product d \<Longrightarrow> get_product d k = None"
      using create.prems by (cases "get_product d (d_next_product d)"; auto simp: catalog_ok_def product_stored_def)+
    show ?thesis
      using create.prems 1(1-6) fresh
      by (fastforce simp: catalog_ok_def product_stored_def 1(7))
  qed
next
  case (update pid seller u d i d')
  from update.hyps show ?case
  proof (cases rule: update_cases)
    case (1 p p')
    then show ?thesis using update.prems by (auto simp: catalog_ok_def product_stored_def)
  qed
next
  case (delete pid seller d u d')
  from delete.hyps show ?case
  proof (cases rule: delete_cases)
    case (1 p)
    have ok: "keys_ok (d_products d)" and id: "p_id p = pid"
      using delete.prems 1(1) by (auto simp: catalog_ok_def product_stored_def)
    have dp: "get_product d' k = (if k = pid then None else get_product d k)" for k
    proof -
      have "tget (tdrop (\<lambda>q. p_id q = p_id p) (d_products d)) k = (if k = pid then None else get_product d k)"
        by (rule tget_tdrop [OF _ ok]) (use delete.prems in \<open>auto simp: catalog_ok_def product_stored_def id\<close>)
      then show ?thesis by (simp add: 1(6))
    qed
    have ds: "get_policy d' k = (if k = pid then None else get_policy d k)" for k
    proof -
      have "keys_ok (d_policies d)" using delete.prems by (simp add: catalog_ok_def)
      then have "tget (tdrop (\<lambda>s. sp_product_id s = p_id p) (d_policies d)) k
          = (if k = pid then None else get_policy d k)"
        by (rule tget_tdrop [rotated]) (use delete.prems in \<open>auto simp: catalog_ok_def id\<close>)
      then show ?thesis by (simp add: 1(6))
    qed
    have sess: "ns_product_id n \<noteq> pid" if "get_session d k = Some n" for k n
      using 1(4) [OF tget_in_trows [OF that]] id by simp
    have same: "d_users d' = d_users d" "d_sessions d' = d_sessions d" "d_next_product d' = d_next_product d"
      "keys_ok (d_products d')" "keys_ok (d_policies d')"
      using delete.prems by (simp_all add: 1(6) catalog_ok_def)
    have "product_stored d' k q" if "get_product d' k = Some q" for k q
      using that delete.prems by (auto simp: dp ds same catalog_ok_def product_stored_def split: if_splits)
    moreover have "sp_product_id s = k \<and> get_product d' k \<noteq> None" if "get_policy d' k = Some s" for k s
      using that delete.prems by (auto simp: dp ds catalog_ok_def split: if_splits)
    moreover have "get_product d' (ns_product_id n) \<noteq> None" if "get_session d' k = Some n" for k n
      using that delete.prems sess by (auto simp: dp same catalog_ok_def)
    ultimately show ?thesis using delete.prems same by (auto simp: catalog_ok_def)
  qed
next
  case (policy pid seller pd v d i d')
  from policy.hyps show ?case
  proof (cases rule: policy_cases)
    case (1 p s s')
    then have "p_id p = pid" using policy.prems by (auto simp: catalog_ok_def product_stored_def)
    then show ?thesis using policy.prems 1 by (auto simp: catalog_ok_def product_stored_def)
  qed
next
  case (fact fid pid seller a w v d u d')
  from fact.hyps show ?case
  proof (cases rule: set_fact_cases)
    case (1 p)
    show ?thesis
      by (rule catalog_ok_kept [OF fact.prems, where pid = pid and f = "\<lambda>p. p\<lparr>p_product_version := p_product_version p + 1\<rparr>"])
        (simp_all add: 1(5) advance_product_def)
  qed
next
  case (rule rid pid seller r now d u d')
  from rule.hyps show ?case
  proof (cases rule: set_rule_cases)
    case (1 p rs)
    show ?thesis
      by (rule catalog_ok_kept [OF rule.prems, where pid = pid and f = "\<lambda>p. p\<lparr>p_product_version := p_product_version p + 1\<rparr>"])
        (simp_all add: 1(4) advance_product_def)
  qed
next
  case (item pid seller cid key now d u d')
  note only = recheck_item_only [OF item.hyps, unfolded rechecks_only_def]
  have sess: "d_sessions d' = d_sessions d \<or> (\<exists>k g. d_sessions d' = tmod k g (d_sessions d)
           \<and> (\<forall>n. ns_product_id (g n) = ns_product_id n))"
  proof (cases "d_sessions d' = d_sessions d")
    case False
    with only obtain k where
      "d_sessions d' = tmod k (\<lambda>s. s\<lparr>ns_next_public_seq := ns_next_public_seq s + 1\<rparr>) (d_sessions d)"
      by blast
    moreover have "\<forall>n :: session. ns_product_id (n\<lparr>ns_next_public_seq := ns_next_public_seq n + 1\<rparr>) = ns_product_id n"
      by simp
    ultimately show ?thesis by blast
  qed simp
  show ?case
    by (rule catalog_ok_kept [OF item.prems, where pid = pid and f = "\<lambda>p. p", OF _ _ _ _ _ sess]) (use only in simp_all)
qed

lemma catalog_steps_ok: "catalog_step\<^sup>*\<^sup>* d d' \<Longrightarrow> catalog_ok d \<Longrightarrow> catalog_ok d'"
  by (induction rule: rtranclp_induct) (auto intro: catalog_step_ok)

section \<open>Reading never fails\<close>

lemma emap_total: "(\<And>x. x \<in> set xs \<Longrightarrow> \<exists>y. f x = Inr y) \<Longrightarrow> \<exists>ys. emap f xs = Inr ys"
proof (induction xs)
  case (Cons x xs)
  from Cons.prems [of x] obtain y where "f x = Inr y" by auto
  moreover have "\<exists>ys. emap f xs = Inr ys" using Cons.prems by (intro Cons.IH) auto
  ultimately show ?case by (auto simp: ebind_def)
qed simp

lemma emap_map: "emap f xs = Inr ys \<Longrightarrow> (\<And>x y. f x = Inr y \<Longrightarrow> g y = h x) \<Longrightarrow> map g ys = map h xs"
  by (induction xs arbitrary: ys) (auto simp: ebind_eq_Inr)

lemma emap_append: "emap f (xs @ ys) = ebind (emap f xs) (\<lambda>a. ebind (emap f ys) (\<lambda>b. Inr (a @ b)))"
  by (induction xs) (auto simp: ebind_def split: sum.splits)

lemma seller_snapshot_id: "seller_snapshot d p = Inr i \<Longrightarrow> pi_id i = p_id p"
  by (auto simp: seller_snapshot_def public_snapshot_def ebind_eq_Inr some_or_eq_Inr Let_def)

lemma catalog_snapshot_id: "catalog_snapshot d p = Inr i \<Longrightarrow> pi_id i = p_id p"
  by (auto simp: catalog_snapshot_def public_snapshot_def ebind_eq_Inr some_or_eq_Inr Let_def)

lemma catalog_ok_row:
  assumes "catalog_ok d" and "p \<in> set (trows (d_products d))"
  shows "get_product d (p_id p) = Some p" and "product_stored d (p_id p) p"
proof -
  obtain k where "get_product d k = Some p" using assms trows_tget [of "d_products d" p] by (auto simp: catalog_ok_def)
  then show "get_product d (p_id p) = Some p" and "product_stored d (p_id p) p"
    using assms(1) by (auto simp: catalog_ok_def product_stored_def)
qed

lemma list_owned_total:
  assumes "catalog_ok d"
  shows "\<exists>infos. list_owned seller d = Inr infos \<and> set (map pi_id infos) = {k. \<exists>p. get_product d k = Some p \<and> p_seller_id p = seller}"
proof -
  let ?ps = "sort_key p_id (filter (\<lambda>p. p_seller_id p = seller) (trows (d_products d)))"
  have "\<exists>y. seller_snapshot d p = Inr y" if "p \<in> set ?ps" for p
    using that catalog_ok_row(2) [OF assms, of p]
    by (auto simp: seller_snapshot_def product_stored_def Let_def)
  then obtain infos where infos: "emap (seller_snapshot d) ?ps = Inr infos" using emap_total by blast
  have "map pi_id infos = map p_id ?ps" by (rule emap_map [OF infos]) (rule seller_snapshot_id)
  then have "set (map pi_id infos) = p_id ` {p \<in> set (trows (d_products d)). p_seller_id p = seller}" by auto
  also have "\<dots> = {k. \<exists>p. get_product d k = Some p \<and> p_seller_id p = seller}"
  proof (intro set_eqI iffI)
    fix k assume "k \<in> p_id ` {p \<in> set (trows (d_products d)). p_seller_id p = seller}"
    then show "k \<in> {k. \<exists>p. get_product d k = Some p \<and> p_seller_id p = seller}"
      using catalog_ok_row(1) [OF assms] by auto
  next
    fix k assume "k \<in> {k. \<exists>p. get_product d k = Some p \<and> p_seller_id p = seller}"
    then obtain p where p: "get_product d k = Some p" "p_seller_id p = seller" by auto
    then have "p_id p = k" using assms by (auto simp: catalog_ok_def product_stored_def)
    with p tget_in_trows [OF p(1)] show "k \<in> p_id ` {p \<in> set (trows (d_products d)). p_seller_id p = seller}"
      by force
  qed
  finally show ?thesis using infos by (simp add: list_owned_def)
qed

text \<open>
  C39: On every run of the catalogue's operations each product keeps a policy that satisfies its
  constraints, and no negotiation loses its product. A seller's list of own products is then always
  available and complete, and what a buyer negotiates about can always be read.
\<close>

theorem catalog_runs_sound:
  assumes "catalog_step\<^sup>*\<^sup>* d d'" and "catalog_ok d"
  shows "catalog_ok d'
    \<and> (\<exists>infos. list_owned seller d' = Inr infos
         \<and> set (map pi_id infos) = {k. \<exists>p. get_product d' k = Some p \<and> p_seller_id p = seller})
    \<and> (\<forall>sid n. get_session d' sid = Some n \<longrightarrow>
         (\<exists>i. get_for_negotiation sid (ns_buyer_id n) d' = Inr i \<and> pi_id i = ns_product_id n))"
proof -
  have ok: "catalog_ok d'" using catalog_steps_ok assms by blast
  have "\<exists>i. get_for_negotiation sid (ns_buyer_id n) d' = Inr i \<and> pi_id i = ns_product_id n"
    if "get_session d' sid = Some n" for sid n
  proof -
    have "get_product d' (ns_product_id n) \<noteq> None" using ok that by (simp add: catalog_ok_def)
    then obtain p where p: "get_product d' (ns_product_id n) = Some p" by blast
    then have "p_id p = ns_product_id n" using ok by (auto simp: catalog_ok_def product_stored_def)
    with p that show ?thesis by (simp add: get_for_negotiation_def public_snapshot_def)
  qed
  with ok list_owned_total [OF ok] show ?thesis by blast
qed

section \<open>Policies\<close>

definition policy_version :: "int \<Rightarrow> db \<Rightarrow> int" where
  "policy_version pid d = (case get_policy d pid of None \<Rightarrow> 0 | Some s \<Rightarrow> sp_version s)"

lemma update_policy_versions:
  assumes "update_owned_policy pid seller c v d = Inr (i, d')"
  shows "policy_version pid d = v" and "policy_version pid d' = v + 1"
  using assms by (cases rule: policy_cases; simp add: policy_version_def)+

interpretation policy: versioned_update "policy_version pid" "\<lambda>q v d. update_owned_policy pid (fst q) (snd q) v d" for pid
proof
  fix q :: "string \<times> policy_data" and v d r d'
  assume "update_owned_policy pid (fst q) (snd q) v d = Inr (r, d')"
  from update_policy_versions [OF this] show "policy_version pid d = v" and "v < policy_version pid d'" by simp_all
qed

definition outdated :: "int \<Rightarrow> int \<Rightarrow> db \<Rightarrow> bool" where
  \<comment> \<open>the product is gone for good, or its policy is newer than \<open>v\<close>\<close>
  "outdated pid v d \<longleftrightarrow> pid < d_next_product d \<and> (get_product d pid = None \<or> v < policy_version pid d)"

lemma outdated_step:
  assumes "catalog_step d d'" and "catalog_ok d" and "outdated pid v d"
  shows "outdated pid v d'"
  using assms
proof (induction rule: catalog_step.induct)
  case (create seller c d i d')
  from create.hyps show ?case
    by (cases rule: create_cases) (use create.prems in \<open>auto simp: outdated_def policy_version_def\<close>)
next
  case (update k seller u d i d')
  from update.hyps show ?case
    by (cases rule: update_cases) (use update.prems in \<open>auto simp: outdated_def policy_version_def\<close>)
next
  case (delete k seller d u d')
  from delete.hyps show ?case
  proof (cases rule: delete_cases)
    case (1 p)
    have id: "p_id p = k" and ok: "keys_ok (d_products d)" "keys_ok (d_policies d)"
      using delete.prems 1(1) by (auto simp: catalog_ok_def product_stored_def)
    have gp: "tget (tdrop (\<lambda>q. p_id q = p_id p) (d_products d)) pid = (if pid = k then None else get_product d pid)"
      by (rule tget_tdrop [OF _ ok(1)]) (use delete.prems in \<open>auto simp: catalog_ok_def product_stored_def id\<close>)
    have gs: "tget (tdrop (\<lambda>s. sp_product_id s = p_id p) (d_policies d)) pid = (if pid = k then None else get_policy d pid)"
      by (rule tget_tdrop [OF _ ok(2)]) (use delete.prems in \<open>auto simp: catalog_ok_def id\<close>)
    show ?thesis using delete.prems(2) by (auto simp: outdated_def policy_version_def 1(6) gp gs)
  qed
next
  case (policy k seller c w d i d')
  from policy.hyps show ?case
    by (cases rule: policy_cases) (use policy.prems in \<open>auto simp: outdated_def policy_version_def\<close>)
next
  case (fact fid k seller a w x d u d')
  from fact.hyps show ?case
    by (cases rule: set_fact_cases) (use fact.prems in \<open>auto simp: outdated_def policy_version_def advance_product_def\<close>)
next
  case (rule rid k seller r now d u d')
  from rule.hyps show ?case
    by (cases rule: set_rule_cases) (use rule.prems in \<open>auto simp: outdated_def policy_version_def advance_product_def\<close>)
next
  case (item k seller cid key now d u d')
  from recheck_item_only [OF item.hyps] item.prems show ?case
    by (simp add: outdated_def policy_version_def rechecks_only_def)
qed

lemma outdated_steps: "catalog_step\<^sup>*\<^sup>* d d' \<Longrightarrow> catalog_ok d \<Longrightarrow> outdated pid v d \<Longrightarrow> outdated pid v d' \<and> catalog_ok d'"
  by (induction rule: rtranclp_induct) (auto intro: outdated_step catalog_step_ok)

lemma outdated_refused:
  assumes "outdated pid v d"
  shows "isl (update_owned_policy pid seller c v d)"
proof (cases "update_owned_policy pid seller c v d")
  case (Inr r)
  obtain i d' where step: "update_owned_policy pid seller c v d = Inr (i, d')" using Inr by (cases r) simp
  then have "get_product d pid \<noteq> None" by (cases rule: policy_cases) simp
  with assms policy.update_current [of pid "(seller, c)" v d i d'] step show ?thesis by (simp add: outdated_def)
qed simp

text \<open>
  A policy update stores exactly the submitted rules under the next version, and whatever the
  catalogue does afterwards, no second update made for the same version succeeds: of two concurrent edits one is
  refused.
\<close>

theorem policy_update_exclusive:
  assumes "update_owned_policy pid seller c v d = Inr (i, d1)" and "catalog_ok d"
    and "catalog_step\<^sup>*\<^sup>* d1 d2"
  shows "(\<exists>s. get_policy d1 pid = Some s \<and> sp_version s = v + 1
         \<and> sp_minimum_net_price s = pd_minimum_net_price c \<and> sp_auto_accept_threshold s = pd_auto_accept_threshold c
         \<and> sp_style s = pd_style c \<and> sp_max_rounds s = pd_max_rounds c)
    \<and> isl (update_owned_policy pid seller' c' v d2)"
proof -
  have "outdated pid v d1"
    using assms(1)
  proof (cases rule: policy_cases)
    case (1 p s s')
    have "pid < d_next_product d" using assms(2) 1(1) by (auto simp: catalog_ok_def product_stored_def)
    then show ?thesis using update_policy_versions(2) [OF assms(1)] by (simp add: outdated_def 1(8))
  qed
  moreover have "catalog_ok d1" using catalog_step.policy [OF assms(1)] assms(2) by (rule catalog_step_ok)
  ultimately have "outdated pid v d2" using outdated_steps [OF assms(3)] by blast
  moreover have "\<exists>s. get_policy d1 pid = Some s \<and> sp_version s = v + 1
         \<and> sp_minimum_net_price s = pd_minimum_net_price c \<and> sp_auto_accept_threshold s = pd_auto_accept_threshold c
         \<and> sp_style s = pd_style c \<and> sp_max_rounds s = pd_max_rounds c"
    using assms(1) unfolding update_owned_policy_def Let_def
    by (elim result_elims) (auto simp: flush_product_Inr)
  ultimately show ?thesis using outdated_refused by blast
qed

section \<open>What buyers see\<close>

definition public_part :: "db \<Rightarrow> product list" where
  "public_part d = filter (\<lambda>p. p_status p = AVAILABLE) (trows (d_products d))"

lemma list_public_part:
  "list_public seller offset limit d = emap (catalog_snapshot d) (take limit (drop offset (sort_key p_id
     (filter (\<lambda>p. seller = None \<or> seller = Some (p_seller_id p)) (public_part d)))))"
  by (simp add: list_public_def public_part_def conj_commute)

text \<open>
  Public listings depend only on the available products and the names of their sellers: two catalogues that
  differ in private policies, drafts, unavailable products and anything else show buyers the same pages.
  Consecutive pages together are the longer page.
\<close>

theorem public_listing_private:
  assumes "public_part d = public_part d'" and "d_users d = d_users d'"
  shows "list_public seller offset limit d = list_public seller offset limit d'
    \<and> list_public seller 0 (m + k) d
        = ebind (list_public seller 0 m d) (\<lambda>a. ebind (list_public seller m k d') (\<lambda>b. Inr (a @ b)))"
proof -
  have same: "catalog_snapshot d = catalog_snapshot d'"
    using assms(2) by (simp add: fun_eq_iff catalog_snapshot_def)
  have "take (m + k) xs = take m xs @ take k (drop m xs)" for xs :: "product list"
    by (rule take_add)
  then show ?thesis by (simp add: list_public_part assms(1) same emap_append)
qed

section \<open>New evidence outdates old quotations\<close>

definition facts_ok :: "db \<Rightarrow> bool" where
  \<comment> \<open>no fact is newer than its product\<close>
  "facts_ok d \<longleftrightarrow> (\<forall>f \<in> set (trows (d_facts d)). \<forall>p. get_product d (pf_product_id f) = Some p \<longrightarrow>
     pf_version f \<le> p_product_version p)"

lemma sort_key_snoc:
  assumes "\<And>x. x \<in> set xs \<Longrightarrow> f x \<le> f y"
  shows "sort_key f (xs @ [y]) = sort_key f xs @ [y]"
proof (rule properties_for_sort_key)
  show "sorted (map f (sort_key f xs @ [y]))" using assms by (auto simp: sorted_append)
  show "filter (\<lambda>x. f k = f x) (sort_key f xs @ [y]) = filter (\<lambda>x. f k = f x) (xs @ [y])" for k
    using sort_key_stable [of f "f k" xs] by (simp add: eq_commute [of "f k"])
qed simp

lemma last_case: "(case xs @ [y] of [] \<Rightarrow> None | z # zs \<Rightarrow> Some (last (z # zs))) = Some y"
  by (cases xs) auto

lemma last_case_in: "(case xs of [] \<Rightarrow> None | z # zs \<Rightarrow> Some (last (z # zs))) = Some y \<Longrightarrow> y \<in> set xs"
  using last_in_set [of xs] by (cases xs) (auto simp del: last.simps)

lemma facts_for_row:
  assumes "facts_for d pid a = Some f"
  shows "f \<in> set (trows (d_facts d))" and "pf_product_id f = pid" and "pf_attribute f = a"
  using last_case_in [OF assms [unfolded facts_for_def]] by auto

lemma assess_facts:
  "assess d pid c now = Inr (missing, es, snap, expiry) \<Longrightarrow>
     evaluate_all (cd_conditions c) (facts_for d pid) 0 = Inr es
     \<and> qs_delivery_fact_version snap = map_option pf_version (facts_for d pid ''allowed_delivery_methods'')"
  by (cases "cost_rule d pid c now") (auto simp: assess_def ebind_eq_Inr Let_def)

lemma facts_for_added:
  assumes "facts_ok d" and "get_product d pid = Some p"
    and "d_facts d' = d_facts d @ [(fid, f)]" and "pf_product_id f = pid" and "pf_version f = p_product_version p + 1"
  shows "facts_for d' pid (pf_attribute f) = Some f"
    and "k \<noteq> pid \<or> b \<noteq> pf_attribute f \<Longrightarrow> facts_for d' k b = facts_for d k b"
proof -
  have *: "filter (\<lambda>g. pf_product_id g = j \<and> pf_attribute g = b) (sort_key pf_version (trows (d_facts d')))
      = sort_key pf_version (filter (\<lambda>g. pf_product_id g = j \<and> pf_attribute g = b) (trows (d_facts d) @ [f]))" for j b
    by (simp add: filter_sort assms(3))
  have le: "pf_version g \<le> pf_version f" if "g \<in> set (trows (d_facts d))" "pf_product_id g = pid" for g
    using assms(1,2,5) that by (fastforce simp: facts_ok_def)
  have "sort_key pf_version (filter (\<lambda>g. pf_product_id g = pid \<and> pf_attribute g = pf_attribute f) (trows (d_facts d)) @ [f])
      = sort_key pf_version (filter (\<lambda>g. pf_product_id g = pid \<and> pf_attribute g = pf_attribute f) (trows (d_facts d))) @ [f]"
    by (rule sort_key_snoc) (use le in auto)
  then show "facts_for d' pid (pf_attribute f) = Some f"
    unfolding facts_for_def * by (simp add: assms(4) last_case)
  show "facts_for d' k b = facts_for d k b" if "k \<noteq> pid \<or> b \<noteq> pf_attribute f"
    unfolding facts_for_def * using that by (auto simp: filter_sort assms(4))
qed

lemma evaluate_all_versions:
  "evaluate_all ps facts i = Inr es \<Longrightarrow>
     map el_fact_version es = map (\<lambda>p. map_option pf_version (facts (pr_fact p))) ps"
  by (induction ps facts i arbitrary: es rule: evaluate_all.induct)
    (auto simp: ebind_eq_Inr evaluate_def Let_def)

lemma valid_basis_versions:
  assumes "valid_basis d pid oid now = Inr True" and "tget (d_bases d) oid = Some b"
    and "tget (d_quotes d) (ob_cost_quote_id b) = Some q"
  shows "map el_fact_version (ob_evaluations b)
      = map (\<lambda>p. map_option pf_version (facts_for d pid (pr_fact p))) (cd_conditions (ob_candidate b))"
    and "qs_delivery_fact_version (cq_snapshot q) = map_option pf_version (facts_for d pid ''allowed_delivery_methods'')"
proof -
  obtain missing expiry where "assess d pid (ob_candidate b) now = Inr (missing, ob_evaluations b, cq_snapshot q, expiry)"
    using assms unfolding valid_basis_def by (auto simp: ebind_eq_Inr split: if_splits)
  from assess_facts [OF this]
  have "evaluate_all (cd_conditions (ob_candidate b)) (facts_for d pid) 0 = Inr (ob_evaluations b)
      \<and> qs_delivery_fact_version (cq_snapshot q) = map_option pf_version (facts_for d pid ''allowed_delivery_methods'')" .
  then show "map el_fact_version (ob_evaluations b)
      = map (\<lambda>p. map_option pf_version (facts_for d pid (pr_fact p))) (cd_conditions (ob_candidate b))"
    and "qs_delivery_fact_version (cq_snapshot q) = map_option pf_version (facts_for d pid ''allowed_delivery_methods'')"
    using evaluate_all_versions by blast+
qed

text \<open>
  When the seller confirms a fact, the product's newest value of that attribute is the confirmed one and every
  other attribute keeps its value; and an offer whose conditions, or whose delivery, rested on the old
  value is never again found to have a valid basis, whether or not the value changed.
\<close>

theorem confirmed_fact_outdates:
  assumes "set_fact_transaction fid pid seller a w v d = Inr (u, d')" and "facts_ok d"
    and "valid_basis d pid oid now = Inr True" and "tget (d_bases d) oid = Some b"
    and "a \<in> set (map pr_fact (cd_conditions (ob_candidate b))) \<or> a = ''allowed_delivery_methods''"
  shows "(\<exists>f. facts_for d' pid a = Some f \<and> pf_value f = w)
    \<and> (\<forall>k c. k \<noteq> pid \<or> c \<noteq> a \<longrightarrow> facts_for d' k c = facts_for d k c)
    \<and> facts_ok d'
    \<and> (\<forall>now'. valid_basis d' pid oid now' \<noteq> Inr True)"
  using assms(1)
proof (cases rule: set_fact_cases)
  case (1 p)
  define f where "f = \<lparr>pf_id = fid, pf_product_id = pid, pf_attribute = a, pf_value = w, pf_version = p_product_version p + 1\<rparr>"
  have fs: "d_facts d' = d_facts d @ [(fid, f)]" by (simp add: 1(5) advance_product_def f_def)
  have attr: "pf_attribute f = a" "pf_product_id f = pid" "pf_version f = p_product_version p + 1" "pf_value f = w"
    by (simp_all add: f_def)
  note added = facts_for_added [OF assms(2) 1(1) fs attr(2,3), unfolded attr(1)]
  have same: "d_bases d' = d_bases d" "d_quotes d' = d_quotes d" by (simp_all add: 1(5) advance_product_def)
  have old: "map_option pf_version (facts_for d pid a) \<noteq> Some (p_product_version p + 1)"
  proof
    assume "map_option pf_version (facts_for d pid a) = Some (p_product_version p + 1)"
    then obtain g where g: "facts_for d pid a = Some g" "pf_version g = p_product_version p + 1" by auto
    with facts_for_row [OF g(1)] assms(2) 1(1) show False by (fastforce simp: facts_ok_def)
  qed
  obtain q where q: "tget (d_quotes d) (ob_cost_quote_id b) = Some q"
    using assms(3,4) unfolding valid_basis_def by (auto split: option.splits)
  have "valid_basis d' pid oid now' \<noteq> Inr True" for now'
  proof
    assume valid: "valid_basis d' pid oid now' = Inr True"
    note before = valid_basis_versions [OF assms(3,4) q]
      and after = valid_basis_versions [OF valid, unfolded same, OF assms(4) q]
    have "map_option pf_version (facts_for d' pid c) = map_option pf_version (facts_for d pid c)"
      if "c \<in> set (map pr_fact (cd_conditions (ob_candidate b))) \<or> c = ''allowed_delivery_methods''" for c
      using that before after by (auto simp: map_eq_conv)
    with assms(5) have "map_option pf_version (facts_for d' pid a) = map_option pf_version (facts_for d pid a)" by blast
    with added(1) old attr(3) show False by (metis option.simps(9))
  qed
  moreover have "facts_ok d'"
    unfolding facts_ok_def
  proof (intro ballI allI impI)
    fix g q assume g: "g \<in> set (trows (d_facts d'))" and q: "get_product d' (pf_product_id g) = Some q"
    have later: "\<exists>p0. get_product d (pf_product_id g) = Some p0 \<and> p_product_version p0 \<le> p_product_version q"
      and new: "pf_product_id g = pid \<Longrightarrow> p_product_version q = p_product_version p + 1"
      using q 1(1) by (auto simp: 1(5) advance_product_def split: if_splits)
    from g fs have "g \<in> set (trows (d_facts d)) \<or> g = f" by auto
    then show "pf_version g \<le> p_product_version q"
    proof
      assume "g \<in> set (trows (d_facts d))"
      with later assms(2) show ?thesis by (fastforce simp: facts_ok_def)
    qed (use new attr in simp)
  qed
  ultimately show ?thesis using added attr(4) by blast
qed

section \<open>The properties on a small catalogue\<close>

lemma sample_catalog_ok: "catalog_ok sample_db"
  by (simp add: catalog_ok_def product_stored_def sample_db_def empty_db_def product_checks_def policy_checks_def
      sample_policy_def keys_ok_def)

definition sample_rules :: policy_data where
  "sample_rules = \<lparr>pd_minimum_net_price = 11000, pd_auto_accept_threshold = 16000, pd_style = FIRM, pd_max_rounds = 4\<rparr>"

lemma sample_policy_update:
  "\<exists>i. update_owned_policy 1 ''seller'' sample_rules 1 sample_db = Inr (i, sample_db\<lparr>d_policies :=
     [(1, \<lparr>sp_product_id = 1, sp_minimum_net_price = 11000, sp_auto_accept_threshold = 16000, sp_style = FIRM,
           sp_max_rounds = 4, sp_version = 2\<rparr>)]\<rparr>)"
  by (simp add: update_owned_policy_def owned_row_def sample_db_def empty_db_def flush_product_def
      product_checks_def policy_checks_def sample_policy_def sample_rules_def seller_snapshot_def tput_def Let_def)

theorem catalog_runs_sound_witness: "\<exists>infos. list_owned ''seller'' sample_db = Inr infos \<and> set (map pi_id infos) = {1}"
proof -
  have "catalog_step\<^sup>*\<^sup>* sample_db sample_db" by simp
  from catalog_runs_sound [OF this sample_catalog_ok, of "''seller''"]
  obtain infos where "list_owned ''seller'' sample_db = Inr infos"
    and ids: "set (map pi_id infos) = {k. \<exists>p. get_product sample_db k = Some p \<and> p_seller_id p = ''seller''}"
    by blast
  moreover have "{k. \<exists>p. get_product sample_db k = Some p \<and> p_seller_id p = ''seller''} = {1}"
    by (auto simp: sample_db_def split: if_splits)
  ultimately show ?thesis by simp
qed

theorem policy_update_exclusive_witness:
  "\<exists>i (d1 :: db). update_owned_policy 1 ''seller'' sample_rules 1 sample_db = Inr (i, d1)
     \<and> isl (update_owned_policy 1 ''seller'' sample_rules 1 d1)"
proof -
  obtain i d1 where step: "update_owned_policy 1 ''seller'' sample_rules 1 sample_db = Inr (i, d1)"
    using sample_policy_update by blast
  have "catalog_step\<^sup>*\<^sup>* d1 d1" by simp
  with policy_update_exclusive [OF step sample_catalog_ok this] step show ?thesis by blast
qed

theorem public_listing_private_witness:
  "list_public None 0 10 sample_db = list_public None 0 10 (sample_db\<lparr>d_policies := []\<rparr>)"
proof -
  have "public_part sample_db = public_part (sample_db\<lparr>d_policies := []\<rparr>)" by (simp add: public_part_def)
  from public_listing_private [OF this, of None 0 10] show ?thesis by simp
qed

definition sample_evidence :: db where
  "sample_evidence = sample_quoted\<lparr>d_products := [(1, sample_product)]\<rparr>"

theorem confirmed_fact_outdates_witness:
  "\<exists>d'. set_fact_transaction ''f3'' 1 ''seller'' ''battery_health_pct'' (JStr ''80.00'') (Some 1) sample_evidence
       = Inr ((), d') \<and> valid_basis d' 1 7 (hours 1) \<noteq> Inr True"
proof -
  obtain d' where step: "set_fact_transaction ''f3'' 1 ''seller'' ''battery_health_pct'' (JStr ''80.00'') (Some 1)
      sample_evidence = Inr ((), d')"
    by (simp add: set_fact_transaction_def owned_product_def sample_evidence_def sample_product_def
        sample_quoted_def sample_facts_db_def trows_def tadd_def)
  have facts: "facts_ok sample_evidence"
    by (simp add: facts_ok_def sample_evidence_def sample_quoted_def sample_facts_db_def trows_def sample_product_def)
  have basis: "valid_basis sample_evidence 1 7 (hours 1) = Inr True"
  proof -
    obtain expiry where "assess sample_evidence 1 sample_candidate (hours 1)
        = Inr ([], [sample_evaluation], sample_snapshot, expiry)"
      using assess_later [OF sample_assess, of "hours 1" sample_evidence]
      by (auto simp: sample_evidence_def sample_quoted_def hours_def minutes_def seconds_def)
    then show ?thesis
      by (simp add: valid_basis_def sample_evidence_def sample_quoted_def sample_quote_def hours_def minutes_def
          seconds_def)
  qed
  have row: "tget (d_bases sample_evidence) 7 = Some \<lparr>ob_offer_id = 7, ob_cost_quote_id = ''q1'',
      ob_candidate = sample_candidate, ob_evaluations = [sample_evaluation]\<rparr>"
    by (simp add: sample_evidence_def sample_quoted_def)
  have "\<forall>now'. valid_basis d' 1 7 now' \<noteq> Inr True"
    using confirmed_fact_outdates [OF step facts basis row] by (simp add: sample_candidate_def)
  with step show ?thesis by blast
qed

end
