(* ===== verification/Ledger.thy ===== *)
theory Ledger
  imports Queue_Spec
begin

text \<open>
  \<open>backend/app/services/model_call_ledger_service.py\<close>: paid calls of a language model. A call is reserved
  against the budget of the run, made outside any transaction, and its result accepted by the current owner
  only; a step that has an accepted result is never paid again.

  The call itself is a parameter (\<open>outcome\<close>); \<open>H\<close> is the digest, \<open>aid\<close> a fresh identifier. The stored request
  snapshot, which no modelled code reads, is left out.
\<close>

section \<open>The ledger of a run\<close>

type_synonym artifact = "string \<times> string" \<comment> \<open>\<open>artifact_id\<close> and \<open>value_hash\<close>\<close>

definition call_key :: "(json \<Rightarrow> string) \<Rightarrow> string \<Rightarrow> string \<Rightarrow> input_row \<Rightarrow> string" where
  "call_key H rid step run =
     H (JArr [JStr rid, JStr step, JStr (in_input_hash run), JStr (in_config_hash run)])"

definition value_json :: "json option \<Rightarrow> json" where
  "value_json v = (case v of None \<Rightarrow> JNull | Some j \<Rightarrow> j)"

definition charge :: "ledger_row \<Rightarrow> int" where
  \<comment> \<open>the tokens a call counts for\<close>
  "charge r = (case lc_actual_tokens r of Some a \<Rightarrow> a | None \<Rightarrow> lc_reserved_tokens r)"

definition cost_charge :: "ledger_row \<Rightarrow> cost option" where
  "cost_charge r = (case lc_actual_cost r of Some a \<Rightarrow> Some a | None \<Rightarrow> lc_reserved_cost r)"

definition calls_of :: "db \<Rightarrow> string \<Rightarrow> ledger_row list" where
  "calls_of d rid = filter (\<lambda>r. lc_input_id r = rid) (trows (d_ledger d))"

definition within_cost :: "cost option \<Rightarrow> cost option \<Rightarrow> cost option list \<Rightarrow> bool" where
  "within_cost cap reserved costs =
     (case cap of
        None \<Rightarrow> True
      | Some c \<Rightarrow>
          (case reserved of
             None \<Rightarrow> False
           | Some r \<Rightarrow> None \<notin> set costs \<and> sum_list (map the costs) + r \<le> c))"

definition accepted_call :: "db \<Rightarrow> string \<Rightarrow> ledger_row option" where
  "accepted_call d key = find (\<lambda>r. lc_accepted_key r = Some key) (trows (d_ledger d))"

section \<open>Reserving\<close>

datatype reservation = Reused artifact | Reserved string

definition reserve ::
    "(json \<Rightarrow> string) \<Rightarrow> string \<Rightarrow> string \<Rightarrow> owner \<Rightarrow> string \<Rightarrow> int \<Rightarrow> cost option \<Rightarrow> time \<times> time \<times> time \<Rightarrow> db \<Rightarrow>
     exn + reservation \<times> db" where
  "reserve H aid rid owner step tokens cost clock d =
     (let (now1, now2, now3) = clock in
      if tokens \<le> 0 \<or> (case cost of None \<Rightarrow> False | Some c \<Rightarrow> c < 0) then Inl (Conflict ''invalid reservation'')
      else
      ebind (lock_owner rid owner now1 d) (\<lambda>(run, t).
      if t_last_manual_action t = Some ''TERMINATE'' then Inl BudgetExhausted
      else
      let key = call_key H rid step run in
      case accepted_call d key of
        Some old \<Rightarrow>
          if Some (H (value_json (lc_value old))) \<noteq> lc_value_hash old then Inl (Conflict ''artifact changed'')
          else Inr (Reused (lc_id old, H (value_json (lc_value old))), d)
      | None \<Rightarrow>
      ebind (model_timeout d run now2) (\<lambda>_.
      let calls = calls_of d rid; c = in_config run in
      if cf_max_calls c \<le> int (length calls)
         \<or> cf_max_tokens c < sum_list (map charge calls) + tokens
         \<or> \<not> within_cost (cf_max_cost c) cost (map cost_charge calls)
      then Inl BudgetExhausted
      else
      ebind (tadd IntegrityExn aid
        \<lparr>lc_id = aid, lc_input_id = rid, lc_step_key = key, lc_accepted_key = None,
         lc_ownership_epoch = snd owner, lc_status = CALL_RESERVED, lc_reserved_tokens = tokens,
         lc_actual_tokens = None, lc_reserved_cost = cost, lc_actual_cost = None, lc_value = None,
         lc_value_hash = None, lc_created_at = now3, lc_purpose = Some step,
         lc_model_name = cf_model_name c, lc_finished_at = None, lc_error_category = None\<rparr> (d_ledger d)) (\<lambda>ls.
      Inr (Reserved aid, d\<lparr>d_ledger := ls\<rparr>)))))"

section \<open>After the call\<close>

datatype outcome =
    Returned json "int option" "cost option"
  | Raised exn string "int option" "cost option" \<comment> \<open>the exception, its class, its \<open>tokens\<close> and \<open>cost\<close>\<close>

fun is_dict :: "json \<Rightarrow> bool" where
  "is_dict (JObj kvs) = True"
| "is_dict _ = False"

definition checked :: "outcome \<Rightarrow> outcome" where
  \<comment> \<open>the validation of what the call returned\<close>
  "checked out =
     (case out of
        Returned v tokens cost \<Rightarrow>
          if \<not> jok v then Raised TypeExn ''TypeError'' None None
          else if \<not> is_dict v \<or> (case tokens of None \<Rightarrow> False | Some n \<Rightarrow> n < 0)
                 \<or> (case cost of None \<Rightarrow> False | Some c \<Rightarrow> c < 0)
          then Raised (Conflict ''invalid artifact or usage'') ''Conflict'' None None
          else out
      | Raised e name tokens cost \<Rightarrow> out)"

abbreviation mod_call :: "string \<Rightarrow> (ledger_row \<Rightarrow> ledger_row) \<Rightarrow> db \<Rightarrow> db" where
  "mod_call k f \<equiv> d_ledger_update (tmod k f)"

definition record_unknown :: "string \<Rightarrow> string \<Rightarrow> int option \<Rightarrow> cost option \<Rightarrow> time \<Rightarrow> db \<Rightarrow> exn + unit \<times> db" where
  "record_unknown aid name tokens cost now d =
     (if tget (d_ledger d) aid = None then Inl AttributeExn
      else Inr ((), mod_call aid (\<lambda>r. r\<lparr>lc_status := CALL_UNKNOWN, lc_finished_at := Some now,
             lc_error_category := Some (take 64 name), lc_actual_tokens := tokens, lc_actual_cost := cost\<rparr>) d))"

definition accept_call ::
    "(json \<Rightarrow> string) \<Rightarrow> string \<Rightarrow> owner \<Rightarrow> string \<Rightarrow> string \<Rightarrow> json \<Rightarrow> int option \<Rightarrow> cost option \<Rightarrow> time \<times> time \<Rightarrow>
     db \<Rightarrow> exn + unit \<times> db" where
  "accept_call H rid owner aid key v tokens cost clock d =
     (let (now1, now2) = clock in
      ebind (lock_owner rid owner now1 d) (\<lambda>_.
      if tget (d_ledger d) aid = None then Inl AttributeExn
      else if list_ex (\<lambda>r. lc_accepted_key r = Some key \<and> lc_id r \<noteq> aid) (trows (d_ledger d)) then Inl IntegrityExn
      else Inr ((), mod_call aid (\<lambda>r. r\<lparr>lc_value := Some v, lc_value_hash := Some (H v),
             lc_actual_tokens := tokens, lc_actual_cost := cost, lc_accepted_key := Some key,
             lc_status := CALL_ACCEPTED, lc_finished_at := Some now2\<rparr>) d)))"

definition record_stale :: "string \<Rightarrow> int option \<Rightarrow> cost option \<Rightarrow> time \<Rightarrow> db \<Rightarrow> exn + unit \<times> db" where
  "record_stale aid tokens cost now d =
     (if tget (d_ledger d) aid = None then Inl AttributeExn
      else Inr ((), mod_call aid (\<lambda>r. r\<lparr>lc_status := CALL_STALE, lc_actual_tokens := tokens,
             lc_actual_cost := cost, lc_finished_at := Some now\<rparr>) d))"

definition finish_call ::
    "(json \<Rightarrow> string) \<Rightarrow> string \<Rightarrow> owner \<Rightarrow> string \<Rightarrow> string \<Rightarrow> outcome \<Rightarrow> time \<times> time \<Rightarrow> db \<Rightarrow> (exn + artifact) \<times> db" where
  \<comment> \<open>the transactions after the call, each committed on its own\<close>
  "finish_call H rid owner aid key out clock d =
     (case checked out of
        Raised e name tokens cost \<Rightarrow>
          (case commit (record_unknown aid name tokens cost (fst clock) d) d of
             (Inl e', d1) \<Rightarrow> (Inl e', d1)
           | (Inr u, d1) \<Rightarrow> (Inl e, d1))
      | Returned v tokens cost \<Rightarrow>
          (case commit (accept_call H rid owner aid key v tokens cost clock d) d of
             (Inr u, d1) \<Rightarrow> (Inr (aid, H v), d1)
           | (Inl e, d1) \<Rightarrow>
               if e \<noteq> StaleOwner then (Inl e, d1)
               else (case commit (record_stale aid tokens cost (snd clock) d1) d1 of
                       (Inl e', d2) \<Rightarrow> (Inl e', d2)
                     | (Inr u, d2) \<Rightarrow> (Inl StaleOwner, d2))))"

definition call_model ::
    "(json \<Rightarrow> string) \<Rightarrow> string \<Rightarrow> string \<Rightarrow> owner \<Rightarrow> string \<Rightarrow> int \<Rightarrow> cost option \<Rightarrow> (db \<Rightarrow> outcome \<times> db) \<Rightarrow>
     time \<times> time \<times> time \<Rightarrow> time \<times> time \<Rightarrow> db \<Rightarrow> (exn + artifact) \<times> db" where
  \<comment> \<open>\<open>invoke\<close>: the outcome of the call and what others made of the database meanwhile\<close>
  "call_model H aid rid owner step tokens cost invoke clock clock' d =
     (case commit (reserve H aid rid owner step tokens cost clock d) d of
        (Inl e, d1) \<Rightarrow> (Inl e, d1)
      | (Inr (Reused a), d1) \<Rightarrow> (Inr a, d1)
      | (Inr (Reserved k), d1) \<Rightarrow>
          (let (out, d2) = invoke d1;
               key = (case get_input d rid of None \<Rightarrow> [] | Some run \<Rightarrow> call_key H rid step run)
           in finish_call H rid owner k key out clock' d2))"

definition resolve :: "(json \<Rightarrow> string) \<Rightarrow> string \<Rightarrow> string \<Rightarrow> artifact \<Rightarrow> db \<Rightarrow> exn + json" where
  "resolve H rid step ref d =
     ebind (some_or AttributeExn (get_input d rid)) (\<lambda>run.
     case tget (d_ledger d) (fst ref) of
       None \<Rightarrow> Inl (Conflict ''invalid artifact reference'')
     | Some item \<Rightarrow>
         if lc_accepted_key item \<noteq> Some (call_key H rid step run) \<or> lc_status item \<noteq> CALL_ACCEPTED
            \<or> lc_value_hash item \<noteq> Some (snd ref) \<or> Some (H (value_json (lc_value item))) \<noteq> lc_value_hash item
         then Inl (Conflict ''invalid artifact reference'')
         else Inr (value_json (lc_value item)))"

section \<open>Runs of the ledger\<close>

inductive ledger_step :: "(json \<Rightarrow> string) \<Rightarrow> db \<Rightarrow> db \<Rightarrow> bool" for H where
  reserve: "reserve H aid rid owner step tokens cost clock d = Inr (r, d') \<Longrightarrow> ledger_step H d d'"
| unknown: "record_unknown aid name tokens cost now d = Inr (u, d') \<Longrightarrow> tget (d_ledger d) aid = Some r \<Longrightarrow>
     lc_status r = CALL_RESERVED \<Longrightarrow> ledger_step H d d'"
| accept: "accept_call H rid owner aid key v tokens cost clock d = Inr (u, d') \<Longrightarrow> tget (d_ledger d) aid = Some r \<Longrightarrow>
     lc_status r = CALL_RESERVED \<Longrightarrow> ledger_step H d d'"
| stale: "record_stale aid tokens cost now d = Inr (u, d') \<Longrightarrow> tget (d_ledger d) aid = Some r \<Longrightarrow>
     lc_status r = CALL_RESERVED \<Longrightarrow> ledger_step H d d'"
| elsewhere: "d_ledger d' = d_ledger d \<Longrightarrow>
     (\<And>rid run. get_input d rid = Some run \<Longrightarrow> \<exists>run'. get_input d' rid = Some run' \<and> in_config run' = in_config run
        \<and> in_input_hash run' = in_input_hash run \<and> in_config_hash run' = in_config_hash run) \<Longrightarrow> ledger_step H d d'"
  \<comment> \<open>the other services write no ledger row and never change the request or the configuration of a run\<close>

section \<open>The budget\<close>

definition counted :: "ledger_row \<Rightarrow> int" where
  \<comment> \<open>what a call used, at most its reservation\<close>
  "counted r = (case lc_actual_tokens r of None \<Rightarrow> lc_reserved_tokens r | Some a \<Rightarrow> min a (lc_reserved_tokens r))"

definition counted_cost :: "ledger_row \<Rightarrow> cost" where
  "counted_cost r = (case lc_actual_cost r of None \<Rightarrow> the (lc_reserved_cost r) | Some a \<Rightarrow> min a (the (lc_reserved_cost r)))"

definition within_budget :: "run_config \<Rightarrow> ledger_row list \<Rightarrow> bool" where
  "within_budget c calls \<longleftrightarrow> calls = [] \<or>
     int (length calls) \<le> cf_max_calls c \<and> sum_list (map counted calls) \<le> cf_max_tokens c
     \<and> (\<forall>cap. cf_max_cost c = Some cap \<longrightarrow>
          (\<forall>r \<in> set calls. lc_reserved_cost r \<noteq> None) \<and> sum_list (map counted_cost calls) \<le> cap)"

definition budget_kept :: "db \<Rightarrow> bool" where
  "budget_kept d \<longleftrightarrow> (\<forall>rid run. get_input d rid = Some run \<longrightarrow> within_budget (in_config run) (calls_of d rid))"

definition row_ok :: "(json \<Rightarrow> string) \<Rightarrow> db \<Rightarrow> string \<Rightarrow> ledger_row \<Rightarrow> bool" where
  "row_ok H d k r \<longleftrightarrow> lc_id r = k \<and> get_input d (lc_input_id r) \<noteq> None
     \<and> (lc_status r = CALL_RESERVED \<longrightarrow> lc_actual_tokens r = None \<and> lc_actual_cost r = None)
     \<and> (lc_accepted_key r \<noteq> None \<longleftrightarrow> lc_status r = CALL_ACCEPTED)"

definition ledger_inv :: "(json \<Rightarrow> string) \<Rightarrow> db \<Rightarrow> bool" where
  "ledger_inv H d \<longleftrightarrow> keys_ok (d_ledger d) \<and> (\<forall>k r. tget (d_ledger d) k = Some r \<longrightarrow> row_ok H d k r)
     \<and> (\<forall>j k r s key. tget (d_ledger d) j = Some r \<longrightarrow> tget (d_ledger d) k = Some s \<longrightarrow>
          lc_accepted_key r = Some key \<longrightarrow> lc_accepted_key s = Some key \<longrightarrow> j = k)
     \<and> budget_kept d"

lemma tmod_map: "keys_ok t \<Longrightarrow> tmod k f t = map (\<lambda>(j, v). (j, if j = k then f v else v)) t"
proof (induction t)
  case (Cons kv t)
  obtain j v where kv: "kv = (j, v)" by (cases kv)
  have ok: "keys_ok t" and new: "j \<notin> fst ` set t" using Cons.prems by (auto simp: keys_ok_def kv)
  show ?case
  proof (cases "j = k")
    case True
    have "map (\<lambda>(j, v). (j, if j = k then f v else v)) t = t"
      by (rule map_idI) (use new True in force)
    then show ?thesis by (simp add: kv True tmod_def tput_def)
  next
    case False
    then have "tmod k f (kv # t) = kv # tmod k f t" by (simp add: kv tmod_def tput_def split: option.split)
    with Cons.IH [OF ok] False show ?thesis by (simp add: kv)
  qed
qed (simp add: tmod_def)

lemma trows_tmod: "keys_ok t \<Longrightarrow> trows (tmod k f t) = map (\<lambda>(j, v). if j = k then f v else v) t"
  by (simp add: tmod_map trows_def split_def)

lemma calls_of_mod:
  assumes "keys_ok (d_ledger d)" and "\<And>r. lc_input_id (f r) = lc_input_id r"
  shows "calls_of (mod_call k f d) rid
    = map (\<lambda>(j, v). if j = k then f v else v) (filter (\<lambda>(j, v). lc_input_id v = rid) (d_ledger d))"
proof -
  have "filter (\<lambda>r. lc_input_id r = rid) (map (\<lambda>(j, v). if j = k then f v else v) t)
      = map (\<lambda>(j, v). if j = k then f v else v) (filter (\<lambda>(j, v). lc_input_id v = rid) t)" for t
  proof (induction t)
    case (Cons kv t)
    have same: "lc_input_id (if j = k then f v else v) = lc_input_id v" for j v by (simp add: assms(2))
    show ?case using Cons by (cases kv) (simp add: same)
  qed simp
  then show ?thesis by (simp add: calls_of_def trows_tmod assms(1))
qed

lemma calls_of_rows: "calls_of d rid = map snd (filter (\<lambda>(j, v). lc_input_id v = rid) (d_ledger d))"
  by (simp add: calls_of_def trows_def filter_map comp_def split_def)

lemma within_budget_mod:
  assumes "keys_ok (d_ledger d)" and "within_budget c (calls_of d rid)"
    and "\<And>r. lc_input_id (f r) = lc_input_id r \<and> lc_reserved_cost (f r) = lc_reserved_cost r"
    and "\<And>r. tget (d_ledger d) k = Some r \<Longrightarrow> counted (f r) \<le> counted r \<and> counted_cost (f r) \<le> counted_cost r"
  shows "within_budget c (calls_of (mod_call k f d) rid)"
proof -
  define rows where "rows = filter (\<lambda>(j, v). lc_input_id v = rid) (d_ledger d)"
  let ?h = "\<lambda>(j, v). if j = k then f v else v"
  have old: "calls_of d rid = map snd rows" and new: "calls_of (mod_call k f d) rid = map ?h rows"
    using calls_of_mod [OF assms(1), of f k rid] assms(3) by (simp_all add: calls_of_rows rows_def)
  have row: "tget (d_ledger d) j = Some v" if "(j, v) \<in> set rows" for j v
    using that assms(1) by (simp add: rows_def keys_ok_def tget_def)
  have "counted (?h x) \<le> counted (snd x) \<and> counted_cost (?h x) \<le> counted_cost (snd x)
      \<and> lc_reserved_cost (?h x) = lc_reserved_cost (snd x)" if "x \<in> set rows" for x
    using row [of "fst x" "snd x"] that assms(3,4) by (cases x) auto
  then have "sum_list (map (\<lambda>x. counted (?h x)) rows) \<le> sum_list (map (\<lambda>x. counted (snd x)) rows)"
    and "sum_list (map (\<lambda>x. counted_cost (?h x)) rows) \<le> sum_list (map (\<lambda>x. counted_cost (snd x)) rows)"
    and "\<And>x. x \<in> set rows \<Longrightarrow> lc_reserved_cost (?h x) = lc_reserved_cost (snd x)"
    by (auto intro!: sum_list_mono)
  with assms(2) show ?thesis
    unfolding within_budget_def old new by (auto simp: comp_def image_iff)
qed

lemma reserve_cases:
  assumes step: "reserve H aid rid owner step tokens cost clock d = Inr (r, d')"
  obtains (reused) run old where "get_input d rid = Some run" and "accepted_call d (call_key H rid step run) = Some old"
      and "r = Reused (lc_id old, H (value_json (lc_value old)))" and "d' = d"
  | (reserved) run row where "get_input d rid = Some run" and "tget (d_ledger d) aid = None"
      and "accepted_call d (call_key H rid step run) = None"
      and "0 < tokens" and "int (length (calls_of d rid)) < cf_max_calls (in_config run)"
      and "sum_list (map charge (calls_of d rid)) + tokens \<le> cf_max_tokens (in_config run)"
      and "within_cost (cf_max_cost (in_config run)) cost (map cost_charge (calls_of d rid))"
      and "lc_id row = aid" and "lc_input_id row = rid" and "lc_accepted_key row = None"
      and "lc_status row = CALL_RESERVED" and "lc_reserved_tokens row = tokens" and "lc_actual_tokens row = None"
      and "lc_reserved_cost row = cost" and "lc_actual_cost row = None"
      and "r = Reserved aid" and "d' = d\<lparr>d_ledger := d_ledger d @ [(aid, row)]\<rparr>"
proof -
  obtain now1 now2 now3 where clock: "clock = (now1, now2, now3)" by (cases clock)
  obtain run t where l: "lock_owner rid owner now1 d = Inr (run, t)" and pos: "0 < tokens"
    and rest: "(case accepted_call d (call_key H rid step run) of
        Some old \<Rightarrow>
          if Some (H (value_json (lc_value old))) \<noteq> lc_value_hash old then Inl (Conflict ''artifact changed'')
          else Inr (Reused (lc_id old, H (value_json (lc_value old))), d)
      | None \<Rightarrow>
      ebind (model_timeout d run now2) (\<lambda>_.
      if cf_max_calls (in_config run) \<le> int (length (calls_of d rid))
         \<or> cf_max_tokens (in_config run) < sum_list (map charge (calls_of d rid)) + tokens
         \<or> \<not> within_cost (cf_max_cost (in_config run)) cost (map cost_charge (calls_of d rid))
      then Inl BudgetExhausted
      else
      ebind (tadd IntegrityExn aid
        \<lparr>lc_id = aid, lc_input_id = rid, lc_step_key = call_key H rid step run, lc_accepted_key = None,
         lc_ownership_epoch = snd owner, lc_status = CALL_RESERVED, lc_reserved_tokens = tokens,
         lc_actual_tokens = None, lc_reserved_cost = cost, lc_actual_cost = None, lc_value = None,
         lc_value_hash = None, lc_created_at = now3, lc_purpose = Some step,
         lc_model_name = cf_model_name (in_config run), lc_finished_at = None, lc_error_category = None\<rparr>
        (d_ledger d)) (\<lambda>ls.
      Inr (Reserved aid, d\<lparr>d_ledger := ls\<rparr>)))) = Inr (r, d')"
    using step unfolding reserve_def clock Let_def prod.case
    by (elim raise_InrE ebind_InrE prod_InrE) simp
  have run: "get_input d rid = Some run" using l by (simp add: lock_owner_Inr)
  show thesis
  proof (cases "accepted_call d (call_key H rid step run)")
    case (Some old)
    with rest show ?thesis by (intro reused [OF run Some]) (auto split: if_splits)
  next
    case None
    note rest = rest [unfolded None option.case]
    show ?thesis
      by (rule ebind_InrE [OF rest], elim result_elims, rule reserved [OF run _ None pos])
        (auto simp: tadd_eq_Inr)
  qed
qed

definition settled :: "string \<Rightarrow> (ledger_row \<Rightarrow> ledger_row) \<Rightarrow> db \<Rightarrow> bool" where
  \<comment> \<open>a write of one transaction after the call\<close>
  "settled aid f d \<longleftrightarrow>
     (\<forall>r. lc_id (f r) = lc_id r \<and> lc_input_id (f r) = lc_input_id r \<and> lc_reserved_cost (f r) = lc_reserved_cost r
        \<and> lc_reserved_tokens (f r) = lc_reserved_tokens r \<and> lc_status (f r) \<noteq> CALL_RESERVED)
     \<and> ((\<forall>r. lc_accepted_key (f r) = lc_accepted_key r \<and> lc_status (f r) \<noteq> CALL_ACCEPTED)
        \<or> (\<exists>key. (\<forall>r. lc_accepted_key (f r) = Some key \<and> lc_status (f r) = CALL_ACCEPTED)
             \<and> (\<forall>s \<in> set (trows (d_ledger d)). lc_accepted_key s = Some key \<longrightarrow> lc_id s = aid)))"

lemma record_unknown_settled:
  "record_unknown aid name tokens cost now d = Inr (u, d') \<Longrightarrow> \<exists>f. d' = mod_call aid f d \<and> settled aid f d"
  unfolding record_unknown_def settled_def
  by (elim result_elims, intro exI conjI, assumption, auto)

lemma record_stale_settled:
  "record_stale aid tokens cost now d = Inr (u, d') \<Longrightarrow> \<exists>f. d' = mod_call aid f d \<and> settled aid f d"
  unfolding record_stale_def settled_def
  by (elim result_elims, intro exI conjI, assumption, auto)

lemma accept_call_settled:
  "accept_call H rid owner aid key v tokens cost clock d = Inr (u, d') \<Longrightarrow> \<exists>f. d' = mod_call aid f d \<and> settled aid f d"
  unfolding accept_call_def settled_def Let_def
  by (elim result_elims, intro exI conjI, assumption, auto simp: list_ex_iff)

lemma settled_inv:
  assumes "ledger_inv H d" and "settled aid f d" and "tget (d_ledger d) aid = Some r" and "lc_status r = CALL_RESERVED"
  shows "ledger_inv H (mod_call aid f d)"
proof -
  let ?d = "mod_call aid f d"
  have ok: "keys_ok (d_ledger d)" and rows: "\<And>k s. tget (d_ledger d) k = Some s \<Longrightarrow> row_ok H d k s"
    and budget: "budget_kept d"
    and uniq: "\<And>j k r s key. tget (d_ledger d) j = Some r \<Longrightarrow> tget (d_ledger d) k = Some s \<Longrightarrow>
          lc_accepted_key r = Some key \<Longrightarrow> lc_accepted_key s = Some key \<Longrightarrow> j = k"
    using assms(1) unfolding ledger_inv_def by blast+
  note f = assms(2)[unfolded settled_def]
  have r: "row_ok H d aid r" using rows assms(3) by blast
  then have free: "lc_actual_tokens r = None" "lc_actual_cost r = None" "lc_accepted_key r = None"
    using assms(4) by (auto simp: row_ok_def)
  have "counted (f s) \<le> counted s \<and> counted_cost (f s) \<le> counted_cost s" if "tget (d_ledger d) aid = Some s" for s
    using that assms(3) free f by (auto simp: counted_def counted_cost_def split: option.split)
  then have "within_budget c (calls_of ?d rid)" if "within_budget c (calls_of d rid)" for c rid
    using within_budget_mod [OF ok that, of f aid] f by blast
  then have budget': "budget_kept ?d" using budget by (simp add: budget_kept_def)
  have rows': "row_ok H ?d k s" if "tget (d_ledger ?d) k = Some s" for k s
  proof (cases "k = aid")
    case True
    with that assms(3) have "s = f r" by simp
    with r True f free show ?thesis by (auto simp: row_ok_def)
  next
    case False
    with that rows show ?thesis by (simp add: row_ok_def)
  qed
  have uniq': "j = k" if "tget (d_ledger ?d) j = Some s" "tget (d_ledger ?d) k = Some s'"
    "lc_accepted_key s = Some key" "lc_accepted_key s' = Some key" for j k s s' key
  proof -
    have other: "lc_accepted_key (f r) \<noteq> Some key" if "tget (d_ledger d) i = Some x" "lc_accepted_key x = Some key" "i \<noteq> aid" for i x
    proof
      assume a: "lc_accepted_key (f r) = Some key"
      with f free(3) have "\<forall>s \<in> set (trows (d_ledger d)). lc_accepted_key s = Some key \<longrightarrow> lc_id s = aid"
        by (metis option.distinct(1) option.inject)
      with that tget_in_trows [OF that(1)] rows [OF that(1)] show False by (simp add: row_ok_def)
    qed
    show ?thesis
      using that uniq [of j s k s' key] other [of j s] other [of k s'] assms(3)
      by (cases "j = aid"; cases "k = aid") (auto split: if_splits)
  qed
  have "keys_ok (d_ledger ?d)" using ok by simp
  with rows' uniq' budget' show ?thesis unfolding ledger_inv_def by blast
qed

lemma charge_counted: "counted r \<le> charge r"
  by (simp add: counted_def charge_def split: option.split)

lemma cost_charge_counted: "lc_reserved_cost r \<noteq> None \<Longrightarrow> counted_cost r \<le> the (cost_charge r)"
  by (auto simp: counted_cost_def cost_charge_def split: option.split)

lemma reserve_inv:
  assumes step: "reserve H aid rid owner step tokens cost clock d = Inr (res, d')" and inv: "ledger_inv H d"
  shows "ledger_inv H d'"
  using step
proof (cases rule: reserve_cases)
  case (reserved run row)
  have rows: "\<And>k s. tget (d_ledger d) k = Some s \<Longrightarrow> row_ok H d k s" and ok: "keys_ok (d_ledger d)"
    using inv by (simp_all add: ledger_inv_def)
  have calls: "calls_of d' j = calls_of d j @ (if j = rid then [row] else [])" for j
    using reserved(9) by (simp add: calls_of_def reserved(17))
  have same: "d_inputs d' = d_inputs d" by (simp add: reserved(17))
  have "within_budget (in_config run) (calls_of d rid @ [row])"
  proof -
    have old: "within_budget (in_config run) (calls_of d rid)"
      using inv reserved(1) by (simp add: ledger_inv_def budget_kept_def)
    have "sum_list (map counted (calls_of d rid)) \<le> sum_list (map charge (calls_of d rid))"
      by (intro sum_list_mono charge_counted)
    moreover have "sum_list (map counted_cost (calls_of d rid)) + the cost \<le> cap
        \<and> (\<forall>r \<in> set (calls_of d rid). lc_reserved_cost r \<noteq> None) \<and> cost \<noteq> None"
      if cap: "cf_max_cost (in_config run) = Some cap" for cap
    proof -
      have known: "\<forall>r \<in> set (calls_of d rid). lc_reserved_cost r \<noteq> None"
        using old cap by (auto simp: within_budget_def)
      obtain c where c: "cost = Some c"
        and le: "sum_list (map (\<lambda>r. the (cost_charge r)) (calls_of d rid)) + c \<le> cap"
        using reserved(7) cap by (auto simp: within_cost_def comp_def split: option.splits)
      have "sum_list (map counted_cost (calls_of d rid)) \<le> sum_list (map (\<lambda>r. the (cost_charge r)) (calls_of d rid))"
        using known cost_charge_counted by (intro sum_list_mono) blast
      with le c known show ?thesis by simp
    qed
    ultimately show ?thesis
      using reserved(5,6,12-15) by (auto simp: within_budget_def counted_def counted_cost_def)
  qed
  then have "budget_kept d'" using inv reserved(1) by (auto simp: budget_kept_def ledger_inv_def same calls)
  moreover have "row_ok H d' k s" if "tget (d_ledger d') k = Some s" for k s
    using that rows [of k s] reserved(1,2,8-11,13,15) by (auto simp: reserved(17) row_ok_def split: if_splits)
  ultimately show ?thesis
    using inv ok reserved(2,10) unfolding ledger_inv_def by (auto simp: reserved(17) split: if_splits)
qed (use inv in simp)

lemma ledger_step_inv: "ledger_step H d d' \<Longrightarrow> ledger_inv H d \<Longrightarrow> ledger_inv H d'"
proof (induction rule: ledger_step.induct)
  case (reserve aid rid owner step tokens cost clock d r d')
  then show ?case using reserve_inv by blast
next
  case (elsewhere d' d)
  have calls: "calls_of d' rid = calls_of d rid" for rid by (simp add: calls_of_def elsewhere.hyps(1))
  have kept: "get_input d' rid \<noteq> None" if "get_input d rid \<noteq> None" for rid
    using elsewhere.hyps(2) that by blast
  have none: "calls_of d rid = []" if "get_input d rid = None" for rid
  proof (rule ccontr)
    assume "calls_of d rid \<noteq> []"
    then obtain s where "s \<in> set (trows (d_ledger d))" "lc_input_id s = rid"
      by (auto simp: calls_of_def filter_empty_conv)
    moreover have "keys_ok (d_ledger d)" using elsewhere.prems by (simp add: ledger_inv_def)
    ultimately obtain k where k: "tget (d_ledger d) k = Some s" "lc_input_id s = rid"
      by (metis trows_tget)
    then have "row_ok H d k s" using elsewhere.prems by (simp add: ledger_inv_def)
    with k that show False by (simp add: row_ok_def)
  qed
  have "within_budget (in_config run') (calls_of d' rid)" if run': "get_input d' rid = Some run'" for rid run'
  proof (cases "get_input d rid")
    case None
    then show ?thesis by (simp add: calls none within_budget_def)
  next
    case (Some run)
    with elsewhere.hyps(2) run' have "in_config run' = in_config run" by fastforce
    with Some elsewhere.prems show ?thesis by (simp add: calls ledger_inv_def budget_kept_def)
  qed
  then have "budget_kept d'" by (simp add: budget_kept_def)
  moreover have "row_ok H d' k s" if "row_ok H d k s" for k s using that kept by (simp add: row_ok_def)
  ultimately show ?case
    using elsewhere.prems unfolding ledger_inv_def elsewhere.hyps(1) by blast
qed (blast dest: record_unknown_settled accept_call_settled record_stale_settled intro: settled_inv)+

lemma ledger_steps_inv: "(ledger_step H)\<^sup>*\<^sup>* d d' \<Longrightarrow> ledger_inv H d \<Longrightarrow> ledger_inv H d'"
  by (induction rule: rtranclp_induct) (auto intro: ledger_step_inv)

lemma calls_of_charge:
  "sum_list (map charge (calls_of d rid)) =
     sum_list (map counted (calls_of d rid)) + sum_list (map (\<lambda>r. charge r - counted r) (calls_of d rid))"
  by (simp add: sum_list_addf [symmetric])

text \<open>
  C40: Whatever the workers of a run do, however often they crash and repeat, the run never makes more model calls than
  its configuration allows, and what its calls used exceeds its token limit by no more than single calls
  used beyond their own reservations; with a cost limit, the same holds for the cost and every call has a known price.
\<close>

theorem budget_never_exceeded:
  assumes "(ledger_step H)\<^sup>*\<^sup>* d d'" and "ledger_inv H d" and "get_input d' rid = Some run" and "calls_of d' rid \<noteq> []"
  shows "int (length (calls_of d' rid)) \<le> cf_max_calls (in_config run)
    \<and> sum_list (map charge (calls_of d' rid))
        \<le> cf_max_tokens (in_config run) + sum_list (map (\<lambda>r. charge r - counted r) (calls_of d' rid))
    \<and> (\<forall>r \<in> set (calls_of d' rid). charge r - counted r = (case lc_actual_tokens r of None \<Rightarrow> 0
         | Some a \<Rightarrow> max 0 (a - lc_reserved_tokens r)))
    \<and> (\<forall>cap. cf_max_cost (in_config run) = Some cap \<longrightarrow>
         (\<forall>r \<in> set (calls_of d' rid). lc_reserved_cost r \<noteq> None)
         \<and> sum_list (map counted_cost (calls_of d' rid)) \<le> cap)"
proof -
  have "within_budget (in_config run) (calls_of d' rid)"
    using ledger_steps_inv [OF assms(1,2)] assms(3) by (simp add: ledger_inv_def budget_kept_def)
  with assms(4) show ?thesis
    unfolding calls_of_charge by (auto simp: within_budget_def charge_def counted_def split: option.split)
qed

section \<open>Accepted results\<close>

definition accepted_as :: "(json \<Rightarrow> string) \<Rightarrow> string \<Rightarrow> string \<Rightarrow> string \<Rightarrow> json \<Rightarrow> db \<Rightarrow> bool" where
  "accepted_as H rid step aid v d \<longleftrightarrow> (\<exists>run r. get_input d rid = Some run \<and> tget (d_ledger d) aid = Some r
     \<and> lc_accepted_key r = Some (call_key H rid step run) \<and> lc_status r = CALL_ACCEPTED
     \<and> lc_value r = Some v \<and> lc_value_hash r = Some (H v))"

lemma accepted_kept:
  assumes "ledger_step H d d'" and "accepted_as H rid step aid v d"
  shows "accepted_as H rid step aid v d'"
  using assms
proof (induction rule: ledger_step.induct)
  case (reserve aid' rid' owner step' tokens cost clock d r d')
  from reserve.hyps show ?case
    by (cases rule: reserve_cases) (use reserve.prems in \<open>auto simp: accepted_as_def\<close>)
next
  case (unknown aid' name tokens cost now d u d' r)
  then show ?case by (auto simp: record_unknown_def accepted_as_def split: if_splits)
next
  case (accept rid' owner aid' key w tokens cost clock d u d' r)
  then show ?case by (auto simp: accept_call_def accepted_as_def Let_def ebind_eq_Inr split: if_splits prod.splits)
next
  case (stale aid' tokens cost now d u d' r)
  then show ?case by (auto simp: record_stale_def accepted_as_def split: if_splits)
next
  case (elsewhere d' d)
  from elsewhere.prems obtain run r where run: "get_input d rid = Some run"
    and r: "tget (d_ledger d) aid = Some r \<and> lc_accepted_key r = Some (call_key H rid step run)
     \<and> lc_status r = CALL_ACCEPTED \<and> lc_value r = Some v \<and> lc_value_hash r = Some (H v)"
    by (auto simp: accepted_as_def)
  from elsewhere.hyps(2) [OF run] obtain run' where "get_input d' rid = Some run'"
    and "call_key H rid step run' = call_key H rid step run"
    by (auto simp: call_key_def)
  with r elsewhere.hyps(1) show ?case by (auto simp: accepted_as_def)
qed

lemma accepted_steps: "(ledger_step H)\<^sup>*\<^sup>* d d' \<Longrightarrow> accepted_as H rid step aid v d \<Longrightarrow> accepted_as H rid step aid v d'"
  by (induction rule: rtranclp_induct) (auto intro: accepted_kept)

lemma accepted_found:
  assumes "ledger_inv H d" and "accepted_as H rid step aid v d" and "get_input d rid = Some run"
  shows "\<exists>old. accepted_call d (call_key H rid step run) = Some old \<and> lc_id old = aid \<and> lc_value old = Some v"
proof -
  obtain r where r: "tget (d_ledger d) aid = Some r" "lc_accepted_key r = Some (call_key H rid step run)" "lc_value r = Some v"
    using assms(2,3) by (auto simp: accepted_as_def)
  have "accepted_call d (call_key H rid step run) \<noteq> None"
    using r tget_in_trows [OF r(1)] by (auto simp: accepted_call_def find_None_iff)
  then obtain old where old: "accepted_call d (call_key H rid step run) = Some old" by blast
  then have "old \<in> set (trows (d_ledger d))" "lc_accepted_key old = Some (call_key H rid step run)"
    by (auto simp: accepted_call_def find_Some_iff)
  moreover from this obtain k where "tget (d_ledger d) k = Some old"
    using assms(1) trows_tget [of "d_ledger d" old] by (auto simp: ledger_inv_def)
  ultimately have "k = aid" using assms(1) r(1,2) unfolding ledger_inv_def by blast
  with \<open>tget (d_ledger d) k = Some old\<close> r have "old = r" by simp
  then show ?thesis using old r assms(1) by (auto simp: ledger_inv_def row_ok_def)
qed

text \<open>
  A result is accepted only from the worker that holds the run at that moment. From then on, whatever any
  worker does, the step is never paid again: every further call of it returns the accepted result
  without a new reservation, and the reference resolves to exactly the accepted value.
\<close>

theorem accepted_result_final:
  assumes "accept_call H rid owner aid (call_key H rid step run) v tokens cost clock d = Inr (u, d1)"
    and "ledger_inv H d" and "get_input d rid = Some run"
    and "tget (d_ledger d) aid = Some r" and "lc_status r = CALL_RESERVED"
    and "(ledger_step H)\<^sup>*\<^sup>* d1 d2"
  shows "holds_run rid d owner (fst clock) \<and> resolve H rid step (aid, H v) d2 = Inr v
    \<and> (\<forall>aid' owner' n c clock' res d3. reserve H aid' rid owner' step n c clock' d2 = Inr (res, d3) \<longrightarrow>
         res = Reused (aid, H v) \<and> d3 = d2)"
proof -
  have step1: "ledger_step H d d1" by (rule ledger_step.accept [OF assms(1,4,5)])
  have "holds_run rid d owner (fst clock)"
    using assms(1) by (auto simp: accept_call_def holds_run_def Let_def ebind_eq_Inr split: prod.splits)
  moreover have "accepted_as H rid step aid v d1"
    using assms(1,3) by (auto simp: accept_call_def accepted_as_def Let_def ebind_eq_Inr split: if_splits prod.splits)
  then have acc: "accepted_as H rid step aid v d2" by (rule accepted_steps [OF assms(6)])
  then have "resolve H rid step (aid, H v) d2 = Inr v" by (auto simp: resolve_def accepted_as_def value_json_def)
  moreover have inv: "ledger_inv H d2" using ledger_steps_inv [OF assms(6)] ledger_step_inv [OF step1 assms(2)] by blast
  moreover have "res = Reused (aid, H v) \<and> d3 = d2"
    if again: "reserve H aid' rid owner' step n c clock' d2 = Inr (res, d3)" for aid' owner' n c clock' res d3
    using again
  proof (cases rule: reserve_cases)
    case (reused run' old)
    with accepted_found [OF inv acc reused(1)] show ?thesis by (auto simp: value_json_def)
  next
    case (reserved run' row)
    with accepted_found [OF inv acc reserved(1)] show ?thesis by simp
  qed
  ultimately show ?thesis by blast
qed

section \<open>A call of a run\<close>

definition sample_call :: ledger_row where
  "sample_call = \<lparr>lc_id = ''call'', lc_input_id = ''run'', lc_step_key = ''digest'', lc_accepted_key = None,
     lc_ownership_epoch = 1, lc_status = CALL_RESERVED, lc_reserved_tokens = 1000, lc_actual_tokens = None,
     lc_reserved_cost = None, lc_actual_cost = None, lc_value = None, lc_value_hash = None, lc_created_at = 10,
     lc_purpose = Some ''analyze'', lc_model_name = None, lc_finished_at = None, lc_error_category = None\<rparr>"

definition call_reserved :: db where
  "call_reserved = claimed\<lparr>d_ledger := [(''call'', sample_call)]\<rparr>"

lemma call_reserved_inv: "ledger_inv H call_reserved"
proof -
  have calls: "calls_of call_reserved rid = (if rid = ''run'' then [sample_call] else [])" for rid
    by (simp add: calls_of_def call_reserved_def trows_def sample_call_def)
  have "within_budget (in_config run) (calls_of call_reserved rid)" if "get_input call_reserved rid = Some run" for rid run
  proof (cases "rid = ''run''")
    case True
    with that have "run = first_run" by (simp add: call_reserved_def)
    then show ?thesis
      by (simp add: calls True within_budget_def queued_run_def base_config_def counted_def sample_call_def)
  qed (simp add: calls within_budget_def)
  then have "budget_kept call_reserved" by (simp add: budget_kept_def)
  then show ?thesis
    by (simp add: ledger_inv_def call_reserved_def row_ok_def sample_call_def keys_ok_def)
qed

theorem budget_never_exceeded_witness:
  "int (length (calls_of call_reserved ''run'')) \<le> cf_max_calls base_config"
proof -
  have run: "get_input call_reserved ''run'' = Some first_run" by (simp add: call_reserved_def)
  have calls: "calls_of call_reserved ''run'' \<noteq> []" by (simp add: calls_of_def call_reserved_def trows_def sample_call_def)
  have "(ledger_step sample_hash)\<^sup>*\<^sup>* call_reserved call_reserved" for sample_hash by simp
  from budget_never_exceeded [OF this call_reserved_inv run calls] show ?thesis by (simp add: queued_run_def)
qed

theorem accepted_result_final_witness:
  "\<exists>u (d1 :: db). accept_call (\<lambda>j. ''digest'') ''run'' (''first'', 1) ''call'' ''digest'' (JObj []) (Some 800) None (11, 12) call_reserved
      = Inr (u, d1) \<and> resolve (\<lambda>j. ''digest'') ''run'' ''analyze'' (''call'', ''digest'') d1 = Inr (JObj [])"
proof -
  have "lock_owner ''run'' (''first'', 1) 11 call_reserved = Inr (first_run, first_task)"
    by (simp add: lock_owner_Inr owns_True call_reserved_def granted_task_def seconds_def)
  then have "\<exists>d1. accept_call (\<lambda>j. ''digest'') ''run'' (''first'', 1) ''call''
      (call_key (\<lambda>j. ''digest'') ''run'' ''analyze'' first_run) (JObj []) (Some 800) None (11, 12) call_reserved = Inr ((), d1)"
    by (simp add: accept_call_def call_reserved_def trows_def sample_call_def)
  then obtain d1 where step: "accept_call (\<lambda>j. ''digest'') ''run'' (''first'', 1) ''call''
      (call_key (\<lambda>j. ''digest'') ''run'' ''analyze'' first_run) (JObj []) (Some 800) None (11, 12) call_reserved = Inr ((), d1)"
    by blast
  have rows: "get_input call_reserved ''run'' = Some first_run" "tget (d_ledger call_reserved) ''call'' = Some sample_call"
    "lc_status sample_call = CALL_RESERVED"
    by (simp_all add: call_reserved_def sample_call_def)
  have "(ledger_step (\<lambda>j. ''digest''))\<^sup>*\<^sup>* d1 d1" by simp
  from accepted_result_final [OF step call_reserved_inv rows this] step show ?thesis
    by (auto simp: call_key_def)
qed

end
