(* ===== verification/Graph_Approval.thy ===== *)
theory Graph_Approval
  imports Command "HOL-Library.List_Lexorder" "HOL-Library.Char_ord"
begin

text \<open>
  \<open>backend/app/services/graph_approval_service.py\<close>: the seller's decision on an offer of the graph runtime, the
  execution that applies it, and the reconciliation of approvals and offers whose basis is gone.

  \<open>H\<close> is the digest, \<open>token\<close> a fresh identifier. A product without a policy (which the catalogue excludes)
  raises when its context is loaded; the fault hook of the tests is left out.
\<close>

section \<open>The context of an approval\<close>

definition lock_execution :: "db \<Rightarrow> int \<Rightarrow> owner \<Rightarrow> time \<Rightarrow> exn + approval_execution" where
  "lock_execution d aid owner now =
     (case tget (d_executions d) aid of
        None \<Rightarrow> Inl StaleOwner
      | Some x \<Rightarrow>
          if ex_lease_token x \<noteq> Some (fst owner) \<or> ex_ownership_epoch x \<noteq> snd owner
             \<or> (case ex_lease_until x of None \<Rightarrow> True | Some e \<Rightarrow> e \<le> now)
          then Inl StaleOwner
          else Inr x)"

type_synonym context_rows = "session \<times> product \<times> policy \<times> offer option \<times> approval"

definition lock_context :: "db \<Rightarrow> int \<Rightarrow> string option \<Rightarrow> exn + context_rows" where
  "lock_context d aid seller =
     (case get_approval d aid of
        None \<Rightarrow> Inl (ServiceExn ApprovalNotFound)
      | Some a \<Rightarrow>
      (case get_session d (ap_session_id a) of
        None \<Rightarrow> Inl (ServiceExn ApprovalNotFound)
      | Some n \<Rightarrow>
      if ns_graph_version n = None \<or> ns_graph_version n = Some [] then Inl (ServiceExn ApprovalNotFound)
      else
      ebind (some_or AttributeExn (get_product d (ns_product_id n))) (\<lambda>p.
      if seller \<noteq> None \<and> seller \<noteq> Some (p_seller_id p) then Inl (ServiceExn ApprovalNotFound)
      else
      ebind (some_or AttributeExn (get_policy d (p_id p))) (\<lambda>pol.
      Inr (n, p, pol, get_offer d (ap_offer_id a), a)))))"

definition reconcile_approval :: "(json \<Rightarrow> string) \<Rightarrow> context_rows \<Rightarrow> time \<Rightarrow> db \<Rightarrow> exn + db" where
  "reconcile_approval H ctx now d =
     (let (n, p, pol, offer, a) = ctx in
      if ns_status n = AGREED then Inr d
      else if ap_effect_status a = Some INVALIDATED \<or> ap_status a = AP_REJECTED then Inr d
      else
      let expired = (ap_status a = AP_PENDING \<and> ap_expires_at a \<le> now) in
      ebind (if expired then Inr False else basis_valid H d n p pol offer now) (\<lambda>ok.
      if ok then Inr d
      else
      ebind (some_or AttributeExn offer) (\<lambda>off.
      let reason = (if expired then ''APPROVAL_EXPIRED'' else ''OFFER_BASIS_INVALID'');
          current = (ns_current_offer_id n = Some (of_id off));
          after = ns_version n + (if current then 1 else 0);
          d1 = (if current then mod_session (ns_id n) (\<lambda>s. s\<lparr>ns_version := ns_version s + 1\<rparr>) d else d)
      in
      ebind (invalidate_approval H now reason (ns_id n) expired (Some (ns_version n, after)) (ap_id a) d1) (\<lambda>d2.
      invalidate_offer H now reason (ns_id n) (Some off) d2))))"

section \<open>The seller's decision\<close>

definition decision_key :: "(json \<Rightarrow> string) \<Rightarrow> string \<Rightarrow> string \<Rightarrow> string" where
  "decision_key H seller request = H (JArr [JStr ''seller-approval'', JStr seller, JStr request])"

definition get_decision :: "(json \<Rightarrow> string) \<Rightarrow> string \<Rightarrow> int \<Rightarrow> string \<Rightarrow> db \<Rightarrow> exn + json" where
  \<comment> \<open>\<open>get_request\<close>: the decision recorded under a request\<close>
  "get_decision H seller aid request d =
     (let a = get_approval d aid;
          n = (case a of None \<Rightarrow> None | Some x \<Rightarrow> get_session d (ap_session_id x));
          p = (case n of None \<Rightarrow> None | Some s \<Rightarrow> get_product d (ns_product_id s))
      in case p of
           None \<Rightarrow> Inl (ServiceExn ApprovalNotFound)
         | Some prd \<Rightarrow>
             if p_seller_id prd \<noteq> seller then Inl (ServiceExn ApprovalNotFound)
             else case get_receipt d (decision_key H seller request) of
               None \<Rightarrow> Inl (ServiceExn ApprovalNotFound)
             | Some r \<Rightarrow>
                 if jget (rc_result r) ''approval_id'' \<noteq> JInt aid then Inl (ServiceExn ApprovalNotFound)
                 else if jget (rc_result r) ''decision'' = JNull then Inl KeyExn
                 else Inr (JObj [(''status'', JStr ''RECORDED''), (''approval_id'', JInt aid),
                                 (''decision'', jget (rc_result r) ''decision'')]))"

definition reject_effect :: "int \<Rightarrow> int \<Rightarrow> offer \<Rightarrow> time \<Rightarrow> db \<Rightarrow> db" where
  \<comment> \<open>a rejection closes the offer at once\<close>
  "reject_effect sid aid off now d =
     mod_approval aid (\<lambda>a. a\<lparr>ap_effect_status := Some APPLIED, ap_effect_revision := ap_effect_revision a + 1\<rparr>)
       (mod_session sid (\<lambda>s. if ns_current_offer_id s = Some (of_id off)
            then s\<lparr>ns_current_offer_id := None, ns_status := ACTIVE, ns_version := ns_version s + 1\<rparr> else s)
       (mod_offer (of_id off) (\<lambda>x. x\<lparr>of_status := REJECTED, of_invalid_reason := Some ''SELLER_REJECTED'',
            of_invalidated_at := Some now\<rparr>) d))"

definition record_decision ::
    "string \<Rightarrow> string \<Rightarrow> context_rows \<Rightarrow> string option \<Rightarrow> bool \<Rightarrow> time \<Rightarrow> db \<Rightarrow> exn + db" where
  "record_decision key command ctx comment approved now d =
     (let (n, p, pol, offer, a) = ctx;
          d1 = mod_approval (ap_id a) (\<lambda>x. x\<lparr>ap_status := (if approved then AP_APPROVED else AP_REJECTED),
                 ap_reviewed_at := Some now, ap_seller_comment := comment, ap_followup_request_id := Some key,
                 ap_decision_hash := Some command\<rparr>) d;
          d2 = event_in_transaction (ap_id a) ''decision'' ''DECIDED'' d1
      in
      ebind (if approved then Inr d2
             else ebind (some_or AttributeExn offer) (\<lambda>off. Inr (reject_effect (ns_id n) (ap_id a) off now d2))) (\<lambda>d3.
      ebind (flush_approvals d3) (\<lambda>d4.
      ebind (some_or AttributeExn (get_session d4 (ns_id n))) (\<lambda>m.
      ebind (tadd IntegrityExn key
        \<lparr>rc_input_id = None, rc_command_hash = command,
         rc_result = JObj [(''approval_id'', JInt (ap_id a)),
           (''decision'', JStr (show_approval_status (if approved then AP_APPROVED else AP_REJECTED)))],
         rc_before_version = ns_version n, rc_after_version = ns_version m, rc_committed_at = now\<rparr>
        (d_receipts d4)) (\<lambda>rs.
      if approved then Inr (d4\<lparr>d_receipts := rs\<rparr>)
      else effect_notice (ns_id n) (ap_id a) ''APPROVAL_REJECTED'' now (d4\<lparr>d_receipts := rs\<rparr>))))))"

definition decision_command :: "(json \<Rightarrow> string) \<Rightarrow> string \<Rightarrow> int \<Rightarrow> bool \<Rightarrow> string option \<Rightarrow> int option \<Rightarrow> string" where
  "decision_command H seller aid approved comment expected =
     H (JArr [JStr seller, JInt aid, JBool approved, jopt JStr comment, jopt JInt expected])"

definition decide ::
    "(json \<Rightarrow> string) \<Rightarrow> string \<Rightarrow> int \<Rightarrow> string \<Rightarrow> string option \<Rightarrow> bool \<Rightarrow> int option \<Rightarrow> time \<Rightarrow> db \<Rightarrow>
     exn + (string option \<times> seller_approval_snapshot) \<times> db" where
  \<comment> \<open>the transaction of \<open>review\<close>; the first component is its \<open>conflict\<close>\<close>
  "decide H seller aid request comment approved expected now d =
     (let key = decision_key H seller request; command = decision_command H seller aid approved comment expected in
      ebind (lock_context d aid (Some seller)) (\<lambda>(n, p, pol, offer, a).
      ebind (case get_receipt d key of
               Some old \<Rightarrow>
                 if rc_command_hash old \<noteq> command then Inl (ServiceExn ApprovalConflict) else Inr (None, d)
             | None \<Rightarrow>
                 if expected = None \<or> expected \<noteq> Some (ap_effect_revision a) then Inl (ServiceExn ApprovalConflict)
                 else if ap_status a \<noteq> AP_PENDING then Inl (ServiceExn ApprovalConflict)
                 else
                 ebind (reconcile_approval H (n, p, pol, offer, a) now d) (\<lambda>d1.
                 ebind (some_or AttributeExn (get_approval d1 aid)) (\<lambda>a1.
                 if ap_effect_status a1 = Some INVALIDATED then Inr (Some ''approval expired or invalid'', d1)
                 else
                 ebind (record_decision key command (n, p, pol, offer, a) comment approved now d1) (\<lambda>d2.
                 Inr (None, d2))))) (\<lambda>(conflict, d').
      ebind (lock_context d' aid (Some seller)) (\<lambda>(n', p', pol', offer', a').
      ebind (some_or AttributeExn offer') (\<lambda>off'.
      Inr ((conflict, (n', a', p', off')), d'))))))"

definition integrity_as_conflict :: "(exn + 'a) \<times> db \<Rightarrow> (exn + 'a) \<times> db" where
  \<comment> \<open>\<open>except IntegrityError\<close>\<close>
  "integrity_as_conflict r =
     (case r of (Inl IntegrityExn, d) \<Rightarrow> (Inl (ServiceExn ApprovalConflict), d) | _ \<Rightarrow> r)"

definition review_graph ::
    "(json \<Rightarrow> string) \<Rightarrow> string \<Rightarrow> int \<Rightarrow> string \<Rightarrow> string option \<Rightarrow> bool \<Rightarrow> int option \<Rightarrow> time \<Rightarrow> db \<Rightarrow>
     (exn + seller_approval_snapshot) \<times> db" where
  "review_graph H seller aid request comment approved expected now d =
     (case ebind (validated_request_id request) (\<lambda>r. ebind (validated_comment comment) (\<lambda>c. Inr (r, c))) of
        Inl e \<Rightarrow> (Inl e, d)
      | Inr (r, c) \<Rightarrow>
          publish_review (integrity_as_conflict (commit (decide H seller aid r c approved expected now d) d)))"

section \<open>Applying it\<close>

definition approval_event_ok :: "outbox_event option \<Rightarrow> int \<Rightarrow> bool" where
  "approval_event_ok event aid \<longleftrightarrow>
     (case event of
        None \<Rightarrow> False
      | Some e \<Rightarrow> ob_approval_id e = Some aid \<and> ob_delivery_id e = None
          \<and> (case ob_payload e of
               JObj kvs \<Rightarrow> fst ` set kvs = {''schema'', ''approval_id'', ''kind''}
             | _ \<Rightarrow> False)
          \<and> jget (ob_payload e) ''schema'' = JInt 1 \<and> jget (ob_payload e) ''approval_id'' = JInt aid
          \<and> jget (ob_payload e) ''kind'' \<in> {JStr ''DECIDED'', JStr ''INVALIDATED''})"

definition apply_key :: "(json \<Rightarrow> string) \<Rightarrow> int \<Rightarrow> string \<Rightarrow> string" where
  "apply_key H aid eid = approval_key aid (''apply:'' @ take 20 (H (JStr eid)))"

definition apply_command :: "(json \<Rightarrow> string) \<Rightarrow> int \<Rightarrow> string \<Rightarrow> outbox_event \<Rightarrow> string" where
  "apply_command H aid eid e = H (JArr [JInt aid, JStr eid, ob_payload e])"

definition apply_effect :: "int \<Rightarrow> int \<Rightarrow> offer option \<Rightarrow> approval \<Rightarrow> db \<Rightarrow> exn + db" where
  \<comment> \<open>an approval given in time is applied once\<close>
  "apply_effect sid aid offer a d =
     (if ap_status a = AP_APPROVED \<and> ap_effect_status a = Some NOT_APPLIED then
        (if (case ap_reviewed_at a of None \<Rightarrow> True | Some r \<Rightarrow> ap_expires_at a \<le> r)
         then Inl (Conflict ''no timely decision'')
         else
         ebind (some_or AttributeExn offer) (\<lambda>off.
         Inr (mod_approval aid (\<lambda>x. x\<lparr>ap_effect_status := Some APPLIED, ap_effect_revision := ap_effect_revision x + 1\<rparr>)
           (mod_session sid (\<lambda>s. s\<lparr>ns_status := ACTIVE, ns_version := ns_version s + 1\<rparr>)
             (mod_offer (of_id off) (\<lambda>x. x\<lparr>of_status := ACCEPTED\<rparr>) d)))))
      else Inr d)"

definition apply_outcome :: "approval \<Rightarrow> string" where
  "apply_outcome a =
     (if ap_effect_status a = Some INVALIDATED then ''APPROVAL_INVALIDATED''
      else if ap_status a = AP_APPROVED then ''OFFER_ACCEPTED'' else ''APPROVAL_REJECTED'')"

definition apply_fresh ::
    "(json \<Rightarrow> string) \<Rightarrow> string \<Rightarrow> string \<Rightarrow> context_rows \<Rightarrow> time \<Rightarrow> db \<Rightarrow> exn + json \<times> db" where
  \<comment> \<open>an event without a receipt yet\<close>
  "apply_fresh H key command ctx now d =
     (let (n, p, pol, offer, a) = ctx; sid = ns_id n; aid = ap_id a in
      ebind (reconcile_approval H ctx now d) (\<lambda>d1.
      ebind (some_or AttributeExn (get_approval d1 aid)) (\<lambda>a1.
      if ap_status a1 = AP_PENDING then Inl (Conflict ''no terminal event yet'')
      else
      ebind (apply_effect sid aid offer a1 d1) (\<lambda>d2.
      ebind (some_or AttributeExn (get_approval d2 aid)) (\<lambda>a2.
      ebind (some_or AttributeExn (get_session d2 sid)) (\<lambda>m.
      let result = JObj [(''outcome'', JStr (apply_outcome a2)), (''approval_id'', JInt aid),
                         (''effect_revision'', JInt (ap_effect_revision a2))] in
      ebind (tadd IntegrityExn key
        \<lparr>rc_input_id = None, rc_command_hash = command, rc_result = result,
         rc_before_version = ns_version n, rc_after_version = ns_version m, rc_committed_at = now\<rparr>
        (d_receipts d2)) (\<lambda>rs.
      ebind (effect_notice sid aid (apply_outcome a2) now (d2\<lparr>d_receipts := rs\<rparr>)) (\<lambda>d3.
      Inr (result, d3)))))))))"

definition apply_event ::
    "(json \<Rightarrow> string) \<Rightarrow> int \<Rightarrow> string \<Rightarrow> owner \<Rightarrow> time \<Rightarrow> db \<Rightarrow> exn + json \<times> db" where
  "apply_event H aid eid owner now d =
     ebind (lock_execution d aid owner now) (\<lambda>_.
     ebind (lock_context d aid None) (\<lambda>ctx.
     case tget (d_outbox d) eid of
       None \<Rightarrow> Inl (Conflict ''invalid event'')
     | Some event \<Rightarrow>
         if \<not> approval_event_ok (Some event) aid then Inl (Conflict ''invalid event'')
         else
         let key = apply_key H aid eid; command = apply_command H aid eid event in
         (case get_receipt d key of
            Some r \<Rightarrow> if rc_command_hash r \<noteq> command then Inl (Conflict ''another event under this key'')
                      else Inr (rc_result r, d)
          | None \<Rightarrow> apply_fresh H key command ctx now d)))"

section \<open>Reconciliation\<close>

definition reconcile :: "(json \<Rightarrow> string) \<Rightarrow> int \<Rightarrow> time \<Rightarrow> db \<Rightarrow> exn + unit \<times> db" where
  "reconcile H aid now d =
     ebind (lock_context d aid None) (\<lambda>ctx.
     ebind (reconcile_approval H ctx now d) (\<lambda>d'. Inr ((), d')))"

definition invalidated_source :: "int \<Rightarrow> string" where
  "invalidated_source oid = ''offer:'' @ show_int oid @ '':invalidated''"

definition publish_invalidation :: "(json \<Rightarrow> string) \<Rightarrow> int \<Rightarrow> int \<Rightarrow> int \<Rightarrow> time \<Rightarrow> db \<Rightarrow> exn + db" where
  \<comment> \<open>the receipt, notification and outbox event of an offer that lost its basis\<close>
  "publish_invalidation H sid oid before now d =
     ebind (some_or AttributeExn (get_session d sid)) (\<lambda>n.
     let source = invalidated_source oid;
         result = JObj [(''outcome'', JStr ''OFFER_INVALIDATED''), (''offer_id'', JInt oid),
                        (''business_version'', JInt (ns_version n))]
     in
     ebind (tadd IntegrityExn source
       \<lparr>rc_input_id = None, rc_command_hash = H (JArr [JInt oid, JStr ''INVALIDATED'']), rc_result = result,
        rc_before_version = before, rc_after_version = ns_version n, rc_committed_at = now\<rparr> (d_receipts d)) (\<lambda>rs.
     ebind (tadd IntegrityExn source
       \<lparr>nd_id = source, nd_input_id = None, nd_session_id = Some sid, nd_approval_id = None,
        nd_source_thread_id = ''negotiation:'' @ show_int sid @ '':v1'', nd_status = ND_PENDING,
        nd_result = result, nd_reply_deadline = now, nd_public_message_id = None, nd_lease_token = None,
        nd_lease_until = None, nd_attempts = 0, nd_next_retry_at = None\<rparr> (d_deliveries d)) (\<lambda>ds.
     outbox_in_transaction source (d\<lparr>d_receipts := rs, d_deliveries := ds\<rparr>))))"

definition reconcile_current :: "(json \<Rightarrow> string) \<Rightarrow> session \<Rightarrow> int \<Rightarrow> time \<Rightarrow> db \<Rightarrow> exn + db" where
  \<comment> \<open>the current offer \<open>oid\<close> of a negotiation of the graph runtime\<close>
  "reconcile_current H n oid now d =
     ebind (some_or AttributeExn (get_product d (ns_product_id n))) (\<lambda>p.
     ebind (some_or AttributeExn (get_policy d (p_id p))) (\<lambda>pol.
     ebind (some_or AttributeExn (get_offer d oid)) (\<lambda>off.
     case approval_of_offer d (of_id off) of
       Some a \<Rightarrow> reconcile_approval H (n, p, pol, Some off, a) now d
     | None \<Rightarrow>
         ebind (basis_valid H d n p pol (Some off) now) (\<lambda>ok.
         if ok then Inr d
         else
         ebind (invalidate_offer H now ''OFFER_BASIS_INVALID'' (ns_id n) (Some off)
                 (mod_session (ns_id n) (\<lambda>s. s\<lparr>ns_version := ns_version s + 1\<rparr>) d)) (\<lambda>d1.
         publish_invalidation H (ns_id n) (of_id off) (ns_version n) now d1)))))"

definition reconcile_offer :: "(json \<Rightarrow> string) \<Rightarrow> int \<Rightarrow> time \<times> time \<Rightarrow> db \<Rightarrow> exn + unit \<times> db" where
  "reconcile_offer H sid clock d =
     ebind (some_or AttributeExn (get_session d sid)) (\<lambda>n0.
     let n = n0\<lparr>ns_lifecycle_checked_at := Some (fst clock)\<rparr>;
         d1 = mod_session sid (\<lambda>s. s\<lparr>ns_lifecycle_checked_at := Some (fst clock)\<rparr>) d
     in if ns_graph_version n = None \<or> ns_graph_version n = Some [] \<or> ns_status n \<in> {AGREED, CLOSED}
     then Inr ((), d1)
     else case ns_current_offer_id n of
       None \<Rightarrow> Inr ((), d1)
     | Some oid \<Rightarrow> ebind (reconcile_current H n oid (snd clock) d1) (\<lambda>d2. Inr ((), d2)))"

section \<open>The execution of an approval\<close>

definition approval_claim :: "int \<Rightarrow> string \<Rightarrow> time \<Rightarrow> db \<Rightarrow> exn + owner option \<times> db" where
  "approval_claim aid token now d =
     (case tget (d_executions d) aid of
        None \<Rightarrow> Inr (None, d)
      | Some x \<Rightarrow>
          if ex_recovery_required x
             \<or> (case ex_lease_until x of None \<Rightarrow> False | Some e \<Rightarrow> now < e)
             \<or> (case ex_next_retry_at x of None \<Rightarrow> False | Some r \<Rightarrow> now < r)
          then Inr (None, d)
          else Inr (Some (token, ex_ownership_epoch x + 1),
            mod_execution aid (\<lambda>r. r\<lparr>ex_lease_token := Some token, ex_lease_until := Some (now + seconds 30),
              ex_ownership_epoch := ex_ownership_epoch r + 1\<rparr>) d))"

definition approval_release ::
    "int \<Rightarrow> owner \<Rightarrow> string option \<Rightarrow> bool \<Rightarrow> bool \<Rightarrow> time \<times> time \<Rightarrow> db \<Rightarrow> exn + unit \<times> db" where
  "approval_release aid owner checkpoint failed recovery clock d =
     ebind (lock_execution d aid owner (fst clock)) (\<lambda>x.
     let attempts = (if failed then ex_attempts x + 1 else 0) in
     Inr ((), mod_execution aid (\<lambda>r. r\<lparr>
       ex_checkpoint_ref := (if checkpoint = None \<or> checkpoint = Some [] then ex_checkpoint_ref r else checkpoint),
       ex_attempts := attempts, ex_recovery_required := (recovery \<or> 3 \<le> attempts),
       ex_next_retry_at := (if failed then Some (snd clock + seconds (2 ^ nat attempts)) else None),
       ex_lease_token := None, ex_lease_until := None\<rparr>) d))"

definition pending_events :: "int \<Rightarrow> db \<Rightarrow> string list" where
  "pending_events aid d =
     sort (map ob_id (filter (\<lambda>e. ob_approval_id e = Some aid \<and> ob_delivery_id e = None \<and> ob_status e = OB_PENDING)
       (trows (d_outbox d))))"

definition ends_with :: "string \<Rightarrow> string \<Rightarrow> bool" where
  "ends_with suffix s \<longleftrightarrow> take (length suffix) (rev s) = rev suffix"

definition terminal_event :: "int \<Rightarrow> db \<Rightarrow> exn + string option" where
  "terminal_event aid d =
     ebind (some_or AttributeExn (get_approval d aid)) (\<lambda>a.
     if ap_status a = AP_PENDING then Inr None
     else case sort (map ob_id (filter (\<lambda>e. ob_approval_id e = Some aid \<and> ob_delivery_id e = None
            \<and> (ends_with '':decision'' (ob_id e) \<or> substring '':invalidated:'' (ob_id e))) (trows (d_outbox d)))) of
       [] \<Rightarrow> Inr None
     | k # ks \<Rightarrow> Inr (Some (last (k # ks))))"

fun mark_delivered :: "int \<Rightarrow> string list \<Rightarrow> db \<Rightarrow> db" where
  "mark_delivered aid [] d = d"
| "mark_delivered aid (k # ks) d =
     mark_delivered aid ks
       (case tget (d_outbox d) k of
          None \<Rightarrow> d
        | Some e \<Rightarrow> if ob_approval_id e = Some aid then mod_outbox k (\<lambda>r. r\<lparr>ob_status := OB_DELIVERED\<rparr>) d else d)"

definition acknowledge :: "int \<Rightarrow> string list \<Rightarrow> owner \<Rightarrow> time \<Rightarrow> db \<Rightarrow> exn + unit \<times> db" where
  "acknowledge aid events owner now d =
     ebind (lock_execution d aid owner now) (\<lambda>_. Inr ((), mark_delivered aid events d))"

fun covered_each :: "string \<Rightarrow> int \<Rightarrow> string list \<Rightarrow> exn + string list" where
  "covered_each prefix revision [] = Inr []"
| "covered_each prefix revision (k # ks) =
     ebind (if take (length prefix) k = prefix
            then (case read_nat (drop (length prefix) k) of
                    None \<Rightarrow> Inl (ValueExn ''invalid literal for int'')
                  | Some i \<Rightarrow> Inr (int i \<le> revision))
            else Inr False) (\<lambda>covers.
     ebind (covered_each prefix revision ks) (\<lambda>rest. Inr (if covers then k # rest else rest)))"

definition covered_events :: "int \<Rightarrow> json option \<Rightarrow> db \<Rightarrow> exn + string list" where
  \<comment> \<open>a later invalidation also settles the events before it\<close>
  "covered_events aid result d =
     (let base = [approval_key aid ''requested'', approval_key aid ''decision''] in
      case result of
        None \<Rightarrow> Inr base
      | Some r \<Rightarrow>
          if jget r ''outcome'' \<noteq> JStr ''APPROVAL_INVALIDATED'' then Inr base
          else case jint (jget r ''effect_revision'') of
            None \<Rightarrow> Inl KeyExn
          | Some revision \<Rightarrow>
              ebind (covered_each (approval_key aid ''invalidated:'') revision (pending_events aid d)) (\<lambda>ks.
              Inr (base @ ks)))"

end
