(* ===== verification/Graph_Approval_Spec.thy ===== *)
theory Graph_Approval_Spec
  imports Graph_Approval Command_Spec
begin

text \<open>
  What the approvals of the graph runtime guarantee: a decision is final, an approval given in time is applied
  once and only while the basis of the offer holds, an executor displaced once stays displaced, and on every run of
  commands, decisions and reconciliations the invariants of offers and approvals hold.
\<close>

section \<open>Single operations keep the invariants\<close>

definition graph_keeps :: "db \<Rightarrow> db \<Rightarrow> bool" where
  "graph_keeps d d' \<longleftrightarrow> graph_inv d' \<and> approvals_later d d' \<and> view d' = view d
     \<and> (\<forall>k x. tget (d_executions d) k = Some x \<longrightarrow>
          (\<exists>y. tget (d_executions d') k = Some y \<and> ex_ownership_epoch x \<le> ex_ownership_epoch y))"

lemma graph_keeps_refl [simp]: "graph_inv d \<Longrightarrow> graph_keeps d d"
  by (simp add: graph_keeps_def approvals_later_same)

lemma graph_keeps_trans: "graph_keeps d d' \<Longrightarrow> graph_keeps d' d'' \<Longrightarrow> graph_keeps d d''"
  unfolding graph_keeps_def by (auto intro: approvals_later_trans) (metis order_trans)

lemma graph_keeps_frame:
  assumes "graph_inv d'" and "approvals_later d d'" and "business_frame d d'"
  shows "graph_keeps d d'"
  using assms by (auto simp: graph_keeps_def business_frame_def)

lemma graph_keeps_outside:
  assumes "graph_inv d" and "d_offers d' = d_offers d" and "d_sessions d' = d_sessions d" and "d_approvals d' = d_approvals d"
    and "d_next_offer d' = d_next_offer d" and "d_next_session d' = d_next_session d"
    and "d_next_approval d' = d_next_approval d" and "d_inputs d' = d_inputs d" and "d_tasks d' = d_tasks d"
    and "\<And>k x. tget (d_executions d) k = Some x \<Longrightarrow>
          \<exists>y. tget (d_executions d') k = Some y \<and> ex_ownership_epoch x \<le> ex_ownership_epoch y"
  shows "graph_keeps d d'"
proof -
  have "graph_inv d'" by (rule graph_inv_approvals [OF assms(1)]) (use assms(2-7) in simp_all)
  moreover have "view d' = view d" by (rule view_same) (use assms in simp_all)
  ultimately show ?thesis using assms(4,10) by (simp add: graph_keeps_def approvals_later_same)
qed

lemma graph_inv_session:
  assumes "graph_inv d" and "\<And>n. ns_id (f n) = ns_id n" and "\<And>n. ns_current_offer_id (f n) = ns_current_offer_id n"
  shows "graph_inv (mod_session sid f d)"
proof -
  have "offer_inv d" using assms(1) by (simp add: graph_inv_def)
  then have "offer_inv (mod_session sid f d)" using assms(2,3) by (rule offer_inv_mod_session)
  then show ?thesis using assms(1) by (simp add: graph_inv_def approvals_stored_def)
qed

lemma graph_keeps_session:
  assumes "graph_inv d" and "\<And>n. ns_id (f n) = ns_id n" and "\<And>n. ns_current_offer_id (f n) = ns_current_offer_id n"
    and "\<And>n. ns_next_input_seq (f n) = ns_next_input_seq n"
    and "\<And>n. ns_last_resolved_input_seq (f n) = ns_last_resolved_input_seq n"
  shows "graph_keeps d (mod_session sid f d)"
  by (rule graph_keeps_frame [OF graph_inv_session [OF assms(1)] _ business_frame_session])
    (simp_all add: assms approvals_later_same)

lemma graph_keeps_effects:
  assumes "graph_inv d" and "effects_only d d'" and "approvals_later d d'" and "approvals_stored d'"
  shows "graph_keeps d d'"
proof (rule graph_keeps_frame [OF _ assms(3) business_frame_effects [OF assms(2)]])
  show "graph_inv d'" using offer_inv_effects [OF _ assms(2)] assms(1,4) by (simp add: graph_inv_def)
qed

lemma invalidate_approval_keeps:
  assumes "invalidate_approval H now reason sid e v aid d = Inr d'" and "graph_inv d"
  shows "graph_keeps d d'"
  using invalidate_approval_effect(1,2) [OF assms(1)] invalidate_approval_stored [OF _ assms(1)] assms(2)
  by (intro graph_keeps_effects) (simp_all add: graph_inv_def)

lemma invalidate_offer_keeps:
  assumes "invalidate_offer H now reason sid off d = Inr d'" and "graph_inv d"
  shows "graph_keeps d d'"
  using invalidate_offer_inv [OF assms(1)] invalidate_stored [OF assms(1)] invalidate_offer_business [OF assms(1)] assms(2)
  by (intro graph_keeps_frame) (simp_all add: graph_inv_def)

lemma effect_notice_keeps:
  assumes "effect_notice sid aid outcome now d = Inr d'" and "graph_inv d"
  shows "graph_keeps d d'"
proof -
  note fr = effect_notice_frame [OF assms(1)]
  then obtain s where a: "d_approvals d' = tmod aid (\<lambda>x. x\<lparr>ap_notification_status := Some s\<rparr>) (d_approvals d)" by blast
  have "approvals_later d d'" by (rule approvals_later_mod [OF _ a]) (simp add: graph_later_def decided_def)
  moreover have "approvals_stored d'"
    using assms(2) effects_onlyD(5) [OF fr(1)] a by (auto simp: graph_inv_def approvals_stored_def split: if_splits)
  ultimately show ?thesis using fr(1) assms(2) by (intro graph_keeps_effects)
qed

lemma graph_keeps_approval:
  assumes "graph_inv d" and "\<And>a. get_approval d aid = Some a \<Longrightarrow> graph_later a (f a)"
    and "\<And>a. ap_id (f a) = ap_id a"
  shows "graph_keeps d (mod_approval aid f d)"
proof (rule graph_keeps_frame)
  show "graph_inv (mod_approval aid f d)"
    by (rule graph_inv_approvals [OF assms(1)]) (use assms(3) in auto)
  show "approvals_later d (mod_approval aid f d)" by (rule approvals_later_mod [of d aid f]) (simp_all add: assms(2))
qed simp

lemma reconcile_approval_keeps:
  assumes "reconcile_approval H ctx now d = Inr d'" and "graph_inv d"
  shows "graph_keeps d d'"
proof -
  obtain n p pol offer a where ctx: "ctx = (n, p, pol, offer, a)" by (cases ctx)
  have "graph_keeps d e'"
    if "invalidate_approval H now r sid x v aid (if c then mod_session sid (\<lambda>s. s\<lparr>ns_version := ns_version s + 1\<rparr>) d else d) = Inr e"
      and "invalidate_offer H now r sid off e = Inr e'" for r sid x v aid c off e e'
  proof -
    have "graph_keeps d (if c then mod_session sid (\<lambda>s. s\<lparr>ns_version := ns_version s + 1\<rparr>) d else d)"
      using assms(2) by (simp add: graph_keeps_session)
    moreover from this have "graph_keeps \<dots> e" using invalidate_approval_keeps [OF that(1)] by (simp add: graph_keeps_def)
    moreover from this have "graph_keeps e e'" using invalidate_offer_keeps [OF that(2)] by (simp add: graph_keeps_def)
    ultimately show ?thesis using graph_keeps_trans by blast
  qed
  with assms show ?thesis
    unfolding reconcile_approval_def ctx Let_def prod.case
    by (elim if_InrE result_elims) auto
qed

lemma reconcile_approval_cases:
  assumes step: "reconcile_approval H (n, p, pol, offer, a) now d = Inr d'"
  obtains (kept) "d' = d" and "ns_status n = AGREED \<or> ap_effect_status a = Some INVALIDATED \<or> ap_status a = AP_REJECTED
        \<or> \<not> (ap_status a = AP_PENDING \<and> ap_expires_at a \<le> now) \<and> basis_valid H d n p pol offer now = Inr True"
  | (lapsed) b where "get_approval d' (ap_id a) = Some b" and "ap_effect_status b = Some INVALIDATED"
proof -
  have inv: "\<exists>b. get_approval e' (ap_id a) = Some b \<and> ap_effect_status b = Some INVALIDATED"
    if one: "invalidate_approval H now r sid x v (ap_id a) d1 = Inr e" and two: "invalidate_offer H now r sid off e = Inr e'"
    for r sid x v d1 off e e'
  proof -
    obtain b where "get_approval e (ap_id a) = Some b" "ap_effect_status b = Some INVALIDATED"
      using invalidate_approval_effect(3) [OF one] by blast
    moreover have "approvals_later e e'"
    proof (cases off)
      case None
      with two show ?thesis by (simp add: invalidate_offer_def approvals_later_same)
    next
      case (Some y)
      show ?thesis
      proof (cases "of_status y \<in> {PROPOSED, ACCEPTED}")
        case True
        with two Some show ?thesis using invalidate_offer_effect(4) by blast
      next
        case False
        with two Some show ?thesis by (simp add: invalidate_offer_def approvals_later_same)
      qed
    qed
    ultimately show ?thesis using invalidated_stays by blast
  qed
  show thesis
  proof (cases "ns_status n = AGREED \<or> ap_effect_status a = Some INVALIDATED \<or> ap_status a = AP_REJECTED")
    case True
    with step have "d' = d" by (auto simp: reconcile_approval_def split: if_splits)
    with True show thesis using kept by blast
  next
    case live: False
    show thesis
    proof (cases "\<not> (ap_status a = AP_PENDING \<and> ap_expires_at a \<le> now) \<and> basis_valid H d n p pol offer now = Inr True")
      case True
      with step live have "d' = d" by (auto simp: reconcile_approval_def Let_def ebind_eq_Inr)
      with True show thesis using kept by blast
    next
      case False
      with step live obtain r x v d1 off e where
          "invalidate_approval H now r (ns_id n) x v (ap_id a) d1 = Inr e" "invalidate_offer H now r (ns_id n) (Some off) e = Inr d'"
        unfolding reconcile_approval_def Let_def prod.case
        by (auto simp: ebind_eq_Inr split: if_splits)
      with inv show thesis using lapsed by blast
    qed
  qed
qed

lemma reject_effect_keeps:
  assumes "graph_inv d" and "get_approval d aid = Some a" and "decided a"
    and "ap_effect_status a \<noteq> Some INVALIDATED"
  shows "graph_keeps d (reject_effect sid aid off now d)"
proof -
  define g :: "offer \<Rightarrow> offer" where
    "g = (\<lambda>x. x\<lparr>of_status := REJECTED, of_invalid_reason := Some ''SELLER_REJECTED'', of_invalidated_at := Some now\<rparr>)"
  define f :: "session \<Rightarrow> session" where
    "f = (\<lambda>s. if ns_current_offer_id s = Some (of_id off)
            then s\<lparr>ns_current_offer_id := None, ns_status := ACTIVE, ns_version := ns_version s + 1\<rparr> else s)"
  let ?d = "mod_session sid f (mod_offer (of_id off) g d)"
  have "offer_inv (mod_offer (of_id off) g d)"
    using assms(1) by (intro offer_inv_close_offer) (simp_all add: graph_inv_def g_def)
  then have "offer_inv ?d"
    by (rule close_current_inv) (auto simp: g_def f_def)
  then have inv: "graph_inv ?d" using assms(1) by (simp add: graph_inv_def approvals_stored_def)
  have "business_frame d (mod_offer (of_id off) g d)" by simp
  also have "business_frame \<dots> ?d" by (rule business_frame_session) (simp_all add: f_def)
  finally have "graph_keeps d ?d" using inv by (intro graph_keeps_frame) (simp_all add: approvals_later_same)
  moreover have "graph_keeps ?d (mod_approval aid
      (\<lambda>a. a\<lparr>ap_effect_status := Some APPLIED, ap_effect_revision := ap_effect_revision a + 1\<rparr>) ?d)"
    by (rule graph_keeps_approval [OF inv]) (use assms(2-4) in \<open>auto simp: graph_later_def decided_def\<close>)
  ultimately show ?thesis using graph_keeps_trans unfolding reject_effect_def f_def g_def by blast
qed

lemma record_decision_keeps:
  assumes step: "record_decision key command (n, p, pol, offer, a) comment approved now d = Inr d'"
    and inv: "graph_inv d" and a: "get_approval d (ap_id a) = Some b" "ap_status b = AP_PENDING"
      "ap_effect_status b \<noteq> Some INVALIDATED"
  shows "graph_keeps d d'"
proof -
  define g :: "approval \<Rightarrow> approval" where
    "g = (\<lambda>x. x\<lparr>ap_status := (if approved then AP_APPROVED else AP_REJECTED),
                 ap_reviewed_at := Some now, ap_seller_comment := comment, ap_followup_request_id := Some key,
                 ap_decision_hash := Some command\<rparr>)"
  define d1 where "d1 = mod_approval (ap_id a) g d"
  define d2 where "d2 = event_in_transaction (ap_id a) ''decision'' ''DECIDED'' d1"
  have k1: "graph_keeps d d1"
    unfolding d1_def by (rule graph_keeps_approval [OF inv]) (use a in \<open>auto simp: g_def graph_later_def decided_def\<close>)
  then have "graph_keeps d1 d2"
    unfolding d2_def by (intro graph_keeps_outside) (auto simp: graph_keeps_def event_in_transaction_def Let_def)
  with k1 have k2: "graph_keeps d d2" using graph_keeps_trans by blast
  have b2: "get_approval d2 (ap_id a) = Some (g b)" using a(1) by (simp add: d2_def d1_def)
  obtain d3 d4 rs where d3: "(if approved then Inr d2
             else ebind (some_or AttributeExn offer) (\<lambda>off. Inr (reject_effect (ns_id n) (ap_id a) off now d2))) = Inr d3"
    and flush: "flush_approvals d3 = Inr d4"
    and fin4: "(if approved then Inr (d4\<lparr>d_receipts := rs\<rparr>)
      else effect_notice (ns_id n) (ap_id a) ''APPROVAL_REJECTED'' now (d4\<lparr>d_receipts := rs\<rparr>)) = Inr d'"
    using step unfolding record_decision_def Let_def prod.case d2_def d1_def g_def
    by (elim ebind_InrE some_or_InrE)
  have "d4 = d3" using flush by (simp add: flush_approvals_eq_Inr)
  note fin = fin4 [unfolded this]
  have k3: "graph_keeps d d3"
  proof (cases approved)
    case False
    with d3 obtain off where "d3 = reject_effect (ns_id n) (ap_id a) off now d2"
      by (auto simp: ebind_eq_Inr)
    moreover have "graph_keeps d2 (reject_effect (ns_id n) (ap_id a) off now d2)"
      by (rule reject_effect_keeps [OF _ b2]) (use k2 a False in \<open>auto simp: graph_keeps_def g_def decided_def\<close>)
    ultimately show ?thesis using k2 graph_keeps_trans by blast
  qed (use d3 k2 in simp)
  have k4: "graph_keeps d3 (d3\<lparr>d_receipts := rs\<rparr>)"
    using k3 by (intro graph_keeps_outside) (auto simp: graph_keeps_def)
  with k3 have k5: "graph_keeps d (d3\<lparr>d_receipts := rs\<rparr>)" using graph_keeps_trans by blast
  show ?thesis
  proof (cases approved)
    case False
    with fin have "effect_notice (ns_id n) (ap_id a) ''APPROVAL_REJECTED'' now (d3\<lparr>d_receipts := rs\<rparr>) = Inr d'" by simp
    from effect_notice_keeps [OF this] k5 have "graph_keeps (d3\<lparr>d_receipts := rs\<rparr>) d'" by (simp add: graph_keeps_def)
    with k5 show ?thesis using graph_keeps_trans by blast
  qed (use fin k5 in simp)
qed

section \<open>The transactions\<close>

lemma lock_context_Inr:
  assumes "lock_context d aid seller = Inr (n, p, pol, offer, a)"
  shows "get_approval d aid = Some a" "get_session d (ap_session_id a) = Some n"
    "get_product d (ns_product_id n) = Some p" "get_policy d (p_id p) = Some pol" "offer = get_offer d (ap_offer_id a)"
    "seller \<noteq> None \<Longrightarrow> seller = Some (p_seller_id p)"
  using assms by (auto simp: lock_context_def ebind_eq_Inr some_or_eq_Inr split: option.splits if_splits)

lemma lock_context_ids:
  assumes "lock_context d aid seller = Inr (n, p, pol, offer, a)" and "graph_inv d"
  shows "ap_id a = aid" "ns_id n = ap_session_id a"
  using lock_context_Inr(1,2) [OF assms(1)] assms(2)
  by (auto simp: graph_inv_def approvals_stored_def offer_inv_def sessions_stored_def)

lemma decide_cases:
  assumes step: "decide H seller aid request comment approved expected now d = Inr ((conflict, snap), d')"
    and inv: "graph_inv d"
  obtains (replayed) n p pol offer a rc where "lock_context d aid (Some seller) = Inr (n, p, pol, offer, a)"
      and "get_receipt d (decision_key H seller request) = Some rc"
      and "rc_command_hash rc = decision_command H seller aid approved comment expected" and "conflict = None" and "d' = d"
  | (lapsed) n p pol offer a b where "lock_context d aid (Some seller) = Inr (n, p, pol, offer, a)"
      and "reconcile_approval H (n, p, pol, offer, a) now d = Inr d'" and "conflict \<noteq> None"
      and "get_approval d' aid = Some b" and "ap_effect_status b = Some INVALIDATED"
  | (recorded) n p pol offer a where "lock_context d aid (Some seller) = Inr (n, p, pol, offer, a)"
      and "reconcile_approval H (n, p, pol, offer, a) now d = Inr d" and "expected = Some (ap_effect_revision a)"
      and "ap_status a = AP_PENDING" and "ap_effect_status a \<noteq> Some INVALIDATED" and "conflict = None"
      and "get_receipt d (decision_key H seller request) = None"
      and "record_decision (decision_key H seller request) (decision_command H seller aid approved comment expected)
             (n, p, pol, offer, a) comment approved now d = Inr d'"
proof -
  let ?key = "decision_key H seller request" and ?cmd = "decision_command H seller aid approved comment expected"
  obtain n p pol offer a where ctx: "lock_context d aid (Some seller) = Inr (n, p, pol, offer, a)"
    and rest: "(case get_receipt d ?key of
        Some old \<Rightarrow> if rc_command_hash old \<noteq> ?cmd then Inl (ServiceExn ApprovalConflict) else Inr (None, d)
      | None \<Rightarrow>
          if expected = None \<or> expected \<noteq> Some (ap_effect_revision a) then Inl (ServiceExn ApprovalConflict)
          else if ap_status a \<noteq> AP_PENDING then Inl (ServiceExn ApprovalConflict)
          else
          ebind (reconcile_approval H (n, p, pol, offer, a) now d) (\<lambda>d1.
          ebind (some_or AttributeExn (get_approval d1 aid)) (\<lambda>a1.
          if ap_effect_status a1 = Some INVALIDATED then Inr (Some ''approval expired or invalid'', d1)
          else
          ebind (record_decision ?key ?cmd (n, p, pol, offer, a) comment approved now d1) (\<lambda>d2.
          Inr (None, d2))))) = Inr (conflict, d')"
    using step unfolding decide_def Let_def
    by (elim ebind_InrE prod_InrE some_or_InrE) auto
  note a = lock_context_Inr(1) [OF ctx] lock_context_ids(1) [OF ctx inv]
  show thesis
  proof (cases "get_receipt d ?key")
    case (Some rc)
    with rest show thesis by (intro replayed [OF ctx]) (auto split: if_splits)
  next
    case None
    with rest obtain d1 a1 where g: "expected = Some (ap_effect_revision a)" "ap_status a = AP_PENDING"
      and rec: "reconcile_approval H (n, p, pol, offer, a) now d = Inr d1" and a1: "get_approval d1 aid = Some a1"
      and fin: "(if ap_effect_status a1 = Some INVALIDATED then Inr (Some ''approval expired or invalid'', d1)
          else ebind (record_decision ?key ?cmd (n, p, pol, offer, a) comment approved now d1) (\<lambda>d2. Inr (None, d2)))
          = Inr (conflict, d')"
      by (auto simp: ebind_eq_Inr some_or_eq_Inr split: if_splits)
    show thesis
    proof (cases "ap_effect_status a1 = Some INVALIDATED")
      case True
      with fin rec a1 show thesis by (intro lapsed [OF ctx]) auto
    next
      case False
      from rec have "d1 = d"
      proof (cases rule: reconcile_approval_cases)
        case (lapsed b)
        with False a1 a(2) show ?thesis by simp
      qed
      with False fin rec a1 a g None show thesis by (intro recorded [OF ctx]) (auto simp: ebind_eq_Inr)
    qed
  qed
qed

lemma decide_keeps:
  assumes step: "decide H seller aid request comment approved expected now d = Inr (r, d')" and inv: "graph_inv d"
  shows "graph_keeps d d'"
proof -
  obtain conflict snap where r: "r = (conflict, snap)" by (cases r)
  show ?thesis using step [unfolded r] inv
  proof (cases rule: decide_cases)
    case (recorded n p pol offer a)
    have "get_approval d (ap_id a) = Some a"
      using lock_context_Inr(1) [OF recorded(1)] lock_context_ids(1) [OF recorded(1) inv] by simp
    from record_decision_keeps [OF recorded(8) inv this recorded(4,5)] show ?thesis .
  qed (use inv reconcile_approval_keeps in auto)
qed

definition applied_db :: "int \<Rightarrow> int \<Rightarrow> int \<Rightarrow> db \<Rightarrow> db" where
  \<comment> \<open>the offer accepted, the negotiation active, the effect of the approval recorded\<close>
  "applied_db sid aid oid d =
     mod_approval aid (\<lambda>x. x\<lparr>ap_effect_status := Some APPLIED, ap_effect_revision := ap_effect_revision x + 1\<rparr>)
       (mod_session sid (\<lambda>s. s\<lparr>ns_status := ACTIVE, ns_version := ns_version s + 1\<rparr>)
         (mod_offer oid (\<lambda>x. x\<lparr>of_status := ACCEPTED\<rparr>) d))"

lemma apply_effect_cases:
  assumes "apply_effect sid aid offer a d = Inr d'"
  obtains (same) "d' = d" and "\<not> (ap_status a = AP_APPROVED \<and> ap_effect_status a = Some NOT_APPLIED)"
  | (applied) off r where "ap_status a = AP_APPROVED" and "ap_effect_status a = Some NOT_APPLIED"
      and "ap_reviewed_at a = Some r" and "r < ap_expires_at a" and "offer = Some off" and "d' = applied_db sid aid (of_id off) d"
proof (cases "ap_status a = AP_APPROVED \<and> ap_effect_status a = Some NOT_APPLIED")
  case False
  with assms show thesis by (intro same) (auto simp: apply_effect_def)
next
  case True
  with assms obtain off where "offer = Some off" "\<not> (case ap_reviewed_at a of None \<Rightarrow> True | Some r \<Rightarrow> ap_expires_at a \<le> r)"
    "d' = applied_db sid aid (of_id off) d"
    unfolding apply_effect_def applied_db_def by (simp split: if_splits) (elim ebind_InrE some_or_InrE, simp)
  with True applied show thesis by (auto split: option.splits)
qed

lemma apply_effect_keeps:
  assumes step: "apply_effect sid aid offer a d = Inr d'" and inv: "graph_inv d" and a: "get_approval d aid = Some a"
  shows "graph_keeps d d'"
  using step
proof (cases rule: apply_effect_cases)
  case (applied off r)
  define f :: "session \<Rightarrow> session" where "f = (\<lambda>s. s\<lparr>ns_status := ACTIVE, ns_version := ns_version s + 1\<rparr>)"
  define g :: "approval \<Rightarrow> approval" where
    "g = (\<lambda>x. x\<lparr>ap_effect_status := Some APPLIED, ap_effect_revision := ap_effect_revision x + 1\<rparr>)"
  let ?d1 = "mod_offer (of_id off) (\<lambda>x. x\<lparr>of_status := ACCEPTED\<rparr>) d" and ?d2 = "mod_session sid f (mod_offer (of_id off) (\<lambda>x. x\<lparr>of_status := ACCEPTED\<rparr>) d)"
  have d': "d' = mod_approval aid g ?d2" by (simp add: applied applied_db_def f_def g_def)
  have "offer_inv ?d1" using inv by (intro offer_inv_close_offer) (simp_all add: graph_inv_def)
  then have "graph_inv ?d1" using inv by (simp add: graph_inv_def approvals_stored_def)
  then have "graph_keeps d ?d1" by (intro graph_keeps_frame) (simp_all add: approvals_later_same)
  moreover have "graph_keeps ?d1 ?d2"
    by (rule graph_keeps_session [OF \<open>graph_inv ?d1\<close>]) (simp_all add: f_def)
  moreover have "graph_keeps ?d2 d'"
    unfolding d' by (rule graph_keeps_approval)
      (use \<open>graph_keeps ?d1 ?d2\<close> a applied in \<open>auto simp: graph_keeps_def g_def graph_later_def decided_def\<close>)
  ultimately show ?thesis using graph_keeps_trans by blast
qed (use inv in simp)

definition apply_receipt :: "string \<Rightarrow> json \<Rightarrow> int \<Rightarrow> int \<Rightarrow> time \<Rightarrow> receipt" where
  "apply_receipt command result before later now =
     \<lparr>rc_input_id = None, rc_command_hash = command, rc_result = result,
      rc_before_version = before, rc_after_version = later, rc_committed_at = now\<rparr>"

lemma apply_fresh_cases:
  assumes step: "apply_fresh H key command (n, p, pol, offer, a) now d = Inr (res, d')"
  obtains (applied) d1 a1 d2 a2 m where "reconcile_approval H (n, p, pol, offer, a) now d = Inr d1"
    and "get_approval d1 (ap_id a) = Some a1" and "ap_status a1 \<noteq> AP_PENDING"
    and "apply_effect (ns_id n) (ap_id a) offer a1 d1 = Inr d2" and "get_approval d2 (ap_id a) = Some a2"
    and "get_session d2 (ns_id n) = Some m"
    and "res = JObj [(''outcome'', JStr (apply_outcome a2)), (''approval_id'', JInt (ap_id a)),
           (''effect_revision'', JInt (ap_effect_revision a2))]"
    and "get_receipt d2 key = None"
    and "effect_notice (ns_id n) (ap_id a) (apply_outcome a2) now
           (d2\<lparr>d_receipts := d_receipts d2 @ [(key, apply_receipt command res (ns_version n) (ns_version m) now)]\<rparr>)
         = Inr d'"
proof -
  from step show thesis
    unfolding apply_fresh_def Let_def prod.case
    apply (elim ebind_InrE some_or_InrE raise_else_InrE if_InrE Inr_pairE)
    by (auto simp: tadd_eq_Inr apply_receipt_def intro: applied)
qed

lemma apply_fresh_effect:
  assumes step: "apply_fresh H key command (n, p, pol, offer, a) now d = Inr (res, d')"
    and inv: "graph_inv d" and a: "get_approval d (ap_id a) = Some a" and n: "get_session d (ns_id n) = Some n"
    and off: "offer = get_offer d (ap_offer_id a)"
  shows "graph_keeps d d' \<and> (\<exists>v. get_receipt d' key = Some (apply_receipt command res (ns_version n) v now))
    \<and> (\<exists>b. get_approval d' (ap_id a) = Some b \<and> ap_status b \<noteq> AP_PENDING
         \<and> jget res ''outcome'' = JStr (apply_outcome b) \<and> jget res ''approval_id'' = JInt (ap_id a)
         \<and> (ap_effect_status a = Some NOT_APPLIED \<and> ap_effect_status b = Some APPLIED \<longrightarrow>
             ap_status a = AP_APPROVED \<and> (\<exists>r. ap_reviewed_at a = Some r \<and> r < ap_expires_at a)
             \<and> (ns_status n = AGREED \<or> basis_valid H d n p pol offer now = Inr True)
             \<and> (\<exists>x. get_offer d' (ap_offer_id a) = Some x \<and> of_status x = ACCEPTED)
             \<and> (\<exists>m. get_session d' (ns_id n) = Some m \<and> ns_status m = ACTIVE \<and> ns_version m = ns_version n + 1)
             \<and> ap_effect_revision b = ap_effect_revision a + 1))"
  using step
proof (cases rule: apply_fresh_cases)
  case (applied d1 a1 d2 a2 m)
  let ?d3 = "d2\<lparr>d_receipts := d_receipts d2 @ [(key, apply_receipt command res (ns_version n) (ns_version m) now)]\<rparr>"
  note k1 = reconcile_approval_keeps [OF applied(1) inv]
  then have inv1: "graph_inv d1" by (simp add: graph_keeps_def)
  note k2 = apply_effect_keeps [OF applied(4) inv1 applied(2)]
  then have "graph_inv d2" by (simp add: graph_keeps_def)
  then have k3: "graph_keeps d2 ?d3" by (intro graph_keeps_outside) auto
  then have "graph_inv ?d3" by (simp add: graph_keeps_def)
  note k4 = effect_notice_keeps [OF applied(9) this]
  have k: "graph_keeps d d'" using k1 k2 k3 k4 graph_keeps_trans by blast
  note fr = effect_notice_frame [OF applied(9)]
  obtain s where ap: "d_approvals d' = tmod (ap_id a) (\<lambda>x. x\<lparr>ap_notification_status := Some s\<rparr>) (d_approvals d2)"
    using fr(3) by auto
  define b where "b = a2\<lparr>ap_notification_status := Some s\<rparr>"
  have b: "get_approval d' (ap_id a) = Some b" using ap applied(5) by (simp add: b_def)
  have bf: "ap_status b = ap_status a2" "ap_effect_status b = ap_effect_status a2"
    "ap_effect_revision b = ap_effect_revision a2" "apply_outcome b = apply_outcome a2"
    by (simp_all add: b_def apply_outcome_def)
  have rc: "get_receipt d' key = Some (apply_receipt command res (ns_version n) (ns_version m) now)"
    using fr(2) applied(8) by (simp add: tget_append)
  have out: "jget res ''outcome'' = JStr (apply_outcome b)" "jget res ''approval_id'' = JInt (ap_id a)"
    by (simp_all add: applied(7) bf)
  have pend: "ap_status b \<noteq> AP_PENDING"
  proof -
    have "approvals_later d1 d2" using k2 by (simp add: graph_keeps_def)
    then have "graph_later a1 a2" using applied(2,5) unfolding approvals_later_def by (metis option.inject)
    then show ?thesis using applied(3) by (simp add: bf graph_later_def)
  qed
  have eff: "ap_status a = AP_APPROVED \<and> (\<exists>r. ap_reviewed_at a = Some r \<and> r < ap_expires_at a)
      \<and> (ns_status n = AGREED \<or> basis_valid H d n p pol offer now = Inr True)
      \<and> (\<exists>x. get_offer d' (ap_offer_id a) = Some x \<and> of_status x = ACCEPTED)
      \<and> (\<exists>m. get_session d' (ns_id n) = Some m \<and> ns_status m = ACTIVE \<and> ns_version m = ns_version n + 1)
      \<and> ap_effect_revision b = ap_effect_revision a + 1"
    if e: "ap_effect_status a = Some NOT_APPLIED" "ap_effect_status b = Some APPLIED"
    using applied(1)
  proof (cases rule: reconcile_approval_cases)
    case kept
    then have a1: "a1 = a" using applied(2) a by simp
    from applied(4) show ?thesis
    proof (cases rule: apply_effect_cases)
      case same
      then have "a2 = a" using applied(5) kept(1) a by simp
      with e bf show ?thesis by simp
    next
      case (applied off r)
      have o: "get_offer d (ap_offer_id a) = Some off" "of_id off = ap_offer_id a"
        using applied(5) off inv by (auto simp: graph_inv_def offer_inv_def offers_stored_def)
      have rows: "d_offers d' = d_offers d2" "d_sessions d' = d_sessions d2"
        using effects_onlyD(1,2) [OF fr(1)] by simp_all
      have "get_offer d' (ap_offer_id a) = Some (off\<lparr>of_status := ACCEPTED\<rparr>)"
        using o by (simp add: rows applied(6) applied_db_def kept(1))
      moreover have "get_session d' (ns_id n) = Some (n\<lparr>ns_status := ACTIVE, ns_version := ns_version n + 1\<rparr>)"
        using n by (simp add: rows applied(6) applied_db_def kept(1))
      moreover have "ap_effect_revision b = ap_effect_revision a + 1"
        using \<open>get_approval d2 (ap_id a) = Some a2\<close> a bf(3) by (auto simp: applied(6) applied_db_def kept(1))
      moreover have "ns_status n = AGREED \<or> basis_valid H d n p pol offer now = Inr True"
        using kept(2) e(1) applied(1) a1 by auto
      ultimately show ?thesis using applied(1,3,4) a1 by simp
    qed
  next
    case (lapsed c)
    then have "ap_effect_status a1 = Some INVALIDATED" using applied(2) by simp
    then have "a2 = a1" using applied(4,2,5) by (auto simp: apply_effect_def)
    with e bf \<open>ap_effect_status a1 = Some INVALIDATED\<close> show ?thesis by simp
  qed
  show ?thesis using k rc b out pend eff by blast
qed

lemma apply_event_cases:
  assumes step: "apply_event H aid eid owner now d = Inr (res, d')"
  obtains (replayed) x n p pol offer a e rc where "lock_execution d aid owner now = Inr x"
      and "lock_context d aid None = Inr (n, p, pol, offer, a)" and "tget (d_outbox d) eid = Some e" and "approval_event_ok (Some e) aid"
      and "get_receipt d (apply_key H aid eid) = Some rc" and "rc_command_hash rc = apply_command H aid eid e"
      and "res = rc_result rc" and "d' = d"
  | (fresh) x n p pol offer a e where "lock_execution d aid owner now = Inr x"
      and "lock_context d aid None = Inr (n, p, pol, offer, a)" and "tget (d_outbox d) eid = Some e" and "approval_event_ok (Some e) aid"
      and "get_receipt d (apply_key H aid eid) = None"
      and "apply_fresh H (apply_key H aid eid) (apply_command H aid eid e) (n, p, pol, offer, a) now d = Inr (res, d')"
proof -
  obtain x ctx where own: "lock_execution d aid owner now = Inr x" and ctx: "lock_context d aid None = Inr ctx"
    using step unfolding apply_event_def by (elim ebind_InrE)
  obtain n p pol offer a where ctx': "ctx = (n, p, pol, offer, a)" by (cases ctx)
  obtain e where e: "tget (d_outbox d) eid = Some e"
    using step own ctx unfolding apply_event_def by (auto simp: ebind_eq_Inr split: option.splits)
  have ok: "approval_event_ok (Some e) aid" using step own ctx e unfolding apply_event_def by (auto simp: ebind_eq_Inr split: if_splits)
  show thesis
  proof (cases "get_receipt d (apply_key H aid eid)")
    case (Some rc)
    with step own ctx e ok show thesis unfolding apply_event_def
      by (intro replayed [OF own ctx [unfolded ctx'] e ok]) (auto simp: ebind_eq_Inr split: if_splits)
  next
    case None
    with step own ctx e ok show thesis unfolding apply_event_def
      by (intro fresh [OF own ctx [unfolded ctx'] e ok None]) (simp add: ebind_eq_Inr ctx')
  qed
qed

lemma apply_event_effect:
  assumes step: "apply_event H aid eid owner now d = Inr (res, d')" and inv: "graph_inv d"
    and fresh: "get_receipt d (apply_key H aid eid) = None"
  shows "\<exists>x n p pol offer a b v e. lock_execution d aid owner now = Inr x \<and> lock_context d aid None = Inr (n, p, pol, offer, a)
     \<and> tget (d_outbox d) eid = Some e
     \<and> graph_keeps d d'
     \<and> get_receipt d' (apply_key H aid eid) = Some (apply_receipt (apply_command H aid eid e) res (ns_version n) v now)
     \<and> get_approval d' aid = Some b \<and> ap_status b \<noteq> AP_PENDING
     \<and> jget res ''outcome'' = JStr (apply_outcome b)
     \<and> (ap_effect_status a = Some NOT_APPLIED \<and> ap_effect_status b = Some APPLIED \<longrightarrow>
         ap_status a = AP_APPROVED \<and> (\<exists>r. ap_reviewed_at a = Some r \<and> r < ap_expires_at a)
         \<and> (ns_status n = AGREED \<or> basis_valid H d n p pol offer now = Inr True)
         \<and> (\<exists>y. get_offer d' (ap_offer_id a) = Some y \<and> of_status y = ACCEPTED)
         \<and> (\<exists>m. get_session d' (ns_id n) = Some m \<and> ns_status m = ACTIVE \<and> ns_version m = ns_version n + 1)
         \<and> ap_effect_revision b = ap_effect_revision a + 1)"
  using step
proof (cases rule: apply_event_cases)
  case (fresh x n p pol offer a e)
  note ids = lock_context_ids [OF fresh(2) inv] and rows = lock_context_Inr [OF fresh(2)]
  have "get_approval d (ap_id a) = Some a" "get_session d (ns_id n) = Some n" using ids rows(1,2) by simp_all
  from apply_fresh_effect [OF fresh(6) inv this rows(5)] ids fresh(1-3) show ?thesis by fastforce
qed (use assms(3) in simp)

lemma apply_event_keeps:
  assumes "apply_event H aid eid owner now d = Inr (res, d')" and "graph_inv d"
  shows "graph_keeps d d'"
proof (cases "get_receipt d (apply_key H aid eid)")
  case None
  with apply_event_effect [OF assms] show ?thesis by blast
next
  case (Some rc)
  from assms(1) have "d' = d" by (cases rule: apply_event_cases) (use Some in simp_all)
  with assms(2) show ?thesis by simp
qed

section \<open>Reconciliation and commands\<close>

lemma reconcile_keeps: "reconcile H aid now d = Inr (u, d') \<Longrightarrow> graph_inv d \<Longrightarrow> graph_keeps d d'"
  unfolding reconcile_def by (elim ebind_InrE) (auto dest: reconcile_approval_keeps)

lemma publish_invalidation_keeps:
  assumes "publish_invalidation H sid oid before now d = Inr d'" and "graph_inv d"
  shows "graph_keeps d d'"
proof -
  have "d_offers d' = d_offers d \<and> d_sessions d' = d_sessions d \<and> d_approvals d' = d_approvals d
      \<and> d_next_offer d' = d_next_offer d \<and> d_next_session d' = d_next_session d \<and> d_next_approval d' = d_next_approval d
      \<and> d_inputs d' = d_inputs d \<and> d_tasks d' = d_tasks d \<and> d_executions d' = d_executions d"
    using assms(1) unfolding publish_invalidation_def Let_def outbox_in_transaction_def
    by (elim ebind_InrE some_or_InrE) auto
  with assms(2) show ?thesis by (intro graph_keeps_outside) auto
qed

lemma reconcile_current_keeps:
  assumes step: "reconcile_current H n oid now d = Inr d'" and inv: "graph_inv d"
  shows "graph_keeps d d'"
proof -
  obtain p pol off where rest: "(case approval_of_offer d (of_id off) of
       Some a \<Rightarrow> reconcile_approval H (n, p, pol, Some off, a) now d
     | None \<Rightarrow>
         ebind (basis_valid H d n p pol (Some off) now) (\<lambda>ok.
         if ok then Inr d
         else
         ebind (invalidate_offer H now ''OFFER_BASIS_INVALID'' (ns_id n) (Some off)
                 (mod_session (ns_id n) (\<lambda>s. s\<lparr>ns_version := ns_version s + 1\<rparr>) d)) (\<lambda>d1.
         publish_invalidation H (ns_id n) (of_id off) (ns_version n) now d1))) = Inr d'"
    using step unfolding reconcile_current_def by (elim ebind_InrE some_or_InrE)
  show ?thesis
  proof (cases "approval_of_offer d (of_id off)")
    case (Some a)
    with rest reconcile_approval_keeps [OF _ inv] show ?thesis by simp
  next
    case None
    let ?d0 = "mod_session (ns_id n) (\<lambda>s. s\<lparr>ns_version := ns_version s + 1\<rparr>) d"
    have k0: "graph_keeps d ?d0" by (rule graph_keeps_session [OF inv]) simp_all
    then have i0: "graph_inv ?d0" by (simp add: graph_keeps_def)
    show ?thesis
    proof (cases "d' = d")
      case False
      with rest None obtain d1 where
        one: "invalidate_offer H now ''OFFER_BASIS_INVALID'' (ns_id n) (Some off) ?d0 = Inr d1"
        and two: "publish_invalidation H (ns_id n) (of_id off) (ns_version n) now d1 = Inr d'"
        by (auto simp: ebind_eq_Inr split: if_splits)
      have k1: "graph_keeps ?d0 d1" by (rule invalidate_offer_keeps [OF one i0])
      then have "graph_keeps d1 d'" using publish_invalidation_keeps [OF two] by (simp add: graph_keeps_def)
      with k0 k1 show ?thesis using graph_keeps_trans by blast
    qed (use inv in simp)
  qed
qed

lemma reconcile_offer_keeps:
  assumes step: "reconcile_offer H sid clock d = Inr (u, d')" and inv: "graph_inv d"
  shows "graph_keeps d d'"
proof -
  let ?d1 = "mod_session sid (\<lambda>s. s\<lparr>ns_lifecycle_checked_at := Some (fst clock)\<rparr>) d"
  have k: "graph_keeps d ?d1" by (rule graph_keeps_session [OF inv]) simp_all
  then have "graph_inv ?d1" by (simp add: graph_keeps_def)
  from step have "d' = ?d1 \<or> (\<exists>n oid. reconcile_current H n oid (snd clock) ?d1 = Inr d')"
    unfolding reconcile_offer_def Let_def
    by (elim ebind_InrE some_or_InrE) (auto simp: ebind_eq_Inr split: if_splits option.splits)
  with k reconcile_current_keeps [OF _ \<open>graph_inv ?d1\<close>] show ?thesis using graph_keeps_trans by blast
qed

lemma execute_keeps:
  assumes step: "execute H qid rid owner expected now d = Inr (res, d')" and inv: "graph_inv d"
  shows "graph_keeps d d'"
  using step
proof (cases rule: execute_cases)
  case (fresh run t n)
  from execute_fresh_effect [OF fresh(4,2) inv] show ?thesis by (auto simp: graph_keeps_def)
qed (use inv in simp)

lemma mod_execution_keeps:
  assumes "graph_inv d" and "\<And>x. tget (d_executions d) aid = Some x \<Longrightarrow> ex_ownership_epoch x \<le> ex_ownership_epoch (f x)"
  shows "graph_keeps d (mod_execution aid f d)"
  using assms(2) by (intro graph_keeps_outside [OF assms(1)]) auto

lemma approval_claim_cases:
  assumes "approval_claim aid token now d = Inr (r, d')"
  obtains (declined) "r = None" and "d' = d"
  | (granted) x where "tget (d_executions d) aid = Some x" and "\<not> ex_recovery_required x"
      and "\<forall>e. ex_lease_until x = Some e \<longrightarrow> e \<le> now" and "\<forall>e. ex_next_retry_at x = Some e \<longrightarrow> e \<le> now"
      and "r = Some (token, ex_ownership_epoch x + 1)"
      and "d' = mod_execution aid (\<lambda>r. r\<lparr>ex_lease_token := Some token, ex_lease_until := Some (now + seconds 30),
              ex_ownership_epoch := ex_ownership_epoch r + 1\<rparr>) d"
  using assms unfolding approval_claim_def
  by (auto split: option.splits if_splits)

lemma approval_claim_keeps: "approval_claim aid token now d = Inr (r, d') \<Longrightarrow> graph_inv d \<Longrightarrow> graph_keeps d d'"
  by (erule approval_claim_cases) (simp_all add: mod_execution_keeps)

lemma approval_release_keeps:
  "approval_release aid owner ckpt failed recovery clock d = Inr (u, d') \<Longrightarrow> graph_inv d \<Longrightarrow> graph_keeps d d'"
  unfolding approval_release_def Let_def
  by (elim ebind_InrE) (auto intro!: mod_execution_keeps)

lemma mark_delivered_frame: "\<exists>t. mark_delivered aid ks d = d\<lparr>d_outbox := t\<rparr>"
proof (induction ks arbitrary: d)
  case Nil
  show ?case by (rule exI [of _ "d_outbox d"]) simp
next
  case (Cons k ks)
  have "\<exists>t. (case tget (d_outbox d) k of
          None \<Rightarrow> d
        | Some e \<Rightarrow> if ob_approval_id e = Some aid then mod_outbox k (\<lambda>r. r\<lparr>ob_status := OB_DELIVERED\<rparr>) d else d)
      = d\<lparr>d_outbox := t\<rparr>"
    by (cases "tget (d_outbox d) k")
      (auto intro: exI [of _ "d_outbox d"] exI [of _ "tmod k (\<lambda>r. r\<lparr>ob_status := OB_DELIVERED\<rparr>) (d_outbox d)"])
  then obtain t where "(case tget (d_outbox d) k of
          None \<Rightarrow> d
        | Some e \<Rightarrow> if ob_approval_id e = Some aid then mod_outbox k (\<lambda>r. r\<lparr>ob_status := OB_DELIVERED\<rparr>) d else d)
      = d\<lparr>d_outbox := t\<rparr>" by blast
  with Cons.IH [of "d\<lparr>d_outbox := t\<rparr>"] show ?case by simp
qed

lemma acknowledge_keeps:
  assumes "acknowledge aid ks owner now d = Inr (u, d')" and "graph_inv d"
  shows "graph_keeps d d'"
proof -
  obtain t where "d' = d\<lparr>d_outbox := t\<rparr>"
    using assms(1) mark_delivered_frame [of aid ks d] unfolding acknowledge_def by (elim ebind_InrE) auto
  with assms(2) show ?thesis by (intro graph_keeps_outside) auto
qed

section \<open>Runs of the graph runtime\<close>

inductive graph_step :: "(json \<Rightarrow> string) \<Rightarrow> db \<Rightarrow> db \<Rightarrow> bool" for H where
  command: "execute H qid rid owner expected now d = Inr (res, d') \<Longrightarrow> graph_step H d d'"
| decision: "decide H seller aid request comment approved revision now d = Inr (snap, d') \<Longrightarrow> graph_step H d d'"
| application: "apply_event H aid eid owner now d = Inr (res, d') \<Longrightarrow> graph_step H d d'"
| reconciled: "reconcile H aid now d = Inr (u, d') \<Longrightarrow> graph_step H d d'"
| checked: "reconcile_offer H sid clock d = Inr (u, d') \<Longrightarrow> graph_step H d d'"
| claimed: "approval_claim aid token now d = Inr (r, d') \<Longrightarrow> graph_step H d d'"
| released: "approval_release aid owner ckpt failed recovery clock d = Inr (u, d') \<Longrightarrow> graph_step H d d'"
| acknowledged: "acknowledge aid ks owner now d = Inr (u, d') \<Longrightarrow> graph_step H d d'"

lemma graph_step_keeps: "graph_step H d d' \<Longrightarrow> graph_inv d \<Longrightarrow> graph_keeps d d'"
  by (induction rule: graph_step.induct)
    (blast dest: execute_keeps decide_keeps apply_event_keeps reconcile_keeps reconcile_offer_keeps
      approval_claim_keeps approval_release_keeps acknowledge_keeps)+

lemma graph_steps_keep: "(graph_step H)\<^sup>*\<^sup>* d d' \<Longrightarrow> graph_inv d \<Longrightarrow> graph_keeps d d'"
proof (induction rule: rtranclp_induct)
  case (step y z)
  then have k: "graph_keeps d y" by blast
  then have "graph_keeps y z" using step.hyps(2) graph_step_keeps by (simp add: graph_keeps_def)
  with k show ?case by (rule graph_keeps_trans)
qed simp

end
