(* ===== verification/Graph_Waiting.thy ===== *)
theory Graph_Waiting
  imports Graph_Approval_Spec
begin

text \<open>
  While an approval is open, its negotiation waits for it. \<open>approvals_awaited\<close> is the invariant: an approval that is pending, or
  approved and not applied yet, is the only open one of its offer, the offer is the current one of a negotiation that is
  WAITING_APPROVAL, and it has not been closed. Every transaction of the graph runtime preserves it, one lemma each; so
  the early return of \<open>reconcile_approval\<close> for a deal that is already made is never taken for an open approval, and the
  deadline and the basis of the offer are always checked.
\<close>

section \<open>Open approvals\<close>

definition open_approval :: "approval \<Rightarrow> bool" where
  "open_approval a \<longleftrightarrow> ap_effect_status a \<noteq> Some INVALIDATED
     \<and> (ap_status a = AP_PENDING \<or> ap_status a = AP_APPROVED \<and> ap_effect_status a = Some NOT_APPLIED)"

definition waits :: "db \<Rightarrow> int \<Rightarrow> int \<Rightarrow> bool" where
  "waits d sid oid \<longleftrightarrow> (\<exists>n x. get_session d sid = Some n \<and> ns_status n = WAITING_APPROVAL
     \<and> ns_current_offer_id n = Some oid \<and> get_offer d oid = Some x \<and> of_status x \<in> {PROPOSED, ACCEPTED})"

definition open_at :: "db \<Rightarrow> int \<Rightarrow> approval \<Rightarrow> bool" where
  "open_at d k a \<longleftrightarrow> get_approval d k = Some a \<and> open_approval a"

definition approvals_awaited :: "db \<Rightarrow> bool" where
  "approvals_awaited d \<longleftrightarrow> (\<forall>k a. open_at d k a \<longrightarrow> waits d (ap_session_id a) (ap_offer_id a))
     \<and> (\<forall>k a j b. open_at d k a \<longrightarrow> open_at d j b \<longrightarrow> ap_offer_id a = ap_offer_id b \<longrightarrow> k = j)"

lemma awaitedD:
  assumes "approvals_awaited d"
  shows "open_at d k a \<Longrightarrow> waits d (ap_session_id a) (ap_offer_id a)"
    and "open_at d k a \<Longrightarrow> open_at d j b \<Longrightarrow> ap_offer_id a = ap_offer_id b \<Longrightarrow> k = j"
  using assms unfolding approvals_awaited_def by blast+

definition settles :: "db \<Rightarrow> db \<Rightarrow> bool" where
  \<comment> \<open>no approval is added or opened\<close>
  "settles d d' \<longleftrightarrow> (\<forall>k b. get_approval d' k = Some b \<longrightarrow> (\<exists>a. get_approval d k = Some a
     \<and> ap_session_id b = ap_session_id a \<and> ap_offer_id b = ap_offer_id a \<and> (open_approval b \<longrightarrow> open_approval a)))"

lemma settles_same: "d_approvals d' = d_approvals d \<Longrightarrow> settles d d'"
  by (simp add: settles_def)

lemma settles_trans: "settles d d' \<Longrightarrow> settles d' d'' \<Longrightarrow> settles d d''"
  unfolding settles_def by metis

lemma settles_mod:
  assumes "d_approvals d' = tmod k f (d_approvals d)"
    and "\<And>a. get_approval d k = Some a \<Longrightarrow> ap_session_id (f a) = ap_session_id a \<and> ap_offer_id (f a) = ap_offer_id a
      \<and> (open_approval (f a) \<longrightarrow> open_approval a)"
  shows "settles d d'"
  unfolding settles_def using assms by auto

lemma settlesD: "settles d d' \<Longrightarrow> open_at d' k b \<Longrightarrow> \<exists>a. open_at d k a \<and> ap_session_id b = ap_session_id a \<and> ap_offer_id b = ap_offer_id a"
  unfolding settles_def open_at_def by blast

definition idle :: "int \<Rightarrow> db \<Rightarrow> bool" where
  \<comment> \<open>the negotiation has no open approval\<close>
  "idle sid d \<longleftrightarrow> (\<forall>k a. open_at d k a \<longrightarrow> ap_session_id a \<noteq> sid)"

definition unasked :: "int \<Rightarrow> db \<Rightarrow> bool" where
  \<comment> \<open>the offer has no open approval\<close>
  "unasked oid d \<longleftrightarrow> (\<forall>k a. open_at d k a \<longrightarrow> ap_offer_id a \<noteq> oid)"

lemma idle_settles: "idle sid d \<Longrightarrow> settles d d' \<Longrightarrow> idle sid d'"
  unfolding idle_def by (metis settlesD)

lemma unasked_settles: "unasked oid d \<Longrightarrow> settles d d' \<Longrightarrow> unasked oid d'"
  unfolding unasked_def by (metis settlesD)

lemma waiting_only: "approvals_awaited d \<Longrightarrow> get_session d sid = Some n \<Longrightarrow> ns_status n \<noteq> WAITING_APPROVAL \<Longrightarrow> idle sid d"
  unfolding idle_def by (metis awaitedD(1) option.inject waits_def)

lemma unasked_current:
  assumes "approvals_awaited d" and "get_session d sid = Some n"
    and "\<And>oid. ns_current_offer_id n = Some oid \<Longrightarrow> unasked oid d"
  shows "idle sid d"
  unfolding idle_def
proof (intro allI impI notI)
  fix k a assume a: "open_at d k a" "ap_session_id a = sid"
  then have "ns_current_offer_id n = Some (ap_offer_id a)" using awaitedD(1) [OF assms(1) a(1)] assms(2) by (simp add: waits_def)
  from assms(3) [OF this] a(1) show False unfolding unasked_def by blast
qed

section \<open>Writes that preserve the invariant\<close>

lemma awaited_settles:
  assumes "approvals_awaited d" and "settles d d'"
    and "\<And>k b. open_at d' k b \<Longrightarrow> waits d (ap_session_id b) (ap_offer_id b) \<Longrightarrow> waits d' (ap_session_id b) (ap_offer_id b)"
  shows "approvals_awaited d'"
  unfolding approvals_awaited_def
proof (intro conjI allI impI)
  fix k b assume b: "open_at d' k b"
  then obtain a where "open_at d k a" "ap_session_id b = ap_session_id a" "ap_offer_id b = ap_offer_id a"
    using settlesD [OF assms(2)] by blast
  with awaitedD(1) [OF assms(1), of k a] assms(3) [OF b] show "waits d' (ap_session_id b) (ap_offer_id b)" by simp
next
  fix k b j c assume "open_at d' k b" "open_at d' j c" "ap_offer_id b = ap_offer_id c"
  then show "k = j" using settlesD [OF assms(2)] awaitedD(2) [OF assms(1)] by metis
qed

lemma awaited_same:
  assumes "approvals_awaited d" and "settles d d'" and "d_offers d' = d_offers d" and "d_sessions d' = d_sessions d"
  shows "approvals_awaited d'"
  using assms(1,2) by (rule awaited_settles) (simp add: waits_def assms(3,4))

lemma awaited_outside:
  "approvals_awaited d \<Longrightarrow> d_offers d' = d_offers d \<Longrightarrow> d_sessions d' = d_sessions d \<Longrightarrow> d_approvals d' = d_approvals d \<Longrightarrow> approvals_awaited d'"
  by (rule awaited_same) (simp_all add: settles_same)

lemma awaited_session:
  assumes "approvals_awaited d" and "idle sid d \<or> (\<forall>n. ns_status (f n) = ns_status n \<and> ns_current_offer_id (f n) = ns_current_offer_id n)"
  shows "approvals_awaited (mod_session sid f d)"
proof (rule awaited_settles [OF assms(1)])
  fix k b assume "open_at (mod_session sid f d) k b" and w: "waits d (ap_session_id b) (ap_offer_id b)"
  then have "open_at d k b" by (simp add: open_at_def)
  with assms(2) w show "waits (mod_session sid f d) (ap_session_id b) (ap_offer_id b)"
    by (auto simp: waits_def idle_def)
qed (simp add: settles_same)

lemma awaited_offer:
  assumes "approvals_awaited d" and "unasked oid d \<or> (\<forall>x. of_status x \<in> {PROPOSED, ACCEPTED} \<longrightarrow> of_status (f x) \<in> {PROPOSED, ACCEPTED})"
  shows "approvals_awaited (mod_offer oid f d)"
proof (rule awaited_settles [OF assms(1)])
  fix k b assume "open_at (mod_offer oid f d) k b" and w: "waits d (ap_session_id b) (ap_offer_id b)"
  then have "open_at d k b" by (simp add: open_at_def)
  with assms(2) w show "waits (mod_offer oid f d) (ap_session_id b) (ap_offer_id b)"
    unfolding waits_def unasked_def by (cases "ap_offer_id b = oid") auto
qed (simp add: settles_same)

lemma awaited_closed:
  \<comment> \<open>an offer is closed, and whatever waited for it goes on\<close>
  assumes "approvals_awaited d" and "settles d d'" and "unasked oid d'"
    and "\<And>k. k \<noteq> oid \<Longrightarrow> get_offer d' k = get_offer d k"
    and "\<And>s n. get_session d s = Some n \<Longrightarrow> ns_current_offer_id n \<noteq> Some oid \<Longrightarrow> get_session d' s = Some n"
  shows "approvals_awaited d'"
proof (rule awaited_settles [OF assms(1,2)])
  fix k b assume b: "open_at d' k b" and w: "waits d (ap_session_id b) (ap_offer_id b)"
  then have "ap_offer_id b \<noteq> oid" using assms(3) by (auto simp: unasked_def)
  with w assms(4,5) show "waits d' (ap_session_id b) (ap_offer_id b)" unfolding waits_def by fastforce
qed

lemma awaited_settled:
  \<comment> \<open>the open approval of an offer is settled\<close>
  assumes "approvals_awaited d" and "settles d d'" and "open_at d k a" and "\<And>b. \<not> open_at d' k b"
    and "\<And>j. j \<noteq> ap_offer_id a \<Longrightarrow> get_offer d' j = get_offer d j"
    and "\<And>s. s \<noteq> ap_session_id a \<Longrightarrow> get_session d' s = get_session d s"
  shows "approvals_awaited d'"
proof (rule awaited_closed [OF assms(1,2) _ assms(5)])
  show "unasked (ap_offer_id a) d'"
    unfolding unasked_def
  proof (intro allI impI notI)
    fix j b assume b: "open_at d' j b" "ap_offer_id b = ap_offer_id a"
    then obtain c where "open_at d j c" "ap_offer_id c = ap_offer_id a" using settlesD [OF assms(2)] by metis
    then have "j = k" using awaitedD(2) [OF assms(1)] assms(3) by blast
    with b(1) assms(4) show False by blast
  qed
  show "get_session d' s = Some n" if "get_session d s = Some n" "ns_current_offer_id n \<noteq> Some (ap_offer_id a)" for s n
    using that awaitedD(1) [OF assms(1,3)] assms(6) [of s] by (cases "s = ap_session_id a") (auto simp: waits_def)
qed

section \<open>Invalidations\<close>

lemma invalidate_approval_settles:
  assumes "invalidate_approval H now reason sid e v aid d = Inr d'"
  shows "settles d d'"
  using assms
proof (cases rule: invalidate_approval_cases)
  case (invalidated n a s rk r)
  show ?thesis by (rule settles_mod [OF invalidated(5)]) (simp add: open_approval_def)
qed (simp add: settles_same)

lemma invalidate_approvals_settle:
  "efold (invalidate_approval H now reason sid e v) aids d = Inr d' \<Longrightarrow> settles d d'"
  by (erule efold_invariant [where P = "settles d"])
    (auto simp: settles_same intro: settles_trans invalidate_approval_settles)

lemma invalidate_approval_awaited:
  "invalidate_approval H now reason sid e v aid d = Inr d' \<Longrightarrow> approvals_awaited d \<Longrightarrow> approvals_awaited d'"
  using awaited_same [OF _ invalidate_approval_settles, of d H now reason sid e v aid d'] effects_onlyD(1,2) [OF invalidate_approval_effect(1)]
  by blast

lemma invalidate_offer_settles:
  assumes "invalidate_offer H now reason sid off d = Inr d'"
  shows "settles d d'"
proof (cases off)
  case (Some x)
  show ?thesis
  proof (cases "of_status x \<in> {PROPOSED, ACCEPTED}")
    case True
    let ?d1 = "drop_current sid (of_id x) (close_offer (of_id x) now reason d)"
    obtain v where "efold (invalidate_approval H now reason sid False (Some v)) (approvals_of_offer ?d1 (of_id x)) ?d1 = Inr d'"
      using assms True unfolding invalidate_offer_def Some by (auto simp: Let_def result_simps)
    then have "settles ?d1 d'" by (rule invalidate_approvals_settle)
    moreover have "settles d ?d1" by (simp add: settles_same)
    ultimately show ?thesis using settles_trans by blast
  qed (use assms Some in \<open>auto simp: invalidate_offer_def settles_same\<close>)
qed (use assms in \<open>simp add: invalidate_offer_def settles_same\<close>)

lemma of_offer_listed:
  assumes "approvals_stored d" and "get_approval d k = Some a"
  shows "k \<in> set (approvals_of_offer d (ap_offer_id a))"
proof -
  have "ap_id a = k" using assms by (simp add: approvals_stored_def)
  moreover have "a \<in> set (trows (d_approvals d))" using assms(2) by (rule tget_in_trows)
  ultimately show ?thesis unfolding approvals_of_offer_def by auto
qed

lemma invalidate_offer_unasked:
  assumes "invalidate_offer H now reason sid (Some x) d = Inr d'" and "of_status x \<in> {PROPOSED, ACCEPTED}"
    and "approvals_stored d"
  shows "unasked (of_id x) d'"
  unfolding unasked_def
proof (intro allI impI notI)
  fix k b assume b: "open_at d' k b" "ap_offer_id b = of_id x"
  then obtain a where "open_at d k a" "ap_offer_id a = of_id x" using settlesD [OF invalidate_offer_settles [OF assms(1)]] by metis
  then have "k \<in> set (approvals_of_offer d (of_id x))" using of_offer_listed [OF assms(3), of k a] by (simp add: open_at_def)
  from invalidate_offer_effect(5) [OF assms(1,2) this] b(1) show False by (auto simp: open_at_def open_approval_def)
qed

lemma invalidate_offer_awaited:
  assumes step: "invalidate_offer H now reason sid off d = Inr d'" and "approvals_awaited d" and "approvals_stored d"
  shows "approvals_awaited d'"
proof (cases off)
  case (Some x)
  show ?thesis
  proof (cases "of_status x \<in> {PROPOSED, ACCEPTED}")
    case True
    note eff = invalidate_offer_effect [OF step [unfolded Some] True]
    show ?thesis
    proof (rule awaited_closed [OF assms(2) invalidate_offer_settles [OF step] invalidate_offer_unasked [OF step [unfolded Some] True assms(3)]])
      show "get_offer d' k = get_offer d k" if "k \<noteq> of_id x" for k using that by (simp add: eff(1) close_offer_def)
      show "get_session d' s = Some n" if "get_session d s = Some n" "ns_current_offer_id n \<noteq> Some (of_id x)" for s n
        using that by (cases "s = sid") (simp_all add: eff(2))
    qed
  qed (use step assms(2) Some in \<open>auto simp: invalidate_offer_def\<close>)
qed (use step assms(2) in \<open>simp add: invalidate_offer_def\<close>)

lemma invalidate_current_idle:
  assumes step: "invalidate_offer H now reason sid (current_offer d n) d = Inr d'"
    and "approvals_awaited d" and "graph_inv d" and n: "get_session d sid = Some n"
  shows "idle sid d'"
proof (cases "\<exists>x. current_offer d n = Some x \<and> of_status x \<in> {PROPOSED, ACCEPTED}")
  case True
  then obtain x where x: "current_offer d n = Some x" "of_status x \<in> {PROPOSED, ACCEPTED}" by blast
  then obtain oid where oid: "ns_current_offer_id n = Some oid" "get_offer d oid = Some x"
    by (auto simp: current_offer_def split: option.splits)
  have "of_id x = oid" using assms(3) oid(2) by (auto simp: graph_inv_def dest: offer_inv_offerD)
  then have un: "unasked oid d'" using invalidate_offer_unasked [OF step [unfolded x(1)] x(2)] assms(3) by (simp add: graph_inv_def)
  show ?thesis
    unfolding idle_def
  proof (intro allI impI notI)
    fix k b assume b: "open_at d' k b" "ap_session_id b = sid"
    then obtain a where "open_at d k a" "ap_session_id a = sid" "ap_offer_id b = ap_offer_id a"
      using settlesD [OF invalidate_offer_settles [OF step]] by metis
    then have "ap_offer_id b = oid" using awaitedD(1) [OF assms(2)] n oid(1) by (fastforce simp: waits_def)
    with un b(1) show False by (simp add: unasked_def)
  qed
next
  case False
  then have d': "d' = d" using step by (auto simp: invalidate_offer_def split: option.splits if_splits)
  have "unasked oid d" if "ns_current_offer_id n = Some oid" for oid
    unfolding unasked_def
  proof (intro allI impI notI)
    fix k a assume a: "open_at d k a" "ap_offer_id a = oid"
    then obtain x where "get_offer d oid = Some x" "of_status x \<in> {PROPOSED, ACCEPTED}"
      using awaitedD(1) [OF assms(2)] by (fastforce simp: waits_def)
    with False that show False by (simp add: current_offer_def)
  qed
  with d' show ?thesis using unasked_current [OF assms(2) n] by simp
qed

section \<open>The commands of the buyer\<close>

lemma new_offer_awaited:
  assumes "new_offer_in_transaction H n p pol t who now d = Inr (k, d')" and "approvals_awaited d"
  shows "approvals_awaited d'" and "settles d d'"
proof -
  from assms(1) obtain off es where off: "of_status off = PROPOSED"
    and d': "d' = d\<lparr>d_offers := tput k (off\<lparr>of_id := k\<rparr>) (d_offers d), d_next_offer := k + 1, d_evidence := es\<rparr>"
    by (cases rule: new_offer_tx_cases) (auto dest: new_offer_fields)
  show set: "settles d d'" by (rule settles_same) (simp add: d')
  show "approvals_awaited d'"
  proof (rule awaited_settles [OF assms(2) set])
    fix j b assume "waits d (ap_session_id b) (ap_offer_id b)"
    then show "waits d' (ap_session_id b) (ap_offer_id b)" using off by (auto simp: waits_def d')
  qed
qed

lemma fold_settles:
  assumes "\<And>a. ap_session_id (f a) = ap_session_id a \<and> ap_offer_id (f a) = ap_offer_id a \<and> (open_approval (f a) \<longrightarrow> open_approval a)"
  shows "settles d (fold (\<lambda>aid. mod_approval aid f) aids d)"
proof (induction aids arbitrary: d)
  case (Cons aid aids)
  have "settles d (mod_approval aid f d)" by (rule settles_mod [where k = aid and f = f]) (simp_all add: assms)
  then show ?case using Cons.IH [of "mod_approval aid f d"] settles_trans by fastforce
qed (simp add: settles_same)

lemma supersede_awaited:
  assumes "approvals_awaited d"
  shows "approvals_awaited (supersede old k d)" and "settles d (supersede old k d)"
proof -
  let ?f = "\<lambda>a. a\<lparr>ap_superseded_by := Some k\<rparr>"
  have fold: "settles e (fold (\<lambda>aid. mod_approval aid ?f) aids e)" for aids e
    by (rule fold_settles) (simp add: open_approval_def)
  have frame: "d_offers (fold (\<lambda>aid. mod_approval aid ?f) aids e) = d_offers e"
    "d_sessions (fold (\<lambda>aid. mod_approval aid ?f) aids e) = d_sessions e" for aids and e :: db
    by (induction aids arbitrary: e) simp_all
  have "approvals_awaited (fold (\<lambda>aid. mod_approval aid ?f) aids e) \<and> settles d (fold (\<lambda>aid. mod_approval aid ?f) aids e)"
    if "e = mod_offer oid (\<lambda>x. x\<lparr>of_superseded_by := Some k\<rparr>) d" for aids oid e
  proof -
    have "approvals_awaited e" unfolding that by (rule awaited_offer [OF assms]) simp
    moreover have "settles d e" by (rule settles_same) (simp add: that)
    ultimately show ?thesis using awaited_same [OF _ fold] frame fold settles_trans by blast
  qed
  then have "approvals_awaited (supersede old k d) \<and> settles d (supersede old k d)"
    using assms settles_same [of d d] unfolding supersede_def by (auto split: option.split)
  then show "approvals_awaited (supersede old k d)" and "settles d (supersede old k d)" by blast+
qed

lemma request_approval_awaited:
  assumes step: "request_graph_approval sid oid pol now d = Inr (aid, d')" and stored: "approvals_stored d"
    and wait: "approvals_awaited d" and idle: "idle sid d" and un: "unasked oid d"
    and rows: "get_session d sid = Some n" "get_offer d oid = Some x" "of_status x \<in> {PROPOSED, ACCEPTED}"
  shows "approvals_awaited d'"
proof -
  note eff = request_graph_approval_effect [OF step stored]
  have old: "open_at d k b" if "open_at d' k b" "k \<noteq> aid" for k b
    using that eff(7) by (simp add: open_at_def)
  have new: "ap_session_id b = sid \<and> ap_offer_id b = oid" if "open_at d' aid b" for b
    using that eff(6) by (auto simp: open_at_def)
  have own: "waits d' sid oid" using rows by (simp add: waits_def eff(2,5))
  show ?thesis
    unfolding approvals_awaited_def
  proof (intro conjI allI impI)
    fix k b assume b: "open_at d' k b"
    show "waits d' (ap_session_id b) (ap_offer_id b)"
    proof (cases "k = aid")
      case False
      with b old have "open_at d k b" by blast
      moreover from this idle have "ap_session_id b \<noteq> sid" by (auto simp: idle_def)
      ultimately show ?thesis using awaitedD(1) [OF wait] by (fastforce simp: waits_def eff(2,5))
    qed (use b new own in auto)
  next
    fix k b j c assume h: "open_at d' k b" "open_at d' j c" "ap_offer_id b = ap_offer_id c"
    have "ap_offer_id a \<noteq> oid" if "open_at d i a" for i a using un that by (simp add: unasked_def)
    with h old new have "k = aid \<longleftrightarrow> j = aid" by metis
    with h old show "k = j" using awaitedD(2) [OF wait] by metis
  qed
qed

lemma settle_offer_awaited:
  assumes step: "settle_offer H n p pol inp au k now d = Inr (res, d')" and wait: "approvals_awaited d"
    and stored: "approvals_stored d" and un: "unasked k d"
    and rows: "get_session d (ns_id n) = Some m" "get_offer d k = Some x" "of_status x \<in> {PROPOSED, ACCEPTED}"
    and idle: "idle (ns_id n) d \<or> \<not> au_can_accept au \<and> \<not> au_can_request_approval au \<and> ti_counter_terms inp = None"
  shows "approvals_awaited d'"
proof -
  have set: "approvals_awaited (set_offer_status k st d)" for st
    unfolding set_offer_status_def using wait un by (intro awaited_offer) simp_all
  have cur: "approvals_awaited (set_current sid c e)" if "approvals_awaited e" "idle sid e" for sid c e
    unfolding set_current_def using that by (intro awaited_session) simp_all
  have still: "idle sid (set_offer_status k st d)" if "idle sid d" for sid st
    using that by (rule idle_settles) (simp add: settles_same)
  consider (accept) "au_can_accept au" | (ask) "\<not> au_can_accept au" "au_can_request_approval au"
    | (reject) "\<not> au_can_accept au" "\<not> au_can_request_approval au" "ti_counter_terms inp = None"
    | (counter) ct where "\<not> au_can_accept au" "\<not> au_can_request_approval au" "ti_counter_terms inp = Some ct"
    by (cases "ti_counter_terms inp") blast+
  then show ?thesis
  proof cases
    case accept
    then have "d' = set_current (ns_id n) (Some k) (set_offer_status k ACCEPTED d)" using step by (simp add: settle_offer_def)
    with accept idle show ?thesis using cur [OF set still] by blast
  next
    case ask
    then obtain aid where "request_graph_approval (ns_id n) k pol now d = Inr (aid, d')"
      using step by (auto simp: settle_offer_def result_simps)
    with ask idle show ?thesis using request_approval_awaited [OF _ stored wait _ un rows] by blast
  next
    case reject
    then have "d' = set_offer_status k REJECTED d" using step by (simp add: settle_offer_def)
    with set show ?thesis by simp
  next
    case counter
    then obtain c d2 where new: "new_offer_in_transaction H n p pol ct AGENT now (set_offer_status k REJECTED d) = Inr (c, d2)"
      and d': "d' = set_current (ns_id n) (Some c) d2"
      using step by (auto simp: settle_offer_def result_simps Let_def)
    note eff = new_offer_awaited [OF new set]
    have "idle (ns_id n) d" using idle counter by auto
    then have "idle (ns_id n) d2" using idle_settles [OF still eff(2)] by blast
    with eff(1) show ?thesis unfolding d' by (rule cur)
  qed
qed

lemma prohibited_only:
  assumes "authorized t pol = Inr au" and "au_conditions_valid au" and "au_prohibited au"
  shows "\<not> au_can_accept au \<and> \<not> au_can_request_approval au"
proof -
  obtain ot where "authorize_with ot pol (tm_additional_terms t) = Inr au"
    using assms(1) by (auto simp: authorized_def result_simps)
  then have at: "authorize_terms ot pol (tm_additional_terms t) = Inr au" by (simp add: authorize_with_Inr)
  obtain net where "au_prohibited au \<longleftrightarrow> \<not> au_conditions_valid au \<or> net < sp_minimum_net_price pol"
    "au_can_accept au \<longleftrightarrow> au_conditions_valid au \<and> sp_auto_accept_threshold pol \<le> net"
    "au_can_request_approval au \<longleftrightarrow> au_conditions_valid au \<and> sp_minimum_net_price pol \<le> net \<and> net < sp_auto_accept_threshold pol"
    using authorize_terms_net [OF at] by metis
  moreover obtain q where "stored_policy pol = Inr q" using at by (auto simp: authorize_terms_Inr)
  then have "sp_minimum_net_price pol \<le> sp_auto_accept_threshold pol" using stored_policy_ordered [of pol q] by simp
  ultimately show ?thesis using assms(2,3) by auto
qed

lemma place_offer_awaited:
  assumes step: "place_offer H n p pol inp t au (current_offer d n) now d = Inr (res, d')" and wait: "approvals_awaited d"
    and inv: "graph_inv d" and n: "get_session d (ns_id n) = Some n"
    and au: "authorized t pol = Inr au" "au_conditions_valid au"
  shows "approvals_awaited d'"
proof -
  let ?rej = "au_prohibited au \<and> ti_counter_terms inp = None" and ?cur = "current_offer d n"
  obtain d1 k d2 where d1: "(if ?rej then Inr d else invalidate_offer H now ''REPLACED'' (ns_id n) ?cur d) = Inr d1"
    and new: "new_offer_in_transaction H n p pol t BUYER now d1 = Inr (k, d2)"
    and settle: "settle_offer H n p pol inp au k now
        (mod_session (ns_id n) (\<lambda>s. s\<lparr>ns_round_count := ns_round_count s + 1, ns_version := ns_version s + 1\<rparr>)
          (if ?rej then d2 else supersede ?cur k d2)) = Inr (res, d')"
    using step unfolding place_offer_def Let_def by (elim result_elims) simp
  have stored: "approvals_stored d" and oinv: "offer_inv d" using inv by (simp_all add: graph_inv_def)
  have one: "approvals_awaited d1 \<and> approvals_stored d1 \<and> offer_inv d1 \<and> (?rej \<or> idle (ns_id n) d1) \<and> (\<exists>m. get_session d1 (ns_id n) = Some m)"
  proof (cases ?rej)
    case True
    with d1 wait stored oinv n show ?thesis by simp
  next
    case False
    then have i: "invalidate_offer H now ''REPLACED'' (ns_id n) ?cur d = Inr d1" using d1 by auto
    from invalidate_offer_awaited [OF i wait stored] invalidate_stored [OF i stored] invalidate_offer_inv(1) [OF i oinv]
      invalidate_current_idle [OF i wait inv n] invalidate_none_open(2) [OF i oinv n]
    show ?thesis by blast
  qed
  then have wait1: "approvals_awaited d1" and stored1: "approvals_stored d1" and oinv1: "offer_inv d1" by blast+
  from new obtain off es where off: "of_status off = PROPOSED" and k: "k = d_next_offer d1"
    and d2: "d2 = d1\<lparr>d_offers := tput k (off\<lparr>of_id := k\<rparr>) (d_offers d1), d_next_offer := k + 1, d_evidence := es\<rparr>"
    by (cases rule: new_offer_tx_cases) (auto dest: new_offer_fields)
  note two = new_offer_awaited [OF new wait1]
  have "get_offer d1 k = None" using oinv1 k by (cases "get_offer d1 k") (auto dest: offer_inv_offerD)
  then have "unasked k d1" using awaitedD(1) [OF wait1] by (fastforce simp: unasked_def waits_def)
  then have un2: "unasked k d2" using two(2) by (rule unasked_settles)
  have stored2: "approvals_stored d2" using stored1 by (simp add: d2 approvals_stored_def)
  define d3 where "d3 = (if ?rej then d2 else supersede ?cur k d2)"
  define d4 where "d4 = mod_session (ns_id n) (\<lambda>s. s\<lparr>ns_round_count := ns_round_count s + 1, ns_version := ns_version s + 1\<rparr>) d3"
  have three: "approvals_awaited d3 \<and> settles d2 d3" using supersede_awaited [OF two(1)] two(1) settles_same [of d2 d2] by (simp add: d3_def)
  have but: "offer_inv_but k {} d2"
    using oinv1 off k by (intro but_insert [OF but_start [OF oinv1], of "{}" k "off\<lparr>of_id := k\<rparr>"]) (simp_all add: d2)
  note sup = supersede_effect [OF stored2 but, of ?cur k]
  have sess: "d_sessions d3 = d_sessions d1" using sup(4) by (simp add: d3_def d2)
  have stored3: "approvals_stored d3" using stored2 sup(1) by (simp add: d3_def)
  have "map_option of_status (get_offer d3 k) = Some PROPOSED" using sup(6) [of k] off by (simp add: d3_def) (simp add: d2)
  then obtain x where x: "get_offer d3 k = Some x" "of_status x = PROPOSED" by auto
  have four: "approvals_awaited d4" unfolding d4_def by (rule awaited_session) (use three in simp_all)
  have set4: "settles d1 d4"
    using two(2) three settles_trans settles_same [of d4 d3] by (simp add: d4_def) blast
  obtain m where m: "get_session d1 (ns_id n) = Some m" using one by blast
  have rows: "get_session d4 (ns_id n) = Some (m\<lparr>ns_round_count := ns_round_count m + 1, ns_version := ns_version m + 1\<rparr>)"
    "get_offer d4 k = Some x" "approvals_stored d4"
    using m x stored3 by (simp_all add: d4_def sess approvals_stored_def)
  have "unasked k d4" using un2 three unasked_settles settles_same [of d4 d3] by (simp add: d4_def) blast
  moreover have "idle (ns_id n) d4 \<or> \<not> au_can_accept au \<and> \<not> au_can_request_approval au \<and> ti_counter_terms inp = None"
    using one idle_settles [OF _ set4] prohibited_only [OF au] by blast
  ultimately show ?thesis
    using settle_offer_awaited [OF settle [folded d3_def, folded d4_def] four rows(3) _ rows(1,2)] x(2) by simp
qed

lemma resolve_awaited:
  assumes step: "resolve_offer_in_transaction H audit n p pol inp now sem d = Inr (res, d')" and "audits_only audit"
    and "approvals_awaited d" and "graph_inv d" and "get_session d (ns_id n) = Some n"
  shows "approvals_awaited d'"
proof -
  have audited: "approvals_awaited e" "graph_inv e" "get_session e (ns_id n) = Some n" "current_offer e n = current_offer d n"
    if "audit d = Inr e" for e
    using audits_onlyD [OF assms(2) that] assms(3-5) awaited_outside [of d e] graph_inv_approvals [of d e]
    by (auto simp: current_offer_def cong: option.case_cong)
  show ?thesis
    using step
  proof (cases rule: resolve_cases)
    case (placed t au d1)
    note a = audited [OF placed(7)]
    show ?thesis by (rule place_offer_awaited [OF placed(8) [folded a(4)] a(1-3) placed(3,4)])
  qed (use audited in blast)
qed

lemma confirm_awaited:
  assumes step: "confirm_in_transaction H audit n p pol inp run now d = Inr (res, d')" and "audits_only audit"
    and "approvals_awaited d" and "get_session d (ns_id n) = Some n"
  shows "approvals_awaited d'"
  using step
proof (cases rule: confirm_cases)
  case (1 k off d1 source)
  from 1(3) have "ns_status n = ACTIVE" by (cases rule: valid_offer_True) simp
  then have "idle (ns_id n) d" using waiting_only [OF assms(3,4)] by simp
  moreover obtain es where d1: "d1 = d\<lparr>d_causal := es\<rparr>" using audits_onlyD [OF assms(2) 1(5)] by blast
  ultimately have "idle (ns_id n) d1" by (simp add: idle_def open_at_def)
  moreover have "approvals_awaited d1" by (rule awaited_outside [OF assms(3)]) (simp_all add: d1)
  ultimately have "approvals_awaited (mod_session (ns_id n) f d1)" for f by (intro awaited_session) simp_all
  then show ?thesis unfolding 1(6) set_offer_status_def by (rule awaited_offer) simp
qed

lemma lifecycle_awaited:
  assumes step: "lifecycle_in_transaction H audit n inp now d = Inr (res, d')" and "audits_only audit"
    and "approvals_awaited d" and "graph_inv d" and "get_session d (ns_id n) = Some n"
  shows "approvals_awaited d'"
  using step
proof (cases rule: lifecycle_cases)
  case (1 d1 d2 closing)
  obtain es where d1: "d1 = d\<lparr>d_causal := es\<rparr>" using audits_onlyD [OF assms(2) 1(2)] by blast
  have wait1: "approvals_awaited d1" by (rule awaited_outside [OF assms(3)]) (simp_all add: d1)
  have inv1: "graph_inv d1" by (rule graph_inv_approvals [OF assms(4)]) (simp_all add: d1)
  have n1: "get_session d1 (ns_id n) = Some n" using assms(5) by (simp add: d1)
  have "current_offer d n = current_offer d1 n" by (simp add: current_offer_def d1 cong: option.case_cong)
  note step = 1(3) [unfolded this]
  have stored1: "approvals_stored d1" using inv1 by (simp add: graph_inv_def)
  define d3 where "d3 = (if closing then close_drafts (ns_id n) d2 else d2)"
  have "approvals_awaited d2" by (rule invalidate_offer_awaited [OF step wait1 stored1])
  then have "approvals_awaited d3" by (rule awaited_outside) (simp_all add: d3_def)
  moreover have "idle (ns_id n) d3"
    using invalidate_current_idle [OF step wait1 inv1 n1] by (simp add: d3_def idle_def open_at_def)
  ultimately show ?thesis unfolding 1(4) d3_def [symmetric] by (intro awaited_session) simp_all
qed

lemma record_basis_awaited:
  assumes "record_basis basis res d = Inr d'" and "approvals_awaited d"
  shows "approvals_awaited d'"
proof (cases basis)
  case (Some cb)
  define f where "f = (\<lambda>a. a\<lparr>ap_expires_at := min (ap_expires_at a) (cq_expires_at (cb_quote cb))\<rparr> :: approval)"
  obtain oid where body: "(let d1 = (if tget (d_bases d) oid = None
                then d\<lparr>d_bases := tput oid \<lparr>ob_offer_id = oid, ob_cost_quote_id = cq_id (cb_quote cb),
                         ob_candidate = cb_candidate cb, ob_evaluations = cb_evaluations cb\<rparr> (d_bases d)\<rparr>
                else d);
          d2 = mod_draft (cb_draft_id cb) (\<lambda>r. r\<lparr>dr_status := DR_SUBMITTED\<rparr>) d1
      in case jint (jget res ''approval_id'') of
           None \<Rightarrow> Inr d2
         | Some aid \<Rightarrow> if get_approval d2 aid = None then Inl AttributeExn else Inr (mod_approval aid f d2)) = Inr d'"
    using assms(1) unfolding record_basis_def Some option.case f_def by (elim ebind_InrE some_or_InrE)
  define d1 where "d1 = mod_draft (cb_draft_id cb) (\<lambda>r. r\<lparr>dr_status := DR_SUBMITTED\<rparr>) (if tget (d_bases d) oid = None
                then d\<lparr>d_bases := tput oid \<lparr>ob_offer_id = oid, ob_cost_quote_id = cq_id (cb_quote cb),
                         ob_candidate = cb_candidate cb, ob_evaluations = cb_evaluations cb\<rparr> (d_bases d)\<rparr>
                else d)"
  have d1: "d_offers d1 = d_offers d" "d_sessions d1 = d_sessions d" "d_approvals d1 = d_approvals d"
    by (simp_all add: d1_def)
  have "d' = d1 \<or> (\<exists>k. d' = mod_approval k f d1)"
    using body unfolding Let_def d1_def [symmetric] by (auto split: option.splits if_splits)
  moreover have "approvals_awaited d1" by (rule awaited_outside [OF assms(2) d1])
  moreover have "approvals_awaited (mod_approval k f d1)" for k
    by (rule awaited_same [OF calculation(2) settles_mod [of _ k f]]) (simp_all add: f_def open_approval_def)
  ultimately show ?thesis by blast
qed (use assms in \<open>simp add: record_basis_def\<close>)

lemma dispatch_awaited:
  assumes step: "dispatch H audit run n p pol inp basis now d = Inr (r, d')" and "audits_only audit"
    and "approvals_awaited d" and "graph_inv d" and "get_session d (ns_id n) = Some n"
  shows "approvals_awaited d'"
  using step assms(2-5) unfolding dispatch_def
  by (cases "ti_kind inp")
    (auto simp: ebind_eq_Inr dest: resolve_awaited confirm_awaited lifecycle_awaited record_basis_awaited)

lemma execute_awaited:
  assumes step: "execute H qid rid owner expected now d = Inr (res, d')" and inv: "graph_inv d" and wait: "approvals_awaited d"
  shows "approvals_awaited d'"
  using step
proof (cases rule: execute_cases)
  case (fresh run t n)
  from fresh(4) show ?thesis
  proof (cases rule: execute_fresh_cases)
    case (1 p pol inp basis evidence d1 d2 d3 r)
    obtain qs es where d2: "d2 = d\<lparr>d_quotes := qs, d_causal := es\<rparr>"
      using 1(5,6) by (auto simp: only_quotes_def append_event_Inr)
    have "approvals_awaited d2" by (rule awaited_outside [OF wait]) (simp_all add: d2)
    moreover have "graph_inv d2" by (rule graph_inv_approvals [OF inv]) (simp_all add: d2)
    moreover have "get_session d2 (ns_id n) = Some n"
      using fresh(2) inv by (auto simp: d2 graph_inv_def dest: offer_inv_sessionD)
    ultimately have "approvals_awaited d3" by (intro dispatch_awaited [OF 1(7)]) simp_all
    note wait3 = this
    from 1(8) show ?thesis by (cases rule: store_receipt_cases) (rule awaited_outside [OF wait3], simp_all)
  qed
qed (use wait in simp)

section \<open>The decisions of the seller\<close>

lemma reconcile_approval_awaited:
  assumes step: "reconcile_approval H ctx now d = Inr d'" and inv: "graph_inv d" and wait: "approvals_awaited d"
  shows "approvals_awaited d'"
proof -
  obtain n p pol offer a where ctx: "ctx = (n, p, pol, offer, a)" by (cases ctx)
  have "approvals_awaited e'"
    if "invalidate_approval H now r sid x v aid (if c then mod_session sid (\<lambda>s. s\<lparr>ns_version := ns_version s + 1\<rparr>) d else d) = Inr e"
      and "invalidate_offer H now r sid off e = Inr e'" for r sid x v aid c off e e'
  proof -
    have "approvals_awaited (mod_session sid (\<lambda>s. s\<lparr>ns_version := ns_version s + 1\<rparr>) d)" by (rule awaited_session [OF wait]) simp
    moreover have "graph_inv (mod_session sid (\<lambda>s. s\<lparr>ns_version := ns_version s + 1\<rparr>) d)" by (rule graph_inv_session [OF inv]) simp_all
    ultimately have "approvals_awaited e" "graph_inv e"
      using wait inv that(1) invalidate_approval_awaited invalidate_approval_keeps
      by (auto simp: graph_keeps_def split: if_splits)
    then show ?thesis using invalidate_offer_awaited [OF that(2)] by (simp add: graph_inv_def)
  qed
  with step wait show ?thesis
    unfolding reconcile_approval_def ctx Let_def prod.case
    by (elim if_InrE result_elims) auto
qed

lemma effect_notice_awaited:
  assumes "effect_notice sid aid outcome now d = Inr d'"
  shows "settles d d'" and "approvals_awaited d \<Longrightarrow> approvals_awaited d'"
proof -
  note fr = effect_notice_frame [OF assms]
  then obtain s where "d_approvals d' = tmod aid (\<lambda>x. x\<lparr>ap_notification_status := Some s\<rparr>) (d_approvals d)" by blast
  then show set: "settles d d'" by (rule settles_mod) (simp add: open_approval_def)
  show "approvals_awaited d'" if "approvals_awaited d"
    using that set effects_onlyD(1,2) [OF fr(1)] by (rule awaited_same)
qed

lemma record_decision_awaited:
  assumes step: "record_decision key command (n, p, pol, offer, a) comment approved now d = Inr d'"
    and wait: "approvals_awaited d" and a: "get_approval d (ap_id a) = Some a" "open_approval a" "ap_status a = AP_PENDING"
    and n: "ns_id n = ap_session_id a" and off: "\<And>x. offer = Some x \<Longrightarrow> of_id x = ap_offer_id a"
  shows "approvals_awaited d'"
proof -
  define g :: "approval \<Rightarrow> approval" where
    "g = (\<lambda>x. x\<lparr>ap_status := (if approved then AP_APPROVED else AP_REJECTED),
                 ap_reviewed_at := Some now, ap_seller_comment := comment, ap_followup_request_id := Some key,
                 ap_decision_hash := Some command\<rparr>)"
  define d2 where "d2 = event_in_transaction (ap_id a) ''decision'' ''DECIDED'' (mod_approval (ap_id a) g d)"
  have rows: "d_approvals d2 = tmod (ap_id a) g (d_approvals d)" "d_offers d2 = d_offers d" "d_sessions d2 = d_sessions d"
    by (simp_all add: d2_def event_in_transaction_def Let_def)
  have set2: "settles d d2" by (rule settles_mod [OF rows(1)]) (use a in \<open>simp add: g_def\<close>)
  obtain d3 d4 rs and m :: session where d3: "(if approved then Inr d2
             else ebind (some_or AttributeExn offer) (\<lambda>off. Inr (reject_effect (ns_id n) (ap_id a) off now d2))) = Inr d3"
    and flush: "flush_approvals d3 = Inr d4"
    and fin: "(if approved then Inr (d4\<lparr>d_receipts := rs\<rparr>)
      else effect_notice (ns_id n) (ap_id a) ''APPROVAL_REJECTED'' now (d4\<lparr>d_receipts := rs\<rparr>)) = Inr d'"
    using step [unfolded record_decision_def Let_def prod.case, folded g_def, folded d2_def]
    by (elim ebind_InrE some_or_InrE) (rule that; assumption)
  have d4: "d4 = d3" using flush by (simp add: flush_approvals_eq_Inr)
  have "approvals_awaited d3"
  proof (cases approved)
    case True
    with d3 awaited_same [OF wait set2 rows(2,3)] show ?thesis by simp
  next
    case False
    with d3 obtain x where x: "offer = Some x" and d3': "d3 = reject_effect (ns_id n) (ap_id a) x now d2"
      by (simp) (elim ebind_InrE some_or_InrE, simp)
    have ap3: "d_approvals d3 = tmod (ap_id a) (\<lambda>a. (g a)\<lparr>ap_effect_status := Some APPLIED, ap_effect_revision := ap_effect_revision (g a) + 1\<rparr>) (d_approvals d)"
      by (simp add: d3' reject_effect_def rows tmod_twice)
    show ?thesis
    proof (rule awaited_settled [OF wait])
      show "settles d d3" by (rule settles_mod [OF ap3]) (use a in \<open>simp add: g_def\<close>)
      show "open_at d (ap_id a) a" using a by (simp add: open_at_def)
      show "\<not> open_at d3 (ap_id a) b" for b using False by (auto simp: open_at_def ap3 g_def open_approval_def)
      show "get_offer d3 j = get_offer d j" if "j \<noteq> ap_offer_id a" for j
        using that off [OF x] by (simp add: d3' reject_effect_def rows)
      show "get_session d3 s = get_session d s" if "s \<noteq> ap_session_id a" for s
        using that n by (simp add: d3' reject_effect_def rows)
    qed
  qed
  then have "approvals_awaited (d4\<lparr>d_receipts := rs\<rparr>)" unfolding d4 by (rule awaited_outside) simp_all
  with fin effect_notice_awaited(2) show ?thesis by (auto split: if_splits)
qed

lemma lock_context_offer:
  assumes "lock_context d aid seller = Inr (n, p, pol, Some x, a)" and "graph_inv d"
  shows "of_id x = ap_offer_id a"
  using lock_context_Inr(5) [OF assms(1), symmetric] assms(2) by (auto simp: graph_inv_def dest: offer_inv_offerD)

lemma decide_awaited:
  assumes step: "decide H seller aid request comment approved expected now d = Inr (r, d')" and inv: "graph_inv d"
    and wait: "approvals_awaited d"
  shows "approvals_awaited d'"
proof -
  obtain conflict snap where r: "r = (conflict, snap)" by (cases r)
  show ?thesis using step [unfolded r] inv
  proof (cases rule: decide_cases)
    case (recorded n p pol offer a)
    note ids = lock_context_ids [OF recorded(1) inv]
    have "get_approval d (ap_id a) = Some a" using lock_context_Inr(1) [OF recorded(1)] ids by simp
    moreover have "open_approval a" using recorded(4,5) by (simp add: open_approval_def)
    ultimately show ?thesis
      using record_decision_awaited [OF recorded(8) wait _ _ recorded(4) ids(2)] lock_context_offer [OF _ inv] recorded(1) by blast
  qed (use wait inv reconcile_approval_awaited in auto)
qed

lemma apply_effect_awaited:
  assumes step: "apply_effect sid aid offer a d = Inr d'" and wait: "approvals_awaited d"
    and a: "get_approval d aid = Some a" "sid = ap_session_id a" and off: "\<And>x. offer = Some x \<Longrightarrow> of_id x = ap_offer_id a"
  shows "approvals_awaited d'"
  using step
proof (cases rule: apply_effect_cases)
  case (applied x r)
  have ap: "d_approvals d' = tmod aid (\<lambda>x. x\<lparr>ap_effect_status := Some APPLIED, ap_effect_revision := ap_effect_revision x + 1\<rparr>) (d_approvals d)"
    by (simp add: applied(6) applied_db_def)
  have op: "open_approval a" using applied(1,2) by (simp add: open_approval_def)
  show ?thesis
  proof (rule awaited_settled [OF wait])
    show "settles d d'" by (rule settles_mod [OF ap]) (use a op in simp)
    show "open_at d aid a" using a op by (simp add: open_at_def)
    show "\<not> open_at d' aid b" for b using a(1) applied(1) by (auto simp: open_at_def ap open_approval_def)
    show "get_offer d' j = get_offer d j" if "j \<noteq> ap_offer_id a" for j
      using that off [OF applied(5)] by (simp add: applied(6) applied_db_def)
    show "get_session d' s = get_session d s" if "s \<noteq> ap_session_id a" for s
      using that a(2) by (simp add: applied(6) applied_db_def)
  qed
qed (use wait in simp)

lemma apply_event_awaited:
  assumes step: "apply_event H aid eid owner now d = Inr (res, d')" and inv: "graph_inv d" and wait: "approvals_awaited d"
  shows "approvals_awaited d'"
  using step
proof (cases rule: apply_event_cases)
  case (fresh x n p pol offer a e)
  note ids = lock_context_ids [OF fresh(2) inv]
  from fresh(6) show ?thesis
  proof (cases rule: apply_fresh_cases)
    case (applied d1 a1 d2 a2 m)
    have "approvals_later d d1" using reconcile_approval_keeps [OF applied(1) inv] by (simp add: graph_keeps_def)
    then have later: "graph_later a a1" using lock_context_Inr(1) [OF fresh(2)] applied(2) ids(1)
      unfolding approvals_later_def by (metis option.inject)
    have "approvals_awaited d1" by (rule reconcile_approval_awaited [OF applied(1) inv wait])
    then have "approvals_awaited d2"
      by (rule apply_effect_awaited [OF applied(4) _ applied(2)])
        (use later ids(2) lock_context_offer [OF _ inv] fresh(2) in \<open>auto simp: graph_later_def\<close>)
    then have "approvals_awaited (d2\<lparr>d_receipts := rs\<rparr>)" for rs by (rule awaited_outside) simp_all
    then show ?thesis using effect_notice_awaited(2) [OF applied(9)] by blast
  qed
qed (use wait in simp)

section \<open>Every step of the graph runtime\<close>

lemma reconcile_offer_awaited:
  assumes step: "reconcile_offer H sid clock d = Inr (u, d')" and inv: "graph_inv d" and wait: "approvals_awaited d"
  shows "approvals_awaited d'"
proof -
  let ?d1 = "mod_session sid (\<lambda>s. s\<lparr>ns_lifecycle_checked_at := Some (fst clock)\<rparr>) d"
  have wait1: "approvals_awaited ?d1" by (rule awaited_session [OF wait]) simp
  have inv1: "graph_inv ?d1" by (rule graph_inv_session [OF inv]) simp_all
  define d1 where "d1 = ?d1"
  have current: "approvals_awaited e" if run: "reconcile_current H n oid t d1 = Inr e" for n oid t e
  proof -
    obtain p pol off where rest: "(case approval_of_offer d1 (of_id off) of
       Some a \<Rightarrow> reconcile_approval H (n, p, pol, Some off, a) t d1
     | None \<Rightarrow>
         ebind (basis_valid H d1 n p pol (Some off) t) (\<lambda>ok.
         if ok then Inr d1
         else
         ebind (invalidate_offer H t ''OFFER_BASIS_INVALID'' (ns_id n) (Some off)
                 (mod_session (ns_id n) (\<lambda>s. s\<lparr>ns_version := ns_version s + 1\<rparr>) d1)) (\<lambda>d2.
         publish_invalidation H (ns_id n) (of_id off) (ns_version n) t d2))) = Inr e"
      using run unfolding reconcile_current_def by (elim ebind_InrE some_or_InrE)
    show ?thesis
    proof (cases "approval_of_offer d1 (of_id off)")
      case (Some a)
      with rest reconcile_approval_awaited [OF _ inv1 [folded d1_def] wait1 [folded d1_def]] show ?thesis by simp
    next
      case None
      let ?d0 = "mod_session (ns_id n) (\<lambda>s. s\<lparr>ns_version := ns_version s + 1\<rparr>) d1"
      have wait0: "approvals_awaited ?d0" by (rule awaited_session [OF wait1 [folded d1_def]]) simp
      have "graph_inv ?d0" by (rule graph_inv_session [OF inv1 [folded d1_def]]) simp_all
      then have stored0: "approvals_stored ?d0" by (simp add: graph_inv_def)
      show ?thesis
      proof (cases "e = d1")
        case False
        with rest None obtain e1 where
          one: "invalidate_offer H t ''OFFER_BASIS_INVALID'' (ns_id n) (Some off) ?d0 = Inr e1"
          and two: "publish_invalidation H (ns_id n) (of_id off) (ns_version n) t e1 = Inr e"
          by (auto simp: ebind_eq_Inr split: if_splits)
        have "approvals_awaited e1" by (rule invalidate_offer_awaited [OF one wait0 stored0])
        moreover have "d_offers e = d_offers e1 \<and> d_sessions e = d_sessions e1 \<and> d_approvals e = d_approvals e1"
          using two unfolding publish_invalidation_def Let_def outbox_in_transaction_def by (elim ebind_InrE some_or_InrE) auto
        ultimately show ?thesis using awaited_outside by blast
      qed (use wait1 [folded d1_def] in simp)
    qed
  qed
  from step have "d' = ?d1 \<or> (\<exists>n oid. reconcile_current H n oid (snd clock) ?d1 = Inr d')"
    unfolding reconcile_offer_def Let_def
    by (elim ebind_InrE some_or_InrE) (auto simp: ebind_eq_Inr split: if_splits option.splits)
  with wait1 current show ?thesis unfolding d1_def by blast
qed

lemma graph_step_awaited: "graph_step H d d' \<Longrightarrow> graph_inv d \<Longrightarrow> approvals_awaited d \<Longrightarrow> approvals_awaited d'"
proof (induction rule: graph_step.induct)
  case (reconciled aid now d u d')
  then show ?case unfolding reconcile_def by (elim ebind_InrE) (auto dest: reconcile_approval_awaited)
next
  case (claimed aid token now d r d')
  from claimed(1) show ?case by (cases rule: approval_claim_cases) (use claimed(3) in \<open>auto intro: awaited_outside\<close>)
next
  case (released aid owner ckpt failed recovery clock d u d')
  then show ?case unfolding approval_release_def Let_def by (elim ebind_InrE) (auto intro: awaited_outside)
next
  case (acknowledged aid ks owner now d u d')
  obtain t where "d' = d\<lparr>d_outbox := t\<rparr>"
    using acknowledged(1) mark_delivered_frame [of aid ks d] unfolding acknowledge_def by (elim ebind_InrE) auto
  with acknowledged(3) show ?case by (auto intro: awaited_outside)
qed (blast dest: execute_awaited decide_awaited apply_event_awaited reconcile_offer_awaited)+

text \<open>
  On every run of the graph runtime the open approvals stay awaited.
\<close>

lemma graph_runs_awaited:
  assumes "(graph_step H)\<^sup>*\<^sup>* d d'" and "graph_inv d" and "approvals_awaited d"
  shows "approvals_awaited d'"
  using assms
proof (induction rule: rtranclp_induct)
  case (step y z)
  have "graph_inv y" using graph_steps_keep [OF step(1) step.prems(1)] by (simp add: graph_keeps_def)
  with step show ?case using graph_step_awaited by blast
qed

lemma no_deal_yet:
  \<comment> \<open>an open approval is never that of a deal already made\<close>
  assumes "lock_context d aid seller = Inr (n, p, pol, offer, a)" and "approvals_awaited d" and "open_approval a"
  shows "ns_status n = WAITING_APPROVAL"
proof -
  have "open_at d aid a" using lock_context_Inr(1) [OF assms(1)] assms(3) by (simp add: open_at_def)
  from awaitedD(1) [OF assms(2) this] lock_context_Inr(2) [OF assms(1)] show ?thesis by (auto simp: waits_def)
qed

end
