(* ===== verification/Graph_Approval_Runs.thy ===== *)
theory Graph_Approval_Runs
  imports Graph_Waiting
begin

text \<open>
  Runs of the graph runtime: sellers decide, executors of approvals claim, apply and release, reconciliation
  withdraws what lost its basis, in any order and together with the commands of the buyer.
\<close>

section \<open>The lease of an approval execution\<close>

definition holds_execution :: "int \<Rightarrow> db \<Rightarrow> owner \<Rightarrow> time \<Rightarrow> bool" where
  "holds_execution aid d p t \<longleftrightarrow> \<not> isl (lock_execution d aid p t)"

definition claim_execution :: "int \<Rightarrow> db \<Rightarrow> string \<Rightarrow> time \<Rightarrow> (owner \<times> db) option" where
  "claim_execution aid d token t = (case approval_claim aid token t d of Inr (Some p, d') \<Rightarrow> Some (p, d') | _ \<Rightarrow> None)"

definition execution_epoch :: "int \<Rightarrow> db \<Rightarrow> int" where
  "execution_epoch aid d = (case tget (d_executions d) aid of None \<Rightarrow> 0 | Some x \<Rightarrow> ex_ownership_epoch x)"

definition live_step :: "(json \<Rightarrow> string) \<Rightarrow> int \<Rightarrow> db \<Rightarrow> db \<Rightarrow> bool" where
  \<comment> \<open>a step of a state that has the execution\<close>
  "live_step H aid d d' \<longleftrightarrow> graph_step H d d' \<and> graph_inv d \<and> tget (d_executions d) aid \<noteq> None"

lemma holds_execution_iff:
  "holds_execution aid d p t \<longleftrightarrow> (\<exists>x e. tget (d_executions d) aid = Some x \<and> ex_lease_token x = Some (fst p)
     \<and> ex_ownership_epoch x = snd p \<and> ex_lease_until x = Some e \<and> t < e)"
  by (auto simp: holds_execution_def lock_execution_def isl_def split: option.splits if_splits)

lemma claim_execution_cases:
  assumes "claim_execution aid d k t = Some (p, d')"
  obtains x where "tget (d_executions d) aid = Some x" and "\<forall>e. ex_lease_until x = Some e \<longrightarrow> e \<le> t"
    and "p = (k, ex_ownership_epoch x + 1)"
    and "tget (d_executions d') aid = Some (x\<lparr>ex_lease_token := Some k, ex_lease_until := Some (t + seconds 30),
              ex_ownership_epoch := ex_ownership_epoch x + 1\<rparr>)"
proof -
  have "approval_claim aid k t d = Inr (Some p, d')"
    using assms by (auto simp: claim_execution_def split: sum.splits prod.splits option.splits)
  then show thesis by (cases rule: approval_claim_cases) (auto intro: that)
qed

interpretation execution: fenced_lease "holds_execution aid" "claim_execution aid" "execution_epoch aid" snd
  "live_step H aid" for aid H
proof unfold_locales
  show "p = q" if "holds_execution aid d p t" "holds_execution aid d q t'" for d p t q t'
    using that by (auto simp: holds_execution_iff prod_eq_iff)
  show "holds_execution aid d p t'" if "holds_execution aid d p t" "t' \<le> t" for d p t t'
    using that by (fastforce simp: holds_execution_iff)
  show "claim_execution aid d k t = None" if "holds_execution aid d p t" for d p t k
  proof (rule ccontr)
    assume "claim_execution aid d k t \<noteq> None"
    then obtain q d' where "claim_execution aid d k t = Some (q, d')" by auto
    then show False by (rule claim_execution_cases) (use that in \<open>auto simp: holds_execution_iff\<close>)
  qed
  show "q = p" if "claim_execution aid d k t = Some (p, d')" "holds_execution aid d' q t'" for d k t p d' q t'
    using that(1) by (rule claim_execution_cases) (use that(2) in \<open>auto simp: holds_execution_iff prod_eq_iff\<close>)
  show "snd p = execution_epoch aid d" if "holds_execution aid d p t" for d p t
    using that by (auto simp: holds_execution_iff execution_epoch_def)
  show "execution_epoch aid d < execution_epoch aid d' \<and> snd p = execution_epoch aid d'"
    if "claim_execution aid d k t = Some (p, d')" for d k t p d'
    using that by (rule claim_execution_cases) (auto simp: execution_epoch_def)
  show "execution_epoch aid d \<le> execution_epoch aid d'" if "live_step H aid d d'" for d d'
    using that graph_step_keeps [of H d d'] by (fastforce simp: live_step_def graph_keeps_def execution_epoch_def)
qed

lemma graph_steps_live:
  assumes "(graph_step H)\<^sup>*\<^sup>* d d'" and "graph_inv d" and "tget (d_executions d) aid \<noteq> None"
  shows "(live_step H aid)\<^sup>*\<^sup>* d d'"
  using assms
proof (induction rule: rtranclp_induct)
  case (step y z)
  have "graph_keeps d y" using step by (intro graph_steps_keep)
  then have "live_step H aid y z" using step by (fastforce simp: live_step_def graph_keeps_def)
  with step show ?case by (auto intro: rtranclp.rtrancl_into_rtrancl)
qed simp

text \<open>
  An executor of an approval whose lease passed to another can never again release the execution, settle its
  events or apply a decision, whatever happens in between and whatever the clocks show.
\<close>

theorem displaced_executor_fenced:
  assumes "holds_execution aid d old t0" and "approval_claim aid token t1 d = Inr (Some new, d1)"
    and "graph_inv d" and "(graph_step H)\<^sup>*\<^sup>* d1 d2"
  shows "apply_event H aid eid old t2 d2 = Inl StaleOwner \<and> acknowledge aid ks old t2 d2 = Inl StaleOwner
    \<and> approval_release aid old ckpt failed recovery (t2, t3) d2 = Inl StaleOwner"
proof -
  have claim: "claim_execution aid d token t1 = Some (new, d1)" using assms(2) by (simp add: claim_execution_def)
  have "graph_inv d1" using approval_claim_keeps [OF assms(2,3)] by (simp add: graph_keeps_def)
  moreover have "tget (d_executions d1) aid \<noteq> None" using claim by (rule claim_execution_cases) simp
  ultimately have "(live_step H aid)\<^sup>*\<^sup>* d1 d2" using assms(4) by (intro graph_steps_live)
  from execution.displaced_for_good [OF assms(1) claim this] have "isl (lock_execution d2 aid old t2)"
    by (simp add: holds_execution_def)
  then have "lock_execution d2 aid old t2 = Inl StaleOwner"
    by (auto simp: lock_execution_def split: option.splits if_splits)
  then show ?thesis
    by (simp_all add: apply_event_def acknowledge_def approval_release_def)
qed

section \<open>Applying an event again\<close>

definition apply_attempt :: "(json \<Rightarrow> string) \<Rightarrow> int \<Rightarrow> string \<Rightarrow> owner \<times> time \<Rightarrow> db \<Rightarrow> exn + json \<times> db" where
  "apply_attempt H aid eid e d = apply_event H aid eid (fst e) (snd e) d"

definition apply_admitted :: "int \<Rightarrow> string \<Rightarrow> owner \<times> time \<Rightarrow> db \<Rightarrow> bool" where
  "apply_admitted aid eid e d \<longleftrightarrow> holds_execution aid d (fst e) (snd e) \<and> \<not> isl (lock_context d aid None)
     \<and> (\<exists>ev. tget (d_outbox d) eid = Some ev \<and> approval_event_ok (Some ev) aid)"

definition events_kept :: "db \<Rightarrow> db \<Rightarrow> bool" where
  \<comment> \<open>no event of the outbox is lost or rewritten\<close>
  "events_kept d d' \<longleftrightarrow> (\<forall>k e. tget (d_outbox d) k = Some e \<longrightarrow> tget (d_outbox d') k = Some e)"

lemma events_kept_trans: "events_kept d d' \<Longrightarrow> events_kept d' d'' \<Longrightarrow> events_kept d d''"
  by (simp add: events_kept_def)

lemma events_kept_same: "d_outbox d' = d_outbox d \<Longrightarrow> events_kept d d'"
  by (simp add: events_kept_def)

lemma effect_notice_events:
  assumes "effect_notice sid aid outcome now d = Inr d'"
  shows "events_kept d d'"
proof -
  obtain n a where rows: "get_session d sid = Some n" "get_approval d aid = Some a"
    using assms by (auto simp: effect_notice_def split: option.splits)
  show ?thesis
    using assms rows unfolding effect_notice_def events_kept_def
    by (auto simp: Let_def result_simps)
qed

lemma invalidate_approval_events:
  assumes "invalidate_approval H now reason sid expired versions aid d = Inr d'"
  shows "events_kept d d'"
proof -
  obtain n a where rows: "get_session d sid = Some n" "get_approval d aid = Some a"
    using assms by (auto simp: invalidate_approval_def split: option.splits)
  show ?thesis
  proof (cases "d' = d")
    case False
    with assms rows obtain d1 where "effect_notice sid aid ''APPROVAL_INVALIDATED'' now d1 = Inr d'" and "events_kept d d1"
      by (auto simp: invalidate_approval_def Let_def split_beta result_simps event_in_transaction_def events_kept_def
          split: if_splits)
    then show ?thesis using effect_notice_events events_kept_trans by blast
  qed (simp add: events_kept_same)
qed

lemma invalidate_approvals_events:
  "efold (invalidate_approval H now reason sid expired versions) aids d = Inr d' \<Longrightarrow> events_kept d d'"
proof (induction aids arbitrary: d)
  case (Cons aid aids)
  then obtain d1 where "invalidate_approval H now reason sid expired versions aid d = Inr d1"
    and "efold (invalidate_approval H now reason sid expired versions) aids d1 = Inr d'"
    by (auto simp: result_simps)
  with Cons.IH show ?case using invalidate_approval_events events_kept_trans by blast
qed (simp add: events_kept_same)

lemma invalidate_offer_events:
  assumes "invalidate_offer H now reason sid off d = Inr d'"
  shows "events_kept d d'"
proof (cases off)
  case (Some x)
  show ?thesis
  proof (cases "of_status x \<in> {PROPOSED, ACCEPTED}")
    case True
    define d1 where "d1 = drop_current sid (of_id x) (close_offer (of_id x) now reason d)"
    have "events_kept d d1" by (rule events_kept_same) (simp add: d1_def drop_current_def close_offer_def)
    moreover obtain e vs where "efold (invalidate_approval H now reason sid False vs) (approvals_of_offer d1 (of_id x)) d1 = Inr e"
      and flush: "flush_approvals e = Inr d'"
      using assms True unfolding invalidate_offer_def Some option.case Let_def d1_def [symmetric]
      by (simp split: if_splits) (elim ebind_InrE some_or_InrE)
    ultimately have "events_kept d e" using invalidate_approvals_events events_kept_trans by blast
    with flush show ?thesis by (simp add: flush_approvals_eq_Inr)
  qed (use assms Some in \<open>simp add: invalidate_offer_def events_kept_same\<close>)
qed (use assms in \<open>simp add: invalidate_offer_def events_kept_same\<close>)

lemma reconcile_approval_events:
  assumes "reconcile_approval H (n, p, pol, offer, a) now d = Inr d'"
  shows "events_kept d d'"
proof -
  have "events_kept d e'"
    if "invalidate_approval H now r sid x v aid (if c then mod_session sid (\<lambda>s. s\<lparr>ns_version := ns_version s + 1\<rparr>) d else d) = Inr e"
      and "invalidate_offer H now r sid off e = Inr e'" for r sid x v aid c off e e'
  proof -
    have "events_kept d (if c then mod_session sid (\<lambda>s. s\<lparr>ns_version := ns_version s + 1\<rparr>) d else d)"
      by (simp add: events_kept_same)
    then show ?thesis
      using invalidate_approval_events [OF that(1)] invalidate_offer_events [OF that(2)] events_kept_trans by blast
  qed
  with assms show ?thesis
    unfolding reconcile_approval_def Let_def prod.case
    by (elim if_InrE result_elims) (auto simp: events_kept_same)
qed

lemma apply_fresh_events:
  assumes "apply_fresh H key command (n, p, pol, offer, a) now d = Inr (res, d')"
  shows "events_kept d d'"
  using assms
proof (cases rule: apply_fresh_cases)
  case (applied d1 a1 d2 a2 m)
  have "d_outbox d2 = d_outbox d1"
    using applied(4) by (cases rule: apply_effect_cases) (simp_all add: applied_db_def)
  then show ?thesis
    using reconcile_approval_events [OF applied(1)] effect_notice_events [OF applied(9)]
    by (simp add: events_kept_def)
qed

lemma apply_event_recorded:
  assumes step: "apply_event H aid eid owner now d = Inr (res, d')"
  shows "\<exists>ev rc. tget (d_outbox d') eid = Some ev \<and> approval_event_ok (Some ev) aid
    \<and> get_receipt d' (apply_key H aid eid) = Some rc \<and> rc_command_hash rc = apply_command H aid eid ev \<and> rc_result rc = res"
  using step
proof (cases rule: apply_event_cases)
  case (replayed x n p pol offer a e rc)
  then show ?thesis by auto
next
  case (fresh x n p pol offer a e)
  have "tget (d_outbox d') eid = Some e" using apply_fresh_events [OF fresh(6)] fresh(3) by (simp add: events_kept_def)
  moreover from fresh(6) obtain v
    where "get_receipt d' (apply_key H aid eid) = Some (apply_receipt (apply_command H aid eid e) res (ns_version n) v now)"
  proof (cases rule: apply_fresh_cases)
    case (applied d1 a1 d2 a2 m)
    with effect_notice_frame(2) [OF applied(9)] that show thesis by (simp add: tget_append)
  qed
  ultimately show ?thesis using fresh(4) by (auto simp: apply_receipt_def)
qed

interpretation application: idempotent_command "apply_attempt H aid eid" "apply_admitted aid eid" for H aid eid
proof
  fix e d r d'
  assume step: "apply_attempt H aid eid e d = Inr (r, d')"
  then have app: "apply_event H aid eid (fst e) (snd e) d = Inr (r, d')" by (simp add: apply_attempt_def)
  then show "apply_admitted aid eid e d"
    by (cases rule: apply_event_cases) (auto simp: apply_admitted_def holds_execution_def isl_def)
  fix e' assume adm: "apply_admitted aid eid e' d'"
  then obtain x where x: "lock_execution d' aid (fst e') (snd e') = Inr x"
    by (cases "lock_execution d' aid (fst e') (snd e')") (auto simp: apply_admitted_def holds_execution_def)
  from adm obtain ctx where c: "lock_context d' aid None = Inr ctx"
    by (cases "lock_context d' aid None") (auto simp: apply_admitted_def)
  show "apply_attempt H aid eid e' d' = Inr (r, d')"
    using apply_event_recorded [OF app] by (auto simp: apply_attempt_def apply_event_def x c)
qed

text \<open>
  An event of an approval takes effect once: whoever applies it again, at whatever time, is turned away or gets
  the stored result, and the database stays as the first application left it.
\<close>

theorem application_replays:
  assumes "apply_event H aid eid owner now d = Inr (r, d')"
  shows "snd (replays (apply_attempt H aid eid) es d') = d'
    \<and> (\<forall>x \<in> set (fst (replays (apply_attempt H aid eid) es d')). x = Inr r \<or> isl x)"
  using assms by (intro application.replays_fixpoint [where e = "(owner, now)" and d = d]) (simp add: apply_attempt_def)

text \<open>
  C7: Only the current executor applies an event, and the effect follows the seller's decision: an offer becomes
  accepted by it only if the seller approved it before the deadline and the basis of the offer still holds, and then
  the negotiation is active again at the next version. The result names the outcome and is stored, no decision is
  erased, and the invariants hold: those of offers and approvals, and that a negotiation waits for every open approval
  (\<open>approvals_awaited\<close>, which every run of the graph runtime preserves: \<open>graph_runs_awaited\<close>).
\<close>

theorem apply_event_sound:
  assumes "apply_event H aid eid owner now d = Inr (res, d')" and "graph_inv d" and "approvals_awaited d"
    and "get_receipt d (apply_key H aid eid) = None"
  shows "\<exists>x n p pol offer a b v e. lock_execution d aid owner now = Inr x \<and> lock_context d aid None = Inr (n, p, pol, offer, a)
     \<and> tget (d_outbox d) eid = Some e
     \<and> graph_keeps d d' \<and> approvals_awaited d'
     \<and> get_receipt d' (apply_key H aid eid) = Some (apply_receipt (apply_command H aid eid e) res (ns_version n) v now)
     \<and> get_approval d' aid = Some b \<and> ap_status b \<noteq> AP_PENDING
     \<and> jget res ''outcome'' = JStr (apply_outcome b)
     \<and> (ap_effect_status a = Some NOT_APPLIED \<and> ap_effect_status b = Some APPLIED \<longrightarrow>
         ap_status a = AP_APPROVED \<and> (\<exists>r. ap_reviewed_at a = Some r \<and> r < ap_expires_at a)
         \<and> basis_valid H d n p pol offer now = Inr True
         \<and> (\<exists>y. get_offer d' (ap_offer_id a) = Some y \<and> of_status y = ACCEPTED)
         \<and> (\<exists>m. get_session d' (ns_id n) = Some m \<and> ns_status m = ACTIVE \<and> ns_version m = ns_version n + 1)
         \<and> ap_effect_revision b = ap_effect_revision a + 1)"
proof -
  have made: "ns_status n \<noteq> AGREED"
    if "lock_context d aid None = Inr (n, p, pol, offer, a)" "ap_effect_status a = Some NOT_APPLIED" "ap_status a = AP_APPROVED"
    for n p pol offer a
    using no_deal_yet [OF that(1) assms(3)] that(2,3) by (simp add: open_approval_def)
  from apply_event_effect [OF assms(1,2,4)] apply_event_awaited [OF assms(1-3)] made show ?thesis by blast
qed

section \<open>The decision of the seller\<close>

lemma record_decision_effect:
  assumes step: "record_decision key command (n, p, pol, offer, a) comment approved now d = Inr d'"
    and a: "get_approval d (ap_id a) = Some a"
  shows "(\<exists>b. get_approval d' (ap_id a) = Some b \<and> ap_status b = (if approved then AP_APPROVED else AP_REJECTED)
      \<and> ap_reviewed_at b = Some now \<and> ap_seller_comment b = comment
      \<and> ap_effect_status b = (if approved then ap_effect_status a else Some APPLIED))
    \<and> (\<exists>rc. get_receipt d' key = Some rc \<and> rc_command_hash rc = command)
    \<and> (\<not> approved \<longrightarrow> (\<exists>off. offer = Some off \<and> (\<forall>y. get_offer d (of_id off) = Some y \<longrightarrow>
          (\<exists>z. get_offer d' (of_id off) = Some z \<and> of_status z = REJECTED))))
    \<and> (approved \<longrightarrow> d_offers d' = d_offers d \<and> d_sessions d' = d_sessions d)"
proof -
  define g :: "approval \<Rightarrow> approval" where
    "g = (\<lambda>x. x\<lparr>ap_status := (if approved then AP_APPROVED else AP_REJECTED),
                 ap_reviewed_at := Some now, ap_seller_comment := comment, ap_followup_request_id := Some key,
                 ap_decision_hash := Some command\<rparr>)"
  define d2 where "d2 = event_in_transaction (ap_id a) ''decision'' ''DECIDED'' (mod_approval (ap_id a) g d)"
  have b2: "get_approval d2 (ap_id a) = Some (g a)" "d_offers d2 = d_offers d" "d_sessions d2 = d_sessions d"
    using a by (simp_all add: d2_def event_in_transaction_def Let_def)
  obtain d3 d4 rs and m :: session where d3: "(if approved then Inr d2
             else ebind (some_or AttributeExn offer) (\<lambda>off. Inr (reject_effect (ns_id n) (ap_id a) off now d2))) = Inr d3"
    and flush: "flush_approvals d3 = Inr d4"
    and rs: "tadd IntegrityExn key
        \<lparr>rc_input_id = None, rc_command_hash = command,
         rc_result = JObj [(''approval_id'', JInt (ap_id a)),
           (''decision'', JStr (show_approval_status (if approved then AP_APPROVED else AP_REJECTED)))],
         rc_before_version = ns_version n, rc_after_version = ns_version m, rc_committed_at = now\<rparr>
        (d_receipts d4) = Inr rs"
    and fin4: "(if approved then Inr (d4\<lparr>d_receipts := rs\<rparr>)
      else effect_notice (ns_id n) (ap_id a) ''APPROVAL_REJECTED'' now (d4\<lparr>d_receipts := rs\<rparr>)) = Inr d'"
    using step [unfolded record_decision_def Let_def prod.case, folded g_def, folded d2_def]
    by (elim ebind_InrE some_or_InrE) (rule that; assumption)
  have "d4 = d3" using flush by (simp add: flush_approvals_eq_Inr)
  note fin = fin4 [unfolded this] and rs = rs [unfolded this]
  have rc: "\<exists>rc. tget rs key = Some rc \<and> rc_command_hash rc = command"
    using rs by (auto simp: tadd_eq_Inr tget_append)
  show ?thesis
  proof (cases approved)
    case True
    with d3 fin have "d' = d2\<lparr>d_receipts := rs\<rparr>" by simp
    with b2 rc True show ?thesis by (simp add: g_def)
  next
    case False
    with d3 obtain off where off: "offer = Some off" and d3': "d3 = reject_effect (ns_id n) (ap_id a) off now d2"
      by (simp) (elim ebind_InrE some_or_InrE, simp)
    from False fin have no: "effect_notice (ns_id n) (ap_id a) ''APPROVAL_REJECTED'' now (d3\<lparr>d_receipts := rs\<rparr>) = Inr d'"
      by simp
    note fr = effect_notice_frame [OF no]
    then obtain s where ap: "d_approvals d' = tmod (ap_id a) (\<lambda>x. x\<lparr>ap_notification_status := Some s\<rparr>) (d_approvals d3)"
      by auto
    have "\<exists>b. get_approval d' (ap_id a) = Some b \<and> ap_status b = AP_REJECTED
      \<and> ap_reviewed_at b = Some now \<and> ap_seller_comment b = comment \<and> ap_effect_status b = Some APPLIED"
      using b2(1) by (simp add: ap d3' reject_effect_def g_def False)
    moreover have "get_receipt d' key = tget rs key" using fr(2) by simp
    moreover have "d_offers d' = d_offers d3" using fr(1) by (auto dest: effects_onlyD(1))
    then have "\<exists>z. get_offer d' (of_id off) = Some z \<and> of_status z = REJECTED" if "get_offer d (of_id off) = Some y" for y
      using that b2(2) by (simp add: d3' reject_effect_def)
    ultimately show ?thesis using False off rc by auto
  qed
qed

text \<open>
  C6: A seller's decision on an offer of the graph runtime takes effect only for the seller of the product, for a
  pending approval at the revision the seller saw, before its deadline and while the basis of the offer holds.
  It is recorded with its time, comment and receipt; an approval leaves the offer and the negotiation as they
  are until it is applied, a rejection closes the offer at once. A negotiation waits for every open approval, before and after
  (\<open>approvals_awaited\<close>, which every run of the graph runtime preserves: \<open>graph_runs_awaited\<close>).
\<close>

theorem decision_sound:
  assumes "decide H seller aid request comment approved expected now d = Inr ((None, snap), d')"
    and "get_receipt d (decision_key H seller request) = None" and "graph_inv d"
    and "approvals_awaited d"
  shows "\<exists>n p pol offer a b. lock_context d aid (Some seller) = Inr (n, p, pol, offer, a) \<and> p_seller_id p = seller
     \<and> expected = Some (ap_effect_revision a) \<and> ap_status a = AP_PENDING
     \<and> now < ap_expires_at a \<and> basis_valid H d n p pol offer now = Inr True
     \<and> graph_keeps d d' \<and> approvals_awaited d' \<and> get_approval d' aid = Some b
     \<and> ap_status b = (if approved then AP_APPROVED else AP_REJECTED) \<and> ap_reviewed_at b = Some now
     \<and> ap_seller_comment b = comment
     \<and> (\<exists>rc. get_receipt d' (decision_key H seller request) = Some rc
          \<and> rc_command_hash rc = decision_command H seller aid approved comment expected)
     \<and> (approved \<longrightarrow> d_offers d' = d_offers d \<and> d_sessions d' = d_sessions d)
     \<and> (\<not> approved \<longrightarrow> (\<exists>y. get_offer d' (ap_offer_id a) = Some y \<and> of_status y = REJECTED))"
  using assms(1,3)
proof (cases rule: decide_cases)
  case (recorded n p pol offer a)
  note ids = lock_context_ids [OF recorded(1) assms(3)] and rows = lock_context_Inr [OF recorded(1)]
  have "ns_status n \<noteq> AGREED"
    using no_deal_yet [OF recorded(1) assms(4)] recorded(4,5) by (simp add: open_approval_def)
  have guard: "now < ap_expires_at a \<and> basis_valid H d n p pol offer now = Inr True"
    using recorded(2)
  proof (cases rule: reconcile_approval_cases)
    case kept
    with recorded(4,5) \<open>ns_status n \<noteq> AGREED\<close> show ?thesis by auto
  next
    case (lapsed b)
    with rows(1) ids(1) recorded(5) show ?thesis by simp
  qed
  have a: "get_approval d (ap_id a) = Some a" using rows(1) ids by simp
  from record_decision_effect [OF recorded(8) a] obtain b where
    b: "get_approval d' aid = Some b" "ap_status b = (if approved then AP_APPROVED else AP_REJECTED)"
      "ap_reviewed_at b = Some now" "ap_seller_comment b = comment"
    and rc: "\<exists>rc. get_receipt d' (decision_key H seller request) = Some rc
          \<and> rc_command_hash rc = decision_command H seller aid approved comment expected"
    and off: "\<not> approved \<Longrightarrow> \<exists>off. offer = Some off \<and> (\<forall>y. get_offer d (of_id off) = Some y \<longrightarrow>
          (\<exists>z. get_offer d' (of_id off) = Some z \<and> of_status z = REJECTED))"
    and same: "approved \<Longrightarrow> d_offers d' = d_offers d \<and> d_sessions d' = d_sessions d"
    unfolding ids(1) by blast
  have "\<exists>y. get_offer d' (ap_offer_id a) = Some y \<and> of_status y = REJECTED" if "\<not> approved"
  proof -
    note off = off [OF that]
    obtain x where "offer = Some x" and z: "\<forall>y. get_offer d (of_id x) = Some y \<longrightarrow>
          (\<exists>z. get_offer d' (of_id x) = Some z \<and> of_status z = REJECTED)" using off by blast
    moreover from this rows(5) have "get_offer d (ap_offer_id a) = Some x" by simp
    moreover from this assms(3) have "of_id x = ap_offer_id a" by (auto simp: graph_inv_def offer_inv_def offers_stored_def)
    ultimately show ?thesis by metis
  qed
  with guard b rc same recorded(1,3,4) rows(6) decide_keeps [OF assms(1,3)] decide_awaited [OF assms(1,3,4)] show ?thesis by auto
qed (use assms(2) in simp_all)

text \<open>
  C18: On every run of commands, decisions, applications, reconciliations and lease operations, in any order, the
  offers and approvals stay well formed, no approval loses a decision, revives or gets a later deadline, and the
  queue of inputs is left alone.
\<close>

theorem graph_runs_sound:
  assumes "(graph_step H)\<^sup>*\<^sup>* d d'" and "graph_inv d"
  shows "graph_inv d' \<and> queue_step d d' \<and> (\<forall>aid a. get_approval d aid = Some a \<longrightarrow>
    (\<exists>b. get_approval d' aid = Some b \<and> ap_offer_id b = ap_offer_id a \<and> ap_expires_at b \<le> ap_expires_at a
       \<and> (decided a \<longrightarrow> ap_status b = ap_status a \<and> ap_reviewed_at b = ap_reviewed_at a)
       \<and> (ap_status a \<noteq> AP_PENDING \<longrightarrow> ap_status b = ap_status a)
       \<and> (ap_effect_status a = Some INVALIDATED \<longrightarrow> ap_effect_status b = Some INVALIDATED)
       \<and> ap_effect_revision a \<le> ap_effect_revision b))"
proof -
  have k: "graph_keeps d d'" using graph_steps_keep [OF assms] .
  then have "approvals_later d d'" by (simp add: graph_keeps_def)
  then have "\<exists>b. get_approval d' aid = Some b \<and> graph_later a b" if "get_approval d aid = Some a" for aid a
    using that by (simp add: approvals_later_def)
  with k show ?thesis unfolding graph_keeps_def graph_later_def using queue_step.elsewhere [of d' d] by metis
qed

section \<open>An approval in the graph runtime\<close>

definition asked_session :: session where
  "asked_session = sample_graph_session\<lparr>ns_current_offer_id := Some 1, ns_round_count := 1, ns_version := 2,
     ns_status := WAITING_APPROVAL\<rparr>"

definition asked_approval :: "approval_status \<Rightarrow> time option \<Rightarrow> approval" where
  "asked_approval st reviewed = (sample_approval st)\<lparr>ap_effect_status := Some NOT_APPLIED,
     ap_expires_at := minutes 30, ap_reviewed_at := reviewed\<rparr>"

definition decided_event :: outbox_event where
  "decided_event = \<lparr>ob_id = ''event'', ob_delivery_id = None, ob_approval_id = Some 1,
     ob_payload = JObj [(''schema'', JInt 1), (''approval_id'', JInt 1), (''kind'', JStr ''DECIDED'')],
     ob_status = OB_PENDING\<rparr>"

definition asked_execution :: approval_execution where
  "asked_execution = \<lparr>ex_approval_id = 1, ex_graph_version = ''approval-v1'', ex_lease_token = Some ''old'',
     ex_lease_until = Some (seconds 60), ex_ownership_epoch = 1, ex_checkpoint_ref = None,
     ex_recovery_required = False, ex_attempts = 0, ex_next_retry_at = None\<rparr>"

definition asked :: "approval_status \<Rightarrow> time option \<Rightarrow> db" where
  \<comment> \<open>the offer of 160.00 waits for the seller, the execution is claimed\<close>
  "asked st reviewed = sample_resolved\<lparr>d_offers := [(1, graph_offer 16000 PROPOSED)],
     d_sessions := [(1, asked_session)], d_approvals := [(1, asked_approval st reviewed)], d_next_approval := 2,
     d_executions := [(1, asked_execution)], d_outbox := [(''event'', decided_event)]\<rparr>"

lemmas asked_defs = asked_def asked_session_def asked_approval_def sample_approval_def sample_resolved_def
  sample_graph_def sample_graph_session_def sample_db_def empty_db_def

lemma asked_inv: "graph_inv (asked st reviewed)"
  by (simp add: asked_defs graph_inv_def approvals_stored_def graph_offer_def sample_offer_def offer_inv_defs keys_ok_def)

lemma asked_awaited: "st \<in> {AP_PENDING, AP_APPROVED} \<Longrightarrow> approvals_awaited (asked st reviewed)"
  by (auto simp: approvals_awaited_def waits_def open_at_def open_approval_def asked_defs graph_offer_def sample_offer_def
      split: if_splits)

lemma asked_context:
  "seller = None \<or> seller = Some ''seller'' \<Longrightarrow> lock_context (asked st reviewed) 1 seller
     = Inr (asked_session, sample_product, sample_policy, Some (graph_offer 16000 PROPOSED), asked_approval st reviewed)"
  by (auto simp: lock_context_def asked_defs sample_product_def)

lemma asked_valid:
  assumes "now < hours 24"
  shows "basis_valid sample_digest (asked st reviewed) asked_session sample_product sample_policy
     (Some (graph_offer 16000 PROPOSED)) now = Inr True"
proof -
  have au: "offer_authorization (graph_offer 16000 PROPOSED) sample_policy = Inr \<lparr>au_zone = AUTO_ACCEPT, au_conditions_valid = True,
       au_can_accept = True, au_can_counter = True, au_can_request_approval = False, au_prohibited = False,
       au_reason_code = zone_reason AUTO_ACCEPT\<rparr>"
    using graph_offer_authorized [of PROPOSED] by (simp add: sample_authorization_def zone_of_def Let_def)
  have row: "tget (d_evidence (asked st reviewed)) 1 = Some \<lparr>ge_offer_id = 1, ge_terms_hash = ''digest'',
       ge_policy_version = 1, ge_product_hash = ''digest''\<rparr>"
    by (simp add: asked_defs)
  have off: "of_id (graph_offer 16000 PROPOSED) = 1" "of_session_id (graph_offer 16000 PROPOSED) = 1"
    "of_proposer (graph_offer 16000 PROPOSED) = BUYER" "of_status (graph_offer 16000 PROPOSED) = PROPOSED"
    "unexpired (graph_offer 16000 PROPOSED) now"
    using assms by (simp_all add: graph_offer_def sample_offer_def unexpired_def)
  have n: "ns_id asked_session = 1" "ns_current_offer_id asked_session = Some 1" "ns_status asked_session = WAITING_APPROVAL"
    "\<not> is_semantic asked_session"
    by (simp_all add: asked_session_def sample_graph_session_def is_semantic_def)
  have p: "p_status sample_product = AVAILABLE" "sp_version sample_policy = 1"
    by (simp_all add: sample_product_def sample_policy_def)
  show ?thesis
    by (simp add: basis_valid_def au row off n p product_hash_def terms_hash_def sample_digest_def)
qed

lemma asked_reconciled:
  assumes "now < minutes 30"
  shows "reconcile_approval sample_digest (asked_session, sample_product, sample_policy, Some (graph_offer 16000 PROPOSED),
     asked_approval st reviewed) now (asked st reviewed) = Inr (asked st reviewed)"
proof -
  have "now < hours 24" using assms by (simp add: hours_def minutes_def seconds_def)
  from asked_valid [OF this] assms show ?thesis
    by (simp add: reconcile_approval_def asked_approval_def)
qed

lemma asked_decided:
  "\<exists>snap d'. decide sample_digest ''seller'' 1 ''request'' None True (Some 0) 20 (asked AP_PENDING None) = Inr ((None, snap), d')"
proof -
  have rec: "reconcile_approval sample_digest (asked_session, sample_product, sample_policy, Some (graph_offer 16000 PROPOSED),
     asked_approval AP_PENDING None) 20 (asked AP_PENDING None) = Inr (asked AP_PENDING None)"
    by (rule asked_reconciled) (simp add: minutes_def seconds_def)
  have rows: "get_receipt (asked AP_PENDING None) k = None" "ap_effect_revision (asked_approval AP_PENDING None) = 0"
    "ap_status (asked_approval AP_PENDING None) = AP_PENDING" "ap_effect_status (asked_approval AP_PENDING None) = Some NOT_APPLIED"
    "get_approval (asked AP_PENDING None) 1 = Some (asked_approval AP_PENDING None)" for k
    by (simp_all add: asked_defs)
  have "\<exists>d'. record_decision (decision_key sample_digest ''seller'' ''request'')
      (decision_command sample_digest ''seller'' 1 True None (Some 0)) (asked_session, sample_product, sample_policy,
       Some (graph_offer 16000 PROPOSED), asked_approval AP_PENDING None) None True 20 (asked AP_PENDING None) = Inr d'
     \<and> (\<exists>n p pol x a. lock_context d' 1 (Some ''seller'') = Inr (n, p, pol, Some x, a))"
    by (simp add: record_decision_def Let_def event_in_transaction_def flush_approvals_def approvals_unique_def tadd_def
        lock_context_def asked_defs sample_product_def tmod_def tput_def trows_def List.map_filter_def)
  then obtain d' where d': "record_decision (decision_key sample_digest ''seller'' ''request'')
      (decision_command sample_digest ''seller'' 1 True None (Some 0)) (asked_session, sample_product, sample_policy,
       Some (graph_offer 16000 PROPOSED), asked_approval AP_PENDING None) None True 20 (asked AP_PENDING None) = Inr d'"
    and ctx: "\<exists>n p pol x a. lock_context d' 1 (Some ''seller'') = Inr (n, p, pol, Some x, a)"
    by blast
  from ctx show ?thesis
    by (auto simp: decide_def asked_context rows rec d')
qed


theorem decision_sound_witness:
  "\<exists>(d' :: db) b. get_approval d' 1 = Some b \<and> ap_status b = AP_APPROVED \<and> ap_reviewed_at b = Some 20"
proof -
  obtain snap d' where step: "decide sample_digest ''seller'' 1 ''request'' None True (Some 0) 20 (asked AP_PENDING None)
      = Inr ((None, snap), d')"
    using asked_decided by blast
  have "get_receipt (asked AP_PENDING None) (decision_key sample_digest ''seller'' ''request'') = None" by (simp add: asked_defs)
  from decision_sound [OF step this asked_inv asked_awaited] obtain b where
    "get_approval d' 1 = Some b" "ap_status b = AP_APPROVED" "ap_reviewed_at b = Some 20" by auto
  then show ?thesis by blast
qed

theorem graph_runs_sound_witness:
  "\<exists>d'. graph_inv d' \<and> queue_step (asked AP_PENDING None) d'"
proof -
  obtain snap d' where "decide sample_digest ''seller'' 1 ''request'' None True (Some 0) 20 (asked AP_PENDING None)
      = Inr ((None, snap), d')"
    using asked_decided by blast
  then have "(graph_step sample_digest)\<^sup>*\<^sup>* (asked AP_PENDING None) d'" by (blast intro: graph_step.decision)
  from graph_runs_sound [OF this asked_inv] show ?thesis by blast
qed

lemma asked_owned: "now < seconds 60 \<Longrightarrow> lock_execution (asked st reviewed) 1 (''old'', 1) now = Inr asked_execution"
  by (simp add: lock_execution_def asked_defs asked_execution_def)

lemma asked_event: "tget (d_outbox (asked st reviewed)) ''event'' = Some decided_event" "approval_event_ok (Some decided_event) 1"
  by (simp_all add: asked_defs approval_event_ok_def decided_event_def)

definition applied_asked :: db where
  "applied_asked = applied_db 1 1 1 (asked AP_APPROVED (Some 20))"

lemma applied_rows:
  "get_approval applied_asked 1 = Some ((asked_approval AP_APPROVED (Some 20))\<lparr>ap_effect_status := Some APPLIED, ap_effect_revision := 1\<rparr>)"
  "get_session applied_asked 1 = Some (asked_session\<lparr>ns_status := ACTIVE, ns_version := 3\<rparr>)"
  "d_receipts applied_asked = []" "d_deliveries applied_asked = []"
  by (simp_all add: applied_asked_def applied_db_def asked_defs)

lemma asked_applied:
  "\<exists>res d'. apply_event sample_digest 1 ''event'' (''old'', 1) 30 (asked AP_APPROVED (Some 20)) = Inr (res, d')
     \<and> jget res ''outcome'' = JStr ''OFFER_ACCEPTED''"
proof -
  let ?d = "asked AP_APPROVED (Some 20)" and ?a = "asked_approval AP_APPROVED (Some 20)"
  have rec: "reconcile_approval sample_digest (asked_session, sample_product, sample_policy, Some (graph_offer 16000 PROPOSED), ?a)
     30 ?d = Inr ?d"
    by (rule asked_reconciled) (simp add: minutes_def seconds_def)
  have a: "ap_id ?a = 1" "ap_status ?a = AP_APPROVED" "ap_effect_status ?a = Some NOT_APPLIED" "ap_reviewed_at ?a = Some 20"
    "ap_expires_at ?a = minutes 30" "get_approval ?d 1 = Some ?a" "ns_id asked_session = 1" "of_id (graph_offer 16000 PROPOSED) = 1"
    "get_receipt ?d k = None" for k
    by (simp_all add: asked_defs graph_offer_def sample_offer_def)
  have eff: "apply_effect 1 1 (Some (graph_offer 16000 PROPOSED)) ?a ?d = Inr applied_asked"
    by (simp add: apply_effect_def a applied_asked_def applied_db_def minutes_def seconds_def)
  have "\<exists>d'. effect_notice 1 1 out 30 (applied_asked\<lparr>d_receipts := rs\<rparr>) = Inr d'" for out rs
    by (simp add: effect_notice_def applied_rows Let_def asked_session_def sample_graph_session_def)
  then obtain ef where "\<And>out rs. effect_notice 1 1 out 30 (applied_asked\<lparr>d_receipts := rs\<rparr>) = Inr (ef out rs)" by metis
  with eff have "\<exists>res d'. apply_fresh sample_digest k c (asked_session, sample_product, sample_policy,
       Some (graph_offer 16000 PROPOSED), ?a) 30 ?d = Inr (res, d') \<and> jget res ''outcome'' = JStr ''OFFER_ACCEPTED''" for k c
    by (simp add: apply_fresh_def Let_def rec a applied_rows tadd_def apply_outcome_def)
  then show ?thesis by (simp add: apply_event_def asked_owned asked_context asked_event a seconds_def Let_def)
qed

theorem apply_event_sound_witness:
  "\<exists>d' b. get_approval d' 1 = Some b \<and> ap_status b \<noteq> AP_PENDING \<and> graph_keeps (asked AP_APPROVED (Some 20)) d'"
proof -
  obtain res d' where step: "apply_event sample_digest 1 ''event'' (''old'', 1) 30 (asked AP_APPROVED (Some 20)) = Inr (res, d')"
    using asked_applied by blast
  have "get_receipt (asked AP_APPROVED (Some 20)) (apply_key sample_digest 1 ''event'') = None" by (simp add: asked_defs)
  from apply_event_sound [OF step asked_inv asked_awaited this] show ?thesis by auto
qed

theorem application_replays_witness:
  "\<exists>res d'. apply_event sample_digest 1 ''event'' (''old'', 1) 30 (asked AP_APPROVED (Some 20)) = Inr (res, d')
     \<and> snd (replays (apply_attempt sample_digest 1 ''event'') [((''old'', 1), 40)] d') = d'"
proof -
  obtain res d' where step: "apply_event sample_digest 1 ''event'' (''old'', 1) 30 (asked AP_APPROVED (Some 20)) = Inr (res, d')"
    using asked_applied by blast
  from application_replays [OF step, of "[((''old'', 1), 40)]"] step show ?thesis by blast
qed

theorem displaced_executor_fenced_witness:
  "\<exists>d'. acknowledge 1 [] (''old'', 1) (seconds 50) d' = Inl StaleOwner"
proof -
  have held: "holds_execution 1 (asked AP_PENDING None) (''old'', 1) (seconds 50)"
    by (simp add: holds_execution_def asked_owned seconds_def)
  obtain d1 where "approval_claim 1 ''new'' (seconds 60) (asked AP_PENDING None) = Inr (Some (''new'', 2), d1)"
    by (simp add: approval_claim_def asked_defs asked_execution_def)
  from displaced_executor_fenced [OF held this asked_inv rtranclp.rtrancl_refl] show ?thesis by blast
qed

end
