(* ===== verification/Command_Runs.thy ===== *)
theory Command_Runs
  imports Graph_Approval_Spec
begin

text \<open>
  A command of a run takes effect once, whatever happens between its attempts: other commands, decisions of sellers,
  reconciliation, and the queue, which may take the run from a crashed worker and give it to another. Every one of these
  transactions keeps the receipts, the identity of the inputs and the sessions (\<open>results_kept\<close>), one lemma each; so a later
  attempt finds the receipt of the first.
\<close>

section \<open>What no transaction takes away\<close>

definition receipts_kept :: "db \<Rightarrow> db \<Rightarrow> bool" where
  "receipts_kept d d' \<longleftrightarrow> (\<forall>k r. get_receipt d k = Some r \<longrightarrow> get_receipt d' k = Some r)"

definition results_kept :: "db \<Rightarrow> db \<Rightarrow> bool" where
  "results_kept d d' \<longleftrightarrow> receipts_kept d d'
     \<and> (\<forall>k r. get_input d k = Some r \<longrightarrow> (\<exists>r'. get_input d' k = Some r'
          \<and> in_input_hash r' = in_input_hash r \<and> in_session_id r' = in_session_id r))
     \<and> (\<forall>k. get_session d k \<noteq> None \<longrightarrow> get_session d' k \<noteq> None)"

lemma receipts_kept_refl [simp]: "receipts_kept d d"
  by (simp add: receipts_kept_def)

lemma receipts_kept_same: "d_receipts d' = d_receipts d \<Longrightarrow> receipts_kept d d'"
  by (simp add: receipts_kept_def)

lemma receipts_kept_append: "d_receipts d' = d_receipts d @ rs \<Longrightarrow> receipts_kept d d'"
  by (simp add: receipts_kept_def tget_append)

lemma receipts_kept_trans [trans]: "receipts_kept d d' \<Longrightarrow> receipts_kept d' d'' \<Longrightarrow> receipts_kept d d''"
  by (simp add: receipts_kept_def)

lemma results_kept_refl [simp]: "results_kept d d"
  by (simp add: results_kept_def)

lemma results_kept_trans [trans]: "results_kept d d' \<Longrightarrow> results_kept d' d'' \<Longrightarrow> results_kept d d''"
proof -
  assume one: "results_kept d d'" and two: "results_kept d' d''"
  have "\<exists>r'. get_input d'' k = Some r' \<and> in_input_hash r' = in_input_hash r \<and> in_session_id r' = in_session_id r"
    if row: "get_input d k = Some r" for k r
  proof -
    obtain r1 where "get_input d' k = Some r1" and r1: "in_input_hash r1 = in_input_hash r" "in_session_id r1 = in_session_id r"
      using one row unfolding results_kept_def by blast
    with two show ?thesis unfolding results_kept_def r1 [symmetric] by blast
  qed
  moreover have "receipts_kept d d''" using one two receipts_kept_trans unfolding results_kept_def by blast
  ultimately show ?thesis using one two unfolding results_kept_def by blast
qed

lemma results_kept_business: "business_frame d d' \<Longrightarrow> receipts_kept d d' \<Longrightarrow> results_kept d d'"
proof -
  assume b: "business_frame d d'" and r: "receipts_kept d d'"
  have "get_session d k \<noteq> None \<longleftrightarrow> get_session d' k \<noteq> None" for k
  proof -
    have "view d' = view d" using b by (simp add: business_frame_def)
    then have "qv_queues (view d') k = qv_queues (view d) k" by (rule arg_cong)
    then show ?thesis by (cases "get_session d k"; cases "get_session d' k") simp_all
  qed
  with b r show ?thesis by (simp add: results_kept_def business_frame_def)
qed

lemma results_kept_effects: "effects_only d d' \<Longrightarrow> receipts_kept d d' \<Longrightarrow> results_kept d d'"
  by (intro results_kept_business business_frame_effects)

lemma results_kept_rows:
  assumes "d_receipts d' = d_receipts d" and "d_inputs d' = d_inputs d"
    and "\<And>k. get_session d k \<noteq> None \<Longrightarrow> get_session d' k \<noteq> None"
  shows "results_kept d d'"
  using assms by (auto simp: results_kept_def receipts_kept_def)

section \<open>Invalidations and notices\<close>

lemma effect_notice_kept:
  assumes "effect_notice sid aid outcome now d = Inr d'"
  shows "results_kept d d'"
  using effect_notice_frame(1,2) [OF assms] by (intro results_kept_effects receipts_kept_same)

lemma invalidate_approval_kept:
  assumes "invalidate_approval H now reason sid e v aid d = Inr d'"
  shows "results_kept d d'"
  using assms
proof (cases rule: invalidate_approval_cases)
  case (invalidated n a s rk r)
  then show ?thesis by (intro results_kept_effects receipts_kept_append)
qed simp

lemma invalidate_offer_kept:
  assumes step: "invalidate_offer H now reason sid off d = Inr d'"
  shows "results_kept d d'"
proof (cases off)
  case (Some x)
  show ?thesis
  proof (cases "of_status x \<in> {PROPOSED, ACCEPTED}")
    case True
    let ?d1 = "drop_current sid (of_id x) (close_offer (of_id x) now reason d)"
    obtain v where fold: "efold (invalidate_approval H now reason sid False (Some v)) (approvals_of_offer ?d1 (of_id x)) ?d1 = Inr d'"
      using step True unfolding invalidate_offer_def Some by (auto simp: Let_def result_simps)
    have "results_kept ?d1 d'"
      by (rule efold_invariant [where P = "results_kept ?d1", OF fold]) (auto intro: results_kept_trans invalidate_approval_kept)
    moreover have "results_kept d ?d1" by (rule results_kept_rows) (auto simp: drop_current_def close_offer_def)
    ultimately show ?thesis using results_kept_trans by blast
  qed (use step Some in \<open>auto simp: invalidate_offer_def\<close>)
qed (use step in \<open>simp add: invalidate_offer_def\<close>)

section \<open>Commands\<close>

lemma new_offer_receipts: "new_offer_in_transaction H n p pol t who now d = Inr (k, d') \<Longrightarrow> d_receipts d' = d_receipts d"
  by (cases rule: new_offer_tx_cases) auto

lemma supersede_receipts: "d_receipts (supersede old k d) = d_receipts d"
proof -
  have "d_receipts (fold (\<lambda>aid. mod_approval aid f) aids e) = d_receipts e" for f aids and e :: db
    by (induction aids arbitrary: e) simp_all
  then show ?thesis by (simp add: supersede_def split: option.split)
qed

lemma request_approval_receipts:
  assumes "request_graph_approval sid oid pol now d = Inr (aid, d')"
  shows "d_receipts d' = d_receipts d"
proof -
  obtain ap nx where st: "start_approval aid (mod_session sid (\<lambda>n. n\<lparr>ns_current_offer_id := Some oid,
         ns_status := WAITING_APPROVAL\<rparr>) (d\<lparr>d_approvals := ap, d_next_approval := nx\<rparr>)) = Inr d'"
    using assms unfolding request_graph_approval_def Let_def
    by (elim result_elims) (simp only: flush_approvals_eq_Inr)
  then show ?thesis
    unfolding start_approval_def Let_def event_in_transaction_def by (elim result_elims) auto
qed

lemma settle_offer_receipts:
  assumes "settle_offer H n p pol inp au k now d = Inr (res, d')"
  shows "d_receipts d' = d_receipts d"
  using assms unfolding settle_offer_def Let_def
  apply (elim if_InrE result_elims option_InrE)
  subgoal by (simp add: set_current_def set_offer_status_def)
  subgoal by (auto dest: request_approval_receipts)
  subgoal by (simp add: set_offer_status_def)
  subgoal by (auto simp: set_current_def set_offer_status_def dest: new_offer_receipts)
  done

lemma place_offer_receipts:
  assumes "place_offer H n p pol inp t au cur now d = Inr (res, d')"
  shows "receipts_kept d d'"
proof -
  let ?rej = "au_prohibited au \<and> ti_counter_terms inp = None"
  obtain d1 k d2 where d1: "(if ?rej then Inr d else invalidate_offer H now ''REPLACED'' (ns_id n) cur d) = Inr d1"
    and new: "new_offer_in_transaction H n p pol t BUYER now d1 = Inr (k, d2)"
    and settle: "settle_offer H n p pol inp au k now
        (mod_session (ns_id n) (\<lambda>s. s\<lparr>ns_round_count := ns_round_count s + 1, ns_version := ns_version s + 1\<rparr>)
          (if ?rej then d2 else supersede cur k d2)) = Inr (res, d')"
    using assms unfolding place_offer_def Let_def by (elim result_elims) simp
  have "receipts_kept d d1"
    using d1 invalidate_offer_kept by (cases ?rej) (auto simp: results_kept_def)
  moreover have "d_receipts d' = d_receipts d1"
    using settle_offer_receipts [OF settle] new_offer_receipts [OF new] by (simp add: supersede_receipts)
  ultimately show ?thesis using receipts_kept_same receipts_kept_trans by blast
qed

lemma dispatch_receipts:
  assumes step: "dispatch H audit run n p pol inp basis now d = Inr (r, d')" and "audits_only audit"
  shows "receipts_kept d d'"
proof -
  have audited: "d_receipts e = d_receipts d" if "audit d = Inr e" for e using audits_onlyD [OF assms(2) that] by auto
  have resolve: "receipts_kept d d2" if "resolve_offer_in_transaction H audit n p pol inp now sem d = Inr (res, d2)" for sem res d2
    using that
  proof (cases rule: resolve_cases)
    case (placed t au d1)
    from receipts_kept_same [OF audited [OF placed(7)]] place_offer_receipts [OF placed(8)] show ?thesis by (rule receipts_kept_trans)
  qed (auto intro: receipts_kept_same audited)
  have confirm: "receipts_kept d d2" if "confirm_in_transaction H audit n p pol inp run now d = Inr (res, d2)" for res d2
    using that by (cases rule: confirm_cases) (auto simp: set_offer_status_def intro!: receipts_kept_same dest!: audited)
  have close: "receipts_kept d d2" if "lifecycle_in_transaction H audit n inp now d = Inr (res, d2)" for res d2
    using that
  proof (cases rule: lifecycle_cases)
    case (1 d1 d3 closing)
    have "receipts_kept d d1" by (rule receipts_kept_same [OF audited [OF 1(2)]])
    also have "receipts_kept d1 d3" using invalidate_offer_kept [OF 1(3)] by (simp add: results_kept_def)
    also have "receipts_kept d3 d2" by (rule receipts_kept_same) (simp add: 1(4) close_drafts_def)
    finally show ?thesis .
  qed
  have basis: "d_receipts d2 = d_receipts d1" if "record_basis b res d1 = Inr d2" for b res d1 d2
    using that unfolding record_basis_def Let_def by (elim option_InrE result_elims) (auto split: if_splits)
  show ?thesis
    using step unfolding dispatch_def
    by (cases "ti_kind inp")
      (auto simp: ebind_eq_Inr dest!: resolve confirm close dest: basis receipts_kept_same intro: receipts_kept_trans)
qed

lemma execute_kept:
  assumes step: "execute H qid rid owner expected now d = Inr (res, d')"
  shows "results_kept d d'"
  using step
proof (cases rule: execute_cases)
  case (fresh run t n)
  from fresh(4) show ?thesis
  proof (cases rule: execute_fresh_cases)
    case (1 p pol inp basis evidence d1 d2 d3 r)
    obtain qs es where d2: "d2 = d\<lparr>d_quotes := qs, d_causal := es\<rparr>"
      using 1(5,6) by (auto simp: only_quotes_def append_event_Inr)
    obtain d2' where d2': "append_event (action_key rid) 2 evidence d2 = Inr d2'" and fr: "business_frame d2' d3"
      using dispatch_business [OF 1(7)] by blast
    obtain es' where "d2' = d2\<lparr>d_causal := es'\<rparr>" using d2' by (auto simp: append_event_Inr)
    then have same: "d_receipts d2' = d_receipts d" "d_inputs d2' = d_inputs d" "d_sessions d2' = d_sessions d" by (simp_all add: d2)
    have "receipts_kept d2 d3" by (rule dispatch_receipts [OF 1(7)]) simp
    then have "receipts_kept d2' d3" by (simp add: receipts_kept_def same d2)
    with fr have "results_kept d2' d3" by (rule results_kept_business)
    then have "results_kept d d3" by (simp add: results_kept_def receipts_kept_def same)
    moreover from 1(8) have "results_kept d3 d'"
      by (cases rule: store_receipt_cases) (simp add: results_kept_def receipts_kept_def tget_append)
    ultimately show ?thesis by (rule results_kept_trans)
  qed
qed simp

section \<open>Decisions and reconciliation\<close>

lemma reconcile_approval_kept:
  assumes step: "reconcile_approval H ctx now d = Inr d'"
  shows "results_kept d d'"
proof -
  obtain n p pol offer a where ctx: "ctx = (n, p, pol, offer, a)" by (cases ctx)
  have "results_kept d e'"
    if "invalidate_approval H now r sid x v aid (if c then mod_session sid (\<lambda>s. s\<lparr>ns_version := ns_version s + 1\<rparr>) d else d) = Inr e"
      and "invalidate_offer H now r sid off e = Inr e'" for r sid x v aid c off e e'
  proof -
    have "results_kept d (if c then mod_session sid (\<lambda>s. s\<lparr>ns_version := ns_version s + 1\<rparr>) d else d)"
      by (cases c) (auto intro!: results_kept_rows)
    also have "results_kept \<dots> e" by (rule invalidate_approval_kept [OF that(1)])
    also have "results_kept e e'" by (rule invalidate_offer_kept [OF that(2)])
    finally show ?thesis .
  qed
  with step show ?thesis
    unfolding reconcile_approval_def ctx Let_def prod.case
    by (elim if_InrE result_elims) auto
qed

lemma record_decision_kept:
  assumes step: "record_decision key command (n, p, pol, offer, a) comment approved now d = Inr d'"
  shows "results_kept d d'"
proof -
  define d2 where "d2 = event_in_transaction (ap_id a) ''decision'' ''DECIDED'' (mod_approval (ap_id a)
    (\<lambda>x. x\<lparr>ap_status := (if approved then AP_APPROVED else AP_REJECTED),
                 ap_reviewed_at := Some now, ap_seller_comment := comment, ap_followup_request_id := Some key,
                 ap_decision_hash := Some command\<rparr>) d)"
  obtain d3 d4 r rs where d3: "(if approved then Inr d2
             else ebind (some_or AttributeExn offer) (\<lambda>off. Inr (reject_effect (ns_id n) (ap_id a) off now d2))) = Inr d3"
    and flush: "flush_approvals d3 = Inr d4" and rs: "tadd IntegrityExn key r (d_receipts d4) = Inr rs"
    and fin: "(if approved then Inr (d4\<lparr>d_receipts := rs\<rparr>)
      else effect_notice (ns_id n) (ap_id a) ''APPROVAL_REJECTED'' now (d4\<lparr>d_receipts := rs\<rparr>)) = Inr d'"
    using step [unfolded record_decision_def Let_def prod.case, folded d2_def]
    by (elim ebind_InrE some_or_InrE) (rule that; assumption)
  have d4: "d4 = d3" using flush by (simp add: flush_approvals_eq_Inr)
  have "results_kept d d2" by (rule results_kept_rows) (simp_all add: d2_def event_in_transaction_def Let_def)
  also have "results_kept d2 d3"
  proof (cases approved)
    case False
    with d3 obtain x where "d3 = reject_effect (ns_id n) (ap_id a) x now d2" by (auto simp: ebind_eq_Inr)
    then show ?thesis by (intro results_kept_rows) (auto simp: reject_effect_def)
  qed (use d3 in simp)
  also have "results_kept d3 (d4\<lparr>d_receipts := rs\<rparr>)"
    using rs by (simp add: d4 tadd_eq_Inr results_kept_def receipts_kept_def tget_append)
  also have "results_kept \<dots> d'" using fin effect_notice_kept by (auto split: if_splits)
  finally show ?thesis .
qed

lemma decide_kept:
  assumes step: "decide H seller aid request comment approved expected now d = Inr (r, d')"
  shows "results_kept d d'"
proof -
  let ?key = "decision_key H seller request" and ?cmd = "decision_command H seller aid approved comment expected"
  obtain n p pol offer a conflict where rest: "(case get_receipt d ?key of
        Some old \<Rightarrow> if rc_command_hash old \<noteq> ?cmd then Inl (ServiceExn ApprovalConflict) else Inr (None, d)
      | None \<Rightarrow>
          if expected = None \<or> expected \<noteq> Some (ap_effect_revision a) then Inl (ServiceExn ApprovalConflict)
          else if ap_status a \<noteq> AP_PENDING then Inl (ServiceExn ApprovalConflict)
          else
          ebind (reconcile_approval H (n, p, pol, offer, a) now d) (\<lambda>d1.
          ebind (some_or AttributeExn (get_approval d1 aid)) (\<lambda>a1.
          if ap_effect_status a1 = Some INVALIDATED then Inr (Some ''approval expired or invalid'', d1)
          else
          ebind (record_decision ?key ?cmd (n, p, pol, offer, a) comment approved now d1) (\<lambda>d2.
          Inr (None, d2))))) = Inr (conflict, d')"
    using step unfolding decide_def Let_def
    by (elim ebind_InrE prod_InrE some_or_InrE) auto
  show ?thesis
  proof (cases "get_receipt d ?key")
    case None
    with rest obtain d1 where one: "reconcile_approval H (n, p, pol, offer, a) now d = Inr d1"
      and two: "d' = d1 \<or> record_decision ?key ?cmd (n, p, pol, offer, a) comment approved now d1 = Inr d'"
      by (auto simp: ebind_eq_Inr split: if_splits)
    from two reconcile_approval_kept [OF one] record_decision_kept results_kept_trans show ?thesis by blast
  qed (use rest in \<open>auto split: if_splits\<close>)
qed

lemma apply_event_kept:
  assumes step: "apply_event H aid eid owner now d = Inr (res, d')"
  shows "results_kept d d'"
  using step
proof (cases rule: apply_event_cases)
  case (fresh x n p pol offer a e)
  from fresh(6) show ?thesis
  proof (cases rule: apply_fresh_cases)
    case (applied d1 a1 d2 a2 m)
    have "results_kept d d1" by (rule reconcile_approval_kept [OF applied(1)])
    also have "results_kept d1 d2" using applied(4)
      by (cases rule: apply_effect_cases) (auto simp: applied_db_def intro!: results_kept_rows)
    also have "results_kept d2 (d2\<lparr>d_receipts := d_receipts d2 @ rs\<rparr>)" for rs
      by (simp add: results_kept_def receipts_kept_def tget_append)
    also note effect_notice_kept [OF applied(9)]
    finally show ?thesis .
  qed
qed simp

lemma reconcile_offer_kept:
  assumes step: "reconcile_offer H sid clock d = Inr (u, d')"
  shows "results_kept d d'"
proof -
  define d1 where "d1 = mod_session sid (\<lambda>s. s\<lparr>ns_lifecycle_checked_at := Some (fst clock)\<rparr>) d"
  have one: "results_kept d d1" by (rule results_kept_rows) (auto simp: d1_def)
  have current: "results_kept d1 e" if run: "reconcile_current H n oid t d1 = Inr e" for n oid t e
  proof -
    obtain p pol off where rest: "(case approval_of_offer d1 (of_id off) of
       Some a \<Rightarrow> reconcile_approval H (n, p, pol, Some off, a) t d1
     | None \<Rightarrow>
         ebind (basis_valid H d1 n p pol (Some off) t) (\<lambda>ok.
         if ok then Inr d1
         else
         ebind (invalidate_offer H t ''OFFER_BASIS_INVALID'' (ns_id n) (Some off)
                 (mod_session (ns_id n) (\<lambda>s. s\<lparr>ns_version := ns_version s + 1\<rparr>) d1)) (\<lambda>d2.
         publish_invalidation H (ns_id n) (of_id off) (ns_version n) t d2))) = Inr e"
      using run unfolding reconcile_current_def by (elim ebind_InrE some_or_InrE)
    show ?thesis
    proof (cases "approval_of_offer d1 (of_id off)")
      case (Some a)
      with rest reconcile_approval_kept show ?thesis by simp
    next
      case None
      let ?d0 = "mod_session (ns_id n) (\<lambda>s. s\<lparr>ns_version := ns_version s + 1\<rparr>) d1"
      show ?thesis
      proof (cases "e = d1")
        case False
        with rest None obtain e1 where
          inv: "invalidate_offer H t ''OFFER_BASIS_INVALID'' (ns_id n) (Some off) ?d0 = Inr e1"
          and pub: "publish_invalidation H (ns_id n) (of_id off) (ns_version n) t e1 = Inr e"
          by (auto simp: ebind_eq_Inr split: if_splits)
        have "results_kept d1 ?d0" by (rule results_kept_rows) auto
        also have "results_kept ?d0 e1" by (rule invalidate_offer_kept [OF inv])
        also have "results_kept e1 e"
          using pub unfolding publish_invalidation_def Let_def outbox_in_transaction_def
          by (elim ebind_InrE some_or_InrE) (auto simp: tadd_eq_Inr results_kept_def receipts_kept_def tget_append)
        finally show ?thesis .
      qed simp
    qed
  qed
  from step have "d' = d1 \<or> (\<exists>n oid. reconcile_current H n oid (snd clock) d1 = Inr d')"
    unfolding reconcile_offer_def Let_def d1_def
    by (elim ebind_InrE some_or_InrE) (auto simp: ebind_eq_Inr split: if_splits option.splits)
  with one current results_kept_trans show ?thesis by blast
qed

lemma graph_step_kept: "graph_step H d d' \<Longrightarrow> results_kept d d'"
proof (induction rule: graph_step.induct)
  case (reconciled aid now d u d')
  then show ?case unfolding reconcile_def by (elim ebind_InrE) (auto dest: reconcile_approval_kept)
next
  case (claimed aid token now d r d')
  then show ?case by (cases rule: approval_claim_cases) (auto intro: results_kept_rows)
next
  case (released aid owner ckpt failed recovery clock d u d')
  then show ?case unfolding approval_release_def Let_def by (elim ebind_InrE) (auto intro!: results_kept_rows)
next
  case (acknowledged aid ks owner now d u d')
  obtain t where "d' = d\<lparr>d_outbox := t\<rparr>"
    using acknowledged(1) mark_delivered_frame [of aid ks d] unfolding acknowledge_def by (elim ebind_InrE) auto
  then show ?case by (simp add: results_kept_rows)
qed (blast dest: execute_kept decide_kept apply_event_kept reconcile_offer_kept)+

section \<open>The queue\<close>

definition same_input :: "input_row \<Rightarrow> input_row \<Rightarrow> bool" where
  "same_input r r' \<longleftrightarrow> in_input_hash r' = in_input_hash r \<and> in_session_id r' = in_session_id r"

lemma settle_same [simp]: "in_input_hash (settle now r) = in_input_hash r"
  by (simp add: settle_def Let_def)

lemma lease_deadline_same: "lease_deadline d now lease r = (x, r') \<Longrightarrow> same_input r r'"
  by (auto simp: lease_deadline_def Let_def same_input_def split: option.splits if_splits)

lemma store_run_kept:
  assumes "store_run rid r' t' d = Inr d'" and "get_input d rid = Some r" and "same_input r r'"
  shows "results_kept d d'"
proof -
  have "d' = d\<lparr>d_inputs := tput rid r' (d_inputs d), d_tasks := tput (in_task_id r') t' (d_tasks d)\<rparr>"
    using assms(1) by (simp add: store_run_def split: if_splits)
  with assms(2,3) show ?thesis by (auto simp: results_kept_def receipts_kept_def same_input_def)
qed

lemma claim_kept:
  assumes "claim rid token lease now d = Inr (res, d')"
  shows "results_kept d d'"
proof -
  have grant: "results_kept d d'" if "grant rid token now e r t d = Inr (res, d')" "get_input d rid = Some run" "same_input run r" for e r t run
    using that(1) unfolding grant_def
    by (elim if_InrE result_elims) (auto elim!: store_run_kept [OF _ that(2)] simp: that(3) [unfolded same_input_def] same_input_def)
  from assms show ?thesis
  proof (cases rule: claim_cases)
    case (due run n t x r e)
    have "same_input run r" using lease_deadline_same [OF due(9)] by (simp add: same_input_def)
    with grant due(1,11) show ?thesis by blast
  qed simp
qed

lemma revoke_lease_kept:
  "revoke_lease rid now retry r t d = Inr d' \<Longrightarrow> get_input d rid = Some r \<Longrightarrow> results_kept d d'"
  unfolding revoke_lease_def by (erule store_run_kept) (simp_all add: same_input_def)

lemma release_kept: "release rid owner recovery t1 t2 t3 d = Inr (u, d') \<Longrightarrow> results_kept d d'"
  unfolding release_def by (elim result_elims) (auto simp: lock_owner_Inr same_input_def elim!: store_run_kept)

lemma heartbeat_kept: "heartbeat rid owner t1 t2 t3 d = Inr (u, d') \<Longrightarrow> results_kept d d'"
  unfolding heartbeat_def
  by (elim result_elims) (auto simp: lock_owner_Inr same_input_def dest!: lease_deadline_same [OF sym] elim!: store_run_kept)

lemma finalize_kept:
  assumes "finalize rid owner v pending t1 t2 t3 d = Inr (u, d')"
  shows "results_kept d d'"
  using assms
proof (cases rule: finalize_cases)
  case (1 run t n del)
  let ?d1 = "mod_session (in_session_id run) (\<lambda>s. s\<lparr>ns_last_resolved_input_seq := in_seq run\<rparr>) d"
  have "results_kept d ?d1" by (rule results_kept_rows) auto
  also have "results_kept ?d1 d'" by (rule store_run_kept [OF 1(10)]) (simp_all add: 1(1) same_input_def)
  finally show ?thesis .
qed

lemma enqueue_kept:
  assumes "enqueue H rid corr fp model now sid buyer request p config d = Inr (k, d')"
  shows "results_kept d d'"
  using assms
proof (cases rule: enqueue_cases)
  case (fresh n c seen pol)
  have "d_receipts d' = d_receipts d"
    using fresh(9) unfolding insert_input_def by (auto simp: Let_def result_simps split: if_splits)
  with insert_input_Inr(3,5) [OF fresh(9)] show ?thesis
    by (auto simp: results_kept_def receipts_kept_def tget_append)
qed simp

lemma enroll_kept: "enroll sid buyer version d = Inr (u, d') \<Longrightarrow> results_kept d d'"
  by (auto simp: enroll_def result_simps split: if_splits intro!: results_kept_rows)

lemma register_kept: "register_instance rid iid target now d = Inr (u, d') \<Longrightarrow> results_kept d d'"
  by (auto simp: register_instance_def result_simps intro!: results_kept_rows)

lemma attach_kept: "attach_owner rid iid owner now d = Inr (u, d') \<Longrightarrow> results_kept d d'"
  by (auto simp: attach_owner_def ebind_eq_Inr split: option.splits if_splits intro!: results_kept_rows)

lemma supervisor_kept: "supervisor_revoke rid iid t1 t2 d = Inr (u, d') \<Longrightarrow> results_kept d d'"
  unfolding supervisor_revoke_def
  by (auto simp: ebind_eq_Inr some_or_eq_Inr split: option.splits if_splits intro: revoke_lease_kept)

lemma cleanup_kept:
  assumes "cleanup_instance pg iid force t1 t2 d = (res, d')"
  shows "results_kept d d'"
proof (cases "revoke_instance iid force t1 d")
  case (Inr r)
  obtain x d1 where r: "r = (x, d1)" by (cases r)
  have instances: "results_kept d (e\<lparr>d_instances := rows\<rparr>)" if "revoke_lease k t1 t1 q t d = Inr e" "get_input d k = Some q" for k q t e rows
  proof -
    have "results_kept d e" by (rule revoke_lease_kept [OF that])
    also have "results_kept e (e\<lparr>d_instances := rows\<rparr>)" by (rule results_kept_rows) simp_all
    finally show ?thesis .
  qed
  have "results_kept d d1"
    using Inr unfolding revoke_instance_def r
    by (auto simp: ebind_eq_Inr some_or_eq_Inr split: option.splits if_splits
        intro: results_kept_rows instances)
  moreover have "results_kept d1 d'"
    using assms Inr r by (auto simp: cleanup_instance_def intro!: results_kept_rows split: option.splits)
  ultimately show ?thesis by (rule results_kept_trans)
qed (use assms in \<open>simp add: cleanup_instance_def\<close>)

section \<open>Attempts at a command\<close>

inductive world_step :: "(json \<Rightarrow> string) \<Rightarrow> db \<Rightarrow> db \<Rightarrow> bool" for H where
  graph: "graph_step H d d' \<Longrightarrow> world_step H d d'"
| enroll: "enroll sid buyer version d = Inr (u, d') \<Longrightarrow> world_step H d d'"
| enqueue: "enqueue K rid corr fp model now sid buyer request p config d = Inr (k, d') \<Longrightarrow> world_step H d d'"
| claim: "claim rid token lease now d = Inr (res, d') \<Longrightarrow> world_step H d d'"
| release: "release rid owner recovery t1 t2 t3 d = Inr (u, d') \<Longrightarrow> world_step H d d'"
| heartbeat: "heartbeat rid owner t1 t2 t3 d = Inr (u, d') \<Longrightarrow> world_step H d d'"
| finalize: "finalize rid owner v pending t1 t2 t3 d = Inr (u, d') \<Longrightarrow> world_step H d d'"
| register: "register_instance rid iid target now d = Inr (u, d') \<Longrightarrow> world_step H d d'"
| attach: "attach_owner rid iid owner now d = Inr (u, d') \<Longrightarrow> world_step H d d'"
| cleanup: "cleanup_instance pg iid force t1 t2 d = (r, d') \<Longrightarrow> world_step H d d'"
| supervise: "supervisor_revoke rid iid t1 t2 d = Inr (u, d') \<Longrightarrow> world_step H d d'"
| elsewhere: "d_receipts d' = d_receipts d \<Longrightarrow> d_inputs d' = d_inputs d \<Longrightarrow>
     (\<And>k. get_session d k \<noteq> None \<Longrightarrow> get_session d' k \<noteq> None) \<Longrightarrow> world_step H d d'"
  \<comment> \<open>the other services, which write neither receipts nor inputs and delete no session\<close>

lemma world_step_kept: "world_step H d d' \<Longrightarrow> results_kept d d'"
proof (induction rule: world_step.induct)
  case (elsewhere d' d)
  then show ?case by (rule results_kept_rows)
qed (erule graph_step_kept enroll_kept enqueue_kept claim_kept release_kept heartbeat_kept finalize_kept register_kept
    attach_kept cleanup_kept supervisor_kept)+

lemma world_steps_kept: "(world_step H)\<^sup>*\<^sup>* d d' \<Longrightarrow> results_kept d d'"
  by (induction rule: rtranclp_induct) (auto intro: results_kept_trans world_step_kept)

lemma execute_receipt:
  assumes step: "execute H qid rid owner expected now d = Inr (res, d')"
  obtains run rc where "get_input d' rid = Some run" and "get_session d' (in_session_id run) \<noteq> None"
    and "get_receipt d' (action_key rid) = Some rc" and "rc_command_hash rc = command_hash H run expected" and "rc_result rc = res"
  using step
proof (cases rule: execute_cases)
  case (replayed run t n rc)
  then show thesis using that [of run rc] by (simp add: lock_owner_Inr)
next
  case (fresh run t n)
  have "results_kept d d'" by (rule execute_kept [OF step])
  then have "get_session d' (in_session_id run) \<noteq> None" using fresh(2) by (simp add: results_kept_def)
  with fresh_receipt [OF fresh(4)] fresh(1) that show thesis by (auto simp: lock_owner_Inr)
qed

text \<open>
  C5: A command of a run takes effect once. After its first success, whatever commands, decisions, reconciliations and
  transactions of the queue come in between, and whoever has claimed the run by then, a later attempt returns the stored
  result and writes nothing, or is turned away because the caller does not own the run: it is decided by ownership alone.
\<close>

theorem execute_replays:
  assumes "execute H qid rid owner expected now d = Inr (res, d1)" and "(world_step H)\<^sup>*\<^sup>* d1 d2"
  shows "execute H qid' rid owner' expected now' d2
    = (case lock_owner rid owner' now' d2 of Inl e \<Rightarrow> Inl e | Inr own \<Rightarrow> Inr (res, d2))"
proof -
  obtain run rc where run: "get_input d1 rid = Some run" "get_session d1 (in_session_id run) \<noteq> None"
    and rc: "get_receipt d1 (action_key rid) = Some rc" "rc_command_hash rc = command_hash H run expected" "rc_result rc = res"
    using assms(1) by (rule execute_receipt)
  have kept: "results_kept d1 d2" using assms(2) by (rule world_steps_kept)
  then obtain run2 where run2: "get_input d2 rid = Some run2" "in_input_hash run2 = in_input_hash run"
      "in_session_id run2 = in_session_id run"
    using run(1) unfolding results_kept_def by blast
  have rc2: "get_receipt d2 (action_key rid) = Some rc" using kept rc(1) by (simp add: results_kept_def receipts_kept_def)
  have hash: "command_hash H run2 expected = rc_command_hash rc" by (simp add: rc(2) command_hash_def run2(2))
  obtain n where n: "get_session d2 (in_session_id run2) = Some n"
    using kept run(2) unfolding results_kept_def run2(3) by (metis not_None_eq)
  show ?thesis
  proof (cases "lock_owner rid owner' now' d2")
    case (Inl e)
    then show ?thesis by (simp add: execute_def)
  next
    case (Inr own)
    obtain r t where own: "own = (r, t)" by (cases own)
    with Inr run2(1) have "r = run2" by (simp add: lock_owner_Inr)
    with Inr own n rc2 hash rc(3) show ?thesis by (simp add: execute_def)
  qed
qed

section \<open>A command repeated by another worker\<close>

definition given_up :: "db \<Rightarrow> db" where
  "given_up d = d\<lparr>d_inputs := [(''input'', close_run)], d_tasks := [(1, close_task\<lparr>t_status := T_RETRY_WAIT,
     t_lease_token := None, t_lease_owner := None, t_lease_expires_at := None, t_next_retry_at := Some (seconds 41)\<rparr>)]\<rparr>"

definition taken_over :: "db \<Rightarrow> db" where
  "taken_over d = d\<lparr>d_inputs := [(''input'', close_run\<lparr>in_active_since := Some (seconds 42), in_active_until := Some (seconds 60 + 30)\<rparr>)],
     d_tasks := [(1, close_task\<lparr>t_ownership_epoch := 2, t_lease_token := Some ''late'', t_lease_owner := Some ''graph:input'',
       t_lease_expires_at := Some (seconds 60 + 30), t_attempt_count := 1\<rparr>)]\<rparr>"

lemma close_given_up:
  assumes "d_inputs d = d_inputs close_start" and "d_tasks d = d_tasks close_start"
  shows "release ''input'' (''token'', 1) False 40 40 (seconds 40) d = Inr ((), given_up d)"
proof -
  have own: "lock_owner ''input'' (''token'', 1) 40 d = Inr (close_run, close_task)"
    using close_owned by (simp add: lock_owner_Inr assms owns_True) (auto simp: close_task_def seconds_def)
  have run: "settle 40 close_run = close_run" "in_recovery_required close_run = False" "in_task_id close_run = 1"
    by (simp_all add: settle_def close_run_def sample_run_def used_ms_def)
  show ?thesis
    unfolding release_def own ebind_Inr prod.case run given_up_def
    by (simp add: store_run_def assms close_start_def drop_lease_def task_checks_def close_task_def queued_task_def
        queued_session_def new_graph_task_def seconds_def run tput_def close_run_def sample_run_def)
qed

lemma close_taken_over:
  assumes "get_session d 1 = Some closed_session" and "d_deliveries d = [(reply_key ''input'', command_delivery close_run res 30)]"
  shows "claim ''input'' ''late'' (seconds 30) (seconds 42) (given_up d) = Inr (Some (''late'', 2), taken_over d)"
proof -
  let ?t = "close_task\<lparr>t_status := T_RETRY_WAIT, t_lease_token := None, t_lease_owner := None, t_lease_expires_at := None,
     t_next_retry_at := Some (seconds 41)\<rparr>"
  have rows: "get_input (given_up d) ''input'' = Some close_run" "get_session (given_up d) (in_session_id close_run) = Some closed_session"
    "get_task (given_up d) (in_task_id close_run) = Some ?t" "in_seq close_run = 1" "in_recovery_required close_run = False"
    "ns_last_resolved_input_seq closed_session = 0" "ns_archived_at closed_session = None" "in_task_id close_run = 1"
    using assms by (simp_all add: given_up_def close_run_def sample_run_def closed_session_def sample_graph_session_def)
  have del: "get_delivery (given_up d) (reply_key ''input'') = Some (command_delivery close_run res 30)"
    by (simp add: given_up_def assms)
  have run: "settle (seconds 42) close_run = close_run" "in_closing_deadline close_run = None" "in_id close_run = ''input''"
    "remaining_ms close_run (seconds 42) = 120000"
    by (simp_all add: settle_def close_run_def sample_run_def used_ms_def remaining_ms_def active_limit_ms_def sample_config_def)
  have due: "due ?t (seconds 42)" by (simp add: due_def close_task_def seconds_def)
  have clean: "\<not> cleanup_only (given_up d) ''input'' ?t"
    by (simp add: cleanup_only_def del command_delivery_def close_task_def queued_task_def new_graph_task_def)
  have deadline: "lease_deadline (given_up d) (seconds 42) (seconds 30) close_run = (seconds 60 + 30, close_run)"
    by (simp add: lease_deadline_def Let_def run del command_delivery_def) (simp add: millis_def seconds_def)
  have "grant ''input'' ''late'' (seconds 42) (seconds 60 + 30) close_run ?t (given_up d) = Inr (Some (''late'', 2), taken_over d)"
    by (simp add: grant_def store_run_def task_checks_def close_task_def queued_task_def queued_session_def new_graph_task_def
        seconds_def given_up_def taken_over_def tput_def rows)
  moreover have "get_task (given_up d) 1 = Some ?t" using rows(3,8) by simp
  ultimately show ?thesis by (simp add: claim_def rows(1,2,4-8) due clean deadline run)
qed

theorem execute_replays_witness:
  "\<exists>res d1 d2. (world_step sample_digest)\<^sup>*\<^sup>* d1 d2 \<and> d2 \<noteq> d1
     \<and> execute sample_digest ''quote'' ''input'' (''token'', 1) 1 30 close_start = Inr (res, d1)
     \<and> execute sample_digest ''quote2'' ''input'' (''late'', 2) 1 (seconds 43) d2 = Inr (res, d2)"
proof -
  obtain res d1 where first: "execute sample_digest ''quote'' ''input'' (''token'', 1) 1 30 close_start = Inr (res, d1)"
    and d1: "get_session d1 1 = Some closed_session" "d_inputs d1 = d_inputs close_start" "d_tasks d1 = d_tasks close_start"
      "d_deliveries d1 = [(reply_key ''input'', command_delivery close_run res 30)]"
    using close_runs by blast
  have "world_step sample_digest d1 (given_up d1)" by (rule world_step.release [OF close_given_up [OF d1(2,3)]])
  moreover have "world_step sample_digest (given_up d1) (taken_over d1)" by (rule world_step.claim [OF close_taken_over [OF d1(1,4)]])
  ultimately have run: "(world_step sample_digest)\<^sup>*\<^sup>* d1 (taken_over d1)" by (blast intro: rtranclp.rtrancl_into_rtrancl)
  have "lock_owner ''input'' (''late'', 2) (seconds 43) (taken_over d1) = Inr
     (close_run\<lparr>in_active_since := Some (seconds 42), in_active_until := Some (seconds 60 + 30)\<rparr>,
      close_task\<lparr>t_ownership_epoch := 2, t_lease_token := Some ''late'', t_lease_owner := Some ''graph:input'',
       t_lease_expires_at := Some (seconds 60 + 30), t_attempt_count := 1\<rparr>)"
    by (simp add: lock_owner_Inr owns_True taken_over_def close_run_def sample_run_def close_task_def queued_task_def
        new_graph_task_def seconds_def)
  with execute_replays [OF first run, of "''quote2''" "(''late'', 2)" "seconds 43"]
  have "execute sample_digest ''quote2'' ''input'' (''late'', 2) 1 (seconds 43) (taken_over d1) = Inr (res, taken_over d1)" by simp
  moreover have "taken_over d1 \<noteq> d1"
  proof
    assume "taken_over d1 = d1"
    then have "map_option t_ownership_epoch (get_task (taken_over d1) 1) = map_option t_ownership_epoch (get_task close_start 1)"
      by (simp only: d1(3))
    then show False by (simp add: taken_over_def close_start_def close_task_def)
  qed
  moreover note first run
  ultimately show ?thesis by blast
qed

end
