(* ===== verification/Notify.thy ===== *)
theory Notify
  imports Command
begin

text \<open>
  \<open>backend/app/services/notification_service.py\<close> with \<open>check_object\<close>, \<open>refresh_context\<close> and the display part of
  \<open>decorate\<close> of \<open>backend/app/semantic/presentation.py\<close>: publishing a result once, the context in which the buyer sees
  an offer or drafts, and the acknowledgement of having seen it.

  The fixed Chinese sentences are written in English. \<open>compose\<close> stands for the text put together from the parsed
  intents and the reviewed reply (\<open>decorate\<close> and \<open>reviewed_reply\<close>), which reads the database and writes nothing. The
  card sent to the browser and the copy of the message for the transcript of the language model are left out.
\<close>

section \<open>The lease of a notification\<close>

definition later_than :: "time \<Rightarrow> time option \<Rightarrow> bool" where
  "later_than now t \<longleftrightarrow> (case t of None \<Rightarrow> False | Some e \<Rightarrow> now < e)"

definition notice_claim :: "string \<Rightarrow> string \<Rightarrow> time \<Rightarrow> db \<Rightarrow> exn + string option \<times> db" where
  "notice_claim source token now d =
     ebind (some_or AttributeExn (get_delivery d source)) (\<lambda>item.
     ebind (case nd_input_id item of
              None \<Rightarrow> Inr None
            | Some k \<Rightarrow> if k = [] then Inr None
                        else (case get_input d k of None \<Rightarrow> Inr None | Some run \<Rightarrow> Inr (get_task d (in_task_id run)))) (\<lambda>t.
     if nd_status item \<in> {ND_PUBLISHED, ND_MANUAL_REQUIRED} then Inr (None, d)
     else if later_than now (nd_lease_until item) \<or> later_than now (nd_next_retry_at item)
        \<or> (case t of None \<Rightarrow> False | Some x \<Rightarrow> later_than now (t_lease_expires_at x) \<and> now < nd_reply_deadline item)
     then Inr (None, d)
     else Inr (Some token,
       mod_delivery source (\<lambda>r. r\<lparr>nd_lease_token := Some token, nd_lease_until := Some (now + seconds 15),
         nd_status := ND_RUNNING, nd_attempts := nd_attempts r + 1\<rparr>) d)))"

definition mirror_notice :: "delivery \<Rightarrow> delivery_status \<Rightarrow> int \<Rightarrow> approval \<Rightarrow> approval" where
  \<comment> \<open>the approval shows the state of the notice of its present effect\<close>
  "mirror_notice item s revision a =
     (if jget (nd_result item) ''effect_revision'' = JInt revision then a\<lparr>ap_notification_status := Some s\<rparr> else a)"

definition notice_retry :: "string \<Rightarrow> string \<Rightarrow> time \<Rightarrow> db \<Rightarrow> exn + unit \<times> db" where
  "notice_retry source token now d =
     ebind (some_or AttributeExn (get_delivery d source)) (\<lambda>item.
     if nd_lease_token item \<noteq> Some token then Inl StaleOwner
     else
     let s = (if 3 \<le> nd_attempts item then ND_MANUAL_REQUIRED else ND_RETRY_WAIT);
         d1 = mod_delivery source (\<lambda>r. r\<lparr>nd_status := s,
                nd_next_retry_at := Some (now + seconds (2 ^ nat (nd_attempts item))),
                nd_lease_token := None, nd_lease_until := None\<rparr>) d
     in case nd_approval_id item of
          None \<Rightarrow> Inr ((), d1)
        | Some aid \<Rightarrow>
            ebind (some_or AttributeExn (get_approval d1 aid)) (\<lambda>a.
            Inr ((), mod_approval aid (mirror_notice item s (ap_effect_revision a)) d1)))"

section \<open>What is published\<close>

definition outcome_of :: "json \<Rightarrow> exn + string" where
  "outcome_of r = (case jget r ''outcome'' of JStr s \<Rightarrow> Inr s | _ \<Rightarrow> Inl KeyExn)"

fun jhas :: "json \<Rightarrow> string \<Rightarrow> bool" where
  "jhas (JObj kvs) k = (map_of kvs k \<noteq> None)"
| "jhas _ k = False"

fun show_session_status :: "negotiation_status \<Rightarrow> string" where
  "show_session_status ACTIVE = ''ACTIVE''"
| "show_session_status WAITING_APPROVAL = ''WAITING_APPROVAL''"
| "show_session_status AGREED = ''AGREED''"
| "show_session_status CLOSED = ''CLOSED''"

definition notice_text :: "string \<Rightarrow> string option" where
  "notice_text outcome = map_of
     [(''OFFER_ACCEPTED'', ''offer accepted, waiting for your confirmation''),
      (''WAITING_APPROVAL'', ''offer submitted, waiting for the seller''),
      (''OFFER_REJECTED'', ''offer not accepted''),
      (''COUNTER_OFFERED'', ''a counter offer was made''),
      (''INTENT_CONFIRMED'', ''intent recorded, not paid or completed''),
      (''OFFER_WITHDRAWN'', ''offer withdrawn''),
      (''SESSION_CLOSED'', ''negotiation closed''),
      (''APPROVAL_REJECTED'', ''the seller rejected the offer''),
      (''APPROVAL_INVALIDATED'', ''approval expired or offer invalid, cannot be confirmed''),
      (''OFFER_INVALIDATED'', ''the offer lost its basis'')] outcome"

definition result_offer :: "db \<Rightarrow> json \<Rightarrow> offer option" where
  "result_offer d r = (case jint (jget r ''offer_id'') of None \<Rightarrow> None | Some k \<Rightarrow> if k = 0 then None else get_offer d k)"

definition confirmable ::
    "(json \<Rightarrow> string) \<Rightarrow> db \<Rightarrow> session \<Rightarrow> product \<Rightarrow> json \<Rightarrow> string \<Rightarrow> offer option \<Rightarrow> time \<Rightarrow> exn + bool" where
  "confirmable H d n p r outcome offer now =
     (if outcome \<notin> {''OFFER_ACCEPTED'', ''COUNTER_OFFERED''} \<or> jget r ''business_version'' \<noteq> JInt (ns_version n)
         \<or> offer = None
      then Inr False
      else ebind (some_or AttributeExn (get_policy d (p_id p))) (\<lambda>pol. valid_offer H d n p pol offer now))"

definition historical :: "session \<Rightarrow> json \<Rightarrow> string \<Rightarrow> offer option \<Rightarrow> bool \<Rightarrow> time \<Rightarrow> exn + bool" where
  "historical n r outcome offer ok now =
     (case offer of
        None \<Rightarrow> Inr False
      | Some off \<Rightarrow>
          if ns_current_offer_id n \<noteq> Some (of_id off) \<or> jget r ''business_version'' \<noteq> JInt (ns_version n) then Inr True
          else case of_expires_at off of
            None \<Rightarrow> Inl TypeExn
          | Some e \<Rightarrow> Inr (e \<le> now \<or> (outcome \<in> {''OFFER_ACCEPTED'', ''COUNTER_OFFERED''} \<and> \<not> ok)))"

definition notice_content :: "session \<Rightarrow> product \<Rightarrow> json \<Rightarrow> string \<Rightarrow> bool \<Rightarrow> exn + string" where
  "notice_content n p r outcome past =
     ebind (if outcome = ''PRODUCT_INFO'' then
              Inr (case jget r ''public_answer'' of
                     JStr s \<Rightarrow> if s = [] then p_title p @ '': '' @ p_description p else s
                   | _ \<Rightarrow> p_title p @ '': '' @ p_description p)
            else Inr (case notice_text outcome of None \<Rightarrow> ''nothing was executed. '' | Some t \<Rightarrow> t)) (\<lambda>text.
     ebind (if outcome = ''NOT_EXECUTED'' then
              (if \<not> jhas r ''reason'' then Inl KeyExn
               else Inr (case jget r ''reason'' of JStr s \<Rightarrow> text @ s | _ \<Rightarrow> text))
            else Inr text) (\<lambda>text.
     Inr (if past \<and> outcome \<in> {''OFFER_ACCEPTED'', ''COUNTER_OFFERED'', ''WAITING_APPROVAL'', ''APPROVAL_REJECTED'',
                ''APPROVAL_INVALIDATED'', ''OFFER_INVALIDATED''}
          then ''past result: '' @ (case notice_text outcome of None \<Rightarrow> [] | Some t \<Rightarrow> t) @ ''; now '' @ show_session_status (ns_status n)
          else text)))"

fun draft_refs :: "db \<Rightarrow> session \<Rightarrow> time \<Rightarrow> string list \<Rightarrow> exn + (string \<times> int) list" where
  "draft_refs d n now [] = Inr []"
| "draft_refs d n now (k # ks) =
     ebind (some_or AttributeExn (get_draft d k)) (\<lambda>dr.
     ebind (draft_refs d n now ks) (\<lambda>rest.
     Inr (if usable_draft (Some dr) n now (Some (dr_version dr)) then (dr_id dr, dr_version dr) # rest else rest)))"

definition shown_drafts :: "db \<Rightarrow> input_row option \<Rightarrow> session \<Rightarrow> time \<Rightarrow> exn + (string \<times> int) list" where
  \<comment> \<open>the drafts of the plan that the card offers\<close>
  "shown_drafts d run n now =
     (case run of
        None \<Rightarrow> Inr []
      | Some r \<Rightarrow> (case tget (d_turns d) (in_id r) of None \<Rightarrow> Inr [] | Some turn \<Rightarrow> draft_refs d n now (st_draft_ids turn)))"

section \<open>Publishing\<close>

type_synonym composer = "db \<Rightarrow> input_row \<Rightarrow> session \<Rightarrow> json \<Rightarrow> string \<Rightarrow> bool \<Rightarrow> time \<Rightarrow> exn + string"

definition may_publish ::
    "string option \<Rightarrow> owner option \<Rightarrow> string option \<Rightarrow> string \<Rightarrow> time \<Rightarrow> db \<Rightarrow> exn + input_row option" where
  \<comment> \<open>the owner of the run, or the holder of the notification's lease; the run, if there is one\<close>
  "may_publish rid owner token source now d =
     (case owner of
        Some own \<Rightarrow> (case rid of
            None \<Rightarrow> Inl (Conflict ''no such run'')
          | Some k \<Rightarrow> ebind (lock_owner k own now d) (\<lambda>(run, _). Inr (Some run)))
      | None \<Rightarrow>
          if token = None \<or> token = Some [] then Inl StaleOwner
          else
          ebind (some_or AttributeExn (get_delivery d source)) (\<lambda>item.
          if nd_lease_token item \<noteq> token \<or> \<not> later_than now (nd_lease_until item) then Inl StaleOwner
          else Inr (case rid of None \<Rightarrow> None | Some k \<Rightarrow> if k = [] then None else get_input d k)))"

definition add_message :: "string \<Rightarrow> string \<Rightarrow> session \<Rightarrow> offer option \<Rightarrow> db \<Rightarrow> exn + db" where
  \<comment> \<open>the agent's message, numbered by the session\<close>
  "add_message source content n offer d =
     (let mid = d_next_message d in
      if list_ex (\<lambda>m. ms_source_id m = Some source \<or> ms_session_id m = ns_id n \<and> ms_request_id m = source)
           (trows (d_messages d)) then Inl IntegrityExn
      else
      ebind (tadd IntegrityExn mid
        \<lparr>ms_id = mid, ms_source_id = Some source, ms_public_seq = Some (ns_next_public_seq n),
         ms_session_id = ns_id n, ms_role = AGENT_MESSAGE, ms_content = content, ms_request_id = source,
         ms_request_fingerprint = None, ms_agent_outcome = None, ms_formal_offer_id = map_option of_id offer\<rparr>
        (d_messages d)) (\<lambda>ms.
      Inr (mod_session (ns_id n) (\<lambda>s. s\<lparr>ns_next_public_seq := ns_next_public_seq s + 1\<rparr>)
        (d\<lparr>d_messages := ms, d_next_message := mid + 1\<rparr>))))"

definition add_context ::
    "(json \<Rightarrow> string) \<Rightarrow> string \<Rightarrow> session \<Rightarrow> int \<Rightarrow> offer option \<Rightarrow> (string \<times> int) list \<Rightarrow> time \<Rightarrow> db \<Rightarrow> exn + db" where
  "add_context H cid n mid offer refs now d =
     ebind (case offer of None \<Rightarrow> Inr (now + minutes 30) | Some off \<Rightarrow> confirmation_expiry d off now) (\<lambda>expiry.
     ebind (tadd IntegrityExn cid
       \<lparr>pc_id = cid, pc_session_id = ns_id n, pc_buyer_id = ns_buyer_id n, pc_message_id = mid,
        pc_public_seq = ns_next_public_seq n, pc_offer_id = map_option of_id offer,
        pc_draft_refs = (if refs = [] then None else Some refs), pc_refresh_key = None,
        pc_terms_hash = (case offer of None \<Rightarrow> ''drafts-v1'' | Some off \<Rightarrow> terms_hash H off),
        pc_business_version = ns_version n, pc_expires_at = expiry\<rparr> (d_contexts d)) (\<lambda>cs.
     Inr (d\<lparr>d_contexts := cs\<rparr>)))"

definition mark_published :: "string \<Rightarrow> delivery \<Rightarrow> int \<Rightarrow> db \<Rightarrow> exn + db" where
  "mark_published source item mid d =
     (let d1 = mod_delivery source (\<lambda>r. r\<lparr>nd_status := ND_PUBLISHED, nd_public_message_id := Some mid,
                 nd_lease_token := None, nd_lease_until := None\<rparr>) d in
      if tget (d_outbox d1) source = None then Inl AttributeExn
      else
      let d2 = mod_outbox source (\<lambda>r. r\<lparr>ob_status := OB_DELIVERED\<rparr>) d1 in
      case nd_approval_id item of
        None \<Rightarrow> Inr d2
      | Some aid \<Rightarrow>
          ebind (some_or AttributeExn (get_approval d2 aid)) (\<lambda>a.
          Inr (mod_approval aid (mirror_notice item ND_PUBLISHED (ap_effect_revision a)) d2)))"

definition publish_result ::
    "(json \<Rightarrow> string) \<Rightarrow> composer \<Rightarrow> string \<times> string \<Rightarrow> string \<Rightarrow> input_row option \<Rightarrow> session \<Rightarrow> product \<Rightarrow>
     delivery \<Rightarrow> time \<Rightarrow> db \<Rightarrow> exn + int \<times> db" where
  \<comment> \<open>a result that is not public yet\<close>
  "publish_result H compose cids source run n p item now d =
     (let r = nd_result item; offer = result_offer d r in
      ebind (outcome_of r) (\<lambda>outcome.
      ebind (confirmable H d n p r outcome offer now) (\<lambda>ok.
      ebind (historical n r outcome offer ok now) (\<lambda>past.
      ebind (notice_content n p r outcome past) (\<lambda>base.
      ebind (shown_drafts d run n now) (\<lambda>refs.
      ebind (case run of None \<Rightarrow> Inr base | Some x \<Rightarrow> compose d x n r base past now) (\<lambda>content.
      let cid = (if ok then Some (fst cids) else if refs \<noteq> [] \<and> offer = None then Some (snd cids) else None);
          mid = d_next_message d
      in
      ebind (add_message source content n offer d) (\<lambda>d1.
      ebind (published_event run mid d1) (\<lambda>d2.
      ebind (case cid of None \<Rightarrow> Inr d2 | Some c \<Rightarrow> add_context H c n mid offer refs now d2) (\<lambda>d3.
      ebind (mark_published source item mid d3) (\<lambda>d4.
      Inr (mid, d4))))))))))))"

definition publish ::
    "(json \<Rightarrow> string) \<Rightarrow> composer \<Rightarrow> string \<times> string \<Rightarrow> string option \<Rightarrow> owner option \<Rightarrow> string option \<Rightarrow>
     string option \<Rightarrow> time \<Rightarrow> db \<Rightarrow> exn + int option \<times> db" where
  \<comment> \<open>\<open>cids\<close>: fresh identifiers of a context for an offer and for drafts\<close>
  "publish H compose cids rid owner token src now d =
     (let source = (case src of None \<Rightarrow> reply_key (case rid of None \<Rightarrow> ''None'' | Some k \<Rightarrow> k)
                    | Some s \<Rightarrow> if s = [] then reply_key (case rid of None \<Rightarrow> ''None'' | Some k \<Rightarrow> k) else s) in
      ebind (may_publish rid owner token source now d) (\<lambda>run.
      ebind (case run of
               Some x \<Rightarrow> Inr (Some (in_session_id x))
             | None \<Rightarrow> (case get_delivery d source of None \<Rightarrow> Inl AttributeExn | Some item \<Rightarrow> Inr (nd_session_id item))) (\<lambda>sid.
      ebind (some_or AttributeExn (case sid of None \<Rightarrow> None | Some k \<Rightarrow> get_session d k)) (\<lambda>n.
      ebind (some_or AttributeExn (get_product d (ns_product_id n))) (\<lambda>p.
      ebind (some_or AttributeExn (get_delivery d source)) (\<lambda>item.
      if nd_status item = ND_PUBLISHED then Inr (nd_public_message_id item, d)
      else
      ebind (publish_result H compose cids source run n p item now d) (\<lambda>(mid, d').
      Inr (Some mid, d'))))))))"

section \<open>What the buyer has seen\<close>

definition live_refs :: "db \<Rightarrow> session \<Rightarrow> time \<Rightarrow> (string \<times> int) list \<Rightarrow> bool" where
  "live_refs d n now refs \<longleftrightarrow> list_all (\<lambda>(k, v). usable_draft (get_draft d k) n now (Some v)) refs"

definition check_object :: "(json \<Rightarrow> string) \<Rightarrow> db \<Rightarrow> display_context \<Rightarrow> session \<Rightarrow> time \<Rightarrow> exn + time" where
  \<comment> \<open>the object of a context is still what was shown; until when\<close>
  "check_object H d c n now =
     (if pc_business_version c \<noteq> ns_version n then Inl (Conflict ''business version changed'')
      else case pc_offer_id c of
        Some k \<Rightarrow>
          ebind (some_or AttributeExn (get_product d (ns_product_id n))) (\<lambda>p.
          ebind (case get_offer d k of
                   None \<Rightarrow> Inr False
                 | Some off \<Rightarrow> ebind (some_or AttributeExn (get_policy d (p_id p))) (\<lambda>pol.
                     valid_offer H d n p pol (Some off) now)) (\<lambda>ok.
          case get_offer d k of
            None \<Rightarrow> Inl (Conflict ''offer or its basis no longer valid'')
          | Some off \<Rightarrow> if \<not> ok \<or> terms_hash H off \<noteq> pc_terms_hash c
                        then Inl (Conflict ''offer or its basis no longer valid'')
                        else confirmation_expiry d off now))
      | None \<Rightarrow>
          (case pc_draft_refs c of
             None \<Rightarrow> Inl (Conflict ''draft no longer usable'')
           | Some [] \<Rightarrow> Inl (Conflict ''draft no longer usable'')
           | Some (r # rs) \<Rightarrow>
               if \<not> live_refs d n now (r # rs) then Inl (Conflict ''draft no longer usable'')
               else Inr (Min (set (map dr_expires_at (List.map_filter (\<lambda>(k, v). get_draft d k) (r # rs)))))))"

definition display_body ::
    "(json \<Rightarrow> string) \<Rightarrow> string \<Rightarrow> int \<Rightarrow> string \<Rightarrow> string \<Rightarrow> string \<Rightarrow> string \<Rightarrow> time \<times> time \<times> time \<Rightarrow> db \<Rightarrow> exn + string \<times> db" where
  "display_body H ack sid buyer cid view request clock d =
     (let (now1, now2, now3) = clock in
      ebind (owned_session d sid buyer) (\<lambda>n.
      case find (\<lambda>a. da_buyer_id a = buyer \<and> da_client_view_id a = view \<and> da_request_id a = request) (trows (d_acks d)) of
        Some old \<Rightarrow> if da_context_id old \<noteq> cid then Inl (Conflict ''another context under this request'') else Inr (da_id old, d)
      | None \<Rightarrow>
      (case tget (d_contexts d) cid of
         None \<Rightarrow> Inl (Conflict ''context not usable'')
       | Some c \<Rightarrow>
           if pc_session_id c \<noteq> sid \<or> pc_buyer_id c \<noteq> buyer \<or> pc_expires_at c \<le> now1 \<or> pc_business_version c \<noteq> ns_version n
           then Inl (Conflict ''context not usable'')
           else
           ebind (check_object H d c n now2) (\<lambda>_.
           ebind (tadd IntegrityExn ack
             \<lparr>da_id = ack, da_context_id = cid, da_buyer_id = buyer, da_client_view_id = view, da_request_id = request,
              da_displayed_at = now3\<rparr> (d_acks d)) (\<lambda>as.
           Inr (ack, d\<lparr>d_acks := as\<rparr>))))))"

definition display ::
    "(json \<Rightarrow> string) \<Rightarrow> string \<Rightarrow> int \<Rightarrow> string \<Rightarrow> string \<Rightarrow> string \<Rightarrow> string \<Rightarrow> time \<times> time \<times> time \<Rightarrow> db \<Rightarrow> exn + string \<times> db" where
  "display H ack sid buyer cid view request clock d =
     (if view = [] \<or> request = [] \<or> 64 < length view \<or> 64 < length request
      then Inl (Conflict ''invalid display request'')
      else display_body H ack sid buyer cid view request clock d)"

definition refresh_context ::
    "(json \<Rightarrow> string) \<Rightarrow> string \<Rightarrow> int \<Rightarrow> string \<Rightarrow> string \<Rightarrow> string \<Rightarrow> time \<Rightarrow> db \<Rightarrow> exn + (string \<times> time) \<times> db" where
  \<comment> \<open>\<open>fresh\<close>: the identifier of the new context\<close>
  "refresh_context H fresh sid buyer cid request now d =
     ebind (owned_session d sid buyer) (\<lambda>n.
     case tget (d_contexts d) cid of
       None \<Rightarrow> Inl (Conflict ''no such context'')
     | Some c \<Rightarrow>
         if pc_session_id c \<noteq> sid \<or> pc_buyer_id c \<noteq> buyer then Inl (Conflict ''no such context'')
         else
         ebind (check_object H d c n now) (\<lambda>expiry.
         let key = H (JArr [JInt sid, JStr buyer, JStr request]) in
         case find (\<lambda>x. pc_refresh_key x = Some key) (trows (d_contexts d)) of
           Some old \<Rightarrow>
             if pc_message_id old \<noteq> pc_message_id c \<or> pc_offer_id old \<noteq> pc_offer_id c \<or> pc_draft_refs old \<noteq> pc_draft_refs c
             then Inl (Conflict ''another context under this request'')
             else Inr ((pc_id old, pc_expires_at old), d)
         | None \<Rightarrow>
             let x = c\<lparr>pc_id := fresh, pc_expires_at := min expiry (now + minutes 30), pc_refresh_key := Some key\<rparr> in
             ebind (tadd IntegrityExn fresh x (d_contexts d)) (\<lambda>cs.
             Inr ((fresh, pc_expires_at x), d\<lparr>d_contexts := cs\<rparr>))))"

end
