(* ===== verification/Notify_Spec.thy ===== *)
theory Notify_Spec
  imports Notify Graph_Approval_Spec
begin

text \<open>
  What publication guarantees: a result becomes public once, under the next public number of its negotiation, by
  the owner of the run or the holder of the notification's lease; an offer can be confirmed from a context only
  while it is valid, and an acknowledgement is given only for an object that is still the one shown.
\<close>

section \<open>The lease of a notification\<close>

definition holds_notice :: "string \<Rightarrow> db \<Rightarrow> string \<Rightarrow> time \<Rightarrow> bool" where
  "holds_notice source d p t \<longleftrightarrow>
     (\<exists>r. get_delivery d source = Some r \<and> nd_lease_token r = Some p \<and> later_than t (nd_lease_until r))"

definition claim_notice :: "string \<Rightarrow> db \<Rightarrow> string \<Rightarrow> time \<Rightarrow> (string \<times> db) option" where
  "claim_notice source d token t = (case notice_claim source token t d of Inr (Some p, d') \<Rightarrow> Some (p, d') | _ \<Rightarrow> None)"

lemma notice_claim_cases:
  assumes step: "notice_claim source token now d = Inr (r, d')"
  obtains (declined) "r = None" and "d' = d"
  | (granted) x where "get_delivery d source = Some x" and "nd_status x \<noteq> ND_PUBLISHED" and "nd_status x \<noteq> ND_MANUAL_REQUIRED"
      and "\<not> later_than now (nd_lease_until x)" and "\<not> later_than now (nd_next_retry_at x)" and "r = Some token"
      and "d' = mod_delivery source (\<lambda>r. r\<lparr>nd_lease_token := Some token, nd_lease_until := Some (now + seconds 15),
         nd_status := ND_RUNNING, nd_attempts := nd_attempts r + 1\<rparr>) d"
proof -
  obtain x and t :: "task option" where x: "get_delivery d source = Some x"
    and rest: "(if nd_status x \<in> {ND_PUBLISHED, ND_MANUAL_REQUIRED} then Inr (None, d)
     else if later_than now (nd_lease_until x) \<or> later_than now (nd_next_retry_at x)
        \<or> (case t of None \<Rightarrow> False | Some x' \<Rightarrow> later_than now (t_lease_expires_at x') \<and> now < nd_reply_deadline x)
     then Inr (None, d)
     else Inr (Some token,
       mod_delivery source (\<lambda>r. r\<lparr>nd_lease_token := Some token, nd_lease_until := Some (now + seconds 15),
         nd_status := ND_RUNNING, nd_attempts := nd_attempts r + 1\<rparr>) d)) = (Inr (r, d') :: exn + string option \<times> db)"
    using step unfolding notice_claim_def by (elim ebind_InrE some_or_InrE)
  from rest show thesis
    by (cases "d' = d \<and> r = None") (auto intro: declined granted [OF x] split: if_splits)
qed

lemma claim_notice_cases:
  assumes "claim_notice source d k t = Some (p, d')"
  obtains x where "get_delivery d source = Some x" and "\<not> later_than t (nd_lease_until x)" and "p = k"
    and "get_delivery d' source = Some (x\<lparr>nd_lease_token := Some k, nd_lease_until := Some (t + seconds 15),
         nd_status := ND_RUNNING, nd_attempts := nd_attempts x + 1\<rparr>)"
proof -
  have "notice_claim source k t d = Inr (Some p, d')"
    using assms by (auto simp: claim_notice_def split: sum.splits prod.splits option.splits)
  then show thesis by (cases rule: notice_claim_cases) (auto intro: that)
qed

interpretation notice: exclusive_lease "holds_notice source" "claim_notice source" for source
proof unfold_locales
  show "p = q" if "holds_notice source d p t" "holds_notice source d q t'" for d p t q t'
    using that by (auto simp: holds_notice_def)
  show "holds_notice source d p t'" if "holds_notice source d p t" "t' \<le> t" for d p t t'
    using that by (fastforce simp: holds_notice_def later_than_def split: option.splits)
  show "claim_notice source d k t = None" if "holds_notice source d p t" for d p t k
  proof (rule ccontr)
    assume "claim_notice source d k t \<noteq> None"
    then obtain q d' where "claim_notice source d k t = Some (q, d')" by auto
    then show False by (rule claim_notice_cases) (use that in \<open>auto simp: holds_notice_def\<close>)
  qed
  show "q = p" if "claim_notice source d k t = Some (p, d')" "holds_notice source d' q t'" for d k t p d' q t'
    using that(1) by (rule claim_notice_cases) (use that(2) in \<open>auto simp: holds_notice_def\<close>)
qed

section \<open>Publishing one result\<close>

lemma may_publish_cases:
  assumes "may_publish rid owner token source now d = Inr run"
  obtains (by_owner) own k r t where "owner = Some own" and "rid = Some k" and "lock_owner k own now d = Inr (r, t)" and "run = Some r"
  | (by_lease) p where "owner = None" and "token = Some p" and "holds_notice source d p now"
      and "run = (case rid of None \<Rightarrow> None | Some k \<Rightarrow> if k = [] then None else get_input d k)"
proof (cases owner)
  case (Some own)
  with assms obtain k where k: "rid = Some k" by (auto simp: may_publish_def split: option.splits)
  with assms Some obtain r t where "lock_owner k own now d = Inr (r, t)" "run = Some r"
    unfolding may_publish_def by simp (elim ebind_InrE prod_InrE, simp)
  with Some k by_owner show thesis by blast
next
  case None
  with assms obtain item where i: "get_delivery d source = Some item" "token \<noteq> None"
    and rest: "(if nd_lease_token item \<noteq> token \<or> \<not> later_than now (nd_lease_until item) then Inl StaleOwner
          else Inr (case rid of None \<Rightarrow> None | Some k \<Rightarrow> if k = [] then None else get_input d k)) = Inr run"
    unfolding may_publish_def by (simp split: if_splits) (elim ebind_InrE some_or_InrE, simp)
  from rest i None show thesis by (auto intro!: by_lease simp: holds_notice_def split: if_splits)
qed

lemma add_message_cases:
  assumes "add_message source content n offer d = Inr d'"
  shows "\<forall>k m. tget (d_messages d) k = Some m \<longrightarrow> ms_source_id m \<noteq> Some source"
    and "tget (d_messages d) (d_next_message d) = None"
    and "\<exists>m. d' = mod_session (ns_id n) (\<lambda>s. s\<lparr>ns_next_public_seq := ns_next_public_seq s + 1\<rparr>)
        (d\<lparr>d_messages := d_messages d @ [(d_next_message d, m)], d_next_message := d_next_message d + 1\<rparr>)
      \<and> ms_id m = d_next_message d \<and> ms_source_id m = Some source \<and> ms_public_seq m = Some (ns_next_public_seq n)
      \<and> ms_session_id m = ns_id n \<and> ms_content m = content"
proof -
  have no: "\<not> list_ex (\<lambda>m. ms_source_id m = Some source \<or> ms_session_id m = ns_id n \<and> ms_request_id m = source)
           (trows (d_messages d))"
    using assms by (auto simp: add_message_def Let_def split: if_splits)
  then show "\<forall>k m. tget (d_messages d) k = Some m \<longrightarrow> ms_source_id m \<noteq> Some source"
    by (auto simp: list_ex_iff dest: tget_in_trows)
  show "tget (d_messages d) (d_next_message d) = None"
    and "\<exists>m. d' = mod_session (ns_id n) (\<lambda>s. s\<lparr>ns_next_public_seq := ns_next_public_seq s + 1\<rparr>)
        (d\<lparr>d_messages := d_messages d @ [(d_next_message d, m)], d_next_message := d_next_message d + 1\<rparr>)
      \<and> ms_id m = d_next_message d \<and> ms_source_id m = Some source \<and> ms_public_seq m = Some (ns_next_public_seq n)
      \<and> ms_session_id m = ns_id n \<and> ms_content m = content"
    using assms no by (auto simp: add_message_def Let_def ebind_eq_Inr tadd_eq_Inr)
qed

lemma published_event_cases:
  assumes "published_event run mid d = Inr d'"
  shows "\<exists>ev. d' = d\<lparr>d_causal := ev\<rparr>"
proof -
  have "d' = d \<or> (\<exists>a e. append_event a 4 e d = Inr d')"
    using assms unfolding published_event_def Let_def by (auto split: option.splits)
  moreover have "d = d\<lparr>d_causal := d_causal d\<rparr>" by simp
  ultimately show ?thesis by (metis append_event_Inr)
qed

lemma add_context_cases:
  assumes "add_context H cid n mid offer refs now d = Inr d'"
  obtains c where "tget (d_contexts d) cid = None" and "d' = d\<lparr>d_contexts := d_contexts d @ [(cid, c)]\<rparr>"
    and "pc_session_id c = ns_id n" and "pc_buyer_id c = ns_buyer_id n" and "pc_message_id c = mid"
    and "pc_public_seq c = ns_next_public_seq n" and "pc_business_version c = ns_version n"
    and "pc_offer_id c = map_option of_id offer"
    and "\<forall>off. offer = Some off \<longrightarrow> pc_terms_hash c = terms_hash H off \<and> confirmation_expiry d off now = Inr (pc_expires_at c)"
    and "offer = None \<longrightarrow> pc_expires_at c = now + minutes 30 \<and> pc_draft_refs c = (if refs = [] then None else Some refs)"
proof -
  obtain expiry where e: "(case offer of None \<Rightarrow> Inr (now + minutes 30) | Some off \<Rightarrow> confirmation_expiry d off now) = (Inr expiry :: exn + time)"
    and rest: "tadd IntegrityExn cid
       \<lparr>pc_id = cid, pc_session_id = ns_id n, pc_buyer_id = ns_buyer_id n, pc_message_id = mid,
        pc_public_seq = ns_next_public_seq n, pc_offer_id = map_option of_id offer,
        pc_draft_refs = (if refs = [] then None else Some refs), pc_refresh_key = None,
        pc_terms_hash = (case offer of None \<Rightarrow> ''drafts-v1'' | Some off \<Rightarrow> terms_hash H off),
        pc_business_version = ns_version n, pc_expires_at = expiry\<rparr> (d_contexts d) = Inr (d_contexts d')" and d': "d' = d\<lparr>d_contexts := d_contexts d'\<rparr>"
    using assms unfolding add_context_def by (elim ebind_InrE) auto
  define c where "c = \<lparr>pc_id = cid, pc_session_id = ns_id n, pc_buyer_id = ns_buyer_id n, pc_message_id = mid,
        pc_public_seq = ns_next_public_seq n, pc_offer_id = map_option of_id offer,
        pc_draft_refs = (if refs = [] then None else Some refs), pc_refresh_key = None,
        pc_terms_hash = (case offer of None \<Rightarrow> ''drafts-v1'' | Some off \<Rightarrow> terms_hash H off),
        pc_business_version = ns_version n, pc_expires_at = expiry\<rparr>"
  have cs: "tget (d_contexts d) cid = None" "d_contexts d' = d_contexts d @ [(cid, c)]"
    using rest unfolding c_def [symmetric] by (simp_all add: tadd_eq_Inr)
  show thesis
  proof (rule that [OF cs(1)])
    show "d' = d\<lparr>d_contexts := d_contexts d @ [(cid, c)]\<rparr>" using d' cs(2) by simp
  qed (use e in \<open>auto simp: c_def\<close>)
qed

definition notice_shown :: "string \<Rightarrow> int \<Rightarrow> db \<Rightarrow> bool" where
  "notice_shown source mid d \<longleftrightarrow> (\<exists>r. get_delivery d source = Some r \<and> nd_status r = ND_PUBLISHED
     \<and> nd_public_message_id r = Some mid \<and> nd_lease_token r = None)
   \<and> (\<exists>e. tget (d_outbox d) source = Some e \<and> ob_status e = OB_DELIVERED)"

definition approvals_mirrored :: "db \<Rightarrow> db \<Rightarrow> bool" where
  \<comment> \<open>at most the state of a notice differs\<close>
  "approvals_mirrored d d' \<longleftrightarrow> d_approvals d' = d_approvals d
     \<or> (\<exists>aid item s i. d_approvals d' = tmod aid (mirror_notice item s i) (d_approvals d))"

lemma mark_published_cases:
  assumes step: "mark_published source item mid d = Inr d'" and item: "get_delivery d source = Some item"
  shows "notice_shown source mid d'"
    and "\<exists>os ap. d' = d\<lparr>d_deliveries := tmod source (\<lambda>r. r\<lparr>nd_status := ND_PUBLISHED, nd_public_message_id := Some mid,
           nd_lease_token := None, nd_lease_until := None\<rparr>) (d_deliveries d), d_outbox := os, d_approvals := ap\<rparr>"
    and "approvals_mirrored d d'"
proof -
  define d1 where "d1 = mod_outbox source (\<lambda>r. r\<lparr>ob_status := OB_DELIVERED\<rparr>) (mod_delivery source (\<lambda>r. r\<lparr>nd_status := ND_PUBLISHED,
     nd_public_message_id := Some mid, nd_lease_token := None, nd_lease_until := None\<rparr>) d)"
  obtain e where e: "tget (d_outbox d) source = Some e"
    and rest: "(case nd_approval_id item of None \<Rightarrow> Inr d1
      | Some aid \<Rightarrow> ebind (some_or AttributeExn (get_approval d1 aid)) (\<lambda>a.
          Inr (mod_approval aid (mirror_notice item ND_PUBLISHED (ap_effect_revision a)) d1))) = Inr d'"
    using step unfolding mark_published_def Let_def d1_def by (auto split: if_splits)
  have "d' = d1 \<or> (\<exists>aid i. d' = mod_approval aid (mirror_notice item ND_PUBLISHED i) d1)"
    using rest by (auto simp: ebind_eq_Inr split: option.splits)
  then have d': "(d_approvals d' = d_approvals d1 \<or> (\<exists>aid i. d_approvals d' = tmod aid (mirror_notice item ND_PUBLISHED i) (d_approvals d1)))
      \<and> d' = d1\<lparr>d_approvals := d_approvals d'\<rparr>"
  proof (elim disjE exE)
    fix aid i assume "d' = mod_approval aid (mirror_notice item ND_PUBLISHED i) d1"
    moreover from this have "d_approvals d' = tmod aid (mirror_notice item ND_PUBLISHED i) (d_approvals d1)" by simp
    ultimately show ?thesis by (intro conjI disjI2 exI) simp_all
  qed simp
  note d' = conjunct1 [OF d'] conjunct2 [OF d']
  have "get_delivery d' source = get_delivery d1 source" "tget (d_outbox d') source = tget (d_outbox d1) source"
    by (subst d'(2), simp)+
  then show "notice_shown source mid d'" using item e by (simp add: notice_shown_def d1_def)
  show "approvals_mirrored d d'" using d'(1) unfolding approvals_mirrored_def d1_def by auto
  show "\<exists>os ap. d' = d\<lparr>d_deliveries := tmod source (\<lambda>r. r\<lparr>nd_status := ND_PUBLISHED, nd_public_message_id := Some mid,
           nd_lease_token := None, nd_lease_until := None\<rparr>) (d_deliveries d), d_outbox := os, d_approvals := ap\<rparr>"
    by (intro exI [of _ "tmod source (\<lambda>r. r\<lparr>ob_status := OB_DELIVERED\<rparr>) (d_outbox d)"] exI [of _ "d_approvals d'"],
        subst d'(2), simp add: d1_def)
qed

lemma mirrored_later: "graph_later a (mirror_notice item s i a)"
  by (simp add: mirror_notice_def graph_later_def)

lemma mirrored_keeps:
  assumes inv: "graph_inv d" and "approvals_mirrored d d'"
    and "d_offers d' = d_offers d" and "d_next_offer d' = d_next_offer d"
    and "d_next_session d' = d_next_session d" and "d_next_approval d' = d_next_approval d"
    and "d_inputs d' = d_inputs d" and "d_tasks d' = d_tasks d" and "d_executions d' = d_executions d"
    and "d_sessions d' = d_sessions d"
  shows "graph_keeps d d'"
proof -
  have later: "approvals_later d d'" using assms(2) unfolding approvals_mirrored_def
    by (auto intro: approvals_later_same approvals_later_mod mirrored_later)
  have "ap_id (mirror_notice item s i a) = ap_id a" for item s i a by (simp add: mirror_notice_def)
  then have "d_approvals d' = d_approvals d \<or> (\<exists>k f. d_approvals d' = tmod k f (d_approvals d) \<and> (\<forall>a. ap_id (f a) = ap_id a))"
    using assms(2) unfolding approvals_mirrored_def by blast
  then have "graph_inv d'" by (intro graph_inv_approvals [OF inv]) (use assms in simp_all)
  moreover have "view d' = view d" by (rule view_same) (use assms in simp_all)
  ultimately show ?thesis using later assms by (simp add: graph_keeps_def)
qed

definition context_issued ::
    "(json \<Rightarrow> string) \<Rightarrow> db \<Rightarrow> session \<Rightarrow> product \<Rightarrow> json \<Rightarrow> time \<Rightarrow> int \<Rightarrow> display_context \<Rightarrow> bool" where
  \<comment> \<open>a context for the buyer of the negotiation: an offer that is valid now, or drafts\<close>
  "context_issued H d n p r now mid c \<longleftrightarrow>
     pc_session_id c = ns_id n \<and> pc_buyer_id c = ns_buyer_id n \<and> pc_message_id c = mid
     \<and> pc_public_seq c = ns_next_public_seq n \<and> pc_business_version c = ns_version n \<and> pc_expires_at c \<le> now + minutes 30
     \<and> (case pc_offer_id c of
          None \<Rightarrow> pc_draft_refs c \<noteq> None \<and> pc_draft_refs c \<noteq> Some []
        | Some k \<Rightarrow> jget r ''business_version'' = JInt (ns_version n)
            \<and> (\<exists>off pol e. result_offer d r = Some off \<and> of_id off = k \<and> get_policy d (p_id p) = Some pol
                 \<and> valid_offer H d n p pol (Some off) now = Inr True \<and> pc_terms_hash c = terms_hash H off
                 \<and> of_expires_at off = Some e \<and> pc_expires_at c \<le> e))"

lemma confirmation_expiry_bounds:
  assumes "confirmation_expiry d off now = Inr t"
  shows "t \<le> now + minutes 30 \<and> (\<exists>e. of_expires_at off = Some e \<and> t \<le> e)"
  using assms by (auto simp: confirmation_expiry_def Let_def split: option.splits)

lemma confirmable_True:
  assumes "confirmable H d n p r outcome offer now = Inr True"
  obtains off pol where "offer = Some off" and "jget r ''business_version'' = JInt (ns_version n)"
    and "get_policy d (p_id p) = Some pol" and "valid_offer H d n p pol (Some off) now = Inr True"
proof -
  from assms have g: "jget r ''business_version'' = JInt (ns_version n)" "offer \<noteq> None"
    and rest: "ebind (some_or AttributeExn (get_policy d (p_id p))) (\<lambda>pol. valid_offer H d n p pol offer now) = Inr True"
    unfolding confirmable_def by (simp_all split: if_splits)
  from g(2) obtain off where "offer = Some off" by blast
  moreover from rest obtain pol where "get_policy d (p_id p) = Some pol" "valid_offer H d n p pol offer now = Inr True"
    by (elim ebind_InrE some_or_InrE)
  ultimately show thesis using that g(1) by blast
qed

definition message_added :: "string \<Rightarrow> session \<Rightarrow> int \<Rightarrow> db \<Rightarrow> db \<Rightarrow> bool" where
  "message_added source n mid d d' \<longleftrightarrow>
     mid = d_next_message d \<and> tget (d_messages d) mid = None
     \<and> (\<forall>k m. tget (d_messages d) k = Some m \<longrightarrow> ms_source_id m \<noteq> Some source)
     \<and> (\<exists>m. d_messages d' = d_messages d @ [(mid, m)] \<and> ms_id m = mid \<and> ms_source_id m = Some source
          \<and> ms_public_seq m = Some (ns_next_public_seq n) \<and> ms_session_id m = ns_id n)
     \<and> d_next_message d' = mid + 1
     \<and> d_sessions d' = tmod (ns_id n) (\<lambda>s. s\<lparr>ns_next_public_seq := ns_next_public_seq s + 1\<rparr>) (d_sessions d)
     \<and> d_deliveries d' = tmod source (\<lambda>r. r\<lparr>nd_status := ND_PUBLISHED, nd_public_message_id := Some mid,
           nd_lease_token := None, nd_lease_until := None\<rparr>) (d_deliveries d)
     \<and> d_acks d' = d_acks d"

lemma publish_result_effect:
  assumes step: "publish_result H compose cids source run n p item now d = Inr (mid, d')"
    and inv: "graph_inv d" and item: "get_delivery d source = Some item"
  shows "message_added source n mid d d' \<and> notice_shown source mid d' \<and> graph_keeps d d'
    \<and> (d_contexts d' = d_contexts d \<or> (\<exists>cid c. tget (d_contexts d) cid = None
         \<and> d_contexts d' = d_contexts d @ [(cid, c)] \<and> context_issued H d n p (nd_result item) now mid c))"
proof -
  let ?r = "nd_result item"
  let ?offer = "result_offer d ?r"
  obtain outcome ok refs content d1 d2 d3 where
    ok: "confirmable H d n p ?r outcome ?offer now = Inr ok" and refs: "shown_drafts d run n now = Inr refs"
    and d1: "add_message source content n ?offer d = Inr d1" and d2: "published_event run (d_next_message d) d1 = Inr d2"
    and d3: "(case (if ok then Some (fst cids) else if refs \<noteq> [] \<and> ?offer = None then Some (snd cids) else None) of
           None \<Rightarrow> Inr d2 | Some c \<Rightarrow> add_context H c n (d_next_message d) ?offer refs now d2) = Inr d3"
    and d4: "mark_published source item (d_next_message d) d3 = Inr d'" and mid: "mid = d_next_message d"
    using step unfolding publish_result_def Let_def by (elim ebind_InrE Inr_pairE) (rule that; simp)
  let ?m1 = "\<lambda>d0 m. mod_session (ns_id n) (\<lambda>s. s\<lparr>ns_next_public_seq := ns_next_public_seq s + 1\<rparr>)
        (d0\<lparr>d_messages := d_messages d0 @ [(d_next_message d0, m)], d_next_message := d_next_message d0 + 1\<rparr>)"
  obtain m where d1': "d1 = ?m1 d m" and m: "ms_id m = d_next_message d" "ms_source_id m = Some source"
    "ms_public_seq m = Some (ns_next_public_seq n)" "ms_session_id m = ns_id n"
    using add_message_cases(3) [OF d1] by blast
  obtain ev where d2': "d2 = d1\<lparr>d_causal := ev\<rparr>" using published_event_cases [OF d2] by blast
  have ctx: "\<exists>cs. d3 = d2\<lparr>d_contexts := cs\<rparr> \<and> (cs = d_contexts d \<or> (\<exists>cid c. tget (d_contexts d) cid = None
         \<and> cs = d_contexts d @ [(cid, c)] \<and> context_issued H d n p ?r now mid c))"
  proof (cases "if ok then Some (fst cids) else if refs \<noteq> [] \<and> ?offer = None then Some (snd cids) else None")
    case None
    then have "d3 = d2" using d3 by simp
    moreover have "d2 = d2\<lparr>d_contexts := d_contexts d\<rparr>" by (simp add: d2' d1')
    ultimately show ?thesis by blast
  next
    case (Some cid)
    with d3 have "add_context H cid n (d_next_message d) ?offer refs now d2 = Inr d3" by simp
    then show ?thesis
    proof (cases rule: add_context_cases)
      case (1 c)
      have "context_issued H d n p ?r now mid c"
      proof (cases ok)
        case True
        with ok obtain off pol where v: "?offer = Some off" "jget ?r ''business_version'' = JInt (ns_version n)"
          "get_policy d (p_id p) = Some pol" "valid_offer H d n p pol (Some off) now = Inr True"
          by (auto elim: confirmable_True)
        with 1 have "pc_terms_hash c = terms_hash H off" "confirmation_expiry d2 off now = Inr (pc_expires_at c)" by auto
        with confirmation_expiry_bounds [OF this(2)] v 1 mid show ?thesis
          unfolding context_issued_def by auto
      next
        case False
        with Some have "refs \<noteq> []" "?offer = None" by (auto split: if_splits)
        with 1 mid show ?thesis unfolding context_issued_def by simp
      qed
      with 1(1,2) show ?thesis by (auto simp: d2' d1')
    qed
  qed
  then obtain cs where d3': "d3 = d2\<lparr>d_contexts := cs\<rparr>" and cs: "cs = d_contexts d \<or> (\<exists>cid c. tget (d_contexts d) cid = None
         \<and> cs = d_contexts d @ [(cid, c)] \<and> context_issued H d n p ?r now mid c)" by blast
  have item3: "get_delivery d3 source = Some item" using item by (simp add: d3' d2' d1')
  note mk = mark_published_cases [OF d4 item3]
  obtain os ap where d': "d' = d3\<lparr>d_deliveries := tmod source (\<lambda>r. r\<lparr>nd_status := ND_PUBLISHED, nd_public_message_id := Some (d_next_message d),
           nd_lease_token := None, nd_lease_until := None\<rparr>) (d_deliveries d3), d_outbox := os, d_approvals := ap\<rparr>"
    using mk(2) by blast
  have k1: "graph_keeps d (mod_session (ns_id n) (\<lambda>s. s\<lparr>ns_next_public_seq := ns_next_public_seq s + 1\<rparr>) d)"
    by (rule graph_keeps_session [OF inv]) simp_all
  then have i1: "graph_inv (mod_session (ns_id n) (\<lambda>s. s\<lparr>ns_next_public_seq := ns_next_public_seq s + 1\<rparr>) d)"
    by (simp add: graph_keeps_def)
  have "graph_keeps (mod_session (ns_id n) (\<lambda>s. s\<lparr>ns_next_public_seq := ns_next_public_seq s + 1\<rparr>) d) d'"
    by (rule mirrored_keeps [OF i1]) (use mk(3) in \<open>simp_all add: approvals_mirrored_def d' d3' d2' d1'\<close>)
  with k1 have "graph_keeps d d'" using graph_keeps_trans by blast
  moreover have "message_added source n mid d d'"
    unfolding message_added_def using mid m add_message_cases(1,2) [OF d1] by (simp add: d' d3' d2' d1')
  moreover have "d_contexts d' = cs" by (simp add: d' d3')
  ultimately show ?thesis using mk(1) cs mid by blast
qed

definition notice_key_of :: "string option \<Rightarrow> string option \<Rightarrow> string" where
  \<comment> \<open>the source that is published\<close>
  "notice_key_of rid src =
     (case src of None \<Rightarrow> reply_key (case rid of None \<Rightarrow> ''None'' | Some k \<Rightarrow> k)
      | Some s \<Rightarrow> if s = [] then reply_key (case rid of None \<Rightarrow> ''None'' | Some k \<Rightarrow> k) else s)"

lemma publish_cases:
  assumes step: "publish H compose cids rid owner token src now d = Inr (res, d')" and inv: "graph_inv d"
  obtains (already) item where "get_delivery d (notice_key_of rid src) = Some item" and "nd_status item = ND_PUBLISHED"
      and "res = nd_public_message_id item" and "d' = d"
  | (fresh) run n p item mid where "may_publish rid owner token (notice_key_of rid src) now d = Inr run"
      and "get_session d (ns_id n) = Some n" and "get_product d (ns_product_id n) = Some p"
      and "get_delivery d (notice_key_of rid src) = Some item" and "nd_status item \<noteq> ND_PUBLISHED"
      and "case run of Some x \<Rightarrow> ns_id n = in_session_id x | None \<Rightarrow> nd_session_id item = Some (ns_id n)"
      and "publish_result H compose cids (notice_key_of rid src) run n p item now d = Inr (mid, d')" and "res = Some mid"
proof -
  let ?s = "notice_key_of rid src"
  obtain run sid n p item where run: "may_publish rid owner token ?s now d = Inr run"
    and sid: "(case run of Some x \<Rightarrow> Inr (Some (in_session_id x))
             | None \<Rightarrow> (case get_delivery d ?s of None \<Rightarrow> Inl AttributeExn | Some item \<Rightarrow> Inr (nd_session_id item))) = Inr sid"
    and n: "(case sid of None \<Rightarrow> None | Some k \<Rightarrow> get_session d k) = Some n"
    and p: "get_product d (ns_product_id n) = Some p" and item: "get_delivery d ?s = Some item"
    and rest: "(if nd_status item = ND_PUBLISHED then Inr (nd_public_message_id item, d)
      else ebind (publish_result H compose cids ?s run n p item now d) (\<lambda>(mid, d'). Inr (Some mid, d'))) = Inr (res, d')"
    using step [unfolded publish_def Let_def, folded notice_key_of_def]
    by (elim ebind_InrE some_or_InrE) (rule that; simp)
  show thesis
  proof (cases "nd_status item = ND_PUBLISHED")
    case True
    with rest item show thesis by (intro already) auto
  next
    case False
    with rest obtain mid where r: "publish_result H compose cids ?s run n p item now d = Inr (mid, d')" "res = Some mid"
      by simp (elim ebind_InrE prod_InrE, simp)
    obtain k where k: "sid = Some k" "get_session d k = Some n" using n by (auto split: option.splits)
    then have "ns_id n = k" using inv by (auto simp: graph_inv_def offer_inv_def sessions_stored_def)
    with k sid item p run False r show thesis
      by (intro fresh [of run n p item mid]) (auto split: option.splits)
  qed
qed

text \<open>
  C19: A result becomes public once, published only by the owner of its run or the holder of the notification's unexpired lease:
  it gets the next public number of its negotiation and a message of its own, its notification is
  marked published and its event delivered, and offers, approvals and the queue stay as they are. A context in which
  the buyer may confirm an offer is issued only while the offer is valid at the version of the result, for at most 30 minutes
  and never beyond the offer's deadline. A result already public is returned unchanged.
\<close>

theorem publish_sound:
  assumes "publish H compose cids rid owner token src now d = Inr (res, d')" and "graph_inv d"
    and "source = notice_key_of rid src"
  shows "(\<exists>item. get_delivery d source = Some item \<and> nd_status item = ND_PUBLISHED \<and> res = nd_public_message_id item \<and> d' = d)
    \<or> (\<exists>run n p item mid. may_publish rid owner token source now d = Inr run \<and> get_session d (ns_id n) = Some n
        \<and> get_delivery d source = Some item \<and> nd_status item \<noteq> ND_PUBLISHED \<and> res = Some mid
        \<and> (owner = None \<longrightarrow> (\<exists>p. token = Some p \<and> holds_notice source d p now))
        \<and> (\<forall>own. owner = Some own \<longrightarrow> (\<exists>k r t. rid = Some k \<and> lock_owner k own now d = Inr (r, t)))
        \<and> message_added source n mid d d' \<and> notice_shown source mid d' \<and> graph_keeps d d'
        \<and> (d_contexts d' = d_contexts d \<or> (\<exists>cid c. tget (d_contexts d) cid = None
             \<and> d_contexts d' = d_contexts d @ [(cid, c)] \<and> context_issued H d n p (nd_result item) now mid c)))"
  using assms(1,2)
proof (cases rule: publish_cases)
  case (already item)
  then show ?thesis using assms(3) by blast
next
  case (fresh run n p item mid)
  have who: "(owner = None \<longrightarrow> (\<exists>p. token = Some p \<and> holds_notice source d p now))
      \<and> (\<forall>own. owner = Some own \<longrightarrow> (\<exists>k r t. rid = Some k \<and> lock_owner k own now d = Inr (r, t)))"
    using fresh(1) by (cases rule: may_publish_cases) (use assms(3) in auto)
  from publish_result_effect [OF fresh(7) assms(2) fresh(4)] who fresh assms(3) show ?thesis by blast
qed

section \<open>What the buyer has seen\<close>

lemma display_cases:
  assumes step: "display H ack sid buyer cid vid request clock d = Inr (res, d')"
  obtains (again) n old where "owned_session d sid buyer = Inr n"
      and "find (\<lambda>a. da_buyer_id a = buyer \<and> da_client_view_id a = vid \<and> da_request_id a = request) (trows (d_acks d)) = Some old"
      and "da_context_id old = cid" and "res = da_id old" and "d' = d"
  | (shown) n c t where "owned_session d sid buyer = Inr n"
      and "find (\<lambda>a. da_buyer_id a = buyer \<and> da_client_view_id a = vid \<and> da_request_id a = request) (trows (d_acks d)) = None"
      and "tget (d_contexts d) cid = Some c" and "pc_session_id c = sid" and "pc_buyer_id c = buyer"
      and "fst clock < pc_expires_at c" and "pc_business_version c = ns_version n"
      and "check_object H d c n (fst (snd clock)) = Inr t" and "tget (d_acks d) ack = None" and "res = ack"
      and "d' = d\<lparr>d_acks := d_acks d @ [(ack, \<lparr>da_id = ack, da_context_id = cid, da_buyer_id = buyer,
             da_client_view_id = vid, da_request_id = request, da_displayed_at = snd (snd clock)\<rparr>)]\<rparr>"
proof -
  obtain now1 now2 now3 where clock: "clock = (now1, now2, now3)" by (cases clock)
  have body: "display_body H ack sid buyer cid vid request clock d = Inr (res, d')"
    using step by (auto simp: display_def split: if_splits)
  obtain n where n: "owned_session d sid buyer = Inr n"
    using body unfolding display_body_def clock Let_def prod.case by (elim ebind_InrE)
  let ?find = "find (\<lambda>a. da_buyer_id a = buyer \<and> da_client_view_id a = vid \<and> da_request_id a = request) (trows (d_acks d))"
  show thesis
  proof (cases ?find)
    case (Some old)
    with body n show thesis unfolding display_body_def clock
      by (intro again [OF n]) (auto split: if_splits)
  next
    case None
    with body n obtain c where c: "tget (d_contexts d) cid = Some c"
      unfolding display_body_def clock by (auto split: option.splits)
    with body n None have g: "pc_session_id c = sid" "pc_buyer_id c = buyer" "now1 < pc_expires_at c" "pc_business_version c = ns_version n"
      unfolding display_body_def clock by (auto split: if_splits)
    with body n None c obtain t where t: "check_object H d c n now2 = Inr t" "res = ack"
      "tget (d_acks d) ack = None"
      "d' = d\<lparr>d_acks := d_acks d @ [(ack, \<lparr>da_id = ack, da_context_id = cid, da_buyer_id = buyer,
             da_client_view_id = vid, da_request_id = request, da_displayed_at = now3\<rparr>)]\<rparr>"
      unfolding display_body_def clock by (auto simp: ebind_eq_Inr tadd_eq_Inr)
    show thesis by (rule shown [OF n None c g(1,2)]) (use g t in \<open>simp_all add: clock\<close>)
  qed
qed

definition displaying :: "(json \<Rightarrow> string) \<Rightarrow> int \<Rightarrow> string \<Rightarrow> string \<Rightarrow> string \<Rightarrow> string \<Rightarrow>
    string \<times> time \<times> time \<times> time \<Rightarrow> db \<Rightarrow> exn + string \<times> db" where
  \<comment> \<open>one attempt: a fresh identifier and the clock\<close>
  "displaying H sid buyer cid vid request e d = display H (fst e) sid buyer cid vid request (snd e) d"

definition display_admitted :: "int \<Rightarrow> string \<Rightarrow> 'e \<Rightarrow> db \<Rightarrow> bool" where
  "display_admitted sid buyer e d \<longleftrightarrow> \<not> isl (owned_session d sid buyer)"

interpretation displayed: idempotent_command "displaying H sid buyer cid vid request" "display_admitted sid buyer"
  for H sid buyer cid vid request
proof
  fix e d r d'
  assume step: "displaying H sid buyer cid vid request e d = Inr (r, d')"
  then have dis: "display H (fst e) sid buyer cid vid request (snd e) d = Inr (r, d')" by (simp add: displaying_def)
  then show "display_admitted sid buyer e d" by (cases rule: display_cases) (auto simp: display_admitted_def)
  fix e' :: "string \<times> time \<times> time \<times> time" assume "display_admitted sid buyer e' d'"
  then obtain n where n: "owned_session d' sid buyer = Inr n"
    by (cases "owned_session d' sid buyer") (auto simp: display_admitted_def)
  have args: "\<not> (vid = [] \<or> request = [] \<or> 64 < length vid \<or> 64 < length request)"
    using dis by (auto simp: display_def split: if_splits)
  from dis obtain old where "find (\<lambda>a. da_buyer_id a = buyer \<and> da_client_view_id a = vid \<and> da_request_id a = request)
      (trows (d_acks d')) = Some old" "da_context_id old = cid" "da_id old = r"
  proof (cases rule: display_cases)
    case (shown n c t)
    then have "find (\<lambda>a. da_buyer_id a = buyer \<and> da_client_view_id a = vid \<and> da_request_id a = request)
      (trows (d_acks d')) = Some \<lparr>da_id = fst e, da_context_id = cid, da_buyer_id = buyer,
             da_client_view_id = vid, da_request_id = request, da_displayed_at = snd (snd (snd e))\<rparr>"
      by (simp add: find_snoc_absent trows_append)
    then show thesis by (rule that) (simp_all add: shown)
  qed auto
  with n args show "displaying H sid buyer cid vid request e' d' = Inr (r, d')"
    by (simp add: displaying_def display_def display_body_def split_beta)
qed

lemma check_object_Inr:
  assumes "check_object H d c n now = Inr t"
  shows "pc_business_version c = ns_version n"
    and "pc_offer_id c = Some k \<Longrightarrow> \<exists>p pol off. get_product d (ns_product_id n) = Some p \<and> get_policy d (p_id p) = Some pol
           \<and> get_offer d k = Some off \<and> valid_offer H d n p pol (Some off) now = Inr True \<and> pc_terms_hash c = terms_hash H off"
    and "pc_offer_id c = None \<Longrightarrow> \<exists>refs. pc_draft_refs c = Some refs \<and> refs \<noteq> [] \<and> live_refs d n now refs"
proof -
  show "pc_business_version c = ns_version n" using assms by (auto simp: check_object_def split: if_splits)
  show "\<exists>p pol off. get_product d (ns_product_id n) = Some p \<and> get_policy d (p_id p) = Some pol
           \<and> get_offer d k = Some off \<and> valid_offer H d n p pol (Some off) now = Inr True \<and> pc_terms_hash c = terms_hash H off"
    if k: "pc_offer_id c = Some k"
  proof -
    obtain p where p: "get_product d (ns_product_id n) = Some p"
      and rest: "ebind (case get_offer d k of
                   None \<Rightarrow> Inr False
                 | Some off \<Rightarrow> ebind (some_or AttributeExn (get_policy d (p_id p))) (\<lambda>pol.
                     valid_offer H d n p pol (Some off) now)) (\<lambda>ok.
          case get_offer d k of
            None \<Rightarrow> Inl (Conflict ''offer or its basis no longer valid'')
          | Some off \<Rightarrow> if \<not> ok \<or> terms_hash H off \<noteq> pc_terms_hash c
                        then Inl (Conflict ''offer or its basis no longer valid'')
                        else confirmation_expiry d off now) = Inr t"
      using assms k unfolding check_object_def by (simp split: if_splits) (elim ebind_InrE some_or_InrE, simp)
    then obtain off where off: "get_offer d k = Some off" by (cases "get_offer d k") auto
    with rest obtain ok where ok: "ebind (some_or AttributeExn (get_policy d (p_id p))) (\<lambda>pol. valid_offer H d n p pol (Some off) now) = Inr ok"
      and fin: "(if \<not> ok \<or> terms_hash H off \<noteq> pc_terms_hash c then Inl (Conflict ''offer or its basis no longer valid'')
          else confirmation_expiry d off now) = Inr t"
      by simp (elim ebind_InrE, simp)
    from fin have "ok" "pc_terms_hash c = terms_hash H off" by (auto split: if_splits)
    moreover from ok \<open>ok\<close> obtain pol where "get_policy d (p_id p) = Some pol" "valid_offer H d n p pol (Some off) now = Inr True"
      by simp (elim ebind_InrE some_or_InrE, simp)
    ultimately show ?thesis using p off by blast
  qed
  show "\<exists>refs. pc_draft_refs c = Some refs \<and> refs \<noteq> [] \<and> live_refs d n now refs" if "pc_offer_id c = None"
    using assms that by (auto simp: check_object_def split: if_splits option.splits list.splits)
qed

text \<open>
  A display is acknowledged only to the buyer of the negotiation, for a context issued to that buyer that has not
  expired, at the present business version, and while the offer it shows is valid with the very terms shown (or
  its drafts are still usable). The acknowledgement and nothing else is stored, and however often the same request is
  sent again, it fails or returns the first acknowledgement and changes nothing.
\<close>

theorem display_sound:
  assumes "display H ack sid buyer cid vid request clock d = Inr (res, d')"
    and "\<forall>k a. tget (d_acks d) k = Some a \<longrightarrow> (da_buyer_id a, da_client_view_id a, da_request_id a) \<noteq> (buyer, vid, request)"
    and "keys_ok (d_acks d)"
  shows "\<exists>n c. get_session d sid = Some n \<and> ns_buyer_id n = buyer \<and> tget (d_contexts d) cid = Some c
    \<and> pc_session_id c = sid \<and> pc_buyer_id c = buyer \<and> fst clock < pc_expires_at c \<and> pc_business_version c = ns_version n
    \<and> (\<forall>k. pc_offer_id c = Some k \<longrightarrow> (\<exists>p pol off. get_offer d k = Some off
          \<and> valid_offer H d n p pol (Some off) (fst (snd clock)) = Inr True \<and> pc_terms_hash c = terms_hash H off))
    \<and> (pc_offer_id c = None \<longrightarrow> (\<exists>refs. pc_draft_refs c = Some refs \<and> refs \<noteq> [] \<and> live_refs d n (fst (snd clock)) refs))
    \<and> d' = d\<lparr>d_acks := d_acks d'\<rparr> \<and> (\<exists>a. d_acks d' = d_acks d @ [(res, a)] \<and> da_context_id a = cid \<and> da_buyer_id a = buyer
         \<and> da_client_view_id a = vid \<and> da_displayed_at a = snd (snd clock))
    \<and> (\<forall>es. snd (replays (displaying H sid buyer cid vid request) es d') = d'
         \<and> (\<forall>x \<in> set (fst (replays (displaying H sid buyer cid vid request) es d')). x = Inr res \<or> isl x))"
  using assms(1)
proof (cases rule: display_cases)
  case (again n old)
  then have "old \<in> set (trows (d_acks d))" "da_buyer_id old = buyer \<and> da_client_view_id old = vid \<and> da_request_id old = request"
    using find_Some_iff [of _ "trows (d_acks d)" old] by (auto simp: find_Some_iff)
  then show ?thesis using assms(2) trows_tget [OF assms(3)] by fastforce
next
  case (shown n c t)
  note chk = check_object_Inr [OF shown(8)]
  have "displaying H sid buyer cid vid request (ack, clock) d = Inr (res, d')" using assms(1) by (simp add: displaying_def)
  note rep = displayed.replays_fixpoint [OF this]
  have n: "get_session d sid = Some n" "ns_buyer_id n = buyer" using shown(1) by (simp_all add: owned_session_Inr)
  have off: "\<forall>k. pc_offer_id c = Some k \<longrightarrow> (\<exists>p pol off. get_offer d k = Some off
          \<and> valid_offer H d n p pol (Some off) (fst (snd clock)) = Inr True \<and> pc_terms_hash c = terms_hash H off)"
    using chk(2) by blast
  show ?thesis
  proof (intro exI [of _ n] exI [of _ c] conjI)
    show "\<forall>es. snd (replays (displaying H sid buyer cid vid request) es d') = d'
         \<and> (\<forall>x \<in> set (fst (replays (displaying H sid buyer cid vid request) es d')). x = Inr res \<or> isl x)" using rep by blast
    show "\<exists>a. d_acks d' = d_acks d @ [(res, a)] \<and> da_context_id a = cid \<and> da_buyer_id a = buyer
         \<and> da_client_view_id a = vid \<and> da_displayed_at a = snd (snd clock)" by (simp add: shown(10,11))
  qed (use n off chk(3) shown in \<open>simp_all\<close>)
qed

section \<open>Runs of the notification service\<close>

definition public_inv :: "db \<Rightarrow> bool" where
  \<comment> \<open>the public numbers of a negotiation are used once, each source has one message, what is published has its
    message, and every acknowledgement is of a context of the same buyer\<close>
  "public_inv d \<longleftrightarrow>
     (\<forall>k m. tget (d_messages d) k = Some m \<longrightarrow> ms_id m = k \<and> k < d_next_message d)
     \<and> (\<forall>k m s. tget (d_messages d) k = Some m \<and> ms_public_seq m = Some s \<longrightarrow>
          (\<exists>n. get_session d (ms_session_id m) = Some n \<and> s < ns_next_public_seq n))
     \<and> (\<forall>j k m m' s. tget (d_messages d) j = Some m \<and> tget (d_messages d) k = Some m' \<and> ms_session_id m = ms_session_id m'
          \<and> ms_public_seq m = Some s \<and> ms_public_seq m' = Some s \<longrightarrow> j = k)
     \<and> (\<forall>j k m m' s. tget (d_messages d) j = Some m \<and> tget (d_messages d) k = Some m'
          \<and> ms_source_id m = Some s \<and> ms_source_id m' = Some s \<longrightarrow> j = k)
     \<and> (\<forall>k r. get_delivery d k = Some r \<and> nd_status r = ND_PUBLISHED \<longrightarrow> nd_lease_token r = None \<and>
          (\<exists>mid m. nd_public_message_id r = Some mid \<and> tget (d_messages d) mid = Some m \<and> ms_source_id m = Some k))
     \<and> (\<forall>k a. tget (d_acks d) k = Some a \<longrightarrow>
          (\<exists>c. tget (d_contexts d) (da_context_id a) = Some c \<and> pc_buyer_id c = da_buyer_id a))"

















section \<open>A result is published and shown\<close>

definition leased_notice :: delivery where
  "leased_notice = \<lparr>nd_id = ''notice'', nd_input_id = None, nd_session_id = Some 1, nd_approval_id = None,
     nd_source_thread_id = ''negotiation:1:v1'', nd_status = ND_RUNNING,
     nd_result = JObj [(''outcome'', JStr ''OFFER_ACCEPTED''), (''offer_id'', JInt 1), (''business_version'', JInt 2)],
     nd_reply_deadline = 45, nd_public_message_id = None, nd_lease_token = Some ''token'', nd_lease_until = Some 60,
     nd_attempts = 1, nd_next_retry_at = None\<rparr>"

definition notice_start :: db where
  "notice_start = sample_displayed\<lparr>d_contexts := [], d_acks := [], d_messages := [], d_next_message := 7,
     d_deliveries := [(''notice'', leased_notice)], d_outbox := [(''notice'', delivery_event ''notice'')]\<rparr>"

lemma notice_start_inv: "graph_inv notice_start" "public_inv notice_start"
proof -
  have "offer_inv notice_start"
    by (rule offer_inv_other [OF sample_displayed_inv]) (simp_all add: notice_start_def)
  then show "graph_inv notice_start"
    by (simp add: graph_inv_def approvals_stored_def notice_start_def sample_displayed_def sample_resolved_def
        sample_graph_def sample_db_def empty_db_def)
  show "public_inv notice_start" by (simp add: public_inv_def notice_start_def leased_notice_def)
qed

lemma shown_session_legacy: "is_semantic sample_graph_session' = False" "ns_id sample_graph_session' = 1"
    "ns_version sample_graph_session' = 2" "ns_product_id sample_graph_session' = 1" "ns_current_offer_id sample_graph_session' = Some 1"
    "ns_buyer_id sample_graph_session' = ''buyer''"
  by (simp_all add: is_semantic_def sample_graph_session_def)

lemma notice_valid:
  assumes "d_evidence d = d_evidence sample_displayed" and "d_approvals d = d_approvals sample_displayed"
  shows "valid_offer sample_digest d sample_graph_session' sample_product sample_policy (Some (graph_offer 16000 ACCEPTED)) 30 = Inr True"
proof -
  have "valid_offer sample_digest d sample_graph_session' sample_product sample_policy (Some (graph_offer 16000 ACCEPTED)) 30
      = valid_offer sample_digest sample_displayed sample_graph_session' sample_product sample_policy (Some (graph_offer 16000 ACCEPTED)) 30"
    by (simp only: valid_offer_def basis_valid_def approval_of_offer_def shown_session_legacy assms option.case if_False)
  then show ?thesis by (simp only: sample_valid)
qed

lemma notice_rows:
  "get_delivery notice_start ''notice'' = Some leased_notice" "get_session notice_start 1 = Some sample_graph_session'"
  "get_product notice_start 1 = Some sample_product" "get_policy notice_start 1 = Some sample_policy"
  "get_offer notice_start 1 = Some (graph_offer 16000 ACCEPTED)" "d_messages notice_start = []" "d_contexts notice_start = []"
  "tget (d_outbox notice_start) ''notice'' = Some (delivery_event ''notice'')" "d_next_message notice_start = 7"
  "tget (d_bases notice_start) k = None"
  by (simp_all add: notice_start_def sample_displayed_def sample_resolved_def sample_graph_def sample_db_def empty_db_def
      sample_product_def)

lemma notice_published:
  "\<exists>d'. publish sample_digest (\<lambda>d x n r c past t. Inr c) (''ctx'', ''drafts'') None None (Some ''token'') (Some ''notice'') 30 notice_start
     = Inr (Some 7, d')"
proof -
  let ?r = "nd_result leased_notice"
  have off: "result_offer notice_start ?r = Some (graph_offer 16000 ACCEPTED)"
    by (simp add: result_offer_def leased_notice_def notice_rows)
  have may: "may_publish None None (Some ''token'') ''notice'' 30 notice_start = Inr None"
    by (simp add: may_publish_def notice_rows) (simp add: leased_notice_def later_than_def)
  have out: "outcome_of ?r = Inr ''OFFER_ACCEPTED''" "jget ?r ''business_version'' = JInt 2"
    by (simp_all add: outcome_of_def leased_notice_def)
  have p: "p_id sample_product = 1" by (simp add: sample_product_def)
  have ok: "confirmable sample_digest notice_start sample_graph_session' sample_product ?r ''OFFER_ACCEPTED'' (Some (graph_offer 16000 ACCEPTED)) 30
     = Inr True"
  proof -
    have "valid_offer sample_digest notice_start sample_graph_session' sample_product sample_policy (Some (graph_offer 16000 ACCEPTED)) 30 = Inr True"
      by (rule notice_valid) (simp_all add: notice_start_def)
    then show ?thesis by (simp add: confirmable_def out p notice_rows shown_session_legacy)
  qed
  have g: "of_id (graph_offer 16000 ACCEPTED) = 1" "of_expires_at (graph_offer 16000 ACCEPTED) = Some (hours 24)"
    by (simp_all add: graph_offer_def sample_offer_def)
  have past: "historical sample_graph_session' ?r ''OFFER_ACCEPTED'' (Some (graph_offer 16000 ACCEPTED)) True 30 = Inr False"
    by (simp add: historical_def out g shown_session_legacy hours_def minutes_def seconds_def)
  have some_words: "\<exists>t. notice_content sample_graph_session' sample_product ?r ''OFFER_ACCEPTED'' False = Inr t"
    by (simp add: notice_content_def)
  then obtain t where words: "notice_content sample_graph_session' sample_product ?r ''OFFER_ACCEPTED'' False = Inr t" by blast
  have "\<exists>d1. add_message ''notice'' t sample_graph_session' (Some (graph_offer 16000 ACCEPTED)) notice_start = Inr d1
      \<and> d_contexts d1 = [] \<and> (\<forall>k. tget (d_bases d1) k = None) \<and> d_outbox d1 = d_outbox notice_start \<and> d_deliveries d1 = d_deliveries notice_start"
    by (simp add: add_message_def notice_rows tadd_def trows_def)
  then obtain d1 where d1: "add_message ''notice'' t sample_graph_session' (Some (graph_offer 16000 ACCEPTED)) notice_start = Inr d1"
    "d_contexts d1 = []" "\<And>k. tget (d_bases d1) k = None" "d_outbox d1 = d_outbox notice_start" by blast
  obtain d2 where d2: "add_context sample_digest ''ctx'' sample_graph_session' 7 (Some (graph_offer 16000 ACCEPTED)) [] 30 d1 = Inr d2"
    "d_outbox d2 = d_outbox notice_start"
    by (simp add: add_context_def confirmation_expiry_def g d1 tadd_def)
  have mk: "\<exists>d3. mark_published ''notice'' leased_notice 7 d2 = Inr d3"
    by (simp add: mark_published_def d2 notice_rows) (simp add: leased_notice_def)
  have "nd_session_id leased_notice = Some 1" "nd_status leased_notice \<noteq> ND_PUBLISHED" by (simp_all add: leased_notice_def)
  then show ?thesis
    using mk by (auto simp: publish_def may notice_rows shown_session_legacy publish_result_def off out ok past words shown_drafts_def
        d1 d2 published_event_def)
qed

theorem publish_sound_witness:
  "\<exists>d'. notice_shown ''notice'' 7 d' \<and> graph_keeps notice_start d'"
proof -
  obtain d' where step: "publish sample_digest (\<lambda>d x n r c past t. Inr c) (''ctx'', ''drafts'') None None (Some ''token'') (Some ''notice'')
      30 notice_start = Inr (Some 7, d')"
    using notice_published by blast
  have k: "''notice'' = notice_key_of None (Some ''notice'')" by (simp add: notice_key_of_def)
  have "nd_status leased_notice \<noteq> ND_PUBLISHED" by (simp add: leased_notice_def)
  with publish_sound [OF step notice_start_inv(1) k] show ?thesis by (auto simp: notice_rows)
qed


definition unseen :: db where
  "unseen = sample_displayed\<lparr>d_acks := []\<rparr>"

lemma unseen_displayed:
  "\<exists>d'. display sample_digest ''ack'' 1 ''buyer'' ''ctx'' ''view'' ''shown'' (20, 30, 40) unseen = Inr (''ack'', d')"
proof -
  have rows: "get_session unseen 1 = Some sample_graph_session'" "get_product unseen 1 = Some sample_product"
    "get_policy unseen 1 = Some sample_policy" "get_offer unseen 1 = Some (graph_offer 16000 ACCEPTED)" "d_acks unseen = []"
    "tget (d_bases unseen) k = None" for k
    by (simp_all add: unseen_def sample_displayed_def sample_resolved_def sample_graph_def sample_db_def empty_db_def
        sample_product_def)
  obtain c where c: "tget (d_contexts unseen) ''ctx'' = Some c" "pc_session_id c = 1" "pc_buyer_id c = ''buyer''" "pc_offer_id c = Some 1"
    "pc_business_version c = 2" "pc_terms_hash c = ''digest''" "pc_expires_at c = minutes 30"
    by (simp add: unseen_def sample_displayed_def)
  have g: "of_id (graph_offer 16000 ACCEPTED) = 1" "of_expires_at (graph_offer 16000 ACCEPTED) = Some (hours 24)"
    by (simp_all add: graph_offer_def sample_offer_def)
  have v: "valid_offer sample_digest unseen sample_graph_session' sample_product sample_policy (Some (graph_offer 16000 ACCEPTED)) 30 = Inr True"
    by (rule notice_valid) (simp_all add: unseen_def)
  have p: "p_id sample_product = 1" by (simp add: sample_product_def)
  have chk: "\<exists>t. check_object sample_digest unseen c sample_graph_session' 30 = Inr t"
    by (simp add: check_object_def c shown_session_legacy rows p v terms_hash_def sample_digest_def confirmation_expiry_def g)
  have t: "20 < pc_expires_at c" by (simp add: c minutes_def seconds_def)
  show ?thesis
    using chk t by (auto simp: display_def display_body_def owned_session_def rows shown_session_legacy trows_def c tadd_def)
qed

theorem display_sound_witness:
  "\<exists>(d' :: db) a. d_acks d' = [(''ack'', a)] \<and> da_buyer_id a = ''buyer'' \<and> da_context_id a = ''ctx''"
proof -
  obtain d' where step: "display sample_digest ''ack'' 1 ''buyer'' ''ctx'' ''view'' ''shown'' (20, 30, 40) unseen = Inr (''ack'', d')"
    using unseen_displayed by blast
  have none: "d_acks unseen = []" by (simp add: unseen_def)
  have "\<forall>k a. tget (d_acks unseen) k = Some a \<longrightarrow> (da_buyer_id a, da_client_view_id a, da_request_id a) \<noteq> (''buyer'', ''view'', ''shown'')"
    "keys_ok (d_acks unseen)"
    by (simp_all add: none)
  from display_sound [OF step this] obtain a where "d_acks d' = d_acks unseen @ [(''ack'', a)]" "da_buyer_id a = ''buyer''"
    "da_context_id a = ''ctx''" by blast
  then have "d_acks d' = [(''ack'', a)] \<and> da_buyer_id a = ''buyer'' \<and> da_context_id a = ''ctx''" by (simp add: none)
  then show ?thesis by blast
qed

end
