(* ===== verification/Tasks.thy ===== *)
theory Tasks
  imports Approval Complex_Main
begin

text \<open>
  \<open>backend/app/services/model_task_service.py\<close>, \<open>model_retry_policy.py\<close> and \<open>model_task_recovery_service.py\<close>: tasks
  for the language model of the earlier runtime, their leases, results, retries and the seller's manual recovery.

  \<open>H\<close> is the digest of a canonical JSON text, \<open>token\<close> a fresh identifier, \<open>now\<close> the clock. A snapshot returned to the
  caller is the row itself. Rows locked by others, which \<open>lease_next\<close> skips, do not occur between whole transactions.
\<close>

section \<open>Validation\<close>

definition valid_identifier :: "nat \<Rightarrow> string \<Rightarrow> exn + string" where
  "valid_identifier limit s =
     (if length s \<le> limit \<and> request_id_pattern s then Inr s else Inl (ServiceExn InvalidTask))"

fun split_words :: "string \<Rightarrow> string \<Rightarrow> string list" where
  \<comment> \<open>\<open>s.split()\<close>; the second argument is the reversed word being read\<close>
  "split_words [] w = (if w = [] then [] else [rev w])"
| "split_words (c # cs) w =
     (if is_space c then (if w = [] then split_words cs [] else rev w # split_words cs [])
      else split_words cs (c # w))"

fun join_words :: "string list \<Rightarrow> string" where
  "join_words [] = []"
| "join_words [w] = w"
| "join_words (w # v # ws) = w @ '' '' @ join_words (v # ws)"

definition safe_message :: "nat \<Rightarrow> string option \<Rightarrow> string option" where
  "safe_message limit v =
     (case v of
        None \<Rightarrow> None
      | Some s \<Rightarrow> let t = take limit (join_words (split_words s [])) in if t = [] then None else Some t)"

definition json_object :: "(json \<Rightarrow> string) \<Rightarrow> json \<Rightarrow> exn + json \<times> string" where
  "json_object H v =
     (case v of JObj kvs \<Rightarrow> if jok v then Inr (v, H v) else Inl (ServiceExn InvalidTask) | _ \<Rightarrow> Inl (ServiceExn InvalidTask))"

definition lower_hex :: "char \<Rightarrow> bool" where
  "lower_hex c \<longleftrightarrow> (let n = of_char c :: nat in 48 \<le> n \<and> n \<le> 57 \<or> 97 \<le> n \<and> n \<le> 102)"

definition canonical_uuid :: "string \<Rightarrow> bool" where
  "canonical_uuid s \<longleftrightarrow> length s = 36
     \<and> (\<forall>i < 36. if i \<in> {8, 13, 18, 23} then s ! i = CHR ''-'' else lower_hex (s ! i))"

definition correlation_id :: "string option \<Rightarrow> string option \<Rightarrow> string \<Rightarrow> exn + string" where
  \<comment> \<open>the given identifier, that of the observation context, or a fresh one\<close>
  "correlation_id given observed fresh =
     (let candidate = (case given of Some g \<Rightarrow> if g = [] then observed else Some g | None \<Rightarrow> observed);
          v = (case candidate of Some c \<Rightarrow> if c = [] then fresh else c | None \<Rightarrow> fresh)
      in if canonical_uuid v then Inr v else Inl (ServiceExn InvalidTask))"

definition is_letter :: "char \<Rightarrow> bool" where
  "is_letter c \<longleftrightarrow> (let n = of_char c :: nat in 65 \<le> n \<and> n \<le> 90 \<or> 97 \<le> n \<and> n \<le> 122)"

definition upper :: "char \<Rightarrow> char" where
  "upper c = (let n = of_char c :: nat in if 97 \<le> n \<and> n \<le> 122 then char_of (n - 32) else c)"

definition not_negative :: "int option \<Rightarrow> bool" where
  "not_negative v \<longleftrightarrow> (case v of None \<Rightarrow> True | Some i \<Rightarrow> 0 \<le> i)"

definition validated_usage :: "model_usage \<Rightarrow> exn + model_usage" where
  "validated_usage u =
     (let provider = strip (us_provider u); model = strip (us_model_name u);
          currency = (case us_cost_currency u of
                        None \<Rightarrow> None
                      | Some c \<Rightarrow> if c = [] then None else Some (map upper (strip c))) in
      if provider = [] \<or> 50 < length provider \<or> model = [] \<or> 100 < length model
         \<or> \<not> list_all not_negative [us_input_tokens u, us_output_tokens u, us_cached_input_tokens u, us_total_tokens u,
              us_input_price u, us_output_price u, us_cached_input_price u, us_estimated_cost u]
         \<or> (case currency of None \<Rightarrow> False | Some c \<Rightarrow> length c \<noteq> 3 \<or> \<not> list_all is_letter c)
      then Inl (ServiceExn InvalidTask)
      else Inr (u\<lparr>us_provider := provider, us_model_name := model, us_cost_currency := currency\<rparr>))"

section \<open>Creation\<close>

record task_request =
  tq_type :: task_type
  tq_key :: string
  tq_session :: int
  tq_input :: json
  tq_offer :: "int option"
  tq_approval :: "int option"
  tq_schema_version :: int
  tq_max_attempts :: int

definition flush_task :: "int \<Rightarrow> task \<Rightarrow> db \<Rightarrow> exn + task \<times> db" where
  \<comment> \<open>the row is written; check constraints and the uniqueness of lease tokens are enforced\<close>
  "flush_task tid t d =
     (if \<not> task_checks t \<or> t_lease_token t \<noteq> None
         \<and> list_ex (\<lambda>r. t_id r \<noteq> tid \<and> t_lease_token r = t_lease_token t) (trows (d_tasks d))
      then Inl IntegrityExn
      else Inr (t, d\<lparr>d_tasks := tput tid t (d_tasks d)\<rparr>))"

definition task_of_key :: "db \<Rightarrow> task_type \<Rightarrow> string \<Rightarrow> task option" where
  "task_of_key d ty key = find (\<lambda>t. t_type t = ty \<and> t_business_key t = key) (trows (d_tasks d))"

definition existing_task :: "task_request \<Rightarrow> string \<Rightarrow> task \<Rightarrow> exn + task \<times> bool" where
  "existing_task q hash t =
     (if t_session_id t \<noteq> tq_session q \<or> t_offer_id t \<noteq> tq_offer q \<or> t_approval_id t \<noteq> tq_approval q
         \<or> t_snapshot_schema_version t \<noteq> tq_schema_version q \<or> t_input_snapshot_hash t \<noteq> hash
      then Inl (ServiceExn TaskConflict) else Inr (t, True))"

definition captured :: "task_request \<Rightarrow> offer option \<Rightarrow> approval option \<Rightarrow> bool" where
  \<comment> \<open>the references fit the type of the task\<close>
  "captured q off a \<longleftrightarrow>
     (case tq_type q of
        CHAT_DECISION \<Rightarrow> a = None
      | APPROVAL_FOLLOWUP \<Rightarrow>
          (case (a, off) of
             (Some x, Some o1) \<Rightarrow> ap_offer_id x = of_id o1 \<and> ap_status x \<in> {AP_APPROVED, AP_REJECTED}
               \<and> ap_followup_request_id x \<noteq> None \<and> ap_followup_request_id x \<noteq> Some []
           | _ \<Rightarrow> False))"

definition capture_references :: "task_request \<Rightarrow> db \<Rightarrow> exn + int \<times> int" where
  "capture_references q d =
     (case get_session d (tq_session q) of
        None \<Rightarrow> Inl (ServiceExn InvalidTask)
      | Some n \<Rightarrow>
      case get_policy d (ns_product_id n) of
        None \<Rightarrow> Inl (ServiceExn InvalidTask)
      | Some pol \<Rightarrow>
      let off = (case tq_offer q of None \<Rightarrow> None | Some k \<Rightarrow> get_offer d k);
          a = (case tq_approval q of None \<Rightarrow> None | Some k \<Rightarrow> get_approval d k)
      in if tq_offer q \<noteq> None \<and> (case off of None \<Rightarrow> True | Some x \<Rightarrow> of_session_id x \<noteq> tq_session q)
            \<or> tq_approval q \<noteq> None \<and> (case a of None \<Rightarrow> True | Some x \<Rightarrow> ap_session_id x \<noteq> tq_session q)
            \<or> \<not> captured q off a
         then Inl (ServiceExn InvalidTask)
         else Inr (ns_version n, sp_version pol))"

definition new_task :: "task_request \<Rightarrow> string \<Rightarrow> string \<Rightarrow> int \<times> int \<Rightarrow> int \<Rightarrow> task" where
  "new_task q hash corr versions tid =
     \<lparr>t_id = tid, t_ownership_epoch = 0, t_type = tq_type q, t_business_key = tq_key q, t_session_id = tq_session q,
      t_offer_id = tq_offer q, t_approval_id = tq_approval q, t_snapshot_schema_version = tq_schema_version q,
      t_session_version = fst versions, t_policy_version = snd versions, t_input_snapshot = tq_input q,
      t_input_snapshot_hash = hash, t_runtime_kind = ''V3'', t_runtime_checkpoint = None, t_correlation_id = corr,
      t_status = T_PENDING, t_attempt_count = 0, t_max_attempts = tq_max_attempts q, t_manual_retry_count = 0,
      t_next_retry_at = None, t_lease_owner = None, t_lease_token = None, t_lease_expires_at = None,
      t_last_error_category = None, t_last_error_message = None, t_usage = None, t_result_snapshot = None,
      t_started_at = None, t_completed_at = None, t_last_manual_action = None, t_last_manual_actor_id = None,
      t_last_manual_reason = None, t_last_manual_at = None\<rparr>"

definition create_validated :: "task_request \<Rightarrow> string \<Rightarrow> string \<Rightarrow> db \<Rightarrow> exn + (task \<times> bool) \<times> db" where
  "create_validated q hash corr d =
     (case task_of_key d (tq_type q) (tq_key q) of
        Some t \<Rightarrow> ebind (existing_task q hash t) (\<lambda>r. Inr (r, d))
      | None \<Rightarrow>
      ebind (capture_references q d) (\<lambda>versions.
      let tid = d_next_task d in
      ebind (flush_task tid (new_task q hash corr versions tid) (d\<lparr>d_next_task := tid + 1\<rparr>)) (\<lambda>(t, d').
      Inr ((t, False), d'))))"

definition validated_request ::
    "(json \<Rightarrow> string) \<Rightarrow> string option \<Rightarrow> string option \<Rightarrow> string \<Rightarrow> task_request \<Rightarrow> exn + string \<times> string" where
  "validated_request H given observed fresh q =
     ebind (valid_identifier 128 (tq_key q)) (\<lambda>_.
     if tq_schema_version q \<le> 0 \<or> tq_max_attempts q < 1 \<or> 20 < tq_max_attempts q then Inl (ServiceExn InvalidTask)
     else
     ebind (json_object H (tq_input q)) (\<lambda>(_, hash).
     ebind (correlation_id given observed fresh) (\<lambda>corr. Inr (hash, corr))))"

definition create_task_in_transaction ::
    "(json \<Rightarrow> string) \<Rightarrow> string option \<Rightarrow> string option \<Rightarrow> string \<Rightarrow> task_request \<Rightarrow> db \<Rightarrow> exn + (task \<times> bool) \<times> db" where
  "create_task_in_transaction H given observed fresh q d =
     ebind (validated_request H given observed fresh q) (\<lambda>(hash, corr). create_validated q hash corr d)"

definition create_task ::
    "(json \<Rightarrow> string) \<Rightarrow> string option \<Rightarrow> string option \<Rightarrow> string \<Rightarrow> task_request \<Rightarrow> db \<Rightarrow> (exn + task \<times> bool) \<times> db" where
  \<comment> \<open>\<open>except IntegrityError\<close>: the task another transaction stored under the key\<close>
  "create_task H given observed fresh q d =
     (case commit (create_task_in_transaction H given observed fresh q d) d of
        (Inl IntegrityExn, _) \<Rightarrow>
          ((case (task_of_key d (tq_type q) (tq_key q), json_object H (tq_input q)) of
              (Some t, Inr (_, hash)) \<Rightarrow> existing_task q hash t
            | _ \<Rightarrow> Inl (ServiceExn TaskConflict)), d)
      | r \<Rightarrow> r)"

definition locked_task :: "db \<Rightarrow> int \<Rightarrow> exn + task" where
  "locked_task d tid = some_or (ServiceExn TaskNotFound) (get_task d tid)"

section \<open>Leases\<close>

definition lease_request :: "string \<Rightarrow> int \<Rightarrow> exn + string" where
  "lease_request worker seconds' =
     ebind (valid_identifier 100 worker) (\<lambda>w.
     if seconds' < 1 \<or> 3600 < seconds' then Inl (ServiceExn InvalidTask) else Inr w)"

definition lease_eligible :: "task \<Rightarrow> time \<Rightarrow> bool" where
  "lease_eligible t now \<longleftrightarrow>
     (case t_status t of
        T_PENDING \<Rightarrow> True
      | T_RETRY_WAIT \<Rightarrow> (case t_next_retry_at t of None \<Rightarrow> False | Some r \<Rightarrow> r \<le> now)
      | T_RUNNING \<Rightarrow> (case t_lease_expires_at t of None \<Rightarrow> False | Some e \<Rightarrow> e \<le> now)
      | _ \<Rightarrow> False)"

definition clear_lease :: "bool \<Rightarrow> task \<Rightarrow> task" where
  "clear_lease retry t = t\<lparr>t_lease_owner := None, t_lease_token := None, t_lease_expires_at := None,
     t_next_retry_at := (if retry then None else t_next_retry_at t)\<rparr>"

definition apply_lease :: "string \<Rightarrow> string \<Rightarrow> time \<Rightarrow> int \<Rightarrow> task \<Rightarrow> task" where
  "apply_lease worker token now secs t =
     t\<lparr>t_status := T_RUNNING, t_attempt_count := t_attempt_count t + 1, t_next_retry_at := None,
       t_lease_owner := Some worker, t_lease_token := Some token, t_lease_expires_at := Some (now + seconds secs),
       t_started_at := (case t_started_at t of None \<Rightarrow> Some now | Some s \<Rightarrow> Some s)\<rparr>"

definition followup_manual :: "task \<Rightarrow> db \<Rightarrow> db" where
  \<comment> \<open>\<open>_mark_approval_manual_required\<close>\<close>
  "followup_manual t d =
     (case t_approval_id t of
        None \<Rightarrow> d
      | Some aid \<Rightarrow> mod_approval aid (\<lambda>a. if ap_followup_status a = Some FU_SENT then a
                                      else a\<lparr>ap_followup_status := Some FU_MANUAL_REQUIRED\<rparr>) d)"

definition exhausted :: "time \<Rightarrow> task \<Rightarrow> task" where
  "exhausted now t = clear_lease True (t\<lparr>t_status := T_FAILED,
     t_last_error_category := (case t_last_error_category t of None \<Rightarrow> Some UNKNOWN_ERROR | Some c \<Rightarrow> Some c),
     t_last_error_message := Some ''attempts exhausted'', t_completed_at := Some now\<rparr>)"

definition give_lease :: "string \<Rightarrow> string \<Rightarrow> int \<Rightarrow> time \<Rightarrow> task \<Rightarrow> db \<Rightarrow> exn + task \<times> db" where
  "give_lease worker token secs now t d =
     (if t_max_attempts t \<le> t_attempt_count t
      then flush_task (t_id t) (exhausted now t) (followup_manual t d)
      else flush_task (t_id t) (apply_lease worker token now secs t) d)"

definition lease_task :: "int \<Rightarrow> string \<Rightarrow> int \<Rightarrow> string \<Rightarrow> time \<Rightarrow> db \<Rightarrow> exn + task option \<times> db" where
  "lease_task tid worker secs token now d =
     ebind (lease_request worker secs) (\<lambda>w.
     ebind (locked_task d tid) (\<lambda>t.
     if t_runtime_kind t = ''LANGGRAPH'' \<or> \<not> lease_eligible t now then Inr (None, d)
     else
     ebind (give_lease w token secs now t d) (\<lambda>(t', d'). Inr (Some t', d'))))"

definition lease_order :: "task \<Rightarrow> int \<times> int" where
  \<comment> \<open>pending tasks first, then retries, then expired leases, each by id\<close>
  "lease_order t = (case t_status t of T_PENDING \<Rightarrow> 0 | T_RETRY_WAIT \<Rightarrow> 1 | _ \<Rightarrow> 2, t_id t)"

definition before :: "int \<times> int \<Rightarrow> int \<times> int \<Rightarrow> bool" where
  "before p q \<longleftrightarrow> fst p < fst q \<or> fst p = fst q \<and> snd p \<le> snd q"

fun first_task :: "task list \<Rightarrow> task option" where
  "first_task [] = None"
| "first_task (t # ts) =
     (case first_task ts of
        None \<Rightarrow> Some t
      | Some u \<Rightarrow> if before (lease_order t) (lease_order u) then Some t else Some u)"

definition next_task :: "task_type list option \<Rightarrow> time \<Rightarrow> db \<Rightarrow> task option" where
  "next_task types now d =
     first_task (filter (\<lambda>t. lease_eligible t now \<and> t_runtime_kind t \<noteq> ''LANGGRAPH''
       \<and> (case types of None \<Rightarrow> True | Some ts \<Rightarrow> t_type t \<in> set ts)) (trows (d_tasks d)))"

definition lease_next :: "string \<Rightarrow> task_type list option \<Rightarrow> int \<Rightarrow> string \<Rightarrow> time \<Rightarrow> db \<Rightarrow> exn + task option \<times> db" where
  "lease_next worker types secs token now d =
     ebind (lease_request worker secs) (\<lambda>w.
     if types = Some [] then Inl (ServiceExn InvalidTask)
     else case next_task types now d of
       None \<Rightarrow> Inr (None, d)
     | Some t \<Rightarrow> ebind (give_lease w token secs now t d) (\<lambda>(t', d'). Inr (Some t', d')))"

definition active_lease :: "task \<Rightarrow> string \<Rightarrow> time \<Rightarrow> bool" where
  "active_lease t token now \<longleftrightarrow> t_status t = T_RUNNING \<and> token \<noteq> [] \<and> t_lease_token t = Some token
     \<and> (case t_lease_expires_at t of None \<Rightarrow> False | Some e \<Rightarrow> now < e)"

definition leased_task :: "db \<Rightarrow> int \<Rightarrow> string \<Rightarrow> time \<Rightarrow> exn + task" where
  \<comment> \<open>\<open>require_active_lease_in_transaction\<close>\<close>
  "leased_task d tid token now =
     ebind (locked_task d tid) (\<lambda>t. if active_lease t token now then Inr t else Inl (ServiceExn TaskLease))"

section \<open>Results\<close>

definition complete_success ::
    "(json \<Rightarrow> string) \<Rightarrow> int \<Rightarrow> string \<Rightarrow> json \<Rightarrow> model_usage \<Rightarrow> time \<Rightarrow> db \<Rightarrow> exn + task \<times> db" where
  "complete_success H tid token result usage now d =
     ebind (json_object H result) (\<lambda>(stored, _).
     ebind (validated_usage usage) (\<lambda>u.
     ebind (leased_task d tid token now) (\<lambda>t.
     flush_task tid (clear_lease True (t\<lparr>t_status := T_SUCCEEDED, t_result_snapshot := Some stored, t_usage := Some u,
       t_last_error_category := None, t_last_error_message := None, t_completed_at := Some now\<rparr>)) d)))"

definition defer_retry ::
    "int \<Rightarrow> string \<Rightarrow> error_category \<Rightarrow> time \<Rightarrow> string option \<Rightarrow> time \<Rightarrow> db \<Rightarrow> exn + task \<times> db" where
  "defer_retry tid token err retry_at msg now d =
     (if retry_at \<le> now then Inl (ServiceExn InvalidTask)
      else
      ebind (leased_task d tid token now) (\<lambda>t.
      flush_task tid (clear_lease False (t\<lparr>t_status := T_RETRY_WAIT, t_next_retry_at := Some retry_at,
        t_last_error_category := Some err, t_last_error_message := safe_message 500 msg, t_completed_at := None\<rparr>)) d))"

definition complete_error ::
    "int \<Rightarrow> string \<Rightarrow> task_status \<Rightarrow> error_category \<Rightarrow> string option \<Rightarrow> model_usage option \<Rightarrow> time \<Rightarrow> db \<Rightarrow> exn + task \<times> db" where
  "complete_error tid token target err msg usage now d =
     ebind (leased_task d tid token now) (\<lambda>t.
     ebind (case usage of None \<Rightarrow> Inr (t_usage t) | Some u \<Rightarrow> ebind (validated_usage u) (\<lambda>v. Inr (Some v))) (\<lambda>used.
     flush_task tid (clear_lease True (t\<lparr>t_status := target, t_last_error_category := Some err,
         t_last_error_message := safe_message 500 msg, t_usage := used, t_completed_at := Some now\<rparr>))
       (if target = T_FAILED then followup_manual t d else d)))"

definition fail_task :: "int \<Rightarrow> string \<Rightarrow> error_category \<Rightarrow> string option \<Rightarrow> time \<Rightarrow> db \<Rightarrow> exn + task \<times> db" where
  "fail_task tid token err msg now d = complete_error tid token T_FAILED err msg None now d"

definition mark_stale :: "int \<Rightarrow> string \<Rightarrow> string option \<Rightarrow> model_usage option \<Rightarrow> time \<Rightarrow> db \<Rightarrow> exn + task \<times> db" where
  "mark_stale tid token msg usage now d = complete_error tid token T_STALE BUSINESS_CONFLICT msg usage now d"

definition cancel_with_lease :: "int \<Rightarrow> string \<Rightarrow> string \<Rightarrow> time \<Rightarrow> db \<Rightarrow> exn + task \<times> db" where
  "cancel_with_lease tid token msg now d = complete_error tid token T_CANCELLED BUSINESS_CONFLICT (Some msg) None now d"

definition renew_lease :: "int \<Rightarrow> string \<Rightarrow> int \<Rightarrow> time \<Rightarrow> db \<Rightarrow> exn + task \<times> db" where
  "renew_lease tid token secs now d =
     (if secs < 1 \<or> 3600 < secs then Inl (ValueExn ''invalid lease renewal duration'')
      else
      ebind (leased_task d tid token now) (\<lambda>t. flush_task tid (t\<lparr>t_lease_expires_at := Some (now + seconds secs)\<rparr>) d))"

definition update_checkpoint :: "(json \<Rightarrow> string) \<Rightarrow> int \<Rightarrow> string \<Rightarrow> json \<Rightarrow> time \<Rightarrow> db \<Rightarrow> exn + task \<times> db" where
  "update_checkpoint H tid token checkpoint now d =
     ebind (leased_task d tid token now) (\<lambda>t.
     ebind (json_object H checkpoint) (\<lambda>(stored, _).
     flush_task tid (t\<lparr>t_runtime_checkpoint := Some stored\<rparr>) d))"

section \<open>The retry policy\<close>

datatype failure =
    TimeoutFailure
  | RateLimitFailure
  | StatusFailure int \<comment> \<open>an error with a status code\<close>
  | TransportFailure
  | OutputFailure
  | OtherFailure string \<comment> \<open>the name of its class\<close>

record failure_class =
  fc_category :: error_category
  fc_retryable :: bool
  fc_message :: string

fun classify :: "failure \<Rightarrow> failure_class" where
  \<comment> \<open>the root cause of the error\<close>
  "classify TimeoutFailure = \<lparr>fc_category = MODEL_TIMEOUT, fc_retryable = True, fc_message = ''model call timed out''\<rparr>"
| "classify RateLimitFailure = \<lparr>fc_category = RATE_LIMITED, fc_retryable = True, fc_message = ''model service limits''\<rparr>"
| "classify (StatusFailure c) =
     (if c = 429 then \<lparr>fc_category = RATE_LIMITED, fc_retryable = True, fc_message = ''model service limits''\<rparr>
      else if c = 408 \<or> 500 \<le> c then \<lparr>fc_category = NETWORK, fc_retryable = True, fc_message = ''model service network error''\<rparr>
      else \<lparr>fc_category = INTERNAL, fc_retryable = False, fc_message = ''error not retried''\<rparr>)"
| "classify TransportFailure = \<lparr>fc_category = NETWORK, fc_retryable = True, fc_message = ''model service network error''\<rparr>"
| "classify OutputFailure = \<lparr>fc_category = INVALID_OUTPUT, fc_retryable = True, fc_message = ''structured output invalid''\<rparr>"
| "classify (OtherFailure name) =
     \<lparr>fc_category = INTERNAL, fc_retryable = False, fc_message = ''error not retried: '' @ name\<rparr>"

record retry_policy =
  rp_max_attempts :: int
  rp_base :: rat \<comment> \<open>seconds\<close>
  rp_max :: rat
  rp_jitter :: rat
  rp_lease :: int

definition policy_ok :: "retry_policy \<Rightarrow> bool" where
  "policy_ok p \<longleftrightarrow> 1 \<le> rp_max_attempts p \<and> rp_max_attempts p \<le> 20 \<and> 0 < rp_base p \<and> 0 < rp_max p
     \<and> 0 \<le> rp_jitter p \<and> rp_jitter p \<le> 1 / 2 \<and> 1 \<le> rp_lease p \<and> rp_lease p \<le> 3600"

definition retry_delay :: "retry_policy \<Rightarrow> rat \<Rightarrow> int \<Rightarrow> int" where
  \<comment> \<open>\<open>u\<close>: the first eight bytes of the digest of the task and the attempt, scaled to \<open>[0, 1]\<close>;
    floating point numbers as rationals\<close>
  "retry_delay p u attempt =
     (let base = min (rp_max p) (rp_base p * 2 ^ nat (max (attempt - 1) 0));
          jitter = 1 + (u * 2 - 1) * rp_jitter p
      in max 1 \<lceil>min (rp_max p) (base * jitter)\<rceil>)"

record retry_plan =
  pl_category :: error_category
  pl_should_retry :: bool
  pl_next_retry_at :: "time option"
  pl_message :: string

definition plan_failure :: "retry_policy \<Rightarrow> rat \<Rightarrow> int \<Rightarrow> int \<Rightarrow> failure \<Rightarrow> time \<Rightarrow> retry_plan" where
  "plan_failure p u attempt limit err now =
     (let c = classify err in
      if \<not> fc_retryable c \<or> limit \<le> attempt
      then \<lparr>pl_category = fc_category c, pl_should_retry = False, pl_next_retry_at = None, pl_message = fc_message c\<rparr>
      else \<lparr>pl_category = fc_category c, pl_should_retry = True,
            pl_next_retry_at = Some (now + seconds (retry_delay p u attempt)), pl_message = fc_message c\<rparr>)"

section \<open>The seller's recovery\<close>

definition normalized_reason :: "string option \<Rightarrow> string option" where
  "normalized_reason v = safe_message 300 v"

definition seller_task :: "string \<Rightarrow> int \<Rightarrow> db \<Rightarrow> exn + task" where
  \<comment> \<open>\<open>_seller_task_row\<close> with \<open>for_update\<close>; the title and the buyer's name of the snapshot are left out\<close>
  "seller_task seller tid d =
     ebind (some_or (ServiceExn TaskNotFound) (get_task d tid)) (\<lambda>t.
     ebind (some_or (ServiceExn TaskNotFound) (get_session d (t_session_id t))) (\<lambda>n.
     ebind (some_or (ServiceExn TaskNotFound) (get_product d (ns_product_id n))) (\<lambda>p.
     if p_seller_id p \<noteq> seller \<or> get_user d (ns_buyer_id n) = None then Inl (ServiceExn TaskNotFound)
     else if t_runtime_kind t = ''LANGGRAPH'' then Inl (ServiceExn TaskConflict)
     else Inr t)))"

definition reply_request :: "task \<Rightarrow> string option" where
  "reply_request t = (case jget (t_input_snapshot t) ''reply_request_id'' of JStr s \<Rightarrow> Some s | _ \<Rightarrow> None)"

definition replied :: "int \<Rightarrow> string \<Rightarrow> db \<Rightarrow> bool" where
  "replied sid key d \<longleftrightarrow> list_ex (\<lambda>m. ms_session_id m = sid \<and> ms_request_id m = key) (trows (d_messages d))"

definition unfinished_business :: "task \<Rightarrow> db \<Rightarrow> bool" where
  "unfinished_business t d \<longleftrightarrow>
     (case t_type t of
        CHAT_DECISION \<Rightarrow> (case reply_request t of None \<Rightarrow> True | Some key \<Rightarrow> \<not> replied (t_session_id t) key d)
      | APPROVAL_FOLLOWUP \<Rightarrow>
          (case t_approval_id t of None \<Rightarrow> False | Some aid \<Rightarrow>
             (case get_approval d aid of None \<Rightarrow> False | Some a \<Rightarrow> ap_followup_status a \<noteq> Some FU_SENT)))"

definition manual_action :: "string \<Rightarrow> string \<Rightarrow> string option \<Rightarrow> time \<Rightarrow> task \<Rightarrow> task" where
  "manual_action action actor reason now t =
     t\<lparr>t_last_manual_action := Some action, t_last_manual_actor_id := Some actor, t_last_manual_reason := reason,
       t_last_manual_at := Some now\<rparr>"

definition followup_failed :: "task \<Rightarrow> db \<Rightarrow> db" where
  "followup_failed t d =
     (case t_approval_id t of
        None \<Rightarrow> d | Some aid \<Rightarrow> mod_approval aid (\<lambda>a. a\<lparr>ap_followup_status := Some FU_FAILED\<rparr>) d)"

definition reopened :: "string \<Rightarrow> string option \<Rightarrow> time \<Rightarrow> task \<Rightarrow> task" where
  "reopened seller reason now t = manual_action ''RETRY'' seller (normalized_reason reason) now
     (t\<lparr>t_status := T_PENDING, t_max_attempts := t_max_attempts t + 1, t_manual_retry_count := t_manual_retry_count t + 1,
        t_next_retry_at := None, t_completed_at := None, t_lease_owner := None, t_lease_token := None,
        t_lease_expires_at := None\<rparr>)"

definition retry_failed :: "string \<Rightarrow> int \<Rightarrow> string option \<Rightarrow> time \<Rightarrow> db \<Rightarrow> exn + task \<times> db" where
  "retry_failed seller tid reason now d =
     ebind (seller_task seller tid d) (\<lambda>t.
     if t_status t \<noteq> T_FAILED \<or> \<not> unfinished_business t d then Inl (ServiceExn TaskConflict)
     else flush_task tid (reopened seller reason now t) (followup_failed t d))"

fun pending_call :: "json \<Rightarrow> exn + unit" where
  \<comment> \<open>\<open>call["id"]\<close> and \<open>call["name"]\<close>\<close>
  "pending_call (JObj kvs) =
     (if map_of kvs ''id'' = None \<or> map_of kvs ''name'' = None then Inl KeyExn else Inr ())"
| "pending_call _ = Inl TypeExn"

fun pending_calls :: "json list \<Rightarrow> exn + unit" where
  "pending_calls [] = Inr ()"
| "pending_calls (c # cs) = ebind (pending_call c) (\<lambda>_. pending_calls cs)"

definition close_checkpoint :: "json option \<Rightarrow> exn + json option" where
  \<comment> \<open>open tool calls are closed\<close>
  "close_checkpoint cp =
     (let checkpoint = (case cp of Some (JObj kvs) \<Rightarrow> JObj kvs | _ \<Rightarrow> JObj []) in
      case jget checkpoint ''pending_calls'' of
        JNull \<Rightarrow> Inr cp
      | JBool False \<Rightarrow> Inr cp
      | JInt i \<Rightarrow> if i = 0 then Inr cp else Inl TypeExn
      | JStr [] \<Rightarrow> Inr cp
      | JObj [] \<Rightarrow> Inr cp
      | JArr [] \<Rightarrow> Inr cp
      | JArr (c # cs) \<Rightarrow>
          ebind (pending_calls (c # cs)) (\<lambda>_.
          Inr (Some (jset (jset checkpoint ''pending_calls'' (JArr [])) ''stop_reason'' (JStr ''MANUAL_TERMINATED''))))
      | _ \<Rightarrow> Inl TypeExn)"

definition chat_termination :: "task \<Rightarrow> db \<Rightarrow> exn + task \<times> db" where
  \<comment> \<open>\<open>_persist_chat_termination\<close>: the buyer is told, once\<close>
  "chat_termination t d =
     (case reply_request t of
        None \<Rightarrow> Inr (t, d)
      | Some key \<Rightarrow>
      if key = [] \<or> replied (t_session_id t) key d then Inr (t, d)
      else
      let mid = d_next_message d in
      ebind (tadd IntegrityExn mid
        \<lparr>ms_id = mid, ms_source_id = None, ms_public_seq = None, ms_session_id = t_session_id t, ms_role = AGENT_MESSAGE,
         ms_content = ''request stopped by the seller'', ms_request_id = key, ms_request_fingerprint = None,
         ms_agent_outcome = Some ''SAFE_FAILURE'', ms_formal_offer_id = None\<rparr> (d_messages d)) (\<lambda>ms.
      ebind (close_checkpoint (t_runtime_checkpoint t)) (\<lambda>cp.
      Inr (t\<lparr>t_runtime_checkpoint := cp\<rparr>, d\<lparr>d_messages := ms, d_next_message := mid + 1\<rparr>))))"

definition stopped :: "string \<Rightarrow> string option \<Rightarrow> time \<Rightarrow> task \<Rightarrow> task" where
  "stopped seller reason now t = manual_action ''TERMINATE'' seller (normalized_reason reason) now
     (clear_lease True (t\<lparr>t_status := T_CANCELLED, t_completed_at := Some now\<rparr>))"

definition terminate_task :: "string \<Rightarrow> int \<Rightarrow> string option \<Rightarrow> time \<Rightarrow> db \<Rightarrow> exn + task \<times> db" where
  "terminate_task seller tid reason now d =
     ebind (seller_task seller tid d) (\<lambda>t.
     if t_status t = T_RUNNING \<and> (case t_lease_expires_at t of None \<Rightarrow> True | Some e \<Rightarrow> now < e)
     then Inl (ServiceExn TaskConflict)
     else if t_status t \<notin> {T_PENDING, T_RUNNING, T_RETRY_WAIT, T_FAILED} then Inl (ServiceExn TaskConflict)
     else
     let t' = stopped seller reason now t in
     ebind (if t_type t = CHAT_DECISION then chat_termination t' d else Inr (t', followup_manual t d)) (\<lambda>(t1, d1).
     flush_task tid t1 d1))"

end
