(* ===== verification/Tasks_Spec.thy ===== *)
theory Tasks_Spec
  imports Tasks
begin

text \<open>
  Model tasks: every operation writes one row, the rows stay well formed, attempts stay within their limit, a final
  result is never changed, and a lease excludes every other worker until it ends.
\<close>

section \<open>Rows\<close>

definition task_ended :: "task \<Rightarrow> bool" where
  "task_ended t \<longleftrightarrow> t_status t \<in> {T_SUCCEEDED, T_FAILED, T_STALE, T_CANCELLED}"

definition task_final :: "task \<Rightarrow> bool" where
  "task_final t \<longleftrightarrow> t_status t \<in> {T_SUCCEEDED, T_STALE, T_CANCELLED}"

definition row_sound :: "task \<Rightarrow> bool" where
  "row_sound t \<longleftrightarrow>
     task_checks t \<and> t_attempt_count t \<le> t_max_attempts t \<and> t_max_attempts t \<le> 20 + t_manual_retry_count t
     \<and> (task_ended t \<longleftrightarrow> t_completed_at t \<noteq> None)
     \<and> (t_status t = T_SUCCEEDED \<longrightarrow> t_result_snapshot t \<noteq> None \<and> t_usage t \<noteq> None \<and> t_last_error_category t = None)
     \<and> (t_status t \<in> {T_FAILED, T_STALE, T_RETRY_WAIT} \<longrightarrow> t_last_error_category t \<noteq> None)
     \<and> (t_status t \<in> {T_RUNNING, T_SUCCEEDED} \<longrightarrow> 0 < t_attempt_count t \<and> t_started_at t \<noteq> None)"

definition same_order :: "task \<Rightarrow> task \<Rightarrow> bool" where
  \<comment> \<open>what the task was created for\<close>
  "same_order t t' \<longleftrightarrow>
     t_id t' = t_id t \<and> t_type t' = t_type t \<and> t_business_key t' = t_business_key t \<and> t_session_id t' = t_session_id t
     \<and> t_offer_id t' = t_offer_id t \<and> t_approval_id t' = t_approval_id t \<and> t_session_version t' = t_session_version t
     \<and> t_policy_version t' = t_policy_version t \<and> t_input_snapshot t' = t_input_snapshot t
     \<and> t_input_snapshot_hash t' = t_input_snapshot_hash t \<and> t_snapshot_schema_version t' = t_snapshot_schema_version t
     \<and> t_correlation_id t' = t_correlation_id t \<and> t_runtime_kind t' = t_runtime_kind t"

definition task_later :: "task \<Rightarrow> task \<Rightarrow> bool" where
  "task_later t t' \<longleftrightarrow>
     same_order t t' \<and> t_attempt_count t \<le> t_attempt_count t' \<and> t_manual_retry_count t \<le> t_manual_retry_count t'
     \<and> t_max_attempts t' - t_max_attempts t = t_manual_retry_count t' - t_manual_retry_count t
     \<and> (task_final t \<longrightarrow> t' = t)"

lemma task_later_refl [simp]: "task_later t t"
  by (simp add: task_later_def same_order_def)

lemma task_later_trans: "task_later t u \<Longrightarrow> task_later u v \<Longrightarrow> task_later t v"
  by (auto simp: task_later_def same_order_def)

lemmas row_defs = row_sound_def task_ended_def task_final_def task_later_def same_order_def

lemma row_sound_attempts: "row_sound t \<Longrightarrow> 0 \<le> t_attempt_count t"
  by (simp add: row_sound_def task_checks_def)

section \<open>The table\<close>

definition tasks_sound :: "db \<Rightarrow> bool" where
  "tasks_sound d \<longleftrightarrow>
     keys_ok (d_tasks d)
     \<and> (\<forall>k t. get_task d k = Some t \<longrightarrow> t_id t = k \<and> k < d_next_task d \<and> row_sound t)
     \<and> (\<forall>k t k' t'. get_task d k = Some t \<longrightarrow> get_task d k' = Some t' \<longrightarrow> t_type t = t_type t'
          \<longrightarrow> t_business_key t = t_business_key t' \<longrightarrow> k = k')
     \<and> (\<forall>k t k' t'. get_task d k = Some t \<longrightarrow> get_task d k' = Some t' \<longrightarrow> t_lease_token t \<noteq> None
          \<longrightarrow> t_lease_token t = t_lease_token t' \<longrightarrow> k = k')"

definition tasks_later :: "db \<Rightarrow> db \<Rightarrow> bool" where
  "tasks_later d d' \<longleftrightarrow>
     (\<forall>k t. get_task d k = Some t \<longrightarrow> (\<exists>t'. get_task d' k = Some t' \<and> task_later t t'))"

lemma tasks_later_refl [simp]: "tasks_later d d"
  by (simp add: tasks_later_def)

lemma tasks_later_trans: "tasks_later d e \<Longrightarrow> tasks_later e f \<Longrightarrow> tasks_later d f"
  unfolding tasks_later_def by (meson task_later_trans)

definition wrote :: "int \<Rightarrow> task \<Rightarrow> db \<Rightarrow> db \<Rightarrow> bool" where
  \<comment> \<open>the only row of the table that changed\<close>
  "wrote tid t d d' \<longleftrightarrow>
     d_tasks d' = tput tid t (d_tasks d) \<and> task_checks t
     \<and> (t_lease_token t \<noteq> None \<longrightarrow> (\<forall>r \<in> set (trows (d_tasks d)). t_id r \<noteq> tid \<longrightarrow> t_lease_token r \<noteq> t_lease_token t))"

lemma flush_task_wrote:
  assumes "flush_task tid t d = Inr (t', d')"
  shows "t' = t" and "wrote tid t d d'" and "d_next_task d' = d_next_task d"
  using assms by (auto simp: flush_task_def wrote_def list_ex_iff split: if_splits)

lemma flush_task_eq_Inr [result_simps]:
  "flush_task tid t d = Inr (t', d') \<longleftrightarrow>
     t' = t \<and> d' = d\<lparr>d_tasks := tput tid t (d_tasks d)\<rparr> \<and> task_checks t
     \<and> (t_lease_token t \<noteq> None \<longrightarrow> (\<forall>r \<in> set (trows (d_tasks d)). t_id r \<noteq> tid \<longrightarrow> t_lease_token r \<noteq> t_lease_token t))"
  by (auto simp: flush_task_def list_ex_iff)

definition task_write :: "db \<Rightarrow> db \<Rightarrow> bool" where
  \<comment> \<open>no row changes, or one row moves on\<close>
  "task_write d d' \<longleftrightarrow>
     d_next_task d' = d_next_task d
     \<and> (d_tasks d' = d_tasks d
        \<or> (\<exists>tid t t'. get_task d tid = Some t \<and> wrote tid t' d d' \<and> (row_sound t \<longrightarrow> row_sound t' \<and> task_later t t')))"

lemma task_write_refl [simp]: "task_write d d"
  by (simp add: task_write_def)

lemma task_writeI:
  assumes "get_task d tid = Some t" and "flush_task tid t' e = Inr (r, d')"
    and "d_tasks e = d_tasks d" and "d_next_task e = d_next_task d"
    and "row_sound t \<Longrightarrow> task_checks t' \<Longrightarrow> row_sound t' \<and> task_later t t'"
  shows "task_write d d'"
proof -
  from assms(2) have f: "d' = e\<lparr>d_tasks := tput tid t' (d_tasks e)\<rparr>" "task_checks t'"
    "t_lease_token t' \<noteq> None \<longrightarrow> (\<forall>r \<in> set (trows (d_tasks e)). t_id r \<noteq> tid \<longrightarrow> t_lease_token r \<noteq> t_lease_token t')"
    by (simp_all add: flush_task_eq_Inr)
  have "wrote tid t' d d'" using f assms(3) by (simp add: wrote_def)
  moreover have "d_next_task d' = d_next_task d" using f(1) assms(4) by simp
  ultimately show ?thesis using assms(1,5) f(2) by (auto simp: task_write_def)
qed

lemma tasks_soundD:
  assumes "tasks_sound d"
  shows "keys_ok (d_tasks d)" and "\<And>k t. get_task d k = Some t \<Longrightarrow> t_id t = k"
    and "\<And>k t. get_task d k = Some t \<Longrightarrow> k < d_next_task d" and "\<And>k t. get_task d k = Some t \<Longrightarrow> row_sound t"
    and "\<And>k t k' t'. get_task d k = Some t \<Longrightarrow> get_task d k' = Some t' \<Longrightarrow> t_type t = t_type t' \<Longrightarrow>
      t_business_key t = t_business_key t' \<Longrightarrow> k = k'"
    and "\<And>k t k' t' w. get_task d k = Some t \<Longrightarrow> get_task d k' = Some t' \<Longrightarrow> t_lease_token t = Some w \<Longrightarrow>
      t_lease_token t' = Some w \<Longrightarrow> k = k'"
proof -
  note h = assms [unfolded tasks_sound_def]
  show "keys_ok (d_tasks d)" by (rule conjunct1 [OF h])
  show "t_id t = k" "k < d_next_task d" "row_sound t" if "get_task d k = Some t" for k t
    using conjunct1 [OF conjunct2 [OF h]] that by blast+
  show "k = k'" if "get_task d k = Some t" "get_task d k' = Some t'" "t_type t = t_type t'" "t_business_key t = t_business_key t'"
    for k t k' t'
    using conjunct1 [OF conjunct2 [OF conjunct2 [OF h]]] that by blast
  show "k = k'" if "get_task d k = Some t" "get_task d k' = Some t'" "t_lease_token t = Some w" "t_lease_token t' = Some w"
    for k t k' t' w
  proof -
    from that have "t_lease_token t \<noteq> None" "t_lease_token t = t_lease_token t'" by simp_all
    with conjunct2 [OF conjunct2 [OF conjunct2 [OF h]]] that(1,2) show ?thesis by blast
  qed
qed

lemma write_sound:
  assumes "task_write d d'" and "tasks_sound d"
  shows "tasks_sound d' \<and> tasks_later d d'"
proof (cases "d_tasks d' = d_tasks d")
  case True
  have "d_next_task d' = d_next_task d" using assms(1) by (simp add: task_write_def)
  then have "tasks_sound d' = tasks_sound d" by (simp only: tasks_sound_def True)
  with assms(2) True show ?thesis by (simp add: tasks_later_def)
next
  case False
  note s = tasks_soundD [OF assms(2)]
  from assms(1) False obtain tid t t' where g: "get_task d tid = Some t" and w: "wrote tid t' d d'"
    and r: "row_sound t \<longrightarrow> row_sound t' \<and> task_later t t'" and n: "d_next_task d' = d_next_task d"
    by (auto simp: task_write_def)
  have ok: "row_sound t'" "task_later t t'" using r s(4) [OF g] by blast+
  have get: "get_task d' k = (if k = tid then Some t' else get_task d k)" for k
    using w by (simp add: wrote_def)
  have same: "t_id t' = tid" "t_type t' = t_type t" "t_business_key t' = t_business_key t"
    using ok(2) s(2) [OF g] by (simp_all add: task_later_def same_order_def)
  have token: "k = tid" if "get_task d k = Some u" "t_lease_token t' = Some x" "t_lease_token u = Some x" for k u x
  proof -
    have "u \<in> set (trows (d_tasks d))" using that(1) by (rule tget_in_trows)
    with w that(2,3) have "t_id u = tid" by (auto simp: wrote_def)
    then show ?thesis using s(2) [OF that(1)] by simp
  qed
  have key: "k = tid" if "get_task d k = Some u" "t_type u = t_type t" "t_business_key u = t_business_key t" for k u
    using s(5) [OF that(1) g that(2,3)] .
  have "tasks_sound d'"
    unfolding tasks_sound_def
  proof (intro conjI allI impI)
    show "keys_ok (d_tasks d')" using s(1) w by (simp add: wrote_def)
  next
    fix k u assume u: "get_task d' k = Some u"
    show "t_id u = k" "k < d_next_task d'" "row_sound u"
      using u s(2-4) [of k u] s(3) [OF g] ok(1) same n by (auto simp: get split: if_splits)
  next
    fix k u k' u'
    assume a: "get_task d' k = Some u" "get_task d' k' = Some u'" "t_type u = t_type u'" "t_business_key u = t_business_key u'"
    then show "k = k'"
      using s(5) [of k u k' u'] key [of k u] key [of k' u'] same by (auto simp: get split: if_splits)
  next
    fix k u k' u'
    assume a: "get_task d' k = Some u" "get_task d' k' = Some u'" "t_lease_token u \<noteq> None" "t_lease_token u = t_lease_token u'"
    then show "k = k'"
      using s(6) [of k u k' u'] token [of k u] token [of k' u'] by (auto simp: get split: if_splits)
  qed
  moreover have "tasks_later d d'"
    using ok(2) g by (auto simp: tasks_later_def get)
  ultimately show ?thesis ..
qed

section \<open>Every operation writes one row\<close>

lemma mod_approval_tasks [simp]:
  "d_tasks (followup_manual t d) = d_tasks d" "d_next_task (followup_manual t d) = d_next_task d"
  "d_tasks (followup_failed t d) = d_tasks d" "d_next_task (followup_failed t d) = d_next_task d"
  by (simp_all add: followup_manual_def followup_failed_def split: option.splits)

lemma locked_taskD: "locked_task d tid = Inr t \<Longrightarrow> get_task d tid = Some t"
  by (simp add: locked_task_def some_or_eq_Inr)

lemma leased_taskD:
  "leased_task d tid token now = Inr t \<Longrightarrow> get_task d tid = Some t \<and> active_lease t token now \<and> t_status t = T_RUNNING"
  by (auto simp: leased_task_def ebind_eq_Inr active_lease_def dest: locked_taskD split: if_splits)

lemma eligible_status: "lease_eligible t now \<Longrightarrow> t_status t \<in> {T_PENDING, T_RETRY_WAIT, T_RUNNING}"
  by (cases "t_status t") (simp_all add: lease_eligible_def)

lemma exhausted_row:
  assumes "row_sound t" and "task_checks (exhausted now t)" and "t_status t \<in> {T_PENDING, T_RETRY_WAIT, T_RUNNING}"
  shows "row_sound (exhausted now t) \<and> task_later t (exhausted now t)"
  using assms(3)
  by (elim insertE) (use assms(1,2) in \<open>simp_all add: row_defs exhausted_def clear_lease_def split: option.split\<close>)

lemma apply_lease_row:
  assumes "row_sound t" and "task_checks (apply_lease w token now secs t)" and "t_status t \<in> {T_PENDING, T_RETRY_WAIT, T_RUNNING}"
    and "t_attempt_count t < t_max_attempts t"
  shows "row_sound (apply_lease w token now secs t) \<and> task_later t (apply_lease w token now secs t)"
proof -
  define u where "u = apply_lease w token now secs t"
  have f: "t_status u = T_RUNNING" "t_attempt_count u = t_attempt_count t + 1" "t_max_attempts u = t_max_attempts t"
    "t_manual_retry_count u = t_manual_retry_count t" "t_completed_at u = t_completed_at t" "t_started_at u \<noteq> None"
    by (simp_all add: u_def apply_lease_def split: option.split)
  have "same_order t u" by (simp add: u_def apply_lease_def same_order_def)
  moreover have "t_completed_at t = None" "\<not> task_final t"
    using assms(3) by (elim insertE; use assms(1) in \<open>simp add: row_sound_def task_ended_def task_final_def\<close>)+
  moreover have "0 \<le> t_attempt_count t" "t_max_attempts t \<le> 20 + t_manual_retry_count t"
    using row_sound_attempts [OF assms(1)] assms(1) by (simp_all add: row_sound_def)
  moreover have "task_checks u" using assms(2) by (simp add: u_def)
  ultimately have "row_sound u \<and> task_later t u"
    using f assms(4) by (simp add: row_sound_def task_ended_def task_later_def)
  then show ?thesis by (simp only: u_def)
qed

lemma error_row:
  assumes "row_sound t" and "t_status t = T_RUNNING" and "target \<in> {T_FAILED, T_STALE, T_CANCELLED}"
    and t': "t' = clear_lease True (t\<lparr>t_status := target, t_last_error_category := Some err, t_last_error_message := msg,
       t_usage := used, t_completed_at := Some now\<rparr>)" and "task_checks t'"
  shows "row_sound t' \<and> task_later t t'"
  using assms(3) by (elim insertE) (use assms(1,2,5) in \<open>simp_all add: row_defs clear_lease_def t'\<close>)

lemma give_lease_write:
  assumes "give_lease w token secs now t d = Inr (r, d')" and "get_task d (t_id t) = Some t" and "lease_eligible t now"
  shows "task_write d d'"
proof (cases "t_max_attempts t \<le> t_attempt_count t")
  case True
  with assms have "flush_task (t_id t) (exhausted now t) (followup_manual t d) = Inr (r, d')" by (simp add: give_lease_def)
  then show ?thesis
  proof (rule task_writeI [OF assms(2)])
    show "row_sound (exhausted now t) \<and> task_later t (exhausted now t)" if "row_sound t" "task_checks (exhausted now t)"
      using exhausted_row [OF that eligible_status [OF assms(3)]] .
  qed simp_all
next
  case False
  with assms have "flush_task (t_id t) (apply_lease w token now secs t) d = Inr (r, d')" by (simp add: give_lease_def)
  then show ?thesis
  proof (rule task_writeI [OF assms(2)])
    show "row_sound (apply_lease w token now secs t) \<and> task_later t (apply_lease w token now secs t)"
      if "row_sound t" "task_checks (apply_lease w token now secs t)"
      using apply_lease_row [OF that eligible_status [OF assms(3)]] False by simp
  qed simp_all
qed

lemma lease_task_write:
  assumes "lease_task tid w secs token now d = Inr (r, d')" and "tasks_sound d"
  shows "task_write d d'"
proof (cases "d' = d")
  case False
  with assms(1) obtain x :: string and t :: task and r' :: task where "locked_task d tid = Inr t" "lease_eligible t now"
    and g: "give_lease x token secs now t d = Inr (r', d')"
    unfolding lease_task_def by (elim ebind_InrE if_InrE) (auto split: prod.splits)
  moreover from this have "get_task d tid = Some t" by (intro locked_taskD)
  moreover from this have "t_id t = tid" by (rule tasks_soundD(2) [OF assms(2)])
  ultimately show ?thesis using give_lease_write by blast
qed simp

lemma first_task_in: "first_task ts = Some t \<Longrightarrow> t \<in> set ts"
  by (induction ts arbitrary: t) (auto split: option.splits if_splits)

lemma next_taskD:
  assumes "next_task types now d = Some t" and "tasks_sound d"
  shows "get_task d (t_id t) = Some t" and "lease_eligible t now"
proof -
  from first_task_in [OF assms(1) [unfolded next_task_def]]
  have t: "t \<in> set (trows (d_tasks d))" "lease_eligible t now" by auto
  then obtain k where k: "get_task d k = Some t" using tasks_soundD(1) [OF assms(2)] trows_tget by metis
  with tasks_soundD(2) [OF assms(2)] show "get_task d (t_id t) = Some t" by metis
  show "lease_eligible t now" by (rule t(2))
qed

lemma lease_next_write:
  assumes "lease_next w types secs token now d = Inr (r, d')" and "tasks_sound d"
  shows "task_write d d'"
proof (cases "d' = d")
  case False
  with assms(1) obtain x :: string and t :: task and r' :: task where n: "next_task types now d = Some t"
    and g: "give_lease x token secs now t d = Inr (r', d')"
    unfolding lease_next_def by (elim ebind_InrE if_InrE) (auto split: option.splits elim!: ebind_InrE)
  show ?thesis using give_lease_write [OF g next_taskD [OF n assms(2)]] .
qed simp

lemma complete_success_write:
  assumes "complete_success H tid token result usage now d = Inr (r, d')"
  shows "task_write d d'"
proof -
  obtain stored :: json and h :: string and u :: model_usage and t :: task where
    l: "leased_task d tid token now = Inr t" and
    f: "flush_task tid (clear_lease True (t\<lparr>t_status := T_SUCCEEDED, t_result_snapshot := Some stored, t_usage := Some u,
       t_last_error_category := None, t_last_error_message := None, t_completed_at := Some now\<rparr>)) d = Inr (r, d')"
    using assms unfolding complete_success_def by (elim ebind_InrE) (auto split: prod.splits elim!: ebind_InrE)
  note l' = leased_taskD [OF l]
  from f show ?thesis
    by (rule task_writeI [OF conjunct1 [OF l']]) (use l' in \<open>simp_all add: row_defs clear_lease_def\<close>)
qed

lemma defer_retry_write:
  assumes "defer_retry tid token err retry_at msg now d = Inr (r, d')"
  shows "task_write d d'"
proof -
  obtain t :: task where
    l: "leased_task d tid token now = Inr t" and
    f: "flush_task tid (clear_lease False (t\<lparr>t_status := T_RETRY_WAIT, t_next_retry_at := Some retry_at,
        t_last_error_category := Some err, t_last_error_message := safe_message 500 msg, t_completed_at := None\<rparr>)) d = Inr (r, d')"
    using assms unfolding defer_retry_def by (elim ebind_InrE if_InrE) auto
  note l' = leased_taskD [OF l]
  from f show ?thesis
    by (rule task_writeI [OF conjunct1 [OF l']]) (use l' in \<open>simp_all add: row_defs clear_lease_def\<close>)
qed

lemma complete_error_write:
  assumes "complete_error tid token target err msg usage now d = Inr (r, d')"
    and "target \<in> {T_FAILED, T_STALE, T_CANCELLED}"
  shows "task_write d d'"
proof -
  obtain t :: task and used :: "model_usage option" where
    l: "leased_task d tid token now = Inr t" and
    f: "flush_task tid (clear_lease True (t\<lparr>t_status := target, t_last_error_category := Some err,
         t_last_error_message := safe_message 500 msg, t_usage := used, t_completed_at := Some now\<rparr>))
       (if target = T_FAILED then followup_manual t d else d) = Inr (r, d')"
    using assms(1) unfolding complete_error_def by (elim ebind_InrE) (rule that; simp)
  let ?u = "clear_lease True (t\<lparr>t_status := target, t_last_error_category := Some err,
         t_last_error_message := safe_message 500 msg, t_usage := used, t_completed_at := Some now\<rparr>)"
  note l' = leased_taskD [OF l]
  from f show ?thesis
  proof (rule task_writeI [OF conjunct1 [OF l']])
    show "row_sound ?u \<and> task_later t ?u" if "row_sound t" "task_checks ?u"
      using error_row [OF that(1) _ assms(2) refl that(2)] l' by simp
  qed simp_all
qed

lemma renew_lease_write:
  assumes "renew_lease tid token secs now d = Inr (r, d')"
  shows "task_write d d'"
proof -
  obtain t :: task where
    l: "leased_task d tid token now = Inr t" and
    f: "flush_task tid (t\<lparr>t_lease_expires_at := Some (now + seconds secs)\<rparr>) d = Inr (r, d')"
    using assms unfolding renew_lease_def by (elim ebind_InrE if_InrE) auto
  note l' = leased_taskD [OF l]
  from f show ?thesis
    by (rule task_writeI [OF conjunct1 [OF l']]) (use l' in \<open>simp_all add: row_defs\<close>)
qed

lemma update_checkpoint_write:
  assumes "update_checkpoint H tid token c now d = Inr (r, d')"
  shows "task_write d d'"
proof -
  obtain t :: task and stored :: json where
    l: "leased_task d tid token now = Inr t" and
    f: "flush_task tid (t\<lparr>t_runtime_checkpoint := Some stored\<rparr>) d = Inr (r, d')"
    using assms unfolding update_checkpoint_def by (elim ebind_InrE) (auto split: prod.splits)
  note l' = leased_taskD [OF l]
  from f show ?thesis
    by (rule task_writeI [OF conjunct1 [OF l']]) (use l' in \<open>simp_all add: row_defs\<close>)
qed

section \<open>The seller's recovery and creation\<close>

lemma seller_taskD: "seller_task seller tid d = Inr t \<Longrightarrow> get_task d tid = Some t"
  unfolding seller_task_def by (elim ebind_InrE if_InrE) (simp_all add: some_or_eq_Inr)

lemma retry_failed_write:
  assumes "retry_failed seller tid reason now d = Inr (r, d')"
  shows "task_write d d'"
proof -
  let ?u = "reopened seller reason now"
  obtain t :: task where g: "get_task d tid = Some t" and st: "t_status t = T_FAILED"
    and f: "flush_task tid (?u t) (followup_failed t d) = Inr (r, d')"
    using assms unfolding retry_failed_def by (elim ebind_InrE if_InrE; simp) (rule that, erule seller_taskD, simp_all)
  from f show ?thesis
  proof (rule task_writeI [OF g])
    show "row_sound (?u t) \<and> task_later t (?u t)" if "row_sound t" "task_checks (?u t)"
    proof -
      have "same_order t (?u t)" by (simp add: reopened_def manual_action_def same_order_def)
      moreover have "t_status (?u t) = T_PENDING" "t_attempt_count (?u t) = t_attempt_count t"
        "t_max_attempts (?u t) = t_max_attempts t + 1" "t_manual_retry_count (?u t) = t_manual_retry_count t + 1"
        "t_completed_at (?u t) = None"
        by (simp_all add: reopened_def manual_action_def)
      moreover have "\<not> task_final t" by (simp add: task_final_def st)
      moreover have "t_attempt_count t \<le> t_max_attempts t" "t_max_attempts t \<le> 20 + t_manual_retry_count t"
        using that(1) by (simp_all add: row_sound_def)
      ultimately show ?thesis using that(2) by (simp add: row_sound_def task_ended_def task_later_def)
    qed
  qed simp_all
qed

lemma chat_termination_row:
  assumes "chat_termination t d = Inr (t', d')"
  shows "\<exists>cp. t' = t\<lparr>t_runtime_checkpoint := cp\<rparr>" and "d_tasks d' = d_tasks d" and "d_next_task d' = d_next_task d"
proof -
  have "(\<exists>cp. t' = t\<lparr>t_runtime_checkpoint := cp\<rparr>) \<and> d_tasks d' = d_tasks d \<and> d_next_task d' = d_next_task d"
  proof (cases "t' = t \<and> d' = d")
    case True
    then show ?thesis by (auto intro!: exI [of _ "t_runtime_checkpoint t"])
  next
    case False
    with assms show ?thesis
      unfolding chat_termination_def
      by (auto simp: Let_def split: option.splits if_splits elim!: ebind_InrE)
  qed
  then show "\<exists>cp. t' = t\<lparr>t_runtime_checkpoint := cp\<rparr>" "d_tasks d' = d_tasks d" "d_next_task d' = d_next_task d" by blast+
qed

lemma terminate_task_write:
  assumes "terminate_task seller tid reason now d = Inr (r, d')"
  shows "task_write d d'"
proof -
  let ?u = "stopped seller reason now"
  let ?s = "\<lambda>t. if t_type t = CHAT_DECISION then chat_termination (?u t) d else Inr (?u t, followup_manual t d)"
  obtain t :: task where own: "seller_task seller tid d = Inr t"
    and rest: "(if t_status t = T_RUNNING \<and> (case t_lease_expires_at t of None \<Rightarrow> True | Some e \<Rightarrow> now < e)
     then Inl (ServiceExn TaskConflict)
     else if t_status t \<notin> {T_PENDING, T_RUNNING, T_RETRY_WAIT, T_FAILED} then Inl (ServiceExn TaskConflict)
     else ebind (?s t) (\<lambda>(t1, d1). flush_task tid t1 d1)) = Inr (r, d')"
    using assms unfolding terminate_task_def Let_def by (elim ebind_InrE) (rule that)
  have g: "get_task d tid = Some t" using own by (rule seller_taskD)
  have st: "t_status t \<in> {T_PENDING, T_RUNNING, T_RETRY_WAIT, T_FAILED}" using rest by (elim if_InrE) blast+
  have "ebind (?s t) (\<lambda>(t1, d1). flush_task tid t1 d1) = Inr (r, d')"
    using rest st by (simp only: if_False not_True_eq_False split: if_split_asm) auto
  then obtain y :: "task \<times> db" where y: "?s t = Inr y" "(\<lambda>(t1, d1). flush_task tid t1 d1) y = Inr (r, d')"
    by (rule ebind_InrE)
  obtain t1 :: task and d1 :: db where p: "y = (t1, d1)" by (cases y)
  have c: "?s t = Inr (t1, d1)" using y(1) by (simp only: p)
  have f: "flush_task tid t1 d1 = Inr (r, d')" using y(2) by (simp only: p prod.case)
  have t1: "\<exists>cp. t1 = (?u t)\<lparr>t_runtime_checkpoint := cp\<rparr>" "d_tasks d1 = d_tasks d" "d_next_task d1 = d_next_task d"
  proof -
    have "(\<exists>cp. t1 = (?u t)\<lparr>t_runtime_checkpoint := cp\<rparr>) \<and> d_tasks d1 = d_tasks d \<and> d_next_task d1 = d_next_task d"
    proof (cases "t_type t = CHAT_DECISION")
      case True
      with c have "chat_termination (?u t) d = Inr (t1, d1)" by simp
      from chat_termination_row [OF this] show ?thesis by blast
    next
      case False
      with c have "t1 = ?u t" "d1 = followup_manual t d" by simp_all
      moreover have "?u t = (?u t)\<lparr>t_runtime_checkpoint := t_runtime_checkpoint (?u t)\<rparr>" by simp
      ultimately show ?thesis by (metis mod_approval_tasks(1,2))
    qed
    then show "\<exists>cp. t1 = (?u t)\<lparr>t_runtime_checkpoint := cp\<rparr>" "d_tasks d1 = d_tasks d" "d_next_task d1 = d_next_task d"
      by blast+
  qed
  from f show ?thesis
  proof (rule task_writeI [OF g _ t1(2,3)])
    show "row_sound t1 \<and> task_later t t1" if "row_sound t" "task_checks t1"
    proof -
      obtain cp where cp: "t1 = (?u t)\<lparr>t_runtime_checkpoint := cp\<rparr>" using t1(1) ..
      have "same_order t t1" by (simp add: cp stopped_def manual_action_def clear_lease_def same_order_def)
      moreover have "t_status t1 = T_CANCELLED" "t_attempt_count t1 = t_attempt_count t"
        "t_max_attempts t1 = t_max_attempts t" "t_manual_retry_count t1 = t_manual_retry_count t" "t_completed_at t1 = Some now"
        by (simp_all add: cp stopped_def manual_action_def clear_lease_def)
      moreover have "\<not> task_final t" using st by (auto simp: task_final_def)
      moreover have "t_attempt_count t \<le> t_max_attempts t" "t_max_attempts t \<le> 20 + t_manual_retry_count t"
        using that(1) by (simp_all add: row_sound_def)
      ultimately show ?thesis using that(2) by (simp add: row_sound_def task_ended_def task_later_def)
    qed
  qed
qed

lemma task_of_key_None:
  assumes "task_of_key d ty key = None" and "get_task d k = Some t" and "t_type t = ty"
  shows "t_business_key t \<noteq> key"
  using assms tget_in_trows [OF assms(2)] by (auto simp: task_of_key_def find_None_iff)

lemma create_sound:
  assumes "create_task_in_transaction H given observed fresh q d = Inr (r, d')" and "tasks_sound d"
  shows "tasks_sound d' \<and> tasks_later d d'"
proof (cases "d' = d")
  case False
  note s = tasks_soundD [OF assms(2)]
  define tid where "tid = d_next_task d"
  obtain hash :: string and corr :: string and versions :: "int \<times> int" where
    m: "tq_max_attempts q \<le> 20" "1 \<le> tq_max_attempts q" and
    k: "task_of_key d (tq_type q) (tq_key q) = None" and
    f: "flush_task tid (new_task q hash corr versions tid) (d\<lparr>d_next_task := tid + 1\<rparr>) = Inr (fst r, d')"
    using assms(1) False unfolding create_task_in_transaction_def create_validated_def validated_request_def tid_def [symmetric] Let_def
    by (elim ebind_InrE if_InrE) (auto split: option.splits prod.splits if_splits elim!: ebind_InrE)
  define t where "t = new_task q hash corr versions tid"
  have fields: "t_id t = tid" "t_type t = tq_type q" "t_business_key t = tq_key q" "t_lease_token t = None"
    by (simp_all add: t_def new_task_def)
  from f have d': "d' = (d\<lparr>d_next_task := tid + 1\<rparr>)\<lparr>d_tasks := tput tid t (d_tasks d)\<rparr>" and checks: "task_checks t"
    by (simp_all add: flush_task_eq_Inr t_def)
  have new: "get_task d tid = None"
    using s(3) [of tid] by (cases "get_task d tid") (auto simp: tid_def)
  have get: "get_task d' j = (if j = tid then Some t else get_task d j)" for j
    by (simp add: d')
  have "row_sound t"
    using checks m by (simp add: row_sound_def t_def new_task_def task_ended_def)
  have "tasks_sound d'"
    unfolding tasks_sound_def
  proof (intro conjI allI impI)
    show "keys_ok (d_tasks d')" using s(1) by (simp add: d')
  next
    fix j u assume u: "get_task d' j = Some u"
    show "t_id u = j" "j < d_next_task d'" "row_sound u"
      using u s(2-4) [of j u] \<open>row_sound t\<close> fields by (auto simp: get d' tid_def split: if_splits)
  next
    fix j u j' u'
    assume a: "get_task d' j = Some u" "get_task d' j' = Some u'" "t_type u = t_type u'" "t_business_key u = t_business_key u'"
    then show "j = j'"
      using s(5) [of j u j' u'] task_of_key_None [OF k, of j u] task_of_key_None [OF k, of j' u'] fields
      by (auto simp: get split: if_splits)
  next
    fix j u j' u'
    assume a: "get_task d' j = Some u" "get_task d' j' = Some u'" "t_lease_token u \<noteq> None" "t_lease_token u = t_lease_token u'"
    then show "j = j'"
      using s(6) [of j u j' u'] fields by (auto simp: get split: if_splits)
  qed
  moreover have "tasks_later d d'" using new by (auto simp: tasks_later_def get)
  ultimately show ?thesis ..
qed (simp add: assms(2))

section \<open>Runs\<close>

inductive task_step :: "(json \<Rightarrow> string) \<Rightarrow> db \<Rightarrow> db \<Rightarrow> bool" for H where
  created: "create_task_in_transaction H given observed fresh q d = Inr (r, d') \<Longrightarrow> task_step H d d'"
| leased: "lease_task tid w secs token now d = Inr (o1, d') \<Longrightarrow> task_step H d d'"
| leased_next: "lease_next w types secs token now d = Inr (o1, d') \<Longrightarrow> task_step H d d'"
| succeeded: "complete_success H tid token result usage now d = Inr (t, d') \<Longrightarrow> task_step H d d'"
| deferred: "defer_retry tid token err retry_at msg now d = Inr (t, d') \<Longrightarrow> task_step H d d'"
| failed: "fail_task tid token err msg now d = Inr (t, d') \<Longrightarrow> task_step H d d'"
| staled: "mark_stale tid token msg usage now d = Inr (t, d') \<Longrightarrow> task_step H d d'"
| cancelled: "cancel_with_lease tid token err_msg now d = Inr (t, d') \<Longrightarrow> task_step H d d'"
| renewed: "renew_lease tid token secs now d = Inr (t, d') \<Longrightarrow> task_step H d d'"
| checkpointed: "update_checkpoint H tid token c now d = Inr (t, d') \<Longrightarrow> task_step H d d'"
| retried: "retry_failed seller tid reason now d = Inr (t, d') \<Longrightarrow> task_step H d d'"
| terminated: "terminate_task seller tid reason now d = Inr (t, d') \<Longrightarrow> task_step H d d'"

lemma result_writes:
  "fail_task tid token err msg now d = Inr (t, d') \<Longrightarrow> task_write d d'"
  "mark_stale tid token msg usage now d = Inr (t, d') \<Longrightarrow> task_write d d'"
  "cancel_with_lease tid token err_msg now d = Inr (t, d') \<Longrightarrow> task_write d d'"
  by (simp_all add: fail_task_def mark_stale_def cancel_with_lease_def complete_error_write)

lemmas writes = lease_task_write lease_next_write complete_success_write defer_retry_write renew_lease_write
  update_checkpoint_write retry_failed_write terminate_task_write result_writes

lemma task_step_sound:
  assumes "task_step H d d'" and "tasks_sound d"
  shows "tasks_sound d' \<and> tasks_later d d'"
  using assms(1)
proof cases
  case (created given observed fresh q r)
  then show ?thesis using assms(2) by (rule create_sound)
qed (rule write_sound [OF _ assms(2)], blast intro: writes assms(2))+

lemma task_steps_sound:
  assumes "(task_step H)\<^sup>*\<^sup>* d d'" and "tasks_sound d"
  shows "tasks_sound d' \<and> tasks_later d d'"
  using assms
proof (induction rule: rtranclp_induct)
  case (step y z)
  then have y: "tasks_sound y" "tasks_later d y" by blast+
  with task_step_sound [OF step.hyps(2)] show ?case using tasks_later_trans by blast
qed simp

text \<open>
  C35: Whatever creations, leases, results, retries and manual actions follow one another: no two tasks share an
  idempotency key or a lease token, every row satisfies the constraints of the table, attempts stay within the
  limit and the limit within 20 plus the manual retries, what a task was created for never changes, and a task
  that has succeeded, become stale or been cancelled is never written again.
\<close>

theorem task_runs_sound:
  assumes "(task_step H)\<^sup>*\<^sup>* d d'" and "tasks_sound d"
  shows "tasks_sound d'
    \<and> (\<forall>k t. get_task d k = Some t \<longrightarrow> (\<exists>t'. get_task d' k = Some t' \<and> same_order t t'
          \<and> t_attempt_count t \<le> t_attempt_count t' \<and> t_attempt_count t' \<le> t_max_attempts t'
          \<and> t_max_attempts t' \<le> 20 + t_manual_retry_count t'
          \<and> (t_status t \<in> {T_SUCCEEDED, T_STALE, T_CANCELLED} \<longrightarrow> t' = t)))"
proof -
  have s: "tasks_sound d'" "tasks_later d d'" using task_steps_sound [OF assms] by blast+
  show ?thesis
  proof (intro conjI allI impI)
    fix k t assume "get_task d k = Some t"
    with s(2) obtain t' where t': "get_task d' k = Some t'" "task_later t t'" by (auto simp: tasks_later_def)
    then have "row_sound t'" by (intro tasks_soundD(4) [OF s(1)])
    with t' show "\<exists>t'. get_task d' k = Some t' \<and> same_order t t'
          \<and> t_attempt_count t \<le> t_attempt_count t' \<and> t_attempt_count t' \<le> t_max_attempts t'
          \<and> t_max_attempts t' \<le> 20 + t_manual_retry_count t'
          \<and> (t_status t \<in> {T_SUCCEEDED, T_STALE, T_CANCELLED} \<longrightarrow> t' = t)"
      by (intro exI [of _ t']) (simp add: task_later_def row_sound_def task_final_def)
  qed (rule s(1))
qed

section \<open>Leases exclude one another\<close>

definition claim_row :: "task \<Rightarrow> string \<times> string \<times> int \<Rightarrow> time \<Rightarrow> (string \<times> task) option" where
  "claim_row t k now =
     (case k of (w, token, secs) \<Rightarrow>
        if lease_eligible t now \<and> t_attempt_count t < t_max_attempts t
        then Some (token, apply_lease w token now secs t) else None)"

lemma claim_row_eq_Some:
  "claim_row t (w, token, secs) now = Some (p, t') \<longleftrightarrow>
     lease_eligible t now \<and> t_attempt_count t < t_max_attempts t \<and> p = token \<and> t' = apply_lease w token now secs t"
  by (auto simp: claim_row_def)

interpretation task_lease: exclusive_lease active_lease claim_row
proof
  show "p = q" if "active_lease r p t" "active_lease r q t'" for r p q t t'
    using that by (simp add: active_lease_def)
  show "active_lease r p t'" if "active_lease r p t" "t' \<le> t" for r p t t'
    using that by (auto simp: active_lease_def split: option.splits)
  show "claim_row r k t = None" if "active_lease r p t" for r p t k
    using that by (cases k) (auto simp: active_lease_def claim_row_def lease_eligible_def split: option.splits)
  show "q = p" if "claim_row r k t = Some (p, r')" "active_lease r' q t'" for r k t p r' q t'
    using that by (cases k) (auto simp: claim_row_eq_Some active_lease_def apply_lease_def)
qed

lemma lease_task_claims:
  assumes "lease_task tid w secs token now d = Inr (Some t', d')" and "t_status t' = T_RUNNING" and "tasks_sound d"
  obtains t where "get_task d tid = Some t" and "claim_row t (w, token, secs) now = Some (token, t')" and "get_task d' tid = Some t'"
    and "1 \<le> secs"
proof -
  obtain x :: string and t :: task where x: "lease_request w secs = Inr x" and t: "locked_task d tid = Inr t"
    and e: "lease_eligible t now" and g: "give_lease x token secs now t d = Inr (t', d')"
    using assms(1) unfolding lease_task_def by (elim ebind_InrE if_InrE) (auto split: prod.splits)
  have xw: "x = w" "1 \<le> secs" using x by (auto simp: lease_request_def valid_identifier_def ebind_eq_Inr split: if_splits)
  have get: "get_task d tid = Some t" using t by (rule locked_taskD)
  then have id: "t_id t = tid" by (rule tasks_soundD(2) [OF assms(3)])
  have more: "t_attempt_count t < t_max_attempts t"
  proof (rule ccontr)
    assume "\<not> t_attempt_count t < t_max_attempts t"
    with g have "t' = exhausted now t" by (simp add: give_lease_def flush_task_eq_Inr)
    with assms(2) show False by (simp add: exhausted_def clear_lease_def)
  qed
  with g xw id have "t' = apply_lease w token now secs t" "get_task d' tid = Some t'"
    by (simp_all add: give_lease_def flush_task_eq_Inr)
  with get e more xw show ?thesis by (intro that) (simp_all add: claim_row_eq_Some)
qed

lemma active_not_eligible: "active_lease t token now \<Longrightarrow> \<not> lease_eligible t now"
  by (auto simp: active_lease_def lease_eligible_def split: option.splits)

lemma leased_by_other:
  assumes "get_task d tid = Some t" and "active_lease t token now" and "lease_task tid w secs token' now d = Inr (r, d')"
  shows "r = None \<and> d' = d"
  using assms(1,3) active_not_eligible [OF assms(2)]
  by (auto simp: lease_task_def locked_task_def some_or_def ebind_eq_Inr split: if_splits)

lemma not_leased: "get_task d tid = Some t \<Longrightarrow> \<not> active_lease t token now \<Longrightarrow> leased_task d tid token now = Inl (ServiceExn TaskLease)"
  by (simp add: leased_task_def locked_task_def some_or_def)

definition rejected :: "(json \<Rightarrow> string) \<Rightarrow> int \<Rightarrow> string \<Rightarrow> time \<Rightarrow> db \<Rightarrow> bool" where
  \<comment> \<open>no operation accepts the token\<close>
  "rejected H tid token now d \<longleftrightarrow>
     (\<forall>result usage. isl (complete_success H tid token result usage now d))
     \<and> (\<forall>err retry_at msg. isl (defer_retry tid token err retry_at msg now d))
     \<and> (\<forall>target err msg usage. isl (complete_error tid token target err msg usage now d))
     \<and> (\<forall>secs. isl (renew_lease tid token secs now d)) \<and> (\<forall>c. isl (update_checkpoint H tid token c now d))"

lemma rejectedI:
  assumes "get_task d tid = Some t" and "\<not> active_lease t token now"
  shows "rejected H tid token now d"
proof -
  have no: "ebind (leased_task d tid token now) f = Inl (ServiceExn TaskLease)" for f :: "task \<Rightarrow> exn + 'b"
    by (simp add: not_leased [OF assms])
  show ?thesis
    unfolding rejected_def
  proof (intro conjI allI)
    show "isl (complete_success H tid token result usage now d)" for result usage
      unfolding complete_success_def no
      by (cases "json_object H result"; cases "validated_usage usage") (simp_all add: split_beta)
  qed (simp_all add: defer_retry_def complete_error_def renew_lease_def update_checkpoint_def no)
qed

text \<open>
  When a lease of a task is given, every worker whose lease was valid before has lost it: no result, deferral,
  failure, renewal or checkpoint with another token is accepted at any later time. Until the new lease expires its
  holder is accepted, and nobody can lease the task again.
\<close>

theorem task_lease_exclusive:
  assumes "lease_task tid w secs token now d = Inr (Some t', d1)" and "t_status t' = T_RUNNING" and "tasks_sound d" and "token \<noteq> []"
  shows "(\<forall>q s t. leased_task d tid q s = Inr t \<longrightarrow> s < now)
    \<and> (\<forall>q s. q \<noteq> token \<longrightarrow> rejected H tid q s d1)
    \<and> (\<forall>s. s < now + seconds secs \<longrightarrow> leased_task d1 tid token s = Inr t'
         \<and> (\<forall>v n k r d2. lease_task tid v n k s d1 = Inr (r, d2) \<longrightarrow> r = None \<and> d2 = d1))"
proof -
  obtain t where t: "get_task d tid = Some t" "claim_row t (w, token, secs) now = Some (token, t')" "get_task d1 tid = Some t'"
    using lease_task_claims [OF assms(1-3)] by blast
  have act: "active_lease t' token s" if "s < now + seconds secs" for s
    using t(2) that assms(4) by (auto simp: claim_row_eq_Some active_lease_def apply_lease_def)
  show ?thesis
  proof (intro conjI allI impI)
    fix q s u assume "leased_task d tid q s = Inr u"
    with leased_taskD [OF this] t(1) have "active_lease t q s" by simp
    then show "s < now" by (rule task_lease.claim_expired [OF t(2)])
  next
    fix q s assume "q \<noteq> token"
    then have "\<not> active_lease t' q s" using t(2) by (auto dest: task_lease.claim_owner)
    then show "rejected H tid q s d1" by (rule rejectedI [OF t(3)])
  next
    fix s assume "s < now + seconds secs"
    from act [OF this] show "leased_task d1 tid token s = Inr t'"
      by (simp add: leased_task_def locked_task_def some_or_def t(3))
  next
    fix s v n k r d2 assume s: "s < now + seconds secs" and l: "lease_task tid v n k s d1 = Inr (r, d2)"
    from leased_by_other [OF t(3) act [OF s] l] show "r = None" "d2 = d1" by simp_all
  qed
qed

section \<open>A task is leased, fails and is leased again\<close>

definition sample_task :: task where
  "sample_task = new_task \<lparr>tq_type = CHAT_DECISION, tq_key = ''message:1'', tq_session = 1, tq_input = JObj [], tq_offer = None,
     tq_approval = None, tq_schema_version = 1, tq_max_attempts = 3\<rparr> ''hash'' ''corr'' (1, 1) 1"

definition with_task :: db where
  "with_task = empty_db\<lparr>d_tasks := [(1, sample_task)], d_next_task := 2\<rparr>"

lemma with_task_sound: "tasks_sound with_task"
  by (simp add: tasks_sound_def with_task_def empty_db_def keys_ok_def sample_task_def new_task_def row_sound_def task_checks_def
      task_ended_def)

definition held_task :: "string \<Rightarrow> time \<Rightarrow> int \<Rightarrow> task" where
  "held_task token now secs = apply_lease ''worker'' token now secs sample_task"

lemma sample_leased:
  "lease_task 1 ''worker'' 30 ''first'' 100 with_task
     = Inr (Some (held_task ''first'' 100 30), with_task\<lparr>d_tasks := [(1, held_task ''first'' 100 30)]\<rparr>)"
proof -
  have "lease_request ''worker'' 30 = Inr ''worker''"
    by (simp add: lease_request_def valid_identifier_def is_alnum_def)
  moreover have "get_task with_task 1 = Some sample_task" "d_tasks with_task = [(1, sample_task)]" by (simp_all add: with_task_def)
  moreover have "t_runtime_kind sample_task = ''V3''" "t_status sample_task = T_PENDING" "t_id sample_task = 1"
    "t_max_attempts sample_task = 3" "t_attempt_count sample_task = 0" "t_lease_token sample_task = None"
    by (simp_all add: sample_task_def new_task_def)
  moreover have "task_checks (held_task ''first'' 100 30)"
    by (simp add: held_task_def apply_lease_def sample_task_def new_task_def task_checks_def)
  ultimately show ?thesis
    by (simp add: lease_task_def locked_task_def some_or_def lease_eligible_def give_lease_def flush_task_def held_task_def
        trows_def tput_def)
qed

theorem task_runs_sound_witness:
  "\<exists>(d' :: db) t'. get_task d' 1 = Some t' \<and> same_order sample_task t' \<and> t_attempt_count t' \<le> 20 + t_manual_retry_count t'"
proof -
  have "(task_step (\<lambda>j. ''hash''))\<^sup>*\<^sup>* with_task (with_task\<lparr>d_tasks := [(1, held_task ''first'' 100 30)]\<rparr>)"
    using task_step.leased [OF sample_leased] by blast
  note sound = conjunct2 [OF task_runs_sound [OF this with_task_sound]]
  have "get_task with_task 1 = Some sample_task" by (simp add: with_task_def)
  with sound obtain t' where "get_task (with_task\<lparr>d_tasks := [(1, held_task ''first'' 100 30)]\<rparr>) 1 = Some t'" "same_order sample_task t'"
    "t_attempt_count t' \<le> t_max_attempts t'" "t_max_attempts t' \<le> 20 + t_manual_retry_count t'"
    by blast
  then show ?thesis
    by (intro exI [of _ "with_task\<lparr>d_tasks := [(1, held_task ''first'' 100 30)]\<rparr>"] exI [of _ t']) simp
qed

theorem task_lease_exclusive_witness:
  "rejected (\<lambda>j. ''hash'') 1 ''second'' 101 (with_task\<lparr>d_tasks := [(1, held_task ''first'' 100 30)]\<rparr>)"
proof -
  have "t_status (held_task ''first'' 100 30) = T_RUNNING" by (simp add: held_task_def apply_lease_def)
  from task_lease_exclusive [OF sample_leased this with_task_sound, of "\<lambda>j. ''hash''"] show ?thesis by simp
qed

end
