(* ===== verification/Followup.thy ===== *)
theory Followup
  imports Tasks Evidence
begin

text \<open>
  \<open>backend/app/workers/approval_processor.py\<close> with \<open>agent/approval_followup.py\<close>, the renderer of
  \<open>agent/reply_policy.py\<close> and \<open>services/model_usage_service.py\<close>: after a seller's review, a worker of the earlier
  runtime leases a task, lets the language model draft the notice outside of any transaction, and then, in one
  transaction, rechecks the business facts, applies the review and stores the notice.

  The answer of the model is a parameter. Observability events and the copy of the notice for the transcript of the
  language model are left out, the wording of the notice is given by English tags.
\<close>

section \<open>Events and requests\<close>

datatype followup_event = EV_APPROVED | EV_REJECTED | EV_INVALIDATED

datatype followup_outcome = OUT_APPROVED | OUT_REJECTED | OUT_INVALIDATED

fun event_text :: "followup_event \<Rightarrow> string" where
  "event_text EV_APPROVED = ''APPROVED''"
| "event_text EV_REJECTED = ''REJECTED''"
| "event_text EV_INVALIDATED = ''INVALIDATED''"

definition read_event :: "string \<Rightarrow> followup_event option" where
  "read_event s =
     (if s = ''APPROVED'' then Some EV_APPROVED else if s = ''REJECTED'' then Some EV_REJECTED
      else if s = ''INVALIDATED'' then Some EV_INVALIDATED else None)"

fun outcome_text :: "followup_outcome \<Rightarrow> string" where
  "outcome_text OUT_APPROVED = ''APPROVAL_APPROVED''"
| "outcome_text OUT_REJECTED = ''APPROVAL_REJECTED''"
| "outcome_text OUT_INVALIDATED = ''APPROVAL_INVALIDATED''"

definition stored_outcome :: "string option \<Rightarrow> followup_outcome option" where
  "stored_outcome v =
     (if v = Some ''APPROVAL_APPROVED'' then Some OUT_APPROVED
      else if v = Some ''APPROVAL_REJECTED'' then Some OUT_REJECTED
      else if v = Some ''APPROVAL_INVALIDATED'' then Some OUT_INVALIDATED else None)"

record followup_draft =
  fd_event :: followup_event
  fd_reason :: string
  fd_reply :: string

record followup_request =
  fr_approval_id :: int
  fr_event :: followup_event
  fr_title :: string
  fr_offer_id :: int
  fr_price :: string
  fr_paid_by :: string
  fr_cost :: "string option"
  fr_discount :: string
  fr_terms :: extra_terms
  fr_comment :: "string option"

record followup_result =
  fo_approval_id :: int
  fo_status :: "followup_status option"
  fo_message_id :: "int option"
  fo_outcome :: "followup_outcome option"

definition agent_request :: "approval \<Rightarrow> offer \<Rightarrow> product \<Rightarrow> followup_event \<Rightarrow> followup_request" where
  "agent_request a off p e =
     \<lparr>fr_approval_id = ap_id a, fr_event = e, fr_title = p_title p, fr_offer_id = of_id off, fr_price = show_cents (of_price off),
      fr_paid_by = show_payer (of_shipping_paid_by off), fr_cost = map_option show_cents (of_shipping_cost off),
      fr_discount = show_cents (of_seller_borne_discount off), fr_terms = of_terms off, fr_comment = ap_seller_comment a\<rparr>"

fun proposer_text :: "offer_proposer \<Rightarrow> string" where
  "proposer_text BUYER = ''BUYER''"
| "proposer_text AGENT = ''AGENT''"

fun offer_status_text :: "offer_status \<Rightarrow> string" where
  "offer_status_text PROPOSED = ''PROPOSED''"
| "offer_status_text ACCEPTED = ''ACCEPTED''"
| "offer_status_text REJECTED = ''REJECTED''"
| "offer_status_text WITHDRAWN = ''WITHDRAWN''"

definition offer_result :: "offer \<Rightarrow> json" where
  "offer_result off = JObj [(''ok'', JBool True), (''offer'', JObj
     [(''id'', JInt (of_id off)), (''proposer'', JStr (proposer_text (of_proposer off))), (''price'', JStr (show_cents (of_price off))),
      (''shipping_paid_by'', JStr (show_payer (of_shipping_paid_by off))),
      (''shipping_cost'', jopt (\<lambda>c. JStr (show_cents c)) (of_shipping_cost off)),
      (''seller_borne_discount'', JStr (show_cents (of_seller_borne_discount off))), (''additional_terms'', JObj (of_terms off)),
      (''status'', JStr (offer_status_text (of_status off)))])]"

definition request_json :: "followup_request \<Rightarrow> json" where
  "request_json q = JObj [(''approval_id'', JInt (fr_approval_id q)), (''event'', JStr (event_text (fr_event q))),
     (''product_title'', JStr (fr_title q)), (''offer_id'', JInt (fr_offer_id q)), (''price'', JStr (fr_price q)),
     (''shipping_paid_by'', JStr (fr_paid_by q)), (''shipping_cost'', jopt JStr (fr_cost q)),
     (''seller_borne_discount'', JStr (fr_discount q)), (''additional_terms'', JObj (fr_terms q)),
     (''seller_comment'', jopt JStr (fr_comment q))]"

definition serialize_task_input :: "followup_request \<Rightarrow> json \<Rightarrow> json" where
  "serialize_task_input q off = JObj [(''request'', request_json q), (''offer_result'', off)]"

abbreviation processing_error :: exn where
  "processing_error \<equiv> RuntimeExn ''approval followup''"

fun int_of :: "json \<Rightarrow> exn + int" where
  \<comment> \<open>\<open>int(value)\<close>, texts of ASCII digits\<close>
  "int_of (JInt i) = Inr i"
| "int_of (JBool b) = Inr (if b then 1 else 0)"
| "int_of (JStr s) =
     (case take_sign (strip s) of (neg, cs) \<Rightarrow>
        (case read_nat cs of None \<Rightarrow> Inl processing_error | Some n \<Rightarrow> Inr (if neg then - int n else int n)))"
| "int_of _ = Inl processing_error"

fun text_of :: "json \<Rightarrow> exn + string" where
  \<comment> \<open>\<open>str(value)\<close>; containers, which no writer stores in these fields, are rejected\<close>
  "text_of (JStr s) = Inr s"
| "text_of (JInt i) = Inr (show_int i)"
| "text_of (JBool b) = Inr (if b then ''True'' else ''False'')"
| "text_of JNull = Inr ''None''"
| "text_of _ = Inl processing_error"

definition field :: "(string \<times> json) list \<Rightarrow> string \<Rightarrow> exn + json" where
  "field kvs k = some_or processing_error (map_of kvs k)"

definition optional_text :: "(string \<times> json) list \<Rightarrow> string \<Rightarrow> exn + string option" where
  "optional_text kvs k =
     (if jget (JObj kvs) k = JNull then Inr None else ebind (text_of (jget (JObj kvs) k)) (\<lambda>s. Inr (Some s)))"

fun dict_or_empty :: "json \<Rightarrow> exn + extra_terms" where
  \<comment> \<open>\<open>dict(value or {})\<close>\<close>
  "dict_or_empty (JObj kvs) = Inr kvs"
| "dict_or_empty JNull = Inr []"
| "dict_or_empty (JBool b) = (if b then Inl processing_error else Inr [])"
| "dict_or_empty (JInt i) = (if i = 0 then Inr [] else Inl processing_error)"
| "dict_or_empty (JStr s) = (if s = [] then Inr [] else Inl processing_error)"
| "dict_or_empty (JArr xs) = (if xs = [] then Inr [] else Inl processing_error)"
| "dict_or_empty JOpaque = Inl processing_error"

definition read_request :: "(string \<times> json) list \<Rightarrow> exn + followup_request" where
  "read_request raw =
     ebind (ebind (field raw ''approval_id'') int_of) (\<lambda>aid.
     ebind (ebind (field raw ''event'') text_of) (\<lambda>es.
     ebind (some_or processing_error (read_event es)) (\<lambda>e.
     ebind (ebind (field raw ''product_title'') text_of) (\<lambda>title.
     ebind (ebind (field raw ''offer_id'') int_of) (\<lambda>oid.
     ebind (ebind (field raw ''price'') text_of) (\<lambda>price.
     ebind (ebind (field raw ''shipping_paid_by'') text_of) (\<lambda>payer.
     ebind (optional_text raw ''shipping_cost'') (\<lambda>cost.
     ebind (ebind (field raw ''seller_borne_discount'') text_of) (\<lambda>discount.
     ebind (dict_or_empty (jget (JObj raw) ''additional_terms'')) (\<lambda>terms.
     ebind (optional_text raw ''seller_comment'') (\<lambda>comment.
     Inr \<lparr>fr_approval_id = aid, fr_event = e, fr_title = title, fr_offer_id = oid, fr_price = price, fr_paid_by = payer,
          fr_cost = cost, fr_discount = discount, fr_terms = terms, fr_comment = comment\<rparr>)))))))))))"

definition task_input :: "json \<Rightarrow> exn + followup_request \<times> json" where
  "task_input snapshot =
     (case (jget snapshot ''request'', jget snapshot ''offer_result'') of
        (JObj raw, JObj kvs) \<Rightarrow> ebind (read_request raw) (\<lambda>q. Inr (q, JObj kvs))
      | _ \<Rightarrow> Inl processing_error)"

section \<open>The rendered notice\<close>

abbreviation agent_error :: exn where
  "agent_error \<equiv> RuntimeExn ''approval followup agent''"

definition money_text :: "json \<Rightarrow> exn + string" where
  "money_text v =
     (case py_str v of
        None \<Rightarrow> Inl agent_error
      | Some s \<Rightarrow>
          (case parse_decimal s of
             Some (Finite neg c e) \<Rightarrow>
               if neg \<and> c \<noteq> 0 then Inl agent_error
               else Inr ((if neg then ''-'' else '''') @ show_cents (to_cents c e))
           | _ \<Rightarrow> Inl agent_error))"

definition validated_offer :: "json \<Rightarrow> offer_proposer \<Rightarrow> offer_status list \<Rightarrow> exn + (string \<times> json) list" where
  "validated_offer result who expected =
     (case (jget result ''ok'', jget result ''offer'') of
        (JBool True, JObj kvs) \<Rightarrow>
          if jget (JObj kvs) ''proposer'' = JStr (proposer_text who)
             \<and> list_ex (\<lambda>s. jget (JObj kvs) ''status'' = JStr (offer_status_text s)) expected
             \<and> (case jget (JObj kvs) ''id'' of JInt i \<Rightarrow> 0 < i | _ \<Rightarrow> False)
          then Inr kvs else Inl agent_error
      | _ \<Rightarrow> Inl agent_error)"

definition shipping_text :: "(string \<times> json) list \<Rightarrow> exn + string" where
  "shipping_text kvs =
     (if jget (JObj kvs) ''shipping_paid_by'' = JStr ''seller'' then Inr '', shipping included''
      else if jget (JObj kvs) ''shipping_paid_by'' = JStr ''buyer'' then Inr '', shipping paid by the buyer''
      else Inl agent_error)"

definition discount_text :: "(string \<times> json) list \<Rightarrow> exn + string" where
  "discount_text kvs =
     ebind (money_text (case map_of kvs ''seller_borne_discount'' of None \<Rightarrow> JStr ''0.00'' | Some v \<Rightarrow> v)) (\<lambda>s.
     Inr (if s = ''0.00'' \<or> s = ''-0.00'' then [] else '', discount '' @ s))"

definition delivery_text :: "(string \<times> json) list \<Rightarrow> exn + string" where
  "delivery_text kvs =
     (case jget (JObj kvs) ''additional_terms'' of
        JObj (x # xs) \<Rightarrow>
          if jget (JObj (x # xs)) ''delivery_method'' = JStr ''pickup'' then Inr '', by pickup''
          else if jget (JObj (x # xs)) ''delivery_method'' = JStr ''shipping'' then Inr '', by shipping''
          else Inl agent_error
      | _ \<Rightarrow> Inr [])"

definition terms_text :: "string \<Rightarrow> (string \<times> json) list \<Rightarrow> exn + string" where
  "terms_text lead kvs =
     ebind (some_or agent_error (map_of kvs ''price'')) (\<lambda>v.
     ebind (money_text v) (\<lambda>price.
     ebind (shipping_text kvs) (\<lambda>shipping.
     ebind (discount_text kvs) (\<lambda>discount.
     ebind (delivery_text kvs) (\<lambda>delivery.
     Inr (lead @ price @ shipping @ discount @ delivery))))))"

definition invalidated_text :: "(string \<times> json) list \<Rightarrow> exn + string" where
  "invalidated_text kvs =
     ebind (some_or agent_error (map_of kvs ''price'')) (\<lambda>v.
     ebind (money_text v) (\<lambda>price. Inr (''conditions changed, no longer authorised: '' @ price)))"

definition render_trusted_event :: "followup_request \<Rightarrow> json \<Rightarrow> exn + string \<times> followup_outcome" where
  "render_trusted_event q result =
     (case fr_event q of
        EV_APPROVED \<Rightarrow> ebind (validated_offer result BUYER [PROPOSED]) (\<lambda>kvs.
          ebind (terms_text ''the seller agrees to '' kvs) (\<lambda>s. Inr (s, OUT_APPROVED)))
      | EV_REJECTED \<Rightarrow> ebind (validated_offer result BUYER [REJECTED]) (\<lambda>kvs.
          ebind (terms_text ''the seller declines '' kvs) (\<lambda>s. Inr (s, OUT_REJECTED)))
      | EV_INVALIDATED \<Rightarrow> ebind (validated_offer result BUYER [PROPOSED, ACCEPTED, REJECTED, WITHDRAWN]) (\<lambda>kvs.
          ebind (invalidated_text kvs) (\<lambda>s. Inr (s, OUT_INVALIDATED))))"

definition apply_draft :: "followup_request \<Rightarrow> json \<Rightarrow> followup_draft \<Rightarrow> exn + string \<times> followup_outcome" where
  "apply_draft q result draft =
     (if fd_event draft \<noteq> fr_event q then Inl agent_error else render_trusted_event q result)"

section \<open>Usage\<close>

record provider_usage =
  pu_provider :: string
  pu_model_name :: string
  pu_input :: "int option"
  pu_output :: "int option"
  pu_cached :: "int option"
  pu_total :: "int option"

record usage_prices =
  up_input :: "cost option" \<comment> \<open>per million tokens\<close>
  up_output :: "cost option"
  up_cached :: "cost option"
  up_currency :: "string option"

definition half_up :: "int \<Rightarrow> int \<Rightarrow> int" where
  \<comment> \<open>\<open>x / d\<close> rounded, ties away from zero\<close>
  "half_up x d = (if 0 \<le> x then (2 * x + d) div (2 * d) else - ((2 * - x + d) div (2 * d)))"

definition estimated_cost :: "usage_prices \<Rightarrow> provider_usage \<Rightarrow> cost option" where
  "estimated_cost p u =
     (case (pu_input u, pu_output u, up_input p, up_output p, up_currency p) of
        (Some i, Some out, Some ip, Some op, Some c) \<Rightarrow>
          let cached = (case pu_cached u of None \<Rightarrow> 0 | Some k \<Rightarrow> k) in
          if cached \<le> i \<and> (cached = 0 \<or> up_cached p \<noteq> None)
          then Some (half_up ((i - cached) * ip + (case up_cached p of None \<Rightarrow> 0 | Some cp \<Rightarrow> cached * cp) + out * op) 1000000)
          else None
      | _ \<Rightarrow> None)"

definition build_usage :: "usage_prices \<Rightarrow> provider_usage \<Rightarrow> model_usage" where
  "build_usage p u =
     \<lparr>us_provider = pu_provider u, us_model_name = pu_model_name u, us_input_tokens = pu_input u, us_output_tokens = pu_output u,
      us_cached_input_tokens = pu_cached u, us_total_tokens = pu_total u, us_input_price = up_input p, us_output_price = up_output p,
      us_cached_input_price = up_cached p, us_estimated_cost = estimated_cost p u, us_cost_currency = up_currency p\<rparr>"

section \<open>Business facts\<close>

definition load_context :: "db \<Rightarrow> approval \<Rightarrow> exn + session \<times> product \<times> offer \<times> policy option" where
  "load_context d a =
     ebind (some_or processing_error (get_session d (ap_session_id a))) (\<lambda>n.
     ebind (some_or processing_error (get_offer d (ap_offer_id a))) (\<lambda>off.
     if of_session_id off \<noteq> ap_session_id a then Inl processing_error
     else
     ebind (some_or processing_error (get_product d (ns_product_id n))) (\<lambda>p.
     Inr (n, p, off, get_policy d (ns_product_id n)))))"

definition resolve_event ::
    "approval \<Rightarrow> session \<Rightarrow> product \<Rightarrow> offer \<Rightarrow> policy option \<Rightarrow> time \<Rightarrow> exn + followup_event" where
  "resolve_event a n p off pol now =
     (if of_proposer off \<noteq> BUYER then Inl processing_error
      else if ap_status a = AP_REJECTED then
        (if of_status off \<noteq> REJECTED then Inl processing_error else Inr EV_REJECTED)
      else if ap_status a \<noteq> AP_APPROVED then Inl processing_error
      else if ns_status n \<noteq> WAITING_APPROVAL \<or> ns_current_offer_id n \<noteq> Some (of_id off) \<or> p_status p \<noteq> AVAILABLE
         \<or> of_status off \<noteq> PROPOSED then Inr EV_INVALIDATED
      else case pol of
        None \<Rightarrow> Inr EV_INVALIDATED
      | Some sp \<Rightarrow>
          if sp_version sp \<noteq> ap_policy_version a \<or> is_expired (of_expires_at off) now then Inr EV_INVALIDATED
          else case authorize_stored_offer off sp of
            Inl e \<Rightarrow> Inl processing_error
          | Inr au \<Rightarrow> Inr (if au_can_request_approval au then EV_APPROVED else EV_INVALIDATED))"

definition apply_successful_event :: "int \<Rightarrow> offer \<Rightarrow> followup_event \<Rightarrow> db \<Rightarrow> db" where
  "apply_successful_event sid off e d =
     restore_active sid
       (if e = EV_APPROVED then mod_offer (of_id off) (\<lambda>x. x\<lparr>of_status := ACCEPTED\<rparr>) d
        else if e = EV_INVALIDATED \<and> of_status off = PROPOSED then mod_offer (of_id off) (\<lambda>x. x\<lparr>of_status := WITHDRAWN\<rparr>) d
        else d)"

definition stale_reason ::
    "task \<Rightarrow> session \<Rightarrow> policy option \<Rightarrow> offer \<Rightarrow> approval \<Rightarrow> followup_request \<Rightarrow> followup_request \<Rightarrow> string option" where
  "stale_reason t n pol off a original current =
     (if t_session_version t \<noteq> ns_version n then Some ''session changed''
      else if (case pol of None \<Rightarrow> True | Some sp \<Rightarrow> t_policy_version t \<noteq> sp_version sp) then Some ''policy changed''
      else if t_offer_id t \<noteq> Some (of_id off) \<or> t_approval_id t \<noteq> Some (ap_id a) then Some ''references changed''
      else if original \<noteq> current then Some ''input changed''
      else None)"

definition existing_message :: "db \<Rightarrow> int \<Rightarrow> string \<Rightarrow> message option" where
  "existing_message d sid key = find (\<lambda>m. ms_session_id m = sid \<and> ms_request_id m = key) (trows (d_messages d))"

definition notice_outcome :: "message \<Rightarrow> followup_outcome option" where
  "notice_outcome m = (if ms_role m = AGENT_MESSAGE then stored_outcome (ms_agent_outcome m) else None)"

definition mark_followup :: "int \<Rightarrow> followup_status \<Rightarrow> db \<Rightarrow> db" where
  "mark_followup aid st = mod_approval aid (\<lambda>a. a\<lparr>ap_followup_status := Some st\<rparr>)"

definition persist_message :: "approval \<Rightarrow> string \<Rightarrow> string \<Rightarrow> followup_outcome \<Rightarrow> int option \<Rightarrow> db \<Rightarrow> exn + int \<times> db" where
  "persist_message a key reply out formal d =
     (let mid = d_next_message d in
      if replied (ap_session_id a) key d then Inl IntegrityExn
      else
      ebind (tadd IntegrityExn mid
        \<lparr>ms_id = mid, ms_source_id = None, ms_public_seq = None, ms_session_id = ap_session_id a, ms_role = AGENT_MESSAGE,
         ms_content = reply, ms_request_id = key, ms_request_fingerprint = None, ms_agent_outcome = Some (outcome_text out),
         ms_formal_offer_id = formal\<rparr> (d_messages d)) (\<lambda>ms.
      Inr (mid, mark_followup (ap_id a) FU_SENT (d\<lparr>d_messages := ms, d_next_message := mid + 1\<rparr>))))"

section \<open>Transactions\<close>

definition settled_notice :: "int \<Rightarrow> followup_status \<Rightarrow> int option \<Rightarrow> followup_outcome option \<Rightarrow> followup_result" where
  "settled_notice aid st mid out = \<lparr>fo_approval_id = aid, fo_status = Some st, fo_message_id = mid, fo_outcome = out\<rparr>"

definition task_approval :: "task \<Rightarrow> db \<Rightarrow> approval option" where
  "task_approval t d = (case t_approval_id t of None \<Rightarrow> None | Some k \<Rightarrow> get_approval d k)"

definition task_approval_id :: "task \<Rightarrow> int" where
  "task_approval_id t = (case t_approval_id t of None \<Rightarrow> 0 | Some k \<Rightarrow> k)"

definition manual :: "approval \<Rightarrow> db \<Rightarrow> followup_result \<times> db" where
  \<comment> \<open>\<open>_mark_manual_required\<close>\<close>
  "manual a d = (settled_notice (ap_id a) FU_MANUAL_REQUIRED None None, mark_followup (ap_id a) FU_MANUAL_REQUIRED d)"

definition apply_failure ::
    "retry_policy \<Rightarrow> (int \<Rightarrow> int \<Rightarrow> rat) \<Rightarrow> approval option \<Rightarrow> task \<Rightarrow> string \<Rightarrow> failure \<Rightarrow> time \<Rightarrow> time \<Rightarrow> db
      \<Rightarrow> exn + followup_status \<times> db" where
  \<comment> \<open>\<open>unit tid attempt\<close>: the digest of the task and the attempt, scaled to \<open>[0, 1]\<close>\<close>
  "apply_failure p unit a t token err planned_at now d =
     (let plan = plan_failure p (unit (t_id t) (t_attempt_count t)) (t_attempt_count t) (t_max_attempts t) err planned_at in
      ebind (case (pl_should_retry plan, pl_next_retry_at plan) of
               (True, Some at1) \<Rightarrow>
                 ebind (defer_retry (t_id t) token (pl_category plan) at1 (Some (pl_message plan)) now d) (\<lambda>(_, d1). Inr (FU_FAILED, d1))
             | _ \<Rightarrow>
                 ebind (fail_task (t_id t) token (pl_category plan) (Some (pl_message plan)) now d) (\<lambda>(_, d1).
                 Inr (FU_MANUAL_REQUIRED, d1))) (\<lambda>(st, d1).
      Inr (st, case a of None \<Rightarrow> d1 | Some x \<Rightarrow> mark_followup (ap_id x) st d1)))"

definition handle_failed ::
    "retry_policy \<Rightarrow> (int \<Rightarrow> int \<Rightarrow> rat) \<Rightarrow> task \<Rightarrow> string \<Rightarrow> failure \<Rightarrow> time \<Rightarrow> time \<Rightarrow> db \<Rightarrow> exn + followup_result \<times> db" where
  "handle_failed p unit t token err planned_at now d =
     ebind (apply_failure p unit (task_approval t d) t token err planned_at now d) (\<lambda>(st, d1).
     Inr (settled_notice (task_approval_id t) st None None, d1))"

definition draft_json :: "followup_draft \<Rightarrow> json" where
  "draft_json x = JObj [(''draft'', JObj [(''acknowledged_event'', JStr (event_text (fd_event x))), (''reason'', JStr (fd_reason x)),
     (''reply'', JStr (fd_reply x))])]"

definition safe_stale_result ::
    "approval \<Rightarrow> session \<Rightarrow> offer \<Rightarrow> followup_event \<Rightarrow> followup_request \<Rightarrow> db \<Rightarrow> exn + (string \<times> followup_outcome) \<times> db" where
  "safe_stale_result a n off e current d =
     (if e = EV_INVALIDATED \<and> ns_current_offer_id n = Some (of_id off)
      then ebind (render_trusted_event current (offer_result off)) (\<lambda>r.
           Inr (r, apply_successful_event (ap_session_id a) off e d))
      else Inr ((''conditions changed during the approval'', OUT_INVALIDATED), d))"

definition facts_of :: "db \<Rightarrow> approval \<Rightarrow> time \<Rightarrow> exn + (session \<times> product \<times> offer \<times> policy option) \<times> followup_event" where
  "facts_of d a now =
     ebind (load_context d a) (\<lambda>(n, p, off, pol).
     ebind (resolve_event a n p off pol now) (\<lambda>e. Inr ((n, p, off, pol), e)))"

definition conclude ::
    "(json \<Rightarrow> string) \<Rightarrow> retry_policy \<Rightarrow> (int \<Rightarrow> int \<Rightarrow> rat) \<Rightarrow> task \<Rightarrow> string \<Rightarrow> followup_draft \<Rightarrow> model_usage \<Rightarrow>
      approval \<Rightarrow> string \<Rightarrow> (session \<times> product \<times> offer \<times> policy option) \<times> followup_event \<Rightarrow> time \<Rightarrow> time \<Rightarrow> db
      \<Rightarrow> exn + followup_result \<times> db" where
  \<comment> \<open>the end of \<open>_finalize_followup\<close>, from \<open>_task_input\<close> on\<close>
  "conclude H p unit t token draft usage a key facts c2 c3 d =
     (case facts of ((n, pr, off, pol), e) \<Rightarrow>
      ebind (task_input (t_input_snapshot t)) (\<lambda>(original, original_result).
      let current = agent_request a off pr e in
      case stale_reason t n pol off a original current of
        None \<Rightarrow>
          (case apply_draft original original_result draft of
             Inl _ \<Rightarrow>
               ebind (apply_failure p unit (Some a) t token OutputFailure c2 c3 d) (\<lambda>(st, d1).
               Inr (settled_notice (ap_id a) st None None, d1))
           | Inr (reply, out) \<Rightarrow>
               ebind (persist_message a key reply out (if e = EV_APPROVED then Some (of_id off) else None)
                 (apply_successful_event (ap_session_id a) off e d)) (\<lambda>(mid, d1).
               ebind (complete_success H (t_id t) token (draft_json draft) usage c2 d1) (\<lambda>(_, d2).
               Inr (settled_notice (ap_id a) FU_SENT (Some mid) (Some out), d2))))
      | Some why \<Rightarrow>
          ebind (safe_stale_result a n off e current d) (\<lambda>((reply, out), d1).
          ebind (persist_message a key reply out None d1) (\<lambda>(mid, d2).
          ebind (mark_stale (t_id t) token (Some why) (Some usage) c2 d2) (\<lambda>(_, d3).
          Inr (settled_notice (ap_id a) FU_SENT (Some mid) (Some out), d3))))))"

definition finalize_followup ::
    "(json \<Rightarrow> string) \<Rightarrow> retry_policy \<Rightarrow> (int \<Rightarrow> int \<Rightarrow> rat) \<Rightarrow> task \<Rightarrow> string \<Rightarrow> followup_draft \<Rightarrow> model_usage \<Rightarrow>
      time \<times> time \<times> time \<times> time \<Rightarrow> db \<Rightarrow> exn + followup_result \<times> db" where
  \<comment> \<open>the clock is read for the lease, for the offer's deadline, for the result and for a failure\<close>
  "finalize_followup H p unit lt token draft usage clock d =
     (case clock of (c1, now, c2, c3) \<Rightarrow>
      let tid = t_id lt; stale = (\<lambda>why d1. mark_stale tid token (Some why) (Some usage) c2 d1) in
      ebind (leased_task d tid token c1) (\<lambda>t.
      case task_approval lt d of
        None \<Rightarrow> ebind (stale ''approval gone'' d) (\<lambda>(_, d1). Inr (settled_notice (task_approval_id lt) FU_FAILED None None, d1))
      | Some a \<Rightarrow>
      case (case ap_followup_request_id a of Some [] \<Rightarrow> None | k \<Rightarrow> k) of
        None \<Rightarrow> ebind (stale ''notice key gone'' d) (\<lambda>(_, d1). Inr (manual a d1))
      | Some key \<Rightarrow>
      case existing_message d (ap_session_id a) key of
        Some m \<Rightarrow>
          (case notice_outcome m of
             None \<Rightarrow> ebind (stale ''notice key taken'' d) (\<lambda>(_, d1). Inr (manual a d1))
           | Some out \<Rightarrow>
               ebind (stale ''notice already sent'' (mark_followup (ap_id a) FU_SENT d)) (\<lambda>(_, d1).
               Inr (settled_notice (ap_id a) FU_SENT (Some (ms_id m)) (Some out), d1)))
      | None \<Rightarrow>
      case facts_of d a now of
        Inl _ \<Rightarrow> ebind (stale ''facts do not fit'' d) (\<lambda>(_, d1). Inr (manual a d1))
      | Inr facts \<Rightarrow> conclude H p unit t token draft usage a key facts c2 c3 d))"

definition lease_lost :: "task \<Rightarrow> db \<Rightarrow> followup_result" where
  "lease_lost t d =
     (case task_approval t d of
        None \<Rightarrow> settled_notice (task_approval_id t) FU_FAILED None None
      | Some a \<Rightarrow>
          let m = (case ap_followup_request_id a of
                     None \<Rightarrow> None | Some k \<Rightarrow> if k = [] then None else existing_message d (ap_session_id a) k)
          in \<lparr>fo_approval_id = ap_id a, fo_status = ap_followup_status a, fo_message_id = map_option ms_id m,
              fo_outcome = (case m of None \<Rightarrow> None | Some x \<Rightarrow> stored_outcome (ms_agent_outcome x))\<rparr>)"

section \<open>The worker\<close>

record followup_env =
  fe_observed :: "string option"
  fe_fresh :: string
  fe_token :: string
  fe_claim_local :: time
  fe_claim_at :: time
  fe_answer :: "followup_request \<Rightarrow> failure + followup_draft \<times> provider_usage" \<comment> \<open>the model\<close>
  fe_clock :: "time \<times> time \<times> time \<times> time"

record followup_config =
  fg_policy :: retry_policy
  fg_prices :: usage_prices
  fg_unit :: "int \<Rightarrow> int \<Rightarrow> rat"

datatype followup_claim = Idle | Leased task | Settled followup_result

definition next_approval :: "int list \<Rightarrow> db \<Rightarrow> approval option" where
  \<comment> \<open>reviewed approvals whose notice is pending, then those whose notice has failed, each by id\<close>
  "next_approval excluded d =
     (let reviewed = filter (\<lambda>a. ap_status a \<in> {AP_APPROVED, AP_REJECTED} \<and> ap_id a \<notin> set excluded) (trows (d_approvals d)) in
      case find (\<lambda>a. ap_followup_status a = Some FU_PENDING) reviewed of
        Some a \<Rightarrow> Some a
      | None \<Rightarrow> find (\<lambda>a. ap_followup_status a = Some FU_FAILED) reviewed)"

definition approval_task_request :: "retry_policy \<Rightarrow> approval \<Rightarrow> json \<Rightarrow> task_request" where
  "approval_task_request p a input =
     \<lparr>tq_type = APPROVAL_FOLLOWUP, tq_key = ''approval:'' @ show_int (ap_id a), tq_session = ap_session_id a, tq_input = input,
      tq_offer = Some (ap_offer_id a), tq_approval = Some (ap_id a), tq_schema_version = 1, tq_max_attempts = rp_max_attempts p\<rparr>"

definition lease_approval ::
    "(json \<Rightarrow> string) \<Rightarrow> retry_policy \<Rightarrow> 'x followup_env_scheme \<Rightarrow> approval \<Rightarrow> json \<Rightarrow> db \<Rightarrow> exn + followup_claim \<times> db" where
  "lease_approval H p env a input d =
     ebind (create_task_in_transaction H None (fe_observed env) (fe_fresh env) (approval_task_request p a input) d) (\<lambda>((t, _), d1).
     ebind (lease_task (t_id t) (''approval:'' @ show_int (ap_id a)) (rp_lease p) (fe_token env) (fe_claim_at env) d1) (\<lambda>(l, d2).
     case l of
       Some lt \<Rightarrow>
         if t_status lt = T_FAILED then (let (r, d3) = manual a d2 in Inr (Settled r, d3)) else Inr (Leased lt, d2)
     | None \<Rightarrow>
         if t_status t = T_RETRY_WAIT
         then Inr (Settled (settled_notice (ap_id a) FU_FAILED None None), mark_followup (ap_id a) FU_FAILED d2)
         else if t_status t \<in> {T_FAILED, T_CANCELLED, T_SUCCEEDED}
         then (let (r, d3) = manual a d2 in Inr (Settled r, d3))
         else Inr (Idle, d2)))"

definition claim_followup ::
    "(json \<Rightarrow> string) \<Rightarrow> retry_policy \<Rightarrow> 'x followup_env_scheme \<Rightarrow> int list \<Rightarrow> db \<Rightarrow> exn + followup_claim \<times> db" where
  "claim_followup H p env excluded d =
     (case next_approval excluded d of
        None \<Rightarrow> Inr (Idle, d)
      | Some a \<Rightarrow>
      case ap_followup_request_id a of
        None \<Rightarrow> (let (r, d1) = manual a d in Inr (Settled r, d1))
      | Some key \<Rightarrow>
      if key = [] \<or> 64 < length key then (let (r, d1) = manual a d in Inr (Settled r, d1))
      else case existing_message d (ap_session_id a) key of
        Some m \<Rightarrow>
          (case notice_outcome m of
             None \<Rightarrow> (let (r, d1) = manual a d in Inr (Settled r, d1))
           | Some out \<Rightarrow> Inr (Settled (settled_notice (ap_id a) FU_SENT (Some (ms_id m)) (Some out)), mark_followup (ap_id a) FU_SENT d))
      | None \<Rightarrow>
      case facts_of d a (fe_claim_local env) of
        Inl _ \<Rightarrow> (let (r, d1) = manual a d in Inr (Settled r, d1))
      | Inr ((n, pr, off, pol), e) \<Rightarrow>
          lease_approval H p env a (serialize_task_input (agent_request a off pr e) (offer_result off)) d)"

definition or_lease_lost :: "task \<Rightarrow> (exn + followup_result) \<times> db \<Rightarrow> (exn + followup_result) \<times> db" where
  "or_lease_lost t r =
     (case r of (Inl (ServiceExn TaskLease), d) \<Rightarrow> (Inr (lease_lost t d), d) | x \<Rightarrow> x)"

definition process_leased ::
    "(json \<Rightarrow> string) \<Rightarrow> followup_config \<Rightarrow> followup_env \<Rightarrow> task \<Rightarrow> db \<Rightarrow> (exn + followup_result) \<times> db" where
  "process_leased H g env t d =
     (case (t_lease_token t, fe_clock env) of
        (None, _) \<Rightarrow> (Inl (RuntimeExn ''leased task without token''), d)
      | (Some token, (c1, now, c2, c3)) \<Rightarrow>
      case task_input (t_input_snapshot t) of
        Inl e \<Rightarrow> (Inl e, d)
      | Inr (q, _) \<Rightarrow>
      case fe_answer env q of
        Inl err \<Rightarrow> or_lease_lost t (commit (handle_failed (fg_policy g) (fg_unit g) t token err c2 c3 d) d)
      | Inr (draft, u) \<Rightarrow>
          or_lease_lost t (commit (finalize_followup H (fg_policy g) (fg_unit g) t token draft (build_usage (fg_prices g) u)
            (c1, now, c2, c3) d) d))"

definition process_next ::
    "(json \<Rightarrow> string) \<Rightarrow> followup_config \<Rightarrow> followup_env \<Rightarrow> int list \<Rightarrow> db \<Rightarrow> (exn + followup_result option) \<times> db" where
  "process_next H g env excluded d =
     (case commit (claim_followup H (fg_policy g) env excluded d) d of
        (Inl e, d1) \<Rightarrow> (Inl e, d1)
      | (Inr Idle, d1) \<Rightarrow> (Inr None, d1)
      | (Inr (Settled r), d1) \<Rightarrow> (Inr (Some r), d1)
      | (Inr (Leased t), d1) \<Rightarrow>
          (case process_leased H g env t d1 of
             (Inl e, d2) \<Rightarrow> (Inl e, d2)
           | (Inr r, d2) \<Rightarrow> (Inr (Some r), d2)))"

fun process_batch ::
    "(json \<Rightarrow> string) \<Rightarrow> followup_config \<Rightarrow> followup_env list \<Rightarrow> int list \<Rightarrow> db \<Rightarrow> (exn + followup_result list) \<times> db" where
  \<comment> \<open>one environment for each of the at most \<open>limit\<close> rounds\<close>
  "process_batch H g [] attempted d = (Inr [], d)"
| "process_batch H g (env # envs) attempted d =
     (case process_next H g env attempted d of
        (Inl e, d1) \<Rightarrow> (Inl e, d1)
      | (Inr None, d1) \<Rightarrow> (Inr [], d1)
      | (Inr (Some r), d1) \<Rightarrow>
          (case process_batch H g envs (fo_approval_id r # attempted) d1 of
             (Inl e, d2) \<Rightarrow> (Inl e, d2)
           | (Inr rs, d2) \<Rightarrow> (Inr (r # rs), d2)))"

end
