(* ===== verification/Followup_Spec.thy ===== *)
theory Followup_Spec
  imports Followup Tasks_Spec
begin

text \<open>
  The notices of the earlier runtime: what the transaction that ends a task may change, when a buyer's offer becomes
  accepted, that a failing task ends after its attempts, and two defects of the worker.
\<close>

section \<open>What the transactions leave alone\<close>

definition untouched :: "db \<Rightarrow> db \<Rightarrow> bool" where
  "untouched d d' \<longleftrightarrow>
     d_offers d' = d_offers d \<and> d_sessions d' = d_sessions d \<and> d_messages d' = d_messages d \<and> d_products d' = d_products d
     \<and> d_policies d' = d_policies d \<and> d_next_offer d' = d_next_offer d \<and> d_next_session d' = d_next_session d
     \<and> d_next_message d' = d_next_message d"

lemma untouched_refl [simp]: "untouched d d"
  by (simp add: untouched_def)

lemma untouched_trans: "untouched d e \<Longrightarrow> untouched e f \<Longrightarrow> untouched d f"
  by (simp add: untouched_def)

lemma untouched_marks [simp]:
  "untouched d (followup_manual t d)" "untouched d (mark_followup aid st d)" "untouched d (snd (manual a d))"
  by (simp_all add: untouched_def followup_manual_def mark_followup_def manual_def split: option.split)

lemma flush_task_untouched: "flush_task tid t d = Inr (t', d') \<Longrightarrow> untouched d d'"
  by (simp add: flush_task_eq_Inr untouched_def)

lemma complete_error_untouched:
  assumes "complete_error tid token target err msg usage now d = Inr (t, d')"
  shows "untouched d d'"
proof -
  obtain x :: task and e :: task and y :: db where "flush_task tid e y = Inr (t, d')" "y = (if target = T_FAILED then followup_manual x d else d)"
    using assms unfolding complete_error_def by (elim ebind_InrE) (rule that; simp)
  then show ?thesis using flush_task_untouched untouched_trans untouched_marks(1) by (metis untouched_refl)
qed

lemma result_untouched:
  "mark_stale tid token msg usage now d = Inr (t, d') \<Longrightarrow> untouched d d'"
  "fail_task tid token err msg2 now d = Inr (t, d') \<Longrightarrow> untouched d d'"
  by (simp_all add: mark_stale_def fail_task_def complete_error_untouched)

lemma defer_retry_untouched:
  assumes "defer_retry tid token err retry_at msg now d = Inr (t, d')"
  shows "untouched d d'"
proof -
  obtain e :: task where "flush_task tid e d = Inr (t, d')"
    using assms unfolding defer_retry_def by (elim ebind_InrE if_InrE) auto
  then show ?thesis by (rule flush_task_untouched)
qed

lemma complete_success_untouched:
  assumes "complete_success H tid token result usage now d = Inr (t, d')"
  shows "untouched d d'"
proof -
  obtain e :: task where "flush_task tid e d = Inr (t, d')"
    using assms unfolding complete_success_def by (elim ebind_InrE) (auto split: prod.splits elim!: ebind_InrE)
  then show ?thesis by (rule flush_task_untouched)
qed

lemma apply_failure_untouched:
  assumes "apply_failure p unit a t token err planned_at now d = Inr (st, d')"
  shows "untouched d d'"
proof -
  obtain d1 :: db where d1: "untouched d d1" and d': "d' = (case a of None \<Rightarrow> d1 | Some x \<Rightarrow> mark_followup (ap_id x) st d1)"
    using assms unfolding apply_failure_def Let_def
    by (elim ebind_InrE) (auto split: prod.splits bool.splits option.splits elim!: ebind_InrE
        dest: defer_retry_untouched result_untouched)
  show ?thesis unfolding d' using d1 by (auto split: option.split intro: untouched_trans)
qed

lemmas untouched_ops = result_untouched defer_retry_untouched complete_success_untouched apply_failure_untouched

section \<open>The notice and its effect\<close>

definition notice_stored :: "approval \<Rightarrow> string \<Rightarrow> followup_outcome \<Rightarrow> int option \<Rightarrow> db \<Rightarrow> db \<Rightarrow> bool" where
  \<comment> \<open>one message, the first of its key\<close>
  "notice_stored a key out formal d d' \<longleftrightarrow>
     \<not> replied (ap_session_id a) key d
     \<and> (\<exists>m. d_messages d' = d_messages d @ [(d_next_message d, m)] \<and> tget (d_messages d) (d_next_message d) = None
          \<and> ms_session_id m = ap_session_id a \<and> ms_request_id m = key \<and> ms_role m = AGENT_MESSAGE
          \<and> ms_agent_outcome m = Some (outcome_text out) \<and> ms_formal_offer_id m = formal)"

lemma persist_message_effect:
  assumes "persist_message a key reply out formal d = Inr (mid, d')"
  shows "notice_stored a key out formal d d'" and "d_offers d' = d_offers d" and "d_sessions d' = d_sessions d"
    and "d_next_offer d' = d_next_offer d" and "d_next_session d' = d_next_session d" and "mid = d_next_message d"
  using assms by (auto simp: persist_message_def Let_def ebind_eq_Inr tadd_eq_Inr notice_stored_def mark_followup_def split: if_splits)

definition authorized_now :: "approval \<Rightarrow> session \<Rightarrow> product \<Rightarrow> offer \<Rightarrow> policy option \<Rightarrow> time \<Rightarrow> bool" where
  "authorized_now a n pr off pol now \<longleftrightarrow>
     ap_status a = AP_APPROVED \<and> of_proposer off = BUYER \<and> of_status off = PROPOSED \<and> ns_status n = WAITING_APPROVAL
     \<and> ns_current_offer_id n = Some (of_id off) \<and> p_status pr = AVAILABLE
     \<and> (\<exists>sp au. pol = Some sp \<and> sp_version sp = ap_policy_version a \<and> \<not> is_expired (of_expires_at off) now
          \<and> authorize_stored_offer off sp = Inr au \<and> au_can_request_approval au)"

lemma resolve_approved: "resolve_event a n pr off pol now = Inr EV_APPROVED \<longleftrightarrow> authorized_now a n pr off pol now"
  by (auto simp: resolve_event_def authorized_now_def split: if_splits option.splits sum.splits)

lemma facts_ofD:
  assumes "facts_of d a now = Inr ((n, pr, off, pol), e)"
  shows "get_session d (ap_session_id a) = Some n" and "get_offer d (ap_offer_id a) = Some off"
    and "of_session_id off = ap_session_id a" and "get_product d (ns_product_id n) = Some pr"
    and "pol = get_policy d (ns_product_id n)" and "resolve_event a n pr off pol now = Inr e"
  using assms by (auto simp: facts_of_def load_context_def ebind_eq_Inr some_or_eq_Inr split: if_splits)

definition followup_applied :: "approval \<Rightarrow> offer \<Rightarrow> followup_event \<Rightarrow> db \<Rightarrow> db \<Rightarrow> bool" where
  "followup_applied a off e d d' \<longleftrightarrow>
     d_offers d' = d_offers (apply_successful_event (ap_session_id a) off e d)
     \<and> d_sessions d' = d_sessions (apply_successful_event (ap_session_id a) off e d)
     \<and> d_next_offer d' = d_next_offer d \<and> d_next_session d' = d_next_session d"

definition followup_skipped :: "db \<Rightarrow> db \<Rightarrow> bool" where
  "followup_skipped d d' \<longleftrightarrow>
     d_offers d' = d_offers d \<and> d_sessions d' = d_sessions d \<and> d_next_offer d' = d_next_offer d \<and> d_next_session d' = d_next_session d"

lemma apply_event_messages [simp]:
  "d_messages (apply_successful_event sid off e d) = d_messages d" "d_next_message (apply_successful_event sid off e d) = d_next_message d"
  "d_next_offer (apply_successful_event sid off e d) = d_next_offer d" "d_next_session (apply_successful_event sid off e d) = d_next_session d"
  "replied sid' key (apply_successful_event sid off e d) = replied sid' key d"
  by (simp_all add: apply_successful_event_def restore_active_def replied_def)

definition unchanged_since :: "task \<Rightarrow> approval \<Rightarrow> session \<Rightarrow> offer \<Rightarrow> policy option \<Rightarrow> bool" where
  \<comment> \<open>nothing has changed since the task was created\<close>
  "unchanged_since t a n off pol \<longleftrightarrow>
     t_session_version t = ns_version n \<and> (\<exists>sp. pol = Some sp \<and> t_policy_version t = sp_version sp)
     \<and> t_offer_id t = Some (of_id off) \<and> t_approval_id t = Some (ap_id a)"

lemma stale_reason_None:
  "stale_reason t n pol off a original current = None \<longleftrightarrow> unchanged_since t a n off pol \<and> original = current"
  by (auto simp: stale_reason_def unchanged_since_def split: if_splits option.splits)

lemma notice_frame: "notice_stored a key out formal d d1 \<Longrightarrow> untouched d1 d' \<Longrightarrow> notice_stored a key out formal d d'"
  by (simp add: notice_stored_def untouched_def)

lemma conclude_fresh:
  assumes "conclude H p unit t token draft usage a key ((n, pr, off, pol), e) c2 c3 d = Inr (r, d')"
    and "task_input (t_input_snapshot t) = Inr (original, result)"
    and "stale_reason t n pol off a original (agent_request a off pr e) = None"
  shows "untouched d d' \<or> (\<exists>out. notice_stored a key out (if e = EV_APPROVED then Some (of_id off) else None) d d'
           \<and> followup_applied a off e d d' \<and> fd_event draft = e \<and> unchanged_since t a n off pol)"
proof (cases "apply_draft original result draft")
  case (Inl x)
  with assms obtain st :: followup_status where "apply_failure p unit (Some a) t token OutputFailure c2 c3 d = Inr (st, d')"
    by (auto simp: conclude_def Let_def elim!: ebind_InrE split: prod.splits)
  then show ?thesis by (simp add: untouched_ops)
next
  case (Inr y)
  obtain reply out where y: "y = (reply, out)" by (cases y)
  let ?d0 = "apply_successful_event (ap_session_id a) off e d"
  let ?f = "if e = EV_APPROVED then Some (of_id off) else None"
  from assms Inr y obtain mid :: int and d1 :: db and t1 :: task where
    m: "persist_message a key reply out ?f ?d0 = Inr (mid, d1)" and
    c: "complete_success H (t_id t) token (draft_json draft) usage c2 d1 = Inr (t1, d')"
    by (auto simp: conclude_def Let_def elim!: ebind_InrE split: prod.splits)
  note u = complete_success_untouched [OF c]
  have "notice_stored a key out ?f ?d0 d1" by (rule persist_message_effect(1) [OF m])
  then have "notice_stored a key out ?f d d1" by (simp add: notice_stored_def)
  then have n: "notice_stored a key out ?f d d'" using u by (rule notice_frame)
  have "followup_applied a off e d d'"
    using persist_message_effect(2-5) [OF m] u by (simp add: followup_applied_def untouched_def)
  moreover have "fd_event draft = e \<and> unchanged_since t a n off pol"
    using Inr assms(3) by (auto simp: apply_draft_def stale_reason_None agent_request_def split: if_splits)
  ultimately show ?thesis using n by blast
qed

lemma conclude_stale:
  assumes "conclude H p unit t token draft usage a key ((n, pr, off, pol), e) c2 c3 d = Inr (r, d')"
    and "task_input (t_input_snapshot t) = Inr (original, result)"
    and "stale_reason t n pol off a original (agent_request a off pr e) = Some why"
  shows "notice_stored a key OUT_INVALIDATED None d d'
    \<and> (followup_skipped d d' \<or> e = EV_INVALIDATED \<and> ns_current_offer_id n = Some (of_id off) \<and> followup_applied a off e d d')"
proof -
  from assms obtain reply out and d1 d2 :: db and mid :: int and t1 :: task where
    s: "safe_stale_result a n off e (agent_request a off pr e) d = Inr ((reply, out), d1)" and
    m: "persist_message a key reply out None d1 = Inr (mid, d2)" and
    k: "mark_stale (t_id t) token (Some why) (Some usage) c2 d2 = Inr (t1, d')"
    by (auto simp: conclude_def Let_def elim!: ebind_InrE split: prod.splits)
  note u = result_untouched(1) [OF k]
  have n: "notice_stored a key out None d1 d'" by (rule notice_frame [OF persist_message_effect(1) [OF m] u])
  have f: "d_offers d' = d_offers d1" "d_sessions d' = d_sessions d1" "d_next_offer d' = d_next_offer d1" "d_next_session d' = d_next_session d1"
    using persist_message_effect(2-5) [OF m] u by (simp_all add: untouched_def)
  show ?thesis
  proof (cases "e = EV_INVALIDATED \<and> ns_current_offer_id n = Some (of_id off)")
    case True
    with s have d1: "d1 = apply_successful_event (ap_session_id a) off e d" and
      o: "render_trusted_event (agent_request a off pr e) (offer_result off) = Inr (reply, out)"
      by (auto simp: safe_stale_result_def elim!: ebind_InrE)
    from o True have "out = OUT_INVALIDATED"
      by (auto simp: render_trusted_event_def agent_request_def elim!: ebind_InrE)
    with n f d1 True show ?thesis by (simp add: notice_stored_def followup_applied_def)
  next
    case False
    with s have "d1 = d" "out = OUT_INVALIDATED" by (auto simp: safe_stale_result_def split: if_splits)
    with n f show ?thesis by (simp add: followup_skipped_def)
  qed
qed

lemma resolve_event_cases:
  assumes "finalize_followup H p unit lt token draft usage (c1, now, c2, c3) d = Inr (r, d')"
  obtains t where "leased_task d (t_id lt) token c1 = Inr t" and "untouched d d'"
  | t a key facts where "leased_task d (t_id lt) token c1 = Inr t" and "task_approval lt d = Some a"
      and "ap_followup_request_id a = Some key" and "key \<noteq> []" and "existing_message d (ap_session_id a) key = None"
      and "facts_of d a now = Inr facts" and "conclude H p unit t token draft usage a key facts c2 c3 d = Inr (r, d')"
proof -
  let ?stale = "\<lambda>why d1. mark_stale (t_id lt) token (Some why) (Some usage) c2 d1"
  obtain t :: task where l: "leased_task d (t_id lt) token c1 = Inr t" and rest: "(case task_approval lt d of
        None \<Rightarrow> ebind (?stale ''approval gone'' d) (\<lambda>(_, d1). Inr (settled_notice (task_approval_id lt) FU_FAILED None None, d1))
      | Some a \<Rightarrow>
      case (case ap_followup_request_id a of Some [] \<Rightarrow> None | k \<Rightarrow> k) of
        None \<Rightarrow> ebind (?stale ''notice key gone'' d) (\<lambda>(_, d1). Inr (manual a d1))
      | Some key \<Rightarrow>
      case existing_message d (ap_session_id a) key of
        Some m \<Rightarrow>
          (case notice_outcome m of
             None \<Rightarrow> ebind (?stale ''notice key taken'' d) (\<lambda>(_, d1). Inr (manual a d1))
           | Some out \<Rightarrow>
               ebind (?stale ''notice already sent'' (mark_followup (ap_id a) FU_SENT d)) (\<lambda>(_, d1).
               Inr (settled_notice (ap_id a) FU_SENT (Some (ms_id m)) (Some out), d1)))
      | None \<Rightarrow>
      case facts_of d a now of
        Inl _ \<Rightarrow> ebind (?stale ''facts do not fit'' d) (\<lambda>(_, d1). Inr (manual a d1))
      | Inr facts \<Rightarrow> conclude H p unit t token draft usage a key facts c2 c3 d) = Inr (r, d')"
    using assms unfolding finalize_followup_def Let_def prod.case by (rule ebind_InrE)
  have m1: "untouched d d'" if "ebind (?stale why d) (\<lambda>(_, d1). Inr (manual a d1)) = Inr (r, d')" for why and a :: approval
    using that by (auto simp: manual_def elim!: ebind_InrE dest!: result_untouched(1) intro: untouched_trans)
  have m2: "untouched d d'" if "ebind (?stale why x) (\<lambda>(_, d1). Inr (res, d1)) = Inr (r, d')" "untouched d x" for why res x
    using that by (auto elim!: ebind_InrE dest!: result_untouched(1) intro: untouched_trans)
  show ?thesis
  proof (cases "task_approval lt d")
    case None
    with rest m2 [of "''approval gone''" d] show ?thesis by (intro that(1) [OF l]) simp
  next
    case (Some a)
    note a = Some
    show ?thesis
    proof (cases "case ap_followup_request_id a of Some [] \<Rightarrow> None | k \<Rightarrow> k")
      case None
      with rest m1 [of "''notice key gone''" a] a show ?thesis by (intro that(1) [OF l]) simp
    next
      case (Some key)
      note key = Some
      then have k: "ap_followup_request_id a = Some key" "key \<noteq> []" by (auto split: option.splits list.splits)
      show ?thesis
      proof (cases "existing_message d (ap_session_id a) key")
        case None
        note none = None
        show ?thesis
        proof (cases "facts_of d a now")
          case (Inl x)
          with rest m1 [of "''facts do not fit''" a] a key none show ?thesis by (intro that(1) [OF l]) simp
        next
          case (Inr facts)
          with rest a key none have "conclude H p unit t token draft usage a key facts c2 c3 d = Inr (r, d')" by simp
          then show ?thesis by (rule that(2) [OF l a k none Inr])
        qed
      next
        case (Some m)
        note m = Some
        show ?thesis
        proof (cases "notice_outcome m")
          case None
          with rest m1 [of "''notice key taken''" a] a key m show ?thesis by (intro that(1) [OF l]) simp
        next
          case (Some out)
          with rest m2 [of "''notice already sent''" "mark_followup (ap_id a) FU_SENT d"] a key m show ?thesis
            by (intro that(1) [OF l]) simp
        qed
      qed
    qed
  qed
qed

lemma restore_active_offer_inv: "offer_inv d \<Longrightarrow> offer_inv (restore_active sid d)"
  unfolding restore_active_def by (rule offer_inv_mod_session) simp_all

lemma apply_successful_event_inv:
  assumes "offer_inv d"
  shows "offer_inv (apply_successful_event sid off e d)"
  unfolding apply_successful_event_def
  using assms by (auto intro!: restore_active_offer_inv offer_inv_close_offer)

lemma applied_offers:
  assumes "followup_applied a off e d d'" and "offer_inv d" and "get_offer d (ap_offer_id a) = Some off" and "get_offer d k = Some x"
  shows "get_offer d' k = (if k = ap_offer_id a \<and> e = EV_APPROVED then Some (x\<lparr>of_status := ACCEPTED\<rparr>)
     else if k = ap_offer_id a \<and> e = EV_INVALIDATED \<and> of_status x = PROPOSED then Some (x\<lparr>of_status := WITHDRAWN\<rparr>)
     else Some x)"
proof -
  have "of_id off = ap_offer_id a" using offer_inv_offerD [OF assms(2,3)] by simp
  moreover have "d_offers d' = d_offers (apply_successful_event (ap_session_id a) off e d)"
    using assms(1) by (simp add: followup_applied_def)
  ultimately show ?thesis
    using assms(3,4) by (auto simp: apply_successful_event_def restore_active_def)
qed

definition followup_effect :: "approval \<Rightarrow> session \<Rightarrow> product \<Rightarrow> offer \<Rightarrow> policy option \<Rightarrow> followup_event \<Rightarrow> time \<Rightarrow>
    task \<Rightarrow> followup_draft \<Rightarrow> int option \<Rightarrow> db \<Rightarrow> db \<Rightarrow> bool" where
  \<comment> \<open>what may happen to the offers beside the notice\<close>
  "followup_effect a n pr off pol e now t draft formal d d' \<longleftrightarrow>
     (\<forall>k x. get_offer d k = Some x \<longrightarrow>
        get_offer d' k = Some x
        \<or> k = ap_offer_id a \<and> get_offer d' k = Some (x\<lparr>of_status := ACCEPTED\<rparr>) \<and> formal = Some k
          \<and> authorized_now a n pr off pol now \<and> unchanged_since t a n off pol \<and> fd_event draft = EV_APPROVED
        \<or> k = ap_offer_id a \<and> get_offer d' k = Some (x\<lparr>of_status := WITHDRAWN\<rparr>) \<and> of_status x = PROPOSED \<and> e = EV_INVALIDATED)
     \<and> (formal \<noteq> None \<longrightarrow> get_offer d' (ap_offer_id a) = Some (off\<lparr>of_status := ACCEPTED\<rparr>))"

lemma conclude_effect:
  assumes "conclude H p unit t token draft usage a key ((n, pr, off, pol), e) c2 c3 d = Inr (r, d')"
    and "facts_of d a now = Inr ((n, pr, off, pol), e)" and "offer_inv d"
  shows "untouched d d' \<or> (\<exists>out formal. notice_stored a key out formal d d' \<and> followup_effect a n pr off pol e now t draft formal d d'
     \<and> offer_inv d')"
proof -
  obtain original result where i: "task_input (t_input_snapshot t) = Inr (original, result)"
    using assms(1) unfolding conclude_def prod.case by (auto elim!: ebind_InrE)
  note facts = facts_ofD [OF assms(2)]
  have id: "of_id off = ap_offer_id a" using offer_inv_offerD [OF assms(3) facts(2)] by simp
  have inv: "offer_inv d'" if "followup_applied a off e d d'"
    by (rule offer_inv_other [OF apply_successful_event_inv [OF assms(3), of "ap_session_id a" off e]])
      (use that in \<open>simp_all add: followup_applied_def\<close>)
  show ?thesis
  proof (cases "stale_reason t n pol off a original (agent_request a off pr e)")
    case None
    from conclude_fresh [OF assms(1) i None] show ?thesis
    proof (elim disjE exE conjE)
      fix out
      assume h: "notice_stored a key out (if e = EV_APPROVED then Some (of_id off) else None) d d'" "followup_applied a off e d d'"
        "fd_event draft = e" "unchanged_since t a n off pol"
      have auth: "authorized_now a n pr off pol now" if "e = EV_APPROVED"
        using facts(6) that by (simp add: resolve_approved)
      have "followup_effect a n pr off pol e now t draft (if e = EV_APPROVED then Some (of_id off) else None) d d'"
        unfolding followup_effect_def
      proof (intro conjI allI impI)
        fix k x assume x: "get_offer d k = Some x"
        show "get_offer d' k = Some x
          \<or> k = ap_offer_id a \<and> get_offer d' k = Some (x\<lparr>of_status := ACCEPTED\<rparr>)
            \<and> (if e = EV_APPROVED then Some (of_id off) else None) = Some k
            \<and> authorized_now a n pr off pol now \<and> unchanged_since t a n off pol \<and> fd_event draft = EV_APPROVED
          \<or> k = ap_offer_id a \<and> get_offer d' k = Some (x\<lparr>of_status := WITHDRAWN\<rparr>) \<and> of_status x = PROPOSED \<and> e = EV_INVALIDATED"
          using applied_offers [OF h(2) assms(3) facts(2) x] auth h(3,4) id by (cases e) auto
      next
        assume "(if e = EV_APPROVED then Some (of_id off) else None) \<noteq> None"
        then have "e = EV_APPROVED" by (simp split: if_splits)
        then show "get_offer d' (ap_offer_id a) = Some (off\<lparr>of_status := ACCEPTED\<rparr>)"
          using applied_offers [OF h(2) assms(3) facts(2) facts(2)] by simp
      qed
      with h(1) inv [OF h(2)] show ?thesis by blast
    qed blast
  next
    case (Some why)
    note s = conclude_stale [OF assms(1) i Some]
    have "followup_effect a n pr off pol e now t draft None d d' \<and> offer_inv d'"
      using conjunct2 [OF s]
    proof (elim disjE conjE)
      assume k: "followup_skipped d d'"
      then have "offer_inv d'" by (intro offer_inv_other [OF assms(3)]) (simp_all add: followup_skipped_def)
      with k show ?thesis by (simp add: followup_skipped_def followup_effect_def)
    next
      assume h: "e = EV_INVALIDATED" "followup_applied a off e d d'"
      from inv [OF h(2)] have "offer_inv d'" .
      moreover have "followup_effect a n pr off pol e now t draft None d d'"
        using applied_offers [OF h(2) assms(3) facts(2)] h(1) by (auto simp: followup_effect_def)
      ultimately show ?thesis by blast
    qed
    with conjunct1 [OF s] show ?thesis by blast
  qed
qed

text \<open>
  C25: The transaction that ends a notice task is accepted only from the holder of its lease. It stores at most one
  notice, the first under the key of the review. The buyer's offer is accepted only if the review approved it, it is
  the open current offer of a negotiation that waits, the product is available, the policy is the one of the approval,
  the deadline has not passed, the amount is still in the approval zone, nothing has changed since the task was
  created, and the model acknowledged an approval; a notice names a formal offer only in this case. An invalidated
  offer is withdrawn; no other offer changes, and open offers stay the current offers of their negotiations.
\<close>

theorem followup_sound:
  assumes "finalize_followup H p unit lt token draft usage (c1, now, c2, c3) d = Inr (r, d')" and "offer_inv d"
  shows "offer_inv d' \<and> (\<exists>t. leased_task d (t_id lt) token c1 = Inr t \<and>
     (untouched d d'
      \<or> (\<exists>a key n pr off pol e out formal. task_approval lt d = Some a \<and> ap_followup_request_id a = Some key
           \<and> facts_of d a now = Inr ((n, pr, off, pol), e) \<and> notice_stored a key out formal d d'
           \<and> followup_effect a n pr off pol e now t draft formal d d')))"
  using assms(1)
proof (cases rule: resolve_event_cases)
  case (1 t)
  then have "offer_inv d'" by (intro offer_inv_other [OF assms(2)]) (simp_all add: untouched_def)
  with 1 show ?thesis by blast
next
  case (2 t a key facts)
  obtain n pr off pol e where f: "facts = ((n, pr, off, pol), e)" by (cases facts) auto
  note c = conclude_effect [OF 2(7) [unfolded f] 2(6) [unfolded f] assms(2)]
  then have "offer_inv d'" by (auto simp: untouched_def intro: offer_inv_other [OF assms(2)])
  with c 2(1,2,3,6) [unfolded f] show ?thesis by blast
qed

section \<open>The snapshot of a task reads back\<close>

lemma read_event_text [simp]: "read_event (event_text e) = Some e"
  by (cases e) (simp_all add: read_event_def)

lemma stored_outcome_text [simp]: "stored_outcome (Some (outcome_text out)) = Some out"
  by (cases out) (simp_all add: stored_outcome_def)

text \<open>
  What a task stores about the approval reads back as the request and the offer it was made from, so that a
  later comparison with the current facts is exact.
\<close>

lemma task_input_serialized:
  "task_input (serialize_task_input q (offer_result off)) = Inr (q, offer_result off)"
proof -
  obtain raw where raw: "request_json q = JObj raw" "raw = [(''approval_id'', JInt (fr_approval_id q)), (''event'', JStr (event_text (fr_event q))),
     (''product_title'', JStr (fr_title q)), (''offer_id'', JInt (fr_offer_id q)), (''price'', JStr (fr_price q)),
     (''shipping_paid_by'', JStr (fr_paid_by q)), (''shipping_cost'', jopt JStr (fr_cost q)),
     (''seller_borne_discount'', JStr (fr_discount q)), (''additional_terms'', JObj (fr_terms q)),
     (''seller_comment'', jopt JStr (fr_comment q))]"
    by (simp add: request_json_def)
  have cost: "optional_text raw ''shipping_cost'' = Inr (fr_cost q)"
    by (cases "fr_cost q") (simp_all add: optional_text_def raw(2))
  have comment: "optional_text raw ''seller_comment'' = Inr (fr_comment q)"
    by (cases "fr_comment q") (simp_all add: optional_text_def raw(2))
  have fields: "field raw ''approval_id'' = Inr (JInt (fr_approval_id q))" "field raw ''event'' = Inr (JStr (event_text (fr_event q)))"
    "field raw ''product_title'' = Inr (JStr (fr_title q))" "field raw ''offer_id'' = Inr (JInt (fr_offer_id q))"
    "field raw ''price'' = Inr (JStr (fr_price q))" "field raw ''shipping_paid_by'' = Inr (JStr (fr_paid_by q))"
    "field raw ''seller_borne_discount'' = Inr (JStr (fr_discount q))" "jget (JObj raw) ''additional_terms'' = JObj (fr_terms q)"
    by (simp_all add: field_def some_or_def raw(2))
  have "read_request raw = Inr q"
    unfolding read_request_def fields cost comment by (simp add: some_or_def)
  then show ?thesis by (simp add: task_input_def serialize_task_input_def offer_result_def raw(1))
qed

section \<open>A failing task ends\<close>

record round =
  rd_worker :: string
  rd_token :: string
  rd_secs :: int
  rd_leased :: time
  rd_error :: failure
  rd_planned :: time
  rd_failed :: time

inductive fail_rounds :: "retry_policy \<Rightarrow> (int \<Rightarrow> int \<Rightarrow> rat) \<Rightarrow> int \<Rightarrow> round list \<Rightarrow> db \<Rightarrow> db \<Rightarrow> bool" for p unit tid where
  \<comment> \<open>in each round the task is leased and the failure of the model is recorded\<close>
  no_round: "fail_rounds p unit tid [] d d"
| one_more: "fail_rounds p unit tid xs d e \<Longrightarrow>
    lease_task tid (rd_worker x) (rd_secs x) (rd_token x) (rd_leased x) e = Inr (Some t, f) \<Longrightarrow> t_status t = T_RUNNING \<Longrightarrow>
    apply_failure p unit a t (rd_token x) (rd_error x) (rd_planned x) (rd_failed x) f = Inr (st, d') \<Longrightarrow>
    fail_rounds p unit tid (xs @ [x]) d d'"

definition wait_after :: "retry_policy \<Rightarrow> (int \<Rightarrow> int \<Rightarrow> rat) \<Rightarrow> task \<Rightarrow> nat \<Rightarrow> int" where
  \<comment> \<open>the seconds to wait after the \<open>n\<close>-th further failure of a task\<close>
  "wait_after p unit t n = retry_delay p (unit (t_id t) (t_attempt_count t + int n)) (t_attempt_count t + int n)"

lemma retry_delay_bounds:
  assumes "policy_ok p"
  shows "1 \<le> retry_delay p u n" and "retry_delay p u n \<le> max 1 \<lceil>rp_max p\<rceil>"
proof -
  show "1 \<le> retry_delay p u n" by (simp add: retry_delay_def Let_def)
  have "\<lceil>min (rp_max p) x\<rceil> \<le> \<lceil>rp_max p\<rceil>" for x by (rule ceiling_mono) simp
  then show "retry_delay p u n \<le> max 1 \<lceil>rp_max p\<rceil>" by (simp add: retry_delay_def Let_def max.coboundedI2)
qed

lemma apply_failure_task:
  assumes "apply_failure p unit a t token err planned now d = Inr (st, d')" and "get_task d (t_id t) = Some t"
  shows "\<exists>t'. get_task d' (t_id t) = Some t' \<and> t_attempt_count t' = t_attempt_count t \<and> t_max_attempts t' = t_max_attempts t
    \<and> (if fc_retryable (classify err) \<and> t_attempt_count t < t_max_attempts t
       then t_status t' = T_RETRY_WAIT \<and> t_next_retry_at t' = Some (planned + seconds (retry_delay p (unit (t_id t) (t_attempt_count t)) (t_attempt_count t)))
       else t_status t' = T_FAILED)"
proof -
  let ?plan = "plan_failure p (unit (t_id t) (t_attempt_count t)) (t_attempt_count t) (t_max_attempts t) err planned"
  let ?at = "planned + seconds (retry_delay p (unit (t_id t) (t_attempt_count t)) (t_attempt_count t))"
  have leased: "u = t" if "leased_task d (t_id t) token now = Inr u" for u
    using leased_taskD [OF that] assms(2) by simp
  obtain d1 :: db where d': "d_tasks d' = d_tasks d1" and step: "(case (pl_should_retry ?plan, pl_next_retry_at ?plan) of
       (True, Some at1) \<Rightarrow>
         ebind (defer_retry (t_id t) token (pl_category ?plan) at1 (Some (pl_message ?plan)) now d) (\<lambda>(_, d1). Inr (FU_FAILED, d1))
     | _ \<Rightarrow> ebind (fail_task (t_id t) token (pl_category ?plan) (Some (pl_message ?plan)) now d) (\<lambda>(_, d1). Inr (FU_MANUAL_REQUIRED, d1)))
     = Inr (st, d1)"
    using assms(1) unfolding apply_failure_def Let_def
    by (elim ebind_InrE) (auto simp: mark_followup_def split: option.splits)
  show ?thesis
  proof (cases "fc_retryable (classify err) \<and> t_attempt_count t < t_max_attempts t")
    case True
    with step obtain t1 where "defer_retry (t_id t) token (fc_category (classify err)) ?at (Some (fc_message (classify err))) now d = Inr (t1, d1)"
      by (auto simp: plan_failure_def Let_def elim!: ebind_InrE)
    then obtain u :: task and c :: "string option" where "leased_task d (t_id t) token now = Inr u" and
      "flush_task (t_id t) (clear_lease False (u\<lparr>t_status := T_RETRY_WAIT, t_next_retry_at := Some ?at,
        t_last_error_category := Some (fc_category (classify err)), t_last_error_message := c, t_completed_at := None\<rparr>)) d = Inr (t1, d1)"
      unfolding defer_retry_def by (elim ebind_InrE if_InrE) auto
    with leased True show ?thesis unfolding d' by (auto simp: flush_task_eq_Inr clear_lease_def)
  next
    case False
    with step obtain t1 where "fail_task (t_id t) token (fc_category (classify err)) (Some (fc_message (classify err))) now d = Inr (t1, d1)"
      by (auto simp: plan_failure_def Let_def elim!: ebind_InrE split: if_splits)
    then obtain u :: task and c :: "string option" and us :: "model_usage option" where "leased_task d (t_id t) token now = Inr u" and
      "flush_task (t_id t) (clear_lease True (u\<lparr>t_status := T_FAILED, t_last_error_category := Some (fc_category (classify err)),
        t_last_error_message := c, t_usage := us, t_completed_at := Some now\<rparr>)) (followup_manual u d) = Inr (t1, d1)"
      unfolding fail_task_def complete_error_def by (elim ebind_InrE) (auto split: option.splits)
    with leased False show ?thesis unfolding d' by (auto simp: flush_task_eq_Inr clear_lease_def)
  qed
qed

lemma task_write_tasks: "task_write d d1 \<Longrightarrow> d_tasks d' = d_tasks d1 \<Longrightarrow> d_next_task d' = d_next_task d1 \<Longrightarrow> task_write d d'"
  by (simp add: task_write_def wrote_def)

lemma apply_failure_write:
  assumes "apply_failure p unit a t token err planned now d = Inr (st, d')"
  shows "task_write d d'"
proof -
  obtain d1 :: db where "task_write d d1" and "d_tasks d' = d_tasks d1" "d_next_task d' = d_next_task d1"
    using assms unfolding apply_failure_def Let_def
    by (elim ebind_InrE) (auto simp: mark_followup_def split: prod.splits bool.splits option.splits elim!: ebind_InrE
        dest: defer_retry_write result_writes)
  then show ?thesis by (rule task_write_tasks)
qed

lemma fail_rounds_end:
  assumes "fail_rounds p unit tid xs d d'" and "tasks_sound d" and "get_task d tid = Some t"
  shows "tasks_sound d' \<and> (\<exists>t'. get_task d' tid = Some t' \<and> same_order t t' \<and> t_max_attempts t' = t_max_attempts t
    \<and> t_attempt_count t' = t_attempt_count t + int (length xs)
    \<and> (xs \<noteq> [] \<longrightarrow> t_status t' = T_FAILED
         \<or> t_status t' = T_RETRY_WAIT \<and> t_attempt_count t' < t_max_attempts t'
           \<and> t_next_retry_at t' = Some (rd_planned (last xs) + seconds (wait_after p unit t (length xs)))))
    \<and> (\<forall>i. Suc i < length xs \<longrightarrow> rd_planned (xs ! i) + seconds (wait_after p unit t (Suc i)) \<le> rd_leased (xs ! Suc i))"
  using assms
proof (induction rule: fail_rounds.induct)
  case (no_round d)
  then show ?case by (simp add: same_order_def)
next
  case (one_more xs d e x u f a st d')
  then obtain v where e: "tasks_sound e" "get_task e tid = Some v" "same_order t v" "t_max_attempts v = t_max_attempts t"
    "t_attempt_count v = t_attempt_count t + int (length xs)" and
    before: "xs \<noteq> [] \<Longrightarrow> t_status v = T_FAILED \<or> t_next_retry_at v = Some (rd_planned (last xs) + seconds (wait_after p unit t (length xs)))
        \<and> t_status v = T_RETRY_WAIT" and
    waited: "\<And>i. Suc i < length xs \<Longrightarrow> rd_planned (xs ! i) + seconds (wait_after p unit t (Suc i)) \<le> rd_leased (xs ! Suc i)"
    by blast
  obtain v' where v': "get_task e tid = Some v'" "claim_row v' (rd_worker x, rd_token x, rd_secs x) (rd_leased x) = Some (rd_token x, u)"
    "get_task f tid = Some u"
    using lease_task_claims [OF one_more.hyps(2,3) e(1)] by blast
  with e(2) have u: "u = apply_lease (rd_worker x) (rd_token x) (rd_leased x) (rd_secs x) v" and eligible: "lease_eligible v (rd_leased x)"
    by (simp_all add: claim_row_eq_Some)
  have due: "rd_planned (last xs) + seconds (wait_after p unit t (length xs)) \<le> rd_leased x" if "xs \<noteq> []"
    using before [OF that] eligible by (auto simp: lease_eligible_def)
  have f: "tasks_sound f" using write_sound [OF lease_task_write [OF one_more.hyps(2) e(1)] e(1)] by blast
  have id: "t_id u = tid" using tasks_soundD(2) [OF f v'(3)] .
  have tid: "t_id t = tid" using tasks_soundD(2) [OF one_more.prems] .
  have d': "tasks_sound d'" using write_sound [OF apply_failure_write [OF one_more.hyps(4)] f] by blast
  have later: "\<exists>w. get_task d' tid = Some w \<and> task_later u w"
    using write_sound [OF apply_failure_write [OF one_more.hyps(4)] f] v'(3) by (auto simp: tasks_later_def)
  have gu: "get_task f (t_id u) = Some u" using v'(3) id by simp
  have count: "t_attempt_count u = t_attempt_count t + int (length (xs @ [x]))" "t_max_attempts u = t_max_attempts t"
    using e(4,5) by (simp_all add: u apply_lease_def)
  obtain w where w: "get_task d' tid = Some w" "t_attempt_count w = t_attempt_count u" "t_max_attempts w = t_max_attempts u"
    "if fc_retryable (classify (rd_error x)) \<and> t_attempt_count u < t_max_attempts u
       then t_status w = T_RETRY_WAIT \<and> t_next_retry_at w = Some (rd_planned x + seconds (retry_delay p (unit tid (t_attempt_count u)) (t_attempt_count u)))
       else t_status w = T_FAILED"
    using apply_failure_task [OF one_more.hyps(4) gu] unfolding id by blast
  have "same_order t w" using later w(1) e(3) u by (auto simp: task_later_def same_order_def apply_lease_def)
  moreover have "t_status w = T_FAILED \<or> t_status w = T_RETRY_WAIT \<and> t_attempt_count w < t_max_attempts w
      \<and> t_next_retry_at w = Some (rd_planned (last (xs @ [x])) + seconds (wait_after p unit t (length (xs @ [x]))))"
    using w(2-4) unfolding wait_after_def tid count(1) [symmetric] by (auto split: if_splits)
  moreover have "rd_planned ((xs @ [x]) ! i) + seconds (wait_after p unit t (Suc i)) \<le> rd_leased ((xs @ [x]) ! Suc i)"
    if "Suc i < length (xs @ [x])" for i
  proof (cases "Suc i < length xs")
    case True
    with waited [OF True] show ?thesis by (simp add: nth_append)
  next
    case False
    with that have i: "Suc i = length xs" by simp
    then have "xs \<noteq> []" and "length xs - 1 = i" by auto
    then have "xs ! i = last xs" by (simp add: last_conv_nth)
    with due \<open>xs \<noteq> []\<close> i show ?thesis by (simp add: nth_append)
  qed
  ultimately show ?case using d' w(1-3) count by auto
qed

text \<open>
  C34: A task whose model calls keep failing is tried at most as often as its remaining attempts allow, and when these are used
  up it has failed for good. Until then its next attempt is planned from the time of the last failure, at least one second
  and at most the configured maximum later, and no attempt starts before the wait after the failure before it is over.
\<close>

theorem retries_end:
  assumes "fail_rounds p unit tid xs d d'" and "tasks_sound d" and "get_task d tid = Some t" and "policy_ok p" and "xs \<noteq> []"
  shows "int (length xs) \<le> t_max_attempts t - t_attempt_count t
    \<and> (\<exists>t'. get_task d' tid = Some t' \<and> t_attempt_count t' = t_attempt_count t + int (length xs)
         \<and> (if int (length xs) = t_max_attempts t - t_attempt_count t then t_status t' = T_FAILED
            else t_status t' = T_FAILED \<or> t_status t' = T_RETRY_WAIT
              \<and> t_next_retry_at t' = Some (rd_planned (last xs) + seconds (wait_after p unit t (length xs)))))
    \<and> (\<forall>i. Suc i < length xs \<longrightarrow> rd_planned (xs ! i) + seconds (wait_after p unit t (Suc i)) \<le> rd_leased (xs ! Suc i))
    \<and> (\<forall>n. 1 \<le> wait_after p unit t n \<and> wait_after p unit t n \<le> max 1 \<lceil>rp_max p\<rceil>)"
proof -
  note rounds = fail_rounds_end [OF assms(1-3)]
  from rounds assms(5) obtain t' where d': "tasks_sound d'" and
    t': "get_task d' tid = Some t'" "t_max_attempts t' = t_max_attempts t" "t_attempt_count t' = t_attempt_count t + int (length xs)" and
    st: "t_status t' = T_FAILED
         \<or> t_status t' = T_RETRY_WAIT \<and> t_attempt_count t' < t_max_attempts t'
           \<and> t_next_retry_at t' = Some (rd_planned (last xs) + seconds (wait_after p unit t (length xs)))"
    by blast
  have "t_attempt_count t' \<le> t_max_attempts t'" using tasks_soundD(4) [OF d' t'(1)] by (simp add: row_sound_def)
  moreover have "1 \<le> wait_after p unit t n \<and> wait_after p unit t n \<le> max 1 \<lceil>rp_max p\<rceil>" for n
    using retry_delay_bounds [OF assms(4)] by (simp add: wait_after_def)
  ultimately show ?thesis using t' st conjunct2 [OF conjunct2 [OF rounds]] by auto
qed

lemma show_cents_hundredths: "show_cents c = (if c < 0 then ''-'' else '''') @ show_hundredths (nat \<bar>c\<bar>)"
  by (simp add: show_cents_def show_hundredths_def Let_def)

lemma money_text_cents: "0 \<le> c \<Longrightarrow> money_text (JStr (show_cents c)) = Inr (show_cents c)"
proof -
  assume c: "0 \<le> c"
  then have "parse_decimal (show_cents c) = Some (Finite False (nat c) (- 2))"
    using parse_hundredths [of False "nat c"] by (simp add: show_cents_hundredths)
  with c show ?thesis by (simp add: money_text_def to_cents_def)
qed

section \<open>A late notice of a rejection\<close>

definition first_rejected :: approval where
  "first_rejected = (sample_approval AP_REJECTED)\<lparr>ap_followup_status := Some FU_PENDING, ap_followup_request_id := Some ''r1''\<rparr>"

definition second_pending :: approval where
  "second_pending = (sample_approval AP_PENDING)\<lparr>ap_id := 2, ap_offer_id := 2\<rparr>"

definition second_offer :: offer where
  "second_offer = (sample_offer 13000 PROPOSED)\<lparr>of_id := 2\<rparr>"

definition crossed_session :: session where
  "crossed_session = \<lparr>ns_id = 1, ns_product_id = 1, ns_buyer_id = ''buyer'',
      ns_status = WAITING_APPROVAL, ns_current_offer_id = Some 2, ns_confirmed_offer_id = None,
      ns_confirmed_at = None, ns_confirmation_request_id = None, ns_confirmation_source = None,
      ns_round_count = 2, ns_version = 6, ns_graph_version = None, ns_archived_at = None,
      ns_lifecycle_checked_at = None, ns_next_input_seq = 1, ns_last_resolved_input_seq = 0,
      ns_next_public_seq = 1\<rparr>"

definition crossed :: db where
  \<comment> \<open>the first offer was rejected, the second waits for the seller, the notice of the rejection is still to be sent\<close>
  "crossed = sample_db\<lparr>d_sessions := [(1, crossed_session)], d_next_session := 2,
     d_offers := [(1, sample_offer 12000 REJECTED), (2, second_offer)], d_next_offer := 3,
     d_approvals := [(1, first_rejected), (2, second_pending)], d_next_approval := 3\<rparr>"

lemma crossed_legacy: "legacy_inv crossed"
  by (auto simp: legacy_inv_def offer_inv_defs approval_inv_def approvals_stored_def pending_awaited_def one_pending_def awaited_def
      crossed_def sample_db_def empty_db_def crossed_session_def first_rejected_def second_pending_def second_offer_def
      sample_approval_def keys_ok_def split: if_splits)


definition bike :: product where
  "bike = \<lparr>p_id = 1, p_seller_id = ''seller'', p_title = ''bike'', p_product_version = 1,
        p_description = ''used'', p_listed_price = 20000, p_status = AVAILABLE\<rparr>"

definition rejection_request :: followup_request where
  "rejection_request = agent_request first_rejected (sample_offer 12000 REJECTED) bike EV_REJECTED"

definition follow_env :: followup_env where
  "follow_env = \<lparr>fe_observed = None, fe_fresh = ''00000000-0000-4000-8000-000000000001'', fe_token = ''token'', fe_claim_local = 0, fe_claim_at = 0,
     fe_answer = (\<lambda>q. Inr (\<lparr>fd_event = fr_event q, fd_reason = ''r'', fd_reply = ''s''\<rparr>,
       \<lparr>pu_provider = ''qwen'', pu_model_name = ''m'', pu_input = None, pu_output = None, pu_cached = None, pu_total = None\<rparr>)),
     fe_clock = (1, 1, 1, 1)\<rparr>"

definition follow_policy :: retry_policy where
  "follow_policy = \<lparr>rp_max_attempts = 3, rp_base = 2, rp_max = 60, rp_jitter = 0, rp_lease = 30\<rparr>"

definition follow_config :: followup_config where
  "follow_config = \<lparr>fg_policy = follow_policy, fg_prices = \<lparr>up_input = None, up_output = None, up_cached = None, up_currency = None\<rparr>,
     fg_unit = (\<lambda>t n. 0)\<rparr>"

lemma uuid_ok: "canonical_uuid ''00000000-0000-4000-8000-000000000001''"
  by code_simp

lemma crossed_rows:
  "get_session crossed 1 = Some crossed_session" "get_offer crossed 1 = Some (sample_offer 12000 REJECTED)"
  "get_offer crossed 2 = Some second_offer" "get_approval crossed 1 = Some first_rejected" "get_approval crossed 2 = Some second_pending"
  "get_product crossed 1 = Some bike" "get_policy crossed 1 = Some sample_policy" "d_tasks crossed = []" "d_messages crossed = []"
  "d_next_task crossed = 1" "d_next_message crossed = 1" "trows (d_approvals crossed) = [first_rejected, second_pending]"
  by (simp_all add: crossed_def sample_db_def empty_db_def bike_def trows_def)

lemma first_rejected_fields:
  "ap_id first_rejected = 1" "ap_session_id first_rejected = 1" "ap_offer_id first_rejected = 1" "ap_status first_rejected = AP_REJECTED"
  "ap_followup_status first_rejected = Some FU_PENDING" "ap_followup_request_id first_rejected = Some ''r1''"
  "ap_policy_version first_rejected = 1" "ap_seller_comment first_rejected = None"
  by (simp_all add: first_rejected_def sample_approval_def)

lemma crossed_session_fields:
  "ns_product_id crossed_session = 1" "ns_version crossed_session = 6" "ns_status crossed_session = WAITING_APPROVAL"
  "ns_current_offer_id crossed_session = Some 2"
  by (simp_all add: crossed_session_def)

lemma facts_at:
  assumes "d_sessions d = d_sessions crossed" "d_offers d = d_offers crossed" "d_products d = d_products crossed" "d_policies d = d_policies crossed"
  shows "facts_of d first_rejected now = Inr ((crossed_session, bike, sample_offer 12000 REJECTED, Some sample_policy), EV_REJECTED)"
  by (simp add: facts_of_def load_context_def some_or_def assms crossed_rows first_rejected_fields crossed_session_fields resolve_event_def)

abbreviation hash1 :: "json \<Rightarrow> string" where "hash1 \<equiv> (\<lambda>j. ''hash'')"

definition rejection_input :: json where
  "rejection_input = serialize_task_input rejection_request (offer_result (sample_offer 12000 REJECTED))"

lemma rejection_input_ok: "json_object hash1 rejection_input = Inr (rejection_input, ''hash'')"
  by (simp add: rejection_input_def json_object_def serialize_task_input_def request_json_def offer_result_def rejection_request_def
      agent_request_def first_rejected_fields sample_offer_def)

definition rejection_task :: task where
  "rejection_task = new_task (approval_task_request follow_policy first_rejected rejection_input) ''hash'' (fe_fresh follow_env) (6, 1) 1"

definition tasked :: db where
  "tasked = crossed\<lparr>d_tasks := [(1, rejection_task)], d_next_task := 2\<rparr>"

lemma rejection_created:
  "create_task_in_transaction hash1 None (fe_observed follow_env) (fe_fresh follow_env)
     (approval_task_request follow_policy first_rejected rejection_input) crossed = Inr ((rejection_task, False), tasked)"
proof -
  let ?q = "approval_task_request follow_policy first_rejected rejection_input"
  have q: "tq_type ?q = APPROVAL_FOLLOWUP" "tq_key ?q = ''approval:1''" "tq_session ?q = 1" "tq_input ?q = rejection_input" "tq_offer ?q = Some 1"
    "tq_approval ?q = Some 1" "tq_schema_version ?q = 1" "tq_max_attempts ?q = 3"
    by (simp_all add: approval_task_request_def first_rejected_fields follow_policy_def show_int_def show_nat.simps digit_chars)
  have "valid_identifier 128 ''approval:1'' = Inr ''approval:1''" by (simp add: valid_identifier_def is_alnum_def)
  moreover have "correlation_id None (fe_observed follow_env) (fe_fresh follow_env) = Inr (fe_fresh follow_env)"
    using uuid_ok by (simp add: correlation_id_def follow_env_def)
  ultimately have v: "validated_request hash1 None (fe_observed follow_env) (fe_fresh follow_env) ?q = Inr (''hash'', fe_fresh follow_env)"
    by (simp add: validated_request_def q rejection_input_ok)
  have c: "capture_references ?q crossed = Inr (6, 1)"
    by (simp add: capture_references_def captured_def q crossed_rows crossed_session_fields first_rejected_fields)
  have k: "task_of_key crossed (tq_type ?q) (tq_key ?q) = None" by (simp add: task_of_key_def crossed_rows trows_def)
  have "task_checks rejection_task" "t_lease_token rejection_task = None"
    by (simp_all add: rejection_task_def new_task_def task_checks_def q)
  then have "flush_task 1 rejection_task (crossed\<lparr>d_next_task := 2\<rparr>) = Inr (rejection_task, tasked)"
    by (simp add: flush_task_def tasked_def crossed_rows tput_def)
  then show ?thesis
    by (simp add: create_task_in_transaction_def v create_validated_def k c crossed_rows rejection_task_def)
qed


definition rejection_leased :: task where
  "rejection_leased = apply_lease ''approval:1'' ''token'' 0 30 rejection_task"

definition leased_db :: db where
  "leased_db = crossed\<lparr>d_tasks := [(1, rejection_leased)], d_next_task := 2\<rparr>"

lemma rejection_task_fields:
  "t_id rejection_task = 1" "t_status rejection_task = T_PENDING" "t_runtime_kind rejection_task = ''V3''" "t_attempt_count rejection_task = 0"
  "t_max_attempts rejection_task = 3" "t_lease_token rejection_task = None"
  by (simp_all add: rejection_task_def new_task_def approval_task_request_def follow_policy_def)

lemma rejection_leased_fields:
  "t_id rejection_leased = 1" "t_status rejection_leased = T_RUNNING" "t_lease_token rejection_leased = Some ''token''"
  "t_lease_expires_at rejection_leased = Some (seconds 30)" "t_input_snapshot rejection_leased = rejection_input"
  "t_session_version rejection_leased = 6" "t_policy_version rejection_leased = 1" "t_offer_id rejection_leased = Some 1"
  "t_approval_id rejection_leased = Some 1" "task_checks rejection_leased" "t_snapshot_schema_version rejection_leased = 1"
  "t_attempt_count rejection_leased = 1" "t_max_attempts rejection_leased = 3" "t_manual_retry_count rejection_leased = 0"
  by (simp_all add: rejection_leased_def apply_lease_def rejection_task_def new_task_def approval_task_request_def follow_policy_def
      first_rejected_fields task_checks_def)

lemma rejection_lease:
  "lease_task 1 ''approval:1'' 30 ''token'' 0 tasked = Inr (Some rejection_leased, leased_db)"
proof -
  have "lease_request ''approval:1'' 30 = Inr ''approval:1''"
    by (simp add: lease_request_def valid_identifier_def is_alnum_def)
  moreover have "get_task tasked 1 = Some rejection_task" by (simp add: tasked_def)
  moreover have "d_tasks tasked = [(1, rejection_task)]" by (simp add: tasked_def)
  moreover have "tasked\<lparr>d_tasks := [(1, rejection_leased)]\<rparr> = leased_db" by (simp add: tasked_def leased_db_def)
  ultimately show ?thesis
    using rejection_leased_fields(10)
    by (simp add: lease_task_def locked_task_def some_or_def rejection_task_fields lease_eligible_def give_lease_def
        flush_task_def trows_def tput_def rejection_leased_def [symmetric])
qed

lemma rejection_claimed:
  "claim_followup hash1 follow_policy follow_env [] crossed = Inr (Leased rejection_leased, leased_db)"
proof -
  have n: "next_approval [] crossed = Some first_rejected"
    by (simp add: next_approval_def crossed_rows first_rejected_fields)
  have e: "existing_message crossed 1 ''r1'' = None" by (simp add: existing_message_def crossed_rows trows_def)
  have f: "facts_of crossed first_rejected (fe_claim_local follow_env)
      = Inr ((crossed_session, bike, sample_offer 12000 REJECTED, Some sample_policy), EV_REJECTED)"
    by (rule facts_at) simp_all
  have show1: "show_int 1 = ''1''" by (simp add: show_int_def show_nat.simps digit_chars)
  have l: "rp_lease follow_policy = 30" "fe_token follow_env = ''token''" "fe_claim_at follow_env = 0"
    by (simp_all add: follow_policy_def follow_env_def)
  show ?thesis
    by (simp add: claim_followup_def n first_rejected_fields e f lease_approval_def rejection_created [unfolded rejection_input_def]
        rejection_request_def [symmetric] rejection_task_fields show1 l rejection_lease rejection_leased_fields)
qed

lemma rejection_rendered:
  "\<exists>s. render_trusted_event rejection_request (offer_result (sample_offer 12000 REJECTED)) = Inr (s, OUT_REJECTED)"
proof -
  have m: "money_text (JStr (show_cents 12000)) = Inr (show_cents 12000)" "money_text (JStr (show_cents 0)) = Inr (show_cents 0)"
    by (rule money_text_cents, simp)+
  have r: "fr_event rejection_request = EV_REJECTED" by (simp add: rejection_request_def agent_request_def)
  show ?thesis
    by (simp add: render_trusted_event_def r offer_result_def validated_offer_def sample_offer_def terms_text_def some_or_def m
        shipping_text_def discount_text_def delivery_text_def)
qed


definition released :: db where
  \<comment> \<open>after the notice: the negotiation no longer waits\<close>
  "released = apply_successful_event 1 (sample_offer 12000 REJECTED) EV_REJECTED leased_db"

lemma released_session: "get_session released 1 = Some (crossed_session\<lparr>ns_status := ACTIVE, ns_version := 7\<rparr>)"
  by (simp add: released_def apply_successful_event_def restore_active_def leased_db_def crossed_rows crossed_session_fields)

lemma released_rest:
  "d_approvals released = d_approvals crossed" "d_tasks released = [(1, rejection_leased)]" "d_messages released = []" "d_next_message released = 1"
  "d_offers released = d_offers crossed"
  by (simp_all add: released_def apply_successful_event_def restore_active_def leased_db_def crossed_rows)

lemma rejection_finished:
  "\<exists>r d'. finalize_followup hash1 follow_policy u rejection_leased ''token'' \<lparr>fd_event = EV_REJECTED, fd_reason = ''r'', fd_reply = ''s''\<rparr>
     (build_usage (fg_prices follow_config) \<lparr>pu_provider = ''qwen'', pu_model_name = ''m'', pu_input = None, pu_output = None, pu_cached = None, pu_total = None\<rparr>)
     (1, 1, 1, 1) leased_db = Inr (r, d')
     \<and> d_sessions d' = d_sessions released \<and> get_approval d' 2 = Some second_pending"
proof -
  let ?draft = "\<lparr>fd_event = EV_REJECTED, fd_reason = ''r'', fd_reply = ''s''\<rparr> :: followup_draft"
  let ?u = "build_usage (fg_prices follow_config) \<lparr>pu_provider = ''qwen'', pu_model_name = ''m'', pu_input = None, pu_output = None, pu_cached = None, pu_total = None\<rparr>"
  have act: "active_lease rejection_leased ''token'' 1" by (simp add: active_lease_def rejection_leased_fields seconds_def)
  have get: "get_task leased_db 1 = Some rejection_leased" by (simp add: leased_db_def)
  have l: "leased_task leased_db 1 ''token'' 1 = Inr rejection_leased"
    by (simp add: leased_task_def locked_task_def some_or_def get act)
  have a: "task_approval rejection_leased leased_db = Some first_rejected"
    by (simp add: task_approval_def rejection_leased_fields leased_db_def crossed_rows)
  have e: "existing_message leased_db 1 ''r1'' = None" by (simp add: existing_message_def leased_db_def crossed_rows trows_def)
  have f: "facts_of leased_db first_rejected 1
      = Inr ((crossed_session, bike, sample_offer 12000 REJECTED, Some sample_policy), EV_REJECTED)"
    by (rule facts_at) (simp_all add: leased_db_def)
  have i: "task_input rejection_input = Inr (rejection_request, offer_result (sample_offer 12000 REJECTED))"
    unfolding rejection_input_def by (rule task_input_serialized)
  have s: "stale_reason rejection_leased crossed_session (Some sample_policy) (sample_offer 12000 REJECTED) first_rejected
      rejection_request rejection_request = None"
    by (simp add: stale_reason_def rejection_leased_fields crossed_session_fields first_rejected_fields)
  obtain reply where "render_trusted_event rejection_request (offer_result (sample_offer 12000 REJECTED)) = Inr (reply, OUT_REJECTED)"
    using rejection_rendered by blast
  moreover have "fr_event rejection_request = EV_REJECTED" by (simp add: rejection_request_def agent_request_def)
  ultimately have d: "apply_draft rejection_request (offer_result (sample_offer 12000 REJECTED)) ?draft = Inr (reply, OUT_REJECTED)"
    by (simp add: apply_draft_def)
  obtain d1 where p: "persist_message first_rejected ''r1'' reply OUT_REJECTED None released = Inr (1, d1)"
    and d1: "d_sessions d1 = d_sessions released" "get_approval d1 2 = Some second_pending" "d_tasks d1 = [(1, rejection_leased)]"
    by (simp add: persist_message_def released_rest replied_def trows_def tadd_def first_rejected_fields mark_followup_def crossed_rows)
  have get1: "leased_task d1 1 ''token'' 1 = Inr rejection_leased"
    by (simp add: leased_task_def locked_task_def some_or_def d1 act)
  have "\<exists>x. complete_success hash1 1 ''token'' (draft_json ?draft) ?u 1 d1 = Inr (x, d1\<lparr>d_tasks := [(1, x)]\<rparr>)"
    by (simp add: complete_success_def json_object_def draft_json_def validated_usage_def build_usage_def follow_config_def estimated_cost_def
        strip_def is_space_def not_negative_def get1 flush_task_def d1 tput_def clear_lease_def
        task_checks_def rejection_leased_fields)
  then obtain x where c: "complete_success hash1 1 ''token'' (draft_json ?draft) ?u 1 d1 = Inr (x, d1\<lparr>d_tasks := [(1, x)]\<rparr>)" by blast
  have "conclude hash1 follow_policy u rejection_leased ''token'' ?draft ?u first_rejected ''r1''
      ((crossed_session, bike, sample_offer 12000 REJECTED, Some sample_policy), EV_REJECTED) 1 1 leased_db
    = Inr (settled_notice 1 FU_SENT (Some 1) (Some OUT_REJECTED), d1\<lparr>d_tasks := [(1, x)]\<rparr>)"
    by (simp add: conclude_def rejection_leased_fields i rejection_request_def [symmetric] s d first_rejected_fields
        released_def [symmetric] p c)
  then show ?thesis
    using d1 by (simp add: finalize_followup_def rejection_leased_fields l a first_rejected_fields e f)
qed


theorem followup_sound_witness:
  "\<exists>(d' :: db). d_sessions d' = d_sessions released \<and> offer_inv d'"
proof -
  obtain r d' where f: "finalize_followup hash1 follow_policy (\<lambda>t n. 0) rejection_leased ''token'' \<lparr>fd_event = EV_REJECTED, fd_reason = ''r'', fd_reply = ''s''\<rparr>
     (build_usage (fg_prices follow_config) \<lparr>pu_provider = ''qwen'', pu_model_name = ''m'', pu_input = None, pu_output = None, pu_cached = None, pu_total = None\<rparr>)
     (1, 1, 1, 1) leased_db = Inr (r, d')" and s: "d_sessions d' = d_sessions released"
    using rejection_finished by blast
  have "offer_inv leased_db"
    by (rule offer_inv_other [of crossed]) (use crossed_legacy in \<open>simp_all add: legacy_inv_def leased_db_def\<close>)
  from followup_sound [OF f this] s show ?thesis by blast
qed

text \<open>
  C33: A defect: when the notice of a rejected offer is sent while a later offer of the same negotiation waits for the
  seller, the worker makes the negotiation active although the later approval is still pending. The state it starts
  from satisfies the invariant of the approvals, the state it leaves does not.
\<close>

theorem late_rejection_releases_waiting:
  "\<exists>r d'. legacy_inv crossed \<and> process_next hash1 follow_config follow_env [] crossed = (Inr (Some r), d')
     \<and> get_approval d' 2 = Some second_pending \<and> ap_status second_pending = AP_PENDING
     \<and> map_option ns_status (get_session d' 1) = Some ACTIVE \<and> \<not> approval_inv d'"
proof -
  let ?u = "\<lparr>pu_provider = ''qwen'', pu_model_name = ''m'', pu_input = None, pu_output = None, pu_cached = None, pu_total = None\<rparr>"
  obtain r d' where f: "finalize_followup hash1 follow_policy (\<lambda>t n. 0) rejection_leased ''token''
      \<lparr>fd_event = EV_REJECTED, fd_reason = ''r'', fd_reply = ''s''\<rparr> (build_usage (fg_prices follow_config) ?u) (1, 1, 1, 1) leased_db = Inr (r, d')"
    and d': "d_sessions d' = d_sessions released" "get_approval d' 2 = Some second_pending"
    using rejection_finished by blast
  have env: "fe_clock follow_env = (1, 1, 1, 1)" "fe_answer follow_env q = Inr (\<lparr>fd_event = fr_event q, fd_reason = ''r'', fd_reply = ''s''\<rparr>, ?u)"
    "fg_policy follow_config = follow_policy" "fg_unit follow_config = (\<lambda>t n. 0)" "fr_event rejection_request = EV_REJECTED" for q
    by (simp_all add: follow_env_def follow_config_def rejection_request_def agent_request_def)
  have i: "task_input rejection_input = Inr (rejection_request, offer_result (sample_offer 12000 REJECTED))"
    unfolding rejection_input_def by (rule task_input_serialized)
  have "process_leased hash1 follow_config follow_env rejection_leased leased_db = (Inr r, d')"
    by (simp add: process_leased_def rejection_leased_fields env i f or_lease_lost_def)
  then have p: "process_next hash1 follow_config follow_env [] crossed = (Inr (Some r), d')"
    by (simp add: process_next_def env rejection_claimed)
  have pending: "ap_status second_pending = AP_PENDING" "ap_session_id second_pending = 1"
    by (simp_all add: second_pending_def sample_approval_def)
  have active: "get_session d' 1 = Some (crossed_session\<lparr>ns_status := ACTIVE, ns_version := 7\<rparr>)"
    using d'(1) released_session by simp
  have "\<not> awaited d' second_pending"
    by (simp add: awaited_def pending active) (simp add: crossed_session_def)
  then have "\<not> approval_inv d'" using d'(2) pending(1) approval_inv_awaitedD by blast
  with p d'(2) pending(1) active crossed_legacy show ?thesis by (intro exI [of _ r] exI [of _ d']) simp
qed

section \<open>A retry\<close>

definition timed_out :: round where
  "timed_out = \<lparr>rd_worker = ''worker'', rd_token = ''first'', rd_secs = 30, rd_leased = 100, rd_error = TimeoutFailure, rd_planned = 200, rd_failed = 200\<rparr>"

theorem retries_end_witness:
  "\<exists>(d' :: db) t'. get_task d' 1 = Some t' \<and> t_attempt_count t' = 1 \<and> t_status t' \<in> {T_FAILED, T_RETRY_WAIT}"
proof -
  let ?t = "held_task ''first'' 100 30"
  let ?f = "with_task\<lparr>d_tasks := [(1, ?t)]\<rparr>"
  have fields: "t_id ?t = 1" "t_attempt_count ?t = 1" "t_max_attempts ?t = 3" "t_status ?t = T_RUNNING" "t_lease_token ?t = Some ''first''"
    "t_lease_expires_at ?t = Some (100 + seconds 30)"
    by (simp_all add: held_task_def apply_lease_def sample_task_def new_task_def)
  have "leased_task ?f 1 ''first'' 200 = Inr ?t"
    by (simp add: leased_task_def locked_task_def some_or_def active_lease_def fields seconds_def)
  moreover have "retry_delay follow_policy 0 1 = 2" by (simp add: retry_delay_def follow_policy_def)
  moreover have "fc_retryable (classify TimeoutFailure)" by simp
  moreover have "task_checks (clear_lease False (?t\<lparr>t_status := T_RETRY_WAIT, t_next_retry_at := Some a, t_last_error_category := Some b,
      t_last_error_message := c, t_completed_at := None\<rparr>))" for a b c
    by (simp add: clear_lease_def held_task_def apply_lease_def sample_task_def new_task_def task_checks_def)
  ultimately have "\<exists>d'. apply_failure follow_policy (\<lambda>t n. 0) None ?t ''first'' TimeoutFailure 200 200 ?f = Inr (FU_FAILED, d')"
    by (simp add: apply_failure_def plan_failure_def fields defer_retry_def flush_task_def seconds_def clear_lease_def)
  then obtain d' where step: "apply_failure follow_policy (\<lambda>t n. 0) None ?t ''first'' TimeoutFailure 200 200 ?f = Inr (FU_FAILED, d')"
    by blast
  have "fail_rounds follow_policy (\<lambda>t n. 0) 1 [timed_out] with_task d'"
    by (rule fail_rounds.one_more [OF fail_rounds.no_round, unfolded append_Nil, where x = timed_out and t = "?t" and f = "?f" and a = None and st = FU_FAILED])
      (simp_all add: timed_out_def sample_leased step fields)
  moreover have "get_task with_task 1 = Some sample_task" by (simp add: with_task_def)
  moreover have "policy_ok follow_policy" by (simp add: policy_ok_def follow_policy_def)
  ultimately obtain t' where "get_task d' 1 = Some t'" "t_attempt_count t' = t_attempt_count sample_task + 1"
    "t_status t' = T_FAILED \<or> t_status t' = T_RETRY_WAIT"
    using retries_end [OF _ with_task_sound, of follow_policy "\<lambda>t n. 0" 1 "[timed_out]" d' sample_task] by (auto split: if_splits)
  then show ?thesis by (intro exI [of _ d'] exI [of _ t']) (simp add: sample_task_def new_task_def)
qed

section \<open>A leased notice blocks those behind it\<close>

lemma leased_head_blocks:
  assumes "next_approval ex d = Some a" and "ap_followup_request_id a = Some key" and "key \<noteq> []" and "length key \<le> 64"
    and "existing_message d (ap_session_id a) key = None"
    and "facts_of d a (fe_claim_local env) = Inr ((n, pr, off, pol), e)"
    and "create_task_in_transaction H None (fe_observed env) (fe_fresh env) (approval_task_request (fg_policy g) a
           (serialize_task_input (agent_request a off pr e) (offer_result off))) d = Inr ((t, True), d)"
    and "get_task d (t_id t) = Some t" and "active_lease t token (fe_claim_at env)"
    and "lease_request (''approval:'' @ show_int (ap_id a)) (rp_lease (fg_policy g)) = Inr w"
  shows "process_next H g env ex d = (Inr None, d)"
proof -
  have st: "t_status t = T_RUNNING" using assms(9) by (simp add: active_lease_def)
  have "lease_task (t_id t) (''approval:'' @ show_int (ap_id a)) (rp_lease (fg_policy g)) (fe_token env) (fe_claim_at env) d = Inr (None, d)"
    using active_not_eligible [OF assms(9)] by (simp only: lease_task_def assms(10)) (simp add: locked_task_def some_or_def assms(8))
  then have "lease_approval H (fg_policy g) env a (serialize_task_input (agent_request a off pr e) (offer_result off)) d = Inr (Idle, d)"
    by (simp add: lease_approval_def assms(7) st)
  with assms(1-6) show ?thesis by (simp add: process_next_def claim_followup_def)
qed

end
