(* ===== verification/Intent.thy ===== *)
theory Intent
  imports Approval
begin

text \<open>
  \<open>backend/app/services/intent_service.py\<close>: the buyer's final confirmation of an offer and the closing of a
  negotiation, in the earlier runtime. A confirmation is the only way a negotiation becomes AGREED.

  The clock is read for the offer's deadline and for the moment of the confirmation. Messages are the rows that the
  snapshots are made of, their Chinese wording is given by English tags; the copy of a message for the transcript of the
  language model is left out. The update of \<open>confirmation_request_id\<close>, a unique column, is flushed by the first query of
  that copy and so before the \<open>try\<close> around the explicit flush.
\<close>

section \<open>Helpers\<close>

record confirmation =
  cn_session_id :: int
  cn_status :: negotiation_status
  cn_offer_id :: int
  cn_confirmed_at :: time
  cn_source :: confirmation_source
  cn_message :: message
  cn_replay :: bool

record closing =
  cl_session_id :: int
  cl_status :: negotiation_status
  cl_cancelled_approval :: "int option"
  cl_message :: message
  cl_replay :: bool

abbreviation lifecycle_conflict :: exn where
  "lifecycle_conflict \<equiv> ServiceExn NegotiationLifecycleConflict"

definition intent_request_id :: "string \<Rightarrow> exn + string" where
  \<comment> \<open>\<open>_validated_request_id\<close>\<close>
  "intent_request_id rid =
     (let stored = strip rid in
      if 8 \<le> length stored \<and> length stored \<le> 56 \<and> list_all (\<lambda>c. is_alnum c \<or> c = CHR ''_'' \<or> c = CHR ''-'') stored
      then Inr stored else Inl lifecycle_conflict)"

definition system_request_id :: "string \<Rightarrow> string \<Rightarrow> string" where
  "system_request_id prefix rid = prefix @ '':'' @ rid"

definition owned_negotiation :: "db \<Rightarrow> int \<Rightarrow> string \<Rightarrow> exn + session" where
  \<comment> \<open>\<open>_get_owned_negotiation\<close>, for an update\<close>
  "owned_negotiation d sid buyer =
     (case get_session d sid of
        None \<Rightarrow> Inl (ServiceExn NegotiationNotFound)
      | Some n \<Rightarrow>
          if ns_buyer_id n \<noteq> buyer then Inl (ServiceExn NegotiationNotFound)
          else ebind (require_legacy_runtime n) (\<lambda>_. Inr n))"

definition has_formal_message :: "db \<Rightarrow> int \<Rightarrow> int \<Rightarrow> string \<Rightarrow> bool" where
  "has_formal_message d sid oid outcome \<longleftrightarrow>
     list_ex (\<lambda>m. ms_session_id m = sid \<and> ms_role m = AGENT_MESSAGE \<and> ms_formal_offer_id m = Some oid
                  \<and> ms_agent_outcome m = Some outcome) (trows (d_messages d))"

definition message_by_request_id :: "db \<Rightarrow> int \<Rightarrow> string \<Rightarrow> message option" where
  "message_by_request_id d sid rid = find (\<lambda>m. ms_session_id m = sid \<and> ms_request_id m = rid) (trows (d_messages d))"

definition post_message ::
    "int \<Rightarrow> message_role \<Rightarrow> string \<Rightarrow> string \<Rightarrow> string option \<Rightarrow> string option \<Rightarrow> int option \<Rightarrow> db \<Rightarrow> exn + message \<times> db" where
  \<comment> \<open>\<open>db.add(message); db.flush()\<close>, with the unique constraint on session and request\<close>
  "post_message sid role content rid fingerprint outcome formal d =
     (let mid = d_next_message d;
          m = \<lparr>ms_id = mid, ms_source_id = None, ms_public_seq = None, ms_session_id = sid, ms_role = role,
               ms_content = content, ms_request_id = rid, ms_request_fingerprint = fingerprint,
               ms_agent_outcome = outcome, ms_formal_offer_id = formal\<rparr> in
      if message_by_request_id d sid rid \<noteq> None then Inl IntegrityExn
      else ebind (tadd IntegrityExn mid m (d_messages d)) (\<lambda>ms.
           Inr (m, d\<lparr>d_messages := ms, d_next_message := mid + 1\<rparr>)))"

definition confirmation_message :: "offer \<Rightarrow> string" where
  "confirmation_message off =
     ''confirmed offer #'' @ show_int (of_id off) @ '': '' @ show_cents (of_price off)
     @ (if of_shipping_paid_by off = SellerPays then '', shipping included'' else '', shipping paid by the buyer'')
     @ (if of_seller_borne_discount off \<noteq> 0 then '', discount '' @ show_cents (of_seller_borne_discount off) else [])
     @ (case jget (JObj (of_terms off)) ''delivery_method'' of
          JStr s \<Rightarrow> if s = ''pickup'' then '', by pickup'' else if s = ''shipping'' then '', by shipping'' else []
        | _ \<Rightarrow> [])
     @ ''; intent recorded, not a sale''"

definition reauthorize :: "offer \<Rightarrow> policy \<Rightarrow> exn + authorization" where
  \<comment> \<open>the \<open>try\<close> of \<open>_confirmation_source\<close>\<close>
  "reauthorize off pol =
     (case authorize_stored_offer off pol of
        Inl (ServiceExn e) \<Rightarrow> Inl lifecycle_conflict
      | r \<Rightarrow> r)"

definition offer_approval :: "db \<Rightarrow> int \<Rightarrow> approval option" where
  "offer_approval d oid = find (\<lambda>a. ap_offer_id a = oid) (trows (d_approvals d))"

definition intent_source :: "db \<Rightarrow> int \<Rightarrow> offer \<Rightarrow> policy \<Rightarrow> exn + confirmation_source" where
  \<comment> \<open>\<open>_confirmation_source\<close>\<close>
  "intent_source d sid off pol =
     ebind (reauthorize off pol) (\<lambda>au.
     case of_proposer off of
       AGENT \<Rightarrow>
         if of_status off \<noteq> PROPOSED \<or> \<not> au_can_counter au
            \<or> \<not> has_formal_message d sid (of_id off) ''COUNTER_OFFERED''
         then Inl lifecycle_conflict else Inr AGENT_COUNTER
     | BUYER \<Rightarrow>
         if of_status off \<noteq> ACCEPTED then Inl lifecycle_conflict
         else case offer_approval d (of_id off) of
           Some a \<Rightarrow>
             if ap_status a \<noteq> AP_APPROVED \<or> ap_followup_status a \<noteq> Some FU_SENT
                \<or> ap_policy_version a \<noteq> sp_version pol \<or> \<not> au_can_request_approval au
                \<or> \<not> has_formal_message d sid (of_id off) ''APPROVAL_APPROVED''
             then Inl lifecycle_conflict else Inr SELLER_APPROVED_BUYER_OFFER
         | None \<Rightarrow>
             if \<not> au_can_accept au \<or> \<not> has_formal_message d sid (of_id off) ''OFFER_ACCEPTED''
             then Inl lifecycle_conflict else Inr AUTO_ACCEPTED_BUYER_OFFER)"

definition replay_confirmation :: "db \<Rightarrow> int \<Rightarrow> session \<Rightarrow> int \<Rightarrow> exn + confirmation" where
  "replay_confirmation d sid n oid =
     (case (ns_confirmed_at n, ns_confirmation_request_id n, ns_confirmation_source n) of
        (Some at1, Some rid, Some src) \<Rightarrow>
          if ns_confirmed_offer_id n \<noteq> Some oid then Inl lifecycle_conflict
          else (case message_by_request_id d sid (system_request_id ''confirm'' rid) of
                  None \<Rightarrow> Inl lifecycle_conflict
                | Some m \<Rightarrow>
                    if ms_role m \<noteq> SYSTEM_MESSAGE then Inl lifecycle_conflict
                    else Inr \<lparr>cn_session_id = sid, cn_status = ns_status n, cn_offer_id = oid, cn_confirmed_at = at1,
                              cn_source = src, cn_message = m, cn_replay = True\<rparr>)
      | _ \<Rightarrow> Inl lifecycle_conflict)"

definition replay_closure :: "db \<Rightarrow> int \<Rightarrow> session \<Rightarrow> exn + closing" where
  "replay_closure d sid n =
     (case find (\<lambda>m. ms_session_id m = sid \<and> ms_role m = SYSTEM_MESSAGE
                     \<and> ms_agent_outcome m = Some ''NEGOTIATION_CLOSED'') (trows (d_messages d)) of
        None \<Rightarrow> Inl lifecycle_conflict
      | Some m \<Rightarrow> Inr \<lparr>cl_session_id = sid, cl_status = ns_status n, cl_cancelled_approval = None,
                       cl_message = m, cl_replay = True\<rparr>)"

section \<open>Operations\<close>

definition confirmation_key_free :: "db \<Rightarrow> int \<Rightarrow> string \<Rightarrow> bool" where
  \<comment> \<open>the unique constraint on \<open>confirmation_request_id\<close>, for a write to the session\<close>
  "confirmation_key_free d sid rid \<longleftrightarrow>
     list_all (\<lambda>s. ns_id s = sid \<or> ns_confirmation_request_id s \<noteq> Some rid) (trows (d_sessions d))"

definition confirm_current ::
    "time \<Rightarrow> int \<Rightarrow> int \<Rightarrow> offer \<Rightarrow> confirmation_source \<Rightarrow> string \<Rightarrow> db \<Rightarrow> exn + confirmation \<times> db" where
  \<comment> \<open>the writes of \<open>confirm_offer\<close>\<close>
  "confirm_current confirmed_at sid oid off src rid d =
     (let d1 = mod_session sid (\<lambda>s. s\<lparr>ns_status := AGREED, ns_confirmed_offer_id := Some oid,
                 ns_confirmed_at := Some confirmed_at, ns_confirmation_request_id := Some rid,
                 ns_confirmation_source := Some src, ns_version := ns_version s + 1\<rparr>)
               (mod_offer oid (\<lambda>x. x\<lparr>of_status := ACCEPTED\<rparr>) d) in
      if \<not> confirmation_key_free d sid rid then Inl IntegrityExn
      else
      (case post_message sid SYSTEM_MESSAGE (confirmation_message off) (system_request_id ''confirm'' rid) None None
              (Some oid) d1 of
         Inl e \<Rightarrow> Inl lifecycle_conflict
       | Inr (m, d2) \<Rightarrow>
           Inr (\<lparr>cn_session_id = sid, cn_status = AGREED, cn_offer_id = oid, cn_confirmed_at = confirmed_at,
                 cn_source = src, cn_message = m, cn_replay = False\<rparr>, d2)))"

definition confirm_offer :: "time \<times> time \<Rightarrow> int \<Rightarrow> string \<Rightarrow> int \<Rightarrow> string \<Rightarrow> db \<Rightarrow> exn + confirmation \<times> db" where
  "confirm_offer clock sid buyer oid request d =
     ebind (intent_request_id request) (\<lambda>rid.
     ebind (owned_negotiation d sid buyer) (\<lambda>n.
     if ns_status n = AGREED then ebind (replay_confirmation d sid n oid) (\<lambda>c. Inr (c, d))
     else if ns_status n \<noteq> ACTIVE then Inl lifecycle_conflict
     else if ns_current_offer_id n \<noteq> Some oid then Inl lifecycle_conflict
     else case get_product d (ns_product_id n) of
       None \<Rightarrow> Inl lifecycle_conflict
     | Some p \<Rightarrow>
     if p_status p \<noteq> AVAILABLE then Inl lifecycle_conflict
     else case get_offer d oid of
       None \<Rightarrow> Inl lifecycle_conflict
     | Some off \<Rightarrow>
     if of_session_id off \<noteq> sid then Inl lifecycle_conflict
     else if is_expired (of_expires_at off) (fst clock) then Inl lifecycle_conflict
     else case get_policy d (ns_product_id n) of
       None \<Rightarrow> Inl lifecycle_conflict
     | Some pol \<Rightarrow>
     ebind (intent_source d sid off pol) (\<lambda>src.
     if message_by_request_id d sid (system_request_id ''confirm'' rid) \<noteq> None then Inl lifecycle_conflict
     else confirm_current (snd clock) sid oid off src rid d)))"

definition close_open :: "int \<Rightarrow> string \<Rightarrow> db \<Rightarrow> exn + closing \<times> db" where
  \<comment> \<open>\<open>close_negotiation\<close> of a negotiation that is ACTIVE or WAITING_APPROVAL\<close>
  "close_open sid rid d =
     (let pending = get_pending d sid;
          d1 = (case pending of None \<Rightarrow> d | Some a \<Rightarrow> mod_approval (ap_id a) (\<lambda>x. x\<lparr>ap_status := AP_CANCELLED\<rparr>) d) in
      if message_by_request_id d1 sid (system_request_id ''close'' rid) \<noteq> None then Inl lifecycle_conflict
      else
      ebind (post_message sid SYSTEM_MESSAGE ''closed by the buyer, no intent recorded'' (system_request_id ''close'' rid)
               None (Some ''NEGOTIATION_CLOSED'') None
               (mod_session sid (\<lambda>s. s\<lparr>ns_status := CLOSED, ns_version := ns_version s + 1\<rparr>) d1)) (\<lambda>(m, d2).
      Inr (\<lparr>cl_session_id = sid, cl_status = CLOSED, cl_cancelled_approval = map_option ap_id pending,
            cl_message = m, cl_replay = False\<rparr>, d2)))"

definition close_negotiation :: "int \<Rightarrow> string \<Rightarrow> string \<Rightarrow> db \<Rightarrow> exn + closing \<times> db" where
  "close_negotiation sid buyer request d =
     ebind (intent_request_id request) (\<lambda>rid.
     ebind (owned_negotiation d sid buyer) (\<lambda>n.
     case ns_status n of
       AGREED \<Rightarrow> Inl lifecycle_conflict
     | CLOSED \<Rightarrow> ebind (replay_closure d sid n) (\<lambda>c. Inr (c, d))
     | _ \<Rightarrow> close_open sid rid d))"

section \<open>Inversion\<close>

lemma owned_negotiation_Inr [result_simps]:
  "owned_negotiation d sid buyer = Inr n \<longleftrightarrow>
     get_session d sid = Some n \<and> ns_buyer_id n = buyer \<and> ns_graph_version n = None"
  by (auto simp: owned_negotiation_def result_simps split: option.splits)

lemma intent_request_id_Inr:
  "intent_request_id rid = Inr stored \<Longrightarrow> stored = strip rid"
  by (auto simp: intent_request_id_def Let_def split: if_splits)

lemma find_snoc: "find P (xs @ [x]) = (case find P xs of None \<Rightarrow> if P x then Some x else None | Some y \<Rightarrow> Some y)"
  by (induction xs) auto

lemma post_message_Inr:
  assumes "post_message sid role content rid fp outcome formal d = Inr (m, d')"
  shows "message_by_request_id d sid rid = None" and "message_by_request_id d' sid rid = Some m"
    and "ms_role m = role" and "ms_agent_outcome m = outcome" and "ms_formal_offer_id m = formal"
    and "d' = d\<lparr>d_messages := d_messages d @ [(d_next_message d, m)], d_next_message := d_next_message d + 1\<rparr>"
    and "ms_session_id m = sid" and "ms_request_id m = rid" and "ms_content m = content"
    and "ms_request_fingerprint m = fp"
  using assms by (auto simp: post_message_def Let_def result_simps message_by_request_id_def find_snoc)

lemma intent_source_cases:
  assumes "intent_source d sid off pol = Inr src"
  obtains (counter) au where "src = AGENT_COUNTER" and "of_proposer off = AGENT" and "of_status off = PROPOSED"
      and "authorize_stored_offer off pol = Inr au" and "au_can_counter au"
      and "has_formal_message d sid (of_id off) ''COUNTER_OFFERED''"
  | (approved) a au where "src = SELLER_APPROVED_BUYER_OFFER" and "of_proposer off = BUYER" and "of_status off = ACCEPTED"
      and "offer_approval d (of_id off) = Some a" and "ap_status a = AP_APPROVED"
      and "ap_followup_status a = Some FU_SENT" and "ap_policy_version a = sp_version pol"
      and "authorize_stored_offer off pol = Inr au" and "au_can_request_approval au"
      and "has_formal_message d sid (of_id off) ''APPROVAL_APPROVED''"
  | (automatic) au where "src = AUTO_ACCEPTED_BUYER_OFFER" and "of_proposer off = BUYER" and "of_status off = ACCEPTED"
      and "offer_approval d (of_id off) = None" and "authorize_stored_offer off pol = Inr au" and "au_can_accept au"
      and "has_formal_message d sid (of_id off) ''OFFER_ACCEPTED''"
proof -
  obtain au where "reauthorize off pol = Inr au"
    using assms unfolding intent_source_def by (elim ebind_InrE) (rule that)
  then have au: "authorize_stored_offer off pol = Inr au"
    by (auto simp: reauthorize_def split: sum.splits exn.splits)
  with assms \<open>reauthorize off pol = Inr au\<close> show thesis
    unfolding intent_source_def
    by (cases "of_proposer off") (auto intro: counter approved automatic split: if_splits option.splits)
qed

lemma confirm_offer_cases:
  assumes "confirm_offer (c1, c2) sid buyer oid request d = Inr (c, d')"
  obtains (again) n where "get_session d sid = Some n" and "ns_buyer_id n = buyer" and "ns_graph_version n = None"
      and "ns_status n = AGREED" and "replay_confirmation d sid n oid = Inr c" and "d' = d"
  | (agreed) n p off pol src where "get_session d sid = Some n" and "ns_buyer_id n = buyer" and "ns_graph_version n = None"
      and "ns_status n = ACTIVE" and "ns_current_offer_id n = Some oid" and "get_product d (ns_product_id n) = Some p"
      and "p_status p = AVAILABLE" and "get_offer d oid = Some off" and "of_session_id off = sid"
      and "\<not> is_expired (of_expires_at off) c1" and "get_policy d (ns_product_id n) = Some pol"
      and "intent_source d sid off pol = Inr src"
      and "confirm_current c2 sid oid off src (strip request) d = Inr (c, d')"
proof -
  obtain rid n where rid: "intent_request_id request = Inr rid" and n: "owned_negotiation d sid buyer = Inr n"
    and rest: "(if ns_status n = AGREED then ebind (replay_confirmation d sid n oid) (\<lambda>c. Inr (c, d))
     else if ns_status n \<noteq> ACTIVE then Inl lifecycle_conflict
     else if ns_current_offer_id n \<noteq> Some oid then Inl lifecycle_conflict
     else case get_product d (ns_product_id n) of
       None \<Rightarrow> Inl lifecycle_conflict
     | Some p \<Rightarrow>
     if p_status p \<noteq> AVAILABLE then Inl lifecycle_conflict
     else case get_offer d oid of
       None \<Rightarrow> Inl lifecycle_conflict
     | Some off \<Rightarrow>
     if of_session_id off \<noteq> sid then Inl lifecycle_conflict
     else if is_expired (of_expires_at off) c1 then Inl lifecycle_conflict
     else case get_policy d (ns_product_id n) of
       None \<Rightarrow> Inl lifecycle_conflict
     | Some pol \<Rightarrow>
     ebind (intent_source d sid off pol) (\<lambda>src.
     if message_by_request_id d sid (system_request_id ''confirm'' rid) \<noteq> None then Inl lifecycle_conflict
     else confirm_current c2 sid oid off src rid d)) = Inr (c, d')"
    using assms unfolding confirm_offer_def fst_conv snd_conv by (elim ebind_InrE) (rule that)
  note facts = intent_request_id_Inr [OF rid] n [unfolded owned_negotiation_Inr]
  show thesis
  proof (cases "ns_status n = AGREED")
    case True
    with rest obtain "replay_confirmation d sid n oid = Inr c" and "d' = d" by (auto elim: ebind_InrE)
    with True facts show ?thesis by (intro again) simp_all
  next
    case False
    show ?thesis
      by (rule raise_InrE [OF rest [unfolded if_not_P [OF False]]], elim result_elims, rule agreed)
        (use facts in simp_all)
  qed
qed

lemma confirm_current_Inr:
  assumes "confirm_current at1 sid oid off src rid d = Inr (c, d')"
  obtains m where "post_message sid SYSTEM_MESSAGE (confirmation_message off) (system_request_id ''confirm'' rid) None None
        (Some oid) (mod_session sid (\<lambda>s. s\<lparr>ns_status := AGREED, ns_confirmed_offer_id := Some oid,
                 ns_confirmed_at := Some at1, ns_confirmation_request_id := Some rid,
                 ns_confirmation_source := Some src, ns_version := ns_version s + 1\<rparr>)
               (mod_offer oid (\<lambda>x. x\<lparr>of_status := ACCEPTED\<rparr>) d)) = Inr (m, d')"
    and "confirmation_key_free d sid rid"
    and "c = \<lparr>cn_session_id = sid, cn_status = AGREED, cn_offer_id = oid, cn_confirmed_at = at1,
              cn_source = src, cn_message = m, cn_replay = False\<rparr>"
  using assms that unfolding confirm_current_def by (auto simp: Let_def split: if_splits sum.splits)

lemma replay_confirmation_Inr:
  "replay_confirmation d sid n oid = Inr c \<longleftrightarrow>
     (\<exists>at1 rid src m. ns_confirmed_at n = Some at1 \<and> ns_confirmation_request_id n = Some rid
        \<and> ns_confirmation_source n = Some src \<and> ns_confirmed_offer_id n = Some oid
        \<and> message_by_request_id d sid (system_request_id ''confirm'' rid) = Some m \<and> ms_role m = SYSTEM_MESSAGE
        \<and> c = \<lparr>cn_session_id = sid, cn_status = ns_status n, cn_offer_id = oid, cn_confirmed_at = at1,
               cn_source = src, cn_message = m, cn_replay = True\<rparr>)"
  by (auto simp: replay_confirmation_def split: option.splits)

lemma close_open_Inr:
  assumes "close_open sid rid d = Inr (c, d')"
  obtains m where "post_message sid SYSTEM_MESSAGE ''closed by the buyer, no intent recorded'' (system_request_id ''close'' rid)
               None (Some ''NEGOTIATION_CLOSED'') None
               (mod_session sid (\<lambda>s. s\<lparr>ns_status := CLOSED, ns_version := ns_version s + 1\<rparr>)
                 (case get_pending d sid of None \<Rightarrow> d
                  | Some a \<Rightarrow> mod_approval (ap_id a) (\<lambda>x. x\<lparr>ap_status := AP_CANCELLED\<rparr>) d)) = Inr (m, d')"
    and "c = \<lparr>cl_session_id = sid, cl_status = CLOSED, cl_cancelled_approval = map_option ap_id (get_pending d sid),
              cl_message = m, cl_replay = False\<rparr>"
proof -
  show thesis using assms unfolding close_open_def by (elim result_elims) (rule that; simp)
qed

lemma close_negotiation_cases:
  assumes "close_negotiation sid buyer request d = Inr (c, d')"
  obtains (again) n where "get_session d sid = Some n" and "ns_status n = CLOSED" and "ns_buyer_id n = buyer"
      and "replay_closure d sid n = Inr c" and "d' = d"
  | (closed) n where "get_session d sid = Some n" and "ns_buyer_id n = buyer" and "ns_graph_version n = None"
      and "ns_status n \<in> {ACTIVE, WAITING_APPROVAL}" and "close_open sid (strip request) d = Inr (c, d')"
proof -
  obtain rid n where rid: "intent_request_id request = Inr rid" and n: "owned_negotiation d sid buyer = Inr n"
    and rest: "(case ns_status n of
       AGREED \<Rightarrow> Inl lifecycle_conflict
     | CLOSED \<Rightarrow> ebind (replay_closure d sid n) (\<lambda>c. Inr (c, d))
     | _ \<Rightarrow> close_open sid rid d) = Inr (c, d')"
    using assms unfolding close_negotiation_def by (elim ebind_InrE) (rule that)
  note facts = intent_request_id_Inr [OF rid] n [unfolded owned_negotiation_Inr]
  show thesis
  proof (cases "ns_status n")
    case CLOSED
    with rest obtain "replay_closure d sid n = Inr c" and "d' = d" by (auto elim: ebind_InrE)
    with CLOSED facts show ?thesis by (intro again) simp_all
  qed (use rest facts in \<open>simp_all add: closed\<close>)
qed

section \<open>Invariants\<close>

lemma post_keeps:
  assumes "post_message sid role content rid fp outcome formal d = Inr (m, d')"
  shows "keeps d d'"
  by (rule keeps_other) (simp_all add: post_message_Inr(6) [OF assms])

lemma confirm_keeps:
  assumes "confirm_offer clock sid buyer oid request d = Inr (c, d')"
  shows "keeps d d'"
proof (cases "offer_inv d")
  case True
  obtain c1 c2 where clock: "clock = (c1, c2)" by (cases clock)
  from assms [unfolded clock] show ?thesis
  proof (cases rule: confirm_offer_cases)
    case (agreed n p off pol src)
    from agreed(13) obtain m where post: "post_message sid SYSTEM_MESSAGE (confirmation_message off)
        (system_request_id ''confirm'' (strip request)) None None (Some oid)
        (mod_session sid (\<lambda>s. s\<lparr>ns_status := AGREED, ns_confirmed_offer_id := Some oid,
           ns_confirmed_at := Some c2, ns_confirmation_request_id := Some (strip request),
           ns_confirmation_source := Some src, ns_version := ns_version s + 1\<rparr>)
         (mod_offer oid (\<lambda>x. x\<lparr>of_status := ACCEPTED\<rparr>) d)) = Inr (m, d')" (is "post_message _ _ _ _ _ _ _ ?d1 = _")
      by (rule confirm_current_Inr)
    have "keeps d ?d1"
    proof (rule keeps_not_awaited [OF _ agreed(1,3)])
      show "offer_inv ?d1" by (intro offer_inv_mod_session offer_inv_close_offer True) simp_all
      show "only_session sid d ?d1"
        using agreed(8,9) offer_inv_offerD [OF True agreed(8)] by (auto simp: only_session_def)
    qed (simp_all add: agreed(4))
    then show ?thesis using post_keeps [OF post] by (rule keeps_trans)
  qed simp
qed (simp add: keeps_def legacy_inv_def)

lemma close_pending_keeps:
  assumes "get_session d sid = Some n" and "ns_graph_version n = None"
  shows "keeps d (mod_session sid (\<lambda>s. s\<lparr>ns_status := CLOSED, ns_version := ns_version s + 1\<rparr>)
     (case get_pending d sid of None \<Rightarrow> d | Some a \<Rightarrow> mod_approval (ap_id a) (\<lambda>x. x\<lparr>ap_status := AP_CANCELLED\<rparr>) d))"
    (is "keeps d ?d'")
proof (cases "legacy_inv d")
  case True
  then have o: "offer_inv d" and a: "approval_inv d" by (simp_all add: legacy_inv_def)
  have o': "offer_inv ?d'"
    by (intro offer_inv_mod_session, rule offer_inv_other [OF o]) (simp_all split: option.splits)
  show ?thesis
  proof (cases "get_pending d sid")
    case None
    have "approval_inv ?d'"
    proof (rule approval_inv_change [OF a])
      show "approvals_stored ?d'" using a by (simp add: None approval_inv_def approvals_stored_def)
    next
      fix k b assume "get_approval ?d' k = Some b" "ap_status b = AP_PENDING"
      then show "get_approval d k = Some b \<and> ap_session_id b \<noteq> sid \<or> k = 0 \<and> ap_session_id b = sid \<and> awaited ?d' b"
        using get_pending_None [OF None] by (simp add: None)
    qed (simp add: None)
    with o' None show ?thesis by (simp add: keeps_def legacy_inv_def approval_history_same)
  next
    case (Some b)
    note b = get_pending_Some [OF a Some]
    have "approval_inv ?d'"
      by (rule approval_inv_close [OF a, of "ap_id b" b "\<lambda>x. x\<lparr>ap_status := AP_CANCELLED\<rparr>"])
        (use b in \<open>simp_all add: Some only_session_def\<close>)
    moreover have "approval_history d ?d'"
      by (rule approval_history_close [of d "ap_id b" b ?d' "\<lambda>x. x\<lparr>ap_status := AP_CANCELLED\<rparr>"])
        (use b in \<open>simp_all add: Some\<close>)
    ultimately show ?thesis using o' by (simp add: keeps_def legacy_inv_def)
  qed
qed (simp add: keeps_def)

lemma close_keeps:
  assumes "close_negotiation sid buyer request d = Inr (c, d')"
  shows "keeps d d'"
  using assms
proof (cases rule: close_negotiation_cases)
  case (closed n)
  show ?thesis
    by (rule close_open_Inr [OF closed(5)]) (rule keeps_trans [OF close_pending_keeps [OF closed(1,3)] post_keeps])
qed simp

text \<open>A negotiation that is AGREED or CLOSED is never written again.\<close>

definition ended :: "negotiation_status \<Rightarrow> bool" where
  "ended st \<longleftrightarrow> st = AGREED \<or> st = CLOSED"


lemma ended_simps [simp]:
  "ended AGREED" "ended CLOSED" "\<not> ended ACTIVE" "\<not> ended WAITING_APPROVAL"
  by (simp_all add: ended_def)























section \<open>Properties\<close>

definition backed :: "db \<Rightarrow> int \<Rightarrow> offer \<Rightarrow> policy \<Rightarrow> confirmation_source \<Rightarrow> bool" where
  \<comment> \<open>the specification of a confirmation: who authorised the price, and that the buyer was told so\<close>
  "backed d sid off pol src \<longleftrightarrow>
     (case src of
        AGENT_COUNTER \<Rightarrow> of_proposer off = AGENT \<and> of_status off = PROPOSED
          \<and> sp_auto_accept_threshold pol \<le> offer_net_income off
          \<and> has_formal_message d sid (of_id off) ''COUNTER_OFFERED''
      | AUTO_ACCEPTED_BUYER_OFFER \<Rightarrow> of_proposer off = BUYER \<and> of_status off = ACCEPTED
          \<and> (\<forall>a \<in> set (trows (d_approvals d)). ap_offer_id a \<noteq> of_id off)
          \<and> sp_auto_accept_threshold pol \<le> offer_net_income off
          \<and> has_formal_message d sid (of_id off) ''OFFER_ACCEPTED''
      | SELLER_APPROVED_BUYER_OFFER \<Rightarrow> of_proposer off = BUYER \<and> of_status off = ACCEPTED
          \<and> (\<exists>a \<in> set (trows (d_approvals d)). ap_offer_id a = of_id off \<and> ap_status a = AP_APPROVED
                \<and> ap_followup_status a = Some FU_SENT \<and> ap_policy_version a = sp_version pol)
          \<and> sp_minimum_net_price pol \<le> offer_net_income off
          \<and> has_formal_message d sid (of_id off) ''APPROVAL_APPROVED'')"

lemma authorize_stored_flags:
  assumes "authorize_stored_offer off pol = Inr au"
  shows "au_can_counter au = au_can_accept au"
  using assms by (auto simp: authorize_stored_offer_def authorize_terms_Inr result_simps dest: authorize_offer_flags(2))

lemma intent_source_backed:
  assumes "intent_source d sid off pol = Inr src"
  shows "backed d sid off pol src"
  using assms
proof (cases rule: intent_source_cases)
  case (counter au)
  then show ?thesis
    using authorize_stored_flags [OF counter(4)] authorize_stored_net(1) [OF counter(4)] by (simp add: backed_def)
next
  case (approved a au)
  then show ?thesis
    using authorize_stored_net(2) [OF approved(8)] by (auto simp: backed_def offer_approval_def find_Some_iff)
next
  case (automatic au)
  then show ?thesis
    using authorize_stored_net(1) [OF automatic(5)] by (auto simp: backed_def offer_approval_def find_None_iff)
qed

lemma backed_minimum:
  assumes "intent_source d sid off pol = Inr src"
  shows "sp_minimum_net_price pol \<le> offer_net_income off"
proof -
  obtain au where au: "authorize_stored_offer off pol = Inr au" using assms by (cases rule: intent_source_cases)
  then obtain t where "authorize_terms t pol (of_terms off) = Inr au"
    by (auto simp: authorize_stored_offer_def result_simps)
  then have "sp_minimum_net_price pol \<le> sp_auto_accept_threshold pol"
    by (auto simp: authorize_terms_Inr dest!: stored_policy_ordered)
  with intent_source_backed [OF assms] show ?thesis
    by (auto simp: backed_def split: confirmation_source.splits)
qed

definition agreed_on :: "int \<Rightarrow> time \<Rightarrow> confirmation_source \<Rightarrow> string \<Rightarrow> session \<Rightarrow> session" where
  "agreed_on oid at1 src rid s = s\<lparr>ns_status := AGREED, ns_confirmed_offer_id := Some oid, ns_confirmed_at := Some at1,
     ns_confirmation_request_id := Some rid, ns_confirmation_source := Some src, ns_version := ns_version s + 1\<rparr>"

lemma agreed_on_sel [simp]:
  "ns_status (agreed_on oid at1 src rid s) = AGREED" "ns_confirmed_offer_id (agreed_on oid at1 src rid s) = Some oid"
  "ns_confirmed_at (agreed_on oid at1 src rid s) = Some at1"
  "ns_confirmation_request_id (agreed_on oid at1 src rid s) = Some rid"
  "ns_confirmation_source (agreed_on oid at1 src rid s) = Some src" "ns_buyer_id (agreed_on oid at1 src rid s) = ns_buyer_id s"
  "ns_graph_version (agreed_on oid at1 src rid s) = ns_graph_version s"
  by (simp_all add: agreed_on_def)

lemma confirm_current_rows:
  assumes "confirm_current at1 sid oid off src rid d = Inr (c, d')"
    and "get_session d sid = Some n" and "get_offer d oid = Some off"
  shows "get_session d' sid = Some (agreed_on oid at1 src rid n)"
    and "get_offer d' j = (if j = oid then Some (off\<lparr>of_status := ACCEPTED\<rparr>) else get_offer d j)"
    and "message_by_request_id d' sid (system_request_id ''confirm'' rid) = Some (cn_message c)"
    and "cn_offer_id c = oid" and "cn_confirmed_at c = at1" and "cn_source c = src" and "\<not> cn_replay c"
    and "ms_role (cn_message c) = SYSTEM_MESSAGE" and "cn_session_id c = sid" and "cn_status c = AGREED"
proof -
  obtain m where post: "post_message sid SYSTEM_MESSAGE (confirmation_message off) (system_request_id ''confirm'' rid) None None
        (Some oid) (mod_session sid (\<lambda>s. s\<lparr>ns_status := AGREED, ns_confirmed_offer_id := Some oid,
                 ns_confirmed_at := Some at1, ns_confirmation_request_id := Some rid,
                 ns_confirmation_source := Some src, ns_version := ns_version s + 1\<rparr>)
               (mod_offer oid (\<lambda>x. x\<lparr>of_status := ACCEPTED\<rparr>) d)) = Inr (m, d')"
    and c: "c = \<lparr>cn_session_id = sid, cn_status = AGREED, cn_offer_id = oid, cn_confirmed_at = at1,
              cn_source = src, cn_message = m, cn_replay = False\<rparr>"
    by (rule confirm_current_Inr [OF assms(1)])
  show "get_session d' sid = Some (agreed_on oid at1 src rid n)"
    using assms(2) by (simp add: post_message_Inr(6) [OF post] agreed_on_def)
  show "get_offer d' j = (if j = oid then Some (off\<lparr>of_status := ACCEPTED\<rparr>) else get_offer d j)"
    using assms(3) by (simp add: post_message_Inr(6) [OF post])
  show "message_by_request_id d' sid (system_request_id ''confirm'' rid) = Some (cn_message c)"
    using post_message_Inr(2) [OF post] by (simp add: c)
  show "cn_offer_id c = oid" "cn_confirmed_at c = at1" "cn_source c = src" "\<not> cn_replay c" "cn_session_id c = sid"
    "cn_status c = AGREED" by (simp_all add: c)
  show "ms_role (cn_message c) = SYSTEM_MESSAGE" using post_message_Inr(3) [OF post] by (simp add: c)
qed

text \<open>
  C10: In the earlier runtime a deal is recorded only for the current, unexpired offer of the buyer's own active
  negotiation about an available product, and only when the price is backed again at that moment: by the agent's counter
  offer or an automatic acceptance at or above the seller's threshold, or by a seller's approval for the current version
  of the policy whose notice has been sent; in each case the buyer has received the formal message, and the seller never
  keeps less than the minimum. The invariants of the runtime are kept.
\<close>

theorem confirm_offer_sound:
  assumes "confirm_offer (c1, c2) sid buyer oid request d = Inr (c, d')" and "\<not> cn_replay c" and "legacy_inv d"
  shows "legacy_inv d'
    \<and> (\<exists>n p off pol. get_session d sid = Some n \<and> ns_buyer_id n = buyer \<and> ns_status n = ACTIVE
         \<and> ns_current_offer_id n = Some oid \<and> get_product d (ns_product_id n) = Some p \<and> p_status p = AVAILABLE
         \<and> get_offer d oid = Some off \<and> of_session_id off = sid \<and> \<not> is_expired (of_expires_at off) c1
         \<and> get_policy d (ns_product_id n) = Some pol \<and> backed d sid off pol (cn_source c)
         \<and> sp_minimum_net_price pol \<le> offer_net_income off
         \<and> get_session d' sid = Some (agreed_on oid c2 (cn_source c) (strip request) n)
         \<and> (\<forall>j. get_offer d' j = (if j = oid then Some (off\<lparr>of_status := ACCEPTED\<rparr>) else get_offer d j)))
    \<and> message_by_request_id d' sid (system_request_id ''confirm'' (strip request)) = Some (cn_message c)"
  using assms(1)
proof (cases rule: confirm_offer_cases)
  case (again n)
  then show ?thesis using assms(2) by (auto simp: replay_confirmation_Inr)
next
  case (agreed n p off pol src)
  note rows = confirm_current_rows [OF agreed(13,1,8)]
  have "legacy_inv d'" using confirm_keeps [OF assms(1)] assms(3) by (simp add: keeps_def)
  moreover note intent_source_backed [OF agreed(12)] backed_minimum [OF agreed(12)]
  ultimately show ?thesis using agreed(1,2,4-11) rows(1-3,6) by simp
qed

text \<open>
  Closing a negotiation leaves it CLOSED with no pending approval: the pending one, if any, is cancelled in the same
  transaction and reported; an agreed negotiation cannot be closed, and the invariants of the runtime are kept.
\<close>

theorem close_sound:
  assumes "close_negotiation sid buyer request d = Inr (c, d')" and "\<not> cl_replay c" and "legacy_inv d"
  shows "legacy_inv d' \<and> get_pending d' sid = None
    \<and> (\<exists>n. get_session d sid = Some n \<and> ns_buyer_id n = buyer \<and> ns_status n \<in> {ACTIVE, WAITING_APPROVAL}
         \<and> get_session d' sid = Some (n\<lparr>ns_status := CLOSED, ns_version := ns_version n + 1\<rparr>))
    \<and> (\<forall>k a. get_approval d k = Some a \<longrightarrow> get_approval d' k =
         Some (if cl_cancelled_approval c = Some k then a\<lparr>ap_status := AP_CANCELLED\<rparr> else a))
    \<and> (cl_cancelled_approval c = None \<longleftrightarrow> get_pending d sid = None)"
  using assms(1)
proof (cases rule: close_negotiation_cases)
  case (again n)
  then show ?thesis using assms(2) by (auto simp: replay_closure_def split: option.splits)
next
  case (closed n)
  from closed(5) obtain m where post: "post_message sid SYSTEM_MESSAGE ''closed by the buyer, no intent recorded''
      (system_request_id ''close'' (strip request)) None (Some ''NEGOTIATION_CLOSED'') None
      (mod_session sid (\<lambda>s. s\<lparr>ns_status := CLOSED, ns_version := ns_version s + 1\<rparr>)
        (case get_pending d sid of None \<Rightarrow> d
         | Some a \<Rightarrow> mod_approval (ap_id a) (\<lambda>x. x\<lparr>ap_status := AP_CANCELLED\<rparr>) d)) = Inr (m, d')"
    and c: "cl_cancelled_approval c = map_option ap_id (get_pending d sid)"
    by (rule close_open_Inr) auto
  have inv: "legacy_inv d'" using close_keeps [OF assms(1)] assms(3) by (simp add: keeps_def)
  have session: "get_session d' sid = Some (n\<lparr>ns_status := CLOSED, ns_version := ns_version n + 1\<rparr>)"
    using closed(1) by (simp add: post_message_Inr(6) [OF post] split: option.splits)
  have "get_pending d' sid = None"
  proof (cases "get_pending d' sid")
    case (Some a)
    have "approval_inv d'" using inv by (simp add: legacy_inv_def)
    from get_pending_Some [OF this Some] not_awaited [OF this session, of "ap_id a" a] closed(3)
    show ?thesis by auto
  qed simp
  moreover have "\<forall>k a. get_approval d k = Some a \<longrightarrow> get_approval d' k =
      Some (if cl_cancelled_approval c = Some k then a\<lparr>ap_status := AP_CANCELLED\<rparr> else a)"
    by (cases "get_pending d sid") (auto simp: post_message_Inr(6) [OF post] c)
  ultimately show ?thesis using inv session closed(1,2,4) c by simp
qed

section \<open>Replays\<close>

definition confirm_exec ::
    "int \<Rightarrow> string \<Rightarrow> int \<Rightarrow> (time \<times> time) \<times> string \<Rightarrow> db \<Rightarrow> exn + confirmation \<times> db" where
  \<comment> \<open>\<open>confirm_offer\<close> up to the flag that tells a replay\<close>
  "confirm_exec sid buyer oid e d =
     ebind (confirm_offer (fst e) sid buyer oid (snd e) d) (\<lambda>(c, d'). Inr (c\<lparr>cn_replay := True\<rparr>, d'))"

definition confirm_admitted :: "(time \<times> time) \<times> string \<Rightarrow> db \<Rightarrow> bool" where
  "confirm_admitted e d \<longleftrightarrow> \<not> isl (intent_request_id (snd e))"

lemma confirm_exec_Inr:
  "confirm_exec sid buyer oid e d = Inr (r, d') \<longleftrightarrow>
     (\<exists>c. confirm_offer (fst e) sid buyer oid (snd e) d = Inr (c, d') \<and> r = c\<lparr>cn_replay := True\<rparr>)"
  by (auto simp: confirm_exec_def result_simps)

lemma confirm_again:
  assumes "get_session d sid = Some n" and "ns_buyer_id n = buyer" and "ns_graph_version n = None" and "ns_status n = AGREED"
    and "replay_confirmation d sid n oid = Inr c" and "intent_request_id request = Inr rid"
  shows "confirm_offer clock sid buyer oid request d = Inr (c, d)"
  using assms by (simp add: confirm_offer_def owned_negotiation_def require_legacy_runtime_def)

lemma confirm_then_again:
  assumes "confirm_offer clock sid buyer oid request d = Inr (c, d')" and "intent_request_id request' = Inr rid'"
  shows "confirm_offer clock' sid buyer oid request' d' = Inr (c\<lparr>cn_replay := True\<rparr>, d')"
proof -
  obtain c1 c2 where clock: "clock = (c1, c2)" by (cases clock)
  from assms(1) [unfolded clock] show ?thesis
  proof (cases rule: confirm_offer_cases)
    case (again n)
    from again(5) have "c\<lparr>cn_replay := True\<rparr> = c" by (auto simp: replay_confirmation_Inr)
    with confirm_again [OF again(1-5) assms(2)] again(6) show ?thesis by simp
  next
    case (agreed n p off pol src)
    note rows = confirm_current_rows [OF agreed(13,1,8)]
    show ?thesis
      by (rule confirm_again [OF rows(1) _ _ _ _ assms(2)])
        (use agreed(2,3) rows(3-10) in \<open>simp_all add: replay_confirmation_Inr\<close>)
  qed
qed

interpretation confirming: idempotent_command "confirm_exec sid buyer oid" confirm_admitted for sid buyer oid
proof
  show "confirm_admitted e d" if "confirm_exec sid buyer oid e d = Inr (r, d')" for e d r d'
    using that unfolding confirm_exec_def confirm_offer_def confirm_admitted_def by (elim ebind_InrE) simp
  show "confirm_exec sid buyer oid e' d' = Inr (r, d')"
    if step: "confirm_exec sid buyer oid e d = Inr (r, d')" and again: "confirm_admitted e' d'" for e e' d r d'
  proof -
    obtain c where c: "confirm_offer (fst e) sid buyer oid (snd e) d = Inr (c, d')" and r: "r = c\<lparr>cn_replay := True\<rparr>"
      using step by (auto simp: confirm_exec_Inr)
    obtain rid where "intent_request_id (snd e') = Inr rid"
      using again by (cases "intent_request_id (snd e')") (auto simp: confirm_admitted_def)
    then show ?thesis using confirm_then_again [OF c] by (auto simp: confirm_exec_Inr r)
  qed
qed

text \<open>
  A confirmation repeated any number of times, with any request identifiers, returns the same deal or an error and
  writes nothing.
\<close>

theorem confirm_replays:
  assumes "confirm_exec sid buyer oid e d = Inr (r, d')"
  shows "snd (replays (confirm_exec sid buyer oid) es d') = d'
    \<and> (\<forall>x \<in> set (fst (replays (confirm_exec sid buyer oid) es d')). x = Inr r \<or> isl x)"
  using assms by (rule confirming.replays_fixpoint)

section \<open>Runs\<close>










section \<open>The properties on a negotiation\<close>

definition sample_notice :: message where
  "sample_notice = \<lparr>ms_id = 1, ms_source_id = None, ms_public_seq = None, ms_session_id = 1, ms_role = AGENT_MESSAGE,
     ms_content = ''accepted'', ms_request_id = ''first:agent'', ms_request_fingerprint = None,
     ms_agent_outcome = Some ''OFFER_ACCEPTED'', ms_formal_offer_id = Some 1\<rparr>"

definition sample_accepted :: db where
  \<comment> \<open>the agent has accepted the offer of 160.00 and told the buyer\<close>
  "sample_accepted = (sample_offered 16000)\<lparr>d_offers := [(1, sample_offer 16000 ACCEPTED)],
     d_messages := [(1, sample_notice)], d_next_message := 2\<rparr>"

lemma sample_accepted_legacy: "legacy_inv sample_accepted"
  by (simp add: sample_accepted_def sample_offered_def sample_session_eq sample_db_def empty_db_def legacy_inv_def
      offer_inv_defs approval_inv_def approvals_stored_def pending_awaited_def one_pending_def)

lemma sample_intent_id: "intent_request_id ''confirm-1'' = Inr ''confirm-1''" "intent_request_id ''closing-1'' = Inr ''closing-1''"
  by (simp_all add: intent_request_id_def strip_def is_space_def is_alnum_def Let_def)

lemma sample_reauthorized: "reauthorize (sample_offer 16000 st) sample_policy = Inr (sample_authorization 16000)"
  by (simp add: reauthorize_def sample_authorized_stored MAX_MONEY_def)

lemma sample_source:
  assumes "d_approvals d = []" and "d_messages d = [(1, sample_notice)]"
  shows "intent_source d 1 (sample_offer 16000 ACCEPTED) sample_policy = Inr AUTO_ACCEPTED_BUYER_OFFER"
proof -
  have "au_can_accept (sample_authorization 16000)" by (simp add: sample_authorization_def zone_of_def)
  then show ?thesis
    by (simp add: intent_source_def sample_reauthorized offer_approval_def has_formal_message_def assms sample_notice_def
        trows_def)
qed

lemma sample_accepted_rows [simp]:
  "d_approvals sample_accepted = []" "d_messages sample_accepted = [(1, sample_notice)]"
  by (simp_all add: sample_accepted_def sample_offered_def sample_session_eq sample_db_def empty_db_def)

lemma sample_intent:
  "\<exists>c d'. confirm_offer (0, 7) 1 ''buyer'' 1 ''confirm-1'' sample_accepted = Inr (c, d') \<and> \<not> cn_replay c"
  using sample_source [of sample_accepted]
  by (simp add: confirm_offer_def sample_intent_id owned_negotiation_def require_legacy_runtime_def confirm_current_def
      confirmation_key_free_def is_expired_def message_by_request_id_def system_request_id_def sample_accepted_def
      post_message_def tadd_def sample_notice_def sample_offered_def sample_session_eq sample_db_def empty_db_def trows_def
      tmod_def tput_def Let_def)

theorem confirm_offer_sound_witness:
  "\<exists>c d'. confirm_offer (0, 7) 1 ''buyer'' 1 ''confirm-1'' sample_accepted = Inr (c, d') \<and> legacy_inv d'
     \<and> map_option ns_status (get_session d' 1) = Some AGREED"
proof -
  obtain c d' where c: "confirm_offer (0, 7) 1 ''buyer'' 1 ''confirm-1'' sample_accepted = Inr (c, d')" "\<not> cn_replay c"
    using sample_intent by blast
  from confirm_offer_sound [OF c sample_accepted_legacy] c(1) show ?thesis by auto
qed

lemma sample_confirm_exec:
  "\<exists>r d'. confirm_exec 1 ''buyer'' 1 ((0, 7), ''confirm-1'') sample_accepted = Inr (r, d')"
  using sample_intent by (auto simp: confirm_exec_Inr)

theorem confirm_replays_witness:
  "\<exists>r d'. confirm_exec 1 ''buyer'' 1 ((0, 7), ''confirm-1'') sample_accepted = Inr (r, d')
     \<and> snd (replays (confirm_exec 1 ''buyer'' 1) [((9, 9), ''confirm-1''), ((9, 9), ''closing-1'')] d') = d'"
  using sample_confirm_exec confirm_replays by metis


lemma sample_ending:
  "\<exists>c d'. close_negotiation 1 ''buyer'' ''closing-1'' sample_waiting = Inr (c, d') \<and> \<not> cl_replay c
     \<and> cl_cancelled_approval c = Some 1"
  by (simp add: close_negotiation_def sample_intent_id owned_negotiation_def require_legacy_runtime_def close_open_def
      get_pending_def sample_approval_def message_by_request_id_def post_message_def tadd_def sample_waiting_def
      sample_offered_def sample_session_eq sample_db_def empty_db_def trows_def tmod_def tput_def Let_def)

theorem close_sound_witness:
  "\<exists>c d'. close_negotiation 1 ''buyer'' ''closing-1'' sample_waiting = Inr (c, d')
     \<and> get_approval d' 1 = Some (sample_approval AP_CANCELLED)"
proof -
  obtain c d' where c: "close_negotiation 1 ''buyer'' ''closing-1'' sample_waiting = Inr (c, d')" "\<not> cl_replay c"
    "cl_cancelled_approval c = Some 1" using sample_ending by blast
  have "get_approval sample_waiting 1 = Some (sample_approval AP_PENDING)" by (simp add: sample_waiting_def)
  with close_sound [OF c(1,2) sample_waiting_legacy] c(1,3) show ?thesis by (simp add: sample_approval_def)
qed

definition sample_elsewhere :: db where
  \<comment> \<open>another negotiation has been confirmed under the same request identifier\<close>
  "sample_elsewhere = sample_accepted\<lparr>d_sessions := d_sessions sample_accepted @
     [(2, agreed_on 2 3 AGENT_COUNTER ''confirm-1'' (the (get_session sample_session 1))\<lparr>ns_id := 2, ns_buyer_id := ''other''\<rparr>)],
     d_next_session := 3\<rparr>"

text \<open>
  C32: A request identifier is unique over all negotiations, and the service means to answer a collision with a conflict of
  the life cycle. The unique index is however checked before the \<open>try\<close> is entered: a buyer whose confirmation happens to
  carry an identifier that was used in another negotiation gets an integrity error of the database and cannot confirm.
\<close>

theorem shared_confirmation_key:
  "confirm_offer (0, 7) 1 ''buyer'' 1 ''confirm-1'' sample_elsewhere = Inl IntegrityExn
   \<and> \<not> isl (confirm_offer (0, 7) 1 ''buyer'' 1 ''confirm-1'' sample_accepted)"
proof
  have "intent_source sample_elsewhere 1 (sample_offer 16000 ACCEPTED) sample_policy = Inr AUTO_ACCEPTED_BUYER_OFFER"
    by (rule sample_source) (simp_all add: sample_elsewhere_def)
  then show "confirm_offer (0, 7) 1 ''buyer'' 1 ''confirm-1'' sample_elsewhere = Inl IntegrityExn"
    by (simp add: confirm_offer_def sample_intent_id owned_negotiation_def require_legacy_runtime_def confirm_current_def
        confirmation_key_free_def is_expired_def message_by_request_id_def system_request_id_def sample_elsewhere_def
        sample_accepted_def sample_notice_def sample_offered_def sample_session_eq sample_db_def empty_db_def trows_def
        agreed_on_def tmod_def tput_def Let_def)
  show "\<not> isl (confirm_offer (0, 7) 1 ''buyer'' 1 ''confirm-1'' sample_accepted)"
    using sample_intent by auto
qed

end
