(* ===== verification/Agent.thy ===== *)
theory Agent
  imports Followup Products Notify
begin

text \<open>
  The seller's agent of the earlier runtime: the decision a language model may propose (\<open>agent/decision.py\<close>), the routing
  of formal offers (\<open>agent/offer_routing.py\<close>), the tools it may use (\<open>agent/tools/*.py\<close>), the policy for answers without
  commitments (\<open>DialoguePolicyService\<close> of \<open>agent/reply_policy.py\<close>) and the turn itself (\<open>agent/seller_agent.py\<close>).

  The dictionaries that the tools return are JSON values. A tool runs in a savepoint of the caller's transaction, so it is
  \<open>commit\<close> of the service's body on the caller's database. The environment gives what the database and the clock add: the
  texts of times, the creation time of an offer and the readings of the clock. \<open>ae_safe\<close> is the filter on the model's own
  wording, which matches Unicode text and is not modelled: every property holds for any filter. The wording of replies is
  given by English tags, the texts of error messages are left out.
\<close>

section \<open>Decisions\<close>

datatype negotiation_action = DO_INQUIRY | DO_ACCEPT | DO_COUNTER | DO_REJECT | DO_REQUEST_APPROVAL

datatype act_kind = ASK_FACT | ASK_PRIVATE_INFO | REQUEST_TERM | REQUEST_COMMITMENT | GENERAL_ACT | UNKNOWN_ACT

datatype act_subject =
    PRODUCT_DETAILS | LISTED_PRICE | PRICE_FLOOR | OFFER_PRICE | PRICE_NEGOTIATION | AVAILABILITY | SHIPPING_PAYER
  | SHIPPING_COST | DELIVERY_METHOD | DISPATCH_DEADLINE | RESERVATION | GENERAL_SUBJECT | OTHER_SUBJECT

record dialogue_act =
  da_kind :: act_kind
  da_subject :: act_subject
  da_requested :: "string option"

record decision =
  dn_action :: negotiation_action
  dn_acts :: "dialogue_act list"
  dn_offer_id :: "int option"
  dn_price :: "cents option"
  dn_payer :: "payer option"
  dn_cost :: "cents option"
  dn_discount :: "cents option"
  dn_terms :: extra_terms
  dn_reason :: string
  dn_reply :: string

definition money_field_ok :: "cents option \<Rightarrow> bool" where
  "money_field_ok m = (case m of None \<Rightarrow> True | Some c \<Rightarrow> 0 \<le> c \<and> c \<le> MAX_MONEY)"

definition action_fields_ok :: "decision \<Rightarrow> bool" where
  \<comment> \<open>\<open>validate_action_fields\<close>\<close>
  "action_fields_ok dn \<longleftrightarrow>
     (dn_action dn = DO_INQUIRY) = (dn_acts dn \<noteq> [])
     \<and> (if dn_action dn = DO_COUNTER
        then dn_price dn \<noteq> None \<and> dn_payer dn \<noteq> None \<and> dn_offer_id dn = None
        else (dn_action dn \<in> {DO_ACCEPT, DO_REQUEST_APPROVAL}) = (dn_offer_id dn \<noteq> None)
             \<and> dn_price dn = None \<and> dn_payer dn = None \<and> dn_cost dn = None \<and> dn_discount dn = None \<and> dn_terms dn = [])"

definition decision_ok :: "decision \<Rightarrow> bool" where
  \<comment> \<open>what the validation of \<open>NegotiationDecision\<close> guarantees\<close>
  "decision_ok dn \<longleftrightarrow>
     length (dn_acts dn) \<le> 8
     \<and> list_all (\<lambda>a. case da_requested a of None \<Rightarrow> True | Some s \<Rightarrow> strip s \<noteq> [] \<and> length s \<le> 120) (dn_acts dn)
     \<and> (case dn_offer_id dn of None \<Rightarrow> True | Some k \<Rightarrow> 0 < k)
     \<and> money_field_ok (dn_price dn) \<and> money_field_ok (dn_cost dn) \<and> money_field_ok (dn_discount dn)
     \<and> 1 \<le> length (dn_reason dn) \<and> length (dn_reason dn) \<le> 500
     \<and> 1 \<le> length (dn_reply dn) \<and> length (dn_reply dn) \<le> 800 \<and> action_fields_ok dn"

abbreviation validation_error :: exn where
  "validation_error \<equiv> ValueExn ''validation''"

definition checked_decision :: "decision \<Rightarrow> exn + decision" where
  "checked_decision dn = (if decision_ok dn then Inr dn else Inl validation_error)"

definition plain_decision :: "negotiation_action \<Rightarrow> int option \<Rightarrow> string \<Rightarrow> string \<Rightarrow> exn + decision" where
  "plain_decision action oid reason reply = checked_decision
     \<lparr>dn_action = action, dn_acts = [], dn_offer_id = oid, dn_price = None, dn_payer = None, dn_cost = None,
      dn_discount = None, dn_terms = [], dn_reason = reason, dn_reply = reply\<rparr>"

section \<open>Routing of formal offers\<close>

definition resolve_authorized_offer :: "json \<Rightarrow> int option \<Rightarrow> exn + decision option" where
  \<comment> \<open>\<open>resolve_authorized_offer_decision\<close>\<close>
  "resolve_authorized_offer authorization current =
     (case current of
        None \<Rightarrow> Inr None
      | Some k \<Rightarrow>
          if jget authorization ''can_accept_automatically'' = JBool True
          then ebind (plain_decision DO_ACCEPT (Some k) ''the rules accept the offer'' ''formal reply'') (\<lambda>dn. Inr (Some dn))
          else if jget authorization ''can_request_approval'' = JBool True
          then ebind (plain_decision DO_REQUEST_APPROVAL (Some k) ''the rules ask the seller'' ''formal reply'') (\<lambda>dn. Inr (Some dn))
          else Inr None)"

definition constrain_formal_offer :: "decision \<Rightarrow> int option \<Rightarrow> exn + decision" where
  \<comment> \<open>\<open>constrain_formal_offer_decision\<close>\<close>
  "constrain_formal_offer dn current =
     (if current = None \<or> dn_action dn \<in> {DO_COUNTER, DO_REJECT} then Inr dn
      else plain_decision DO_REJECT None ''the offer is not authorised'' ''formal reply'')"

section \<open>Tools\<close>

record agent_env =
  ae_iso :: "time \<Rightarrow> string" \<comment> \<open>\<open>isoformat\<close>\<close>
  ae_created :: "int \<Rightarrow> string" \<comment> \<open>the text of an offer's creation time\<close>
  ae_now :: time \<comment> \<open>the readings of the clock of a tool call\<close>
  ae_now2 :: time
  ae_now3 :: time
  ae_safe :: "string \<Rightarrow> json \<Rightarrow> bool" \<comment> \<open>\<open>_candidate_is_safe\<close>\<close>

record tool_context =
  tc_session :: int
  tc_buyer :: string
  tc_offer :: "int option"

record terms_args =
  ta_price :: cents
  ta_payer :: payer
  ta_cost :: "cents option"
  ta_discount :: cents
  ta_terms :: extra_terms

fun style_text :: "negotiation_style \<Rightarrow> string" where
  "style_text FIRM = ''FIRM''"
| "style_text BALANCED = ''BALANCED''"
| "style_text FLEXIBLE = ''FLEXIBLE''"

fun source_text :: "confirmation_source \<Rightarrow> string" where
  "source_text AGENT_COUNTER = ''AGENT_COUNTER''"
| "source_text AUTO_ACCEPTED_BUYER_OFFER = ''AUTO_ACCEPTED_BUYER_OFFER''"
| "source_text SELLER_APPROVED_BUYER_OFFER = ''SELLER_APPROVED_BUYER_OFFER''"

definition error_result :: "string \<Rightarrow> json" where
  "error_result code = JObj [(''ok'', JBool False), (''error'', JObj [(''code'', JStr code)])]"

definition product_result :: "product_info \<Rightarrow> json" where
  "product_result p = JObj [(''ok'', JBool True), (''product'', JObj
     [(''id'', JInt (pi_id p)), (''title'', JStr (pi_title p)), (''description'', JStr (pi_description p)),
      (''listed_price'', JStr (show_cents (pi_listed_price p))), (''status'', JStr (show_product_status (pi_status p)))])]"

definition authorization_result :: "authorization \<Rightarrow> json" where
  "authorization_result au = JObj [(''ok'', JBool True), (''authorization'', JObj
     [(''conditions_valid'', JBool (au_conditions_valid au)), (''can_accept_automatically'', JBool (au_can_accept au)),
      (''can_submit_counter_offer'', JBool (au_can_counter au)), (''can_request_approval'', JBool (au_can_request_approval au)),
      (''is_acceptance_prohibited'', JBool (au_prohibited au)), (''reason_code'', JStr (au_reason_code au))])]"

definition serialize_offer :: "'x agent_env_scheme \<Rightarrow> offer \<Rightarrow> json" where
  "serialize_offer E off = JObj
     [(''id'', JInt (of_id off)), (''proposer'', JStr (proposer_text (of_proposer off))),
      (''price'', JStr (show_cents (of_price off))), (''shipping_paid_by'', JStr (show_payer (of_shipping_paid_by off))),
      (''shipping_cost'', jopt (\<lambda>c. JStr (show_cents c)) (of_shipping_cost off)),
      (''seller_borne_discount'', JStr (show_cents (of_seller_borne_discount off))),
      (''additional_terms'', JObj (of_terms off)), (''status'', JStr (offer_status_text (of_status off))),
      (''expires_at'', jopt (\<lambda>t. JStr (ae_iso E t)) (of_expires_at off)), (''created_at'', JStr (ae_created E (of_id off)))]"

definition formal_result :: "'x agent_env_scheme \<Rightarrow> offer \<Rightarrow> json" where
  \<comment> \<open>\<open>offer_result\<close> of the tools\<close>
  "formal_result E off = JObj [(''ok'', JBool True), (''offer'', serialize_offer E off)]"

definition approval_result :: "'x agent_env_scheme \<Rightarrow> approval \<Rightarrow> json" where
  "approval_result E a = JObj [(''ok'', JBool True), (''approval'', JObj
     [(''id'', JInt (ap_id a)), (''offer_id'', JInt (ap_offer_id a)), (''status'', JStr (show_approval_status (ap_status a))),
      (''expires_at'', JStr (ae_iso E (ap_expires_at a)))])]"

definition state_result :: "'x agent_env_scheme \<Rightarrow> negotiation_state \<Rightarrow> json" where
  \<comment> \<open>\<open>negotiation_state_result\<close>\<close>
  "state_result E st = JObj [(''ok'', JBool True), (''negotiation'', JObj
     [(''id'', JInt (st_id st)), (''product_id'', JInt (st_product_id st)), (''status'', JStr (show_session_status (st_status st))),
      (''current_offer_id'', jopt JInt (st_current_offer_id st)), (''confirmed_offer_id'', jopt JInt (st_confirmed_offer_id st)),
      (''confirmed_at'', jopt (\<lambda>t. JStr (ae_iso E t)) (st_confirmed_at st)),
      (''confirmation_source'', jopt (\<lambda>s. JStr (source_text s)) (st_confirmation_source st)),
      (''round_count'', JInt (st_round_count st)), (''version'', JInt (st_version st)),
      (''policy_version'', JInt (st_policy_version st)), (''negotiation_style'', JStr (style_text (st_negotiation_style st))),
      (''max_rounds'', JInt (st_max_rounds st)), (''recent_offers'', JArr (map (serialize_offer E) (st_recent_offers st)))])]"

fun service_error_result :: "exn \<Rightarrow> exn + json" where
  \<comment> \<open>\<open>except ServiceError\<close>\<close>
  "service_error_result (ServiceExn e) = Inr (error_result (error_code e))"
| "service_error_result e = Inl e"

fun tool_error_result :: "exn \<Rightarrow> exn + json" where
  \<comment> \<open>\<open>except (ServiceError, PricingError)\<close>\<close>
  "tool_error_result (PricingExn e) = Inr (error_result ''INVALID_OFFER_TERMS'')"
| "tool_error_result e = service_error_result e"

definition tool_write :: "(exn \<Rightarrow> exn + json) \<Rightarrow> ('a \<Rightarrow> json) \<Rightarrow> exn + 'a \<times> db \<Rightarrow> db \<Rightarrow> exn + json \<times> db" where
  \<comment> \<open>a tool that writes: on an error the savepoint is rolled back\<close>
  "tool_write handler show_it r d =
     (case r of
        Inr (x, d') \<Rightarrow> Inr (show_it x, d')
      | Inl e \<Rightarrow> ebind (handler e) (\<lambda>j. Inr (j, d)))"

definition tool_read :: "(exn \<Rightarrow> exn + json) \<Rightarrow> ('a \<Rightarrow> json) \<Rightarrow> exn + 'a \<Rightarrow> exn + json" where
  "tool_read handler show_it r = (case r of Inr x \<Rightarrow> Inr (show_it x) | Inl e \<Rightarrow> handler e)"

definition get_product_info :: "tool_context \<Rightarrow> db \<Rightarrow> exn + json" where
  "get_product_info cx d = tool_read service_error_result product_result (get_for_negotiation (tc_session cx) (tc_buyer cx) d)"

definition get_negotiation_state :: "'x agent_env_scheme \<Rightarrow> tool_context \<Rightarrow> db \<Rightarrow> exn + json" where
  "get_negotiation_state E cx d = tool_read service_error_result (state_result E) (get_state (tc_session cx) (tc_buyer cx) d)"

definition validated_args :: "terms_args \<Rightarrow> exn + terms_args" where
  \<comment> \<open>the field constraints of \<open>OfferTermsInput\<close>\<close>
  "validated_args a =
     (if money_field_ok (Some (ta_price a)) \<and> money_field_ok (ta_cost a) \<and> money_field_ok (Some (ta_discount a))
      then Inr a else Inl validation_error)"

definition to_domain :: "terms_args \<Rightarrow> exn + offer_terms" where
  "to_domain a = lift_err PricingExn
     (mk_terms (dec_of_cents (ta_price a)) (Some (ta_payer a)) (map_option dec_of_cents (ta_cost a)) (Some (dec_of_cents (ta_discount a))))"

definition evaluate_offer_tool :: "tool_context \<Rightarrow> terms_args \<Rightarrow> db \<Rightarrow> exn + json" where
  "evaluate_offer_tool cx a d =
     ebind (validated_args a) (\<lambda>a.
     tool_read tool_error_result authorization_result
       (ebind (to_domain a) (\<lambda>t. preview_offer (tc_session cx) (tc_buyer cx) t (Some (ta_terms a)) d)))"

definition submit_counter_offer_tool :: "'x agent_env_scheme \<Rightarrow> tool_context \<Rightarrow> terms_args \<Rightarrow> db \<Rightarrow> exn + json \<times> db" where
  "submit_counter_offer_tool E cx a d =
     ebind (validated_args a) (\<lambda>a.
     tool_write tool_error_result (formal_result E)
       (ebind (to_domain a) (\<lambda>t.
        submit_counter_offer (ae_now E) (tc_session cx) (tc_buyer cx) t (Some (ta_terms a)) None (tc_offer cx) d)) d)"

definition accept_offer_tool :: "'x agent_env_scheme \<Rightarrow> tool_context \<Rightarrow> int \<Rightarrow> db \<Rightarrow> exn + json \<times> db" where
  "accept_offer_tool E cx oid d =
     (if \<not> 0 < oid then Inl validation_error
      else tool_write service_error_result (formal_result E) (accept_offer (ae_now E) (tc_session cx) (tc_buyer cx) oid d) d)"

definition approval_reason :: "offer \<Rightarrow> string" where
  \<comment> \<open>\<open>render_seller_approval_reason\<close>\<close>
  "approval_reason off =
     ''offer #'' @ show_int (of_id off) @ '': '' @ show_cents (of_price off)
     @ (if of_shipping_paid_by off = BuyerPays then '', the buyer pays shipping''
        else case of_shipping_cost off of
               None \<Rightarrow> '', the seller pays shipping''
             | Some c \<Rightarrow> '', the seller pays shipping of '' @ show_cents c)
     @ (if 0 < of_seller_borne_discount off then '', discount '' @ show_cents (of_seller_borne_discount off) else [])
     @ ''; to be confirmed by the seller''"

definition approval_expiration :: "time \<Rightarrow> offer \<Rightarrow> time" where
  "approval_expiration now off =
     (case of_expires_at off of None \<Rightarrow> now + hours 24 | Some e \<Rightarrow> min (now + hours 24) e)"

definition request_approval_body :: "'x agent_env_scheme \<Rightarrow> tool_context \<Rightarrow> int \<Rightarrow> db \<Rightarrow> exn + approval \<times> db" where
  "request_approval_body E cx oid d =
     (if tc_offer cx \<noteq> Some oid then Inl (ServiceExn ApprovalNotAuthorized)
      else
      ebind (get_state (tc_session cx) (tc_buyer cx) d) (\<lambda>st.
      if st_current_offer_id st \<noteq> Some oid then Inl (ServiceExn ApprovalNotAuthorized)
      else case find (\<lambda>x. of_id x = oid) (st_recent_offers st) of
        None \<Rightarrow> Inl (ServiceExn ApprovalNotAuthorized)
      | Some off \<Rightarrow>
          create_request (ae_now2 E) (ae_now3 E) (tc_session cx) (tc_buyer cx) oid (st_policy_version st) (approval_reason off)
            (approval_expiration (ae_now E) off) d))"

definition request_approval_tool :: "'x agent_env_scheme \<Rightarrow> tool_context \<Rightarrow> int \<Rightarrow> string \<Rightarrow> db \<Rightarrow> exn + json \<times> db" where
  "request_approval_tool E cx oid reason d =
     (if \<not> (0 < oid \<and> 1 \<le> length reason \<and> length reason \<le> 500) then Inl validation_error
      else tool_write service_error_result (approval_result E) (request_approval_body E cx oid d) d)"

section \<open>Answers without commitments\<close>

datatype directive_kind =
    D_PRODUCT_DETAILS | D_LISTED_PRICE | D_PRICE_NEGOTIATION | D_PRIVATE_PRICE | D_AVAILABILITY | D_FORMAL_OFFER_TERM
  | D_SELLER_CONFIRMATION | D_ASK_MISSING_TERM | D_GENERAL | D_CANNOT_HANDLE

type_synonym directive = "directive_kind \<times> act_subject"

record reply_plan =
  rp_directives :: "directive list"
  rp_allow_candidate :: bool
  rp_needs_clarification :: bool

definition resolve_act :: "dialogue_act \<Rightarrow> directive \<times> bool" where
  \<comment> \<open>the directive, and whether a term is missing\<close>
  "resolve_act a =
     (let s = da_subject a; k = da_kind a in
      if k = ASK_PRIVATE_INFO \<or> s = PRICE_FLOOR then ((D_PRIVATE_PRICE, s), False)
      else if k = REQUEST_COMMITMENT then ((D_SELLER_CONFIRMATION, s), False)
      else if k = UNKNOWN_ACT \<or> s = OTHER_SUBJECT then ((D_CANNOT_HANDLE, s), True)
      else if k = GENERAL_ACT \<or> s = GENERAL_SUBJECT then ((D_GENERAL, s), False)
      else if s = PRODUCT_DETAILS then ((D_PRODUCT_DETAILS, s), False)
      else if s = LISTED_PRICE then ((D_LISTED_PRICE, s), False)
      else if s = PRICE_NEGOTIATION then ((D_PRICE_NEGOTIATION, s), False)
      else if s = AVAILABILITY then ((D_AVAILABILITY, s), False)
      else if s \<in> {SHIPPING_PAYER, DELIVERY_METHOD} \<and> k = REQUEST_TERM \<and> da_requested a = None
      then ((D_ASK_MISSING_TERM, s), True)
      else if s \<in> {OFFER_PRICE, SHIPPING_PAYER, SHIPPING_COST, DELIVERY_METHOD} then ((D_FORMAL_OFFER_TERM, s), False)
      else if s \<in> {DISPATCH_DEADLINE, RESERVATION} then ((D_SELLER_CONFIRMATION, s), False)
      else ((D_CANNOT_HANDLE, s), True))"

fun plan_acts :: "dialogue_act list \<Rightarrow> directive list \<Rightarrow> bool \<Rightarrow> directive list \<times> bool" where
  \<comment> \<open>the loop of \<open>build_plan\<close>; what has been seen are the directives so far\<close>
  "plan_acts [] ds missing = (ds, missing)"
| "plan_acts (a # as) ds missing =
     (let (dir, m) = resolve_act a in
      plan_acts as (if dir \<in> set ds then ds else ds @ [dir]) (missing \<or> m))"

definition build_plan :: "dialogue_act list \<Rightarrow> reply_plan" where
  "build_plan as =
     (let (ds, missing) = plan_acts as [] False;
          (ds, missing) = (if ds = [] then ([(D_CANNOT_HANDLE, OTHER_SUBJECT)], True) else (ds, missing)) in
      \<lparr>rp_directives = ds,
       rp_allow_candidate = list_all (\<lambda>(k, s). k \<in> {D_PRODUCT_DETAILS, D_GENERAL} \<and> s \<in> {PRODUCT_DETAILS, GENERAL_SUBJECT}) ds,
       rp_needs_clarification = missing\<rparr>)"

definition text_or :: "string \<Rightarrow> json \<Rightarrow> string" where
  \<comment> \<open>\<open>_text\<close>\<close>
  "text_or fallback v = (case v of JStr s \<Rightarrow> if strip s \<noteq> [] then strip s else fallback | _ \<Rightarrow> fallback)"

definition listed_price_text :: "json \<Rightarrow> string" where
  "listed_price_text product =
     (case py_str (jget product ''listed_price'') of
        None \<Rightarrow> ''as shown''
      | Some s \<Rightarrow>
          (case parse_decimal s of
             Some (Finite neg c e) \<Rightarrow> (if neg then ''-'' else []) @ show_cents (to_cents c e)
           | _ \<Rightarrow> ''as shown''))"

definition render_directive :: "json \<Rightarrow> directive \<Rightarrow> string" where
  "render_directive product dir =
     (let available = (jget product ''status'' = JStr ''AVAILABLE''); price = listed_price_text product in
      case dir of (k, s) \<Rightarrow>
      case k of
        D_PRODUCT_DETAILS \<Rightarrow> text_or ''this product'' (jget product ''title'') @ '': ''
          @ text_or ''no description'' (jget product ''description'') @ '', listed at '' @ price
      | D_LISTED_PRICE \<Rightarrow> ''listed at '' @ price
      | D_PRICE_NEGOTIATION \<Rightarrow> if available then ''the price can be discussed'' else ''not listed, no bargaining''
      | D_PRIVATE_PRICE \<Rightarrow> ''the lowest price is private, listed at '' @ price @ '', make a formal offer''
      | D_AVAILABILITY \<Rightarrow> if available then ''still listed'' else ''not listed''
      | D_FORMAL_OFFER_TERM \<Rightarrow>
          if s = OFFER_PRICE then ''make a formal offer for the price''
          else if s = DELIVERY_METHOD then ''make a formal offer for the delivery'' else ''make a formal offer for the shipping''
      | D_SELLER_CONFIRMATION \<Rightarrow>
          if s = DISPATCH_DEADLINE then ''the seller must confirm the dispatch''
          else if s = RESERVATION then ''the seller must confirm the reservation'' else ''the seller must confirm this''
      | D_ASK_MISSING_TERM \<Rightarrow> if s = SHIPPING_PAYER then ''who should pay shipping?'' else ''shipping or pickup?''
      | D_GENERAL \<Rightarrow> ''ask about the product or make a formal offer''
      | D_CANNOT_HANDLE \<Rightarrow> ''please say which topic you mean'')"

fun join_clauses :: "string list \<Rightarrow> string" where
  "join_clauses [] = ''.''"
| "join_clauses [c] = c @ ''.''"
| "join_clauses (c # c' # cs) = c @ ''; '' @ join_clauses (c' # cs)"

fun first_uses :: "'a list \<Rightarrow> 'a list \<Rightarrow> 'a list" where
  \<comment> \<open>\<open>dict.fromkeys\<close>: the first occurrence of each\<close>
  "first_uses seen [] = []"
| "first_uses seen (x # xs) = (if x \<in> set seen then first_uses seen xs else x # first_uses (x # seen) xs)"

definition render_plan :: "json \<Rightarrow> reply_plan \<Rightarrow> string" where
  "render_plan product plan = join_clauses (first_uses [] (map (render_directive product) (rp_directives plan)))"

definition resolve_dialogue :: "'x agent_env_scheme \<Rightarrow> dialogue_act list \<Rightarrow> string \<Rightarrow> json \<Rightarrow> string \<times> bool" where
  \<comment> \<open>\<open>DialoguePolicyService.resolve\<close>: the text and whether it asks back\<close>
  "resolve_dialogue E as candidate product =
     (let plan = build_plan as in
      if rp_allow_candidate plan \<and> ae_safe E candidate product then (strip candidate, False)
      else (render_plan product plan, rp_needs_clarification plan))"

section \<open>The turn\<close>

datatype turn_outcome =
    TO_INFORMATIONAL | TO_COUNTER_OFFERED | TO_OFFER_ACCEPTED | TO_NEEDS_SELLER_CONFIRMATION | TO_REJECTED
  | TO_CLARIFICATION | TO_SAFE_FAILURE | TO_MODEL_ERROR

fun turn_outcome_text :: "turn_outcome \<Rightarrow> string" where
  "turn_outcome_text TO_INFORMATIONAL = ''INFORMATIONAL''"
| "turn_outcome_text TO_COUNTER_OFFERED = ''COUNTER_OFFERED''"
| "turn_outcome_text TO_OFFER_ACCEPTED = ''OFFER_ACCEPTED''"
| "turn_outcome_text TO_NEEDS_SELLER_CONFIRMATION = ''NEEDS_SELLER_CONFIRMATION''"
| "turn_outcome_text TO_REJECTED = ''REJECTED''"
| "turn_outcome_text TO_CLARIFICATION = ''CLARIFICATION''"
| "turn_outcome_text TO_SAFE_FAILURE = ''SAFE_FAILURE''"
| "turn_outcome_text TO_MODEL_ERROR = ''MODEL_ERROR''"

record turn_result =
  tr_reply :: string
  tr_outcome :: turn_outcome
  tr_decision :: "decision option"
  tr_offer_id :: "int option"

record decision_request =
  dq_message :: string
  dq_product :: json
  dq_negotiation :: json
  dq_history :: "(string \<times> string) list"
  dq_offer_id :: "int option"

record preparation =
  pn_request :: "decision_request option"
  pn_decision :: "decision option"
  pn_immediate :: "turn_result option"

definition requires_model :: "preparation \<Rightarrow> bool" where
  "requires_model p \<longleftrightarrow> pn_immediate p = None \<and> pn_decision p = None \<and> pn_request p \<noteq> None"

definition turn_failure :: "string \<Rightarrow> decision option \<Rightarrow> turn_result" where
  "turn_failure reply dn = \<lparr>tr_reply = reply, tr_outcome = TO_SAFE_FAILURE, tr_decision = dn, tr_offer_id = None\<rparr>"

definition safe_failure :: "decision option \<Rightarrow> turn_result" where
  "safe_failure dn = turn_failure ''cannot be handled safely now'' dn"

definition immediate :: "turn_result \<Rightarrow> preparation" where
  "immediate r = \<lparr>pn_request = None, pn_decision = None, pn_immediate = Some r\<rparr>"

definition is_success :: "json \<Rightarrow> bool" where
  "is_success r \<longleftrightarrow> jget r ''ok'' = JBool True"

definition current_offer_view :: "json \<Rightarrow> int \<Rightarrow> json option" where
  \<comment> \<open>\<open>_current_offer\<close>\<close>
  "current_offer_view r oid =
     (case jget r ''negotiation'' of
        JObj kvs \<Rightarrow>
          if jget (JObj kvs) ''current_offer_id'' \<noteq> JInt oid then None
          else (case jget (JObj kvs) ''recent_offers'' of
                  JArr xs \<Rightarrow> find (\<lambda>x. jget x ''id'' = JInt oid) xs
                | _ \<Rightarrow> None)
      | _ \<Rightarrow> None)"

definition cents_field :: "json \<Rightarrow> exn + cents" where
  \<comment> \<open>a \<open>Decimal\<close> field of at most 12 digits with two decimals, from the text that the tools return\<close>
  "cents_field v =
     (case v of
        JStr s \<Rightarrow>
          (case parse_decimal s of
             Some (Finite neg c e) \<Rightarrow>
               if (neg \<and> c \<noteq> 0) \<or> \<not> (- 2 \<le> e \<or> c mod 10 ^ nat (- 2 - e) = 0) \<or> MAX_MONEY < to_cents c e
               then Inl validation_error else Inr (to_cents c e)
           | _ \<Rightarrow> Inl validation_error)
      | _ \<Rightarrow> Inl validation_error)"

definition payer_field :: "json \<Rightarrow> exn + payer" where
  "payer_field v =
     (if v = JStr ''buyer'' then Inr BuyerPays else if v = JStr ''seller'' then Inr SellerPays else Inl validation_error)"

definition offer_args :: "json \<Rightarrow> exn + terms_args" where
  \<comment> \<open>the arguments of \<open>evaluate_offer\<close>, from an offer that a tool returned\<close>
  "offer_args x =
     ebind (cents_field (jget x ''price'')) (\<lambda>price.
     ebind (payer_field (jget x ''shipping_paid_by'')) (\<lambda>payer.
     ebind (if jget x ''shipping_cost'' = JNull then Inr None
            else ebind (cents_field (jget x ''shipping_cost'')) (\<lambda>c. Inr (Some c))) (\<lambda>cost.
     ebind (cents_field (jget x ''seller_borne_discount'')) (\<lambda>discount.
     ebind (case jget x ''additional_terms'' of JObj kvs \<Rightarrow> Inr kvs | JNull \<Rightarrow> Inr [] | _ \<Rightarrow> Inl validation_error) (\<lambda>extra.
     Inr \<lparr>ta_price = price, ta_payer = payer, ta_cost = cost, ta_discount = discount, ta_terms = extra\<rparr>)))))"

definition with_authorization :: "tool_context \<Rightarrow> json \<Rightarrow> int option \<Rightarrow> db \<Rightarrow> exn + json option" where
  \<comment> \<open>\<open>_with_current_offer_authorization\<close>\<close>
  "with_authorization cx negotiation current d =
     (case current of
        None \<Rightarrow> Inr (Some negotiation)
      | Some oid \<Rightarrow>
          (case current_offer_view negotiation oid of
             None \<Rightarrow> Inr None
           | Some x \<Rightarrow>
               if jget x ''proposer'' \<noteq> JStr ''BUYER'' then Inr None
               else
               ebind (offer_args x) (\<lambda>a.
               ebind (evaluate_offer_tool cx a d) (\<lambda>ev.
               case (is_success ev, jget ev ''authorization'') of
                 (True, JObj kvs) \<Rightarrow> Inr (Some (jset negotiation ''current_offer_authorization'' (JObj kvs)))
               | _ \<Rightarrow> Inr None))))"

definition prepared_request :: "string \<Rightarrow> (string \<times> string) list \<Rightarrow> int option \<Rightarrow> json \<Rightarrow> json \<Rightarrow> exn + preparation" where
  \<comment> \<open>the end of \<open>prepare_turn\<close> with \<open>_authorized_current_offer_decision\<close>\<close>
  "prepared_request message history current product context =
     (let request = \<lparr>dq_message = message, dq_product = product, dq_negotiation = context, dq_history = history, dq_offer_id = current\<rparr> in
      if current = None then Inr \<lparr>pn_request = Some request, pn_decision = None, pn_immediate = None\<rparr>
      else case jget context ''current_offer_authorization'' of
        JObj kvs \<Rightarrow>
          ebind (resolve_authorized_offer (JObj kvs) current) (\<lambda>dn.
          Inr \<lparr>pn_request = Some request, pn_decision = dn, pn_immediate = None\<rparr>)
      | _ \<Rightarrow> Inr (immediate (safe_failure None)))"

definition prepared_context ::
    "tool_context \<Rightarrow> string \<Rightarrow> (string \<times> string) list \<Rightarrow> int option \<Rightarrow> json \<Rightarrow> json \<Rightarrow> db \<Rightarrow> exn + preparation" where
  \<comment> \<open>\<open>prepare_turn\<close> once the product and the state have been read\<close>
  "prepared_context cx message history current product negotiation d =
     (if \<not> is_success product \<or> \<not> is_success negotiation then Inr (immediate (safe_failure None))
      else
      ebind (with_authorization cx negotiation current d) (\<lambda>context.
      case context of
        None \<Rightarrow> Inr (immediate (safe_failure None))
      | Some c \<Rightarrow> prepared_request message history current product c))"

definition prepare_turn ::
    "'x agent_env_scheme \<Rightarrow> tool_context \<Rightarrow> string \<Rightarrow> (string \<times> string) list \<Rightarrow> int option \<Rightarrow> db \<Rightarrow> exn + preparation" where
  "prepare_turn E cx text history current d =
     (let message = strip text in
      if message = [] \<or> 4000 < length message then Inr (immediate (turn_failure ''please send a valid question'' None))
      else
      ebind (get_product_info cx d) (\<lambda>product.
      ebind (get_negotiation_state E cx d) (\<lambda>negotiation.
      prepared_context cx message history current product negotiation d)))"

definition result_offer_id :: "json \<Rightarrow> exn + int" where
  \<comment> \<open>\<open>_offer_id\<close>\<close>
  "result_offer_id r =
     (case jget (jget r ''offer'') ''id'' of
        JInt k \<Rightarrow> if 0 < k then Inr k else Inl agent_error
      | _ \<Rightarrow> Inl agent_error)"

definition render_counter_offer :: "json \<Rightarrow> exn + string" where
  "render_counter_offer r = ebind (validated_offer r AGENT [PROPOSED]) (terms_text ''my formal counter offer is '')"

definition render_accepted_offer :: "json \<Rightarrow> exn + string" where
  "render_accepted_offer r = ebind (validated_offer r BUYER [ACCEPTED]) (terms_text ''I can accept '')"

definition formal_reply :: "(json \<Rightarrow> exn + string) \<Rightarrow> turn_outcome \<Rightarrow> decision \<Rightarrow> json \<Rightarrow> exn + turn_result" where
  \<comment> \<open>the end of \<open>_execute_counter\<close> and \<open>_execute_accept\<close>; a reply that cannot be rendered safely becomes a failure\<close>
  "formal_reply render outcome dn r =
     (if \<not> is_success r then Inr (safe_failure (Some dn))
      else case ebind (render r) (\<lambda>reply. ebind (result_offer_id r) (\<lambda>oid. Inr (reply, oid))) of
        Inr (reply, oid) \<Rightarrow> Inr \<lparr>tr_reply = reply, tr_outcome = outcome, tr_decision = Some dn, tr_offer_id = Some oid\<rparr>
      | Inl e \<Rightarrow> if e = agent_error then Inr (safe_failure (Some dn)) else Inl e)"

definition execute_counter :: "'x agent_env_scheme \<Rightarrow> tool_context \<Rightarrow> decision \<Rightarrow> db \<Rightarrow> exn + turn_result \<times> db" where
  "execute_counter E cx dn d =
     (case (dn_price dn, dn_payer dn) of
        (Some price, Some payer) \<Rightarrow>
          ebind (submit_counter_offer_tool E cx
              \<lparr>ta_price = price, ta_payer = payer, ta_cost = dn_cost dn,
               ta_discount = (case dn_discount dn of None \<Rightarrow> 0 | Some c \<Rightarrow> c), ta_terms = dn_terms dn\<rparr> d) (\<lambda>(r, d').
          ebind (formal_reply render_counter_offer TO_COUNTER_OFFERED dn r) (\<lambda>t. Inr (t, d')))
      | _ \<Rightarrow> Inl validation_error)"

definition execute_accept :: "'x agent_env_scheme \<Rightarrow> tool_context \<Rightarrow> decision \<Rightarrow> int option \<Rightarrow> db \<Rightarrow> exn + turn_result \<times> db" where
  "execute_accept E cx dn current d =
     (if dn_offer_id dn \<noteq> current then Inr (safe_failure (Some dn), d)
      else case dn_offer_id dn of
        None \<Rightarrow> Inl validation_error
      | Some oid \<Rightarrow>
          ebind (accept_offer_tool E cx oid d) (\<lambda>(r, d').
          ebind (formal_reply render_accepted_offer TO_OFFER_ACCEPTED dn r) (\<lambda>t. Inr (t, d'))))"

definition valid_approval_result :: "json \<Rightarrow> int option \<Rightarrow> bool" where
  "valid_approval_result r oid \<longleftrightarrow>
     (let a = jget r ''approval'' in
      (case jget a ''id'' of JInt k \<Rightarrow> 0 < k | _ \<Rightarrow> False)
      \<and> jget a ''offer_id'' = jopt JInt oid \<and> jget a ''status'' = JStr ''PENDING'')"

definition approval_reply :: "decision \<Rightarrow> json \<Rightarrow> turn_result" where
  "approval_reply dn r =
     (if \<not> is_success r then
        (if jget (jget r ''error'') ''code'' = JStr ''APPROVAL_NOT_AUTHORIZED''
         then \<lparr>tr_reply = ''this condition cannot be accepted'', tr_outcome = TO_REJECTED, tr_decision = Some dn, tr_offer_id = None\<rparr>
         else safe_failure (Some dn))
      else if \<not> valid_approval_result r (dn_offer_id dn) then safe_failure (Some dn)
      else \<lparr>tr_reply = ''submitted to the seller, not accepted yet'', tr_outcome = TO_NEEDS_SELLER_CONFIRMATION,
            tr_decision = Some dn, tr_offer_id = None\<rparr>)"

definition execute_approval :: "'x agent_env_scheme \<Rightarrow> tool_context \<Rightarrow> decision \<Rightarrow> int option \<Rightarrow> db \<Rightarrow> exn + turn_result \<times> db" where
  "execute_approval E cx dn current d =
     (if dn_offer_id dn \<noteq> current then Inr (safe_failure (Some dn), d)
      else case dn_offer_id dn of
        None \<Rightarrow> Inl validation_error
      | Some oid \<Rightarrow>
          ebind (request_approval_tool E cx oid (dn_reason dn) d) (\<lambda>(r, d'). Inr (approval_reply dn r, d')))"

definition answer_without_commitment :: "'x agent_env_scheme \<Rightarrow> decision \<Rightarrow> json \<Rightarrow> turn_result" where
  \<comment> \<open>the rest of \<open>_execute_decision\<close>, for an inquiry or a refusal\<close>
  "answer_without_commitment E dn product =
     (case jget product ''product'' of
        JObj kvs \<Rightarrow>
          if dn_action dn = DO_INQUIRY then
            (if dn_acts dn = [] then safe_failure (Some dn)
             else let (text, asks) = resolve_dialogue E (dn_acts dn) (dn_reply dn) (JObj kvs) in
                  \<lparr>tr_reply = text, tr_outcome = (if asks then TO_CLARIFICATION else TO_INFORMATIONAL),
                   tr_decision = Some dn, tr_offer_id = None\<rparr>)
          else \<lparr>tr_reply = ''this condition cannot be accepted now'', tr_outcome = TO_REJECTED, tr_decision = Some dn,
                tr_offer_id = None\<rparr>
      | _ \<Rightarrow> safe_failure (Some dn))"

definition execute_decision ::
    "'x agent_env_scheme \<Rightarrow> tool_context \<Rightarrow> decision \<Rightarrow> json \<Rightarrow> int option \<Rightarrow> db \<Rightarrow> exn + turn_result \<times> db" where
  "execute_decision E cx dn product current d =
     (case dn_action dn of
        DO_COUNTER \<Rightarrow> execute_counter E cx dn d
      | DO_ACCEPT \<Rightarrow> execute_accept E cx dn current d
      | DO_REQUEST_APPROVAL \<Rightarrow> execute_approval E cx dn current d
      | _ \<Rightarrow> Inr (answer_without_commitment E dn product, d))"

definition apply_prepared ::
    "'x agent_env_scheme \<Rightarrow> tool_context \<Rightarrow> preparation \<Rightarrow> decision option \<Rightarrow> db \<Rightarrow> exn + turn_result \<times> db" where
  "apply_prepared E cx p dn d =
     (case pn_immediate p of
        Some r \<Rightarrow> Inr (r, d)
      | None \<Rightarrow>
          (case pn_request p of
             None \<Rightarrow> Inl (ValueExn ''no decision context'')
           | Some q \<Rightarrow>
               ebind (case pn_decision p of
                        Some x \<Rightarrow> Inr x
                      | None \<Rightarrow>
                          (case dn of
                             None \<Rightarrow> Inl (ValueExn ''no decision'')
                           | Some x \<Rightarrow> constrain_formal_offer x (dq_offer_id q))) (\<lambda>x.
               execute_decision E cx x (dq_product q) (dq_offer_id q) d)))"

definition handle_turn ::
    "'x agent_env_scheme \<Rightarrow> tool_context \<Rightarrow> (decision_request \<Rightarrow> failure + decision) \<Rightarrow> string \<Rightarrow> (string \<times> string) list \<Rightarrow>
     int option \<Rightarrow> db \<Rightarrow> exn + turn_result \<times> db" where
  "handle_turn E cx decide text history current d =
     ebind (prepare_turn E cx text history current d) (\<lambda>p.
     case (requires_model p, pn_request p) of
       (True, Some q) \<Rightarrow>
         (case decide q of
            Inl _ \<Rightarrow> Inr (\<lparr>tr_reply = ''could not be understood, please say it differently'', tr_outcome = TO_MODEL_ERROR,
                          tr_decision = None, tr_offer_id = None\<rparr>, d)
          | Inr dn \<Rightarrow> apply_prepared E cx p (Some dn) d)
     | _ \<Rightarrow> apply_prepared E cx p None d)"

end
