(* ===== verification/Agent_Spec.thy ===== *)
theory Agent_Spec
  imports Agent Followup_Spec Intent
begin

text \<open>
  What a turn of the agent guarantees: whatever the language model proposes, the database changes only through an
  authorised tool, every change is told to the buyer, and a formal offer of the buyer is decided by the rules.
\<close>

section \<open>Offers as the tools return them\<close>

definition amounts_ok :: "offer \<Rightarrow> bool" where
  "amounts_ok off \<longleftrightarrow> money_field_ok (Some (of_price off)) \<and> money_field_ok (of_shipping_cost off)
     \<and> money_field_ok (Some (of_seller_borne_discount off))"

definition args_of :: "offer \<Rightarrow> terms_args" where
  "args_of off = \<lparr>ta_price = of_price off, ta_payer = of_shipping_paid_by off, ta_cost = of_shipping_cost off,
     ta_discount = of_seller_borne_discount off, ta_terms = of_terms off\<rparr>"

lemma parse_show_cents: "0 \<le> c \<Longrightarrow> parse_decimal (show_cents c) = Some (Finite False (nat c) (- 2))"
  using parse_hundredths [of False "nat c"] by (simp add: show_cents_hundredths)

lemma cents_field_show [simp]: "money_field_ok (Some c) \<Longrightarrow> cents_field (JStr (show_cents c)) = Inr c"
  by (simp add: cents_field_def parse_show_cents to_cents_def money_field_ok_def)

lemma payer_field_show [simp]: "payer_field (JStr (show_payer p)) = Inr p"
  by (cases p) (simp_all add: payer_field_def)

lemma serialize_offer_fields [simp]:
  "jget (serialize_offer E off) ''id'' = JInt (of_id off)"
  "jget (serialize_offer E off) ''proposer'' = JStr (proposer_text (of_proposer off))"
  "jget (serialize_offer E off) ''price'' = JStr (show_cents (of_price off))"
  "jget (serialize_offer E off) ''shipping_paid_by'' = JStr (show_payer (of_shipping_paid_by off))"
  "jget (serialize_offer E off) ''shipping_cost'' = jopt (\<lambda>c. JStr (show_cents c)) (of_shipping_cost off)"
  "jget (serialize_offer E off) ''seller_borne_discount'' = JStr (show_cents (of_seller_borne_discount off))"
  "jget (serialize_offer E off) ''additional_terms'' = JObj (of_terms off)"
  "jget (serialize_offer E off) ''status'' = JStr (offer_status_text (of_status off))"
  by (simp_all add: serialize_offer_def)

lemma offer_args_serialized:
  assumes "amounts_ok off"
  shows "offer_args (serialize_offer E off) = Inr (args_of off)"
  using assms by (cases "of_shipping_cost off") (simp_all add: offer_args_def args_of_def amounts_ok_def)

lemma proposer_text_inj [simp]: "proposer_text p = proposer_text q \<longleftrightarrow> p = q"
  by (cases p; cases q) simp_all

lemma offer_status_text_inj [simp]: "offer_status_text p = offer_status_text q \<longleftrightarrow> p = q"
  by (cases p; cases q) simp_all

lemma mk_terms_cents:
  "mk_terms (dec_of_cents p) (Some by) (map_option dec_of_cents c) (Some (dec_of_cents dc)) = Inr t \<longleftrightarrow>
     money_field_ok (Some p) \<and> money_field_ok c \<and> money_field_ok (Some dc)
     \<and> t = \<lparr>ot_buyer_payment = p, ot_shipping_paid_by = by, ot_shipping_cost = c, ot_seller_borne_discount = Some dc\<rparr>"
  by (cases c) (auto simp: mk_terms_def validate_optional_def money_field_ok_def result_simps split: if_splits)

lemma terms_from_offer_iff:
  "terms_from_offer off = Inr t \<longleftrightarrow> amounts_ok off \<and> to_domain (args_of off) = Inr t"
  by (auto simp: terms_from_offer_def to_domain_def args_of_def amounts_ok_def mk_terms_cents result_simps)

lemma authorized_amounts:
  assumes "authorize_stored_offer off pol = Inr au"
  shows "amounts_ok off"
  using assms by (auto simp: authorize_stored_offer_def terms_from_offer_iff result_simps)

section \<open>Replies about formal offers\<close>

lemma authorized_conditions:
  assumes "additional_terms_are_authorized extra = Inr True"
  shows "extra = [] \<or> (\<exists>x xs. extra = x # xs \<and> jget (JObj extra) ''delivery_method'' \<in> {JStr ''pickup'', JStr ''shipping''})"
  using assms
  by (cases extra) (auto simp: additional_terms_are_authorized_def split: if_splits json.splits)

lemma delivery_text_authorized:
  assumes "additional_terms_are_authorized extra = Inr True"
    and "jget (JObj kvs) ''additional_terms'' = JObj extra"
  shows "\<exists>s. delivery_text kvs = Inr s"
  using authorized_conditions [OF assms(1)] assms(2) by (auto simp: delivery_text_def)

definition offer_fields :: "'x agent_env_scheme \<Rightarrow> offer \<Rightarrow> (string \<times> json) list" where
  "offer_fields E off = (case serialize_offer E off of JObj kvs \<Rightarrow> kvs | _ \<Rightarrow> [])"

lemma serialize_offer_obj: "serialize_offer E off = JObj (offer_fields E off)"
  by (simp add: offer_fields_def serialize_offer_def)

lemma offer_fields_get [simp]: "jget (JObj (offer_fields E off)) k = jget (serialize_offer E off) k"
  by (simp only: serialize_offer_obj)

lemma map_of_offer_fields:
  "map_of (offer_fields E off) ''price'' = Some (JStr (show_cents (of_price off)))"
  "map_of (offer_fields E off) ''seller_borne_discount'' = Some (JStr (show_cents (of_seller_borne_discount off)))"
  by (simp_all add: offer_fields_def serialize_offer_def)

lemma terms_text_authorized:
  assumes "amounts_ok off" and "additional_terms_are_authorized (of_terms off) = Inr True"
  shows "\<exists>s. terms_text lead (offer_fields E off) = Inr s"
proof -
  have amounts: "money_text (JStr (show_cents (of_price off))) = Inr (show_cents (of_price off))"
    "money_text (JStr (show_cents (of_seller_borne_discount off))) = Inr (show_cents (of_seller_borne_discount off))"
    using assms(1) by (simp_all add: amounts_ok_def money_field_ok_def money_text_cents)
  have "\<exists>s. shipping_text (offer_fields E off) = Inr s"
    by (cases "of_shipping_paid_by off") (simp_all add: shipping_text_def del: jget.simps)
  moreover have "\<exists>s. discount_text (offer_fields E off) = Inr s"
    by (simp add: discount_text_def map_of_offer_fields amounts)
  moreover have "\<exists>s. delivery_text (offer_fields E off) = Inr s"
    using assms(2) by (rule delivery_text_authorized) (simp del: jget.simps)
  ultimately show ?thesis by (auto simp: terms_text_def map_of_offer_fields amounts)
qed

lemma formal_result_get:
  "jget (formal_result E off) ''ok'' = JBool True" "jget (formal_result E off) ''offer'' = serialize_offer E off"
  by (simp_all add: formal_result_def)

lemma validated_formal:
  assumes "0 < of_id off" and "of_status off \<in> set expected"
  shows "validated_offer (formal_result E off) (of_proposer off) expected = Inr (offer_fields E off)"
proof -
  have "list_ex (\<lambda>s. offer_status_text (of_status off) = offer_status_text s) expected"
    using assms(2) by (auto simp: list_ex_iff)
  moreover have "jget (formal_result E off) ''offer'' = JObj (offer_fields E off)"
    by (simp only: formal_result_get serialize_offer_obj)
  ultimately show ?thesis
    using assms(1) by (simp add: validated_offer_def formal_result_get(1) del: jget.simps)
qed

lemma formal_reply_rendered:
  assumes "0 < of_id off" and "of_status off = st" and "amounts_ok off"
    and "additional_terms_are_authorized (of_terms off) = Inr True" and "of_proposer off = who"
    and "render = (\<lambda>r. ebind (validated_offer r who [st]) (terms_text lead))"
  obtains reply where "formal_reply render outcome dn (formal_result E off)
    = Inr \<lparr>tr_reply = reply, tr_outcome = outcome, tr_decision = Some dn, tr_offer_id = Some (of_id off)\<rparr>"
proof -
  obtain s where "terms_text lead (offer_fields E off) = Inr s"
    using terms_text_authorized [OF assms(3,4)] by blast
  moreover have "validated_offer (formal_result E off) who [st] = Inr (offer_fields E off)"
    using validated_formal [of off "[st]" E] assms(1,2,5) by simp
  moreover have "result_offer_id (formal_result E off) = Inr (of_id off)" and "is_success (formal_result E off)"
    using assms(1) by (simp_all add: result_offer_id_def is_success_def formal_result_def)
  ultimately show thesis by (intro that) (simp add: formal_reply_def assms(6))
qed

lemma render_counter_eq: "render_counter_offer = (\<lambda>r. ebind (validated_offer r AGENT [PROPOSED]) (terms_text ''my formal counter offer is ''))"
  by (simp add: fun_eq_iff render_counter_offer_def)

lemma render_accepted_eq: "render_accepted_offer = (\<lambda>r. ebind (validated_offer r BUYER [ACCEPTED]) (terms_text ''I can accept ''))"
  by (simp add: fun_eq_iff render_accepted_offer_def)

section \<open>What the tools do\<close>

definition ids_positive :: "db \<Rightarrow> bool" where
  \<comment> \<open>the database counts from one\<close>
  "ids_positive d \<longleftrightarrow> 0 < d_next_offer d \<and> 0 < d_next_approval d \<and> (\<forall>k a. get_approval d k = Some a \<longrightarrow> 0 < k)"

lemma tool_error_InrE: "tool_error_result e = Inr j \<Longrightarrow> \<not> is_success j"
  by (cases e) (auto simp: error_result_def is_success_def)

lemma service_error_InrE: "service_error_result e = Inr j \<Longrightarrow> \<not> is_success j"
  by (cases e) (auto simp: error_result_def is_success_def)

lemma tool_write_cases:
  assumes "tool_write handler show_it r d = Inr (j, d')"
  obtains (done_) x where "r = Inr (x, d')" and "j = show_it x"
  | (failed) e where "handler e = Inr j" and "d' = d"
proof (cases r)
  case (Inl e)
  with assms have "ebind (handler e) (\<lambda>j. Inr (j, d)) = Inr (j, d')" by (simp add: tool_write_def)
  then show ?thesis using failed by (auto simp: ebind_eq_Inr)
next
  case (Inr p)
  then show ?thesis using assms done_ by (cases p) (simp add: tool_write_def)
qed

lemma counter_offer_fields:
  assumes "submit_counter_offer now sid buyer t (Some extra) None resp d = Inr (off, d')"
  shows "of_price off = ot_buyer_payment t" and "of_shipping_paid_by off = ot_shipping_paid_by t"
    and "of_shipping_cost off = ot_shipping_cost t" and "ot_seller_borne_discount t = Some (of_seller_borne_discount off)"
    and "of_terms off = extra" and "of_id off = d_next_offer d"
proof -
  obtain n off0 k d2 where new: "new_offer sid AGENT t extra None = Inr off0"
    and k: "(k, d2) = add_offer off0 (supersede_current_offer n AGENT d)" and off: "off = off0\<lparr>of_id := k\<rparr>"
    using assms unfolding submit_counter_offer_def
    by (elim result_elims) (rule that, auto simp: validated_additional_terms_def split: if_splits)
  from new off show "of_price off = ot_buyer_payment t" "of_shipping_paid_by off = ot_shipping_paid_by t"
    "of_shipping_cost off = ot_shipping_cost t" "ot_seller_borne_discount t = Some (of_seller_borne_discount off)"
    "of_terms off = extra"
    by (auto simp: new_offer_Inr)
  show "of_id off = d_next_offer d" using add_offer_get(4) [OF k [symmetric]] by (simp add: off)
qed

lemma authorized_extra:
  assumes "authorize_terms t pol extra = Inr au" and "au_can_accept au \<or> au_can_counter au \<or> au_can_request_approval au"
  shows "additional_terms_are_authorized extra = Inr True"
proof -
  obtain p where "authorize_offer t p extra = Inr au" using assms(1) by (auto simp: authorize_terms_Inr)
  with assms(2) show ?thesis using authorize_offer_flags by metis
qed

lemma stored_offer_renders:
  assumes "authorize_stored_offer off pol = Inr au" and "au_can_accept au \<or> au_can_counter au \<or> au_can_request_approval au"
  shows "amounts_ok off" and "additional_terms_are_authorized (of_terms off) = Inr True"
  using assms authorized_amounts authorized_extra by (auto simp: authorize_stored_offer_def result_simps)

definition committed :: "tool_context \<Rightarrow> int option \<Rightarrow> turn_result \<Rightarrow> db \<Rightarrow> db \<Rightarrow> bool" where
  \<comment> \<open>the specification of what a turn may do\<close>
  "committed cx current t d d' \<longleftrightarrow>
     (case tr_outcome t of
        TO_COUNTER_OFFERED \<Rightarrow>
          (\<exists>off n pol. tr_offer_id t = Some (of_id off) \<and> get_offer d (of_id off) = None \<and> get_offer d' (of_id off) = Some off
             \<and> of_proposer off = AGENT \<and> of_status off = PROPOSED \<and> of_session_id off = tc_session cx
             \<and> get_session d (tc_session cx) = Some n \<and> ns_status n = ACTIVE \<and> ns_buyer_id n = tc_buyer cx
             \<and> get_policy d (ns_product_id n) = Some pol \<and> sp_auto_accept_threshold pol \<le> offer_net_income off)
      | TO_OFFER_ACCEPTED \<Rightarrow>
          (\<exists>off n pol. tr_offer_id t = current \<and> current = Some (of_id off) \<and> get_offer d (of_id off) = Some off
             \<and> of_proposer off = BUYER \<and> of_status off = PROPOSED \<and> get_offer d' (of_id off) = Some (off\<lparr>of_status := ACCEPTED\<rparr>)
             \<and> get_session d (tc_session cx) = Some n \<and> ns_status n = ACTIVE \<and> ns_current_offer_id n = current
             \<and> get_policy d (ns_product_id n) = Some pol \<and> sp_auto_accept_threshold pol \<le> offer_net_income off)
      | TO_NEEDS_SELLER_CONFIRMATION \<Rightarrow>
          tr_offer_id t = None \<and> (\<exists>a. get_pending d' (tc_session cx) = Some a \<and> Some (ap_offer_id a) = current)
      | _ \<Rightarrow> tr_offer_id t = None \<and> d' = d)"

lemma committed_same: "tr_outcome t \<notin> {TO_COUNTER_OFFERED, TO_OFFER_ACCEPTED, TO_NEEDS_SELLER_CONFIRMATION} \<Longrightarrow>
    tr_offer_id t = None \<Longrightarrow> committed cx current t d d"
  by (auto simp: committed_def split: turn_outcome.splits)

lemma committed_failure [simp]: "committed cx current (safe_failure dn) d d" "committed cx current (turn_failure reply dn) d d"
  by (simp_all add: committed_same safe_failure_def turn_failure_def)

lemma net_of_terms:
  assumes "calculate_net_income t = Inr net" and "of_price off = ot_buyer_payment t"
    and "of_shipping_paid_by off = ot_shipping_paid_by t" and "of_shipping_cost off = ot_shipping_cost t"
    and "ot_seller_borne_discount t = Some (of_seller_borne_discount off)"
  shows "net = offer_net_income off"
  using assms by (auto simp: calculate_net_income_def offer_net_income_def result_simps split: if_splits)

section \<open>What a decision does\<close>

lemma execute_counter_committed:
  assumes "execute_counter E cx dn d = Inr (t, d')" and "legacy_inv d" and "0 < d_next_offer d"
  shows "keeps d d' \<and> committed cx current t d d' \<and> (tr_outcome t = TO_COUNTER_OFFERED \<or> d' = d)"
proof -
  obtain args j where call: "submit_counter_offer_tool E cx args d = Inr (j, d')"
    and reply: "formal_reply render_counter_offer TO_COUNTER_OFFERED dn j = Inr t"
    using assms(1) unfolding execute_counter_def by (auto simp: result_simps split: option.splits)
  define body where "body = ebind (to_domain args) (\<lambda>t.
        submit_counter_offer (ae_now E) (tc_session cx) (tc_buyer cx) t (Some (ta_terms args)) None (tc_offer cx) d)"
  from call have "tool_write tool_error_result (formal_result E) body d = Inr (j, d')"
    by (auto simp: submit_counter_offer_tool_def body_def result_simps validated_args_def split: if_splits)
  then show ?thesis
  proof (cases rule: tool_write_cases)
    case (failed e)
    with tool_error_InrE have "\<not> is_success j" by blast
    with reply failed(2) show ?thesis by (auto simp: formal_reply_def)
  next
    case (done_ off)
    then obtain tm where step: "submit_counter_offer (ae_now E) (tc_session cx) (tc_buyer cx) tm (Some (ta_terms args)) None
        (tc_offer cx) d = Inr (off, d')" and tm: "to_domain args = Inr tm"
      by (auto simp: body_def result_simps)
    note fields = counter_offer_fields [OF step]
    from step show ?thesis
    proof (cases rule: submit_counter_offer_cases)
      case (1 n pol au off0 k d2)
      have off: "of_id off = k" "of_proposer off = AGENT" "of_status off = PROPOSED" "of_session_id off = tc_session cx"
        using 1(8-10,12) by simp_all
      have amounts: "amounts_ok off"
        using tm fields(1-4) by (auto simp: to_domain_def mk_terms_cents result_simps amounts_ok_def)
      obtain reply' where t: "t = \<lparr>tr_reply = reply', tr_outcome = TO_COUNTER_OFFERED, tr_decision = Some dn,
          tr_offer_id = Some (of_id off)\<rparr>"
      proof (rule formal_reply_rendered [OF _ off(3) amounts _ off(2) render_counter_eq, of TO_COUNTER_OFFERED dn E])
        show "0 < of_id off" using fields(6) assms(3) by simp
        show "additional_terms_are_authorized (of_terms off) = Inr True"
          using authorized_extra [OF 1(6)] 1(7) by simp
      qed (use reply done_(2) in auto)
      obtain net where net: "calculate_net_income tm = Inr net" "sp_auto_accept_threshold pol \<le> net"
        using authorize_terms_net [OF 1(6)] 1(6,7) authorize_offer_flags(2) by (metis authorize_terms_Inr)
      then have threshold: "sp_auto_accept_threshold pol \<le> offer_net_income off"
        using net_of_terms [OF net(1) fields(1-4)] by simp
      have "get_offer d' k = Some off" using 1(12,14) by (simp add: add_offer_get(1) [OF 1(13)])
      moreover have "get_offer d k = None"
        using assms(2) fields(6) off(1) by (cases "get_offer d k") (auto simp: legacy_inv_def dest: offer_inv_offerD)
      moreover note counter_keeps [OF step]
      ultimately show ?thesis using 1(1,2,4,5) off threshold by (auto simp: committed_def t)
    qed
  qed
qed

lemma execute_accept_committed:
  assumes "execute_accept E cx dn current d = Inr (t, d')" and "legacy_inv d"
  shows "keeps d d' \<and> committed cx current t d d' \<and> (tr_outcome t = TO_OFFER_ACCEPTED \<or> d' = d)"
proof (cases "dn_offer_id dn = current \<and> current \<noteq> None")
  case False
  with assms(1) show ?thesis by (auto simp: execute_accept_def split: option.splits if_splits)
next
  case True
  then obtain oid where oid: "dn_offer_id dn = Some oid" "current = Some oid" by auto
  obtain j where call: "accept_offer_tool E cx oid d = Inr (j, d')" and pos: "0 < oid"
    and reply: "formal_reply render_accepted_offer TO_OFFER_ACCEPTED dn j = Inr t"
    using assms(1) oid unfolding execute_accept_def by (auto simp: result_simps accept_offer_tool_def split: if_splits)
  then have "tool_write service_error_result (formal_result E) (accept_offer (ae_now E) (tc_session cx) (tc_buyer cx) oid d) d = Inr (j, d')"
    by (simp add: accept_offer_tool_def)
  then show ?thesis
  proof (cases rule: tool_write_cases)
    case (failed e)
    with service_error_InrE have "\<not> is_success j" by blast
    with reply failed(2) show ?thesis by (auto simp: formal_reply_def)
  next
    case (done_ off')
    from done_(1) show ?thesis
    proof (cases rule: accept_offer_cases)
      case (1 n off pol au)
      have id: "of_id off = oid" using assms(2) 1(6) by (auto simp: legacy_inv_def dest: offer_inv_offerD)
      have au: "au_can_accept au \<or> au_can_counter au \<or> au_can_request_approval au" using 1(13) by simp
      obtain reply' where t: "t = \<lparr>tr_reply = reply', tr_outcome = TO_OFFER_ACCEPTED, tr_decision = Some dn,
          tr_offer_id = Some (of_id off')\<rparr>"
      proof (rule formal_reply_rendered [OF _ _ _ _ _ render_accepted_eq, of off' TO_OFFER_ACCEPTED dn E])
        show "amounts_ok off'" using stored_offer_renders(1) [OF 1(12) au] by (simp add: amounts_ok_def 1(14))
        show "additional_terms_are_authorized (of_terms off') = Inr True"
          using stored_offer_renders(2) [OF 1(12) au] by (simp add: 1(14))
      qed (use reply done_(2) 1(8,14) id pos in auto)
      have "sp_auto_accept_threshold pol \<le> offer_net_income off" using authorize_stored_net(1) [OF 1(12,13)] .
      moreover have "get_offer d' oid = Some (off\<lparr>of_status := ACCEPTED\<rparr>)" using 1(6) by (simp add: 1(15))
      moreover note accept_keeps [OF done_(1)]
      ultimately show ?thesis using 1(1,4-6,8,9,11) id oid by (auto simp: committed_def t 1(14))
    qed
  qed
qed

lemma execute_approval_committed:
  assumes "execute_approval E cx dn current d = Inr (t, d')" and "legacy_inv d" and "ids_positive d"
  shows "keeps d d' \<and> committed cx current t d d' \<and> (tr_outcome t = TO_NEEDS_SELLER_CONFIRMATION \<or> d' = d)"
proof (cases "dn_offer_id dn = current \<and> current \<noteq> None")
  case False
  with assms(1) show ?thesis by (auto simp: execute_approval_def split: option.splits if_splits)
next
  case True
  then obtain oid where oid: "dn_offer_id dn = Some oid" "current = Some oid" by auto
  obtain j where call: "request_approval_tool E cx oid (dn_reason dn) d = Inr (j, d')" and t: "t = approval_reply dn j"
    using assms(1) oid unfolding execute_approval_def by (auto simp: result_simps split: if_splits)
  from call have "tool_write service_error_result (approval_result E) (request_approval_body E cx oid d) d = Inr (j, d')"
    by (simp add: request_approval_tool_def split: if_splits)
  then show ?thesis
  proof (cases rule: tool_write_cases)
    case (failed e)
    with service_error_InrE have "\<not> is_success j" by blast
    then show ?thesis by (auto simp: t approval_reply_def failed(2) intro: committed_same)
  next
    case (done_ a)
    from done_(1) obtain off and st :: negotiation_state where step: "create_request (ae_now2 E) (ae_now3 E) (tc_session cx) (tc_buyer cx) oid
        (st_policy_version st) (approval_reason off) (approval_expiration (ae_now E) off) d = Inr (a, d')"
      unfolding request_approval_body_def by (elim result_elims) (erule that)
    have facts: "get_pending d' (tc_session cx) = Some a \<and> ap_offer_id a = oid \<and> 0 < ap_id a \<and> ap_status a = AP_PENDING"
      using step
    proof (cases rule: create_request_cases)
      case (again n)
      have p: "get_approval d (ap_id a) = Some a \<and> ap_session_id a = tc_session cx \<and> ap_status a = AP_PENDING"
        using get_pending_Some [OF _ again(2)] assms(2) by (simp add: legacy_inv_def)
      then have "0 < ap_id a" using assms(3) by (auto simp: ids_positive_def)
      with again p show ?thesis by simp
    next
      case (created n p off1 pol au)
      have ai: "approval_inv d'" using create_request_keeps [OF step] assms(2) by (simp add: keeps_def legacy_inv_def)
      have row: "get_approval d' (ap_id a) = Some a" by (simp add: created(16,24))
      have sid: "ns_id n = tc_session cx" "of_id off1 = oid"
        using assms(2) created(1,8) by (auto simp: legacy_inv_def dest: offer_inv_sessionD offer_inv_offerD)
      have "get_pending d' (tc_session cx) = Some a"
      proof (cases "get_pending d' (tc_session cx)")
        case None
        from get_pending_None [OF this row created(20)] show ?thesis using created(17) sid by simp
      next
        case (Some b)
        note b = get_pending_Some [OF ai Some]
        have "ap_session_id b = ap_session_id a" using b created(17) sid by simp
        then have same: "ap_id b = ap_id a"
          using approval_inv_oneD [OF ai _ row _ created(20), of "ap_id b" b] b by simp
        have "get_approval d' (ap_id b) = Some b" using b by simp
        then have "b = a" unfolding same row by simp
        then show ?thesis using Some by simp
      qed
      then show ?thesis using created(16,18,20) sid assms(3) by (simp add: ids_positive_def)
    qed
    then have "t = \<lparr>tr_reply = ''submitted to the seller, not accepted yet'', tr_outcome = TO_NEEDS_SELLER_CONFIRMATION,
            tr_decision = Some dn, tr_offer_id = None\<rparr>"
      using oid by (simp add: t approval_reply_def done_(2) approval_result_def is_success_def valid_approval_result_def)
    with facts create_request_keeps [OF step] oid show ?thesis by (auto simp: committed_def)
  qed
qed

lemma answer_no_offer: "tr_offer_id (answer_without_commitment E dn product) = None"
  by (auto simp: answer_without_commitment_def safe_failure_def turn_failure_def Let_def split: json.splits prod.splits)

lemma answer_outcome:
  "tr_outcome (answer_without_commitment E dn product) \<notin> {TO_COUNTER_OFFERED, TO_OFFER_ACCEPTED, TO_NEEDS_SELLER_CONFIRMATION}"
  by (auto simp: answer_without_commitment_def safe_failure_def turn_failure_def Let_def split: json.splits prod.splits)

lemma execute_committed:
  assumes "execute_decision E cx dn product current d = Inr (t, d')" and "legacy_inv d" and "ids_positive d"
  shows "keeps d d' \<and> committed cx current t d d'"
proof (cases "dn_action dn")
  case DO_ACCEPT
  then show ?thesis using assms execute_accept_committed [of E cx dn current d t d'] by (simp add: execute_decision_def)
next
  case DO_COUNTER
  then show ?thesis
    using assms execute_counter_committed [of E cx dn d t d'] by (auto simp: execute_decision_def ids_positive_def committed_def
        split: turn_outcome.splits)
next
  case DO_REQUEST_APPROVAL
  then show ?thesis using assms execute_approval_committed [of E cx dn current d t d'] by (simp add: execute_decision_def)
qed (use assms committed_same [OF answer_outcome answer_no_offer] in \<open>auto simp: execute_decision_def\<close>)

lemma prepare_cases:
  assumes "prepare_turn E cx text history current d = Inr p"
  obtains (failed) reply where "p = immediate (turn_failure reply None)"
  | (free) product negotiation where "current = None" and "p = \<lparr>pn_request = Some \<lparr>dq_message = strip text, dq_product = product,
       dq_negotiation = negotiation, dq_history = history, dq_offer_id = None\<rparr>, pn_decision = None, pn_immediate = None\<rparr>"
  | (formal) oid product negotiation cxt kvs dn where "current = Some oid" and "get_product_info cx d = Inr product"
      and "get_negotiation_state E cx d = Inr negotiation" and "is_success negotiation"
      and "with_authorization cx negotiation current d = Inr (Some cxt)"
      and "jget cxt ''current_offer_authorization'' = JObj kvs" and "resolve_authorized_offer (JObj kvs) current = Inr dn"
      and "p = \<lparr>pn_request = Some \<lparr>dq_message = strip text, dq_product = product, dq_negotiation = cxt, dq_history = history,
             dq_offer_id = current\<rparr>, pn_decision = dn, pn_immediate = None\<rparr>"
proof (cases "strip text = [] \<or> 4000 < length (strip text)")
  case True
  with assms have "p = immediate (turn_failure ''please send a valid question'' None)" by (simp add: prepare_turn_def Let_def)
  then show ?thesis by (rule failed)
next
  case False
  then have "ebind (get_product_info cx d) (\<lambda>product. ebind (get_negotiation_state E cx d) (\<lambda>negotiation.
      prepared_context cx (strip text) history current product negotiation d)) = Inr p"
    using assms by (simp add: prepare_turn_def Let_def)
  then obtain product negotiation where product: "get_product_info cx d = Inr product"
    and negotiation: "get_negotiation_state E cx d = Inr negotiation"
    and rest: "prepared_context cx (strip text) history current product negotiation d = Inr p"
    by (auto simp: ebind_eq_Inr)
  show ?thesis
  proof (cases "is_success product \<and> is_success negotiation")
    case True
    with rest obtain cx0 where cx0: "with_authorization cx negotiation current d = Inr cx0"
      and made: "(case cx0 of None \<Rightarrow> Inr (immediate (safe_failure None))
        | Some c \<Rightarrow> prepared_request (strip text) history current product c) = Inr p"
      by (auto simp: ebind_eq_Inr prepared_context_def)
    show ?thesis
    proof (cases cx0)
      case None
      with made have "p = immediate (turn_failure ''cannot be handled safely now'' None)" by (simp add: safe_failure_def)
      then show ?thesis by (rule failed)
    next
      case (Some cxt)
      with made have req: "prepared_request (strip text) history current product cxt = Inr p" by simp
      show ?thesis
      proof (cases current)
        case None
        with req have "p = \<lparr>pn_request = Some \<lparr>dq_message = strip text, dq_product = product,
           dq_negotiation = cxt, dq_history = history, dq_offer_id = None\<rparr>, pn_decision = None, pn_immediate = None\<rparr>"
          by (simp add: prepared_request_def)
        with None show ?thesis by (rule free)
      next
        case (Some oid)
        show ?thesis
        proof (cases "\<exists>kvs. jget cxt ''current_offer_authorization'' = JObj kvs")
          case True
          then obtain kvs where kvs: "jget cxt ''current_offer_authorization'' = JObj kvs" by blast
          with req Some obtain dn where dn: "resolve_authorized_offer (JObj kvs) current = Inr dn"
            and p: "p = \<lparr>pn_request = Some \<lparr>dq_message = strip text, dq_product = product, dq_negotiation = cxt, dq_history = history,
             dq_offer_id = current\<rparr>, pn_decision = dn, pn_immediate = None\<rparr>"
            by (auto simp: ebind_eq_Inr prepared_request_def)
          show ?thesis
            using formal [OF Some product negotiation _ _ kvs dn p] cx0 \<open>cx0 = Some cxt\<close>
              \<open>is_success product \<and> is_success negotiation\<close> by simp
        next
          case False
          with req Some have "p = immediate (safe_failure None)"
            by (simp add: prepared_request_def split: json.splits)
          then show ?thesis unfolding safe_failure_def by (rule failed)
        qed
      qed
    qed
  next
    case False
    with rest have "p = immediate (safe_failure None)" by (auto simp: prepared_context_def)
    then show ?thesis unfolding safe_failure_def by (rule failed)
  qed
qed

lemma apply_prepared_committed:
  assumes "apply_prepared E cx p dn d = Inr (t, d')" and "legacy_inv d" and "ids_positive d"
    and "prepare_turn E' cx text history current d0 = Inr p"
  shows "keeps d d' \<and> committed cx current t d d'"
  using assms(4)
proof (cases rule: prepare_cases)
  case (failed reply)
  then show ?thesis using assms(1) by (auto simp: apply_prepared_def immediate_def)
next
  case (free product negotiation)
  with assms(1) obtain x where "execute_decision E cx x product None d = Inr (t, d')"
    by (auto simp: apply_prepared_def ebind_eq_Inr split: option.splits)
  with execute_committed [OF this assms(2,3)] free(1) show ?thesis by simp
next
  case (formal oid product negotiation cxt kvs x)
  with assms(1) obtain y where "execute_decision E cx y product current d = Inr (t, d')"
    by (auto simp: apply_prepared_def ebind_eq_Inr)
  with execute_committed [OF this assms(2,3)] show ?thesis by simp
qed

text \<open>
  C11: Whatever the language model answers, a turn of the agent changes the database only by an authorised action and tells
  the buyer: a counter offer is stored exactly when the reply announces it, for a price at or above the seller's threshold;
  an offer is accepted exactly when the reply says so, it is then the buyer's current open offer in an active negotiation,
  at or above the threshold; a seller is asked exactly when the reply says so. In every other outcome (answer,
  clarification, refusal, failure) nothing is written. The invariants of the runtime are kept.
\<close>

theorem agent_turn_sound:
  assumes "handle_turn E cx decide text history current d = Inr (t, d')" and "legacy_inv d" and "ids_positive d"
  shows "legacy_inv d' \<and> approval_history d d' \<and> committed cx current t d d'"
proof -
  obtain p where p: "prepare_turn E cx text history current d = Inr p"
    using assms(1) by (auto simp: handle_turn_def ebind_eq_Inr)
  have "d' = d \<and> committed cx current t d d' \<or> (\<exists>dn. apply_prepared E cx p dn d = Inr (t, d'))"
    using assms(1) p by (auto simp: handle_turn_def intro: committed_same split: option.splits sum.splits bool.splits)
  then show ?thesis
    using apply_prepared_committed [OF _ assms(2,3) p] assms(2) by (auto simp: keeps_def approval_history_same)
qed

lemma constrained:
  assumes "constrain_formal_offer x (Some oid) = Inr y"
  shows "dn_action y \<in> {DO_COUNTER, DO_REJECT}"
  using assms by (auto simp: constrain_formal_offer_def plain_decision_def checked_decision_def split: if_splits)

lemma formal_reply_outcome:
  assumes "formal_reply render outcome dn r = Inr t"
  shows "tr_outcome t \<in> {outcome, TO_SAFE_FAILURE}"
  using assms by (auto simp: formal_reply_def safe_failure_def turn_failure_def split: if_splits sum.splits)

lemma decided_by_rules:
  assumes "execute_decision E cx y product current d = Inr (t, d')"
    and "tr_outcome t \<in> {TO_OFFER_ACCEPTED, TO_NEEDS_SELLER_CONFIRMATION}"
  shows "dn_action y \<in> {DO_ACCEPT, DO_REQUEST_APPROVAL} \<and> current \<noteq> None"
proof (cases "dn_action y")
  case DO_COUNTER
  with assms formal_reply_outcome show ?thesis
    by (fastforce simp: execute_decision_def execute_counter_def result_simps split: option.splits)
next
  case DO_ACCEPT
  then show ?thesis
    using assms by (auto simp: execute_decision_def execute_accept_def safe_failure_def turn_failure_def split: if_splits option.splits)
next
  case DO_REQUEST_APPROVAL
  then show ?thesis
    using assms by (auto simp: execute_decision_def execute_approval_def safe_failure_def turn_failure_def split: if_splits option.splits)
qed (use assms answer_outcome in \<open>auto simp: execute_decision_def\<close>)

text \<open>
  C16: The model has no say in an acceptance: when a turn accepts an offer or asks the seller, it would have done exactly
  the same with any other answer of the model, since the rules had decided before the model was asked.
\<close>

theorem acceptance_independent_of_model:
  assumes "handle_turn E cx decide text history current d = Inr (t, d')"
    and "tr_outcome t \<in> {TO_OFFER_ACCEPTED, TO_NEEDS_SELLER_CONFIRMATION}"
  shows "handle_turn E cx decide' text history current d = Inr (t, d')"
proof -
  obtain p where p: "prepare_turn E cx text history current d = Inr p"
    using assms(1) by (auto simp: handle_turn_def ebind_eq_Inr)
  then have turn: "\<And>f. handle_turn E cx f text history current d =
      (case (requires_model p, pn_request p) of
         (True, Some q) \<Rightarrow>
           (case f q of
              Inl _ \<Rightarrow> Inr (\<lparr>tr_reply = ''could not be understood, please say it differently'', tr_outcome = TO_MODEL_ERROR,
                            tr_decision = None, tr_offer_id = None\<rparr>, d)
            | Inr dn \<Rightarrow> apply_prepared E cx p (Some dn) d)
       | _ \<Rightarrow> apply_prepared E cx p None d)"
    by (simp add: handle_turn_def)
  have "\<not> requires_model p"
  proof
    assume asks: "requires_model p"
    then obtain q where q: "pn_request p = Some q" and none: "pn_decision p = None" "pn_immediate p = None"
      by (auto simp: requires_model_def)
    have "\<exists>dn. apply_prepared E cx p (Some dn) d = Inr (t, d')"
      using assms(1,2) asks q by (auto simp: turn split: sum.splits)
    then obtain dn y where y: "constrain_formal_offer dn (dq_offer_id q) = Inr y"
      and step: "execute_decision E cx y (dq_product q) (dq_offer_id q) d = Inr (t, d')"
      using q none by (auto simp: apply_prepared_def ebind_eq_Inr)
    from decided_by_rules [OF step assms(2)] obtain oid where "dq_offer_id q = Some oid"
      and "dn_action y \<in> {DO_ACCEPT, DO_REQUEST_APPROVAL}" by auto
    with constrained [of dn oid y] y show False by auto
  qed
  with assms(1) show ?thesis by (simp add: turn)
qed

section \<open>Formal offers are decided by the rules\<close>

lemma cents_field_Inr: "cents_field (JStr (show_cents c)) = Inr x \<Longrightarrow> money_field_ok (Some c) \<and> x = c"
proof -
  assume h: "cents_field (JStr (show_cents c)) = Inr x"
  have "parse_decimal (show_cents c) = Some (Finite (c < 0) (nat \<bar>c\<bar>) (- 2))"
    using parse_hundredths [of "c < 0" "nat \<bar>c\<bar>"] by (simp add: show_cents_hundredths)
  with h show ?thesis by (auto simp: cents_field_def to_cents_def money_field_ok_def split: if_splits)
qed

lemma offer_args_Inr:
  assumes "offer_args (serialize_offer E off) = Inr a"
  shows "amounts_ok off \<and> a = args_of off"
proof -
  have "amounts_ok off"
    using assms unfolding offer_args_def
    by (cases "of_shipping_cost off")
      (auto simp: ebind_eq_Inr amounts_ok_def money_field_ok_def [of None] dest!: cents_field_Inr)
  with offer_args_serialized [OF this, of E] assms show ?thesis by simp
qed

lemma find_Some_set: "find P xs = Some x \<Longrightarrow> x \<in> set xs \<and> P x"
  by (induction xs) (auto split: if_splits)

lemma state_result_view:
  "current_offer_view (state_result E st) oid =
     (if st_current_offer_id st = Some oid
      then find (\<lambda>x. jget x ''id'' = JInt oid) (map (serialize_offer E) (st_recent_offers st)) else None)"
  by (cases "st_current_offer_id st") (simp_all add: current_offer_view_def state_result_def)

lemma state_view:
  assumes "get_state sid buyer d = Inr st" and "current_offer_view (state_result E st) oid = Some x"
    and "keys_ok (d_offers d)" and "offer_inv d"
  obtains n off where "get_session d sid = Some n" and "ns_buyer_id n = buyer" and "ns_current_offer_id n = Some oid"
    and "get_offer d oid = Some off" and "of_session_id off = sid" and "x = serialize_offer E off"
proof -
  obtain n pol where n: "get_session d sid = Some n" "ns_buyer_id n = buyer"
    and st: "st_current_offer_id st = ns_current_offer_id n"
      "st_recent_offers st = rev (take 10 (rev (filter (\<lambda>x. of_session_id x = ns_id n) (trows (d_offers d)))))"
    using assms(1) by (auto simp: get_state_def result_simps)
  have cur: "ns_current_offer_id n = Some oid"
    and found: "find (\<lambda>x. jget x ''id'' = JInt oid) (map (serialize_offer E) (st_recent_offers st)) = Some x"
    using assms(2) st(1) by (simp_all add: state_result_view del: jget.simps split: if_splits)
  obtain off where off: "off \<in> set (st_recent_offers st)" "x = serialize_offer E off" "of_id off = oid"
    using find_Some_set [OF found] by auto
  have "off \<in> set (filter (\<lambda>x. of_session_id x = ns_id n) (trows (d_offers d)))"
    using off(1) st(2) in_set_takeD [of off 10 "rev (filter (\<lambda>x. of_session_id x = ns_id n) (trows (d_offers d)))"] by simp
  then obtain k where "get_offer d k = Some off" and "of_session_id off = ns_id n"
    using assms(3) by (auto simp: trows_tget)
  moreover have "ns_id n = sid" using offer_inv_sessionD [OF assms(4) n(1)] by simp
  moreover have "k = oid" using offer_inv_offerD [OF assms(4) calculation(1)] off(3) by simp
  ultimately show thesis using that n cur off(2) by blast
qed

lemma tool_read_success:
  assumes "tool_read handler show_it r = Inr j" and "is_success j" and "\<And>e j. handler e = Inr j \<Longrightarrow> \<not> is_success j"
  obtains x where "r = Inr x" and "j = show_it x"
  using assms by (cases r) (auto simp: tool_read_def)

lemma evaluate_success:
  assumes "evaluate_offer_tool cx (args_of off) d = Inr ev" and "is_success ev"
  obtains n pol au where "get_session d (tc_session cx) = Some n" and "ns_status n = ACTIVE"
    and "get_policy d (ns_product_id n) = Some pol" and "authorize_stored_offer off pol = Inr au" and "ev = authorization_result au"
proof -
  have read: "tool_read tool_error_result authorization_result
       (ebind (to_domain (args_of off)) (\<lambda>t. preview_offer (tc_session cx) (tc_buyer cx) t (Some (of_terms off)) d)) = Inr ev"
    and ok: "amounts_ok off"
    using assms(1) by (auto simp: evaluate_offer_tool_def validated_args_def ebind_eq_Inr amounts_ok_def args_of_def split: if_splits)
  obtain au where "ebind (to_domain (args_of off)) (\<lambda>t. preview_offer (tc_session cx) (tc_buyer cx) t (Some (of_terms off)) d) = Inr au"
    and ev: "ev = authorization_result au"
    by (rule tool_read_success [OF read assms(2)]) (erule tool_error_InrE, erule (1) that)
  then obtain t n pol where t: "to_domain (args_of off) = Inr t" and n: "get_session d (tc_session cx) = Some n"
    "ns_status n = ACTIVE" "get_policy d (ns_product_id n) = Some pol" and au: "authorize_terms t pol (of_terms off) = Inr au"
    by (auto simp: preview_offer_def result_simps)
  have "terms_from_offer off = Inr t" using ok t by (simp add: terms_from_offer_iff)
  with au have "authorize_stored_offer off pol = Inr au" by (simp add: authorize_stored_offer_def)
  with that n ev show thesis by blast
qed

lemma with_authorization_Inr:
  assumes "with_authorization cx r (Some oid) d = Inr (Some c)"
  obtains x a ev kvs where "current_offer_view r oid = Some x" and "jget x ''proposer'' = JStr ''BUYER''"
    and "offer_args x = Inr a" and "evaluate_offer_tool cx a d = Inr ev" and "is_success ev"
    and "jget ev ''authorization'' = JObj kvs" and "c = jset r ''current_offer_authorization'' (JObj kvs)"
proof -
  have "\<exists>x. current_offer_view r oid = Some x \<and> jget x ''proposer'' = JStr ''BUYER''"
    using assms by (auto simp: with_authorization_def split: option.splits if_splits)
  then obtain x where x: "current_offer_view r oid = Some x" "jget x ''proposer'' = JStr ''BUYER''" by blast
  with assms have "ebind (offer_args x) (\<lambda>a. ebind (evaluate_offer_tool cx a d) (\<lambda>ev.
               case (is_success ev, jget ev ''authorization'') of
                 (True, JObj kvs) \<Rightarrow> Inr (Some (jset r ''current_offer_authorization'' (JObj kvs)))
               | _ \<Rightarrow> Inr None)) = Inr (Some c)"
    by (simp add: with_authorization_def)
  then obtain a ev where a: "offer_args x = Inr a" "evaluate_offer_tool cx a d = Inr ev"
    and last: "(case (is_success ev, jget ev ''authorization'') of
                 (True, JObj kvs) \<Rightarrow> Inr (Some (jset r ''current_offer_authorization'' (JObj kvs)))
               | _ \<Rightarrow> Inr None) = (Inr (Some c) :: exn + json option)"
    by (auto simp: ebind_eq_Inr)
  then have s: "is_success ev" by (cases "is_success ev") auto
  with last obtain kvs where kvs: "jget ev ''authorization'' = JObj kvs" "c = jset r ''current_offer_authorization'' (JObj kvs)"
    by (auto split: json.splits)
  show thesis by (rule that [OF x a s kvs])
qed

lemma resolve_authorized:
  assumes "resolve_authorized_offer j (Some oid) = Inr r"
    and "jget j ''can_accept_automatically'' = JBool b" and "jget j ''can_request_approval'' = JBool b'"
  shows "case r of None \<Rightarrow> \<not> b \<and> \<not> b'
    | Some dn \<Rightarrow> dn_offer_id dn = Some oid \<and> (if b then dn_action dn = DO_ACCEPT else b' \<and> dn_action dn = DO_REQUEST_APPROVAL)"
  using assms
  by (auto simp: resolve_authorized_offer_def plain_decision_def checked_decision_def ebind_eq_Inr split: if_splits)

text \<open>
  C15: A formal offer is put to the rules before it is put to the model: when the turn is prepared for the buyer's current
  offer, the decision is to accept it exactly when the seller's policy accepts the stored offer, to ask the seller exactly
  when the policy wants that, and only otherwise the model is asked. The figures survive their way through the texts of
  the tools' results.
\<close>

theorem rules_decide:
  assumes "prepare_turn E cx text history (Some oid) d = Inr p" and "pn_immediate p = None"
    and "offer_inv d" and "keys_ok (d_offers d)"
  shows "\<exists>n off pol au. get_session d (tc_session cx) = Some n \<and> ns_status n = ACTIVE \<and> ns_current_offer_id n = Some oid
    \<and> get_offer d oid = Some off \<and> of_proposer off = BUYER \<and> get_policy d (ns_product_id n) = Some pol
    \<and> authorize_stored_offer off pol = Inr au
    \<and> (case pn_decision p of
         None \<Rightarrow> \<not> au_can_accept au \<and> \<not> au_can_request_approval au \<and> requires_model p
       | Some dn \<Rightarrow> dn_offer_id dn = Some oid
           \<and> (if au_can_accept au then dn_action dn = DO_ACCEPT
              else au_can_request_approval au \<and> dn_action dn = DO_REQUEST_APPROVAL))"
  using assms(1)
proof (cases rule: prepare_cases)
  case (failed reply)
  then show ?thesis using assms(2) by (simp add: immediate_def)
next
  case (formal oid1 product negotiation cxt kvs dn)
  have oid: "oid1 = oid" using formal(1) by simp
  obtain st where st: "get_state (tc_session cx) (tc_buyer cx) d = Inr st" and r: "negotiation = state_result E st"
    by (rule tool_read_success [OF formal(3) [unfolded get_negotiation_state_def] formal(4)])
      (erule service_error_InrE, erule (1) that)
  obtain x a ev kvs' where view: "current_offer_view (state_result E st) oid = Some x" "jget x ''proposer'' = JStr ''BUYER''"
    "offer_args x = Inr a" "evaluate_offer_tool cx a d = Inr ev" "is_success ev" "jget ev ''authorization'' = JObj kvs'"
    and cxt: "cxt = jset (state_result E st) ''current_offer_authorization'' (JObj kvs')"
    by (rule with_authorization_Inr [OF formal(5) [unfolded r]])
  obtain n off where n: "get_session d (tc_session cx) = Some n" "ns_current_offer_id n = Some oid"
    and off: "get_offer d oid = Some off" and x: "x = serialize_offer E off"
    by (rule state_view [OF st view(1) assms(4,3)])
  have buyer: "of_proposer off = BUYER" using view(2) by (cases "of_proposer off") (simp_all add: x del: jget.simps)
  have a: "a = args_of off" using offer_args_Inr [of E off a] view(3) by (simp add: x)
  obtain n' pol au where ev: "get_session d (tc_session cx) = Some n'" "ns_status n' = ACTIVE"
    "get_policy d (ns_product_id n') = Some pol" "authorize_stored_offer off pol = Inr au" "ev = authorization_result au"
    by (rule evaluate_success [OF view(4) [unfolded a] view(5)])
  have "kvs = kvs'" using formal(6) by (simp add: cxt state_result_def)
  then have flags: "jget (JObj kvs) ''can_accept_automatically'' = JBool (au_can_accept au)"
    "jget (JObj kvs) ''can_request_approval'' = JBool (au_can_request_approval au)"
    using view(6) by (auto simp: ev(5) authorization_result_def)
  have "resolve_authorized_offer (JObj kvs) (Some oid) = Inr dn" using formal(7) by simp
  from resolve_authorized [OF this flags] show ?thesis
    using n off buyer ev(1-4) by (auto simp: formal(8) requires_model_def split: option.splits)
qed simp

section \<open>The properties on a negotiation\<close>

definition sample_env :: agent_env where
  "sample_env = \<lparr>ae_iso = (\<lambda>t. show_int t), ae_created = show_int, ae_now = 0, ae_now2 = 0, ae_now3 = 0, ae_safe = (\<lambda>s j. False)\<rparr>"

definition sample_cx :: tool_context where
  "sample_cx = \<lparr>tc_session = 1, tc_buyer = ''buyer'', tc_offer = Some 1\<rparr>"

definition sample_state :: negotiation_state where
  "sample_state = \<lparr>st_id = 1, st_product_id = 1, st_status = ACTIVE, st_current_offer_id = Some 1, st_confirmed_offer_id = None,
     st_confirmed_at = None, st_confirmation_source = None, st_round_count = 1, st_version = 2, st_policy_version = 1,
     st_negotiation_style = BALANCED, st_max_rounds = 5, st_recent_offers = [sample_offer 16000 PROPOSED]\<rparr>"

lemma sample_offered_rows:
  "get_session (sample_offered 16000) 1 = Some \<lparr>ns_id = 1, ns_product_id = 1, ns_buyer_id = ''buyer'',
      ns_status = ACTIVE, ns_current_offer_id = Some 1, ns_confirmed_offer_id = None,
      ns_confirmed_at = None, ns_confirmation_request_id = None, ns_confirmation_source = None,
      ns_round_count = 1, ns_version = 2, ns_graph_version = None, ns_archived_at = None,
      ns_lifecycle_checked_at = None, ns_next_input_seq = 1, ns_last_resolved_input_seq = 0,
      ns_next_public_seq = 1\<rparr>"
  "get_policy (sample_offered 16000) 1 = Some sample_policy" "d_offers (sample_offered 16000) = [(1, sample_offer 16000 PROPOSED)]"
  "d_approvals (sample_offered 16000) = []" "d_next_approval (sample_offered 16000) = 1" "d_next_offer (sample_offered 16000) = 2"
  "\<exists>p. get_product (sample_offered 16000) 1 = Some p \<and> p_status p = AVAILABLE"
  by (simp_all add: sample_offered_def sample_session_eq sample_db_def empty_db_def)

lemma sample_get_state: "get_state 1 ''buyer'' (sample_offered 16000) = Inr sample_state"
  by (simp add: get_state_def get_negotiation_def policy_for_def sample_offered_rows sample_state_def trows_def
      sample_policy_def)

lemma sample_ids: "ids_positive (sample_offered 16000)"
  by (simp add: ids_positive_def sample_offered_rows)

lemma sample_view: "current_offer_view (state_result sample_env sample_state) 1 = Some (serialize_offer sample_env (sample_offer 16000 PROPOSED))"
  by (simp add: state_result_view sample_state_def del: jget.simps)

lemma sample_amounts: "amounts_ok (sample_offer 16000 PROPOSED)"
  by (simp add: amounts_ok_def money_field_ok_def sample_offer_def MAX_MONEY_def)

lemma sample_evaluate:
  "evaluate_offer_tool sample_cx (args_of (sample_offer 16000 PROPOSED)) (sample_offered 16000)
     = Inr (authorization_result (sample_authorization 16000))"
proof -
  have "to_domain (args_of (sample_offer 16000 PROPOSED)) = Inr (sample_terms 16000)"
    by (simp add: to_domain_def args_of_def sample_offer_def mk_terms_def validate_optional_def MAX_MONEY_def sample_terms_def)
  moreover have "validated_args (args_of (sample_offer 16000 PROPOSED)) = Inr (args_of (sample_offer 16000 PROPOSED))"
    using sample_amounts by (simp add: validated_args_def args_of_def amounts_ok_def)
  moreover have "preview_offer 1 ''buyer'' (sample_terms 16000) (Some []) (sample_offered 16000) = Inr (sample_authorization 16000)"
    using sample_offered_rows(7)
    by (auto simp: preview_offer_def get_negotiation_def require_negotiable_def policy_for_def sample_offered_rows(1,2) sample_authorized)
  ultimately show ?thesis
    by (simp add: evaluate_offer_tool_def tool_read_def args_of_def sample_cx_def) (simp add: sample_offer_def)
qed

lemma sample_prepare:
  "\<exists>p dn. prepare_turn sample_env sample_cx ''ok'' [] (Some 1) (sample_offered 16000) = Inr p \<and> pn_immediate p = None
     \<and> pn_decision p = Some dn \<and> dn_action dn = DO_ACCEPT \<and> dn_offer_id dn = Some 1 \<and> (\<exists>q. pn_request p = Some q \<and> dq_offer_id q = Some 1)"
proof -
  have product: "\<exists>j. get_product_info sample_cx (sample_offered 16000) = Inr j \<and> is_success j"
    using sample_offered_rows(7)
    by (auto simp: get_product_info_def tool_read_def get_for_negotiation_def sample_offered_rows(1) sample_cx_def product_result_def is_success_def)
  have state: "get_negotiation_state sample_env sample_cx (sample_offered 16000) = Inr (state_result sample_env sample_state)"
    by (simp add: get_negotiation_state_def tool_read_def sample_get_state sample_cx_def)
  have flags: "au_can_accept (sample_authorization 16000)" by (simp add: sample_authorization_def zone_of_def)
  have proposer: "jget (serialize_offer sample_env (sample_offer 16000 PROPOSED)) ''proposer'' = JStr ''BUYER''"
    by (simp del: jget.simps)
  obtain kvs where kvs: "jget (authorization_result (sample_authorization 16000)) ''authorization'' = JObj kvs"
    "jget (JObj kvs) ''can_accept_automatically'' = JBool True" "is_success (authorization_result (sample_authorization 16000))"
    using flags by (simp add: authorization_result_def is_success_def)
  have "with_authorization sample_cx (state_result sample_env sample_state) (Some 1) (sample_offered 16000)
      = Inr (Some (jset (state_result sample_env sample_state) ''current_offer_authorization'' (JObj kvs)))"
    using kvs proposer by (simp add: with_authorization_def sample_view offer_args_serialized sample_amounts sample_evaluate del: jget.simps)
  moreover have "jget (jset (state_result sample_env sample_state) ''current_offer_authorization'' (JObj kvs)) ''current_offer_authorization'' = JObj kvs"
    by (simp add: state_result_def)
  moreover have "is_success (state_result sample_env sample_state)" by (simp add: state_result_def is_success_def)
  moreover obtain dn where "resolve_authorized_offer (JObj kvs) (Some 1) = Inr (Some dn)" and "dn_action dn = DO_ACCEPT" and "dn_offer_id dn = Some 1"
    using kvs(2) by (auto simp: resolve_authorized_offer_def plain_decision_def checked_decision_def decision_ok_def money_field_ok_def action_fields_ok_def)
  moreover have "strip ''ok'' = ''ok''" by (simp add: strip_def is_space_def Let_def)
  ultimately show ?thesis
    using product state by (auto simp: prepare_turn_def prepared_context_def prepared_request_def Let_def)
qed

lemma sample_turn:
  "\<exists>t d'. handle_turn sample_env sample_cx decide ''ok'' [] (Some 1) (sample_offered 16000) = Inr (t, d') \<and> tr_outcome t = TO_OFFER_ACCEPTED"
proof -
  obtain p dn q where p: "prepare_turn sample_env sample_cx ''ok'' [] (Some 1) (sample_offered 16000) = Inr p" "pn_immediate p = None"
    "pn_decision p = Some dn" and dn: "dn_action dn = DO_ACCEPT" "dn_offer_id dn = Some 1" and q: "pn_request p = Some q" "dq_offer_id q = Some 1"
    using sample_prepare by blast
  obtain d' where acc: "accept_offer 0 1 ''buyer'' 1 (sample_offered 16000) = Inr (sample_offer 16000 ACCEPTED, d')"
    using sample_accept by blast
  obtain reply where "formal_reply render_accepted_offer TO_OFFER_ACCEPTED dn (formal_result sample_env (sample_offer 16000 ACCEPTED))
      = Inr \<lparr>tr_reply = reply, tr_outcome = TO_OFFER_ACCEPTED, tr_decision = Some dn, tr_offer_id = Some (of_id (sample_offer 16000 ACCEPTED))\<rparr>"
    by (rule formal_reply_rendered [OF _ _ _ _ _ render_accepted_eq, of "sample_offer 16000 ACCEPTED" TO_OFFER_ACCEPTED dn sample_env])
      (simp_all add: amounts_ok_def money_field_ok_def sample_offer_def MAX_MONEY_def additional_terms_are_authorized_def)
  then have "execute_decision sample_env sample_cx dn (dq_product q) (Some 1) (sample_offered 16000) =
      Inr (\<lparr>tr_reply = reply, tr_outcome = TO_OFFER_ACCEPTED, tr_decision = Some dn, tr_offer_id = Some 1\<rparr>, d')"
    using acc dn by (simp add: execute_decision_def execute_accept_def accept_offer_tool_def tool_write_def sample_env_def sample_cx_def)
  then show ?thesis
    using p q by (simp add: handle_turn_def requires_model_def apply_prepared_def)
qed

theorem agent_turn_sound_witness:
  "\<exists>t d'. handle_turn sample_env sample_cx (\<lambda>q. Inl TimeoutFailure) ''ok'' [] (Some 1) (sample_offered 16000) = Inr (t, d')
     \<and> get_offer d' 1 = Some (sample_offer 16000 ACCEPTED)"
proof -
  obtain t d' where t: "handle_turn sample_env sample_cx (\<lambda>q. Inl TimeoutFailure) ''ok'' [] (Some 1) (sample_offered 16000) = Inr (t, d')"
    "tr_outcome t = TO_OFFER_ACCEPTED" using sample_turn by blast
  from agent_turn_sound [OF t(1) sample_offered_legacy sample_ids] t show ?thesis
    by (auto simp: committed_def sample_offered_rows)
qed

theorem acceptance_independent_of_model_witness:
  "\<exists>t d'. handle_turn sample_env sample_cx (\<lambda>q. Inl TimeoutFailure) ''ok'' [] (Some 1) (sample_offered 16000) = Inr (t, d')
     \<and> handle_turn sample_env sample_cx (\<lambda>q. Inl RateLimitFailure) ''ok'' [] (Some 1) (sample_offered 16000) = Inr (t, d')"
proof -
  obtain t d' where t: "handle_turn sample_env sample_cx (\<lambda>q. Inl TimeoutFailure) ''ok'' [] (Some 1) (sample_offered 16000) = Inr (t, d')"
    "tr_outcome t = TO_OFFER_ACCEPTED" using sample_turn by blast
  with acceptance_independent_of_model [OF t(1)] show ?thesis by blast
qed

theorem rules_decide_witness:
  "\<exists>p dn. prepare_turn sample_env sample_cx ''ok'' [] (Some 1) (sample_offered 16000) = Inr p
     \<and> pn_decision p = Some dn \<and> dn_action dn = DO_ACCEPT"
proof -
  obtain p dn where p: "prepare_turn sample_env sample_cx ''ok'' [] (Some 1) (sample_offered 16000) = Inr p" "pn_immediate p = None"
    "pn_decision p = Some dn" "dn_action dn = DO_ACCEPT" using sample_prepare by blast
  have "keys_ok (d_offers (sample_offered 16000))" by (simp add: sample_offered_rows keys_ok_def)
  from rules_decide [OF p(1,2) sample_offered_inv this] p show ?thesis by auto
qed

end
