(* ===== verification/Chat.thy ===== *)
theory Chat
  imports Agent Intent
begin

text \<open>
  \<open>backend/app/services/chat_service.py\<close>: the buyer's messages in the earlier runtime. A message is stored together with
  its formal offer; what the rules decide is answered in the same transaction, everything else becomes a persistent task
  whose model call runs outside any transaction and whose answer is applied only to the facts it was asked for.

  \<open>H\<close> is the digest of a canonical JSON text. The environments give the readings of the clock, the fresh identifiers, the
  answer of the language model (\<open>re_answer\<close>) and, as \<open>ce_digest\<close>, the digest of a request identifier. A snapshot of a
  message is its row. The branch for the V4 runtime (\<open>agent_config\<close>), which \<open>AGENT_RUNTIME\<close> switches off by default, the
  transcript of the language model and observability events are left out, and the wording is given by English tags.
\<close>

section \<open>Requests\<close>

record offer_submission =
  sb_price :: decimal
  sb_payer :: payer
  sb_cost :: "decimal option"
  sb_delivery :: "string option"

definition submission_terms :: "offer_submission \<Rightarrow> exn + offer_terms" where
  \<comment> \<open>\<open>to_terms\<close>\<close>
  "submission_terms s = lift_err PricingExn
     (mk_terms (DecimalArg (sb_price s)) (Some (sb_payer s)) (map_option DecimalArg (sb_cost s)) (Some (dec_of_cents 0)))"

definition submission_extra :: "offer_submission \<Rightarrow> extra_terms" where
  \<comment> \<open>\<open>additional_terms\<close>\<close>
  "submission_extra s = (case sb_delivery s of None \<Rightarrow> [] | Some m \<Rightarrow> [(''delivery_method'', JStr m)])"

fun fixed2 :: "decimal \<Rightarrow> string" where
  \<comment> \<open>\<open>format(x, ".2f")\<close>\<close>
  "fixed2 (Finite neg c e) = (if neg then ''-'' else []) @ show_cents (to_cents c e)"
| "fixed2 (Infinite neg) = (if neg then ''-'' else []) @ ''Infinity''"
| "fixed2 NaN = ''NaN''"

definition request_fingerprint :: "(json \<Rightarrow> string) \<Rightarrow> string \<Rightarrow> offer_submission option \<Rightarrow> string" where
  "request_fingerprint H content offer = H (JObj
     [(''content'', JStr content),
      (''offer'', case offer of None \<Rightarrow> JNull | Some s \<Rightarrow> JObj
         [(''delivery_method'', jopt JStr (sb_delivery s)), (''price'', JStr (fixed2 (sb_price s))),
          (''shipping_cost'', jopt (\<lambda>c. JStr (fixed2 c)) (sb_cost s)), (''shipping_paid_by'', JStr (show_payer (sb_payer s)))])])"

definition reply_request_id :: "string \<Rightarrow> string" where
  "reply_request_id rid = rid @ '':agent''"

definition task_business_key :: "(string \<Rightarrow> string) \<Rightarrow> int \<Rightarrow> string \<Rightarrow> string" where
  "task_business_key digest sid rid = ''chat:'' @ show_int sid @ '':'' @ take 32 (digest rid)"

fun role_text :: "message_role \<Rightarrow> string" where
  "role_text BUYER_MESSAGE = ''BUYER''"
| "role_text AGENT_MESSAGE = ''AGENT''"
| "role_text SYSTEM_MESSAGE = ''SYSTEM''"

definition recent_history :: "db \<Rightarrow> int \<Rightarrow> (string \<times> string) list" where
  \<comment> \<open>the last twenty messages, in their order\<close>
  "recent_history d sid =
     (let ms = filter (\<lambda>m. ms_session_id m = sid) (trows (d_messages d)) in
      map (\<lambda>m. (role_text (ms_role m), ms_content m)) (rev (take 20 (rev ms))))"

definition active_chat :: "int \<Rightarrow> task \<Rightarrow> bool" where
  "active_chat sid t \<longleftrightarrow> t_session_id t = sid \<and> t_type t = CHAT_DECISION \<and> t_status t \<in> {T_PENDING, T_RUNNING, T_RETRY_WAIT}"

definition has_active_chat_task :: "db \<Rightarrow> int \<Rightarrow> bool" where
  "has_active_chat_task d sid \<longleftrightarrow> list_ex (active_chat sid) (trows (d_tasks d))"

record chat_turn =
  ct_buyer :: message
  ct_agent :: message
  ct_outcome :: string
  ct_offer_id :: "int option"
  ct_replay :: bool

record pending_turn =
  pt_session :: int
  pt_buyer :: message
  pt_task :: int
  pt_replay :: bool

datatype prepared_turn = Answered chat_turn | Awaiting pending_turn

definition turn_snapshot :: "message \<Rightarrow> message \<Rightarrow> chat_turn" where
  \<comment> \<open>a stored turn, replayed\<close>
  "turn_snapshot buyer reply =
     \<lparr>ct_buyer = buyer, ct_agent = reply,
      ct_outcome = (case ms_agent_outcome reply of None \<Rightarrow> ''IDEMPOTENT_REPLAY''
                    | Some s \<Rightarrow> if s = [] then ''IDEMPOTENT_REPLAY'' else s),
      ct_offer_id = ms_formal_offer_id reply, ct_replay = True\<rparr>"

definition persist_result :: "int \<Rightarrow> message \<Rightarrow> string \<Rightarrow> turn_result \<Rightarrow> bool \<Rightarrow> db \<Rightarrow> exn + chat_turn \<times> db" where
  "persist_result sid buyer key r replay d =
     ebind (post_message sid AGENT_MESSAGE (tr_reply r) key None (Some (turn_outcome_text (tr_outcome r))) (tr_offer_id r) d) (\<lambda>(m, d').
     Inr (\<lparr>ct_buyer = buyer, ct_agent = m, ct_outcome = turn_outcome_text (tr_outcome r), ct_offer_id = tr_offer_id r,
           ct_replay = replay\<rparr>, d'))"

section \<open>The snapshot of a task\<close>

abbreviation incomplete :: exn where
  "incomplete \<equiv> ServiceExn IncompleteRequest"

abbreviation message_conflict :: exn where
  "message_conflict \<equiv> ServiceExn MessageConflict"

definition serialize_chat_input :: "int \<Rightarrow> string \<Rightarrow> decision_request \<Rightarrow> json" where
  \<comment> \<open>\<open>_serialize_task_input\<close>\<close>
  "serialize_chat_input mid key q = JObj
     [(''buyer_message_id'', JInt mid), (''reply_request_id'', JStr key),
      (''decision_request'', JObj
        [(''buyer_message'', JStr (dq_message q)), (''product_context'', dq_product q),
         (''negotiation_context'', dq_negotiation q),
         (''conversation_history'', JArr (map (\<lambda>(r, c). JObj [(''role'', JStr r), (''content'', JStr c)]) (dq_history q))),
         (''current_turn_offer_id'', jopt JInt (dq_offer_id q))])]"

fun read_history :: "json list \<Rightarrow> exn + (string \<times> string) list" where
  "read_history [] = Inr []"
| "read_history (x # xs) =
     (case (jget x ''role'', jget x ''content'') of
        (JStr r, JStr c) \<Rightarrow> ebind (read_history xs) (\<lambda>hs. Inr ((r, c) # hs))
      | _ \<Rightarrow> Inl incomplete)"

fun optional_id :: "json \<Rightarrow> exn + int option" where
  "optional_id JNull = Inr None"
| "optional_id (JInt k) = Inr (Some k)"
| "optional_id _ = Inl incomplete"

definition deserialize_request :: "json \<Rightarrow> exn + decision_request" where
  "deserialize_request snapshot =
     (case jget snapshot ''decision_request'' of
        JObj raw \<Rightarrow>
          (case (jget (JObj raw) ''buyer_message'', jget (JObj raw) ''product_context'', jget (JObj raw) ''negotiation_context'',
                 case map_of raw ''conversation_history'' of None \<Rightarrow> JArr [] | Some v \<Rightarrow> v) of
             (JStr message, JObj p, JObj n, JArr hs) \<Rightarrow>
               ebind (read_history hs) (\<lambda>history.
               ebind (optional_id (jget (JObj raw) ''current_turn_offer_id'')) (\<lambda>current.
               Inr \<lparr>dq_message = message, dq_product = JObj p, dq_negotiation = JObj n, dq_history = history,
                    dq_offer_id = current\<rparr>))
           | _ \<Rightarrow> Inl incomplete)
      | _ \<Rightarrow> Inl incomplete)"

definition context_offer_id :: "decision_request \<Rightarrow> exn + int option" where
  \<comment> \<open>\<open>_context_current_offer_id\<close>\<close>
  "context_offer_id q =
     (case jget (dq_negotiation q) ''negotiation'' of
        JObj kvs \<Rightarrow> optional_id (jget (JObj kvs) ''current_offer_id'')
      | _ \<Rightarrow> Inl incomplete)"

definition task_reply_key :: "json \<Rightarrow> exn + string" where
  "task_reply_key snapshot =
     (case jget snapshot ''reply_request_id'' of JStr s \<Rightarrow> if s = [] then Inl incomplete else Inr s | _ \<Rightarrow> Inl incomplete)"

fun action_text :: "negotiation_action \<Rightarrow> string" where
  "action_text DO_INQUIRY = ''INQUIRY''"
| "action_text DO_ACCEPT = ''ACCEPT''"
| "action_text DO_COUNTER = ''COUNTER''"
| "action_text DO_REJECT = ''REJECT''"
| "action_text DO_REQUEST_APPROVAL = ''REQUEST_APPROVAL''"

fun act_kind_text :: "act_kind \<Rightarrow> string" where
  "act_kind_text ASK_FACT = ''ASK_FACT''"
| "act_kind_text ASK_PRIVATE_INFO = ''ASK_PRIVATE_INFO''"
| "act_kind_text REQUEST_TERM = ''REQUEST_TERM''"
| "act_kind_text REQUEST_COMMITMENT = ''REQUEST_COMMITMENT''"
| "act_kind_text GENERAL_ACT = ''GENERAL''"
| "act_kind_text UNKNOWN_ACT = ''UNKNOWN''"

fun act_subject_text :: "act_subject \<Rightarrow> string" where
  "act_subject_text PRODUCT_DETAILS = ''PRODUCT_DETAILS''"
| "act_subject_text LISTED_PRICE = ''LISTED_PRICE''"
| "act_subject_text PRICE_FLOOR = ''PRICE_FLOOR''"
| "act_subject_text OFFER_PRICE = ''OFFER_PRICE''"
| "act_subject_text PRICE_NEGOTIATION = ''PRICE_NEGOTIATION''"
| "act_subject_text AVAILABILITY = ''AVAILABILITY''"
| "act_subject_text SHIPPING_PAYER = ''SHIPPING_PAYER''"
| "act_subject_text SHIPPING_COST = ''SHIPPING_COST''"
| "act_subject_text DELIVERY_METHOD = ''DELIVERY_METHOD''"
| "act_subject_text DISPATCH_DEADLINE = ''DISPATCH_DEADLINE''"
| "act_subject_text RESERVATION = ''RESERVATION''"
| "act_subject_text GENERAL_SUBJECT = ''GENERAL''"
| "act_subject_text OTHER_SUBJECT = ''OTHER''"

definition decision_json :: "decision \<Rightarrow> json" where
  \<comment> \<open>\<open>model_dump(mode="json")\<close>; an amount is written with two decimals\<close>
  "decision_json dn = JObj
     [(''action'', JStr (action_text (dn_action dn))),
      (''dialogue_acts'', JArr (map (\<lambda>a. JObj [(''kind'', JStr (act_kind_text (da_kind a))),
         (''subject'', JStr (act_subject_text (da_subject a))), (''requested_value'', jopt JStr (da_requested a))]) (dn_acts dn))),
      (''offer_id'', jopt JInt (dn_offer_id dn)), (''proposed_price'', jopt (\<lambda>c. JStr (show_cents c)) (dn_price dn)),
      (''shipping_paid_by'', jopt (\<lambda>p. JStr (show_payer p)) (dn_payer dn)),
      (''shipping_cost'', jopt (\<lambda>c. JStr (show_cents c)) (dn_cost dn)),
      (''seller_borne_discount'', jopt (\<lambda>c. JStr (show_cents c)) (dn_discount dn)),
      (''additional_terms'', JObj (dn_terms dn)), (''reason'', JStr (dn_reason dn)), (''reply'', JStr (dn_reply dn))]"

section \<open>Preparing a turn\<close>

record chat_env =
  ce_agent :: agent_env
  ce_cancel_at :: time
  ce_offer_at :: time
  ce_observed :: "string option" \<comment> \<open>the correlation identifier of the caller\<close>
  ce_fresh :: string
  ce_digest :: "string \<Rightarrow> string"

definition submit_offer :: "chat_env \<Rightarrow> session \<Rightarrow> int \<Rightarrow> string \<Rightarrow> offer_submission option \<Rightarrow> db \<Rightarrow> exn + int option \<times> db" where
  "submit_offer E n sid buyer offer d =
     (case offer of
        None \<Rightarrow> Inr (None, d)
      | Some s \<Rightarrow>
          ebind (if ns_status n = WAITING_APPROVAL
                 then ebind (cancel_pending_for_new_offer (ce_cancel_at E) sid buyer d) (\<lambda>(_, d1). Inr d1)
                 else Inr d) (\<lambda>d1.
          ebind (submission_terms s) (\<lambda>t.
          ebind (record_buyer_offer (ce_offer_at E) sid buyer t (Some (submission_extra s)) None d1) (\<lambda>(off, d2).
          Inr (Some (of_id off), d2)))))"

definition chat_task_request :: "(string \<Rightarrow> string) \<Rightarrow> retry_policy \<Rightarrow> int \<Rightarrow> string \<Rightarrow> int option \<Rightarrow> json \<Rightarrow> task_request" where
  "chat_task_request digest p sid rid offer input =
     \<lparr>tq_type = CHAT_DECISION, tq_key = task_business_key digest sid rid, tq_session = sid, tq_input = input, tq_offer = offer,
      tq_approval = None, tq_schema_version = 1, tq_max_attempts = rp_max_attempts p\<rparr>"

definition resume_existing :: "chat_env \<Rightarrow> message \<Rightarrow> string \<Rightarrow> string \<Rightarrow> db \<Rightarrow> exn + prepared_turn" where
  "resume_existing E buyer key fingerprint d =
     (if ms_role buyer \<noteq> BUYER_MESSAGE \<or> ms_request_fingerprint buyer \<noteq> Some fingerprint then Inl message_conflict
      else case message_by_request_id d (ms_session_id buyer) key of
        Some reply \<Rightarrow> if ms_role reply \<noteq> AGENT_MESSAGE then Inl message_conflict else Inr (Answered (turn_snapshot buyer reply))
      | None \<Rightarrow>
          (case task_of_key d CHAT_DECISION (task_business_key (ce_digest E) (ms_session_id buyer) (ms_request_id buyer)) of
             None \<Rightarrow> Inl incomplete
           | Some t \<Rightarrow> Inr (Awaiting
               \<lparr>pt_session = ms_session_id buyer, pt_buyer = buyer, pt_task = t_id t, pt_replay = True\<rparr>)))"

definition ask_model ::
    "(json \<Rightarrow> string) \<Rightarrow> retry_policy \<Rightarrow> chat_env \<Rightarrow> int \<Rightarrow> string \<Rightarrow> message \<Rightarrow> decision_request \<Rightarrow> db \<Rightarrow>
     exn + prepared_turn \<times> db" where
  \<comment> \<open>the end of \<open>_prepare_turn\<close>, when the model is needed\<close>
  "ask_model H p E sid rid buyer_message q d =
     ebind (context_offer_id q) (\<lambda>current.
     ebind (create_task_in_transaction H None (ce_observed E) (ce_fresh E)
         (chat_task_request (ce_digest E) p sid rid current (serialize_chat_input (ms_id buyer_message) (reply_request_id rid) q)) d)
       (\<lambda>((t, _), d').
     Inr (Awaiting \<lparr>pt_session = sid, pt_buyer = buyer_message, pt_task = t_id t, pt_replay = False\<rparr>, d')))"

definition decide_turn ::
    "(json \<Rightarrow> string) \<Rightarrow> retry_policy \<Rightarrow> chat_env \<Rightarrow> tool_context \<Rightarrow> string \<Rightarrow> string \<Rightarrow> (string \<times> string) list \<Rightarrow> message \<Rightarrow>
     db \<Rightarrow> exn + prepared_turn \<times> db" where
  \<comment> \<open>the rest of \<open>_prepare_turn\<close>, once the message is stored\<close>
  "decide_turn H p E cx rid content history buyer_message d =
     ebind (prepare_turn (ce_agent E) cx content history (tc_offer cx) d) (\<lambda>prep.
     case (requires_model prep, pn_request prep) of
       (True, Some q) \<Rightarrow> ask_model H p E (tc_session cx) rid buyer_message q d
     | _ \<Rightarrow>
         ebind (apply_prepared (ce_agent E) cx prep None d) (\<lambda>(r, d1).
         ebind (persist_result (tc_session cx) buyer_message (reply_request_id rid) r False d1) (\<lambda>(turn, d2).
         Inr (Answered turn, d2))))"

definition fresh_turn ::
    "(json \<Rightarrow> string) \<Rightarrow> retry_policy \<Rightarrow> chat_env \<Rightarrow> session \<Rightarrow> int \<Rightarrow> string \<Rightarrow> string \<Rightarrow> string \<Rightarrow> offer_submission option \<Rightarrow>
     db \<Rightarrow> exn + prepared_turn \<times> db" where
  \<comment> \<open>\<open>_prepare_turn\<close> for a new request\<close>
  "fresh_turn H p E n sid buyer rid content offer d =
     (if ns_status n \<in> {AGREED, CLOSED} then Inl message_conflict
      else if has_active_chat_task d sid then Inl incomplete
      else
      ebind (submit_offer E n sid buyer offer d) (\<lambda>(oid, d1).
      ebind (post_message sid BUYER_MESSAGE content rid (Some (request_fingerprint H content offer)) None oid d1) (\<lambda>(m, d2).
      decide_turn H p E \<lparr>tc_session = sid, tc_buyer = buyer, tc_offer = oid\<rparr> rid content (recent_history d sid) m d2)))"

definition prepare_chat ::
    "(json \<Rightarrow> string) \<Rightarrow> retry_policy \<Rightarrow> chat_env \<Rightarrow> int \<Rightarrow> string \<Rightarrow> string \<Rightarrow> string \<Rightarrow> offer_submission option \<Rightarrow> db \<Rightarrow>
     exn + prepared_turn \<times> db" where
  "prepare_chat H p E sid buyer rid content offer d =
     ebind (get_negotiation d sid buyer True) (\<lambda>n.
     case message_by_request_id d sid rid of
       Some m \<Rightarrow> ebind (resume_existing E m (reply_request_id rid) (request_fingerprint H content offer) d) (\<lambda>r. Inr (r, d))
     | None \<Rightarrow> fresh_turn H p E n sid buyer rid content offer d)"

definition list_messages :: "db \<Rightarrow> int \<Rightarrow> string \<Rightarrow> int \<Rightarrow> nat \<Rightarrow> exn + message list" where
  "list_messages d sid buyer after_id limit =
     ebind (get_negotiation d sid buyer False) (\<lambda>_.
     Inr (take limit (filter (\<lambda>m. ms_session_id m = sid \<and> after_id < ms_id m) (trows (d_messages d)))))"

section \<open>Applying an answer\<close>

definition product_facts :: "product \<Rightarrow> (string \<times> json) list" where
  \<comment> \<open>\<open>current_product\<close> of \<open>_stale_reason\<close>\<close>
  "product_facts p =
     [(''id'', JInt (p_id p)), (''title'', JStr (p_title p)), (''description'', JStr (p_description p)),
      (''listed_price'', JStr (show_cents (p_listed_price p))), (''status'', JStr (show_product_status (p_status p)))]"

definition same_dict :: "(string \<times> json) list \<Rightarrow> (string \<times> json) list \<Rightarrow> bool" where
  \<comment> \<open>equality of dictionaries\<close>
  "same_dict xs ys \<longleftrightarrow> list_all (\<lambda>k. map_of xs k = map_of ys k) (map fst xs @ map fst ys)"

definition same_negotiation :: "(string \<times> json) list \<Rightarrow> session \<Rightarrow> policy \<Rightarrow> bool" where
  "same_negotiation kvs n pol \<longleftrightarrow>
     jget (JObj kvs) ''id'' = JInt (ns_id n) \<and> jget (JObj kvs) ''status'' = JStr (show_session_status (ns_status n))
     \<and> jget (JObj kvs) ''current_offer_id'' = jopt JInt (ns_current_offer_id n)
     \<and> jget (JObj kvs) ''version'' = JInt (ns_version n) \<and> jget (JObj kvs) ''policy_version'' = JInt (sp_version pol)"

definition outdated_request :: "session \<Rightarrow> product \<Rightarrow> policy \<Rightarrow> decision_request \<Rightarrow> string option" where
  \<comment> \<open>the end of \<open>_stale_reason\<close>\<close>
  "outdated_request n p pol q =
     (case jget (dq_product q) ''product'' of
        JObj kvs \<Rightarrow>
          if \<not> same_dict kvs (product_facts p) then Some ''product changed''
          else (case jget (dq_negotiation q) ''negotiation'' of
                  JObj nvs \<Rightarrow> if same_negotiation nvs n pol then None else Some ''context changed''
                | _ \<Rightarrow> Some ''negotiation snapshot invalid'')
      | _ \<Rightarrow> Some ''product snapshot invalid'')"

definition chat_stale_reason :: "db \<Rightarrow> task \<Rightarrow> exn + string option" where
  "chat_stale_reason d t =
     (case get_session d (t_session_id t) of
        None \<Rightarrow> Inr (Some ''negotiation gone'')
      | Some n \<Rightarrow>
      case (get_product d (ns_product_id n), get_policy d (ns_product_id n)) of
        (Some p, Some pol) \<Rightarrow>
          if ns_version n \<noteq> t_session_version t then Inr (Some ''session changed'')
          else if sp_version pol \<noteq> t_policy_version t then Inr (Some ''policy changed'')
          else if ns_current_offer_id n \<noteq> t_offer_id t then Inr (Some ''current offer changed'')
          else if (case t_offer_id t of
                     None \<Rightarrow> False
                   | Some k \<Rightarrow> (case get_offer d k of None \<Rightarrow> True | Some off \<Rightarrow> of_session_id off \<noteq> t_session_id t))
          then Inr (Some ''offer gone'')
          else ebind (deserialize_request (t_input_snapshot t)) (\<lambda>q. Inr (outdated_request n p pol q))
      | _ \<Rightarrow> Inr (Some ''product or policy gone''))"

definition stored_reply :: "db \<Rightarrow> int \<Rightarrow> string \<Rightarrow> exn + message option" where
  "stored_reply d sid key =
     (case message_by_request_id d sid key of
        None \<Rightarrow> Inr None
      | Some m \<Rightarrow> if ms_role m \<noteq> AGENT_MESSAGE then Inl message_conflict else Inr (Some m))"

definition load_reply :: "db \<Rightarrow> pending_turn \<Rightarrow> exn + chat_turn option" where
  "load_reply d pt =
     ebind (stored_reply d (pt_session pt) (reply_request_id (ms_request_id (pt_buyer pt)))) (\<lambda>m.
     Inr (map_option (turn_snapshot (pt_buyer pt)) m))"

definition settle_replied :: "pending_turn \<Rightarrow> int \<Rightarrow> string \<Rightarrow> message \<Rightarrow> time \<Rightarrow> db \<Rightarrow> exn + chat_turn \<times> db" where
  \<comment> \<open>the reply is there already: the task is cancelled\<close>
  "settle_replied pt tid token reply now d =
     ebind (cancel_with_lease tid token ''reply stored already'' now d) (\<lambda>(_, d'). Inr (turn_snapshot (pt_buyer pt) reply, d'))"

definition reconcile_reply :: "pending_turn \<Rightarrow> task \<Rightarrow> string \<Rightarrow> time \<times> time \<Rightarrow> db \<Rightarrow> exn + chat_turn option \<times> db" where
  "reconcile_reply pt lt token clock d =
     ebind (task_reply_key (t_input_snapshot lt)) (\<lambda>key.
     ebind (leased_task d (t_id lt) token (fst clock)) (\<lambda>t.
     ebind (stored_reply d (t_session_id t) key) (\<lambda>m.
     case m of
       None \<Rightarrow> Inr (None, d)
     | Some reply \<Rightarrow> ebind (settle_replied pt (t_id t) token reply (snd clock) d) (\<lambda>(turn, d'). Inr (Some turn, d')))))"

definition stale_turn :: turn_result where
  "stale_turn = turn_failure ''conditions changed, the answer was not applied'' None"

definition apply_answer ::
    "(json \<Rightarrow> string) \<Rightarrow> agent_env \<Rightarrow> pending_turn \<Rightarrow> task \<Rightarrow> string \<Rightarrow> string \<Rightarrow> decision \<Rightarrow> model_usage \<Rightarrow> time \<Rightarrow> db \<Rightarrow>
     exn + chat_turn \<times> db" where
  \<comment> \<open>the end of \<open>_finalize_model_turn\<close>, when nothing has changed\<close>
  "apply_answer H E pt t token key dn usage now d =
     ebind (deserialize_request (t_input_snapshot t)) (\<lambda>q.
     ebind (some_or (ServiceExn NegotiationNotFound) (get_session d (t_session_id t))) (\<lambda>n.
     ebind (apply_prepared E \<lparr>tc_session = t_session_id t, tc_buyer = ns_buyer_id n, tc_offer = dq_offer_id q\<rparr>
         \<lparr>pn_request = Some q, pn_decision = None, pn_immediate = None\<rparr> (Some dn) d) (\<lambda>(r, d1).
     ebind (persist_result (t_session_id t) (pt_buyer pt) key r (pt_replay pt) d1) (\<lambda>(turn, d2).
     ebind (complete_success H (t_id t) token (JObj [(''decision'', decision_json dn)]) usage now d2) (\<lambda>(_, d3).
     Inr (turn, d3))))))"

definition finalize_chat ::
    "(json \<Rightarrow> string) \<Rightarrow> agent_env \<Rightarrow> pending_turn \<Rightarrow> task \<Rightarrow> string \<Rightarrow> decision \<Rightarrow> model_usage \<Rightarrow> time \<times> time \<Rightarrow> db \<Rightarrow>
     exn + chat_turn \<times> db" where
  \<comment> \<open>\<open>_finalize_model_turn\<close>; the clock is read for the lease and for the result\<close>
  "finalize_chat H E pt lt token dn usage clock d =
     ebind (leased_task d (t_id lt) token (fst clock)) (\<lambda>t.
     ebind (chat_stale_reason d t) (\<lambda>why.
     ebind (task_reply_key (t_input_snapshot t)) (\<lambda>key.
     ebind (stored_reply d (t_session_id t) key) (\<lambda>m.
     case (m, why) of
       (Some reply, _) \<Rightarrow> settle_replied pt (t_id t) token reply (snd clock) d
     | (None, Some reason) \<Rightarrow>
         ebind (persist_result (t_session_id t) (pt_buyer pt) key stale_turn (pt_replay pt) d) (\<lambda>(turn, d1).
         ebind (mark_stale (t_id t) token (Some reason) (Some usage) (snd clock) d1) (\<lambda>(_, d2). Inr (turn, d2)))
     | (None, None) \<Rightarrow> apply_answer H E pt t token key dn usage (snd clock) d))))"

section \<open>The task\<close>

record run_env =
  re_token :: string
  re_lease_at :: time
  re_check_at :: "time \<times> time"
  re_answer :: "decision_request \<Rightarrow> failure + decision \<times> provider_usage" \<comment> \<open>the model\<close>
  re_plan_at :: time
  re_fail_at :: time
  re_result_at :: "time \<times> time"
  re_agent :: agent_env

record chat_config =
  cc_policy :: retry_policy
  cc_prices :: usage_prices
  cc_unit :: "int \<Rightarrow> int \<Rightarrow> rat"

abbreviation recovery_required :: exn where
  "recovery_required \<equiv> ServiceExn ModelTaskRecoveryRequired"

definition or_stored_reply :: "pending_turn \<Rightarrow> db \<Rightarrow> (exn + chat_turn) \<times> db" where
  \<comment> \<open>the handlers of \<open>ModelExecutionTaskLeaseError\<close>\<close>
  "or_stored_reply pt d =
     ((case load_reply d pt of Inl e \<Rightarrow> Inl e | Inr (Some turn) \<Rightarrow> Inr turn | Inr None \<Rightarrow> Inl incomplete), d)"

definition give_up :: "task \<Rightarrow> string \<Rightarrow> error_category \<Rightarrow> string \<Rightarrow> time \<Rightarrow> db \<Rightarrow> (exn + 'a) \<times> db" where
  \<comment> \<open>\<open>fail_task\<close>, then the error for the buyer\<close>
  "give_up t token category message now d =
     (case commit (fail_task (t_id t) token category (Some message) now d) d of
        (Inl e, d1) \<Rightarrow> (Inl e, d1)
      | (Inr _, d1) \<Rightarrow> (Inl recovery_required, d1))"

definition model_failed :: "chat_config \<Rightarrow> run_env \<Rightarrow> task \<Rightarrow> string \<Rightarrow> failure \<Rightarrow> db \<Rightarrow> (exn + chat_turn) \<times> db" where
  "model_failed g env t token err d =
     (let plan = plan_failure (cc_policy g) (cc_unit g (t_id t) (t_attempt_count t)) (t_attempt_count t) (t_max_attempts t) err
                   (re_plan_at env) in
      case (pl_should_retry plan, pl_next_retry_at plan) of
        (True, Some at1) \<Rightarrow>
          (case commit (defer_retry (t_id t) token (pl_category plan) at1 (Some (pl_message plan)) (re_fail_at env) d) d of
             (Inl e, d1) \<Rightarrow> (Inl e, d1)
           | (Inr _, d1) \<Rightarrow> (Inl (ServiceExn ModelDecisionFailure), d1))
      | _ \<Rightarrow> give_up t token (pl_category plan) (pl_message plan) (re_fail_at env) d)"

definition model_answered ::
    "(json \<Rightarrow> string) \<Rightarrow> run_env \<Rightarrow> pending_turn \<Rightarrow> task \<Rightarrow> string \<Rightarrow> decision \<Rightarrow> model_usage \<Rightarrow> db \<Rightarrow> (exn + chat_turn) \<times> db" where
  "model_answered H env pt t token dn usage d =
     (case commit (finalize_chat H (re_agent env) pt t token dn usage (re_result_at env) d) d of
        (Inl (ServiceExn TaskLease), d1) \<Rightarrow> or_stored_reply pt d1
      | (Inl (ServiceExn MessageConflict), d1) \<Rightarrow>
          give_up t token BUSINESS_CONFLICT ''reply identifier taken'' (re_fail_at env) d1
      | r \<Rightarrow> r)"

definition ask_and_apply ::
    "(json \<Rightarrow> string) \<Rightarrow> chat_config \<Rightarrow> run_env \<Rightarrow> pending_turn \<Rightarrow> task \<Rightarrow> string \<Rightarrow> db \<Rightarrow> (exn + chat_turn) \<times> db" where
  \<comment> \<open>the model is called between the transactions\<close>
  "ask_and_apply H g env pt t token d =
     (case deserialize_request (t_input_snapshot t) of
        Inl _ \<Rightarrow> give_up t token INVALID_OUTPUT ''task input invalid'' (re_fail_at env) d
      | Inr q \<Rightarrow>
          (case re_answer env q of
             Inl err \<Rightarrow> model_failed g env t token err d
           | Inr (dn, u) \<Rightarrow> model_answered H env pt t token dn (build_usage (cc_prices g) u) d))"

definition execute_leased ::
    "(json \<Rightarrow> string) \<Rightarrow> chat_config \<Rightarrow> run_env \<Rightarrow> pending_turn \<Rightarrow> task \<Rightarrow> db \<Rightarrow> (exn + chat_turn) \<times> db" where
  \<comment> \<open>\<open>_execute_leased_turn\<close>\<close>
  "execute_leased H g env pt t d =
     (case t_lease_token t of
        None \<Rightarrow> (Inl (RuntimeExn ''leased task without token''), d)
      | Some token \<Rightarrow>
      case commit (reconcile_reply pt t token (re_check_at env) d) d of
        (Inr (Some turn), d1) \<Rightarrow> (Inr turn, d1)
      | (Inr None, d1) \<Rightarrow> ask_and_apply H g env pt t token d1
      | (Inl (ServiceExn TaskLease), d1) \<Rightarrow> or_stored_reply pt d1
      | (Inl (ServiceExn IncompleteRequest), d1) \<Rightarrow>
          give_up t token INVALID_OUTPUT ''task input invalid'' (re_fail_at env) d1
      | (Inl (ServiceExn MessageConflict), d1) \<Rightarrow>
          give_up t token BUSINESS_CONFLICT ''reply identifier taken'' (re_fail_at env) d1
      | (Inl e, d1) \<Rightarrow> (Inl e, d1))"

definition without_lease :: "pending_turn \<Rightarrow> db \<Rightarrow> exn + chat_turn" where
  \<comment> \<open>\<open>_execute_pending_turn\<close> when the task could not be leased\<close>
  "without_lease pt d =
     ebind (load_reply d pt) (\<lambda>r.
     case r of
       Some turn \<Rightarrow> Inr turn
     | None \<Rightarrow>
         ebind (some_or (ServiceExn TaskNotFound) (get_task d (pt_task pt))) (\<lambda>t.
         Inl (if t_status t = T_RETRY_WAIT then ServiceExn ModelDecisionFailure
              else if t_status t \<in> {T_FAILED, T_CANCELLED} then recovery_required else incomplete)))"

definition execute_pending ::
    "(json \<Rightarrow> string) \<Rightarrow> chat_config \<Rightarrow> run_env \<Rightarrow> pending_turn \<Rightarrow> db \<Rightarrow> (exn + chat_turn) \<times> db" where
  \<comment> \<open>\<open>_execute_pending_turn\<close>\<close>
  "execute_pending H g env pt d =
     (case commit (lease_task (pt_task pt) (''chat-sync:'' @ show_int (pt_task pt)) (rp_lease (cc_policy g)) (re_token env)
             (re_lease_at env) d) d of
        (Inl e, d1) \<Rightarrow> (Inl e, d1)
      | (Inr None, d1) \<Rightarrow> (without_lease pt d1, d1)
      | (Inr (Some t), d1) \<Rightarrow>
          if t_status t = T_FAILED then (Inl recovery_required, d1) else execute_leased H g env pt t d1)"

definition send_buyer_message ::
    "(json \<Rightarrow> string) \<Rightarrow> chat_config \<Rightarrow> chat_env \<Rightarrow> run_env \<Rightarrow> int \<Rightarrow> string \<Rightarrow> string \<Rightarrow> string \<Rightarrow> offer_submission option \<Rightarrow> db \<Rightarrow>
     (exn + chat_turn) \<times> db" where
  \<comment> \<open>for a service with a model\<close>
  "send_buyer_message H g E env sid buyer rid content offer d =
     (case commit (prepare_chat H (cc_policy g) E sid buyer rid content offer d) d of
        (Inl e, d1) \<Rightarrow> (Inl e, d1)
      | (Inr (Answered turn), d1) \<Rightarrow> (Inr turn, d1)
      | (Inr (Awaiting pt), d1) \<Rightarrow> execute_pending H g env pt d1)"

section \<open>The recovery worker\<close>

record chat_processing =
  cp_task :: int
  cp_status :: task_status
  cp_turn :: "chat_turn option"

definition pending_from_task :: "task \<Rightarrow> db \<Rightarrow> exn + pending_turn" where
  "pending_from_task t d =
     (case jget (t_input_snapshot t) ''buyer_message_id'' of
        JInt mid \<Rightarrow>
          (case tget (d_messages d) mid of
             None \<Rightarrow> Inl incomplete
           | Some m \<Rightarrow>
               if ms_session_id m \<noteq> t_session_id t \<or> ms_role m \<noteq> BUYER_MESSAGE then Inl incomplete
               else Inr \<lparr>pt_session = t_session_id t, pt_buyer = m, pt_task = t_id t, pt_replay = True\<rparr>)
      | _ \<Rightarrow> Inl incomplete)"

definition processed :: "int \<Rightarrow> chat_turn option \<Rightarrow> db \<Rightarrow> exn + chat_processing option" where
  "processed tid turn d =
     ebind (some_or (ServiceExn TaskNotFound) (get_task d tid)) (\<lambda>t.
     Inr (Some \<lparr>cp_task = tid, cp_status = t_status t, cp_turn = turn\<rparr>))"

definition process_leased_chat ::
    "(json \<Rightarrow> string) \<Rightarrow> chat_config \<Rightarrow> run_env \<Rightarrow> task \<Rightarrow> db \<Rightarrow> (exn + chat_processing option) \<times> db" where
  "process_leased_chat H g env t d =
     (case pending_from_task t d of
        Inl _ \<Rightarrow>
          (case t_lease_token t of
             None \<Rightarrow> (Inl (RuntimeExn ''leased task without token''), d)
           | Some token \<Rightarrow>
             (case commit (fail_task (t_id t) token INVALID_OUTPUT (Some ''task input invalid'') (re_fail_at env) d) d of
                (Inl e, d1) \<Rightarrow> (Inl e, d1)
              | (Inr _, d1) \<Rightarrow> (Inr (Some \<lparr>cp_task = t_id t, cp_status = T_FAILED, cp_turn = None\<rparr>), d1)))
      | Inr pt \<Rightarrow>
          (case execute_leased H g env pt t d of
             (Inr turn, d1) \<Rightarrow> (processed (t_id t) (Some turn) d1, d1)
           | (Inl e, d1) \<Rightarrow>
               if e \<in> {incomplete, ServiceExn ModelDecisionFailure, recovery_required}
               then (processed (t_id t) None d1, d1) else (Inl e, d1)))"

definition process_pending_chat ::
    "(json \<Rightarrow> string) \<Rightarrow> chat_config \<Rightarrow> run_env \<Rightarrow> string \<Rightarrow> db \<Rightarrow> (exn + chat_processing option) \<times> db" where
  \<comment> \<open>\<open>process_next_pending_task\<close>\<close>
  "process_pending_chat H g env worker d =
     (case commit (lease_next worker (Some [CHAT_DECISION]) (rp_lease (cc_policy g)) (re_token env) (re_lease_at env) d) d of
        (Inl e, d1) \<Rightarrow> (Inl e, d1)
      | (Inr None, d1) \<Rightarrow> (Inr None, d1)
      | (Inr (Some t), d1) \<Rightarrow>
          if t_status t = T_FAILED then (Inr (Some \<lparr>cp_task = t_id t, cp_status = T_FAILED, cp_turn = None\<rparr>), d1)
          else process_leased_chat H g env t d1)"

end
