(* ===== verification/Chat_Spec.thy ===== *)
theory Chat_Spec
  imports Chat Agent_Spec Tasks_Spec
begin

text \<open>
  What the chat of the earlier runtime guarantees: an answer of the language model takes effect only on the facts it was
  asked for, every turn leaves exactly one reply, and a request sent again returns the stored turn and writes nothing.
\<close>

section \<open>What the services leave alone\<close>

definition same_session :: "session \<Rightarrow> session \<Rightarrow> bool" where
  "same_session n n' \<longleftrightarrow> ns_buyer_id n' = ns_buyer_id n \<and> ns_product_id n' = ns_product_id n \<and> ns_graph_version n' = ns_graph_version n"

definition sessions_same :: "db \<Rightarrow> db \<Rightarrow> bool" where
  "sessions_same d d' \<longleftrightarrow>
     (\<forall>k n. get_session d k = Some n \<longrightarrow> (\<exists>n'. get_session d' k = Some n' \<and> same_session n n'))"

definition aside :: "db \<Rightarrow> db \<Rightarrow> bool" where
  \<comment> \<open>messages, tasks and the catalogue are untouched, and negotiations stay with their buyers\<close>
  "aside d d' \<longleftrightarrow>
     d_messages d' = d_messages d \<and> d_next_message d' = d_next_message d \<and> d_tasks d' = d_tasks d
     \<and> d_next_task d' = d_next_task d \<and> d_products d' = d_products d \<and> d_policies d' = d_policies d \<and> sessions_same d d'"

lemma same_session_refl [simp]: "same_session n n"
  by (simp add: same_session_def)

lemma sessions_sameI: "d_sessions d' = d_sessions d \<Longrightarrow> sessions_same d d'"
  by (auto simp: sessions_same_def)

lemma sessions_same_trans: "sessions_same d e \<Longrightarrow> sessions_same e f \<Longrightarrow> sessions_same d f"
  unfolding sessions_same_def same_session_def by metis

lemma aside_refl [simp]: "aside d d"
  by (simp add: aside_def sessions_sameI)

lemma aside_trans: "aside d e \<Longrightarrow> aside e f \<Longrightarrow> aside d f"
  by (auto simp: aside_def intro: sessions_same_trans)

lemma aside_mod_session:
  assumes "aside d e" and "\<And>n. same_session n (f n)"
  shows "aside d (mod_session k f e)"
proof -
  have "sessions_same e (mod_session k f e)" using assms(2) by (auto simp: sessions_same_def)
  then show ?thesis using assms(1) by (auto simp: aside_def intro: sessions_same_trans)
qed

lemma aside_business:
  "aside d (mod_offer k g d)" "aside d (mod_approval j h d)" "aside d (supersede_current_offer n who d)"
  by (simp_all add: aside_def sessions_sameI supersede_current_offer_def split: option.split)

lemma aside_approvals: "aside d (d\<lparr>d_approvals := as, d_next_approval := k\<rparr>)"
  by (simp add: aside_def sessions_sameI)

lemma aside_add_offer: "add_offer off d = (k, d') \<Longrightarrow> aside d d'"
  by (auto simp: add_offer_def Let_def aside_def intro: sessions_sameI)

lemma record_aside: "record_buyer_offer now sid buyer t extra expires d = Inr (off, d') \<Longrightarrow> aside d d'"
  by (erule record_buyer_offer_cases)
    (auto simp: same_session_def intro!: aside_mod_session intro: aside_trans [OF aside_business(3) aside_add_offer])

lemma counter_aside: "submit_counter_offer now sid buyer t extra expires resp d = Inr (off, d') \<Longrightarrow> aside d d'"
  by (erule submit_counter_offer_cases)
    (auto simp: same_session_def intro!: aside_mod_session intro: aside_trans [OF aside_business(3) aside_add_offer])

lemma accept_aside: "accept_offer now sid buyer oid d = Inr (off, d') \<Longrightarrow> aside d d'"
  by (erule accept_offer_cases) (auto simp: same_session_def intro!: aside_mod_session aside_business)

lemma request_aside: "create_request now0 now sid buyer oid v reason expires d = Inr (a, d') \<Longrightarrow> aside d d'"
  by (erule create_request_cases) (auto simp: same_session_def intro!: aside_mod_session aside_approvals)

lemma aside_restore: "aside d e \<Longrightarrow> aside d (restore_active sid e)"
  unfolding restore_active_def by (erule aside_mod_session) (simp add: same_session_def)

lemma make_way_aside: "cancel_pending_for_new_offer now sid buyer d = Inr (r, d') \<Longrightarrow> aside d d'"
  by (erule cancel_pending_cases) (auto intro!: aside_restore aside_business)

lemma tool_aside:
  assumes "tool_write handler show_it r d = Inr (j, d')" and "\<And>x. r = Inr (x, d') \<Longrightarrow> aside d d'"
  shows "aside d d'"
  using assms(1) by (rule tool_write_cases) (use assms(2) in auto)

lemma counter_tool_aside: "submit_counter_offer_tool E cx a d = Inr (j, d') \<Longrightarrow> aside d d'"
  unfolding submit_counter_offer_tool_def
  by (elim ebind_InrE tool_aside) (auto simp: ebind_eq_Inr dest: counter_aside)

lemma accept_tool_aside: "accept_offer_tool E cx oid d = Inr (j, d') \<Longrightarrow> aside d d'"
  unfolding accept_offer_tool_def by (elim raise_InrE tool_aside) (rule accept_aside)

lemma request_tool_aside: "request_approval_tool E cx oid reason d = Inr (j, d') \<Longrightarrow> aside d d'"
  unfolding request_approval_tool_def request_approval_body_def
  by (elim raise_InrE tool_aside) (elim result_elims, rule request_aside)

lemma execute_aside: "execute_decision E cx dn product current d = Inr (t, d') \<Longrightarrow> aside d d'"
  unfolding execute_decision_def execute_counter_def execute_accept_def execute_approval_def
  by (cases "dn_action dn")
    (auto simp: ebind_eq_Inr dest: counter_tool_aside accept_tool_aside request_tool_aside split: option.splits if_splits)

lemma apply_prepared_aside: "apply_prepared E cx p dn d = Inr (t, d') \<Longrightarrow> aside d d'"
  unfolding apply_prepared_def by (auto simp: ebind_eq_Inr dest: execute_aside split: option.splits)

lemma submit_offer_aside:
  assumes "submit_offer E n sid buyer offer d = Inr (oid, d')"
  shows "aside d d'"
proof (cases offer)
  case (Some s)
  with assms obtain d1 t off where
    "(if ns_status n = WAITING_APPROVAL then ebind (cancel_pending_for_new_offer (ce_cancel_at E) sid buyer d) (\<lambda>(_, d1). Inr d1)
      else Inr d) = Inr d1"
    and "record_buyer_offer (ce_offer_at E) sid buyer t (Some (submission_extra s)) None d1 = Inr (off, d')"
    by (auto simp: submit_offer_def ebind_eq_Inr)
  then show ?thesis
    by (auto simp: ebind_eq_Inr split: if_splits intro: aside_trans dest: make_way_aside record_aside)
qed (use assms in \<open>simp add: submit_offer_def\<close>)

definition business_same :: "db \<Rightarrow> db \<Rightarrow> bool" where
  "business_same d d' \<longleftrightarrow>
     d_offers d' = d_offers d \<and> d_sessions d' = d_sessions d \<and> d_approvals d' = d_approvals d \<and> d_products d' = d_products d
     \<and> d_policies d' = d_policies d \<and> d_next_offer d' = d_next_offer d \<and> d_next_session d' = d_next_session d
     \<and> d_next_approval d' = d_next_approval d"

lemma business_same_refl [simp]: "business_same d d"
  by (simp add: business_same_def)

lemma business_same_trans: "business_same d e \<Longrightarrow> business_same e f \<Longrightarrow> business_same d f"
  by (simp add: business_same_def)

lemma business_same_keeps: "keeps d e \<Longrightarrow> business_same e d' \<Longrightarrow> keeps d d'"
  by (rule keeps_trans [of d e]) (auto simp: business_same_def intro: keeps_other)

lemma post_business:
  "post_message sid role content rid fp outcome formal d = Inr (m, d') \<Longrightarrow> business_same d d'"
  using post_message_Inr(6) [of sid role content rid fp outcome formal d m d'] by (simp add: business_same_def)

lemma flush_business: "flush_task tid t d = Inr (t', d') \<Longrightarrow> business_same d d' \<and> d_messages d' = d_messages d"
  by (simp add: flush_task_eq_Inr business_same_def)

definition task_moved :: "int \<Rightarrow> task_status \<Rightarrow> db \<Rightarrow> db \<Rightarrow> bool" where
  \<comment> \<open>the task has ended in the given state, and nothing else has changed\<close>
  "task_moved tid st d d' \<longleftrightarrow>
     business_same d d' \<and> d_messages d' = d_messages d \<and> (\<exists>t'. get_task d' tid = Some t' \<and> t_status t' = st)"

lemma complete_success_moved:
  assumes "complete_success H tid token result usage now d = Inr (r, d')"
  shows "task_moved tid T_SUCCEEDED d d'"
proof -
  obtain t' where f: "flush_task tid t' d = Inr (r, d')" "t_status t' = T_SUCCEEDED"
    using assms unfolding complete_success_def by (auto simp: ebind_eq_Inr clear_lease_def)
  then show ?thesis using flush_business [OF f(1)] by (simp add: task_moved_def flush_task_eq_Inr)
qed

lemma complete_error_moved:
  assumes "complete_error tid token target err msg usage now d = Inr (r, d')" and "target \<noteq> T_FAILED"
  shows "task_moved tid target d d'"
proof -
  obtain t' where f: "flush_task tid t' d = Inr (r, d')" "t_status t' = target"
    using assms unfolding complete_error_def by (auto simp: ebind_eq_Inr clear_lease_def)
  then show ?thesis using flush_business [OF f(1)] by (simp add: task_moved_def flush_task_eq_Inr)
qed

lemma stale_moved: "mark_stale tid token msg usage now d = Inr (r, d') \<Longrightarrow> task_moved tid T_STALE d d'"
  unfolding mark_stale_def by (rule complete_error_moved) simp_all

lemma cancelled_moved: "cancel_with_lease tid token msg now d = Inr (r, d') \<Longrightarrow> task_moved tid T_CANCELLED d d'"
  unfolding cancel_with_lease_def by (rule complete_error_moved) simp_all

section \<open>Replies\<close>

definition reply_stored :: "db \<Rightarrow> int \<Rightarrow> string \<Rightarrow> chat_turn \<Rightarrow> bool" where
  \<comment> \<open>the turn is the one that a repeated request finds\<close>
  "reply_stored d sid key turn \<longleftrightarrow>
     message_by_request_id d sid key = Some (ct_agent turn) \<and> ms_role (ct_agent turn) = AGENT_MESSAGE
     \<and> turn\<lparr>ct_replay := True\<rparr> = turn_snapshot (ct_buyer turn) (ct_agent turn)"

lemma message_by_request_cong: "d_messages d' = d_messages d \<Longrightarrow> message_by_request_id d' = message_by_request_id d"
  by (intro ext) (simp add: message_by_request_id_def)

lemma reply_stored_cong: "d_messages d' = d_messages d \<Longrightarrow> reply_stored d' = reply_stored d"
  by (intro ext, drule message_by_request_cong) (simp add: reply_stored_def)

lemma turn_outcome_text_not_Nil [simp]: "turn_outcome_text oc \<noteq> []"
  by (cases oc) simp_all

lemma persist_result_stored:
  assumes "persist_result sid buyer key r replay d = Inr (turn, d')"
  shows "reply_stored d' sid key turn" and "business_same d d'" and "message_by_request_id d sid key = None"
    and "ct_buyer turn = buyer" and "ct_outcome turn = turn_outcome_text (tr_outcome r)" and "ct_offer_id turn = tr_offer_id r"
    and "d_messages d' = d_messages d @ [(d_next_message d, ct_agent turn)]" and "d_tasks d' = d_tasks d"
proof -
  obtain m where m: "post_message sid AGENT_MESSAGE (tr_reply r) key None (Some (turn_outcome_text (tr_outcome r))) (tr_offer_id r) d
      = Inr (m, d')"
    and turn: "turn = \<lparr>ct_buyer = buyer, ct_agent = m, ct_outcome = turn_outcome_text (tr_outcome r), ct_offer_id = tr_offer_id r,
      ct_replay = replay\<rparr>"
    using assms by (auto simp: persist_result_def ebind_eq_Inr)
  note p = post_message_Inr [OF m]
  show "reply_stored d' sid key turn" using p(2-5) by (simp add: reply_stored_def turn turn_snapshot_def)
  show "business_same d d'" using m by (rule post_business)
  show "message_by_request_id d sid key = None" by (rule p(1))
  show "ct_buyer turn = buyer" "ct_outcome turn = turn_outcome_text (tr_outcome r)" "ct_offer_id turn = tr_offer_id r"
    by (simp_all add: turn)
  show "d_messages d' = d_messages d @ [(d_next_message d, ct_agent turn)]" "d_tasks d' = d_tasks d" using p(6) by (simp_all add: turn)
qed

lemma stored_reply_Some: "stored_reply d sid key = Inr (Some m) \<Longrightarrow> message_by_request_id d sid key = Some m \<and> ms_role m = AGENT_MESSAGE"
  by (auto simp: stored_reply_def split: option.splits if_splits)

lemma stored_reply_None: "stored_reply d sid key = Inr None \<Longrightarrow> message_by_request_id d sid key = None"
  by (auto simp: stored_reply_def split: option.splits if_splits)

lemma snapshot_stored:
  "message_by_request_id d sid key = Some m \<Longrightarrow> ms_role m = AGENT_MESSAGE \<Longrightarrow> reply_stored d sid key (turn_snapshot buyer m)"
  by (simp add: reply_stored_def turn_snapshot_def)

lemma settle_replied_moved:
  assumes "settle_replied pt tid token reply now d = Inr (turn, d')"
  shows "turn = turn_snapshot (pt_buyer pt) reply" and "task_moved tid T_CANCELLED d d'"
  using assms by (auto simp: settle_replied_def ebind_eq_Inr dest: cancelled_moved)

section \<open>Late answers\<close>

definition question_stands :: "db \<Rightarrow> task \<Rightarrow> bool" where
  \<comment> \<open>the negotiation, the rules, the current offer and the public product are those the model was asked about\<close>
  "question_stands d t \<longleftrightarrow>
     (\<exists>n p pol q kvs nvs. get_session d (t_session_id t) = Some n \<and> get_product d (ns_product_id n) = Some p
        \<and> get_policy d (ns_product_id n) = Some pol \<and> ns_version n = t_session_version t \<and> sp_version pol = t_policy_version t
        \<and> ns_current_offer_id n = t_offer_id t
        \<and> (\<forall>k. t_offer_id t = Some k \<longrightarrow> (\<exists>off. get_offer d k = Some off \<and> of_session_id off = t_session_id t))
        \<and> deserialize_request (t_input_snapshot t) = Inr q
        \<and> jget (dq_product q) ''product'' = JObj kvs \<and> (\<forall>k. map_of kvs k = map_of (product_facts p) k)
        \<and> jget (dq_negotiation q) ''negotiation'' = JObj nvs \<and> same_negotiation nvs n pol)"

lemma same_dict_iff: "same_dict xs ys \<longleftrightarrow> (\<forall>k. map_of xs k = map_of ys k)"
proof
  assume s: "same_dict xs ys"
  show "\<forall>k. map_of xs k = map_of ys k"
  proof
    fix k
    show "map_of xs k = map_of ys k"
    proof (cases "k \<in> fst ` set xs \<union> fst ` set ys")
      case True
      with s show ?thesis by (auto simp: same_dict_def list_all_iff)
    next
      case False
      then have "map_of xs k = None" "map_of ys k = None" by (auto simp: map_of_eq_None_iff)
      then show ?thesis by simp
    qed
  qed
qed (auto simp: same_dict_def list_all_iff)

lemma outdated_request_None:
  "outdated_request n p pol q = None \<longleftrightarrow>
     (\<exists>kvs nvs. jget (dq_product q) ''product'' = JObj kvs \<and> (\<forall>k. map_of kvs k = map_of (product_facts p) k)
        \<and> jget (dq_negotiation q) ''negotiation'' = JObj nvs \<and> same_negotiation nvs n pol)"
  unfolding outdated_request_def same_dict_iff
  by (cases "jget (dq_product q) ''product''"; cases "jget (dq_negotiation q) ''negotiation''") auto

lemma chat_fresh: "chat_stale_reason d t = Inr None \<longleftrightarrow> question_stands d t"
proof
  assume "chat_stale_reason d t = Inr None"
  then obtain n p pol q where "get_session d (t_session_id t) = Some n" "get_product d (ns_product_id n) = Some p"
    "get_policy d (ns_product_id n) = Some pol" "ns_version n = t_session_version t" "sp_version pol = t_policy_version t"
    "ns_current_offer_id n = t_offer_id t" "deserialize_request (t_input_snapshot t) = Inr q" and o: "outdated_request n p pol q = None"
    and off: "\<forall>k. t_offer_id t = Some k \<longrightarrow> (\<exists>off. get_offer d k = Some off \<and> of_session_id off = t_session_id t)"
    unfolding chat_stale_reason_def by (auto simp: ebind_eq_Inr split: option.splits if_splits)
  then show "question_stands d t" unfolding question_stands_def using o [unfolded outdated_request_None] by blast
next
  assume "question_stands d t"
  then obtain n p pol q where "get_session d (t_session_id t) = Some n" "get_product d (ns_product_id n) = Some p"
    "get_policy d (ns_product_id n) = Some pol" "ns_version n = t_session_version t" "sp_version pol = t_policy_version t"
    "ns_current_offer_id n = t_offer_id t" "deserialize_request (t_input_snapshot t) = Inr q"
    and off: "\<forall>k. t_offer_id t = Some k \<longrightarrow> (\<exists>off. get_offer d k = Some off \<and> of_session_id off = t_session_id t)"
    and "outdated_request n p pol q = None"
    unfolding question_stands_def outdated_request_None by blast
  then show "chat_stale_reason d t = Inr None"
    by (cases "t_offer_id t") (auto simp: chat_stale_reason_def)
qed

lemma apply_model_decision:
  assumes "apply_prepared E cx \<lparr>pn_request = Some q, pn_decision = None, pn_immediate = None\<rparr> (Some dn) d = Inr (r, d')"
    and "legacy_inv d" and "ids_positive d"
  shows "keeps d d' \<and> committed cx (dq_offer_id q) r d d'"
proof -
  obtain x where "execute_decision E cx x (dq_product q) (dq_offer_id q) d = Inr (r, d')"
    using assms(1) by (auto simp: apply_prepared_def ebind_eq_Inr)
  then show ?thesis using assms(2,3) by (rule execute_committed)
qed

definition answer_applied :: "task \<Rightarrow> chat_turn \<Rightarrow> db \<Rightarrow> db \<Rightarrow> bool" where
  \<comment> \<open>an authorised action of the agent, announced by the reply, followed by the bookkeeping only\<close>
  "answer_applied t turn d d' \<longleftrightarrow>
     (\<exists>n q r d1. get_session d (t_session_id t) = Some n \<and> deserialize_request (t_input_snapshot t) = Inr q
        \<and> committed \<lparr>tc_session = t_session_id t, tc_buyer = ns_buyer_id n, tc_offer = dq_offer_id q\<rparr> (dq_offer_id q) r d d1
        \<and> aside d d1 \<and> business_same d1 d' \<and> ct_outcome turn = turn_outcome_text (tr_outcome r) \<and> ct_offer_id turn = tr_offer_id r)"

lemma apply_answer_cases:
  assumes "apply_answer H E pt t token key dn usage now d = Inr (turn, d')"
  obtains q n r d1 d2 where "deserialize_request (t_input_snapshot t) = Inr q" and "get_session d (t_session_id t) = Some n"
    and "apply_prepared E \<lparr>tc_session = t_session_id t, tc_buyer = ns_buyer_id n, tc_offer = dq_offer_id q\<rparr>
         \<lparr>pn_request = Some q, pn_decision = None, pn_immediate = None\<rparr> (Some dn) d = Inr (r, d1)"
    and "persist_result (t_session_id t) (pt_buyer pt) key r (pt_replay pt) d1 = Inr (turn, d2)"
    and "task_moved (t_id t) T_SUCCEEDED d2 d'"
  using assms unfolding apply_answer_def by (auto simp: ebind_eq_Inr some_or_eq_Inr dest: complete_success_moved)

lemma apply_answer_recorded:
  assumes "apply_answer H E pt t token key dn usage now d = Inr (turn, d')"
  shows "reply_stored d' (t_session_id t) key turn" and "ct_buyer turn = pt_buyer pt" and "sessions_same d d'"
    and "d_messages d' = d_messages d @ [(d_next_message d, ct_agent turn)]"
    and "\<exists>t'. get_task d' (t_id t) = Some t' \<and> t_status t' = T_SUCCEEDED"
proof -
  from assms obtain q :: decision_request and n :: session and r and d1 :: db and d2 :: db where
    a: "apply_prepared E \<lparr>tc_session = t_session_id t, tc_buyer = ns_buyer_id n, tc_offer = dq_offer_id q\<rparr>
         \<lparr>pn_request = Some q, pn_decision = None, pn_immediate = None\<rparr> (Some dn) d = Inr (r, d1)"
    and p: "persist_result (t_session_id t) (pt_buyer pt) key r (pt_replay pt) d1 = Inr (turn, d2)"
    and mv: "task_moved (t_id t) T_SUCCEEDED d2 d'" by (rule apply_answer_cases) (rule that)
  note side = apply_prepared_aside [OF a] and st = persist_result_stored [OF p] and mv = mv [unfolded task_moved_def]
  show "reply_stored d' (t_session_id t) key turn" using st(1) mv reply_stored_cong by metis
  show "ct_buyer turn = pt_buyer pt" by (rule st(4))
  show "sessions_same d d'"
    using side st(2) mv sessions_sameI [of d' d1] sessions_same_trans [of d d1 d'] by (auto simp: aside_def business_same_def)
  show "d_messages d' = d_messages d @ [(d_next_message d, ct_agent turn)]" using st(7) mv side by (simp add: aside_def)
  show "\<exists>t'. get_task d' (t_id t) = Some t' \<and> t_status t' = T_SUCCEEDED" using mv by blast
qed

lemma apply_answer_sound:
  assumes "apply_answer H E pt t token key dn usage now d = Inr (turn, d')" and "legacy_inv d" and "ids_positive d"
  shows "keeps d d'" and "answer_applied t turn d d'"
proof -
  from assms(1) obtain q n r d1 d2 where q: "deserialize_request (t_input_snapshot t) = Inr q"
    and n: "get_session d (t_session_id t) = Some n"
    and a: "apply_prepared E \<lparr>tc_session = t_session_id t, tc_buyer = ns_buyer_id n, tc_offer = dq_offer_id q\<rparr>
         \<lparr>pn_request = Some q, pn_decision = None, pn_immediate = None\<rparr> (Some dn) d = Inr (r, d1)"
    and p: "persist_result (t_session_id t) (pt_buyer pt) key r (pt_replay pt) d1 = Inr (turn, d2)"
    and mv: "task_moved (t_id t) T_SUCCEEDED d2 d'" by (rule apply_answer_cases)
  note ap = apply_model_decision [OF a assms(2,3)] and st = persist_result_stored [OF p]
  have same: "business_same d1 d'" using st(2) mv business_same_trans by (auto simp: task_moved_def)
  show "keeps d d'" using ap same business_same_keeps by blast
  show "answer_applied t turn d d'"
    unfolding answer_applied_def using n q ap apply_prepared_aside [OF a] same st(5,6) by blast
qed

definition turn_recorded :: "pending_turn \<Rightarrow> task \<Rightarrow> chat_turn \<Rightarrow> db \<Rightarrow> db \<Rightarrow> bool" where
  \<comment> \<open>a turn of the task is the stored reply to the buyer's message, and at most that reply is new\<close>
  "turn_recorded pt t turn d d' \<longleftrightarrow>
     (\<exists>key. task_reply_key (t_input_snapshot t) = Inr key \<and> reply_stored d' (t_session_id t) key turn)
     \<and> ct_buyer turn = pt_buyer pt \<and> sessions_same d d'
     \<and> (d_messages d' = d_messages d \<or> d_messages d' = d_messages d @ [(d_next_message d, ct_agent turn)])"

lemma task_moved_recorded:
  assumes "task_moved tid st d d'"
  shows "business_same d d'" and "d_messages d' = d_messages d" and "keeps d d'" and "sessions_same d d'"
    and "\<exists>t'. get_task d' tid = Some t' \<and> t_status t' = st"
  using assms by (auto simp: task_moved_def business_same_def intro: keeps_other sessions_sameI)

lemma chat_finalize_cases:
  assumes "finalize_chat H E pt lt token dn usage clock d = Inr (turn, d')"
  obtains (replayed) t key reply where "leased_task d (t_id lt) token (fst clock) = Inr t"
      and "task_reply_key (t_input_snapshot t) = Inr key" and "stored_reply d (t_session_id t) key = Inr (Some reply)"
      and "settle_replied pt (t_id t) token reply (snd clock) d = Inr (turn, d')"
  | (stale) t key reason d1 y where "leased_task d (t_id lt) token (fst clock) = Inr t"
      and "task_reply_key (t_input_snapshot t) = Inr key" and "chat_stale_reason d t = Inr (Some reason)"
      and "persist_result (t_session_id t) (pt_buyer pt) key stale_turn (pt_replay pt) d = Inr (turn, d1)"
      and "mark_stale (t_id t) token (Some reason) (Some usage) (snd clock) d1 = Inr (y, d')"
  | (applied) t key where "leased_task d (t_id lt) token (fst clock) = Inr t"
      and "task_reply_key (t_input_snapshot t) = Inr key" and "chat_stale_reason d t = Inr None"
      and "apply_answer H E pt t token key dn usage (snd clock) d = Inr (turn, d')"
proof -
  obtain t why key m where l: "leased_task d (t_id lt) token (fst clock) = Inr t" and w: "chat_stale_reason d t = Inr why"
    and k: "task_reply_key (t_input_snapshot t) = Inr key" and m: "stored_reply d (t_session_id t) key = Inr m"
    and rest: "(case (m, why) of
       (Some reply, _) \<Rightarrow> settle_replied pt (t_id t) token reply (snd clock) d
     | (None, Some reason) \<Rightarrow>
         ebind (persist_result (t_session_id t) (pt_buyer pt) key stale_turn (pt_replay pt) d) (\<lambda>(turn, d1).
         ebind (mark_stale (t_id t) token (Some reason) (Some usage) (snd clock) d1) (\<lambda>(_, d2). Inr (turn, d2)))
     | (None, None) \<Rightarrow> apply_answer H E pt t token key dn usage (snd clock) d) = Inr (turn, d')"
    using assms unfolding finalize_chat_def by (elim ebind_InrE) (rule that)
  show thesis
  proof (cases m)
    case (Some reply)
    then show thesis using replayed [of t key reply] l k m rest by simp
  next
    case None
    show thesis
    proof (cases why)
      case (Some reason)
      then obtain d1 y where "persist_result (t_session_id t) (pt_buyer pt) key stale_turn (pt_replay pt) d = Inr (turn, d1)"
        "mark_stale (t_id t) token (Some reason) (Some usage) (snd clock) d1 = Inr (y, d')"
        using rest None by (auto simp: ebind_eq_Inr)
      then show thesis using stale [of t key reason d1 y] l k w Some by blast
    next
      case None
      then show thesis using applied [of t key] l k w rest \<open>m = None\<close> by simp
    qed
  qed
qed

lemma stale_turn_fields [simp]: "tr_outcome stale_turn = TO_SAFE_FAILURE" "tr_offer_id stale_turn = None"
  by (simp_all add: stale_turn_def turn_failure_def)

lemma stale_persist:
  assumes "persist_result (t_session_id t) (pt_buyer pt) key stale_turn (pt_replay pt) d = Inr (turn, d1)"
    and "mark_stale (t_id t) token (Some reason) (Some usage) now d1 = Inr (y, d')"
    and "task_reply_key (t_input_snapshot t) = Inr key"
  shows "turn_recorded pt t turn d d'" and "business_same d d'" and "\<exists>t'. get_task d' (t_id t) = Some t' \<and> t_status t' = T_STALE"
    and "ct_outcome turn = ''SAFE_FAILURE''" and "ct_offer_id turn = None" and "reply_stored d' (t_session_id t) key turn"
proof -
  note p = persist_result_stored [OF assms(1)] and mv = task_moved_recorded [OF stale_moved [OF assms(2)]]
  show r: "reply_stored d' (t_session_id t) key turn" using p(1) reply_stored_cong [OF mv(2)] by simp
  show b: "business_same d d'" using p(2) mv(1) by (rule business_same_trans)
  then show "turn_recorded pt t turn d d'"
    using r p(4,7) mv(2) assms(3) by (auto simp: turn_recorded_def business_same_def intro: sessions_sameI)
  show "\<exists>t'. get_task d' (t_id t) = Some t' \<and> t_status t' = T_STALE" by (rule mv(5))
  show "ct_outcome turn = ''SAFE_FAILURE''" "ct_offer_id turn = None" using p(5,6) by simp_all
qed

lemma finalize_recorded:
  assumes "finalize_chat H E pt lt token dn usage clock d = Inr (turn, d')"
  obtains t where "leased_task d (t_id lt) token (fst clock) = Inr t" and "turn_recorded pt t turn d d'"
  using assms
proof (cases rule: chat_finalize_cases)
  case (replayed t key reply)
  note s = settle_replied_moved [OF replayed(4)]
  note mv = task_moved_recorded [OF s(2)]
  have "reply_stored d' (t_session_id t) key turn"
    using stored_reply_Some [OF replayed(3)] message_by_request_cong [OF mv(2)] by (simp add: s(1) snapshot_stored)
  with replayed(2) mv s(1) have "turn_recorded pt t turn d d'" by (auto simp: turn_recorded_def turn_snapshot_def)
  with replayed(1) show thesis by (rule that)
next
  case (stale t key reason d1 y)
  show thesis by (rule that [OF stale(1) stale_persist(1) [OF stale(4,5,2)]])
next
  case (applied t key)
  then show thesis using apply_answer_recorded [OF applied(4)] by (intro that [of t]) (auto simp: turn_recorded_def)
qed

text \<open>
  C12: An answer of the language model takes effect only on the facts it was asked about, whoever changed them in between.
  Under an unexpired lease of its task, the answer is applied, as an authorised action of the agent that the reply
  announces, when the negotiation, the seller's rules, the current offer and the public product are unchanged, and the task
  succeeds; otherwise nothing but a reply without commitment is stored and the task becomes stale, or the reply is there
  already and the task is cancelled. The buyer's message has exactly this one reply, and the invariants are kept.
\<close>

theorem chat_answer_sound:
  assumes "finalize_chat H E pt lt token dn usage clock d = Inr (turn, d')" and "legacy_inv d" and "ids_positive d"
  shows "legacy_inv d' \<and> approval_history d d'
    \<and> (\<exists>t t'. get_task d (t_id lt) = Some t \<and> active_lease t token (fst clock) \<and> get_task d' (t_id t) = Some t'
         \<and> turn_recorded pt t turn d d'
         \<and> (t_status t' = T_SUCCEEDED \<and> question_stands d t \<and> answer_applied t turn d d'
            \<or> t_status t' = T_STALE \<and> \<not> question_stands d t \<and> business_same d d' \<and> ct_outcome turn = ''SAFE_FAILURE'' \<and> ct_offer_id turn = None
            \<or> t_status t' = T_CANCELLED \<and> business_same d d' \<and> d_messages d' = d_messages d \<and> ct_replay turn))"
proof -
  obtain t where l: "leased_task d (t_id lt) token (fst clock) = Inr t" and r: "turn_recorded pt t turn d d'"
    using assms(1) by (rule finalize_recorded)
  from assms(1) show ?thesis
  proof (cases rule: chat_finalize_cases)
    case (replayed u key reply)
    note s = settle_replied_moved [OF replayed(4)]
    have "u = t" using l replayed(1) by simp
    then show ?thesis
      using task_moved_recorded [OF s(2)] leased_taskD [OF l] r assms(2) by (auto simp: keeps_def s(1) turn_snapshot_def)
  next
    case (stale u key reason d1 y)
    note s = stale_persist [OF stale(4,5,2)]
    have "u = t" using l stale(1) by simp
    moreover from stale(3) have "\<not> question_stands d u" using chat_fresh [of d u] by auto
    ultimately show ?thesis
      using s leased_taskD [OF l] r business_same_keeps [OF keeps_refl s(2)] assms(2) by (auto simp: keeps_def)
  next
    case (applied u key)
    have "u = t" using l applied(1) by simp
    then show ?thesis
      using apply_answer_sound [OF applied(4) assms(2,3)] apply_answer_recorded(5) [OF applied(4)] leased_taskD [OF l] r assms(2)
        applied(3) chat_fresh [of d u] by (auto simp: keeps_def)
  qed
qed

section \<open>Repeated requests\<close>

lemma find_append_Some: "find P xs = Some x \<Longrightarrow> find P (xs @ ys) = Some x"
  by (induction xs) (auto split: if_splits)

lemma message_kept:
  assumes "message_by_request_id d sid rid = Some m" and "\<exists>ms. d_messages d' = d_messages d @ ms"
  shows "message_by_request_id d' sid rid = Some m"
  using assms by (auto simp: message_by_request_id_def trows_def find_append_Some)

lemma negotiation_kept:
  assumes "get_negotiation d sid buyer True = Inr n" and "sessions_same d d'"
  shows "\<exists>n'. get_negotiation d' sid buyer True = Inr n'"
proof -
  from assms(1) have n: "get_session d sid = Some n" "ns_buyer_id n = buyer" "ns_graph_version n = None"
    by (auto simp: get_negotiation_def require_legacy_runtime_def ebind_eq_Inr split: option.splits if_splits)
  with assms(2) obtain n' where "get_session d' sid = Some n'" "same_session n n'" unfolding sessions_same_def by blast
  with n show ?thesis by (simp add: get_negotiation_def require_legacy_runtime_def same_session_def)
qed

definition request_stored :: "db \<Rightarrow> int \<Rightarrow> string \<Rightarrow> string \<Rightarrow> message \<Rightarrow> bool" where
  "request_stored d sid rid fingerprint m \<longleftrightarrow>
     message_by_request_id d sid rid = Some m \<and> ms_role m = BUYER_MESSAGE \<and> ms_request_fingerprint m = Some fingerprint
     \<and> ms_session_id m = sid \<and> ms_request_id m = rid"

definition answered :: "db \<Rightarrow> int \<Rightarrow> string \<Rightarrow> string \<Rightarrow> chat_turn \<Rightarrow> bool" where
  "answered d sid rid fingerprint turn \<longleftrightarrow>
     request_stored d sid rid fingerprint (ct_buyer turn) \<and> reply_stored d sid (reply_request_id rid) turn"

lemma answered_replays:
  assumes "answered d sid rid (request_fingerprint H content offer) turn" and "get_negotiation d sid buyer True = Inr n"
  shows "send_buyer_message H g E env sid buyer rid content offer d = (Inr (turn\<lparr>ct_replay := True\<rparr>), d)"
proof -
  have "prepare_chat H (cc_policy g) E sid buyer rid content offer d
      = Inr (Answered (turn_snapshot (ct_buyer turn) (ct_agent turn)), d)"
    using assms by (simp add: prepare_chat_def answered_def request_stored_def reply_stored_def resume_existing_def)
  then show ?thesis using assms(1) by (simp add: send_buyer_message_def answered_def reply_stored_def)
qed

definition runs_for :: "pending_turn \<Rightarrow> task \<Rightarrow> db \<Rightarrow> bool" where
  \<comment> \<open>the task belongs to the waiting request\<close>
  "runs_for pt t d \<longleftrightarrow> get_task d (t_id t) = Some t \<and> t_session_id t = pt_session pt
     \<and> task_reply_key (t_input_snapshot t) = Inr (reply_request_id (ms_request_id (pt_buyer pt)))"

definition turn_of :: "pending_turn \<Rightarrow> chat_turn \<Rightarrow> db \<Rightarrow> db \<Rightarrow> bool" where
  "turn_of pt turn d d' \<longleftrightarrow>
     reply_stored d' (pt_session pt) (reply_request_id (ms_request_id (pt_buyer pt))) turn \<and> ct_buyer turn = pt_buyer pt
     \<and> sessions_same d d' \<and> (\<exists>ms. d_messages d' = d_messages d @ ms)"

lemma turn_ofI:
  assumes "turn_recorded pt t turn d d'" and "runs_for pt t d"
  shows "turn_of pt turn d d'"
  using assms by (auto simp: turn_recorded_def turn_of_def runs_for_def)

lemma loaded_reply_turn:
  assumes "or_stored_reply pt d = (Inr turn, d')"
  shows "turn_of pt turn d d'"
proof -
  from assms have d: "d' = d" and l: "load_reply d pt = Inr (Some turn)"
    by (auto simp: or_stored_reply_def split: sum.splits option.splits)
  then obtain m where m: "stored_reply d (pt_session pt) (reply_request_id (ms_request_id (pt_buyer pt))) = Inr (Some m)"
    and turn: "turn = turn_snapshot (pt_buyer pt) m" by (auto simp: load_reply_def ebind_eq_Inr)
  show ?thesis
    using stored_reply_Some [OF m] by (simp add: turn_of_def d turn snapshot_stored sessions_sameI) (simp add: turn_snapshot_def)
qed

lemma give_up_Inl [simp]: "give_up t token category message now d \<noteq> (Inr x, d')"
  by (auto simp: give_up_def split: prod.splits sum.splits)

lemma model_failed_Inl [simp]: "model_failed g env t token err d \<noteq> (Inr x, d')"
  by (auto simp: model_failed_def Let_def split: prod.splits sum.splits option.splits bool.splits)

lemma reconcile_turn:
  assumes "reconcile_reply pt t token clock d = Inr (r, d')" and "runs_for pt t d"
  shows "(case r of None \<Rightarrow> d' = d | Some turn \<Rightarrow> turn_of pt turn d d')"
proof (cases r)
  case None
  with assms(1) show ?thesis by (auto simp: reconcile_reply_def ebind_eq_Inr split: option.splits)
next
  case (Some turn)
  with assms(1) obtain key u reply where k: "task_reply_key (t_input_snapshot t) = Inr key"
    and u: "leased_task d (t_id t) token (fst clock) = Inr u"
    and m: "stored_reply d (t_session_id u) key = Inr (Some reply)"
    and s: "settle_replied pt (t_id u) token reply (snd clock) d = Inr (turn, d')"
    by (auto simp: reconcile_reply_def ebind_eq_Inr split: option.splits)
  note s' = settle_replied_moved [OF s] note mv = task_moved_recorded [OF s'(2)]
  from leased_taskD [OF u] assms(2) have "u = t" by (simp add: runs_for_def)
  have "reply_stored d' (t_session_id u) key turn"
    using stored_reply_Some [OF m] message_by_request_cong [OF mv(2)] by (simp add: s'(1) snapshot_stored)
  with k mv \<open>u = t\<close> have "turn_recorded pt t turn d d'" by (auto simp: turn_recorded_def s'(1) turn_snapshot_def)
  with Some assms(2) show ?thesis by (simp add: turn_ofI)
qed

lemma finalize_turn:
  assumes "finalize_chat H E pt t token dn usage clock d = Inr (turn, d')" and "runs_for pt t d"
  shows "turn_of pt turn d d'"
proof -
  obtain u where "leased_task d (t_id t) token (fst clock) = Inr u" and r: "turn_recorded pt u turn d d'"
    using assms(1) by (rule finalize_recorded)
  with leased_taskD assms(2) have "u = t" by (auto simp: runs_for_def)
  then show ?thesis using r assms(2) turn_ofI by blast
qed

lemma turn_of_trans:
  assumes "turn_of pt turn e d'" and "sessions_same d e" and "\<exists>ms. d_messages e = d_messages d @ ms"
  shows "turn_of pt turn d d'"
  using assms sessions_same_trans [of d e d'] by (auto simp: turn_of_def)

lemma model_answered_turn:
  assumes "model_answered H env pt t token dn usage d = (Inr turn, d')" and "runs_for pt t d"
  shows "turn_of pt turn d d'"
proof (cases "finalize_chat H (re_agent env) pt t token dn usage (re_result_at env) d")
  case (Inr p)
  then obtain turn' d1 where p: "finalize_chat H (re_agent env) pt t token dn usage (re_result_at env) d = Inr (turn', d1)"
    by (cases p) simp
  with assms(1) have "turn' = turn" "d1 = d'" by (simp_all add: model_answered_def)
  then show ?thesis using finalize_turn p assms(2) by blast
next
  case (Inl e)
  with assms(1) have "e = ServiceExn TaskLease" "or_stored_reply pt d = (Inr turn, d')"
    by (simp_all add: model_answered_def split: exn.splits service_error.splits)
  then show ?thesis using loaded_reply_turn by blast
qed

lemma ask_and_apply_turn:
  assumes "ask_and_apply H g env pt t token d = (Inr turn, d')" and "runs_for pt t d"
  shows "turn_of pt turn d d'"
  using assms unfolding ask_and_apply_def by (auto split: sum.splits dest: model_answered_turn)

lemma execute_leased_turn:
  assumes "execute_leased H g env pt t d = (Inr turn, d')" and "runs_for pt t d"
  shows "turn_of pt turn d d'"
proof -
  obtain token where token: "t_lease_token t = Some token"
    using assms(1) by (auto simp: execute_leased_def split: option.splits)
  show ?thesis
  proof (cases "reconcile_reply pt t token (re_check_at env) d")
    case (Inl e)
    with assms(1) token have "e = ServiceExn TaskLease" "or_stored_reply pt d = (Inr turn, d')"
      by (simp_all add: execute_leased_def split: exn.splits service_error.splits)
    then show ?thesis using loaded_reply_turn by blast
  next
    case (Inr p)
    then obtain r d1 where r: "reconcile_reply pt t token (re_check_at env) d = Inr (r, d1)" by (cases p) simp
    note c = reconcile_turn [OF r assms(2)]
    show ?thesis
    proof (cases r)
      case (Some x)
      with r assms(1) token have "x = turn" "d1 = d'" by (simp_all add: execute_leased_def)
      with c Some show ?thesis by simp
    next
      case None
      with c r assms(1) token have "ask_and_apply H g env pt t token d = (Inr turn, d')" by (simp add: execute_leased_def)
      then show ?thesis using assms(2) by (rule ask_and_apply_turn)
    qed
  qed
qed

lemma lease_gives:
  assumes "lease_task tid w secs token now d = Inr (Some t', d')" and "get_task d tid = Some t" and "t_id t = tid"
  shows "get_task d' tid = Some t'" and "same_order t t'" and "d_messages d' = d_messages d" and "d_sessions d' = d_sessions d"
proof -
  obtain x where g: "give_lease x token secs now t d = Inr (t', d')"
    using assms(1,2) unfolding lease_task_def locked_task_def by (auto simp: ebind_eq_Inr some_or_eq_Inr split: if_splits)
  have m: "d_messages (followup_manual t d) = d_messages d" "d_sessions (followup_manual t d) = d_sessions d"
    by (simp_all add: followup_manual_def split: option.split)
  show "get_task d' tid = Some t'" "d_messages d' = d_messages d" "d_sessions d' = d_sessions d"
    using g m assms(3) by (auto simp: give_lease_def flush_task_eq_Inr split: if_splits)
  show "same_order t t'"
    using g by (auto simp: give_lease_def flush_task_eq_Inr same_order_def exhausted_def apply_lease_def clear_lease_def split: if_splits)
qed

lemma without_lease_turn:
  assumes "without_lease pt d = Inr turn"
  shows "load_reply d pt = Inr (Some turn)"
proof (cases "load_reply d pt")
  case (Inl e)
  with assms show ?thesis by (simp add: without_lease_def)
next
  case (Inr r)
  with assms show ?thesis by (cases r) (simp_all add: without_lease_def ebind_eq_Inr)
qed

lemma execute_pending_turn:
  assumes "execute_pending H g env pt d = (Inr turn, d')" and "runs_for pt t d" and "t_id t = pt_task pt"
  shows "turn_of pt turn d d'"
proof (cases "lease_task (pt_task pt) (''chat-sync:'' @ show_int (pt_task pt)) (rp_lease (cc_policy g)) (re_token env)
             (re_lease_at env) d")
  case (Inl e)
  with assms(1) show ?thesis by (simp add: execute_pending_def)
next
  case (Inr p)
  then obtain r d1 where r: "lease_task (pt_task pt) (''chat-sync:'' @ show_int (pt_task pt)) (rp_lease (cc_policy g)) (re_token env)
             (re_lease_at env) d = Inr (r, d1)" by (cases p) simp
  show ?thesis
  proof (cases r)
    case None
    from assms(1) have "(without_lease pt d1, d1) = (Inr turn, d')"
      by (simp only: execute_pending_def r None commit_Inr prod.case sum.case option.case)
    then have "without_lease pt d1 = Inr turn" "d' = d1" by (blast elim: Pair_inject)+
    moreover from None r have "d1 = d" by (auto simp: lease_task_def ebind_eq_Inr split: if_splits)
    ultimately have "or_stored_reply pt d = (Inr turn, d')" using without_lease_turn [of pt d turn] by (simp add: or_stored_reply_def)
    then show ?thesis by (rule loaded_reply_turn)
  next
    case (Some t')
    from assms(2) have t: "get_task d (pt_task pt) = Some t" by (simp add: runs_for_def assms(3))
    note l = lease_gives [OF r [unfolded Some] t assms(3)]
    have run: "runs_for pt t' d1" using assms(2,3) l(1,2) by (simp add: runs_for_def same_order_def)
    from assms(1) have "(if t_status t' = T_FAILED then (Inl recovery_required, d1) else execute_leased H g env pt t' d1) = (Inr turn, d')"
      by (simp only: execute_pending_def r Some commit_Inr prod.case sum.case option.case)
    then have "execute_leased H g env pt t' d1 = (Inr turn, d')" by (simp split: if_splits)
    then have "turn_of pt turn d1 d'" using run by (rule execute_leased_turn)
    then show ?thesis by (rule turn_of_trans) (simp_all add: l sessions_sameI)
  qed
qed

lemma created_row:
  assumes "create_task_in_transaction H given observed fresh q d = Inr ((t, again), d')" and "task_of_key d (tq_type q) (tq_key q) = None"
  shows "get_task d' (t_id t) = Some t" and "t_session_id t = tq_session q" and "t_input_snapshot t = tq_input q"
    and "d_messages d' = d_messages d" and "d_sessions d' = d_sessions d"
proof -
  obtain hash corr where "create_validated q hash corr d = Inr ((t, again), d')"
    using assms(1) by (auto simp: create_task_in_transaction_def ebind_eq_Inr)
  with assms(2) obtain versions where f: "flush_task (d_next_task d) (new_task q hash corr versions (d_next_task d))
      (d\<lparr>d_next_task := d_next_task d + 1\<rparr>) = Inr (t, d')"
    by (auto simp: create_validated_def ebind_eq_Inr Let_def)
  then have t: "t = new_task q hash corr versions (d_next_task d)" by (simp add: flush_task_eq_Inr)
  show "t_session_id t = tq_session q" "t_input_snapshot t = tq_input q" by (simp_all add: t new_task_def)
  show "get_task d' (t_id t) = Some t" using f by (simp add: flush_task_eq_Inr new_task_def)
  show "d_messages d' = d_messages d" "d_sessions d' = d_sessions d" using f by (simp_all add: flush_task_eq_Inr)
qed

lemma input_reply_key [simp]: "key \<noteq> [] \<Longrightarrow> task_reply_key (serialize_chat_input mid key q) = Inr key"
  by (simp add: task_reply_key_def serialize_chat_input_def)

lemma reply_request_id_not_Nil [simp]: "reply_request_id rid \<noteq> []"
  by (simp add: reply_request_id_def)

lemma decide_turn_stored:
  assumes "decide_turn H p E cx rid content history m d = Inr (r, d')"
    and "task_of_key d CHAT_DECISION (task_business_key (ce_digest E) (tc_session cx) rid) = None" and "ms_request_id m = rid"
  shows "case r of
      Answered turn \<Rightarrow> reply_stored d' (tc_session cx) (reply_request_id rid) turn \<and> ct_buyer turn = m \<and> sessions_same d d'
        \<and> (\<exists>ms. d_messages d' = d_messages d @ ms)
    | Awaiting pt \<Rightarrow> pt_session pt = tc_session cx \<and> pt_buyer pt = m \<and> sessions_same d d' \<and> d_messages d' = d_messages d
        \<and> (\<exists>t. t_id t = pt_task pt \<and> runs_for pt t d')"
proof -
  obtain prep where prep: "prepare_turn (ce_agent E) cx content history (tc_offer cx) d = Inr prep"
    and rest: "(case (requires_model prep, pn_request prep) of
       (True, Some q) \<Rightarrow> ask_model H p E (tc_session cx) rid m q d
     | _ \<Rightarrow>
         ebind (apply_prepared (ce_agent E) cx prep None d) (\<lambda>(r, d1).
         ebind (persist_result (tc_session cx) m (reply_request_id rid) r False d1) (\<lambda>(turn, d2).
         Inr (Answered turn, d2)))) = Inr (r, d')"
    using assms(1) by (auto simp: decide_turn_def ebind_eq_Inr)
  show ?thesis
  proof (cases "requires_model prep")
    case True
    then obtain q where "pn_request prep = Some q" by (auto simp: requires_model_def)
    with rest True obtain current t again where
      c: "create_task_in_transaction H None (ce_observed E) (ce_fresh E)
         (chat_task_request (ce_digest E) p (tc_session cx) rid current (serialize_chat_input (ms_id m) (reply_request_id rid) q)) d
         = Inr ((t, again), d')"
      and r: "r = Awaiting \<lparr>pt_session = tc_session cx, pt_buyer = m, pt_task = t_id t, pt_replay = False\<rparr>"
      by (auto simp: ask_model_def ebind_eq_Inr)
    have "task_of_key d (tq_type (chat_task_request (ce_digest E) p (tc_session cx) rid current
        (serialize_chat_input (ms_id m) (reply_request_id rid) q)))
      (tq_key (chat_task_request (ce_digest E) p (tc_session cx) rid current
        (serialize_chat_input (ms_id m) (reply_request_id rid) q))) = None"
      using assms(2) by (simp add: chat_task_request_def)
    note row = created_row [OF c this]
    show ?thesis
      using row assms(3) by (auto simp: r runs_for_def chat_task_request_def intro: sessions_sameI)
  next
    case False
    with rest obtain x d1 turn where a: "apply_prepared (ce_agent E) cx prep None d = Inr (x, d1)"
      and s: "persist_result (tc_session cx) m (reply_request_id rid) x False d1 = Inr (turn, d')" and r: "r = Answered turn"
      by (auto simp: ebind_eq_Inr)
    note side = apply_prepared_aside [OF a] and st = persist_result_stored [OF s]
    have "sessions_same d d'"
      using side st(2) sessions_sameI [of d' d1] sessions_same_trans [of d d1 d'] by (auto simp: aside_def business_same_def)
    then show ?thesis using st(1,4,7) side by (simp add: r aside_def)
  qed
qed

lemma fresh_turn_stored:
  assumes "fresh_turn H p E n sid buyer rid content offer d = Inr (r, d')"
    and "task_of_key d CHAT_DECISION (task_business_key (ce_digest E) sid rid) = None"
  shows "case r of
      Answered turn \<Rightarrow> answered d' sid rid (request_fingerprint H content offer) turn \<and> sessions_same d d'
    | Awaiting pt \<Rightarrow> pt_session pt = sid \<and> request_stored d' sid rid (request_fingerprint H content offer) (pt_buyer pt)
        \<and> sessions_same d d' \<and> (\<exists>t. t_id t = pt_task pt \<and> runs_for pt t d')"
proof -
  obtain oid d1 m d2 where sub: "submit_offer E n sid buyer offer d = Inr (oid, d1)"
    and post: "post_message sid BUYER_MESSAGE content rid (Some (request_fingerprint H content offer)) None oid d1 = Inr (m, d2)"
    and dec: "decide_turn H p E \<lparr>tc_session = sid, tc_buyer = buyer, tc_offer = oid\<rparr> rid content (recent_history d sid) m d2
      = Inr (r, d')"
    using assms(1) unfolding fresh_turn_def by (elim raise_InrE ebind_InrE prod_InrE) (auto split: prod.splits)
  note side = submit_offer_aside [OF sub] and pm = post_message_Inr [OF post]
  have tasks: "d_tasks d2 = d_tasks d" using side pm(6) by (simp add: aside_def)
  have "task_of_key d2 CHAT_DECISION (task_business_key (ce_digest E) sid rid) = None"
    using assms(2) by (simp add: task_of_key_def tasks)
  then have key: "task_of_key d2 CHAT_DECISION (task_business_key (ce_digest E)
      (tc_session \<lparr>tc_session = sid, tc_buyer = buyer, tc_offer = oid\<rparr>) rid) = None" by simp
  note c = decide_turn_stored [OF dec key pm(8)]
  have same: "sessions_same d d2"
    using side pm(6) sessions_sameI [of d2 d1] sessions_same_trans [of d d1 d2] by (auto simp: aside_def)
  have req: "request_stored d'' sid rid (request_fingerprint H content offer) m" if "\<exists>ms. d_messages d'' = d_messages d2 @ ms" for d''
    using message_kept [OF pm(2) that] pm(3,7,8,10) by (simp add: request_stored_def)
  show ?thesis
  proof (cases r)
    case (Answered turn)
    with c req [of d'] same show ?thesis by (auto simp: answered_def intro: sessions_same_trans)
  next
    case (Awaiting pt)
    with c req [of d'] same show ?thesis by (auto intro: sessions_same_trans)
  qed
qed

lemma send_cases:
  assumes "send_buyer_message H g E env sid buyer rid content offer d = (Inr turn, d')"
  obtains (now) "prepare_chat H (cc_policy g) E sid buyer rid content offer d = Inr (Answered turn, d')"
  | (later) pt d1 where "prepare_chat H (cc_policy g) E sid buyer rid content offer d = Inr (Awaiting pt, d1)"
      and "execute_pending H g env pt d1 = (Inr turn, d')"
proof (cases "prepare_chat H (cc_policy g) E sid buyer rid content offer d")
  case (Inl e)
  with assms show thesis by (simp add: send_buyer_message_def)
next
  case (Inr p)
  obtain r d1 where p: "p = (r, d1)" by (cases p)
  show thesis
  proof (cases r)
    case (Answered x)
    with assms Inr p have "(Inr x :: exn + chat_turn, d1) = (Inr turn, d')" by (simp only: send_buyer_message_def commit_Inr prod.case sum.case prepared_turn.case)
    then show thesis using now Inr p Answered by simp
  next
    case (Awaiting pt)
    with assms Inr p have "execute_pending H g env pt d1 = (Inr turn, d')"
      by (simp only: send_buyer_message_def commit_Inr prod.case sum.case prepared_turn.case)
    then show thesis using later Inr p Awaiting by simp
  qed
qed

lemma send_answered:
  assumes "send_buyer_message H g E env sid buyer rid content offer d = (Inr turn, d')"
    and "message_by_request_id d sid rid = None"
    and "task_of_key d CHAT_DECISION (task_business_key (ce_digest E) sid rid) = None"
  shows "answered d' sid rid (request_fingerprint H content offer) turn \<and> (\<exists>n. get_negotiation d' sid buyer True = Inr n)"
proof -
  have fresh: "\<exists>n. get_negotiation d sid buyer True = Inr n \<and> fresh_turn H (cc_policy g) E n sid buyer rid content offer d = Inr (r, d1)"
    if "prepare_chat H (cc_policy g) E sid buyer rid content offer d = Inr (r, d1)" for r d1
    using that assms(2) by (auto simp: prepare_chat_def ebind_eq_Inr)
  show ?thesis
    using assms(1)
  proof (cases rule: send_cases)
    case now
    with fresh obtain n where n: "get_negotiation d sid buyer True = Inr n"
      and "fresh_turn H (cc_policy g) E n sid buyer rid content offer d = Inr (Answered turn, d')" by blast
    with fresh_turn_stored [OF this(2) assms(3)] show ?thesis using negotiation_kept [OF n] by auto
  next
    case (later pt d1)
    with fresh obtain n where n: "get_negotiation d sid buyer True = Inr n"
      and f: "fresh_turn H (cc_policy g) E n sid buyer rid content offer d = Inr (Awaiting pt, d1)" by blast
    from fresh_turn_stored [OF f assms(3)] obtain t where t: "t_id t = pt_task pt" "runs_for pt t d1" and sid: "pt_session pt = sid"
      and req: "request_stored d1 sid rid (request_fingerprint H content offer) (pt_buyer pt)" and same: "sessions_same d d1" by auto
    note turn = execute_pending_turn [OF later(2) t(2,1), unfolded turn_of_def]
    have "request_stored d' sid rid (request_fingerprint H content offer) (pt_buyer pt)"
      using req turn message_kept [of d1 sid rid "pt_buyer pt" d'] by (simp add: request_stored_def)
    moreover have "sessions_same d d'" using same turn sessions_same_trans by blast
    ultimately show ?thesis
      using turn sid req negotiation_kept [OF n] by (simp add: answered_def request_stored_def)
  qed
qed

text \<open>
  C26: A message takes effect once. When a new request of the buyer was answered, at once by the rules or later by the
  language model, the same request sent again with the same content and offer, in any environment and with any answer of
  the model, returns the same turn marked as a replay and writes nothing.
\<close>

theorem chat_replays:
  assumes "send_buyer_message H g E env sid buyer rid content offer d = (Inr turn, d')"
    and "message_by_request_id d sid rid = None"
    and "task_of_key d CHAT_DECISION (task_business_key (ce_digest E) sid rid) = None"
  shows "send_buyer_message H g' E' env' sid buyer rid content offer d' = (Inr (turn\<lparr>ct_replay := True\<rparr>), d')"
proof -
  obtain n where "get_negotiation d' sid buyer True = Inr n" using send_answered [OF assms] by blast
  with send_answered [OF assms] show ?thesis by (intro answered_replays) simp_all
qed

section \<open>A question that the model answers\<close>

definition sample_chat_env :: chat_env where
  "sample_chat_env = \<lparr>ce_agent = sample_env, ce_cancel_at = 0, ce_offer_at = 0, ce_observed = None,
     ce_fresh = ''00000000-0000-4000-8000-000000000001'', ce_digest = (\<lambda>s. s)\<rparr>"

definition sample_chat_config :: chat_config where
  "sample_chat_config = \<lparr>cc_policy = \<lparr>rp_max_attempts = 3, rp_base = 1, rp_max = 30, rp_jitter = 0, rp_lease = 60\<rparr>,
     cc_prices = \<lparr>up_input = None, up_output = None, up_cached = None, up_currency = None\<rparr>, cc_unit = (\<lambda>_ _. 0)\<rparr>"

definition sample_inquiry :: decision where
  "sample_inquiry = \<lparr>dn_action = DO_INQUIRY, dn_acts = [\<lparr>da_kind = ASK_FACT, da_subject = AVAILABILITY, da_requested = None\<rparr>],
     dn_offer_id = None, dn_price = None, dn_payer = None, dn_cost = None, dn_discount = None, dn_terms = [],
     dn_reason = ''asked'', dn_reply = ''yes''\<rparr>"

definition sample_provider :: provider_usage where
  "sample_provider = \<lparr>pu_provider = ''p'', pu_model_name = ''m'', pu_input = None, pu_output = None, pu_cached = None, pu_total = None\<rparr>"

definition sample_run_env :: run_env where
  "sample_run_env = \<lparr>re_token = ''lease'', re_lease_at = 10, re_check_at = (11, 12),
     re_answer = (\<lambda>q. Inr (sample_inquiry, sample_provider)), re_plan_at = 13, re_fail_at = 14, re_result_at = (15, 16),
     re_agent = sample_env\<rparr>"

abbreviation sample_hash :: "json \<Rightarrow> string" where
  "sample_hash \<equiv> \<lambda>_. ''h''"

definition sample_question :: message where
  "sample_question = \<lparr>ms_id = 1, ms_source_id = None, ms_public_seq = None, ms_session_id = 1, ms_role = BUYER_MESSAGE,
     ms_content = ''hi'', ms_request_id = ''request1'', ms_request_fingerprint = Some ''h'', ms_agent_outcome = None,
     ms_formal_offer_id = None\<rparr>"

definition sample_product_json :: json where
  "sample_product_json = JObj [(''ok'', JBool True), (''product'', JObj
     [(''id'', JInt 1), (''title'', JStr ''bike''), (''description'', JStr ''used''),
      (''listed_price'', JStr (show_cents 20000)), (''status'', JStr ''AVAILABLE'')])]"

definition sample_state_json :: json where
  "sample_state_json = JObj [(''ok'', JBool True), (''negotiation'', JObj
     [(''id'', JInt 1), (''product_id'', JInt 1), (''status'', JStr ''ACTIVE''),
      (''current_offer_id'', JNull), (''confirmed_offer_id'', JNull), (''confirmed_at'', JNull), (''confirmation_source'', JNull),
      (''round_count'', JInt 0), (''version'', JInt 1), (''policy_version'', JInt 1), (''negotiation_style'', JStr ''BALANCED''),
      (''max_rounds'', JInt 5), (''recent_offers'', JArr [])])]"

definition sample_chat_request :: decision_request where
  "sample_chat_request = \<lparr>dq_message = ''hi'', dq_product = sample_product_json, dq_negotiation = sample_state_json, dq_history = [],
     dq_offer_id = None\<rparr>"

definition sample_chat_task :: task where
  "sample_chat_task = new_task (chat_task_request (\<lambda>s. s) (cc_policy sample_chat_config) 1 ''request1'' None
     (serialize_chat_input 1 (reply_request_id ''request1'') sample_chat_request)) ''h'' ''00000000-0000-4000-8000-000000000001'' (1, 1) 1"

definition sample_chat_db :: "task list \<Rightarrow> message list \<Rightarrow> db" where
  "sample_chat_db ts ms = sample_session\<lparr>d_tasks := map (\<lambda>t. (t_id t, t)) ts, d_next_task := int (length ts) + 1,
     d_messages := map (\<lambda>m. (ms_id m, m)) ms, d_next_message := int (length ms) + 1\<rparr>"

lemma sample_chat_rows:
  "get_session (sample_chat_db ts ms) 1 = Some \<lparr>ns_id = 1, ns_product_id = 1, ns_buyer_id = ''buyer'',
      ns_status = ACTIVE, ns_current_offer_id = None, ns_confirmed_offer_id = None,
      ns_confirmed_at = None, ns_confirmation_request_id = None, ns_confirmation_source = None,
      ns_round_count = 0, ns_version = 1, ns_graph_version = None, ns_archived_at = None,
      ns_lifecycle_checked_at = None, ns_next_input_seq = 1, ns_last_resolved_input_seq = 0,
      ns_next_public_seq = 1\<rparr>"
  "get_policy (sample_chat_db ts ms) 1 = Some sample_policy"
  "get_product (sample_chat_db ts ms) 1 = Some \<lparr>p_id = 1, p_seller_id = ''seller'', p_title = ''bike'', p_product_version = 1,
        p_description = ''used'', p_listed_price = 20000, p_status = AVAILABLE\<rparr>"
  "d_offers (sample_chat_db ts ms) = []" "d_tasks (sample_chat_db ts ms) = map (\<lambda>t. (t_id t, t)) ts"
  "d_next_task (sample_chat_db ts ms) = int (length ts) + 1"
  by (simp_all add: sample_chat_db_def sample_session_eq sample_db_def empty_db_def)

lemma sample_start: "sample_session = sample_chat_db [] []"
  by (simp add: sample_chat_db_def sample_session_eq sample_db_def empty_db_def)

lemma sample_asked:
  "post_message 1 BUYER_MESSAGE ''hi'' ''request1'' (Some ''h'') None None (sample_chat_db [] []) = Inr (sample_question, sample_chat_db [] [sample_question])"
  by (simp add: post_message_def message_by_request_id_def sample_chat_db_def sample_question_def trows_def tadd_def Let_def)

lemma sample_chat_prepared:
  "prepare_turn sample_env \<lparr>tc_session = 1, tc_buyer = ''buyer'', tc_offer = None\<rparr> ''hi'' h None (sample_chat_db ts ms)
     = Inr \<lparr>pn_request = Some (sample_chat_request\<lparr>dq_history := h\<rparr>), pn_decision = None, pn_immediate = None\<rparr>"
proof -
  have "get_product_info \<lparr>tc_session = 1, tc_buyer = ''buyer'', tc_offer = None\<rparr> (sample_chat_db ts ms) = Inr sample_product_json"
    by (simp add: get_product_info_def tool_read_def get_for_negotiation_def sample_chat_rows product_result_def sample_product_json_def
        public_snapshot_def)
  moreover have "get_negotiation_state sample_env \<lparr>tc_session = 1, tc_buyer = ''buyer'', tc_offer = None\<rparr> (sample_chat_db ts ms)
      = Inr sample_state_json"
    by (simp add: get_negotiation_state_def tool_read_def get_state_def get_negotiation_def policy_for_def sample_chat_rows
        state_result_def sample_state_json_def sample_policy_def trows_def)
  moreover have "strip ''hi'' = ''hi''" by (simp add: strip_def is_space_def)
  moreover have "is_success sample_product_json" "is_success sample_state_json"
    by (simp_all add: is_success_def sample_product_json_def sample_state_json_def)
  ultimately show ?thesis
    by (simp add: prepare_turn_def prepared_context_def with_authorization_def prepared_request_def sample_chat_request_def Let_def)
qed

lemma sample_no_history [simp]: "sample_chat_request\<lparr>dq_history := []\<rparr> = sample_chat_request"
  by (simp add: sample_chat_request_def)

lemma sample_valid_key: "valid_identifier 128 ''chat:1:request1'' = Inr ''chat:1:request1''"
  by (simp add: valid_identifier_def is_alnum_def)

lemma sample_correlation:
  "correlation_id None None ''00000000-0000-4000-8000-000000000001'' = Inr ''00000000-0000-4000-8000-000000000001''"
  by (simp add: correlation_id_def uuid_ok)

lemma sample_input_ok: "json_object sample_hash (serialize_chat_input 1 (reply_request_id ''request1'') sample_chat_request)
    = Inr (serialize_chat_input 1 (reply_request_id ''request1'') sample_chat_request, ''h'')"
  by (simp add: json_object_def serialize_chat_input_def sample_chat_request_def sample_product_json_def sample_state_json_def)

lemma sample_created:
  "ask_model sample_hash (cc_policy sample_chat_config) sample_chat_env 1 ''request1'' sample_question sample_chat_request (sample_chat_db [] [sample_question])
     = Inr (Awaiting \<lparr>pt_session = 1, pt_buyer = sample_question, pt_task = 1, pt_replay = False\<rparr>, sample_chat_db [sample_chat_task] [sample_question])"
proof -
  define q where "q = chat_task_request (\<lambda>s. s) (cc_policy sample_chat_config) 1 ''request1'' None
     (serialize_chat_input 1 (reply_request_id ''request1'') sample_chat_request)"
  have key: "tq_key q = ''chat:1:request1''" "tq_type q = CHAT_DECISION" "tq_session q = 1" "tq_offer q = None" "tq_approval q = None"
    "tq_schema_version q = 1" "tq_max_attempts q = 3"
    "tq_input q = serialize_chat_input 1 (reply_request_id ''request1'') sample_chat_request"
    by (simp_all add: q_def chat_task_request_def task_business_key_def show_int_def show_nat.simps digit_chars sample_chat_config_def)
  have v: "validated_request sample_hash None None ''00000000-0000-4000-8000-000000000001'' q
      = Inr (''h'', ''00000000-0000-4000-8000-000000000001'')"
    by (simp add: validated_request_def key sample_valid_key sample_input_ok sample_correlation)
  have t: "new_task q ''h'' ''00000000-0000-4000-8000-000000000001'' (1, 1) 1 = sample_chat_task" by (simp add: sample_chat_task_def q_def)
  have c: "task_checks sample_chat_task" "t_lease_token sample_chat_task = None" "t_id sample_chat_task = 1"
    by (simp_all add: sample_chat_task_def new_task_def task_checks_def chat_task_request_def sample_chat_config_def)
  have "create_validated q ''h'' ''00000000-0000-4000-8000-000000000001'' (sample_chat_db [] [sample_question])
      = Inr ((sample_chat_task, False), sample_chat_db [sample_chat_task] [sample_question])"
    by (simp add: create_validated_def task_of_key_def capture_references_def key sample_chat_rows captured_def Let_def flush_task_def
        trows_def t c tput_def)
      (simp add: sample_chat_db_def c)
  then have "create_task_in_transaction sample_hash None None ''00000000-0000-4000-8000-000000000001'' q (sample_chat_db [] [sample_question])
      = Inr ((sample_chat_task, False), sample_chat_db [sample_chat_task] [sample_question])"
    by (simp add: create_task_in_transaction_def v)
  moreover have "context_offer_id sample_chat_request = Inr None"
    by (simp add: context_offer_id_def sample_chat_request_def sample_state_json_def)
  ultimately show ?thesis
    by (simp add: ask_model_def sample_chat_env_def q_def sample_question_def c(3))
qed


definition sample_leased_task :: task where
  "sample_leased_task = apply_lease ''chat-sync:1'' ''lease'' 10 60 sample_chat_task"

lemma sample_task_fields:
  "t_id sample_leased_task = 1" "t_session_id sample_leased_task = 1" "t_status sample_leased_task = T_RUNNING"
  "t_lease_token sample_leased_task = Some ''lease''" "t_lease_expires_at sample_leased_task = Some (10 + seconds 60)"
  "t_input_snapshot sample_leased_task = serialize_chat_input 1 (reply_request_id ''request1'') sample_chat_request"
  "t_session_version sample_leased_task = 1" "t_policy_version sample_leased_task = 1" "t_offer_id sample_leased_task = None"
  "task_checks sample_leased_task" "t_id sample_chat_task = 1" "t_runtime_kind sample_chat_task = ''V3''"
  "t_status sample_chat_task = T_PENDING" "t_attempt_count sample_chat_task = 0" "t_max_attempts sample_chat_task = 3"
  "task_reply_key (t_input_snapshot sample_leased_task) = Inr (reply_request_id ''request1'')"
  by (simp_all add: sample_leased_task_def apply_lease_def sample_chat_task_def new_task_def chat_task_request_def sample_chat_config_def
      task_checks_def seconds_def)

lemma sample_chat_lease:
  "lease_task 1 (''chat-sync:'' @ show_int 1) 60 ''lease'' 10 (sample_chat_db [sample_chat_task] ms)
     = Inr (Some sample_leased_task, sample_chat_db [sample_leased_task] ms)"
proof -
  have "lease_request ''chat-sync:1'' 60 = Inr ''chat-sync:1''"
    by (simp add: lease_request_def valid_identifier_def is_alnum_def)
  moreover have "''chat-sync:'' @ show_int 1 = ''chat-sync:1''" by (simp add: show_int_def show_nat.simps digit_chars)
  moreover have "get_task (sample_chat_db [sample_chat_task] ms) 1 = Some sample_chat_task"
    "d_tasks (sample_chat_db [sample_chat_task] ms) = [(1, sample_chat_task)]"
    by (simp_all add: sample_chat_db_def sample_task_fields)
  ultimately show ?thesis
    by (simp add: lease_task_def locked_task_def lease_eligible_def give_lease_def flush_task_def sample_task_fields trows_def
        flip: sample_leased_task_def)
      (simp add: sample_chat_db_def tput_def sample_task_fields)
qed

lemma sample_deserialized: "deserialize_request (serialize_chat_input 1 key sample_chat_request) = Inr sample_chat_request"
  by (simp add: deserialize_request_def serialize_chat_input_def sample_chat_request_def sample_product_json_def sample_state_json_def)

lemma sample_question_fresh: "chat_stale_reason (sample_chat_db [sample_leased_task] ms) sample_leased_task = Inr None"
proof -
  have "outdated_request \<lparr>ns_id = 1, ns_product_id = 1, ns_buyer_id = ''buyer'',
      ns_status = ACTIVE, ns_current_offer_id = None, ns_confirmed_offer_id = None,
      ns_confirmed_at = None, ns_confirmation_request_id = None, ns_confirmation_source = None,
      ns_round_count = 0, ns_version = 1, ns_graph_version = None, ns_archived_at = None,
      ns_lifecycle_checked_at = None, ns_next_input_seq = 1, ns_last_resolved_input_seq = 0,
      ns_next_public_seq = 1\<rparr>
     \<lparr>p_id = 1, p_seller_id = ''seller'', p_title = ''bike'', p_product_version = 1,
        p_description = ''used'', p_listed_price = 20000, p_status = AVAILABLE\<rparr> sample_policy sample_chat_request = None"
    by (simp add: outdated_request_def sample_chat_request_def sample_product_json_def sample_state_json_def same_dict_def product_facts_def
        same_negotiation_def)
  then show ?thesis
    by (simp add: chat_stale_reason_def sample_chat_rows sample_task_fields sample_deserialized)
qed


definition sample_answer :: message where
  "sample_answer = \<lparr>ms_id = 2, ms_source_id = None, ms_public_seq = None, ms_session_id = 1, ms_role = AGENT_MESSAGE,
     ms_content = ''still listed.'', ms_request_id = ''request1:agent'', ms_request_fingerprint = None,
     ms_agent_outcome = Some ''INFORMATIONAL'', ms_formal_offer_id = None\<rparr>"

abbreviation sample_pending :: pending_turn where
  "sample_pending \<equiv> \<lparr>pt_session = 1, pt_buyer = sample_question, pt_task = 1, pt_replay = False\<rparr>"

lemma sample_applied:
  "apply_prepared sample_env cx \<lparr>pn_request = Some sample_chat_request, pn_decision = None, pn_immediate = None\<rparr> (Some sample_inquiry) d
     = Inr (\<lparr>tr_reply = ''still listed.'', tr_outcome = TO_INFORMATIONAL, tr_decision = Some sample_inquiry, tr_offer_id = None\<rparr>, d)"
  by (simp add: apply_prepared_def sample_chat_request_def constrain_formal_offer_def execute_decision_def sample_inquiry_def
      answer_without_commitment_def sample_product_json_def resolve_dialogue_def build_plan_def resolve_act_def render_plan_def
      render_directive_def)

lemma sample_finalized:
  "\<exists>turn d'. finalize_chat sample_hash sample_env sample_pending sample_leased_task ''lease'' sample_inquiry
     (build_usage (cc_prices sample_chat_config) sample_provider) (15, 16) (sample_chat_db [sample_leased_task] [sample_question]) = Inr (turn, d')"
proof -
  let ?d = "sample_chat_db [sample_leased_task] [sample_question]"
  have row: "get_task (sample_chat_db [sample_leased_task] ms) 1 = Some sample_leased_task" for ms
    by (simp add: sample_chat_rows sample_task_fields)
  have lease: "leased_task (sample_chat_db [sample_leased_task] ms) 1 ''lease'' now = Inr sample_leased_task" if "now < 100" for now ms
    using that by (simp add: leased_task_def locked_task_def row active_lease_def sample_task_fields seconds_def)
  have none: "stored_reply ?d 1 (reply_request_id ''request1'') = Inr None"
    by (simp add: stored_reply_def message_by_request_id_def sample_chat_db_def trows_def sample_question_def reply_request_id_def)
  have post: "post_message 1 AGENT_MESSAGE ''still listed.'' (reply_request_id ''request1'') None (Some ''INFORMATIONAL'') None ?d
      = Inr (sample_answer, sample_chat_db [sample_leased_task] [sample_question, sample_answer])"
    by (simp add: post_message_def message_by_request_id_def sample_chat_db_def sample_question_def sample_answer_def trows_def tadd_def Let_def
        reply_request_id_def)
  have usage: "\<exists>u. validated_usage (build_usage (cc_prices sample_chat_config) sample_provider) = Inr u"
    by (simp add: validated_usage_def build_usage_def sample_chat_config_def sample_provider_def strip_def is_space_def not_negative_def
        estimated_cost_def)
  have json: "json_object sample_hash (JObj [(''decision'', decision_json sample_inquiry)])
      = Inr (JObj [(''decision'', decision_json sample_inquiry)], ''h'')"
    by (simp add: json_object_def decision_json_def sample_inquiry_def)
  have done_: "\<exists>t d'. complete_success sample_hash 1 ''lease'' (JObj [(''decision'', decision_json sample_inquiry)])
      (build_usage (cc_prices sample_chat_config) sample_provider) 16 (sample_chat_db [sample_leased_task] [sample_question, sample_answer]) = Inr (t, d')"
    using usage sample_task_fields(10) by (auto simp: complete_success_def json lease flush_task_eq_Inr task_checks_def clear_lease_def)
  then obtain t d' where done_: "complete_success sample_hash 1 ''lease'' (JObj [(''decision'', decision_json sample_inquiry)])
      (build_usage (cc_prices sample_chat_config) sample_provider) 16 (sample_chat_db [sample_leased_task] [sample_question, sample_answer]) = Inr (t, d')"
    by blast
  show ?thesis
    by (simp add: finalize_chat_def sample_task_fields lease sample_question_fresh none apply_answer_def sample_deserialized
        sample_chat_rows sample_applied persist_result_def post done_)
qed

lemma sample_session_legacy: "legacy_inv sample_session"
  using sample_session_inv
  by (simp add: legacy_inv_def) (simp add: sample_session_eq sample_db_def empty_db_def approval_inv_def approvals_stored_def
      pending_awaited_def one_pending_def awaited_def keys_ok_def)

lemma sample_chat_inv: "legacy_inv (sample_chat_db ts ms)" "ids_positive (sample_chat_db ts ms)"
proof -
  have "legacy_inv (sample_chat_db ts ms) = legacy_inv sample_session"
    by (rule legacy_inv_other) (simp_all add: sample_chat_db_def)
  then show "legacy_inv (sample_chat_db ts ms)" using sample_session_legacy by simp
  have "d_offers sample_session = []" "d_approvals sample_session = []" "d_next_offer sample_session = 1" "d_next_approval sample_session = 1"
    by (simp_all add: sample_session_eq sample_db_def empty_db_def)
  then show "ids_positive (sample_chat_db ts ms)" by (simp add: sample_chat_db_def ids_positive_def)
qed

lemma sample_unanswered: "message_by_request_id (sample_chat_db ts [sample_question]) 1 (reply_request_id ''request1'') = None"
  by (simp add: message_by_request_id_def sample_chat_db_def trows_def sample_question_def reply_request_id_def)

theorem chat_answer_sound_witness:
  "\<exists>turn d' t'. get_task d' 1 = Some t' \<and> t_status t' = T_SUCCEEDED \<and> legacy_inv d'
     \<and> answer_applied sample_leased_task turn (sample_chat_db [sample_leased_task] [sample_question]) d'"
proof -
  let ?d = "sample_chat_db [sample_leased_task] [sample_question]"
  obtain turn d' where f: "finalize_chat sample_hash sample_env sample_pending sample_leased_task ''lease'' sample_inquiry
     (build_usage (cc_prices sample_chat_config) sample_provider) (15, 16) ?d = Inr (turn, d')"
    using sample_finalized by blast
  have row: "get_task ?d (t_id sample_leased_task) = Some sample_leased_task" by (simp add: sample_chat_rows sample_task_fields)
  have stands: "question_stands ?d sample_leased_task" using sample_question_fresh chat_fresh by blast
  from chat_answer_sound [OF f sample_chat_inv] row obtain t' where t': "legacy_inv d'" "get_task d' (t_id sample_leased_task) = Some t'"
    and r: "turn_recorded sample_pending sample_leased_task turn ?d d'"
    and c: "t_status t' = T_SUCCEEDED \<and> answer_applied sample_leased_task turn ?d d' \<or> \<not> question_stands ?d sample_leased_task
       \<or> d_messages d' = d_messages ?d" by auto
  have "d_messages d' \<noteq> d_messages ?d"
  proof
    assume "d_messages d' = d_messages ?d"
    from message_by_request_cong [OF this] r show False
      using sample_unanswered by (simp add: turn_recorded_def reply_stored_def sample_task_fields)
  qed
  with c stands t' show ?thesis by (auto simp: sample_task_fields)
qed


lemma sample_prepared_chat:
  "prepare_chat sample_hash (cc_policy sample_chat_config) sample_chat_env 1 ''buyer'' ''request1'' ''hi'' None (sample_chat_db [] [])
     = Inr (Awaiting sample_pending, sample_chat_db [sample_chat_task] [sample_question])"
proof -
  let ?d = "sample_chat_db [] []"
  have "message_by_request_id ?d 1 ''request1'' = None" by (simp add: message_by_request_id_def sample_chat_db_def trows_def)
  moreover have "\<not> has_active_chat_task ?d 1" "recent_history ?d 1 = []"
    by (simp_all add: has_active_chat_task_def recent_history_def sample_chat_db_def trows_def)
  moreover have "request_fingerprint sample_hash ''hi'' None = ''h''" by (simp add: request_fingerprint_def)
  moreover have "requires_model \<lparr>pn_request = Some sample_chat_request, pn_decision = None, pn_immediate = None\<rparr>"
    by (simp add: requires_model_def)
  moreover have "ce_agent sample_chat_env = sample_env" by (simp add: sample_chat_env_def)
  ultimately show ?thesis
    by (simp add: prepare_chat_def get_negotiation_def require_legacy_runtime_def sample_chat_rows fresh_turn_def submit_offer_def
        sample_asked decide_turn_def sample_chat_prepared sample_created)
qed

lemma sample_sent:
  "\<exists>turn d'. send_buyer_message sample_hash sample_chat_config sample_chat_env sample_run_env 1 ''buyer'' ''request1'' ''hi'' None
     (sample_chat_db [] []) = (Inr turn, d')"
proof -
  let ?d = "sample_chat_db [sample_leased_task] [sample_question]"
  obtain turn d' where f: "finalize_chat sample_hash sample_env sample_pending sample_leased_task ''lease'' sample_inquiry
     (build_usage (cc_prices sample_chat_config) sample_provider) (15, 16) ?d = Inr (turn, d')"
    using sample_finalized by blast
  have env: "re_token sample_run_env = ''lease''" "re_lease_at sample_run_env = 10" "re_check_at sample_run_env = (11, 12)"
    "re_answer sample_run_env sample_chat_request = Inr (sample_inquiry, sample_provider)" "re_result_at sample_run_env = (15, 16)"
    "re_agent sample_run_env = sample_env" "rp_lease (cc_policy sample_chat_config) = 60"
    by (simp_all add: sample_run_env_def sample_chat_config_def)
  have "leased_task ?d 1 ''lease'' 11 = Inr sample_leased_task"
    by (simp add: leased_task_def locked_task_def sample_chat_rows active_lease_def sample_task_fields seconds_def)
  then have "reconcile_reply sample_pending sample_leased_task ''lease'' (11, 12) ?d = Inr (None, ?d)"
    using sample_unanswered [of "[sample_leased_task]"] by (simp add: reconcile_reply_def sample_task_fields stored_reply_def)
  then have "execute_leased sample_hash sample_chat_config sample_run_env sample_pending sample_leased_task ?d = (Inr turn, d')"
    by (simp add: execute_leased_def sample_task_fields env ask_and_apply_def sample_deserialized model_answered_def f)
  then show ?thesis
    by (simp add: send_buyer_message_def sample_prepared_chat execute_pending_def env sample_chat_lease [simplified] sample_task_fields)
qed

theorem chat_replays_witness:
  "\<exists>turn d'. send_buyer_message sample_hash sample_chat_config sample_chat_env sample_run_env 1 ''buyer'' ''request1'' ''hi'' None
       (sample_chat_db [] []) = (Inr turn, d')
     \<and> (\<forall>g E env. send_buyer_message sample_hash g E env 1 ''buyer'' ''request1'' ''hi'' None d' = (Inr (turn\<lparr>ct_replay := True\<rparr>), d'))"
proof -
  obtain turn d' where sent: "send_buyer_message sample_hash sample_chat_config sample_chat_env sample_run_env 1 ''buyer'' ''request1'' ''hi''
      None (sample_chat_db [] []) = (Inr turn, d')" using sample_sent by blast
  have "message_by_request_id (sample_chat_db [] []) 1 ''request1'' = None"
    "task_of_key (sample_chat_db [] []) CHAT_DECISION key = None" for key
    by (simp_all add: message_by_request_id_def task_of_key_def sample_chat_db_def trows_def)
  with sent chat_replays [OF sent] show ?thesis by blast
qed

end
