(* ===== verification/Chat_Runs.thy ===== *)
theory Chat_Runs
  imports Chat_Spec
begin

text \<open>
  Runs of the chat: a negotiation has at most one open task for the language model, as long as no seller opens a failed
  task again, and what happens then.
\<close>

section \<open>One question at a time\<close>



























section \<open>A task that the seller opens again\<close>

definition sample_failed_task :: task where
  "sample_failed_task = clear_lease True (sample_leased_task\<lparr>t_status := T_FAILED, t_last_error_category := Some INTERNAL,
     t_last_error_message := Some ''error not retried'', t_completed_at := Some 14\<rparr>)"

definition sample_second_question :: message where
  "sample_second_question = sample_question\<lparr>ms_id := 2, ms_request_id := ''request2''\<rparr>"

definition sample_second_request :: decision_request where
  "sample_second_request = sample_chat_request\<lparr>dq_history := [(''BUYER'', ''hi'')]\<rparr>"

definition sample_second_task :: task where
  "sample_second_task = new_task (chat_task_request (\<lambda>s. s) (cc_policy sample_chat_config) 1 ''request2'' None
     (serialize_chat_input 2 (reply_request_id ''request2'') sample_second_request)) ''h'' ''00000000-0000-4000-8000-000000000001'' (1, 1) 2"

lemma sample_creation:
  assumes "validated_request sample_hash None None ''00000000-0000-4000-8000-000000000001'' q
      = Inr (''h'', ''00000000-0000-4000-8000-000000000001'')"
    and "task_of_key (sample_chat_db ts ms) (tq_type q) (tq_key q) = None"
    and "tq_type q = CHAT_DECISION" and "tq_session q = 1" and "tq_offer q = None" and "tq_approval q = None"
    and t: "t = new_task q ''h'' ''00000000-0000-4000-8000-000000000001'' (1, 1) (int (length ts) + 1)" and "task_checks t"
    and "\<forall>u \<in> set ts. t_id u \<noteq> int (length ts) + 1"
  shows "create_task_in_transaction sample_hash None None ''00000000-0000-4000-8000-000000000001'' q (sample_chat_db ts ms)
      = Inr ((t, False), sample_chat_db (ts @ [t]) ms)"
proof -
  have f: "t_lease_token t = None" "t_id t = int (length ts) + 1" by (simp_all add: t new_task_def)
  have "capture_references q (sample_chat_db ts ms) = Inr (1, 1)"
    using assms(3-6) by (simp add: capture_references_def sample_chat_rows captured_def)
  moreover have "flush_task (int (length ts) + 1) t ((sample_chat_db ts ms)\<lparr>d_next_task := int (length ts) + 1 + 1\<rparr>)
      = Inr (t, sample_chat_db (ts @ [t]) ms)"
  proof -
    have "int (length ts) + 1 \<notin> fst ` set (map (\<lambda>u. (t_id u, u)) ts)" using assms(9) by auto
    then have "tput (int (length ts) + 1) t (map (\<lambda>u. (t_id u, u)) ts) = map (\<lambda>u. (t_id u, u)) (ts @ [t])"
      by (simp add: tput_keys_absent f)
    then show ?thesis using assms(8) f by (simp add: flush_task_def sample_chat_rows) (simp add: sample_chat_db_def)
  qed
  ultimately show ?thesis
    by (simp add: create_task_in_transaction_def assms(1) create_validated_def assms(2) Let_def sample_chat_rows t [symmetric])
qed

lemma sample_second_prepared:
  "prepare_turn sample_env \<lparr>tc_session = 1, tc_buyer = ''buyer'', tc_offer = None\<rparr> ''hi'' [(''BUYER'', ''hi'')] None (sample_chat_db ts ms)
     = Inr \<lparr>pn_request = Some sample_second_request, pn_decision = None, pn_immediate = None\<rparr>"
  by (simp add: sample_chat_prepared sample_second_request_def)

lemma sample_second_created:
  "ask_model sample_hash (cc_policy sample_chat_config) sample_chat_env 1 ''request2'' sample_second_question sample_second_request
       (sample_chat_db [sample_failed_task] ms)
     = Inr (Awaiting \<lparr>pt_session = 1, pt_buyer = sample_second_question, pt_task = 2, pt_replay = False\<rparr>,
         sample_chat_db [sample_failed_task, sample_second_task] ms)"
proof -
  define q where "q = chat_task_request (\<lambda>s. s) (cc_policy sample_chat_config) 1 ''request2'' None
     (serialize_chat_input 2 (reply_request_id ''request2'') sample_second_request)"
  have key: "tq_key q = ''chat:1:request2''" "tq_type q = CHAT_DECISION" "tq_session q = 1" "tq_offer q = None" "tq_approval q = None"
    "tq_schema_version q = 1" "tq_max_attempts q = 3"
    "tq_input q = serialize_chat_input 2 (reply_request_id ''request2'') sample_second_request"
    by (simp_all add: q_def chat_task_request_def task_business_key_def show_int_def show_nat.simps digit_chars sample_chat_config_def)
  have "json_object sample_hash (serialize_chat_input 2 (reply_request_id ''request2'') sample_second_request)
      = Inr (serialize_chat_input 2 (reply_request_id ''request2'') sample_second_request, ''h'')"
    by (simp add: json_object_def serialize_chat_input_def sample_second_request_def sample_chat_request_def sample_product_json_def
        sample_state_json_def)
  moreover have "valid_identifier 128 ''chat:1:request2'' = Inr ''chat:1:request2''" by (simp add: valid_identifier_def is_alnum_def)
  ultimately have v: "validated_request sample_hash None None ''00000000-0000-4000-8000-000000000001'' q
      = Inr (''h'', ''00000000-0000-4000-8000-000000000001'')"
    by (simp add: validated_request_def key sample_correlation)
  have old: "t_id sample_failed_task = 1" "t_business_key sample_failed_task = ''chat:1:request1''"
    by (simp_all add: sample_failed_task_def clear_lease_def sample_leased_task_def apply_lease_def sample_chat_task_def new_task_def
        chat_task_request_def task_business_key_def sample_chat_env_def show_int_def show_nat.simps digit_chars)
  have "create_task_in_transaction sample_hash None None ''00000000-0000-4000-8000-000000000001'' q (sample_chat_db [sample_failed_task] ms)
      = Inr ((sample_second_task, False), sample_chat_db ([sample_failed_task] @ [sample_second_task]) ms)"
  proof (rule sample_creation [OF v])
    show "task_of_key (sample_chat_db [sample_failed_task] ms) (tq_type q) (tq_key q) = None"
      by (simp add: task_of_key_def sample_chat_rows trows_def key old)
    show "task_checks sample_second_task"
      by (simp add: sample_second_task_def new_task_def task_checks_def chat_task_request_def sample_chat_config_def)
    show "sample_second_task = new_task q ''h'' ''00000000-0000-4000-8000-000000000001'' (1, 1) (int (length [sample_failed_task]) + 1)"
      by (simp add: sample_second_task_def q_def)
  qed (simp_all add: key old)
  moreover have "context_offer_id sample_second_request = Inr None"
    by (simp add: context_offer_id_def sample_second_request_def sample_chat_request_def sample_state_json_def)
  moreover have "t_id sample_second_task = 2" by (simp add: sample_second_task_def new_task_def)
  ultimately show ?thesis
    by (simp add: ask_model_def sample_chat_env_def q_def sample_second_question_def)
qed

lemma sample_second_asked:
  "post_message 1 BUYER_MESSAGE ''hi'' ''request2'' (Some ''h'') None None (sample_chat_db ts [sample_question])
     = Inr (sample_second_question, sample_chat_db ts [sample_question, sample_second_question])"
  by (simp add: post_message_def message_by_request_id_def sample_chat_db_def sample_question_def sample_second_question_def
      trows_def tadd_def Let_def)

lemma sample_failed_fields:
  "t_id sample_failed_task = 1" "t_session_id sample_failed_task = 1" "t_type sample_failed_task = CHAT_DECISION"
  "t_status sample_failed_task = T_FAILED" "t_runtime_kind sample_failed_task = ''V3''"
  "t_input_snapshot sample_failed_task = serialize_chat_input 1 (reply_request_id ''request1'') sample_chat_request"
  by (simp_all add: sample_failed_task_def clear_lease_def sample_leased_task_def apply_lease_def sample_chat_task_def new_task_def
      chat_task_request_def)

lemma sample_second_chat:
  "prepare_chat sample_hash (cc_policy sample_chat_config) sample_chat_env 1 ''buyer'' ''request2'' ''hi'' None
     (sample_chat_db [sample_failed_task] [sample_question])
   = Inr (Awaiting \<lparr>pt_session = 1, pt_buyer = sample_second_question, pt_task = 2, pt_replay = False\<rparr>,
       sample_chat_db [sample_failed_task, sample_second_task] [sample_question, sample_second_question])"
proof -
  let ?d = "sample_chat_db [sample_failed_task] [sample_question]"
  have "message_by_request_id ?d 1 ''request2'' = None"
    by (simp add: message_by_request_id_def sample_chat_db_def trows_def sample_question_def)
  moreover have "\<not> has_active_chat_task ?d 1"
    by (simp add: has_active_chat_task_def sample_chat_rows trows_def active_chat_def sample_failed_fields)
  moreover have "recent_history ?d 1 = [(''BUYER'', ''hi'')]"
    by (simp add: recent_history_def sample_chat_db_def trows_def sample_question_def)
  moreover have "request_fingerprint sample_hash ''hi'' None = ''h''" by (simp add: request_fingerprint_def)
  moreover have "requires_model \<lparr>pn_request = Some sample_second_request, pn_decision = None, pn_immediate = None\<rparr>"
    by (simp add: requires_model_def)
  moreover have "ce_agent sample_chat_env = sample_env" by (simp add: sample_chat_env_def)
  ultimately show ?thesis
    by (simp add: prepare_chat_def get_negotiation_def require_legacy_runtime_def sample_chat_rows fresh_turn_def submit_offer_def
        sample_second_asked decide_turn_def sample_second_prepared sample_second_created)
qed

lemma sample_reopened:
  "\<exists>t d'. retry_failed ''seller'' 1 None 20 (sample_chat_db [sample_failed_task, sample_second_task] ms) = Inr (t, d')
     \<and> d_tasks d' = [(1, t), (2, sample_second_task)] \<and> active_chat 1 t"
  if "\<not> replied 1 (reply_request_id ''request1'') (sample_chat_db [sample_failed_task, sample_second_task] ms)" for ms
proof -
  let ?d = "sample_chat_db [sample_failed_task, sample_second_task] ms" and ?t = "reopened ''seller'' None 20 sample_failed_task"
  have second: "t_id sample_second_task = 2" by (simp add: sample_second_task_def new_task_def)
  have users: "d_users ?d = d_users sample_db" by (simp add: sample_chat_db_def sample_session_eq)
  have own: "seller_task ''seller'' 1 ?d = Inr sample_failed_task"
    by (simp add: seller_task_def sample_chat_rows sample_failed_fields users) (simp add: sample_db_def empty_db_def)
  have open_: "unfinished_business sample_failed_task ?d"
    using that by (simp add: unfinished_business_def sample_failed_fields reply_request_def serialize_chat_input_def)
  have same: "followup_failed sample_failed_task ?d = ?d"
    by (simp add: followup_failed_def sample_failed_task_def clear_lease_def sample_leased_task_def apply_lease_def sample_chat_task_def
        new_task_def chat_task_request_def)
  have checks: "task_checks ?t" "t_lease_token ?t = None" "active_chat 1 ?t"
    by (simp_all add: reopened_def manual_action_def sample_failed_task_def clear_lease_def sample_leased_task_def apply_lease_def
        sample_chat_task_def new_task_def chat_task_request_def task_checks_def sample_chat_config_def active_chat_def normalized_reason_def
        safe_message_def)
  have "flush_task 1 ?t ?d = Inr (?t, ?d\<lparr>d_tasks := [(1, ?t), (2, sample_second_task)]\<rparr>)"
    by (simp add: flush_task_def checks sample_chat_rows sample_failed_fields second tput_def)
  then show ?thesis
    using checks(3) by (simp add: retry_failed_def own open_ same sample_failed_fields)
qed

text \<open>
  C31: The seller's retry defeats that rule. A message is admitted once the previous task has failed, and the seller may then
  open the failed task again: two tasks of one negotiation are open, built on histories of which neither contains the
  other's answer, and the workers answer them in any order.
\<close>

theorem reopened_chat_races:
  "\<exists>pt d1 t d2. prepare_chat sample_hash (cc_policy sample_chat_config) sample_chat_env 1 ''buyer'' ''request2'' ''hi'' None
       (sample_chat_db [sample_failed_task] [sample_question]) = Inr (Awaiting pt, d1)
     \<and> retry_failed ''seller'' 1 None 20 d1 = Inr (t, d2) \<and> filter (active_chat 1) (trows (d_tasks d2)) = [t, sample_second_task]
     \<and> pt_task pt = t_id sample_second_task \<and> t_id t \<noteq> pt_task pt"
proof -
  let ?d = "sample_chat_db [sample_failed_task, sample_second_task] [sample_question, sample_second_question]"
  have "\<not> replied 1 (reply_request_id ''request1'') ?d"
    by (simp add: replied_def sample_chat_db_def trows_def sample_question_def sample_second_question_def reply_request_id_def)
  then obtain t d' where r: "retry_failed ''seller'' 1 None 20 ?d = Inr (t, d')"
    and tasks: "d_tasks d' = [(1, t), (2, sample_second_task)]" "active_chat 1 t" using sample_reopened by blast
  have "t_id t = 1" using r
    by (auto simp: retry_failed_def seller_task_def ebind_eq_Inr some_or_eq_Inr flush_task_eq_Inr reopened_def manual_action_def
        sample_chat_rows sample_failed_fields split: if_splits)
  moreover have "active_chat 1 sample_second_task" "t_id sample_second_task = 2"
    by (simp_all add: active_chat_def sample_second_task_def new_task_def chat_task_request_def)
  ultimately show ?thesis using sample_second_chat r tasks by (auto simp: trows_def)
qed

end
