(* ===== verification/Transcript.thy ===== *)
theory Transcript
  imports Chat
begin

text \<open>
  \<open>backend/app/agent/message_protocol.py\<close> and \<open>services/agent_message_service.py\<close>: the messages that a language model
  sees and the stream in which they are kept, one per negotiation, numbered without gaps and only ever appended to.

  The payload of a row holds the message itself instead of the dictionary that the message library makes of it. The
  kinds of rows are grouped by what their payload holds: a text, a message, or data of the runtime.
\<close>

section \<open>Messages\<close>

record tool_call =
  tk_id :: string \<comment> \<open>empty when it is missing\<close>
  tk_name :: string
  tk_args :: json

datatype agent_message =
    SystemText string
  | HumanText string
  | AIText string "tool_call list"
  | ToolText string string string json \<comment> \<open>content, identifier of the call, tool, full result\<close>

datatype text_kind = BUYER_INPUT | PUBLIC_REPLY | APPROVAL_NOTIFICATION | SESSION_NOTIFICATION
datatype message_kind = TOOL_CALL | TOOL_RESULT | MODEL_CANDIDATE
datatype data_kind = RUNTIME_EVENT | RUN_CONFIG | CONTEXT_ARTIFACT

datatype entry =
    TextEntry text_kind string json \<comment> \<open>the content and the rest of the payload\<close>
  | MessageEntry message_kind agent_message json
  | DataEntry data_kind json

record stream_record =
  sr_seq :: int
  sr_entry :: entry
  sr_task :: "int option"
  sr_branch :: "string option"
  sr_public :: bool

fun record_message :: "stream_record \<Rightarrow> agent_message option" where
  "record_message r =
     (case sr_entry r of
        TextEntry BUYER_INPUT content _ \<Rightarrow> Some (HumanText content)
      | TextEntry _ content _ \<Rightarrow> Some (AIText content [])
      | MessageEntry _ m _ \<Rightarrow> Some m
      | DataEntry _ _ \<Rightarrow> None)"

declare record_message.simps [simp del]

section \<open>What is sent\<close>

fun hex_digit :: "nat \<Rightarrow> char" where
  "hex_digit n = (if n < 10 then char_of (48 + n) else char_of (87 + n))"

definition escape_char :: "char \<Rightarrow> string" where
  "escape_char c =
     (if c = CHR 0x22 then [CHR 0x5C, CHR 0x22]
      else if c = CHR 0x5C then [CHR 0x5C, CHR 0x5C]
      else if c = CHR 0x0A then [CHR 0x5C, CHR ''n'']
      else if c = CHR 0x0D then [CHR 0x5C, CHR ''r'']
      else if c = CHR 0x09 then [CHR 0x5C, CHR ''t'']
      else if c = CHR 0x08 then [CHR 0x5C, CHR ''b'']
      else if c = CHR 0x0C then [CHR 0x5C, CHR ''f'']
      else let n = of_char c :: nat in
        if n < 32 then CHR 0x5C # ''u00'' @ [hex_digit (n div 16), hex_digit (n mod 16)] else [c])"

definition json_quote :: "string \<Rightarrow> string" where
  "json_quote s = CHR 0x22 # concat (map escape_char s) @ [CHR 0x22]"

fun separated :: "string \<Rightarrow> string list \<Rightarrow> string" where
  "separated sep [] = []"
| "separated sep [s] = s"
| "separated sep (s # s' # ss) = s @ sep @ separated sep (s' # ss)"

fun json_text :: "string \<Rightarrow> string \<Rightarrow> json \<Rightarrow> string" where
  \<comment> \<open>\<open>json.dumps(value, ensure_ascii=False, separators=(item, key))\<close>; \<open>JOpaque\<close> does not occur in messages\<close>
  "json_text item key JNull = ''null''"
| "json_text item key (JBool b) = (if b then ''true'' else ''false'')"
| "json_text item key (JInt i) = show_int i"
| "json_text item key (JStr s) = json_quote s"
| "json_text item key (JArr xs) = ''['' @ separated item (map (json_text item key) xs) @ '']''"
| "json_text item key (JObj kvs) =
     ''{'' @ separated item (map (\<lambda>(k, v). json_quote k @ key @ json_text item key v) kvs) @ ''}''"
| "json_text item key JOpaque = []"

definition utf8_length :: "string \<Rightarrow> nat" where
  "utf8_length s = sum_list (map (\<lambda>c. if (of_char c :: nat) < 128 then 1 else 2) s)"

definition wire_call :: "tool_call \<Rightarrow> json" where
  "wire_call c = JObj [(''id'', JStr (tk_id c)), (''type'', JStr ''function''),
     (''function'', JObj [(''name'', JStr (tk_name c)), (''arguments'', JStr (json_text '', '' '': '' (tk_args c)))])]"

fun wire_message :: "agent_message \<Rightarrow> json" where
  \<comment> \<open>what the provider sees: the full result of a tool is left out\<close>
  "wire_message (SystemText s) = JObj [(''role'', JStr ''system''), (''content'', JStr s)]"
| "wire_message (HumanText s) = JObj [(''role'', JStr ''user''), (''content'', JStr s)]"
| "wire_message (AIText s calls) = JObj ([(''role'', JStr ''assistant''), (''content'', JStr s)]
     @ (if calls = [] then [] else [(''tool_calls'', JArr (map wire_call calls))]))"
| "wire_message (ToolText s cid name _) =
     JObj [(''role'', JStr ''tool''), (''content'', JStr s), (''tool_call_id'', JStr cid), (''name'', JStr name)]"

definition message_role_text :: "agent_message \<Rightarrow> string" where
  "message_role_text m = (case m of SystemText _ \<Rightarrow> ''system'' | HumanText _ \<Rightarrow> ''user'' | AIText _ _ \<Rightarrow> ''assistant''
     | ToolText _ _ _ _ \<Rightarrow> ''tool'')"

section \<open>The protocol of tool calls\<close>

fun open_calls :: "tool_call list \<Rightarrow> string set \<times> string set \<Rightarrow> exn + string set \<times> string set" where
  \<comment> \<open>the pending calls and those seen\<close>
  "open_calls [] ps = Inr ps"
| "open_calls (c # cs) (pending, seen) =
     (if tk_id c = [] \<or> tk_id c \<in> seen then Inl (ValueExn ''tool call identifiers must be present and unique'')
      else open_calls cs (insert (tk_id c) pending, insert (tk_id c) seen))"

fun validate_message :: "agent_message \<Rightarrow> string set \<times> string set \<Rightarrow> exn + string set \<times> string set" where
  "validate_message m (pending, seen) =
     (case m of
        ToolText _ cid _ _ \<Rightarrow>
          if cid \<notin> pending then Inl (ValueExn ''orphan or duplicate tool result'') else Inr (pending - {cid}, seen)
      | _ \<Rightarrow>
          if pending \<noteq> {} then Inl (ValueExn ''tool calls must receive all results'')
          else (case m of AIText _ calls \<Rightarrow> open_calls calls (pending, seen) | _ \<Rightarrow> Inr (pending, seen)))"

definition validate_protocol :: "agent_message list \<Rightarrow> bool \<Rightarrow> exn + unit" where
  \<comment> \<open>\<open>MessageProtocolValidator.validate\<close>\<close>
  "validate_protocol ms allow_pending =
     ebind (efold validate_message ms ({}, {})) (\<lambda>(pending, _).
     if pending \<noteq> {} \<and> \<not> allow_pending then Inl (ValueExn ''incomplete tool exchange'') else Inr ())"

definition still_pending :: "agent_message \<Rightarrow> string set \<Rightarrow> string set" where
  "still_pending m pending =
     (case m of
        AIText _ calls \<Rightarrow> pending \<union> set (map tk_id calls)
      | ToolText _ cid _ _ \<Rightarrow> pending - {cid}
      | _ \<Rightarrow> pending)"

definition add_to_groups ::
    "stream_record list list \<times> string set \<Rightarrow> stream_record \<Rightarrow> stream_record list list \<times> string set" where
  "add_to_groups gp r =
     (case record_message r of
        None \<Rightarrow> gp
      | Some m \<Rightarrow>
          (if snd gp = {} then fst gp @ [[r]] else butlast (fst gp) @ [last (fst gp) @ [r]], still_pending m (snd gp)))"

definition groups :: "stream_record list \<Rightarrow> stream_record list list" where
  \<comment> \<open>a call with its results is one group\<close>
  "groups rs = fst (foldl add_to_groups ([], {}) rs)"

section \<open>The stream of a negotiation\<close>

record agent_row =
  am_id :: int
  am_session :: int
  am_seq :: int
  am_task :: "int option"
  am_branch :: "string option"
  am_step :: "string option"
  am_attempt :: "int option"
  am_role :: string
  am_entry :: entry
  am_public :: bool
  am_key :: string
  am_call :: "string option"

record session_context =
  sx_next_seq :: int
  sx_version :: int
  sx_summary_artifact :: "int option"
  sx_summary_covered :: int
  sx_summary :: "string option"
  sx_memory_artifact :: "int option"
  sx_memory_covered :: int
  sx_memory :: "json option"
  sx_backfilled :: bool

record transcript =
  tx_rows :: "(int, agent_row) table"
  tx_next :: int
  tx_contexts :: "(int, session_context) table"
  tx_sources :: "(int, int) table" \<comment> \<open>\<open>messages.source_agent_message_id\<close>, where it is set\<close>

definition new_context :: session_context where
  "new_context = \<lparr>sx_next_seq = 1, sx_version = 1, sx_summary_artifact = None, sx_summary_covered = 0, sx_summary = None,
     sx_memory_artifact = None, sx_memory_covered = 0, sx_memory = None, sx_backfilled = False\<rparr>"

definition context_of_session :: "int \<Rightarrow> transcript \<Rightarrow> session_context \<times> transcript" where
  \<comment> \<open>\<open>AgentMessageService.context\<close>: the row is created when it is first asked for\<close>
  "context_of_session sid x =
     (let cs = tadd_ignore sid new_context (tx_contexts x) in
      (case tget cs sid of Some c \<Rightarrow> c | None \<Rightarrow> new_context, x\<lparr>tx_contexts := cs\<rparr>))"

record new_entry =
  ne_session :: int
  ne_key :: string
  ne_role :: string
  ne_entry :: entry
  ne_public :: bool
  ne_task :: "int option"
  ne_branch :: "string option"
  ne_step :: "string option"
  ne_attempt :: "int option"
  ne_call :: "string option"

definition row_of_key :: "transcript \<Rightarrow> int \<Rightarrow> string \<Rightarrow> agent_row option" where
  "row_of_key x sid key = find (\<lambda>r. am_session r = sid \<and> am_key r = key) (trows (tx_rows x))"

definition row_of_entry :: "int \<Rightarrow> int \<Rightarrow> new_entry \<Rightarrow> agent_row" where
  "row_of_entry aid seq e = \<lparr>am_id = aid, am_session = ne_session e, am_seq = seq, am_task = ne_task e, am_branch = ne_branch e,
     am_step = ne_step e, am_attempt = ne_attempt e, am_role = ne_role e, am_entry = ne_entry e, am_public = ne_public e,
     am_key = ne_key e, am_call = ne_call e\<rparr>"

definition append_entry :: "new_entry \<Rightarrow> transcript \<Rightarrow> exn + agent_row \<times> transcript" where
  \<comment> \<open>\<open>AgentMessageService.append\<close>\<close>
  "append_entry e x =
     (let (c, x1) = context_of_session (ne_session e) x in
      case row_of_key x1 (ne_session e) (ne_key e) of
        Some r \<Rightarrow>
          if am_entry r \<noteq> ne_entry e then Inl (ValueExn ''event key conflicts with its immutable payload'') else Inr (r, x1)
      | None \<Rightarrow>
          if list_ex (\<lambda>r. am_session r = ne_session e \<and> am_seq r = sx_next_seq c) (trows (tx_rows x1)) then Inl IntegrityExn
          else
          let r = row_of_entry (tx_next x1) (sx_next_seq c) e in
          ebind (tadd IntegrityExn (tx_next x1) r (tx_rows x1)) (\<lambda>rows.
          Inr (r, x1\<lparr>tx_rows := rows, tx_next := tx_next x1 + 1,
                     tx_contexts := tput (ne_session e) (c\<lparr>sx_next_seq := sx_next_seq c + 1\<rparr>) (tx_contexts x1)\<rparr>)))"

definition public_entry :: "message \<Rightarrow> int option \<Rightarrow> text_kind option \<Rightarrow> bool \<Rightarrow> new_entry" where
  "public_entry m task kind legacy =
     (let buyer = (ms_role m = BUYER_MESSAGE) in
      \<lparr>ne_session = ms_session_id m, ne_key = ''public:'' @ ms_request_id m,
       ne_role = (if buyer then ''USER'' else ''ASSISTANT''),
       ne_entry = TextEntry (case kind of Some k \<Rightarrow> k | None \<Rightarrow> if buyer then BUYER_INPUT else PUBLIC_REPLY) (ms_content m)
         (JObj [(''request_id'', JStr (ms_request_id m)), (''public_role'', JStr (role_text (ms_role m))),
                (''formal_offer_id'', jopt JInt (ms_formal_offer_id m)), (''outcome'', jopt JStr (ms_agent_outcome m)),
                (''legacy'', JBool legacy)]),
       ne_public = True, ne_task = task, ne_branch = None, ne_step = None, ne_attempt = None, ne_call = None\<rparr>)"

definition project :: "message \<Rightarrow> int option \<Rightarrow> text_kind option \<Rightarrow> bool \<Rightarrow> transcript \<Rightarrow> exn + agent_row \<times> transcript" where
  "project m task kind legacy x =
     (case tget (tx_sources x) (ms_id m) of
        Some aid \<Rightarrow> ebind (some_or AttributeExn (tget (tx_rows x) aid)) (\<lambda>r. Inr (r, x))
      | None \<Rightarrow>
          ebind (append_entry (public_entry m task kind legacy) x) (\<lambda>(r, x').
          Inr (r, x'\<lparr>tx_sources := tput (ms_id m) (am_id r) (tx_sources x')\<rparr>)))"

definition project_legacy :: "message \<Rightarrow> transcript \<Rightarrow> exn + transcript" where
  "project_legacy m x =
     ebind (project m None (if ms_role m = SYSTEM_MESSAGE then Some APPROVAL_NOTIFICATION else None) True x) (\<lambda>(_, x'). Inr x')"

definition backfill :: "db \<Rightarrow> int \<Rightarrow> transcript \<Rightarrow> exn + nat \<times> transcript" where
  "backfill d sid x =
     (let (c, x1) = context_of_session sid x;
          ms = filter (\<lambda>m. ms_session_id m = sid \<and> tget (tx_sources x1) (ms_id m) = None) (trows (d_messages d)) in
      ebind (efold project_legacy ms x1) (\<lambda>x2.
      Inr (length ms, x2\<lparr>tx_contexts := tmod sid (\<lambda>c. c\<lparr>sx_backfilled := True\<rparr>) (tx_contexts x2)\<rparr>)))"

definition stream_of_row :: "agent_row \<Rightarrow> stream_record" where
  \<comment> \<open>\<open>StreamRecord.from_row\<close>\<close>
  "stream_of_row r = \<lparr>sr_seq = am_seq r, sr_entry = am_entry r, sr_task = am_task r, sr_branch = am_branch r, sr_public = am_public r\<rparr>"

definition stream_rows :: "transcript \<Rightarrow> int \<Rightarrow> int \<Rightarrow> int option \<Rightarrow> agent_row list" where
  \<comment> \<open>\<open>AgentMessageService.records\<close>\<close>
  "stream_rows x sid after_seq through =
     sort_key am_seq (filter (\<lambda>r. am_session r = sid \<and> after_seq < am_seq r
       \<and> (case through of None \<Rightarrow> True | Some n \<Rightarrow> am_seq r \<le> n)) (trows (tx_rows x)))"

end
