(* ===== verification/Transcript_Spec.thy ===== *)
theory Transcript_Spec
  imports Transcript
begin

text \<open>
  What the stream of a negotiation guarantees: its rows are numbered without gaps, one per event key, never changed, and
  after a backfill every public message has its row.
\<close>

definition rows_of :: "transcript \<Rightarrow> int \<Rightarrow> agent_row list" where
  "rows_of x sid = filter (\<lambda>r. am_session r = sid) (trows (tx_rows x))"

definition next_seq :: "transcript \<Rightarrow> int \<Rightarrow> int" where
  "next_seq x sid = (case tget (tx_contexts x) sid of None \<Rightarrow> 1 | Some c \<Rightarrow> sx_next_seq c)"

definition stream_ok :: "transcript \<Rightarrow> bool" where
  "stream_ok x \<longleftrightarrow>
     keys_ok (tx_rows x) \<and> (\<forall>(k, r) \<in> set (tx_rows x). k < tx_next x \<and> am_id r = k)
     \<and> (\<forall>sid. 1 \<le> next_seq x sid \<and> map am_seq (rows_of x sid) = [1..next_seq x sid - 1])
     \<and> (\<forall>sid. distinct (map am_key (rows_of x sid)))"

definition projected :: "message \<Rightarrow> transcript \<Rightarrow> bool" where
  \<comment> \<open>the message has its row\<close>
  "projected m x \<longleftrightarrow>
     (\<exists>aid r kind rest. tget (tx_sources x) (ms_id m) = Some aid \<and> tget (tx_rows x) aid = Some r
        \<and> am_session r = ms_session_id m \<and> am_entry r = TextEntry kind (ms_content m) rest)"

section \<open>Single operations\<close>

lemma context_of_session_simps:
  "context_of_session sid x = (c, x') \<Longrightarrow> tx_rows x' = tx_rows x \<and> tx_next x' = tx_next x \<and> tx_sources x' = tx_sources x"
  by (auto simp: context_of_session_def Let_def)

lemma context_of_session_next:
  assumes "context_of_session sid x = (c, x')"
  shows "sx_next_seq c = next_seq x sid" "next_seq x' = next_seq x" "rows_of x' = rows_of x" "tget (tx_contexts x') sid = Some c"
  using assms
  by (auto simp: context_of_session_def Let_def next_seq_def rows_of_def new_context_def fun_eq_iff split: option.splits if_splits)

lemma row_of_key_rows: "row_of_key x sid key = find (\<lambda>r. am_key r = key) (rows_of x sid)"
proof -
  have "find (\<lambda>r. P r \<and> Q r) xs = find Q (filter P xs)" for P Q and xs :: "agent_row list"
    by (induction xs) auto
  then show ?thesis by (simp add: row_of_key_def rows_of_def)
qed

lemma append_entry_cases:
  assumes "append_entry e x = Inr (r, x')"
  obtains (stored) c x1 where "context_of_session (ne_session e) x = (c, x1)" "x' = x1"
      "row_of_key x (ne_session e) (ne_key e) = Some r" "am_entry r = ne_entry e"
    | (new) c x1 where "context_of_session (ne_session e) x = (c, x1)" "row_of_key x (ne_session e) (ne_key e) = None"
      "r = row_of_entry (tx_next x) (next_seq x (ne_session e)) e" "tget (tx_rows x) (tx_next x) = None"
      "x' = x1\<lparr>tx_rows := tx_rows x @ [(tx_next x, r)], tx_next := tx_next x + 1,
        tx_contexts := tput (ne_session e) (c\<lparr>sx_next_seq := next_seq x (ne_session e) + 1\<rparr>) (tx_contexts x1)\<rparr>"
proof -
  obtain c x1 where c: "context_of_session (ne_session e) x = (c, x1)" by fastforce
  note same = context_of_session_simps [OF c] and nxt = context_of_session_next [OF c]
  have key: "row_of_key x1 = row_of_key x" by (simp add: row_of_key_def same fun_eq_iff)
  show ?thesis
  proof (cases "row_of_key x (ne_session e) (ne_key e)")
    case None
    with assms show ?thesis
      by (intro new [OF c]) (auto simp: append_entry_def c key same nxt Let_def result_simps split: if_splits)
  next
    case (Some r')
    with assms have "am_entry r' = ne_entry e" "r = r'" "x' = x1"
      by (auto simp: append_entry_def c key Let_def split: if_splits)
    with Some show ?thesis by (intro stored [OF c]) auto
  qed
qed

lemma append_entry_ok:
  assumes "append_entry e x = Inr (r, x')" and "stream_ok x"
  shows "stream_ok x'"
  using assms(1)
proof (cases rule: append_entry_cases)
  case (stored c x1)
  with assms(2) context_of_session_simps [OF stored(1)] context_of_session_next [OF stored(1)] show ?thesis
    by (simp add: stream_ok_def)
next
  case (new c x1)
  note same = context_of_session_simps [OF new(1)] and nxt = context_of_session_next [OF new(1)]
  let ?sid = "ne_session e"
  have r: "am_session r = ?sid" "am_id r = tx_next x" "am_seq r = next_seq x ?sid" "am_key r = ne_key e"
    by (simp_all add: new(3) row_of_entry_def)
  have rows: "rows_of x' sid = (if sid = ?sid then rows_of x sid @ [r] else rows_of x sid)" for sid
    by (simp add: rows_of_def new(5) r)
  have seq: "next_seq x' sid = (if sid = ?sid then next_seq x sid + 1 else next_seq x sid)" for sid
    using nxt by (auto simp: next_seq_def new(5) fun_eq_iff split: option.splits)
  have "ne_key e \<notin> set (map am_key (rows_of x ?sid))"
    using new(2) by (auto simp: row_of_key_rows find_None_iff)
  moreover have "[1..next_seq x ?sid - 1] @ [next_seq x ?sid] = [1..next_seq x ?sid]" if "1 \<le> next_seq x ?sid"
    using that upto_rec2 [of 1 "next_seq x ?sid"] by simp
  ultimately show ?thesis using assms(2) r unfolding stream_ok_def rows seq by (auto simp: new(5) same keys_ok_snoc new(4))
qed

text \<open>Rows are only ever appended.\<close>

definition extends :: "transcript \<Rightarrow> transcript \<Rightarrow> bool" where
  "extends x x' \<longleftrightarrow> (\<exists>more. tx_rows x' = tx_rows x @ more)
     \<and> (\<forall>m aid. tget (tx_sources x) m = Some aid \<longrightarrow> tget (tx_sources x') m = Some aid)"

lemma extends_refl [simp]: "extends x x"
  by (simp add: extends_def)

lemma extends_trans: "extends x y \<Longrightarrow> extends y z \<Longrightarrow> extends x z"
  by (fastforce simp: extends_def)

lemma extends_row: "extends x x' \<Longrightarrow> tget (tx_rows x) aid = Some r \<Longrightarrow> tget (tx_rows x') aid = Some r"
  by (auto simp: extends_def tget_append)

lemma projected_extends: "extends x x' \<Longrightarrow> projected m x \<Longrightarrow> projected m x'"
  unfolding projected_def using extends_row [of x x'] by (metis extends_def)

lemma append_entry_extends: "append_entry e x = Inr (r, x') \<Longrightarrow> extends x x' \<and> tget (tx_sources x') = tget (tx_sources x)"
  by (erule append_entry_cases) (auto simp: extends_def dest!: context_of_session_simps)

lemma append_entry_row:
  assumes "append_entry e x = Inr (r, x')" and "stream_ok x"
  shows "tget (tx_rows x') (am_id r) = Some r \<and> am_entry r = ne_entry e \<and> am_session r = ne_session e \<and> am_key r = ne_key e"
  using assms(1)
proof (cases rule: append_entry_cases)
  case (stored c x1)
  then have r: "r \<in> set (trows (tx_rows x))" "am_session r = ne_session e" "am_key r = ne_key e"
    by (auto simp: row_of_key_def find_Some_iff in_set_conv_nth)
  then obtain k where k: "(k, r) \<in> set (tx_rows x)" by (auto simp: trows_def)
  with assms(2) have "k = am_id r" and "keys_ok (tx_rows x)" by (auto simp: stream_ok_def)
  with k have "tget (tx_rows x) (am_id r) = Some r" by (simp add: tget_def keys_ok_def)
  with r stored context_of_session_simps [OF stored(1)] show ?thesis by simp
next
  case (new c x1)
  then show ?thesis by (simp add: row_of_entry_def tget_snoc)
qed

text \<open>
  An entry of the stream is stored once: the stream stays numbered without gaps and with one row per event key, no row
  is ever changed, and storing the same entry again returns the stored row and adds nothing.
\<close>
theorem append_entry_sound:
  assumes "append_entry e x = Inr (r, x')" and "stream_ok x"
  shows "stream_ok x' \<and> extends x x' \<and> tget (tx_rows x') (am_id r) = Some r \<and> am_entry r = ne_entry e
    \<and> append_entry e x' = Inr (r, x')"
proof -
  note row = append_entry_row [OF assms] and ok = append_entry_ok [OF assms]
  obtain c' x2 where c': "context_of_session (ne_session e) x' = (c', x2)" by fastforce
  have "tget (tx_contexts x') (ne_session e) \<noteq> None"
    using assms(1)
  proof (cases rule: append_entry_cases)
    case (stored c x1)
    then show ?thesis using context_of_session_next(4) [OF stored(1)] by simp
  qed simp
  with c' have "x2 = x'" by (auto simp: context_of_session_def Let_def tadd_ignore_def)
  have "r \<in> set (rows_of x' (ne_session e))" using row by (auto simp: rows_of_def dest: tget_in_trows)
  moreover from ok have "distinct (map am_key (rows_of x' (ne_session e)))" by (simp add: stream_ok_def)
  moreover have "find (\<lambda>s. am_key s = am_key r) xs = Some r" if "r \<in> set xs" "distinct (map am_key xs)" for xs
    using that by (induction xs) auto
  ultimately have "row_of_key x' (ne_session e) (ne_key e) = Some r" using row by (auto simp: row_of_key_rows)
  with row c' \<open>x2 = x'\<close> have "append_entry e x' = Inr (r, x')" by (simp add: append_entry_def)
  with ok row append_entry_extends [OF assms(1)] show ?thesis by simp
qed

section \<open>Public messages\<close>

lemma stream_ok_sources [simp]: "stream_ok (x\<lparr>tx_sources := s\<rparr>) = stream_ok x"
  by (simp add: stream_ok_def next_seq_def rows_of_def)

lemma stream_ok_backfilled [simp]:
  "stream_ok (x\<lparr>tx_contexts := tmod sid (\<lambda>c. c\<lparr>sx_backfilled := True\<rparr>) (tx_contexts x)\<rparr>) = stream_ok x"
proof -
  have "next_seq (x\<lparr>tx_contexts := tmod sid (\<lambda>c. c\<lparr>sx_backfilled := True\<rparr>) (tx_contexts x)\<rparr>) s = next_seq x s" for s
    by (auto simp: next_seq_def split: option.splits)
  then show ?thesis by (simp add: stream_ok_def rows_of_def)
qed

lemma project_new:
  assumes "project m task kind legacy x = Inr (r, x')" and "stream_ok x" and "tget (tx_sources x) (ms_id m) = None"
  shows "stream_ok x' \<and> extends x x' \<and> projected m x'
    \<and> (\<forall>k. k \<noteq> ms_id m \<longrightarrow> tget (tx_sources x') k = tget (tx_sources x) k)"
proof -
  from assms(1,3) obtain x1 where a: "append_entry (public_entry m task kind legacy) x = Inr (r, x1)"
    and x': "x' = x1\<lparr>tx_sources := tput (ms_id m) (am_id r) (tx_sources x1)\<rparr>"
    by (auto simp: project_def result_simps)
  note row = append_entry_row [OF a assms(2)] and ext = append_entry_extends [OF a]
  have "projected m x'" using row by (auto simp: projected_def x' public_entry_def Let_def)
  moreover have "extends x x'" using ext assms(3) by (auto simp: extends_def x')
  ultimately show ?thesis using append_entry_ok [OF a assms(2)] ext by (simp add: x')
qed

lemma project_ok:
  assumes "project m task kind legacy x = Inr (r, x')" and "stream_ok x"
  shows "stream_ok x' \<and> extends x x'"
proof (cases "tget (tx_sources x) (ms_id m)")
  case None
  with project_new [OF assms] show ?thesis by simp
next
  case (Some aid)
  with assms show ?thesis by (auto simp: project_def result_simps)
qed

lemma project_all:
  assumes "efold project_legacy ms x = Inr x'" and "stream_ok x"
    and "distinct (map ms_id ms)" and "\<forall>m \<in> set ms. tget (tx_sources x) (ms_id m) = None"
  shows "stream_ok x' \<and> extends x x' \<and> (\<forall>m \<in> set ms. projected m x')"
  using assms
proof (induction ms arbitrary: x)
  case (Cons m ms)
  from Cons.prems(1) obtain x1 where "project_legacy m x = Inr x1" and rest: "efold project_legacy ms x1 = Inr x'"
    by (auto simp: result_simps)
  then obtain r where p: "project m None (if ms_role m = SYSTEM_MESSAGE then Some APPROVAL_NOTIFICATION else None) True x = Inr (r, x1)"
    by (auto simp: project_legacy_def result_simps)
  have "tget (tx_sources x) (ms_id m) = None" using Cons.prems(4) by simp
  note one = project_new [OF p Cons.prems(2) this]
  have "\<forall>n \<in> set ms. tget (tx_sources x1) (ms_id n) = None"
    using one Cons.prems(3,4) by (metis (no_types, lifting) distinct.simps(2) image_eqI list.set_intros(2) list.set_map list.simps(9))
  with Cons.IH [OF rest] one Cons.prems(3) have tail: "stream_ok x'" "extends x1 x'" "\<forall>n \<in> set ms. projected n x'" by simp_all
  with one show ?case using extends_trans [of x x1 x'] projected_extends [of x1 x' m] by simp
qed simp

definition messages_keyed :: "db \<Rightarrow> bool" where
  "messages_keyed d \<longleftrightarrow> keys_ok (d_messages d) \<and> (\<forall>(k, m) \<in> set (d_messages d). ms_id m = k)"

lemma messages_distinct: "messages_keyed d \<Longrightarrow> distinct (map ms_id (trows (d_messages d)))"
proof -
  assume d: "messages_keyed d"
  then have "map ms_id (trows (d_messages d)) = map fst (d_messages d)"
    by (auto simp: messages_keyed_def trows_def)
  with d show ?thesis by (simp add: messages_keyed_def keys_ok_def)
qed

text \<open>
  A backfill completes the stream: afterwards every message of the negotiation has its row with its content, no row has
  changed, and the numbering is without gaps.
\<close>
theorem backfill_sound:
  assumes "backfill d sid x = Inr (n, x')" and "stream_ok x" and "messages_keyed d"
    and "\<forall>m \<in> set (trows (d_messages d)). ms_session_id m = sid \<longrightarrow> tget (tx_sources x) (ms_id m) \<noteq> None \<longrightarrow> projected m x"
  shows "stream_ok x' \<and> extends x x' \<and> (\<forall>m \<in> set (trows (d_messages d)). ms_session_id m = sid \<longrightarrow> projected m x')"
proof -
  obtain c x1 where c: "context_of_session sid x = (c, x1)" by fastforce
  note same = context_of_session_simps [OF c] and nxt = context_of_session_next [OF c]
  let ?ms = "filter (\<lambda>m. ms_session_id m = sid \<and> tget (tx_sources x) (ms_id m) = None) (trows (d_messages d))"
  let ?done = "\<lambda>y :: transcript. y\<lparr>tx_contexts := tmod sid (\<lambda>c. c\<lparr>sx_backfilled := True\<rparr>) (tx_contexts y)\<rparr>"
  from assms(1) obtain x2 where fold: "efold project_legacy ?ms x1 = Inr x2" and x': "x' = ?done x2"
    by (auto simp: backfill_def c same Let_def result_simps)
  have "stream_ok x1" using assms(2) same nxt by (simp add: stream_ok_def)
  moreover have "distinct (map ms_id ?ms)" using messages_distinct [OF assms(3)] by (simp add: distinct_map_filter)
  ultimately have ok: "stream_ok x2" "extends x1 x2" "\<forall>m \<in> set ?ms. projected m x2"
    using project_all [OF fold] same by auto
  have ext: "extends x x'" using ok(2) same by (simp add: extends_def x')
  have "projected m x'" if m: "m \<in> set (trows (d_messages d))" "ms_session_id m = sid" for m
  proof (cases "tget (tx_sources x) (ms_id m) = None")
    case True
    with ok(3) m show ?thesis by (simp add: projected_def x')
  next
    case False
    with assms(4) m have "projected m x" by blast
    with ext show ?thesis by (rule projected_extends)
  qed
  with ok ext show ?thesis by (simp add: x')
qed

section \<open>Runs\<close>

inductive stream_step :: "transcript \<Rightarrow> transcript \<Rightarrow> bool" where
  append_step: "append_entry e x = Inr (r, x') \<Longrightarrow> stream_step x x'"
| project_step: "project m task kind legacy x = Inr (r, x') \<Longrightarrow> stream_step x x'"
| legacy_step: "project_legacy m x = Inr x' \<Longrightarrow> stream_step x x'"

lemma stream_step_ok: "stream_step x x' \<Longrightarrow> stream_ok x \<Longrightarrow> stream_ok x' \<and> extends x x'"
proof (induction rule: stream_step.induct)
  case (append_step e x r x')
  then show ?case using append_entry_ok append_entry_extends by blast
next
  case (project_step m task kind legacy x r x')
  then show ?case by (rule project_ok)
next
  case (legacy_step m x x')
  then obtain kind r where "project m None kind True x = Inr (r, x')" by (auto simp: project_legacy_def result_simps)
  then show ?case using legacy_step.prems by (rule project_ok)
qed

definition empty_stream :: transcript where
  "empty_stream = \<lparr>tx_rows = [], tx_next = 1, tx_contexts = [], tx_sources = []\<rparr>"

lemma empty_stream_ok [simp]: "stream_ok empty_stream"
  by (simp add: stream_ok_def empty_stream_def next_seq_def rows_of_def trows_def)

text \<open>
  C29: On every run of the stream the rows of a negotiation carry the numbers 1, 2, 3, ... in the order of their insertion,
  event keys are unique, and what has been stored stays as it was.
\<close>
theorem stream_runs_sound:
  assumes "stream_step\<^sup>*\<^sup>* empty_stream x" and "stream_step\<^sup>*\<^sup>* x x'"
  shows "map am_seq (rows_of x' sid) = [1..int (length (rows_of x' sid))] \<and> distinct (map am_key (rows_of x' sid))
    \<and> (\<exists>more. rows_of x' sid = rows_of x sid @ more)"
proof -
  have run: "stream_ok z \<and> extends y z" if "stream_step\<^sup>*\<^sup>* y z" "stream_ok y" for y z
    using that by (induction rule: rtranclp_induct) (auto dest: stream_step_ok intro: extends_trans)
  from run [OF assms(1)] have "stream_ok x" by simp
  from run [OF assms(2) this] have ok: "stream_ok x'" and ext: "extends x x'" by auto
  from ok have seqs: "map am_seq (rows_of x' sid) = [1..next_seq x' sid - 1]" and "1 \<le> next_seq x' sid"
    and "distinct (map am_key (rows_of x' sid))" by (simp_all add: stream_ok_def)
  moreover from seqs have "length (rows_of x' sid) = nat (next_seq x' sid - 1)" by (metis length_map length_upto diff_add_cancel)
  moreover have "\<exists>more. rows_of x' sid = rows_of x sid @ more" using ext by (auto simp: extends_def rows_of_def trows_def)
  ultimately show ?thesis by simp
qed

section \<open>Samples\<close>

definition sample_event :: new_entry where
  "sample_event = \<lparr>ne_session = 7, ne_key = ''run:1'', ne_role = ''SYSTEM'', ne_entry = DataEntry RUN_CONFIG (JObj []),
     ne_public = False, ne_task = Some 1, ne_branch = None, ne_step = None, ne_attempt = None, ne_call = None\<rparr>"

definition sample_message :: message where
  "sample_message = \<lparr>ms_id = 1, ms_source_id = None, ms_public_seq = None, ms_session_id = 7, ms_role = BUYER_MESSAGE,
     ms_content = ''hello'', ms_request_id = ''r1'', ms_request_fingerprint = None, ms_agent_outcome = None,
     ms_formal_offer_id = None\<rparr>"

definition sample_stream :: transcript where
  "sample_stream = \<lparr>tx_rows = [(1, row_of_entry 1 1 sample_event)], tx_next = 2,
     tx_contexts = [(7, new_context\<lparr>sx_next_seq := 2\<rparr>)], tx_sources = []\<rparr>"

lemma sample_append: "append_entry sample_event empty_stream = Inr (row_of_entry 1 1 sample_event, sample_stream)"
  by (simp add: append_entry_def sample_event_def empty_stream_def sample_stream_def context_of_session_def tadd_ignore_def
      row_of_key_def trows_def new_context_def row_of_entry_def tadd_def tput_def Let_def)

lemma append_entry_sound_witness:
  "stream_ok sample_stream \<and> append_entry sample_event sample_stream = Inr (row_of_entry 1 1 sample_event, sample_stream)"
  using append_entry_sound [OF sample_append empty_stream_ok] by simp

definition backfilled_stream :: "nat \<times> transcript" where
  "backfilled_stream = (case backfill (sample_db\<lparr>d_messages := [(1, sample_message)]\<rparr>) 7 sample_stream of Inr r \<Rightarrow> r | Inl _ \<Rightarrow> (0, sample_stream))"

lemma sample_backfill:
  "backfill (sample_db\<lparr>d_messages := [(1, sample_message)]\<rparr>) 7 sample_stream = Inr (1, snd backfilled_stream)"
  by (simp add: backfilled_stream_def backfill_def sample_stream_def sample_message_def context_of_session_def tadd_ignore_def
      trows_def project_legacy_def project_def append_entry_def public_entry_def row_of_key_def row_of_entry_def sample_event_def
      tadd_def Let_def)

lemma backfill_sound_witness: "projected sample_message (snd backfilled_stream) \<and> extends sample_stream (snd backfilled_stream)"
proof -
  have "stream_ok sample_stream" using append_entry_ok [OF sample_append] by simp
  moreover have "messages_keyed (sample_db\<lparr>d_messages := [(1, sample_message)]\<rparr>)"
    by (simp add: messages_keyed_def sample_message_def keys_ok_def)
  ultimately show ?thesis
    using backfill_sound [OF sample_backfill] by (simp add: trows_def sample_message_def sample_stream_def)
qed

lemma stream_runs_sound_witness: "map am_seq (rows_of sample_stream 7) = [1]"
proof -
  have "stream_step\<^sup>*\<^sup>* empty_stream sample_stream" using sample_append by (blast intro: stream_step.intros)
  from stream_runs_sound [OF rtranclp.rtrancl_refl this, of 7] show ?thesis
    by (simp add: rows_of_def sample_stream_def trows_def row_of_entry_def sample_event_def)
qed

end
