(* ===== verification/Memory.thy ===== *)
theory Memory
  imports Transcript
begin

text \<open>
  \<open>backend/app/agent/negotiation_memory.py\<close>: the working memory of a negotiation. The language model proposes entries that
  cite rows of the stream; an entry is taken only with the evidence its kind demands, a newer statement replaces an older
  one about the same field, and the memory keeps its last 32 entries.

  The two Chinese words that stand for a delivery method are transcribed, and of the two question marks only the Latin one
  occurs. \<open>max_list []\<close> stands for the exception of \<open>max\<close>, which the field constraints rule out.
\<close>

section \<open>Entries\<close>

datatype memory_kind = BUYER_STATEMENT | OPEN_QUESTION | ATTEMPTED_OPTION | HYPOTHESIS | PLAN
datatype memory_status = ENTRY_ACTIVE | ENTRY_RESOLVED | ENTRY_REPLACED

record memory_entry =
  me_kind :: memory_kind
  me_field :: string
  me_value :: string
  me_sources :: "int list"
  me_status :: memory_status
  me_explicit :: bool \<comment> \<open>the confidence, \<open>EXPLICIT\<close> or \<open>LOW\<close>\<close>

type_synonym memory = "memory_entry list option" \<comment> \<open>\<open>None\<close> is the empty dictionary\<close>

definition entry_ok :: "memory_entry \<Rightarrow> bool" where
  \<comment> \<open>the field constraints of \<open>MemoryEntry\<close>\<close>
  "entry_ok e \<longleftrightarrow>
     1 \<le> length (me_field e) \<and> length (me_field e) \<le> 64 \<and> 1 \<le> length (me_value e) \<and> length (me_value e) \<le> 240
     \<and> 1 \<le> length (me_sources e) \<and> length (me_sources e) \<le> 12 \<and> me_status e \<noteq> ENTRY_REPLACED"

definition delta_ok :: "memory_entry list \<Rightarrow> bool" where
  "delta_ok es \<longleftrightarrow> length es \<le> 16 \<and> list_all entry_ok es"

fun memory_kind_text :: "memory_kind \<Rightarrow> string" where
  "memory_kind_text BUYER_STATEMENT = ''BUYER_STATEMENT''"
| "memory_kind_text OPEN_QUESTION = ''OPEN_QUESTION''"
| "memory_kind_text ATTEMPTED_OPTION = ''ATTEMPTED_OPTION''"
| "memory_kind_text HYPOTHESIS = ''HYPOTHESIS''"
| "memory_kind_text PLAN = ''PLAN''"

fun memory_status_text :: "memory_status \<Rightarrow> string" where
  "memory_status_text ENTRY_ACTIVE = ''ACTIVE''"
| "memory_status_text ENTRY_RESOLVED = ''RESOLVED''"
| "memory_status_text ENTRY_REPLACED = ''REPLACED''"

definition entry_json :: "memory_entry \<Rightarrow> json" where
  \<comment> \<open>\<open>model_dump(mode="json")\<close>\<close>
  "entry_json e = JObj [(''kind'', JStr (memory_kind_text (me_kind e))), (''field'', JStr (me_field e)),
     (''value'', JStr (me_value e)), (''source_seqs'', JArr (map JInt (me_sources e))),
     (''status'', JStr (memory_status_text (me_status e))),
     (''confidence'', JStr (if me_explicit e then ''EXPLICIT'' else ''LOW''))]"

definition memory_json :: "memory \<Rightarrow> json" where
  "memory_json m = (case m of None \<Rightarrow> JObj []
     | Some es \<Rightarrow> JObj [(''schema_version'', JInt 1), (''entries'', JArr (map entry_json es))])"

section \<open>Updates\<close>

definition source_record :: "stream_record list \<Rightarrow> int \<Rightarrow> stream_record option" where
  \<comment> \<open>\<open>{r.seq: r for r in records}\<close>\<close>
  "source_record rs seq = find (\<lambda>r. sr_seq r = seq) (rev rs)"

definition content_of :: "stream_record \<Rightarrow> string" where
  "content_of r = (case sr_entry r of TextEntry _ content _ \<Rightarrow> content | _ \<Rightarrow> [])"

definition is_buyer_input :: "stream_record \<Rightarrow> bool" where
  "is_buyer_input r \<longleftrightarrow> (case sr_entry r of TextEntry BUYER_INPUT _ _ \<Rightarrow> True | _ \<Rightarrow> False)"

definition is_execution :: "stream_record \<Rightarrow> bool" where
  "is_execution r \<longleftrightarrow>
     (case sr_entry r of MessageEntry TOOL_RESULT _ _ \<Rightarrow> True | DataEntry RUNTIME_EVENT _ \<Rightarrow> True | _ \<Rightarrow> False)"

definition delivery_alias :: "string \<Rightarrow> string" where
  "delivery_alias v = (if v = ''pickup'' then ''ziti'' else if v = ''shipping'' then ''kuaidi'' else v)"

definition is_question :: "string \<Rightarrow> bool" where
  "is_question s \<longleftrightarrow> (case rev (strip s) of c # _ \<Rightarrow> c = CHR ''?'' | [] \<Rightarrow> False)"

definition cited :: "stream_record list \<Rightarrow> memory_entry \<Rightarrow> stream_record list" where
  "cited rs e = map (\<lambda>seq. the (source_record rs seq)) (me_sources e)"

definition statement_error :: "stream_record list \<Rightarrow> string \<Rightarrow> string option" where
  "statement_error cs v =
     (if \<not> list_all is_buyer_input cs then Some ''buyer statements must cite buyer messages''
      else if \<not> substring (delivery_alias v) (separated [CHR 0x0A] (map content_of cs))
      then Some ''value lacks explicit source evidence''
      else if list_all (\<lambda>r. is_question (content_of r)) cs then Some ''a question cannot become a statement''
      else None)"

definition entry_error :: "stream_record list \<Rightarrow> memory_entry \<Rightarrow> string option" where
  \<comment> \<open>the checks of \<open>MemoryUpdater.apply\<close>\<close>
  "entry_error rs e =
     (if \<not> list_all (\<lambda>seq. source_record rs seq \<noteq> None) (me_sources e) then Some ''unavailable or foreign source''
      else
      case (if me_kind e = BUYER_STATEMENT then statement_error (cited rs e) (me_value e) else None) of
        Some m \<Rightarrow> Some m
      | None \<Rightarrow>
          if me_kind e = ATTEMPTED_OPTION \<and> \<not> list_all is_execution (cited rs e)
          then Some ''attempted options must cite execution evidence''
          else if me_kind e = HYPOTHESIS \<and> me_explicit e then Some ''hypotheses must remain low confidence''
          else None)"

fun max_list :: "int list \<Rightarrow> int" where
  "max_list [] = 0"
| "max_list [x] = x"
| "max_list (x # y # ys) = max x (max_list (y # ys))"

definition same_topic :: "memory_entry \<Rightarrow> memory_entry \<Rightarrow> bool" where
  "same_topic old e \<longleftrightarrow> me_kind old = me_kind e \<and> me_field old = me_field e
     \<and> (me_kind e \<noteq> OPEN_QUESTION \<or> me_value old = me_value e)"

definition add_entry :: "memory_entry \<Rightarrow> memory_entry list \<Rightarrow> memory_entry list" where
  "add_entry e es =
     (if list_ex (\<lambda>old. same_topic old e \<and> max_list (me_sources e) < max_list (me_sources old)) es then es
      else map (\<lambda>old. if same_topic old e then old\<lparr>me_status := ENTRY_REPLACED\<rparr> else old) es @ [e])"

fun add_entries :: "stream_record list \<Rightarrow> memory_entry list \<Rightarrow> memory_entry list \<Rightarrow> exn + memory_entry list" where
  "add_entries rs [] es = Inr es"
| "add_entries rs (e # delta) es =
     (case entry_error rs e of Some m \<Rightarrow> Inl (ValueExn m) | None \<Rightarrow> add_entries rs delta (add_entry e es))"

definition keep_last :: "nat \<Rightarrow> 'a list \<Rightarrow> 'a list" where
  \<comment> \<open>\<open>xs[-n:]\<close>\<close>
  "keep_last n xs = drop (length xs - n) xs"

definition apply_delta :: "memory \<Rightarrow> memory_entry list \<Rightarrow> stream_record list \<Rightarrow> exn + memory" where
  \<comment> \<open>\<open>MemoryUpdater.apply\<close>\<close>
  "apply_delta m delta rs =
     ebind (add_entries rs delta (case m of None \<Rightarrow> [] | Some es \<Rightarrow> es)) (\<lambda>es. Inr (Some (keep_last 32 es)))"

definition remembered_tool :: "string \<Rightarrow> bool" where
  "remembered_tool name \<longleftrightarrow> name \<in> {''evaluate_offer'', ''submit_counter_offer'', ''accept_offer'', ''request_approval''}"

definition attempt_detail :: "tool_call \<Rightarrow> json \<Rightarrow> json" where
  "attempt_detail c v = JObj
     [(''tool'', JStr (tk_name c)), (''price'', jget (tk_args c) ''price''),
      (''delivery'', jget (jget (tk_args c) ''additional_terms'') ''delivery_method''),
      (''ok'', JBool (truthy (jget v ''ok''))), (''offer_id'', jget (jget v ''offer'') ''id''),
      (''authorization'', jget (jget v ''authorization'') ''reason_code''), (''error'', jget (jget v ''error'') ''code'')]"

definition record_tool :: "(string \<Rightarrow> string) \<Rightarrow> memory \<Rightarrow> stream_record \<Rightarrow> tool_call \<Rightarrow> json \<Rightarrow> exn + memory" where
  \<comment> \<open>\<open>digest\<close> is the hexadecimal SHA-256 digest of a text\<close>
  "record_tool digest m source c v =
     (if \<not> remembered_tool (tk_name c) then Inr m
      else apply_delta m
        [\<lparr>me_kind = ATTEMPTED_OPTION, me_field = ''attempt:'' @ take 16 (digest (tk_id c)),
          me_value = take 240 (json_text '','' '':'' (attempt_detail c v)), me_sources = [sr_seq source],
          me_status = ENTRY_ACTIVE, me_explicit = True\<rparr>] [source])"

section \<open>What the memory guarantees\<close>

definition grounded :: "stream_record list \<Rightarrow> memory_entry \<Rightarrow> bool" where
  \<comment> \<open>every source is at hand; what a buyer stated is in the buyer's own words, not all of them questions; an attempt was
    executed; a hypothesis is marked as one\<close>
  "grounded rs e \<longleftrightarrow>
     (\<forall>seq \<in> set (me_sources e). \<exists>r \<in> set rs. sr_seq r = seq)
     \<and> (me_kind e = BUYER_STATEMENT \<longrightarrow>
          (\<forall>r \<in> set (cited rs e). is_buyer_input r)
          \<and> substring (delivery_alias (me_value e)) (separated [CHR 0x0A] (map content_of (cited rs e)))
          \<and> (\<exists>r \<in> set (cited rs e). \<not> is_question (content_of r)))
     \<and> (me_kind e = ATTEMPTED_OPTION \<longrightarrow> (\<forall>r \<in> set (cited rs e). is_execution r))
     \<and> (me_kind e = HYPOTHESIS \<longrightarrow> \<not> me_explicit e)"

fun current_entries :: "memory_entry list \<Rightarrow> bool" where
  \<comment> \<open>of the entries on a topic only the last may be current, and it rests on the newest evidence\<close>
  "current_entries [] = True"
| "current_entries (e # es) =
     ((\<forall>x \<in> set es. same_topic e x \<longrightarrow> me_status e = ENTRY_REPLACED \<and> max_list (me_sources e) \<le> max_list (me_sources x))
      \<and> current_entries es)"

definition memory_ok :: "memory \<Rightarrow> bool" where
  "memory_ok m = (case m of None \<Rightarrow> True | Some es \<Rightarrow> length es \<le> 32 \<and> current_entries es)"

lemma same_topic_sym: "same_topic a b \<longleftrightarrow> same_topic b a"
  by (auto simp: same_topic_def)

lemma same_topic_status [simp]:
  "same_topic (a\<lparr>me_status := s\<rparr>) b \<longleftrightarrow> same_topic a b" "same_topic a (b\<lparr>me_status := s\<rparr>) \<longleftrightarrow> same_topic a b"
  by (auto simp: same_topic_def)

lemma source_record_in: "source_record rs seq \<noteq> None \<Longrightarrow> \<exists>r \<in> set rs. sr_seq r = seq"
  by (auto simp: source_record_def find_None_iff)

lemma entry_error_supported:
  assumes "entry_error rs e = None"
  shows "grounded rs e"
  using assms source_record_in [of rs]
  by (auto simp: grounded_def entry_error_def statement_error_def list_all_iff split: if_splits option.splits)

lemma current_entries_map:
  assumes "current_entries es"
  shows "current_entries (map (\<lambda>old. if same_topic old e then old\<lparr>me_status := ENTRY_REPLACED\<rparr> else old) es)"
  using assms by (induction es) auto

lemma current_entries_snoc:
  "current_entries (es @ [e]) \<longleftrightarrow>
     current_entries es
     \<and> (\<forall>x \<in> set es. same_topic x e \<longrightarrow> me_status x = ENTRY_REPLACED \<and> max_list (me_sources x) \<le> max_list (me_sources e))"
  by (induction es) auto

lemma current_entries_add: "current_entries es \<Longrightarrow> current_entries (add_entry e es)"
  by (auto simp: add_entry_def current_entries_snoc current_entries_map list_ex_iff not_less)

lemma current_entries_drop: "current_entries es \<Longrightarrow> current_entries (drop n es)"
  by (induction n arbitrary: es) (auto simp: drop_Suc tl_def split: list.splits)

definition descends :: "memory_entry list \<Rightarrow> memory_entry \<Rightarrow> bool" where
  \<comment> \<open>an old entry, possibly replaced since\<close>
  "descends es x \<longleftrightarrow> (\<exists>old \<in> set es. x = old \<or> x = old\<lparr>me_status := ENTRY_REPLACED\<rparr>)"

lemma descends_add: "x \<in> set (add_entry e es) \<Longrightarrow> x = e \<or> descends es x"
  by (auto simp: add_entry_def descends_def split: if_splits)

lemma descends_trans: "descends (add_entry e es) x \<Longrightarrow> x \<in> {e, e\<lparr>me_status := ENTRY_REPLACED\<rparr>} \<or> descends es x"
  by (auto simp: descends_def add_entry_def split: if_splits)

lemma supported_status [simp]: "grounded rs (e\<lparr>me_status := s\<rparr>) = grounded rs e"
  by (simp add: grounded_def cited_def)

lemma add_entries_sound:
  assumes "add_entries rs delta es = Inr es'"
  shows "(\<forall>e \<in> set delta. grounded rs e)
    \<and> (\<forall>x \<in> set es'. descends es x \<or> (\<exists>e \<in> set delta. x = e \<or> x = e\<lparr>me_status := ENTRY_REPLACED\<rparr>))
    \<and> (current_entries es \<longrightarrow> current_entries es')"
  using assms
proof (induction rs delta es rule: add_entries.induct)
  case (1 rs es)
  then show ?case by (auto simp: descends_def)
next
  case (2 rs e delta es)
  from "2.prems" have ok: "entry_error rs e = None" and rest: "add_entries rs delta (add_entry e es) = Inr es'"
    by (auto split: option.splits)
  note IH = "2.IH" [OF ok rest]
  have "descends es x \<or> (\<exists>y \<in> set (e # delta). x = y \<or> x = y\<lparr>me_status := ENTRY_REPLACED\<rparr>)" if "x \<in> set es'" for x
    using IH that descends_trans [of e es x] by auto
  with IH show ?case using entry_error_supported [OF ok] current_entries_add [of es e] by simp
qed

text \<open>
  C30: An update of the memory keeps at most 32 entries, of which at most one on each topic is current, the one on the
  newest evidence; every entry was there before, or is a proposed one whose evidence is in the stream: what a buyer stated
  in the buyer's own words, attempted options in results of tools, hypotheses marked as such.
\<close>
theorem memory_update_sound:
  assumes "apply_delta m delta rs = Inr m'" and "memory_ok m"
  shows "memory_ok m' \<and> (\<exists>es. m' = Some es \<and> (\<forall>x \<in> set es.
      descends (case m of None \<Rightarrow> [] | Some old \<Rightarrow> old) x
      \<or> (\<exists>e \<in> set delta. grounded rs e \<and> (x = e \<or> x = e\<lparr>me_status := ENTRY_REPLACED\<rparr>))))"
proof -
  let ?old = "case m of None \<Rightarrow> [] | Some old \<Rightarrow> old"
  from assms(1) obtain es where es: "add_entries rs delta ?old = Inr es" and m': "m' = Some (keep_last 32 es)"
    by (auto simp: apply_delta_def result_simps)
  note sound = add_entries_sound [OF es]
  have "current_entries ?old" using assms(2) by (auto simp: memory_ok_def split: option.splits)
  with sound have "current_entries (keep_last 32 es)" by (simp add: keep_last_def current_entries_drop)
  moreover have "set (keep_last 32 es) \<subseteq> set es" by (simp add: keep_last_def set_drop_subset)
  ultimately show ?thesis using sound m' by (fastforce simp: memory_ok_def keep_last_def)
qed

definition sample_input :: "int \<Rightarrow> string \<Rightarrow> stream_record" where
  "sample_input seq text = \<lparr>sr_seq = seq, sr_entry = TextEntry BUYER_INPUT text JNull, sr_task = None, sr_branch = None, sr_public = True\<rparr>"

definition sample_statement :: "string \<Rightarrow> int \<Rightarrow> memory_status \<Rightarrow> memory_entry" where
  "sample_statement v seq status = \<lparr>me_kind = BUYER_STATEMENT, me_field = ''city'', me_value = v, me_sources = [seq],
     me_status = status, me_explicit = True\<rparr>"

lemma sample_update:
  "apply_delta (Some [sample_statement ''Rome'' 1 ENTRY_ACTIVE]) [sample_statement ''Paris'' 2 ENTRY_ACTIVE]
     [sample_input 1 ''I live in Rome'', sample_input 2 ''I moved to Paris'']
   = Inr (Some [sample_statement ''Rome'' 1 ENTRY_REPLACED, sample_statement ''Paris'' 2 ENTRY_ACTIVE])"
  by (simp add: apply_delta_def entry_error_def source_record_def statement_error_def cited_def sample_input_def
      sample_statement_def is_buyer_input_def content_of_def delivery_alias_def is_question_def strip_def is_space_def
      add_entry_def same_topic_def keep_last_def)

lemma sample_memory_ok: "memory_ok (Some [sample_statement ''Rome'' 1 ENTRY_ACTIVE])"
  by (simp add: memory_ok_def)

lemma memory_update_sound_witness:
  "memory_ok (Some [sample_statement ''Rome'' 1 ENTRY_REPLACED, sample_statement ''Paris'' 2 ENTRY_ACTIVE])"
  using memory_update_sound [OF sample_update sample_memory_ok] by simp

end
