(* ===== verification/Context_Window.thy ===== *)
theory Context_Window
  imports Memory
begin

text \<open>
  \<open>backend/app/agent/token_budget.py\<close>, \<open>agent/context_builder.py\<close> and \<open>agent/context_compressor.py\<close>: what of the stream
  is sent to the language model. The messages must fit the input limit: first earlier exchanges are summarised by a call
  of the model itself, then whole exchanges are left out, the oldest first, but never the two last ones or the one with
  the buyer's current message.

  Prompts and instructions are given by English tags. The ratios of the configuration are rationals, \<open>parse\<close> is
  \<open>json.loads\<close>, and a step that calls the model changes a state \<open>'w\<close> of the caller.
\<close>

section \<open>Configuration\<close>

record agent_budget =
  bu_window :: int
  bu_input :: int
  bu_output :: int
  bu_safety :: int
  bu_growth :: int
  bu_trigger :: rat
  bu_target :: rat
  bu_tool_result :: int
  bu_steps :: int
  bu_calls :: int
  bu_maintenance :: int
  bu_tools :: int
  bu_wall :: time
  bu_tokens :: int
  bu_cost :: "cost option"

record agent_config =
  ac_budget :: agent_budget
  ac_prompt :: string
  ac_prompt_hash :: string
  ac_summary_prompt :: string
  ac_memory_prompt :: string
  ac_review_prompt :: string
  ac_conversation :: bool \<comment> \<open>\<open>reply_strategy == "conversation-v1"\<close>\<close>
  ac_review_output :: "int option"
  ac_capabilities :: json
  ac_memory_enabled :: bool
  ac_structured_finish :: bool \<comment> \<open>\<open>ending_strategy == "structured-finish-v2"\<close>\<close>
  ac_named_finish :: bool \<comment> \<open>\<open>ending_strategy == "named-finish-v1"\<close>\<close>
  ac_contiguous :: bool \<comment> \<open>\<open>memory_catchup_strategy == "contiguous-prefix-v1"\<close>\<close>
  ac_thinking :: bool
  ac_timeout :: int
  ac_provider :: string
  ac_model_name :: string
  ac_prices :: usage_prices
  ac_tools :: "json list"

datatype run_error =
    OverBudget string \<comment> \<open>\<open>AgentBudgetExceeded\<close>\<close>
  | Raised exn
  | ProviderFailed failure

section \<open>Tokens\<close>

definition token_limit :: "agent_budget \<Rightarrow> int" where
  "token_limit b = min (bu_input b) (bu_window b - bu_output b - bu_safety b)"

definition estimate :: "agent_message list \<Rightarrow> json list \<Rightarrow> int" where
  "estimate ms tools =
     int ((utf8_length (json_text '','' '':''
             (JObj [(''messages'', JArr (map wire_message ms)), (''tools'', JArr tools)])) + 1) div 2 + 32 * length ms)"

definition check_tokens :: "agent_budget \<Rightarrow> agent_message list \<Rightarrow> json list \<Rightarrow> exn + int" where
  \<comment> \<open>\<open>TokenBudgetManager(budget).check\<close>\<close>
  "check_tokens b ms tools =
     (if token_limit b \<le> 0 then Inl (ValueExn ''model window has no input capacity'')
      else if token_limit b < estimate ms tools then Inl (ValueExn ''context exceeds the input budget'')
      else Inr (estimate ms tools))"

section \<open>The messages\<close>

record context_state =
  cs_summary :: string
  cs_covered :: int
  cs_memory :: memory
  cs_sources :: "int list"

fun text_kind_text :: "text_kind \<Rightarrow> string" where
  "text_kind_text BUYER_INPUT = ''BUYER_INPUT''"
| "text_kind_text PUBLIC_REPLY = ''PUBLIC_REPLY''"
| "text_kind_text APPROVAL_NOTIFICATION = ''APPROVAL_NOTIFICATION''"
| "text_kind_text SESSION_NOTIFICATION = ''SESSION_NOTIFICATION''"

fun message_kind_text :: "message_kind \<Rightarrow> string" where
  "message_kind_text TOOL_CALL = ''TOOL_CALL''"
| "message_kind_text TOOL_RESULT = ''TOOL_RESULT''"
| "message_kind_text MODEL_CANDIDATE = ''MODEL_CANDIDATE''"

definition kind_text :: "stream_record \<Rightarrow> string" where
  "kind_text r = (case sr_entry r of TextEntry k _ _ \<Rightarrow> text_kind_text k | MessageEntry k _ _ \<Rightarrow> message_kind_text k
     | DataEntry RUNTIME_EVENT _ \<Rightarrow> ''RUNTIME_EVENT'' | DataEntry RUN_CONFIG _ \<Rightarrow> ''RUN_CONFIG''
     | DataEntry CONTEXT_ARTIFACT _ \<Rightarrow> ''CONTEXT_ARTIFACT'')"

definition usable :: "stream_record \<Rightarrow> bool" where
  "usable r \<longleftrightarrow> record_message r \<noteq> None"

definition message_of :: "stream_record \<Rightarrow> agent_message" where
  "message_of r = the (record_message r)"

record build_flags =
  bf_repair :: bool
  bf_structured :: bool
  bf_feedback :: "string option"
  bf_growth :: int

definition prompt_header :: "agent_config \<Rightarrow> build_flags \<Rightarrow> string" where
  "prompt_header g f =
     ac_prompt g
     @ (case bf_feedback f of
          Some s \<Rightarrow> if ac_conversation g \<and> s \<noteq> []
                    then ''; rejected: '' @ json_text '', '' '': '' (JObj [(''reply_validation_feedback'', JStr s)]) else []
        | None \<Rightarrow> [])
     @ (if ac_conversation g \<and> (bf_structured f \<or> bf_repair f)
        then ''; submit the final plan'' @ (if bf_structured f then '' as JSON'' else '' with finish_turn'')
        else if bf_structured f then ''; answer with the final JSON''
        else if bf_repair f then ''; call finish_turn'' else [])"

definition fixed_messages :: "agent_config \<Rightarrow> build_flags \<Rightarrow> json \<Rightarrow> memory \<Rightarrow> agent_message list" where
  "fixed_messages g f facts m =
     [SystemText (prompt_header g f),
      HumanText (''facts: '' @ json_text '','' '':'' (JObj [(''facts'', facts), (''memory'', memory_json m)]))]"

definition source_list :: "int \<Rightarrow> stream_record list \<Rightarrow> agent_message" where
  "source_list cur sel = HumanText (''sources: '' @ json_text '','' '':''
     (JObj [(''current_input_seq'', JInt cur),
            (''sources'', JArr (map (\<lambda>r. JObj [(''seq'', JInt (sr_seq r)), (''kind'', JStr (kind_text r)),
                                               (''role'', JStr (message_role_text (message_of r)))]) sel))]))"

definition assemble :: "agent_message list \<Rightarrow> string \<Rightarrow> int \<Rightarrow> stream_record list \<Rightarrow> agent_message list" where
  "assemble fixed summary cur sel =
     fixed @ (if summary = [] then [] else [HumanText (''summary: '' @ summary)]) @ source_list cur sel # map message_of sel"

definition uncovered :: "context_state \<Rightarrow> stream_record list \<Rightarrow> stream_record list" where
  "uncovered st rs = filter (\<lambda>r. usable r \<and> cs_covered st < sr_seq r \<and> sr_seq r \<notin> set (cs_sources st)) rs"

section \<open>Leaving out exchanges\<close>

definition older_groups :: "stream_record list \<Rightarrow> stream_record list list" where
  \<comment> \<open>\<open>groups[:-2]\<close>\<close>
  "older_groups sel = take (length (groups sel) - 2) (groups sel)"

definition contains_seq :: "int \<Rightarrow> stream_record list \<Rightarrow> bool" where
  "contains_seq seq rs \<longleftrightarrow> list_ex (\<lambda>r. sr_seq r = seq) rs"

definition removable :: "int \<Rightarrow> stream_record list \<Rightarrow> stream_record list option" where
  "removable cur sel = find (\<lambda>g. \<not> contains_seq cur g) (older_groups sel)"

definition without_group :: "stream_record list \<Rightarrow> stream_record list \<Rightarrow> stream_record list" where
  "without_group g sel = filter (\<lambda>r. \<not> contains_seq (sr_seq r) g) sel"

lemma groups_fold_members:
  assumes "foldl add_to_groups (gs, p) rs = (gs', p')" and "gs = [] \<longrightarrow> p = {}" and "[] \<notin> set gs"
  shows "concat gs' = concat gs @ filter usable rs \<and> [] \<notin> set gs'"
  using assms
proof (induction rs arbitrary: gs p)
  case (Cons r rs)
  show ?case
  proof (cases "record_message r")
    case None
    with Cons show ?thesis by (simp add: add_to_groups_def usable_def)
  next
    case (Some m)
    let ?gs = "if p = {} then gs @ [[r]] else butlast gs @ [last gs @ [r]]"
    have step: "add_to_groups (gs, p) r = (?gs, still_pending m p)" by (simp add: add_to_groups_def Some)
    have concat: "concat ?gs = concat gs @ [r]"
    proof (cases "p = {}")
      case False
      with Cons.prems(2) have "gs \<noteq> []" by auto
      then have "concat gs = concat (butlast gs @ [last gs])" by simp
      then have "concat gs = concat (butlast gs) @ last gs" by simp
      with False show ?thesis by simp
    qed simp
    have "[] \<notin> set ?gs" using Cons.prems(3) by (auto dest: in_set_butlastD)
    then show ?thesis using Cons.IH [of ?gs "still_pending m p"] Cons.prems(1) concat by (simp add: step Some usable_def)
  qed
qed simp

lemma concat_groups: "concat (groups rs) = filter usable rs" and groups_nonempty: "[] \<notin> set (groups rs)"
proof -
  obtain gs p where "foldl add_to_groups ([], {}) rs = (gs, p)" by fastforce
  from groups_fold_members [OF this] this
  show "concat (groups rs) = filter usable rs" "[] \<notin> set (groups rs)" by (simp_all add: groups_def)
qed

lemma older_group_member: "g \<in> set (older_groups sel) \<Longrightarrow> g \<in> set (groups sel)"
  by (auto simp: older_groups_def dest: in_set_takeD)

lemma group_members: "g \<in> set (groups sel) \<Longrightarrow> g \<noteq> [] \<and> set g \<subseteq> set sel"
proof -
  assume g: "g \<in> set (groups sel)"
  then have "set g \<subseteq> set (concat (groups sel))" by auto
  with g groups_nonempty [of sel] show ?thesis by (auto simp: concat_groups)
qed

lemma removable_member: "removable cur sel = Some g \<Longrightarrow> g \<in> set (groups sel) \<and> \<not> contains_seq cur g"
  by (auto simp: removable_def find_Some_iff intro: older_group_member nth_mem)

lemma without_group_shrinks:
  assumes "removable cur sel = Some g"
  shows "length (without_group g sel) < length sel"
proof -
  from removable_member [OF assms] group_members [of g sel] obtain r where "r \<in> set g" "r \<in> set sel"
    by (metis list.set_sel(1) subsetD)
  then show ?thesis unfolding without_group_def
    by (intro length_filter_less [of r]) (auto simp: contains_seq_def list_ex_iff)
qed

function trim ::
    "(stream_record list \<Rightarrow> int) \<Rightarrow> int \<Rightarrow> int \<Rightarrow> int \<Rightarrow> stream_record list \<Rightarrow> int list \<Rightarrow>
     run_error + (stream_record list \<times> int list \<times> int)" where
  \<comment> \<open>the loop of \<open>build\<close>: \<open>soft\<close> leaves room for results of tools, only \<open>hard\<close> is an error\<close>
  "trim tokens cur soft hard sel omitted =
     (if tokens sel \<le> soft then Inr (sel, omitted, soft)
      else case removable cur sel of
        None \<Rightarrow> if tokens sel \<le> hard then Inr (sel, omitted, hard) else Inl (OverBudget ''PINNED_CONTEXT_BUDGET'')
      | Some g \<Rightarrow> trim tokens cur soft hard (without_group g sel) (omitted @ map sr_seq g))"
  by pat_completeness auto

termination trim
  by (relation "measure (\<lambda>(tokens, cur, soft, hard, sel, omitted). length sel)") (auto dest: without_group_shrinks)

declare trim.simps [simp del]

section \<open>Summaries\<close>

definition compression_request :: "agent_config \<Rightarrow> context_state \<Rightarrow> (string \<times> json) list \<Rightarrow> stream_record list \<Rightarrow> agent_message list" where
  "compression_request g st extra old =
     [SystemText (ac_summary_prompt g),
      HumanText (json_text '', '' '': '' (JObj (
        [(''previous_summary'', JStr (cs_summary st)), (''previous_summary_source_seqs'', JArr (map JInt (cs_sources st))),
         (''records'', JArr (map (\<lambda>r. JObj [(''seq'', JInt (sr_seq r)), (''kind'', JStr (kind_text r)),
                                            (''message'', wire_message (message_of r))]) old))] @ extra)))]"

fun old_exchanges :: "(stream_record list \<Rightarrow> bool) \<Rightarrow> int \<Rightarrow> stream_record list list \<Rightarrow> stream_record list \<Rightarrow> stream_record list" where
  "old_exchanges fits cur [] old = old"
| "old_exchanges fits cur (gr # gs) old =
     (if contains_seq cur gr then old_exchanges fits cur gs old
      else if \<not> fits (old @ gr) then old
      else old_exchanges fits cur gs (old @ gr))"

definition target_characters :: "agent_config \<Rightarrow> int" where
  "target_characters g = max 200 \<lfloor>of_int (token_limit (ac_budget g)) * bu_target (ac_budget g) / 3\<rfloor>"

fun int_list :: "json list \<Rightarrow> int list option" where
  "int_list [] = Some []"
| "int_list (JInt i # xs) = map_option ((#) i) (int_list xs)"
| "int_list (JBool b # xs) = map_option ((#) (if b then 1 else 0)) (int_list xs)"
| "int_list (_ # xs) = None"

definition summary_of :: "int list \<Rightarrow> json option \<Rightarrow> exn + string" where
  \<comment> \<open>the checks of the model's answer\<close>
  "summary_of allowed data =
     (case data of
        Some (JObj kvs) \<Rightarrow>
          (case (jget (JObj kvs) ''text'', jget (JObj kvs) ''source_seqs'') of
             (JStr text, JArr xs) \<Rightarrow>
               if strip text = [] then Inl (ValueExn ''summary text is missing'')
               else (case int_list xs of
                       Some seqs \<Rightarrow>
                         if \<not> set seqs \<subseteq> set allowed then Inl (ValueExn ''summary references unknown sources'')
                         else if 5000 < length text then Inl (ValueExn ''summary exceeds its bound'') else Inr text
                     | None \<Rightarrow> Inl (ValueExn ''summary references unknown sources''))
           | _ \<Rightarrow> Inl (ValueExn ''summary text is missing''))
      | _ \<Rightarrow> Inl (ValueExn ''summary is not an object''))"

definition compress ::
    "agent_config \<Rightarrow> (string \<Rightarrow> json option) \<Rightarrow> (agent_message list \<Rightarrow> json \<Rightarrow> 'w \<Rightarrow> (run_error + string) \<times> 'w) \<Rightarrow>
     stream_record list \<Rightarrow> context_state \<Rightarrow> int \<Rightarrow> 'w \<Rightarrow> (run_error + context_state) \<times> 'w" where
  \<comment> \<open>\<open>ContextCompressor.compress\<close>; \<open>call\<close> is the call of the model for the purpose \<open>SUMMARY\<close>\<close>
  "compress g parse call sel st cur w =
     (let old = old_exchanges (\<lambda>c. estimate (compression_request g st [] c) [] \<le> token_limit (ac_budget g)) cur
                  (older_groups sel) [] in
      if old = [] then (Inr st, w)
      else
      case call (compression_request g st [(''target_characters'', JInt (target_characters g))] old)
             (JObj [(''source_seqs'', JArr (map (\<lambda>r. JInt (sr_seq r)) old)), (''previous_coverage'', JInt (cs_covered st))]) w of
        (Inl e, w1) \<Rightarrow> (Inl e, w1)
      | (Inr content, w1) \<Rightarrow>
          let allowed = map sr_seq old @ cs_sources st in
          (case summary_of allowed (parse content) of
             Inl e \<Rightarrow> (Inl (Raised e), w1)
           | Inr text \<Rightarrow>
               (Inr (st\<lparr>cs_summary := text, cs_covered := max (cs_covered st) (min (cur - 1) (sr_seq (last old))),
                        cs_sources := sort (remdups allowed)\<rparr>), w1)))"

section \<open>Building the context\<close>

record built_context =
  bt_messages :: "agent_message list"
  bt_selected :: "stream_record list"
  bt_omitted :: "int list"
  bt_tokens :: int
  bt_limit :: int
  bt_state :: context_state

definition finish_context ::
    "agent_config \<Rightarrow> agent_message list \<Rightarrow> json list \<Rightarrow> int \<Rightarrow> int \<Rightarrow> stream_record list \<Rightarrow> context_state \<Rightarrow> run_error + built_context" where
  \<comment> \<open>\<open>build\<close> once the records are selected\<close>
  "finish_context g fixed tools cur soft sel st =
     ebind (trim (\<lambda>s. estimate (assemble fixed (cs_summary st) cur s) tools) cur soft (token_limit (ac_budget g)) sel [])
       (\<lambda>(kept, omitted, limit).
     let ms = assemble fixed (cs_summary st) cur kept in
     case ebind (validate_protocol ms False) (\<lambda>_. check_tokens (ac_budget g) ms tools) of
       Inl e \<Rightarrow> Inl (Raised e)
     | Inr n \<Rightarrow> Inr \<lparr>bt_messages = ms, bt_selected = kept, bt_omitted = omitted, bt_tokens = n, bt_limit = limit, bt_state = st\<rparr>)"

definition build_context ::
    "agent_config \<Rightarrow> (stream_record list \<Rightarrow> context_state \<Rightarrow> 'w \<Rightarrow> (run_error + context_state) \<times> 'w) \<Rightarrow>
     stream_record list \<Rightarrow> context_state \<Rightarrow> json \<Rightarrow> json list \<Rightarrow> int \<Rightarrow> build_flags \<Rightarrow> 'w \<Rightarrow> (run_error + built_context) \<times> 'w" where
  \<comment> \<open>\<open>ContextBuilder.build\<close>\<close>
  "build_context g compressor rs st facts tools cur f w =
     (let fixed = fixed_messages g f facts (cs_memory st);
          soft = max 0 (token_limit (ac_budget g) - bf_growth f);
          sel = uncovered st rs in
      if of_int soft * bu_trigger (ac_budget g) < of_int (estimate (assemble fixed (cs_summary st) cur sel) tools) then
        (case compressor sel st w of
           (Inl e, w1) \<Rightarrow> (Inl e, w1)
         | (Inr st1, w1) \<Rightarrow> (finish_context g fixed tools cur soft (uncovered st1 rs) st1, w1))
      else (finish_context g fixed tools cur soft sel st, w))"

end
