(* ===== verification/Finish.thy ===== *)
theory Finish
  imports Context_Window
begin

text \<open>
  How a turn of the language model may end: \<open>backend/app/agent/runtime_state.py\<close> and \<open>agent/conversation_reply.py\<close>, the
  parsed plan of a reply and its review against the facts, and \<open>agent/tools/gateway.py\<close>, the batch of tool calls that is
  admitted and the part of a result that the model sees.

  Validation accepts the JSON types that a field declares; texts that the validation library would convert to numbers are
  refused here. The digest is an argument \<open>H\<close>, and the patterns of \<open>claim_safety.py\<close> and \<open>preliminary_error\<close> are the
  parameter \<open>unsafe\<close>.
\<close>

section \<open>Fields\<close>

definition strict_object :: "string list \<Rightarrow> json \<Rightarrow> exn + (string \<times> json) list" where
  \<comment> \<open>\<open>extra="forbid"\<close>\<close>
  "strict_object allowed v =
     (case v of JObj kvs \<Rightarrow> if set (map fst kvs) \<subseteq> set allowed then Inr kvs else Inl validation_error | _ \<Rightarrow> Inl validation_error)"

definition text_field :: "nat \<Rightarrow> nat \<Rightarrow> json \<Rightarrow> exn + string" where
  "text_field lo hi v =
     (case v of JStr s \<Rightarrow> if lo \<le> length s \<and> length s \<le> hi then Inr s else Inl validation_error | _ \<Rightarrow> Inl validation_error)"

definition stripped_field :: "nat \<Rightarrow> nat \<Rightarrow> json \<Rightarrow> exn + string" where
  \<comment> \<open>\<open>str_strip_whitespace\<close>\<close>
  "stripped_field lo hi v = (case v of JStr s \<Rightarrow> text_field lo hi (JStr (strip s)) | _ \<Rightarrow> Inl validation_error)"

definition default_field :: "(string \<times> json) list \<Rightarrow> string \<Rightarrow> 'a \<Rightarrow> (json \<Rightarrow> exn + 'a) \<Rightarrow> exn + 'a" where
  "default_field kvs k x parse = (case map_of kvs k of None \<Rightarrow> Inr x | Some v \<Rightarrow> parse v)"

definition nullable :: "(json \<Rightarrow> exn + 'a) \<Rightarrow> json \<Rightarrow> exn + 'a option" where
  "nullable parse v = (if v = JNull then Inr None else ebind (parse v) (\<lambda>x. Inr (Some x)))"

fun list_field :: "(json \<Rightarrow> exn + 'a) \<Rightarrow> json list \<Rightarrow> exn + 'a list" where
  "list_field parse [] = Inr []"
| "list_field parse (v # vs) = ebind (parse v) (\<lambda>x. ebind (list_field parse vs) (\<lambda>xs. Inr (x # xs)))"

definition bounded_list :: "nat \<Rightarrow> nat \<Rightarrow> (json \<Rightarrow> exn + 'a) \<Rightarrow> json \<Rightarrow> exn + 'a list" where
  "bounded_list lo hi parse v =
     (case v of JArr vs \<Rightarrow> if lo \<le> length vs \<and> length vs \<le> hi then list_field parse vs else Inl validation_error
      | _ \<Rightarrow> Inl validation_error)"

definition enum_field :: "('a \<Rightarrow> string) \<Rightarrow> 'a list \<Rightarrow> json \<Rightarrow> exn + 'a" where
  "enum_field text values v =
     (case v of JStr s \<Rightarrow> some_or validation_error (find (\<lambda>x. text x = s) values) | _ \<Rightarrow> Inl validation_error)"

definition int_field :: "json \<Rightarrow> exn + int" where
  "int_field v = (case v of JInt i \<Rightarrow> Inr i | _ \<Rightarrow> Inl validation_error)"

definition bool_field :: "json \<Rightarrow> exn + bool" where
  "bool_field v = (case v of JBool b \<Rightarrow> Inr b | _ \<Rightarrow> Inl validation_error)"

definition money_field :: "json \<Rightarrow> exn + cents" where
  \<comment> \<open>\<open>DecisionMoney\<close>, from an integer or a text\<close>
  "money_field v =
     (case v of JInt i \<Rightarrow> if 0 \<le> i \<and> i * 100 \<le> MAX_MONEY then Inr (i * 100) else Inl validation_error | _ \<Rightarrow> cents_field v)"

definition memory_entry_field :: "json \<Rightarrow> exn + memory_entry" where
  "memory_entry_field v =
     ebind (strict_object [''kind'', ''field'', ''value'', ''source_seqs'', ''status'', ''confidence''] v) (\<lambda>kvs.
     ebind (enum_field memory_kind_text [BUYER_STATEMENT, OPEN_QUESTION, ATTEMPTED_OPTION, HYPOTHESIS, PLAN]
              (jget (JObj kvs) ''kind'')) (\<lambda>kind.
     ebind (text_field 1 64 (jget (JObj kvs) ''field'')) (\<lambda>field.
     ebind (text_field 1 240 (jget (JObj kvs) ''value'')) (\<lambda>value.
     ebind (bounded_list 1 12 int_field (jget (JObj kvs) ''source_seqs'')) (\<lambda>sources.
     ebind (default_field kvs ''status'' ENTRY_ACTIVE (enum_field memory_status_text [ENTRY_ACTIVE, ENTRY_RESOLVED])) (\<lambda>status.
     ebind (default_field kvs ''confidence'' True
              (enum_field (\<lambda>b. if b then ''EXPLICIT'' else ''LOW'') [True, False])) (\<lambda>explicit.
     Inr \<lparr>me_kind = kind, me_field = field, me_value = value, me_sources = sources, me_status = status,
          me_explicit = explicit\<rparr>)))))))"

definition memory_delta_field :: "json \<Rightarrow> exn + memory_entry list" where
  \<comment> \<open>\<open>MemoryDelta\<close>\<close>
  "memory_delta_field v =
     ebind (strict_object [''entries''] v) (\<lambda>kvs. default_field kvs ''entries'' [] (bounded_list 0 16 memory_entry_field))"

section \<open>The plan of a reply\<close>

record finish_plan =
  fp_decision :: decision \<comment> \<open>\<open>business_decision\<close>\<close>
  fp_clarify :: bool
  fp_topics :: "string list"
  fp_stop :: string
  fp_delta :: "memory_entry list"

definition dialogue_act_field :: "json \<Rightarrow> exn + dialogue_act" where
  "dialogue_act_field v =
     ebind (strict_object [''kind'', ''subject'', ''requested_value''] v) (\<lambda>kvs.
     ebind (enum_field act_kind_text [ASK_FACT, ASK_PRIVATE_INFO, REQUEST_TERM, REQUEST_COMMITMENT, GENERAL_ACT, UNKNOWN_ACT]
              (jget (JObj kvs) ''kind'')) (\<lambda>kind.
     ebind (enum_field act_subject_text [PRODUCT_DETAILS, LISTED_PRICE, PRICE_FLOOR, OFFER_PRICE, PRICE_NEGOTIATION,
              AVAILABILITY, SHIPPING_PAYER, SHIPPING_COST, DELIVERY_METHOD, DISPATCH_DEADLINE, RESERVATION, GENERAL_SUBJECT,
              OTHER_SUBJECT] (jget (JObj kvs) ''subject'')) (\<lambda>subject.
     ebind (default_field kvs ''requested_value'' None
              (\<lambda>x. case x of JStr s \<Rightarrow> if strip s = [] then Inr None else nullable (stripped_field 0 120) x
                   | _ \<Rightarrow> nullable (stripped_field 0 120) x)) (\<lambda>requested.
     Inr \<lparr>da_kind = kind, da_subject = subject, da_requested = requested\<rparr>))))"

definition decision_field :: "json \<Rightarrow> exn + decision" where
  \<comment> \<open>\<open>NegotiationDecision.model_validate\<close>\<close>
  "decision_field v =
     ebind (strict_object [''action'', ''dialogue_acts'', ''offer_id'', ''proposed_price'', ''shipping_paid_by'', ''shipping_cost'',
              ''seller_borne_discount'', ''additional_terms'', ''reason'', ''reply''] v) (\<lambda>kvs.
     ebind (enum_field action_text [DO_INQUIRY, DO_ACCEPT, DO_COUNTER, DO_REJECT, DO_REQUEST_APPROVAL] (jget (JObj kvs) ''action''))
       (\<lambda>action.
     ebind (default_field kvs ''dialogue_acts'' [] (bounded_list 0 8 dialogue_act_field)) (\<lambda>acts.
     ebind (default_field kvs ''offer_id'' None (nullable int_field)) (\<lambda>oid.
     ebind (default_field kvs ''proposed_price'' None (nullable money_field)) (\<lambda>price.
     ebind (default_field kvs ''shipping_paid_by'' None (nullable payer_field)) (\<lambda>payer.
     ebind (default_field kvs ''shipping_cost'' None (nullable money_field)) (\<lambda>cost.
     ebind (default_field kvs ''seller_borne_discount'' None (nullable money_field)) (\<lambda>discount.
     ebind (default_field kvs ''additional_terms'' [] (\<lambda>x. case x of JObj ts \<Rightarrow> Inr ts | _ \<Rightarrow> Inl validation_error)) (\<lambda>terms.
     ebind (stripped_field 1 500 (jget (JObj kvs) ''reason'')) (\<lambda>reason.
     ebind (stripped_field 1 800 (jget (JObj kvs) ''reply'')) (\<lambda>reply.
     checked_decision \<lparr>dn_action = action, dn_acts = acts, dn_offer_id = oid, dn_price = price, dn_payer = payer, dn_cost = cost,
       dn_discount = discount, dn_terms = terms, dn_reason = reason, dn_reply = reply\<rparr>)))))))))))"

definition conversation_decision :: "negotiation_action \<Rightarrow> string \<Rightarrow> string \<Rightarrow> decision" where
  "conversation_decision action reason reply =
     \<lparr>dn_action = action,
      dn_acts = (if action = DO_INQUIRY then [\<lparr>da_kind = GENERAL_ACT, da_subject = GENERAL_SUBJECT, da_requested = None\<rparr>] else []),
      dn_offer_id = None, dn_price = None, dn_payer = None, dn_cost = None, dn_discount = None, dn_terms = [],
      dn_reason = reason, dn_reply = reply\<rparr>"

definition conversation_field :: "json \<Rightarrow> exn + decision \<times> bool \<times> string list" where
  \<comment> \<open>\<open>ConversationDecision\<close> with \<open>business_decision\<close>\<close>
  "conversation_field v =
     ebind (strict_object [''action'', ''reason'', ''reply'', ''needs_clarification'', ''topics''] v) (\<lambda>kvs.
     ebind (enum_field action_text [DO_INQUIRY, DO_REJECT] (jget (JObj kvs) ''action'')) (\<lambda>action.
     ebind (stripped_field 1 500 (jget (JObj kvs) ''reason'')) (\<lambda>reason.
     ebind (stripped_field 1 800 (jget (JObj kvs) ''reply'')) (\<lambda>reply.
     ebind (default_field kvs ''needs_clarification'' False bool_field) (\<lambda>clarify.
     ebind (default_field kvs ''topics'' [] (bounded_list 0 8 (stripped_field 1 80))) (\<lambda>topics.
     Inr (conversation_decision action reason reply, clarify, topics)))))))"

definition parse_finish :: "agent_config \<Rightarrow> json \<Rightarrow> exn + finish_plan" where
  \<comment> \<open>\<open>ConversationFinish\<close> or \<open>FinishTurnInput\<close>\<close>
  "parse_finish g args =
     ebind (strict_object [''decision'', ''stop_reason'', ''memory_delta''] args) (\<lambda>kvs.
     ebind (if ac_conversation g then conversation_field (jget (JObj kvs) ''decision'')
            else ebind (decision_field (jget (JObj kvs) ''decision'')) (\<lambda>dn. Inr (dn, False, []))) (\<lambda>(dn, clarify, topics).
     ebind (default_field kvs ''stop_reason'' ''COMPLETED'' (text_field 0 80)) (\<lambda>stop.
     ebind (default_field kvs ''memory_delta'' [] memory_delta_field) (\<lambda>delta.
     Inr \<lparr>fp_decision = dn, fp_clarify = clarify, fp_topics = topics, fp_stop = stop, fp_delta = delta\<rparr>))))"

definition plan_json :: "agent_config \<Rightarrow> finish_plan \<Rightarrow> json" where
  \<comment> \<open>\<open>finish.model_dump(mode="json")\<close>\<close>
  "plan_json g p = JObj
     [(''decision'',
        if ac_conversation g then JObj
          [(''action'', JStr (action_text (dn_action (fp_decision p)))), (''reason'', JStr (dn_reason (fp_decision p))),
           (''reply'', JStr (dn_reply (fp_decision p))), (''needs_clarification'', JBool (fp_clarify p)),
           (''topics'', JArr (map JStr (fp_topics p)))]
        else decision_json (fp_decision p)),
      (''stop_reason'', JStr (fp_stop p)),
      (''memory_delta'', JObj [(''entries'', JArr (map entry_json (fp_delta p)))])]"

definition validate_non_write :: "finish_plan \<Rightarrow> exn + unit" where
  \<comment> \<open>the conversational plan has no other actions\<close>
  "validate_non_write p =
     require (dn_action (fp_decision p) \<in> {DO_INQUIRY, DO_REJECT}) (ValueExn ''finish_turn permits only consultation or rejection'')"

definition finish_of :: "agent_config \<Rightarrow> json \<Rightarrow> exn + finish_plan" where
  "finish_of g args = ebind (parse_finish g args) (\<lambda>p. ebind (validate_non_write p) (\<lambda>_. Inr p))"

section \<open>The review of a reply\<close>

record fact_check =
  fc_claim :: string
  fc_path :: string
  fc_quote :: string

record reply_review =
  rv_approved :: bool
  rv_reason :: string
  rv_checks :: "fact_check list"

definition fact_check_field :: "json \<Rightarrow> exn + fact_check" where
  "fact_check_field v =
     ebind (strict_object [''claim'', ''evidence_path'', ''evidence_quote''] v) (\<lambda>kvs.
     ebind (stripped_field 1 300 (jget (JObj kvs) ''claim'')) (\<lambda>claim.
     ebind (stripped_field 0 200 (jget (JObj kvs) ''evidence_path'')) (\<lambda>path.
     ebind (stripped_field 0 500 (jget (JObj kvs) ''evidence_quote'')) (\<lambda>quote.
     Inr \<lparr>fc_claim = claim, fc_path = path, fc_quote = quote\<rparr>))))"

definition review_field :: "json \<Rightarrow> exn + reply_review" where
  \<comment> \<open>\<open>ReplyReview.model_validate\<close>\<close>
  "review_field v =
     ebind (strict_object [''approved'', ''reason'', ''fact_checks''] v) (\<lambda>kvs.
     ebind (bool_field (jget (JObj kvs) ''approved'')) (\<lambda>approved.
     ebind (stripped_field 0 600 (jget (JObj kvs) ''reason'')) (\<lambda>reason.
     ebind (bounded_list 0 20 fact_check_field (jget (JObj kvs) ''fact_checks'')) (\<lambda>checks.
     Inr \<lparr>rv_approved = approved, rv_reason = reason, rv_checks = checks\<rparr>))))"

fun split_at :: "char \<Rightarrow> string \<Rightarrow> string list" where
  \<comment> \<open>\<open>text.split(c)\<close>\<close>
  "split_at c [] = [[]]"
| "split_at c (x # xs) =
     (if x = c then [] # split_at c xs
      else case split_at c xs of [] \<Rightarrow> [[x]] | p # ps \<Rightarrow> (x # p) # ps)"

fun fact_at :: "string list \<Rightarrow> json \<Rightarrow> json option" where
  "fact_at [] v = Some v"
| "fact_at (p # ps) v =
     (case v of
        JObj kvs \<Rightarrow> (case map_of kvs p of None \<Rightarrow> None | Some w \<Rightarrow> fact_at ps w)
      | JArr vs \<Rightarrow> (case read_nat p of None \<Rightarrow> None | Some n \<Rightarrow> if n < length vs then fact_at ps (vs ! n) else None)
      | _ \<Rightarrow> None)"

fun fact_text :: "json \<Rightarrow> string option" where
  \<comment> \<open>the text that a quotation must be part of; a dictionary, a list or \<open>None\<close> is no fact\<close>
  "fact_text (JBool b) = Some (if b then ''true'' else ''false'')"
| "fact_text (JInt i) = Some (show_int i)"
| "fact_text (JStr s) = Some s"
| "fact_text _ = None"

definition fact_supported :: "json \<Rightarrow> fact_check \<Rightarrow> bool" where
  "fact_supported facts c \<longleftrightarrow>
     fc_path c \<noteq> [] \<and> fc_quote c \<noteq> []
     \<and> (case fact_at (split_at CHR ''.'' (fc_path c)) facts of
          None \<Rightarrow> False
        | Some v \<Rightarrow>
            (case fact_text v of
               None \<Rightarrow> False
             | Some original \<Rightarrow> substring (case v of JBool _ \<Rightarrow> map lower (fc_quote c) | _ \<Rightarrow> fc_quote c) original))"

definition validate_review_evidence :: "reply_review \<Rightarrow> json \<Rightarrow> exn + unit" where
  "validate_review_evidence rv facts =
     require (rv_approved rv \<longrightarrow> list_all (fact_supported facts) (rv_checks rv)) (ValueExn ''review evidence is not in the facts'')"

definition review_payload :: "json \<Rightarrow> stream_record list \<Rightarrow> int \<Rightarrow> decision \<Rightarrow> json" where
  \<comment> \<open>labels, reason and memory do not count: a rejected reply cannot be submitted again under other labels\<close>
  "review_payload facts rs cur dn = JObj
     [(''finish'', JObj [(''decision'', JObj [(''action'', JStr (action_text (dn_action dn))), (''reply'', JStr (dn_reply dn))])]),
      (''facts'', facts),
      (''conversation'', JArr (map (\<lambda>r. JObj [(''seq'', JInt (sr_seq r)), (''kind'', JStr (kind_text r)), (''content'', JStr (content_of r))])
         (keep_last 12 (filter (\<lambda>r. sr_public r \<and> sr_seq r \<le> cur) rs)))),
      (''current_input_seq'', JInt cur)]"

definition review_key :: "(json \<Rightarrow> string) \<Rightarrow> json \<Rightarrow> stream_record list \<Rightarrow> int \<Rightarrow> decision \<Rightarrow> string" where
  "review_key H facts rs cur dn = H (review_payload facts rs cur dn)"

fun fact_catalog :: "string \<Rightarrow> json \<Rightarrow> (string \<times> json) list"
and fact_fields :: "string \<Rightarrow> (string \<times> json) list \<Rightarrow> (string \<times> json) list"
and fact_items :: "string \<Rightarrow> nat \<Rightarrow> json list \<Rightarrow> (string \<times> json) list" where
  \<comment> \<open>\<open>visit\<close>: every fact with its path\<close>
  "fact_catalog path (JObj kvs) = fact_fields path kvs"
| "fact_catalog path (JArr vs) = fact_items path 0 vs"
| "fact_catalog path JNull = []"
| "fact_catalog path v = [(path, v)]"
| "fact_fields path [] = []"
| "fact_fields path ((k, v) # kvs) = fact_catalog (if path = [] then k else path @ ''.'' @ k) v @ fact_fields path kvs"
| "fact_items path i [] = []"
| "fact_items path i (v # vs) = fact_catalog (path @ ''.'' @ show_nat i) v @ fact_items path (Suc i) vs"

definition review_messages :: "agent_config \<Rightarrow> json \<Rightarrow> json \<Rightarrow> agent_message list" where
  "review_messages g payload facts =
     [SystemText (ac_review_prompt g),
      HumanText (json_text '', '' '': '' (jset payload ''fact_catalog''
        (JArr (map (\<lambda>(p, v). JObj [(''path'', JStr p), (''value'', v)]) (fact_catalog [] facts)))))]"

definition reviewed_reply ::
    "agent_config \<Rightarrow> (string \<times> reply_review) list \<Rightarrow> string \<Rightarrow> json \<Rightarrow> finish_plan \<Rightarrow> exn + (string \<times> bool) option" where
  \<comment> \<open>the text and whether it asks back; only a reply approved for these facts and this conversation\<close>
  "reviewed_reply g reviews key facts p =
     (if \<not> ac_conversation g then Inr None
      else case map_of reviews key of
        None \<Rightarrow> Inl (ValueExn ''reply lacks an approved review'')
      | Some rv \<Rightarrow>
          if \<not> rv_approved rv then Inl (ValueExn ''reply lacks an approved review'')
          else ebind (validate_review_evidence rv facts) (\<lambda>_. Inr (Some (dn_reply (fp_decision p), fp_clarify p))))"

definition apply_reviewed ::
    "'x agent_env_scheme \<Rightarrow> tool_context \<Rightarrow> decision_request \<Rightarrow> decision \<Rightarrow> (string \<times> bool) option \<Rightarrow> db \<Rightarrow>
     exn + turn_result \<times> db" where
  \<comment> \<open>\<open>apply_prepared\<close> with \<open>validated_dialogue_reply\<close>\<close>
  "apply_reviewed E cx q dn reviewed d =
     ebind (constrain_formal_offer dn (dq_offer_id q)) (\<lambda>x.
     case (if x = dn then reviewed else None) of
       Some (text, asks) \<Rightarrow>
         if x = dn \<and> dn_action x \<in> {DO_INQUIRY, DO_REJECT} then
           (case jget (dq_product q) ''product'' of
              JObj _ \<Rightarrow> Inr (\<lparr>tr_reply = text,
                 tr_outcome = (if dn_action x = DO_REJECT then TO_REJECTED else if asks then TO_CLARIFICATION else TO_INFORMATIONAL),
                 tr_decision = Some x, tr_offer_id = None\<rparr>, d)
            | _ \<Rightarrow> Inr (safe_failure (Some x), d))
         else execute_decision E cx x (dq_product q) (dq_offer_id q) d
     | None \<Rightarrow> execute_decision E cx x (dq_product q) (dq_offer_id q) d)"

section \<open>Tool calls\<close>

definition terminal_tools :: "string list" where
  "terminal_tools = [''submit_counter_offer'', ''accept_offer'', ''request_approval'', ''finish_turn'']"

definition read_tools :: "string list" where
  "read_tools = [''get_product_info'', ''get_negotiation_state'', ''evaluate_offer'', ''search_conversation_history'']"

definition batch_error :: "tool_call list \<Rightarrow> string option" where
  "batch_error calls =
     (let names = map tk_name calls in
      if \<not> set names \<subseteq> set (read_tools @ terminal_tools) then Some ''UNKNOWN_TOOL''
      else if list_ex (\<lambda>n. n \<in> set terminal_tools) (butlast names) then Some ''TERMINAL_TOOL_MUST_BE_UNIQUE_AND_LAST''
      else None)"

definition search_query :: "json \<Rightarrow> exn + string \<times> int" where
  "search_query v =
     ebind (strict_object [''query'', ''limit''] v) (\<lambda>kvs.
     ebind (text_field 0 120 (jget (JObj kvs) ''query'')) (\<lambda>query.
     ebind (default_field kvs ''limit'' 6 int_field) (\<lambda>limit.
     if 1 \<le> limit \<and> limit \<le> 12 then Inr (query, limit) else Inl validation_error)))"

definition search_history :: "stream_record list \<Rightarrow> json \<Rightarrow> exn + json" where
  "search_history rs args =
     ebind (search_query args) (\<lambda>(query, limit).
     let payload = (\<lambda>r. JObj [(''message'', wire_message (message_of r))]);
         hits = filter (\<lambda>r. usable r \<and> substring query (json_text '', '' '': '' (payload r))) rs in
     Inr (JObj [(''ok'', JBool True), (''records'', JArr (map (\<lambda>r. JObj
       [(''seq'', JInt (sr_seq r)), (''kind'', JStr (kind_text r)), (''payload'', payload r)]) (keep_last (nat limit) hits)))]))"

definition json_size :: "json \<Rightarrow> int" where
  "json_size v = int (utf8_length (json_text '', '' '': '' v) div 2)"

fun drop_records :: "(json \<Rightarrow> bool) \<Rightarrow> (string \<times> json) list \<Rightarrow> json list \<Rightarrow> json list" where
  "drop_records fits kvs [] = []"
| "drop_records fits kvs (x # xs) =
     (if fits (JObj (AList.update ''records'' (JArr (x # xs)) kvs)) then x # xs else drop_records fits kvs xs)"

definition essential_result :: "json \<Rightarrow> json" where
  "essential_result v = JObj (
     concat (map (\<lambda>k. case v of JObj kvs \<Rightarrow> (case map_of kvs k of None \<Rightarrow> [] | Some x \<Rightarrow> [(k, x)]) | _ \<Rightarrow> [])
               [''ok'', ''offer'', ''approval'', ''authorization''])
     @ (case jget v ''error'' of
          JObj e \<Rightarrow> [(''error'', JObj [(''code'', case map_of e ''code'' of None \<Rightarrow> JStr ''TOOL_ERROR'' | Some c \<Rightarrow> c)])]
        | _ \<Rightarrow> [])
     @ [(''artifact_available'', JBool True)])"

definition visible_result :: "json \<Rightarrow> int \<Rightarrow> json" where
  \<comment> \<open>\<open>visible_tool_result\<close>\<close>
  "visible_result v limit =
     (if json_size v \<le> limit then v
      else
      let v1 = jset v ''artifact_available'' (JBool True);
          v2 = (case jget v1 ''records'' of
                  JArr xs \<Rightarrow>
                    (let kept = drop_records (\<lambda>w. json_size w \<le> limit) (case v1 of JObj kvs \<Rightarrow> kvs | _ \<Rightarrow> []) xs in
                     jset (jset v1 ''records'' (JArr kept)) ''records_omitted'' (JInt (int (length xs) - int (length kept))))
                | _ \<Rightarrow> v1);
          v3 = (case jget v2 ''product'' of
                  JObj p \<Rightarrow> if limit < json_size v2
                    then jset (jset v2 ''product'' (JObj (filter (\<lambda>kv. fst kv \<noteq> ''description'') p))) ''description_in_current_facts'' (JBool True)
                    else v2
                | _ \<Rightarrow> v2) in
      if limit < json_size v3 then essential_result v3 else v3)"

end
