(* ===== verification/Runtime.thy ===== *)
theory Runtime
  imports Finish
begin

text \<open>
  The agent runtime V4, \<open>backend/app/agent/runtime.py\<close> with its backend \<open>services/agent_runtime_service.py\<close>: the language
  model works in a loop of calls and tools. Every call and every tool is charged to a budget before it is made; the state of
  the loop is a checkpoint in the row of the task, so that a worker that takes the task over goes on where it ended.

  A step of the loop is a function of \<open>run_state\<close> that returns a value or an error together with the state it leaves.
  \<open>ev_others\<close> is what other transactions do between two of its own, \<open>ev_now\<close> the readings of the clock, \<open>ev_answer\<close> the
  language model, \<open>ev_parse\<close> \<open>json.loads\<close>, \<open>ev_schema\<close> the generated JSON schema of an answer and \<open>ev_unsafe\<close> the patterns
  of forbidden claims; \<open>ev_lease\<close> is the configured lease. In checkpoints times and costs are numbers instead of texts, costs
  in units of \<open>10 ^ -14\<close>. The request of a call, details of failed memory updates and observability are left out.
\<close>

section \<open>Checkpoints\<close>

record call_reservation =
  rs_tokens :: int
  rs_cost :: int
  rs_reconciled :: bool

record checkpoint =
  rk_branch :: string
  rk_steps :: int
  rk_calls :: int
  rk_tools :: int
  rk_reserved_ids :: "string list"
  rk_maintenance :: int
  rk_tokens :: int
  rk_cost :: int
  rk_reservations :: "(string \<times> call_reservation) list"
  rk_pending :: "tool_call list"
  rk_started :: time
  rk_batch_error :: "string option"
  rk_repair :: bool
  rk_json_required :: bool
  rk_summary :: "(string \<times> int \<times> int list) option" \<comment> \<open>text, last number covered, sources\<close>
  rk_memory :: "memory option"
  rk_memory_covered :: "int option"
  rk_memory_done :: bool
  rk_memory_incomplete :: bool
  rk_memory_failures :: int
  rk_reviews :: "(string \<times> reply_review) list"
  rk_review_key :: string
  rk_feedback :: "string option"
  rk_terminal :: "bool option"
  rk_stop :: "string option"

definition fresh_checkpoint :: "time \<Rightarrow> checkpoint" where
  \<comment> \<open>the defaults of \<open>SellerAgentRuntime.__init__\<close>\<close>
  "fresh_checkpoint now =
     \<lparr>rk_branch = ''branch-1'', rk_steps = 0, rk_calls = 0, rk_tools = 0, rk_reserved_ids = [], rk_maintenance = 0, rk_tokens = 0,
      rk_cost = 0, rk_reservations = [], rk_pending = [], rk_started = now, rk_batch_error = None, rk_repair = False,
      rk_json_required = False, rk_summary = None, rk_memory = None, rk_memory_covered = None, rk_memory_done = False,
      rk_memory_incomplete = False, rk_memory_failures = 0, rk_reviews = [], rk_review_key = [], rk_feedback = None,
      rk_terminal = None, rk_stop = None\<rparr>"

definition call_json :: "tool_call \<Rightarrow> json" where
  "call_json c = JObj [(''name'', JStr (tk_name c)), (''args'', tk_args c), (''id'', JStr (tk_id c)), (''type'', JStr ''tool_call'')]"

definition reservation_json :: "call_reservation \<Rightarrow> json" where
  "reservation_json r = JObj [(''tokens'', JInt (rs_tokens r)), (''cost'', JInt (rs_cost r)), (''reconciled'', JBool (rs_reconciled r))]"

definition check_json :: "fact_check \<Rightarrow> json" where
  "check_json c = JObj [(''claim'', JStr (fc_claim c)), (''evidence_path'', JStr (fc_path c)), (''evidence_quote'', JStr (fc_quote c))]"

definition review_json :: "reply_review \<Rightarrow> json" where
  "review_json r = JObj [(''approved'', JBool (rv_approved r)), (''reason'', JStr (rv_reason r)), (''fact_checks'', JArr (map check_json (rv_checks r)))]"

definition optional :: "string \<Rightarrow> ('a \<Rightarrow> json) \<Rightarrow> 'a option \<Rightarrow> (string \<times> json) list" where
  \<comment> \<open>a key that may be missing\<close>
  "optional k f m = (case m of None \<Rightarrow> [] | Some x \<Rightarrow> [(k, f x)])"

definition checkpoint_json :: "checkpoint \<Rightarrow> json" where
  "checkpoint_json c = JObj (
     [(''branch_id'', JStr (rk_branch c)), (''steps'', JInt (rk_steps c)), (''calls'', JInt (rk_calls c)), (''tools'', JInt (rk_tools c)),
      (''reserved_tool_ids'', JArr (map JStr (rk_reserved_ids c))), (''maintenance_calls'', JInt (rk_maintenance c)),
      (''reserved_tokens'', JInt (rk_tokens c)), (''reserved_cost'', JInt (rk_cost c)),
      (''call_reservations'', JObj (map (\<lambda>(k, r). (k, reservation_json r)) (rk_reservations c))),
      (''pending_calls'', JArr (map call_json (rk_pending c))), (''started_at'', JInt (rk_started c)),
      (''batch_error'', jopt JStr (rk_batch_error c)), (''repair'', JBool (rk_repair c)),
      (''ending_json_required'', JBool (rk_json_required c)), (''memory_refresh_done'', JBool (rk_memory_done c)),
      (''memory_refresh_incomplete'', JBool (rk_memory_incomplete c)), (''memory_update_failure_count'', JInt (rk_memory_failures c)),
      (''reply_reviews'', JObj (map (\<lambda>(k, r). (k, review_json r)) (rk_reviews c))), (''reply_review_key'', JStr (rk_review_key c))]
     @ (case rk_summary c of None \<Rightarrow> [] | Some (text, covered, sources) \<Rightarrow>
          [(''summary'', JStr text), (''covered_through'', JInt covered), (''summary_sources'', JArr (map JInt sources))])
     @ optional ''memory'' memory_json (rk_memory c) @ optional ''memory_covered_through'' JInt (rk_memory_covered c)
     @ optional ''reply_repair_feedback'' JStr (rk_feedback c) @ optional ''terminal_action_committed'' JBool (rk_terminal c)
     @ optional ''stop_reason'' JStr (rk_stop c))"

section \<open>The world\<close>

datatype call_purpose = REACT | REACT_ENDING | REACT_FINISH | CONVERSATION_FINISH | REPLY_REVIEW | SUMMARY | MEMORY

fun purpose_text :: "call_purpose \<Rightarrow> string" where
  "purpose_text REACT = ''REACT''"
| "purpose_text REACT_ENDING = ''REACT_ENDING''"
| "purpose_text REACT_FINISH = ''REACT_FINISH''"
| "purpose_text CONVERSATION_FINISH = ''CONVERSATION_FINISH''"
| "purpose_text REPLY_REVIEW = ''REPLY_REVIEW''"
| "purpose_text SUMMARY = ''SUMMARY''"
| "purpose_text MEMORY = ''MEMORY''"

record token_usage =
  tu_input :: int
  tu_output :: int
  tu_total :: "int option"
  tu_cached :: "int option"

record model_response =
  mr_content :: string
  mr_calls :: "tool_call list"
  mr_invalid :: bool \<comment> \<open>malformed tool calls\<close>
  mr_truncated :: bool
  mr_usage :: "token_usage option"

datatype snapshot_status = CALL_STARTED | CALL_SUCCEEDED | CALL_UNFINISHED \<comment> \<open>\<open>UNKNOWN\<close>\<close>

record call_snapshot =
  ck_task :: int
  ck_branch :: string
  ck_step :: string
  ck_attempt :: int
  ck_purpose :: call_purpose
  ck_status :: snapshot_status
  ck_response :: "model_response option"
  ck_completed :: "time option"

record world =
  wd_db :: db
  wd_tx :: transcript
  wd_calls :: "(int, call_snapshot) table"
  wd_next_call :: int

record initial_context =
  ix_summary :: string
  ix_covered :: int
  ix_sources :: "int list"
  ix_memory :: memory
  ix_memory_covered :: int
  ix_version :: int

record runtime =
  rt_config :: agent_config
  rt_task :: task \<comment> \<open>as it was leased\<close>
  rt_token :: string
  rt_pending :: pending_turn
  rt_buyer :: string
  rt_request :: decision_request
  rt_reply_key :: string
  rt_cur :: int
  rt_high :: int
  rt_initial :: initial_context

record runtime_env =
  ev_now :: "nat \<Rightarrow> time"
  ev_answer :: "nat \<Rightarrow> agent_message list \<Rightarrow> json list \<Rightarrow> call_purpose \<Rightarrow> failure + model_response"
  ev_others :: "nat \<Rightarrow> world \<Rightarrow> world"
  ev_parse :: "string \<Rightarrow> json option"
  ev_schema :: "call_purpose \<Rightarrow> json option"
  ev_unsafe :: "string \<Rightarrow> string option"
  ev_agent :: "nat \<Rightarrow> agent_env"
  ev_digest :: "string \<Rightarrow> string"
  ev_hash :: "json \<Rightarrow> string"
  ev_lease :: int

record run_state =
  rn_world :: world
  rn_cp :: checkpoint
  rn_context :: context_state
  rn_tick :: nat
  rn_stale :: "string option"
  rn_sent :: "(call_purpose \<times> int \<times> int) list" \<comment> \<open>calls made: purpose, tokens sent, tokens allowed back\<close>

type_synonym 'a run_step = "run_state \<Rightarrow> (run_error + 'a) \<times> run_state"

definition ret :: "'a \<Rightarrow> 'a run_step" where
  "ret x s = (Inr x, s)"

definition raise_error :: "run_error \<Rightarrow> 'a run_step" where
  "raise_error e s = (Inl e, s)"

definition bind_step :: "'a run_step \<Rightarrow> ('a \<Rightarrow> 'b run_step) \<Rightarrow> 'b run_step" where
  "bind_step m f s = (case m s of (Inl e, s1) \<Rightarrow> (Inl e, s1) | (Inr x, s1) \<Rightarrow> f x s1)"

definition then_step :: "unit run_step \<Rightarrow> 'b run_step \<Rightarrow> 'b run_step" where
  "then_step m k = bind_step m (\<lambda>_. k)"

definition update_cp :: "(checkpoint \<Rightarrow> checkpoint) \<Rightarrow> unit run_step" where
  "update_cp f s = (Inr (), s\<lparr>rn_cp := f (rn_cp s)\<rparr>)"

definition transact :: "runtime_env \<Rightarrow> ((nat \<Rightarrow> time) \<Rightarrow> world \<Rightarrow> exn + 'a \<times> world) \<Rightarrow> 'a run_step" where
  \<comment> \<open>one transaction of the runtime, after those of others\<close>
  "transact E body s =
     (let w = ev_others E (rn_tick s) (rn_world s) in
      case body (\<lambda>k. ev_now E (rn_tick s + k)) w of
        Inl e \<Rightarrow> (Inl (Raised e), s\<lparr>rn_world := w, rn_tick := rn_tick s + 16\<rparr>)
      | Inr (x, w') \<Rightarrow> (Inr x, s\<lparr>rn_world := w', rn_tick := rn_tick s + 16\<rparr>))"

fun value_failure :: "run_error \<Rightarrow> bool" where
  \<comment> \<open>\<open>except ValueError\<close>\<close>
  "value_failure (Raised e) = is_value_error e"
| "value_failure (ProviderFailed f) = (f = OutputFailure \<or> f = OtherFailure ''ValueError'')"
| "value_failure (OverBudget r) = False"

section \<open>The backend\<close>

definition in_db :: "exn + 'a \<times> db \<Rightarrow> world \<Rightarrow> exn + 'a \<times> world" where
  "in_db r w = ebind r (\<lambda>(x, d). Inr (x, w\<lparr>wd_db := d\<rparr>))"

definition in_stream :: "exn + 'a \<times> transcript \<Rightarrow> world \<Rightarrow> exn + 'a \<times> world" where
  "in_stream r w = ebind r (\<lambda>(x, t). Inr (x, w\<lparr>wd_tx := t\<rparr>))"

definition active_task :: "runtime \<Rightarrow> time \<Rightarrow> world \<Rightarrow> exn + task" where
  \<comment> \<open>\<open>_active\<close>\<close>
  "active_task rt now w = leased_task (wd_db w) (t_id (rt_task rt)) (rt_token rt) now"

definition put_checkpoint :: "runtime_env \<Rightarrow> runtime \<Rightarrow> checkpoint \<Rightarrow> time \<Rightarrow> world \<Rightarrow> exn + unit \<times> world" where
  "put_checkpoint E rt c now w =
     ebind (update_checkpoint (ev_hash E) (t_id (rt_task rt)) (rt_token rt) (checkpoint_json c) now (wd_db w)) (\<lambda>(_, d).
     Inr ((), w\<lparr>wd_db := d\<rparr>))"

definition save_checkpoint :: "runtime_env \<Rightarrow> runtime \<Rightarrow> unit run_step" where
  "save_checkpoint E rt s = transact E (\<lambda>now w. put_checkpoint E rt (rn_cp s) (now 0) w) s"

definition ensure_current :: "runtime_env \<Rightarrow> runtime \<Rightarrow> bool run_step" where
  "ensure_current E rt =
     bind_step (transact E (\<lambda>now w.
       ebind (renew_lease (t_id (rt_task rt)) (rt_token rt) (max (ev_lease E) (ac_timeout (rt_config rt) + 10)) (now 0) (wd_db w))
         (\<lambda>(t, d).
       ebind (chat_stale_reason d t) (\<lambda>reason. Inr (reason, w\<lparr>wd_db := d\<rparr>)))))
     (\<lambda>reason s. (Inr (reason = None), s\<lparr>rn_stale := reason\<rparr>))"

definition visible_row :: "runtime \<Rightarrow> string \<Rightarrow> db \<Rightarrow> agent_row \<Rightarrow> bool" where
  "visible_row rt branch d r \<longleftrightarrow>
     am_session r = t_session_id (rt_task rt)
     \<and> (am_seq r \<le> rt_high rt
          \<and> (am_public r \<or> (case am_task r of None \<Rightarrow> False | Some k \<Rightarrow>
                case get_task d k of None \<Rightarrow> False | Some t \<Rightarrow> t_status t = T_SUCCEEDED))
        \<or> am_task r = Some (t_id (rt_task rt)) \<and> am_branch r = Some branch)"

definition stream_records :: "runtime \<Rightarrow> string \<Rightarrow> world \<Rightarrow> stream_record list" where
  \<comment> \<open>\<open>records\<close>\<close>
  "stream_records rt branch w =
     map stream_of_row (sort_key am_seq (filter (visible_row rt branch (wd_db w)) (trows (tx_rows (wd_tx w)))))"

definition read_records :: "runtime_env \<Rightarrow> runtime \<Rightarrow> stream_record list run_step" where
  "read_records E rt s = transact E (\<lambda>_ w. Inr (stream_records rt (rk_branch (rn_cp s)) w, w)) s"

definition facts :: "runtime \<Rightarrow> json" where
  "facts rt = JObj (
     [(''product'', dq_product (rt_request rt)), (''negotiation'', dq_negotiation (rt_request rt)),
      (''current_turn_offer_id'', jopt JInt (dq_offer_id (rt_request rt)))]
     @ (if truthy (ac_capabilities (rt_config rt)) then [(''assistant_capabilities'', ac_capabilities (rt_config rt))] else []))"

definition own_step_key :: "call_purpose \<Rightarrow> checkpoint \<Rightarrow> string" where
  "own_step_key p c = (if p = REPLY_REVIEW then rk_review_key c else purpose_text p @ '':'' @ show_int (rk_steps c + 1))"

definition cached_response :: "runtime_env \<Rightarrow> runtime \<Rightarrow> call_purpose \<Rightarrow> model_response option run_step" where
  "cached_response E rt p s =
     (if p \<in> {SUMMARY, MEMORY} then (Inr None, s)
      else transact E (\<lambda>_ w.
        Inr (case find (\<lambda>r. ck_task r = t_id (rt_task rt) \<and> ck_branch r = rk_branch (rn_cp s)
                         \<and> ck_step r = own_step_key p (rn_cp s) \<and> ck_purpose r = p \<and> ck_status r = CALL_SUCCEEDED)
                    (rev (trows (wd_calls w))) of
               None \<Rightarrow> None | Some r \<Rightarrow> ck_response r, w)) s)"

definition call_step_key :: "call_purpose \<Rightarrow> checkpoint \<Rightarrow> string" where
  "call_step_key p c =
     (if p \<in> {SUMMARY, MEMORY} then purpose_text p @ '':'' @ show_int (rk_maintenance c) else own_step_key p c)"

definition start_call :: "runtime \<Rightarrow> call_purpose \<Rightarrow> checkpoint \<Rightarrow> (nat \<Rightarrow> time) \<Rightarrow> world \<Rightarrow> exn + int \<times> world" where
  \<comment> \<open>a call that never came back stays unfinished\<close>
  "start_call rt p c now w =
     ebind (active_task rt (now 0) w) (\<lambda>_.
     let tid = t_id (rt_task rt);
         calls = map (\<lambda>(k, r). (k, if ck_task r = tid \<and> ck_status r = CALL_STARTED
                                    then r\<lparr>ck_status := CALL_UNFINISHED, ck_completed := Some (now 1)\<rparr> else r)) (wd_calls w);
         same = filter (\<lambda>r. ck_task r = tid \<and> ck_step r = call_step_key p c) (trows calls);
         row = \<lparr>ck_task = tid, ck_branch = rk_branch c, ck_step = call_step_key p c,
                ck_attempt = foldr max (map ck_attempt same) 0 + 1, ck_purpose = p, ck_status = CALL_STARTED,
                ck_response = None, ck_completed = None\<rparr> in
     ebind (tadd IntegrityExn (wd_next_call w) row calls) (\<lambda>cs.
     Inr (wd_next_call w, w\<lparr>wd_calls := cs, wd_next_call := wd_next_call w + 1\<rparr>)))"

definition end_call :: "runtime \<Rightarrow> int \<Rightarrow> (call_snapshot \<Rightarrow> call_snapshot) \<Rightarrow> (nat \<Rightarrow> time) \<Rightarrow> world \<Rightarrow> exn + unit \<times> world" where
  "end_call rt k f now w =
     ebind (active_task rt (now 0) w) (\<lambda>_.
     ebind (some_or AttributeExn (tget (wd_calls w) k)) (\<lambda>_.
     Inr ((), w\<lparr>wd_calls := tmod k (\<lambda>r. (f r)\<lparr>ck_completed := Some (now 1)\<rparr>) (wd_calls w)\<rparr>)))"

definition invoke_model :: "runtime_env \<Rightarrow> runtime \<Rightarrow> agent_message list \<Rightarrow> json list \<Rightarrow> call_purpose \<Rightarrow> int \<Rightarrow> int \<Rightarrow> model_response run_step" where
  \<comment> \<open>\<open>call_model\<close>; the request is noted in \<open>rn_sent\<close>\<close>
  "invoke_model E rt ms tools p tokens output =
     bind_step (\<lambda>s. transact E (start_call rt p (rn_cp s)) s) (\<lambda>k s.
     let s1 = s\<lparr>rn_sent := rn_sent s @ [(p, tokens, output)], rn_tick := rn_tick s + 1\<rparr> in
     case ev_answer E (rn_tick s) ms tools p of
       Inl f \<Rightarrow> bind_step (transact E (end_call rt k (\<lambda>r. r\<lparr>ck_status := CALL_UNFINISHED\<rparr>))) (\<lambda>_. raise_error (ProviderFailed f)) s1
     | Inr r \<Rightarrow> bind_step (transact E (end_call rt k (\<lambda>x. x\<lparr>ck_status := CALL_SUCCEEDED, ck_response := Some r\<rparr>))) (\<lambda>_. ret r) s1)"

section \<open>The budget\<close>

definition call_budget :: "agent_config \<Rightarrow> call_purpose \<Rightarrow> agent_budget" where
  "call_budget g p =
     (case (p \<in> {REPLY_REVIEW, CONVERSATION_FINISH}, ac_review_output g) of
        (True, Some n) \<Rightarrow> (ac_budget g)\<lparr>bu_output := n\<rparr>
      | _ \<Rightarrow> ac_budget g)"

definition contract :: "runtime_env \<Rightarrow> json list \<Rightarrow> call_purpose \<Rightarrow> json list" where
  \<comment> \<open>\<open>budget_contract\<close>\<close>
  "contract E tools p = (case ev_schema E p of None \<Rightarrow> tools | Some s \<Rightarrow> tools @ [JObj [(''response_format'', s)]])"

definition price_or_zero :: "cost option \<Rightarrow> int" where
  "price_or_zero c = (case c of None \<Rightarrow> 0 | Some x \<Rightarrow> x)"

definition call_cost :: "usage_prices \<Rightarrow> int \<Rightarrow> int \<Rightarrow> int" where
  "call_cost p input output = input * price_or_zero (up_input p) + output * price_or_zero (up_output p)"

definition check_wall :: "runtime_env \<Rightarrow> runtime \<Rightarrow> unit run_step" where
  "check_wall E rt s =
     (let s1 = s\<lparr>rn_tick := rn_tick s + 1\<rparr> in
      if bu_wall (ac_budget (rt_config rt)) \<le> ev_now E (rn_tick s) - rk_started (rn_cp s) then (Inl (OverBudget ''WALL_TIME''), s1)
      else (Inr (), s1))"

definition reservation_key :: "call_purpose \<Rightarrow> checkpoint \<Rightarrow> string" where
  "reservation_key p c =
     (if p \<in> {SUMMARY, MEMORY} then purpose_text p @ '':call:'' @ show_int (rk_calls c + 1)
      else if p = REPLY_REVIEW then ''REPLY_REVIEW:'' @ rk_review_key c
      else purpose_text p @ '':'' @ show_int (rk_steps c + 1))"

definition reserve_call :: "agent_config \<Rightarrow> call_purpose \<Rightarrow> int \<Rightarrow> checkpoint \<Rightarrow> run_error + checkpoint" where
  "reserve_call g p tokens c =
     (let b = call_budget g p; need = tokens + bu_output b; cost = call_cost (ac_prices g) tokens (bu_output b) in
      if (case bu_cost b of
            None \<Rightarrow> False
          | Some limit \<Rightarrow> limit \<noteq> 0 \<and> (up_input (ac_prices g) = None \<or> up_output (ac_prices g) = None
                                       \<or> limit * 1000000 < rk_cost c + cost))
      then Inl (OverBudget ''COST_BUDGET_OR_MISSING_PRICE'')
      else if bu_calls b \<le> rk_calls c \<or> bu_tokens b < rk_tokens c + need then Inl (OverBudget ''MODEL_CALL_OR_TOKEN_BUDGET'')
      else if p \<in> {SUMMARY, MEMORY} \<and> bu_maintenance b \<le> rk_maintenance c then Inl (OverBudget ''MAINTENANCE_BUDGET'')
      else Inr (c\<lparr>rk_maintenance := rk_maintenance c + (if p \<in> {SUMMARY, MEMORY} then 1 else 0), rk_calls := rk_calls c + 1,
                  rk_tokens := rk_tokens c + need, rk_cost := rk_cost c + cost,
                  rk_reservations := AList.update (reservation_key p c)
                    \<lparr>rs_tokens = need, rs_cost = cost, rs_reconciled = False\<rparr> (rk_reservations c)\<rparr>))"

definition reconciled :: "agent_config \<Rightarrow> string \<Rightarrow> model_response \<Rightarrow> checkpoint \<Rightarrow> checkpoint option" where
  \<comment> \<open>\<open>_reconcile_usage\<close>: a reservation is only ever raised to what was used; \<open>None\<close> when there is nothing to do\<close>
  "reconciled g key r c =
     (case (map_of (rk_reservations c) key, mr_usage r) of
        (Some res, Some u) \<Rightarrow>
          if rs_reconciled res then None
          else
          let used = max (tu_input u + tu_output u) (case tu_total u of None \<Rightarrow> 0 | Some t \<Rightarrow> t);
              cost = call_cost (ac_prices g) (tu_input u) (tu_output u) in
          Some (c\<lparr>rk_tokens := rk_tokens c + max 0 (used - rs_tokens res), rk_cost := rk_cost c + max 0 (cost - rs_cost res),
                  rk_reservations := AList.update key (res\<lparr>rs_reconciled := True\<rparr>) (rk_reservations c)\<rparr>)
      | _ \<Rightarrow> None)"

definition reconcile_usage :: "runtime_env \<Rightarrow> runtime \<Rightarrow> string \<Rightarrow> model_response \<Rightarrow> unit run_step" where
  "reconcile_usage E rt key r s =
     (case reconciled (rt_config rt) key r (rn_cp s) of
        None \<Rightarrow> (Inr (), s)
      | Some c \<Rightarrow> save_checkpoint E rt (s\<lparr>rn_cp := c\<rparr>))"

definition reserved_call ::
    "runtime_env \<Rightarrow> runtime \<Rightarrow> agent_message list \<Rightarrow> json list \<Rightarrow> call_purpose \<Rightarrow> string \<Rightarrow> model_response run_step" where
  \<comment> \<open>\<open>call\<close> when no answer is stored\<close>
  "reserved_call E rt ms tools p key s =
     (case check_tokens (call_budget (rt_config rt) p) ms (contract E tools p) of
        Inl _ \<Rightarrow> (Inl (OverBudget ''CALL_CONTEXT_BUDGET''), s)
      | Inr tokens \<Rightarrow>
          (case reserve_call (rt_config rt) p tokens (rn_cp s) of
             Inl e \<Rightarrow> (Inl e, s)
           | Inr c \<Rightarrow>
               then_step (save_checkpoint E rt)
                 (bind_step (invoke_model E rt ms tools p tokens (bu_output (call_budget (rt_config rt) p))) (\<lambda>r.
                  then_step (reconcile_usage E rt key r) (ret r))) (s\<lparr>rn_cp := c\<rparr>)))"

definition model_call :: "runtime_env \<Rightarrow> runtime \<Rightarrow> agent_message list \<Rightarrow> json list \<Rightarrow> call_purpose \<Rightarrow> model_response run_step" where
  \<comment> \<open>\<open>call\<close>\<close>
  "model_call E rt ms tools p s =
     (let key = reservation_key p (rn_cp s) in
      then_step (check_wall E rt)
        (bind_step (cached_response E rt p) (\<lambda>stored.
         case stored of
           Some r \<Rightarrow> then_step (reconcile_usage E rt key r) (ret r)
         | None \<Rightarrow> reserved_call E rt ms tools p key)) s)"

section \<open>The review of a reply\<close>

definition reviewed_answer :: "runtime_env \<Rightarrow> json \<Rightarrow> model_response \<Rightarrow> exn + reply_review" where
  "reviewed_answer E fs r =
     (if mr_calls r \<noteq> [] \<or> mr_invalid r \<or> mr_truncated r then Inl (ValueExn ''review was truncated or called tools'')
      else
      ebind (some_or validation_error (ev_parse E (mr_content r))) (\<lambda>v.
      ebind (review_field v) (\<lambda>rv.
      ebind (validate_review_evidence rv fs) (\<lambda>_. Inr rv))))"

definition rejected_review :: "string \<Rightarrow> reply_review" where
  "rejected_review reason = \<lparr>rv_approved = False, rv_reason = reason, rv_checks = []\<rparr>"

definition ask_review :: "runtime_env \<Rightarrow> runtime \<Rightarrow> json \<Rightarrow> reply_review run_step" where
  \<comment> \<open>a review that is no valid review rejects\<close>
  "ask_review E rt payload s =
     (case bind_step (model_call E rt (review_messages (rt_config rt) payload (facts rt)) [] REPLY_REVIEW)
             (\<lambda>r. case reviewed_answer E (facts rt) r of Inl e \<Rightarrow> raise_error (Raised e) | Inr rv \<Rightarrow> ret rv) s of
        (Inl e, s1) \<Rightarrow> if value_failure e then (Inr (rejected_review ''review or evidence invalid''), s1) else (Inl e, s1)
      | r \<Rightarrow> r)"

definition keep_review :: "runtime_env \<Rightarrow> runtime \<Rightarrow> string \<Rightarrow> reply_review \<Rightarrow> unit run_step" where
  "keep_review E rt key rv =
     then_step (update_cp (\<lambda>c. c\<lparr>rk_reviews := AList.update key rv (rk_reviews c)\<rparr>)) (save_checkpoint E rt)"

definition settle_review :: "string \<Rightarrow> string option run_step" where
  "settle_review key s =
     (case map_of (rk_reviews (rn_cp s)) key of
        None \<Rightarrow> (Inl (Raised KeyExn), s)
      | Some rv \<Rightarrow>
          if rv_approved rv then (Inr None, s\<lparr>rn_cp := (rn_cp s)\<lparr>rk_feedback := None\<rparr>\<rparr>)
          else (Inr (Some (''REPLY_REVIEW_REJECTED: '' @ rv_reason rv)),
                s\<lparr>rn_cp := (rn_cp s)\<lparr>rk_repair := True,
                   rk_feedback := Some (if rv_reason rv = [] then ''reply rejected'' else rv_reason rv)\<rparr>\<rparr>))"

definition review_reply :: "runtime_env \<Rightarrow> runtime \<Rightarrow> tool_call \<Rightarrow> string option run_step" where
  \<comment> \<open>\<open>_review_reply\<close> with the handler of its caller: the error that the tool is to report\<close>
  "review_reply E rt c =
     (case finish_of (rt_config rt) (tk_args c) of
        Inl e \<Rightarrow> if is_value_error e \<or> e \<in> {TypeExn, KeyExn} then ret (Some ''invalid plan'') else raise_error (Raised e)
      | Inr plan \<Rightarrow>
          bind_step (read_records E rt) (\<lambda>rs.
          let payload = review_payload (facts rt) rs (rt_cur rt) (fp_decision plan); key = ev_hash E payload in
          then_step
            (\<lambda>s. if map_of (rk_reviews (rn_cp s)) key \<noteq> None then (Inr (), s)
                 else (case ev_unsafe E (dn_reply (fp_decision plan)) of
                         Some err \<Rightarrow> keep_review E rt key (rejected_review err) s
                       | None \<Rightarrow>
                           then_step (update_cp (\<lambda>c. c\<lparr>rk_review_key := key\<rparr>))
                             (bind_step (ask_review E rt payload) (keep_review E rt key)) s))
            (settle_review key)))"

section \<open>Summaries and memory\<close>

definition summary_call :: "runtime_env \<Rightarrow> runtime \<Rightarrow> agent_message list \<Rightarrow> json \<Rightarrow> string run_step" where
  "summary_call E rt ms manifest = bind_step (model_call E rt ms [] SUMMARY) (\<lambda>r. ret (mr_content r))"

definition compress_context :: "runtime_env \<Rightarrow> runtime \<Rightarrow> stream_record list \<Rightarrow> context_state \<Rightarrow> context_state run_step" where
  \<comment> \<open>\<open>_compress\<close>: without a summary the context stays as it is; only the loss of the lease ends the run\<close>
  "compress_context E rt sel st s =
     (case compress (rt_config rt) (ev_parse E) (summary_call E rt) sel st (rt_cur rt) s of
        (Inl e, s1) \<Rightarrow> if e = Raised (ServiceExn TaskLease) then (Inl e, s1) else (Inr st, s1)
      | (Inr st1, s1) \<Rightarrow>
          (case save_checkpoint E rt (s1\<lparr>rn_cp := (rn_cp s1)\<lparr>rk_summary := Some (cs_summary st1, cs_covered st1, cs_sources st1)\<rparr>\<rparr>) of
             (Inl e, s2) \<Rightarrow> if e = Raised (ServiceExn TaskLease) then (Inl e, s2) else (Inr st1, s2)
           | (Inr _, s2) \<Rightarrow> (Inr st1, s2)))"

definition payload_json :: "stream_record \<Rightarrow> json" where
  "payload_json r =
     (case sr_entry r of
        TextEntry _ content rest \<Rightarrow> JObj ((''content'', JStr content) # (case rest of JObj kvs \<Rightarrow> kvs | _ \<Rightarrow> []))
      | MessageEntry _ m rest \<Rightarrow> JObj ((''message'', wire_message m) # (case rest of JObj kvs \<Rightarrow> kvs | _ \<Rightarrow> []))
      | DataEntry _ v \<Rightarrow> v)"

definition memory_messages :: "runtime_env \<Rightarrow> agent_config \<Rightarrow> memory \<Rightarrow> stream_record list \<Rightarrow> agent_message list" where
  "memory_messages E g m rs =
     [SystemText (ac_memory_prompt g),
      HumanText (json_text '', '' '': '' (JObj
        [(''memory'', memory_json m), (''memory_schema'', case ev_schema E MEMORY of None \<Rightarrow> JNull | Some x \<Rightarrow> x),
         (''records'', JArr (map (\<lambda>r. JObj [(''seq'', JInt (sr_seq r)), (''kind'', JStr (kind_text r)),
                                            (''payload'', payload_json r)]) rs))]))]"

fun shrink :: "(stream_record list \<Rightarrow> bool) \<Rightarrow> bool \<Rightarrow> nat \<Rightarrow> stream_record list \<Rightarrow> stream_record list" where
  \<comment> \<open>until it fits; the number is that of the records left\<close>
  "shrink fits from_end 0 rs = []"
| "shrink fits from_end (Suc n) rs = (if rs = [] \<or> fits rs then rs else shrink fits from_end n (if from_end then butlast rs else tl rs))"

definition memory_failed :: "checkpoint \<Rightarrow> checkpoint" where
  \<comment> \<open>\<open>record_memory_failure\<close>\<close>
  "memory_failed c = c\<lparr>rk_memory_failures := rk_memory_failures c + 1\<rparr>"

definition memory_answer :: "runtime_env \<Rightarrow> memory \<Rightarrow> stream_record list \<Rightarrow> model_response \<Rightarrow> exn + memory" where
  "memory_answer E m rs r =
     ebind (some_or validation_error (ev_parse E (mr_content r))) (\<lambda>v.
     ebind (memory_delta_field v) (\<lambda>delta. apply_delta m delta rs))"

definition memory_step :: "runtime_env \<Rightarrow> stream_record list \<Rightarrow> model_response \<Rightarrow> memory run_step" where
  "memory_step E rs r s =
     (case memory_answer E (cs_memory (rn_context s)) rs r of Inl e \<Rightarrow> (Inl (Raised e), s) | Inr m \<Rightarrow> (Inr m, s))"

definition catch_up :: "runtime_env \<Rightarrow> runtime \<Rightarrow> stream_record list \<Rightarrow> int \<Rightarrow> stream_record list \<Rightarrow> unit run_step" where
  "catch_up E rt rs last_seq pending s =
     (case bind_step (model_call E rt (memory_messages E (rt_config rt) (cs_memory (rn_context s)) pending) [] MEMORY)
             (memory_step E rs) s of
        (Inr m, s1) \<Rightarrow>
          let c = rn_cp s1 in
          save_checkpoint E rt (s1\<lparr>rn_context := (rn_context s1)\<lparr>cs_memory := m\<rparr>,
            rn_cp := c\<lparr>rk_memory := Some m, rk_memory_covered := Some (sr_seq (last pending)),
                       rk_memory_incomplete := (if ac_contiguous (rt_config rt) then sr_seq (last pending) \<noteq> last_seq
                                                else rk_memory_incomplete c)\<rparr>\<rparr>)
      | (Inl e, s1) \<Rightarrow>
          if e = Raised (ServiceExn TaskLease) then (Inl e, s1)
          else save_checkpoint E rt (s1\<lparr>rn_cp := memory_failed (rn_cp s1)\<rparr>))"

definition refresh_memory :: "runtime_env \<Rightarrow> runtime \<Rightarrow> stream_record list \<Rightarrow> unit run_step" where
  "refresh_memory E rt rs s =
     (if \<not> ac_memory_enabled (rt_config rt) \<or> rk_memory_done (rn_cp s) then (Inr (), s)
      else
      let c = (rn_cp s)\<lparr>rk_memory_done := True\<rparr>;
          covered = (case rk_memory_covered c of None \<Rightarrow> ix_memory_covered (rt_initial rt) | Some k \<Rightarrow> k);
          pending = filter (\<lambda>r. covered < sr_seq r \<and> sr_seq r < rt_cur rt \<and> sr_public r) rs in
      if \<not> list_ex is_buyer_input pending then (Inr (), s\<lparr>rn_cp := c\<rparr>)
      else
      let c1 = (if ac_contiguous (rt_config rt) then c\<lparr>rk_memory_incomplete := True\<rparr> else c);
          fits = (\<lambda>p. estimate (memory_messages E (rt_config rt) (cs_memory (rn_context s)) p) (contract E [] MEMORY)
                        \<le> token_limit (ac_budget (rt_config rt)));
          kept = shrink fits (ac_contiguous (rt_config rt)) (length pending) pending in
      if kept = [] then (Inr (), s\<lparr>rn_cp := c1\<rparr>)
      else catch_up E rt rs (sr_seq (last pending)) kept (s\<lparr>rn_cp := c1\<rparr>))"

section \<open>Tools\<close>

definition terms_field :: "json \<Rightarrow> exn + terms_args" where
  \<comment> \<open>\<open>OfferTermsInput\<close>\<close>
  "terms_field v =
     ebind (strict_object [''price'', ''shipping_paid_by'', ''shipping_cost'', ''seller_borne_discount'', ''additional_terms''] v) (\<lambda>kvs.
     ebind (money_field (jget (JObj kvs) ''price'')) (\<lambda>price.
     ebind (payer_field (jget (JObj kvs) ''shipping_paid_by'')) (\<lambda>payer.
     ebind (default_field kvs ''shipping_cost'' None (nullable money_field)) (\<lambda>cost.
     ebind (default_field kvs ''seller_borne_discount'' 0 money_field) (\<lambda>discount.
     ebind (default_field kvs ''additional_terms'' [] (\<lambda>x. case x of JObj ts \<Rightarrow> Inr ts | _ \<Rightarrow> Inl validation_error)) (\<lambda>terms.
     Inr \<lparr>ta_price = price, ta_payer = payer, ta_cost = cost, ta_discount = discount, ta_terms = terms\<rparr>))))))"

definition read_only :: "exn + json \<Rightarrow> db \<Rightarrow> exn + json \<times> db" where
  "read_only r d = ebind r (\<lambda>j. Inr (j, d))"

definition run_tool :: "'x agent_env_scheme \<Rightarrow> tool_context \<Rightarrow> string \<Rightarrow> json \<Rightarrow> db \<Rightarrow> exn + json \<times> db" where
  \<comment> \<open>\<open>tools[name].invoke(args)\<close>\<close>
  "run_tool E cx name args d =
     (if name = ''get_product_info'' then read_only (get_product_info cx d) d
      else if name = ''get_negotiation_state'' then read_only (get_negotiation_state E cx d) d
      else if name = ''evaluate_offer'' then ebind (terms_field args) (\<lambda>a. read_only (evaluate_offer_tool cx a d) d)
      else if name = ''submit_counter_offer'' then ebind (terms_field args) (\<lambda>a. submit_counter_offer_tool E cx a d)
      else if name = ''accept_offer'' then
        ebind (strict_object [''offer_id''] args) (\<lambda>kvs.
        ebind (int_field (jget args ''offer_id'')) (\<lambda>oid. accept_offer_tool E cx oid d))
      else if name = ''request_approval'' then
        ebind (strict_object [''offer_id'', ''reason''] args) (\<lambda>kvs.
        ebind (int_field (jget args ''offer_id'')) (\<lambda>oid.
        ebind (text_field 1 500 (jget args ''reason'')) (\<lambda>reason. request_approval_tool E cx oid reason d)))
      else Inl KeyExn)"

definition formal_turn :: "string \<Rightarrow> turn_outcome \<Rightarrow> json \<Rightarrow> exn + turn_result" where
  "formal_turn reply outcome v =
     (case jget (jget v ''offer'') ''id'' of
        JInt k \<Rightarrow> Inr \<lparr>tr_reply = reply, tr_outcome = outcome, tr_decision = None, tr_offer_id = Some k\<rparr>
      | _ \<Rightarrow> Inl KeyExn)"

definition terminal_turn :: "tool_call \<Rightarrow> json \<Rightarrow> exn + turn_result option" where
  \<comment> \<open>the turn that a successful formal tool ends\<close>
  "terminal_turn c v =
     (if \<not> is_success v then Inr None
      else if tk_name c = ''submit_counter_offer'' then
        ebind (render_counter_offer v) (\<lambda>reply. ebind (formal_turn reply TO_COUNTER_OFFERED v) (\<lambda>t. Inr (Some t)))
      else if tk_name c = ''accept_offer'' then
        ebind (render_accepted_offer v) (\<lambda>reply. ebind (formal_turn reply TO_OFFER_ACCEPTED v) (\<lambda>t. Inr (Some t)))
      else if tk_name c = ''request_approval'' then
        (case jget (tk_args c) ''offer_id'' of
           JInt oid \<Rightarrow>
             if valid_approval_result v (Some oid)
             then Inr (Some \<lparr>tr_reply = ''submitted to the seller, not accepted yet'', tr_outcome = TO_NEEDS_SELLER_CONFIRMATION,
                             tr_decision = None, tr_offer_id = None\<rparr>)
             else Inl (ValueExn ''invalid committed approval result'')
         | _ \<Rightarrow> Inl KeyExn)
      else Inr None)"

record tool_effect =
  te_value :: json
  te_turn :: "turn_result option"
  te_memory :: "memory option"
  te_db :: db

definition working_memory :: "runtime \<Rightarrow> checkpoint \<Rightarrow> memory" where
  "working_memory rt c = (case rk_memory c of None \<Rightarrow> ix_memory (rt_initial rt) | Some m \<Rightarrow> m)"

definition finish_memory :: "runtime \<Rightarrow> stream_record list \<Rightarrow> finish_plan \<Rightarrow> checkpoint \<Rightarrow> memory option \<times> checkpoint" where
  "finish_memory rt rs plan c =
     (let covered = (if rk_memory_incomplete c then c else c\<lparr>rk_memory_covered := Some (rt_cur rt)\<rparr>) in
      if \<not> ac_memory_enabled (rt_config rt) then (None, covered)
      else case apply_delta (working_memory rt c) (fp_delta plan) rs of
        Inl _ \<Rightarrow> (None, memory_failed c)
      | Inr m \<Rightarrow> (Some m, covered))"

definition tool_cx :: "runtime \<Rightarrow> tool_context" where
  "tool_cx rt = \<lparr>tc_session = t_session_id (rt_task rt), tc_buyer = rt_buyer rt, tc_offer = dq_offer_id (rt_request rt)\<rparr>"

definition finish_value :: "turn_result \<Rightarrow> finish_plan \<Rightarrow> bool \<Rightarrow> json" where
  "finish_value t plan reviewed = JObj [(''ok'', JBool True), (''outcome'', JStr (turn_outcome_text (tr_outcome t))),
     (''topics'', JArr (map JStr (fp_topics plan))), (''reply_reviewed'', JBool reviewed)]"

definition finish_effect ::
    "runtime_env \<Rightarrow> runtime \<Rightarrow> agent_env \<Rightarrow> stream_record list \<Rightarrow> tool_call \<Rightarrow> checkpoint \<Rightarrow> db \<Rightarrow> (exn + tool_effect) \<times> checkpoint" where
  "finish_effect E rt A rs c cp d =
     (case ebind (finish_of (rt_config rt) (tk_args c)) (\<lambda>plan.
           ebind (reviewed_reply (rt_config rt) (rk_reviews cp) (review_key (ev_hash E) (facts rt) rs (rt_cur rt) (fp_decision plan))
                    (facts rt) plan) (\<lambda>reviewed. Inr (plan, reviewed))) of
        Inl e \<Rightarrow> (Inl e, cp)
      | Inr (plan, reviewed) \<Rightarrow>
          (let (m, cp1) = finish_memory rt rs plan cp in
           (ebind (apply_reviewed A (tool_cx rt) (rt_request rt) (fp_decision plan) reviewed d) (\<lambda>(t, d1).
            Inr \<lparr>te_value = finish_value t plan (reviewed \<noteq> None), te_turn = Some t, te_memory = m, te_db = d1\<rparr>), cp1)))"

definition tool_effect_of ::
    "runtime_env \<Rightarrow> runtime \<Rightarrow> agent_env \<Rightarrow> stream_record list \<Rightarrow> tool_call \<Rightarrow> string option \<Rightarrow> checkpoint \<Rightarrow> db \<Rightarrow>
     (exn + tool_effect) \<times> checkpoint" where
  \<comment> \<open>the body of the savepoint in \<open>execute\<close>\<close>
  "tool_effect_of E rt A rs c err cp d =
     (if err \<noteq> None \<and> err \<noteq> Some [] then (Inl (ValueExn (the err)), cp)
      else if tk_name c = ''search_conversation_history'' then
        (ebind (search_history rs (tk_args c)) (\<lambda>v. Inr \<lparr>te_value = v, te_turn = None, te_memory = None, te_db = d\<rparr>), cp)
      else if tk_name c = ''finish_turn'' then finish_effect E rt A rs c cp d
      else if tk_name c \<in> {''accept_offer'', ''request_approval''} \<and> jget (tk_args c) ''offer_id'' \<noteq> jopt JInt (dq_offer_id (rt_request rt))
      then (Inl (ValueExn ''only the current formal buyer offer is authorized''), cp)
      else
        (ebind (run_tool A (tool_cx rt) (tk_name c) (tk_args c) d) (\<lambda>(v, d1).
         ebind (terminal_turn c v) (\<lambda>t. Inr \<lparr>te_value = v, te_turn = t, te_memory = None, te_db = d1\<rparr>)), cp))"

definition caught_tool_error :: "exn \<Rightarrow> bool" where
  "caught_tool_error e \<longleftrightarrow> is_value_error e \<or> e = KeyExn \<or> e = TypeExn"

definition rejected_value :: json where
  "rejected_value = JObj [(''ok'', JBool False), (''error'', JObj [(''code'', JStr ''TOOL_INPUT_REJECTED'')])]"

definition attempt_tool ::
    "runtime_env \<Rightarrow> runtime \<Rightarrow> agent_env \<Rightarrow> stream_record list \<Rightarrow> tool_call \<Rightarrow> string option \<Rightarrow> checkpoint \<Rightarrow> db \<Rightarrow>
     exn + tool_effect \<times> checkpoint" where
  \<comment> \<open>the savepoint: what a rejected tool wrote is rolled back\<close>
  "attempt_tool E rt A rs c err cp d =
     (case tool_effect_of E rt A rs c err cp d of
        (Inr te, cp1) \<Rightarrow> Inr (te, cp1)
      | (Inl e, cp1) \<Rightarrow>
          if caught_tool_error e
          then Inr (\<lparr>te_value = rejected_value, te_turn = None, te_memory = None, te_db = d\<rparr>, cp1)
          else Inl e)"

section \<open>Results\<close>

definition result_entry :: "runtime \<Rightarrow> tool_call \<Rightarrow> json \<Rightarrow> checkpoint \<Rightarrow> new_entry" where
  "result_entry rt c v cp =
     \<lparr>ne_session = t_session_id (rt_task rt), ne_key = ''task:'' @ show_int (t_id (rt_task rt)) @ '':tool:'' @ tk_id c,
      ne_role = ''TOOL'',
      ne_entry = MessageEntry TOOL_RESULT (ToolText (json_text '', '' '': '' (visible_result v (bu_tool_result (ac_budget (rt_config rt)))))
                   (tk_id c) (tk_name c) v) JNull,
      ne_public = False, ne_task = Some (t_id (rt_task rt)), ne_branch = Some (rk_branch cp),
      ne_step = Some (''model:'' @ show_int (rk_steps cp)), ne_attempt = Some (t_attempt_count (rt_task rt)), ne_call = Some (tk_id c)\<rparr>"

definition tool_result :: "runtime_env \<Rightarrow> runtime \<Rightarrow> tool_call \<Rightarrow> json \<Rightarrow> checkpoint \<Rightarrow> time \<Rightarrow> world \<Rightarrow> exn + checkpoint \<times> world" where
  \<comment> \<open>\<open>_tool_result\<close>\<close>
  "tool_result E rt c v cp now w =
     ebind (append_entry (result_entry rt c v cp) (wd_tx w)) (\<lambda>(row, tx).
     ebind (if ac_memory_enabled (rt_config rt)
            then ebind (record_tool (ev_digest E) (working_memory rt cp) (stream_of_row row) c v) (\<lambda>m. Inr (cp\<lparr>rk_memory := Some m\<rparr>))
            else Inr cp) (\<lambda>cp1.
     let cp2 = cp1\<lparr>rk_pending := tl (rk_pending cp1)\<rparr> in
     ebind (put_checkpoint E rt cp2 now (w\<lparr>wd_tx := tx\<rparr>)) (\<lambda>(_, w1). Inr (cp2, w1))))"

definition summed :: "(token_usage \<Rightarrow> int) \<Rightarrow> token_usage list \<Rightarrow> int" where
  "summed f us = sum_list (map f us)"

definition run_usage :: "runtime \<Rightarrow> world \<Rightarrow> model_usage" where
  \<comment> \<open>\<open>_usage\<close>: known only when every call reported it\<close>
  "run_usage rt w =
     (let us = map (\<lambda>r. case ck_response r of None \<Rightarrow> None | Some x \<Rightarrow> mr_usage x)
                 (filter (\<lambda>r. ck_task r = t_id (rt_task rt)) (trows (wd_calls w)));
          known = (us \<noteq> [] \<and> None \<notin> set us); xs = map the us in
      build_usage (ac_prices (rt_config rt))
        \<lparr>pu_provider = ac_provider (rt_config rt), pu_model_name = ac_model_name (rt_config rt),
         pu_input = (if known then Some (summed tu_input xs) else None), pu_output = (if known then Some (summed tu_output xs) else None),
         pu_cached = (if known then Some (summed (\<lambda>u. case tu_cached u of None \<Rightarrow> 0 | Some n \<Rightarrow> n) xs) else None),
         pu_total = (if known then Some (summed (\<lambda>u. case tu_total u of None \<Rightarrow> 0 | Some n \<Rightarrow> n) xs) else None)\<rparr>)"

definition artifact_entry :: "runtime \<Rightarrow> string \<Rightarrow> json \<Rightarrow> new_entry" where
  "artifact_entry rt key payload =
     \<lparr>ne_session = t_session_id (rt_task rt), ne_key = ''task:'' @ show_int (t_id (rt_task rt)) @ '':'' @ key, ne_role = ''SYSTEM'',
      ne_entry = DataEntry CONTEXT_ARTIFACT payload, ne_public = False, ne_task = Some (t_id (rt_task rt)), ne_branch = None,
      ne_step = None, ne_attempt = None, ne_call = None\<rparr>"

definition change_context :: "runtime \<Rightarrow> (session_context \<Rightarrow> session_context) \<Rightarrow> transcript \<Rightarrow> transcript" where
  "change_context rt f x = x\<lparr>tx_contexts := tmod (t_session_id (rt_task rt)) f (tx_contexts x)\<rparr>"

definition keep_summary :: "runtime \<Rightarrow> checkpoint \<Rightarrow> transcript \<Rightarrow> exn + transcript" where
  "keep_summary rt cp x =
     (case rk_summary cp of
        Some (text, covered, sources) \<Rightarrow>
          if text = [] then Inr x
          else
          ebind (append_entry (artifact_entry rt ''summary'' (JObj [(''type'', JStr ''SUMMARY''), (''text'', JStr text),
                   (''covered_through'', JInt covered), (''source_seqs'', JArr (map JInt sources))])) x) (\<lambda>(row, x1).
          Inr (change_context rt (\<lambda>c. c\<lparr>sx_summary := Some text, sx_summary_covered := covered,
                 sx_summary_artifact := Some (am_id row)\<rparr>) x1))
      | None \<Rightarrow> Inr x)"

definition keep_memory :: "runtime \<Rightarrow> checkpoint \<Rightarrow> memory option \<Rightarrow> transcript \<Rightarrow> exn + transcript" where
  "keep_memory rt cp m x =
     (case m of
        Some mem \<Rightarrow>
          if \<not> ac_memory_enabled (rt_config rt) then Inr x
          else
          ebind (append_entry (artifact_entry rt ''memory'' (JObj [(''type'', JStr ''MEMORY''), (''memory'', memory_json mem)])) x)
            (\<lambda>(row, x1).
          Inr (change_context rt (\<lambda>c. c\<lparr>sx_memory := Some (memory_json mem), sx_memory_artifact := Some (am_id row),
                 sx_memory_covered := (case rk_memory_covered cp of None \<Rightarrow> ix_memory_covered (rt_initial rt) | Some k \<Rightarrow> k)\<rparr>) x1))
      | None \<Rightarrow> Inr x)"

definition keep_context :: "runtime \<Rightarrow> string option \<Rightarrow> checkpoint \<Rightarrow> memory option \<Rightarrow> transcript \<Rightarrow> exn + transcript" where
  \<comment> \<open>only when no other run has changed the context since this one began\<close>
  "keep_context rt stale cp m x =
     (let (c, x1) = context_of_session (t_session_id (rt_task rt)) x in
      if sx_version c = ix_version (rt_initial rt) \<and> stale = None then
        ebind (keep_summary rt cp x1) (\<lambda>x2.
        ebind (keep_memory rt cp m x2) (\<lambda>x3.
        Inr (change_context rt (\<lambda>c. c\<lparr>sx_version := sx_version c + 1\<rparr>) x3)))
      else Inr x1)"

definition end_task :: "runtime_env \<Rightarrow> runtime \<Rightarrow> string option \<Rightarrow> string \<Rightarrow> time \<Rightarrow> world \<Rightarrow> exn + unit \<times> world" where
  "end_task E rt stale reason now w =
     (case stale of
        Some why \<Rightarrow>
          ebind (mark_stale (t_id (rt_task rt)) (rt_token rt) (Some why) (Some (run_usage rt w)) now (wd_db w)) (\<lambda>(_, d).
          Inr ((), w\<lparr>wd_db := d\<rparr>))
      | None \<Rightarrow>
          ebind (complete_success (ev_hash E) (t_id (rt_task rt)) (rt_token rt)
                   (JObj [(''stop_reason'', JStr reason), (''runtime'', JStr ''V4'')]) (run_usage rt w) now (wd_db w)) (\<lambda>(_, d).
          Inr ((), w\<lparr>wd_db := d\<rparr>)))"

definition formal_commitment :: "turn_result \<Rightarrow> bool" where
  \<comment> \<open>\<open>is_formal_commitment\<close>\<close>
  "formal_commitment t \<longleftrightarrow> tr_offer_id t \<noteq> None"

definition finish_run ::
    "runtime_env \<Rightarrow> runtime \<Rightarrow> string option \<Rightarrow> turn_result \<Rightarrow> memory option \<Rightarrow> string \<Rightarrow> checkpoint \<Rightarrow> time \<times> time \<Rightarrow> world \<Rightarrow>
     exn + (chat_turn \<times> checkpoint) \<times> world" where
  \<comment> \<open>\<open>_finish\<close>\<close>
  "finish_run E rt stale t m reason cp clock w =
     (let m1 = (case m of None \<Rightarrow> rk_memory cp | Some x \<Rightarrow> Some x);
          cp1 = cp\<lparr>rk_terminal := Some (formal_commitment t), rk_stop := Some reason, rk_pending := []\<rparr> in
      ebind (persist_result (t_session_id (rt_task rt)) (pt_buyer (rt_pending rt)) (rt_reply_key rt) t (pt_replay (rt_pending rt)) (wd_db w))
        (\<lambda>(turn, d).
      ebind (project (ct_agent turn) (Some (t_id (rt_task rt))) None False (wd_tx w)) (\<lambda>(_, x).
      ebind (keep_context rt stale cp1 m1 x) (\<lambda>x1.
      ebind (put_checkpoint E rt cp1 (fst clock) (w\<lparr>wd_db := d, wd_tx := x1\<rparr>)) (\<lambda>(_, w1).
      ebind (end_task E rt stale reason (snd clock) w1) (\<lambda>(_, w2). Inr ((turn, cp1), w2)))))))"

fun close_calls :: "runtime_env \<Rightarrow> runtime \<Rightarrow> string \<Rightarrow> tool_call list \<Rightarrow> checkpoint \<Rightarrow> time \<Rightarrow> world \<Rightarrow> exn + checkpoint \<times> world" where
  "close_calls E rt reason [] cp now w = Inr (cp, w)"
| "close_calls E rt reason (c # cs) cp now w =
     ebind (tool_result E rt c (JObj [(''ok'', JBool False), (''error'', JObj [(''code'', JStr reason)])]) cp now w) (\<lambda>(cp1, w1).
     close_calls E rt reason cs cp1 now w1)"

definition stop_run ::
    "runtime_env \<Rightarrow> runtime \<Rightarrow> string option \<Rightarrow> string \<Rightarrow> checkpoint \<Rightarrow> (nat \<Rightarrow> time) \<Rightarrow> world \<Rightarrow> exn + (chat_turn \<times> checkpoint) \<times> world" where
  \<comment> \<open>\<open>_stop_in_transaction\<close>\<close>
  "stop_run E rt stale reason cp now w =
     ebind (close_calls E rt reason (rk_pending cp) cp (now 1) w) (\<lambda>(cp1, w1).
     finish_run E rt stale (turn_failure ''cannot be handled safely now, please try later'' None) None reason cp1 (now 2, now 3) w1)"

section \<open>The loop\<close>

definition stop :: "runtime_env \<Rightarrow> runtime \<Rightarrow> string \<Rightarrow> chat_turn option run_step" where
  "stop E rt reason s =
     bind_step (transact E (\<lambda>now w.
       ebind (active_task rt (now 0) w) (\<lambda>_. stop_run E rt (rn_stale s) reason (rn_cp s) now w)))
       (\<lambda>(turn, cp) s1. (Inr (Some turn), s1\<lparr>rn_cp := cp\<rparr>)) s"

definition execute_body ::
    "runtime_env \<Rightarrow> runtime \<Rightarrow> agent_env \<Rightarrow> tool_call \<Rightarrow> string option \<Rightarrow> checkpoint \<Rightarrow> (nat \<Rightarrow> time) \<Rightarrow> world \<Rightarrow>
     exn + (chat_turn option \<times> string option \<times> checkpoint) \<times> world" where
  \<comment> \<open>\<open>execute\<close>\<close>
  "execute_body E rt A c err cp now w =
     ebind (active_task rt (now 0) w) (\<lambda>t.
     ebind (chat_stale_reason (wd_db w) t) (\<lambda>stale.
     if stale \<noteq> None then
       ebind (stop_run E rt stale ''BUSINESS_STATE_CHANGED'' cp now w) (\<lambda>((turn, cp1), w1). Inr ((Some turn, stale, cp1), w1))
     else
       ebind (attempt_tool E rt A (stream_records rt (rk_branch cp) w) c err cp (wd_db w)) (\<lambda>(te, cp1).
       ebind (tool_result E rt c (te_value te) cp1 (now 1) (w\<lparr>wd_db := te_db te\<rparr>)) (\<lambda>(cp2, w2).
       case te_turn te of
         None \<Rightarrow> Inr ((None, stale, cp2), w2)
       | Some r \<Rightarrow>
           ebind (finish_run E rt stale r (te_memory te) ''COMPLETED'' cp2 (now 2, now 3) w2) (\<lambda>((turn, cp3), w3).
           Inr ((Some turn, stale, cp3), w3))))))"

definition execute_call :: "runtime_env \<Rightarrow> runtime \<Rightarrow> tool_call \<Rightarrow> string option \<Rightarrow> chat_turn option run_step" where
  "execute_call E rt c err s =
     bind_step (transact E (execute_body E rt (ev_agent E (rn_tick s)) c err (rn_cp s)))
       (\<lambda>(turn, stale, cp) s1. (Inr turn, s1\<lparr>rn_cp := cp, rn_stale := stale\<rparr>)) s"

definition reserve_tool :: "runtime_env \<Rightarrow> runtime \<Rightarrow> tool_call \<Rightarrow> unit run_step" where
  "reserve_tool E rt c s =
     (if tk_id c \<in> set (rk_reserved_ids (rn_cp s)) then (Inr (), s)
      else if bu_tools (ac_budget (rt_config rt)) \<le> rk_tools (rn_cp s) then (Inl (OverBudget ''TOOL_BUDGET''), s)
      else save_checkpoint E rt (s\<lparr>rn_cp := (rn_cp s)\<lparr>rk_tools := rk_tools (rn_cp s) + 1,
             rk_reserved_ids := rk_reserved_ids (rn_cp s) @ [tk_id c]\<rparr>\<rparr>))"

definition pending_step :: "runtime_env \<Rightarrow> runtime \<Rightarrow> tool_call \<Rightarrow> chat_turn option run_step" where
  "pending_step E rt c =
     then_step (reserve_tool E rt c)
       (bind_step
          (\<lambda>s. if (rk_batch_error (rn_cp s) = None \<or> rk_batch_error (rn_cp s) = Some []) \<and> tk_name c = ''finish_turn''
                  \<and> ac_conversation (rt_config rt)
               then review_reply E rt c s else (Inr (rk_batch_error (rn_cp s)), s))
          (execute_call E rt c))"

definition step_entry :: "runtime \<Rightarrow> message_kind \<Rightarrow> agent_message \<Rightarrow> json \<Rightarrow> checkpoint \<Rightarrow> new_entry" where
  "step_entry rt kind m rest cp =
     \<lparr>ne_session = t_session_id (rt_task rt),
      ne_key = ''task:'' @ show_int (t_id (rt_task rt)) @ '':'' @ rk_branch cp @ '':model:'' @ show_int (rk_steps cp),
      ne_role = ''ASSISTANT'', ne_entry = MessageEntry kind m rest, ne_public = False, ne_task = Some (t_id (rt_task rt)),
      ne_branch = Some (rk_branch cp), ne_step = Some (''model:'' @ show_int (rk_steps cp)),
      ne_attempt = Some (t_attempt_count (rt_task rt)), ne_call = None\<rparr>"

definition save_step :: "runtime_env \<Rightarrow> runtime \<Rightarrow> message_kind \<Rightarrow> agent_message \<Rightarrow> json \<Rightarrow> unit run_step" where
  "save_step E rt kind m rest s = transact E (\<lambda>now w.
     ebind (active_task rt (now 0) w) (\<lambda>_.
     ebind (append_entry (step_entry rt kind m rest (rn_cp s)) (wd_tx w)) (\<lambda>(_, x).
     put_checkpoint E rt (rn_cp s) (now 1) (w\<lparr>wd_tx := x\<rparr>)))) s"

definition next_step :: "checkpoint \<Rightarrow> checkpoint" where
  "next_step c = c\<lparr>rk_steps := rk_steps c + 1\<rparr>"

definition reject_response :: "runtime_env \<Rightarrow> runtime \<Rightarrow> string \<Rightarrow> model_response \<Rightarrow> chat_turn option run_step" where
  \<comment> \<open>the model is told what was wrong and asked again\<close>
  "reject_response E rt issue r =
     then_step (update_cp (\<lambda>c. (next_step c)\<lparr>rk_repair := True\<rparr>))
       (then_step (save_step E rt MODEL_CANDIDATE (AIText issue [])
          (JObj [(''native_response_rejected'', JBool True), (''model_response'', wire_message (AIText (mr_content r) (mr_calls r)))]))
         (ret None))"

definition structured_plan :: "runtime_env \<Rightarrow> runtime \<Rightarrow> model_response \<Rightarrow> exn + finish_plan" where
  "structured_plan E rt r =
     (if mr_calls r \<noteq> [] \<or> mr_invalid r \<or> mr_truncated r then Inl (ValueExn ''structured finish was truncated or called tools'')
      else ebind (some_or validation_error (ev_parse E (mr_content r))) (finish_of (rt_config rt)))"

definition prior_ids :: "stream_record list \<Rightarrow> string list" where
  \<comment> \<open>the calls that have a result\<close>
  "prior_ids rs = concat (map (\<lambda>r. case sr_entry r of MessageEntry TOOL_RESULT (ToolText _ cid _ _) _ \<Rightarrow> [cid] | _ \<Rightarrow> []) rs)"

definition protocol_issue :: "call_purpose \<Rightarrow> stream_record list \<Rightarrow> bool \<Rightarrow> tool_call list \<Rightarrow> string option" where
  "protocol_issue p rs invalid calls =
     (let ids = map tk_id calls in
      if calls \<noteq> [] \<and> (\<not> distinct ids \<or> list_ex (\<lambda>x. x = [] \<or> 128 < length x \<or> x \<in> set (prior_ids rs)) ids)
      then Some ''repeated, missing or oversized tool call ID''
      else if p = REACT_ENDING \<and> calls \<noteq> [] \<and> map tk_name calls \<noteq> [''finish_turn''] then Some ''ending must use only finish_turn''
      else if invalid then Some ''malformed tool call arguments'' else None)"

definition accept_response ::
    "runtime_env \<Rightarrow> runtime \<Rightarrow> call_purpose \<Rightarrow> stream_record list \<Rightarrow> bool \<Rightarrow> agent_message \<Rightarrow> tool_call list \<Rightarrow> model_response \<Rightarrow> json \<Rightarrow>
     chat_turn option run_step" where
  \<comment> \<open>the rest of \<open>run\<close>: the calls become the pending ones\<close>
  "accept_response E rt p rs invalid m calls r rest s =
     (if calls = [] \<and> rk_repair (rn_cp s) \<and> \<not> ac_structured_finish (rt_config rt) then stop E rt ''STRUCTURED_ENDING_REQUIRED'' s
      else
      let s1 = (if calls = [] \<and> rk_repair (rn_cp s) then s\<lparr>rn_cp := (rn_cp s)\<lparr>rk_json_required := True\<rparr>\<rparr> else s) in
      case protocol_issue p rs invalid calls of
        Some issue \<Rightarrow> reject_response E rt issue r s1
      | None \<Rightarrow>
          then_step (update_cp (\<lambda>c. (next_step c)\<lparr>rk_pending := calls, rk_batch_error := batch_error calls, rk_repair := (calls = [])\<rparr>))
            (then_step (save_step E rt (if calls = [] then MODEL_CANDIDATE else TOOL_CALL) m rest) (ret None)) s1)"

definition plan_call :: "runtime \<Rightarrow> checkpoint \<Rightarrow> finish_plan \<Rightarrow> tool_call" where
  \<comment> \<open>a validated plan becomes a call of \<open>finish_turn\<close>\<close>
  "plan_call rt c plan =
     \<lparr>tk_id = ''structured-finish-'' @ show_int (rt_cur rt) @ ''-'' @ rk_branch c @ ''-'' @ show_int (rk_steps c + 1),
      tk_name = ''finish_turn'', tk_args = plan_json (rt_config rt) plan\<rparr>"

definition handle_response ::
    "runtime_env \<Rightarrow> runtime \<Rightarrow> call_purpose \<Rightarrow> stream_record list \<Rightarrow> model_response \<Rightarrow> chat_turn option run_step" where
  "handle_response E rt p rs r s =
     (if p \<in> {REACT_FINISH, CONVERSATION_FINISH} then
        (case structured_plan E rt r of
           Inl e \<Rightarrow> if is_value_error e then reject_response E rt ''structured finish invalid'' r s else (Inl (Raised e), s)
         | Inr plan \<Rightarrow>
             let call = plan_call rt (rn_cp s) plan in
             accept_response E rt p rs False (AIText [] [call]) [call] r
               (JObj [(''tool_call_origin'', JStr ''STRUCTURED_FINISH''), (''model_response'', wire_message (AIText (mr_content r) []))]) s)
      else accept_response E rt p rs (mr_invalid r) (AIText (mr_content r) (mr_calls r)) (mr_calls r) r JNull s)"

definition choose_purpose :: "runtime \<Rightarrow> checkpoint \<Rightarrow> call_purpose \<times> json list" where
  "choose_purpose rt c =
     (let g = rt_config rt in
      if ac_structured_finish g \<and> (rk_json_required c \<or> rk_steps c = bu_steps (ac_budget g) - 1)
      then (if ac_conversation g then CONVERSATION_FINISH else REACT_FINISH, [])
      else if rk_repair c \<and> (ac_named_finish g \<or> ac_structured_finish g) \<and> \<not> ac_thinking g
      then (REACT_ENDING, filter (\<lambda>t. jget (jget t ''function'') ''name'' = JStr ''finish_turn'') (ac_tools g))
      else (REACT, ac_tools g))"

definition context_flags :: "runtime \<Rightarrow> checkpoint \<Rightarrow> call_purpose \<Rightarrow> build_flags" where
  "context_flags rt c p =
     \<lparr>bf_repair = rk_repair c, bf_structured = (p \<in> {REACT_FINISH, CONVERSATION_FINISH}), bf_feedback = rk_feedback c,
      bf_growth = (if rk_steps c = 0 then bu_growth (ac_budget (rt_config rt)) else 0)\<rparr>"

definition ask_model_step :: "runtime_env \<Rightarrow> runtime \<Rightarrow> stream_record list \<Rightarrow> chat_turn option run_step" where
  "ask_model_step E rt rs s =
     (let (p, tools) = choose_purpose rt (rn_cp s) in
      bind_step (build_context (rt_config rt) (compress_context E rt) rs (rn_context s) (facts rt) (contract E tools p) (rt_cur rt)
                   (context_flags rt (rn_cp s) p)) (\<lambda>b s1.
      bind_step (model_call E rt (bt_messages b) tools p) (handle_response E rt p rs) (s1\<lparr>rn_context := bt_state b\<rparr>)) s)"

definition model_step :: "runtime_env \<Rightarrow> runtime \<Rightarrow> chat_turn option run_step" where
  "model_step E rt s =
     (if bu_steps (ac_budget (rt_config rt)) \<le> rk_steps (rn_cp s) then (Inl (OverBudget ''MODEL_STEP_BUDGET''), s)
      else
      bind_step (read_records E rt) (\<lambda>rs.
      then_step (refresh_memory E rt rs)
        (\<lambda>s1. ask_model_step E rt rs
                (if ac_memory_enabled (rt_config rt)
                 then s1\<lparr>rn_context := (rn_context s1)\<lparr>cs_memory := (case rk_memory (rn_cp s1) of None \<Rightarrow> cs_memory (rn_context s1) | Some m \<Rightarrow> m)\<rparr>\<rparr>
                 else s1))) s)"

definition loop_body :: "runtime_env \<Rightarrow> runtime \<Rightarrow> chat_turn option run_step" where
  "loop_body E rt =
     then_step (check_wall E rt)
       (bind_step (ensure_current E rt) (\<lambda>current s.
        if \<not> current then stop E rt ''BUSINESS_STATE_CHANGED'' s
        else case rk_pending (rn_cp s) of
          c # _ \<Rightarrow> pending_step E rt c s
        | [] \<Rightarrow> model_step E rt s))"

definition iteration :: "runtime_env \<Rightarrow> runtime \<Rightarrow> chat_turn option run_step" where
  \<comment> \<open>one round of the loop; an exceeded budget ends the run with a reply\<close>
  "iteration E rt s =
     (case loop_body E rt s of
        (Inl (OverBudget reason), s1) \<Rightarrow> stop E rt reason s1
      | r \<Rightarrow> r)"

end
