(* ===== verification/Runtime_Loop.thy ===== *)
theory Runtime_Loop
  imports Runtime
begin

text \<open>
  The loop of the runtime V4 ends: every round either answers the first pending tool call or takes one of the model steps,
  whose number is bounded. The steps inside a round are related to the checkpoint in one place, the locale
  \<open>run_relation\<close>, whose instances are the progress of the loop, here, and its budget, in \<open>Runtime_Spec\<close>.
\<close>

section \<open>Steps and relations\<close>

definition counters :: "checkpoint \<Rightarrow> int \<times> tool_call list \<times> int \<times> int \<times> int \<times> int \<times> int" where
  "counters c = (rk_steps c, rk_pending c, rk_calls c, rk_tools c, rk_maintenance c, rk_tokens c, rk_cost c)"

definition moves :: "(run_state \<Rightarrow> run_state \<Rightarrow> bool) \<Rightarrow> 'a run_step \<Rightarrow> bool" where
  "moves R m \<longleftrightarrow> (\<forall>s. R s (snd (m s)))"

lemma movesD: "moves R m \<Longrightarrow> m s = (r, s') \<Longrightarrow> R s s'"
  by (metis moves_def snd_conv)

lemma movesI: "(\<And>s r s'. m s = (r, s') \<Longrightarrow> R s s') \<Longrightarrow> moves R m"
  by (simp add: moves_def) (metis prod.collapse)

lemma reconciled_charges:
  assumes "reconciled g key r c = Some c'"
  shows "rk_tokens c \<le> rk_tokens c'" "rk_cost c \<le> rk_cost c'"
    "counters c' = counters (c\<lparr>rk_tokens := rk_tokens c', rk_cost := rk_cost c'\<rparr>)"
  using assms by (auto simp: reconciled_def Let_def counters_def split: option.splits if_splits)

lemma reserve_call_Inr:
  assumes "reserve_call g p t c = Inr c'"
  shows "rk_steps c' = rk_steps c" "rk_pending c' = rk_pending c" "rk_tools c' = rk_tools c" "rk_calls c' = rk_calls c + 1"
    "rk_tokens c' = rk_tokens c + (t + bu_output (call_budget g p))"
    "rk_cost c' = rk_cost c + call_cost (ac_prices g) t (bu_output (call_budget g p))"
    "rk_maintenance c' = rk_maintenance c + (if p \<in> {SUMMARY, MEMORY} then 1 else 0)"
    "rk_calls c < bu_calls (call_budget g p)" "rk_tokens c + (t + bu_output (call_budget g p)) \<le> bu_tokens (call_budget g p)"
    "p \<in> {SUMMARY, MEMORY} \<Longrightarrow> rk_maintenance c < bu_maintenance (call_budget g p)"
    "bu_cost (call_budget g p) = Some limit \<Longrightarrow> limit \<noteq> 0 \<Longrightarrow>
       up_input (ac_prices g) \<noteq> None \<and> up_output (ac_prices g) \<noteq> None
       \<and> rk_cost c + call_cost (ac_prices g) t (bu_output (call_budget g p)) \<le> limit * 1000000"
  using assms unfolding reserve_call_def Let_def by (simp_all split: if_splits) auto

locale run_relation =
  fixes g :: agent_config
    and R :: "run_state \<Rightarrow> run_state \<Rightarrow> bool"
  assumes R_trans: "R s s' \<Longrightarrow> R s' s'' \<Longrightarrow> R s s''"
    and R_same: "counters (rn_cp s') = counters (rn_cp s) \<Longrightarrow> rn_sent s' = rn_sent s \<Longrightarrow> R s s'"
    and R_charged: "counters (rn_cp s') = counters ((rn_cp s)\<lparr>rk_tokens := rk_tokens (rn_cp s) + k, rk_cost := rk_cost (rn_cp s) + k'\<rparr>) \<Longrightarrow>
      0 \<le> k \<Longrightarrow> 0 \<le> k' \<Longrightarrow> rn_sent s' = rn_sent s \<Longrightarrow> R s s'"
    and R_called: "reserve_call g p t (rn_cp s) = Inr c \<Longrightarrow> 0 \<le> t \<Longrightarrow> t \<le> token_limit (call_budget g p) \<Longrightarrow> rn_cp s' = c \<Longrightarrow>
      rn_sent s' = rn_sent s \<or> rn_sent s' = rn_sent s @ [(p, t, bu_output (call_budget g p))] \<Longrightarrow> R s s'"
    and R_tool: "rk_tools (rn_cp s) < bu_tools (ac_budget g) \<Longrightarrow>
      counters (rn_cp s') = counters ((rn_cp s)\<lparr>rk_tools := rk_tools (rn_cp s) + 1\<rparr>) \<Longrightarrow> rn_sent s' = rn_sent s \<Longrightarrow> R s s'"
begin

lemma moves_same: "(\<And>s r s'. m s = (r, s') \<Longrightarrow> counters (rn_cp s') = counters (rn_cp s) \<and> rn_sent s' = rn_sent s) \<Longrightarrow> moves R m"
  by (auto intro!: movesI R_same)

lemma moves_bind: "moves R m \<Longrightarrow> (\<And>x. moves R (f x)) \<Longrightarrow> moves R (bind_step m f)"
  by (rule movesI) (auto simp: bind_step_def split: prod.splits sum.splits dest!: movesD intro: R_trans)

lemma moves_then: "moves R m \<Longrightarrow> moves R k \<Longrightarrow> moves R (then_step m k)"
  by (simp add: then_step_def moves_bind)

lemma moves_ret: "moves R (ret x)" and moves_raise: "moves R (raise_error e)"
  by (auto intro!: moves_same simp: ret_def raise_error_def)

lemma moves_transact: "moves R (transact E body)"
  by (rule moves_same) (auto simp: transact_def Let_def split: sum.splits)

lemma transact_cp: "transact E body s = (r, s') \<Longrightarrow> rn_cp s' = rn_cp s \<and> rn_sent s' = rn_sent s"
  by (auto simp: transact_def Let_def split: sum.splits)

lemma moves_save_checkpoint: "moves R (save_checkpoint E rt)"
  by (rule moves_same) (auto simp: save_checkpoint_def dest!: transact_cp)

lemma moves_read_records: "moves R (read_records E rt)"
  by (rule moves_same) (auto simp: read_records_def dest!: transact_cp)

lemma moves_ensure_current: "moves R (ensure_current E rt)"
  unfolding ensure_current_def by (intro moves_bind moves_transact moves_same) auto

lemma moves_cached_response: "moves R (cached_response E rt p)"
  by (rule moves_same) (auto simp: cached_response_def split: if_splits dest!: transact_cp)

lemma moves_check_wall: "moves R (check_wall E rt)"
  by (rule moves_same) (auto simp: check_wall_def Let_def split: if_splits)

lemma moves_reconcile_usage: "moves R (reconcile_usage E rt key r)"
proof (rule movesI)
  fix s x s' assume step: "reconcile_usage E rt key r s = (x, s')"
  show "R s s'"
  proof (cases "reconciled (rt_config rt) key r (rn_cp s)")
    case None
    with step show ?thesis by (auto simp: reconcile_usage_def intro: R_same)
  next
    case (Some c)
    note charge = reconciled_charges [OF Some]
    from step Some have "save_checkpoint E rt (s\<lparr>rn_cp := c\<rparr>) = (x, s')" by (simp add: reconcile_usage_def)
    then have "rn_cp s' = c" "rn_sent s' = rn_sent s" by (auto simp: save_checkpoint_def dest!: transact_cp)
    with charge show ?thesis
      by (intro R_charged [where k = "rk_tokens c - rk_tokens (rn_cp s)" and k' = "rk_cost c - rk_cost (rn_cp s)"]) auto
  qed
qed

lemma invoke_model_sends:
  assumes "invoke_model E rt ms tools p t out s = (r, s')"
  shows "rn_cp s' = rn_cp s \<and> (rn_sent s' = rn_sent s \<or> rn_sent s' = rn_sent s @ [(p, t, out)])"
  using assms
  by (auto simp: invoke_model_def bind_step_def Let_def ret_def raise_error_def split: prod.splits sum.splits dest!: transact_cp)

lemma moves_reserved_call:
  assumes "rt_config rt = g"
  shows "moves R (reserved_call E rt ms tools p key)"
proof (rule movesI)
  fix s r s' assume step: "reserved_call E rt ms tools p key s = (r, s')"
  show "R s s'"
  proof (cases "check_tokens (call_budget g p) ms (contract E tools p)")
    case (Inl e)
    with step assms show ?thesis by (auto simp: reserved_call_def intro: R_same)
  next
    case tokens: (Inr t)
    then have t: "0 \<le> t" "t \<le> token_limit (call_budget g p)" by (auto simp: check_tokens_def estimate_def split: if_splits)
    show ?thesis
    proof (cases "reserve_call g p t (rn_cp s)")
      case (Inl e)
      with step tokens assms show ?thesis by (auto simp: reserved_call_def intro: R_same)
    next
      case (Inr c)
      let ?s0 = "s\<lparr>rn_cp := c\<rparr>" and ?out = "bu_output (call_budget g p)"
      from step tokens Inr assms have run: "then_step (save_checkpoint E rt)
          (bind_step (invoke_model E rt ms tools p t ?out) (\<lambda>r. then_step (reconcile_usage E rt key r) (ret r))) ?s0 = (r, s')"
        by (simp add: reserved_call_def)
      obtain a s1 where save: "save_checkpoint E rt ?s0 = (a, s1)" by fastforce
      then have s1: "rn_cp s1 = c" "rn_sent s1 = rn_sent s" by (auto simp: save_checkpoint_def dest!: transact_cp)
      note called = R_called [OF Inr t]
      show ?thesis
      proof (cases a)
        case (Inl e)
        with run save have "s' = s1" by (simp add: then_step_def bind_step_def)
        with s1 show ?thesis by (intro called) auto
      next
        case unit: (Inr u)
        obtain b s2 where invoke: "invoke_model E rt ms tools p t ?out s1 = (b, s2)" by fastforce
        note sends = invoke_model_sends [OF invoke]
        have s2: "R s s2" using sends s1 by (intro called) auto
        show ?thesis
        proof (cases b)
          case (Inl e)
          with run save unit invoke have "s' = s2" by (simp add: then_step_def bind_step_def)
          with s2 show ?thesis by simp
        next
          case (Inr resp)
          with run save unit invoke have "then_step (reconcile_usage E rt key resp) (ret resp) s2 = (r, s')"
            by (simp add: then_step_def bind_step_def)
          then have "R s2 s'" by (rule movesD [OF moves_then [OF moves_reconcile_usage moves_ret]])
          with s2 show ?thesis by (rule R_trans)
        qed
      qed
    qed
  qed
qed

lemma moves_model_call:
  assumes "rt_config rt = g"
  shows "moves R (model_call E rt ms tools p)"
proof (rule movesI)
  fix s r s' assume step: "model_call E rt ms tools p s = (r, s')"
  let ?key = "reservation_key p (rn_cp s)"
  have "moves R (then_step (check_wall E rt) (bind_step (cached_response E rt p) (\<lambda>stored. case stored of
      Some r \<Rightarrow> then_step (reconcile_usage E rt ?key r) (ret r) | None \<Rightarrow> reserved_call E rt ms tools p ?key)))"
    by (intro moves_then moves_check_wall moves_bind moves_cached_response)
      (auto split: option.split intro: moves_then moves_reconcile_usage moves_ret moves_reserved_call [OF assms])
  then show "R s s'" using step by (auto simp: model_call_def Let_def dest: movesD)
qed

lemma moves_update_cp: "(\<And>c. counters (f c) = counters c) \<Longrightarrow> moves R (update_cp f)"
  by (rule moves_same) (auto simp: update_cp_def)

lemma moves_ask_review:
  assumes "rt_config rt = g"
  shows "moves R (ask_review E rt payload)"
proof -
  have "moves R (bind_step (model_call E rt (review_messages (rt_config rt) payload (facts rt)) [] REPLY_REVIEW)
      (\<lambda>r. case reviewed_answer E (facts rt) r of Inl e \<Rightarrow> raise_error (Raised e) | Inr rv \<Rightarrow> ret rv))"
    by (intro moves_bind moves_model_call assms) (auto split: sum.split intro: moves_raise moves_ret)
  from movesD [OF this] show ?thesis
    by (intro movesI) (auto simp: ask_review_def split: prod.splits sum.splits if_splits)
qed

lemma moves_keep_review: "moves R (keep_review E rt key rv)"
  unfolding keep_review_def by (intro moves_then moves_update_cp moves_save_checkpoint) (simp add: counters_def)

lemma moves_settle_review: "moves R (settle_review key)"
  by (rule moves_same) (auto simp: settle_review_def counters_def split: option.splits if_splits)

lemma moves_review_reply:
  assumes "rt_config rt = g"
  shows "moves R (review_reply E rt c)"
proof (cases "finish_of (rt_config rt) (tk_args c)")
  case (Inl e)
  then show ?thesis by (auto simp: review_reply_def intro: moves_ret moves_raise)
next
  case (Inr plan)
  have asked: "moves R (then_step (update_cp (\<lambda>c. c\<lparr>rk_review_key := key\<rparr>)) (bind_step (ask_review E rt payload) (keep_review E rt key)))"
    for key payload
    by (intro moves_then moves_update_cp moves_bind moves_ask_review moves_keep_review assms) (simp add: counters_def)
  have "moves R (\<lambda>s. if map_of (rk_reviews (rn_cp s)) key \<noteq> None then (Inr (), s)
      else (case ev_unsafe E (dn_reply (fp_decision plan)) of
              Some err \<Rightarrow> keep_review E rt key (rejected_review err) s
            | None \<Rightarrow> then_step (update_cp (\<lambda>c. c\<lparr>rk_review_key := key\<rparr>)) (bind_step (ask_review E rt payload) (keep_review E rt key)) s))"
    for key payload
    using movesD [OF asked [of key payload]] movesD [OF moves_keep_review]
    by (intro movesI) (auto split: if_splits option.splits intro: R_same)
  then show ?thesis
    by (simp add: review_reply_def Inr Let_def) (intro moves_bind moves_read_records moves_then moves_settle_review, blast)
qed

lemma compress_moves:
  assumes "\<And>ms manifest. moves R (call ms manifest)"
  shows "moves R (compress g' parse call sel st cur)"
  using assms
  by (intro movesI) (auto simp: compress_def Let_def split: if_splits prod.splits sum.splits intro: R_same dest!: movesD)

lemma moves_compress_context:
  assumes "rt_config rt = g"
  shows "moves R (compress_context E rt sel st)"
proof (rule movesI)
  fix s r s' assume step: "compress_context E rt sel st s = (r, s')"
  have "moves R (compress (rt_config rt) (ev_parse E) (summary_call E rt) sel st (rt_cur rt))"
    by (intro compress_moves) (simp add: summary_call_def moves_bind moves_model_call moves_ret assms)
  then obtain a s1 where c: "compress (rt_config rt) (ev_parse E) (summary_call E rt) sel st (rt_cur rt) s = (a, s1)" and "R s s1"
    by (metis movesD prod.exhaust)
  moreover have "R s1 s2" if "save_checkpoint E rt (s1\<lparr>rn_cp := (rn_cp s1)\<lparr>rk_summary := x\<rparr>\<rparr>) = (b, s2)" for x b s2
    using that by (intro R_same) (auto simp: save_checkpoint_def counters_def dest!: transact_cp)
  ultimately show "R s s'" using step
    by (auto simp: compress_context_def split: sum.splits prod.splits if_splits intro: R_trans)
qed

lemma moves_catch_up:
  assumes "rt_config rt = g"
  shows "moves R (catch_up E rt rs last_seq pending)"
proof (rule movesI)
  fix s r s' assume step: "catch_up E rt rs last_seq pending s = (r, s')"
  let ?m = "bind_step (model_call E rt (memory_messages E (rt_config rt) (cs_memory (rn_context s)) pending) [] MEMORY)
      (memory_step E rs)"
  have "moves R (memory_step E rs x)" for x by (rule moves_same) (auto simp: memory_step_def split: sum.splits)
  then have "moves R ?m" by (intro moves_bind moves_model_call assms)
  then obtain a s1 where c: "?m s = (a, s1)" and "R s s1" by (metis movesD prod.exhaust)
  moreover have "s' = s1 \<or> (\<exists>s3 b. save_checkpoint E rt s3 = (b, s') \<and> counters (rn_cp s3) = counters (rn_cp s1) \<and> rn_sent s3 = rn_sent s1)"
    using step c by (cases a) (auto simp: catch_up_def counters_def memory_failed_def Let_def split: if_splits)
  then have "R s1 s'" by (intro R_same) (auto simp: save_checkpoint_def dest!: transact_cp)
  ultimately show "R s s'" by (blast intro: R_trans)
qed

lemma moves_refresh_memory:
  assumes "rt_config rt = g"
  shows "moves R (refresh_memory E rt rs)"
proof (rule movesI)
  fix s r s' assume step: "refresh_memory E rt rs s = (r, s')"
  have "R s s'" if "catch_up E rt rs l k (s\<lparr>rn_cp := c\<rparr>) = (r, s')" "counters c = counters (rn_cp s)" for l k c
  proof -
    have "R s (s\<lparr>rn_cp := c\<rparr>)" using that(2) by (intro R_same) simp_all
    then show ?thesis using movesD [OF moves_catch_up [OF assms] that(1)] by (rule R_trans)
  qed
  then show "R s s'" using step
    by (auto simp: refresh_memory_def Let_def counters_def split: if_splits intro: R_same)
qed

lemma build_context_moves:
  assumes "\<And>sel st. moves R (compressor sel st)"
  shows "moves R (build_context g' compressor rs st fs tools cur f)"
  using assms
  by (intro movesI) (auto simp: build_context_def Let_def split: if_splits prod.splits sum.splits intro: R_same dest!: movesD)

lemma moves_reserve_tool:
  assumes "rt_config rt = g"
  shows "moves R (reserve_tool E rt c)"
proof (rule movesI)
  fix s r s' assume step: "reserve_tool E rt c s = (r, s')"
  have "R s s'" if "rk_tools (rn_cp s) < bu_tools (ac_budget g)"
    "save_checkpoint E rt (s\<lparr>rn_cp := (rn_cp s)\<lparr>rk_tools := rk_tools (rn_cp s) + 1, rk_reserved_ids := ids\<rparr>\<rparr>) = (r, s')" for ids
    using that by (intro R_tool) (auto simp: save_checkpoint_def counters_def dest!: transact_cp)
  then show "R s s'" using step assms by (auto simp: reserve_tool_def split: if_splits intro: R_same)
qed

end

section \<open>Progress\<close>

definition same_progress :: "run_state \<Rightarrow> run_state \<Rightarrow> bool" where
  "same_progress s s' \<longleftrightarrow> rk_steps (rn_cp s') = rk_steps (rn_cp s) \<and> rk_pending (rn_cp s') = rk_pending (rn_cp s)"

lemma progress_called:
  assumes "reserve_call h p t (rn_cp s) = Inr c" and "rn_cp s' = c"
  shows "same_progress s s'"
  using reserve_call_Inr [OF assms(1)] assms(2) by (simp add: same_progress_def)

interpretation progress: run_relation h same_progress for h
  by unfold_locales (auto simp: same_progress_def counters_def dest: progress_called)

lemma bind_step_InrE:
  assumes "bind_step m f s = (Inr x, s')"
  obtains y s1 where "m s = (Inr y, s1)" "f y s1 = (Inr x, s')"
  using assms by (auto simp: bind_step_def split: prod.splits sum.splits)

lemma then_step_InrE:
  assumes "then_step m k s = (Inr x, s')"
  obtains s1 where "m s = (Inr (), s1)" "k s1 = (Inr x, s')"
  using assms unfolding then_step_def by (elim bind_step_InrE) auto

lemma stop_returns: "stop E rt reason s = (r, s') \<Longrightarrow> r \<noteq> Inr None"
  by (auto simp: stop_def bind_step_def split: prod.splits sum.splits)

lemma transact_Inr:
  assumes "transact E body s = (Inr x, s')"
  obtains w' where "body (\<lambda>k. ev_now E (rn_tick s + k)) (ev_others E (rn_tick s) (rn_world s)) = Inr (x, w')"
    "rn_world s' = w'" "rn_cp s' = rn_cp s" "rn_context s' = rn_context s" "rn_sent s' = rn_sent s" "rn_stale s' = rn_stale s"
  using assms by (auto simp: transact_def Let_def split: sum.splits)

lemma finish_memory_progress:
  "rk_steps (snd (finish_memory rt rs plan cp)) = rk_steps cp \<and> rk_pending (snd (finish_memory rt rs plan cp)) = rk_pending cp"
  by (simp add: finish_memory_def memory_failed_def Let_def split: sum.split)

lemma tool_effect_progress:
  "rk_steps (snd (tool_effect_of E rt A rs c err cp d)) = rk_steps cp
    \<and> rk_pending (snd (tool_effect_of E rt A rs c err cp d)) = rk_pending cp"
  using finish_memory_progress
  by (simp add: tool_effect_of_def finish_effect_def case_prod_beta split: sum.split)

lemma attempt_tool_progress:
  assumes "attempt_tool E rt A rs c err cp d = Inr (te, cp1)"
  shows "rk_steps cp1 = rk_steps cp \<and> rk_pending cp1 = rk_pending cp"
proof -
  have "snd (tool_effect_of E rt A rs c err cp d) = cp1"
    using assms by (auto simp: attempt_tool_def split: prod.splits sum.splits if_splits)
  with tool_effect_progress show ?thesis by metis
qed

lemma tool_result_Inr:
  assumes "tool_result E rt c v cp now w = Inr (cp2, w2)"
  obtains row tx m where "append_entry (result_entry rt c v cp) (wd_tx w) = Inr (row, tx)"
    "cp2 = cp\<lparr>rk_memory := m, rk_pending := tl (rk_pending cp)\<rparr>"
    "put_checkpoint E rt cp2 now (w\<lparr>wd_tx := tx\<rparr>) = Inr ((), w2)"
proof -
  from assms obtain row tx cp1 where row: "append_entry (result_entry rt c v cp) (wd_tx w) = Inr (row, tx)"
    and m: "(if ac_memory_enabled (rt_config rt)
        then ebind (record_tool (ev_digest E) (working_memory rt cp) (stream_of_row row) c v) (\<lambda>m. Inr (cp\<lparr>rk_memory := Some m\<rparr>))
        else Inr cp) = Inr cp1"
    and put: "put_checkpoint E rt (cp1\<lparr>rk_pending := tl (rk_pending cp1)\<rparr>) now (w\<lparr>wd_tx := tx\<rparr>) = Inr ((), w2)"
    and cp2: "cp2 = cp1\<lparr>rk_pending := tl (rk_pending cp1)\<rparr>"
    unfolding tool_result_def Let_def by (elim ebind_InrE prod_InrE Inr_pairE) simp
  from m have "\<exists>m. cp1 = cp\<lparr>rk_memory := m\<rparr>"
    by (elim if_InrE ebind_InrE) (auto intro: exI [of _ "rk_memory cp"])
  with row put cp2 that show thesis by auto
qed

lemma tool_result_progress:
  assumes "tool_result E rt c v cp now w = Inr (cp2, w2)"
  shows "rk_steps cp2 = rk_steps cp \<and> rk_pending cp2 = tl (rk_pending cp)"
  using assms by (elim tool_result_Inr) simp

lemma execute_call_progress:
  assumes "execute_call E rt c err s = (Inr None, s')"
  shows "rk_steps (rn_cp s') = rk_steps (rn_cp s) \<and> rk_pending (rn_cp s') = tl (rk_pending (rn_cp s))"
proof -
  from assms obtain stale cp s1 w' where
    body: "execute_body E rt (ev_agent E (rn_tick s)) c err (rn_cp s) (\<lambda>k. ev_now E (rn_tick s + k))
        (ev_others E (rn_tick s) (rn_world s)) = Inr ((None, stale, cp), w')" and "rn_cp s' = cp"
    unfolding execute_call_def by (elim bind_step_InrE transact_Inr) auto
  moreover from body have "rk_steps cp = rk_steps (rn_cp s) \<and> rk_pending cp = tl (rk_pending (rn_cp s))"
    by (auto simp: execute_body_def result_simps split: if_splits option.splits
        dest!: attempt_tool_progress tool_result_progress)
  ultimately show ?thesis by simp
qed

lemma pending_step_progress:
  assumes "pending_step E rt c s = (Inr None, s')"
  shows "rk_steps (rn_cp s') = rk_steps (rn_cp s) \<and> rk_pending (rn_cp s') = tl (rk_pending (rn_cp s))"
proof -
  from assms obtain s1 err s2 where r: "reserve_tool E rt c s = (Inr (), s1)"
    and e: "(if (rk_batch_error (rn_cp s1) = None \<or> rk_batch_error (rn_cp s1) = Some []) \<and> tk_name c = ''finish_turn''
                  \<and> ac_conversation (rt_config rt)
               then review_reply E rt c s1 else (Inr (rk_batch_error (rn_cp s1)), s1)) = (Inr err, s2)"
    and x: "execute_call E rt c err s2 = (Inr None, s')"
    unfolding pending_step_def by (elim then_step_InrE bind_step_InrE) blast
  have "same_progress s s1" using progress.moves_reserve_tool [OF refl] r by (rule movesD)
  moreover have "same_progress s1 s2"
    using e movesD [OF progress.moves_review_reply [OF refl]] by (auto simp: same_progress_def split: if_splits)
  ultimately show ?thesis using execute_call_progress [OF x] by (simp add: same_progress_def)
qed

lemma reject_response_progress:
  assumes "reject_response E rt issue r s = (Inr y, s')"
  shows "rk_steps (rn_cp s') = rk_steps (rn_cp s) + 1"
  using assms unfolding reject_response_def save_step_def
  by (elim then_step_InrE transact_Inr) (auto simp: update_cp_def next_step_def ret_def)

lemma accept_response_progress:
  assumes "accept_response E rt p rs invalid m calls r rest s = (Inr None, s')"
  shows "rk_steps (rn_cp s') = rk_steps (rn_cp s) + 1"
proof -
  let ?s1 = "if calls = [] \<and> rk_repair (rn_cp s) then s\<lparr>rn_cp := (rn_cp s)\<lparr>rk_json_required := True\<rparr>\<rparr> else s"
  have s1: "rk_steps (rn_cp ?s1) = rk_steps (rn_cp s)" by simp
  have "stop E rt ''STRUCTURED_ENDING_REQUIRED'' s \<noteq> (Inr None, s')" using stop_returns by blast
  with assms have no_stop: "\<not> (calls = [] \<and> rk_repair (rn_cp s) \<and> \<not> ac_structured_finish (rt_config rt))"
    unfolding accept_response_def by metis
  note rest = assms [unfolded accept_response_def Let_def if_not_P [OF no_stop]]
  show ?thesis
  proof (cases "protocol_issue p rs invalid calls")
    case (Some issue)
    from rest have "reject_response E rt issue r ?s1 = (Inr None, s')" unfolding Some option.case .
    with s1 show ?thesis by (metis reject_response_progress)
  next
    case None
    from rest have "then_step
        (update_cp (\<lambda>c. (next_step c)\<lparr>rk_pending := calls, rk_batch_error := batch_error calls, rk_repair := (calls = [])\<rparr>))
        (then_step (save_step E rt (if calls = [] then MODEL_CANDIDATE else TOOL_CALL) m rest) (ret None)) ?s1 = (Inr (None :: chat_turn option), s')"
      unfolding None option.case .
    then show ?thesis unfolding save_step_def
      by (elim then_step_InrE transact_Inr) (simp add: update_cp_def next_step_def ret_def split: if_splits, auto)
  qed
qed

lemma handle_response_progress:
  assumes "handle_response E rt p rs r s = (Inr None, s')"
  shows "rk_steps (rn_cp s') = rk_steps (rn_cp s) + 1"
  using assms reject_response_progress accept_response_progress
  unfolding handle_response_def Let_def by (auto split: if_splits sum.splits)

lemma ask_model_step_progress:
  assumes "ask_model_step E rt rs s = (Inr None, s')"
  shows "rk_steps (rn_cp s') = rk_steps (rn_cp s) + 1"
proof -
  obtain p tools where choice: "choose_purpose rt (rn_cp s) = (p, tools)" by fastforce
  from assms obtain b s1 r s2 where
    built: "build_context (rt_config rt) (compress_context E rt) rs (rn_context s) (facts rt) (contract E tools p) (rt_cur rt)
       (context_flags rt (rn_cp s) p) s = (Inr b, s1)"
    and call: "model_call E rt (bt_messages b) tools p (s1\<lparr>rn_context := bt_state b\<rparr>) = (Inr r, s2)"
    and handled: "handle_response E rt p rs r s2 = (Inr None, s')"
    unfolding ask_model_step_def choice by (simp, elim bind_step_InrE) blast
  have "same_progress s s1"
    using progress.build_context_moves [OF progress.moves_compress_context [OF refl]] built by (rule movesD)
  moreover have "same_progress (s1\<lparr>rn_context := bt_state b\<rparr>) s2" using progress.moves_model_call [OF refl] call by (rule movesD)
  ultimately show ?thesis using handle_response_progress [OF handled] by (simp add: same_progress_def)
qed

lemma model_step_progress:
  assumes "model_step E rt s = (Inr None, s')"
  shows "rk_steps (rn_cp s) < bu_steps (ac_budget (rt_config rt)) \<and> rk_steps (rn_cp s') = rk_steps (rn_cp s) + 1"
proof -
  from assms obtain rs s1 s2 where steps: "rk_steps (rn_cp s) < bu_steps (ac_budget (rt_config rt))"
    and "read_records E rt s = (Inr rs, s1)" and "refresh_memory E rt rs s1 = (Inr (), s2)"
    and ask: "ask_model_step E rt rs (if ac_memory_enabled (rt_config rt)
       then s2\<lparr>rn_context := (rn_context s2)\<lparr>cs_memory := (case rk_memory (rn_cp s2) of None \<Rightarrow> cs_memory (rn_context s2) | Some m \<Rightarrow> m)\<rparr>\<rparr>
       else s2) = (Inr None, s')"
    unfolding model_step_def by (auto split: if_splits elim!: bind_step_InrE then_step_InrE)
  then have "same_progress s s1" "same_progress s1 s2"
    using movesD [OF progress.moves_read_records] movesD [OF progress.moves_refresh_memory [OF refl]] by blast+
  with ask_model_step_progress [OF ask] steps show ?thesis by (simp add: same_progress_def split: if_splits)
qed

lemma iteration_progress:
  assumes "iteration E rt s = (Inr None, s')"
  shows "rk_steps (rn_cp s) < bu_steps (ac_budget (rt_config rt)) \<and> rk_steps (rn_cp s') = rk_steps (rn_cp s) + 1
    \<or> rk_steps (rn_cp s') = rk_steps (rn_cp s) \<and> rk_pending (rn_cp s) \<noteq> [] \<and> rk_pending (rn_cp s') = tl (rk_pending (rn_cp s))"
proof -
  have "loop_body E rt s = (Inr None, s')"
    using assms by (auto simp: iteration_def split: prod.splits sum.splits run_error.splits dest: stop_returns)
  then obtain s1 current s2 where "check_wall E rt s = (Inr (), s1)" and "ensure_current E rt s1 = (Inr current, s2)"
    and rest: "(if \<not> current then stop E rt ''BUSINESS_STATE_CHANGED'' s2
        else case rk_pending (rn_cp s2) of c # _ \<Rightarrow> pending_step E rt c s2 | [] \<Rightarrow> model_step E rt s2) = (Inr None, s')"
    unfolding loop_body_def by (elim then_step_InrE bind_step_InrE) blast
  then have same: "same_progress s s1" "same_progress s1 s2"
    using movesD [OF progress.moves_check_wall] movesD [OF progress.moves_ensure_current] by blast+
  have "stop E rt ''BUSINESS_STATE_CHANGED'' s2 \<noteq> (Inr None, s')" using stop_returns by blast
  with rest consider c cs where "rk_pending (rn_cp s2) = c # cs" "pending_step E rt c s2 = (Inr None, s')"
    | "rk_pending (rn_cp s2) = []" "model_step E rt s2 = (Inr None, s')"
    by (auto split: if_splits list.splits)
  then show ?thesis
    by cases (use same in \<open>auto simp: same_progress_def dest!: pending_step_progress model_step_progress\<close>)
qed

function run_loop :: "runtime_env \<Rightarrow> runtime \<Rightarrow> chat_turn run_step" where
  \<comment> \<open>\<open>run\<close>\<close>
  "run_loop E rt s =
     (case iteration E rt s of
        (Inl e, s1) \<Rightarrow> (Inl e, s1)
      | (Inr (Some turn), s1) \<Rightarrow> (Inr turn, s1)
      | (Inr None, s1) \<Rightarrow> run_loop E rt s1)"
  by pat_completeness auto

lemma iteration_decreases:
  assumes "iteration E rt s = (Inr None, s')"
  shows "((E, rt, s'), E, rt, s) \<in> measures [\<lambda>(E, rt, s). nat (bu_steps (ac_budget (rt_config rt)) - rk_steps (rn_cp s)),
    \<lambda>(E, rt, s). length (rk_pending (rn_cp s))]"
proof (cases "rk_steps (rn_cp s') = rk_steps (rn_cp s)")
  case True
  with iteration_progress [OF assms] have "rk_pending (rn_cp s) \<noteq> []" "rk_pending (rn_cp s') = tl (rk_pending (rn_cp s))" by auto
  with True show ?thesis by (cases "rk_pending (rn_cp s)") auto
qed (use iteration_progress [OF assms] in auto)

termination run_loop
  by (relation "measures [\<lambda>(E, rt, s). nat (bu_steps (ac_budget (rt_config rt)) - rk_steps (rn_cp s)),
    \<lambda>(E, rt, s). length (rk_pending (rn_cp s))]")
    (simp, rule iteration_decreases, metis)

declare run_loop.simps [simp del]

end
