(* ===== verification/Context_Spec.thy ===== *)
theory Context_Spec
  imports Context_Window
begin

text \<open>
  What the context of a call guarantees: it fits the input limit, it contains the buyer's current message, every tool call
  in it has its results, and leaving out exchanges never breaks the protocol of tool calls.
\<close>

section \<open>The protocol of tool calls\<close>

definition call_ids :: "agent_message list \<Rightarrow> string set" where
  "call_ids ms = (\<Union>m \<in> set ms. case m of AIText _ calls \<Rightarrow> set (map tk_id calls) | _ \<Rightarrow> {})"

definition pending_of :: "agent_message list \<Rightarrow> string set \<Rightarrow> string set" where
  "pending_of ms p = foldl (\<lambda>p m. still_pending m p) p ms"

lemma call_ids_simps [simp]:
  "call_ids [] = {}"
  "call_ids (m # ms) = (case m of AIText _ calls \<Rightarrow> set (map tk_id calls) | _ \<Rightarrow> {}) \<union> call_ids ms"
  by (simp_all add: call_ids_def)

lemma pending_of_simps [simp]:
  "pending_of [] p = p" "pending_of (m # ms) p = pending_of ms (still_pending m p)"
  "pending_of (ms @ ns) p = pending_of ns (pending_of ms p)"
  by (simp_all add: pending_of_def)

lemma open_calls_Inr:
  assumes "open_calls cs (p, s) = Inr (p', s')"
  shows "p' = p \<union> set (map tk_id cs) \<and> s' = s \<union> set (map tk_id cs) \<and> s \<inter> set (map tk_id cs) = {}
    \<and> (\<forall>t. t \<inter> set (map tk_id cs) = {} \<longrightarrow> open_calls cs (p, t) = Inr (p', t \<union> set (map tk_id cs)))"
  using assms
proof (induction cs arbitrary: p s)
  case (Cons c cs)
  from Cons.prems have c: "tk_id c \<noteq> []" "tk_id c \<notin> s"
    and rest: "open_calls cs (insert (tk_id c) p, insert (tk_id c) s) = Inr (p', s')"
    by (auto split: if_splits)
  from Cons.IH [OF rest] have p': "p' = insert (tk_id c) p \<union> set (map tk_id cs)" and s': "s' = insert (tk_id c) s \<union> set (map tk_id cs)"
    and new: "insert (tk_id c) s \<inter> set (map tk_id cs) = {}"
    and again: "\<And>t. t \<inter> set (map tk_id cs) = {} \<Longrightarrow>
      open_calls cs (insert (tk_id c) p, t) = Inr (p', t \<union> set (map tk_id cs))" by blast+
  have "open_calls (c # cs) (p, t) = Inr (p', t \<union> set (map tk_id (c # cs)))" if "t \<inter> set (map tk_id (c # cs)) = {}" for t
  proof -
    from that new have "insert (tk_id c) t \<inter> set (map tk_id cs) = {}" by auto
    from again [OF this] that c(1) show ?thesis by (simp add: insert_commute Un_insert_left Un_insert_right)
  qed
  with p' s' new c show ?case by auto
qed simp

lemma validate_message_Inr:
  assumes "validate_message m (p, s) = Inr (p', s')"
  shows "p' = still_pending m p \<and> s' = s \<union> call_ids [m] \<and> s \<inter> call_ids [m] = {}
    \<and> (\<forall>t. t \<inter> call_ids [m] = {} \<longrightarrow> validate_message m (p, t) = Inr (p', t \<union> call_ids [m]))"
proof (cases m)
  case (AIText content calls)
  with assms have "p = {}" and "open_calls calls (p, s) = Inr (p', s')" by (auto split: if_splits)
  with open_calls_Inr [OF this(2)] AIText show ?thesis by (simp add: still_pending_def)
qed (use assms in \<open>auto simp: still_pending_def split: if_splits\<close>)

lemma validate_all_Inr:
  assumes "efold validate_message ms (p, s) = Inr (p', s')"
  shows "p' = pending_of ms p \<and> s' = s \<union> call_ids ms \<and> s \<inter> call_ids ms = {}
    \<and> (\<forall>t. t \<inter> call_ids ms = {} \<longrightarrow> efold validate_message ms (p, t) = Inr (p', t \<union> call_ids ms))"
  using assms
proof (induction ms arbitrary: p s)
  case (Cons m ms)
  from Cons.prems obtain p1 s1 where m: "validate_message m (p, s) = Inr (p1, s1)"
    and rest: "efold validate_message ms (p1, s1) = Inr (p', s')"
    by (auto simp: result_simps)
  note head = validate_message_Inr [OF m] and tail = Cons.IH [OF rest]
  have "efold validate_message (m # ms) (p, t) = Inr (p', t \<union> call_ids (m # ms))" if t: "t \<inter> call_ids (m # ms) = {}" for t
  proof -
    from t have "t \<inter> call_ids [m] = {}" by auto
    with head have 1: "validate_message m (p, t) = Inr (p1, t \<union> call_ids [m])" by blast
    from head tail t have "(t \<union> call_ids [m]) \<inter> call_ids ms = {}" by auto
    with tail have "efold validate_message ms (p1, t \<union> call_ids [m]) = Inr (p', t \<union> call_ids [m] \<union> call_ids ms)" by blast
    with 1 show ?thesis by (simp add: Un_assoc)
  qed
  with head tail show ?case by auto
qed simp

lemma efold_append:
  "efold f (xs @ ys) d = ebind (efold f xs d) (efold f ys)"
proof (induction xs arbitrary: d)
  case (Cons x xs)
  show ?case by (cases "f x d") (simp_all add: Cons.IH)
qed simp

lemma valid_protocol_iff:
  "validate_protocol ms False = Inr () \<longleftrightarrow> (\<exists>s. efold validate_message ms ({}, {}) = Inr ({}, s))"
  by (auto simp: validate_protocol_def result_simps split: if_splits prod.splits)

lemma valid_drop_middle:
  assumes "validate_protocol (a @ b @ c) False = Inr ()"
    and "pending_of a {} = {}" and "pending_of b {} = {}"
  shows "validate_protocol (a @ c) False = Inr ()"
proof -
  from assms(1) obtain s where "efold validate_message (a @ b @ c) ({}, {}) = Inr ({}, s)"
    by (auto simp: valid_protocol_iff)
  then obtain p1 s1 p2 s2 where a: "efold validate_message a ({}, {}) = Inr (p1, s1)"
    and b: "efold validate_message b (p1, s1) = Inr (p2, s2)" and c: "efold validate_message c (p2, s2) = Inr ({}, s)"
    by (auto simp: efold_append result_simps)
  from validate_all_Inr [OF a] assms(2) have p1: "p1 = {}" by simp
  with validate_all_Inr [OF b] assms(3) have p2: "p2 = {}" and s2: "s2 = s1 \<union> call_ids b" by simp_all
  from validate_all_Inr [OF c] s2 have "s1 \<inter> call_ids c = {}" by auto
  with validate_all_Inr [OF c] have "efold validate_message c (p2, s1) = Inr ({}, s1 \<union> call_ids c)" by blast
  with a p1 p2 show ?thesis by (auto simp: valid_protocol_iff efold_append)
qed

fun plain :: "agent_message \<Rightarrow> bool" where
  "plain (SystemText _) = True"
| "plain (HumanText _) = True"
| "plain (AIText _ calls) = (calls = [])"
| "plain (ToolText _ _ _ _) = False"

lemma validate_plain: "list_all plain ms \<Longrightarrow> efold validate_message ms ({}, s) = Inr ({}, s)"
proof (induction ms)
  case (Cons m ms)
  then show ?case by (cases m) auto
qed simp

lemma valid_plain_prefix:
  "list_all plain pre \<Longrightarrow> validate_protocol (pre @ ms) False = validate_protocol ms False"
  by (simp add: validate_protocol_def efold_append validate_plain)

lemma plain_assembled:
  assumes "list_all plain fixed"
  shows "validate_protocol (assemble fixed summary cur sel) False = validate_protocol (map message_of sel) False"
proof -
  let ?pre = "fixed @ (if summary = [] then [] else [HumanText (''summary: '' @ summary)]) @ [source_list cur sel]"
  have "assemble fixed summary cur sel = ?pre @ map message_of sel" by (simp add: assemble_def)
  moreover have "list_all plain ?pre" using assms by (simp add: source_list_def)
  ultimately show ?thesis by (simp only: valid_plain_prefix)
qed

section \<open>Groups\<close>

lemma groups_fold_boundaries:
  assumes "foldl add_to_groups (gs, p) rs = (gs', p')" and "gs = [] \<longrightarrow> p = {}"
    and "p = pending_of (map message_of (concat gs)) {}"
    and "\<forall>k < length gs. pending_of (map message_of (concat (take k gs))) {} = {}"
  shows "p' = pending_of (map message_of (concat gs')) {}
    \<and> (\<forall>k < length gs'. pending_of (map message_of (concat (take k gs'))) {} = {})"
  using assms
proof (induction rs arbitrary: gs p)
  case (Cons r rs)
  show ?case
  proof (cases "record_message r")
    case None
    with Cons show ?thesis by (simp add: add_to_groups_def)
  next
    case (Some m)
    then have m: "message_of r = m" by (simp add: message_of_def)
    let ?gs = "if p = {} then gs @ [[r]] else butlast gs @ [last gs @ [r]]"
    have step: "add_to_groups (gs, p) r = (?gs, still_pending m p)" by (simp add: add_to_groups_def Some)
    have nonempty: "p \<noteq> {} \<Longrightarrow> gs \<noteq> []" using Cons.prems(2) by auto
    have concat: "concat ?gs = concat gs @ [r]"
    proof (cases "p = {}")
      case False
      then have "concat gs = concat (butlast gs @ [last gs])" using nonempty by simp
      then have "concat gs = concat (butlast gs) @ last gs" by simp
      with False show ?thesis by simp
    qed simp
    have bounds: "\<forall>k < length ?gs. pending_of (map message_of (concat (take k ?gs))) {} = {}"
    proof (cases "p = {}")
      case True
      then show ?thesis using Cons.prems(3,4) by (auto simp: less_Suc_eq)
    next
      case False
      then have "take k ?gs = take k gs" if "k < length ?gs" for k
        using that nonempty by (cases gs rule: rev_cases) auto
      moreover have "length ?gs = length gs" using False nonempty by (cases gs rule: rev_cases) auto
      ultimately show ?thesis using Cons.prems(4) by simp
    qed
    have rest: "foldl add_to_groups (?gs, still_pending m p) rs = (gs', p')" using Cons.prems(1) by (simp only: step foldl_Cons)
    have empty: "?gs = [] \<longrightarrow> still_pending m p = {}" by simp
    have "still_pending m p = pending_of (map message_of (concat ?gs)) {}"
      by (subst concat) (simp add: Cons.prems(3) [symmetric] m)
    from Cons.IH [OF rest empty this bounds] show ?thesis .
  qed
qed simp

lemma groups_boundaries:
  "k < length (groups rs) \<Longrightarrow> pending_of (map message_of (concat (take k (groups rs)))) {} = {}"
proof -
  obtain gs p where "foldl add_to_groups ([], {}) rs = (gs, p)" by fastforce
  with groups_fold_boundaries [OF this] show "k < length (groups rs) \<Longrightarrow> ?thesis" by (simp add: groups_def)
qed

lemma removable_split:
  assumes "removable cur sel = Some g" and "list_all usable sel"
  obtains a c where "sel = a @ g @ c" "pending_of (map message_of a) {} = {}" "pending_of (map message_of g) {} = {}"
proof -
  from assms(1) obtain i where i: "i < length (groups sel) - 2" and g: "g = groups sel ! i"
    by (auto simp: removable_def older_groups_def find_Some_iff)
  let ?a = "concat (take i (groups sel))" and ?c = "concat (drop (Suc i) (groups sel))"
  from i have "groups sel = take i (groups sel) @ groups sel ! i # drop (Suc i) (groups sel)" by (simp add: id_take_nth_drop)
  then have "concat (groups sel) = ?a @ g @ ?c" using g by (metis concat.simps(2) concat_append)
  moreover have "concat (groups sel) = sel" using assms(2) by (simp add: concat_groups list_all_iff)
  moreover have a: "pending_of (map message_of ?a) {} = {}" using i by (intro groups_boundaries) simp
  moreover have "pending_of (map message_of g) {} = {}"
  proof -
    have "concat (take (Suc i) (groups sel)) = ?a @ g" using i g by (simp add: take_Suc_conv_app_nth)
    with groups_boundaries [of "Suc i" sel] i a show ?thesis by simp
  qed
  ultimately show ?thesis using that by metis
qed

lemma without_group_split:
  assumes "sel = a @ g @ c" and "distinct (map sr_seq sel)"
  shows "without_group g sel = a @ c"
proof -
  have "\<not> contains_seq (sr_seq r) g" if "r \<in> set a \<or> r \<in> set c" for r
    using assms that by (auto simp: contains_seq_def list_ex_iff)
  moreover have "contains_seq (sr_seq r) g" if "r \<in> set g" for r using that by (auto simp: contains_seq_def list_ex_iff)
  ultimately show ?thesis by (simp add: without_group_def assms(1) filter_empty_conv filter_id_conv)
qed

section \<open>Leaving out exchanges\<close>

lemma contains_seq_iff: "contains_seq n rs \<longleftrightarrow> n \<in> sr_seq ` set rs"
  by (auto simp: contains_seq_def list_ex_iff)

lemma trim_sound:
  assumes "trim tokens cur soft hard sel om = Inr (kept, om', limit)" and "soft \<le> hard"
  shows "tokens kept \<le> limit \<and> limit \<le> hard \<and> (\<exists>dropped. om' = om @ dropped \<and> cur \<notin> set dropped
    \<and> kept = filter (\<lambda>r. sr_seq r \<notin> set dropped) sel)"
  using assms
proof (induction tokens cur soft hard sel om rule: trim.induct)
  case (1 tokens cur soft hard sel om)
  consider (fits) "tokens sel \<le> soft" | (pinned) "\<not> tokens sel \<le> soft" "removable cur sel = None"
    | (drop) g where "\<not> tokens sel \<le> soft" "removable cur sel = Some g" by fastforce
  then show ?case
  proof cases
    case drop
    from "1.prems"(1) drop have rest:
      "trim tokens cur soft hard (without_group g sel) (om @ map sr_seq g) = Inr (kept, om', limit)"
      by (subst (asm) trim.simps) simp
    from "1.IH" [OF drop rest "1.prems"(2)] obtain more where more: "tokens kept \<le> limit" "limit \<le> hard"
      "om' = (om @ map sr_seq g) @ more" "cur \<notin> set more" "kept = filter (\<lambda>r. sr_seq r \<notin> set more) (without_group g sel)"
      by blast
    have "cur \<notin> set (map sr_seq g)" using removable_member [OF drop(2)] by (auto simp: contains_seq_iff)
    moreover have "kept = filter (\<lambda>r. sr_seq r \<notin> set (map sr_seq g @ more)) sel"
      using more(5) by (auto simp: without_group_def contains_seq_iff filter_filter intro!: filter_cong)
    ultimately show ?thesis using more by (auto intro!: exI [of _ "map sr_seq g @ more"])
  qed (use "1.prems" in \<open>auto simp: trim.simps split: if_splits intro: exI [of _ "[]"]\<close>)
qed

lemma trim_keeps_protocol:
  assumes "trim tokens cur soft hard sel om = Inr (kept, om', limit)"
    and "validate_protocol (map message_of sel) False = Inr ()" and "list_all usable sel" and "distinct (map sr_seq sel)"
  shows "validate_protocol (map message_of kept) False = Inr ()"
  using assms
proof (induction tokens cur soft hard sel om rule: trim.induct)
  case (1 tokens cur soft hard sel om)
  consider (last) "kept = sel" | (drop) g where "\<not> tokens sel \<le> soft" "removable cur sel = Some g"
    using "1.prems"(1) by (subst (asm) trim.simps) (auto split: if_splits option.splits)
  then show ?case
  proof cases
    case drop
    from "1.prems"(1) drop have rest:
      "trim tokens cur soft hard (without_group g sel) (om @ map sr_seq g) = Inr (kept, om', limit)"
      by (subst (asm) trim.simps) simp
    obtain a c where sel: "sel = a @ g @ c" and "pending_of (map message_of a) {} = {}" "pending_of (map message_of g) {} = {}"
      using removable_split [OF drop(2) "1.prems"(3)] .
    then have "validate_protocol (map message_of (a @ c)) False = Inr ()"
      using "1.prems"(2) valid_drop_middle [of "map message_of a" "map message_of g" "map message_of c"] by simp
    moreover have "without_group g sel = a @ c" using sel "1.prems"(4) by (rule without_group_split)
    moreover have "distinct (map sr_seq (a @ c))" using "1.prems"(4) by (simp add: sel Int_Un_distrib)
    ultimately show ?thesis using "1.IH" [OF drop rest] "1.prems"(3) sel by simp
  qed (use "1.prems" in simp)
qed

lemma trim_error: "trim tokens cur soft hard sel om = Inl e \<Longrightarrow> e = OverBudget ''PINNED_CONTEXT_BUDGET''"
proof (induction tokens cur soft hard sel om rule: trim.induct)
  case (1 tokens cur soft hard sel om)
  then show ?case by (subst (asm) (2) trim.simps) (auto split: if_splits option.splits)
qed

section \<open>The context\<close>

definition keeps_input :: "int \<Rightarrow> context_state \<Rightarrow> bool" where
  \<comment> \<open>the buyer's current message is not covered by the summary\<close>
  "keeps_input cur st \<longleftrightarrow> cs_covered st < cur \<and> cur \<notin> set (cs_sources st)"

text \<open>What the builder relies on: a compressor never covers the buyer's current message.\<close>

locale context_compressor =
  fixes compressor :: "stream_record list \<Rightarrow> context_state \<Rightarrow> 'w \<Rightarrow> (run_error + context_state) \<times> 'w"
    and cur :: int
  assumes compressor_keeps: "compressor sel st w = (Inr st', w') \<Longrightarrow> keeps_input cur st \<Longrightarrow> keeps_input cur st'"
begin

lemma built_from:
  assumes "build_context g compressor rs st facts tools cur f w = (Inr b, w')" and "keeps_input cur st" and "0 \<le> bf_growth f"
  obtains fixed soft st' where "keeps_input cur st'" "soft \<le> max 0 (token_limit (ac_budget g))" "list_all plain fixed"
    "finish_context g fixed tools cur soft (uncovered st' rs) st' = Inr b"
proof -
  let ?fixed = "fixed_messages g f facts (cs_memory st)" and ?soft = "max 0 (token_limit (ac_budget g) - bf_growth f)"
  have plain: "list_all plain ?fixed" by (simp add: fixed_messages_def)
  have room: "?soft \<le> max 0 (token_limit (ac_budget g))" if "0 \<le> bf_growth f" using that by simp
  consider (kept) "finish_context g ?fixed tools cur ?soft (uncovered st rs) st = Inr b"
    | (compressed) st1 where "compressor (uncovered st rs) st w = (Inr st1, w')"
        "finish_context g ?fixed tools cur ?soft (uncovered st1 rs) st1 = Inr b"
    using assms(1) by (auto simp: build_context_def Let_def split: if_splits prod.splits sum.splits)
  then show ?thesis
  proof cases
    case kept
    show ?thesis by (rule that [OF assms(2) room [OF assms(3)] plain kept])
  next
    case compressed
    show ?thesis by (rule that [OF compressor_keeps [OF compressed(1) assms(2)] room [OF assms(3)] plain compressed(2)])
  qed
qed

end

lemma old_exchanges_spared:
  "cur \<notin> sr_seq ` set old \<Longrightarrow> cur \<notin> sr_seq ` set (old_exchanges fits cur gs old)"
  by (induction fits cur gs old rule: old_exchanges.induct) (auto simp: contains_seq_iff)

lemma compress_keeps:
  assumes "compress g parse call sel st cur w = (Inr st', w')" and "keeps_input cur st"
  shows "keeps_input cur st'"
  using assms old_exchanges_spared [of cur "[]"]
  by (auto simp: compress_def Let_def keeps_input_def split: if_splits prod.splits sum.splits)

lemma finish_context_sound:
  assumes "finish_context g fixed tools cur soft sel st = Inr b" and "soft \<le> token_limit (ac_budget g)"
  shows "estimate (bt_messages b) tools \<le> token_limit (ac_budget g) \<and> bt_tokens b = estimate (bt_messages b) tools
    \<and> validate_protocol (bt_messages b) False = Inr () \<and> bt_state b = st
    \<and> cur \<notin> set (bt_omitted b) \<and> bt_selected b = filter (\<lambda>r. sr_seq r \<notin> set (bt_omitted b)) sel
    \<and> bt_messages b = assemble fixed (cs_summary st) cur (bt_selected b)"
proof -
  let ?tokens = "\<lambda>s. estimate (assemble fixed (cs_summary st) cur s) tools"
  from assms(1) obtain kept om limit where trim: "trim ?tokens cur soft (token_limit (ac_budget g)) sel [] = Inr (kept, om, limit)"
    and rest: "(let ms = assemble fixed (cs_summary st) cur kept in
      case ebind (validate_protocol ms False) (\<lambda>_. check_tokens (ac_budget g) ms tools) of
        Inl e \<Rightarrow> Inl (Raised e)
      | Inr n \<Rightarrow> Inr \<lparr>bt_messages = ms, bt_selected = kept, bt_omitted = om, bt_tokens = n, bt_limit = limit, bt_state = st\<rparr>)
      = Inr b"
    unfolding finish_context_def by (elim ebind_InrE prod_InrE) blast
  then obtain n where "ebind (validate_protocol (assemble fixed (cs_summary st) cur kept) False)
      (\<lambda>_. check_tokens (ac_budget g) (assemble fixed (cs_summary st) cur kept) tools) = Inr n"
    and b: "b = \<lparr>bt_messages = assemble fixed (cs_summary st) cur kept, bt_selected = kept, bt_omitted = om, bt_tokens = n,
       bt_limit = limit, bt_state = st\<rparr>"
    unfolding Let_def by (auto split: sum.splits)
  then have valid: "validate_protocol (assemble fixed (cs_summary st) cur kept) False = Inr ()"
    and n: "check_tokens (ac_budget g) (assemble fixed (cs_summary st) cur kept) tools = Inr n"
    by (auto simp: result_simps)
  from n have "n = ?tokens kept" and "?tokens kept \<le> token_limit (ac_budget g)" by (auto simp: check_tokens_def split: if_splits)
  moreover from trim_sound [OF trim assms(2)] have "cur \<notin> set om" and "kept = filter (\<lambda>r. sr_seq r \<notin> set om) sel" by auto
  ultimately show ?thesis using valid b by simp
qed

interpretation compressed: context_compressor "\<lambda>sel st. compress g parse call sel st cur" cur for g parse call cur
  by unfold_locales (rule compress_keeps)

text \<open>
  C23: A context built for the language model fits the input limit, with summaries made by the model itself: it is a
  complete exchange in which every tool call has its result, it contains the buyer's current message, and what it leaves
  out of the stream is covered by the summary or listed as omitted.
\<close>
theorem context_sound:
  assumes "build_context g (\<lambda>sel st. compress g parse call sel st cur) rs st facts tools cur f w = (Inr b, w')"
    and "keeps_input cur st" and "0 < token_limit (ac_budget g)" and "0 \<le> bf_growth f"
    and "r \<in> set rs" and "sr_seq r = cur" and "usable r"
  shows "estimate (bt_messages b) tools \<le> token_limit (ac_budget g)
    \<and> validate_protocol (bt_messages b) False = Inr ()
    \<and> message_of r \<in> set (bt_messages b) \<and> keeps_input cur (bt_state b)
    \<and> (\<forall>x \<in> set rs. usable x \<longrightarrow> message_of x \<in> set (bt_messages b) \<or> sr_seq x \<in> set (bt_omitted b)
         \<or> sr_seq x \<le> cs_covered (bt_state b) \<or> sr_seq x \<in> set (cs_sources (bt_state b)))"
proof -
  obtain fixed soft st' where st': "keeps_input cur st'" and soft: "soft \<le> max 0 (token_limit (ac_budget g))"
    and built: "finish_context g fixed tools cur soft (uncovered st' rs) st' = Inr b"
    using assms(1,2,4) by (rule compressed.built_from)
  from soft assms(3) have "soft \<le> token_limit (ac_budget g)" by simp
  note b = finish_context_sound [OF built this]
  have in_messages: "message_of x \<in> set (bt_messages b)" if "x \<in> set (bt_selected b)" for x
    using that b by (auto simp: assemble_def)
  have selected: "x \<in> set (bt_selected b)" if "x \<in> set rs" "usable x" "sr_seq x \<notin> set (bt_omitted b)" "cs_covered st' < sr_seq x"
    "sr_seq x \<notin> set (cs_sources st')" for x
    using that b by (auto simp: uncovered_def)
  have "message_of r \<in> set (bt_messages b)"
    using assms(5-7) st' b by (intro in_messages selected) (auto simp: keeps_input_def)
  moreover have "message_of x \<in> set (bt_messages b) \<or> sr_seq x \<in> set (bt_omitted b)
      \<or> sr_seq x \<le> cs_covered st' \<or> sr_seq x \<in> set (cs_sources st')" if "x \<in> set rs" "usable x" for x
    using selected [OF that] in_messages [of x] by (cases "cs_covered st' < sr_seq x") auto
  moreover from b have "bt_state b = st'" "estimate (bt_messages b) tools \<le> token_limit (ac_budget g)"
    "validate_protocol (bt_messages b) False = Inr ()" by blast+
  ultimately show ?thesis using st' by simp
qed

text \<open>
  Leaving out exchanges never breaks the protocol: once the selected rows form complete exchanges, the context is
  built unless the parts that must stay exceed the limit.
\<close>
theorem omission_keeps_protocol:
  assumes "finish_context g fixed tools cur soft sel st = Inl e" and "soft \<le> token_limit (ac_budget g)"
    and "0 < token_limit (ac_budget g)" and "list_all plain fixed"
    and "validate_protocol (map message_of sel) False = Inr ()" and "list_all usable sel" and "distinct (map sr_seq sel)"
  shows "e = OverBudget ''PINNED_CONTEXT_BUDGET''"
proof -
  let ?tokens = "\<lambda>s. estimate (assemble fixed (cs_summary st) cur s) tools"
  show ?thesis
  proof (cases "trim ?tokens cur soft (token_limit (ac_budget g)) sel []")
    case (Inl e')
    with assms(1) trim_error [OF Inl] show ?thesis by (simp add: finish_context_def)
  next
    case (Inr q)
    obtain kept om limit where q: "q = (kept, om, limit)" by (cases q)
    note trim = Inr [unfolded q]
    have "validate_protocol (assemble fixed (cs_summary st) cur kept) False = Inr ()"
      using trim_keeps_protocol [OF trim assms(5-7)] by (simp add: plain_assembled [OF assms(4)])
    moreover have "?tokens kept \<le> token_limit (ac_budget g)" using trim_sound [OF trim assms(2)] by linarith
    ultimately have False using assms(1,3) trim by (simp add: finish_context_def check_tokens_def Let_def)
    then show ?thesis ..
  qed
qed

section \<open>Samples\<close>

definition sample_budget :: "int \<Rightarrow> agent_budget" where
  "sample_budget input = \<lparr>bu_window = 32768, bu_input = input, bu_output = 1024, bu_safety = 1024, bu_growth = 2048,
     bu_trigger = 4 / 5, bu_target = 3 / 5, bu_tool_result = 1500, bu_steps = 6, bu_calls = 10, bu_maintenance = 2,
     bu_tools = 8, bu_wall = seconds 120, bu_tokens = 180000, bu_cost = None\<rparr>"

definition sample_agent_config :: "int \<Rightarrow> agent_config" where
  "sample_agent_config input = \<lparr>ac_budget = sample_budget input, ac_prompt = ''sell'', ac_prompt_hash = ''h'',
     ac_summary_prompt = ''sum up'', ac_memory_prompt = ''remember'', ac_review_prompt = ''review'', ac_conversation = False,
     ac_review_output = None, ac_capabilities = JObj [], ac_memory_enabled = True, ac_structured_finish = True,
     ac_named_finish = False, ac_contiguous = True, ac_thinking = False, ac_timeout = 30, ac_provider = ''p'',
     ac_model_name = ''m'', ac_prices = \<lparr>up_input = None, up_output = None, up_cached = None, up_currency = None\<rparr>, ac_tools = []\<rparr>"

definition sample_flags :: build_flags where
  "sample_flags = \<lparr>bf_repair = False, bf_structured = False, bf_feedback = None, bf_growth = 0\<rparr>"

definition sample_window :: context_state where
  "sample_window = \<lparr>cs_summary = [], cs_covered = 0, cs_memory = None, cs_sources = []\<rparr>"

definition no_summary :: "agent_message list \<Rightarrow> json \<Rightarrow> unit \<Rightarrow> (run_error + string) \<times> unit" where
  "no_summary ms manifest w = (Inl (OverBudget ''MAINTENANCE_BUDGET''), w)"

definition sample_build :: "(run_error + built_context) \<times> unit" where
  "sample_build = build_context (sample_agent_config 16000) (\<lambda>sel st. compress (sample_agent_config 16000) (\<lambda>_. None) no_summary sel st 1)
     [sample_input 1 ''hello''] sample_window (JObj []) [] 1 sample_flags ()"

lemma sample_built: "case fst sample_build of Inr _ \<Rightarrow> True | Inl _ \<Rightarrow> False"
  by code_simp

lemma sample_limit: "token_limit (ac_budget (sample_agent_config 16000)) = 16000" "token_limit (ac_budget (sample_agent_config 1)) = 1"
  by (simp_all add: token_limit_def sample_agent_config_def sample_budget_def)

lemma context_sound_witness:
  "\<exists>b. sample_build = (Inr b, ()) \<and> estimate (bt_messages b) [] \<le> 16000 \<and> HumanText ''hello'' \<in> set (bt_messages b)"
proof -
  obtain a where a: "sample_build = (a, ())" by (cases sample_build) simp
  from sample_built have "case a of Inr _ \<Rightarrow> True | Inl _ \<Rightarrow> False" unfolding a by simp
  then obtain b where "a = Inr b" by (cases a) simp_all
  with a have b: "sample_build = (Inr b, ())" by simp
  have "keeps_input 1 sample_window" by (simp add: keeps_input_def sample_window_def)
  moreover have "usable (sample_input 1 ''hello'')" "message_of (sample_input 1 ''hello'') = HumanText ''hello''"
    "sr_seq (sample_input 1 ''hello'') = 1"
    by (simp_all add: usable_def message_of_def record_message.simps sample_input_def)
  ultimately show ?thesis
    using context_sound [OF b [unfolded sample_build_def], of "sample_input 1 ''hello''"] b
    by (intro exI [of _ b]) (auto simp: sample_limit sample_flags_def)
qed

lemma sample_pinned:
  "finish_context (sample_agent_config 1) [] [] 1 1 [sample_input 1 ''hello''] sample_window = Inl (OverBudget ''PINNED_CONTEXT_BUDGET'')"
  by code_simp

lemma omission_keeps_protocol_witness: "OverBudget ''PINNED_CONTEXT_BUDGET'' = OverBudget ''PINNED_CONTEXT_BUDGET''
   \<and> finish_context (sample_agent_config 1) [] [] 1 1 [sample_input 1 ''hello''] sample_window \<noteq> Inl (Raised IntegrityExn)"
proof
  show "OverBudget ''PINNED_CONTEXT_BUDGET'' = OverBudget ''PINNED_CONTEXT_BUDGET''"
    by (rule omission_keeps_protocol [OF sample_pinned])
      (simp_all add: sample_limit validate_protocol_def message_of_def usable_def record_message.simps sample_input_def)
qed (simp add: sample_pinned)

end
