(* ===== verification/Runtime_Tools.thy ===== *)
theory Runtime_Tools
  imports Runtime Chat_Spec Context_Spec
begin

text \<open>
  What a tool call of the runtime V4 does to the database. The tools are those of the earlier agent, so what they may do is
  \<open>committed\<close>, the specification of a turn; a call that ends in an error leaves no trace; an answer that comes after the
  facts have changed ends the run without a commitment.
\<close>

section \<open>Formal tools\<close>

lemma committed_cong:
  "tr_outcome t = tr_outcome t' \<Longrightarrow> tr_offer_id t = tr_offer_id t' \<Longrightarrow> committed cx current t d d' \<longleftrightarrow> committed cx current t' d d'"
  by (simp only: committed_def)

definition tool_done :: "tool_context \<Rightarrow> int option \<Rightarrow> turn_result option \<Rightarrow> db \<Rightarrow> db \<Rightarrow> bool" where
  \<comment> \<open>a tool that ends no turn has written nothing\<close>
  "tool_done cx current turn d d' \<longleftrightarrow>
     keeps d d' \<and> aside d d' \<and> (case turn of None \<Rightarrow> d' = d | Some t \<Rightarrow> committed cx current t d d')"

lemma tool_done_none [simp]: "tool_done cx current None d d"
  by (simp add: tool_done_def)

definition as_decision :: "int option \<Rightarrow> terms_args \<Rightarrow> string \<Rightarrow> decision" where
  \<comment> \<open>the decision of the earlier agent that runs the same tool\<close>
  "as_decision oid a reason =
     \<lparr>dn_action = DO_COUNTER, dn_acts = [], dn_offer_id = oid, dn_price = Some (ta_price a), dn_payer = Some (ta_payer a),
      dn_cost = ta_cost a, dn_discount = Some (ta_discount a), dn_terms = ta_terms a, dn_reason = reason, dn_reply = []\<rparr>"

lemma validated_offer_id: "validated_offer v who st = Inr kvs \<Longrightarrow> \<exists>k. jget (jget v ''offer'') ''id'' = JInt k \<and> 0 < k"
  by (auto simp: validated_offer_def split: json.splits bool.splits if_splits)

lemma formal_turn_reply:
  assumes "render = (\<lambda>r. ebind (validated_offer r who st) f)" and "is_success v" and "render v = Inr reply"
    and "formal_turn reply oc v = Inr t"
  shows "\<exists>t'. formal_reply render oc dn v = Inr t' \<and> tr_outcome t' = tr_outcome t \<and> tr_offer_id t' = tr_offer_id t"
proof -
  from assms(1,3) obtain k where "jget (jget v ''offer'') ''id'' = JInt k" "0 < k"
    by (auto simp: result_simps dest: validated_offer_id)
  with assms(2-4) show ?thesis by (auto simp: formal_reply_def formal_turn_def result_offer_id_def)
qed

lemma counter_call:
  assumes "submit_counter_offer_tool E cx a d = Inr (v, d1)" and "terminal_turn c v = Inr turn"
    and "tk_name c = ''submit_counter_offer''" and "legacy_inv d" and "0 < d_next_offer d"
  shows "tool_done cx current turn d d1"
proof -
  let ?dn = "as_decision None a []"
  have run: "execute_counter E cx ?dn d = ebind (formal_reply render_counter_offer TO_COUNTER_OFFERED ?dn v) (\<lambda>t. Inr (t, d1))"
    using assms(1) by (cases a) (simp add: execute_counter_def as_decision_def)
  note side = counter_tool_aside [OF assms(1)]
  show ?thesis
  proof (cases "is_success v")
    case False
    then have "execute_counter E cx ?dn d = Inr (safe_failure (Some ?dn), d1)" by (simp add: run formal_reply_def)
    from execute_counter_committed [OF this assms(4,5)] have "d1 = d" by (simp add: safe_failure_def turn_failure_def)
    with False assms(2) show ?thesis by (simp add: terminal_turn_def)
  next
    case True
    then obtain reply t where t: "turn = Some t" "render_counter_offer v = Inr reply" "formal_turn reply TO_COUNTER_OFFERED v = Inr t"
      using assms(2,3) by (auto simp: terminal_turn_def result_simps)
    obtain t' where t': "formal_reply render_counter_offer TO_COUNTER_OFFERED ?dn v = Inr t'" "tr_outcome t' = tr_outcome t"
      "tr_offer_id t' = tr_offer_id t" using formal_turn_reply [OF render_counter_eq True t(2,3)] by blast
    then have "execute_counter E cx ?dn d = Inr (t', d1)" by (simp add: run)
    from execute_counter_committed [OF this assms(4,5), of current] t(1) t' side show ?thesis
      by (simp add: tool_done_def committed_cong [of t' t])
  qed
qed

lemma accept_call:
  assumes "accept_offer_tool E cx oid d = Inr (v, d1)" and "terminal_turn c v = Inr turn"
    and "tk_name c = ''accept_offer''" and "legacy_inv d"
  shows "tool_done cx (Some oid) turn d d1"
proof -
  let ?dn = "as_decision (Some oid) \<lparr>ta_price = 0, ta_payer = BuyerPays, ta_cost = None, ta_discount = 0, ta_terms = []\<rparr> []"
  have run: "execute_accept E cx ?dn (Some oid) d = ebind (formal_reply render_accepted_offer TO_OFFER_ACCEPTED ?dn v) (\<lambda>t. Inr (t, d1))"
    using assms(1) by (simp add: execute_accept_def as_decision_def)
  note side = accept_tool_aside [OF assms(1)]
  show ?thesis
  proof (cases "is_success v")
    case False
    then have "execute_accept E cx ?dn (Some oid) d = Inr (safe_failure (Some ?dn), d1)" by (simp add: run formal_reply_def)
    from execute_accept_committed [OF this assms(4)] have "d1 = d" by (simp add: safe_failure_def turn_failure_def)
    with False assms(2) show ?thesis by (simp add: terminal_turn_def)
  next
    case True
    then obtain reply t where t: "turn = Some t" "render_accepted_offer v = Inr reply" "formal_turn reply TO_OFFER_ACCEPTED v = Inr t"
      using assms(2,3) by (auto simp: terminal_turn_def result_simps)
    obtain t' where t': "formal_reply render_accepted_offer TO_OFFER_ACCEPTED ?dn v = Inr t'" "tr_outcome t' = tr_outcome t"
      "tr_offer_id t' = tr_offer_id t" using formal_turn_reply [OF render_accepted_eq True t(2,3)] by blast
    then have "execute_accept E cx ?dn (Some oid) d = Inr (t', d1)" by (simp add: run)
    from execute_accept_committed [OF this assms(4)] t(1) t' side show ?thesis
      by (simp add: tool_done_def committed_cong [of t' t])
  qed
qed

lemma approval_call:
  assumes "request_approval_tool E cx oid reason d = Inr (v, d1)" and "terminal_turn c v = Inr turn"
    and "tk_name c = ''request_approval''" and "jget (tk_args c) ''offer_id'' = JInt oid" and "legacy_inv d" and "ids_positive d"
  shows "tool_done cx (Some oid) turn d d1"
proof -
  let ?dn = "as_decision (Some oid) \<lparr>ta_price = 0, ta_payer = BuyerPays, ta_cost = None, ta_discount = 0, ta_terms = []\<rparr> reason"
  have run: "execute_approval E cx ?dn (Some oid) d = Inr (approval_reply ?dn v, d1)"
    using assms(1) by (simp add: execute_approval_def as_decision_def)
  note sound = execute_approval_committed [OF run assms(5,6)] and side = request_tool_aside [OF assms(1)]
  show ?thesis
  proof (cases "is_success v")
    case False
    then have "tr_outcome (approval_reply ?dn v) \<noteq> TO_NEEDS_SELLER_CONFIRMATION"
      by (simp add: approval_reply_def safe_failure_def turn_failure_def)
    with sound have "d1 = d" by simp
    with False assms(2) show ?thesis by (simp add: terminal_turn_def)
  next
    case True
    with assms(2-4) have "valid_approval_result v (Some oid)" and turn: "turn = Some \<lparr>tr_reply = ''submitted to the seller, not accepted yet'',
        tr_outcome = TO_NEEDS_SELLER_CONFIRMATION, tr_decision = None, tr_offer_id = None\<rparr>"
      by (auto simp: terminal_turn_def split: if_splits)
    with True have "tr_outcome (approval_reply ?dn v) = TO_NEEDS_SELLER_CONFIRMATION" "tr_offer_id (approval_reply ?dn v) = None"
      by (simp_all add: approval_reply_def as_decision_def)
    with sound side turn show ?thesis by (simp add: tool_done_def committed_def)
  qed
qed

section \<open>Every call\<close>

lemma run_tool_done:
  assumes "run_tool A (tool_cx rt) (tk_name c) (tk_args c) d = Inr (v, d1)" and "terminal_turn c v = Inr turn"
    and current: "tk_name c \<in> {''accept_offer'', ''request_approval''} \<Longrightarrow> jget (tk_args c) ''offer_id'' = jopt JInt oid"
    and inv: "legacy_inv d" "ids_positive d"
  shows "tool_done (tool_cx rt) oid turn d d1"
proof -
  have next_offer: "0 < d_next_offer d" using inv(2) by (simp add: ids_positive_def)
  have current_id: "oid = Some k" if "jopt JInt oid = JInt k" for k using that by (cases oid) (simp_all add: jopt_def)
  consider (read) "d1 = d" "tk_name c \<notin> {''submit_counter_offer'', ''accept_offer'', ''request_approval''}"
    | (counter) a where "tk_name c = ''submit_counter_offer''" "submit_counter_offer_tool A (tool_cx rt) a d = Inr (v, d1)"
    | (accept) k where "tk_name c = ''accept_offer''" "jget (tk_args c) ''offer_id'' = JInt k" "accept_offer_tool A (tool_cx rt) k d = Inr (v, d1)"
    | (approval) k reason where "tk_name c = ''request_approval''" "jget (tk_args c) ''offer_id'' = JInt k"
        "request_approval_tool A (tool_cx rt) k reason d = Inr (v, d1)"
    using assms(1) unfolding run_tool_def read_only_def
    by (elim if_InrE ebind_InrE prod_InrE Inr_pairE) (auto simp: int_field_def split: json.splits)
  then show ?thesis
  proof cases
    case read
    with assms(2) show ?thesis by (simp add: terminal_turn_def split: if_splits)
  next
    case counter
    from counter_call [OF counter(2) assms(2) counter(1) inv(1) next_offer] show ?thesis .
  next
    case accept
    with current current_id have "oid = Some k" by simp
    with accept_call [OF accept(3) assms(2) accept(1) inv(1)] show ?thesis by simp
  next
    case approval
    with current current_id have "oid = Some k" by simp
    with approval_call [OF approval(3) assms(2) approval(1,2) inv] show ?thesis by simp
  qed
qed

lemma apply_reviewed_done:
  assumes "apply_reviewed A cx q dn reviewed d = Inr (t, d1)" and "legacy_inv d" "ids_positive d"
  shows "tool_done cx (dq_offer_id q) (Some t) d d1"
proof -
  consider x where "execute_decision A cx x (dq_product q) (dq_offer_id q) d = Inr (t, d1)"
    | "d1 = d" "tr_offer_id t = None" "tr_outcome t \<notin> {TO_COUNTER_OFFERED, TO_OFFER_ACCEPTED, TO_NEEDS_SELLER_CONFIRMATION}"
    using assms(1) unfolding apply_reviewed_def
    by (elim ebind_InrE option_InrE prod_InrE if_InrE)
      (auto simp: safe_failure_def turn_failure_def split: json.splits if_splits option.splits)
  then show ?thesis
  proof cases
    case 1
    with execute_committed [OF 1 assms(2,3)] execute_aside [OF 1] show ?thesis by (simp add: tool_done_def)
  next
    case 2
    then show ?thesis by (auto simp: tool_done_def intro: committed_same)
  qed
qed

lemma tool_effect_done:
  assumes "tool_effect_of E rt A rs c err cp d = (Inr te, cp1)" and "legacy_inv d" "ids_positive d"
  shows "tool_done (tool_cx rt) (dq_offer_id (rt_request rt)) (te_turn te) d (te_db te)"
proof -
  consider (nothing) "te_db te = d" "te_turn te = None"
    | (finish) dn reviewed t where "apply_reviewed A (tool_cx rt) (rt_request rt) dn reviewed d = Inr (t, te_db te)" "te_turn te = Some t"
    | (tool) v where "run_tool A (tool_cx rt) (tk_name c) (tk_args c) d = Inr (v, te_db te)" "terminal_turn c v = Inr (te_turn te)"
        "tk_name c \<in> {''accept_offer'', ''request_approval''} \<longrightarrow> jget (tk_args c) ''offer_id'' = jopt JInt (dq_offer_id (rt_request rt))"
    using assms(1) unfolding tool_effect_of_def finish_effect_def
    by (auto simp: case_prod_beta ebind_eq_Inr split: if_splits sum.splits)
  then show ?thesis
    by cases (use assms(2,3) in \<open>auto intro: apply_reviewed_done run_tool_done\<close>)
qed

lemma attempt_tool_done:
  assumes "attempt_tool E rt A rs c err cp d = Inr (te, cp1)" and "legacy_inv d" "ids_positive d"
  shows "tool_done (tool_cx rt) (dq_offer_id (rt_request rt)) (te_turn te) d (te_db te)"
  using assms tool_effect_done by (auto simp: attempt_tool_def split: prod.splits sum.splits if_splits)

section \<open>The end of a run\<close>

definition bookkeeping :: "db \<Rightarrow> db \<Rightarrow> bool" where
  \<comment> \<open>only the row of the task and the transcript change\<close>
  "bookkeeping d d' \<longleftrightarrow> business_same d d' \<and> d_messages d' = d_messages d \<and> d_next_message d' = d_next_message d"

lemma bookkeeping_refl [simp]: "bookkeeping d d"
  by (simp add: bookkeeping_def)

lemma bookkeeping_trans: "bookkeeping d e \<Longrightarrow> bookkeeping e f \<Longrightarrow> bookkeeping d f"
  by (auto simp: bookkeeping_def intro: business_same_trans)

lemma put_checkpoint_books:
  assumes "put_checkpoint E rt cp now w = Inr (u, w')"
  shows "bookkeeping (wd_db w) (wd_db w')"
proof -
  from assms obtain t' r d' where "flush_task (t_id (rt_task rt)) t' (wd_db w) = Inr (r, d')" and "w' = w\<lparr>wd_db := d'\<rparr>"
    unfolding put_checkpoint_def update_checkpoint_def by (elim ebind_InrE prod_InrE Inr_pairE) simp
  then show ?thesis using flush_business by (auto simp: bookkeeping_def flush_task_eq_Inr)
qed

lemma tool_result_books:
  assumes "tool_result E rt c v cp now w = Inr (cp2, w2)"
  shows "bookkeeping (wd_db w) (wd_db w2)"
  using assms unfolding tool_result_def Let_def
  by (elim ebind_InrE prod_InrE Inr_pairE) (auto dest: put_checkpoint_books)

lemma close_calls_books: "close_calls E rt reason cs cp now w = Inr (cp2, w2) \<Longrightarrow> bookkeeping (wd_db w) (wd_db w2)"
proof (induction cs arbitrary: cp w)
  case (Cons c cs)
  from Cons.prems obtain cp1 w1 where "tool_result E rt c (JObj [(''ok'', JBool False), (''error'', JObj [(''code'', JStr reason)])]) cp now w
      = Inr (cp1, w1)" and "close_calls E rt reason cs cp1 now w1 = Inr (cp2, w2)"
    unfolding close_calls.simps by (elim ebind_InrE prod_InrE) simp
  with Cons.IH tool_result_books show ?case by (blast intro: bookkeeping_trans)
qed simp

definition run_ended :: "runtime \<Rightarrow> string option \<Rightarrow> turn_result \<Rightarrow> chat_turn \<Rightarrow> db \<Rightarrow> db \<Rightarrow> bool" where
  \<comment> \<open>the reply is stored and the task ended together, and nothing else is written\<close>
  "run_ended rt stale t turn d d' \<longleftrightarrow>
     reply_stored d' (t_session_id (rt_task rt)) (rt_reply_key rt) turn \<and> message_by_request_id d (t_session_id (rt_task rt)) (rt_reply_key rt) = None
     \<and> business_same d d' \<and> d_messages d' = d_messages d @ [(d_next_message d, ct_agent turn)]
     \<and> ct_buyer turn = pt_buyer (rt_pending rt) \<and> ct_outcome turn = turn_outcome_text (tr_outcome t) \<and> ct_offer_id turn = tr_offer_id t
     \<and> (\<exists>t'. get_task d' (t_id (rt_task rt)) = Some t' \<and> t_status t' = (if stale = None then T_SUCCEEDED else T_STALE))"

lemma finish_run_ended:
  assumes "finish_run E rt stale t m reason cp clock w = Inr ((turn, cp1), w')"
  shows "run_ended rt stale t turn (wd_db w) (wd_db w')"
proof -
  from assms obtain d x1 w1 where
    p: "persist_result (t_session_id (rt_task rt)) (pt_buyer (rt_pending rt)) (rt_reply_key rt) t (pt_replay (rt_pending rt)) (wd_db w) = Inr (turn, d)"
    and c: "put_checkpoint E rt cp1 (fst clock) (w\<lparr>wd_db := d, wd_tx := x1\<rparr>) = Inr ((), w1)"
    and e: "end_task E rt stale reason (snd clock) w1 = Inr ((), w')"
    unfolding finish_run_def Let_def by (elim ebind_InrE prod_InrE Inr_pairE) simp
  have moved: "task_moved (t_id (rt_task rt)) (if stale = None then T_SUCCEEDED else T_STALE) (wd_db w1) (wd_db w')"
    using e unfolding end_task_def
    by (elim option_InrE ebind_InrE prod_InrE Inr_pairE) (auto dest: stale_moved complete_success_moved)
  note stored = persist_result_stored [OF p] and books = put_checkpoint_books [OF c]
  have "d_messages (wd_db w') = d_messages d" and same: "business_same d (wd_db w')"
    using moved books by (auto simp: task_moved_def bookkeeping_def intro: business_same_trans)
  moreover from this(1) have "reply_stored (wd_db w') = reply_stored d" by (rule reply_stored_cong)
  ultimately show ?thesis
    using stored moved business_same_trans [OF stored(2) same] by (simp add: run_ended_def task_moved_def)
qed

lemma run_ended_books: "bookkeeping d e \<Longrightarrow> run_ended rt stale t turn e d' \<Longrightarrow> run_ended rt stale t turn d d'"
  using message_by_request_cong [of e d] by (auto simp: run_ended_def bookkeeping_def intro: business_same_trans)

lemma stop_run_ended:
  assumes "stop_run E rt stale reason cp now w = Inr ((turn, cp1), w')"
  shows "run_ended rt stale (turn_failure ''cannot be handled safely now, please try later'' None) turn (wd_db w) (wd_db w')"
proof -
  from assms obtain cp2 w1 where "close_calls E rt reason (rk_pending cp) cp (now 1) w = Inr (cp2, w1)"
    and "finish_run E rt stale (turn_failure ''cannot be handled safely now, please try later'' None) None reason cp2 (now 2, now 3) w1
      = Inr ((turn, cp1), w')"
    unfolding stop_run_def by (elim ebind_InrE prod_InrE) simp
  from close_calls_books [OF this(1)] finish_run_ended [OF this(2)] show ?thesis by (rule run_ended_books)
qed

definition call_answered :: "runtime \<Rightarrow> task \<Rightarrow> chat_turn option \<Rightarrow> string option \<Rightarrow> db \<Rightarrow> db \<Rightarrow> bool" where
  \<comment> \<open>the specification of a tool call\<close>
  "call_answered rt t answer stale d d' \<longleftrightarrow>
     (case (stale, answer) of
        (Some why, Some turn) \<Rightarrow>
          \<not> question_stands d t \<and> (\<exists>f. tr_outcome f = TO_SAFE_FAILURE \<and> tr_offer_id f = None \<and> run_ended rt stale f turn d d')
      | (None, Some turn) \<Rightarrow>
          question_stands d t \<and> (\<exists>r d1. committed (tool_cx rt) (dq_offer_id (rt_request rt)) r d d1 \<and> aside d d1 \<and> run_ended rt stale r turn d1 d')
      | (None, None) \<Rightarrow> question_stands d t \<and> bookkeeping d d'
      | (Some why, None) \<Rightarrow> False)"

lemma execute_body_answered:
  assumes "execute_body E rt A c err cp now w = Inr ((answer, stale, cp1), w')" and inv: "legacy_inv (wd_db w)" "ids_positive (wd_db w)"
  obtains t where "active_task rt (now 0) w = Inr t" and "keeps (wd_db w) (wd_db w')"
    and "call_answered rt t answer stale (wd_db w) (wd_db w')"
proof -
  from assms(1) obtain t stale' where t: "active_task rt (now 0) w = Inr t" and q: "chat_stale_reason (wd_db w) t = Inr stale'"
    and rest: "(if stale' \<noteq> None then
       ebind (stop_run E rt stale' ''BUSINESS_STATE_CHANGED'' cp now w) (\<lambda>((turn, cp1), w1). Inr ((Some turn, stale', cp1), w1))
     else
       ebind (attempt_tool E rt A (stream_records rt (rk_branch cp) w) c err cp (wd_db w)) (\<lambda>(te, cp1).
       ebind (tool_result E rt c (te_value te) cp1 (now 1) (w\<lparr>wd_db := te_db te\<rparr>)) (\<lambda>(cp2, w2).
       case te_turn te of
         None \<Rightarrow> Inr ((None, stale', cp2), w2)
       | Some r \<Rightarrow>
           ebind (finish_run E rt stale' r (te_memory te) ''COMPLETED'' cp2 (now 2, now 3) w2) (\<lambda>((turn, cp3), w3).
           Inr ((Some turn, stale', cp3), w3))))) = Inr ((answer, stale, cp1), w')"
    unfolding execute_body_def by (elim ebind_InrE)
  show thesis
  proof (cases stale')
    case (Some why)
    with rest obtain turn where r: "answer = Some turn" "stale = stale'"
      and s: "stop_run E rt stale' ''BUSINESS_STATE_CHANGED'' cp now w = Inr ((turn, cp1), w')"
      by (auto simp: ebind_eq_Inr)
    note ended = stop_run_ended [OF s]
    have "\<not> question_stands (wd_db w) t" using q Some chat_fresh [of "wd_db w" t] by simp
    with ended r Some have "call_answered rt t answer stale (wd_db w) (wd_db w')"
      by (simp add: call_answered_def) (rule exI [of _ "turn_failure ''cannot be handled safely now, please try later'' None"], simp add: turn_failure_def)
    moreover have "keeps (wd_db w) (wd_db w')"
      using ended business_same_keeps [OF keeps_refl] by (simp add: run_ended_def)
    ultimately show thesis using t that by blast
  next
    case None
    with q chat_fresh have fresh: "question_stands (wd_db w) t" by blast
    from rest None obtain te cp0 cp2 w2 where a: "attempt_tool E rt A (stream_records rt (rk_branch cp) w) c err cp (wd_db w) = Inr (te, cp0)"
      and v: "tool_result E rt c (te_value te) cp0 (now 1) (w\<lparr>wd_db := te_db te\<rparr>) = Inr (cp2, w2)"
      and f: "te_turn te = None \<and> answer = None \<and> stale = None \<and> w' = w2
        \<or> (\<exists>r turn. te_turn te = Some r \<and> answer = Some turn \<and> stale = None
             \<and> finish_run E rt None r (te_memory te) ''COMPLETED'' cp2 (now 2, now 3) w2 = Inr ((turn, cp1), w'))"
      by (auto simp: ebind_eq_Inr split: option.splits)
    note tool = attempt_tool_done [OF a inv, unfolded tool_done_def] and books = tool_result_books [OF v, simplified]
    from f show thesis
    proof
      assume n: "te_turn te = None \<and> answer = None \<and> stale = None \<and> w' = w2"
      with tool books have "bookkeeping (wd_db w) (wd_db w')" by simp
      moreover from this have "keeps (wd_db w) (wd_db w')" using business_same_keeps [OF keeps_refl] by (simp add: bookkeeping_def)
      ultimately show thesis using t n fresh that by (simp add: call_answered_def)
    next
      assume "\<exists>r turn. te_turn te = Some r \<and> answer = Some turn \<and> stale = None
             \<and> finish_run E rt None r (te_memory te) ''COMPLETED'' cp2 (now 2, now 3) w2 = Inr ((turn, cp1), w')"
      then obtain r turn where r: "te_turn te = Some r" "answer = Some turn" "stale = None"
        and fin: "finish_run E rt None r (te_memory te) ''COMPLETED'' cp2 (now 2, now 3) w2 = Inr ((turn, cp1), w')" by blast
      have ended: "run_ended rt None r turn (te_db te) (wd_db w')" using books finish_run_ended [OF fin] by (rule run_ended_books)
      then have "keeps (wd_db w) (wd_db w')" using tool business_same_keeps by (auto simp: run_ended_def)
      with ended tool r t fresh that show thesis by (auto simp: call_answered_def)
    qed
  qed
qed

definition seen_db :: "runtime_env \<Rightarrow> run_state \<Rightarrow> db" where
  \<comment> \<open>what the next transaction of the run finds\<close>
  "seen_db E s = wd_db (ev_others E (rn_tick s) (rn_world s))"

text \<open>
  C13: Whatever tool the language model of the runtime V4 calls, with whatever arguments, the call runs under an unexpired
  lease of the task and on the facts the model was shown, or it ends the run. If the negotiation, the rules, the current
  offer or the product have changed, nothing but a reply without commitment is stored and the task becomes stale. Otherwise
  the call either writes nothing to the business tables, or it takes an authorised action of the agent (a counter offer or
  an acceptance at or above the seller's threshold, the acceptance and a question to the seller for the current offer only),
  stores the one reply that announces it and ends the task, all in one transaction. The invariants are kept.
\<close>

theorem runtime_call_sound:
  assumes "execute_call E rt c err s = (Inr answer, s')" and "legacy_inv (seen_db E s)" and "ids_positive (seen_db E s)"
  shows "\<exists>t. leased_task (seen_db E s) (t_id (rt_task rt)) (rt_token rt) (ev_now E (rn_tick s)) = Inr t
    \<and> legacy_inv (wd_db (rn_world s'))
    \<and> call_answered rt t answer (rn_stale s') (seen_db E s) (wd_db (rn_world s'))"
proof -
  let ?w = "ev_others E (rn_tick s) (rn_world s)" and ?now = "\<lambda>k. ev_now E (rn_tick s + k)"
  obtain a s1 where m: "transact E (execute_body E rt (ev_agent E (rn_tick s)) c err (rn_cp s)) s = (a, s1)" by fastforce
  with assms(1) obtain stale cp where a: "a = Inr (answer, stale, cp)" and s': "s' = s1\<lparr>rn_cp := cp, rn_stale := stale\<rparr>"
    by (auto simp: execute_call_def bind_step_def split: sum.splits)
  have body: "execute_body E rt (ev_agent E (rn_tick s)) c err (rn_cp s) ?now ?w = Inr ((answer, stale, cp), rn_world s1)"
    using m unfolding a by (auto simp: transact_def Let_def split: sum.splits)
  from assms(2,3) have "legacy_inv (wd_db ?w)" "ids_positive (wd_db ?w)" by (simp_all add: seen_db_def)
  with body obtain t where "active_task rt (?now 0) ?w = Inr t" "keeps (wd_db ?w) (wd_db (rn_world s1))"
    "call_answered rt t answer stale (wd_db ?w) (wd_db (rn_world s1))" by (rule execute_body_answered)
  with assms(2) show ?thesis by (auto simp: s' seen_db_def active_task_def keeps_def)
qed

definition sample_runtime_env :: runtime_env where
  "sample_runtime_env = \<lparr>ev_now = (\<lambda>_. 12), ev_answer = (\<lambda>_ _ _ _. Inl TimeoutFailure), ev_others = (\<lambda>_ w. w), ev_parse = (\<lambda>_. None),
     ev_schema = (\<lambda>_. None), ev_unsafe = (\<lambda>_. None), ev_agent = (\<lambda>_. sample_env), ev_digest = (\<lambda>s. s), ev_hash = (\<lambda>_. ''h''),
     ev_lease = 60\<rparr>"

lemma sample_times [simp]: "ev_now sample_runtime_env k = 12" "ev_others sample_runtime_env k w = w" "ev_agent sample_runtime_env k = sample_env"
  by (simp_all add: sample_runtime_env_def)

definition sample_runtime :: runtime where
  "sample_runtime = \<lparr>rt_config = sample_agent_config 16000, rt_task = sample_leased_task, rt_token = ''lease'', rt_pending = sample_pending,
     rt_buyer = ''buyer'', rt_request = sample_chat_request, rt_reply_key = reply_request_id ''request1'', rt_cur = 1, rt_high = 1,
     rt_initial = \<lparr>ix_summary = [], ix_covered = 0, ix_sources = [], ix_memory = None, ix_memory_covered = 0, ix_version = 1\<rparr>\<rparr>"

definition sample_run_state :: run_state where
  "sample_run_state = \<lparr>rn_world = \<lparr>wd_db = sample_chat_db [sample_leased_task] [sample_question],
       wd_tx = \<lparr>tx_rows = [], tx_next = 1, tx_contexts = [], tx_sources = []\<rparr>, wd_calls = [], wd_next_call = 1\<rparr>,
     rn_cp = fresh_checkpoint 12, rn_context = sample_window, rn_tick = 0, rn_stale = None, rn_sent = []\<rparr>"

definition sample_tool_call :: tool_call where
  "sample_tool_call = \<lparr>tk_id = ''c1'', tk_name = ''get_product_info'', tk_args = JObj []\<rparr>"

lemma sample_lease_held: "leased_task (sample_chat_db [sample_leased_task] ms) 1 ''lease'' 12 = Inr sample_leased_task"
  by (simp add: leased_task_def locked_task_def active_lease_def sample_chat_rows sample_task_fields seconds_def)

lemma sample_put_checkpoint:
  assumes "jok (checkpoint_json cp)" and "wd_db w = sample_chat_db [sample_leased_task] ms"
  shows "\<exists>w'. put_checkpoint sample_runtime_env sample_runtime cp 12 w = Inr ((), w')"
proof -
  have "json_object (ev_hash sample_runtime_env) (checkpoint_json cp) = Inr (checkpoint_json cp, ''h'')"
    using assms(1) by (simp add: json_object_def checkpoint_json_def sample_runtime_env_def)
  then show ?thesis using sample_task_fields(10)
    by (simp add: put_checkpoint_def update_checkpoint_def sample_runtime_def assms(2) sample_lease_held sample_task_fields
        flush_task_def task_checks_def sample_chat_rows trows_def)
qed

lemma sample_product_info:
  "get_product_info \<lparr>tc_session = 1, tc_buyer = ''buyer'', tc_offer = None\<rparr> (sample_chat_db ts ms) = Inr sample_product_json"
  by (simp add: get_product_info_def tool_read_def get_for_negotiation_def sample_chat_rows product_result_def sample_product_json_def
      public_snapshot_def)

lemma sample_call_answer:
  "\<exists>s'. execute_call sample_runtime_env sample_runtime sample_tool_call None sample_run_state = (Inr None, s')"
proof -
  let ?w = "rn_world sample_run_state" and ?rs = "stream_records sample_runtime (rk_branch (rn_cp sample_run_state)) (rn_world sample_run_state)"
  have w: "wd_db ?w = sample_chat_db [sample_leased_task] [sample_question]" by (simp add: sample_run_state_def)
  then have same: "?w\<lparr>wd_db := sample_chat_db [sample_leased_task] [sample_question]\<rparr> = ?w" by simp
  have active: "active_task sample_runtime 12 ?w = Inr sample_leased_task"
    by (simp add: active_task_def w sample_runtime_def sample_task_fields sample_lease_held)
  have "tool_effect_of sample_runtime_env sample_runtime sample_env ?rs sample_tool_call None (rn_cp sample_run_state) (wd_db ?w)
      = (Inr \<lparr>te_value = sample_product_json, te_turn = None, te_memory = None, te_db = wd_db ?w\<rparr>, rn_cp sample_run_state)"
    by (simp add: tool_effect_of_def sample_tool_call_def run_tool_def read_only_def w tool_cx_def sample_runtime_def sample_task_fields
        sample_chat_request_def sample_product_info terminal_turn_def)
  then have tool: "attempt_tool sample_runtime_env sample_runtime sample_env ?rs sample_tool_call None (rn_cp sample_run_state) (wd_db ?w)
      = Inr (\<lparr>te_value = sample_product_json, te_turn = None, te_memory = None, te_db = wd_db ?w\<rparr>, rn_cp sample_run_state)"
    by (simp add: attempt_tool_def)
  obtain row tx where row: "append_entry (result_entry sample_runtime sample_tool_call sample_product_json (rn_cp sample_run_state)) (wd_tx ?w) = Inr (row, tx)"
    by (simp add: append_entry_def context_of_session_def row_of_key_def sample_run_state_def tadd_ignore_def tadd_def Let_def trows_def)
  have facts: "ac_memory_enabled (rt_config sample_runtime)" "working_memory sample_runtime (rn_cp sample_run_state) = None"
    "rk_pending (rn_cp sample_run_state) = []" "\<not> remembered_tool (tk_name sample_tool_call)"
    by (simp_all add: sample_runtime_def sample_agent_config_def working_memory_def sample_run_state_def fresh_checkpoint_def sample_tool_call_def
        remembered_tool_def)
  have "jok (checkpoint_json ((rn_cp sample_run_state)\<lparr>rk_memory := Some None, rk_pending := []\<rparr>))"
    by (simp add: sample_run_state_def fresh_checkpoint_def checkpoint_json_def optional_def jopt_def memory_json_def)
  from sample_put_checkpoint [OF this, of "?w\<lparr>wd_tx := tx\<rparr>"] obtain w'
    where put: "put_checkpoint sample_runtime_env sample_runtime ((rn_cp sample_run_state)\<lparr>rk_memory := Some None, rk_pending := []\<rparr>) 12
      (?w\<lparr>wd_tx := tx\<rparr>) = Inr ((), w')" by (auto simp: w)
  have "tool_result sample_runtime_env sample_runtime sample_tool_call sample_product_json (rn_cp sample_run_state) 12 ?w
      = Inr ((rn_cp sample_run_state)\<lparr>rk_memory := Some None, rk_pending := []\<rparr>, w')"
    using put by (simp add: tool_result_def row record_tool_def facts Let_def)
  then have "execute_body sample_runtime_env sample_runtime sample_env sample_tool_call None (rn_cp sample_run_state) (\<lambda>k. 12) ?w
      = Inr ((None, None, (rn_cp sample_run_state)\<lparr>rk_memory := Some None, rk_pending := []\<rparr>), w')"
    by (simp add: execute_body_def active w sample_question_fresh tool [unfolded w] same)
  then show ?thesis
    by (simp add: execute_call_def bind_step_def transact_def Let_def)
qed

lemma runtime_call_sound_witness:
  "\<exists>s'. execute_call sample_runtime_env sample_runtime sample_tool_call None sample_run_state = (Inr None, s')
     \<and> legacy_inv (wd_db (rn_world s')) \<and> bookkeeping (seen_db sample_runtime_env sample_run_state) (wd_db (rn_world s'))
     \<and> question_stands (sample_chat_db [sample_leased_task] [sample_question]) sample_leased_task"
proof -
  obtain s' where run: "execute_call sample_runtime_env sample_runtime sample_tool_call None sample_run_state = (Inr None, s')"
    using sample_call_answer by blast
  have seen: "seen_db sample_runtime_env sample_run_state = sample_chat_db [sample_leased_task] [sample_question]"
    by (simp add: seen_db_def sample_run_state_def)
  have "legacy_inv (seen_db sample_runtime_env sample_run_state)" "ids_positive (seen_db sample_runtime_env sample_run_state)"
    unfolding seen by (rule sample_chat_inv)+
  from runtime_call_sound [OF run this] have "legacy_inv (wd_db (rn_world s'))"
    "bookkeeping (seen_db sample_runtime_env sample_run_state) (wd_db (rn_world s'))"
    by (auto simp: call_answered_def split: option.splits)
  moreover have "question_stands (sample_chat_db [sample_leased_task] [sample_question]) sample_leased_task"
    using sample_question_fresh chat_fresh by blast
  ultimately show ?thesis using run by blast
qed

end
