(* ===== verification/Runtime_Spec.thy ===== *)
theory Runtime_Spec
  imports Runtime_Loop Runtime_Tools
begin

text \<open>
  What a run of the runtime V4 guarantees. Its budget: the calls made, the tokens reserved for them and their price never
  exceed the limits of the configuration, whatever the model answers and whatever others do to the database meanwhile; and
  it ends.
\<close>

section \<open>What a run has spent\<close>

definition spent :: "checkpoint \<Rightarrow> int \<times> int \<times> int \<times> int \<times> int" where
  "spent c = (rk_calls c, rk_tools c, rk_maintenance c, rk_tokens c, rk_cost c)"

lemma tool_effect_spent: "spent (snd (tool_effect_of E rt A rs c err cp d)) = spent cp"
proof -
  have "spent (snd (finish_memory rt rs plan cp)) = spent cp" for plan
    by (simp add: finish_memory_def memory_failed_def spent_def Let_def split: sum.split)
  then show ?thesis by (simp add: tool_effect_of_def finish_effect_def case_prod_beta split: sum.split)
qed

lemma attempt_tool_spent: "attempt_tool E rt A rs c err cp d = Inr (te, cp1) \<Longrightarrow> spent cp1 = spent cp"
  using tool_effect_spent [of E rt A rs c err cp d]
  by (auto simp: attempt_tool_def split: prod.splits sum.splits if_splits)

lemma tool_result_spent: "tool_result E rt c v cp now w = Inr (cp2, w2) \<Longrightarrow> spent cp2 = spent cp"
  by (elim tool_result_Inr) (simp add: spent_def)

lemma close_calls_spent: "close_calls E rt reason cs cp now w = Inr (cp2, w2) \<Longrightarrow> spent cp2 = spent cp"
proof (induction cs arbitrary: cp w)
  case (Cons c cs)
  from Cons.prems show ?case
    unfolding close_calls.simps by (elim ebind_InrE prod_InrE) (metis Cons.IH tool_result_spent)
qed simp

lemma finish_run_cp:
  assumes "finish_run E rt stale t m reason cp clock w = Inr ((turn, cp1), w1)"
  shows "cp1 = cp\<lparr>rk_terminal := Some (formal_commitment t), rk_stop := Some reason, rk_pending := []\<rparr>"
  using assms unfolding finish_run_def Let_def by (elim ebind_InrE prod_InrE Inr_pairE) simp

lemma finish_run_spent: "finish_run E rt stale t m reason cp clock w = Inr ((turn, cp1), w1) \<Longrightarrow> spent cp1 = spent cp"
  by (drule finish_run_cp) (simp add: spent_def)

lemma stop_run_spent:
  assumes "stop_run E rt stale reason cp now w = Inr ((turn, cp1), w1)"
  shows "spent cp1 = spent cp"
  using assms unfolding stop_run_def by (elim ebind_InrE prod_InrE) (simp add: finish_run_spent close_calls_spent)

lemma execute_body_spent:
  assumes "execute_body E rt A c err cp now w = Inr ((turn, stale, cp1), w1)"
  shows "spent cp1 = spent cp"
  using assms unfolding execute_body_def
  by (elim ebind_InrE prod_InrE if_InrE option_InrE Inr_pairE)
    (auto dest!: stop_run_spent attempt_tool_spent tool_result_spent finish_run_spent)

section \<open>Relations on the whole loop\<close>

lemma transact_leaves: "transact E body s = (r, s') \<Longrightarrow> rn_cp s' = rn_cp s \<and> rn_sent s' = rn_sent s"
  by (auto simp: transact_def Let_def split: sum.splits)

locale loop_relation = run_relation +
  assumes R_spent: "spent (rn_cp s') = spent (rn_cp s) \<Longrightarrow> rn_sent s' = rn_sent s \<Longrightarrow> R s s'"
begin

lemma moves_spent: "(\<And>s r s'. m s = (r, s') \<Longrightarrow> spent (rn_cp s') = spent (rn_cp s) \<and> rn_sent s' = rn_sent s) \<Longrightarrow> moves R m"
  by (auto intro!: movesI R_spent)

lemma moves_cp: "(\<And>c. spent (f c) = spent c) \<Longrightarrow> moves R (update_cp f)"
  by (rule moves_spent) (auto simp: update_cp_def)

lemma moves_stop: "moves R (stop E rt reason)"
proof (rule moves_spent)
  fix s r s' assume step: "stop E rt reason s = (r, s')"
  let ?m = "transact E (\<lambda>now w. ebind (active_task rt (now 0) w) (\<lambda>_. stop_run E rt (rn_stale s) reason (rn_cp s) now w))"
  obtain a s1 where m: "?m s = (a, s1)" by fastforce
  show "spent (rn_cp s') = spent (rn_cp s) \<and> rn_sent s' = rn_sent s"
  proof (cases a)
    case (Inl e)
    with m step have "s' = s1" by (auto simp: stop_def bind_step_def)
    with transact_leaves [OF m] show ?thesis by simp
  next
    case (Inr x)
    then obtain turn cp where x: "a = Inr (turn, cp)" by (cases x) auto
    with m step have s': "s' = s1\<lparr>rn_cp := cp\<rparr>" by (auto simp: stop_def bind_step_def)
    from m x obtain w' where "ebind (active_task rt (ev_now E (rn_tick s)) (ev_others E (rn_tick s) (rn_world s)))
        (\<lambda>_. stop_run E rt (rn_stale s) reason (rn_cp s) (\<lambda>k. ev_now E (rn_tick s + k)) (ev_others E (rn_tick s) (rn_world s)))
        = Inr ((turn, cp), w')" by (auto elim: transact_Inr)
    then have "spent cp = spent (rn_cp s)" by (elim ebind_InrE) (rule stop_run_spent)
    with s' transact_leaves [OF m] show ?thesis by simp
  qed
qed

lemma moves_execute_call: "moves R (execute_call E rt c err)"
proof (rule moves_spent)
  fix s r s' assume step: "execute_call E rt c err s = (r, s')"
  let ?m = "transact E (execute_body E rt (ev_agent E (rn_tick s)) c err (rn_cp s))"
  obtain a s1 where m: "?m s = (a, s1)" by fastforce
  show "spent (rn_cp s') = spent (rn_cp s) \<and> rn_sent s' = rn_sent s"
  proof (cases a)
    case (Inl e)
    with m step have "s' = s1" by (auto simp: execute_call_def bind_step_def)
    with transact_leaves [OF m] show ?thesis by simp
  next
    case (Inr x)
    then obtain turn stale cp where x: "a = Inr (turn, stale, cp)" by (cases x) auto
    with m step have s': "s' = s1\<lparr>rn_cp := cp, rn_stale := stale\<rparr>" by (auto simp: execute_call_def bind_step_def)
    from m x have "spent cp = spent (rn_cp s)" by (auto elim!: transact_Inr execute_body_spent)
    with s' transact_leaves [OF m] show ?thesis by simp
  qed
qed

lemma moves_save_step: "moves R (save_step E rt kind m rest)"
  by (rule moves_same) (auto simp: save_step_def dest!: transact_leaves)

lemma moves_reject_response: "moves R (reject_response E rt issue r)"
  unfolding reject_response_def
  by (intro moves_then moves_cp moves_save_step moves_ret) (simp add: spent_def next_step_def)

lemma moves_accept_response: "moves R (accept_response E rt p rs invalid m calls r rest)"
proof (rule movesI)
  fix s x s' assume step: "accept_response E rt p rs invalid m calls r rest s = (x, s')"
  let ?s1 = "if calls = [] \<and> rk_repair (rn_cp s) then s\<lparr>rn_cp := (rn_cp s)\<lparr>rk_json_required := True\<rparr>\<rparr> else s"
  have s1: "R s ?s1" by (intro R_spent) (auto simp: spent_def)
  have "moves R (then_step (update_cp (\<lambda>c. (next_step c)\<lparr>rk_pending := calls, rk_batch_error := b, rk_repair := k\<rparr>))
      (then_step (save_step E rt kind m rest) (ret z)))" for b k kind z
    by (intro moves_then moves_cp moves_save_step moves_ret) (simp add: spent_def next_step_def)
  note accept = movesD [OF this]
  show "R s s'"
  proof (cases "calls = [] \<and> rk_repair (rn_cp s) \<and> \<not> ac_structured_finish (rt_config rt)")
    case True
    with step have "stop E rt ''STRUCTURED_ENDING_REQUIRED'' s = (x, s')" by (simp add: accept_response_def)
    then show ?thesis by (rule movesD [OF moves_stop])
  next
    case False
    note rest = step [unfolded accept_response_def Let_def if_not_P [OF False]]
    show ?thesis
    proof (cases "protocol_issue p rs invalid calls")
      case None
      with rest show ?thesis by (simp only: option.case) (rule R_trans [OF s1 accept])
    next
      case (Some issue)
      with rest show ?thesis by (simp only: option.case) (rule R_trans [OF s1 movesD [OF moves_reject_response]])
    qed
  qed
qed

lemma moves_handle_response: "moves R (handle_response E rt p rs r)"
  by (rule movesI)
    (auto simp: handle_response_def Let_def split: if_splits sum.splits intro: R_same
      dest: movesD [OF moves_accept_response] movesD [OF moves_reject_response])

lemma moves_ask_model_step:
  assumes "rt_config rt = g"
  shows "moves R (ask_model_step E rt rs)"
proof (rule movesI)
  fix s r s' assume step: "ask_model_step E rt rs s = (r, s')"
  obtain p tools where choice: "choose_purpose rt (rn_cp s) = (p, tools)" by fastforce
  have "moves R (\<lambda>s1. bind_step (model_call E rt (bt_messages b) tools p) (handle_response E rt p rs) (s1\<lparr>rn_context := bt_state b\<rparr>))" for b
  proof (rule movesI)
    fix s x s'
    assume "bind_step (model_call E rt (bt_messages b) tools p) (handle_response E rt p rs) (s\<lparr>rn_context := bt_state b\<rparr>) = (x, s')"
    then have "R (s\<lparr>rn_context := bt_state b\<rparr>) s'"
      by (rule movesD [OF moves_bind [OF moves_model_call [OF assms] moves_handle_response]])
    moreover have "R s (s\<lparr>rn_context := bt_state b\<rparr>)" by (intro R_same) simp_all
    ultimately show "R s s'" by (blast intro: R_trans)
  qed
  then have "moves R (bind_step (build_context (rt_config rt) (compress_context E rt) rs (rn_context s) (facts rt)
        (contract E tools p) (rt_cur rt) (context_flags rt (rn_cp s) p))
      (\<lambda>b s1. bind_step (model_call E rt (bt_messages b) tools p) (handle_response E rt p rs) (s1\<lparr>rn_context := bt_state b\<rparr>)))"
    by (intro moves_bind build_context_moves moves_compress_context assms)
  then show "R s s'" using step by (simp add: ask_model_step_def choice movesD)
qed

lemma moves_model_step:
  assumes "rt_config rt = g"
  shows "moves R (model_step E rt)"
proof -
  have ask: "moves R (\<lambda>s. ask_model_step E rt rs (f s))"
    if "\<And>s. rn_cp (f s) = rn_cp s \<and> rn_sent (f s) = rn_sent s" for rs f
  proof (rule movesI)
    fix s x s' assume "ask_model_step E rt rs (f s) = (x, s')"
    then have "R (f s) s'" by (rule movesD [OF moves_ask_model_step [OF assms]])
    moreover have "R s (f s)" using that by (intro R_same) simp_all
    ultimately show "R s s'" by (blast intro: R_trans)
  qed
  have "moves R (bind_step (read_records E rt) (\<lambda>rs. then_step (refresh_memory E rt rs)
      (\<lambda>s1. ask_model_step E rt rs
        (if ac_memory_enabled (rt_config rt)
         then s1\<lparr>rn_context := (rn_context s1)\<lparr>cs_memory := (case rk_memory (rn_cp s1) of None \<Rightarrow> cs_memory (rn_context s1) | Some m \<Rightarrow> m)\<rparr>\<rparr>
         else s1))))"
    by (intro moves_bind moves_read_records moves_then moves_refresh_memory assms ask) simp
  from movesD [OF this] show ?thesis
    by (intro movesI) (auto simp: model_step_def split: if_splits intro: R_same)
qed

lemma moves_pending_step:
  assumes "rt_config rt = g"
  shows "moves R (pending_step E rt c)"
proof -
  have "moves R (\<lambda>s. if (rk_batch_error (rn_cp s) = None \<or> rk_batch_error (rn_cp s) = Some []) \<and> tk_name c = ''finish_turn''
        \<and> ac_conversation (rt_config rt)
      then review_reply E rt c s else (Inr (rk_batch_error (rn_cp s)), s))"
    by (rule movesI) (auto split: if_splits intro: R_same dest: movesD [OF moves_review_reply [OF assms]])
  then show ?thesis unfolding pending_step_def
    by (intro moves_then moves_reserve_tool moves_bind moves_execute_call assms)
qed

lemma moves_iteration:
  assumes "rt_config rt = g"
  shows "moves R (iteration E rt)"
proof -
  have "moves R (\<lambda>s. if \<not> current then stop E rt ''BUSINESS_STATE_CHANGED'' s
      else case rk_pending (rn_cp s) of c # _ \<Rightarrow> pending_step E rt c s | [] \<Rightarrow> model_step E rt s)" for current
    by (rule movesI) (auto split: if_splits list.splits dest: movesD [OF moves_stop] movesD [OF moves_pending_step [OF assms]]
        movesD [OF moves_model_step [OF assms]])
  then have "moves R (loop_body E rt)" unfolding loop_body_def
    by (intro moves_then moves_check_wall moves_bind moves_ensure_current)
  note body = movesD [OF this]
  have "R s s'" if "loop_body E rt s = (e, s1)" and "stop E rt reason s1 = (r, s')" for s s1 s' e r reason
    using body [OF that(1)] movesD [OF moves_stop that(2)] by (rule R_trans)
  with body show ?thesis
    by (intro movesI) (auto simp: iteration_def split: prod.splits sum.splits run_error.splits)
qed

lemma moves_run_loop:
  assumes "rt_config rt = g"
  shows "moves R (run_loop E rt)"
proof (rule movesI)
  fix s r s' assume "run_loop E rt s = (r, s')"
  then show "R s s'" using assms
  proof (induction E rt s arbitrary: r s' rule: run_loop.induct)
    case (1 E rt s)
    obtain a s1 where round: "iteration E rt s = (a, s1)" by fastforce
    then have "R s s1" by (rule movesD [OF moves_iteration [OF 1(3)]])
    moreover have "R s1 s'" if "a = Inr None"
      using 1(1) [OF round [symmetric] that refl] 1(2,3) round that by (simp add: run_loop.simps [of E rt s])
    moreover have "s' = s1" if "a \<noteq> Inr None"
      using 1(2) round that by (auto simp: run_loop.simps [of E rt s] split: sum.splits option.splits)
    ultimately show ?case by (blast intro: R_trans)
  qed
qed

end

section \<open>The budget\<close>

definition sane_budget :: "agent_config \<Rightarrow> bool" where
  \<comment> \<open>no negative limit or price\<close>
  "sane_budget g \<longleftrightarrow> 0 \<le> bu_output (ac_budget g) \<and> (\<forall>n. ac_review_output g = Some n \<longrightarrow> 0 \<le> n)
     \<and> 0 \<le> price_or_zero (up_input (ac_prices g)) \<and> 0 \<le> price_or_zero (up_output (ac_prices g))"

definition sent_tokens :: "(call_purpose \<times> int \<times> int) list \<Rightarrow> int" where
  "sent_tokens cs = sum_list (map (\<lambda>(p, t, out). t + out) cs)"

definition sent_cost :: "usage_prices \<Rightarrow> (call_purpose \<times> int \<times> int) list \<Rightarrow> int" where
  "sent_cost prices cs = sum_list (map (\<lambda>(p, t, out). call_cost prices t out) cs)"

definition upkeep :: "(call_purpose \<times> int \<times> int) list \<Rightarrow> (call_purpose \<times> int \<times> int) list" where
  \<comment> \<open>the calls for summaries and memory\<close>
  "upkeep cs = filter (\<lambda>c. fst c \<in> {SUMMARY, MEMORY}) cs"

definition cost_limited :: "agent_config \<Rightarrow> int \<Rightarrow> bool" where
  "cost_limited g k \<longleftrightarrow> (\<forall>limit. bu_cost (ac_budget g) = Some limit \<longrightarrow> limit \<noteq> 0 \<longrightarrow> k \<le> limit * 1000000)"

definition run_within :: "agent_config \<Rightarrow> run_state \<Rightarrow> bool" where
  "run_within g s \<longleftrightarrow>
     (let b = ac_budget g; c = rn_cp s; cs = rn_sent s in
      int (length cs) \<le> rk_calls c \<and> rk_calls c \<le> bu_calls b
      \<and> sent_tokens cs \<le> rk_tokens c \<and> sent_tokens cs \<le> bu_tokens b
      \<and> sent_cost (ac_prices g) cs \<le> rk_cost c \<and> cost_limited g (sent_cost (ac_prices g) cs)
      \<and> int (length (upkeep cs)) \<le> rk_maintenance c \<and> rk_maintenance c \<le> bu_maintenance b
      \<and> rk_tools c \<le> bu_tools b
      \<and> (\<forall>(p, t, out) \<in> set cs. t \<le> token_limit (call_budget g p) \<and> out = bu_output (call_budget g p)))"

definition spends :: "agent_config \<Rightarrow> run_state \<Rightarrow> run_state \<Rightarrow> bool" where
  "spends g s s' \<longleftrightarrow> (sane_budget g \<longrightarrow> run_within g s \<longrightarrow> run_within g s')"

lemma call_budget_fields [simp]:
  "bu_calls (call_budget g p) = bu_calls (ac_budget g)" "bu_tokens (call_budget g p) = bu_tokens (ac_budget g)"
  "bu_maintenance (call_budget g p) = bu_maintenance (ac_budget g)" "bu_cost (call_budget g p) = bu_cost (ac_budget g)"
  by (simp_all add: call_budget_def split: option.split bool.split)

lemma sane_output: "sane_budget g \<Longrightarrow> 0 \<le> bu_output (call_budget g p)"
  by (auto simp: sane_budget_def call_budget_def split: option.split bool.split)

lemma sane_cost: "sane_budget g \<Longrightarrow> 0 \<le> t \<Longrightarrow> 0 \<le> out \<Longrightarrow> 0 \<le> call_cost (ac_prices g) t out"
  by (simp add: sane_budget_def call_cost_def)

lemma spends_called:
  assumes reserve: "reserve_call g p t (rn_cp s) = Inr c" and t: "0 \<le> t" "t \<le> token_limit (call_budget g p)" and cp: "rn_cp s' = c"
    and sent: "rn_sent s' = rn_sent s \<or> rn_sent s' = rn_sent s @ [(p, t, bu_output (call_budget g p))]"
  shows "spends g s s'"
proof (unfold spends_def, intro impI)
  assume sane: "sane_budget g" and within: "run_within g s"
  let ?out = "bu_output (call_budget g p)"
  note out = sane_output [OF sane, of p] and cost = sane_cost [OF sane t(1) sane_output [OF sane, of p]]
  note r = reserve_call_Inr [OF reserve]
  have limited: "cost_limited g (sent_cost (ac_prices g) (rn_sent s) + call_cost (ac_prices g) t ?out)"
    using within r(11) unfolding run_within_def Let_def cost_limited_def by fastforce
  from sent show "run_within g s'"
  proof
    assume same: "rn_sent s' = rn_sent s"
    show ?thesis unfolding run_within_def Let_def same cp
      using within r(1-9) r(10) t out cost unfolding run_within_def Let_def by auto
  next
    assume more: "rn_sent s' = rn_sent s @ [(p, t, ?out)]"
    show ?thesis unfolding run_within_def Let_def more cp
      using within r(1-9) r(10) t out cost limited unfolding run_within_def Let_def
      by (auto simp: sent_tokens_def sent_cost_def upkeep_def)
  qed
qed

lemma spends_more:
  assumes "rn_sent s' = rn_sent s" "rk_calls (rn_cp s') = rk_calls (rn_cp s)" "rk_maintenance (rn_cp s') = rk_maintenance (rn_cp s)"
    and "rk_tools (rn_cp s') = rk_tools (rn_cp s) \<or> rk_tools (rn_cp s') \<le> bu_tools (ac_budget g)"
    and "rk_tokens (rn_cp s) \<le> rk_tokens (rn_cp s')" "rk_cost (rn_cp s) \<le> rk_cost (rn_cp s')"
  shows "spends g s s'"
  using assms by (auto simp: spends_def run_within_def Let_def)

interpretation spending: loop_relation h "spends h" for h
proof
  fix s s' s''
  show "spends h s s' \<Longrightarrow> spends h s' s'' \<Longrightarrow> spends h s s''" by (simp add: spends_def)
next
  fix s s'
  show "counters (rn_cp s') = counters (rn_cp s) \<Longrightarrow> rn_sent s' = rn_sent s \<Longrightarrow> spends h s s'"
    by (rule spends_more) (simp_all add: counters_def)
next
  fix s s' k k'
  show "counters (rn_cp s') = counters ((rn_cp s)\<lparr>rk_tokens := rk_tokens (rn_cp s) + k, rk_cost := rk_cost (rn_cp s) + k'\<rparr>) \<Longrightarrow>
      0 \<le> k \<Longrightarrow> 0 \<le> k' \<Longrightarrow> rn_sent s' = rn_sent s \<Longrightarrow> spends h s s'"
    by (rule spends_more) (simp_all add: counters_def)
next
  fix p t c s s'
  show "reserve_call h p t (rn_cp s) = Inr c \<Longrightarrow> 0 \<le> t \<Longrightarrow> t \<le> token_limit (call_budget h p) \<Longrightarrow> rn_cp s' = c \<Longrightarrow>
    rn_sent s' = rn_sent s \<or> rn_sent s' = rn_sent s @ [(p, t, bu_output (call_budget h p))] \<Longrightarrow> spends h s s'"
    by (rule spends_called)
next
  fix s s'
  show "rk_tools (rn_cp s) < bu_tools (ac_budget h) \<Longrightarrow>
      counters (rn_cp s') = counters ((rn_cp s)\<lparr>rk_tools := rk_tools (rn_cp s) + 1\<rparr>) \<Longrightarrow> rn_sent s' = rn_sent s \<Longrightarrow> spends h s s'"
    by (rule spends_more) (simp_all add: counters_def)
next
  fix s s'
  show "spent (rn_cp s') = spent (rn_cp s) \<Longrightarrow> rn_sent s' = rn_sent s \<Longrightarrow> spends h s s'"
    by (rule spends_more) (simp_all add: spent_def)
qed

definition over_limit :: "agent_config \<Rightarrow> checkpoint \<Rightarrow> bool" where
  \<comment> \<open>the account stands above a limit\<close>
  "over_limit g c \<longleftrightarrow> bu_tokens (ac_budget g) < rk_tokens c
     \<or> (\<exists>limit. bu_cost (ac_budget g) = Some limit \<and> limit \<noteq> 0 \<and> limit * 1000000 < rk_cost c)"

definition halts :: "agent_config \<Rightarrow> run_state \<Rightarrow> run_state \<Rightarrow> bool" where
  "halts g s s' \<longleftrightarrow>
     (sane_budget g \<longrightarrow> over_limit g (rn_cp s) \<longrightarrow> over_limit g (rn_cp s') \<and> rn_sent s' = rn_sent s)"

lemma over_limit_mono:
  "over_limit g c \<Longrightarrow> rk_tokens c \<le> rk_tokens c' \<Longrightarrow> rk_cost c \<le> rk_cost c' \<Longrightarrow> over_limit g c'"
  by (auto simp: over_limit_def)

lemma halts_more:
  "rn_sent s' = rn_sent s \<Longrightarrow> rk_tokens (rn_cp s) \<le> rk_tokens (rn_cp s') \<Longrightarrow> rk_cost (rn_cp s) \<le> rk_cost (rn_cp s') \<Longrightarrow> halts g s s'"
  by (auto simp: halts_def intro: over_limit_mono)

lemma reserve_not_over:
  assumes "reserve_call g p t c = Inr c'" and "0 \<le> t" and "sane_budget g"
  shows "\<not> over_limit g c"
proof -
  note r = reserve_call_Inr [OF assms(1)] and out = sane_output [OF assms(3), of p]
  have "rk_cost c \<le> limit * 1000000" if "bu_cost (ac_budget g) = Some limit" "limit \<noteq> 0" for limit
    using r(11) [of limit] that sane_cost [OF assms(3,2) out] by simp
  with r(9) out assms(2) show ?thesis unfolding over_limit_def by fastforce
qed

interpretation halting: loop_relation h "halts h" for h
proof
  fix s s' s''
  show "halts h s s' \<Longrightarrow> halts h s' s'' \<Longrightarrow> halts h s s''" by (simp add: halts_def)
next
  fix s s'
  show "counters (rn_cp s') = counters (rn_cp s) \<Longrightarrow> rn_sent s' = rn_sent s \<Longrightarrow> halts h s s'"
    by (rule halts_more) (simp_all add: counters_def)
next
  fix s s' k k'
  show "counters (rn_cp s') = counters ((rn_cp s)\<lparr>rk_tokens := rk_tokens (rn_cp s) + k, rk_cost := rk_cost (rn_cp s) + k'\<rparr>) \<Longrightarrow>
      0 \<le> k \<Longrightarrow> 0 \<le> k' \<Longrightarrow> rn_sent s' = rn_sent s \<Longrightarrow> halts h s s'"
    by (rule halts_more) (simp_all add: counters_def)
next
  fix p t c s s'
  show "reserve_call h p t (rn_cp s) = Inr c \<Longrightarrow> 0 \<le> t \<Longrightarrow> t \<le> token_limit (call_budget h p) \<Longrightarrow> rn_cp s' = c \<Longrightarrow>
    rn_sent s' = rn_sent s \<or> rn_sent s' = rn_sent s @ [(p, t, bu_output (call_budget h p))] \<Longrightarrow> halts h s s'"
    by (simp add: halts_def reserve_not_over)
next
  fix s s'
  show "rk_tools (rn_cp s) < bu_tools (ac_budget h) \<Longrightarrow>
      counters (rn_cp s') = counters ((rn_cp s)\<lparr>rk_tools := rk_tools (rn_cp s) + 1\<rparr>) \<Longrightarrow> rn_sent s' = rn_sent s \<Longrightarrow> halts h s s'"
    by (rule halts_more) (simp_all add: counters_def)
next
  fix s s'
  show "spent (rn_cp s') = spent (rn_cp s) \<Longrightarrow> rn_sent s' = rn_sent s \<Longrightarrow> halts h s s'"
    by (rule halts_more) (simp_all add: spent_def)
qed

subsection \<open>What an answer used\<close>

definition used_tokens :: "token_usage \<Rightarrow> int" where
  "used_tokens u = max (tu_input u + tu_output u) (case tu_total u of None \<Rightarrow> 0 | Some t \<Rightarrow> t)"

definition charged :: "usage_prices \<Rightarrow> int \<Rightarrow> int \<Rightarrow> token_usage \<Rightarrow> checkpoint \<Rightarrow> checkpoint \<Rightarrow> bool" where
  \<comment> \<open>the account is raised by what was reserved, or by what was used where that is more\<close>
  "charged prices t out u c c' \<longleftrightarrow>
     rk_tokens c' = rk_tokens c + max (t + out) (used_tokens u)
     \<and> rk_cost c' = rk_cost c + max (call_cost prices t out) (call_cost prices (tu_input u) (tu_output u))"

lemma save_checkpoint_cp: "save_checkpoint E rt s = (r, s') \<Longrightarrow> rn_cp s' = rn_cp s \<and> rn_sent s' = rn_sent s"
  by (auto simp: save_checkpoint_def dest!: transact_leaves)

lemma invoke_answer:
  assumes "invoke_model E rt ms tools p t out s = (Inr r, s')"
  shows "rn_cp s' = rn_cp s \<and> rn_sent s' = rn_sent s @ [(p, t, out)]"
  using assms
  by (auto simp: invoke_model_def bind_step_def Let_def ret_def raise_error_def split: prod.splits sum.splits dest!: transact_leaves)

lemma reserved_call_charged:
  assumes step: "reserved_call E rt ms tools p (reservation_key p (rn_cp s)) s = (Inr r, s')" and u: "mr_usage r = Some u"
  shows "\<exists>t. rn_sent s' = rn_sent s @ [(p, t, bu_output (call_budget (rt_config rt) p))]
    \<and> charged (ac_prices (rt_config rt)) t (bu_output (call_budget (rt_config rt) p)) u (rn_cp s) (rn_cp s')"
proof -
  let ?g = "rt_config rt" and ?key = "reservation_key p (rn_cp s)"
  let ?out = "bu_output (call_budget ?g p)"
  obtain t c where t: "check_tokens (call_budget ?g p) ms (contract E tools p) = Inr t" and c: "reserve_call ?g p t (rn_cp s) = Inr c"
    using step by (auto simp: reserved_call_def split: sum.splits)
  then have "then_step (save_checkpoint E rt) (bind_step (invoke_model E rt ms tools p t ?out)
      (\<lambda>r. then_step (reconcile_usage E rt ?key r) (ret r))) (s\<lparr>rn_cp := c\<rparr>) = (Inr r, s')"
    using step by (simp add: reserved_call_def)
  then obtain s1 s2 where save: "save_checkpoint E rt (s\<lparr>rn_cp := c\<rparr>) = (Inr (), s1)"
    and invoke: "invoke_model E rt ms tools p t ?out s1 = (Inr r, s2)" and recon: "reconcile_usage E rt ?key r s2 = (Inr (), s')"
    by (elim bind_step_InrE then_step_InrE) (auto simp: ret_def elim!: then_step_InrE)
  have s1: "rn_cp s1 = c" "rn_sent s1 = rn_sent s" using save_checkpoint_cp [OF save] by simp_all
  have s2: "rn_cp s2 = c" "rn_sent s2 = rn_sent s @ [(p, t, ?out)]" using invoke_answer [OF invoke] s1 by simp_all
  have key: "map_of (rk_reservations c) ?key = Some \<lparr>rs_tokens = t + ?out, rs_cost = call_cost (ac_prices ?g) t ?out, rs_reconciled = False\<rparr>"
    using c unfolding reserve_call_def Let_def by (auto simp: update_conv split: if_splits)
  obtain c' where c': "reconciled ?g ?key r c = Some c'" using key u by (simp add: reconciled_def Let_def)
  with recon s2 have "rn_cp s' = c' \<and> rn_sent s' = rn_sent s2"
    by (auto simp: reconcile_usage_def dest!: save_checkpoint_cp)
  moreover have "charged (ac_prices ?g) t ?out u (rn_cp s) c'"
    using c' key u reserve_call_Inr(5,6) [OF c]
    by (auto simp: reconciled_def Let_def charged_def used_tokens_def)
  ultimately show ?thesis using s2 by auto
qed

definition usage_counted :: "runtime_env \<Rightarrow> runtime \<Rightarrow> bool" where
  \<comment> \<open>every answer that reports what it used raises the account at least by that\<close>
  "usage_counted E rt \<longleftrightarrow>
     (\<forall>ms tools p s r s' u. model_call E rt ms tools p s = (Inr r, s') \<longrightarrow> rn_sent s' \<noteq> rn_sent s \<longrightarrow> mr_usage r = Some u \<longrightarrow>
        (\<exists>t. rn_sent s' = rn_sent s @ [(p, t, bu_output (call_budget (rt_config rt) p))]
           \<and> charged (ac_prices (rt_config rt)) t (bu_output (call_budget (rt_config rt) p)) u (rn_cp s) (rn_cp s')))"

definition calls_halted :: "runtime_env \<Rightarrow> runtime \<Rightarrow> bool" where
  \<comment> \<open>no call is made while the account stands above a limit\<close>
  "calls_halted E rt \<longleftrightarrow>
     (\<forall>ms tools p s r s'. model_call E rt ms tools p s = (r, s') \<longrightarrow> over_limit (rt_config rt) (rn_cp s) \<longrightarrow> rn_sent s' = rn_sent s)"

lemma calls_halted: "sane_budget (rt_config rt) \<Longrightarrow> calls_halted E rt"
  unfolding calls_halted_def using movesD [OF halting.moves_model_call [OF refl]] unfolding halts_def by blast

lemma usage_counted: "usage_counted E rt"
proof (unfold usage_counted_def, intro allI impI)
  fix ms tools p s r s' u
  assume step: "model_call E rt ms tools p s = (Inr r, s')" and new: "rn_sent s' \<noteq> rn_sent s" and u: "mr_usage r = Some u"
  let ?key = "reservation_key p (rn_cp s)"
  from step obtain s1 s2 stored where wall: "check_wall E rt s = (Inr (), s1)" and cached: "cached_response E rt p s1 = (Inr stored, s2)"
    and rest: "(case stored of Some r \<Rightarrow> then_step (reconcile_usage E rt ?key r) (ret r) | None \<Rightarrow> reserved_call E rt ms tools p ?key) s2 = (Inr r, s')"
    unfolding model_call_def Let_def by (elim then_step_InrE bind_step_InrE) blast
  have s2: "rn_cp s2 = rn_cp s" "rn_sent s2 = rn_sent s"
    using wall cached by (auto simp: check_wall_def cached_response_def Let_def split: if_splits dest!: transact_leaves)
  have "stored = None"
  proof (cases stored)
    case (Some x)
    with rest have "rn_sent s' = rn_sent s2"
      by (auto simp: ret_def reconcile_usage_def elim!: then_step_InrE split: option.splits dest!: save_checkpoint_cp)
    with s2 new show ?thesis by simp
  qed
  with rest s2 have "reserved_call E rt ms tools p (reservation_key p (rn_cp s2)) s2 = (Inr r, s')" by simp
  from reserved_call_charged [OF this u] s2
  show "\<exists>t. rn_sent s' = rn_sent s @ [(p, t, bu_output (call_budget (rt_config rt) p))]
    \<and> charged (ac_prices (rt_config rt)) t (bu_output (call_budget (rt_config rt) p)) u (rn_cp s) (rn_cp s')" by simp
qed

text \<open>
  C20: A run of the runtime V4 reserves no more than its budget, whatever the language model answers, whatever others do to the
  database between its transactions and however often it fails. The calls to the model, the calls for summaries and memory
  and the tool calls never exceed the configured limits; each call fits the input limit of the model; and the amounts reserved
  before the calls, the estimate of the tokens sent with the output allowed back, and their price, never exceed the limits on
  tokens and cost. What an earlier worker has reserved counts, as its checkpoint says. What an answer reports to have used
  can be more than was reserved: the account is then raised to it, possibly above the limit. While the account stands
  above a limit no call is made, and a run that starts there makes none at all.
\<close>

theorem runtime_budget_sound:
  assumes "run_loop E rt s = (r, s')" and "sane_budget (rt_config rt)" and "run_within (rt_config rt) s"
    and "b = ac_budget (rt_config rt)" and "limit = bu_cost b"
  shows "int (length (rn_sent s')) \<le> bu_calls b \<and> sent_tokens (rn_sent s') \<le> bu_tokens b
    \<and> (limit \<noteq> None \<and> limit \<noteq> Some 0 \<longrightarrow> sent_cost (ac_prices (rt_config rt)) (rn_sent s') \<le> the limit * 1000000)
    \<and> int (length (upkeep (rn_sent s'))) \<le> bu_maintenance b \<and> rk_tools (rn_cp s') \<le> bu_tools b
    \<and> (\<forall>(p, t, out) \<in> set (rn_sent s'). t \<le> token_limit (call_budget (rt_config rt) p) \<and> out = bu_output (call_budget (rt_config rt) p))
    \<and> run_within (rt_config rt) s'
    \<and> usage_counted E rt \<and> calls_halted E rt
    \<and> (over_limit (rt_config rt) (rn_cp s) \<longrightarrow> over_limit (rt_config rt) (rn_cp s') \<and> rn_sent s' = rn_sent s)"
proof -
  have "spends (rt_config rt) s s'" using spending.moves_run_loop [OF refl] assms(1) by (rule movesD)
  moreover have "halts (rt_config rt) s s'" using halting.moves_run_loop [OF refl] assms(1) by (rule movesD)
  ultimately show ?thesis using assms(2,3) usage_counted [of E rt] calls_halted [OF assms(2), of E] unfolding assms(4,5) halts_def spends_def
    by (auto simp: run_within_def Let_def cost_limited_def)
qed

lemma runtime_budget_sound_witness:
  "int (length (rn_sent (snd (run_loop sample_runtime_env sample_runtime sample_run_state)))) \<le> 10
   \<and> sent_tokens (rn_sent (snd (run_loop sample_runtime_env sample_runtime sample_run_state))) \<le> 180000"
proof -
  have run: "run_loop sample_runtime_env sample_runtime sample_run_state
      = (fst (run_loop sample_runtime_env sample_runtime sample_run_state), snd (run_loop sample_runtime_env sample_runtime sample_run_state))"
    by simp
  have b: "rt_config sample_runtime = sample_agent_config 16000" by (simp add: sample_runtime_def)
  have limits: "bu_calls (ac_budget (sample_agent_config 16000)) = 10" "bu_tokens (ac_budget (sample_agent_config 16000)) = 180000"
    by (simp_all add: sample_agent_config_def sample_budget_def)
  have "sane_budget (sample_agent_config 16000)"
    by (simp add: sane_budget_def sample_agent_config_def sample_budget_def price_or_zero_def)
  moreover have "run_within (sample_agent_config 16000) sample_run_state"
    by (simp add: run_within_def sample_run_state_def fresh_checkpoint_def sent_tokens_def sent_cost_def upkeep_def cost_limited_def
        sample_agent_config_def sample_budget_def)
  ultimately show ?thesis
    using runtime_budget_sound [OF run _ _ refl refl]
    by (auto simp: b limits)
qed

section \<open>The end of the loop\<close>

fun run_rounds :: "nat \<Rightarrow> runtime_env \<Rightarrow> runtime \<Rightarrow> run_state \<Rightarrow> ((run_error + chat_turn) \<times> run_state) option" where
  \<comment> \<open>the loop, cut off after a number of rounds\<close>
  "run_rounds 0 E rt s = None"
| "run_rounds (Suc n) E rt s =
     (case iteration E rt s of
        (Inl e, s1) \<Rightarrow> Some (Inl e, s1)
      | (Inr (Some turn), s1) \<Rightarrow> Some (Inr turn, s1)
      | (Inr None, s1) \<Rightarrow> run_rounds n E rt s1)"

text \<open>
  C28: The loop of the runtime V4 ends after finitely many rounds, with a reply or an error, in every environment: whatever
  the model answers, a round answers the first pending tool call or takes one of the limited model steps, and an exceeded
  budget ends the run.
\<close>

theorem run_loop_ends: "\<exists>n. \<forall>k. run_rounds (n + k) E rt s = Some (run_loop E rt s)"
proof (induction E rt s rule: run_loop.induct)
  case (1 E rt s)
  obtain a s1 where round: "iteration E rt s = (a, s1)" by fastforce
  have "\<exists>n. \<forall>k. run_rounds (Suc (n + k)) E rt s = Some (run_loop E rt s)"
  proof (cases "a = Inr None")
    case True
    with 1 [OF round [symmetric] True refl] round show ?thesis by (simp add: run_loop.simps [of E rt s])
  next
    case False
    with round show ?thesis by (auto simp: run_loop.simps [of E rt s] split: sum.split option.split)
  qed
  then show ?case by (metis add_Suc)
qed

end
