(* ===== verification/Resume.thy ===== *)
theory Resume
  imports Runtime_Spec
begin

text \<open>
  A run of the runtime V4 that goes on where another worker left it: the context and the checkpoint are read back from the
  database, \<open>initial_context\<close> and \<open>SellerAgentRuntime.__init__\<close>, and the errors of a run end or defer its task,
  \<open>ChatService._execute_leased_turn_observed\<close>. What is read back is what was stored, so the budget of a task holds over all
  its attempts.

  The dictionaries are read with the defaults of the code; a value of a type that the runtime never stores counts as missing.
\<close>

section \<open>Reading a checkpoint\<close>

fun json_text_of :: "json \<Rightarrow> string" where
  "json_text_of (JStr s) = s"
| "json_text_of v = []"

fun json_int :: "json \<Rightarrow> int" where
  "json_int (JInt i) = i"
| "json_int v = 0"

fun json_bool :: "json \<Rightarrow> bool" where
  "json_bool (JBool b) = b"
| "json_bool v = False"

fun json_items :: "json \<Rightarrow> json list" where
  "json_items (JArr xs) = xs"
| "json_items v = []"

fun json_fields :: "json \<Rightarrow> (string \<times> json) list" where
  "json_fields (JObj kvs) = kvs"
| "json_fields v = []"

definition field_or :: "json \<Rightarrow> string \<Rightarrow> 'a \<Rightarrow> (json \<Rightarrow> 'a) \<Rightarrow> 'a" where
  \<comment> \<open>\<open>setdefault\<close> and \<open>get\<close> with a default\<close>
  "field_or j k d f = (case map_of (json_fields j) k of None \<Rightarrow> d | Some v \<Rightarrow> f v)"

definition optional_field :: "json \<Rightarrow> string \<Rightarrow> (json \<Rightarrow> 'a) \<Rightarrow> 'a option" where
  "optional_field j k f = map_option f (map_of (json_fields j) k)"

definition text_value :: "('a \<Rightarrow> string) \<Rightarrow> 'a list \<Rightarrow> 'a \<Rightarrow> json \<Rightarrow> 'a" where
  "text_value text values d v = (case find (\<lambda>x. text x = json_text_of v) values of None \<Rightarrow> d | Some x \<Rightarrow> x)"

definition read_entry :: "json \<Rightarrow> memory_entry" where
  "read_entry v =
     \<lparr>me_kind = text_value memory_kind_text [BUYER_STATEMENT, OPEN_QUESTION, ATTEMPTED_OPTION, HYPOTHESIS, PLAN] PLAN (jget v ''kind''),
      me_field = json_text_of (jget v ''field''), me_value = json_text_of (jget v ''value''),
      me_sources = map json_int (json_items (jget v ''source_seqs'')),
      me_status = text_value memory_status_text [ENTRY_ACTIVE, ENTRY_RESOLVED, ENTRY_REPLACED] ENTRY_ACTIVE (jget v ''status''),
      me_explicit = (jget v ''confidence'' = JStr ''EXPLICIT'')\<rparr>"

definition read_memory :: "json \<Rightarrow> memory" where
  "read_memory v = (if v = JObj [] then None else Some (map read_entry (json_items (jget v ''entries''))))"

definition read_call :: "json \<Rightarrow> tool_call" where
  "read_call v = \<lparr>tk_id = json_text_of (jget v ''id''), tk_name = json_text_of (jget v ''name''), tk_args = jget v ''args''\<rparr>"

definition read_reservation :: "json \<Rightarrow> call_reservation" where
  "read_reservation v = \<lparr>rs_tokens = json_int (jget v ''tokens''), rs_cost = json_int (jget v ''cost''),
     rs_reconciled = json_bool (jget v ''reconciled'')\<rparr>"

definition read_check :: "json \<Rightarrow> fact_check" where
  "read_check v = \<lparr>fc_claim = json_text_of (jget v ''claim''), fc_path = json_text_of (jget v ''evidence_path''),
     fc_quote = json_text_of (jget v ''evidence_quote'')\<rparr>"

definition read_review :: "json \<Rightarrow> reply_review" where
  "read_review v = \<lparr>rv_approved = json_bool (jget v ''approved''), rv_reason = json_text_of (jget v ''reason''),
     rv_checks = map read_check (json_items (jget v ''fact_checks''))\<rparr>"

definition read_table :: "(json \<Rightarrow> 'a) \<Rightarrow> json \<Rightarrow> (string \<times> 'a) list" where
  "read_table f v = map (\<lambda>(k, x). (k, f x)) (json_fields v)"

definition read_nullable :: "(json \<Rightarrow> 'a) \<Rightarrow> json \<Rightarrow> 'a option" where
  "read_nullable f v = (if v = JNull then None else Some (f v))"

definition read_checkpoint :: "time \<Rightarrow> json \<Rightarrow> checkpoint" where
  \<comment> \<open>\<open>SellerAgentRuntime.__init__\<close>: what is missing gets its default, and the run starts now\<close>
  "read_checkpoint now j =
     \<lparr>rk_branch = field_or j ''branch_id'' ''branch-1'' json_text_of, rk_steps = field_or j ''steps'' 0 json_int,
      rk_calls = field_or j ''calls'' 0 json_int, rk_tools = field_or j ''tools'' 0 json_int,
      rk_reserved_ids = field_or j ''reserved_tool_ids'' [] (\<lambda>v. map json_text_of (json_items v)),
      rk_maintenance = field_or j ''maintenance_calls'' 0 json_int, rk_tokens = field_or j ''reserved_tokens'' 0 json_int,
      rk_cost = field_or j ''reserved_cost'' 0 json_int,
      rk_reservations = field_or j ''call_reservations'' [] (read_table read_reservation),
      rk_pending = field_or j ''pending_calls'' [] (\<lambda>v. map read_call (json_items v)),
      rk_started = field_or j ''started_at'' now json_int,
      rk_batch_error = field_or j ''batch_error'' None (read_nullable json_text_of),
      rk_repair = field_or j ''repair'' False json_bool, rk_json_required = field_or j ''ending_json_required'' False json_bool,
      rk_summary = map_option (\<lambda>s. (json_text_of s, field_or j ''covered_through'' 0 json_int,
                      field_or j ''summary_sources'' [] (\<lambda>v. map json_int (json_items v)))) (map_of (json_fields j) ''summary''),
      rk_memory = optional_field j ''memory'' read_memory,
      rk_memory_covered = optional_field j ''memory_covered_through'' json_int,
      rk_memory_done = field_or j ''memory_refresh_done'' False json_bool,
      rk_memory_incomplete = field_or j ''memory_refresh_incomplete'' False json_bool,
      rk_memory_failures = field_or j ''memory_update_failure_count'' 0 json_int,
      rk_reviews = field_or j ''reply_reviews'' [] (read_table read_review),
      rk_review_key = field_or j ''reply_review_key'' [] json_text_of,
      rk_feedback = optional_field j ''reply_repair_feedback'' json_text_of,
      rk_terminal = optional_field j ''terminal_action_committed'' json_bool, rk_stop = optional_field j ''stop_reason'' json_text_of\<rparr>"

lemma read_memory_json [simp]: "read_memory (memory_json m) = m"
proof -
  have entry: "read_entry (entry_json e) = e" for e
    by (cases e; cases "me_kind e"; cases "me_status e") (auto simp: read_entry_def entry_json_def text_value_def comp_def)
  then show ?thesis by (cases m) (simp_all add: memory_json_def read_memory_def comp_def)
qed

lemma read_parts [simp]:
  "read_call (call_json c) = c" "read_reservation (reservation_json r) = r" "read_review (review_json v) = v"
proof -
  have check: "read_check (check_json k) = k" for k by (cases k) (simp add: read_check_def check_json_def)
  show "read_call (call_json c) = c" by (cases c) (simp add: read_call_def call_json_def)
  show "read_reservation (reservation_json r) = r" by (cases r) (simp add: read_reservation_def reservation_json_def)
  show "read_review (review_json v) = v" by (cases v) (simp add: read_review_def review_json_def comp_def check)
qed

lemma read_optional: "map_of (optional k f m) k' = (if k' = k then map_option f m else None)"
  by (simp add: optional_def split: option.split)

lemma read_table_json [simp]: "(\<And>x. f (g x) = x) \<Longrightarrow> read_table f (JObj (map (\<lambda>(k, r). (k, g r)) xs)) = xs"
  by (simp add: read_table_def comp_def case_prod_beta)

lemma read_nullable_json [simp]: "read_nullable json_text_of (jopt JStr m) = m"
  by (cases m) (simp_all add: read_nullable_def jopt_def)

lemma summary_lookup:
  "map_of (case m of None \<Rightarrow> [] | Some (text, covered, sources) \<Rightarrow>
      [(''summary'', JStr text), (''covered_through'', JInt covered), (''summary_sources'', JArr (map JInt sources))]) k
   = (if k = ''summary'' then map_option (\<lambda>(text, covered, sources). JStr text) m
      else if k = ''covered_through'' then map_option (\<lambda>(text, covered, sources). JInt covered) m
      else if k = ''summary_sources'' then map_option (\<lambda>(text, covered, sources). JArr (map JInt sources)) m else None)"
  by (auto split: option.split)

lemma lookup_append: "map_of (xs @ ys) k = (case map_of xs k of None \<Rightarrow> map_of ys k | Some v \<Rightarrow> Some v)"
  by (induction xs) auto

lemma checkpoint_fields:
  "map_of (json_fields (checkpoint_json c)) ''branch_id'' = Some (JStr (rk_branch c))"
  "map_of (json_fields (checkpoint_json c)) ''steps'' = Some (JInt (rk_steps c))"
  "map_of (json_fields (checkpoint_json c)) ''calls'' = Some (JInt (rk_calls c))"
  "map_of (json_fields (checkpoint_json c)) ''tools'' = Some (JInt (rk_tools c))"
  "map_of (json_fields (checkpoint_json c)) ''reserved_tool_ids'' = Some (JArr (map JStr (rk_reserved_ids c)))"
  "map_of (json_fields (checkpoint_json c)) ''maintenance_calls'' = Some (JInt (rk_maintenance c))"
  "map_of (json_fields (checkpoint_json c)) ''reserved_tokens'' = Some (JInt (rk_tokens c))"
  "map_of (json_fields (checkpoint_json c)) ''reserved_cost'' = Some (JInt (rk_cost c))"
  "map_of (json_fields (checkpoint_json c)) ''call_reservations'' = Some (JObj (map (\<lambda>(k, r). (k, reservation_json r)) (rk_reservations c)))"
  "map_of (json_fields (checkpoint_json c)) ''pending_calls'' = Some (JArr (map call_json (rk_pending c)))"
  "map_of (json_fields (checkpoint_json c)) ''started_at'' = Some (JInt (rk_started c))"
  "map_of (json_fields (checkpoint_json c)) ''batch_error'' = Some (jopt JStr (rk_batch_error c))"
  "map_of (json_fields (checkpoint_json c)) ''repair'' = Some (JBool (rk_repair c))"
  "map_of (json_fields (checkpoint_json c)) ''ending_json_required'' = Some (JBool (rk_json_required c))"
  "map_of (json_fields (checkpoint_json c)) ''memory_refresh_done'' = Some (JBool (rk_memory_done c))"
  "map_of (json_fields (checkpoint_json c)) ''memory_refresh_incomplete'' = Some (JBool (rk_memory_incomplete c))"
  "map_of (json_fields (checkpoint_json c)) ''memory_update_failure_count'' = Some (JInt (rk_memory_failures c))"
  "map_of (json_fields (checkpoint_json c)) ''reply_reviews'' = Some (JObj (map (\<lambda>(k, r). (k, review_json r)) (rk_reviews c)))"
  "map_of (json_fields (checkpoint_json c)) ''reply_review_key'' = Some (JStr (rk_review_key c))"
  "map_of (json_fields (checkpoint_json c)) ''memory'' = map_option memory_json (rk_memory c)"
  "map_of (json_fields (checkpoint_json c)) ''memory_covered_through'' = map_option JInt (rk_memory_covered c)"
  "map_of (json_fields (checkpoint_json c)) ''reply_repair_feedback'' = map_option JStr (rk_feedback c)"
  "map_of (json_fields (checkpoint_json c)) ''terminal_action_committed'' = map_option JBool (rk_terminal c)"
  "map_of (json_fields (checkpoint_json c)) ''stop_reason'' = map_option JStr (rk_stop c)"
  "map_of (json_fields (checkpoint_json c)) ''summary'' = map_option (\<lambda>(text, covered, sources). JStr text) (rk_summary c)"
  "map_of (json_fields (checkpoint_json c)) ''covered_through'' = map_option (\<lambda>(text, covered, sources). JInt covered) (rk_summary c)"
  "map_of (json_fields (checkpoint_json c)) ''summary_sources'' = map_option (\<lambda>(text, covered, sources). JArr (map JInt sources)) (rk_summary c)"
  by (simp_all only: checkpoint_json_def json_fields.simps lookup_append summary_lookup read_optional)
    (simp_all split: option.split)

lemma read_checkpoint_json: "read_checkpoint now (checkpoint_json c) = c"
  by (cases "rk_summary c")
    (simp_all add: read_checkpoint_def field_or_def optional_field_def checkpoint_fields comp_def option.map_comp option.map_ident case_prod_beta)

section \<open>Going on\<close>

definition load_initial :: "int \<Rightarrow> transcript \<Rightarrow> initial_context \<times> transcript" where
  \<comment> \<open>\<open>initial_context\<close>, which the task stores with the buyer's message\<close>
  "load_initial sid x =
     (let (c, x1) = context_of_session sid x;
          artifact = (case sx_summary_artifact c of None \<Rightarrow> None | Some k \<Rightarrow> tget (tx_rows x1) k) in
      (\<lparr>ix_summary = (case sx_summary c of None \<Rightarrow> [] | Some t \<Rightarrow> t), ix_covered = sx_summary_covered c,
        ix_sources = (case artifact of
                        Some r \<Rightarrow> (case am_entry r of
                                     DataEntry _ v \<Rightarrow> field_or v ''source_seqs'' [] (\<lambda>xs. map json_int (json_items xs)) | _ \<Rightarrow> [])
                      | None \<Rightarrow> []),
        ix_memory = (case sx_memory c of None \<Rightarrow> None | Some v \<Rightarrow> read_memory v),
        ix_memory_covered = sx_memory_covered c, ix_version = sx_version c\<rparr>, x1))"

definition resume_run :: "runtime_env \<Rightarrow> runtime \<Rightarrow> world \<Rightarrow> nat \<Rightarrow> (call_purpose \<times> int \<times> int) list \<Rightarrow> run_state" where
  \<comment> \<open>\<open>SellerAgentRuntime.__init__\<close>; the calls of earlier attempts are carried along for the specification only\<close>
  "resume_run E rt w k sent =
     (let cp = read_checkpoint (ev_now E k) (case t_runtime_checkpoint (rt_task rt) of None \<Rightarrow> JObj [] | Some j \<Rightarrow> j);
          i = rt_initial rt in
      \<lparr>rn_world = w, rn_cp = cp,
       rn_context =
         \<lparr>cs_summary = (case rk_summary cp of None \<Rightarrow> ix_summary i | Some (text, covered, sources) \<Rightarrow> text),
          cs_covered = (case rk_summary cp of None \<Rightarrow> ix_covered i | Some (text, covered, sources) \<Rightarrow> covered),
          cs_memory = (if ac_memory_enabled (rt_config rt) then working_memory rt cp else None),
          cs_sources = (case rk_summary cp of None \<Rightarrow> ix_sources i | Some (text, covered, sources) \<Rightarrow> sources)\<rparr>,
       rn_tick = k + 1, rn_stale = None, rn_sent = sent\<rparr>)"

fun run_failure :: "run_error \<Rightarrow> failure" where
  \<comment> \<open>what the retry policy makes of the error; the names of other exceptions and their causes are left out\<close>
  "run_failure (ProviderFailed f) = f"
| "run_failure (Raised e) = (if is_value_error e then OutputFailure else OtherFailure ''Exception'')"
| "run_failure (OverBudget r) = OtherFailure ''AgentBudgetExceeded''"

definition attempt_run ::
    "chat_config \<Rightarrow> run_env \<Rightarrow> runtime_env \<Rightarrow> runtime \<Rightarrow> (call_purpose \<times> int \<times> int) list \<Rightarrow> world \<Rightarrow> (exn + chat_turn) \<times> run_state" where
  \<comment> \<open>\<open>_execute_leased_turn_observed\<close> for a task with a frozen configuration\<close>
  "attempt_run g env E rt sent w =
     (case run_loop E rt (resume_run E rt w 0 sent) of
        (Inr turn, s) \<Rightarrow> (Inr turn, s)
      | (Inl e, s) \<Rightarrow>
          (let (r, d) = (if e = Raised (ServiceExn TaskLease) then or_stored_reply (rt_pending rt) (wd_db (rn_world s))
                         else model_failed g env (rt_task rt) (rt_token rt) (run_failure e) (wd_db (rn_world s))) in
           (r, s\<lparr>rn_world := (rn_world s)\<lparr>wd_db := d\<rparr>\<rparr>)))"

lemma sample_within: "sane_budget (sample_agent_config 16000)" "run_within (sample_agent_config 16000) sample_run_state"
  by (simp_all add: sane_budget_def sample_agent_config_def sample_budget_def price_or_zero_def run_within_def sample_run_state_def
      fresh_checkpoint_def sent_tokens_def sent_cost_def upkeep_def cost_limited_def)

lemma sample_put_exact:
  assumes "jok (checkpoint_json cp)" and "wd_db w = sample_chat_db [sample_leased_task] ms"
  shows "put_checkpoint sample_runtime_env sample_runtime cp 12 w
    = Inr ((), w\<lparr>wd_db := sample_chat_db [sample_leased_task\<lparr>t_runtime_checkpoint := Some (checkpoint_json cp)\<rparr>] ms\<rparr>)"
proof -
  let ?t = "sample_leased_task\<lparr>t_runtime_checkpoint := Some (checkpoint_json cp)\<rparr>"
  have "json_object (ev_hash sample_runtime_env) (checkpoint_json cp) = Inr (checkpoint_json cp, ''h'')"
    using assms(1) by (simp add: json_object_def checkpoint_json_def sample_runtime_env_def)
  moreover have "flush_task 1 ?t (sample_chat_db [sample_leased_task] ms) = Inr (?t, sample_chat_db [?t] ms)"
    using sample_task_fields(10)
    by (simp add: flush_task_def task_checks_def trows_def sample_chat_rows sample_task_fields)
      (simp add: sample_chat_db_def tput_def sample_task_fields)
  ultimately show ?thesis
    by (simp add: put_checkpoint_def update_checkpoint_def sample_runtime_def assms(2) sample_lease_held sample_task_fields)
qed

lemma fresh_read: "read_checkpoint now (JObj []) = fresh_checkpoint now"
  by (simp add: read_checkpoint_def fresh_checkpoint_def field_or_def optional_field_def)

lemma saved_checkpoint:
  assumes "save_checkpoint E rt s = (Inr (), s1)"
  shows "\<exists>t. get_task (wd_db (rn_world s1)) (t_id (rt_task rt)) = Some t
    \<and> t_runtime_checkpoint t = Some (checkpoint_json (rn_cp s)) \<and> rn_cp s1 = rn_cp s \<and> rn_sent s1 = rn_sent s"
proof -
  from assms obtain w' where put: "put_checkpoint E rt (rn_cp s) (ev_now E (rn_tick s)) (ev_others E (rn_tick s) (rn_world s)) = Inr ((), w')"
    and s1: "rn_world s1 = w'" "rn_cp s1 = rn_cp s" "rn_sent s1 = rn_sent s"
    unfolding save_checkpoint_def by (elim transact_Inr) simp
  from put obtain t stored H r d where "json_object (ev_hash E) (checkpoint_json (rn_cp s)) = Inr (stored, H)"
    and f: "flush_task (t_id (rt_task rt)) (t\<lparr>t_runtime_checkpoint := Some stored\<rparr>) (wd_db (ev_others E (rn_tick s) (rn_world s))) = Inr (r, d)"
    and w': "w' = (ev_others E (rn_tick s) (rn_world s))\<lparr>wd_db := d\<rparr>"
    unfolding put_checkpoint_def update_checkpoint_def by (elim ebind_InrE prod_InrE Inr_pairE) simp
  then have "stored = checkpoint_json (rn_cp s)" by (auto simp: json_object_def split: json.splits if_splits)
  with f w' s1 show ?thesis by (auto simp: flush_task_eq_Inr)
qed

text \<open>
  C22: A worker that takes over a task of the runtime V4 goes on with exactly the checkpoint that was stored last: steps,
  pending calls, reviews, memory and what has been spent are read back as they were written, and the calls of all attempts
  together stay within the budget of the task.
\<close>

theorem attempts_share_budget:
  assumes "save_checkpoint E rt s = (Inr (), s1)" and "get_task (wd_db (rn_world s1)) (t_id (rt_task rt)) = Some t"
    and "t_runtime_checkpoint (rt_task rt') = t_runtime_checkpoint t" and "rt_config rt' = rt_config rt"
    and "sane_budget (rt_config rt)" and "run_within (rt_config rt) s"
    and "attempt_run g env E' rt' (rn_sent s) w = (r, s2)"
  shows "rn_cp (resume_run E' rt' w 0 (rn_sent s)) = rn_cp s \<and> run_within (rt_config rt) s2"
proof -
  let ?s = "resume_run E' rt' w 0 (rn_sent s)"
  from saved_checkpoint [OF assms(1)] assms(2,3) have "t_runtime_checkpoint (rt_task rt') = Some (checkpoint_json (rn_cp s))" by auto
  then have cp: "rn_cp ?s = rn_cp s" by (simp add: resume_run_def read_checkpoint_json Let_def)
  then have "run_within (rt_config rt') ?s" using assms(4,6) by (simp add: run_within_def resume_run_def Let_def)
  obtain a s3 where run: "run_loop E' rt' ?s = (a, s3)" by fastforce
  have "spends (rt_config rt') ?s s3" using spending.moves_run_loop [OF refl] run by (rule movesD)
  with \<open>run_within (rt_config rt') ?s\<close> assms(4,5) have "run_within (rt_config rt) s3" by (simp add: spends_def)
  moreover have "rn_cp s2 = rn_cp s3 \<and> rn_sent s2 = rn_sent s3"
    using assms(7) run by (auto simp: attempt_run_def split: sum.splits prod.splits if_splits)
  ultimately have "run_within (rt_config rt) s2" by (simp add: run_within_def Let_def)
  with cp show ?thesis by simp
qed

lemma attempts_share_budget_witness:
  "\<exists>s1 t. save_checkpoint sample_runtime_env sample_runtime sample_run_state = (Inr (), s1)
     \<and> get_task (wd_db (rn_world s1)) 1 = Some t
     \<and> rn_cp (resume_run sample_runtime_env (sample_runtime\<lparr>rt_task := t\<rparr>) (rn_world s1) 0 []) = fresh_checkpoint 12
     \<and> run_within (sample_agent_config 16000)
          (snd (attempt_run sample_chat_config sample_run_env sample_runtime_env (sample_runtime\<lparr>rt_task := t\<rparr>) [] (rn_world s1)))"
proof -
  have cp: "rn_cp sample_run_state = fresh_checkpoint 12" "rn_sent sample_run_state = []" by (simp_all add: sample_run_state_def)
  have rt: "rt_config sample_runtime = sample_agent_config 16000" "t_id (rt_task sample_runtime) = 1"
    by (simp_all add: sample_runtime_def sample_task_fields)
  have "jok (checkpoint_json (fresh_checkpoint 12))"
    by (simp add: fresh_checkpoint_def checkpoint_json_def optional_def jopt_def)
  moreover have "wd_db (rn_world sample_run_state) = sample_chat_db [sample_leased_task] [sample_question]"
    by (simp add: sample_run_state_def)
  ultimately obtain w' where "put_checkpoint sample_runtime_env sample_runtime (fresh_checkpoint 12) 12 (rn_world sample_run_state) = Inr ((), w')"
    using sample_put_checkpoint by blast
  then have "\<exists>s1. save_checkpoint sample_runtime_env sample_runtime sample_run_state = (Inr (), s1)"
    by (simp add: save_checkpoint_def transact_def cp)
  then obtain s1 where s1: "save_checkpoint sample_runtime_env sample_runtime sample_run_state = (Inr (), s1)" by blast
  from saved_checkpoint [OF s1] obtain t where t: "get_task (wd_db (rn_world s1)) (t_id (rt_task sample_runtime)) = Some t" by blast
  let ?rt = "sample_runtime\<lparr>rt_task := t\<rparr>"
  let ?run = "attempt_run sample_chat_config sample_run_env sample_runtime_env ?rt (rn_sent sample_run_state) (rn_world s1)"
  have run: "?run = (fst ?run, snd ?run)" by simp
  from attempts_share_budget [OF s1 t _ _ _ _ run] rt cp t s1 sample_within
  show ?thesis by (intro exI [of _ s1] exI [of _ t]) simp
qed

section \<open>What a run leaves behind\<close>

definition run_over :: "runtime \<Rightarrow> chat_turn \<Rightarrow> db \<Rightarrow> bool" where
  "run_over rt turn d \<longleftrightarrow>
     reply_stored d (t_session_id (rt_task rt)) (rt_reply_key rt) turn \<and> ct_buyer turn = pt_buyer (rt_pending rt)
     \<and> (\<exists>t. get_task d (t_id (rt_task rt)) = Some t \<and> t_status t \<in> {T_SUCCEEDED, T_STALE})"

lemma ended_over: "run_ended rt stale t turn d d' \<Longrightarrow> run_over rt turn d'"
  by (auto simp: run_ended_def run_over_def split: if_splits)

definition answers :: "runtime \<Rightarrow> chat_turn option run_step \<Rightarrow> bool" where
  \<comment> \<open>a step that returns a turn has ended the run\<close>
  "answers rt m \<longleftrightarrow> (\<forall>s turn s'. m s = (Inr (Some turn), s') \<longrightarrow> run_over rt turn (wd_db (rn_world s')))"

lemma answersD: "answers rt m \<Longrightarrow> m s = (Inr (Some turn), s') \<Longrightarrow> run_over rt turn (wd_db (rn_world s'))"
  by (simp add: answers_def)

lemma answersI: "(\<And>s turn s'. m s = (Inr (Some turn), s') \<Longrightarrow> run_over rt turn (wd_db (rn_world s'))) \<Longrightarrow> answers rt m"
  by (simp add: answers_def)

lemma answers_bind: "(\<And>x. answers rt (f x)) \<Longrightarrow> answers rt (bind_step m f)"
  by (rule answersI, elim bind_step_InrE) (rule answersD)

lemma answers_then: "answers rt k \<Longrightarrow> answers rt (then_step m k)"
  by (simp add: then_step_def answers_bind)

lemma answers_none: "answers rt (ret None)"
  by (simp add: answers_def ret_def)

lemma answers_stop: "answers rt (stop E rt reason)"
proof (rule answersI)
  fix s turn s' assume "stop E rt reason s = (Inr (Some turn), s')"
  then obtain cp s1 w where "stop_run E rt (rn_stale s) reason (rn_cp s) (\<lambda>k. ev_now E (rn_tick s + k)) (ev_others E (rn_tick s) (rn_world s))
      = Inr ((turn, cp), w)" and "rn_world s1 = w" and "s' = s1\<lparr>rn_cp := cp\<rparr>"
    unfolding stop_def by (elim bind_step_InrE transact_Inr ebind_InrE) auto
  with ended_over [OF stop_run_ended] show "run_over rt turn (wd_db (rn_world s'))" by auto
qed

lemma execute_body_over:
  assumes "execute_body E rt A c err cp now w = Inr ((Some turn, stale, cp1), w')"
  shows "run_over rt turn (wd_db w')"
  using assms unfolding execute_body_def
  by (elim ebind_InrE prod_InrE if_InrE option_InrE Inr_pairE)
    (auto dest: ended_over [OF stop_run_ended] ended_over [OF finish_run_ended])

lemma answers_execute_call: "answers rt (execute_call E rt c err)"
proof (rule answersI)
  fix s turn s' assume "execute_call E rt c err s = (Inr (Some turn), s')"
  then obtain stale cp s1 w where "execute_body E rt (ev_agent E (rn_tick s)) c err (rn_cp s) (\<lambda>k. ev_now E (rn_tick s + k))
      (ev_others E (rn_tick s) (rn_world s)) = Inr ((Some turn, stale, cp), w)" and "rn_world s1 = w" and "s' = s1\<lparr>rn_cp := cp, rn_stale := stale\<rparr>"
    unfolding execute_call_def by (elim bind_step_InrE transact_Inr) auto
  with execute_body_over show "run_over rt turn (wd_db (rn_world s'))" by auto
qed

lemma answers_reject: "answers rt (reject_response E rt issue r)"
  unfolding reject_response_def by (intro answers_then answers_none)

lemma answers_accept: "answers rt (accept_response E rt p rs invalid m calls r rest)"
proof (rule answersI)
  fix s turn s' assume step: "accept_response E rt p rs invalid m calls r rest s = (Inr (Some turn), s')"
  let ?s1 = "if calls = [] \<and> rk_repair (rn_cp s) then s\<lparr>rn_cp := (rn_cp s)\<lparr>rk_json_required := True\<rparr>\<rparr> else s"
  have go_on: "answers rt (then_step f (then_step g (ret None)))" for f g by (intro answers_then answers_none)
  show "run_over rt turn (wd_db (rn_world s'))"
  proof (cases "calls = [] \<and> rk_repair (rn_cp s) \<and> \<not> ac_structured_finish (rt_config rt)")
    case True
    with step show ?thesis by (simp add: accept_response_def answersD [OF answers_stop])
  next
    case False
    note rest = step [unfolded accept_response_def Let_def if_not_P [OF False]]
    show ?thesis
    proof (cases "protocol_issue p rs invalid calls")
      case None
      with rest show ?thesis by (simp only: option.case) (rule answersD [OF go_on])
    next
      case (Some issue)
      with rest show ?thesis by (simp only: option.case) (rule answersD [OF answers_reject])
    qed
  qed
qed

lemma answers_handle: "answers rt (handle_response E rt p rs r)"
  by (rule answersI)
    (auto simp: handle_response_def Let_def split: if_splits sum.splits dest: answersD [OF answers_accept] answersD [OF answers_reject])

lemma answers_model_step: "answers rt (model_step E rt)"
proof -
  have "answers rt (bind_step m (handle_response E rt p rs))" for m p rs by (intro answers_bind answers_handle)
  then have "answers rt (\<lambda>s1. bind_step m (handle_response E rt p rs) (f s1))" for m p rs f by (simp add: answers_def)
  then have "answers rt (bind_step b (\<lambda>x s1. bind_step (m x) (handle_response E rt p rs) (f x s1)))" for b m p rs f
    by (intro answers_bind) blast
  note answered = answersD [OF this]
  have ask: "answers rt (ask_model_step E rt rs)" for rs
    by (intro answersI) (auto simp: ask_model_step_def split: prod.splits intro: answered)
  then have "answers rt (\<lambda>s. ask_model_step E rt rs (f s))" for rs f by (simp add: answers_def)
  then have "answers rt (bind_step m (\<lambda>rs. then_step (k rs) (\<lambda>s. ask_model_step E rt rs (f s))))" for m k f
    by (intro answers_bind answers_then) blast
  from answersD [OF this] show ?thesis by (intro answersI) (auto simp: model_step_def split: if_splits)
qed

lemma answers_iteration: "answers rt (iteration E rt)"
proof -
  have "answers rt (pending_step E rt c)" for c
    unfolding pending_step_def by (intro answers_then answers_bind answers_execute_call)
  then have "answers rt (\<lambda>s. if \<not> current then stop E rt ''BUSINESS_STATE_CHANGED'' s
      else case rk_pending (rn_cp s) of c # _ \<Rightarrow> pending_step E rt c s | [] \<Rightarrow> model_step E rt s)" for current
    by (intro answersI)
      (auto split: if_splits list.splits dest: answersD [OF answers_stop] answersD [OF answers_model_step] answersD)
  then have "answers rt (loop_body E rt)" unfolding loop_body_def by (intro answers_then answers_bind) blast
  then show ?thesis
    by (intro answersI) (auto simp: iteration_def split: prod.splits sum.splits run_error.splits dest: answersD answersD [OF answers_stop])
qed

text \<open>
  C21: A run of the runtime V4 that returns a turn has stored exactly this turn as the reply to the buyer's message and ended
  its task, as succeeded or as stale, whatever happened on the way: the reply that a repeated request finds is the one the
  caller gets.
\<close>

theorem run_loop_replies:
  assumes "run_loop E rt s = (Inr turn, s')"
  shows "run_over rt turn (wd_db (rn_world s'))"
  using assms
proof (induction E rt s rule: run_loop.induct)
  case (1 E rt s)
  obtain a s1 where round: "iteration E rt s = (a, s1)" by fastforce
  show ?case
  proof (cases "a = Inr None")
    case True
    with 1(1) [OF round [symmetric] True refl] 1(2) round show ?thesis by (simp add: run_loop.simps [of E rt s])
  next
    case False
    with 1(2) round have "iteration E rt s = (Inr (Some turn), s')"
      by (auto simp: run_loop.simps [of E rt s] split: sum.splits option.splits)
    then show ?thesis by (rule answersD [OF answers_iteration])
  qed
qed

abbreviation sample_turn :: turn_result where
  "sample_turn \<equiv> turn_failure ''cannot be handled safely now, please try later'' None"

definition sample_refusal :: message where
  "sample_refusal = \<lparr>ms_id = 2, ms_source_id = None, ms_public_seq = None, ms_session_id = 1, ms_role = AGENT_MESSAGE,
     ms_content = ''cannot be handled safely now, please try later'', ms_request_id = ''request1:agent'', ms_request_fingerprint = None,
     ms_agent_outcome = Some ''SAFE_FAILURE'', ms_formal_offer_id = None\<rparr>"

lemma sample_refused:
  "\<exists>turn. persist_result 1 sample_question (reply_request_id ''request1'') sample_turn False (sample_chat_db ts [sample_question])
     = Inr (turn, sample_chat_db ts [sample_question, sample_refusal]) \<and> ct_agent turn = sample_refusal"
  by (simp add: persist_result_def turn_failure_def post_message_def message_by_request_id_def sample_chat_db_def sample_question_def
      sample_refusal_def trows_def tadd_def Let_def reply_request_id_def)

lemma sample_projected:
  "\<exists>row x. project sample_refusal (Some 1) None False \<lparr>tx_rows = [], tx_next = 1, tx_contexts = [], tx_sources = []\<rparr> = Inr (row, x)
     \<and> tget (tx_contexts x) 1 = Some (new_context\<lparr>sx_next_seq := 2\<rparr>)"
  by (simp add: project_def append_entry_def public_entry_def context_of_session_def row_of_key_def tadd_ignore_def tadd_def Let_def trows_def
      sample_refusal_def new_context_def tput_def)

lemma sample_ended:
  assumes "t = sample_leased_task\<lparr>t_runtime_checkpoint := j\<rparr>" and calls: "wd_calls w = []"
  shows "\<exists>r d'. complete_success sample_hash 1 ''lease'' (JObj [(''stop_reason'', JStr reason), (''runtime'', JStr ''V4'')])
    (run_usage sample_runtime w) 12 (sample_chat_db [t] ms) = Inr (r, d')"
proof -
  have lease: "leased_task (sample_chat_db [t] ms) 1 ''lease'' 12 = Inr t"
    by (simp add: assms leased_task_def locked_task_def active_lease_def sample_chat_rows sample_task_fields seconds_def)
  have usage: "\<exists>u. validated_usage (run_usage sample_runtime w) = Inr u"
    by (simp add: run_usage_def calls trows_def sample_runtime_def sample_agent_config_def validated_usage_def build_usage_def strip_def
        is_space_def not_negative_def estimated_cost_def)
  have "task_checks t" using sample_task_fields(10) by (simp add: assms task_checks_def)
  then show ?thesis using usage
    by (auto simp: complete_success_def json_object_def lease flush_task_eq_Inr task_checks_def clear_lease_def)
qed

lemma finish_run_result:
  assumes cp1: "cp1 = cp\<lparr>rk_terminal := Some (formal_commitment t), rk_stop := Some reason, rk_pending := []\<rparr>"
    and "persist_result (t_session_id (rt_task rt)) (pt_buyer (rt_pending rt)) (rt_reply_key rt) t (pt_replay (rt_pending rt)) (wd_db w)
      = Inr (turn, d)"
    and "project (ct_agent turn) (Some (t_id (rt_task rt))) None False (wd_tx w) = Inr (row, x)"
    and "keep_context rt stale cp1 (rk_memory cp) x = Inr x1"
    and "put_checkpoint E rt cp1 (fst clock) (w\<lparr>wd_db := d, wd_tx := x1\<rparr>) = Inr ((), w1)"
    and "end_task E rt stale reason (snd clock) w1 = Inr ((), w2)"
  shows "finish_run E rt stale t None reason cp clock w = Inr ((turn, cp1), w2)"
  unfolding finish_run_def Let_def option.case cp1 [symmetric] assms(2) by (simp only: assms(3-6) ebind_Inr prod.case)

definition sample_late_run :: run_state where
  \<comment> \<open>the time for the run is over\<close>
  "sample_late_run = sample_run_state\<lparr>rn_cp := fresh_checkpoint (12 - seconds 120)\<rparr>"

lemma sample_late_stop:
  "\<exists>turn s'. stop sample_runtime_env sample_runtime ''WALL_TIME'' (sample_late_run\<lparr>rn_tick := 1\<rparr>) = (Inr (Some turn), s')"
proof -
  let ?w = "rn_world sample_run_state" and ?cp = "fresh_checkpoint (12 - seconds 120)"
  let ?cp1 = "?cp\<lparr>rk_terminal := Some False, rk_stop := Some ''WALL_TIME'', rk_pending := []\<rparr>"
  have w: "wd_db ?w = sample_chat_db [sample_leased_task] [sample_question]" "wd_calls ?w = []"
    "wd_tx ?w = \<lparr>tx_rows = [], tx_next = 1, tx_contexts = [], tx_sources = []\<rparr>" by (simp_all add: sample_run_state_def)
  have rt: "t_id (rt_task sample_runtime) = 1" "t_session_id (rt_task sample_runtime) = 1" "rt_token sample_runtime = ''lease''"
    "rt_reply_key sample_runtime = reply_request_id ''request1''" "pt_buyer (rt_pending sample_runtime) = sample_question"
    "pt_replay (rt_pending sample_runtime) = False" "ix_version (rt_initial sample_runtime) = 1"
    by (simp_all add: sample_runtime_def sample_task_fields)
  obtain turn where turn: "persist_result 1 sample_question (reply_request_id ''request1'') sample_turn False (wd_db ?w)
      = Inr (turn, sample_chat_db [sample_leased_task] [sample_question, sample_refusal])" "ct_agent turn = sample_refusal"
    using sample_refused w(1) by auto
  obtain row x where x: "project sample_refusal (Some 1) None False (wd_tx ?w) = Inr (row, x)"
    "tget (tx_contexts x) 1 = Some (new_context\<lparr>sx_next_seq := 2\<rparr>)" using sample_projected w(3) by auto
  have "context_of_session 1 x = (new_context\<lparr>sx_next_seq := 2\<rparr>, x)"
    using x(2) by (simp add: context_of_session_def tadd_ignore_def Let_def)
  then obtain x1 where x1: "keep_context sample_runtime None ?cp1 None x = Inr x1"
    by (simp add: keep_context_def rt keep_summary_def keep_memory_def fresh_checkpoint_def new_context_def)
  let ?w1 = "?w\<lparr>wd_db := sample_chat_db [sample_leased_task] [sample_question, sample_refusal], wd_tx := x1\<rparr>"
  let ?t = "sample_leased_task\<lparr>t_runtime_checkpoint := Some (checkpoint_json ?cp1)\<rparr>"
  have "jok (checkpoint_json ?cp1)" by (simp add: fresh_checkpoint_def checkpoint_json_def optional_def jopt_def)
  then have put: "put_checkpoint sample_runtime_env sample_runtime ?cp1 12 ?w1
      = Inr ((), ?w1\<lparr>wd_db := sample_chat_db [?t] [sample_question, sample_refusal]\<rparr>)"
    by (rule sample_put_exact) simp
  obtain r d' where "complete_success sample_hash 1 ''lease'' (JObj [(''stop_reason'', JStr ''WALL_TIME''), (''runtime'', JStr ''V4'')])
      (run_usage sample_runtime (?w1\<lparr>wd_db := sample_chat_db [?t] [sample_question, sample_refusal]\<rparr>)) 12
      (sample_chat_db [?t] [sample_question, sample_refusal]) = Inr (r, d')"
    using sample_ended [OF refl] w(2) by fastforce
  then have "\<exists>w2. end_task sample_runtime_env sample_runtime None ''WALL_TIME'' 12
      (?w1\<lparr>wd_db := sample_chat_db [?t] [sample_question, sample_refusal]\<rparr>) = Inr ((), w2)"
    by (simp add: end_task_def rt sample_runtime_env_def)
  then obtain w2 where over: "end_task sample_runtime_env sample_runtime None ''WALL_TIME'' 12
      (?w1\<lparr>wd_db := sample_chat_db [?t] [sample_question, sample_refusal]\<rparr>) = Inr ((), w2)" ..
  have "finish_run sample_runtime_env sample_runtime None sample_turn None ''WALL_TIME'' ?cp (12, 12) ?w = Inr ((turn, ?cp1), w2)"
  proof (rule finish_run_result)
    show "?cp1 = ?cp\<lparr>rk_terminal := Some (formal_commitment sample_turn), rk_stop := Some ''WALL_TIME'', rk_pending := []\<rparr>"
      by (simp add: formal_commitment_def turn_failure_def)
    show "keep_context sample_runtime None ?cp1 (rk_memory ?cp) x = Inr x1" using x1 by (simp add: fresh_checkpoint_def)
  qed (use turn(1) x(1) put over in \<open>simp_all only: rt turn(2) fst_conv snd_conv\<close>)
  then have "stop_run sample_runtime_env sample_runtime None ''WALL_TIME'' ?cp (\<lambda>k. 12) ?w = Inr ((turn, ?cp1), w2)"
    by (simp add: stop_run_def) (simp add: fresh_checkpoint_def)
  moreover have "active_task sample_runtime 12 ?w = Inr sample_leased_task"
    by (simp add: active_task_def rt w(1) sample_lease_held)
  ultimately show ?thesis
    by (simp add: stop_def bind_step_def transact_def sample_late_run_def) (simp add: sample_run_state_def)
qed

lemma run_loop_replies_witness:
  "\<exists>turn s'. run_loop sample_runtime_env sample_runtime sample_late_run = (Inr turn, s')
     \<and> reply_stored (wd_db (rn_world s')) 1 (reply_request_id ''request1'') turn"
proof -
  obtain turn s' where s: "stop sample_runtime_env sample_runtime ''WALL_TIME'' (sample_late_run\<lparr>rn_tick := 1\<rparr>) = (Inr (Some turn), s')"
    using sample_late_stop by blast
  have "check_wall sample_runtime_env sample_runtime sample_late_run = (Inl (OverBudget ''WALL_TIME''), sample_late_run\<lparr>rn_tick := 1\<rparr>)"
    by (simp add: check_wall_def Let_def sample_late_run_def sample_run_state_def sample_runtime_def sample_agent_config_def sample_budget_def
        fresh_checkpoint_def)
  then have "iteration sample_runtime_env sample_runtime sample_late_run = (Inr (Some turn), s')"
    using s by (simp add: iteration_def loop_body_def then_step_def bind_step_def)
  then have run: "run_loop sample_runtime_env sample_runtime sample_late_run = (Inr turn, s')" by (simp add: run_loop.simps)
  from run_loop_replies [OF run] run show ?thesis by (auto simp: run_over_def sample_runtime_def sample_task_fields)
qed

end
